(* ===== verification/Prelude.thy ===== *)
theory Prelude
  imports Main "HOL-Library.Word"
begin

section \<open>Shared types, hint collections and generic lemmas\<close>

text \<open>
  The C integer types of the flight software are fixed-width words of
  \<^verbatim>\<open>HOL-Library.Word\<close>: arithmetic wraps, \<open>unat\<close> and \<open>uint\<close> read a value as unsigned,
  \<open>sint\<close> as two's complement.  \<open>size_t\<close> is 64 bits wide, as on the \<^verbatim>\<open>pc-linux\<close> target.
  Pointers that may be \<open>NULL\<close> are \<open>option\<close> values.  The collections below gather the facts
  that the component theories pass to \<open>simp\<close> and \<open>auto\<close>.
\<close>

unbundle bit_operations_syntax

type_synonym uint8 = "8 word"
type_synonym uint16 = "16 word"
type_synonym int16 = "16 word"
type_synonym uint32 = "32 word"
type_synonym size_t = "64 word"

text \<open>
  \<open>CFE_Status_t\<close> values are signed 32-bit codes, negative for errors.  The codes that the
  modelled routines return are the constructors below.  Where a routine returns a size on
  success and a negative code on failure, the model returns a sum.
\<close>

datatype CFE_Status =
    CFE_SUCCESS
  | CFE_ES_BAD_ARGUMENT
  | CFE_ES_ERR_RESOURCEID_NOT_VALID
  | CFE_ES_NO_RESOURCE_IDS_AVAILABLE
  | CFE_ES_BUFFER_NOT_IN_POOL
  | CFE_ES_ERR_MEM_BLOCK_SIZE
  | CFE_ES_POOL_BLOCK_INVALID
  | CFE_STATUS_EXTERNAL_RESOURCE_FAIL
  | CFE_SB_BAD_ARGUMENT
  | CFE_SB_TIME_OUT
  | CFE_SB_NO_MESSAGE
  | CFE_SB_MSG_TOO_BIG
  | CFE_SB_BUF_ALOC_ERR
  | CFE_SB_MAX_PIPES_MET
  | CFE_SB_PIPE_CR_ERR
  | CFE_SB_PIPE_RD_ERR
  | CFE_SB_MAX_MSGS_MET
  | CFE_SB_MAX_DESTS_MET
  | CFE_SB_INTERNAL_ERR
  | CFE_SB_BUFFER_INVALID
  | CFE_MSG_BAD_ARGUMENT
  | CFE_MSG_WRONG_MSG_TYPE
  | CFE_TIME_BAD_ARGUMENT
  | CFE_TIME_TOO_MANY_SYNCH_CALLBACKS
  | CFE_TIME_CALLBACK_NOT_REGISTERED
  | CFE_TBL_INFO_UPDATED
  | CFE_TBL_INFO_RECOVERED_TBL
  | CFE_ES_CDS_ALREADY_EXISTS
  | CFE_TBL_ERR_INVALID_HANDLE
  | CFE_TBL_ERR_NEVER_LOADED
  | CFE_TBL_ERR_UNREGISTERED

text \<open>Facts about fields an operation leaves alone, and facts that an invariant is kept.\<close>

named_theorems frame
named_theorems inv_intro

section \<open>Words\<close>

lemma unat_mod_word: "unat (a mod b) = unat a mod unat (b :: 'a::len word)"
  by (simp add: unat_mod_distrib)

lemma unat_of_nat_small:
  "n < 2 ^ LENGTH('a) \<Longrightarrow> unat (of_nat n :: 'a::len word) = n"
  by (simp add: unat_of_nat take_bit_nat_eq_self_iff)

lemma of_nat_unat_bound:
  "i < unat (w :: 'a::len word) \<Longrightarrow> unat (of_nat i :: 'a word) = i"
  using unsigned_less [of w] by (intro unat_of_nat_small) (simp add: less_trans)

lemma unat_plus_small:
  "unat a + unat b < 2 ^ LENGTH('a) \<Longrightarrow> unat (a + b) = unat a + unat (b :: 'a::len word)"
  by (simp add: unat_word_ariths)

lemma unat_Suc_small:
  "unat a + 1 < 2 ^ LENGTH('a) \<Longrightarrow> unat (a + 1) = unat (a :: 'a::len word) + 1"
  by (simp add: unat_word_ariths)

lemma unat_minus_one:
  "a \<noteq> 0 \<Longrightarrow> unat (a - 1) = unat (a :: 'a::len word) - 1"
  by (simp add: unat_minus_one)

lemma take_bit_small:
  "unat (a :: 'a::len word) < 2 ^ n \<Longrightarrow> take_bit n a = a"
  by (simp add: word_unat_eq_iff unsigned_take_bit_eq take_bit_nat_eq_self_iff)

lemma not_bit_small:
  "unat (a :: 'a::len word) < 2 ^ n \<Longrightarrow> n \<le> k \<Longrightarrow> \<not> bit a k"
  by (metis bit_take_bit_iff leD take_bit_small)

lemma unat_ucast_small:
  "unat x < 2 ^ LENGTH('b) \<Longrightarrow> unat (ucast (x :: 'a::len word) :: 'b::len word) = unat x"
  by (simp add: unsigned_ucast_eq take_bit_nat_eq_self)

lemma unat_ucast_up:
  assumes "LENGTH('a) \<le> LENGTH('b)"
  shows "unat (ucast (x :: 'a::len word) :: 'b::len word) = unat x"
proof (rule unat_ucast_small)
  have "unat x < 2 ^ LENGTH('a)" by (rule unsigned_less)
  also have "\<dots> \<le> (2 :: nat) ^ LENGTH('b)" using assms by (simp add: power_increasing)
  finally show "unat x < 2 ^ LENGTH('b)" .
qed

lemma unat_disjoint_or:
  assumes "a AND b = (0 :: 'a::len word)"
  shows "unat (a OR b) = unat a + unat b"
proof -
  have "unat a AND unat b = 0"
    using assms by (simp flip: unsigned_and_eq)
  then show ?thesis by (simp add: unsigned_or_eq disjunctive_add_eq_or)
qed

section \<open>Lists read and written by index\<close>

lemma nth_list_update_if:
  "i < length xs \<Longrightarrow> (xs[i := v]) ! j = (if j = i then v else xs ! j)"
  by (simp add: nth_list_update)

end
