(* ===== verification/Resource_Id.thy ===== *)
theory Resource_Id
  imports Prelude
begin

section \<open>Resource identifiers (cfe/modules/resourceid)\<close>

text \<open>
  A cFE resource ID is a 32-bit value made of a base (the resource type, in the upper 16 bits)
  and a serial number (the lower 16 bits).  A table of \<open>TableSize\<close> entries uses the serial
  number modulo the table size as the index of the entry.  The model is of the repository's
  default "simple" mode, where the wrap and unwrap macros are the identity and
  \<open>CFE_RESOURCEID_MARK\<close> is 0.
\<close>

type_synonym CFE_ResourceId = uint32

definition CFE_RESOURCEID_MAX :: uint32 where
  "CFE_RESOURCEID_MAX = 0xFFFF"

definition CFE_RESOURCEID_UNDEFINED :: CFE_ResourceId where
  "CFE_RESOURCEID_UNDEFINED = 0"

definition CFE_RESOURCEID_RESERVED :: CFE_ResourceId where
  "CFE_RESOURCEID_RESERVED = 0xFFFFFFFF"

definition CFE_ResourceId_IsDefined :: "CFE_ResourceId \<Rightarrow> bool" where
  "CFE_ResourceId_IsDefined r \<longleftrightarrow> r \<noteq> CFE_RESOURCEID_UNDEFINED"

definition CFE_ResourceId_GetBase :: "CFE_ResourceId \<Rightarrow> uint32" where
  "CFE_ResourceId_GetBase r = r AND NOT CFE_RESOURCEID_MAX"

definition CFE_ResourceId_GetSerial :: "CFE_ResourceId \<Rightarrow> uint32" where
  "CFE_ResourceId_GetSerial r = r AND CFE_RESOURCEID_MAX"

text \<open>The first argument says whether the caller's output pointer is non-null.\<close>

definition CFE_ResourceId_ToIndex ::
  "bool \<Rightarrow> CFE_ResourceId \<Rightarrow> uint32 \<Rightarrow> uint32 \<Rightarrow> CFE_Status + uint32" where
  "CFE_ResourceId_ToIndex has_idx rid BaseValue TableSize =
     (if \<not> has_idx then Inl CFE_ES_BAD_ARGUMENT
      else let Serial = rid - BaseValue in
        if CFE_RESOURCEID_MAX < Serial \<or> TableSize = 0
        then Inl CFE_ES_ERR_RESOURCEID_NOT_VALID
        else Inr (Serial mod TableSize))"

text \<open>
  The \<open>do\<close>--\<open>while\<close> loop of \<open>CFE_ResourceId_FindNext\<close>: \<open>Count\<close> is tested before each
  candidate, so the loop is structural in it.
\<close>

fun find_next_loop ::
  "(CFE_ResourceId \<Rightarrow> bool) \<Rightarrow> uint32 \<Rightarrow> uint32 \<Rightarrow> nat \<Rightarrow> uint32 \<Rightarrow> CFE_ResourceId" where
  "find_next_loop CheckFunc ResourceType TableSize 0 Serial = CFE_RESOURCEID_UNDEFINED"
| "find_next_loop CheckFunc ResourceType TableSize (Suc Count) Serial =
     (let S1 = Serial + 1;
          S2 = (if CFE_RESOURCEID_MAX \<le> S1 then S1 mod TableSize else S1);
          CheckId = ResourceType + S2
      in if CheckFunc CheckId
         then find_next_loop CheckFunc ResourceType TableSize Count S2
         else CheckId)"

definition CFE_ResourceId_FindNext ::
  "CFE_ResourceId \<Rightarrow> uint32 \<Rightarrow> (CFE_ResourceId \<Rightarrow> bool) option \<Rightarrow> CFE_ResourceId" where
  "CFE_ResourceId_FindNext StartId TableSize CheckFunc =
     (case CheckFunc of
        None \<Rightarrow> CFE_RESOURCEID_UNDEFINED
      | Some chk \<Rightarrow>
          find_next_loop chk (CFE_ResourceId_GetBase StartId) TableSize (unat TableSize)
            (CFE_ResourceId_GetSerial StartId))"

section \<open>Base and serial\<close>

lemma GetBase_plus_GetSerial:
  "CFE_ResourceId_GetBase r + CFE_ResourceId_GetSerial r = r"
proof -
  have "CFE_ResourceId_GetBase r + CFE_ResourceId_GetSerial r
      = CFE_ResourceId_GetBase r OR CFE_ResourceId_GetSerial r"
    by (rule disjunctive_add) (simp add: CFE_ResourceId_GetBase_def CFE_ResourceId_GetSerial_def bit_simps)
  also have "\<dots> = r"
    by (rule bit_word_eqI)
       (auto simp: CFE_ResourceId_GetBase_def CFE_ResourceId_GetSerial_def bit_simps)
  finally show ?thesis .
qed

lemma unat_GetSerial_le: "unat (CFE_ResourceId_GetSerial r) \<le> 0xFFFF"
proof -
  have "CFE_ResourceId_GetSerial r \<le> CFE_RESOURCEID_MAX"
    unfolding CFE_ResourceId_GetSerial_def by (rule word_and_le1)
  then show ?thesis by (simp add: word_le_nat_alt CFE_RESOURCEID_MAX_def)
qed

section \<open>The search visits every residue class\<close>

lemma next_serial:
  assumes "0 < unat ts" "unat ts \<le> 0xFFFF" "unat s \<le> 0xFFFF"
  shows "unat (if CFE_RESOURCEID_MAX \<le> s + 1 then (s + 1) mod ts else s + 1) < 0xFFFF"
    and "unat (if CFE_RESOURCEID_MAX \<le> s + 1 then (s + 1) mod ts else s + 1) mod unat ts
       = (unat s + 1) mod unat ts"
proof -
  have s1: "unat (s + 1) = unat s + 1"
    using assms(3) by (simp add: unat_Suc_small)
  have "unat ((s + 1) mod ts) < unat ts"
    using assms(1) by (simp add: unat_mod_word)
  then show "unat (if CFE_RESOURCEID_MAX \<le> s + 1 then (s + 1) mod ts else s + 1) < 0xFFFF"
    using assms s1 by (simp add: CFE_RESOURCEID_MAX_def word_le_nat_alt not_le)
  show "unat (if CFE_RESOURCEID_MAX \<le> s + 1 then (s + 1) mod ts else s + 1) mod unat ts
       = (unat s + 1) mod unat ts"
    using s1 by (simp add: unat_mod_word)
qed

definition candidate :: "uint32 \<Rightarrow> nat \<Rightarrow> nat \<Rightarrow> uint32 \<Rightarrow> bool" where
  "candidate ts i k s' \<longleftrightarrow> unat s' < 0xFFFF \<and> unat s' mod unat ts = (i + k) mod unat ts"

lemma find_next_loop_spec:
  assumes "0 < unat ts" "unat ts \<le> 0xFFFF" "unat s \<le> 0xFFFF"
  shows "(\<exists>s' k. 1 \<le> k \<and> k \<le> c \<and> candidate ts (unat s) k s' \<and> \<not> chk (ty + s')
            \<and> find_next_loop chk ty ts c s = ty + s')
       \<or> (find_next_loop chk ty ts c s = CFE_RESOURCEID_UNDEFINED
          \<and> (\<forall>k \<in> {1..c}. \<exists>s'. candidate ts (unat s) k s' \<and> chk (ty + s')))"
  using assms(3)
proof (induction c arbitrary: s)
  case 0
  then show ?case by simp
next
  case (Suc c)
  define t where "t = (if CFE_RESOURCEID_MAX \<le> s + 1 then (s + 1) mod ts else s + 1)"
  have t: "unat t < 0xFFFF" "unat t mod unat ts = (unat s + 1) mod unat ts"
    using next_serial [OF assms(1,2) Suc.prems] by (simp_all add: t_def)
  then have t1: "candidate ts (unat s) 1 t" by (simp add: candidate_def)
  have shift: "candidate ts (unat s) (Suc k) s' \<longleftrightarrow> candidate ts (unat t) k s'" for k s'
    using t(2) by (simp add: candidate_def) (metis (no_types, opaque_lifting) mod_add_left_eq
        add_Suc_right add_Suc add.commute add.left_commute One_nat_def plus_1_eq_Suc)
  have step: "find_next_loop chk ty ts (Suc c) s
      = (if chk (ty + t) then find_next_loop chk ty ts c t else ty + t)"
    by (simp add: t_def Let_def)
  show ?case
  proof (cases "chk (ty + t)")
    case False
    with step t1 show ?thesis by (intro disjI1 exI [of _ t] exI [of _ 1]) simp
  next
    case True
    have "unat t \<le> 0xFFFF" using t(1) by simp
    from Suc.IH [OF this] show ?thesis
    proof
      assume "\<exists>s' k. 1 \<le> k \<and> k \<le> c \<and> candidate ts (unat t) k s' \<and> \<not> chk (ty + s')
            \<and> find_next_loop chk ty ts c t = ty + s'"
      then obtain s' k where "k \<le> c" "candidate ts (unat t) k s'" "\<not> chk (ty + s')"
          "find_next_loop chk ty ts c t = ty + s'" by blast
      with True step shift show ?thesis
        by (intro disjI1 exI [of _ s'] exI [of _ "Suc k"]) simp
    next
      assume r: "find_next_loop chk ty ts c t = CFE_RESOURCEID_UNDEFINED
          \<and> (\<forall>k \<in> {1..c}. \<exists>s'. candidate ts (unat t) k s' \<and> chk (ty + s'))"
      have "\<exists>s'. candidate ts (unat s) k s' \<and> chk (ty + s')" if "k \<in> {1..Suc c}" for k
      proof (cases "k = 1")
        case True
        with t1 \<open>chk (ty + t)\<close> show ?thesis by blast
      next
        case False
        with that have "k = Suc (k - 1)" "k - 1 \<in> {1..c}" by auto
        with r shift show ?thesis by metis
      qed
      with r True step show ?thesis by (intro disjI2) simp
    qed
  qed
qed

section \<open>Tables indexed by resource ID\<close>

text \<open>
  How the callers use the two routines together: a slot check that maps the candidate to its
  table index and reports whether that entry is in use (an ID out of range counts as used).
\<close>

definition slot_check :: "uint32 \<Rightarrow> uint32 \<Rightarrow> (nat \<Rightarrow> bool) \<Rightarrow> CFE_ResourceId \<Rightarrow> bool" where
  "slot_check base ts in_use rid =
     (case CFE_ResourceId_ToIndex True rid base ts of
        Inl e \<Rightarrow> True | Inr i \<Rightarrow> in_use (unat i))"

lemma ToIndex_base_plus:
  assumes "unat s' \<le> 0xFFFF" "ts \<noteq> 0"
  shows "CFE_ResourceId_ToIndex True (base + s') base ts = Inr (s' mod ts)"
  using assms
  by (simp add: CFE_ResourceId_ToIndex_def CFE_RESOURCEID_MAX_def word_less_nat_alt)

lemma ToIndex_bound:
  "CFE_ResourceId_ToIndex p rid base ts = Inr i \<Longrightarrow> unat i < unat ts"
  by (auto simp: CFE_ResourceId_ToIndex_def Let_def unat_mod_word unat_gt_0 split: if_splits)

lemma base_plus_defined:
  assumes "CFE_ResourceId_GetBase b = b" "b \<noteq> 0" "unat s' \<le> 0xFFFF"
  shows "b + s' \<noteq> CFE_RESOURCEID_UNDEFINED" "CFE_ResourceId_GetBase (b + s') = b"
proof -
  have mask: "CFE_RESOURCEID_MAX = mask 16"
    by (simp add: CFE_RESOURCEID_MAX_def mask_eq_exp_minus_1)
  have nb: "\<not> bit b n" if "n < 16" for n
  proof
    assume "bit b n"
    then have "bit (CFE_ResourceId_GetBase b) n" using assms(1) by simp
    with that show False by (simp add: CFE_ResourceId_GetBase_def mask bit_simps)
  qed
  have ns: "\<not> bit s' n" if "16 \<le> n" for n
    using that assms(3) by (simp add: not_bit_small [of _ 16])
  have or: "b + s' = b OR s'"
    by (rule disjunctive_add) (use nb ns not_le in blast)
  have "CFE_ResourceId_GetBase (b OR s') = b"
    by (rule bit_word_eqI) (use nb ns in \<open>auto simp: CFE_ResourceId_GetBase_def mask bit_simps\<close>)
  with or show g: "CFE_ResourceId_GetBase (b + s') = b" by simp
  show "b + s' \<noteq> CFE_RESOURCEID_UNDEFINED"
  proof
    assume "b + s' = CFE_RESOURCEID_UNDEFINED"
    with g have "b = 0" by (simp add: CFE_RESOURCEID_UNDEFINED_def CFE_ResourceId_GetBase_def)
    with assms(2) show False by simp
  qed
qed

end
