(* ===== verification/Gen_Pool.thy ===== *)
theory Gen_Pool
  imports Resource_Id "HOL-Library.Multiset"
begin

section \<open>The generic memory pool (cfe/modules/es, cfe_es_generic_pool.c)\<close>

text \<open>
  A pool hands out blocks from an area of \<open>PoolTotalSize\<close> bytes.  Each block is preceded by
  a 24-byte descriptor.  Blocks of one bucket size that were put back form a stack, linked
  through the descriptors.  The generic code reaches the descriptors through the record's
  \<open>Retrieve\<close> and \<open>Commit\<close> callbacks; here the storage behind them is the map \<open>Store\<close> from
  descriptor offsets to descriptors, and the two callback fields give the status that each
  access returns.  A failed commit leaves the storage as it was.
\<close>

definition CFE_ES_CHECK_PATTERN :: uint16 where
  "CFE_ES_CHECK_PATTERN = 0x5a5a"

definition CFE_ES_MEMORY_ALLOCATED :: uint16 where
  "CFE_ES_MEMORY_ALLOCATED = 0xaaaa"

definition CFE_ES_MEMORY_DEALLOCATED :: uint16 where
  "CFE_ES_MEMORY_DEALLOCATED = 0xdddd"

definition CFE_ES_GENERIC_POOL_DESCRIPTOR_SIZE :: size_t where
  "CFE_ES_GENERIC_POOL_DESCRIPTOR_SIZE = 24"

definition CFE_PLATFORM_ES_POOL_MAX_BUCKETS :: nat where
  "CFE_PLATFORM_ES_POOL_MAX_BUCKETS = 17"

record GenPoolBD =
  CheckBits :: uint16
  Allocated :: uint16
  ActualSize :: size_t
  NextOffset :: size_t

record GenPoolBucket =
  BlockSize :: size_t
  FirstOffset :: size_t
  AllocationCount :: uint32
  ReleaseCount :: uint32
  RecycleCount :: uint32

record GenPoolRecord =
  PoolTotalSize :: size_t
  PoolMaxOffset :: size_t
  AlignMask :: size_t
  TailPosition :: size_t
  Retrieve :: "size_t \<Rightarrow> CFE_Status"
  Commit :: "size_t \<Rightarrow> CFE_Status"
  PoolAllocationCount :: uint32
  ValidationErrorCount :: uint32
  NumBuckets :: uint16
  Buckets :: "GenPoolBucket list"
  Store :: "size_t \<Rightarrow> GenPoolBD"

text \<open>Writing one bucket of the table, one descriptor of the storage.\<close>

definition set_bucket :: "nat \<Rightarrow> GenPoolBucket \<Rightarrow> GenPoolRecord \<Rightarrow> GenPoolRecord" where
  "set_bucket i b P = P\<lparr>Buckets := (Buckets P)[i := b]\<rparr>"

definition set_desc :: "size_t \<Rightarrow> GenPoolBD \<Rightarrow> GenPoolRecord \<Rightarrow> GenPoolRecord" where
  "set_desc d bd P = P\<lparr>Store := (Store P)(d := bd)\<rparr>"

subsection \<open>Finding a bucket\<close>

function find_bucket_loop :: "GenPoolRecord \<Rightarrow> size_t \<Rightarrow> nat \<Rightarrow> nat" where
  "find_bucket_loop P ReqSize Index =
     (if Index < unat (NumBuckets P) \<and> \<not> ReqSize \<le> BlockSize (Buckets P ! Index)
      then find_bucket_loop P ReqSize (Suc Index) else Index)"
  by pat_completeness auto
termination
  by (relation "measure (\<lambda>(P, ReqSize, Index). unat (NumBuckets P) - Index)") auto

declare find_bucket_loop.simps [simp del]

definition CFE_ES_GenPoolFindBucket :: "GenPoolRecord \<Rightarrow> size_t \<Rightarrow> uint16" where
  "CFE_ES_GenPoolFindBucket P ReqSize = NumBuckets P - of_nat (find_bucket_loop P ReqSize 0)"

text \<open>The pointer to a bucket is the index of the bucket in the table; \<open>None\<close> is \<open>NULL\<close>.\<close>

definition CFE_ES_GenPoolGetBucketState :: "GenPoolRecord \<Rightarrow> uint16 \<Rightarrow> nat option" where
  "CFE_ES_GenPoolGetBucketState P BucketId =
     (let Index = NumBuckets P - BucketId
      in if NumBuckets P \<le> Index then None else Some (unat Index))"

subsection \<open>Getting a block\<close>

definition CFE_ES_GenPoolRecyclePoolBlock ::
  "GenPoolRecord \<Rightarrow> uint16 \<Rightarrow> size_t \<Rightarrow> (CFE_Status + size_t) \<times> GenPoolRecord" where
  "CFE_ES_GenPoolRecyclePoolBlock P BucketId NewSize =
     (case CFE_ES_GenPoolGetBucketState P BucketId of
        None \<Rightarrow> (Inl CFE_ES_BUFFER_NOT_IN_POOL, P)
      | Some i \<Rightarrow>
        let b = Buckets P ! i in
        if RecycleCount b = ReleaseCount b \<or> FirstOffset b = 0
        then (Inl CFE_ES_BUFFER_NOT_IN_POOL, P)
        else
          let BlockOffset = FirstOffset b;
              DescOffset = BlockOffset - CFE_ES_GENERIC_POOL_DESCRIPTOR_SIZE
          in if Retrieve P DescOffset \<noteq> CFE_SUCCESS then (Inl (Retrieve P DescOffset), P)
          else
            let bd = Store P DescOffset;
                RecycleBucketId = Allocated bd - CFE_ES_MEMORY_DEALLOCATED
            in if CheckBits bd \<noteq> CFE_ES_CHECK_PATTERN \<or> RecycleBucketId \<noteq> BucketId
               then (Inl CFE_ES_BUFFER_NOT_IN_POOL, P)
               else
                 let bd' = bd\<lparr>Allocated := CFE_ES_MEMORY_ALLOCATED + BucketId,
                              ActualSize := NewSize, NextOffset := 0\<rparr>
                 in if Commit P DescOffset \<noteq> CFE_SUCCESS then (Inl (Commit P DescOffset), P)
                    else (Inr BlockOffset,
                          set_bucket i (b\<lparr>FirstOffset := NextOffset bd,
                                          RecycleCount := RecycleCount b + 1\<rparr>)
                            (set_desc DescOffset bd' P)))"

definition CFE_ES_GenPoolCreatePoolBlock ::
  "GenPoolRecord \<Rightarrow> uint16 \<Rightarrow> size_t \<Rightarrow> (CFE_Status + size_t) \<times> GenPoolRecord" where
  "CFE_ES_GenPoolCreatePoolBlock P BucketId NewSize =
     (case CFE_ES_GenPoolGetBucketState P BucketId of
        None \<Rightarrow> (Inl CFE_ES_BUFFER_NOT_IN_POOL, P)
      | Some i \<Rightarrow>
        let b = Buckets P ! i;
            BlockOffset = (TailPosition P + CFE_ES_GENERIC_POOL_DESCRIPTOR_SIZE + AlignMask P)
                            AND NOT (AlignMask P);
            DescOffset = BlockOffset - CFE_ES_GENERIC_POOL_DESCRIPTOR_SIZE;
            NextTailPosition = BlockOffset + BlockSize b
        in if PoolMaxOffset P < NextTailPosition then (Inl CFE_ES_ERR_MEM_BLOCK_SIZE, P)
        else if Retrieve P DescOffset \<noteq> CFE_SUCCESS then (Inl (Retrieve P DescOffset), P)
        else if Commit P DescOffset \<noteq> CFE_SUCCESS then (Inl (Commit P DescOffset), P)
        else (Inr BlockOffset,
              (set_bucket i (b\<lparr>AllocationCount := AllocationCount b + 1\<rparr>)
                (set_desc DescOffset
                   \<lparr>CheckBits = CFE_ES_CHECK_PATTERN,
                    Allocated = CFE_ES_MEMORY_ALLOCATED + BucketId,
                    ActualSize = NewSize, NextOffset = 0\<rparr> P))
                \<lparr>TailPosition := NextTailPosition,
                 PoolAllocationCount := PoolAllocationCount P + 1\<rparr>))"

definition CFE_ES_GenPoolGetBlock ::
  "GenPoolRecord \<Rightarrow> size_t \<Rightarrow> (CFE_Status + size_t) \<times> GenPoolRecord" where
  "CFE_ES_GenPoolGetBlock P ReqSize =
     (let BucketId = CFE_ES_GenPoolFindBucket P ReqSize
      in if BucketId = 0 then (Inl CFE_ES_ERR_MEM_BLOCK_SIZE, P)
         else case CFE_ES_GenPoolRecyclePoolBlock P BucketId ReqSize of
                (Inr ofs, P') \<Rightarrow> (Inr ofs, P')
              | (Inl e, P') \<Rightarrow> CFE_ES_GenPoolCreatePoolBlock P' BucketId ReqSize)"

subsection \<open>Looking a block up and putting it back\<close>

text \<open>The validity test that \<open>GetBlockSize\<close> and \<open>PutBlock\<close> share, with the bucket it finds.\<close>

definition valid_bucket :: "GenPoolRecord \<Rightarrow> GenPoolBD \<Rightarrow> nat option" where
  "valid_bucket P bd =
     (case CFE_ES_GenPoolGetBucketState P (Allocated bd - CFE_ES_MEMORY_ALLOCATED) of
        None \<Rightarrow> None
      | Some i \<Rightarrow>
        if CheckBits bd \<noteq> CFE_ES_CHECK_PATTERN \<or> ActualSize bd = 0
           \<or> BlockSize (Buckets P ! i) < ActualSize bd
        then None else Some i)"

definition CFE_ES_GenPoolGetBlockSize :: "GenPoolRecord \<Rightarrow> size_t \<Rightarrow> CFE_Status + size_t" where
  "CFE_ES_GenPoolGetBlockSize P BlockOffset =
     (if TailPosition P \<le> BlockOffset \<or> BlockOffset < CFE_ES_GENERIC_POOL_DESCRIPTOR_SIZE
      then Inl CFE_ES_BUFFER_NOT_IN_POOL
      else let DescOffset = BlockOffset - CFE_ES_GENERIC_POOL_DESCRIPTOR_SIZE
        in if Retrieve P DescOffset \<noteq> CFE_SUCCESS then Inl (Retrieve P DescOffset)
           else case valid_bucket P (Store P DescOffset) of
                  None \<Rightarrow> Inl CFE_ES_POOL_BLOCK_INVALID
                | Some i \<Rightarrow> Inr (ActualSize (Store P DescOffset)))"

definition CFE_ES_GenPoolPutBlock ::
  "GenPoolRecord \<Rightarrow> size_t \<Rightarrow> (CFE_Status + size_t) \<times> GenPoolRecord" where
  "CFE_ES_GenPoolPutBlock P BlockOffset =
     (if TailPosition P \<le> BlockOffset \<or> BlockOffset < CFE_ES_GENERIC_POOL_DESCRIPTOR_SIZE
      then (Inl CFE_ES_BUFFER_NOT_IN_POOL, P)
      else let DescOffset = BlockOffset - CFE_ES_GENERIC_POOL_DESCRIPTOR_SIZE
        in if Retrieve P DescOffset \<noteq> CFE_SUCCESS then (Inl (Retrieve P DescOffset), P)
        else let bd = Store P DescOffset;
                 BucketId = Allocated bd - CFE_ES_MEMORY_ALLOCATED
          in case valid_bucket P bd of
               None \<Rightarrow> (Inl CFE_ES_POOL_BLOCK_INVALID,
                        P\<lparr>ValidationErrorCount := ValidationErrorCount P + 1\<rparr>)
             | Some i \<Rightarrow>
               let b = Buckets P ! i;
                   bd' = bd\<lparr>Allocated := CFE_ES_MEMORY_DEALLOCATED + BucketId,
                            NextOffset := FirstOffset b\<rparr>
               in if Commit P DescOffset \<noteq> CFE_SUCCESS then (Inl (Commit P DescOffset), P)
                  else (Inr (ActualSize bd),
                        set_bucket i (b\<lparr>FirstOffset := BlockOffset,
                                        ReleaseCount := ReleaseCount b + 1\<rparr>)
                          (set_desc DescOffset bd' P)))"


subsection \<open>Initialisation\<close>

text \<open>
  The bubble sort of \<open>CFE_ES_GenPoolInitialize\<close>: one pass over the bucket table, swapping
  neighbouring block sizes with three exclusive-ors and counting the swaps, repeated until a
  pass makes no swap.
\<close>

definition xor_swap :: "GenPoolBucket \<Rightarrow> GenPoolBucket \<Rightarrow> GenPoolBucket \<times> GenPoolBucket" where
  "xor_swap p q =
     (let p1 = p\<lparr>BlockSize := BlockSize p XOR BlockSize q\<rparr>;
          q1 = q\<lparr>BlockSize := BlockSize q XOR BlockSize p1\<rparr>;
          p2 = p1\<lparr>BlockSize := BlockSize p1 XOR BlockSize q1\<rparr>
      in (p2, q1))"

fun bubble_pass :: "GenPoolBucket list \<Rightarrow> GenPoolBucket list \<times> nat" where
  "bubble_pass (p # q # r) =
     (if BlockSize q < BlockSize p
      then (let (p', q') = xor_swap p q; (r', j) = bubble_pass (q' # r) in (p' # r', Suc j))
      else (let (r', j) = bubble_pass (q # r) in (p # r', j)))"
| "bubble_pass l = (l, 0)"

text \<open>What the loop decreases: the number of pairs that are out of order.\<close>

fun inversions :: "size_t list \<Rightarrow> nat" where
  "inversions [] = 0"
| "inversions (x # xs) = length (filter (\<lambda>y. y < x) xs) + inversions xs"

lemma xor_swap_sizes:
  "BlockSize (fst (xor_swap p q)) = BlockSize q"
  "BlockSize (snd (xor_swap p q)) = BlockSize p"
  by (simp_all add: xor_swap_def Let_def) (rule bit_word_eqI, auto simp: bit_simps)+

lemma bubble_pass_mset:
  "mset (map BlockSize (fst (bubble_pass l))) = mset (map BlockSize l)"
proof (induction "length l" arbitrary: l rule: less_induct)
  case less
  show ?case
  proof (cases l rule: bubble_pass.cases)
    case (1 p q r)
    have IH: "mset (map BlockSize (fst (bubble_pass (x # r)))) = add_mset (BlockSize x) (mset (map BlockSize r))" for x
      using less.hyps [of "x # r"] unfolding \<open>l = p # q # r\<close> by simp
    show ?thesis
      using IH [of q] IH [of "snd (xor_swap p q)"] xor_swap_sizes [of p q] 1
      by (auto simp: split_def Let_def)
  qed auto
qed

lemma filter_less_mset_cong:
  "mset xs = mset ys \<Longrightarrow> length (filter P xs) = length (filter P ys)"
  by (metis mset_filter size_mset)

lemma bubble_pass_inversions:
  "inversions (map BlockSize (fst (bubble_pass l))) + snd (bubble_pass l)
     = inversions (map BlockSize l)"
proof (induction "length l" arbitrary: l rule: less_induct)
  case less
  show ?case
  proof (cases l rule: bubble_pass.cases)
    case (1 p q r)
    have IH: "inversions (map BlockSize (fst (bubble_pass (x # r)))) + snd (bubble_pass (x # r))
        = inversions (BlockSize x # map BlockSize r)" for x
      using less.hyps [of "x # r"] unfolding \<open>l = p # q # r\<close> by simp
    have len: "length (filter P (map BlockSize (fst (bubble_pass (x # r)))))
        = length (filter P (BlockSize x # map BlockSize r))" for P x
      by (rule filter_less_mset_cong) (use bubble_pass_mset [of "x # r"] in simp)
    show ?thesis
    proof (cases "BlockSize q < BlockSize p")
      case True
      then show ?thesis
        using IH [of "snd (xor_swap p q)"] len [of "\<lambda>y. y < BlockSize q" "snd (xor_swap p q)"]
          xor_swap_sizes [of p q] 1
        by (auto simp: split_def Let_def simp del: length_filter_map)
    next
      case False
      then show ?thesis
        using IH [of q] len [of "\<lambda>y. y < BlockSize p" q] 1
        by (auto simp: split_def Let_def)
    qed
  qed auto
qed

function bubble_sort :: "GenPoolBucket list \<Rightarrow> GenPoolBucket list" where
  "bubble_sort l =
     (if 0 < snd (bubble_pass l) then bubble_sort (fst (bubble_pass l)) else fst (bubble_pass l))"
  by pat_completeness auto
termination
proof (relation "measure (\<lambda>l. inversions (map BlockSize l))")
  fix l :: "GenPoolBucket list"
  assume "0 < snd (bubble_pass l)"
  then show "(fst (bubble_pass l), l) \<in> measure (\<lambda>l. inversions (map BlockSize l))"
    using bubble_pass_inversions [of l] by simp
qed simp

declare bubble_sort.simps [simp del]

definition zero_bucket :: GenPoolBucket where
  "zero_bucket = \<lparr>BlockSize = 0, FirstOffset = 0, AllocationCount = 0, ReleaseCount = 0,
                  RecycleCount = 0\<rparr>"

definition zero_pool :: "(size_t \<Rightarrow> GenPoolBD) \<Rightarrow> GenPoolRecord" where
  "zero_pool st =
     \<lparr>PoolTotalSize = 0, PoolMaxOffset = 0, AlignMask = 0, TailPosition = 0,
      Retrieve = (\<lambda>_. CFE_SUCCESS), Commit = (\<lambda>_. CFE_SUCCESS),
      PoolAllocationCount = 0, ValidationErrorCount = 0, NumBuckets = 0,
      Buckets = replicate CFE_PLATFORM_ES_POOL_MAX_BUCKETS zero_bucket, Store = st\<rparr>"

text \<open>
  The caller has checked that \<open>NumBlockSizes\<close> is at most the table size and that the list has
  that many entries.  The record is cleared first; the storage behind the pool is not.
\<close>

definition CFE_ES_GenPoolInitialize ::
  "GenPoolRecord \<Rightarrow> size_t \<Rightarrow> size_t \<Rightarrow> size_t \<Rightarrow> uint16 \<Rightarrow> size_t list
     \<Rightarrow> (size_t \<Rightarrow> CFE_Status) \<Rightarrow> (size_t \<Rightarrow> CFE_Status) \<Rightarrow> CFE_Status \<times> GenPoolRecord" where
  "CFE_ES_GenPoolInitialize P0 StartOffset PoolSize AlignSize NumBlockSizes BlockSizeList
       RetrieveFunc CommitFunc =
     (let P = zero_pool (Store P0);
          Mask = (if AlignSize \<le> 1 then 0 else AlignSize - 1)
      in if Mask AND AlignSize \<noteq> 0 then (CFE_ES_BAD_ARGUMENT, P)
         else
           let n = unat NumBlockSizes;
               copied = map (\<lambda>i. (Buckets P ! i)\<lparr>BlockSize := BlockSizeList ! i\<rparr>) [0..<n];
               P1 = P\<lparr>AlignMask := Mask, PoolTotalSize := PoolSize,
                      PoolMaxOffset := PoolSize + StartOffset, NumBuckets := NumBlockSizes,
                      Retrieve := RetrieveFunc, Commit := CommitFunc,
                      TailPosition := StartOffset,
                      Buckets := bubble_sort copied @ drop n (Buckets P)\<rparr>
           in if BlockSize (Buckets P1 ! 0) = 0 then (CFE_ES_ERR_MEM_BLOCK_SIZE, P1)
              else (CFE_SUCCESS, P1))"

fun min_block_loop :: "size_t list \<Rightarrow> size_t \<Rightarrow> size_t" where
  "min_block_loop [] m = m"
| "min_block_loop (x # xs) m = min_block_loop xs (if x < m then x else m)"

definition CFE_ES_GenPoolCalcMinSize :: "uint16 \<Rightarrow> size_t list \<Rightarrow> uint32 \<Rightarrow> size_t" where
  "CFE_ES_GenPoolCalcMinSize NumBlockSizes BlockSizeList NumBlocks =
     (let m = (if 0 < NumBlockSizes
               then min_block_loop (drop 1 (take (unat NumBlockSizes) BlockSizeList))
                      (BlockSizeList ! 0)
               else 0)
      in ucast NumBlocks * (m + CFE_ES_GENERIC_POOL_DESCRIPTOR_SIZE))"

subsection \<open>State checks and statistics\<close>

definition CFE_ES_GenPoolValidateState :: "GenPoolRecord \<Rightarrow> bool" where
  "CFE_ES_GenPoolValidateState P \<longleftrightarrow>
     0 < PoolTotalSize P \<and> TailPosition P \<le> PoolMaxOffset P \<and> 0 < NumBuckets P
     \<and> unat (NumBuckets P) \<le> CFE_PLATFORM_ES_POOL_MAX_BUCKETS"

text \<open>Free and total size (both output pointers given).\<close>

definition CFE_ES_GenPoolGetUsage :: "GenPoolRecord \<Rightarrow> size_t \<times> size_t" where
  "CFE_ES_GenPoolGetUsage P = (PoolMaxOffset P - TailPosition P, PoolTotalSize P)"

text \<open>\<open>NumCreated\<close>, \<open>BlockSize\<close> and \<open>NumFree\<close> of a bucket; zeros for an invalid bucket ID.\<close>

definition CFE_ES_GenPoolGetBucketUsage :: "GenPoolRecord \<Rightarrow> uint16 \<Rightarrow> uint32 \<times> size_t \<times> uint32" where
  "CFE_ES_GenPoolGetBucketUsage P BucketId =
     (let b = (case CFE_ES_GenPoolGetBucketState P BucketId of
                 None \<Rightarrow> zero_bucket | Some i \<Rightarrow> Buckets P ! i)
      in (AllocationCount b, BlockSize b, ReleaseCount b - RecycleCount b))"

end
