(* ===== verification/Gen_Pool_Inv.thy ===== *)
theory Gen_Pool_Inv
  imports Gen_Pool
begin

section \<open>The invariant of the generic pool and what its operations promise\<close>

text \<open>
  The blocks created so far are described by a list of pairs: offset of the block, index of its
  bucket.  The invariant says that they lie one after another between the start of the pool and
  \<open>TailPosition\<close>, each with its descriptor in front; that every descriptor carries the check
  pattern and an allocation state of its bucket; and that each bucket's free stack holds exactly
  the blocks of the bucket whose descriptor says "deallocated".
\<close>

abbreviation DSZ :: nat where
  "DSZ \<equiv> 24"

definition desc_at :: "GenPoolRecord \<Rightarrow> size_t \<Rightarrow> GenPoolBD" where
  "desc_at P ofs = Store P (ofs - CFE_ES_GENERIC_POOL_DESCRIPTOR_SIZE)"

definition bucket_id :: "GenPoolRecord \<Rightarrow> nat \<Rightarrow> uint16" where
  "bucket_id P i = NumBuckets P - of_nat i"

fun layout :: "GenPoolRecord \<Rightarrow> nat \<Rightarrow> (size_t \<times> nat) list \<Rightarrow> bool" where
  "layout P pos [] \<longleftrightarrow> pos = unat (TailPosition P)"
| "layout P pos ((ofs, i) # bs) \<longleftrightarrow>
     pos + DSZ \<le> unat ofs \<and> ofs AND AlignMask P = 0 \<and> i < unat (NumBuckets P)
     \<and> layout P (unat ofs + unat (BlockSize (Buckets P ! i))) bs"

fun free_chain :: "GenPoolRecord \<Rightarrow> size_t \<Rightarrow> size_t list \<Rightarrow> bool" where
  "free_chain P a [] \<longleftrightarrow> a = 0"
| "free_chain P a (x # xs) \<longleftrightarrow> a = x \<and> x \<noteq> 0 \<and> free_chain P (NextOffset (desc_at P x)) xs"

definition is_alloc :: "GenPoolRecord \<Rightarrow> size_t \<times> nat \<Rightarrow> bool" where
  "is_alloc P b \<longleftrightarrow>
     Allocated (desc_at P (fst b)) = CFE_ES_MEMORY_ALLOCATED + bucket_id P (snd b)"

definition is_free :: "GenPoolRecord \<Rightarrow> size_t \<times> nat \<Rightarrow> bool" where
  "is_free P b \<longleftrightarrow>
     Allocated (desc_at P (fst b)) = CFE_ES_MEMORY_DEALLOCATED + bucket_id P (snd b)"

definition block_ok :: "GenPoolRecord \<Rightarrow> size_t \<times> nat \<Rightarrow> bool" where
  "block_ok P b \<longleftrightarrow>
     CheckBits (desc_at P (fst b)) = CFE_ES_CHECK_PATTERN
     \<and> (is_alloc P b \<or> is_free P b)
     \<and> ActualSize (desc_at P (fst b)) \<le> BlockSize (Buckets P ! snd b)"

definition bucket_ok :: "GenPoolRecord \<Rightarrow> (size_t \<times> nat) list \<Rightarrow> nat \<Rightarrow> bool" where
  "bucket_ok P blks i \<longleftrightarrow>
     (\<exists>fl. free_chain P (FirstOffset (Buckets P ! i)) fl \<and> distinct fl
           \<and> set fl = {ofs. (ofs, i) \<in> set blks \<and> is_free P (ofs, i)}
           \<and> ReleaseCount (Buckets P ! i) - RecycleCount (Buckets P ! i) = of_nat (length fl))"

definition pool_geometry :: "GenPoolRecord \<Rightarrow> bool" where
  "pool_geometry P \<longleftrightarrow>
     unat (NumBuckets P) \<le> CFE_PLATFORM_ES_POOL_MAX_BUCKETS
     \<and> length (Buckets P) = CFE_PLATFORM_ES_POOL_MAX_BUCKETS
     \<and> unat (PoolMaxOffset P) < 2 ^ 32
     \<and> (\<exists>k \<le> 16. AlignMask P = mask k)
     \<and> TailPosition P \<le> PoolMaxOffset P
     \<and> (\<forall>i < unat (NumBuckets P). unat (BlockSize (Buckets P ! i)) < 2 ^ 63)
     \<and> (\<forall>d. Retrieve P d = CFE_SUCCESS \<and> Commit P d = CFE_SUCCESS)"

definition pool_inv :: "GenPoolRecord \<Rightarrow> (size_t \<times> nat) list \<Rightarrow> bool" where
  "pool_inv P blks \<longleftrightarrow>
     pool_geometry P
     \<and> (\<exists>start. layout P start blks)
     \<and> (\<forall>b \<in> set blks. block_ok P b)
     \<and> (\<forall>i < unat (NumBuckets P). bucket_ok P blks i)"

subsection \<open>Bucket identifiers\<close>

lemma unat_bucket_id:
  "i < unat (NumBuckets P) \<Longrightarrow> unat (bucket_id P i) = unat (NumBuckets P) - i"
  unfolding bucket_id_def
  by (subst unat_sub) (simp_all add: word_le_nat_alt of_nat_unat_bound)

lemma GetBucketState_bucket_id:
  assumes "i < unat (NumBuckets P)"
  shows "CFE_ES_GenPoolGetBucketState P (bucket_id P i) = Some i"
proof -
  have e: "NumBuckets P - bucket_id P i = of_nat i"
    by (simp add: bucket_id_def)
  have "unat (of_nat i :: uint16) = i"
    using assms by (rule of_nat_unat_bound)
  with e assms show ?thesis
    by (simp add: CFE_ES_GenPoolGetBucketState_def Let_def word_le_nat_alt)
qed

lemma bucket_id_inj:
  "i < unat (NumBuckets P) \<Longrightarrow> j < unat (NumBuckets P) \<Longrightarrow>
     bucket_id P i = bucket_id P j \<longleftrightarrow> i = j"
  by (metis GetBucketState_bucket_id option.inject)

lemma GetBucketState_range:
  "CFE_ES_GenPoolGetBucketState P bid = Some i \<Longrightarrow> i < unat (NumBuckets P)"
  by (auto simp: CFE_ES_GenPoolGetBucketState_def Let_def word_le_nat_alt split: if_splits)

text \<open>
  A bucket ID is at most 17, so an "allocated" mark of one bucket is never the "deallocated"
  mark of another, and reading a deallocated mark as an allocated one gives no bucket.
\<close>

lemma alloc_free_marks:
  assumes "unat (NumBuckets P) \<le> 17" "i < unat (NumBuckets P)" "j < unat (NumBuckets P)"
  shows "CFE_ES_MEMORY_ALLOCATED + bucket_id P i \<noteq> CFE_ES_MEMORY_DEALLOCATED + bucket_id P j"
proof
  assume "CFE_ES_MEMORY_ALLOCATED + bucket_id P i = CFE_ES_MEMORY_DEALLOCATED + bucket_id P j"
  then have "bucket_id P i = 0x3333 + bucket_id P j"
    by (simp add: CFE_ES_MEMORY_ALLOCATED_def CFE_ES_MEMORY_DEALLOCATED_def algebra_simps)
  moreover have "unat (0x3333 + bucket_id P j) = 0x3333 + unat (bucket_id P j)"
    using assms unat_bucket_id [of j P] by (subst unat_plus_small) auto
  moreover have "unat (bucket_id P i) \<le> 17"
    using assms unat_bucket_id [of i P] by simp
  ultimately show False by simp
qed

lemma free_mark_no_bucket:
  assumes "unat (NumBuckets P) \<le> 17" "i < unat (NumBuckets P)"
  shows "CFE_ES_GenPoolGetBucketState P
           (CFE_ES_MEMORY_DEALLOCATED + bucket_id P i - CFE_ES_MEMORY_ALLOCATED) = None"
proof (rule ccontr)
  assume "CFE_ES_GenPoolGetBucketState P
           (CFE_ES_MEMORY_DEALLOCATED + bucket_id P i - CFE_ES_MEMORY_ALLOCATED) \<noteq> None"
  then obtain j where
    j: "CFE_ES_GenPoolGetBucketState P
           (CFE_ES_MEMORY_DEALLOCATED + bucket_id P i - CFE_ES_MEMORY_ALLOCATED) = Some j"
    by blast
  then have jn: "j < unat (NumBuckets P)" by (rule GetBucketState_range)
  from j have "of_nat j = NumBuckets P
      - (CFE_ES_MEMORY_DEALLOCATED + bucket_id P i - CFE_ES_MEMORY_ALLOCATED)"
    by (auto simp: CFE_ES_GenPoolGetBucketState_def Let_def split: if_splits)
  then have "CFE_ES_MEMORY_ALLOCATED + bucket_id P j = CFE_ES_MEMORY_DEALLOCATED + bucket_id P i"
    by (simp add: bucket_id_def algebra_simps)
  with alloc_free_marks [OF assms(1) jn assms(2)] show False by simp
qed

subsection \<open>The blocks do not overlap\<close>

definition block_size :: "GenPoolRecord \<Rightarrow> size_t \<times> nat \<Rightarrow> nat" where
  "block_size P b = unat (BlockSize (Buckets P ! snd b))"

text \<open>The bytes a block takes, its descriptor included.\<close>

definition footprint :: "GenPoolRecord \<Rightarrow> size_t \<times> nat \<Rightarrow> nat set" where
  "footprint P b = {unat (fst b) - DSZ ..< unat (fst b) + block_size P b}"

lemma layout_bounds:
  "layout P pos blks \<Longrightarrow> b \<in> set blks \<Longrightarrow>
     pos + DSZ \<le> unat (fst b) \<and> unat (fst b) + block_size P b \<le> unat (TailPosition P)
     \<and> snd b < unat (NumBuckets P) \<and> fst b AND AlignMask P = 0"
proof (induction P pos blks rule: layout.induct)
  case (1 P pos)
  then show ?case by simp
next
  case (2 P pos ofs i bs)
  have tail: "pos' \<le> unat (TailPosition P)" if "layout P pos' bs'" for pos' bs'
    using that by (induction P pos' bs' rule: layout.induct) auto
  from 2 tail show ?case
    by (force simp: block_size_def)
qed

lemma layout_disjoint:
  "layout P pos blks \<Longrightarrow> distinct (map fst blks)
     \<and> (\<forall>b \<in> set blks. \<forall>c \<in> set blks. b \<noteq> c \<longrightarrow> footprint P b \<inter> footprint P c = {})"
proof (induction P pos blks rule: layout.induct)
  case (1 P pos)
  then show ?case by simp
next
  case (2 P pos ofs i bs)
  let ?pos = "unat ofs + unat (BlockSize (Buckets P ! i))"
  from 2 have l: "layout P ?pos bs" and ih: "distinct (map fst bs)"
    "\<forall>b \<in> set bs. \<forall>c \<in> set bs. b \<noteq> c \<longrightarrow> footprint P b \<inter> footprint P c = {}"
    by auto
  have far: "?pos + DSZ \<le> unat (fst b)" if "b \<in> set bs" for b
    using layout_bounds [OF l that] by simp
  then have "ofs \<notin> fst ` set bs" by force
  moreover have "footprint P (ofs, i) \<inter> footprint P b = {}" if "b \<in> set bs" for b
    using far [OF that] by (auto simp: footprint_def block_size_def)
  ultimately show ?case using ih by (auto simp: Int_commute)
qed

lemma layout_append:
  assumes "layout P pos blks"
    and "\<And>j. BlockSize (Buckets P' ! j) = BlockSize (Buckets P ! j)"
    and "AlignMask P' = AlignMask P" "NumBuckets P' = NumBuckets P"
    and "unat (TailPosition P) + DSZ \<le> unat ofs" "ofs AND AlignMask P = 0"
    and "i < unat (NumBuckets P)"
    and "unat (TailPosition P') = unat ofs + unat (BlockSize (Buckets P' ! i))"
  shows "layout P' pos (blks @ [(ofs, i)])"
  using assms by (induction P pos blks rule: layout.induct) auto

lemma layout_cong:
  assumes "layout P pos blks" "TailPosition P' = TailPosition P" "AlignMask P' = AlignMask P"
    "NumBuckets P' = NumBuckets P"
    "\<And>i. BlockSize (Buckets P' ! i) = BlockSize (Buckets P ! i)"
  shows "layout P' pos blks"
  using assms by (induction P pos blks rule: layout.induct) auto


subsection \<open>Changing one block\<close>

lemma set_bucket_simps [simp]:
  "NumBuckets (set_bucket i b P) = NumBuckets P"
  "AlignMask (set_bucket i b P) = AlignMask P"
  "TailPosition (set_bucket i b P) = TailPosition P"
  "PoolMaxOffset (set_bucket i b P) = PoolMaxOffset P"
  "Retrieve (set_bucket i b P) = Retrieve P"
  "Commit (set_bucket i b P) = Commit P"
  "Store (set_bucket i b P) = Store P"
  "Buckets (set_bucket i b P) = (Buckets P)[i := b]"
  by (simp_all add: set_bucket_def)

lemma set_desc_simps [simp]:
  "NumBuckets (set_desc d bd P) = NumBuckets P"
  "AlignMask (set_desc d bd P) = AlignMask P"
  "TailPosition (set_desc d bd P) = TailPosition P"
  "PoolMaxOffset (set_desc d bd P) = PoolMaxOffset P"
  "Retrieve (set_desc d bd P) = Retrieve P"
  "Commit (set_desc d bd P) = Commit P"
  "Store (set_desc d bd P) = (Store P)(d := bd)"
  "Buckets (set_desc d bd P) = Buckets P"
  by (simp_all add: set_desc_def)

lemma desc_at_upd [simp]:
  "desc_at (set_bucket i b P) ofs = desc_at P ofs"
  "desc_at (set_desc (x - CFE_ES_GENERIC_POOL_DESCRIPTOR_SIZE) bd P) ofs
     = (if ofs = x then bd else desc_at P ofs)"
  "desc_at (P\<lparr>TailPosition := t, PoolAllocationCount := n\<rparr>) ofs = desc_at P ofs"
  by (simp_all add: desc_at_def)

lemma bucket_id_upd [simp]:
  "bucket_id (set_bucket i b P) = bucket_id P"
  "bucket_id (set_desc d bd P) = bucket_id P"
  "bucket_id (P\<lparr>TailPosition := t, PoolAllocationCount := n\<rparr>) = bucket_id P"
  by (simp_all add: bucket_id_def fun_eq_iff)

lemma free_chain_cong:
  "(\<And>y. y \<in> set fl \<Longrightarrow> NextOffset (desc_at P' y) = NextOffset (desc_at P y)) \<Longrightarrow>
     free_chain P' a fl = free_chain P a fl"
  by (induction fl arbitrary: a) auto

lemma block_unique:
  assumes "layout P pos blks" "(x, i) \<in> set blks" "(x, j) \<in> set blks"
  shows "i = j"
  using layout_disjoint [OF assms(1)] assms(2,3) by (meson eq_key_imp_eq_value)

lemma bucket_ok_other:
  assumes lay: "layout P pos blks" and x: "(x, i) \<in> set blks" and ji: "j \<noteq> i"
    and ok: "bucket_ok P blks j"
  shows "bucket_ok (set_bucket i b (set_desc (x - CFE_ES_GENERIC_POOL_DESCRIPTOR_SIZE) bd P)) blks j"
    (is "bucket_ok ?P' blks j")
proof -
  from ok obtain fl where fl: "free_chain P (FirstOffset (Buckets P ! j)) fl" "distinct fl"
    "set fl = {ofs. (ofs, j) \<in> set blks \<and> is_free P (ofs, j)}"
    "ReleaseCount (Buckets P ! j) - RecycleCount (Buckets P ! j) = of_nat (length fl)"
    unfolding bucket_ok_def by blast
  have nx: "(x, j) \<notin> set blks" using block_unique [OF lay x] ji by blast
  then have "x \<notin> set fl" using fl(3) by blast
  then have "free_chain ?P' (FirstOffset (Buckets P ! j)) fl"
    using fl(1) by (subst free_chain_cong [of fl ?P' P]) auto
  moreover have "is_free ?P' (ofs, j) = is_free P (ofs, j)" if "(ofs, j) \<in> set blks" for ofs
    using that nx by (auto simp: is_free_def)
  then have "set fl = {ofs. (ofs, j) \<in> set blks \<and> is_free ?P' (ofs, j)}"
    using fl(3) by auto
  ultimately show ?thesis
    unfolding bucket_ok_def using fl(2,4) ji by (intro exI [of _ fl]) simp
qed

lemma geometry_upd:
  assumes "pool_geometry P" "BlockSize b = BlockSize (Buckets P ! i)"
  shows "pool_geometry (set_bucket i b (set_desc d bd P))"
  using assms
  by (cases "i < length (Buckets P)") (auto simp: pool_geometry_def nth_list_update)

text \<open>
  Rewriting the descriptor of an existing block and the state of its bucket keeps the
  invariant, if the bucket's own free stack is again right.
\<close>

lemma pool_inv_update:
  assumes inv: "pool_inv P blks" and x: "(x, i) \<in> set blks"
    and b: "BlockSize b = BlockSize (Buckets P ! i)"
    and bd: "CheckBits bd = CFE_ES_CHECK_PATTERN" "ActualSize bd \<le> BlockSize (Buckets P ! i)"
    "Allocated bd = CFE_ES_MEMORY_ALLOCATED + bucket_id P i
       \<or> Allocated bd = CFE_ES_MEMORY_DEALLOCATED + bucket_id P i"
    and own: "bucket_ok (set_bucket i b (set_desc (x - CFE_ES_GENERIC_POOL_DESCRIPTOR_SIZE) bd P)) blks i"
  shows "pool_inv (set_bucket i b (set_desc (x - CFE_ES_GENERIC_POOL_DESCRIPTOR_SIZE) bd P)) blks"
    (is "pool_inv ?P' blks")
proof -
  from inv obtain start where lay: "layout P start blks" unfolding pool_inv_def by blast
  have sz: "BlockSize (Buckets ?P' ! j) = BlockSize (Buckets P ! j)" for j
    using b by (cases "i < length (Buckets P)") (auto simp: nth_list_update list_update_beyond)
  have "layout ?P' start blks"
    by (rule layout_cong [OF lay]) (use sz in simp_all)
  moreover have "block_ok ?P' c" if c: "c \<in> set blks" for c
  proof (cases "fst c = x")
    case True
    then have "snd c = i" using block_unique [OF lay x] c by (metis prod.collapse)
    with True bd sz show ?thesis by (auto simp: block_ok_def is_alloc_def is_free_def)
  next
    case False
    with inv c sz show ?thesis by (auto simp: pool_inv_def block_ok_def is_alloc_def is_free_def)
  qed
  moreover have "bucket_ok ?P' blks j" if "j < unat (NumBuckets P)" for j
    using own bucket_ok_other [OF lay x] inv that by (cases "j = i") (auto simp: pool_inv_def)
  ultimately show ?thesis
    using inv geometry_upd [OF _ b] by (auto simp: pool_inv_def)
qed

text \<open>The blocks in use, with the size that was asked for.\<close>

definition alloc_map :: "GenPoolRecord \<Rightarrow> (size_t \<times> nat) list \<Rightarrow> size_t \<Rightarrow> size_t option" where
  "alloc_map P blks ofs =
     (if \<exists>i. (ofs, i) \<in> set blks \<and> is_alloc P (ofs, i)
      then Some (ActualSize (desc_at P ofs)) else None)"

lemma alloc_map_upd:
  assumes "layout P pos blks" "(x, i) \<in> set blks"
  shows "alloc_map (set_bucket i b (set_desc (x - CFE_ES_GENERIC_POOL_DESCRIPTOR_SIZE) bd P)) blks
    = (alloc_map P blks)(x := (if Allocated bd = CFE_ES_MEMORY_ALLOCATED + bucket_id P i
                               then Some (ActualSize bd) else None))"
  using assms block_unique [OF assms(1)]
  by (auto simp: alloc_map_def is_alloc_def fun_eq_iff)

lemma inv_alloc_or_free:
  assumes inv: "pool_inv P blks" and x: "(x, i) \<in> set blks"
  shows "is_alloc P (x, i) \<longleftrightarrow> \<not> is_free P (x, i)" and "i < unat (NumBuckets P)"
    "DSZ \<le> unat x" "unat x + unat (BlockSize (Buckets P ! i)) \<le> unat (TailPosition P)"
proof -
  from inv obtain start where lay: "layout P start blks" unfolding pool_inv_def by blast
  from layout_bounds [OF lay x] show i: "i < unat (NumBuckets P)" and "DSZ \<le> unat x"
    and "unat x + unat (BlockSize (Buckets P ! i)) \<le> unat (TailPosition P)"
    by (auto simp: block_size_def)
  have "unat (NumBuckets P) \<le> 17"
    using inv by (simp add: pool_inv_def pool_geometry_def CFE_PLATFORM_ES_POOL_MAX_BUCKETS_def)
  from alloc_free_marks [OF this i i] inv x
  show "is_alloc P (x, i) \<longleftrightarrow> \<not> is_free P (x, i)"
    by (auto simp: pool_inv_def block_ok_def is_alloc_def is_free_def)
qed

lemma inv_sizes:
  assumes "pool_inv P blks"
  shows "unat (NumBuckets P) \<le> 17" "length (Buckets P) = 17"
  using assms by (simp_all add: pool_inv_def pool_geometry_def CFE_PLATFORM_ES_POOL_MAX_BUCKETS_def)

lemma inv_geometry:
  assumes "pool_inv P blks"
  shows "unat (PoolMaxOffset P) < 2 ^ 32" "TailPosition P \<le> PoolMaxOffset P"
    "\<exists>k \<le> 16. AlignMask P = mask k"
    "\<And>i. i < unat (NumBuckets P) \<Longrightarrow> unat (BlockSize (Buckets P ! i)) < 2 ^ 63"
    "pool_geometry P"
  using assms unfolding pool_inv_def pool_geometry_def by blast+

lemma inv_layout:
  assumes "pool_inv P blks"
  obtains start where "layout P start blks"
  using assms unfolding pool_inv_def by blast

lemma inv_retrieve [simp]:
  "pool_inv P blks \<Longrightarrow> Retrieve P d = CFE_SUCCESS"
  "pool_inv P blks \<Longrightarrow> Commit P d = CFE_SUCCESS"
  by (simp_all add: pool_inv_def pool_geometry_def)


subsection \<open>Recycling a block\<close>

lemma bucket_stack_nonempty:
  assumes inv: "pool_inv P blks" and i: "i < unat (NumBuckets P)"
    and first: "FirstOffset (Buckets P ! i) \<noteq> 0"
  obtains xs where "(FirstOffset (Buckets P ! i), i) \<in> set blks"
    "is_free P (FirstOffset (Buckets P ! i), i)"
    "free_chain P (NextOffset (desc_at P (FirstOffset (Buckets P ! i)))) xs"
    "distinct (FirstOffset (Buckets P ! i) # xs)"
    "insert (FirstOffset (Buckets P ! i)) (set xs)
       = {ofs. (ofs, i) \<in> set blks \<and> is_free P (ofs, i)}"
    "ReleaseCount (Buckets P ! i) - RecycleCount (Buckets P ! i) = of_nat (Suc (length xs))"
proof -
  from inv i obtain fl where fl: "free_chain P (FirstOffset (Buckets P ! i)) fl" "distinct fl"
    "set fl = {ofs. (ofs, i) \<in> set blks \<and> is_free P (ofs, i)}"
    "ReleaseCount (Buckets P ! i) - RecycleCount (Buckets P ! i) = of_nat (length fl)"
    unfolding pool_inv_def bucket_ok_def by blast
  from fl(1) first obtain xs where "fl = FirstOffset (Buckets P ! i) # xs"
    by (cases fl) auto
  with fl that show ?thesis by auto
qed

lemma recycle_result:
  assumes inv: "pool_inv P blks" and i: "i < unat (NumBuckets P)"
    and n: "n \<le> BlockSize (Buckets P ! i)"
    and r: "CFE_ES_GenPoolRecyclePoolBlock P (bucket_id P i) n = (Inr ofs, P')"
  shows "pool_inv P' blks \<and> (ofs, i) \<in> set blks \<and> is_free P (ofs, i)
    \<and> alloc_map P' blks = (alloc_map P blks)(ofs \<mapsto> n)"
proof -
  let ?b = "Buckets P ! i"
  from r have first: "FirstOffset ?b \<noteq> 0" and x: "ofs = FirstOffset ?b"
    and P': "P' = set_bucket i (?b\<lparr>FirstOffset := NextOffset (desc_at P ofs),
                                  RecycleCount := RecycleCount ?b + 1\<rparr>)
         (set_desc (ofs - CFE_ES_GENERIC_POOL_DESCRIPTOR_SIZE)
            ((desc_at P ofs)\<lparr>Allocated := CFE_ES_MEMORY_ALLOCATED + bucket_id P i,
                             ActualSize := n, NextOffset := 0\<rparr>) P)"
    using i inv
    by (auto simp: CFE_ES_GenPoolRecyclePoolBlock_def GetBucketState_bucket_id Let_def desc_at_def
        split: if_splits)
  from bucket_stack_nonempty [OF inv i first, folded x] obtain xs where
    xs: "(ofs, i) \<in> set blks" "is_free P (ofs, i)" "free_chain P (NextOffset (desc_at P ofs)) xs"
    "distinct (ofs # xs)" "insert ofs (set xs) = {ofs. (ofs, i) \<in> set blks \<and> is_free P (ofs, i)}"
    "ReleaseCount ?b - RecycleCount ?b = of_nat (Suc (length xs))" .
  from inv obtain start where lay: "layout P start blks" by (rule inv_layout)
  have len: "i < length (Buckets P)"
    using inv_sizes [OF inv] i by linarith
  note marks = alloc_free_marks [OF inv_sizes(1) [OF inv] i i]
  have own: "bucket_ok P' blks i"
  proof -
    have "free_chain P' (NextOffset (desc_at P ofs)) xs"
      using xs(3,4) by (subst free_chain_cong [of xs P' P]) (auto simp: P')
    moreover have "set xs = {y. (y, i) \<in> set blks \<and> is_free P' (y, i)}"
      using xs(4,5) marks by (auto simp: P' is_free_def)
    moreover have "ReleaseCount ?b - (RecycleCount ?b + 1) = of_nat (length xs)"
      using xs(6) by (simp add: algebra_simps)
    ultimately show ?thesis
      unfolding bucket_ok_def using xs(4) len by (intro exI [of _ xs]) (simp add: P')
  qed
  have chk: "CheckBits (desc_at P ofs) = CFE_ES_CHECK_PATTERN"
    using inv xs(1) by (auto simp: pool_inv_def block_ok_def)
  have "pool_inv P' blks"
    unfolding P' by (rule pool_inv_update [OF inv xs(1)]) (use chk n own P' in simp_all)
  moreover have "alloc_map P' blks = (alloc_map P blks)(ofs \<mapsto> n)"
    unfolding P' by (subst alloc_map_upd [OF lay xs(1)]) simp
  ultimately show ?thesis using xs by simp
qed

lemma recycle_fails:
  "pool_inv P blks \<Longrightarrow> i < unat (NumBuckets P) \<Longrightarrow>
     CFE_ES_GenPoolRecyclePoolBlock P (bucket_id P i) n = (Inl e, P') \<Longrightarrow> P' = P"
  by (auto simp: CFE_ES_GenPoolRecyclePoolBlock_def GetBucketState_bucket_id Let_def
      split: if_splits)

subsection \<open>Creating a block\<close>

lemma unat_and_not_mask:
  "unat (v AND NOT (mask k)) = unat v - unat v mod 2 ^ k" for v :: "'a::len word"
proof -
  have d: "(v AND NOT (mask k)) + take_bit k v = v"
  proof -
    have "(v AND NOT (mask k)) + take_bit k v = (v AND NOT (mask k)) OR take_bit k v"
      by (rule disjunctive_add) (simp add: bit_simps)
    also have "\<dots> = v" by (rule bit_word_eqI) (auto simp: bit_simps)
    finally show ?thesis .
  qed
  then have e: "v AND NOT (mask k) = v - take_bit k v" by (simp add: eq_diff_eq)
  have t: "unat (take_bit k v) = unat v mod 2 ^ k"
    by (simp add: unsigned_take_bit_eq take_bit_nat_def)
  have "take_bit k v \<le> v" by (simp add: word_le_nat_alt t)
  with t show ?thesis unfolding e by (simp add: unat_sub)
qed

lemma align_up:
  fixes v :: size_t
  assumes "unat v < 2 ^ 40" "k \<le> 16"
  shows "unat v \<le> unat ((v + mask k) AND NOT (mask k))"
    and "unat ((v + mask k) AND NOT (mask k)) < 2 ^ 41"
    and "((v + mask k) AND NOT (mask k)) AND mask k = 0"
proof -
  have p: "(2::nat) ^ k \<le> 2 ^ 16" using assms(2) by (intro power_increasing) auto
  have m: "unat (mask k :: size_t) = 2 ^ k - 1"
    using assms(2) p unat_of_nat_small [where 'a = 64, of "2 ^ k - 1"]
    by (simp add: mask_eq_exp_minus_1 of_nat_diff)
  then have s: "unat (v + mask k) = unat v + (2 ^ k - 1)"
    using assms(1) p by (subst unat_plus_small) auto
  have lt: "(unat v + (2 ^ k - 1)) mod 2 ^ k < 2 ^ k" by simp
  show "unat v \<le> unat ((v + mask k) AND NOT (mask k))"
    unfolding unat_and_not_mask s using lt by linarith
  show "unat ((v + mask k) AND NOT (mask k)) < 2 ^ 41"
    unfolding unat_and_not_mask s using assms(1) p by simp
  show "((v + mask k) AND NOT (mask k)) AND mask k = 0"
    by (rule bit_word_eqI) (auto simp: bit_simps)
qed


text \<open>The new block starts past the tail, is aligned, and its end does not wrap around.\<close>

lemma create_offsets:
  assumes inv: "pool_inv P blks" and i: "i < unat (NumBuckets P)"
    and ofs: "ofs = (TailPosition P + CFE_ES_GENERIC_POOL_DESCRIPTOR_SIZE + AlignMask P)
                      AND NOT (AlignMask P)"
  shows "unat (TailPosition P) + DSZ \<le> unat ofs" "ofs AND AlignMask P = 0"
    "unat (ofs + BlockSize (Buckets P ! i)) = unat ofs + unat (BlockSize (Buckets P ! i))"
proof -
  from inv_geometry(3) [OF inv] obtain k where k: "k \<le> 16" "AlignMask P = mask k" by blast
  have tail: "unat (TailPosition P) < 2 ^ 32"
    using inv_geometry(1,2) [OF inv] unfolding word_le_nat_alt by linarith
  note sz = inv_geometry(4) [OF inv i]
  have v: "unat (TailPosition P + CFE_ES_GENERIC_POOL_DESCRIPTOR_SIZE) = unat (TailPosition P) + DSZ"
    using tail by (subst unat_plus_small) (simp_all add: CFE_ES_GENERIC_POOL_DESCRIPTOR_SIZE_def)
  then have "unat (TailPosition P + CFE_ES_GENERIC_POOL_DESCRIPTOR_SIZE) < 2 ^ 40"
    using tail by simp
  note a = align_up [OF this k(1), folded k(2), folded ofs]
  from a(1) v show "unat (TailPosition P) + DSZ \<le> unat ofs" by simp
  from a(3) show "ofs AND AlignMask P = 0" .
  from a(2) sz show
    "unat (ofs + BlockSize (Buckets P ! i)) = unat ofs + unat (BlockSize (Buckets P ! i))"
    by (subst unat_plus_small) simp_all
qed

lemma bucket_ok_new_block:
  assumes lay: "layout P pos blks" and new: "ofs \<notin> fst ` set blks"
    and ok: "bucket_ok P blks j"
    and desc: "\<And>y. y \<noteq> ofs \<Longrightarrow> desc_at P' y = desc_at P y"
    and na: "\<not> is_free P' (ofs, i)" and bid: "bucket_id P' = bucket_id P"
    and b: "FirstOffset (Buckets P' ! j) = FirstOffset (Buckets P ! j)"
      "ReleaseCount (Buckets P' ! j) = ReleaseCount (Buckets P ! j)"
      "RecycleCount (Buckets P' ! j) = RecycleCount (Buckets P ! j)"
  shows "bucket_ok P' (blks @ [(ofs, i)]) j"
proof -
  from ok obtain fl where fl: "free_chain P (FirstOffset (Buckets P ! j)) fl" "distinct fl"
    "set fl = {y. (y, j) \<in> set blks \<and> is_free P (y, j)}"
    "ReleaseCount (Buckets P ! j) - RecycleCount (Buckets P ! j) = of_nat (length fl)"
    unfolding bucket_ok_def by blast
  have old: "y \<noteq> ofs" if "(y, j) \<in> set blks" for y using that new by force
  then have nofs: "ofs \<notin> set fl" using fl(3) by blast
  have "NextOffset (desc_at P' y) = NextOffset (desc_at P y)" if "y \<in> set fl" for y
    using that nofs desc [of y] by metis
  with fl(1) have "free_chain P' (FirstOffset (Buckets P ! j)) fl"
    by (subst free_chain_cong [of fl P' P]) simp_all
  moreover have "set fl = {y. (y, j) \<in> set (blks @ [(ofs, i)]) \<and> is_free P' (y, j)}"
    using fl(3) na old desc bid by (auto simp: is_free_def)
  ultimately show ?thesis
    unfolding bucket_ok_def using fl(2,4) b by (intro exI [of _ fl]) simp
qed

lemma create_result:
  assumes inv: "pool_inv P blks" and i: "i < unat (NumBuckets P)"
    and n: "n \<le> BlockSize (Buckets P ! i)"
    and r: "CFE_ES_GenPoolCreatePoolBlock P (bucket_id P i) n = (Inr ofs, P')"
  shows "pool_inv P' (blks @ [(ofs, i)]) \<and> ofs \<notin> fst ` set blks
    \<and> alloc_map P' (blks @ [(ofs, i)]) = (alloc_map P blks)(ofs \<mapsto> n)"
proof -
  let ?b = "Buckets P ! i"
  let ?bd = "\<lparr>CheckBits = CFE_ES_CHECK_PATTERN, Allocated = CFE_ES_MEMORY_ALLOCATED + bucket_id P i,
              ActualSize = n, NextOffset = 0\<rparr>"
  from r have ofs: "ofs = (TailPosition P + CFE_ES_GENERIC_POOL_DESCRIPTOR_SIZE + AlignMask P)
                      AND NOT (AlignMask P)"
    and fits: "ofs + BlockSize ?b \<le> PoolMaxOffset P"
    and P': "P' = (set_bucket i (?b\<lparr>AllocationCount := AllocationCount ?b + 1\<rparr>)
          (set_desc (ofs - CFE_ES_GENERIC_POOL_DESCRIPTOR_SIZE) ?bd P))
        \<lparr>TailPosition := ofs + BlockSize ?b, PoolAllocationCount := PoolAllocationCount P + 1\<rparr>"
    using i inv
    by (auto simp: CFE_ES_GenPoolCreatePoolBlock_def GetBucketState_bucket_id Let_def not_less
        split: if_splits)
  note off = create_offsets [OF inv i ofs]
  from inv obtain start where lay: "layout P start blks" by (rule inv_layout)
  have new: "ofs \<notin> fst ` set blks"
    using off(1) layout_bounds [OF lay] by (fastforce simp: block_size_def)
  have len: "i < length (Buckets P)" using inv_sizes [OF inv] i by linarith
  note marks = alloc_free_marks [OF inv_sizes(1) [OF inv] i i]
  have desc: "desc_at P' y = (if y = ofs then ?bd else desc_at P y)" for y
    unfolding P' by simp
  have bid: "bucket_id P' = bucket_id P" unfolding P' by simp
  have bk: "Buckets P' ! j = (if j = i then ?b\<lparr>AllocationCount := AllocationCount ?b + 1\<rparr>
      else Buckets P ! j)" for j
    unfolding P' using len by simp
  have flds: "NumBuckets P' = NumBuckets P" "AlignMask P' = AlignMask P"
    "PoolMaxOffset P' = PoolMaxOffset P" "Retrieve P' = Retrieve P" "Commit P' = Commit P"
    "length (Buckets P') = length (Buckets P)" "TailPosition P' = ofs + BlockSize ?b"
    unfolding P' by simp_all
  note geo = inv_geometry(5) [OF inv, unfolded pool_geometry_def]
  have "BlockSize (Buckets P' ! j) = BlockSize (Buckets P ! j)" for j by (simp add: bk)
  with geo fits have "pool_geometry P'"
    unfolding pool_geometry_def flds by presburger
  moreover have "layout P' start (blks @ [(ofs, i)])"
    by (rule layout_append [OF lay]) (use off i in \<open>simp_all add: flds bk\<close>)
  moreover have "block_ok P' c" if c: "c \<in> set (blks @ [(ofs, i)])" for c
  proof (cases "fst c = ofs")
    case True
    then have "c = (ofs, i)" using c new by force
    with n show ?thesis by (simp add: block_ok_def is_alloc_def desc bid bk)
  next
    case False
    with c have "c \<in> set blks" by auto
    with inv False show ?thesis
      by (auto simp: pool_inv_def block_ok_def is_alloc_def is_free_def desc bid bk)
  qed
  moreover have "bucket_ok P' (blks @ [(ofs, i)]) j" if "j < unat (NumBuckets P')" for j
    by (rule bucket_ok_new_block [OF lay new])
       (use inv that marks in \<open>auto simp: pool_inv_def flds desc bid bk is_free_def\<close>)
  ultimately have "pool_inv P' (blks @ [(ofs, i)])" unfolding pool_inv_def by blast
  moreover have "alloc_map P' (blks @ [(ofs, i)]) = (alloc_map P blks)(ofs \<mapsto> n)"
    using new by (force simp: alloc_map_def is_alloc_def desc bid fun_eq_iff)
  ultimately show ?thesis using new by blast
qed

lemma create_fails:
  "pool_inv P blks \<Longrightarrow> i < unat (NumBuckets P) \<Longrightarrow>
     CFE_ES_GenPoolCreatePoolBlock P (bucket_id P i) n = (Inl e, P') \<Longrightarrow>
     P' = P \<and> e = CFE_ES_ERR_MEM_BLOCK_SIZE"
  by (auto simp: CFE_ES_GenPoolCreatePoolBlock_def GetBucketState_bucket_id Let_def
      split: if_splits)

subsection \<open>Finding the bucket\<close>

lemma find_bucket_loop_spec:
  "k \<le> unat (NumBuckets P) \<Longrightarrow>
     k \<le> find_bucket_loop P n k \<and> find_bucket_loop P n k \<le> unat (NumBuckets P)
     \<and> (\<forall>j. k \<le> j \<and> j < find_bucket_loop P n k \<longrightarrow> BlockSize (Buckets P ! j) < n)
     \<and> (find_bucket_loop P n k < unat (NumBuckets P) \<longrightarrow>
          n \<le> BlockSize (Buckets P ! find_bucket_loop P n k))"
proof (induction P n k rule: find_bucket_loop.induct)
  case (1 P n k)
  show ?case
  proof (cases "k < unat (NumBuckets P) \<and> \<not> n \<le> BlockSize (Buckets P ! k)")
    case True
    then have e: "find_bucket_loop P n k = find_bucket_loop P n (Suc k)"
      by (simp add: find_bucket_loop.simps [of P n k])
    from True "1.IH" have "Suc k \<le> find_bucket_loop P n (Suc k)"
      "find_bucket_loop P n (Suc k) \<le> unat (NumBuckets P)"
      "\<forall>j. Suc k \<le> j \<and> j < find_bucket_loop P n (Suc k) \<longrightarrow> BlockSize (Buckets P ! j) < n"
      "find_bucket_loop P n (Suc k) < unat (NumBuckets P) \<longrightarrow>
          n \<le> BlockSize (Buckets P ! find_bucket_loop P n (Suc k))" by auto
    with True show ?thesis unfolding e by (metis Suc_leD Suc_leI not_less order_le_less)
  next
    case False
    with "1.prems" show ?thesis by (auto simp: find_bucket_loop.simps [of P n k])
  qed
qed

lemma FindBucket_cases:
  assumes "unat (NumBuckets P) \<le> 17"
  obtains "CFE_ES_GenPoolFindBucket P n = 0"
      "\<forall>j < unat (NumBuckets P). BlockSize (Buckets P ! j) < n"
    | i where "i < unat (NumBuckets P)" "CFE_ES_GenPoolFindBucket P n = bucket_id P i"
      "CFE_ES_GenPoolFindBucket P n \<noteq> 0" "n \<le> BlockSize (Buckets P ! i)"
      "\<forall>j < i. BlockSize (Buckets P ! j) < n"
proof -
  define i where "i = find_bucket_loop P n 0"
  have f: "CFE_ES_GenPoolFindBucket P n = bucket_id P i"
    by (simp add: CFE_ES_GenPoolFindBucket_def bucket_id_def i_def)
  note spec = find_bucket_loop_spec [of 0 P n, folded i_def]
  show ?thesis
  proof (cases "i < unat (NumBuckets P)")
    case True
    then have "unat (bucket_id P i) \<noteq> 0" by (simp add: unat_bucket_id)
    then have "bucket_id P i \<noteq> 0" by auto
    with True spec f that(2) show ?thesis by (metis le0)
  next
    case False
    with spec have "i = unat (NumBuckets P)" by simp
    with f have "CFE_ES_GenPoolFindBucket P n = 0" by (simp add: bucket_id_def)
    with spec \<open>i = unat (NumBuckets P)\<close> that(1) show ?thesis by simp
  qed
qed


subsection \<open>Getting and putting a block\<close>

lemma update_sizes:
  "BlockSize b = BlockSize (bs ! i) \<Longrightarrow> BlockSize (bs[i := b] ! j) = BlockSize (bs ! j)"
  by (cases "i < length bs") (auto simp: nth_list_update list_update_beyond)

lemma recycle_frame:
  "CFE_ES_GenPoolRecyclePoolBlock P bid n = (res, P') \<Longrightarrow>
     AlignMask P' = AlignMask P \<and> PoolMaxOffset P' = PoolMaxOffset P
     \<and> TailPosition P' = TailPosition P \<and> NumBuckets P' = NumBuckets P
     \<and> BlockSize (Buckets P' ! j) = BlockSize (Buckets P ! j)"
  by (auto simp: CFE_ES_GenPoolRecyclePoolBlock_def Let_def update_sizes
      split: option.splits if_splits)

lemma create_frame:
  "CFE_ES_GenPoolCreatePoolBlock P bid n = (res, P') \<Longrightarrow>
     AlignMask P' = AlignMask P \<and> PoolMaxOffset P' = PoolMaxOffset P
     \<and> NumBuckets P' = NumBuckets P
     \<and> BlockSize (Buckets P' ! j) = BlockSize (Buckets P ! j)"
  by (auto simp: CFE_ES_GenPoolCreatePoolBlock_def Let_def update_sizes
      split: option.splits if_splits)

lemma GetBlock_unfold:
  assumes "CFE_ES_GenPoolFindBucket P n = bid" "bid \<noteq> 0"
  shows "CFE_ES_GenPoolRecyclePoolBlock P bid n = (Inr x, P1) \<Longrightarrow>
       CFE_ES_GenPoolGetBlock P n = (Inr x, P1)"
    and "CFE_ES_GenPoolRecyclePoolBlock P bid n = (Inl e, P1) \<Longrightarrow>
       CFE_ES_GenPoolGetBlock P n = CFE_ES_GenPoolCreatePoolBlock P1 bid n"
  using assms by (simp_all add: CFE_ES_GenPoolGetBlock_def Let_def)

lemma GetBlock_Inr:
  assumes inv: "pool_inv P blks" and r: "CFE_ES_GenPoolGetBlock P n = (Inr ofs, P')"
  obtains i blks' where "pool_inv P' blks'" "(ofs, i) \<in> set blks'" "set blks \<subseteq> set blks'"
    "n \<le> BlockSize (Buckets P ! i)" "i < unat (NumBuckets P)"
    "\<forall>j < i. BlockSize (Buckets P ! j) < n"
    "alloc_map P' blks' = (alloc_map P blks)(ofs \<mapsto> n)" "ofs \<notin> dom (alloc_map P blks)"
    "BlockSize (Buckets P' ! i) = BlockSize (Buckets P ! i)"
    "AlignMask P' = AlignMask P" "PoolMaxOffset P' = PoolMaxOffset P"
proof -
  from inv_sizes(1) [OF inv] show ?thesis
  proof (cases rule: FindBucket_cases [of P n])
    case 1
    with r show ?thesis by (simp add: CFE_ES_GenPoolGetBlock_def)
  next
    case (2 i)
    note i = 2
    note get = GetBlock_unfold [OF i(2) i(3) [unfolded i(2)]]
    show ?thesis
    proof (cases "CFE_ES_GenPoolRecyclePoolBlock P (bucket_id P i) n")
      case (Pair res P1)
      show ?thesis
      proof (cases res)
        case (Inr x)
        with Pair r get(1) have rr: "CFE_ES_GenPoolRecyclePoolBlock P (bucket_id P i) n = (Inr ofs, P')"
          by simp
        note rec = recycle_result [OF inv i(1,4) rr]
        then have na: "\<not> is_alloc P (ofs, i)" using inv_alloc_or_free(1) [OF inv] by blast
        from inv obtain start where lay: "layout P start blks" by (rule inv_layout)
        have "\<not> is_alloc P (ofs, j)" if "(ofs, j) \<in> set blks" for j
          using block_unique [OF lay that] rec na by metis
        then have "ofs \<notin> dom (alloc_map P blks)"
          by (auto simp: alloc_map_def split: if_splits)
        with rec i recycle_frame [OF rr] show ?thesis by (intro that [of blks i]) auto
      next
        case (Inl e)
        with Pair recycle_fails [OF inv i(1)] have P1: "P1 = P" by blast
        with Pair Inl r get(2) have cc: "CFE_ES_GenPoolCreatePoolBlock P (bucket_id P i) n = (Inr ofs, P')"
          by simp
        note cr = create_result [OF inv i(1,4) cc]
        then have "(ofs, j) \<notin> set blks" for j by (metis fst_conv image_eqI)
        then have "ofs \<notin> dom (alloc_map P blks)"
          by (auto simp: alloc_map_def split: if_splits)
        with cr i create_frame [OF cc] show ?thesis by (intro that [of "blks @ [(ofs, i)]" i]) auto
      qed
    qed
  qed
qed

lemma GetBlock_Inl:
  assumes inv: "pool_inv P blks" and r: "CFE_ES_GenPoolGetBlock P n = (Inl e, P')"
  shows "P' = P \<and> e = CFE_ES_ERR_MEM_BLOCK_SIZE"
proof -
  from inv_sizes(1) [OF inv] show ?thesis
  proof (cases rule: FindBucket_cases [of P n])
    case 1
    with r show ?thesis by (simp add: CFE_ES_GenPoolGetBlock_def)
  next
    case (2 i)
    note get = GetBlock_unfold [OF 2(2) 2(3) [unfolded 2(2)]]
    show ?thesis
    proof (cases "CFE_ES_GenPoolRecyclePoolBlock P (bucket_id P i) n")
      case (Pair res P1)
      with r get obtain e' where "res = Inl e'" by (cases res) auto
      with Pair recycle_fails [OF inv 2(1)] have "P1 = P" by blast
      with Pair \<open>res = Inl e'\<close> r get(2)
      have "CFE_ES_GenPoolCreatePoolBlock P (bucket_id P i) n = (Inl e, P')" by simp
      then show ?thesis by (rule create_fails [OF inv 2(1)])
    qed
  qed
qed

lemma put_bounds:
  assumes inv: "pool_inv P blks" and x: "(x, i) \<in> set blks" and n: "0 < unat (BlockSize (Buckets P ! i))"
  shows "\<not> (TailPosition P \<le> x \<or> x < CFE_ES_GENERIC_POOL_DESCRIPTOR_SIZE)"
  using inv_alloc_or_free(3,4) [OF inv x] n
  by (simp add: word_le_nat_alt word_less_nat_alt CFE_ES_GENERIC_POOL_DESCRIPTOR_SIZE_def not_le)

lemma put_result:
  assumes inv: "pool_inv P blks" and a: "alloc_map P blks x = Some n" and n: "n \<noteq> 0"
  obtains P' i where "CFE_ES_GenPoolPutBlock P x = (Inr n, P')" "pool_inv P' blks"
    "(x, i) \<in> set blks" "is_free P' (x, i)" "alloc_map P' blks = (alloc_map P blks)(x := None)"
    "FirstOffset (Buckets P' ! i) = x" "ReleaseCount (Buckets P' ! i) = ReleaseCount (Buckets P ! i) + 1"
    "RecycleCount (Buckets P' ! i) = RecycleCount (Buckets P ! i)"
    "\<And>j. BlockSize (Buckets P' ! j) = BlockSize (Buckets P ! j)"
    "PoolMaxOffset P' = PoolMaxOffset P" "NumBuckets P' = NumBuckets P"
    "TailPosition P' = TailPosition P"
proof -
  from a obtain i where x: "(x, i) \<in> set blks" and al: "is_alloc P (x, i)"
    and sz: "ActualSize (desc_at P x) = n" by (auto simp: alloc_map_def split: if_splits)
  let ?b = "Buckets P ! i" and ?bd = "desc_at P x"
  let ?bd' = "?bd\<lparr>Allocated := CFE_ES_MEMORY_DEALLOCATED + bucket_id P i, NextOffset := FirstOffset ?b\<rparr>"
  let ?b' = "?b\<lparr>FirstOffset := x, ReleaseCount := ReleaseCount ?b + 1\<rparr>"
  let ?P' = "set_bucket i ?b' (set_desc (x - CFE_ES_GENERIC_POOL_DESCRIPTOR_SIZE) ?bd' P)"
  note i = inv_alloc_or_free(2) [OF inv x]
  have len: "i < length (Buckets P)" using inv_sizes [OF inv] i by linarith
  have ok: "CheckBits ?bd = CFE_ES_CHECK_PATTERN" "n \<le> BlockSize ?b"
    using inv x sz by (auto simp: pool_inv_def block_ok_def)
  have "0 < unat n" using n by (simp add: unat_gt_0)
  then have pos: "0 < unat (BlockSize ?b)" using ok(2) unfolding word_le_nat_alt by linarith
  have vb: "valid_bucket P ?bd = Some i"
    using al ok sz n by (simp add: valid_bucket_def is_alloc_def GetBucketState_bucket_id [OF i])
  have put: "CFE_ES_GenPoolPutBlock P x = (Inr n, ?P')"
    using put_bounds [OF inv x pos] inv vb sz al
    by (simp add: CFE_ES_GenPoolPutBlock_def Let_def desc_at_def is_alloc_def)
  note marks = alloc_free_marks [OF inv_sizes(1) [OF inv] i i]
  from inv obtain start where lay: "layout P start blks" by (rule inv_layout)
  from inv i obtain fl where fl: "free_chain P (FirstOffset ?b) fl" "distinct fl"
    "set fl = {y. (y, i) \<in> set blks \<and> is_free P (y, i)}"
    "ReleaseCount ?b - RecycleCount ?b = of_nat (length fl)"
    unfolding pool_inv_def bucket_ok_def by blast
  have xfl: "x \<notin> set fl" using fl(3) al inv_alloc_or_free(1) [OF inv x] by blast
  have x0: "x \<noteq> 0" using inv_alloc_or_free(3) [OF inv x] by auto
  have own: "bucket_ok ?P' blks i"
  proof -
    have "free_chain ?P' (FirstOffset ?b) fl"
      using fl(1) xfl by (subst free_chain_cong [of fl ?P' P]) auto
    then have "free_chain ?P' x (x # fl)" using x0 by simp
    moreover have "set (x # fl) = {y. (y, i) \<in> set blks \<and> is_free ?P' (y, i)}"
      using fl(3) x by (auto simp: is_free_def)
    moreover have "ReleaseCount ?b + 1 - RecycleCount ?b = of_nat (length (x # fl))"
      using fl(4) by (simp add: algebra_simps)
    ultimately show ?thesis
      unfolding bucket_ok_def using fl(2) xfl len by (intro exI [of _ "x # fl"]) simp
  qed
  have "pool_inv ?P' blks"
    by (rule pool_inv_update [OF inv x]) (use ok sz own in simp_all)
  moreover have "alloc_map ?P' blks = (alloc_map P blks)(x := None)"
    using marks by (subst alloc_map_upd [OF lay x]) simp
  moreover have "is_free ?P' (x, i)" by (simp add: is_free_def)
  moreover have "BlockSize (Buckets ?P' ! j) = BlockSize (Buckets P ! j)" for j
    by (simp add: update_sizes)
  ultimately show ?thesis using put x len by (intro that [of ?P' i]) simp_all
qed

lemma double_put:
  assumes inv: "pool_inv P blks" and x: "(x, i) \<in> set blks" and fr: "is_free P (x, i)"
    and pos: "0 < unat (BlockSize (Buckets P ! i))"
  shows "CFE_ES_GenPoolPutBlock P x
    = (Inl CFE_ES_POOL_BLOCK_INVALID, P\<lparr>ValidationErrorCount := ValidationErrorCount P + 1\<rparr>)"
proof -
  have "valid_bucket P (desc_at P x) = None"
    using fr free_mark_no_bucket [OF inv_sizes(1) [OF inv] inv_alloc_or_free(2) [OF inv x]]
    by (simp add: valid_bucket_def is_free_def)
  then show ?thesis
    using put_bounds [OF inv x pos] inv
    by (simp add: CFE_ES_GenPoolPutBlock_def Let_def desc_at_def)
qed


text \<open>A block that was requested with size 0 is never accepted back.\<close>

lemma alloc_map_errors [simp]:
  "alloc_map (P\<lparr>ValidationErrorCount := c\<rparr>) blks = alloc_map P blks"
  by (rule ext) (simp add: alloc_map_def is_alloc_def desc_at_def bucket_id_def)

lemma empty_put:
  assumes inv: "pool_inv P blks" and a: "alloc_map P blks x = Some 0"
  shows "CFE_ES_GenPoolPutBlock P x \<in>
    {(Inl CFE_ES_POOL_BLOCK_INVALID, P\<lparr>ValidationErrorCount := ValidationErrorCount P + 1\<rparr>),
     (Inl CFE_ES_BUFFER_NOT_IN_POOL, P)}"
proof -
  have sz: "ActualSize (desc_at P x) = 0"
    using a by (auto simp: alloc_map_def split: if_splits)
  have "valid_bucket P (desc_at P x) = None" by (simp add: valid_bucket_def sz split: option.split)
  then show ?thesis
    using inv by (simp add: CFE_ES_GenPoolPutBlock_def Let_def desc_at_def)
qed

subsection \<open>Initialisation\<close>

lemma bubble_pass_no_swap:
  "snd (bubble_pass l) = 0 \<Longrightarrow> fst (bubble_pass l) = l \<and> sorted (map BlockSize l)"
  by (induction l rule: bubble_pass.induct) (auto simp: split_def Let_def split: if_splits)

lemma bubble_sort_sorted:
  "sorted (map BlockSize (bubble_sort l)) \<and> mset (map BlockSize (bubble_sort l)) = mset (map BlockSize l)"
proof (induction l rule: bubble_sort.induct)
  case (1 l)
  show ?case
  proof (cases "0 < snd (bubble_pass l)")
    case True
    with 1 show ?thesis
      using bubble_pass_mset [of l] by (simp add: bubble_sort.simps [of l])
  next
    case False
    then show ?thesis
      using bubble_pass_no_swap [of l] by (simp add: bubble_sort.simps [of l])
  qed
qed

text \<open>Only the sizes move: every other field of the entries stays what it was.\<close>

definition blank :: "GenPoolBucket \<Rightarrow> bool" where
  "blank b \<longleftrightarrow> b\<lparr>BlockSize := 0\<rparr> = zero_bucket"

lemma bubble_pass_blank:
  "(\<forall>b \<in> set l. blank b) \<Longrightarrow> (\<forall>b \<in> set (fst (bubble_pass l)). blank b)"
  by (induction l rule: bubble_pass.induct)
     (auto simp: split_def Let_def xor_swap_def blank_def split: if_splits)

lemma bubble_sort_blank:
  "(\<forall>b \<in> set l. blank b) \<Longrightarrow> (\<forall>b \<in> set (bubble_sort l). blank b)"
proof (induction l rule: bubble_sort.induct)
  case (1 l)
  then show ?case
    using bubble_pass_blank [of l] by (cases "0 < snd (bubble_pass l)") (auto simp: bubble_sort.simps [of l])
qed

lemma power_of_two_nat:
  "0 < (a::nat) \<Longrightarrow> (a - 1) AND a = 0 \<Longrightarrow> \<exists>k. a = 2 ^ k"
proof (induction a rule: less_induct)
  case (less a)
  show ?case
  proof (cases "odd a")
    case True
    then have "(a - 1) AND a = a - 1"
      by (subst and_rec) (auto elim!: oddE)
    with less.prems have "a = 2 ^ 0" by simp
    then show ?thesis by blast
  next
    case False
    then obtain b where b: "a = 2 * b" by blast
    with less.prems(1) have b0: "0 < b" "b < a" by auto
    have "(a - 1) div 2 = b - 1" using b b0 by auto
    then have "2 * ((b - 1) AND b) = 0"
      using less.prems(2) b b0 by (subst (asm) and_rec) simp
    then have "(b - 1) AND b = 0" by simp
    from less.IH [OF b0(2,1) this] obtain k where "b = 2 ^ k" by blast
    with b have "a = 2 ^ Suc k" by simp
    then show ?thesis by blast
  qed
qed

lemma align_mask:
  fixes a :: size_t
  assumes "\<not> a \<le> 1" "(a - 1) AND a = 0" "unat a \<le> 2 ^ 16"
  shows "\<exists>k \<le> 16. a - 1 = mask k"
proof -
  from assms(1) have a0: "0 < unat a" and "1 \<le> a" by (auto simp: word_le_nat_alt)
  then have m: "unat (a - 1) = unat a - 1" by (simp add: unat_sub)
  have "unat ((a - 1) AND a) = (unat a - 1) AND unat a"
    by (simp add: unsigned_and_eq m)
  with assms(2) a0 power_of_two_nat obtain k where k: "unat a = 2 ^ k" by fastforce
  with assms(3) have "(2::nat) ^ k \<le> 2 ^ 16" by presburger
  then have "k \<le> 16" by (rule power_le_imp_le_exp [rotated]) simp
  moreover have "a = 2 ^ k"
  proof -
    have "a = of_nat (unat a)" by simp
    also have "\<dots> = 2 ^ k" by (simp only: k of_nat_power of_nat_numeral)
    finally show ?thesis .
  qed
  ultimately show ?thesis by (auto simp: mask_eq_exp_minus_1)
qed

lemma Store_zero_pool [simp]: "Store (zero_pool st) = st"
  by (simp add: zero_pool_def)

lemma init_pool:
  fixes P0 :: GenPoolRecord
  assumes r: "CFE_ES_GenPoolInitialize P0 start psize asize n sizes retr comm = (CFE_SUCCESS, P)"
    and n: "unat n \<le> 17" "unat n \<le> length sizes"
    and sz: "\<forall>s \<in> set (take (unat n) sizes). unat s < 2 ^ 63"
    and bounds: "unat psize + unat start < 2 ^ 32" "unat asize \<le> 2 ^ 16"
    and cb: "\<forall>d. retr d = CFE_SUCCESS \<and> comm d = CFE_SUCCESS"
  shows "pool_inv P [] \<and> NumBuckets P = n
    \<and> sorted (map BlockSize (take (unat n) (Buckets P)))
    \<and> mset (map BlockSize (take (unat n) (Buckets P))) = mset (take (unat n) sizes)
    \<and> (\<forall>i < unat n. 0 < unat (BlockSize (Buckets P ! i)))
    \<and> TailPosition P = start \<and> PoolMaxOffset P = psize + start \<and> Store P = Store P0"
proof -
  define copied where "copied = map (\<lambda>i. zero_bucket\<lparr>BlockSize := sizes ! i\<rparr>) [0..<unat n]"
  define bs where "bs = bubble_sort copied"
  have cp: "map (\<lambda>i. (Buckets (zero_pool (Store P0)) ! i)\<lparr>BlockSize := sizes ! i\<rparr>) [0..<unat n] = copied"
    using n(1) by (auto simp: copied_def zero_pool_def CFE_PLATFORM_ES_POOL_MAX_BUCKETS_def)
  have mc: "map BlockSize copied = take (unat n) sizes"
    using n(2) by (intro nth_equalityI) (simp_all add: copied_def)
  have srt: "sorted (map BlockSize bs)" "mset (map BlockSize bs) = mset (take (unat n) sizes)"
    using bubble_sort_sorted [of copied] by (simp_all add: bs_def flip: mc)
  have len: "length bs = unat n"
    using arg_cong [OF srt(2), of size] n(2) by simp
  have blk: "FirstOffset b = 0 \<and> ReleaseCount b = RecycleCount b" if "blank b" for b
    using that by (cases b) (simp add: blank_def zero_bucket_def)
  have bl: "\<forall>b \<in> set bs. blank b"
    unfolding bs_def by (rule bubble_sort_blank) (auto simp: copied_def blank_def zero_bucket_def)
  from r have mask0: "(if asize \<le> 1 then 0 else asize - 1) AND asize = 0"
    and first: "BlockSize ((bs @ drop (unat n) (Buckets (zero_pool (Store P0)))) ! 0) \<noteq> 0"
    and flds: "NumBuckets P = n" "TailPosition P = start" "PoolMaxOffset P = psize + start"
      "AlignMask P = (if asize \<le> 1 then 0 else asize - 1)" "Retrieve P = retr" "Commit P = comm"
      "Buckets P = bs @ drop (unat n) (Buckets (zero_pool (Store P0)))" "Store P = Store P0"
    by (auto simp: CFE_ES_GenPoolInitialize_def cp bs_def [symmetric] Let_def split: if_splits)
  have tk: "take (unat n) (Buckets P) = bs" using len by (simp add: flds)
  have nth: "Buckets P ! i = bs ! i" if "i < unat n" for i
    using that len by (simp add: flds nth_append)
  have sizes_set: "BlockSize (bs ! i) \<in> set (take (unat n) sizes)" if "i < unat n" for i
    using that len srt(2) by (metis length_map mset_eq_setD nth_map nth_mem)
  have mask: "\<exists>k \<le> 16. AlignMask P = mask k"
  proof (cases "asize \<le> 1")
    case True
    then show ?thesis by (intro exI [of _ 0]) (simp add: flds)
  next
    case False
    with mask0 align_mask [OF False _ bounds(2)] show ?thesis by (simp add: flds)
  qed
  have pm: "unat (psize + start) = unat psize + unat start"
    using bounds(1) by (intro unat_plus_small) simp
  have "length (Buckets P) = 17"
    using len n(1) by (simp add: flds zero_pool_def CFE_PLATFORM_ES_POOL_MAX_BUCKETS_def)
  then have "pool_geometry P"
    unfolding pool_geometry_def using mask n(1) bounds(1) cb sz sizes_set nth pm
    by (simp add: flds CFE_PLATFORM_ES_POOL_MAX_BUCKETS_def word_le_nat_alt)
  moreover have "bucket_ok P [] i" if "i < unat n" for i
  proof -
    have "blank (Buckets P ! i)" using that bl len nth by (metis nth_mem)
    then show ?thesis
      unfolding bucket_ok_def using blk by (intro exI [of _ "[]"]) simp
  qed
  moreover have "layout P (unat start) []" by (simp add: flds)
  ultimately have "pool_inv P []" unfolding pool_inv_def by (auto simp: flds)
  moreover have "0 < unat (BlockSize (Buckets P ! i))" if i: "i < unat n" for i
  proof -
    have "BlockSize (bs ! 0) \<noteq> 0" using first i len by (simp add: nth_append)
    moreover have "BlockSize (bs ! 0) \<le> BlockSize (bs ! i)"
      using srt(1) i len by (simp add: sorted_iff_nth_mono)
    ultimately have "BlockSize (bs ! i) \<noteq> 0" by (metis word_le_0_iff)
    then show ?thesis using nth [OF i] by (simp add: unat_gt_0)
  qed
  ultimately show ?thesis using srt tk flds by simp
qed

end
