(* ===== verification/Mem_Pool.thy ===== *)
theory Mem_Pool
  imports Gen_Pool_Inv
begin

section \<open>The memory pool API (cfe/modules/es, cfe_es_mempool.c)\<close>

text \<open>
  ES keeps a table of memory-mapped pools, addressed by handles that are resource IDs.  A block
  is handed out as the address \<open>BaseAddr\<close> plus its offset in the generic pool.  The descriptors
  are reached directly in memory, so \<open>Retrieve\<close> and \<open>Commit\<close> always succeed.  A returned size is
  an \<open>int32\<close>.  The pool mutexes only serialise calls and are left out; creating one can fail,
  which is an argument of \<open>CFE_ES_PoolCreateEx\<close>.
\<close>

type_synonym CFE_ES_MemHandle = CFE_ResourceId
type_synonym CFE_ES_AppId = CFE_ResourceId

definition CFE_ES_POOLID_BASE :: uint32 where
  "CFE_ES_POOLID_BASE = 0x140000"

definition CFE_PLATFORM_ES_MAX_MEMORY_POOLS :: uint32 where
  "CFE_PLATFORM_ES_MAX_MEMORY_POOLS = 10"

text \<open>The alignment of \<open>CFE_ES_PoolAlign_t\<close> on the 64-bit target.\<close>

definition CFE_ES_POOL_ALIGNMENT :: size_t where
  "CFE_ES_POOL_ALIGNMENT = 16"

record MemPoolRecord =
  Pool :: GenPoolRecord
  PoolID :: CFE_ES_MemHandle
  BaseAddr :: size_t
  OwnerAppID :: CFE_ES_AppId

record es_pools =
  MemPoolTable :: "MemPoolRecord list"
  LastMemPoolId :: CFE_ResourceId

definition CFE_ES_MemPoolDirectRetrieve :: "size_t \<Rightarrow> CFE_Status" where
  "CFE_ES_MemPoolDirectRetrieve Offset = CFE_SUCCESS"

definition CFE_ES_MemPoolDirectCommit :: "size_t \<Rightarrow> CFE_Status" where
  "CFE_ES_MemPoolDirectCommit Offset = CFE_SUCCESS"

definition CFE_ES_MemPoolID_ToIndex :: "CFE_ES_MemHandle \<Rightarrow> CFE_Status + uint32" where
  "CFE_ES_MemPoolID_ToIndex PoolId =
     CFE_ResourceId_ToIndex True PoolId CFE_ES_POOLID_BASE CFE_PLATFORM_ES_MAX_MEMORY_POOLS"

text \<open>The pointer to a table entry is its index; \<open>None\<close> is \<open>NULL\<close>.\<close>

definition CFE_ES_LocateMemPoolRecordByID :: "CFE_ES_MemHandle \<Rightarrow> nat option" where
  "CFE_ES_LocateMemPoolRecordByID PoolId =
     (case CFE_ES_MemPoolID_ToIndex PoolId of Inr i \<Rightarrow> Some (unat i) | Inl e \<Rightarrow> None)"

definition CFE_ES_CheckMemPoolSlotUsed :: "es_pools \<Rightarrow> CFE_ResourceId \<Rightarrow> bool" where
  "CFE_ES_CheckMemPoolSlotUsed s CheckId =
     (case CFE_ES_LocateMemPoolRecordByID CheckId of
        None \<Rightarrow> True
      | Some i \<Rightarrow> CFE_ResourceId_IsDefined (PoolID (MemPoolTable s ! i)))"

definition CFE_ES_MemPoolRecordIsMatch :: "es_pools \<Rightarrow> nat option \<Rightarrow> CFE_ES_MemHandle \<Rightarrow> bool" where
  "CFE_ES_MemPoolRecordIsMatch s rp PoolId =
     (case rp of None \<Rightarrow> False | Some i \<Rightarrow> PoolID (MemPoolTable s ! i) = PoolId)"

text \<open>An \<open>int32\<close> cast of a size.\<close>

definition to_int32 :: "size_t \<Rightarrow> int" where
  "to_int32 n = sint (ucast n :: 32 word)"

definition set_pool :: "nat \<Rightarrow> GenPoolRecord \<Rightarrow> es_pools \<Rightarrow> es_pools" where
  "set_pool i P s =
     s\<lparr>MemPoolTable := (MemPoolTable s)[i := (MemPoolTable s ! i)\<lparr>Pool := P\<rparr>]\<rparr>"

text \<open>On success the address and the size as \<open>int32\<close>.\<close>

definition CFE_ES_GetPoolBuf ::
  "bool \<Rightarrow> CFE_ES_MemHandle \<Rightarrow> size_t \<Rightarrow> es_pools \<Rightarrow> (CFE_Status + size_t \<times> int) \<times> es_pools" where
  "CFE_ES_GetPoolBuf has_ptr Handle Size s =
     (if \<not> has_ptr then (Inl CFE_ES_BAD_ARGUMENT, s)
      else case CFE_ES_LocateMemPoolRecordByID Handle of
        None \<Rightarrow> (Inl CFE_ES_ERR_RESOURCEID_NOT_VALID, s)
      | Some i \<Rightarrow>
        if \<not> CFE_ES_MemPoolRecordIsMatch s (Some i) Handle
        then (Inl CFE_ES_ERR_RESOURCEID_NOT_VALID, s)
        else case CFE_ES_GenPoolGetBlock (Pool (MemPoolTable s ! i)) Size of
            (Inl e, P') \<Rightarrow> (Inl e, set_pool i P' s)
          | (Inr DataOffset, P') \<Rightarrow>
              (Inr (BaseAddr (MemPoolTable s ! i) + DataOffset, to_int32 Size), set_pool i P' s))"

definition CFE_ES_GetPoolBufInfo ::
  "CFE_ES_MemHandle \<Rightarrow> size_t \<Rightarrow> es_pools \<Rightarrow> CFE_Status + int" where
  "CFE_ES_GetPoolBufInfo Handle BufPtr s =
     (if BufPtr = 0 then Inl CFE_ES_BAD_ARGUMENT
      else case CFE_ES_LocateMemPoolRecordByID Handle of
        None \<Rightarrow> Inl CFE_ES_ERR_RESOURCEID_NOT_VALID
      | Some i \<Rightarrow>
        if \<not> CFE_ES_MemPoolRecordIsMatch s (Some i) Handle
        then Inl CFE_ES_ERR_RESOURCEID_NOT_VALID
        else case CFE_ES_GenPoolGetBlockSize (Pool (MemPoolTable s ! i))
                    (BufPtr - BaseAddr (MemPoolTable s ! i)) of
            Inl e \<Rightarrow> Inl e
          | Inr DataSize \<Rightarrow> Inr (to_int32 DataSize))"

definition CFE_ES_PutPoolBuf ::
  "CFE_ES_MemHandle \<Rightarrow> size_t \<Rightarrow> es_pools \<Rightarrow> (CFE_Status + int) \<times> es_pools" where
  "CFE_ES_PutPoolBuf Handle BufPtr s =
     (if BufPtr = 0 then (Inl CFE_ES_BAD_ARGUMENT, s)
      else case CFE_ES_LocateMemPoolRecordByID Handle of
        None \<Rightarrow> (Inl CFE_ES_ERR_RESOURCEID_NOT_VALID, s)
      | Some i \<Rightarrow>
        if \<not> CFE_ES_MemPoolRecordIsMatch s (Some i) Handle
        then (Inl CFE_ES_ERR_RESOURCEID_NOT_VALID, s)
        else case CFE_ES_GenPoolPutBlock (Pool (MemPoolTable s ! i))
                    (BufPtr - BaseAddr (MemPoolTable s ! i)) of
            (Inl e, P') \<Rightarrow> (Inl e, set_pool i P' s)
          | (Inr DataSize, P') \<Rightarrow> (Inr (to_int32 DataSize), set_pool i P' s))"

text \<open>
  Creating a pool.  \<open>BlockSizes = None\<close> is the null pointer, for which the platform's default
  list \<open>DefSizes\<close> is used; \<open>mutex_ok\<close> says whether \<open>OS_MutSemCreate\<close> succeeds; \<open>AppId\<close> is what
  \<open>CFE_ES_GetAppID\<close> gives.  The result is the status and the handle written to \<open>PoolID\<close>, if
  one is written.
\<close>

definition CFE_ES_PoolCreateEx ::
  "size_t list \<Rightarrow> bool \<Rightarrow> CFE_ES_AppId \<Rightarrow> bool \<Rightarrow> size_t \<Rightarrow> size_t \<Rightarrow> uint16 \<Rightarrow> size_t list option
     \<Rightarrow> bool \<Rightarrow> es_pools \<Rightarrow> (CFE_Status \<times> CFE_ES_MemHandle option) \<times> es_pools" where
  "CFE_ES_PoolCreateEx DefSizes mutex_ok AppId has_id MemPtr Size NumBlockSizes BlockSizes UseMutex s =
     (if MemPtr = 0 \<or> \<not> has_id then ((CFE_ES_BAD_ARGUMENT, None), s)
      else if CFE_PLATFORM_ES_POOL_MAX_BUCKETS < unat NumBlockSizes
      then ((CFE_ES_BAD_ARGUMENT, None), s)
      else
        let Num = (if BlockSizes = None \<and> NumBlockSizes = 0
                   then of_nat CFE_PLATFORM_ES_POOL_MAX_BUCKETS else NumBlockSizes);
            Sizes = (case BlockSizes of None \<Rightarrow> DefSizes | Some l \<Rightarrow> l);
            MinimumSize = CFE_ES_GenPoolCalcMinSize Num Sizes 1
        in if Size < MinimumSize then ((CFE_ES_BAD_ARGUMENT, None), s)
        else
          let PendingID = CFE_ResourceId_FindNext (LastMemPoolId s) CFE_PLATFORM_ES_MAX_MEMORY_POOLS
                            (Some (CFE_ES_CheckMemPoolSlotUsed s))
          in case CFE_ES_LocateMemPoolRecordByID PendingID of
               None \<Rightarrow> ((CFE_ES_NO_RESOURCE_IDS_AVAILABLE, None), s)
             | Some i \<Rightarrow>
               let r0 = MemPoolTable s ! i;
                   (st, P) = CFE_ES_GenPoolInitialize (Pool r0) 0 Size CFE_ES_POOL_ALIGNMENT Num Sizes
                               CFE_ES_MemPoolDirectRetrieve CFE_ES_MemPoolDirectCommit;
                   st' = (if st = CFE_SUCCESS \<and> UseMutex \<and> \<not> mutex_ok
                          then CFE_STATUS_EXTERNAL_RESOURCE_FAIL else st);
                   r1 = (if st' = CFE_SUCCESS
                         then \<lparr>Pool = P, PoolID = PendingID, BaseAddr = MemPtr, OwnerAppID = AppId\<rparr>
                         else \<lparr>Pool = P, PoolID = CFE_RESOURCEID_UNDEFINED, BaseAddr = 0,
                               OwnerAppID = CFE_RESOURCEID_UNDEFINED\<rparr>)
               in ((st', Some (if st' = CFE_SUCCESS then PendingID else CFE_RESOURCEID_UNDEFINED)),
                   s\<lparr>MemPoolTable := (MemPoolTable s)[i := r1], LastMemPoolId := PendingID\<rparr>))"

definition CFE_ES_PoolDelete :: "CFE_ES_MemHandle \<Rightarrow> es_pools \<Rightarrow> CFE_Status \<times> es_pools" where
  "CFE_ES_PoolDelete PoolId s =
     (case CFE_ES_LocateMemPoolRecordByID PoolId of
        None \<Rightarrow> (CFE_ES_ERR_RESOURCEID_NOT_VALID, s)
      | Some i \<Rightarrow>
        if CFE_ES_MemPoolRecordIsMatch s (Some i) PoolId
        then (CFE_SUCCESS,
              s\<lparr>MemPoolTable := (MemPoolTable s)
                  [i := (MemPoolTable s ! i)\<lparr>PoolID := CFE_RESOURCEID_UNDEFINED\<rparr>]\<rparr>)
        else (CFE_ES_ERR_RESOURCEID_NOT_VALID, s))"


section \<open>The interface its clients rely on\<close>

text \<open>
  A pool, seen from a client: \<open>rep s A\<close> says that in state \<open>s\<close> the pool has handed out exactly
  the blocks of the finite map \<open>A\<close>, from address to requested size.
\<close>

locale mem_pool =
  fixes get :: "size_t \<Rightarrow> 's \<Rightarrow> (CFE_Status + size_t \<times> int) \<times> 's"
    and put :: "size_t \<Rightarrow> 's \<Rightarrow> (CFE_Status + int) \<times> 's"
    and rep :: "'s \<Rightarrow> (size_t \<Rightarrow> size_t option) \<Rightarrow> bool"
  assumes get_fresh: "rep s A \<Longrightarrow> get n s = (Inr (a, r), s') \<Longrightarrow>
      a \<notin> dom A \<and> a \<noteq> 0 \<and> r = to_int32 n \<and> rep s' (A(a \<mapsto> n))"
    and get_fails: "rep s A \<Longrightarrow> get n s = (Inl e, s') \<Longrightarrow> rep s' A"
    and put_frees: "rep s A \<Longrightarrow> A a = Some n \<Longrightarrow> n \<noteq> 0 \<Longrightarrow>
      \<exists>s'. put a s = (Inr (to_int32 n), s') \<and> rep s' (A(a := None))"
begin

lemma get_then_put:
  assumes "rep s A" "get n s = (Inr (a, r), s')" "n \<noteq> 0"
  obtains s'' where "put a s' = (Inr (to_int32 n), s'')" "rep s'' A"
proof -
  from get_fresh [OF assms(1,2)] have f: "a \<notin> dom A" "rep s' (A(a \<mapsto> n))" by auto
  have "(A(a \<mapsto> n)) a = Some n" by simp
  from put_frees [OF f(2) this assms(3)] obtain s'' where
    "put a s' = (Inr (to_int32 n), s'')" "rep s'' ((A(a \<mapsto> n))(a := None))" by blast
  moreover have "(A(a \<mapsto> n))(a := None) = A" using f(1) by auto
  ultimately show ?thesis using that by simp
qed

lemma gets_differ:
  assumes "rep s A" "get n s = (Inr (a, r), s1)" "get m s1 = (Inr (b, r'), s2)"
  shows "a \<noteq> b \<and> b \<notin> dom A \<and> rep s2 (A(a \<mapsto> n, b \<mapsto> m))"
  using get_fresh [OF assms(1,2)] get_fresh [OF _ assms(3)] by fastforce

end

section \<open>The pool table provides it\<close>

definition mem_rep :: "CFE_ES_MemHandle \<Rightarrow> es_pools \<Rightarrow> (size_t \<Rightarrow> size_t option) \<Rightarrow> bool" where
  "mem_rep h s A \<longleftrightarrow>
     (\<exists>i blks. CFE_ES_LocateMemPoolRecordByID h = Some i \<and> i < length (MemPoolTable s)
        \<and> PoolID (MemPoolTable s ! i) = h \<and> pool_inv (Pool (MemPoolTable s ! i)) blks
        \<and> unat (BaseAddr (MemPoolTable s ! i)) + unat (PoolMaxOffset (Pool (MemPoolTable s ! i))) < 2 ^ 64
        \<and> A = (\<lambda>a. alloc_map (Pool (MemPoolTable s ! i)) blks (a - BaseAddr (MemPoolTable s ! i))))"

lemma block_address_nonzero:
  assumes inv: "pool_inv P blks" and x: "(x, i) \<in> set blks"
    and bound: "unat base + unat (PoolMaxOffset P) < 2 ^ 64"
  shows "base + x \<noteq> (0 :: size_t)"
proof -
  have "unat x \<le> unat (PoolMaxOffset P)"
    using inv_alloc_or_free(4) [OF inv x] inv_geometry(2) [OF inv] unfolding word_le_nat_alt
    by linarith
  then have "unat (base + x) = unat base + unat x"
    using bound by (intro unat_plus_small) simp
  with inv_alloc_or_free(3) [OF inv x] have "unat (base + x) \<noteq> 0" by simp
  then show ?thesis by auto
qed

lemma mem_rep_get:
  assumes rep: "mem_rep h s A" and g: "CFE_ES_GetPoolBuf True h n s = (Inr (a, r), s')"
  shows "a \<notin> dom A \<and> a \<noteq> 0 \<and> r = to_int32 n \<and> mem_rep h s' (A(a \<mapsto> n))"
proof -
  from rep obtain i blks where i: "CFE_ES_LocateMemPoolRecordByID h = Some i"
    "i < length (MemPoolTable s)" "PoolID (MemPoolTable s ! i) = h"
    and inv: "pool_inv (Pool (MemPoolTable s ! i)) blks"
    and bound: "unat (BaseAddr (MemPoolTable s ! i)) + unat (PoolMaxOffset (Pool (MemPoolTable s ! i))) < 2 ^ 64"
    and A: "A = (\<lambda>a. alloc_map (Pool (MemPoolTable s ! i)) blks (a - BaseAddr (MemPoolTable s ! i)))"
    unfolding mem_rep_def by blast
  let ?P = "Pool (MemPoolTable s ! i)" and ?base = "BaseAddr (MemPoolTable s ! i)"
  from g i obtain ofs P' where gb: "CFE_ES_GenPoolGetBlock ?P n = (Inr ofs, P')"
    and a: "a = ?base + ofs" "r = to_int32 n" "s' = set_pool i P' s"
    by (auto simp: CFE_ES_GetPoolBuf_def CFE_ES_MemPoolRecordIsMatch_def split: prod.splits sum.splits)
  from GetBlock_Inr [OF inv gb] obtain k blks' where b: "pool_inv P' blks'" "(ofs, k) \<in> set blks'"
    "alloc_map P' blks' = (alloc_map ?P blks)(ofs \<mapsto> n)" "ofs \<notin> dom (alloc_map ?P blks)"
    "PoolMaxOffset P' = PoolMaxOffset ?P" by metis
  have "a \<noteq> 0" unfolding a(1) by (rule block_address_nonzero [OF b(1,2)]) (use bound b(5) in simp)
  moreover have "a \<notin> dom A" using b(4) by (auto simp: A a(1))
  moreover have "A(a \<mapsto> n) = (\<lambda>x. alloc_map P' blks' (x - ?base))"
    using b(3) by (auto simp: A a(1) fun_eq_iff)
  then have "mem_rep h s' (A(a \<mapsto> n))"
    unfolding mem_rep_def using i b(1,5) bound
    by (intro exI [of _ i] exI [of _ blks']) (simp add: a(3) set_pool_def)
  ultimately show ?thesis using a(2) by simp
qed

lemma mem_rep_get_fails:
  assumes rep: "mem_rep h s A" and g: "CFE_ES_GetPoolBuf True h n s = (Inl e, s')"
  shows "mem_rep h s' A"
proof -
  from rep obtain i blks where i: "CFE_ES_LocateMemPoolRecordByID h = Some i"
    "i < length (MemPoolTable s)" "PoolID (MemPoolTable s ! i) = h"
    and inv: "pool_inv (Pool (MemPoolTable s ! i)) blks"
    unfolding mem_rep_def by blast
  from g i obtain P' where gb: "CFE_ES_GenPoolGetBlock (Pool (MemPoolTable s ! i)) n = (Inl e, P')"
    and s': "s' = set_pool i P' s"
    by (auto simp: CFE_ES_GetPoolBuf_def CFE_ES_MemPoolRecordIsMatch_def split: prod.splits sum.splits)
  from GetBlock_Inl [OF inv gb] have "P' = Pool (MemPoolTable s ! i)" by blast
  with s' have "s' = s" by (simp add: set_pool_def)
  with rep show ?thesis by simp
qed

lemma mem_rep_put:
  assumes rep: "mem_rep h s A" and a: "A a = Some n" and n: "n \<noteq> 0"
  shows "\<exists>s'. CFE_ES_PutPoolBuf h a s = (Inr (to_int32 n), s') \<and> mem_rep h s' (A(a := None))"
proof -
  from rep obtain i blks where i: "CFE_ES_LocateMemPoolRecordByID h = Some i"
    "i < length (MemPoolTable s)" "PoolID (MemPoolTable s ! i) = h"
    and inv: "pool_inv (Pool (MemPoolTable s ! i)) blks"
    and bound: "unat (BaseAddr (MemPoolTable s ! i)) + unat (PoolMaxOffset (Pool (MemPoolTable s ! i))) < 2 ^ 64"
    and A: "A = (\<lambda>a. alloc_map (Pool (MemPoolTable s ! i)) blks (a - BaseAddr (MemPoolTable s ! i)))"
    unfolding mem_rep_def by blast
  let ?P = "Pool (MemPoolTable s ! i)" and ?base = "BaseAddr (MemPoolTable s ! i)"
  from a A have al: "alloc_map ?P blks (a - ?base) = Some n" by simp
  from put_result [OF inv al n] obtain P' k where b:
    "CFE_ES_GenPoolPutBlock ?P (a - ?base) = (Inr n, P')" "pool_inv P' blks"
    "(a - ?base, k) \<in> set blks" "alloc_map P' blks = (alloc_map ?P blks)(a - ?base := None)"
    "PoolMaxOffset P' = PoolMaxOffset ?P" by metis
  have "?base + (a - ?base) \<noteq> 0" by (rule block_address_nonzero [OF inv b(3) bound])
  then have "a \<noteq> 0" by simp
  with i b(1) have "CFE_ES_PutPoolBuf h a s = (Inr (to_int32 n), set_pool i P' s)"
    by (simp add: CFE_ES_PutPoolBuf_def CFE_ES_MemPoolRecordIsMatch_def)
  moreover have "A(a := None) = (\<lambda>x. alloc_map P' blks (x - ?base))"
    using b(4) by (auto simp: A fun_eq_iff)
  then have "mem_rep h (set_pool i P' s) (A(a := None))"
    unfolding mem_rep_def using i b(2,5) bound
    by (intro exI [of _ i] exI [of _ blks]) (simp add: set_pool_def)
  ultimately show ?thesis by blast
qed

interpretation es_pool: mem_pool "CFE_ES_GetPoolBuf True h" "CFE_ES_PutPoolBuf h" "mem_rep h"
  for h
  by unfold_locales (rule mem_rep_get mem_rep_get_fails mem_rep_put; assumption)+

end
