(* ===== verification/Pool_Properties.thy ===== *)
theory Pool_Properties
  imports Mem_Pool
begin

section \<open>Properties of resource identifiers and memory pools\<close>

text \<open>
  The properties of the table search and of the memory pool, each with a witness on a concrete
  pool of 256 bytes with two bucket sizes, given to the initialisation out of order.
\<close>

definition demo_desc :: GenPoolBD where
  "demo_desc = \<lparr>CheckBits = 0, Allocated = 0, ActualSize = 0, NextOffset = 0\<rparr>"

definition demo_init :: "CFE_Status \<times> GenPoolRecord" where
  "demo_init = CFE_ES_GenPoolInitialize (zero_pool (\<lambda>_. demo_desc)) 0 256 16 2 [64, 8]
     CFE_ES_MemPoolDirectRetrieve CFE_ES_MemPoolDirectCommit"

definition demo_pool :: GenPoolRecord where
  "demo_pool = snd demo_init"

lemma demo_init_ok: "demo_init = (CFE_SUCCESS, demo_pool)"
proof -
  have "fst demo_init = CFE_SUCCESS" by code_simp
  then show ?thesis by (simp add: demo_pool_def prod_eq_iff)
qed

lemma demo_pool_inv: "pool_inv demo_pool []"
  using init_pool [OF demo_init_ok [unfolded demo_init_def]]
  by (simp add: CFE_ES_MemPoolDirectRetrieve_def CFE_ES_MemPoolDirectCommit_def)

text \<open>
  C13 (\<open>CFE_ES_GenPoolGetBlock\<close>): a block obtained from a consistent pool is at least as large as
  asked for, comes from the smallest bucket that fits, lies inside the pool at an aligned offset,
  was not in use, and together with its descriptor overlaps no block in use; the pool stays
  consistent and every other block in use stays in use with its size.
\<close>

theorem pool_get_fresh:
  assumes "pool_inv P blks" and "CFE_ES_GenPoolGetBlock P n = (Inr ofs, P')"
  shows "\<exists>i blks'. pool_inv P' blks' \<and> (ofs, i) \<in> set blks' \<and> i < unat (NumBuckets P)
    \<and> n \<le> BlockSize (Buckets P ! i) \<and> (\<forall>j < i. BlockSize (Buckets P ! j) < n)
    \<and> ofs AND AlignMask P = 0 \<and> footprint P' (ofs, i) \<subseteq> {..< unat (PoolMaxOffset P)}
    \<and> ofs \<notin> dom (alloc_map P blks) \<and> alloc_map P' blks' = (alloc_map P blks)(ofs \<mapsto> n)
    \<and> (\<forall>c \<in> set blks'. c \<noteq> (ofs, i) \<longrightarrow> footprint P' c \<inter> footprint P' (ofs, i) = {})"
proof -
  from GetBlock_Inr [OF assms] obtain i blks' where b: "pool_inv P' blks'" "(ofs, i) \<in> set blks'"
    "n \<le> BlockSize (Buckets P ! i)" "i < unat (NumBuckets P)"
    "\<forall>j < i. BlockSize (Buckets P ! j) < n"
    "alloc_map P' blks' = (alloc_map P blks)(ofs \<mapsto> n)" "ofs \<notin> dom (alloc_map P blks)"
    "AlignMask P' = AlignMask P" "PoolMaxOffset P' = PoolMaxOffset P" by metis
  from b(1) obtain start where lay: "layout P' start blks'" by (rule inv_layout)
  have "unat (TailPosition P') \<le> unat (PoolMaxOffset P)"
    using inv_geometry(2) [OF b(1)] b(9) by (simp add: word_le_nat_alt)
  then have "footprint P' (ofs, i) \<subseteq> {..< unat (PoolMaxOffset P)}"
    using inv_alloc_or_free(4) [OF b(1,2)] by (auto simp: footprint_def block_size_def)
  moreover have "ofs AND AlignMask P = 0"
    using layout_bounds [OF lay b(2)] b(8) by simp
  moreover have "\<forall>c \<in> set blks'. c \<noteq> (ofs, i) \<longrightarrow> footprint P' c \<inter> footprint P' (ofs, i) = {}"
    using layout_disjoint [OF lay] b(2) by blast
  ultimately show ?thesis using b(1-7) by blast
qed

theorem pool_get_fresh_witness:
  "\<exists>i blks'. pool_inv (snd (CFE_ES_GenPoolGetBlock demo_pool 10)) blks' \<and> (32, i) \<in> set blks'
    \<and> (10 :: size_t) \<le> BlockSize (Buckets demo_pool ! i)"
proof -
  have "fst (CFE_ES_GenPoolGetBlock demo_pool 10) = Inr 32" by code_simp
  then have "CFE_ES_GenPoolGetBlock demo_pool 10
      = (Inr 32, snd (CFE_ES_GenPoolGetBlock demo_pool 10))" by (simp add: prod_eq_iff)
  from pool_get_fresh [OF demo_pool_inv this] show ?thesis by blast
qed

text \<open>
  C14 (\<open>CFE_ES_GenPoolPutBlock\<close>): putting back a block in use that was requested with a size
  other than 0 succeeds and reports its size, takes it out of the blocks in use and touches no other;
  putting the same block back a second time is rejected as invalid and only counts a validation error.
  A block that was requested with size 0 is never accepted back: each attempt is rejected, changes at
  most the count of validation errors, and the block stays in use.
\<close>

theorem pool_put_once:
  assumes "pool_inv P blks" and "alloc_map P blks x = Some n"
  shows "if n = 0
    then \<exists>e P'. CFE_ES_GenPoolPutBlock P x = (Inl e, P')
      \<and> e \<in> {CFE_ES_POOL_BLOCK_INVALID, CFE_ES_BUFFER_NOT_IN_POOL}
      \<and> P' \<in> {P, P\<lparr>ValidationErrorCount := ValidationErrorCount P + 1\<rparr>}
      \<and> alloc_map P' blks = alloc_map P blks
    else \<exists>P'. CFE_ES_GenPoolPutBlock P x = (Inr n, P') \<and> pool_inv P' blks
      \<and> alloc_map P' blks = (alloc_map P blks)(x := None)
      \<and> CFE_ES_GenPoolPutBlock P' x
          = (Inl CFE_ES_POOL_BLOCK_INVALID, P'\<lparr>ValidationErrorCount := ValidationErrorCount P' + 1\<rparr>)"
proof (cases "n = 0")
  case True
  with empty_put [OF assms(1), of x] assms(2) show ?thesis by auto
next
  case n: False
  from put_result [OF assms n] obtain P' i where b: "CFE_ES_GenPoolPutBlock P x = (Inr n, P')"
    "pool_inv P' blks" "(x, i) \<in> set blks" "is_free P' (x, i)"
    "alloc_map P' blks = (alloc_map P blks)(x := None)" 
    "\<And>j. BlockSize (Buckets P' ! j) = BlockSize (Buckets P ! j)" by metis
  from assms(2) have sz: "ActualSize (desc_at P x) = n" by (auto simp: alloc_map_def split: if_splits)
  have "n \<le> BlockSize (Buckets P ! i)"
    using assms(1) b(3) sz by (auto simp: pool_inv_def block_ok_def)
  moreover have "0 < unat n" using n by (simp add: unat_gt_0)
  ultimately have "0 < unat (BlockSize (Buckets P' ! i))"
    using b(6) unfolding word_le_nat_alt by (metis less_le_trans)
  from double_put [OF b(2,3,4) this] b(1,2,5) n show ?thesis by auto
qed

lemma demo_got:
  "\<exists>blks. pool_inv (snd (CFE_ES_GenPoolGetBlock demo_pool 10)) blks
     \<and> alloc_map (snd (CFE_ES_GenPoolGetBlock demo_pool 10)) blks 32 = Some 10"
proof -
  have "fst (CFE_ES_GenPoolGetBlock demo_pool 10) = Inr 32" by code_simp
  then have "CFE_ES_GenPoolGetBlock demo_pool 10
      = (Inr 32, snd (CFE_ES_GenPoolGetBlock demo_pool 10))" by (simp add: prod_eq_iff)
  from GetBlock_Inr [OF demo_pool_inv this] show ?thesis by (metis fun_upd_same)
qed

theorem pool_put_once_witness:
  "\<exists>P'. CFE_ES_GenPoolPutBlock (snd (CFE_ES_GenPoolGetBlock demo_pool 10)) 32 = (Inr 10, P')
     \<and> fst (CFE_ES_GenPoolPutBlock P' 32) = Inl CFE_ES_POOL_BLOCK_INVALID"
proof -
  from demo_got obtain blks where
    "pool_inv (snd (CFE_ES_GenPoolGetBlock demo_pool 10)) blks"
    "alloc_map (snd (CFE_ES_GenPoolGetBlock demo_pool 10)) blks 32 = Some 10" by blast
  from pool_put_once [OF this] show ?thesis by auto
qed

lemma free_count:
  assumes inv: "pool_inv P blks"
  shows "card {ofs. (ofs, i) \<in> set blks \<and> is_free P (ofs, i)} < 2 ^ 32"
proof -
  let ?F = "{ofs. (ofs, i) \<in> set blks \<and> is_free P (ofs, i)}"
  have "unat ` ?F \<subseteq> {24..< 2 ^ 32}"
  proof clarify
    fix ofs assume x: "(ofs, i) \<in> set blks"
    have "unat ofs \<le> unat (PoolMaxOffset P)"
      using inv_alloc_or_free(4) [OF inv x] inv_geometry(2) [OF inv]
      unfolding word_le_nat_alt by linarith
    with inv_geometry(1) [OF inv] inv_alloc_or_free(3) [OF inv x]
    show "unat ofs \<in> {24..< 2 ^ 32}" by simp
  qed
  then have "card (unat ` ?F) \<le> card {24..< 2 ^ 32 :: nat}" by (intro card_mono) simp_all
  moreover have "card (unat ` ?F) = card ?F" by (intro card_image inj_onI) (simp add: word_unat_eq_iff)
  ultimately show ?thesis by simp
qed

text \<open>
  (\<open>CFE_ES_GenPoolRecyclePoolBlock\<close>): memory that was put back is reused first: the next
  request served from the same bucket gets the very block just put back, and the pool does not
  grow.
\<close>

theorem pool_recycles:
  assumes inv: "pool_inv P blks" and a: "alloc_map P blks x = Some n" "n \<noteq> 0"
    and put: "CFE_ES_GenPoolPutBlock P x = (Inr n, P')"
    and k: "(x, k) \<in> set blks" "CFE_ES_GenPoolFindBucket P' m = bucket_id P' k"
  shows "\<exists>P''. CFE_ES_GenPoolGetBlock P' m = (Inr x, P'') \<and> TailPosition P'' = TailPosition P"
proof -
  obtain Q i where q: "CFE_ES_GenPoolPutBlock P x = (Inr n, Q)" "pool_inv Q blks"
    "(x, i) \<in> set blks" "is_free Q (x, i)" "alloc_map Q blks = (alloc_map P blks)(x := None)"
    "FirstOffset (Buckets Q ! i) = x" "ReleaseCount (Buckets Q ! i) = ReleaseCount (Buckets P ! i) + 1"
    "RecycleCount (Buckets Q ! i) = RecycleCount (Buckets P ! i)"
    "\<And>j. BlockSize (Buckets Q ! j) = BlockSize (Buckets P ! j)"
    "PoolMaxOffset Q = PoolMaxOffset P" "NumBuckets Q = NumBuckets P"
    "TailPosition Q = TailPosition P"
    by (rule put_result [OF inv a]) (rule that; assumption)
  from q(1) put have "Q = P'" by simp
  note b = q(2,3,4,6,12) [unfolded this]
  from inv obtain start where "layout P start blks" by (rule inv_layout)
  from block_unique [OF this b(2) k(1)] have ik: "i = k" .
  note kn = inv_alloc_or_free(2) [OF b(1) k(1)]
  have x0: "x \<noteq> 0" using inv_alloc_or_free(3) [OF b(1) k(1)] by auto
  have fst: "FirstOffset (Buckets P' ! k) = x" using b(4) ik by simp
  have "FirstOffset (Buckets P' ! k) \<noteq> 0" using fst x0 by simp
  then obtain xs where xs: "distinct (FirstOffset (Buckets P' ! k) # xs)"
    "insert (FirstOffset (Buckets P' ! k)) (set xs) = {ofs. (ofs, k) \<in> set blks \<and> is_free P' (ofs, k)}"
    "ReleaseCount (Buckets P' ! k) - RecycleCount (Buckets P' ! k) = of_nat (Suc (length xs))"
    by (rule bucket_stack_nonempty [OF b(1) kn]) (rule that; assumption)
  note xs = xs [unfolded fst]
  have "length (x # xs) < 2 ^ 32"
    using free_count [OF b(1), of k] xs(2) distinct_card [OF xs(1)] by simp
  then have "unat (of_nat (Suc (length xs)) :: uint32) = Suc (length xs)"
    by (intro unat_of_nat_small) simp
  then have "(of_nat (Suc (length xs)) :: uint32) \<noteq> 0" by (metis nat.distinct(1) unat_0)
  with xs(3) have ne: "RecycleCount (Buckets P' ! k) \<noteq> ReleaseCount (Buckets P' ! k)" by auto
  have chk: "CheckBits (desc_at P' x) = CFE_ES_CHECK_PATTERN"
    using b(1) k(1) by (auto simp: pool_inv_def block_ok_def)
  have "Allocated (desc_at P' x) - CFE_ES_MEMORY_DEALLOCATED = bucket_id P' k"
    using b(3) ik by (simp add: is_free_def)
  with chk ne b(1,4) ik x0 obtain P'' where
    r: "CFE_ES_GenPoolRecyclePoolBlock P' (bucket_id P' k) m = (Inr x, P'')"
    by (simp add: CFE_ES_GenPoolRecyclePoolBlock_def GetBucketState_bucket_id [OF kn] Let_def
        desc_at_def)
  have "unat (bucket_id P' k) \<noteq> 0" using kn by (simp add: unat_bucket_id)
  then have "bucket_id P' k \<noteq> 0" by auto
  from GetBlock_unfold(1) [OF k(2) this r] recycle_frame [OF r] b(5) show ?thesis by auto
qed

theorem pool_recycles_witness:
  "\<exists>P''. CFE_ES_GenPoolGetBlock
      (snd (CFE_ES_GenPoolPutBlock (snd (CFE_ES_GenPoolGetBlock demo_pool 10)) 32)) 60 = (Inr 32, P'')"
proof -
  let ?G = "snd (CFE_ES_GenPoolGetBlock demo_pool 10)"
  let ?Q = "snd (CFE_ES_GenPoolPutBlock ?G 32)"
  have g: "CFE_ES_GenPoolGetBlock demo_pool 10 = (Inr 32, ?G)"
  proof -
    have "fst (CFE_ES_GenPoolGetBlock demo_pool 10) = Inr 32" by code_simp
    then show ?thesis by (simp add: prod_eq_iff)
  qed
  from GetBlock_Inr [OF demo_pool_inv g] obtain i blks where
    b: "pool_inv ?G blks" "(32, i) \<in> set blks" "(10 :: size_t) \<le> BlockSize (Buckets demo_pool ! i)"
    "i < unat (NumBuckets demo_pool)" "alloc_map ?G blks = (alloc_map demo_pool [])(32 \<mapsto> 10)" by metis
  have "NumBuckets demo_pool = 2" "BlockSize (Buckets demo_pool ! 0) = 8" by code_simp+
  with b(3,4) have "i = 1" by (cases i) auto
  have al: "alloc_map ?G blks 32 = Some 10" using b(5) by simp
  have p: "CFE_ES_GenPoolPutBlock ?G 32 = (Inr 10, ?Q)"
  proof -
    have "fst (CFE_ES_GenPoolPutBlock ?G 32) = Inr 10" by code_simp
    then show ?thesis by (simp add: prod_eq_iff)
  qed
  have f: "CFE_ES_GenPoolFindBucket ?Q 60 = bucket_id ?Q i"
  proof -
    have "CFE_ES_GenPoolFindBucket ?Q 60 = bucket_id ?Q 1" by code_simp
    with \<open>i = 1\<close> show ?thesis by simp
  qed
  from pool_recycles [OF b(1) al _ p b(2) f] show ?thesis by auto
qed

text \<open>
  (\<open>CFE_ES_GenPoolInitialize\<close>): a pool that initialises successfully is consistent and empty,
  its buckets are the given block sizes in ascending order (the bubble sort ends and permutes the
  list), and none of them is zero.
\<close>

lemma pool_initialised:
  fixes P0 :: GenPoolRecord
  assumes "CFE_ES_GenPoolInitialize P0 start psize asize n sizes retr comm = (CFE_SUCCESS, P)"
    and "unat n \<le> 17" "unat n \<le> length sizes"
    and "\<forall>s \<in> set (take (unat n) sizes). unat s < 2 ^ 63"
    and "unat psize + unat start < 2 ^ 32" "unat asize \<le> 2 ^ 16"
    and "\<forall>d. retr d = CFE_SUCCESS \<and> comm d = CFE_SUCCESS"
  shows "pool_inv P [] \<and> NumBuckets P = n
    \<and> sorted (map BlockSize (take (unat n) (Buckets P)))
    \<and> mset (map BlockSize (take (unat n) (Buckets P))) = mset (take (unat n) sizes)
    \<and> (\<forall>i < unat n. 0 < unat (BlockSize (Buckets P ! i)))"
  using init_pool [OF assms] by blast

lemma pool_initialised_witness:
  "pool_inv demo_pool [] \<and> NumBuckets demo_pool = 2
   \<and> map BlockSize (take 2 (Buckets demo_pool)) = [8, 64]"
proof -
  have "map BlockSize (take 2 (Buckets demo_pool)) = [8, 64]" by code_simp
  with pool_initialised [OF demo_init_ok [unfolded demo_init_def]] show ?thesis
    by (simp add: CFE_ES_MemPoolDirectRetrieve_def CFE_ES_MemPoolDirectCommit_def)
qed

text \<open>
  (\<open>CFE_ResourceId_FindNext\<close>): the search for a free table entry is complete.  It gives the
  undefined ID exactly when every entry of the table is in use; otherwise it gives an ID of the
  same resource type whose index is an entry that is not in use.
\<close>

theorem find_next_complete:
  assumes base: "CFE_ResourceId_GetBase base = base" "base \<noteq> 0"
    and start: "CFE_ResourceId_GetBase StartId = base"
    and ts: "0 < unat ts" "unat ts \<le> 0xFFFF"
    and res: "CFE_ResourceId_FindNext StartId ts (Some (slot_check base ts in_use)) = rid"
  shows "(rid = CFE_RESOURCEID_UNDEFINED \<longleftrightarrow> (\<forall>i < unat ts. in_use i))
    \<and> (rid \<noteq> CFE_RESOURCEID_UNDEFINED \<longrightarrow>
         (\<exists>i. CFE_ResourceId_ToIndex True rid base ts = Inr i \<and> unat i < unat ts \<and> \<not> in_use (unat i)
              \<and> CFE_ResourceId_GetBase rid = base))"
proof -
  let ?s = "CFE_ResourceId_GetSerial StartId"
  have loop: "rid = find_next_loop (slot_check base ts in_use) base ts (unat ts) ?s"
    using res start by (simp add: CFE_ResourceId_FindNext_def)
  have ts0: "ts \<noteq> 0" using ts(1) by auto
  have chk: "slot_check base ts in_use (base + s') = in_use (unat s' mod unat ts)"
    if "unat s' < 0xFFFF" for s'
    using that ToIndex_base_plus [of s' ts base] ts0 by (simp add: slot_check_def unat_mod_word)
  from find_next_loop_spec [OF ts unat_GetSerial_le [of StartId], where c = "unat ts"
      and chk = "slot_check base ts in_use" and ty = base]
  show ?thesis
  proof
    assume "\<exists>s' k. 1 \<le> k \<and> k \<le> unat ts \<and> candidate ts (unat ?s) k s'
      \<and> \<not> slot_check base ts in_use (base + s')
      \<and> find_next_loop (slot_check base ts in_use) base ts (unat ts) ?s = base + s'"
    then obtain s' k where s': "candidate ts (unat ?s) k s'"
      "\<not> slot_check base ts in_use (base + s')" "rid = base + s'" using loop by auto
    then have b: "unat s' < 0xFFFF" by (simp add: candidate_def)
    have idx: "CFE_ResourceId_ToIndex True rid base ts = Inr (s' mod ts)"
      using b ts0 s'(3) by (simp add: ToIndex_base_plus)
    have "\<not> in_use (unat (s' mod ts))" "unat (s' mod ts) < unat ts"
      using s'(2) chk [OF b] ts(1) by (simp_all add: unat_mod_word)
    with idx base_plus_defined [OF base, of s'] b s'(3) show ?thesis by auto
  next
    assume r: "find_next_loop (slot_check base ts in_use) base ts (unat ts) ?s = CFE_RESOURCEID_UNDEFINED
      \<and> (\<forall>k \<in> {1..unat ts}. \<exists>s'. candidate ts (unat ?s) k s' \<and> slot_check base ts in_use (base + s'))"
    have "in_use i" if i: "i < unat ts" for i
    proof -
      define k where "k = (if unat ?s mod unat ts < i then i - unat ?s mod unat ts
                           else unat ts - unat ?s mod unat ts + i)"
      have lt: "unat ?s mod unat ts < unat ts" using ts(1) by simp
      have k: "k \<in> {1..unat ts}"
      proof (cases "unat ?s mod unat ts < i")
        case True
        then have "k = i - unat ?s mod unat ts" by (simp add: k_def)
        with True i show ?thesis unfolding atLeastAtMost_iff by linarith
      next
        case False
        then have "k = unat ts - unat ?s mod unat ts + i" by (simp add: k_def)
        with False i lt show ?thesis unfolding atLeastAtMost_iff by linarith
      qed
      have "unat ?s mod unat ts + k = (if unat ?s mod unat ts < i then i else unat ts + i)"
        unfolding k_def using lt by (simp split: if_splits)
      then have "(unat ?s mod unat ts + k) mod unat ts = i" using i by simp
      then have ki: "(unat ?s + k) mod unat ts = i" by (simp add: mod_add_left_eq)
      from r k obtain s' where "candidate ts (unat ?s) k s'" "slot_check base ts in_use (base + s')"
        by blast
      with chk ki show ?thesis by (simp add: candidate_def)
    qed
    with r loop show ?thesis by simp
  qed
qed

theorem find_next_complete_witness:
  "CFE_ResourceId_FindNext 0x160000 2 (Some (slot_check 0x160000 2 (\<lambda>i. i = 1))) = 0x160002
   \<and> CFE_ResourceId_ToIndex True 0x160002 0x160000 2 = Inr 0"
proof -
  have r: "CFE_ResourceId_FindNext 0x160000 2 (Some (slot_check 0x160000 2 (\<lambda>i. i = 1))) = 0x160002"
    by code_simp
  have b: "CFE_ResourceId_GetBase 0x160000 = 0x160000" by code_simp
  from find_next_complete [OF b _ b _ _ r] show ?thesis
    using r by (auto simp: CFE_RESOURCEID_UNDEFINED_def CFE_ResourceId_ToIndex_def CFE_RESOURCEID_MAX_def)
qed

end
