(* ===== verification/Msg_Header.thy ===== *)
theory Msg_Header
  imports Prelude
begin

section \<open>Message headers (cfe/modules/msg)\<close>

text \<open>
  A message is the list of its bytes: the primary header of six bytes (\<open>StreamId\<close>, \<open>Sequence\<close>,
  \<open>Length\<close>, two bytes each, big endian), then, when there is one, the secondary header (function
  code and checksum of a command, six bytes of time of a telemetry message), then the payload.
  This is the build without the CCSDS extended header and with version 1 message IDs.  A
  \<open>MsgPtr\<close> is \<open>None\<close> when it is \<open>NULL\<close>; an argument of type \<open>bool\<close> says whether the pointer for
  the result is given.  A setter returns its status and the message after the call.
\<close>

type_synonym message = "uint8 list"
type_synonym msg_ptr = "message option"
type_synonym CFE_SB_MsgId = uint32

datatype CFE_MSG_Type = CFE_MSG_Type_Invalid | CFE_MSG_Type_Cmd | CFE_MSG_Type_Tlm

datatype CFE_MSG_SegmentationFlag =
    CFE_MSG_SegFlag_Invalid
  | CFE_MSG_SegFlag_Continue
  | CFE_MSG_SegFlag_First
  | CFE_MSG_SegFlag_Last
  | CFE_MSG_SegFlag_Unsegmented

record CFE_TIME_SysTime =
  Seconds :: uint32
  Subseconds :: uint32

definition CFE_MSG_SIZE_OFFSET :: size_t where "CFE_MSG_SIZE_OFFSET = 7"
definition CFE_MSG_CCSDSVER_MASK :: uint16 where "CFE_MSG_CCSDSVER_MASK = 0xE000"
definition CFE_MSG_CCSDSVER_SHIFT :: nat where "CFE_MSG_CCSDSVER_SHIFT = 13"
definition CFE_MSG_TYPE_MASK :: uint16 where "CFE_MSG_TYPE_MASK = 0x1000"
definition CFE_MSG_SHDR_MASK :: uint16 where "CFE_MSG_SHDR_MASK = 0x0800"
definition CFE_MSG_APID_MASK :: uint16 where "CFE_MSG_APID_MASK = 0x07FF"
definition CFE_MSG_SEGFLG_MASK :: uint16 where "CFE_MSG_SEGFLG_MASK = 0xC000"
definition CFE_MSG_SEGFLG_CNT :: uint16 where "CFE_MSG_SEGFLG_CNT = 0x0000"
definition CFE_MSG_SEGFLG_FIRST :: uint16 where "CFE_MSG_SEGFLG_FIRST = 0x4000"
definition CFE_MSG_SEGFLG_LAST :: uint16 where "CFE_MSG_SEGFLG_LAST = 0x8000"
definition CFE_MSG_SEGFLG_UNSEG :: uint16 where "CFE_MSG_SEGFLG_UNSEG = 0xC000"
definition CFE_MSG_SEQCNT_MASK :: uint16 where "CFE_MSG_SEQCNT_MASK = 0x3FFF"
definition CFE_MSG_FC_MASK :: uint16 where "CFE_MSG_FC_MASK = 0x7F"
definition CFE_MISSION_CCSDSVER :: uint16 where "CFE_MISSION_CCSDSVER = 0"
definition CFE_PLATFORM_DEFAULT_APID :: uint16 where "CFE_PLATFORM_DEFAULT_APID = 0"
definition CFE_PLATFORM_SB_HIGHEST_VALID_MSGID :: uint32 where
  "CFE_PLATFORM_SB_HIGHEST_VALID_MSGID = 0x1FFF"
definition CFE_SB_INVALID_MSG_ID :: CFE_SB_MsgId where "CFE_SB_INVALID_MSG_ID = 0"

named_theorems msg_masks
lemmas [msg_masks] = CFE_MSG_SIZE_OFFSET_def CFE_MSG_CCSDSVER_MASK_def CFE_MSG_CCSDSVER_SHIFT_def
  CFE_MSG_TYPE_MASK_def CFE_MSG_SHDR_MASK_def CFE_MSG_APID_MASK_def CFE_MSG_SEGFLG_MASK_def
  CFE_MSG_SEGFLG_CNT_def CFE_MSG_SEGFLG_FIRST_def CFE_MSG_SEGFLG_LAST_def
  CFE_MSG_SEGFLG_UNSEG_def CFE_MSG_SEQCNT_MASK_def

subsection \<open>Two-byte fields (cfe_msg_priv.h)\<close>

text \<open>The offset of the two bytes in the message stands for the pointer \<open>Word\<close>.\<close>

definition CFE_MSG_GetHeaderField :: "message \<Rightarrow> nat \<Rightarrow> uint16 \<Rightarrow> uint16" where
  "CFE_MSG_GetHeaderField m i Mask =
     (push_bit 8 (ucast (m ! i)) OR ucast (m ! (i + 1))) AND Mask"

definition CFE_MSG_SetHeaderField :: "message \<Rightarrow> nat \<Rightarrow> uint16 \<Rightarrow> uint16 \<Rightarrow> message" where
  "CFE_MSG_SetHeaderField m i Val Mask =
     m[i := ucast ((ucast (m ! i) AND NOT (drop_bit 8 Mask)) OR drop_bit 8 (Val AND Mask)),
       i + 1 := ucast (((ucast (m ! (i + 1)) AND NOT Mask) OR (Val AND Mask)) AND 0xFF)]"

subsection \<open>Primary header (cfe_msg_ccsdspri.c)\<close>

definition CFE_MSG_GetHeaderVersion :: "msg_ptr \<Rightarrow> bool \<Rightarrow> CFE_Status + uint16" where
  "CFE_MSG_GetHeaderVersion MsgPtr out =
     (case MsgPtr of None \<Rightarrow> Inl CFE_MSG_BAD_ARGUMENT
      | Some m \<Rightarrow>
        if \<not> out then Inl CFE_MSG_BAD_ARGUMENT
        else Inr (drop_bit CFE_MSG_CCSDSVER_SHIFT
                    (CFE_MSG_GetHeaderField m 0 CFE_MSG_CCSDSVER_MASK)))"

definition CFE_MSG_SetHeaderVersion :: "msg_ptr \<Rightarrow> uint16 \<Rightarrow> CFE_Status \<times> msg_ptr" where
  "CFE_MSG_SetHeaderVersion MsgPtr Version =
     (case MsgPtr of None \<Rightarrow> (CFE_MSG_BAD_ARGUMENT, MsgPtr)
      | Some m \<Rightarrow>
        if Version > drop_bit CFE_MSG_CCSDSVER_SHIFT CFE_MSG_CCSDSVER_MASK
        then (CFE_MSG_BAD_ARGUMENT, MsgPtr)
        else (CFE_SUCCESS,
              Some (CFE_MSG_SetHeaderField m 0 (push_bit CFE_MSG_CCSDSVER_SHIFT Version)
                      CFE_MSG_CCSDSVER_MASK)))"

definition CFE_MSG_GetType :: "msg_ptr \<Rightarrow> bool \<Rightarrow> CFE_Status + CFE_MSG_Type" where
  "CFE_MSG_GetType MsgPtr out =
     (case MsgPtr of None \<Rightarrow> Inl CFE_MSG_BAD_ARGUMENT
      | Some m \<Rightarrow>
        if \<not> out then Inl CFE_MSG_BAD_ARGUMENT
        else if m ! 0 AND ucast (drop_bit 8 CFE_MSG_TYPE_MASK) \<noteq> 0
        then Inr CFE_MSG_Type_Cmd else Inr CFE_MSG_Type_Tlm)"

definition CFE_MSG_SetType :: "msg_ptr \<Rightarrow> CFE_MSG_Type \<Rightarrow> CFE_Status \<times> msg_ptr" where
  "CFE_MSG_SetType MsgPtr Type =
     (case MsgPtr of None \<Rightarrow> (CFE_MSG_BAD_ARGUMENT, MsgPtr)
      | Some m \<Rightarrow>
        (case Type of
           CFE_MSG_Type_Cmd \<Rightarrow>
             (CFE_SUCCESS, Some (m[0 := m ! 0 OR ucast (drop_bit 8 CFE_MSG_TYPE_MASK)]))
         | CFE_MSG_Type_Tlm \<Rightarrow>
             (CFE_SUCCESS, Some (m[0 := m ! 0 AND NOT (ucast (drop_bit 8 CFE_MSG_TYPE_MASK))]))
         | CFE_MSG_Type_Invalid \<Rightarrow> (CFE_MSG_BAD_ARGUMENT, MsgPtr)))"

definition CFE_MSG_GetHasSecondaryHeader :: "msg_ptr \<Rightarrow> bool \<Rightarrow> CFE_Status + bool" where
  "CFE_MSG_GetHasSecondaryHeader MsgPtr out =
     (case MsgPtr of None \<Rightarrow> Inl CFE_MSG_BAD_ARGUMENT
      | Some m \<Rightarrow>
        if \<not> out then Inl CFE_MSG_BAD_ARGUMENT
        else Inr (m ! 0 AND ucast (drop_bit 8 CFE_MSG_SHDR_MASK) \<noteq> 0))"

definition CFE_MSG_SetHasSecondaryHeader :: "msg_ptr \<Rightarrow> bool \<Rightarrow> CFE_Status \<times> msg_ptr" where
  "CFE_MSG_SetHasSecondaryHeader MsgPtr HasSecondary =
     (case MsgPtr of None \<Rightarrow> (CFE_MSG_BAD_ARGUMENT, MsgPtr)
      | Some m \<Rightarrow>
        (CFE_SUCCESS,
         Some (m[0 := (if HasSecondary then m ! 0 OR ucast (drop_bit 8 CFE_MSG_SHDR_MASK)
                       else m ! 0 AND NOT (ucast (drop_bit 8 CFE_MSG_SHDR_MASK)))])))"

definition CFE_MSG_GetApId :: "msg_ptr \<Rightarrow> bool \<Rightarrow> CFE_Status + uint16" where
  "CFE_MSG_GetApId MsgPtr out =
     (case MsgPtr of None \<Rightarrow> Inl CFE_MSG_BAD_ARGUMENT
      | Some m \<Rightarrow>
        if \<not> out then Inl CFE_MSG_BAD_ARGUMENT
        else Inr (CFE_MSG_GetHeaderField m 0 CFE_MSG_APID_MASK))"

definition CFE_MSG_SetApId :: "msg_ptr \<Rightarrow> uint16 \<Rightarrow> CFE_Status \<times> msg_ptr" where
  "CFE_MSG_SetApId MsgPtr ApId =
     (case MsgPtr of None \<Rightarrow> (CFE_MSG_BAD_ARGUMENT, MsgPtr)
      | Some m \<Rightarrow>
        if ApId AND NOT CFE_MSG_APID_MASK \<noteq> 0 then (CFE_MSG_BAD_ARGUMENT, MsgPtr)
        else (CFE_SUCCESS, Some (CFE_MSG_SetHeaderField m 0 ApId CFE_MSG_APID_MASK)))"

definition CFE_MSG_GetSegmentationFlag ::
  "msg_ptr \<Rightarrow> bool \<Rightarrow> CFE_Status + CFE_MSG_SegmentationFlag" where
  "CFE_MSG_GetSegmentationFlag MsgPtr out =
     (case MsgPtr of None \<Rightarrow> Inl CFE_MSG_BAD_ARGUMENT
      | Some m \<Rightarrow>
        if \<not> out then Inl CFE_MSG_BAD_ARGUMENT
        else let rawval = CFE_MSG_GetHeaderField m 2 CFE_MSG_SEGFLG_MASK
          in if rawval = CFE_MSG_SEGFLG_CNT then Inr CFE_MSG_SegFlag_Continue
             else if rawval = CFE_MSG_SEGFLG_FIRST then Inr CFE_MSG_SegFlag_First
             else if rawval = CFE_MSG_SEGFLG_LAST then Inr CFE_MSG_SegFlag_Last
             else Inr CFE_MSG_SegFlag_Unsegmented)"

definition CFE_MSG_SetSegmentationFlag ::
  "msg_ptr \<Rightarrow> CFE_MSG_SegmentationFlag \<Rightarrow> CFE_Status \<times> msg_ptr" where
  "CFE_MSG_SetSegmentationFlag MsgPtr SegFlag =
     (case MsgPtr of None \<Rightarrow> (CFE_MSG_BAD_ARGUMENT, MsgPtr)
      | Some m \<Rightarrow>
        (case (case SegFlag of
                 CFE_MSG_SegFlag_Continue \<Rightarrow> Some CFE_MSG_SEGFLG_CNT
               | CFE_MSG_SegFlag_First \<Rightarrow> Some CFE_MSG_SEGFLG_FIRST
               | CFE_MSG_SegFlag_Last \<Rightarrow> Some CFE_MSG_SEGFLG_LAST
               | CFE_MSG_SegFlag_Unsegmented \<Rightarrow> Some CFE_MSG_SEGFLG_UNSEG
               | CFE_MSG_SegFlag_Invalid \<Rightarrow> None) of
           None \<Rightarrow> (CFE_MSG_BAD_ARGUMENT, MsgPtr)
         | Some rawval \<Rightarrow>
             (CFE_SUCCESS, Some (CFE_MSG_SetHeaderField m 2 rawval CFE_MSG_SEGFLG_MASK))))"

definition CFE_MSG_GetSequenceCount :: "msg_ptr \<Rightarrow> bool \<Rightarrow> CFE_Status + uint16" where
  "CFE_MSG_GetSequenceCount MsgPtr out =
     (case MsgPtr of None \<Rightarrow> Inl CFE_MSG_BAD_ARGUMENT
      | Some m \<Rightarrow>
        if \<not> out then Inl CFE_MSG_BAD_ARGUMENT
        else Inr (CFE_MSG_GetHeaderField m 2 CFE_MSG_SEQCNT_MASK))"

definition CFE_MSG_SetSequenceCount :: "msg_ptr \<Rightarrow> uint16 \<Rightarrow> CFE_Status \<times> msg_ptr" where
  "CFE_MSG_SetSequenceCount MsgPtr SeqCnt =
     (case MsgPtr of None \<Rightarrow> (CFE_MSG_BAD_ARGUMENT, MsgPtr)
      | Some m \<Rightarrow>
        if SeqCnt AND NOT CFE_MSG_SEQCNT_MASK \<noteq> 0 then (CFE_MSG_BAD_ARGUMENT, MsgPtr)
        else (CFE_SUCCESS, Some (CFE_MSG_SetHeaderField m 2 SeqCnt CFE_MSG_SEQCNT_MASK)))"

definition CFE_MSG_GetNextSequenceCount :: "uint16 \<Rightarrow> uint16" where
  "CFE_MSG_GetNextSequenceCount SeqCnt =
     (let s = SeqCnt + 1 in if CFE_MSG_SEQCNT_MASK < s then 0 else s)"

definition CFE_MSG_GetSize :: "msg_ptr \<Rightarrow> bool \<Rightarrow> CFE_Status + size_t" where
  "CFE_MSG_GetSize MsgPtr out =
     (case MsgPtr of None \<Rightarrow> Inl CFE_MSG_BAD_ARGUMENT
      | Some m \<Rightarrow>
        if \<not> out then Inl CFE_MSG_BAD_ARGUMENT
        else Inr (push_bit 8 (ucast (m ! 4)) + ucast (m ! 5) + CFE_MSG_SIZE_OFFSET))"

definition CFE_MSG_SetSize :: "msg_ptr \<Rightarrow> size_t \<Rightarrow> CFE_Status \<times> msg_ptr" where
  "CFE_MSG_SetSize MsgPtr Size =
     (case MsgPtr of None \<Rightarrow> (CFE_MSG_BAD_ARGUMENT, MsgPtr)
      | Some m \<Rightarrow>
        if Size < CFE_MSG_SIZE_OFFSET \<or> 0xFFFF + CFE_MSG_SIZE_OFFSET < Size
        then (CFE_MSG_BAD_ARGUMENT, MsgPtr)
        else let s = Size - CFE_MSG_SIZE_OFFSET
          in (CFE_SUCCESS, Some (m[4 := ucast (drop_bit 8 s AND 0xFF), 5 := ucast (s AND 0xFF)])))"

definition CFE_MSG_SetDefaultCCSDSPri :: "msg_ptr \<Rightarrow> msg_ptr" where
  "CFE_MSG_SetDefaultCCSDSPri MsgPtr =
     (let m1 = snd (CFE_MSG_SetHasSecondaryHeader MsgPtr True);
          m2 = snd (CFE_MSG_SetHeaderVersion m1 CFE_MISSION_CCSDSVER);
          m3 = snd (CFE_MSG_SetApId m2 CFE_PLATFORM_DEFAULT_APID)
      in snd (CFE_MSG_SetSegmentationFlag m3 CFE_MSG_SegFlag_Unsegmented))"

subsection \<open>Message IDs (cfe_msg_msgid_v1.c, cfe_sb_msg_id_util.c)\<close>

definition CFE_SB_IsValidMsgId :: "CFE_SB_MsgId \<Rightarrow> bool" where
  "CFE_SB_IsValidMsgId MsgId \<longleftrightarrow>
     MsgId \<noteq> CFE_SB_INVALID_MSG_ID \<and> MsgId \<le> CFE_PLATFORM_SB_HIGHEST_VALID_MSGID"

definition CFE_MSG_GetMsgId :: "msg_ptr \<Rightarrow> bool \<Rightarrow> CFE_Status + CFE_SB_MsgId" where
  "CFE_MSG_GetMsgId MsgPtr out =
     (case MsgPtr of None \<Rightarrow> Inl CFE_MSG_BAD_ARGUMENT
      | Some m \<Rightarrow>
        if \<not> out then Inl CFE_MSG_BAD_ARGUMENT
        else Inr (push_bit 8 (ucast (m ! 0)) + ucast (m ! 1)))"

definition CFE_MSG_SetMsgId :: "msg_ptr \<Rightarrow> CFE_SB_MsgId \<Rightarrow> CFE_Status \<times> msg_ptr" where
  "CFE_MSG_SetMsgId MsgPtr MsgId =
     (case MsgPtr of None \<Rightarrow> (CFE_MSG_BAD_ARGUMENT, MsgPtr)
      | Some m \<Rightarrow>
        if \<not> CFE_SB_IsValidMsgId MsgId then (CFE_MSG_BAD_ARGUMENT, MsgPtr)
        else (CFE_SUCCESS,
              Some (m[0 := ucast (drop_bit 8 MsgId AND 0xFF), 1 := ucast (MsgId AND 0xFF)])))"

definition CFE_MSG_GetTypeFromMsgId :: "CFE_SB_MsgId \<Rightarrow> bool \<Rightarrow> CFE_Status + CFE_MSG_Type" where
  "CFE_MSG_GetTypeFromMsgId MsgId out =
     (if \<not> out then Inl CFE_MSG_BAD_ARGUMENT
      else case CFE_MSG_SetMsgId (Some (replicate 6 0)) MsgId of
             (Status, msg) \<Rightarrow>
               if Status = CFE_SUCCESS then CFE_MSG_GetType msg out else Inl Status)"

subsection \<open>Initialisation (cfe_msg_init.c)\<close>

definition CFE_MSG_InitDefaultHdr :: "msg_ptr \<Rightarrow> msg_ptr" where
  "CFE_MSG_InitDefaultHdr MsgPtr = CFE_MSG_SetDefaultCCSDSPri MsgPtr"

definition CFE_MSG_Init :: "msg_ptr \<Rightarrow> CFE_SB_MsgId \<Rightarrow> size_t \<Rightarrow> CFE_Status \<times> msg_ptr" where
  "CFE_MSG_Init MsgPtr MsgId Size =
     (case MsgPtr of None \<Rightarrow> (CFE_MSG_BAD_ARGUMENT, MsgPtr)
      | Some m \<Rightarrow>
        let cleared = replicate (min (unat Size) (length m)) 0 @ drop (unat Size) m
        in case CFE_MSG_SetMsgId (CFE_MSG_InitDefaultHdr (Some cleared)) MsgId of
             (status, m1) \<Rightarrow>
               if status = CFE_SUCCESS then CFE_MSG_SetSize m1 Size else (status, m1))"

subsection \<open>Secondary headers (cfe_msg_sechdr_fc.c, _checksum.c, _time.c)\<close>

text \<open>
  The function code is byte 6 and the checksum byte 7 of a command; the time is bytes 6 to 11 of
  a telemetry message.  \<open>is_msg\<close> is the test that all secondary header routines make.
\<close>

definition is_msg :: "CFE_MSG_Type \<Rightarrow> msg_ptr \<Rightarrow> bool" where
  "is_msg Type MsgPtr \<longleftrightarrow>
     CFE_MSG_GetHasSecondaryHeader MsgPtr True = Inr True \<and> CFE_MSG_GetType MsgPtr True = Inr Type"

definition CFE_MSG_GetFcnCode :: "msg_ptr \<Rightarrow> bool \<Rightarrow> CFE_Status \<times> uint16 option" where
  "CFE_MSG_GetFcnCode MsgPtr out =
     (case MsgPtr of None \<Rightarrow> (CFE_MSG_BAD_ARGUMENT, None)
      | Some m \<Rightarrow>
        if \<not> out then (CFE_MSG_BAD_ARGUMENT, None)
        else if \<not> is_msg CFE_MSG_Type_Cmd MsgPtr then (CFE_MSG_WRONG_MSG_TYPE, Some 0)
        else (CFE_SUCCESS, Some (ucast (m ! 6) AND CFE_MSG_FC_MASK)))"

definition CFE_MSG_SetFcnCode :: "msg_ptr \<Rightarrow> uint16 \<Rightarrow> CFE_Status \<times> msg_ptr" where
  "CFE_MSG_SetFcnCode MsgPtr FcnCode =
     (case MsgPtr of None \<Rightarrow> (CFE_MSG_BAD_ARGUMENT, MsgPtr)
      | Some m \<Rightarrow>
        if CFE_MSG_FC_MASK < FcnCode then (CFE_MSG_BAD_ARGUMENT, MsgPtr)
        else if \<not> is_msg CFE_MSG_Type_Cmd MsgPtr then (CFE_MSG_WRONG_MSG_TYPE, MsgPtr)
        else (CFE_SUCCESS, Some (m[6 := ucast FcnCode])))"

definition CFE_MSG_ComputeCheckSum :: "message \<Rightarrow> uint32" where
  "CFE_MSG_ComputeCheckSum m =
     (case CFE_MSG_GetSize (Some m) True of
        Inl e \<Rightarrow> 0xFF
      | Inr PktLen \<Rightarrow> fold (\<lambda>i c. c XOR ucast (m ! i)) [0..<unat PktLen] 0xFF)"

definition CFE_MSG_GenerateChecksum :: "msg_ptr \<Rightarrow> CFE_Status \<times> msg_ptr" where
  "CFE_MSG_GenerateChecksum MsgPtr =
     (case MsgPtr of None \<Rightarrow> (CFE_MSG_BAD_ARGUMENT, MsgPtr)
      | Some m \<Rightarrow>
        if \<not> is_msg CFE_MSG_Type_Cmd MsgPtr then (CFE_MSG_WRONG_MSG_TYPE, MsgPtr)
        else let m0 = m[7 := 0]
          in (CFE_SUCCESS, Some (m0[7 := ucast (CFE_MSG_ComputeCheckSum m0)])))"

definition CFE_MSG_ValidateChecksum :: "msg_ptr \<Rightarrow> bool \<Rightarrow> CFE_Status + bool" where
  "CFE_MSG_ValidateChecksum MsgPtr out =
     (case MsgPtr of None \<Rightarrow> Inl CFE_MSG_BAD_ARGUMENT
      | Some m \<Rightarrow>
        if \<not> out then Inl CFE_MSG_BAD_ARGUMENT
        else if \<not> is_msg CFE_MSG_Type_Cmd MsgPtr then Inl CFE_MSG_WRONG_MSG_TYPE
        else Inr (CFE_MSG_ComputeCheckSum m = 0))"

definition CFE_MSG_SetMsgTime :: "msg_ptr \<Rightarrow> CFE_TIME_SysTime \<Rightarrow> CFE_Status \<times> msg_ptr" where
  "CFE_MSG_SetMsgTime MsgPtr NewTime =
     (case MsgPtr of None \<Rightarrow> (CFE_MSG_BAD_ARGUMENT, MsgPtr)
      | Some m \<Rightarrow>
        if \<not> is_msg CFE_MSG_Type_Tlm MsgPtr then (CFE_MSG_WRONG_MSG_TYPE, MsgPtr)
        else (CFE_SUCCESS, Some
               (m[6 := ucast (drop_bit 24 (Seconds NewTime) AND 0xFF),
                  7 := ucast (drop_bit 16 (Seconds NewTime) AND 0xFF),
                  8 := ucast (drop_bit 8 (Seconds NewTime) AND 0xFF),
                  9 := ucast (Seconds NewTime AND 0xFF),
                  10 := ucast (drop_bit 24 (Subseconds NewTime) AND 0xFF),
                  11 := ucast (drop_bit 16 (Subseconds NewTime) AND 0xFF)])))"

definition CFE_MSG_GetMsgTime :: "msg_ptr \<Rightarrow> bool \<Rightarrow> CFE_Status \<times> CFE_TIME_SysTime option" where
  "CFE_MSG_GetMsgTime MsgPtr out =
     (case MsgPtr of None \<Rightarrow> (CFE_MSG_BAD_ARGUMENT, None)
      | Some m \<Rightarrow>
        if \<not> out then (CFE_MSG_BAD_ARGUMENT, None)
        else if \<not> is_msg CFE_MSG_Type_Tlm MsgPtr
        then (CFE_MSG_WRONG_MSG_TYPE, Some \<lparr>Seconds = 0, Subseconds = 0\<rparr>)
        else (CFE_SUCCESS, Some
               \<lparr>Seconds = push_bit 24 (ucast (m ! 6)) + push_bit 16 (ucast (m ! 7))
                            + push_bit 8 (ucast (m ! 8)) + ucast (m ! 9),
                Subseconds = push_bit 24 (ucast (m ! 10)) + push_bit 16 (ucast (m ! 11))\<rparr>))"

subsection \<open>Integrity actions and header size (cfe_msg_integrity.c, cfe_sb_msg_id_util.c)\<close>

text \<open>The current time that \<open>CFE_TIME_GetTime\<close> reads is the argument \<open>now\<close>.\<close>

definition CFE_MSG_OriginationAction ::
  "CFE_TIME_SysTime \<Rightarrow> msg_ptr \<Rightarrow> bool \<Rightarrow> CFE_Status \<times> msg_ptr \<times> bool option" where
  "CFE_MSG_OriginationAction now MsgPtr out =
     (case MsgPtr of None \<Rightarrow> (CFE_MSG_BAD_ARGUMENT, MsgPtr, None)
      | Some m \<Rightarrow>
        if \<not> out then (CFE_MSG_BAD_ARGUMENT, MsgPtr, None)
        else (CFE_SUCCESS,
              snd (CFE_MSG_GenerateChecksum (snd (CFE_MSG_SetMsgTime MsgPtr now))), Some True))"

definition CFE_MSG_VerificationAction :: "msg_ptr \<Rightarrow> bool \<Rightarrow> CFE_Status \<times> bool option" where
  "CFE_MSG_VerificationAction MsgPtr out =
     (if MsgPtr = None \<or> \<not> out then (CFE_MSG_BAD_ARGUMENT, None) else (CFE_SUCCESS, Some True))"

definition CFE_SB_MsgHdrSize :: "msg_ptr \<Rightarrow> size_t" where
  "CFE_SB_MsgHdrSize MsgPtr =
     (case MsgPtr of None \<Rightarrow> 0
      | Some m \<Rightarrow>
        if CFE_MSG_GetHasSecondaryHeader MsgPtr True \<noteq> Inr True then 6
        else if CFE_MSG_GetType MsgPtr True = Inr CFE_MSG_Type_Cmd then 8
        else if CFE_MSG_GetType MsgPtr True = Inr CFE_MSG_Type_Tlm then 16
        else 0)"

subsection \<open>Topic IDs (cfe_sb_msg_id_util.c, default_cfe_core_api_base_msgids.h)\<close>

definition CFE_GLOBAL_CMD_TOPICID_TO_MIDV :: "uint16 \<Rightarrow> CFE_SB_MsgId" where
  "CFE_GLOBAL_CMD_TOPICID_TO_MIDV topic = 0x1860 OR ucast topic"

definition CFE_GLOBAL_TLM_TOPICID_TO_MIDV :: "uint16 \<Rightarrow> CFE_SB_MsgId" where
  "CFE_GLOBAL_TLM_TOPICID_TO_MIDV topic = 0x0860 OR ucast topic"

definition CFE_PLATFORM_CMD_TOPICID_TO_MIDV :: "uint16 \<Rightarrow> CFE_SB_MsgId" where
  "CFE_PLATFORM_CMD_TOPICID_TO_MIDV topic = 0x1800 OR ucast topic"

definition CFE_PLATFORM_TLM_TOPICID_TO_MIDV :: "uint16 \<Rightarrow> CFE_SB_MsgId" where
  "CFE_PLATFORM_TLM_TOPICID_TO_MIDV topic = 0x0800 OR ucast topic"

definition CFE_SB_GlobalCmdTopicIdToMsgId :: "uint16 \<Rightarrow> CFE_SB_MsgId" where
  "CFE_SB_GlobalCmdTopicIdToMsgId TopicId = CFE_GLOBAL_CMD_TOPICID_TO_MIDV TopicId"

definition CFE_SB_GlobalTlmTopicIdToMsgId :: "uint16 \<Rightarrow> CFE_SB_MsgId" where
  "CFE_SB_GlobalTlmTopicIdToMsgId TopicId = CFE_GLOBAL_TLM_TOPICID_TO_MIDV TopicId"

definition CFE_SB_CmdTopicIdToMsgId :: "uint16 \<Rightarrow> uint16 \<Rightarrow> CFE_SB_MsgId" where
  "CFE_SB_CmdTopicIdToMsgId TopicId InstanceNum =
     (if InstanceNum = 0 then CFE_SB_GlobalTlmTopicIdToMsgId TopicId
      else CFE_PLATFORM_CMD_TOPICID_TO_MIDV TopicId)"

definition CFE_SB_TlmTopicIdToMsgId :: "uint16 \<Rightarrow> uint16 \<Rightarrow> CFE_SB_MsgId" where
  "CFE_SB_TlmTopicIdToMsgId TopicId InstanceNum =
     (if InstanceNum = 0 then CFE_SB_GlobalTlmTopicIdToMsgId TopicId
      else CFE_PLATFORM_TLM_TOPICID_TO_MIDV TopicId)"

end
