(* ===== verification/Msg_Fields.thy ===== *)
theory Msg_Fields
  imports Msg_Header
begin

section \<open>Header fields of a message\<close>

text \<open>
  The abstract header of a message is the record of what the getters report.  The lemmas below
  read the two-byte words of the primary header bit by bit and show that every setter updates its
  own component of the record and leaves the rest of the header, the length and the bytes after
  the primary header alone.
\<close>

definition msg_word :: "message \<Rightarrow> nat \<Rightarrow> uint16" where
  "msg_word m i = push_bit 8 (ucast (m ! i)) OR ucast (m ! (i + 1))"

lemma GetHeaderField_word: "CFE_MSG_GetHeaderField m i M = msg_word m i AND M"
  by (simp add: CFE_MSG_GetHeaderField_def msg_word_def)

lemma length_SetHeaderField [simp]: "length (CFE_MSG_SetHeaderField m i V M) = length m"
  by (simp add: CFE_MSG_SetHeaderField_def)

lemma bit_byte: "bit (b :: uint8) n \<Longrightarrow> n < 8"
  using bit_imp_le_length [of b n] by simp

lemma bit_byte_mask: "bit (0xFF :: 'a::len word) n \<longleftrightarrow> n < 8 \<and> n < LENGTH('a)"
proof -
  have *: "(0xFF :: 'a word) = mask 8" by (simp add: mask_eq_exp_minus_1)
  show ?thesis unfolding * bit_mask_iff by auto
qed

lemma bit_255: "bit (0xFF :: int) n \<longleftrightarrow> n < 8" "bit (0xFF :: nat) n \<longleftrightarrow> n < 8"
proof -
  have *: "(0xFF :: int) = mask 8" "(0xFF :: nat) = mask 8" by (simp_all add: mask_eq_exp_minus_1)
  show "bit (0xFF :: int) n \<longleftrightarrow> n < 8" unfolding * bit_mask_iff by auto
  show "bit (0xFF :: nat) n \<longleftrightarrow> n < 8" unfolding * bit_mask_iff by auto
qed

lemma bit_msg_word: "bit (msg_word m i) n \<longleftrightarrow> (if n < 8 then bit (m ! (i + 1)) n else n < 16 \<and> bit (m ! i) (n - 8))"
  by (auto simp: msg_word_def bit_simps dest: bit_byte)

lemma SetHeaderField_word:
  assumes "i + 1 < length m"
  shows "msg_word (CFE_MSG_SetHeaderField m i V M) i = (msg_word m i AND NOT M) OR (V AND M)"
proof (rule bit_word_eqI)
  fix n assume "n < LENGTH(16)"
  then show "bit (msg_word (CFE_MSG_SetHeaderField m i V M) i) n
      = bit ((msg_word m i AND NOT M) OR (V AND M)) n"
    using assms
    by (cases "n < 8")
      (auto simp: bit_msg_word CFE_MSG_SetHeaderField_def nth_list_update bit_simps bit_byte_mask bit_255
        dest: bit_byte)
qed

lemma SetHeaderField_other:
  assumes "j + 1 < i \<or> i + 1 < j"
  shows "msg_word (CFE_MSG_SetHeaderField m i V M) j = msg_word m j"
  using assms by (auto simp: msg_word_def CFE_MSG_SetHeaderField_def nth_list_update)

lemma mask_bits:
  "bit CFE_MSG_CCSDSVER_MASK n \<longleftrightarrow> 13 \<le> n \<and> n < 16"
  "bit CFE_MSG_APID_MASK n \<longleftrightarrow> n < 11"
  "bit CFE_MSG_SEGFLG_MASK n \<longleftrightarrow> 14 \<le> n \<and> n < 16"
  "bit CFE_MSG_SEQCNT_MASK n \<longleftrightarrow> n < 14"
proof -
  have eq: "CFE_MSG_CCSDSVER_MASK = push_bit 13 (mask 3)" "CFE_MSG_APID_MASK = mask 11"
    "CFE_MSG_SEGFLG_MASK = push_bit 14 (mask 2)" "CFE_MSG_SEQCNT_MASK = mask 14"
    by (simp_all add: msg_masks mask_eq_exp_minus_1 push_bit_eq_mult)
  show "bit CFE_MSG_CCSDSVER_MASK n \<longleftrightarrow> 13 \<le> n \<and> n < 16"
    unfolding eq by (auto simp: bit_simps)
  show "bit CFE_MSG_APID_MASK n \<longleftrightarrow> n < 11" unfolding eq by (auto simp: bit_simps)
  show "bit CFE_MSG_SEGFLG_MASK n \<longleftrightarrow> 14 \<le> n \<and> n < 16"
    unfolding eq by (auto simp: bit_simps)
  show "bit CFE_MSG_SEQCNT_MASK n \<longleftrightarrow> n < 14" unfolding eq by (auto simp: bit_simps)
qed

lemma and_exp_bit: "(b :: 'a::len word) AND 2 ^ n \<noteq> 0 \<longleftrightarrow> bit b n"
  by (simp add: and_exp_eq_0_iff_not_bit)

lemma flag_bits:
  fixes b :: uint8
  shows "b AND ucast (drop_bit 8 CFE_MSG_TYPE_MASK) \<noteq> 0 \<longleftrightarrow> bit b 4"
  "b AND ucast (drop_bit 8 CFE_MSG_SHDR_MASK) \<noteq> 0 \<longleftrightarrow> bit b 3"
proof -
  have *: "ucast (drop_bit 8 CFE_MSG_TYPE_MASK) = (2 ^ 4 :: uint8)"
   "ucast (drop_bit 8 CFE_MSG_SHDR_MASK) = (2 ^ 3 :: uint8)" by (simp_all add: msg_masks) 
  show "b AND ucast (drop_bit 8 CFE_MSG_TYPE_MASK) \<noteq> 0 \<longleftrightarrow> bit b 4"
  "b AND ucast (drop_bit 8 CFE_MSG_SHDR_MASK) \<noteq> 0 \<longleftrightarrow> bit b 3"
    unfolding * and_exp_bit by simp_all
qed


record header =
  hVersion :: uint16
  hType :: CFE_MSG_Type
  hSecondary :: bool
  hApId :: uint16
  hSegFlag :: CFE_MSG_SegmentationFlag
  hSeqCnt :: uint16
  hSize :: size_t

definition header_of :: "message \<Rightarrow> header" where
  "header_of m =
     \<lparr>hVersion = projr (CFE_MSG_GetHeaderVersion (Some m) True),
      hType = projr (CFE_MSG_GetType (Some m) True),
      hSecondary = projr (CFE_MSG_GetHasSecondaryHeader (Some m) True),
      hApId = projr (CFE_MSG_GetApId (Some m) True),
      hSegFlag = projr (CFE_MSG_GetSegmentationFlag (Some m) True),
      hSeqCnt = projr (CFE_MSG_GetSequenceCount (Some m) True),
      hSize = projr (CFE_MSG_GetSize (Some m) True)\<rparr>"

definition seg_of :: "uint16 \<Rightarrow> CFE_MSG_SegmentationFlag" where
  "seg_of w =
     (let f = w AND CFE_MSG_SEGFLG_MASK
      in if f = CFE_MSG_SEGFLG_CNT then CFE_MSG_SegFlag_Continue
         else if f = CFE_MSG_SEGFLG_FIRST then CFE_MSG_SegFlag_First
         else if f = CFE_MSG_SEGFLG_LAST then CFE_MSG_SegFlag_Last
         else CFE_MSG_SegFlag_Unsegmented)"

definition words_header :: "uint16 \<Rightarrow> uint16 \<Rightarrow> uint16 \<Rightarrow> header" where
  "words_header w0 w1 w2 =
     \<lparr>hVersion = drop_bit 13 (w0 AND CFE_MSG_CCSDSVER_MASK),
      hType = (if bit w0 12 then CFE_MSG_Type_Cmd else CFE_MSG_Type_Tlm),
      hSecondary = bit w0 11,
      hApId = w0 AND CFE_MSG_APID_MASK, hSegFlag = seg_of w1,
      hSeqCnt = w1 AND CFE_MSG_SEQCNT_MASK, hSize = ucast w2 + CFE_MSG_SIZE_OFFSET\<rparr>"

lemma bit_word16: "bit (w :: uint16) n \<Longrightarrow> n < 16"
  using bit_imp_le_length [of w n] by simp

lemma two_bytes_sum:
  fixes a b :: uint8
  assumes "16 \<le> LENGTH('a)"
  shows "push_bit 8 (ucast a) + ucast b = (ucast (push_bit 8 (ucast a) OR ucast b :: uint16) :: 'a::len word)"
proof -
  have "push_bit 8 (ucast a) AND ucast b = (0 :: 'a word)"
    by (rule bit_word_eqI) (auto simp: bit_simps dest: bit_byte)
  then have "push_bit 8 (ucast a) + ucast b = (push_bit 8 (ucast a) OR ucast b :: 'a word)"
    by (rule disjunctive_add_eq_or)
  also have "\<dots> = ucast (push_bit 8 (ucast a) OR ucast b :: uint16)"
    using assms by (intro bit_word_eqI) (auto simp: bit_simps dest: bit_byte)
  finally show ?thesis .
qed

lemma header_of_words: "header_of m = words_header (msg_word m 0) (msg_word m 2) (msg_word m 4)"
proof -
  have w: "bit (m ! 0) 4 = bit (msg_word m 0) 12" "bit (m ! 0) 3 = bit (msg_word m 0) 11"
    by (simp_all add: bit_msg_word)
  have s: "push_bit 8 (ucast (m ! 4)) + ucast (m ! 5) = (ucast (msg_word m 4) :: size_t)"
    by (simp add: two_bytes_sum msg_word_def)
  show ?thesis
    unfolding header_of_def words_header_def CFE_MSG_GetHeaderVersion_def CFE_MSG_GetType_def
      CFE_MSG_GetHasSecondaryHeader_def CFE_MSG_GetApId_def CFE_MSG_GetSegmentationFlag_def
      CFE_MSG_GetSequenceCount_def CFE_MSG_GetSize_def option.case flag_bits w s GetHeaderField_word
    by (simp add: seg_of_def Let_def CFE_MSG_CCSDSVER_SHIFT_def)
qed

lemma bit_version: "v \<le> drop_bit 13 CFE_MSG_CCSDSVER_MASK \<Longrightarrow> bit (v :: uint16) n \<Longrightarrow> n < 3"
proof -
  assume "v \<le> drop_bit 13 CFE_MSG_CCSDSVER_MASK" "bit v n"
  then have "unat v < 2 ^ 3" by (simp add: word_le_nat_alt msg_masks)
  with not_bit_small [of v 3 n] \<open>bit v n\<close> show "n < 3" by force
qed

lemma words_set_version:
  assumes "v \<le> drop_bit 13 CFE_MSG_CCSDSVER_MASK"
  shows "words_header ((w0 AND NOT CFE_MSG_CCSDSVER_MASK) OR (push_bit 13 v AND CFE_MSG_CCSDSVER_MASK)) w1 w2
     = (words_header w0 w1 w2)\<lparr>hVersion := v\<rparr>" (is "words_header ?w w1 w2 = _")
proof -
  have "drop_bit 13 (?w AND CFE_MSG_CCSDSVER_MASK) = v"
    by (rule bit_word_eqI) (auto simp: bit_simps mask_bits dest: bit_version [OF assms] bit_word16)
  moreover have "?w AND CFE_MSG_APID_MASK = w0 AND CFE_MSG_APID_MASK"
    by (rule bit_word_eqI) (auto simp: bit_simps mask_bits)
  ultimately show ?thesis
    by (simp add: words_header_def) (simp add: bit_simps mask_bits)
qed

lemma flag_set_clear:
  fixes b :: uint8
  shows "bit (b OR ucast (drop_bit 8 CFE_MSG_TYPE_MASK)) n \<longleftrightarrow> bit b n \<or> n = 4"
    and "bit (b AND NOT (ucast (drop_bit 8 CFE_MSG_TYPE_MASK))) n \<longleftrightarrow> bit b n \<and> n \<noteq> 4"
    and "bit (b OR ucast (drop_bit 8 CFE_MSG_SHDR_MASK)) n \<longleftrightarrow> bit b n \<or> n = 3"
    and "bit (b AND NOT (ucast (drop_bit 8 CFE_MSG_SHDR_MASK))) n \<longleftrightarrow> bit b n \<and> n \<noteq> 3"
proof -
  have *: "ucast (drop_bit 8 CFE_MSG_TYPE_MASK) = (2 ^ 4 :: uint8)"
   "ucast (drop_bit 8 CFE_MSG_SHDR_MASK) = (2 ^ 3 :: uint8)" by (simp_all add: msg_masks) 
  show "bit (b OR ucast (drop_bit 8 CFE_MSG_TYPE_MASK)) n \<longleftrightarrow> bit b n \<or> n = 4"
    "bit (b AND NOT (ucast (drop_bit 8 CFE_MSG_TYPE_MASK))) n \<longleftrightarrow> bit b n \<and> n \<noteq> 4"
    "bit (b OR ucast (drop_bit 8 CFE_MSG_SHDR_MASK)) n \<longleftrightarrow> bit b n \<or> n = 3"
    "bit (b AND NOT (ucast (drop_bit 8 CFE_MSG_SHDR_MASK))) n \<longleftrightarrow> bit b n \<and> n \<noteq> 3"
    unfolding * bit_or_iff bit_and_iff bit_not_iff bit_exp_iff by (auto dest: bit_byte)
qed

lemma words_header_flag:
  assumes "\<And>n. n \<noteq> k \<Longrightarrow> bit w0' n = bit w0 n" and "k = 11 \<or> k = 12"
  shows "words_header w0' w1 w2 = (words_header w0 w1 w2)
    \<lparr>hType := (if bit w0' 12 then CFE_MSG_Type_Cmd else CFE_MSG_Type_Tlm), hSecondary := bit w0' 11\<rparr>"
proof -
  have "drop_bit 13 (w0' AND CFE_MSG_CCSDSVER_MASK) = drop_bit 13 (w0 AND CFE_MSG_CCSDSVER_MASK)"
    using assms by (intro bit_word_eqI) (auto simp: bit_simps mask_bits)
  moreover have "w0' AND CFE_MSG_APID_MASK = w0 AND CFE_MSG_APID_MASK"
    using assms by (intro bit_word_eqI) (auto simp: bit_simps mask_bits)
  ultimately show ?thesis by (simp add: words_header_def)
qed

lemma words_set_apid:
  assumes "a AND NOT CFE_MSG_APID_MASK = 0"
  shows "words_header ((w0 AND NOT CFE_MSG_APID_MASK) OR (a AND CFE_MSG_APID_MASK)) w1 w2
     = (words_header w0 w1 w2)\<lparr>hApId := a\<rparr>" (is "words_header ?w w1 w2 = _")
proof -
  have a: "bit a n \<Longrightarrow> n < 11" for n
    using arg_cong [OF assms, of "\<lambda>x. bit x n"] by (auto simp: bit_simps mask_bits dest: bit_word16)
  have "drop_bit 13 (?w AND CFE_MSG_CCSDSVER_MASK) = drop_bit 13 (w0 AND CFE_MSG_CCSDSVER_MASK)"
    by (rule bit_word_eqI) (auto simp: bit_simps mask_bits)
  moreover have "?w AND CFE_MSG_APID_MASK = a"
    by (rule bit_word_eqI) (auto simp: bit_simps mask_bits dest: a)
  ultimately show ?thesis
    by (simp add: words_header_def) (simp add: bit_simps mask_bits)
qed

lemma words_set_seqcnt:
  assumes "a AND NOT CFE_MSG_SEQCNT_MASK = 0"
  shows "words_header w0 ((w1 AND NOT CFE_MSG_SEQCNT_MASK) OR (a AND CFE_MSG_SEQCNT_MASK)) w2
     = (words_header w0 w1 w2)\<lparr>hSeqCnt := a\<rparr>" (is "words_header w0 ?w w2 = _")
proof -
  have a: "bit a n \<Longrightarrow> n < 14" for n
    using arg_cong [OF assms, of "\<lambda>x. bit x n"] by (auto simp: bit_simps mask_bits dest: bit_word16)
  have "?w AND CFE_MSG_SEGFLG_MASK = w1 AND CFE_MSG_SEGFLG_MASK"
    by (rule bit_word_eqI) (auto simp: bit_simps mask_bits)
  moreover have "?w AND CFE_MSG_SEQCNT_MASK = a"
    by (rule bit_word_eqI) (auto simp: bit_simps mask_bits dest: a)
  ultimately show ?thesis by (simp add: words_header_def seg_of_def)
qed

lemma words_set_segflag:
  assumes "a AND CFE_MSG_SEGFLG_MASK = a"
  shows "words_header w0 ((w1 AND NOT CFE_MSG_SEGFLG_MASK) OR (a AND CFE_MSG_SEGFLG_MASK)) w2
     = (words_header w0 w1 w2)\<lparr>hSegFlag := seg_of a\<rparr>" (is "words_header w0 ?w w2 = _")
proof -
  have "?w AND CFE_MSG_SEGFLG_MASK = a AND CFE_MSG_SEGFLG_MASK"
    by (rule bit_word_eqI) (auto simp: bit_simps mask_bits)
  moreover have "?w AND CFE_MSG_SEQCNT_MASK = w1 AND CFE_MSG_SEQCNT_MASK"
    by (rule bit_word_eqI) (auto simp: bit_simps mask_bits)
  ultimately show ?thesis by (simp add: words_header_def seg_of_def)
qed

lemma drop_SetHeaderField: "i + 1 < n \<Longrightarrow> drop n (CFE_MSG_SetHeaderField m i V M) = drop n m"
  by (simp add: CFE_MSG_SetHeaderField_def)

lemma size_word:
  fixes s :: size_t
  assumes "s \<le> 0xFFFF" "5 < length m"
  shows "ucast (msg_word (m[4 := ucast (drop_bit 8 s AND 0xFF), 5 := ucast (s AND 0xFF)]) 4) = s"
proof (rule bit_word_eqI)
  fix n assume "n < LENGTH(64)"
  have "bit s n \<Longrightarrow> n < 16"
    using not_bit_small [of s 16 n] assms(1) by (force simp: word_le_nat_alt)
  then show "bit (ucast (msg_word (m[4 := ucast (drop_bit 8 s AND 0xFF), 5 := ucast (s AND 0xFF)]) 4) :: size_t) n
    = bit s n"
    using assms(2) by (cases "n < 8")
     (auto simp: bit_simps bit_msg_word nth_list_update bit_byte_mask bit_255)
qed

definition sets_header :: "message \<Rightarrow> header \<Rightarrow> CFE_Status \<times> msg_ptr \<Rightarrow> bool" where
  "sets_header m h r \<longleftrightarrow>
     (\<exists>m'. r = (CFE_SUCCESS, Some m') \<and> header_of m' = h \<and> length m' = length m \<and> drop 6 m' = drop 6 m)"

lemma sets_headerI:
  "r = (CFE_SUCCESS, Some m') \<Longrightarrow> header_of m' = h \<Longrightarrow> length m' = length m \<Longrightarrow> drop 6 m' = drop 6 m
    \<Longrightarrow> sets_header m h r"
  by (simp add: sets_header_def)

lemma set_version_header:
  assumes "6 \<le> length m" "v \<le> 7"
  shows "sets_header m (header_of m\<lparr>hVersion := v\<rparr>) (CFE_MSG_SetHeaderVersion (Some m) v)"
proof -
  have v: "v \<le> drop_bit 13 CFE_MSG_CCSDSVER_MASK" using assms(2) by (simp add: msg_masks)
  show ?thesis
  by (rule sets_headerI [where m' = "CFE_MSG_SetHeaderField m 0 (push_bit 13 v) CFE_MSG_CCSDSVER_MASK"])
   (use assms(1) v in \<open>simp_all add: CFE_MSG_SetHeaderVersion_def not_less CFE_MSG_CCSDSVER_SHIFT_def
      header_of_words SetHeaderField_word SetHeaderField_other words_set_version drop_SetHeaderField\<close>)
qed

lemma set_apid_header:
  assumes "6 \<le> length m" "a AND NOT CFE_MSG_APID_MASK = 0"
  shows "sets_header m (header_of m\<lparr>hApId := a\<rparr>) (CFE_MSG_SetApId (Some m) a)"
  by (rule sets_headerI [where m' = "CFE_MSG_SetHeaderField m 0 a CFE_MSG_APID_MASK"])
   (use assms in \<open>simp_all add: CFE_MSG_SetApId_def 
      header_of_words SetHeaderField_word SetHeaderField_other words_set_apid drop_SetHeaderField\<close>)

lemma set_seqcnt_header:
  assumes "6 \<le> length m" "a AND NOT CFE_MSG_SEQCNT_MASK = 0"
  shows "sets_header m (header_of m\<lparr>hSeqCnt := a\<rparr>) (CFE_MSG_SetSequenceCount (Some m) a)"
  by (rule sets_headerI [where m' = "CFE_MSG_SetHeaderField m 2 a CFE_MSG_SEQCNT_MASK"])
   (use assms in \<open>simp_all add: CFE_MSG_SetSequenceCount_def 
      header_of_words SetHeaderField_word SetHeaderField_other words_set_seqcnt drop_SetHeaderField\<close>)

lemma set_segflag_header:
  assumes "6 \<le> length m" "f \<noteq> CFE_MSG_SegFlag_Invalid"
  shows "sets_header m (header_of m\<lparr>hSegFlag := f\<rparr>) (CFE_MSG_SetSegmentationFlag (Some m) f)"
proof -
  obtain a where a: "CFE_MSG_SetSegmentationFlag (Some m) f
     = (CFE_SUCCESS, Some (CFE_MSG_SetHeaderField m 2 a CFE_MSG_SEGFLG_MASK))"
    "a AND CFE_MSG_SEGFLG_MASK = a" "seg_of a = f"
    using assms(2) by (cases f) (simp_all add: CFE_MSG_SetSegmentationFlag_def seg_of_def msg_masks)
  show ?thesis
    by (rule sets_headerI [OF a(1)])
     (use assms a(3) words_set_segflag [OF a(2)] in \<open>simp_all add: header_of_words
        SetHeaderField_word SetHeaderField_other drop_SetHeaderField\<close>)
qed

lemma set_size_header:
  assumes "6 \<le> length m" "7 \<le> s" "s \<le> 0x10006"
  shows "sets_header m (header_of m\<lparr>hSize := s\<rparr>) (CFE_MSG_SetSize (Some m) s)"
proof -
  let ?m = "m[4 := ucast (drop_bit 8 (s - 7) AND 0xFF), 5 := ucast ((s - 7) AND 0xFF)]"
  have s: "s - 7 \<le> 0xFFFF" using assms(2,3) by (simp add: word_le_nat_alt unat_sub)
  have "msg_word ?m 0 = msg_word m 0" "msg_word ?m 2 = msg_word m 2"
    by (simp_all add: msg_word_def nth_list_update)
  then have "header_of ?m = header_of m\<lparr>hSize := s\<rparr>"
    using size_word [OF s, of m] assms(1) by (simp add: header_of_words words_header_def CFE_MSG_SIZE_OFFSET_def)
  then show ?thesis
    using assms by (intro sets_headerI [where m' = ?m])
     (simp_all add: CFE_MSG_SetSize_def CFE_MSG_SIZE_OFFSET_def not_less Let_def)
qed

lemma set_type_header:
  assumes "6 \<le> length m" "t \<noteq> CFE_MSG_Type_Invalid"
  shows "sets_header m (header_of m\<lparr>hType := t\<rparr>) (CFE_MSG_SetType (Some m) t)"
proof -
  obtain b where b: "CFE_MSG_SetType (Some m) t = (CFE_SUCCESS, Some (m[0 := b]))"
    "bit b 4 \<longleftrightarrow> t = CFE_MSG_Type_Cmd" "\<And>n. n \<noteq> 4 \<Longrightarrow> bit b n = bit (m ! 0) n"
    using assms(2) by (cases t) (simp_all add: CFE_MSG_SetType_def flag_set_clear)
  have z: "m[0 := b] ! 0 = b" using assms(1) by (cases m) simp_all
  have w: "n \<noteq> 12 \<Longrightarrow> bit (msg_word (m[0 := b]) 0) n = bit (msg_word m 0) n" for n
    using b(3) [of "n - 8"] z by (auto simp: bit_msg_word)
  have "bit (msg_word (m[0 := b]) 0) 12 \<longleftrightarrow> t = CFE_MSG_Type_Cmd"
     "bit (msg_word (m[0 := b]) 0) 11 = bit (msg_word m 0) 11"
    using z b(2,3) by (simp_all add: bit_msg_word)
  moreover have "msg_word (m[0 := b]) 2 = msg_word m 2" "msg_word (m[0 := b]) 4 = msg_word m 4"
    by (simp_all add: msg_word_def)
  ultimately have "header_of (m[0 := b]) = header_of m\<lparr>hType := t\<rparr>"
    using assms(2) words_header_flag [OF w] 
    by (cases t) (simp_all add: header_of_words, simp_all add: words_header_def)
  then show ?thesis by (intro sets_headerI [OF b(1)]) simp_all
qed

lemma set_shdr_header:
  assumes "6 \<le> length m"
  shows "sets_header m (header_of m\<lparr>hSecondary := x\<rparr>) (CFE_MSG_SetHasSecondaryHeader (Some m) x)"
proof -
  obtain b where b: "CFE_MSG_SetHasSecondaryHeader (Some m) x = (CFE_SUCCESS, Some (m[0 := b]))"
    "bit b 3 \<longleftrightarrow> x" "\<And>n. n \<noteq> 3 \<Longrightarrow> bit b n = bit (m ! 0) n"
    by (cases x) (simp_all add: CFE_MSG_SetHasSecondaryHeader_def flag_set_clear)
  have z: "m[0 := b] ! 0 = b" using assms(1) by (cases m) simp_all
  have w: "n \<noteq> 11 \<Longrightarrow> bit (msg_word (m[0 := b]) 0) n = bit (msg_word m 0) n" for n
    using b(3) [of "n - 8"] z by (auto simp: bit_msg_word)
  have "bit (msg_word (m[0 := b]) 0) 11 \<longleftrightarrow> x"
     "bit (msg_word (m[0 := b]) 0) 12 = bit (msg_word m 0) 12"
    using z b(2,3) by (simp_all add: bit_msg_word)
  moreover have "msg_word (m[0 := b]) 2 = msg_word m 2" "msg_word (m[0 := b]) 4 = msg_word m 4"
    by (simp_all add: msg_word_def)
  ultimately have "header_of (m[0 := b]) = header_of m\<lparr>hSecondary := x\<rparr>"
    using words_header_flag [OF w] 
    by (simp add: header_of_words) (simp add: words_header_def)
  then show ?thesis by (intro sets_headerI [OF b(1)]) simp_all
qed

subsection \<open>Message IDs\<close>

lemma set_msgid_words:
  assumes "CFE_SB_IsValidMsgId i" "6 \<le> length m"
  obtains m' where "CFE_MSG_SetMsgId (Some m) i = (CFE_SUCCESS, Some m')" "length m' = length m"
    "msg_word m' 0 = ucast i" "msg_word m' 2 = msg_word m 2" "msg_word m' 4 = msg_word m 4"
    "drop 6 m' = drop 6 m" "CFE_MSG_GetMsgId (Some m') True = Inr i"
proof -
  let ?m = "m[0 := ucast (drop_bit 8 i AND 0xFF), 1 := ucast (i AND 0xFF)]"
  have b: "?m ! 0 = ucast (drop_bit 8 i AND 0xFF)" "?m ! 1 = ucast (i AND 0xFF)"
  proof -
    have "0 < length m" "1 < length m" using assms(2) by linarith+
    then show "?m ! 0 = ucast (drop_bit 8 i AND 0xFF)" "?m ! 1 = ucast (i AND 0xFF)" by simp_all
  qed
  have w: "msg_word ?m 0 = ucast i"
    using b by (intro bit_word_eqI) (auto simp: bit_msg_word bit_simps bit_byte_mask bit_255)
  have "unat i < 2 ^ 16"
    using assms(1) by (simp add: CFE_SB_IsValidMsgId_def word_le_nat_alt
        CFE_PLATFORM_SB_HIGHEST_VALID_MSGID_def)
  then have "bit i n \<Longrightarrow> n < 16" for n using not_bit_small [of i 16 n] by force
  then have "ucast (ucast i :: uint16) = i" by (intro bit_word_eqI) (auto simp: bit_simps)
  then have "CFE_MSG_GetMsgId (Some ?m) True = Inr i"
    using w by (simp add: CFE_MSG_GetMsgId_def two_bytes_sum msg_word_def)
  then show ?thesis
    using assms w by (intro that [of ?m]) (simp_all add: CFE_MSG_SetMsgId_def msg_word_def)
qed

lemma sets_headerD:
  assumes "sets_header m h r"
  obtains m' where "r = (CFE_SUCCESS, Some m')" "header_of m' = h" "length m' = length m"
    "drop 6 m' = drop 6 m"
  using assms by (auto simp: sets_header_def)

lemma default_header:
  assumes "6 \<le> length m"
  obtains m' where "CFE_MSG_InitDefaultHdr (Some m) = Some m'" "length m' = length m"
    "drop 6 m' = drop 6 m"
    "header_of m' = header_of m\<lparr>hSecondary := True, hVersion := 0, hApId := 0,
       hSegFlag := CFE_MSG_SegFlag_Unsegmented\<rparr>"
proof -
  obtain m1 where m1: "CFE_MSG_SetHasSecondaryHeader (Some m) True = (CFE_SUCCESS, Some m1)"
    "header_of m1 = header_of m\<lparr>hSecondary := True\<rparr>" "length m1 = length m" "drop 6 m1 = drop 6 m"
    by (rule sets_headerD [OF set_shdr_header [OF assms]])
  obtain m2 where m2: "CFE_MSG_SetHeaderVersion (Some m1) 0 = (CFE_SUCCESS, Some m2)"
    "header_of m2 = header_of m1\<lparr>hVersion := 0\<rparr>" "length m2 = length m1" "drop 6 m2 = drop 6 m1"
    by (rule sets_headerD [OF set_version_header [of m1 0]]) (use assms m1(3) in auto)
  obtain m3 where m3: "CFE_MSG_SetApId (Some m2) 0 = (CFE_SUCCESS, Some m3)"
    "header_of m3 = header_of m2\<lparr>hApId := 0\<rparr>" "length m3 = length m2" "drop 6 m3 = drop 6 m2"
    by (rule sets_headerD [OF set_apid_header [of m2 0]]) (use assms m1(3) m2(3) in auto)
  obtain m4 where m4: "CFE_MSG_SetSegmentationFlag (Some m3) CFE_MSG_SegFlag_Unsegmented
      = (CFE_SUCCESS, Some m4)"
    "header_of m4 = header_of m3\<lparr>hSegFlag := CFE_MSG_SegFlag_Unsegmented\<rparr>"
    "length m4 = length m3" "drop 6 m4 = drop 6 m3"
    by (rule sets_headerD [OF set_segflag_header [of m3]]) (use assms m1(3) m2(3) m3(3) in auto)
  show ?thesis
    by (rule that [of m4]) (simp_all add: m1 m2 m3 m4 CFE_MSG_InitDefaultHdr_def
        CFE_MSG_SetDefaultCCSDSPri_def CFE_MISSION_CCSDSVER_def CFE_PLATFORM_DEFAULT_APID_def Let_def)
qed

subsection \<open>Secondary headers\<close>

lemma is_msg_bits:
  "is_msg t (Some m) \<longleftrightarrow> bit (m ! 0) 3
     \<and> t = (if bit (m ! 0) 4 then CFE_MSG_Type_Cmd else CFE_MSG_Type_Tlm)"
  unfolding is_msg_def CFE_MSG_GetHasSecondaryHeader_def CFE_MSG_GetType_def option.case flag_bits
  by auto

definition byte_sum :: "message \<Rightarrow> nat \<Rightarrow> uint32" where
  "byte_sum m n = fold (\<lambda>i c. c XOR ucast (m ! i)) [0..<n] 0xFF"

lemma byte_sum_0 [simp]: "byte_sum m 0 = 0xFF"
  by (simp add: byte_sum_def)

lemma byte_sum_Suc [simp]: "byte_sum m (Suc n) = byte_sum m n XOR ucast (m ! n)"
  by (simp add: byte_sum_def)

lemma ComputeCheckSum_sum:
  "CFE_MSG_ComputeCheckSum m = byte_sum m (unat (hSize (header_of m)))"
  by (simp add: CFE_MSG_ComputeCheckSum_def byte_sum_def header_of_def CFE_MSG_GetSize_def)

lemma byte_sum_byte: "ucast (ucast (byte_sum m n) :: uint8) = byte_sum m n"
proof -
  have "\<not> bit (byte_sum m n) k" if "8 \<le> k" for k
    using that by (induction n) (auto simp: bit_simps bit_byte_mask bit_255 dest: bit_byte)
  then have "bit (byte_sum m n) k \<Longrightarrow> k < 8" for k by (meson not_less)
  then show ?thesis by (intro bit_word_eqI) (auto simp: bit_simps)
qed

lemma byte_sum_skip: "n \<le> i \<Longrightarrow> byte_sum (m[i := b]) n = byte_sum m n"
  by (induction n) simp_all

lemma byte_sum_update:
  "i < n \<Longrightarrow> i < length m
     \<Longrightarrow> byte_sum (m[i := b]) n = byte_sum m n XOR (ucast (m ! i) XOR ucast b)"
proof (induction n)
  case 0
  then show ?case by simp
next
  case (Suc n)
  then show ?case
    by (cases "i = n") (simp_all add: byte_sum_skip xor.assoc xor.left_commute xor.commute)
qed

lemma header_upd_late: "6 \<le> i \<Longrightarrow> header_of (m[i := b]) = header_of m"
  by (simp add: header_of_words msg_word_def)

lemma header_size_range: "7 \<le> unat (hSize (header_of m))" "unat (hSize (header_of m)) \<le> 0x10006"
proof -
  have b: "unat (ucast (msg_word m 4) :: size_t) \<le> 0xFFFF"
  proof -
    have "unat (msg_word m 4) < 2 ^ LENGTH(16)" by (rule unsigned_less)
    then show ?thesis by (simp add: unsigned_ucast_eq take_bit_nat_eq_self)
  qed
  have "hSize (header_of m) = ucast (msg_word m 4) + 7"
    by (simp add: header_of_words words_header_def CFE_MSG_SIZE_OFFSET_def)
  moreover have "unat (ucast (msg_word m 4) + 7 :: size_t) = unat (ucast (msg_word m 4) :: size_t) + 7"
    using b by (subst unat_plus_small) simp_all
  ultimately show "7 \<le> unat (hSize (header_of m))" "unat (hSize (header_of m)) \<le> 0x10006"
    using b by simp_all
qed

lemma generate_result:
  assumes "is_msg CFE_MSG_Type_Cmd (Some m)" "8 \<le> length m"
  obtains m' where "CFE_MSG_GenerateChecksum (Some m) = (CFE_SUCCESS, Some m')"
    "\<And>b. m'[7 := b] = m[7 := b]" "header_of m' = header_of m"
    "8 \<le> unat (hSize (header_of m)) \<Longrightarrow> CFE_MSG_ComputeCheckSum m' = 0"
proof -
  let ?m0 = "m[7 := 0]" let ?n = "unat (hSize (header_of m))"
  have h: "header_of (m[7 := b]) = header_of m" for b by (simp add: header_upd_late)
  let ?s = "byte_sum ?m0 ?n"
  have g: "CFE_MSG_GenerateChecksum (Some m) = (CFE_SUCCESS, Some (m[7 := ucast ?s]))"
    using assms(1) by (simp add: CFE_MSG_GenerateChecksum_def ComputeCheckSum_sum h Let_def)
  have "byte_sum (?m0[7 := ucast ?s]) ?n = 0" if "8 \<le> ?n"
    using that assms(2) byte_sum_update [of 7 ?n ?m0 "ucast ?s"] by (simp add: byte_sum_byte)
  then show ?thesis
    using g by (intro that [of "m[7 := ucast ?s]"]) (simp_all add: h ComputeCheckSum_sum)
qed

lemma time_bytes:
  fixes s :: uint32
  shows "push_bit 24 (ucast (ucast (drop_bit 24 s AND 0xFF) :: uint8))
     + push_bit 16 (ucast (ucast (drop_bit 16 s AND 0xFF) :: uint8))
     + push_bit 8 (ucast (ucast (drop_bit 8 s AND 0xFF) :: uint8))
     + ucast (ucast (s AND 0xFF) :: uint8) = s" (is "?a + ?b + ?c + ?d = s")
    and "push_bit 24 (ucast (ucast (drop_bit 24 s AND 0xFF) :: uint8))
     + push_bit 16 (ucast (ucast (drop_bit 16 s AND 0xFF) :: uint8)) = push_bit 16 (drop_bit 16 s)"
proof -
  note bs = bit_simps bit_byte_mask bit_255
  have ab: "?a + ?b = ?a OR ?b"
    by (rule disjunctive_add_eq_or, rule bit_word_eqI) (auto simp: bs)
  have abc: "(?a OR ?b) + ?c = ?a OR ?b OR ?c"
    unfolding or.assoc [symmetric]
    by (rule disjunctive_add_eq_or, rule bit_word_eqI) (auto simp: bs)
  have abcd: "(?a OR ?b OR ?c) + ?d = ?a OR ?b OR ?c OR ?d"
    unfolding or.assoc [symmetric]
    by (rule disjunctive_add_eq_or, rule bit_word_eqI) (auto simp: bs)
  show "?a + ?b + ?c + ?d = s"
    unfolding ab abc abcd
  proof (rule bit_word_eqI)
    fix n assume "n < LENGTH(32)"
    then consider "n < 8" | "8 \<le> n" "n < 16" | "16 \<le> n" "n < 24" | "24 \<le> n" "n < 32"
      by (simp, linarith)
    then show "bit (?a OR ?b OR ?c OR ?d) n = bit s n" by cases (auto simp: bs less_diff_conv2)
  qed
  show "?a + ?b = push_bit 16 (drop_bit 16 s)"
    unfolding ab
  proof (rule bit_word_eqI)
    fix n assume "n < LENGTH(32)"
    then consider "n < 16" | "16 \<le> n" "n < 24" | "24 \<le> n" "n < 32"
      by (simp, linarith)
    then show "bit (?a OR ?b) n = bit (push_bit 16 (drop_bit 16 s)) n"
      by cases (auto simp: bs less_diff_conv2)
  qed
qed

end
