(* ===== verification/Msg_Properties.thy ===== *)
theory Msg_Properties
  imports Msg_Fields
begin

section \<open>Properties of message headers\<close>

text \<open>
  The properties of the header routines, stated on the abstract header \<open>header_of\<close> and on the
  bytes, with witnesses on a concrete command of eight bytes and a telemetry message of twelve.
\<close>

text \<open>
  C15 (cfe_msg_ccsdspri.c): every setter of the primary header, given a value in range, refines the
  update of one component of the abstract header: all the other getters report what they did
  before, and neither the length of the message nor any byte after the header changes.
\<close>

theorem msg_setters_refine:
  assumes "6 \<le> length m" and "v \<le> 7" and "t \<noteq> CFE_MSG_Type_Invalid"
    and "a AND NOT CFE_MSG_APID_MASK = 0" and "f \<noteq> CFE_MSG_SegFlag_Invalid"
    and "c AND NOT CFE_MSG_SEQCNT_MASK = 0" and "7 \<le> s" and "s \<le> 0x10006"
  shows "sets_header m (header_of m\<lparr>hVersion := v\<rparr>) (CFE_MSG_SetHeaderVersion (Some m) v)
    \<and> sets_header m (header_of m\<lparr>hType := t\<rparr>) (CFE_MSG_SetType (Some m) t)
    \<and> sets_header m (header_of m\<lparr>hSecondary := x\<rparr>) (CFE_MSG_SetHasSecondaryHeader (Some m) x)
    \<and> sets_header m (header_of m\<lparr>hApId := a\<rparr>) (CFE_MSG_SetApId (Some m) a)
    \<and> sets_header m (header_of m\<lparr>hSegFlag := f\<rparr>) (CFE_MSG_SetSegmentationFlag (Some m) f)
    \<and> sets_header m (header_of m\<lparr>hSeqCnt := c\<rparr>) (CFE_MSG_SetSequenceCount (Some m) c)
    \<and> sets_header m (header_of m\<lparr>hSize := s\<rparr>) (CFE_MSG_SetSize (Some m) s)"
  using assms
  by (simp add: set_version_header set_type_header set_shdr_header set_apid_header
      set_segflag_header set_seqcnt_header set_size_header)

definition demo_cmd :: message where
  "demo_cmd = [0x18, 0x06, 0xC0, 0x00, 0x00, 0x01, 0x02, 0x00]"

theorem msg_setters_refine_witness:
  "sets_header demo_cmd (header_of demo_cmd\<lparr>hSeqCnt := 0x3FFF\<rparr>)
     (CFE_MSG_SetSequenceCount (Some demo_cmd) 0x3FFF)
   \<and> sets_header demo_cmd (header_of demo_cmd\<lparr>hSize := 0x10006\<rparr>)
     (CFE_MSG_SetSize (Some demo_cmd) 0x10006)"
  using msg_setters_refine [where m = demo_cmd and v = 5 and t = CFE_MSG_Type_Tlm and a = "0x7FF"
    and f = CFE_MSG_SegFlag_First and c = "0x3FFF" and s = "0x10006"]
  by (simp add: demo_cmd_def CFE_MSG_APID_MASK_def CFE_MSG_SEQCNT_MASK_def)

text \<open>
  C16 (\<open>CFE_MSG_Init\<close>): initialising a message with a valid message ID and a size in range succeeds;
  the message then reports that ID and size, is unsegmented with sequence count 0 and version 0,
  its type, secondary header flag and application ID are bits of the ID, and every byte after the
  primary header up to the size is zero while the bytes beyond the size are left alone.
\<close>

theorem msg_init_result:
  assumes "CFE_SB_IsValidMsgId i" and "7 \<le> s" and "s \<le> 0x10006" and "unat s \<le> length m"
  shows "\<exists>m'. CFE_MSG_Init (Some m) i s = (CFE_SUCCESS, Some m')
    \<and> CFE_MSG_GetMsgId (Some m') True = Inr i
    \<and> header_of m' = \<lparr>hVersion = 0,
         hType = (if bit i 12 then CFE_MSG_Type_Cmd else CFE_MSG_Type_Tlm), hSecondary = bit i 11,
         hApId = ucast i AND CFE_MSG_APID_MASK, hSegFlag = CFE_MSG_SegFlag_Unsegmented,
         hSeqCnt = 0, hSize = s\<rparr>
    \<and> drop 6 m' = replicate (unat s - 6) 0 @ drop (unat s) m"
proof -
  let ?c = "replicate (unat s) 0 @ drop (unat s) m"
  have s7: "7 \<le> unat s" using assms(2) by (simp add: word_le_nat_alt)
  have min: "min (unat s) (length m) = unat s" using assms(4) by simp
  have len: "6 \<le> length ?c" using s7 by simp
  obtain m1 where m1: "CFE_MSG_InitDefaultHdr (Some ?c) = Some m1" "length m1 = length ?c"
    "drop 6 m1 = drop 6 ?c" "header_of m1 = header_of ?c\<lparr>hSecondary := True, hVersion := 0,
      hApId := 0, hSegFlag := CFE_MSG_SegFlag_Unsegmented\<rparr>"
    by (rule default_header [OF len])
  obtain m2 where m2: "CFE_MSG_SetMsgId (Some m1) i = (CFE_SUCCESS, Some m2)"
    "length m2 = length m1" "msg_word m2 0 = ucast i" "msg_word m2 2 = msg_word m1 2"
    "msg_word m2 4 = msg_word m1 4" "drop 6 m2 = drop 6 m1" "CFE_MSG_GetMsgId (Some m2) True = Inr i"
    by (rule set_msgid_words [OF assms(1), of m1]) (use len m1(2) in simp)
  obtain m3 where m3: "CFE_MSG_SetSize (Some m2) s = (CFE_SUCCESS, Some m3)"
    "header_of m3 = header_of m2\<lparr>hSize := s\<rparr>" "length m3 = length m2" "drop 6 m3 = drop 6 m2"
    by (rule sets_headerD [OF set_size_header [of m2 s]]) (use len m1(2) m2(2) assms in simp_all)
  have "CFE_MSG_Init (Some m) i s = (CFE_SUCCESS, Some m3)"
    by (simp add: CFE_MSG_Init_def min m1(1) m2(1) m3(1))
  moreover have "msg_word ?c 2 = 0"
    using s7 by (simp add: msg_word_def nth_append)
  then have seq: "hSeqCnt (header_of ?c) = 0"
    by (simp add: header_of_words words_header_def)
  have i16: "unat i < 2 ^ 13"
    using assms(1) by (simp add: CFE_SB_IsValidMsgId_def CFE_PLATFORM_SB_HIGHEST_VALID_MSGID_def
        word_le_nat_alt)
  have "header_of m3 = \<lparr>hVersion = 0,
         hType = (if bit i 12 then CFE_MSG_Type_Cmd else CFE_MSG_Type_Tlm), hSecondary = bit i 11,
         hApId = ucast i AND CFE_MSG_APID_MASK, hSegFlag = CFE_MSG_SegFlag_Unsegmented,
         hSeqCnt = 0, hSize = s\<rparr>"
  proof -
    have z: "drop_bit 13 (ucast i AND CFE_MSG_CCSDSVER_MASK) = 0"
      using not_bit_small [OF i16] by (intro bit_word_eqI) (simp add: bit_simps)
    have h2: "header_of m2 = words_header (ucast i) (msg_word m1 2) (msg_word m1 4)"
      by (simp add: header_of_words m2(3-5))
    have "hSeqCnt (header_of m1) = 0" "hSegFlag (header_of m1) = CFE_MSG_SegFlag_Unsegmented"
      using m1(4) seq by simp_all
    then have w1: "msg_word m1 2 AND CFE_MSG_SEQCNT_MASK = 0"
      "seg_of (msg_word m1 2) = CFE_MSG_SegFlag_Unsegmented"
      by (simp_all add: header_of_words words_header_def)
    show ?thesis
      unfolding m3(2) h2 words_header_def w1 z by (simp add: bit_simps)
  qed
  moreover have "CFE_MSG_GetMsgId (Some m3) True = Inr i"
  proof -
    have "m3 = m2[4 := m3 ! 4, 5 := m3 ! 5]"
      using m3(1) len m1(2) m2(2) by (auto simp: CFE_MSG_SetSize_def Let_def split: if_splits)
    then have "m3 ! 0 = m2 ! 0" "m3 ! 1 = m2 ! 1" by (metis nth_list_update_neq zero_neq_numeral one_eq_numeral_iff semiring_norm(85,86))+
    with m2(7) show ?thesis by (simp add: CFE_MSG_GetMsgId_def)
  qed
  moreover have "drop 6 m3 = replicate (unat s - 6) 0 @ drop (unat s) m"
    using m3(4) m2(6) m1(3) s7 by simp
  ultimately show ?thesis by blast
qed

theorem msg_init_result_witness:
  "\<exists>m'. CFE_MSG_Init (Some demo_cmd) 0x1806 7 = (CFE_SUCCESS, Some m')
     \<and> CFE_MSG_GetMsgId (Some m') True = Inr 0x1806 \<and> drop 6 m' = [0, 0]"
  using msg_init_result [where i = "0x1806" and s = 7 and m = demo_cmd]
  by (auto simp: CFE_SB_IsValidMsgId_def CFE_SB_INVALID_MSG_ID_def demo_cmd_def
      CFE_PLATFORM_SB_HIGHEST_VALID_MSGID_def)

text \<open>
  C17 (cfe_msg_sechdr_checksum.c): for a command whose size covers its secondary header, the
  checksum that \<open>CFE_MSG_GenerateChecksum\<close> writes is accepted by \<open>CFE_MSG_ValidateChecksum\<close>, and
  after a change of any single byte inside the message, other than the length bytes, that still
  leaves a command, it is rejected.
\<close>

theorem msg_checksum_detects:
  assumes "is_msg CFE_MSG_Type_Cmd (Some m)" and "8 \<le> unat (hSize (header_of m))"
    and "unat (hSize (header_of m)) \<le> length m"
    and "i < unat (hSize (header_of m))" and "i \<noteq> 4" and "i \<noteq> 5"
  shows "\<exists>m'. CFE_MSG_GenerateChecksum (Some m) = (CFE_SUCCESS, Some m')
    \<and> CFE_MSG_ValidateChecksum (Some m') True = Inr True
    \<and> (\<forall>b. b \<noteq> m' ! i \<and> is_msg CFE_MSG_Type_Cmd (Some (m'[i := b]))
           \<longrightarrow> CFE_MSG_ValidateChecksum (Some (m'[i := b])) True = Inr False)"
proof -
  have len: "8 \<le> length m" using assms(2,3) by linarith
  obtain m' where m': "CFE_MSG_GenerateChecksum (Some m) = (CFE_SUCCESS, Some m')"
    "\<And>b. m'[7 := b] = m[7 := b]" "header_of m' = header_of m"
    "CFE_MSG_ComputeCheckSum m' = 0"
    using generate_result [OF assms(1) len] assms(2) by metis
  have len': "length m' = length m" using m'(2) [of 0] by (metis length_list_update)
  have "m' ! 0 = m ! 0" using m'(2) [of 0] by (metis nth_list_update_neq zero_neq_numeral)
  then have cmd: "is_msg CFE_MSG_Type_Cmd (Some m')" using assms(1) by (simp add: is_msg_bits)
  then have ok: "CFE_MSG_ValidateChecksum (Some m') True = Inr True"
    using m'(4) by (simp add: CFE_MSG_ValidateChecksum_def)
  have "CFE_MSG_ValidateChecksum (Some (m'[i := b])) True = Inr False"
    if b: "b \<noteq> m' ! i" "is_msg CFE_MSG_Type_Cmd (Some (m'[i := b]))" for b
  proof -
    let ?n = "unat (hSize (header_of m))"
    have "msg_word (m'[i := b]) 4 = msg_word m' 4" using assms(5,6) by (simp add: msg_word_def)
    then have "hSize (header_of (m'[i := b])) = hSize (header_of m')"
      by (simp add: header_of_words words_header_def)
    then have n: "hSize (header_of (m'[i := b])) = hSize (header_of m)" using m'(3) by simp
    have "CFE_MSG_ComputeCheckSum (m'[i := b]) = ucast (m' ! i) XOR ucast b"
      using byte_sum_update [of i ?n m' b] assms(3,4) len' m'(3,4)
      by (simp add: ComputeCheckSum_sum n)
    moreover have "ucast (m' ! i) XOR ucast b \<noteq> (0 :: uint32)"
    proof
      assume x: "ucast (m' ! i) XOR ucast b = (0 :: uint32)"
      have "bit (m' ! i) k = bit b k" for k
        using arg_cong [OF x, of "\<lambda>w. bit w k"] by (auto simp: bit_simps dest: bit_byte)
      then have "m' ! i = b" by (intro bit_word_eqI) simp
      with b(1) show False by simp
    qed
    ultimately show ?thesis using b(2) by (simp add: CFE_MSG_ValidateChecksum_def)
  qed
  with m'(1) ok show ?thesis by blast
qed

theorem msg_checksum_detects_witness:
  "\<exists>m'. CFE_MSG_GenerateChecksum (Some demo_cmd) = (CFE_SUCCESS, Some m')
     \<and> CFE_MSG_ValidateChecksum (Some m') True = Inr True"
proof -
  have "is_msg CFE_MSG_Type_Cmd (Some demo_cmd)" "unat (hSize (header_of demo_cmd)) = 8"
    "length demo_cmd = 8" by code_simp+
  with msg_checksum_detects [of demo_cmd 6] show ?thesis by auto
qed

text \<open>
  (cfe_msg_sechdr_time.c): the time read back from a telemetry message is the time written with
  the subseconds cut to their upper sixteen bits; the round trip never moves the time forward and
  loses less than 2 to the power 16 subseconds.
\<close>

lemma msg_time_roundtrip:
  assumes "is_msg CFE_MSG_Type_Tlm (Some m)" and "12 \<le> length m"
  shows "\<exists>m'. CFE_MSG_SetMsgTime (Some m) t = (CFE_SUCCESS, Some m')
    \<and> CFE_MSG_GetMsgTime (Some m') True
        = (CFE_SUCCESS, Some \<lparr>Seconds = Seconds t, Subseconds = push_bit 16 (drop_bit 16 (Subseconds t))\<rparr>)
    \<and> unat (Subseconds t) - unat (push_bit 16 (drop_bit 16 (Subseconds t))) < 2 ^ 16
    \<and> push_bit 16 (drop_bit 16 (Subseconds t)) \<le> Subseconds t"
proof -
  let ?m = "m[6 := ucast (drop_bit 24 (Seconds t) AND 0xFF),
     7 := ucast (drop_bit 16 (Seconds t) AND 0xFF), 8 := ucast (drop_bit 8 (Seconds t) AND 0xFF),
     9 := ucast (Seconds t AND 0xFF), 10 := ucast (drop_bit 24 (Subseconds t) AND 0xFF),
     11 := ucast (drop_bit 16 (Subseconds t) AND 0xFF)]"
  have set: "CFE_MSG_SetMsgTime (Some m) t = (CFE_SUCCESS, Some ?m)"
    using assms(1) by (simp add: CFE_MSG_SetMsgTime_def)
  have tlm: "is_msg CFE_MSG_Type_Tlm (Some ?m)" using assms(1) by (simp add: is_msg_bits)
  have idx: "6 < length m" "7 < length m" "8 < length m" "9 < length m" "10 < length m"
    "11 < length m" using assms(2) by linarith+
  have get: "CFE_MSG_GetMsgTime (Some ?m) True
      = (CFE_SUCCESS, Some \<lparr>Seconds = Seconds t, Subseconds = push_bit 16 (drop_bit 16 (Subseconds t))\<rparr>)"
    using tlm idx time_bytes(1) [of "Seconds t"] time_bytes(2) [of "Subseconds t"]
    by (simp add: CFE_MSG_GetMsgTime_def)
  let ?h = "push_bit 16 (drop_bit 16 (Subseconds t))" and ?l = "take_bit 16 (Subseconds t)"
  have "?h AND ?l = 0" by (rule bit_word_eqI) (auto simp: bit_simps)
  moreover have "?h OR ?l = Subseconds t" by (rule bit_word_eqI) (auto simp: bit_simps)
  ultimately have split: "unat ?h + unat ?l = unat (Subseconds t)" by (metis unat_disjoint_or)
  have "unat ?l < 2 ^ 16" by (simp add: unsigned_take_bit_eq take_bit_nat_less_exp [of 16, simplified])
  with set get split show ?thesis by (simp add: word_le_nat_alt)
qed

definition demo_tlm :: message where
  "demo_tlm = [0x08, 0x01, 0xC0, 0x00, 0x00, 0x05] @ replicate 6 0"

lemma msg_time_roundtrip_witness:
  "\<exists>m'. CFE_MSG_SetMsgTime (Some demo_tlm) \<lparr>Seconds = 1000, Subseconds = 0x12345678\<rparr>
       = (CFE_SUCCESS, Some m')
     \<and> CFE_MSG_GetMsgTime (Some m') True = (CFE_SUCCESS, Some \<lparr>Seconds = 1000, Subseconds = 0x12340000\<rparr>)"
proof -
  have "is_msg CFE_MSG_Type_Tlm (Some demo_tlm)" "12 \<le> length demo_tlm" by code_simp+
  from msg_time_roundtrip [OF this, of "\<lparr>Seconds = 1000, Subseconds = 0x12345678\<rparr>"]
  show ?thesis by auto
qed

text \<open>
  (\<open>CFE_MSG_OriginationAction\<close>): the default integrity action accepts every outgoing message,
  keeps its length and its primary header, leaves a command with a valid checksum and a telemetry
  message with the current time in its secondary header.
\<close>

lemma msg_origination:
  assumes "12 \<le> length m" and "8 \<le> unat (hSize (header_of m))"
  shows "\<exists>m'. CFE_MSG_OriginationAction now (Some m) True = (CFE_SUCCESS, Some m', Some True)
    \<and> length m' = length m \<and> take 6 m' = take 6 m
    \<and> (is_msg CFE_MSG_Type_Cmd (Some m) \<longrightarrow> CFE_MSG_ValidateChecksum (Some m') True = Inr True)
    \<and> (is_msg CFE_MSG_Type_Tlm (Some m) \<longrightarrow> Some m' = snd (CFE_MSG_SetMsgTime (Some m) now))"
proof (cases "is_msg CFE_MSG_Type_Cmd (Some m)")
  case True
  have len: "8 \<le> length m" using assms(1) by simp
  obtain m' where m': "CFE_MSG_GenerateChecksum (Some m) = (CFE_SUCCESS, Some m')"
    "\<And>b. m'[7 := b] = m[7 := b]" "header_of m' = header_of m" "CFE_MSG_ComputeCheckSum m' = 0"
    using generate_result [OF True len] assms(2) by metis
  have "\<not> is_msg CFE_MSG_Type_Tlm (Some m)" using True by (auto simp: is_msg_bits)
  then have t: "CFE_MSG_SetMsgTime (Some m) now = (CFE_MSG_WRONG_MSG_TYPE, Some m)"
    by (simp add: CFE_MSG_SetMsgTime_def)
  have "take 6 (m'[7 := 0]) = take 6 (m[7 := 0])" using m'(2) by simp
  then have t6: "take 6 m' = take 6 m" by simp
  have "m' ! 0 = m ! 0" using m'(2) [of 0] by (metis nth_list_update_neq zero_neq_numeral)
  then have "CFE_MSG_ValidateChecksum (Some m') True = Inr True"
    using True m'(4) by (simp add: CFE_MSG_ValidateChecksum_def is_msg_bits)
  moreover have "length m' = length m" using m'(2) [of 0] by (metis length_list_update)
  ultimately show ?thesis
    using m'(1) t t6 \<open>\<not> is_msg CFE_MSG_Type_Tlm (Some m)\<close>
    by (simp add: CFE_MSG_OriginationAction_def)
next
  case False
  then obtain m' where m': "snd (CFE_MSG_SetMsgTime (Some m) now) = Some m'" "length m' = length m"
    "take 6 m' = take 6 m" "m' ! 0 = m ! 0"
    by (cases "is_msg CFE_MSG_Type_Tlm (Some m)") (simp_all add: CFE_MSG_SetMsgTime_def)
  then have "\<not> is_msg CFE_MSG_Type_Cmd (Some m')" using False by (simp add: is_msg_bits)
  then have "snd (CFE_MSG_GenerateChecksum (Some m')) = Some m'"
    by (simp add: CFE_MSG_GenerateChecksum_def)
  with m' False show ?thesis by (simp add: CFE_MSG_OriginationAction_def)
qed

lemma msg_origination_witness:
  "\<exists>m'. CFE_MSG_OriginationAction \<lparr>Seconds = 5, Subseconds = 0\<rparr> (Some (demo_cmd @ [1, 2, 3, 4])) True
       = (CFE_SUCCESS, Some m', Some True)
     \<and> CFE_MSG_ValidateChecksum (Some m') True = Inr True"
proof -
  have "12 \<le> length (demo_cmd @ [1, 2, 3, 4])" "8 \<le> unat (hSize (header_of (demo_cmd @ [1, 2, 3, 4])))"
    "is_msg CFE_MSG_Type_Cmd (Some (demo_cmd @ [1, 2, 3, 4]))" by code_simp+
  with msg_origination [of "demo_cmd @ [1, 2, 3, 4]"] show ?thesis by blast
qed

text \<open>
  C18 (\<open>CFE_SB_CmdTopicIdToMsgId\<close>): a command topic of an instance other than 0 becomes the ID of
  a command; for instance 0, the global instance, the ID is that of a telemetry message, because
  the function calls the telemetry conversion there.
\<close>

theorem cmd_topic_type:
  assumes "unat topic < 2 ^ 11"
  shows "CFE_MSG_GetTypeFromMsgId (CFE_SB_CmdTopicIdToMsgId topic inst) True
    = Inr (if inst = 0 then CFE_MSG_Type_Tlm else CFE_MSG_Type_Cmd)"
proof -
  let ?i = "CFE_SB_CmdTopicIdToMsgId topic inst"
  define b :: uint32 where "b = (if inst = 0 then 0x0860 else 0x1800)"
  have i: "?i = b OR ucast topic"
    by (simp add: b_def CFE_SB_CmdTopicIdToMsgId_def CFE_SB_GlobalTlmTopicIdToMsgId_def
        CFE_GLOBAL_TLM_TOPICID_TO_MIDV_def CFE_PLATFORM_CMD_TOPICID_TO_MIDV_def)
  have b13: "bit b n \<Longrightarrow> n < 13" for n
  proof (rule ccontr)
    assume b: "bit b n" "\<not> n < 13"
    have "unat b < 2 ^ 13" by (simp add: b_def)
    with not_bit_small [of b 13 n] b show False by simp
  qed
  have t11: "bit topic n \<Longrightarrow> n < 11" for n using not_bit_small [OF assms, of n] by force
  have "?i = take_bit 13 ?i"
    unfolding i by (rule bit_word_eqI) (auto simp: bit_simps dest: b13 t11)
  then have "unat ?i < 2 ^ 13" by (metis unsigned_take_bit_eq take_bit_nat_less_exp)
  moreover have b12: "bit ?i 12 \<longleftrightarrow> inst \<noteq> 0" and b11: "bit ?i 11"
  proof -
    have "\<not> bit (0x860 :: uint32) 12" "bit (0x860 :: uint32) 11"
      "bit (0x1800 :: uint32) 12" "bit (0x1800 :: uint32) 11" by code_simp+
    then have "bit b 12 \<longleftrightarrow> inst \<noteq> 0" "bit b 11" by (simp_all add: b_def)
    then show "bit ?i 12 \<longleftrightarrow> inst \<noteq> 0" "bit ?i 11"
      unfolding i using t11 [of 12] by (auto simp: bit_simps)
  qed
  ultimately have v: "CFE_SB_IsValidMsgId ?i"
    by (auto simp: CFE_SB_IsValidMsgId_def CFE_SB_INVALID_MSG_ID_def word_le_nat_alt
        CFE_PLATFORM_SB_HIGHEST_VALID_MSGID_def)
  obtain m' where m': "CFE_MSG_SetMsgId (Some (replicate 6 0)) ?i = (CFE_SUCCESS, Some m')"
    "msg_word m' 0 = ucast ?i"
    by (rule set_msgid_words [OF v, of "replicate 6 0"]) simp_all
  have "bit (m' ! 0) 4 = bit (msg_word m' 0) 12" by (simp add: bit_msg_word)
  then have "bit (m' ! 0) 4 \<longleftrightarrow> inst \<noteq> 0" using b12 by (simp add: m'(2) bit_simps)
  then show ?thesis
    unfolding CFE_MSG_GetTypeFromMsgId_def m'(1) by (simp add: CFE_MSG_GetType_def flag_bits)
qed

theorem cmd_topic_type_witness:
  "CFE_MSG_GetTypeFromMsgId (CFE_SB_CmdTopicIdToMsgId 6 0) True = Inr CFE_MSG_Type_Tlm"
  using cmd_topic_type [of 6 0] by simp

end
