(* ===== verification/Msg_Map.thy ===== *)
theory Msg_Map
  imports Msg_Header
begin

section \<open>Message maps (cfe/modules/sbr, cfe_sbr_map_direct.c and cfe_sbr_map_hash.c)\<close>

text \<open>
  The message map finds the route ID of a message ID.  The build links one of two
  implementations, a direct table or a hash table with linear probing.  A route ID is 1 plus the
  index of the route, so that 0 is invalid.  The probe loops of the hash table have no bound of
  their own in the code: the model uses \<open>partial_function\<close>, so a loop that never ended would be
  \<open>None\<close>, and the interface \<open>msg_map\<close> that both implementations meet promises \<open>Some\<close>.
  The routing table, where the hash lookup reads the message ID of a route, is the argument
  \<open>GetMsgId\<close>.
\<close>

type_synonym CFE_SBR_RouteId = uint16
type_synonym msgmap = "CFE_SBR_RouteId list"

definition CFE_PLATFORM_SB_MAX_MSG_IDS :: uint16 where
  "CFE_PLATFORM_SB_MAX_MSG_IDS = 256"

definition CFE_SBR_INVALID_ROUTE_ID :: CFE_SBR_RouteId where
  "CFE_SBR_INVALID_ROUTE_ID = 0"

definition CFE_SBR_IsValidRouteId :: "CFE_SBR_RouteId \<Rightarrow> bool" where
  "CFE_SBR_IsValidRouteId RouteId \<longleftrightarrow> RouteId \<noteq> 0 \<and> RouteId \<le> CFE_PLATFORM_SB_MAX_MSG_IDS"

definition CFE_SBR_ValueToRouteId :: "uint16 \<Rightarrow> CFE_SBR_RouteId" where
  "CFE_SBR_ValueToRouteId Value = 1 + Value"

definition CFE_SBR_RouteIdToValue :: "CFE_SBR_RouteId \<Rightarrow> uint16" where
  "CFE_SBR_RouteIdToValue RouteId = RouteId - 1"

subsection \<open>Direct map\<close>

definition DIRECT_MAP_SIZE :: uint32 where
  "DIRECT_MAP_SIZE = CFE_PLATFORM_SB_HIGHEST_VALID_MSGID + 1"

definition CFE_SBR_Init_Map_direct :: msgmap where
  "CFE_SBR_Init_Map_direct = replicate (unat DIRECT_MAP_SIZE) 0"

definition CFE_SBR_SetRouteId_direct ::
  "CFE_SB_MsgId \<Rightarrow> CFE_SBR_RouteId \<Rightarrow> msgmap \<Rightarrow> (uint32 \<times> msgmap) option" where
  "CFE_SBR_SetRouteId_direct MsgId RouteId M =
     Some (0, if CFE_SB_IsValidMsgId MsgId then M[unat MsgId := RouteId] else M)"

definition CFE_SBR_GetRouteId_direct ::
  "(CFE_SBR_RouteId \<Rightarrow> CFE_SB_MsgId) \<Rightarrow> CFE_SB_MsgId \<Rightarrow> msgmap \<Rightarrow> CFE_SBR_RouteId option" where
  "CFE_SBR_GetRouteId_direct GetMsgId MsgId M =
     Some (if CFE_SB_IsValidMsgId MsgId then M ! unat MsgId else CFE_SBR_INVALID_ROUTE_ID)"

subsection \<open>Hash map\<close>

definition HASH_MAP_SIZE :: uint32 where
  "HASH_MAP_SIZE = 4 * ucast CFE_PLATFORM_SB_MAX_MSG_IDS"

definition CFE_SBR_HASH_MAGIC :: uint32 where
  "CFE_SBR_HASH_MAGIC = 0x45d9f3b"

definition CFE_SBR_MsgIdHash :: "CFE_SB_MsgId \<Rightarrow> uint32" where
  "CFE_SBR_MsgIdHash MsgId =
     (let h1 = (drop_bit 16 MsgId XOR MsgId) * CFE_SBR_HASH_MAGIC;
          h2 = (drop_bit 16 h1 XOR h1) * CFE_SBR_HASH_MAGIC;
          h3 = drop_bit 16 h2 XOR h2
      in h3 AND (HASH_MAP_SIZE - 1))"

definition CFE_SBR_Init_Map_hash :: msgmap where
  "CFE_SBR_Init_Map_hash = replicate (unat HASH_MAP_SIZE) 0"

definition next_slot :: "uint32 \<Rightarrow> uint32" where
  "next_slot hash = (hash + 1) AND (HASH_MAP_SIZE - 1)"

partial_function (option) find_open :: "msgmap \<Rightarrow> uint32 \<Rightarrow> uint32 \<Rightarrow> (uint32 \<times> uint32) option" where
  "find_open M hash collisions =
     (if CFE_SBR_IsValidRouteId (M ! unat hash)
      then find_open M (next_slot hash) (collisions + 1)
      else Some (hash, collisions))"

declare find_open.simps [code]

definition CFE_SBR_SetRouteId_hash ::
  "CFE_SB_MsgId \<Rightarrow> CFE_SBR_RouteId \<Rightarrow> msgmap \<Rightarrow> (uint32 \<times> msgmap) option" where
  "CFE_SBR_SetRouteId_hash MsgId RouteId M =
     (if CFE_SB_IsValidMsgId MsgId
      then case find_open M (CFE_SBR_MsgIdHash MsgId) 0 of
             None \<Rightarrow> None
           | Some (hash, collisions) \<Rightarrow> Some (collisions, M[unat hash := RouteId])
      else Some (0, M))"

partial_function (option) probe ::
  "(CFE_SBR_RouteId \<Rightarrow> CFE_SB_MsgId) \<Rightarrow> CFE_SB_MsgId \<Rightarrow> msgmap \<Rightarrow> uint32 \<Rightarrow> CFE_SBR_RouteId option" where
  "probe GetMsgId MsgId M hash =
     (if CFE_SBR_IsValidRouteId (M ! unat hash) \<and> GetMsgId (M ! unat hash) \<noteq> MsgId
      then probe GetMsgId MsgId M (next_slot hash)
      else Some (M ! unat hash))"

declare probe.simps [code]

definition CFE_SBR_GetRouteId_hash ::
  "(CFE_SBR_RouteId \<Rightarrow> CFE_SB_MsgId) \<Rightarrow> CFE_SB_MsgId \<Rightarrow> msgmap \<Rightarrow> CFE_SBR_RouteId option" where
  "CFE_SBR_GetRouteId_hash GetMsgId MsgId M =
     (if CFE_SB_IsValidMsgId MsgId then probe GetMsgId MsgId M (CFE_SBR_MsgIdHash MsgId)
      else Some CFE_SBR_INVALID_ROUTE_ID)"

subsection \<open>The interface\<close>

text \<open>
  The route of the message at index \<open>i\<close> of the list of message IDs added so far, and what a
  lookup returns for a list of message IDs.
\<close>

definition route_of :: "nat \<Rightarrow> CFE_SBR_RouteId" where
  "route_of i = CFE_SBR_ValueToRouteId (of_nat i)"

fun index_of :: "'a \<Rightarrow> 'a list \<Rightarrow> nat" where
  "index_of x [] = 0"
| "index_of x (y # ys) = (if x = y then 0 else Suc (index_of x ys))"

lemma index_of_less: "x \<in> set xs \<Longrightarrow> index_of x xs < length xs"
  by (induction xs) auto

lemma nth_index_of: "x \<in> set xs \<Longrightarrow> xs ! index_of x xs = x"
  by (induction xs) auto

lemma index_of_nth: "distinct xs \<Longrightarrow> i < length xs \<Longrightarrow> index_of (xs ! i) xs = i"
proof (induction xs arbitrary: i)
  case Nil
  then show ?case by simp
next
  case (Cons x xs)
  then show ?case by (cases i) auto
qed

lemma index_of_append: "index_of x (xs @ ys) = (if x \<in> set xs then index_of x xs else length xs + index_of x ys)"
  by (induction xs) auto

definition lookup_route :: "CFE_SB_MsgId list \<Rightarrow> CFE_SB_MsgId \<Rightarrow> CFE_SBR_RouteId" where
  "lookup_route ids m = (if m \<in> set ids then route_of (index_of m ids) else CFE_SBR_INVALID_ROUTE_ID)"

definition names :: "(CFE_SBR_RouteId \<Rightarrow> CFE_SB_MsgId) \<Rightarrow> CFE_SB_MsgId list \<Rightarrow> bool" where
  "names GetMsgId ids \<longleftrightarrow> (\<forall>i < length ids. GetMsgId (route_of i) = ids ! i)"

locale msg_map =
  fixes init :: 'm
    and set_route :: "CFE_SB_MsgId \<Rightarrow> CFE_SBR_RouteId \<Rightarrow> 'm \<Rightarrow> (uint32 \<times> 'm) option"
    and get_route :: "(CFE_SBR_RouteId \<Rightarrow> CFE_SB_MsgId) \<Rightarrow> CFE_SB_MsgId \<Rightarrow> 'm \<Rightarrow> CFE_SBR_RouteId option"
    and rep :: "'m \<Rightarrow> CFE_SB_MsgId list \<Rightarrow> bool"
  assumes init_rep: "rep init []"
    and set_rep: "rep M ids \<Longrightarrow> CFE_SB_IsValidMsgId m \<Longrightarrow> m \<notin> set ids \<Longrightarrow> length ids < 256
      \<Longrightarrow> \<exists>c M'. set_route m (route_of (length ids)) M = Some (c, M') \<and> rep M' (ids @ [m])
            \<and> unat c \<le> length ids"
    and get_rep: "rep M ids \<Longrightarrow> names GetMsgId ids
      \<Longrightarrow> get_route GetMsgId m M = Some (if CFE_SB_IsValidMsgId m then lookup_route ids m else 0)"
    and rep_ids: "rep M ids \<Longrightarrow> distinct ids \<and> length ids \<le> 256 \<and> (\<forall>m \<in> set ids. CFE_SB_IsValidMsgId m)"

lemma route_of_facts:
  assumes "i < 256"
  shows "unat (route_of i) = i + 1" "CFE_SBR_IsValidRouteId (route_of i)"
    "CFE_SBR_RouteIdToValue (route_of i) = of_nat i" "route_of i \<noteq> 0"
proof -
  have i: "unat (of_nat i :: uint16) = i" using assms by (intro unat_of_nat_small) simp
  show u: "unat (route_of i) = i + 1"
    using assms i by (simp add: route_of_def CFE_SBR_ValueToRouteId_def unat_plus_small)
  then show n: "route_of i \<noteq> 0" by auto
  with u assms show "CFE_SBR_IsValidRouteId (route_of i)"
    by (simp add: CFE_SBR_IsValidRouteId_def word_le_nat_alt CFE_PLATFORM_SB_MAX_MSG_IDS_def)
  show "CFE_SBR_RouteIdToValue (route_of i) = of_nat i"
    by (simp add: CFE_SBR_RouteIdToValue_def route_of_def CFE_SBR_ValueToRouteId_def)
qed

lemma valid_msgid_less: "CFE_SB_IsValidMsgId m \<Longrightarrow> unat m < 0x2000"
  by (simp add: CFE_SB_IsValidMsgId_def word_le_nat_alt CFE_PLATFORM_SB_HIGHEST_VALID_MSGID_def)

lemma valid_route_zero [simp]: "\<not> CFE_SBR_IsValidRouteId 0"
  by (simp add: CFE_SBR_IsValidRouteId_def)

lemma valid_route_range: "CFE_SBR_IsValidRouteId r \<Longrightarrow> \<exists>i < 256. r = route_of i"
proof -
  assume v: "CFE_SBR_IsValidRouteId r"
  then have r: "0 < unat r" "unat r \<le> 256"
    by (simp_all add: CFE_SBR_IsValidRouteId_def word_le_nat_alt CFE_PLATFORM_SB_MAX_MSG_IDS_def
        unat_gt_0)
  then have "unat (route_of (unat r - 1)) = unat r" using route_of_facts(1) [of "unat r - 1"] by simp
  then have "r = route_of (unat r - 1)" by (simp add: word_unat_eq_iff)
  with r show ?thesis by (intro exI [of _ "unat r - 1"]) simp
qed

definition good_ids :: "CFE_SB_MsgId list \<Rightarrow> bool" where
  "good_ids ids \<longleftrightarrow> distinct ids \<and> length ids \<le> 256 \<and> (\<forall>m \<in> set ids. CFE_SB_IsValidMsgId m)"

lemma good_ids_snoc:
  "good_ids ids \<Longrightarrow> CFE_SB_IsValidMsgId m \<Longrightarrow> m \<notin> set ids \<Longrightarrow> length ids < 256 \<Longrightarrow> good_ids (ids @ [m])"
  by (auto simp: good_ids_def)

subsection \<open>The direct map meets the interface\<close>

definition direct_rep :: "msgmap \<Rightarrow> CFE_SB_MsgId list \<Rightarrow> bool" where
  "direct_rep M ids \<longleftrightarrow> good_ids ids \<and> length M = 0x2000
     \<and> (\<forall>m. CFE_SB_IsValidMsgId m \<longrightarrow> M ! unat m = lookup_route ids m)"

lemma lookup_route_snoc:
  "m \<notin> set ids \<Longrightarrow> lookup_route (ids @ [m]) x = (if x = m then route_of (length ids) else lookup_route ids x)"
  by (auto simp: lookup_route_def index_of_append)

interpretation direct: msg_map CFE_SBR_Init_Map_direct CFE_SBR_SetRouteId_direct
    CFE_SBR_GetRouteId_direct direct_rep
proof
  show "direct_rep CFE_SBR_Init_Map_direct []"
    by (auto simp: direct_rep_def good_ids_def CFE_SBR_Init_Map_direct_def DIRECT_MAP_SIZE_def
        CFE_PLATFORM_SB_HIGHEST_VALID_MSGID_def lookup_route_def CFE_SBR_INVALID_ROUTE_ID_def
        dest: valid_msgid_less)
next
  fix M ids m
  assume rep: "direct_rep M ids" and m: "CFE_SB_IsValidMsgId m" "m \<notin> set ids" "length ids < 256"
  have "direct_rep (M[unat m := route_of (length ids)]) (ids @ [m])"
    using rep m valid_msgid_less [OF m(1)]
    by (auto simp: direct_rep_def good_ids_snoc lookup_route_snoc nth_list_update_if word_unat_eq_iff)
  with m(1) show "\<exists>c M'. CFE_SBR_SetRouteId_direct m (route_of (length ids)) M = Some (c, M')
      \<and> direct_rep M' (ids @ [m]) \<and> unat c \<le> length ids"
    by (simp add: CFE_SBR_SetRouteId_direct_def)
next
  fix M ids m GetMsgId
  assume "direct_rep M ids"
  then show "CFE_SBR_GetRouteId_direct GetMsgId m M
      = Some (if CFE_SB_IsValidMsgId m then lookup_route ids m else 0)"
    by (simp add: CFE_SBR_GetRouteId_direct_def direct_rep_def CFE_SBR_INVALID_ROUTE_ID_def)
next
  fix M ids
  assume "direct_rep M ids"
  then show "distinct ids \<and> length ids \<le> 256 \<and> (\<forall>m \<in> set ids. CFE_SB_IsValidMsgId m)"
    by (simp add: direct_rep_def good_ids_def)
qed

subsection \<open>The hash map meets the interface\<close>

lemma hash_mask: "unat (w AND (HASH_MAP_SIZE - 1)) = unat w mod 1024"
proof -
  have "HASH_MAP_SIZE - 1 = mask 10"
    by (simp add: HASH_MAP_SIZE_def CFE_PLATFORM_SB_MAX_MSG_IDS_def mask_eq_exp_minus_1)
  then show ?thesis
    by (simp add: take_bit_eq_mask [symmetric] unsigned_take_bit_eq take_bit_eq_mod unat_mod_word)
qed

lemma next_slot_mod: "unat (next_slot h) = (unat h + 1) mod 1024"
proof -
  have "unat (h + 1) mod 1024 = (unat h + 1) mod 1024"
    by (simp add: unat_word_ariths mod_mod_cancel)
  then show ?thesis by (simp add: next_slot_def hash_mask)
qed

lemma hash_less: "unat (CFE_SBR_MsgIdHash m) < 1024"
  by (simp add: CFE_SBR_MsgIdHash_def Let_def hash_mask)

text \<open>The slot reached after \<open>d\<close> steps from a hash value.\<close>

definition slot :: "uint32 \<Rightarrow> nat \<Rightarrow> nat" where
  "slot h d = (unat h + d) mod 1024"

lemma slot_0 [simp]: "unat h < 1024 \<Longrightarrow> slot h 0 = unat h"
  by (simp add: slot_def)

lemma slot_next: "slot (next_slot h) d = slot h (Suc d)"
  by (simp add: slot_def next_slot_mod mod_simps)

lemma slot_surj: "p < 1024 \<Longrightarrow> unat h < 1024 \<Longrightarrow> \<exists>d < 1024. slot h d = p"
proof -
  assume p: "p < 1024" "unat h < 1024"
  define d where "d = (p + 1024 - unat h) mod 1024"
  have "slot h d = (unat h + (p + 1024 - unat h)) mod 1024"
    by (simp add: slot_def d_def mod_simps)
  also have "\<dots> = p" using p by simp
  finally show ?thesis by (intro exI [of _ d]) (simp add: d_def)
qed

lemma slot_inj:
  assumes eq: "slot h d = slot h e" and lt: "d < 1024" "e < 1024"
  shows "d = e"
proof -
  have inv: "(slot h x + (1024 - unat h mod 1024)) mod 1024 = x" if "x < 1024" for x
  proof -
    have "(slot h x + (1024 - unat h mod 1024)) mod 1024
        = (unat h mod 1024 + x + (1024 - unat h mod 1024)) mod 1024"
      unfolding slot_def by (simp only: mod_add_left_eq add.assoc)
    also have "unat h mod 1024 + x + (1024 - unat h mod 1024) = x + 1024"
      using mod_less_divisor [of 1024 "unat h"] by linarith
    finally show ?thesis using that by simp
  qed
  from inv [OF lt(1)] inv [OF lt(2)] eq show "d = e" by simp
qed


definition occupied :: "msgmap \<Rightarrow> nat set" where
  "occupied M = {p. p < 1024 \<and> CFE_SBR_IsValidRouteId (M ! p)}"

definition hash_rep :: "msgmap \<Rightarrow> CFE_SB_MsgId list \<Rightarrow> bool" where
  "hash_rep M ids \<longleftrightarrow> good_ids ids \<and> length M = 1024
     \<and> (\<forall>p < 1024. CFE_SBR_IsValidRouteId (M ! p) \<longrightarrow> unat (M ! p) \<le> length ids)
     \<and> (\<forall>p < 1024. \<not> CFE_SBR_IsValidRouteId (M ! p) \<longrightarrow> M ! p = 0)
     \<and> inj_on ((!) M) (occupied M)
     \<and> (\<forall>i < length ids. \<exists>d < 1024. M ! slot (CFE_SBR_MsgIdHash (ids ! i)) d = route_of i
          \<and> (\<forall>e < d. slot (CFE_SBR_MsgIdHash (ids ! i)) e \<in> occupied M))"

lemma slot_less [simp]: "slot h d < 1024"
  by (simp add: slot_def)

lemma card_occupied:
  assumes "hash_rep M ids"
  shows "card (occupied M) \<le> length ids"
proof -
  have "(unat \<circ> (!) M) ` occupied M \<subseteq> {1..length ids}"
    using assms by (auto simp: hash_rep_def occupied_def CFE_SBR_IsValidRouteId_def unat_gt_0
        simp flip: unat_gt_0 intro!: Suc_leI)
  then have "card ((unat \<circ> (!) M) ` occupied M) \<le> card {1..length ids}"
    by (intro card_mono) simp_all
  moreover have "inj_on (unat \<circ> (!) M) (occupied M)"
    using assms by (intro comp_inj_on) (auto simp: hash_rep_def inj_on_def word_unat_eq_iff)
  ultimately show ?thesis by (metis card_image card_atLeastAtMost diff_Suc_1)
qed

text \<open>From any hash value an open slot is found after at most as many steps as slots are occupied.\<close>

lemma open_slot:
  assumes "hash_rep M ids"
  obtains d where "d \<le> length ids" "slot h d \<notin> occupied M" "\<forall>e < d. slot h e \<in> occupied M"
proof -
  have len: "length ids < 1024" using assms by (simp add: hash_rep_def good_ids_def)
  have "\<exists>d \<le> length ids. slot h d \<notin> occupied M"
  proof (rule ccontr)
    assume "\<not> ?thesis"
    then have "slot h ` {..length ids} \<subseteq> occupied M" by auto
    then have "card (slot h ` {..length ids}) \<le> card (occupied M)"
      by (intro card_mono) (auto simp: occupied_def)
    moreover have "inj_on (slot h) {..length ids}"
      using len by (auto intro!: inj_onI dest: slot_inj)
    ultimately show False using card_occupied [OF assms] by (simp add: card_image)
  qed
  then obtain d where d: "d \<le> length ids" "slot h d \<notin> occupied M" by blast
  define d0 where "d0 = (LEAST d. slot h d \<notin> occupied M)"
  have "slot h d0 \<notin> occupied M" "d0 \<le> d" "\<forall>e < d0. slot h e \<in> occupied M"
    unfolding d0_def using LeastI [of "\<lambda>d. slot h d \<notin> occupied M", OF d(2)] d(2)
    by (auto intro: Least_le dest: not_less_Least)
  with d(1) show ?thesis by (intro that [of d0]) auto
qed

lemma find_open_result:
  assumes "unat h < 1024" "slot h d \<notin> occupied M" "\<forall>e < d. slot h e \<in> occupied M"
  shows "\<exists>h'. find_open M h c = Some (h', c + of_nat d) \<and> unat h' = slot h d"
  using assms
proof (induction d arbitrary: h c)
  case 0
  then show ?case by (simp add: find_open.simps [of M h] occupied_def)
next
  case (Suc d)
  have "slot h 0 \<in> occupied M" using Suc.prems(3) by blast
  then have v: "CFE_SBR_IsValidRouteId (M ! unat h)" using Suc.prems(1) by (simp add: occupied_def)
  have "\<exists>h'. find_open M (next_slot h) (c + 1) = Some (h', c + 1 + of_nat d) \<and> unat h' = slot (next_slot h) d"
    using Suc.prems by (intro Suc.IH) (auto simp: slot_next next_slot_mod)
  with v show ?case by (simp add: find_open.simps [of M h] slot_next algebra_simps)
qed

lemma probe_result:
  assumes "unat h < 1024"
    and "\<not> (CFE_SBR_IsValidRouteId (M ! slot h d) \<and> GetMsgId (M ! slot h d) \<noteq> m)"
    and "\<forall>e < d. CFE_SBR_IsValidRouteId (M ! slot h e) \<and> GetMsgId (M ! slot h e) \<noteq> m"
  shows "probe GetMsgId m M h = Some (M ! slot h d)"
  using assms
proof (induction d arbitrary: h)
  case 0
  then show ?case by (subst probe.simps) auto
next
  case (Suc d)
  have "CFE_SBR_IsValidRouteId (M ! slot h 0) \<and> GetMsgId (M ! slot h 0) \<noteq> m"
    using Suc.prems(3) by blast
  then have v: "CFE_SBR_IsValidRouteId (M ! unat h) \<and> GetMsgId (M ! unat h) \<noteq> m"
    using Suc.prems(1) by simp
  have "probe GetMsgId m M (next_slot h) = Some (M ! slot (next_slot h) d)"
    using Suc.prems by (intro Suc.IH) (auto simp: slot_next next_slot_mod)
  with v show ?case by (simp add: probe.simps [of GetMsgId m M h] slot_next)
qed

lemma hash_get:
  assumes rep: "hash_rep M ids" and nm: "names GetMsgId ids" and m: "CFE_SB_IsValidMsgId m"
  shows "CFE_SBR_GetRouteId_hash GetMsgId m M = Some (lookup_route ids m)"
proof -
  let ?h = "CFE_SBR_MsgIdHash m"
  have len: "length ids \<le> 256" "distinct ids" using rep by (simp_all add: hash_rep_def good_ids_def)
  have read: "\<exists>i < length ids. M ! p = route_of i \<and> GetMsgId (M ! p) = ids ! i" if "p \<in> occupied M" for p
  proof -
    from that obtain i where i: "i < 256" "M ! p = route_of i"
      using valid_route_range by (auto simp: occupied_def)
    have "unat (M ! p) \<le> length ids" using that rep by (auto simp: occupied_def hash_rep_def)
    then have "i < length ids" using i by (simp add: route_of_facts)
    with i nm show ?thesis by (auto simp: names_def)
  qed
  show ?thesis
  proof (cases "m \<in> set ids")
    case True
    let ?i = "index_of m ids"
    note i = index_of_less [OF True] nth_index_of [OF True]
    from rep i(1) obtain d where d: "d < 1024" "M ! slot (CFE_SBR_MsgIdHash (ids ! ?i)) d = route_of ?i"
      "\<forall>e < d. slot (CFE_SBR_MsgIdHash (ids ! ?i)) e \<in> occupied M"
      unfolding hash_rep_def by blast
    note d = d [unfolded i(2)]
    have hit: "GetMsgId (route_of ?i) = m" using nm i by (auto simp: names_def)
    have before: "CFE_SBR_IsValidRouteId (M ! slot ?h e) \<and> GetMsgId (M ! slot ?h e) \<noteq> m"
      if e: "e < d" for e
    proof -
      have occ: "slot ?h e \<in> occupied M" using d(3) e by blast
      then obtain j where j: "j < length ids" "M ! slot ?h e = route_of j" "GetMsgId (M ! slot ?h e) = ids ! j"
        using read by blast
      have "slot ?h d \<in> occupied M" using d(2) i(1) len by (simp add: occupied_def route_of_facts)
      moreover have "slot ?h e \<noteq> slot ?h d" using slot_inj [of ?h e d] e d(1) by auto
      ultimately have "M ! slot ?h e \<noteq> M ! slot ?h d"
        using rep occ by (auto simp: hash_rep_def inj_on_def)
      then have "j \<noteq> ?i" using j(2) d(2) by auto
      then have "ids ! j \<noteq> m" using index_of_nth [OF len(2) j(1)] by auto
      with j occ show ?thesis by (simp add: occupied_def)
    qed
    have "probe GetMsgId m M ?h = Some (M ! slot ?h d)"
      by (rule probe_result) (use hit d(2) before hash_less in auto)
    with True d(2) m show ?thesis by (simp add: CFE_SBR_GetRouteId_hash_def lookup_route_def)
  next
    case False
    obtain d where d: "slot ?h d \<notin> occupied M" "\<forall>e < d. slot ?h e \<in> occupied M"
      by (rule open_slot [OF rep, of ?h])
    have inv: "\<not> CFE_SBR_IsValidRouteId (M ! slot ?h d)" using d(1) by (simp add: occupied_def)
    then have z: "M ! slot ?h d = 0" using rep by (simp add: hash_rep_def)
    have "CFE_SBR_IsValidRouteId (M ! slot ?h e) \<and> GetMsgId (M ! slot ?h e) \<noteq> m" if "e < d" for e
    proof -
      have occ: "slot ?h e \<in> occupied M" using d(2) that by blast
      then obtain j where "j < length ids" "GetMsgId (M ! slot ?h e) = ids ! j" using read by blast
      with False occ show ?thesis by (auto simp: occupied_def)
    qed
    then have "probe GetMsgId m M ?h = Some (M ! slot ?h d)"
      by (intro probe_result) (use inv hash_less in auto)
    with False z m show ?thesis
      by (simp add: CFE_SBR_GetRouteId_hash_def lookup_route_def CFE_SBR_INVALID_ROUTE_ID_def)
  qed
qed

lemma hash_set:
  assumes rep: "hash_rep M ids" and m: "CFE_SB_IsValidMsgId m" "m \<notin> set ids" "length ids < 256"
  shows "\<exists>c M'. CFE_SBR_SetRouteId_hash m (route_of (length ids)) M = Some (c, M')
     \<and> hash_rep M' (ids @ [m]) \<and> unat c \<le> length ids"
proof -
  let ?h = "CFE_SBR_MsgIdHash m" and ?r = "route_of (length ids)"
  obtain d where d: "d \<le> length ids" "slot ?h d \<notin> occupied M" "\<forall>e < d. slot ?h e \<in> occupied M"
    by (rule open_slot [OF rep, of ?h])
  let ?p = "slot ?h d" 
  let ?M = "M[?p := ?r]"
  have len: "length M = 1024" using rep by (simp add: hash_rep_def)
  obtain h' where f: "find_open M ?h 0 = Some (h', of_nat d)" "unat h' = ?p"
    using find_open_result [OF hash_less d(2,3), of 0] by auto
  have nth: "?M ! q = (if q = ?p then ?r else M ! q)" for q
    using len by (simp add: nth_list_update_if)
  have r: "unat ?r = length ids + 1" "CFE_SBR_IsValidRouteId ?r" using m(3) by (simp_all add: route_of_facts)
  have occ: "occupied ?M = insert ?p (occupied M)"
    using r(2) by (auto simp: occupied_def nth)
  have old: "unat (M ! q) \<le> length ids" if "q \<in> occupied M" for q
    using that rep by (auto simp: occupied_def hash_rep_def)
  have "hash_rep ?M (ids @ [m])"
    unfolding hash_rep_def
  proof (intro conjI allI impI)
    show "good_ids (ids @ [m])" using rep m by (simp add: hash_rep_def good_ids_snoc)
    show "length ?M = 1024" using len by simp
  next
    fix p :: nat assume "p < 1024" "CFE_SBR_IsValidRouteId (?M ! p)"
    then show "unat (?M ! p) \<le> length (ids @ [m])"
      using r(1) old [of p] by (auto simp: nth occupied_def split: if_splits)
  next
    fix p :: nat assume "p < 1024" "\<not> CFE_SBR_IsValidRouteId (?M ! p)"
    then show "?M ! p = 0" using rep r(2) by (auto simp: nth hash_rep_def split: if_splits)
  next
    have "inj_on ((!) ?M) (occupied M)"
      using rep d(2) by (auto simp: inj_on_def hash_rep_def nth)
    moreover have "?M ! ?p \<notin> (!) ?M ` occupied M"
    proof
      assume "?M ! ?p \<in> (!) ?M ` occupied M"
      then obtain q where q: "q \<in> occupied M" "?M ! ?p = ?M ! q" by auto
      then have "q \<noteq> ?p" using d(2) by auto
      then have "?r = M ! q" using q(2) by (simp add: nth)
      with old [OF q(1)] r(1) show False by simp
    qed
    ultimately show "inj_on ((!) ?M) (occupied ?M)" using d(2) by (simp add: occ)
  next
    fix i assume i: "i < length (ids @ [m])"
    show "\<exists>d < 1024. ?M ! slot (CFE_SBR_MsgIdHash ((ids @ [m]) ! i)) d = route_of i
        \<and> (\<forall>e < d. slot (CFE_SBR_MsgIdHash ((ids @ [m]) ! i)) e \<in> occupied ?M)"
    proof (cases "i = length ids")
      case True
      with d m(3) show ?thesis by (intro exI [of _ d]) (auto simp: nth occ)
    next
      case False
      then have i: "i < length ids" using i by simp
      from rep i obtain e where e: "e < 1024" "M ! slot (CFE_SBR_MsgIdHash (ids ! i)) e = route_of i"
        "\<forall>k < e. slot (CFE_SBR_MsgIdHash (ids ! i)) k \<in> occupied M" unfolding hash_rep_def by blast
      have "slot (CFE_SBR_MsgIdHash (ids ! i)) e \<in> occupied M"
        using e(2) i m(3) by (simp add: occupied_def route_of_facts)
      then have "slot (CFE_SBR_MsgIdHash (ids ! i)) e \<noteq> ?p" using d(2) by auto
      with e i show ?thesis by (intro exI [of _ e]) (simp add: nth occ nth_append)
    qed
  qed
  moreover have "unat (of_nat d :: uint32) \<le> length ids"
    using d(1) m(3) by (subst unat_of_nat_small) simp_all
  ultimately show ?thesis using f m(1) by (simp add: CFE_SBR_SetRouteId_hash_def)
qed

interpretation hash: msg_map CFE_SBR_Init_Map_hash CFE_SBR_SetRouteId_hash
    CFE_SBR_GetRouteId_hash hash_rep
proof
  have "unat HASH_MAP_SIZE = 1024"
    by (simp add: HASH_MAP_SIZE_def CFE_PLATFORM_SB_MAX_MSG_IDS_def)
  then have "\<forall>p < 1024. CFE_SBR_Init_Map_hash ! p = 0" "length CFE_SBR_Init_Map_hash = 1024"
    by (simp_all add: CFE_SBR_Init_Map_hash_def)
  then show "hash_rep CFE_SBR_Init_Map_hash []"
    by (auto simp: hash_rep_def good_ids_def occupied_def inj_on_def)
next
  fix M ids m
  assume "hash_rep M ids" "CFE_SB_IsValidMsgId m" "m \<notin> set ids" "length ids < 256"
  then show "\<exists>c M'. CFE_SBR_SetRouteId_hash m (route_of (length ids)) M = Some (c, M')
      \<and> hash_rep M' (ids @ [m]) \<and> unat c \<le> length ids" by (rule hash_set)
next
  fix M ids m GetMsgId
  assume "hash_rep M ids" "names GetMsgId ids"
  then show "CFE_SBR_GetRouteId_hash GetMsgId m M
      = Some (if CFE_SB_IsValidMsgId m then lookup_route ids m else 0)"
    by (cases "CFE_SB_IsValidMsgId m")
      (simp_all add: hash_get, simp add: CFE_SBR_GetRouteId_hash_def CFE_SBR_INVALID_ROUTE_ID_def)
next
  fix M ids
  assume "hash_rep M ids"
  then show "distinct ids \<and> length ids \<le> 256 \<and> (\<forall>m \<in> set ids. CFE_SB_IsValidMsgId m)"
    by (simp add: hash_rep_def good_ids_def)
qed

end
