(* ===== verification/Sbr_Route.thy ===== *)
theory Sbr_Route
  imports Msg_Map
begin

section \<open>The routing table (cfe/modules/sbr, cfe_sbr_route_unsorted.c)\<close>

text \<open>
  One entry per route: the head of its destination list (an address, 0 for none), its message ID
  and its sequence counter.  The map from message IDs to routes is a part of the state; the
  operations that the build links from one of the two map files, \<open>SetRouteId\<close> and \<open>GetRouteId\<close>,
  are arguments.  \<open>None\<close> would be a probe loop that does not end.
\<close>

record RouteEntry =
  ListHeadPtr :: size_t
  RouteMsgId :: CFE_SB_MsgId
  RouteSeqCnt :: uint16

record 'm sbr_data =
  RoutingTbl :: "RouteEntry list"
  RouteIdxTop :: uint16
  MsgMap :: 'm

definition CFE_SBR_Init :: "'m \<Rightarrow> 'm sbr_data" where
  "CFE_SBR_Init Init_Map =
     \<lparr>RoutingTbl = replicate (unat CFE_PLATFORM_SB_MAX_MSG_IDS)
        \<lparr>ListHeadPtr = 0, RouteMsgId = CFE_SB_INVALID_MSG_ID, RouteSeqCnt = 0\<rparr>,
      RouteIdxTop = 0, MsgMap = Init_Map\<rparr>"

definition route_entry :: "'m sbr_data \<Rightarrow> CFE_SBR_RouteId \<Rightarrow> RouteEntry" where
  "route_entry S RouteId = RoutingTbl S ! unat (CFE_SBR_RouteIdToValue RouteId)"

definition set_route_entry :: "CFE_SBR_RouteId \<Rightarrow> RouteEntry \<Rightarrow> 'm sbr_data \<Rightarrow> 'm sbr_data" where
  "set_route_entry RouteId e S =
     S\<lparr>RoutingTbl := (RoutingTbl S)[unat (CFE_SBR_RouteIdToValue RouteId) := e]\<rparr>"

definition CFE_SBR_GetMsgId :: "'m sbr_data \<Rightarrow> CFE_SBR_RouteId \<Rightarrow> CFE_SB_MsgId" where
  "CFE_SBR_GetMsgId S RouteId =
     (if CFE_SBR_IsValidRouteId RouteId then RouteMsgId (route_entry S RouteId)
      else CFE_SB_INVALID_MSG_ID)"

definition CFE_SBR_AddRoute ::
  "(CFE_SB_MsgId \<Rightarrow> CFE_SBR_RouteId \<Rightarrow> 'm \<Rightarrow> (uint32 \<times> 'm) option) \<Rightarrow> CFE_SB_MsgId \<Rightarrow> 'm sbr_data
     \<Rightarrow> (CFE_SBR_RouteId \<times> uint32 \<times> 'm sbr_data) option" where
  "CFE_SBR_AddRoute SetRouteId m S =
     (if CFE_SB_IsValidMsgId m \<and> RouteIdxTop S < CFE_PLATFORM_SB_MAX_MSG_IDS
      then let routeid = CFE_SBR_ValueToRouteId (RouteIdxTop S)
        in case SetRouteId m routeid (MsgMap S) of
             None \<Rightarrow> None
           | Some (collisions, M) \<Rightarrow>
               Some (routeid, collisions,
                     S\<lparr>MsgMap := M,
                       RoutingTbl := (RoutingTbl S)[unat (RouteIdxTop S) :=
                         (RoutingTbl S ! unat (RouteIdxTop S))\<lparr>RouteMsgId := m\<rparr>],
                       RouteIdxTop := RouteIdxTop S + 1\<rparr>)
      else Some (CFE_SBR_INVALID_ROUTE_ID, 0, S))"

definition CFE_SBR_GetRouteId ::
  "((CFE_SBR_RouteId \<Rightarrow> CFE_SB_MsgId) \<Rightarrow> CFE_SB_MsgId \<Rightarrow> 'm \<Rightarrow> CFE_SBR_RouteId option) \<Rightarrow> CFE_SB_MsgId
     \<Rightarrow> 'm sbr_data \<Rightarrow> CFE_SBR_RouteId option" where
  "CFE_SBR_GetRouteId GetRouteId m S = GetRouteId (CFE_SBR_GetMsgId S) m (MsgMap S)"

definition CFE_SBR_GetDestListHeadPtr :: "'m sbr_data \<Rightarrow> CFE_SBR_RouteId \<Rightarrow> size_t" where
  "CFE_SBR_GetDestListHeadPtr S RouteId =
     (if CFE_SBR_IsValidRouteId RouteId then ListHeadPtr (route_entry S RouteId) else 0)"

definition CFE_SBR_SetDestListHeadPtr :: "CFE_SBR_RouteId \<Rightarrow> size_t \<Rightarrow> 'm sbr_data \<Rightarrow> 'm sbr_data" where
  "CFE_SBR_SetDestListHeadPtr RouteId DestPtr S =
     (if CFE_SBR_IsValidRouteId RouteId
      then set_route_entry RouteId ((route_entry S RouteId)\<lparr>ListHeadPtr := DestPtr\<rparr>) S
      else S)"

definition CFE_SBR_IncrementSequenceCounter :: "CFE_SBR_RouteId \<Rightarrow> 'm sbr_data \<Rightarrow> 'm sbr_data" where
  "CFE_SBR_IncrementSequenceCounter RouteId S =
     (if CFE_SBR_IsValidRouteId RouteId
      then set_route_entry RouteId ((route_entry S RouteId)
             \<lparr>RouteSeqCnt := CFE_MSG_GetNextSequenceCount (RouteSeqCnt (route_entry S RouteId))\<rparr>) S
      else S)"

definition CFE_SBR_GetSequenceCounter :: "'m sbr_data \<Rightarrow> CFE_SBR_RouteId \<Rightarrow> uint16" where
  "CFE_SBR_GetSequenceCounter S RouteId =
     (if CFE_SBR_IsValidRouteId RouteId then RouteSeqCnt (route_entry S RouteId) else 0)"

text \<open>
  The iteration over the routes, with the throttle that splits it into pages.  The callback
  changes a state of its own, and the range is fixed before the first call.
\<close>

record Throttle =
  StartIndex :: uint32
  MaxLoop :: uint32
  NextIndex :: uint32

definition CFE_SBR_ForEachRouteId ::
  "(CFE_SBR_RouteId \<Rightarrow> 's \<Rightarrow> 's) \<Rightarrow> Throttle option \<Rightarrow> uint16 \<Rightarrow> 's \<Rightarrow> 's \<times> Throttle option" where
  "CFE_SBR_ForEachRouteId CallbackPtr ThrottlePtr Top st =
     (let (startidx, endidx, T) =
        (case ThrottlePtr of
           None \<Rightarrow> (0, Top, None)
         | Some t \<Rightarrow>
           let startidx = (ucast (StartIndex t) :: uint16)
           in if ucast startidx + MaxLoop t < (ucast Top :: uint32)
              then let e = (ucast (ucast startidx + MaxLoop t :: uint32) :: uint16)
                in (startidx, e, Some (t\<lparr>NextIndex := ucast e\<rparr>))
              else (startidx, Top, Some (t\<lparr>NextIndex := 0\<rparr>)))
      in (fold (\<lambda>i. CallbackPtr (CFE_SBR_ValueToRouteId (of_nat i))) [unat startidx ..< unat endidx] st, T))"

subsection \<open>Lookup in a consistent routing table\<close>

text \<open>The table and the map hold the routes of the message IDs \<open>ids\<close>, in the order they were added.\<close>

definition sbr_ok :: "('m \<Rightarrow> CFE_SB_MsgId list \<Rightarrow> bool) \<Rightarrow> 'm sbr_data \<Rightarrow> CFE_SB_MsgId list \<Rightarrow> bool" where
  "sbr_ok rep S ids \<longleftrightarrow> rep (MsgMap S) ids \<and> length (RoutingTbl S) = 256
     \<and> unat (RouteIdxTop S) = length ids \<and> (\<forall>i < length ids. RouteMsgId (RoutingTbl S ! i) = ids ! i)"

text \<open>What a subscription does with the routes: look the message ID up, add a route when there is none.\<close>

definition ensure_route ::
  "(CFE_SB_MsgId \<Rightarrow> CFE_SBR_RouteId \<Rightarrow> 'm \<Rightarrow> (uint32 \<times> 'm) option)
    \<Rightarrow> ((CFE_SBR_RouteId \<Rightarrow> CFE_SB_MsgId) \<Rightarrow> CFE_SB_MsgId \<Rightarrow> 'm \<Rightarrow> CFE_SBR_RouteId option)
    \<Rightarrow> CFE_SB_MsgId \<Rightarrow> 'm sbr_data \<Rightarrow> 'm sbr_data option" where
  "ensure_route set_r get_r m S =
     (case CFE_SBR_GetRouteId get_r m S of
        None \<Rightarrow> None
      | Some r \<Rightarrow>
        if CFE_SBR_IsValidRouteId r then Some S
        else map_option (\<lambda>(_, _, S'). S') (CFE_SBR_AddRoute set_r m S))"

fun ensure_routes ::
  "(CFE_SB_MsgId \<Rightarrow> CFE_SBR_RouteId \<Rightarrow> 'm \<Rightarrow> (uint32 \<times> 'm) option)
    \<Rightarrow> ((CFE_SBR_RouteId \<Rightarrow> CFE_SB_MsgId) \<Rightarrow> CFE_SB_MsgId \<Rightarrow> 'm \<Rightarrow> CFE_SBR_RouteId option)
    \<Rightarrow> CFE_SB_MsgId list \<Rightarrow> 'm sbr_data \<Rightarrow> 'm sbr_data option" where
  "ensure_routes set_r get_r [] S = Some S"
| "ensure_routes set_r get_r (m # ms) S =
     (case ensure_route set_r get_r m S of
        None \<Rightarrow> None
      | Some S' \<Rightarrow> ensure_routes set_r get_r ms S')"

text \<open>The message IDs that have a route after the subscriptions \<open>ms\<close>: each once, at most 256.\<close>

fun routed :: "CFE_SB_MsgId list \<Rightarrow> CFE_SB_MsgId list \<Rightarrow> CFE_SB_MsgId list" where
  "routed ids [] = ids"
| "routed ids (m # ms) =
     (if CFE_SB_IsValidMsgId m \<and> m \<notin> set ids \<and> length ids < 256 then routed (ids @ [m]) ms
      else routed ids ms)"

lemma route_of_range: "unat t < 256 \<Longrightarrow> CFE_SBR_ValueToRouteId t = route_of (unat t)"
  by (simp add: route_of_def)

context msg_map
begin

lemma ok_length: "sbr_ok rep S ids \<Longrightarrow> length ids \<le> 256"
  using rep_ids by (auto simp: sbr_ok_def)

lemma ok_names:
  assumes "sbr_ok rep S ids"
  shows "names (CFE_SBR_GetMsgId S) ids"
proof -
  have "CFE_SBR_GetMsgId S (route_of i) = ids ! i" if "i < length ids" for i
  proof -
    from that ok_length [OF assms] have i: "i < 256" by simp
    then have "unat (of_nat i :: uint16) = i" by (intro unat_of_nat_small) simp
    with assms that show ?thesis
      by (simp add: CFE_SBR_GetMsgId_def route_entry_def route_of_facts [OF i] sbr_ok_def)
  qed
  then show ?thesis by (simp add: names_def)
qed

lemma init_ok: "sbr_ok rep (CFE_SBR_Init init) []"
  using init_rep by (simp add: sbr_ok_def CFE_SBR_Init_def CFE_PLATFORM_SB_MAX_MSG_IDS_def)

lemma get_ok:
  assumes "sbr_ok rep S ids"
  shows "CFE_SBR_GetRouteId get_route m S = Some (lookup_route ids m)"
proof -
  have r: "rep (MsgMap S) ids" using assms by (simp add: sbr_ok_def)
  have "lookup_route ids m = 0" if "\<not> CFE_SB_IsValidMsgId m"
    using that rep_ids [OF r] by (auto simp: lookup_route_def CFE_SBR_INVALID_ROUTE_ID_def)
  then show ?thesis
    using get_rep [OF r ok_names [OF assms], of m] by (auto simp: CFE_SBR_GetRouteId_def)
qed

lemma lookup_valid:
  assumes "sbr_ok rep S ids"
  shows "CFE_SBR_IsValidRouteId (lookup_route ids m) \<longleftrightarrow> m \<in> set ids"
  using ok_length [OF assms] index_of_less [of m ids]
  by (auto simp: lookup_route_def CFE_SBR_INVALID_ROUTE_ID_def route_of_facts)

lemma lookup_names:
  assumes "sbr_ok rep S ids" and "m \<in> set ids"
  shows "CFE_SBR_GetMsgId S (lookup_route ids m) = m"
  using ok_names [OF assms(1)] assms(2) index_of_less [OF assms(2)]
  by (simp add: names_def lookup_route_def nth_index_of)

lemma add_ok:
  assumes ok: "sbr_ok rep S ids" and m: "CFE_SB_IsValidMsgId m" "m \<notin> set ids" "length ids < 256"
  obtains c S' where "CFE_SBR_AddRoute set_route m S = Some (route_of (length ids), c, S')"
    "sbr_ok rep S' (ids @ [m])" "unat c \<le> length ids"
    "\<And>i. ListHeadPtr (RoutingTbl S' ! i) = ListHeadPtr (RoutingTbl S ! i)"
    "\<And>i. RouteSeqCnt (RoutingTbl S' ! i) = RouteSeqCnt (RoutingTbl S ! i)"
proof -
  have r: "rep (MsgMap S) ids" and top: "unat (RouteIdxTop S) = length ids"
    and len: "length (RoutingTbl S) = 256" using ok by (simp_all add: sbr_ok_def)
  obtain c M where M: "set_route m (route_of (length ids)) (MsgMap S) = Some (c, M)"
    "rep M (ids @ [m])" "unat c \<le> length ids" using set_rep [OF r m] by blast
  let ?S = "S\<lparr>MsgMap := M, RoutingTbl := (RoutingTbl S)[unat (RouteIdxTop S) :=
      (RoutingTbl S ! unat (RouteIdxTop S))\<lparr>RouteMsgId := m\<rparr>], RouteIdxTop := RouteIdxTop S + 1\<rparr>"
  have lt: "RouteIdxTop S < CFE_PLATFORM_SB_MAX_MSG_IDS"
    using top m(3) by (simp add: word_less_nat_alt CFE_PLATFORM_SB_MAX_MSG_IDS_def)
  have "CFE_SBR_ValueToRouteId (RouteIdxTop S) = route_of (length ids)"
    using top m(3) route_of_range [of "RouteIdxTop S"] by simp
  then have add: "CFE_SBR_AddRoute set_route m S = Some (route_of (length ids), c, ?S)"
    using m(1) lt M(1) by (simp add: CFE_SBR_AddRoute_def)
  have "unat (RouteIdxTop S + 1) = length ids + 1"
    using top m(3) by (simp add: unat_Suc_small)
  then have "sbr_ok rep ?S (ids @ [m])"
    using ok M(2) len top m(3) by (auto simp: sbr_ok_def nth_append nth_list_update)
  moreover have "\<And>i. ListHeadPtr (RoutingTbl ?S ! i) = ListHeadPtr (RoutingTbl S ! i)"
    "\<And>i. RouteSeqCnt (RoutingTbl ?S ! i) = RouteSeqCnt (RoutingTbl S ! i)"
    using len top m(3) by (simp_all add: nth_list_update_if)
  ultimately show ?thesis using add M(3) by (intro that [of c ?S]) auto
qed

lemma add_full:
  assumes "sbr_ok rep S ids" and "length ids = 256 \<or> \<not> CFE_SB_IsValidMsgId m"
  shows "CFE_SBR_AddRoute set_route m S = Some (CFE_SBR_INVALID_ROUTE_ID, 0, S)"
  using assms
  by (auto simp: CFE_SBR_AddRoute_def sbr_ok_def word_less_nat_alt CFE_PLATFORM_SB_MAX_MSG_IDS_def)

lemma ensure_ok:
  assumes ok: "sbr_ok rep S ids"
  shows "\<exists>S'. ensure_route set_route get_route m S = Some S' \<and> sbr_ok rep S' (routed ids [m])"
proof (cases "CFE_SB_IsValidMsgId m \<and> m \<notin> set ids \<and> length ids < 256")
  case True
  then obtain c S' where "CFE_SBR_AddRoute set_route m S = Some (route_of (length ids), c, S')"
    "sbr_ok rep S' (ids @ [m])" using add_ok [OF ok, of m] by metis
  with True show ?thesis
    by (simp add: ensure_route_def get_ok [OF ok] lookup_valid [OF ok])
next
  case False
  then have "m \<in> set ids \<or> CFE_SBR_AddRoute set_route m S = Some (CFE_SBR_INVALID_ROUTE_ID, 0, S)"
    using add_full [OF ok, of m] ok_length [OF ok] by linarith
  with False ok show ?thesis
    by (auto simp: ensure_route_def get_ok [OF ok] lookup_valid [OF ok])
qed

lemma ensure_all_ok:
  assumes "sbr_ok rep S ids"
  shows "\<exists>S'. ensure_routes set_route get_route ms S = Some S' \<and> sbr_ok rep S' (routed ids ms)"
  using assms
proof (induction ms arbitrary: S ids)
  case Nil
  then show ?case by simp
next
  case (Cons m ms)
  obtain S' where S': "ensure_route set_route get_route m S = Some S'" "sbr_ok rep S' (routed ids [m])"
    using ensure_ok [OF Cons.prems] by blast
  have "routed (routed ids [m]) ms = routed ids (m # ms)" by simp
  with Cons.IH [OF S'(2)] S'(1) show ?case by simp
qed

lemma ensured_lookup:
  "\<exists>S. ensure_routes set_route get_route ms (CFE_SBR_Init init) = Some S
     \<and> sbr_ok rep S (routed [] ms)
     \<and> (\<forall>m. CFE_SBR_GetRouteId get_route m S = Some (lookup_route (routed [] ms) m))
     \<and> (\<forall>m \<in> set (routed [] ms). CFE_SBR_GetMsgId S (lookup_route (routed [] ms) m) = m)"
  using ensure_all_ok [OF init_ok, of ms] get_ok lookup_names by blast

end

lemma routed_extends: "\<exists>zs. routed ids ms = ids @ zs \<and> set zs \<subseteq> set ms"
proof (induction ids ms rule: routed.induct)
  case (1 ids)
  then show ?case by simp
next
  case (2 ids m ms)
  then show ?case by (cases "CFE_SB_IsValidMsgId m \<and> m \<notin> set ids \<and> length ids < 256") auto
qed

lemma routed_complete:
  "length (routed ids ms) < 256 \<Longrightarrow> m \<in> set ms \<Longrightarrow> CFE_SB_IsValidMsgId m \<Longrightarrow> m \<in> set (routed ids ms)"
proof (induction ids ms rule: routed.induct)
  case (1 ids)
  then show ?case by simp
next
  case (2 ids x ms)
  obtain zs where zs: "routed ids (x # ms) = ids @ zs" using routed_extends by blast
  then have len: "length ids < 256" using "2.prems"(1) by simp
  obtain ys where ys: "routed (ids @ [x]) ms = (ids @ [x]) @ ys" using routed_extends by blast
  show ?case
  proof (cases "CFE_SB_IsValidMsgId x \<and> x \<notin> set ids")
    case True
    with len 2 ys show ?thesis by auto
  next
    case False
    with len 2 zs show ?thesis by auto
  qed
qed

subsection \<open>Sequence counters\<close>

lemma next_seqcnt:
  assumes "unat c < 2 ^ 14"
  shows "unat (CFE_MSG_GetNextSequenceCount c) = (unat c + 1) mod 2 ^ 14"
proof -
  have s: "unat (c + 1) = unat c + 1" using assms by (simp add: unat_Suc_small)
  show ?thesis
  proof (cases "unat c + 1 = 2 ^ 14")
    case True
    then show ?thesis
      using s by (simp add: CFE_MSG_GetNextSequenceCount_def CFE_MSG_SEQCNT_MASK_def word_less_nat_alt)
  next
    case False
    then have "unat c + 1 < 2 ^ 14" using assms by simp
    then show ?thesis
      using s by (simp add: CFE_MSG_GetNextSequenceCount_def CFE_MSG_SEQCNT_MASK_def word_less_nat_alt Let_def)
  qed
qed


lemma seqcnt_length [simp]:
  "length (RoutingTbl (CFE_SBR_IncrementSequenceCounter r S)) = length (RoutingTbl S)"
  by (simp add: CFE_SBR_IncrementSequenceCounter_def set_route_entry_def)

lemma seqcnt_other:
  assumes "CFE_SBR_IsValidRouteId r" "CFE_SBR_IsValidRouteId q" "r \<noteq> q"
  shows "route_entry (CFE_SBR_IncrementSequenceCounter r S) q = route_entry S q"
proof -
  obtain i j where ij: "i < 256" "j < 256" "r = route_of i" "q = route_of j"
    using valid_route_range [OF assms(1)] valid_route_range [OF assms(2)] by blast
  then have "i \<noteq> j" using assms(3) by auto
  then have "unat (CFE_SBR_RouteIdToValue r) \<noteq> unat (CFE_SBR_RouteIdToValue q)"
    using ij by (simp add: route_of_facts unat_of_nat_small)
  then show ?thesis
    by (simp add: CFE_SBR_IncrementSequenceCounter_def set_route_entry_def route_entry_def)
qed

lemma seqcnt_own:
  assumes "CFE_SBR_IsValidRouteId r" "length (RoutingTbl S) = 256"
  shows "CFE_SBR_GetSequenceCounter (CFE_SBR_IncrementSequenceCounter r S) r
    = CFE_MSG_GetNextSequenceCount (CFE_SBR_GetSequenceCounter S r)"
proof -
  obtain i where i: "i < 256" "r = route_of i" using valid_route_range [OF assms(1)] by blast
  then have "unat (CFE_SBR_RouteIdToValue r) < 256" by (simp add: route_of_facts unat_of_nat_small)
  then show ?thesis
    using assms by (simp add: CFE_SBR_IncrementSequenceCounter_def CFE_SBR_GetSequenceCounter_def
        set_route_entry_def route_entry_def)
qed

end
