(* ===== verification/Sbr_Properties.thy ===== *)
theory Sbr_Properties
  imports Sbr_Route
begin

section \<open>Properties of message routing\<close>

text \<open>
  The two message maps, the routing table on top of either, the sequence counters and the paged
  iteration.  Lookup results rest on the interpretations \<open>direct\<close> and \<open>hash\<close> of \<open>msg_map\<close>.
\<close>

text \<open>
  C19 (cfe_sbr_map_direct.c, cfe_sbr_map_hash.c): the two message maps are interchangeable.  After
  any sequence of subscriptions from the initial state both are defined (no probe loop of the hash
  map runs forever), and for every message ID, routed or not, valid or not, both give the same
  route ID, which is valid exactly for the message IDs routed.
\<close>

theorem msg_maps_equivalent:
  "\<exists>D H. ensure_routes CFE_SBR_SetRouteId_direct CFE_SBR_GetRouteId_direct ms
           (CFE_SBR_Init CFE_SBR_Init_Map_direct) = Some D
     \<and> ensure_routes CFE_SBR_SetRouteId_hash CFE_SBR_GetRouteId_hash ms
           (CFE_SBR_Init CFE_SBR_Init_Map_hash) = Some H
     \<and> (\<forall>m. CFE_SBR_GetRouteId CFE_SBR_GetRouteId_direct m D
              = CFE_SBR_GetRouteId CFE_SBR_GetRouteId_hash m H
          \<and> (\<exists>r. CFE_SBR_GetRouteId CFE_SBR_GetRouteId_hash m H = Some r
                 \<and> (CFE_SBR_IsValidRouteId r \<longleftrightarrow> m \<in> set (routed [] ms))))"
proof -
  obtain D where D: "ensure_routes CFE_SBR_SetRouteId_direct CFE_SBR_GetRouteId_direct ms
      (CFE_SBR_Init CFE_SBR_Init_Map_direct) = Some D" "sbr_ok direct_rep D (routed [] ms)"
    "\<forall>m. CFE_SBR_GetRouteId CFE_SBR_GetRouteId_direct m D = Some (lookup_route (routed [] ms) m)"
    using direct.ensured_lookup by blast
  obtain H where H: "ensure_routes CFE_SBR_SetRouteId_hash CFE_SBR_GetRouteId_hash ms
      (CFE_SBR_Init CFE_SBR_Init_Map_hash) = Some H"
    "\<forall>m. CFE_SBR_GetRouteId CFE_SBR_GetRouteId_hash m H = Some (lookup_route (routed [] ms) m)"
    using hash.ensured_lookup by blast
  from D H direct.lookup_valid [OF D(2)] show ?thesis by auto
qed

text \<open>
  (cfe_sbr_route_unsorted.c): routes are found again.  While the table is not full, every valid
  message ID that was subscribed to has a valid route, whose message ID is the one asked for, and
  different message IDs have different routes.
\<close>

lemma routes_found:
  assumes "length (routed [] ms) < 256" and "m \<in> set ms" and "CFE_SB_IsValidMsgId m"
    and "ensure_routes CFE_SBR_SetRouteId_hash CFE_SBR_GetRouteId_hash ms
           (CFE_SBR_Init CFE_SBR_Init_Map_hash) = Some S"
  shows "\<exists>r. CFE_SBR_GetRouteId CFE_SBR_GetRouteId_hash m S = Some r \<and> CFE_SBR_IsValidRouteId r
    \<and> CFE_SBR_GetMsgId S r = m
    \<and> (\<forall>m'. CFE_SBR_GetRouteId CFE_SBR_GetRouteId_hash m' S = Some r \<longrightarrow> m' = m)"
proof -
  let ?ids = "routed [] ms"
  have S: "sbr_ok hash_rep S ?ids"
    "\<forall>m. CFE_SBR_GetRouteId CFE_SBR_GetRouteId_hash m S = Some (lookup_route ?ids m)"
    "\<forall>m \<in> set ?ids. CFE_SBR_GetMsgId S (lookup_route ?ids m) = m"
    using hash.ensured_lookup [of ms] assms(4) by auto
  have m: "m \<in> set ?ids" by (rule routed_complete) (fact assms)+
  then have v: "CFE_SBR_IsValidRouteId (lookup_route ?ids m)" using hash.lookup_valid [OF S(1)] by simp
  have "m' = m" if "lookup_route ?ids m' = lookup_route ?ids m" for m'
  proof -
    have "m' \<in> set ?ids" using that v hash.lookup_valid [OF S(1), of m'] by simp
    with that m S(3) show ?thesis by metis
  qed
  with S v m show ?thesis by auto
qed

lemma routes_found_witness:
  "\<exists>S r. ensure_routes CFE_SBR_SetRouteId_hash CFE_SBR_GetRouteId_hash [0x1806, 0x0801, 0x1806]
           (CFE_SBR_Init CFE_SBR_Init_Map_hash) = Some S
     \<and> CFE_SBR_GetRouteId CFE_SBR_GetRouteId_hash 0x0801 S = Some r \<and> CFE_SBR_IsValidRouteId r"
proof -
  let ?ms = "[0x1806, 0x0801, 0x1806] :: CFE_SB_MsgId list"
  have v: "CFE_SB_IsValidMsgId 0x0801" "CFE_SB_IsValidMsgId 0x1806"
    by (simp_all add: CFE_SB_IsValidMsgId_def CFE_SB_INVALID_MSG_ID_def
        CFE_PLATFORM_SB_HIGHEST_VALID_MSGID_def)
  have len: "length (routed [] ?ms) < 256" using v by simp
  obtain S where S: "ensure_routes CFE_SBR_SetRouteId_hash CFE_SBR_GetRouteId_hash ?ms
      (CFE_SBR_Init CFE_SBR_Init_Map_hash) = Some S" using hash.ensured_lookup by blast
  from routes_found [OF len _ v(1) S] S show ?thesis by auto
qed

text \<open>
  (\<open>CFE_SBR_AddRoute\<close>): adding a route for a new valid message ID to a table of fewer than 256
  routes succeeds with a new route, after at most as many collisions as there are routes, and leaves
  the route of every other message ID, the destination lists and the sequence counters as they
  were; a full table refuses the route and nothing changes.
\<close>

theorem add_route_result:
  assumes "sbr_ok hash_rep S ids" and "CFE_SB_IsValidMsgId m" and "m \<notin> set ids"
  shows "if length ids < 256
    then \<exists>c S'. CFE_SBR_AddRoute CFE_SBR_SetRouteId_hash m S = Some (route_of (length ids), c, S')
      \<and> unat c \<le> length ids \<and> sbr_ok hash_rep S' (ids @ [m])
      \<and> CFE_SBR_GetRouteId CFE_SBR_GetRouteId_hash m S' = Some (route_of (length ids))
      \<and> (\<forall>x. x \<noteq> m \<longrightarrow> CFE_SBR_GetRouteId CFE_SBR_GetRouteId_hash x S'
                        = CFE_SBR_GetRouteId CFE_SBR_GetRouteId_hash x S)
      \<and> (\<forall>r. CFE_SBR_GetDestListHeadPtr S' r = CFE_SBR_GetDestListHeadPtr S r
             \<and> CFE_SBR_GetSequenceCounter S' r = CFE_SBR_GetSequenceCounter S r)
    else CFE_SBR_AddRoute CFE_SBR_SetRouteId_hash m S = Some (CFE_SBR_INVALID_ROUTE_ID, 0, S)"
proof (cases "length ids < 256")
  case True
  obtain c S' where S': "CFE_SBR_AddRoute CFE_SBR_SetRouteId_hash m S = Some (route_of (length ids), c, S')"
    "sbr_ok hash_rep S' (ids @ [m])" "unat c \<le> length ids"
    "\<And>i. ListHeadPtr (RoutingTbl S' ! i) = ListHeadPtr (RoutingTbl S ! i)"
    "\<And>i. RouteSeqCnt (RoutingTbl S' ! i) = RouteSeqCnt (RoutingTbl S ! i)"
    by (rule hash.add_ok [OF assms True]) (rule that; assumption)
  have "\<forall>x. CFE_SBR_GetRouteId CFE_SBR_GetRouteId_hash x S' = Some (lookup_route (ids @ [m]) x)"
    "\<forall>x. CFE_SBR_GetRouteId CFE_SBR_GetRouteId_hash x S = Some (lookup_route ids x)"
    using hash.get_ok [OF S'(2)] hash.get_ok [OF assms(1)] by simp_all
  moreover have "\<forall>r. CFE_SBR_GetDestListHeadPtr S' r = CFE_SBR_GetDestListHeadPtr S r
             \<and> CFE_SBR_GetSequenceCounter S' r = CFE_SBR_GetSequenceCounter S r"
    by (simp add: CFE_SBR_GetDestListHeadPtr_def CFE_SBR_GetSequenceCounter_def route_entry_def S'(4,5))
  ultimately show ?thesis using True S'(1-3) assms(3) by (simp add: lookup_route_snoc)
next
  case False
  then have "length ids = 256" using hash.ok_length [OF assms(1)] by simp
  then show ?thesis using hash.add_full [OF assms(1)] by simp
qed

theorem add_route_result_witness:
  "\<exists>c S'. CFE_SBR_AddRoute CFE_SBR_SetRouteId_hash 0x1806 (CFE_SBR_Init CFE_SBR_Init_Map_hash)
     = Some (route_of 0, c, S') \<and> unat c = 0"
proof -
  have "CFE_SB_IsValidMsgId 0x1806"
    by (simp add: CFE_SB_IsValidMsgId_def CFE_SB_INVALID_MSG_ID_def
        CFE_PLATFORM_SB_HIGHEST_VALID_MSGID_def)
  from add_route_result [OF hash.init_ok this] show ?thesis by auto
qed

text \<open>
  (\<open>CFE_SBR_IncrementSequenceCounter\<close>): n increments move the counter of a route forward by n
  modulo 2 to the power 14, so that it is always a valid CCSDS sequence count, and leave the
  counter of every other route alone.
\<close>

theorem sequence_counter_cycle:
  assumes "CFE_SBR_IsValidRouteId r" and "length (RoutingTbl S) = 256"
    and "unat (CFE_SBR_GetSequenceCounter S r) < 2 ^ 14"
  shows "unat (CFE_SBR_GetSequenceCounter ((CFE_SBR_IncrementSequenceCounter r ^^ n) S) r)
      = (unat (CFE_SBR_GetSequenceCounter S r) + n) mod 2 ^ 14
    \<and> (\<forall>q. q \<noteq> r \<longrightarrow> CFE_SBR_GetSequenceCounter ((CFE_SBR_IncrementSequenceCounter r ^^ n) S) q
             = CFE_SBR_GetSequenceCounter S q)"
proof (induction n)
  case 0
  then show ?case using assms(3) by simp
next
  case (Suc n)
  let ?S = "(CFE_SBR_IncrementSequenceCounter r ^^ n) S"
  have len: "length (RoutingTbl ?S) = 256"
  proof (induction n)
    case 0
    then show ?case using assms(2) by simp
  next
    case (Suc n)
    then show ?case by (simp add: seqcnt_length)
  qed
  have lt: "unat (CFE_SBR_GetSequenceCounter ?S r) < 2 ^ 14" using Suc.IH by simp
  have "unat (CFE_SBR_GetSequenceCounter (CFE_SBR_IncrementSequenceCounter r ?S) r)
      = (unat (CFE_SBR_GetSequenceCounter ?S r) + 1) mod 2 ^ 14"
    using seqcnt_own [OF assms(1) len] next_seqcnt [OF lt] by simp
  also have "\<dots> = (unat (CFE_SBR_GetSequenceCounter S r) + Suc n) mod 2 ^ 14"
    using Suc.IH by (simp add: mod_simps)
  finally have own: "unat (CFE_SBR_GetSequenceCounter (CFE_SBR_IncrementSequenceCounter r ?S) r)
      = (unat (CFE_SBR_GetSequenceCounter S r) + Suc n) mod 2 ^ 14" .
  have "CFE_SBR_GetSequenceCounter (CFE_SBR_IncrementSequenceCounter r ?S) q
      = CFE_SBR_GetSequenceCounter ?S q" if "q \<noteq> r" for q
    using that seqcnt_other [OF assms(1), of q ?S] by (auto simp: CFE_SBR_GetSequenceCounter_def)
  with own Suc.IH show ?case by simp
qed

theorem sequence_counter_cycle_witness:
  "unat (CFE_SBR_GetSequenceCounter ((CFE_SBR_IncrementSequenceCounter 1 ^^ 16385)
      (CFE_SBR_Init CFE_SBR_Init_Map_direct)) 1) = 1"
proof -
  have r: "CFE_SBR_IsValidRouteId 1"
    by (simp add: CFE_SBR_IsValidRouteId_def CFE_PLATFORM_SB_MAX_MSG_IDS_def)
  have z: "CFE_SBR_GetSequenceCounter (CFE_SBR_Init CFE_SBR_Init_Map_direct) 1 = 0"
    by (simp add: CFE_SBR_GetSequenceCounter_def CFE_SBR_Init_def route_entry_def
        CFE_SBR_RouteIdToValue_def CFE_PLATFORM_SB_MAX_MSG_IDS_def)
  have len: "length (RoutingTbl (CFE_SBR_Init CFE_SBR_Init_Map_direct)) = 256"
    by (simp add: CFE_SBR_Init_def CFE_PLATFORM_SB_MAX_MSG_IDS_def)
  show ?thesis using sequence_counter_cycle [OF r len, of 16385] z by simp
qed

text \<open>
  C20 (\<open>CFE_SBR_ForEachRouteId\<close>): the throttle splits the iteration into pages without loss.
  Running one page and then an unbounded page from the returned \<open>NextIndex\<close>, or stopping when it is
  0, has the effect of the whole iteration; a page that is not the last makes progress and calls
  back exactly \<open>MaxLoop\<close> routes.
\<close>

theorem foreach_pages:
  fixes t :: Throttle and st :: 's and cb :: "CFE_SBR_RouteId \<Rightarrow> 's \<Rightarrow> 's" and top :: uint16
  defines "page \<equiv> CFE_SBR_ForEachRouteId cb (Some t) top st"
    and "rest n s \<equiv> CFE_SBR_ForEachRouteId cb (Some \<lparr>StartIndex = n, MaxLoop = 0x10000, NextIndex = 0\<rparr>) top s"
  assumes "unat (StartIndex t) \<le> unat top" and "0 < unat (MaxLoop t)" and "unat (MaxLoop t) < 2 ^ 31"
  shows "\<exists>t'. snd page = Some t'
    \<and> fst (rest (StartIndex t) st)
        = (if NextIndex t' = 0 then fst page else fst (rest (NextIndex t') (fst page)))
    \<and> (NextIndex t' \<noteq> 0 \<longrightarrow> unat (NextIndex t') = unat (StartIndex t) + unat (MaxLoop t)
         \<and> unat (NextIndex t') < unat top)"
proof -
  let ?s = "unat (StartIndex t)"
  let ?f = "\<lambda>i. cb (CFE_SBR_ValueToRouteId (of_nat i))"
  have "unat top < 2 ^ LENGTH(16)" by (rule unsigned_less)
  then have top: "unat top < 2 ^ 16" by simp
  have uc: "unat (ucast x :: uint16) = unat x" if "unat x < 2 ^ 16" for x :: uint32
    using that by (simp add: unsigned_ucast_eq take_bit_nat_eq_self)
  have ux: "unat (ucast x :: uint32) = unat x" for x :: uint16
    by (simp add: unat_ucast_up)
  have r: "fst (rest n s) = fold ?f [unat n ..< unat top] s" if "unat n \<le> unat top" for n s
  proof -
    have "unat (ucast (ucast n :: uint16) + 0x10000 :: uint32) = unat n + 0x10000"
      using that top by (subst unat_plus_small) (simp_all add: uc ux)
    then have "\<not> ucast (ucast n :: uint16) + 0x10000 < (ucast top :: uint32)"
      using top by (simp add: word_less_nat_alt ux)
    then show ?thesis using that top by (simp add: rest_def CFE_SBR_ForEachRouteId_def uc Let_def)
  qed
  have sum: "unat (ucast (ucast (StartIndex t) :: uint16) + MaxLoop t :: uint32) = ?s + unat (MaxLoop t)"
    using assms(3,5) top by (subst unat_plus_small) (simp_all add: uc ux)
  show ?thesis
  proof (cases "?s + unat (MaxLoop t) < unat top")
    case True
    let ?e = "ucast (ucast (ucast (StartIndex t) :: uint16) + MaxLoop t :: uint32) :: uint16"
    have e: "unat ?e = ?s + unat (MaxLoop t)" using True top sum by (simp add: uc)
    have lt: "ucast (ucast (StartIndex t) :: uint16) + MaxLoop t < (ucast top :: uint32)"
      using True by (simp add: word_less_nat_alt sum ux)
    have pg: "page = (fold ?f [?s ..< ?s + unat (MaxLoop t)] st, Some (t\<lparr>NextIndex := ucast ?e\<rparr>))"
      using lt assms(3) top e by (simp add: page_def CFE_SBR_ForEachRouteId_def Let_def uc)
    have n: "unat (ucast ?e :: uint32) = ?s + unat (MaxLoop t)" using e by (simp only: ux)
    then have n0: "(ucast ?e :: uint32) \<noteq> 0" using assms(4) by (metis add_gr_0 less_numeral_extra(3) unat_0)
    have "fold ?f [?s ..< unat top] st
        = fold ?f [?s + unat (MaxLoop t) ..< unat top] (fold ?f [?s ..< ?s + unat (MaxLoop t)] st)"
      using True upt_add_eq_append [of ?s "?s + unat (MaxLoop t)" "unat top - (?s + unat (MaxLoop t))"]
      by simp
    with pg n n0 True show ?thesis
      using r [OF assms(3)] r [of "ucast ?e"] by simp
  next
    case False
    then have lt: "\<not> ucast (ucast (StartIndex t) :: uint16) + MaxLoop t < (ucast top :: uint32)"
      by (simp add: word_less_nat_alt sum ux)
    then have "page = (fold ?f [?s ..< unat top] st, Some (t\<lparr>NextIndex := 0\<rparr>))"
      using assms(3) top by (simp add: page_def CFE_SBR_ForEachRouteId_def Let_def uc)
    with r [OF assms(3)] show ?thesis by simp
  qed
qed

theorem foreach_pages_witness:
  "snd (CFE_SBR_ForEachRouteId (\<lambda>r xs. xs @ [r]) (Some \<lparr>StartIndex = 0, MaxLoop = 2, NextIndex = 7\<rparr>) 5 [])
     = Some \<lparr>StartIndex = 0, MaxLoop = 2, NextIndex = 2\<rparr>
   \<and> fst (CFE_SBR_ForEachRouteId (\<lambda>r xs. xs @ [r]) (Some \<lparr>StartIndex = 2, MaxLoop = 0x10000, NextIndex = 0\<rparr>)
       5 [1, 2]) = [1, 2, 3, 4, 5]"
proof -
  let ?cb = "\<lambda>r xs. xs @ [r :: CFE_SBR_RouteId]" and ?t = "\<lparr>StartIndex = 0, MaxLoop = 2, NextIndex = 7\<rparr>"
  have p: "CFE_SBR_ForEachRouteId ?cb (Some ?t) 5 []
      = ([1, 2], Some \<lparr>StartIndex = 0, MaxLoop = 2, NextIndex = 2\<rparr>)" by code_simp
  have w: "fst (CFE_SBR_ForEachRouteId ?cb (Some \<lparr>StartIndex = 0, MaxLoop = 0x10000, NextIndex = 0\<rparr>) 5 [])
      = [1, 2, 3, 4, 5]" by code_simp
  show ?thesis using foreach_pages [where cb = ?cb and t = ?t and top = 5 and st = "[]"] p w by auto
qed

end
