(* ===== verification/Tracking_List.thy ===== *)
theory Tracking_List
  imports Prelude
begin

section \<open>Buffer tracking lists (cfe/modules/sb, cfe_sb_buf.c)\<close>

text \<open>
  The software bus keeps its buffers on circular doubly linked lists: the list of buffers in
  transit and the list of buffers given to applications for zero copy.  A link is the head of one
  of the two lists or the first member of the buffer descriptor at an address; the store of links
  maps each to its two pointers.  The operations are the assignments of the code in order.
\<close>

datatype link_ref = InTransitList | ZeroCopyList | BufLink size_t

record BufferLink =
  Next :: link_ref
  Prev :: link_ref

type_synonym links = "link_ref \<Rightarrow> BufferLink"

definition CFE_SB_TrackingListReset :: "link_ref \<Rightarrow> links \<Rightarrow> links" where
  "CFE_SB_TrackingListReset Link L =
     (let L1 = L(Link := (L Link)\<lparr>Prev := Link\<rparr>) in L1(Link := (L1 Link)\<lparr>Next := Link\<rparr>))"

definition CFE_SB_TrackingListRemove :: "link_ref \<Rightarrow> links \<Rightarrow> links" where
  "CFE_SB_TrackingListRemove Node L =
     (let p = Prev (L Node);
          L1 = L(p := (L p)\<lparr>Next := Next (L Node)\<rparr>);
          n = Next (L1 Node);
          L2 = L1(n := (L1 n)\<lparr>Prev := Prev (L1 Node)\<rparr>)
      in CFE_SB_TrackingListReset Node L2)"

definition CFE_SB_TrackingListAdd :: "link_ref \<Rightarrow> link_ref \<Rightarrow> links \<Rightarrow> links" where
  "CFE_SB_TrackingListAdd List Node L =
     (let L1 = L(Node := (L Node)\<lparr>Prev := Prev (L List)\<rparr>);
          L2 = L1(Node := (L1 Node)\<lparr>Next := List\<rparr>);
          p = Prev (L2 Node);
          L3 = L2(p := (L2 p)\<lparr>Next := Node\<rparr>);
          n = Next (L3 Node)
      in L3(n := (L3 n)\<lparr>Prev := Node\<rparr>))"

definition CFE_SB_TrackingListGetNext :: "link_ref \<Rightarrow> links \<Rightarrow> link_ref" where
  "CFE_SB_TrackingListGetNext Node L = Next (L Node)"

definition CFE_SB_TrackingListIsEnd :: "link_ref \<Rightarrow> link_ref \<Rightarrow> bool" where
  "CFE_SB_TrackingListIsEnd List Node \<longleftrightarrow> Node = List"

subsection \<open>The list a ring of links stands for\<close>

fun seg :: "links \<Rightarrow> link_ref \<Rightarrow> link_ref list \<Rightarrow> link_ref \<Rightarrow> bool" where
  "seg L a [] b \<longleftrightarrow> Next (L a) = b \<and> Prev (L b) = a"
| "seg L a (x # xs) b \<longleftrightarrow> Next (L a) = x \<and> Prev (L x) = a \<and> seg L x xs b"

definition ring :: "links \<Rightarrow> link_ref \<Rightarrow> link_ref list \<Rightarrow> bool" where
  "ring L h xs \<longleftrightarrow> distinct (h # xs) \<and> seg L h xs h"

lemma seg_append: "seg L a (xs @ y # ys) b \<longleftrightarrow> seg L a xs y \<and> seg L y ys b"
  by (induction xs arbitrary: a) auto

lemma seg_snoc: "seg L a (xs @ [y]) b \<longleftrightarrow> seg L a xs y \<and> Next (L y) = b \<and> Prev (L b) = y"
  by (simp add: seg_append)

lemma seg_cong:
  "(\<forall>x \<in> set (a # xs). Next (L x) = Next (L' x)) \<Longrightarrow> (\<forall>x \<in> set (xs @ [b]). Prev (L x) = Prev (L' x))
     \<Longrightarrow> seg L a xs b \<longleftrightarrow> seg L' a xs b"
  by (induction xs arbitrary: a) auto

lemma ring_cong: "(\<forall>x \<in> set (h # xs). L x = L' x) \<Longrightarrow> ring L h xs \<longleftrightarrow> ring L' h xs"
  unfolding ring_def by (subst seg_cong [of h xs L L' h]) auto

lemma ring_reset: "ring (CFE_SB_TrackingListReset h L) h []"
  by (simp add: ring_def CFE_SB_TrackingListReset_def Let_def)

lemma reset_other: "x \<noteq> h \<Longrightarrow> CFE_SB_TrackingListReset h L x = L x"
  by (simp add: CFE_SB_TrackingListReset_def Let_def)

lemma ring_last:
  "ring L h xs \<Longrightarrow> Prev (L h) = last (h # xs)"
  by (cases xs rule: rev_cases) (auto simp: ring_def seg_snoc)

lemma ring_first:
  "ring L h xs \<Longrightarrow> Next (L h) = hd (xs @ [h])"
  by (cases xs) (auto simp: ring_def)

lemma ring_add:
  assumes "ring L h xs" and "n \<notin> set (h # xs)"
  shows "ring (CFE_SB_TrackingListAdd h n L) h (xs @ [n])"
    and "x \<notin> set (n # h # xs) \<Longrightarrow> CFE_SB_TrackingListAdd h n L x = L x"
proof -
  have p: "Prev (L h) = last (h # xs)" by (rule ring_last [OF assms(1)])
  let ?p = "last (h # xs)"
  have pn: "?p \<noteq> n" using assms(2) by auto
  have eq: "CFE_SB_TrackingListAdd h n L
      = (L(n := \<lparr>Next = h, Prev = ?p\<rparr>, ?p := (L ?p)\<lparr>Next := n\<rparr>))
          (h := ((L(?p := (L ?p)\<lparr>Next := n\<rparr>)) h)\<lparr>Prev := n\<rparr>)"
    using assms(2) p pn by (auto simp: CFE_SB_TrackingListAdd_def Let_def fun_eq_iff)
  show "CFE_SB_TrackingListAdd h n L x = L x" if "x \<notin> set (n # h # xs)"
    using that by (auto simp: eq)
  show "ring (CFE_SB_TrackingListAdd h n L) h (xs @ [n])"
  proof (cases xs rule: rev_cases)
    case Nil
    then show ?thesis using assms by (simp add: ring_def eq)
  next
    case (snoc ys y)
    have s: "seg L h ys y" using assms(1) by (simp add: ring_def snoc seg_snoc)
    have "seg (CFE_SB_TrackingListAdd h n L) h ys y"
      using s assms by (subst seg_cong [of h ys _ L]) (auto simp: eq snoc ring_def)
    then show ?thesis using assms by (auto simp: ring_def snoc seg_append eq)
  qed
qed

lemma ring_remove:
  assumes "ring L h xs" and "n \<in> set xs"
  shows "ring (CFE_SB_TrackingListRemove n L) h (remove1 n xs)"
    and "ring (CFE_SB_TrackingListRemove n L) n []"
    and "x \<notin> set (h # xs) \<Longrightarrow> CFE_SB_TrackingListRemove n L x = L x"
proof -
  obtain as bs where xs: "xs = as @ n # bs" using assms(2) by (meson split_list)
  have d: "distinct (h # as @ n # bs)" and s: "seg L h as n" "seg L n bs h"
    using assms(1) by (simp_all add: ring_def xs seg_append)
  let ?p = "last (h # as)" and ?q = "hd (bs @ [h])"
  have p: "Prev (L n) = ?p" using s(1) by (cases as rule: rev_cases) (auto simp: seg_snoc)
  have q: "Next (L n) = ?q" using s(2) by (cases bs) auto
  have ne: "?p \<noteq> n" "?q \<noteq> n" using d by (auto simp: hd_append split: if_splits)
  have eq: "CFE_SB_TrackingListRemove n L
      = (L(?p := (L ?p)\<lparr>Next := ?q\<rparr>))
          (?q := ((L(?p := (L ?p)\<lparr>Next := ?q\<rparr>)) ?q)\<lparr>Prev := ?p\<rparr>, n := \<lparr>Next = n, Prev = n\<rparr>)"
    using p q ne
    by (auto simp: CFE_SB_TrackingListRemove_def CFE_SB_TrackingListReset_def Let_def fun_eq_iff)
  show "ring (CFE_SB_TrackingListRemove n L) n []" by (simp add: ring_def eq)
  show "CFE_SB_TrackingListRemove n L x = L x" if "x \<notin> set (h # xs)"
  proof -
    have "?p \<in> set (h # xs)" using last_in_set [of "h # as"] by (auto simp: xs)
    moreover have "?q \<in> set (h # xs)" by (cases bs) (simp_all add: xs)
    ultimately show ?thesis using that assms(2) by (auto simp: eq)
  qed
  have r: "remove1 n xs = as @ bs" using d by (simp add: xs remove1_append)
  let ?L = "CFE_SB_TrackingListRemove n L"
  have "seg ?L h (as @ bs) h"
  proof (cases bs)
    case Nil
    show ?thesis
    proof (cases as rule: rev_cases)
      case Nil
      then show ?thesis using \<open>bs = []\<close> d by (simp add: eq)
    next
      case (snoc ys y)
      have "seg ?L h ys y"
        using s(1) d by (subst seg_cong [of h ys _ L]) (auto simp: eq snoc \<open>bs = []\<close> seg_snoc)
      then show ?thesis using d by (auto simp: snoc \<open>bs = []\<close> seg_snoc eq)
    qed
  next
    case (Cons z zs)
    have "?p \<notin> set (z # zs)" using d by (cases as rule: rev_cases) (auto simp: Cons)
    then have tail: "seg ?L z zs h"
      using s(2) d by (subst seg_cong [of z zs _ L]) (auto simp: eq Cons)
    show ?thesis
    proof (cases as rule: rev_cases)
      case Nil
      then show ?thesis using tail d by (auto simp: Cons eq)
    next
      case (snoc ys y)
      have "seg ?L h ys y"
        using s(1) d by (subst seg_cong [of h ys _ L]) (auto simp: eq snoc Cons seg_snoc)
      then show ?thesis using tail d by (auto simp: snoc Cons seg_append eq)
    qed
  qed
  then show "ring ?L h (remove1 n xs)" using d by (simp add: ring_def r)
qed

lemma remove_singleton: "ring L n [] \<Longrightarrow> CFE_SB_TrackingListRemove n L = L"
  by (auto simp: ring_def CFE_SB_TrackingListRemove_def CFE_SB_TrackingListReset_def Let_def
      fun_eq_iff)

lemma ring_remove_other:
  assumes "ring L h xs" "n \<in> set xs" "ring L g ys" "set (h # xs) \<inter> set (g # ys) = {}"
  shows "ring (CFE_SB_TrackingListRemove n L) g ys"
proof -
  have "CFE_SB_TrackingListRemove n L x = L x" if "x \<in> set (g # ys)" for x
    using that assms(4) by (intro ring_remove(3) [OF assms(1,2)]) blast
  then show ?thesis using assms(3) by (subst ring_cong [of g ys _ L]) auto
qed

lemma ring_add_other:
  assumes "ring L h xs" "n \<notin> set (h # xs)" "ring L g ys" "set (n # h # xs) \<inter> set (g # ys) = {}"
  shows "ring (CFE_SB_TrackingListAdd h n L) g ys"
proof -
  have "CFE_SB_TrackingListAdd h n L x = L x" if "x \<in> set (g # ys)" for x
    using that assms(4) by (intro ring_add(2) [OF assms(1,2)]) blast
  then show ?thesis using assms(3) by (subst ring_cong [of g ys _ L]) auto
qed

end
