(* ===== verification/Dest_List.thy ===== *)
theory Dest_List
  imports Sbr_Route Resource_Id
begin

section \<open>Destination lists (cfe/modules/sb, cfe_sb_priv.c)\<close>

text \<open>
  The subscribers of a route are a doubly linked list of destination descriptors that ends in
  \<open>NULL\<close> on both sides; the routing table holds its head.  Descriptors live at addresses in the
  memory pool of the software bus, here a map from addresses; \<open>NULL\<close> is the address 0.  Walking the
  list is \<open>None\<close> when it would never end.
\<close>

type_synonym CFE_SB_PipeId = CFE_ResourceId

record DestinationD =
  DD_PipeId :: CFE_SB_PipeId
  DD_Active :: uint8
  DD_MsgId2PipeLim :: uint16
  DD_BuffCount :: uint16
  DD_DestCnt :: uint16
  DD_Scope :: uint8
  DD_Prev :: size_t
  DD_Next :: size_t

type_synonym dests = "size_t \<Rightarrow> DestinationD"

definition CFE_SB_ACTIVE :: uint8 where "CFE_SB_ACTIVE = 1"
definition CFE_SB_INACTIVE :: uint8 where "CFE_SB_INACTIVE = 0"

partial_function (option) find_dest :: "dests \<Rightarrow> size_t \<Rightarrow> CFE_SB_PipeId \<Rightarrow> size_t option" where
  "find_dest D destptr PipeId =
     (if destptr = 0 then Some 0
      else if DD_PipeId (D destptr) = PipeId then Some destptr
      else find_dest D (DD_Next (D destptr)) PipeId)"

declare find_dest.simps [code]

definition CFE_SB_GetDestPtr ::
  "CFE_SBR_RouteId \<Rightarrow> CFE_SB_PipeId \<Rightarrow> dests \<Rightarrow> 'm sbr_data \<Rightarrow> size_t option" where
  "CFE_SB_GetDestPtr RouteId PipeId D R =
     find_dest D (CFE_SBR_GetDestListHeadPtr R RouteId) PipeId"

definition CFE_SB_AddDestNode ::
  "CFE_SBR_RouteId \<Rightarrow> size_t \<Rightarrow> dests \<Rightarrow> 'm sbr_data \<Rightarrow> dests \<times> 'm sbr_data" where
  "CFE_SB_AddDestNode RouteId NewNode D R =
     (let listheadptr = CFE_SBR_GetDestListHeadPtr R RouteId;
          D' = (if listheadptr = 0
                then D(NewNode := (D NewNode)\<lparr>DD_Next := 0, DD_Prev := 0\<rparr>)
                else let D1 = D(NewNode := (D NewNode)\<lparr>DD_Next := listheadptr, DD_Prev := 0\<rparr>)
                  in D1(listheadptr := (D1 listheadptr)\<lparr>DD_Prev := NewNode\<rparr>))
      in (D', CFE_SBR_SetDestListHeadPtr RouteId NewNode R))"

definition CFE_SB_RemoveDestNode ::
  "CFE_SBR_RouteId \<Rightarrow> size_t \<Rightarrow> dests \<Rightarrow> 'm sbr_data \<Rightarrow> dests \<times> 'm sbr_data" where
  "CFE_SB_RemoveDestNode RouteId NodeToRemove D R =
     (let p = DD_Prev (D NodeToRemove); n = DD_Next (D NodeToRemove);
          (D1, R1) =
            (if p = 0 \<and> n = 0 then (D, CFE_SBR_SetDestListHeadPtr RouteId 0 R)
             else if p = 0 then (D(n := (D n)\<lparr>DD_Prev := 0\<rparr>), CFE_SBR_SetDestListHeadPtr RouteId n R)
             else if n = 0 then (D(p := (D p)\<lparr>DD_Next := 0\<rparr>), R)
             else let D' = D(p := (D p)\<lparr>DD_Next := n\<rparr>) in (D'(n := (D' n)\<lparr>DD_Prev := p\<rparr>), R))
      in (D1(NodeToRemove := (D1 NodeToRemove)\<lparr>DD_Next := 0, DD_Prev := 0\<rparr>), R1))"

subsection \<open>The list the nodes stand for\<close>

text \<open>A segment that is entered at \<open>p\<close> from the node \<open>prev\<close> and left at \<open>e\<close>.\<close>

fun dseg :: "dests \<Rightarrow> size_t \<Rightarrow> size_t \<Rightarrow> size_t list \<Rightarrow> size_t \<Rightarrow> bool" where
  "dseg D prev p [] e \<longleftrightarrow> p = e"
| "dseg D prev p (x # xs) e \<longleftrightarrow>
     p = x \<and> x \<noteq> 0 \<and> DD_Prev (D x) = prev \<and> dseg D x (DD_Next (D x)) xs e"

definition route_dests :: "dests \<Rightarrow> 'm sbr_data \<Rightarrow> CFE_SBR_RouteId \<Rightarrow> size_t list \<Rightarrow> bool" where
  "route_dests D R r xs \<longleftrightarrow> distinct xs \<and> dseg D 0 (CFE_SBR_GetDestListHeadPtr R r) xs 0"

text \<open>Two stores that differ in the links only.\<close>

definition same_payload :: "dests \<Rightarrow> dests \<Rightarrow> bool" where
  "same_payload D D' \<longleftrightarrow>
     (\<forall>x. (D' x)\<lparr>DD_Next := 0, DD_Prev := 0\<rparr> = (D x)\<lparr>DD_Next := 0, DD_Prev := 0\<rparr>)"

lemma same_payloadD:
  assumes "same_payload D D'"
  shows "DD_PipeId (D' x) = DD_PipeId (D x)" "DD_Active (D' x) = DD_Active (D x)"
    "DD_MsgId2PipeLim (D' x) = DD_MsgId2PipeLim (D x)" "DD_BuffCount (D' x) = DD_BuffCount (D x)"
    "DD_DestCnt (D' x) = DD_DestCnt (D x)" "DD_Scope (D' x) = DD_Scope (D x)"
  using assms unfolding same_payload_def by (metis DestinationD.ext_inject DestinationD.surjective
      DestinationD.update_convs(7,8))+

lemma dseg_cong:
  "(\<forall>x \<in> set xs. DD_Prev (D x) = DD_Prev (D' x) \<and> DD_Next (D x) = DD_Next (D' x))
     \<Longrightarrow> dseg D prev p xs e \<longleftrightarrow> dseg D' prev p xs e"
  by (induction xs arbitrary: prev p) auto

lemma dseg_append:
  "dseg D prev p (xs @ ys) e \<longleftrightarrow> (\<exists>q. dseg D prev p xs q \<and> dseg D (last (prev # xs)) q ys e)"
  by (induction xs arbitrary: prev p) auto

lemma dseg_nonzero: "dseg D prev p xs e \<Longrightarrow> 0 \<notin> set xs"
  by (induction xs arbitrary: prev p) auto

lemma dseg_unique: "dseg D prev p xs 0 \<Longrightarrow> dseg D prev' p ys 0 \<Longrightarrow> xs = ys"
proof (induction xs arbitrary: prev prev' p ys)
  case Nil
  then show ?case by (cases ys) auto
next
  case (Cons x xs)
  then show ?case by (cases ys) auto
qed

lemma find_dest_list:
  "dseg D prev p xs 0
     \<Longrightarrow> find_dest D p q = Some (case List.find (\<lambda>x. DD_PipeId (D x) = q) xs of None \<Rightarrow> 0 | Some x \<Rightarrow> x)"
proof (induction xs arbitrary: prev p)
  case Nil
  then show ?case by (subst find_dest.simps) simp
next
  case (Cons x xs)
  then have "find_dest D (DD_Next (D x)) q
      = Some (case List.find (\<lambda>x. DD_PipeId (D x) = q) xs of None \<Rightarrow> 0 | Some x \<Rightarrow> x)" by auto
  with Cons.prems show ?case by (subst find_dest.simps) simp
qed

lemma GetDestPtr_list:
  "route_dests D R r xs \<Longrightarrow> CFE_SB_GetDestPtr r q D R
     = Some (case List.find (\<lambda>x. DD_PipeId (D x) = q) xs of None \<Rightarrow> 0 | Some x \<Rightarrow> x)"
  unfolding route_dests_def CFE_SB_GetDestPtr_def using find_dest_list by blast

subsection \<open>Heads of the lists in the routing table\<close>

lemma head_set:
  assumes "CFE_SBR_IsValidRouteId r" "length (RoutingTbl R) = 256"
  shows "CFE_SBR_GetDestListHeadPtr (CFE_SBR_SetDestListHeadPtr r h R) q
    = (if q = r then h else CFE_SBR_GetDestListHeadPtr R q)"
proof -
  obtain i where i: "i < 256" "r = route_of i" using valid_route_range [OF assms(1)] by blast
  have iv: "unat (CFE_SBR_RouteIdToValue r) = i" using i by (simp add: route_of_facts unat_of_nat_small)
  show ?thesis
  proof (cases "CFE_SBR_IsValidRouteId q")
    case True
    obtain j where j: "j < 256" "q = route_of j" using valid_route_range [OF True] by blast
    have jv: "unat (CFE_SBR_RouteIdToValue q) = j" using j by (simp add: route_of_facts unat_of_nat_small)
    have "q = r \<longleftrightarrow> i = j" using i j iv jv by auto
    then show ?thesis
      using True assms i iv jv by (simp add: CFE_SBR_GetDestListHeadPtr_def
          CFE_SBR_SetDestListHeadPtr_def route_entry_def set_route_entry_def nth_list_update)
  next
    case False
    with assms(1) show ?thesis by (auto simp: CFE_SBR_GetDestListHeadPtr_def)
  qed
qed

lemma head_set_frame [simp]:
  "length (RoutingTbl (CFE_SBR_SetDestListHeadPtr r h R)) = length (RoutingTbl R)"
  "MsgMap (CFE_SBR_SetDestListHeadPtr r h R) = MsgMap R"
  "RouteIdxTop (CFE_SBR_SetDestListHeadPtr r h R) = RouteIdxTop R"
  by (simp_all add: CFE_SBR_SetDestListHeadPtr_def set_route_entry_def)

lemma head_set_ids [simp]:
  "RouteMsgId (RoutingTbl (CFE_SBR_SetDestListHeadPtr r h R) ! i) = RouteMsgId (RoutingTbl R ! i)"
  by (cases "i = unat (CFE_SBR_RouteIdToValue r)"; cases "i < length (RoutingTbl R)")
    (auto simp: CFE_SBR_SetDestListHeadPtr_def set_route_entry_def route_entry_def nth_list_update
      list_update_beyond not_less)

subsection \<open>Adding and removing a node\<close>

lemma add_dest:
  assumes r: "CFE_SBR_IsValidRouteId r" "length (RoutingTbl R) = 256"
    and l: "route_dests D R r xs" and n: "n \<noteq> 0" "n \<notin> set xs"
    and add: "CFE_SB_AddDestNode r n D R = (D', R')"
  shows "route_dests D' R' r (n # xs)" "same_payload D D'"
    "x \<notin> set (n # xs) \<Longrightarrow> D' x = D x" "R' = CFE_SBR_SetDestListHeadPtr r n R"
proof -
  let ?h = "CFE_SBR_GetDestListHeadPtr R r"
  have s: "dseg D 0 ?h xs 0" "distinct xs" using l by (simp_all add: route_dests_def)
  show R': "R' = CFE_SBR_SetDestListHeadPtr r n R"
    using add by (simp add: CFE_SB_AddDestNode_def Let_def split: if_splits)
  have D': "D' = (if ?h = 0 then D(n := (D n)\<lparr>DD_Next := 0, DD_Prev := 0\<rparr>)
      else D(n := (D n)\<lparr>DD_Next := ?h, DD_Prev := 0\<rparr>,
             ?h := ((D(n := (D n)\<lparr>DD_Next := ?h, DD_Prev := 0\<rparr>)) ?h)\<lparr>DD_Prev := n\<rparr>))"
    using add by (auto simp: CFE_SB_AddDestNode_def Let_def split: if_splits)
  have h: "?h = hd (xs @ [0])" using s(1) by (cases xs) auto
  show "same_payload D D'" by (auto simp: same_payload_def D')
  show "D' x = D x" if "x \<notin> set (n # xs)" using that h by (cases xs) (auto simp: D')
  have "dseg D' n ?h xs 0 \<and> DD_Prev (D' n) = 0 \<and> DD_Next (D' n) = ?h"
  proof (cases xs)
    case Nil
    then show ?thesis using s(1) by (simp add: D')
  next
    case (Cons y ys)
    have "dseg D' y (DD_Next (D y)) ys 0"
      using s n by (subst dseg_cong [of ys _ D]) (auto simp: D' Cons)
    then show ?thesis using s n Cons by (auto simp: D')
  qed
  then show "route_dests D' R' r (n # xs)"
    using s n by (simp add: route_dests_def R' head_set [OF r])
qed

lemma remove_dest:
  assumes r: "CFE_SBR_IsValidRouteId r" "length (RoutingTbl R) = 256"
    and l: "route_dests D R r xs" and n: "n \<in> set xs"
    and rem: "CFE_SB_RemoveDestNode r n D R = (D', R')"
  shows "route_dests D' R' r (remove1 n xs)" "same_payload D D'"
    "x \<notin> set xs \<Longrightarrow> D' x = D x"
    "R' = R \<or> R' = CFE_SBR_SetDestListHeadPtr r (hd (remove1 n xs @ [0])) R"
proof -
  obtain as bs where xs: "xs = as @ n # bs" using n by (meson split_list)
  let ?h = "CFE_SBR_GetDestListHeadPtr R r"
  have s: "dseg D 0 ?h (as @ n # bs) 0" "distinct (as @ n # bs)"
    using l by (simp_all add: route_dests_def xs)
  have nz: "0 \<notin> set (as @ n # bs)" using dseg_nonzero [OF s(1)] .
  from s(1) have s1: "dseg D 0 ?h as n" "DD_Prev (D n) = last (0 # as)"
    "dseg D n (DD_Next (D n)) bs 0" by (auto simp: dseg_append)
  define p where "p = last (0 # as)"
  define q where "q = hd (bs @ [0])"
  have nq: "DD_Next (D n) = q" using s1(3) by (cases bs) (auto simp: q_def)
  have np: "DD_Prev (D n) = p" using s1(2) by (simp add: p_def)
  have pz: "p = 0 \<longleftrightarrow> as = []" using nz by (cases as rule: rev_cases) (auto simp: p_def)
  have qz: "q = 0 \<longleftrightarrow> bs = []" using nz by (cases bs) (auto simp: q_def)
  have r1: "remove1 n xs = as @ bs" using s(2) by (simp add: xs remove1_append)
  define D1 where "D1 = (let E = (if as = [] then D else D(p := (D p)\<lparr>DD_Next := q\<rparr>))
      in if bs = [] then E else E(q := (E q)\<lparr>DD_Prev := p\<rparr>))"
  have D': "D' = D1(n := (D1 n)\<lparr>DD_Next := 0, DD_Prev := 0\<rparr>)"
    and R': "R' = (if as = [] then CFE_SBR_SetDestListHeadPtr r q R else R)"
    using rem pz qz by (auto simp: CFE_SB_RemoveDestNode_def np nq D1_def Let_def split: if_splits)
  show "same_payload D D'" by (auto simp: same_payload_def D' D1_def Let_def)
  have pin: "as \<noteq> [] \<Longrightarrow> p \<in> set as" by (simp add: p_def)
  have qin: "bs \<noteq> [] \<Longrightarrow> q \<in> set bs" by (cases bs) (auto simp: q_def)
  show "D' x = D x" if "x \<notin> set xs"
    using that pin qin by (auto simp: D' D1_def Let_def xs)
  show "R' = R \<or> R' = CFE_SBR_SetDestListHeadPtr r (hd (remove1 n xs @ [0])) R"
    by (auto simp: R' r1 q_def)
  have front: "dseg D' 0 (if as = [] then q else ?h) as q"
  proof (cases as rule: rev_cases)
    case Nil
    then show ?thesis by simp
  next
    case (snoc ys y)
    have y: "dseg D 0 ?h ys y" "y \<noteq> 0" "DD_Prev (D y) = last (0 # ys)"
      using s1(1) by (auto simp: snoc dseg_append)
    have "y \<notin> set bs" "y \<noteq> n" using s(2) by (auto simp: snoc)
    then have yq: "bs \<noteq> [] \<Longrightarrow> y \<noteq> q" using qin by auto
    have p: "p = y" by (simp add: p_def snoc)
    have "dseg D' 0 ?h ys y"
      using y(1) s(2) qin by (subst dseg_cong [of ys _ D]) (auto simp: D' D1_def Let_def snoc p)
    moreover have "DD_Prev (D' y) = last (0 # ys)" "DD_Next (D' y) = q"
      using y(3) yq \<open>y \<noteq> n\<close> by (auto simp: D' D1_def Let_def snoc p)
    ultimately show ?thesis using y(2) by (auto simp: snoc dseg_append)
  qed
  have rear: "dseg D' p q bs 0"
  proof (cases bs)
    case Nil
    then show ?thesis by (simp add: q_def)
  next
    case (Cons z zs)
    have z: "dseg D z (DD_Next (D z)) zs 0" "z \<noteq> 0" using s1(3) by (auto simp: Cons)
    have q: "q = z" by (simp add: q_def Cons)
    have "z \<noteq> n" "z \<notin> set zs" "n \<notin> set zs" using s(2) by (auto simp: Cons)
    moreover have "as \<noteq> [] \<Longrightarrow> p \<notin> set (z # zs)" using s(2) pin by (auto simp: Cons)
    ultimately have "dseg D' z (DD_Next (D z)) zs 0" "DD_Prev (D' z) = p" "DD_Next (D' z) = DD_Next (D z)"
      using z(1) by (subst dseg_cong [of zs _ D], auto simp: D' D1_def Let_def Cons q)
    with z(2) show ?thesis by (simp add: Cons q)
  qed
  have "CFE_SBR_GetDestListHeadPtr R' r = (if as = [] then q else ?h)"
    by (simp add: R' head_set [OF r])
  with front rear show "route_dests D' R' r (remove1 n xs)"
    using s(2) by (auto simp: route_dests_def r1 dseg_append p_def)
qed

end
