(* ===== verification/Os_Queue.thy ===== *)
theory Os_Queue
  imports Prelude "HOL-Library.AList"
begin

section \<open>Message queues of the OS abstraction layer (osal, osapi-queue.c and posix/os-impl-queues.c)\<close>

text \<open>
  A queue has a name, a maximum depth and item size, and the items waiting in order; an item is
  the address of a buffer descriptor.  The kernel queue behind it is a bounded FIFO; \<open>q_fault\<close>
  says that reads and writes fail for another reason, \<open>q_stuck\<close> that \<open>mq_close\<close> fails.  The table of queues is an association list by
  object ID.  What the ID allocator and \<open>mq_open\<close> yield is the argument \<open>os_env\<close>.  A read
  that blocks forever is \<open>None\<close>.
\<close>

type_synonym osal_id = uint32

datatype OS_Status =
    OS_SUCCESS
  | OS_ERROR
  | OS_INVALID_POINTER
  | OS_QUEUE_EMPTY
  | OS_QUEUE_FULL
  | OS_QUEUE_TIMEOUT
  | OS_QUEUE_INVALID_SIZE
  | OS_ERR_NAME_TOO_LONG
  | OS_ERR_NAME_TAKEN
  | OS_ERR_NO_FREE_IDS
  | OS_ERR_NAME_NOT_FOUND
  | OS_ERR_INVALID_ID
  | OS_ERR_INVALID_SIZE

record os_queue =
  q_name :: string
  max_depth :: nat
  max_size :: nat
  q_items :: "size_t list"
  q_fault :: bool
  q_stuck :: bool

record os_env =
  free_id :: "osal_id option"
  mq_open_ok :: bool
  TruncateQueueDepth :: nat

type_synonym os_queues = "(osal_id \<times> os_queue) list"

definition OS_MAX_API_NAME :: nat where "OS_MAX_API_NAME = 20"
definition OS_QUEUE_MAX_DEPTH :: uint16 where "OS_QUEUE_MAX_DEPTH = 50"
definition OS_PEND :: int where "OS_PEND = -1"
definition OS_CHECK :: int where "OS_CHECK = 0"

definition OS_CHECK_SIZE :: "nat \<Rightarrow> bool" where
  "OS_CHECK_SIZE val \<longleftrightarrow> 0 < val \<and> val < 0xFFFFFFFF div 2"

fun find_name :: "string \<Rightarrow> os_queues \<Rightarrow> osal_id option" where
  "find_name name [] = None"
| "find_name name ((i, q) # Q) = (if q_name q = name then Some i else find_name name Q)"

definition OS_QueueCreate_Impl :: "os_env \<Rightarrow> os_queue \<Rightarrow> OS_Status + os_queue" where
  "OS_QueueCreate_Impl env queue =
     (if \<not> mq_open_ok env then Inl OS_ERROR
      else Inr (if 0 < TruncateQueueDepth env \<and> TruncateQueueDepth env < max_depth queue
                then queue\<lparr>max_depth := TruncateQueueDepth env\<rparr> else queue))"

definition OS_QueueCreate ::
  "os_env \<Rightarrow> bool \<Rightarrow> string option \<Rightarrow> nat \<Rightarrow> nat \<Rightarrow> os_queues \<Rightarrow> (OS_Status + osal_id) \<times> os_queues" where
  "OS_QueueCreate env queue_id queue_name queue_depth data_size Q =
     (case queue_name of
        None \<Rightarrow> (Inl OS_INVALID_POINTER, Q)
      | Some name \<Rightarrow>
        if \<not> queue_id then (Inl OS_INVALID_POINTER, Q)
        else if OS_MAX_API_NAME \<le> length name then (Inl OS_ERR_NAME_TOO_LONG, Q)
        else if \<not> OS_CHECK_SIZE data_size then (Inl OS_ERR_INVALID_SIZE, Q)
        else if unat OS_QUEUE_MAX_DEPTH < queue_depth then (Inl OS_QUEUE_INVALID_SIZE, Q)
        else if find_name name Q \<noteq> None then (Inl OS_ERR_NAME_TAKEN, Q)
        else case free_id env of
               None \<Rightarrow> (Inl OS_ERR_NO_FREE_IDS, Q)
             | Some i \<Rightarrow>
               let queue = \<lparr>q_name = name, max_depth = queue_depth, max_size = data_size,
                            q_items = [], q_fault = False, q_stuck = False\<rparr>
               in case OS_QueueCreate_Impl env queue of
                    Inl e \<Rightarrow> (Inl e, Q)
                  | Inr q \<Rightarrow> (Inr i, AList.update i q Q))"

definition OS_QueueDelete_Impl :: "os_queue \<Rightarrow> OS_Status" where
  "OS_QueueDelete_Impl queue = (if q_stuck queue then OS_ERROR else OS_SUCCESS)"

text \<open>The ID is given back only if the deletion succeeds.\<close>

definition OS_ObjectIdFinalizeDelete :: "OS_Status \<Rightarrow> osal_id \<Rightarrow> os_queues \<Rightarrow> OS_Status \<times> os_queues" where
  "OS_ObjectIdFinalizeDelete operation_status i Q =
     (operation_status, if operation_status = OS_SUCCESS then AList.delete i Q else Q)"

definition OS_QueueDelete :: "osal_id \<Rightarrow> os_queues \<Rightarrow> OS_Status \<times> os_queues" where
  "OS_QueueDelete i Q =
     (case map_of Q i of
        None \<Rightarrow> (OS_ERR_INVALID_ID, Q)
      | Some q \<Rightarrow> OS_ObjectIdFinalizeDelete (OS_QueueDelete_Impl q) i Q)"

definition OS_QueueGet_Impl ::
  "os_queue \<Rightarrow> int \<Rightarrow> (OS_Status \<times> size_t option \<times> os_queue) option" where
  "OS_QueueGet_Impl queue timeout =
     (if q_fault queue then Some (OS_ERROR, None, queue)
      else case q_items queue of
             x # xs \<Rightarrow> Some (OS_SUCCESS, Some x, queue\<lparr>q_items := xs\<rparr>)
           | [] \<Rightarrow> if timeout = OS_PEND then None
                   else if timeout = OS_CHECK then Some (OS_QUEUE_EMPTY, None, queue)
                   else Some (OS_QUEUE_TIMEOUT, None, queue))"

definition OS_QueueGet ::
  "osal_id \<Rightarrow> nat \<Rightarrow> int \<Rightarrow> os_queues \<Rightarrow> (OS_Status \<times> size_t option \<times> os_queues) option" where
  "OS_QueueGet i sz timeout Q =
     (if \<not> OS_CHECK_SIZE sz then Some (OS_ERR_INVALID_SIZE, None, Q)
      else case map_of Q i of
             None \<Rightarrow> Some (OS_ERR_INVALID_ID, None, Q)
           | Some q \<Rightarrow>
             if sz < max_size q then Some (OS_QUEUE_INVALID_SIZE, None, Q)
             else case OS_QueueGet_Impl q timeout of
                    None \<Rightarrow> None
                  | Some (st, x, q') \<Rightarrow> Some (st, x, AList.update i q' Q))"

definition OS_QueuePut_Impl :: "os_queue \<Rightarrow> size_t \<Rightarrow> OS_Status \<times> os_queue" where
  "OS_QueuePut_Impl queue data =
     (if q_fault queue then (OS_ERROR, queue)
      else if max_depth queue \<le> length (q_items queue) then (OS_QUEUE_FULL, queue)
      else (OS_SUCCESS, queue\<lparr>q_items := q_items queue @ [data]\<rparr>))"

definition OS_QueuePut :: "osal_id \<Rightarrow> size_t \<Rightarrow> nat \<Rightarrow> os_queues \<Rightarrow> OS_Status \<times> os_queues" where
  "OS_QueuePut i data sz Q =
     (if \<not> OS_CHECK_SIZE sz then (OS_ERR_INVALID_SIZE, Q)
      else case map_of Q i of
             None \<Rightarrow> (OS_ERR_INVALID_ID, Q)
           | Some q \<Rightarrow>
             if max_size q < sz then (OS_QUEUE_INVALID_SIZE, Q)
             else case OS_QueuePut_Impl q data of (st, q') \<Rightarrow> (st, AList.update i q' Q))"

definition OS_QueueGetIdByName :: "bool \<Rightarrow> string option \<Rightarrow> os_queues \<Rightarrow> OS_Status + osal_id" where
  "OS_QueueGetIdByName queue_id queue_name Q =
     (case queue_name of
        None \<Rightarrow> Inl OS_INVALID_POINTER
      | Some name \<Rightarrow>
        if \<not> queue_id then Inl OS_INVALID_POINTER
        else case find_name name Q of None \<Rightarrow> Inl OS_ERR_NAME_NOT_FOUND | Some i \<Rightarrow> Inr i)"

text \<open>The status and the name written to the buffer, if there is one.\<close>

definition OS_GetResourceName :: "bool \<Rightarrow> nat \<Rightarrow> osal_id \<Rightarrow> os_queues \<Rightarrow> OS_Status \<times> string option" where
  "OS_GetResourceName buffer buffer_size i Q =
     (if \<not> buffer then (OS_INVALID_POINTER, None)
      else if \<not> OS_CHECK_SIZE buffer_size then (OS_ERR_INVALID_SIZE, None)
      else case map_of Q i of
             None \<Rightarrow> (OS_ERR_INVALID_ID, Some [])
           | Some q \<Rightarrow>
             if buffer_size \<le> length (q_name q)
             then (OS_ERR_NAME_TOO_LONG, Some (take (buffer_size - 1) (q_name q)))
             else (OS_SUCCESS, Some (q_name q)))"

subsection \<open>The contents of a queue\<close>

text \<open>The items waiting in a queue; a queue that does not exist has none.\<close>

definition items :: "os_queues \<Rightarrow> osal_id \<Rightarrow> size_t list" where
  "items Q i = (case map_of Q i of None \<Rightarrow> [] | Some q \<Rightarrow> q_items q)"

lemma map_of_update [simp]: "map_of (AList.update i q Q) j = (if j = i then Some q else map_of Q j)"
  by (simp add: update_conv')

lemma map_of_delete [simp]: "map_of (AList.delete i Q) j = (if j = i then None else map_of Q j)"
  by (simp add: delete_conv')

text \<open>The facts that the software bus needs of the queues: what each result says of the contents.\<close>

lemma put_items:
  assumes "OS_QueuePut i x n Q = (st, Q')"
  shows "items Q' j = (if st = OS_SUCCESS \<and> j = i then items Q i @ [x] else items Q j)"
    and "map_of Q' j = None \<longleftrightarrow> map_of Q j = None"
    and "map_option max_depth (map_of Q' j) = map_option max_depth (map_of Q j)"
    and "st = OS_SUCCESS \<Longrightarrow> \<exists>q. map_of Q i = Some q \<and> length (items Q i) < max_depth q"
  using assms
  by (auto simp: OS_QueuePut_def OS_QueuePut_Impl_def items_def split: if_splits option.splits)

lemma get_items:
  assumes "OS_QueueGet i n t Q = Some (st, x, Q')"
  shows "st = OS_SUCCESS \<longleftrightarrow> x \<noteq> None"
    and "x = Some b \<Longrightarrow> items Q i = b # items Q' i"
    and "x = None \<or> j \<noteq> i \<Longrightarrow> items Q' j = items Q j"
    and "map_of Q' j = None \<longleftrightarrow> map_of Q j = None"
    and "map_option max_depth (map_of Q' j) = map_option max_depth (map_of Q j)"
  using assms
  by (auto simp: OS_QueueGet_def OS_QueueGet_Impl_def items_def
      split: if_splits option.splits list.splits)

end
