(* ===== verification/Sb_Core.thy ===== *)
theory Sb_Core
  imports Tracking_List Dest_List Os_Queue Mem_Pool
begin

section \<open>Software bus: state, buffers and pipe table (cfe/modules/sb)\<close>

text \<open>
  The record \<open>sb\<close> is \<open>CFE_SB_Global\<close> together with what SB keeps elsewhere: the buffer and
  destination descriptors, which live at addresses inside its memory pool, the links of the
  tracking lists, the routing table, the pool itself and the queues of the pipes.  Addresses are
  \<open>size_t\<close> and \<open>NULL\<close> is 0; a descriptor that has been returned to the pool keeps whatever the
  store has there, so that a use after free would be visible.  Events are the list of event IDs
  sent, without their text.  The mutex, held in parts of a call, is left out:
  a call is one step here.
\<close>

datatype CFE_SB_Event =
    CFE_SB_CR_PIPE_BAD_ARG_EID | CFE_SB_MAX_PIPES_MET_EID | CFE_SB_CR_PIPE_NAME_TAKEN_EID
  | CFE_SB_CR_PIPE_NO_FREE_EID | CFE_SB_CR_PIPE_ERR_EID | CFE_SB_PIPE_ADDED_EID
  | CFE_SB_DEL_PIPE_ERR1_EID | CFE_SB_DEL_PIPE_ERR2_EID | CFE_SB_PIPE_DELETED_EID
  | CFE_SB_SETPIPEOPTS_ID_ERR_EID | CFE_SB_SETPIPEOPTS_OWNER_ERR_EID | CFE_SB_SETPIPEOPTS_EID
  | CFE_SB_GETPIPEOPTS_ID_ERR_EID | CFE_SB_GETPIPEOPTS_PTR_ERR_EID | CFE_SB_GETPIPEOPTS_EID
  | CFE_SB_GETPIPENAME_ID_ERR_EID | CFE_SB_GETPIPENAME_NULL_PTR_EID | CFE_SB_GETPIPENAME_EID
  | CFE_SB_GETPIPEIDBYNAME_NULL_ERR_EID | CFE_SB_GETPIPEIDBYNAME_NAME_ERR_EID
  | CFE_SB_GETPIPEIDBYNAME_EID
  | CFE_SB_SUB_INV_PIPE_EID | CFE_SB_SUB_INV_CALLER_EID | CFE_SB_SUB_ARG_ERR_EID
  | CFE_SB_MAX_MSGS_MET_EID | CFE_SB_DUP_SUBSCRIP_EID | CFE_SB_MAX_DESTS_MET_EID
  | CFE_SB_DEST_BLK_ERR_EID | CFE_SB_SUBSCRIPTION_RCVD_EID | CFE_SB_SUBSCRIPTION_RPT_EID
  | CFE_SB_HASHCOLLISION_EID
  | CFE_SB_UNSUB_INV_PIPE_EID | CFE_SB_UNSUB_INV_CALLER_EID | CFE_SB_UNSUB_ARG_ERR_EID
  | CFE_SB_UNSUB_NO_SUBS_EID | CFE_SB_SUBSCRIPTION_REMOVED_EID
  | CFE_SB_SEND_BAD_ARG_EID | CFE_SB_SEND_INV_MSGID_EID | CFE_SB_MSG_TOO_BIG_EID
  | CFE_SB_SEND_NO_SUBS_EID | CFE_SB_GET_BUF_ERR_EID | CFE_SB_MSGID_LIM_ERR_EID
  | CFE_SB_Q_FULL_ERR_EID | CFE_SB_Q_WR_ERR_EID | CFE_SB_Q_RD_ERR_EID | CFE_SB_RCV_BAD_ARG_EID
  | CFE_SB_BAD_PIPEID_EID | CFE_SB_SEND_MESSAGE_INTEGRITY_FAIL_EID
  | CFE_SB_RCV_MESSAGE_INTEGRITY_FAIL_EID
  | CFE_SB_ENBL_RTE1_EID | CFE_SB_ENBL_RTE2_EID | CFE_SB_ENBL_RTE3_EID
  | CFE_SB_DSBL_RTE1_EID | CFE_SB_DSBL_RTE2_EID | CFE_SB_DSBL_RTE3_EID

record BufferD =
  BF_DestRouteId :: CFE_SBR_RouteId
  BF_AppId :: CFE_ES_AppId
  BF_MsgId :: CFE_SB_MsgId
  BF_AllocatedSize :: size_t
  BF_ContentSize :: size_t
  BF_UseCount :: uint16
  BF_Content :: message

record PipeD =
  PD_PipeId :: CFE_SB_PipeId
  PD_AppId :: CFE_ES_AppId
  PD_SysQueueId :: osal_id
  PD_Opts :: uint8
  PD_SendErrors :: uint16
  PD_MaxQueueDepth :: uint16
  PD_CurrentQueueDepth :: uint16
  PD_PeakQueueDepth :: uint16
  PD_LastBuffer :: size_t

text \<open>The counters of the housekeeping and of the statistics packet.\<close>

record HousekeepingTlm =
  CommandCounter :: uint8
  CommandErrorCounter :: uint8
  NoSubscribersCounter :: uint8
  MsgSendErrorCounter :: uint8
  MsgReceiveErrorCounter :: uint8
  InternalErrorCounter :: uint8
  CreatePipeErrorCounter :: uint8
  SubscribeErrorCounter :: uint8
  PipeOptsErrorCounter :: uint8
  DuplicateSubscriptionsCounter :: uint8
  GetPipeIdByNameErrorCounter :: uint8
  PipeOverflowErrorCounter :: uint16
  MsgLimitErrorCounter :: uint16

record StatsTlm =
  MsgIdsInUse :: uint32
  PeakMsgIdsInUse :: uint32
  PipesInUse :: uint32
  PeakPipesInUse :: uint32
  MemInUse :: uint32
  PeakMemInUse :: uint32
  SubscriptionsInUse :: uint32
  PeakSubscriptionsInUse :: uint32
  SBBuffersInUse :: uint32
  PeakSBBuffersInUse :: uint32

record sb =
  PipeTbl :: "PipeD list"
  LastPipeId :: CFE_ResourceId
  SubscriptionReporting :: bool
  StopRecurseFlags :: "uint32 list"
  HKTlm :: HousekeepingTlm
  StatTlm :: StatsTlm
  Bufs :: "size_t \<Rightarrow> BufferD"
  Links :: links
  Dests :: dests
  Routes :: "msgmap sbr_data"
  Pools :: es_pools
  PoolHdl :: CFE_ES_MemHandle
  Queues :: os_queues
  EventLog :: "CFE_SB_Event list"

text \<open>
  What SB learns of the calling task: its application (\<open>None\<close> when \<open>CFE_ES_GetAppID\<close> fails, which
  writes the undefined ID), its task index, the spacecraft time, and the PSP clock in 100 ns ticks
  when a transaction starts and when it reads a queue.
\<close>

record sb_caller =
  CallerApp :: "CFE_ES_AppId option"
  TaskIndex :: "nat option"
  TimeNow :: CFE_TIME_SysTime
  ClockStart :: int
  ClockRead :: int

definition CFE_ES_APPID_UNDEFINED :: CFE_ES_AppId where
  "CFE_ES_APPID_UNDEFINED = CFE_RESOURCEID_UNDEFINED"

definition caller_app :: "sb_caller \<Rightarrow> CFE_ES_AppId" where
  "caller_app ctx = (case CallerApp ctx of None \<Rightarrow> CFE_ES_APPID_UNDEFINED | Some a \<Rightarrow> a)"

definition CFE_SB_PIPEID_BASE :: uint32 where "CFE_SB_PIPEID_BASE = 0x160000"
definition CFE_PLATFORM_SB_MAX_PIPES :: uint32 where "CFE_PLATFORM_SB_MAX_PIPES = 64"
definition CFE_SB_INVALID_PIPE :: CFE_SB_PipeId where "CFE_SB_INVALID_PIPE = CFE_RESOURCEID_UNDEFINED"
definition CFE_MISSION_SB_MAX_SB_MSG_SIZE :: size_t where "CFE_MISSION_SB_MAX_SB_MSG_SIZE = 32768"
definition CFE_PLATFORM_SB_MAX_DEST_PER_PKT :: nat where "CFE_PLATFORM_SB_MAX_DEST_PER_PKT = 16"
definition CFE_PLATFORM_SB_DEFAULT_MSG_LIMIT :: uint16 where "CFE_PLATFORM_SB_DEFAULT_MSG_LIMIT = 4"

text \<open>The offset of the content in a buffer descriptor and the size of a destination descriptor.\<close>

definition CFE_SB_BUFFERD_CONTENT_OFFSET :: size_t where "CFE_SB_BUFFERD_CONTENT_OFFSET = 64"
definition sizeof_DestinationD :: size_t where "sizeof_DestinationD = 32"

definition sizeof_ptr :: nat where "sizeof_ptr = 8"

text \<open>Assignments through a pointer.\<close>

definition upd_buf :: "size_t \<Rightarrow> (BufferD \<Rightarrow> BufferD) \<Rightarrow> sb \<Rightarrow> sb" where
  "upd_buf b f s = s\<lparr>Bufs := (Bufs s)(b := f (Bufs s b))\<rparr>"

definition upd_dest :: "size_t \<Rightarrow> (DestinationD \<Rightarrow> DestinationD) \<Rightarrow> sb \<Rightarrow> sb" where
  "upd_dest d f s = s\<lparr>Dests := (Dests s)(d := f (Dests s d))\<rparr>"

definition upd_pipe :: "nat \<Rightarrow> (PipeD \<Rightarrow> PipeD) \<Rightarrow> sb \<Rightarrow> sb" where
  "upd_pipe i f s = s\<lparr>PipeTbl := (PipeTbl s)[i := f (PipeTbl s ! i)]\<rparr>"

definition upd_hk :: "(HousekeepingTlm \<Rightarrow> HousekeepingTlm) \<Rightarrow> sb \<Rightarrow> sb" where
  "upd_hk f s = s\<lparr>HKTlm := f (HKTlm s)\<rparr>"

definition upd_stat :: "(StatsTlm \<Rightarrow> StatsTlm) \<Rightarrow> sb \<Rightarrow> sb" where
  "upd_stat f s = s\<lparr>StatTlm := f (StatTlm s)\<rparr>"

definition send_event :: "CFE_SB_Event \<Rightarrow> sb \<Rightarrow> sb" where
  "send_event e s = s\<lparr>EventLog := EventLog s @ [e]\<rparr>"

definition send_pending :: "CFE_SB_Event option \<Rightarrow> sb \<Rightarrow> sb" where
  "send_pending e s = (case e of None \<Rightarrow> s | Some x \<Rightarrow> send_event x s)"

subsection \<open>Buffers (cfe_sb_buf.c)\<close>

definition mem_in_use :: "uint32 \<Rightarrow> StatsTlm \<Rightarrow> StatsTlm" where
  "mem_in_use n t =
     (let t1 = t\<lparr>MemInUse := MemInUse t + n\<rparr>
      in if PeakMemInUse t1 < MemInUse t1 then t1\<lparr>PeakMemInUse := MemInUse t1\<rparr> else t1)"

definition CFE_SB_GetBufferFromPool :: "size_t \<Rightarrow> sb \<Rightarrow> size_t option \<times> sb" where
  "CFE_SB_GetBufferFromPool MaxMsgSize s =
     (let AllocSize = MaxMsgSize + CFE_SB_BUFFERD_CONTENT_OFFSET
      in case CFE_ES_GetPoolBuf True (PoolHdl s) AllocSize (Pools s) of
           (Inl e, P) \<Rightarrow> (None, s\<lparr>Pools := P\<rparr>)
         | (Inr (bd, stat1), P) \<Rightarrow>
           if stat1 < 0 then (None, s\<lparr>Pools := P\<rparr>)
           else
             let s1 = upd_stat (\<lambda>t.
                   let t1 = t\<lparr>SBBuffersInUse := SBBuffersInUse t + 1\<rparr>;
                       t2 = (if PeakSBBuffersInUse t1 < SBBuffersInUse t1
                             then t1\<lparr>PeakSBBuffersInUse := SBBuffersInUse t1\<rparr> else t1)
                   in mem_in_use (ucast AllocSize) t2) (s\<lparr>Pools := P\<rparr>);
                 s2 = upd_buf bd (\<lambda>x.
                   \<lparr>BF_DestRouteId = 0, BF_AppId = 0, BF_MsgId = 0, BF_AllocatedSize = AllocSize,
                    BF_ContentSize = 0, BF_UseCount = 1, BF_Content = BF_Content x\<rparr>) s1
             in (Some bd, s2\<lparr>Links := CFE_SB_TrackingListReset (BufLink bd) (Links s2)\<rparr>))"

definition CFE_SB_ReturnBufferToPool :: "size_t \<Rightarrow> sb \<Rightarrow> sb" where
  "CFE_SB_ReturnBufferToPool bd s =
     (let s1 = s\<lparr>Links := CFE_SB_TrackingListRemove (BufLink bd) (Links s)\<rparr>;
          s2 = upd_stat (\<lambda>t. t\<lparr>SBBuffersInUse := SBBuffersInUse t - 1,
                 MemInUse := MemInUse t - ucast (BF_AllocatedSize (Bufs s1 bd))\<rparr>) s1
      in s2\<lparr>Pools := snd (CFE_ES_PutPoolBuf (PoolHdl s2) bd (Pools s2))\<rparr>)"

definition CFE_SB_IncrBufUseCnt :: "size_t \<Rightarrow> sb \<Rightarrow> sb" where
  "CFE_SB_IncrBufUseCnt bd s =
     (if BF_UseCount (Bufs s bd) < 0x7FFF
      then upd_buf bd (\<lambda>x. x\<lparr>BF_UseCount := BF_UseCount x + 1\<rparr>) s else s)"

definition CFE_SB_DecrBufUseCnt :: "size_t \<Rightarrow> sb \<Rightarrow> sb" where
  "CFE_SB_DecrBufUseCnt bd s =
     (if 0 < BF_UseCount (Bufs s bd)
      then let s1 = upd_buf bd (\<lambda>x. x\<lparr>BF_UseCount := BF_UseCount x - 1\<rparr>) s
        in if BF_UseCount (Bufs s1 bd) = 0 then CFE_SB_ReturnBufferToPool bd s1 else s1
      else s)"

definition CFE_SB_GetDestinationBlk :: "sb \<Rightarrow> size_t option \<times> sb" where
  "CFE_SB_GetDestinationBlk s =
     (case CFE_ES_GetPoolBuf True (PoolHdl s) sizeof_DestinationD (Pools s) of
        (Inl e, P) \<Rightarrow> (None, s\<lparr>Pools := P\<rparr>)
      | (Inr (d, Stat), P) \<Rightarrow>
        if Stat < 0 then (None, s\<lparr>Pools := P\<rparr>)
        else (Some d, upd_stat (mem_in_use (word_of_int Stat)) (s\<lparr>Pools := P\<rparr>)))"

definition CFE_SB_PutDestinationBlk :: "size_t \<Rightarrow> sb \<Rightarrow> CFE_Status \<times> sb" where
  "CFE_SB_PutDestinationBlk Dest s =
     (if Dest = 0 then (CFE_SB_BAD_ARGUMENT, s)
      else case CFE_ES_PutPoolBuf (PoolHdl s) Dest (Pools s) of
             (Inl e, P) \<Rightarrow> (CFE_SUCCESS, s\<lparr>Pools := P\<rparr>)
           | (Inr Stat, P) \<Rightarrow>
             (CFE_SUCCESS,
              if 0 < Stat
              then upd_stat (\<lambda>t. t\<lparr>MemInUse := MemInUse t - word_of_int Stat\<rparr>) (s\<lparr>Pools := P\<rparr>)
              else s\<lparr>Pools := P\<rparr>))"

subsection \<open>Destinations (cfe_sb_priv.c)\<close>

definition CFE_SB_RemoveDest :: "CFE_SBR_RouteId \<Rightarrow> size_t \<Rightarrow> sb \<Rightarrow> sb" where
  "CFE_SB_RemoveDest RouteId DestPtr s =
     (let (D, R) = CFE_SB_RemoveDestNode RouteId DestPtr (Dests s) (Routes s);
          s1 = snd (CFE_SB_PutDestinationBlk DestPtr (s\<lparr>Dests := D, Routes := R\<rparr>))
      in upd_stat (\<lambda>t. t\<lparr>SubscriptionsInUse := SubscriptionsInUse t - 1\<rparr>) s1)"

text \<open>The lookups that the build links: the direct message map.\<close>

definition get_route_id :: "CFE_SB_MsgId \<Rightarrow> sb \<Rightarrow> CFE_SBR_RouteId option" where
  "get_route_id MsgId s = CFE_SBR_GetRouteId CFE_SBR_GetRouteId_direct MsgId (Routes s)"

definition add_route ::
  "CFE_SB_MsgId \<Rightarrow> sb \<Rightarrow> (CFE_SBR_RouteId \<times> uint32 \<times> msgmap sbr_data) option" where
  "add_route MsgId s = CFE_SBR_AddRoute CFE_SBR_SetRouteId_direct MsgId (Routes s)"

definition get_dest_ptr :: "CFE_SBR_RouteId \<Rightarrow> CFE_SB_PipeId \<Rightarrow> sb \<Rightarrow> size_t option" where
  "get_dest_ptr RouteId PipeId s = CFE_SB_GetDestPtr RouteId PipeId (Dests s) (Routes s)"

subsection \<open>The pipe table (cfe_sb_priv.c, cfe_sb_priv.h)\<close>

definition CFE_SB_PipeId_ToIndex :: "CFE_SB_PipeId \<Rightarrow> CFE_Status + uint32" where
  "CFE_SB_PipeId_ToIndex PipeID =
     CFE_ResourceId_ToIndex True PipeID CFE_SB_PIPEID_BASE CFE_PLATFORM_SB_MAX_PIPES"

definition CFE_SB_LocatePipeDescByID :: "CFE_SB_PipeId \<Rightarrow> nat option" where
  "CFE_SB_LocatePipeDescByID PipeId =
     (case CFE_SB_PipeId_ToIndex PipeId of Inr Idx \<Rightarrow> Some (unat Idx) | Inl e \<Rightarrow> None)"

definition CFE_SB_PipeDescIsUsed :: "PipeD \<Rightarrow> bool" where
  "CFE_SB_PipeDescIsUsed PipeDsc \<longleftrightarrow> CFE_ResourceId_IsDefined (PD_PipeId PipeDsc)"

definition CFE_SB_PipeDescSetUsed :: "nat \<Rightarrow> CFE_ResourceId \<Rightarrow> sb \<Rightarrow> sb" where
  "CFE_SB_PipeDescSetUsed i PendingID = upd_pipe i (\<lambda>p. p\<lparr>PD_PipeId := PendingID\<rparr>)"

definition CFE_SB_PipeDescSetFree :: "nat \<Rightarrow> sb \<Rightarrow> sb" where
  "CFE_SB_PipeDescSetFree i = upd_pipe i (\<lambda>p. p\<lparr>PD_PipeId := CFE_SB_INVALID_PIPE\<rparr>)"

definition CFE_SB_CheckPipeDescSlotUsed :: "sb \<Rightarrow> CFE_ResourceId \<Rightarrow> bool" where
  "CFE_SB_CheckPipeDescSlotUsed s CheckId =
     (case CFE_SB_LocatePipeDescByID CheckId of
        None \<Rightarrow> True
      | Some i \<Rightarrow> CFE_SB_PipeDescIsUsed (PipeTbl s ! i))"

definition CFE_SB_PipeDescIsMatch :: "sb \<Rightarrow> nat option \<Rightarrow> CFE_SB_PipeId \<Rightarrow> bool" where
  "CFE_SB_PipeDescIsMatch s PipeDscPtr PipeID =
     (case PipeDscPtr of None \<Rightarrow> False | Some i \<Rightarrow> PD_PipeId (PipeTbl s ! i) = PipeID)"

text \<open>Locating a pipe and checking the match, as nearly all operations do.\<close>

definition find_pipe :: "CFE_SB_PipeId \<Rightarrow> sb \<Rightarrow> nat option" where
  "find_pipe PipeId s =
     (let p = CFE_SB_LocatePipeDescByID PipeId
      in if CFE_SB_PipeDescIsMatch s p PipeId then p else None)"

end
