(* ===== verification/Sb_Pipe.thy ===== *)
theory Sb_Pipe
  imports Sb_Core
begin

section \<open>Software bus: pipe API (cfe/modules/sb, cfe_sb_api.c)\<close>

text \<open>
  Creating pipes and reading and writing their options and names.  A pointer argument is a
  boolean that says whether it is not \<open>NULL\<close>; what the code writes through it is part of the
  result, \<open>None\<close> when nothing is written.  Each routine sets a status and a pending event, changes
  the counters and sends the event at the end, as the code does.
\<close>

definition CFE_SB_CreatePipe ::
  "os_env \<Rightarrow> sb_caller \<Rightarrow> bool \<Rightarrow> uint16 \<Rightarrow> string option \<Rightarrow> sb
     \<Rightarrow> (CFE_Status \<times> CFE_SB_PipeId option) \<times> sb" where
  "CFE_SB_CreatePipe env ctx PipeIdPtr Depth PipeName s =
     (let (Status, PendingEventId, PendingPipeId, PipeDscPtr, s1) =
        (if \<not> PipeIdPtr \<or> OS_QUEUE_MAX_DEPTH < Depth \<or> Depth = 0 \<or> PipeName = Some []
         then (CFE_SB_BAD_ARGUMENT, Some CFE_SB_CR_PIPE_BAD_ARG_EID, CFE_RESOURCEID_UNDEFINED, None, s)
         else
           let pid = CFE_ResourceId_FindNext (LastPipeId s) CFE_PLATFORM_SB_MAX_PIPES
                       (Some (CFE_SB_CheckPipeDescSlotUsed s))
           in case CFE_SB_LocatePipeDescByID pid of
                None \<Rightarrow> (CFE_SB_MAX_PIPES_MET, Some CFE_SB_MAX_PIPES_MET_EID, pid, None, s)
              | Some i \<Rightarrow>
                let s' = upd_pipe i (\<lambda>_. \<lparr>PD_PipeId = 0, PD_AppId = 0, PD_SysQueueId = 0, PD_Opts = 0,
                           PD_SendErrors = 0, PD_MaxQueueDepth = 0, PD_CurrentQueueDepth = 0,
                           PD_PeakQueueDepth = 0, PD_LastBuffer = 0\<rparr>) s
                in (CFE_SUCCESS, None, pid, Some i,
                    (CFE_SB_PipeDescSetUsed i CFE_RESOURCEID_RESERVED s')\<lparr>LastPipeId := pid\<rparr>));
          (Status, PendingEventId, SysQueueId, s2) =
        (if Status = CFE_SUCCESS
         then case OS_QueueCreate env True PipeName (unat Depth) sizeof_ptr (Queues s1) of
                (Inr q, Q) \<Rightarrow> (Status, PendingEventId, q, s1\<lparr>Queues := Q\<rparr>)
              | (Inl e, Q) \<Rightarrow>
                (CFE_SB_PIPE_CR_ERR,
                 Some (if e = OS_ERR_NAME_TAKEN then CFE_SB_CR_PIPE_NAME_TAKEN_EID
                       else if e = OS_ERR_NO_FREE_IDS then CFE_SB_CR_PIPE_NO_FREE_EID
                       else CFE_SB_CR_PIPE_ERR_EID), 0, s1\<lparr>Queues := Q\<rparr>)
         else (Status, PendingEventId, 0, s1));
          s3 =
        (if Status = CFE_SUCCESS
         then case PipeDscPtr of
                None \<Rightarrow> s2
              | Some i \<Rightarrow>
                upd_stat (\<lambda>t. let t1 = t\<lparr>PipesInUse := PipesInUse t + 1\<rparr>
                    in if PeakPipesInUse t1 < PipesInUse t1
                       then t1\<lparr>PeakPipesInUse := PipesInUse t1\<rparr> else t1)
                  (CFE_SB_PipeDescSetUsed i PendingPipeId
                    (upd_pipe i (\<lambda>p. p\<lparr>PD_SysQueueId := SysQueueId, PD_MaxQueueDepth := Depth,
                                       PD_AppId := caller_app ctx\<rparr>) s2))
         else upd_hk (\<lambda>h. h\<lparr>CreatePipeErrorCounter := CreatePipeErrorCounter h + 1\<rparr>)
                (case PipeDscPtr of None \<Rightarrow> s2 | Some i \<Rightarrow> CFE_SB_PipeDescSetFree i s2));
          s4 = send_pending PendingEventId s3
      in if Status = CFE_SUCCESS
         then ((Status, Some PendingPipeId), send_event CFE_SB_PIPE_ADDED_EID s4)
         else ((Status, None), s4))"

definition CFE_SB_SetPipeOpts :: "sb_caller \<Rightarrow> CFE_SB_PipeId \<Rightarrow> uint8 \<Rightarrow> sb \<Rightarrow> CFE_Status \<times> sb" where
  "CFE_SB_SetPipeOpts ctx PipeId Opts s =
     (case CallerApp ctx of
        None \<Rightarrow> (CFE_ES_ERR_RESOURCEID_NOT_VALID, s)
      | Some AppID \<Rightarrow>
        let (Status, PendingEventID, s1) =
          (case find_pipe PipeId s of
             None \<Rightarrow> (CFE_SB_BAD_ARGUMENT, Some CFE_SB_SETPIPEOPTS_ID_ERR_EID, s)
           | Some i \<Rightarrow>
             if AppID \<noteq> PD_AppId (PipeTbl s ! i)
             then (CFE_SB_BAD_ARGUMENT, Some CFE_SB_SETPIPEOPTS_OWNER_ERR_EID, s)
             else (CFE_SUCCESS, None, upd_pipe i (\<lambda>p. p\<lparr>PD_Opts := Opts\<rparr>) s));
            s2 = (if Status \<noteq> CFE_SUCCESS
                  then upd_hk (\<lambda>h. h\<lparr>PipeOptsErrorCounter := PipeOptsErrorCounter h + 1\<rparr>) s1 else s1);
            s3 = send_pending PendingEventID s2
        in (Status, if Status = CFE_SUCCESS then send_event CFE_SB_SETPIPEOPTS_EID s3 else s3))"

definition CFE_SB_GetPipeOpts ::
  "CFE_SB_PipeId \<Rightarrow> bool \<Rightarrow> sb \<Rightarrow> (CFE_Status \<times> uint8 option) \<times> sb" where
  "CFE_SB_GetPipeOpts PipeId OptsPtr s =
     (let (Status, PendingEventID, Opts) =
        (case find_pipe PipeId s of
           None \<Rightarrow> (CFE_SB_BAD_ARGUMENT, Some CFE_SB_GETPIPEOPTS_ID_ERR_EID, None)
         | Some i \<Rightarrow>
           if \<not> OptsPtr then (CFE_SB_BAD_ARGUMENT, Some CFE_SB_GETPIPEOPTS_PTR_ERR_EID, None)
           else (CFE_SUCCESS, None, Some (PD_Opts (PipeTbl s ! i))));
          s2 = (if Status \<noteq> CFE_SUCCESS
                then upd_hk (\<lambda>h. h\<lparr>PipeOptsErrorCounter := PipeOptsErrorCounter h + 1\<rparr>) s else s);
          s3 = send_pending PendingEventID s2
      in ((Status, Opts), if Status = CFE_SUCCESS then send_event CFE_SB_GETPIPEOPTS_EID s3 else s3))"

text \<open>The name written to the caller's buffer: all zero bytes, the empty name, on an error.\<close>

definition CFE_SB_GetPipeName ::
  "bool \<Rightarrow> nat \<Rightarrow> CFE_SB_PipeId \<Rightarrow> sb \<Rightarrow> (CFE_Status \<times> string option) \<times> sb" where
  "CFE_SB_GetPipeName PipeNameBuf PipeNameSize PipeId s =
     (let (Status, PendingEventID, nm) =
        (case find_pipe PipeId s of
           None \<Rightarrow> (CFE_SB_BAD_ARGUMENT, Some CFE_SB_GETPIPENAME_ID_ERR_EID, None)
         | Some i \<Rightarrow>
           if \<not> PipeNameBuf \<or> PipeNameSize = 0
           then (CFE_SB_BAD_ARGUMENT, Some CFE_SB_GETPIPENAME_NULL_PTR_EID, None)
           else case OS_GetResourceName PipeNameBuf PipeNameSize (PD_SysQueueId (PipeTbl s ! i))
                       (Queues s) of
                  (OsStatus, w) \<Rightarrow>
                    if OsStatus = OS_SUCCESS then (CFE_SUCCESS, None, w)
                    else (CFE_SB_BAD_ARGUMENT, Some CFE_SB_GETPIPENAME_ID_ERR_EID, w));
          s1 = send_pending PendingEventID s
      in if Status = CFE_SUCCESS
         then ((Status, nm), send_event CFE_SB_GETPIPENAME_EID s1)
         else ((Status, if PipeNameBuf \<and> 0 < PipeNameSize then Some [] else nm), s1))"

text \<open>The first entry of the pipe table with a queue ID, scanning at most \<open>Idx\<close> entries.\<close>

fun find_queue :: "osal_id \<Rightarrow> PipeD list \<Rightarrow> CFE_SB_PipeId option" where
  "find_queue SysQueueId [] = None"
| "find_queue SysQueueId (p # ps) =
     (if PD_SysQueueId p = SysQueueId then Some (PD_PipeId p) else find_queue SysQueueId ps)"

definition CFE_SB_GetPipeIdByName ::
  "bool \<Rightarrow> string option \<Rightarrow> sb \<Rightarrow> (CFE_Status \<times> CFE_SB_PipeId option) \<times> sb" where
  "CFE_SB_GetPipeIdByName PipeIdPtr PipeName s =
     (let (Status, PendingEventID, SysQueueId) =
        (if PipeName = None \<or> \<not> PipeIdPtr
         then (CFE_SB_BAD_ARGUMENT, Some CFE_SB_GETPIPEIDBYNAME_NULL_ERR_EID, 0)
         else case OS_QueueGetIdByName True PipeName (Queues s) of
                Inr q \<Rightarrow> (CFE_SUCCESS, None, q)
              | Inl e \<Rightarrow> (CFE_SB_BAD_ARGUMENT, Some CFE_SB_GETPIPEIDBYNAME_NAME_ERR_EID, 0));
          (Status, PendingEventID, Pipe) =
        (if Status = CFE_SUCCESS
         then case find_queue SysQueueId (PipeTbl s) of
                Some p \<Rightarrow> (CFE_SUCCESS, PendingEventID, Some p)
              | None \<Rightarrow> (CFE_SB_BAD_ARGUMENT, Some CFE_SB_GETPIPEIDBYNAME_NAME_ERR_EID, None)
         else (Status, PendingEventID, None));
          s1 = (if Status \<noteq> CFE_SUCCESS
                then upd_hk (\<lambda>h. h\<lparr>GetPipeIdByNameErrorCounter := GetPipeIdByNameErrorCounter h + 1\<rparr>) s
                else s);
          s2 = send_pending PendingEventID s1
      in ((Status, Pipe), if Status = CFE_SUCCESS then send_event CFE_SB_GETPIPEIDBYNAME_EID s2 else s2))"

end
