(* ===== verification/Sb_Txn.thy ===== *)
theory Sb_Txn
  imports Sb_Pipe "HOL-Library.Monad_Syntax" "HOL-Library.Signed_Division"
begin

section \<open>Software bus: message transactions (cfe/modules/sb, cfe_sb_priv.c and cfe_sb_api.c)\<close>

text \<open>
  Transmitting and receiving.  A transaction carries the status and event of the call and the set
  of pipes it works on: \<open>TX_PipeSet\<close> holds the entries filled so far, so \<open>NumPipes\<close> is its
  length.  The pointer kept for event texts only is left out.  An operation that walks a
  destination list is an option, \<open>None\<close> if the walk would never end; a receive that waits forever
  is \<open>None\<close> as well.
\<close>

datatype TimeoutMode = TimeoutMode_POLL | TimeoutMode_PEND | TimeoutMode_TIMED

record PipeSetEntry =
  PS_PipeId :: CFE_SB_PipeId
  PS_SysQueueId :: osal_id
  PS_PendingEventId :: "CFE_SB_Event option"
  PS_OsStatus :: OS_Status

record MessageTxn_State =
  TX_IsTransmit :: bool
  TX_IsEndpoint :: bool
  TX_MaxPipes :: nat
  TX_NumPipeErrs :: uint16
  TX_EventId :: "CFE_SB_Event option"
  TX_TimeoutMode :: TimeoutMode
  TX_AbsTimeout :: int
  TX_Status :: CFE_Status
  TX_ContentSize :: size_t
  TX_RoutingMsgId :: CFE_SB_MsgId
  TX_PipeSet :: "PipeSetEntry list"

definition CFE_SB_POLL :: int where "CFE_SB_POLL = 0"
definition CFE_SB_PEND_FOREVER :: int where "CFE_SB_PEND_FOREVER = -1"
definition CFE_SB_PIPEOPTS_IGNOREMINE :: uint8 where "CFE_SB_PIPEOPTS_IGNOREMINE = 1"

subsection \<open>Transaction state\<close>

definition CFE_SB_MessageTxn_IsOK :: "MessageTxn_State \<Rightarrow> bool" where
  "CFE_SB_MessageTxn_IsOK T \<longleftrightarrow> TX_Status T = CFE_SUCCESS \<and> TX_EventId T = None"

definition CFE_SB_MessageTxn_SetEventAndStatus ::
  "CFE_SB_Event option \<Rightarrow> CFE_Status \<Rightarrow> MessageTxn_State \<Rightarrow> MessageTxn_State" where
  "CFE_SB_MessageTxn_SetEventAndStatus EventId Status T =
     (let T1 = (if TX_EventId T = None then T\<lparr>TX_EventId := EventId\<rparr> else T)
      in if TX_Status T1 = CFE_SUCCESS then T1\<lparr>TX_Status := Status\<rparr> else T1)"

definition CFE_SB_MessageTxn_Init :: "nat \<Rightarrow> MessageTxn_State" where
  "CFE_SB_MessageTxn_Init MaxPipes =
     \<lparr>TX_IsTransmit = False, TX_IsEndpoint = False, TX_MaxPipes = MaxPipes, TX_NumPipeErrs = 0,
      TX_EventId = None, TX_TimeoutMode = TimeoutMode_POLL, TX_AbsTimeout = 0,
      TX_Status = CFE_SUCCESS, TX_ContentSize = 0, TX_RoutingMsgId = 0, TX_PipeSet = []\<rparr>"

text \<open>Times are in ticks of 100 ns, 10000 to the millisecond.\<close>

definition CFE_SB_MessageTxn_SetTimeout ::
  "sb_caller \<Rightarrow> int \<Rightarrow> MessageTxn_State \<Rightarrow> MessageTxn_State" where
  "CFE_SB_MessageTxn_SetTimeout ctx Timeout T =
     (if 0 < Timeout
      then T\<lparr>TX_TimeoutMode := TimeoutMode_TIMED, TX_AbsTimeout := ClockStart ctx + Timeout * 10000\<rparr>
      else if Timeout = CFE_SB_POLL then T\<lparr>TX_TimeoutMode := TimeoutMode_POLL\<rparr>
      else if Timeout = CFE_SB_PEND_FOREVER then T\<lparr>TX_TimeoutMode := TimeoutMode_PEND\<rparr>
      else CFE_SB_MessageTxn_SetEventAndStatus (Some CFE_SB_RCV_BAD_ARG_EID) CFE_SB_BAD_ARGUMENT T)"

definition CFE_SB_MessageTxn_GetOsTimeout :: "sb_caller \<Rightarrow> MessageTxn_State \<Rightarrow> int" where
  "CFE_SB_MessageTxn_GetOsTimeout ctx T =
     (case TX_TimeoutMode T of
        TimeoutMode_PEND \<Rightarrow> OS_PEND
      | TimeoutMode_TIMED \<Rightarrow>
          let OsTimeout = (TX_AbsTimeout T - ClockRead ctx) sdiv 10000
          in if OsTimeout < 0 then OS_CHECK else OsTimeout
      | TimeoutMode_POLL \<Rightarrow> OS_CHECK)"

definition CFE_SB_MessageTxn_SetRoutingMsgId ::
  "CFE_SB_MsgId \<Rightarrow> MessageTxn_State \<Rightarrow> MessageTxn_State" where
  "CFE_SB_MessageTxn_SetRoutingMsgId RoutingMsgId T =
     (if \<not> CFE_SB_IsValidMsgId RoutingMsgId
      then CFE_SB_MessageTxn_SetEventAndStatus (Some CFE_SB_SEND_INV_MSGID_EID) CFE_SB_BAD_ARGUMENT T
      else T\<lparr>TX_RoutingMsgId := RoutingMsgId\<rparr>)"

definition CFE_SB_MessageTxn_SetContentSize :: "size_t \<Rightarrow> MessageTxn_State \<Rightarrow> MessageTxn_State" where
  "CFE_SB_MessageTxn_SetContentSize ContentSize T =
     (if CFE_MISSION_SB_MAX_SB_MSG_SIZE < ContentSize
      then CFE_SB_MessageTxn_SetEventAndStatus (Some CFE_SB_MSG_TOO_BIG_EID) CFE_SB_MSG_TOO_BIG T
      else T\<lparr>TX_ContentSize := ContentSize\<rparr>)"

definition CFE_SB_TransmitTxn_SetupFromMsg :: "msg_ptr \<Rightarrow> MessageTxn_State \<Rightarrow> MessageTxn_State" where
  "CFE_SB_TransmitTxn_SetupFromMsg MsgPtr T =
     (let T1 = (if CFE_SB_MessageTxn_IsOK T
          then case CFE_MSG_GetMsgId MsgPtr True of
                 Inr MsgId \<Rightarrow> CFE_SB_MessageTxn_SetRoutingMsgId MsgId T
               | Inl st \<Rightarrow> CFE_SB_MessageTxn_SetEventAndStatus (Some CFE_SB_SEND_BAD_ARG_EID) st T
          else T)
      in if CFE_SB_MessageTxn_IsOK T1
         then case CFE_MSG_GetSize MsgPtr True of
                Inr MsgSize \<Rightarrow> CFE_SB_MessageTxn_SetContentSize MsgSize T1
              | Inl st \<Rightarrow> CFE_SB_MessageTxn_SetEventAndStatus (Some CFE_SB_SEND_BAD_ARG_EID) st T1
         else T1)"

definition CFE_SB_MessageTxn_SetEndpoint :: "bool \<Rightarrow> MessageTxn_State \<Rightarrow> MessageTxn_State" where
  "CFE_SB_MessageTxn_SetEndpoint IsEndpoint T = T\<lparr>TX_IsEndpoint := IsEndpoint\<rparr>"

definition CFE_SB_TransmitTxn_Init :: "bool \<Rightarrow> MessageTxn_State" where
  "CFE_SB_TransmitTxn_Init RefMemPtr =
     (let T = (CFE_SB_MessageTxn_Init CFE_PLATFORM_SB_MAX_DEST_PER_PKT)\<lparr>TX_IsTransmit := True\<rparr>
      in if \<not> RefMemPtr
         then CFE_SB_MessageTxn_SetEventAndStatus (Some CFE_SB_SEND_BAD_ARG_EID) CFE_SB_BAD_ARGUMENT T
         else T)"

definition CFE_SB_ReceiveTxn_Init :: "bool \<Rightarrow> MessageTxn_State" where
  "CFE_SB_ReceiveTxn_Init RefMemPtr =
     (let T = (CFE_SB_MessageTxn_Init 1)\<lparr>TX_IsTransmit := False\<rparr>
      in if \<not> RefMemPtr
         then CFE_SB_MessageTxn_SetEventAndStatus (Some CFE_SB_RCV_BAD_ARG_EID) CFE_SB_BAD_ARGUMENT T
         else T)"

subsection \<open>Events of a transaction\<close>

datatype EventType = EventType_NONE | EventType_INFORMATION | EventType_ERROR

text \<open>The bit that guards against recursion, or -1 for none, and the type of each event.\<close>

fun event_details :: "CFE_SB_Event \<Rightarrow> int \<times> EventType" where
  "event_details CFE_SB_SEND_BAD_ARG_EID = (5, EventType_ERROR)"
| "event_details CFE_SB_SEND_INV_MSGID_EID = (6, EventType_ERROR)"
| "event_details CFE_SB_MSG_TOO_BIG_EID = (7, EventType_ERROR)"
| "event_details CFE_SB_SEND_NO_SUBS_EID = (0, EventType_INFORMATION)"
| "event_details CFE_SB_GET_BUF_ERR_EID = (1, EventType_ERROR)"
| "event_details CFE_SB_MSGID_LIM_ERR_EID = (2, EventType_ERROR)"
| "event_details CFE_SB_Q_FULL_ERR_EID = (3, EventType_ERROR)"
| "event_details CFE_SB_Q_WR_ERR_EID = (4, EventType_ERROR)"
| "event_details CFE_SB_Q_RD_ERR_EID = (-1, EventType_ERROR)"
| "event_details CFE_SB_RCV_BAD_ARG_EID = (-1, EventType_ERROR)"
| "event_details CFE_SB_BAD_PIPEID_EID = (-1, EventType_ERROR)"
| "event_details _ = (0, EventType_NONE)"

text \<open>Looking up the pipe name for the text of the event sends an event of its own.\<close>

definition CFE_SB_MessageTxn_GetEventDetails ::
  "PipeSetEntry option \<Rightarrow> CFE_SB_Event \<Rightarrow> sb \<Rightarrow> (int \<times> EventType) \<times> sb" where
  "CFE_SB_MessageTxn_GetEventDetails ContextPtr EventId s =
     (let s1 = (case ContextPtr of
          None \<Rightarrow> s
        | Some c \<Rightarrow>
          if PS_PendingEventId c = Some CFE_SB_BAD_PIPEID_EID then s
          else snd (CFE_SB_GetPipeName True OS_MAX_API_NAME (PS_PipeId c) s))
      in (event_details EventId, s1))"

definition CFE_SB_RequestToSendEvent :: "sb_caller \<Rightarrow> int \<Rightarrow> sb \<Rightarrow> bool \<times> sb" where
  "CFE_SB_RequestToSendEvent ctx Bit s =
     (if Bit < 0 then (True, s)
      else case TaskIndex ctx of
             None \<Rightarrow> (False, s)
           | Some Indx \<Rightarrow>
             if bit (StopRecurseFlags s ! Indx) (nat Bit) then (False, s)
             else (True, s\<lparr>StopRecurseFlags := (StopRecurseFlags s)
                     [Indx := set_bit (nat Bit) (StopRecurseFlags s ! Indx)]\<rparr>))"

definition CFE_SB_FinishSendEvent :: "sb_caller \<Rightarrow> int \<Rightarrow> sb \<Rightarrow> sb" where
  "CFE_SB_FinishSendEvent ctx Bit s =
     (if Bit < 0 then s
      else case TaskIndex ctx of
             None \<Rightarrow> s
           | Some Indx \<Rightarrow>
             s\<lparr>StopRecurseFlags := (StopRecurseFlags s)
                 [Indx := unset_bit (nat Bit) (StopRecurseFlags s ! Indx)]\<rparr>)"

definition CFE_SB_MessageTxn_ReportSingleEvent ::
  "sb_caller \<Rightarrow> PipeSetEntry option \<Rightarrow> CFE_SB_Event \<Rightarrow> sb \<Rightarrow> bool \<times> sb" where
  "CFE_SB_MessageTxn_ReportSingleEvent ctx ContextPtr EventId s =
     (let ((ReqBit, ty), s1) = CFE_SB_MessageTxn_GetEventDetails ContextPtr EventId s;
          s2 = (if ty \<noteq> EventType_NONE
                then case CFE_SB_RequestToSendEvent ctx ReqBit s1 of
                       (granted, s') \<Rightarrow>
                         if granted then CFE_SB_FinishSendEvent ctx ReqBit (send_event EventId s') else s'
                else s1)
      in (ty = EventType_ERROR, s2))"

text \<open>The loop over the pipes, counting the errors.\<close>

fun report_pipes :: "sb_caller \<Rightarrow> PipeSetEntry list \<Rightarrow> nat \<times> sb \<Rightarrow> nat \<times> sb" where
  "report_pipes ctx [] (NumErrors, s) = (NumErrors, s)"
| "report_pipes ctx (c # cs) (NumErrors, s) =
     (case PS_PendingEventId c of
        None \<Rightarrow> report_pipes ctx cs (NumErrors, s)
      | Some e \<Rightarrow>
        (case CFE_SB_MessageTxn_ReportSingleEvent ctx (Some c) e s of
           (IsError, s') \<Rightarrow> report_pipes ctx cs (if IsError then NumErrors + 1 else NumErrors, s')))"

definition CFE_SB_MessageTxn_ReportEvents :: "sb_caller \<Rightarrow> MessageTxn_State \<Rightarrow> sb \<Rightarrow> sb" where
  "CFE_SB_MessageTxn_ReportEvents ctx T s =
     (let (n1, s1) = (case TX_EventId T of
          None \<Rightarrow> (0, s)
        | Some e \<Rightarrow>
          (case CFE_SB_MessageTxn_ReportSingleEvent ctx None e s of
             (IsError, s') \<Rightarrow> (if IsError then 1 else 0, s')));
          (NumErrors, s2) = report_pipes ctx (TX_PipeSet T) (n1, s1)
      in if 0 < NumErrors
         then if TX_IsTransmit T
              then upd_hk (\<lambda>h. h\<lparr>MsgSendErrorCounter := MsgSendErrorCounter h + 1\<rparr>) s2
              else if TX_Status T = CFE_SB_BAD_ARGUMENT
              then upd_hk (\<lambda>h. h\<lparr>MsgReceiveErrorCounter := MsgReceiveErrorCounter h + 1\<rparr>) s2
              else upd_hk (\<lambda>h. h\<lparr>InternalErrorCounter := InternalErrorCounter h + 1\<rparr>) s2
         else s2)"

subsection \<open>Transmitting\<close>

text \<open>The content of a buffer, read and written as a message.\<close>

definition buf_msg :: "sb \<Rightarrow> size_t \<Rightarrow> msg_ptr" where
  "buf_msg s bd = Some (BF_Content (Bufs s bd))"

definition store_msg :: "size_t \<Rightarrow> msg_ptr \<Rightarrow> sb \<Rightarrow> sb" where
  "store_msg bd MsgPtr s =
     (case MsgPtr of None \<Rightarrow> s | Some m \<Rightarrow> upd_buf bd (\<lambda>x. x\<lparr>BF_Content := m\<rparr>) s)"

text \<open>The descriptor of the buffer whose content is at an address.\<close>

definition CFE_SB_ZeroCopyBufferValidate :: "size_t \<Rightarrow> sb \<Rightarrow> CFE_Status \<times> size_t" where
  "CFE_SB_ZeroCopyBufferValidate BufPtr s =
     (let bd = BufPtr - CFE_SB_BUFFERD_CONTENT_OFFSET
      in if \<not> CFE_ResourceId_IsDefined (BF_AppId (Bufs s bd)) then (CFE_SB_BUFFER_INVALID, bd)
         else (CFE_SUCCESS, bd))"

text \<open>One destination: whether it takes the message, and the accounting when it does.\<close>

definition dest_accepts :: "CFE_ES_AppId \<Rightarrow> DestinationD \<Rightarrow> sb \<Rightarrow> nat option" where
  "dest_accepts AppId d s =
     (case if DD_Active d = CFE_SB_ACTIVE then CFE_SB_LocatePipeDescByID (DD_PipeId d) else None of
        None \<Rightarrow> None
      | Some i \<Rightarrow>
        if CFE_SB_PipeDescIsMatch s (Some i) (DD_PipeId d)
           \<and> (PD_Opts (PipeTbl s ! i) AND CFE_SB_PIPEOPTS_IGNOREMINE = 0
              \<or> PD_AppId (PipeTbl s ! i) \<noteq> AppId)
        then Some i else None)"

definition account_dest ::
  "size_t \<Rightarrow> size_t \<Rightarrow> nat \<Rightarrow> MessageTxn_State \<times> sb \<Rightarrow> MessageTxn_State \<times> sb" where
  "account_dest bd DestPtr i = (\<lambda>(T, s).
     (let d = Dests s DestPtr;
          c = \<lparr>PS_PipeId = DD_PipeId d, PS_SysQueueId = PD_SysQueueId (PipeTbl s ! i),
               PS_PendingEventId = None, PS_OsStatus = OS_SUCCESS\<rparr>
      in if DD_MsgId2PipeLim d \<le> DD_BuffCount d
         then (T\<lparr>TX_PipeSet := TX_PipeSet T @ [c\<lparr>PS_PendingEventId := Some CFE_SB_MSGID_LIM_ERR_EID\<rparr>],
                 TX_NumPipeErrs := TX_NumPipeErrs T + 1\<rparr>,
               upd_pipe i (\<lambda>p. p\<lparr>PD_SendErrors := PD_SendErrors p + 1\<rparr>)
                 (upd_hk (\<lambda>h. h\<lparr>MsgLimitErrorCounter := MsgLimitErrorCounter h + 1\<rparr>) s))
         else (T\<lparr>TX_PipeSet := TX_PipeSet T @ [c]\<rparr>,
               upd_pipe i (\<lambda>p. let p1 = p\<lparr>PD_CurrentQueueDepth := PD_CurrentQueueDepth p + 1\<rparr>
                   in if PD_PeakQueueDepth p1 < PD_CurrentQueueDepth p1
                      then p1\<lparr>PD_PeakQueueDepth := PD_CurrentQueueDepth p1\<rparr> else p1)
                 (upd_dest DestPtr (\<lambda>d. d\<lparr>DD_BuffCount := DD_BuffCount d + 1\<rparr>)
                   (CFE_SB_IncrBufUseCnt bd s)))))"

partial_function (option) find_destinations ::
  "CFE_ES_AppId \<Rightarrow> size_t \<Rightarrow> size_t \<Rightarrow> MessageTxn_State \<times> sb \<Rightarrow> (MessageTxn_State \<times> sb) option" where
  "find_destinations AppId bd DestPtr Ts =
     (if DestPtr = 0 \<or> TX_MaxPipes (fst Ts) \<le> length (TX_PipeSet (fst Ts)) then Some Ts
      else
        let Ts' = (case dest_accepts AppId (Dests (snd Ts) DestPtr) (snd Ts) of
                     None \<Rightarrow> Ts | Some i \<Rightarrow> account_dest bd DestPtr i Ts)
        in find_destinations AppId bd (DD_Next (Dests (snd Ts') DestPtr)) Ts')"

declare find_destinations.simps [code]

text \<open>
  The parts of \<open>CFE_SB_TransmitTxn_FindDestinations\<close>: the destinations of the route, after the
  sequence count is set at the origin; the move of the buffer to the list in transit; and the
  origination action.
\<close>

definition stamp_sequence :: "CFE_SBR_RouteId \<Rightarrow> size_t \<Rightarrow> sb \<Rightarrow> sb" where
  "stamp_sequence RouteId bd s =
     (let s1 = s\<lparr>Routes := CFE_SBR_IncrementSequenceCounter RouteId (Routes s)\<rparr>
      in store_msg bd (snd (CFE_MSG_SetSequenceCount (buf_msg s1 bd)
           (CFE_SBR_GetSequenceCounter (Routes s1) RouteId))) s1)"

definition select_destinations ::
  "sb_caller \<Rightarrow> CFE_SBR_RouteId \<Rightarrow> size_t \<Rightarrow> MessageTxn_State \<Rightarrow> sb \<Rightarrow> (MessageTxn_State \<times> sb) option" where
  "select_destinations ctx RouteId bd T s =
     (if CFE_SBR_IsValidRouteId RouteId
      then let s1 = (if TX_IsEndpoint T then stamp_sequence RouteId bd s else s)
        in find_destinations (caller_app ctx) bd (CFE_SBR_GetDestListHeadPtr (Routes s1) RouteId) (T, s1)
      else Some (CFE_SB_MessageTxn_SetEventAndStatus (Some CFE_SB_SEND_NO_SUBS_EID) CFE_SUCCESS T,
                 upd_hk (\<lambda>h. h\<lparr>NoSubscribersCounter := NoSubscribersCounter h + 1\<rparr>) s))"

definition enter_transit :: "size_t \<Rightarrow> sb \<Rightarrow> sb" where
  "enter_transit bd s =
     (let s1 = s\<lparr>Links := CFE_SB_TrackingListRemove (BufLink bd) (Links s)\<rparr>;
          s2 = upd_buf bd (\<lambda>x. x\<lparr>BF_AppId := CFE_ES_APPID_UNDEFINED\<rparr>) s1
      in s2\<lparr>Links := CFE_SB_TrackingListAdd InTransitList (BufLink bd) (Links s2)\<rparr>)"

definition originate :: "sb_caller \<Rightarrow> size_t \<Rightarrow> MessageTxn_State \<Rightarrow> sb \<Rightarrow> MessageTxn_State \<times> sb" where
  "originate ctx bd T s =
     (if CFE_SB_MessageTxn_IsOK T \<and> TX_IsEndpoint T
      then case CFE_MSG_OriginationAction (TimeNow ctx) (buf_msg s bd) True of
             (st, m, IsAcceptable) \<Rightarrow>
               (if st \<noteq> CFE_SUCCESS \<or> IsAcceptable \<noteq> Some True
                then CFE_SB_MessageTxn_SetEventAndStatus
                       (Some CFE_SB_SEND_MESSAGE_INTEGRITY_FAIL_EID) st T
                else T, store_msg bd m s)
      else (T, s))"

definition CFE_SB_TransmitTxn_FindDestinations ::
  "sb_caller \<Rightarrow> size_t \<Rightarrow> MessageTxn_State \<Rightarrow> sb \<Rightarrow> (MessageTxn_State \<times> sb) option" where
  "CFE_SB_TransmitTxn_FindDestinations ctx bd T s = do {
     RouteId \<leftarrow> get_route_id (TX_RoutingMsgId T) s;
     (T2, s2) \<leftarrow> select_destinations ctx RouteId bd T
                  (upd_buf bd (\<lambda>x. x\<lparr>BF_DestRouteId := RouteId\<rparr>) s);
     Some (originate ctx bd T2 (enter_transit bd s2))
   }"

definition CFE_SB_TransmitTxn_PipeHandler ::
  "size_t \<Rightarrow> PipeSetEntry \<Rightarrow> MessageTxn_State \<Rightarrow> sb \<Rightarrow> (PipeSetEntry \<times> MessageTxn_State \<times> sb) option" where
  "CFE_SB_TransmitTxn_PipeHandler bd c T s =
     (case OS_QueuePut (PS_SysQueueId c) bd sizeof_ptr (Queues s) of
        (st, Q) \<Rightarrow>
          let c1 = c\<lparr>PS_OsStatus := st\<rparr>; s1 = s\<lparr>Queues := Q\<rparr>
          in if st = OS_SUCCESS then Some (c1, T, s1)
             else
               let T1 = T\<lparr>TX_NumPipeErrs := TX_NumPipeErrs T + 1\<rparr>;
                   (c2, s2) =
                     (if st = OS_QUEUE_FULL
                      then (c1\<lparr>PS_PendingEventId := Some CFE_SB_Q_FULL_ERR_EID\<rparr>,
                            upd_hk (\<lambda>h. h\<lparr>PipeOverflowErrorCounter := PipeOverflowErrorCounter h + 1\<rparr>) s1)
                      else (c1\<lparr>PS_PendingEventId := Some CFE_SB_Q_WR_ERR_EID\<rparr>,
                            upd_hk (\<lambda>h. h\<lparr>InternalErrorCounter := InternalErrorCounter h + 1\<rparr>) s1));
                   s3 =
                     (case find_pipe (PS_PipeId c) s2 of
                        None \<Rightarrow> s2
                      | Some i \<Rightarrow>
                        if 0 < PD_CurrentQueueDepth (PipeTbl s2 ! i)
                        then upd_pipe i (\<lambda>p. p\<lparr>PD_CurrentQueueDepth := PD_CurrentQueueDepth p - 1\<rparr>) s2
                        else s2)
               in do {
                 d \<leftarrow> get_dest_ptr (BF_DestRouteId (Bufs s3 bd)) (PS_PipeId c) s3;
                 let s4 = (if d \<noteq> 0 \<and> 0 < DD_BuffCount (Dests s3 d)
                           then upd_dest d (\<lambda>x. x\<lparr>DD_BuffCount := DD_BuffCount x - 1\<rparr>) s3 else s3);
                 Some (c2, T1, CFE_SB_DecrBufUseCnt bd s4)
               })"

text \<open>
  \<open>CFE_SB_MessageTxn_ProcessPipes\<close> for the transmit handler, which always continues; the first
  list is the part of the pipe set already processed.
\<close>

fun process_transmit ::
  "size_t \<Rightarrow> PipeSetEntry list \<Rightarrow> PipeSetEntry list \<Rightarrow> MessageTxn_State \<Rightarrow> sb \<Rightarrow> (MessageTxn_State \<times> sb) option"
  where
  "process_transmit bd seen [] T s = Some (T\<lparr>TX_PipeSet := rev seen\<rparr>, s)"
| "process_transmit bd seen (c # cs) T s =
     (if PS_PendingEventId c = None
      then do {
        (c', T', s') \<leftarrow> CFE_SB_TransmitTxn_PipeHandler bd c T s;
        process_transmit bd (c' # seen) cs T' s'
      }
      else process_transmit bd (c # seen) cs T s)"

definition CFE_SB_TransmitTxn_Execute ::
  "sb_caller \<Rightarrow> size_t \<Rightarrow> MessageTxn_State \<Rightarrow> sb \<Rightarrow> (MessageTxn_State \<times> sb) option" where
  "CFE_SB_TransmitTxn_Execute ctx BufPtr T s =
     (case CFE_SB_ZeroCopyBufferValidate BufPtr s of
        (st, bd) \<Rightarrow>
          if st \<noteq> CFE_SUCCESS then Some (CFE_SB_MessageTxn_SetEventAndStatus None st T, s)
          else do {
            let s1 = upd_buf bd (\<lambda>x. x\<lparr>BF_ContentSize := TX_ContentSize T,
                                        BF_MsgId := TX_RoutingMsgId T\<rparr>) s;
            (T2, s2) \<leftarrow> CFE_SB_TransmitTxn_FindDestinations ctx bd T s1;
            (T3, s3) \<leftarrow> process_transmit bd [] (TX_PipeSet T2) T2 s2;
            Some (T3, CFE_SB_DecrBufUseCnt bd s3)
          })"

subsection \<open>Zero copy buffers and the transmit API\<close>

definition CFE_SB_AllocateMessageBuffer :: "sb_caller \<Rightarrow> size_t \<Rightarrow> sb \<Rightarrow> size_t option \<times> sb" where
  "CFE_SB_AllocateMessageBuffer ctx MsgSize s =
     (if CFE_MISSION_SB_MAX_SB_MSG_SIZE < MsgSize then (None, s)
      else case CallerApp ctx of
             None \<Rightarrow> (None, s)
           | Some AppId \<Rightarrow>
             (case CFE_SB_GetBufferFromPool MsgSize s of
                (None, s1) \<Rightarrow> (None, s1)
              | (Some bd, s1) \<Rightarrow>
                let s2 = upd_buf bd (\<lambda>x. x\<lparr>BF_AppId := AppId\<rparr>) s1;
                    s3 = s2\<lparr>Links := CFE_SB_TrackingListAdd ZeroCopyList (BufLink bd) (Links s2)\<rparr>
                in (Some (bd + CFE_SB_BUFFERD_CONTENT_OFFSET),
                    store_msg bd (Some (replicate (unat MsgSize) 0)) s3)))"

definition CFE_SB_ReleaseMessageBuffer :: "size_t \<Rightarrow> sb \<Rightarrow> CFE_Status \<times> sb" where
  "CFE_SB_ReleaseMessageBuffer BufPtr s =
     (if BufPtr = 0 then (CFE_SB_BAD_ARGUMENT, s)
      else case CFE_SB_ZeroCopyBufferValidate BufPtr s of
             (st, bd) \<Rightarrow>
               if st = CFE_SUCCESS
               then (st, CFE_SB_DecrBufUseCnt bd
                          (upd_buf bd (\<lambda>x. x\<lparr>BF_AppId := CFE_ES_APPID_UNDEFINED\<rparr>) s))
               else (st, s))"

definition CFE_SB_TransmitBuffer ::
  "sb_caller \<Rightarrow> size_t \<Rightarrow> bool \<Rightarrow> sb \<Rightarrow> (CFE_Status \<times> sb) option" where
  "CFE_SB_TransmitBuffer ctx BufPtr IsOrigination s = do {
     let T0 = CFE_SB_TransmitTxn_Init (BufPtr \<noteq> 0);
     let T1 = (if CFE_SB_MessageTxn_IsOK T0
               then CFE_SB_TransmitTxn_SetupFromMsg
                      (buf_msg s (BufPtr - CFE_SB_BUFFERD_CONTENT_OFFSET)) T0
               else T0);
     (T2, s2) \<leftarrow> (if CFE_SB_MessageTxn_IsOK T1
                  then CFE_SB_TransmitTxn_Execute ctx BufPtr
                         (CFE_SB_MessageTxn_SetEndpoint IsOrigination T1) s
                  else Some (T1, s));
     Some (TX_Status T2, CFE_SB_MessageTxn_ReportEvents ctx T2 s2)
   }"

text \<open>The copy into the new buffer: \<open>memcpy\<close> of the message's own size.\<close>

definition CFE_SB_TransmitMsg ::
  "sb_caller \<Rightarrow> msg_ptr \<Rightarrow> bool \<Rightarrow> sb \<Rightarrow> (CFE_Status \<times> sb) option" where
  "CFE_SB_TransmitMsg ctx MsgPtr IsOrigination s = do {
     let T0 = CFE_SB_TransmitTxn_Init (MsgPtr \<noteq> None);
     let T1 = (if CFE_SB_MessageTxn_IsOK T0 then CFE_SB_TransmitTxn_SetupFromMsg MsgPtr T0 else T0);
     let (BufPtr, T2, s2) =
       (if CFE_SB_MessageTxn_IsOK T1
        then case CFE_SB_AllocateMessageBuffer ctx (TX_ContentSize T1) s of
               (None, s') \<Rightarrow> (0, CFE_SB_MessageTxn_SetEventAndStatus (Some CFE_SB_GET_BUF_ERR_EID)
                                   CFE_SB_BUF_ALOC_ERR T1, s')
             | (Some b, s') \<Rightarrow> (b, T1, s')
        else (0, T1, s));
     (T3, s3) \<leftarrow>
       (if CFE_SB_MessageTxn_IsOK T2
        then let bd = BufPtr - CFE_SB_BUFFERD_CONTENT_OFFSET;
                 n = unat (TX_ContentSize T2);
                 s' = store_msg bd (map_option (\<lambda>m. take n m @ drop n (BF_Content (Bufs s2 bd))) MsgPtr) s2
          in CFE_SB_TransmitTxn_Execute ctx BufPtr (CFE_SB_MessageTxn_SetEndpoint IsOrigination T2) s'
        else Some (T2, s2));
     Some (TX_Status T3, CFE_SB_MessageTxn_ReportEvents ctx T3 s3)
   }"

subsection \<open>Receiving\<close>

definition CFE_SB_ReceiveTxn_SetPipeId ::
  "CFE_SB_PipeId \<Rightarrow> MessageTxn_State \<Rightarrow> sb \<Rightarrow> MessageTxn_State \<times> sb" where
  "CFE_SB_ReceiveTxn_SetPipeId PipeId T s =
     (let c = \<lparr>PS_PipeId = PipeId, PS_SysQueueId = 0, PS_PendingEventId = None, PS_OsStatus = OS_SUCCESS\<rparr>
      in case find_pipe PipeId s of
           None \<Rightarrow>
             let T1 = CFE_SB_MessageTxn_SetEventAndStatus None CFE_SB_BAD_ARGUMENT
                        (T\<lparr>TX_PipeSet := [c\<lparr>PS_PendingEventId := Some CFE_SB_BAD_PIPEID_EID\<rparr>]\<rparr>)
             in (T1\<lparr>TX_NumPipeErrs := TX_NumPipeErrs T1 + 1\<rparr>, s)
         | Some i \<Rightarrow>
             let T1 = T\<lparr>TX_PipeSet := [c\<lparr>PS_SysQueueId := PD_SysQueueId (PipeTbl s ! i)\<rparr>]\<rparr>;
                 b = PD_LastBuffer (PipeTbl s ! i)
             in (T1, if b \<noteq> 0
                     then upd_pipe i (\<lambda>p. p\<lparr>PD_LastBuffer := 0\<rparr>) (CFE_SB_DecrBufUseCnt b s) else s))"

text \<open>The result has the buffer that the caller gets, if any.\<close>

definition CFE_SB_ReceiveTxn_ExportReference ::
  "PipeSetEntry \<Rightarrow> size_t \<Rightarrow> MessageTxn_State \<Rightarrow> sb
     \<Rightarrow> (PipeSetEntry \<times> size_t \<times> MessageTxn_State \<times> sb) option" where
  "CFE_SB_ReceiveTxn_ExportReference c bd T s = do {
     (c', out, T', s') \<leftarrow>
       (case find_pipe (PS_PipeId c) s of
          Some i \<Rightarrow> do {
            let s1 = upd_pipe i (\<lambda>p. p\<lparr>PD_LastBuffer := bd\<rparr>) (CFE_SB_IncrBufUseCnt bd s);
            d \<leftarrow> get_dest_ptr (BF_DestRouteId (Bufs s1 bd)) (PS_PipeId c) s1;
            let s2 = (if d \<noteq> 0 \<and> 0 < DD_BuffCount (Dests s1 d)
                      then upd_dest d (\<lambda>x. x\<lparr>DD_BuffCount := DD_BuffCount x - 1\<rparr>) s1 else s1);
            let s3 = (if 0 < PD_CurrentQueueDepth (PipeTbl s2 ! i)
                      then upd_pipe i (\<lambda>p. p\<lparr>PD_CurrentQueueDepth := PD_CurrentQueueDepth p - 1\<rparr>) s2
                      else s2);
            Some (c, bd, T, s3)
          }
        | None \<Rightarrow>
            Some (c\<lparr>PS_PendingEventId := Some CFE_SB_BAD_PIPEID_EID\<rparr>, 0,
                  CFE_SB_MessageTxn_SetEventAndStatus None CFE_SB_PIPE_RD_ERR T, s));
     Some (c', out, T', CFE_SB_DecrBufUseCnt bd s')
   }"

definition CFE_SB_ReceiveTxn_PipeHandler ::
  "sb_caller \<Rightarrow> PipeSetEntry \<Rightarrow> MessageTxn_State \<Rightarrow> sb
     \<Rightarrow> (PipeSetEntry \<times> size_t \<times> MessageTxn_State \<times> sb) option" where
  "CFE_SB_ReceiveTxn_PipeHandler ctx c T s = do {
     (st, data, Q) \<leftarrow> OS_QueueGet (PS_SysQueueId c) sizeof_ptr (CFE_SB_MessageTxn_GetOsTimeout ctx T) (Queues s);
     let c1 = c\<lparr>PS_OsStatus := st\<rparr>;
     let s1 = s\<lparr>Queues := Q\<rparr>;
     (case data of
        Some b \<Rightarrow>
          if st = OS_SUCCESS \<and> b \<noteq> 0 then CFE_SB_ReceiveTxn_ExportReference c1 b T s1
          else Some (c1\<lparr>PS_PendingEventId := Some CFE_SB_Q_RD_ERR_EID\<rparr>, 0,
                     CFE_SB_MessageTxn_SetEventAndStatus None CFE_SB_PIPE_RD_ERR T, s1)
      | None \<Rightarrow>
          if st = OS_QUEUE_EMPTY
          then Some (c1, 0, CFE_SB_MessageTxn_SetEventAndStatus None CFE_SB_NO_MESSAGE T, s1)
          else if st = OS_QUEUE_TIMEOUT
          then Some (c1, 0, CFE_SB_MessageTxn_SetEventAndStatus None CFE_SB_TIME_OUT T, s1)
          else Some (c1\<lparr>PS_PendingEventId := Some CFE_SB_Q_RD_ERR_EID\<rparr>, 0,
                     CFE_SB_MessageTxn_SetEventAndStatus None CFE_SB_PIPE_RD_ERR T, s1))
   }"

text \<open>\<open>CFE_SB_MessageTxn_ProcessPipes\<close> for the receive handler, which stops after one pipe.\<close>

fun process_receive ::
  "sb_caller \<Rightarrow> PipeSetEntry list \<Rightarrow> PipeSetEntry list \<Rightarrow> MessageTxn_State \<Rightarrow> sb
     \<Rightarrow> (size_t \<times> MessageTxn_State \<times> sb) option" where
  "process_receive ctx seen [] T s = Some (0, T, s)"
| "process_receive ctx seen (c # cs) T s =
     (if PS_PendingEventId c = None
      then do {
        (c', out, T', s') \<leftarrow> CFE_SB_ReceiveTxn_PipeHandler ctx c T s;
        Some (out, T'\<lparr>TX_PipeSet := rev seen @ c' # cs\<rparr>, s')
      }
      else process_receive ctx (c # seen) cs T s)"

text \<open>The loop repeats only when a message is dropped because it fails the verification.\<close>

partial_function (option) CFE_SB_ReceiveTxn_Execute ::
  "sb_caller \<Rightarrow> MessageTxn_State \<Rightarrow> sb \<Rightarrow> (size_t \<times> MessageTxn_State \<times> sb) option" where
  "CFE_SB_ReceiveTxn_Execute ctx T s =
     (if \<not> CFE_SB_MessageTxn_IsOK T then Some (0, T, s)
      else Option.bind (process_receive ctx [] (TX_PipeSet T) T s) (\<lambda>(bd, T1, s1).
        if bd = 0
        then Some (0, T1\<lparr>TX_RoutingMsgId := CFE_SB_INVALID_MSG_ID, TX_ContentSize := 0\<rparr>, s1)
        else if \<not> TX_IsEndpoint T1
                \<or> CFE_MSG_VerificationAction (buf_msg s1 bd) True = (CFE_SUCCESS, Some True)
        then Some (bd + CFE_SB_BUFFERD_CONTENT_OFFSET,
                   T1\<lparr>TX_RoutingMsgId := BF_MsgId (Bufs s1 bd),
                      TX_ContentSize := BF_ContentSize (Bufs s1 bd)\<rparr>, s1)
        else
          let s2 = snd (CFE_SB_MessageTxn_ReportSingleEvent ctx (Some (hd (TX_PipeSet T1)))
                     CFE_SB_RCV_MESSAGE_INTEGRITY_FAIL_EID s1);
              Ts = CFE_SB_ReceiveTxn_SetPipeId (PS_PipeId (hd (TX_PipeSet T1))) T1 s2
          in CFE_SB_ReceiveTxn_Execute ctx (fst Ts) (snd Ts)))"

declare CFE_SB_ReceiveTxn_Execute.simps [code]

text \<open>The status, and the address written to \<open>*BufPtr\<close> when \<open>BufPtr\<close> is not \<open>NULL\<close>.\<close>

definition CFE_SB_ReceiveBuffer ::
  "sb_caller \<Rightarrow> bool \<Rightarrow> CFE_SB_PipeId \<Rightarrow> int \<Rightarrow> sb \<Rightarrow> ((CFE_Status \<times> size_t option) \<times> sb) option" where
  "CFE_SB_ReceiveBuffer ctx BufPtr PipeId TimeOut s = do {
     let T0 = CFE_SB_ReceiveTxn_Init BufPtr;
     let T1 = (if CFE_SB_MessageTxn_IsOK T0 then CFE_SB_MessageTxn_SetTimeout ctx TimeOut T0 else T0);
     let (T2, s2) =
       (if CFE_SB_MessageTxn_IsOK T1
        then case CFE_SB_ReceiveTxn_SetPipeId PipeId T1 s of
               (T', s') \<Rightarrow> (CFE_SB_MessageTxn_SetEndpoint True T', s')
        else (T1, s));
     (out, T3, s3) \<leftarrow>
       (if BufPtr
        then do {
          (b, T', s') \<leftarrow> CFE_SB_ReceiveTxn_Execute ctx T2 s2;
          Some (Some b, T', s')
        }
        else Some (None, T2, s2));
     Some ((TX_Status T3, out), CFE_SB_MessageTxn_ReportEvents ctx T3 s3)
   }"

end
