(* ===== verification/Sb_Sub.thy ===== *)
theory Sb_Sub
  imports Sb_Txn
begin

section \<open>Software bus: subscriptions, deletion and commands (cfe_sb_api.c, cfe_sb_priv.c, cfe_sb_task.c, cfe_sb_init.c)\<close>

text \<open>
  Subscribing and unsubscribing, deleting pipes, cleaning up after an application, the route
  commands and the initialisation.  The subscription report is a telemetry message that SB sends
  to itself through the transmit API.
\<close>

record CFE_SB_Qos =
  Priority :: uint8
  Reliability :: uint8

definition CFE_SB_DEFAULT_QOS :: CFE_SB_Qos where
  "CFE_SB_DEFAULT_QOS = \<lparr>Priority = 0, Reliability = 0\<rparr>"

definition CFE_SB_MSG_GLOBAL :: uint8 where "CFE_SB_MSG_GLOBAL = 0"
definition CFE_SB_MSG_LOCAL :: uint8 where "CFE_SB_MSG_LOCAL = 1"
definition CFE_SB_SUBSCRIPTION :: uint8 where "CFE_SB_SUBSCRIPTION = 0"
definition CFE_SB_ONESUB_TLM_MID :: CFE_SB_MsgId where "CFE_SB_ONESUB_TLM_MID = CFE_PLATFORM_TLM_TOPICID_TO_MIDV 9"

subsection \<open>Subscription reports\<close>

text \<open>The bytes of a word in memory on the little-endian target, and the payload of the report.\<close>

definition le_bytes :: "uint32 \<Rightarrow> uint8 list" where
  "le_bytes w = map (\<lambda>i. ucast (drop_bit (8 * i) w)) [0..<4]"

definition sub_report_payload :: "CFE_SB_MsgId \<Rightarrow> CFE_SB_PipeId \<Rightarrow> CFE_SB_Qos \<Rightarrow> uint8 list" where
  "sub_report_payload MsgId PipeId Quality =
     [CFE_SB_SUBSCRIPTION, 0, 0, 0] @ le_bytes MsgId
       @ [Priority Quality, Reliability Quality, 0, 0] @ le_bytes PipeId"

definition CFE_SB_SendSubscriptionReport ::
  "sb_caller \<Rightarrow> CFE_SB_MsgId \<Rightarrow> CFE_SB_PipeId \<Rightarrow> CFE_SB_Qos \<Rightarrow> sb \<Rightarrow> (CFE_Status \<times> sb) option" where
  "CFE_SB_SendSubscriptionReport ctx MsgId PipeId Quality s =
     (if SubscriptionReporting s
      then
        let msg = snd (CFE_MSG_Init (Some (replicate 32 0)) CFE_SB_ONESUB_TLM_MID 32)
        in Option.bind (CFE_SB_TransmitMsg ctx
               (map_option (\<lambda>m. take 16 m @ sub_report_payload MsgId PipeId Quality) msg) True s)
             (\<lambda>(Status, s1). Some (Status, send_event CFE_SB_SUBSCRIPTION_RPT_EID s1))
      else Some (CFE_SUCCESS, s))"

subsection \<open>Subscribing\<close>

text \<open>The walk over the destinations of the route: where it stops, and the event if any.\<close>

partial_function (option) scan_dests ::
  "dests \<Rightarrow> size_t \<Rightarrow> CFE_SB_PipeId \<Rightarrow> nat \<Rightarrow> (size_t \<times> CFE_SB_Event option) option" where
  "scan_dests D DestPtr PipeId DestCount =
     (if DestPtr = 0 then Some (0, None)
      else if DD_PipeId (D DestPtr) = PipeId then Some (DestPtr, Some CFE_SB_DUP_SUBSCRIP_EID)
      else if CFE_PLATFORM_SB_MAX_DEST_PER_PKT \<le> DestCount + 1
      then Some (DestPtr, Some CFE_SB_MAX_DESTS_MET_EID)
      else scan_dests D (DD_Next (D DestPtr)) PipeId (DestCount + 1))"

declare scan_dests.simps [code]

text \<open>The checks, and the route of the message ID, adding one if there is none.\<close>

definition subscribe_route ::
  "CFE_ES_AppId \<Rightarrow> CFE_SB_MsgId \<Rightarrow> CFE_SB_PipeId \<Rightarrow> uint8 \<Rightarrow> sb
     \<Rightarrow> ((CFE_Status \<times> CFE_SB_Event option) + CFE_SBR_RouteId \<times> uint32 \<times> sb) option" where
  "subscribe_route AppId MsgId PipeId Scope s =
     (case find_pipe PipeId s of
        None \<Rightarrow> Some (Inl (CFE_SB_BAD_ARGUMENT, Some CFE_SB_SUB_INV_PIPE_EID))
      | Some i \<Rightarrow>
        if PD_AppId (PipeTbl s ! i) \<noteq> AppId
        then Some (Inl (CFE_SB_BAD_ARGUMENT, Some CFE_SB_SUB_INV_CALLER_EID))
        else if \<not> CFE_SB_IsValidMsgId MsgId \<or> 1 < Scope
        then Some (Inl (CFE_SB_BAD_ARGUMENT, Some CFE_SB_SUB_ARG_ERR_EID))
        else do {
          RouteId \<leftarrow> get_route_id MsgId s;
          if CFE_SBR_IsValidRouteId RouteId then Some (Inr (RouteId, 0, s))
          else do {
            (RouteId', Collisions, R) \<leftarrow> add_route MsgId s;
            if \<not> CFE_SBR_IsValidRouteId RouteId'
            then Some (Inl (CFE_SB_MAX_MSGS_MET, Some CFE_SB_MAX_MSGS_MET_EID))
            else Some (Inr (RouteId', Collisions,
              upd_stat (\<lambda>t. let t1 = t\<lparr>MsgIdsInUse := MsgIdsInUse t + 1\<rparr>
                  in if PeakMsgIdsInUse t1 < MsgIdsInUse t1
                     then t1\<lparr>PeakMsgIdsInUse := MsgIdsInUse t1\<rparr> else t1)
                (s\<lparr>Routes := R\<rparr>)))
          }
        })"

text \<open>Adding the destination when the walk found none.\<close>

definition add_destination ::
  "CFE_SBR_RouteId \<Rightarrow> CFE_SB_PipeId \<Rightarrow> uint16 \<Rightarrow> uint8 \<Rightarrow> sb \<Rightarrow> (CFE_Status \<times> CFE_SB_Event option) \<times> sb" where
  "add_destination RouteId PipeId MsgLim Scope s =
     (case CFE_SB_GetDestinationBlk s of
        (None, s1) \<Rightarrow> ((CFE_SB_BUF_ALOC_ERR, Some CFE_SB_DEST_BLK_ERR_EID), s1)
      | (Some DestPtr, s1) \<Rightarrow>
        let s2 = upd_dest DestPtr (\<lambda>_.
              \<lparr>DD_PipeId = PipeId, DD_Active = CFE_SB_ACTIVE, DD_MsgId2PipeLim = MsgLim,
               DD_BuffCount = 0, DD_DestCnt = 0, DD_Scope = Scope, DD_Prev = 0, DD_Next = 0\<rparr>) s1;
            (D, R) = CFE_SB_AddDestNode RouteId DestPtr (Dests s2) (Routes s2)
        in ((CFE_SUCCESS, None),
            upd_stat (\<lambda>t. let t1 = t\<lparr>SubscriptionsInUse := SubscriptionsInUse t + 1\<rparr>
                in if PeakSubscriptionsInUse t1 < SubscriptionsInUse t1
                   then t1\<lparr>PeakSubscriptionsInUse := SubscriptionsInUse t1\<rparr> else t1)
              (s2\<lparr>Dests := D, Routes := R\<rparr>)))"

definition count_subscribe_event :: "CFE_SB_Event option \<Rightarrow> sb \<Rightarrow> sb" where
  "count_subscribe_event e s =
     (case e of
        None \<Rightarrow> s
      | Some x \<Rightarrow>
        if x \<in> {CFE_SB_SUB_INV_PIPE_EID, CFE_SB_SUB_INV_CALLER_EID, CFE_SB_SUB_ARG_ERR_EID,
                CFE_SB_MAX_MSGS_MET_EID, CFE_SB_DEST_BLK_ERR_EID, CFE_SB_MAX_DESTS_MET_EID}
        then upd_hk (\<lambda>h. h\<lparr>SubscribeErrorCounter := SubscribeErrorCounter h + 1\<rparr>) s
        else if x = CFE_SB_DUP_SUBSCRIP_EID
        then upd_hk (\<lambda>h. h\<lparr>DuplicateSubscriptionsCounter := DuplicateSubscriptionsCounter h + 1\<rparr>) s
        else s)"

text \<open>The part under the lock: the route, the walk and the new destination.\<close>

definition enter_subscription ::
  "CFE_ES_AppId \<Rightarrow> CFE_SB_MsgId \<Rightarrow> CFE_SB_PipeId \<Rightarrow> uint16 \<Rightarrow> uint8 \<Rightarrow> sb
     \<Rightarrow> (CFE_Status \<times> CFE_SB_Event option \<times> uint32 \<times> sb) option" where
  "enter_subscription AppId MsgId PipeId MsgLim Scope s = do {
     route \<leftarrow> subscribe_route AppId MsgId PipeId Scope s;
     (case route of
        Inl (st, e) \<Rightarrow> Some (st, e, 0, s)
      | Inr (RouteId, coll, s1) \<Rightarrow> do {
          (DestPtr, e) \<leftarrow> scan_dests (Dests s1)
              (CFE_SBR_GetDestListHeadPtr (Routes s1) RouteId) PipeId 0;
          if DestPtr = 0
          then case add_destination RouteId PipeId MsgLim Scope s1 of
                 ((st, e'), s') \<Rightarrow> Some (st, e', coll, s')
          else Some (if e = Some CFE_SB_MAX_DESTS_MET_EID then CFE_SB_MAX_DESTS_MET else CFE_SUCCESS,
                     e, coll, s1)
        })
   }"

text \<open>The counters, events and the report that follow.\<close>

definition finish_subscription ::
  "sb_caller \<Rightarrow> CFE_SB_MsgId \<Rightarrow> CFE_SB_PipeId \<Rightarrow> CFE_SB_Qos \<Rightarrow> uint8
     \<Rightarrow> CFE_Status \<Rightarrow> CFE_SB_Event option \<Rightarrow> uint32 \<Rightarrow> sb \<Rightarrow> (CFE_Status \<times> sb) option" where
  "finish_subscription ctx MsgId PipeId Quality Scope Status PendingEventID Collisions s2 = do {
     let s3 = count_subscribe_event PendingEventID s2;
     let s4 = (if PendingEventID \<noteq> None
               then snd (CFE_SB_GetPipeName True OS_MAX_API_NAME PipeId s3) else s3);
     let s5 = send_pending PendingEventID s4;
     let s6 = (if Status = CFE_SUCCESS \<and> PendingEventID = None
               then send_event CFE_SB_SUBSCRIPTION_RCVD_EID s5 else s5);
     s7 \<leftarrow> (if Status = CFE_SUCCESS \<and> Scope = CFE_SB_MSG_GLOBAL
            then map_option snd (CFE_SB_SendSubscriptionReport ctx MsgId PipeId Quality s6)
            else Some s6);
     Some (Status, if Collisions \<noteq> 0 then send_event CFE_SB_HASHCOLLISION_EID s7 else s7)
   }"

definition CFE_SB_SubscribeFull ::
  "sb_caller \<Rightarrow> CFE_SB_MsgId \<Rightarrow> CFE_SB_PipeId \<Rightarrow> CFE_SB_Qos \<Rightarrow> uint16 \<Rightarrow> uint8 \<Rightarrow> sb
     \<Rightarrow> (CFE_Status \<times> sb) option" where
  "CFE_SB_SubscribeFull ctx MsgId PipeId Quality MsgLim Scope s = do {
     (Status, PendingEventID, Collisions, s2) \<leftarrow>
       enter_subscription (caller_app ctx) MsgId PipeId MsgLim Scope s;
     finish_subscription ctx MsgId PipeId Quality Scope Status PendingEventID Collisions s2
   }"

definition CFE_SB_SubscribeEx ::
  "sb_caller \<Rightarrow> CFE_SB_MsgId \<Rightarrow> CFE_SB_PipeId \<Rightarrow> CFE_SB_Qos \<Rightarrow> uint16 \<Rightarrow> sb \<Rightarrow> (CFE_Status \<times> sb) option" where
  "CFE_SB_SubscribeEx ctx MsgId PipeId Quality MsgLim =
     CFE_SB_SubscribeFull ctx MsgId PipeId Quality MsgLim CFE_SB_MSG_GLOBAL"

definition CFE_SB_SubscribeLocal ::
  "sb_caller \<Rightarrow> CFE_SB_MsgId \<Rightarrow> CFE_SB_PipeId \<Rightarrow> uint16 \<Rightarrow> sb \<Rightarrow> (CFE_Status \<times> sb) option" where
  "CFE_SB_SubscribeLocal ctx MsgId PipeId MsgLim =
     CFE_SB_SubscribeFull ctx MsgId PipeId CFE_SB_DEFAULT_QOS MsgLim CFE_SB_MSG_LOCAL"

definition CFE_SB_Subscribe ::
  "sb_caller \<Rightarrow> CFE_SB_MsgId \<Rightarrow> CFE_SB_PipeId \<Rightarrow> sb \<Rightarrow> (CFE_Status \<times> sb) option" where
  "CFE_SB_Subscribe ctx MsgId PipeId =
     CFE_SB_SubscribeFull ctx MsgId PipeId CFE_SB_DEFAULT_QOS CFE_PLATFORM_SB_DEFAULT_MSG_LIMIT
       CFE_SB_MSG_GLOBAL"

subsection \<open>Unsubscribing\<close>

definition CFE_SB_UnsubscribeFull ::
  "CFE_SB_MsgId \<Rightarrow> CFE_SB_PipeId \<Rightarrow> uint8 \<Rightarrow> CFE_ES_AppId \<Rightarrow> sb \<Rightarrow> (CFE_Status \<times> sb) option" where
  "CFE_SB_UnsubscribeFull MsgId PipeId Scope AppId s = do {
     (Status, PendingEventID, s1) \<leftarrow>
       (case find_pipe PipeId s of
          None \<Rightarrow> Some (CFE_SB_BAD_ARGUMENT, Some CFE_SB_UNSUB_INV_PIPE_EID, s)
        | Some i \<Rightarrow>
          if PD_AppId (PipeTbl s ! i) \<noteq> AppId
          then Some (CFE_SB_BAD_ARGUMENT, Some CFE_SB_UNSUB_INV_CALLER_EID, s)
          else if \<not> CFE_SB_IsValidMsgId MsgId \<or> 1 < Scope
          then Some (CFE_SB_BAD_ARGUMENT, Some CFE_SB_UNSUB_ARG_ERR_EID, s)
          else do {
            RouteId \<leftarrow> get_route_id MsgId s;
            if \<not> CFE_SBR_IsValidRouteId RouteId
            then Some (CFE_SUCCESS, Some CFE_SB_UNSUB_NO_SUBS_EID, s)
            else do {
              DestPtr \<leftarrow> get_dest_ptr RouteId PipeId s;
              if DestPtr \<noteq> 0 then Some (CFE_SUCCESS, None, CFE_SB_RemoveDest RouteId DestPtr s)
              else Some (CFE_SUCCESS, Some CFE_SB_UNSUB_NO_SUBS_EID, s)
            }
          });
     let s2 = (if PendingEventID = Some CFE_SB_UNSUB_NO_SUBS_EID
               then snd (CFE_SB_GetPipeName True OS_MAX_API_NAME PipeId s1) else s1);
     let s3 = send_pending PendingEventID s2;
     Some (Status, if Status = CFE_SUCCESS \<and> PendingEventID = None
                   then send_event CFE_SB_SUBSCRIPTION_REMOVED_EID s3 else s3)
   }"

definition CFE_SB_Unsubscribe ::
  "sb_caller \<Rightarrow> CFE_SB_MsgId \<Rightarrow> CFE_SB_PipeId \<Rightarrow> sb \<Rightarrow> (CFE_Status \<times> sb) option" where
  "CFE_SB_Unsubscribe ctx MsgId PipeId =
     CFE_SB_UnsubscribeFull MsgId PipeId CFE_SB_MSG_GLOBAL (caller_app ctx)"

definition CFE_SB_UnsubscribeLocal ::
  "sb_caller \<Rightarrow> CFE_SB_MsgId \<Rightarrow> CFE_SB_PipeId \<Rightarrow> sb \<Rightarrow> (CFE_Status \<times> sb) option" where
  "CFE_SB_UnsubscribeLocal ctx MsgId PipeId =
     CFE_SB_UnsubscribeFull MsgId PipeId CFE_SB_MSG_LOCAL (caller_app ctx)"

definition CFE_SB_UnsubscribeWithAppId ::
  "CFE_SB_MsgId \<Rightarrow> CFE_SB_PipeId \<Rightarrow> CFE_ES_AppId \<Rightarrow> sb \<Rightarrow> (CFE_Status \<times> sb) option" where
  "CFE_SB_UnsubscribeWithAppId MsgId PipeId AppId =
     CFE_SB_UnsubscribeFull MsgId PipeId CFE_SB_MSG_LOCAL AppId"

subsection \<open>Deleting pipes and cleaning up\<close>

definition CFE_SB_RemovePipeFromRoute ::
  "CFE_SB_PipeId \<Rightarrow> CFE_SBR_RouteId \<Rightarrow> sb option \<Rightarrow> sb option" where
  "CFE_SB_RemovePipeFromRoute PipeId RouteId os = do {
     s \<leftarrow> os;
     destptr \<leftarrow> get_dest_ptr RouteId PipeId s;
     Some (if destptr \<noteq> 0 then CFE_SB_RemoveDest RouteId destptr s else s)
   }"

text \<open>The loop that empties the queue of a deleted pipe; it starts with the pipe's last buffer.\<close>

partial_function (option) drain_queue :: "osal_id \<Rightarrow> size_t \<Rightarrow> sb \<Rightarrow> sb option" where
  "drain_queue SysQueueId bd s =
     (let s1 = (if bd \<noteq> 0 then CFE_SB_DecrBufUseCnt bd s else s)
      in Option.bind (OS_QueueGet SysQueueId sizeof_ptr OS_CHECK (Queues s1)) (\<lambda>(st, data, Q).
           let s2 = s1\<lparr>Queues := Q\<rparr>
           in case data of
                None \<Rightarrow> Some s2
              | Some b \<Rightarrow> if st \<noteq> OS_SUCCESS then Some s2 else drain_queue SysQueueId b s2))"

declare drain_queue.simps [code]

definition CFE_SB_DeletePipeFull ::
  "CFE_SB_PipeId \<Rightarrow> CFE_ES_AppId \<Rightarrow> sb \<Rightarrow> (CFE_Status \<times> sb) option" where
  "CFE_SB_DeletePipeFull PipeId AppId s =
     (let fail = (\<lambda>e. Some (CFE_SB_BAD_ARGUMENT, send_event e
            (upd_hk (\<lambda>h. h\<lparr>CreatePipeErrorCounter := CreatePipeErrorCounter h + 1\<rparr>) s)))
      in case find_pipe PipeId s of
           None \<Rightarrow> fail CFE_SB_DEL_PIPE_ERR1_EID
         | Some i \<Rightarrow>
           if AppId \<noteq> PD_AppId (PipeTbl s ! i) then fail CFE_SB_DEL_PIPE_ERR2_EID
           else do {
             s1 \<leftarrow> fst (CFE_SBR_ForEachRouteId (CFE_SB_RemovePipeFromRoute PipeId) None
                          (RouteIdxTop (Routes s)) (Some s));
             let SysQueueId = PD_SysQueueId (PipeTbl s1 ! i);
             let BufDscPtr = PD_LastBuffer (PipeTbl s1 ! i);
             s2 \<leftarrow> drain_queue SysQueueId BufDscPtr
                    (CFE_SB_PipeDescSetUsed i CFE_RESOURCEID_RESERVED s1);
             let s3 = s2\<lparr>Queues := snd (OS_QueueDelete SysQueueId (Queues s2))\<rparr>;
             let s4 = upd_stat (\<lambda>t. t\<lparr>PipesInUse := PipesInUse t - 1\<rparr>) (CFE_SB_PipeDescSetFree i s3);
             Some (CFE_SUCCESS, send_event CFE_SB_PIPE_DELETED_EID s4)
           })"

definition CFE_SB_DeletePipe :: "sb_caller \<Rightarrow> CFE_SB_PipeId \<Rightarrow> sb \<Rightarrow> (CFE_Status \<times> sb) option" where
  "CFE_SB_DeletePipe ctx PipeId = CFE_SB_DeletePipeFull PipeId (caller_app ctx)"

definition CFE_SB_DeletePipeWithAppId ::
  "CFE_SB_PipeId \<Rightarrow> CFE_ES_AppId \<Rightarrow> sb \<Rightarrow> (CFE_Status \<times> sb) option" where
  "CFE_SB_DeletePipeWithAppId PipeId AppId = CFE_SB_DeletePipeFull PipeId AppId"

text \<open>The list heads are not descriptors: following one that is not the end has no meaning.\<close>

partial_function (option) release_loop :: "CFE_ES_AppId \<Rightarrow> link_ref \<Rightarrow> sb \<Rightarrow> sb option" where
  "release_loop AppId NextLink s =
     (if CFE_SB_TrackingListIsEnd ZeroCopyList NextLink then Some s
      else case NextLink of
             BufLink DscPtr \<Rightarrow>
               let Next' = CFE_SB_TrackingListGetNext NextLink (Links s);
                   s1 = (if BF_AppId (Bufs s DscPtr) = AppId then CFE_SB_DecrBufUseCnt DscPtr s else s)
               in release_loop AppId Next' s1
           | _ \<Rightarrow> None)"

declare release_loop.simps [code]

definition CFE_SB_ZeroCopyReleaseAppId :: "CFE_ES_AppId \<Rightarrow> sb \<Rightarrow> sb option" where
  "CFE_SB_ZeroCopyReleaseAppId AppId s =
     (if CFE_ResourceId_IsDefined AppId
      then release_loop AppId (CFE_SB_TrackingListGetNext ZeroCopyList (Links s)) s
      else Some s)"

fun delete_pipes :: "CFE_ES_AppId \<Rightarrow> CFE_SB_PipeId list \<Rightarrow> sb \<Rightarrow> sb option" where
  "delete_pipes AppId [] s = Some s"
| "delete_pipes AppId (p # ps) s =
     Option.bind (CFE_SB_DeletePipeWithAppId p AppId s) (\<lambda>(_, s'). delete_pipes AppId ps s')"

definition CFE_SB_CleanUpApp :: "CFE_ES_AppId \<Rightarrow> sb \<Rightarrow> (CFE_Status \<times> sb) option" where
  "CFE_SB_CleanUpApp AppId s = do {
     let DelList = map PD_PipeId
           (filter (\<lambda>p. CFE_SB_PipeDescIsUsed p \<and> PD_AppId p = AppId) (PipeTbl s));
     s1 \<leftarrow> delete_pipes AppId DelList s;
     s2 \<leftarrow> CFE_SB_ZeroCopyReleaseAppId AppId s1;
     Some (CFE_SUCCESS, s2)
   }"

subsection \<open>Commands (cfe_sb_task.c)\<close>

text \<open>Enabling and disabling a route differ in the value written and the three events.\<close>

definition set_route_active ::
  "uint8 \<Rightarrow> CFE_SB_Event \<Rightarrow> CFE_SB_Event \<Rightarrow> CFE_SB_Event \<Rightarrow> CFE_SB_MsgId \<Rightarrow> CFE_SB_PipeId \<Rightarrow> sb \<Rightarrow> sb option"
  where
  "set_route_active Active no_route done bad_param MsgId Pipe s =
     (if \<not> CFE_SB_IsValidMsgId MsgId \<or> find_pipe Pipe s = None
      then Some (send_event bad_param
             (upd_hk (\<lambda>h. h\<lparr>CommandErrorCounter := CommandErrorCounter h + 1\<rparr>) s))
      else do {
        RouteId \<leftarrow> get_route_id MsgId s;
        DestPtr \<leftarrow> get_dest_ptr RouteId Pipe s;
        Some (if DestPtr = 0
              then send_event no_route
                     (upd_hk (\<lambda>h. h\<lparr>CommandErrorCounter := CommandErrorCounter h + 1\<rparr>) s)
              else send_event done
                     (upd_hk (\<lambda>h. h\<lparr>CommandCounter := CommandCounter h + 1\<rparr>)
                       (upd_dest DestPtr (\<lambda>d. d\<lparr>DD_Active := Active\<rparr>) s)))
      })"

definition CFE_SB_EnableRouteCmd :: "CFE_SB_MsgId \<Rightarrow> CFE_SB_PipeId \<Rightarrow> sb \<Rightarrow> (CFE_Status \<times> sb) option" where
  "CFE_SB_EnableRouteCmd MsgId Pipe s =
     map_option (Pair CFE_SUCCESS) (set_route_active CFE_SB_ACTIVE CFE_SB_ENBL_RTE1_EID
       CFE_SB_ENBL_RTE2_EID CFE_SB_ENBL_RTE3_EID MsgId Pipe s)"

definition CFE_SB_DisableRouteCmd :: "CFE_SB_MsgId \<Rightarrow> CFE_SB_PipeId \<Rightarrow> sb \<Rightarrow> (CFE_Status \<times> sb) option" where
  "CFE_SB_DisableRouteCmd MsgId Pipe s =
     map_option (Pair CFE_SUCCESS) (set_route_active CFE_SB_INACTIVE CFE_SB_DSBL_RTE1_EID
       CFE_SB_DSBL_RTE2_EID CFE_SB_DSBL_RTE3_EID MsgId Pipe s)"

definition CFE_SB_SetSubscriptionReporting :: "bool \<Rightarrow> sb \<Rightarrow> sb" where
  "CFE_SB_SetSubscriptionReporting state s = s\<lparr>SubscriptionReporting := state\<rparr>"

definition CFE_SB_EnableSubReportingCmd :: "sb \<Rightarrow> CFE_Status \<times> sb" where
  "CFE_SB_EnableSubReportingCmd s = (CFE_SUCCESS, CFE_SB_SetSubscriptionReporting True s)"

definition CFE_SB_DisableSubReportingCmd :: "sb \<Rightarrow> CFE_Status \<times> sb" where
  "CFE_SB_DisableSubReportingCmd s = (CFE_SUCCESS, CFE_SB_SetSubscriptionReporting False s)"

definition CFE_SB_ResetCounters :: "sb \<Rightarrow> sb" where
  "CFE_SB_ResetCounters =
     upd_hk (\<lambda>h. h\<lparr>CommandCounter := 0, CommandErrorCounter := 0, NoSubscribersCounter := 0,
       DuplicateSubscriptionsCounter := 0, MsgSendErrorCounter := 0, MsgReceiveErrorCounter := 0,
       InternalErrorCounter := 0, CreatePipeErrorCounter := 0, SubscribeErrorCounter := 0,
       PipeOverflowErrorCounter := 0, MsgLimitErrorCounter := 0\<rparr>)"

subsection \<open>Initialisation (cfe_sb_init.c)\<close>

definition CFE_PLATFORM_SB_BUF_MEMORY_BYTES :: size_t where
  "CFE_PLATFORM_SB_BUF_MEMORY_BYTES = 524288"

definition CFE_SB_MemPoolDefSize :: "size_t list" where
  "CFE_SB_MemPoolDefSize =
     [32896, 32768, 16384, 8192, 4096, 2048, 1024, 512, 256, 160, 128, 96, 64, 36, 20, 16, 8]"

text \<open>
  The pool of SB is created in ES's table of pools; \<open>Partition\<close> is the address of SB's memory and
  \<open>AppId\<close> what ES finds as the caller.
\<close>

definition CFE_SB_InitBuffers :: "CFE_ES_AppId \<Rightarrow> size_t \<Rightarrow> sb \<Rightarrow> CFE_Status \<times> sb" where
  "CFE_SB_InitBuffers AppId Partition s =
     (case CFE_ES_PoolCreateEx [] True AppId True Partition CFE_PLATFORM_SB_BUF_MEMORY_BYTES
             (of_nat CFE_PLATFORM_ES_POOL_MAX_BUCKETS) (Some CFE_SB_MemPoolDefSize) False (Pools s) of
        ((Stat, h), P) \<Rightarrow>
          let s1 = s\<lparr>Pools := P, PoolHdl := (case h of None \<Rightarrow> PoolHdl s | Some x \<Rightarrow> x)\<rparr>
          in if Stat \<noteq> CFE_SUCCESS then (Stat, s1)
             else (CFE_SUCCESS, s1\<lparr>Links := CFE_SB_TrackingListReset ZeroCopyList
                     (CFE_SB_TrackingListReset InTransitList (Links s1))\<rparr>))"

definition CFE_SB_InitPipeTbl :: "sb \<Rightarrow> sb" where
  "CFE_SB_InitPipeTbl s = s\<lparr>LastPipeId := CFE_SB_PIPEID_BASE\<rparr>"

text \<open>
  All of the global data is cleared first.  The state before only gives what is not a part of it:
  ES's pools, the queues, the memory behind the descriptors and the events; \<open>mutex_ok\<close> says
  whether the mutex can be created.
\<close>

definition CFE_SB_EarlyInit :: "bool \<Rightarrow> CFE_ES_AppId \<Rightarrow> size_t \<Rightarrow> sb \<Rightarrow> CFE_Status \<times> sb" where
  "CFE_SB_EarlyInit mutex_ok AppId Partition s =
     (let s0 = s\<lparr>
          PipeTbl := replicate (unat CFE_PLATFORM_SB_MAX_PIPES)
            \<lparr>PD_PipeId = 0, PD_AppId = 0, PD_SysQueueId = 0, PD_Opts = 0, PD_SendErrors = 0,
             PD_MaxQueueDepth = 0, PD_CurrentQueueDepth = 0, PD_PeakQueueDepth = 0, PD_LastBuffer = 0\<rparr>,
          LastPipeId := 0, SubscriptionReporting := False, StopRecurseFlags := replicate 64 0,
          HKTlm := \<lparr>CommandCounter = 0, CommandErrorCounter = 0, NoSubscribersCounter = 0,
            MsgSendErrorCounter = 0, MsgReceiveErrorCounter = 0, InternalErrorCounter = 0,
            CreatePipeErrorCounter = 0, SubscribeErrorCounter = 0, PipeOptsErrorCounter = 0,
            DuplicateSubscriptionsCounter = 0, GetPipeIdByNameErrorCounter = 0,
            PipeOverflowErrorCounter = 0, MsgLimitErrorCounter = 0\<rparr>,
          StatTlm := \<lparr>MsgIdsInUse = 0, PeakMsgIdsInUse = 0, PipesInUse = 0, PeakPipesInUse = 0,
            MemInUse = 0, PeakMemInUse = 0, SubscriptionsInUse = 0, PeakSubscriptionsInUse = 0,
            SBBuffersInUse = 0, PeakSBBuffersInUse = 0\<rparr>,
          PoolHdl := 0\<rparr>
      in if \<not> mutex_ok then (CFE_STATUS_EXTERNAL_RESOURCE_FAIL, s0)
         else case CFE_SB_InitBuffers AppId Partition s0 of
                (Stat, s1) \<Rightarrow>
                  if Stat \<noteq> CFE_SUCCESS then (Stat, s1)
                  else (Stat, (CFE_SB_InitPipeTbl s1)\<lparr>Routes := CFE_SBR_Init CFE_SBR_Init_Map_direct\<rparr>))"

end
