(* ===== verification/Sb_Own.thy ===== *)
theory Sb_Own
  imports Sb_Sub "HOL-Library.Multiset"
begin

section \<open>Software bus: ownership of buffers\<close>

text \<open>
  The buffers of SB are reference counted.  The references are collected in a multiset \<open>R\<close>:
  one for each place that holds a buffer (a queue entry, a pipe's last buffer, an application
  with a zero-copy buffer, the routine that runs).  \<open>core s R zs ts Ds\<close> says that the use counts
  are those of \<open>R\<close>, that the two tracking lists hold \<open>zs\<close> and \<open>ts\<close>, which are exactly the buffers
  with a reference, and that the memory pool has handed out exactly these buffers and the
  destination blocks \<open>Ds\<close>.
\<close>

definition core_parts ::
  "CFE_ES_MemHandle \<Rightarrow> es_pools \<Rightarrow> (size_t \<Rightarrow> size_t \<times> uint16) \<Rightarrow> links \<Rightarrow> size_t multiset
     \<Rightarrow> size_t list \<Rightarrow> size_t list \<Rightarrow> size_t set \<Rightarrow> bool" where
  "core_parts h P B L R zs ts Ds \<longleftrightarrow>
     (\<exists>A. mem_rep h P A \<and> dom A = set zs \<union> set ts \<union> Ds \<and> 0 \<notin> dom A
        \<and> (\<forall>b \<in> set zs \<union> set ts. A b = Some (fst (B b)) \<and> fst (B b) \<noteq> 0 \<and> unat (snd (B b)) = count R b)
        \<and> (\<forall>d \<in> Ds. A d = Some sizeof_DestinationD))
     \<and> distinct (zs @ ts) \<and> (set zs \<union> set ts) \<inter> Ds = {}
     \<and> ring L ZeroCopyList (map BufLink zs) \<and> ring L InTransitList (map BufLink ts)
     \<and> set_mset R = set zs \<union> set ts"

definition buf_acct :: "sb \<Rightarrow> size_t \<Rightarrow> size_t \<times> uint16" where
  "buf_acct s b = (BF_AllocatedSize (Bufs s b), BF_UseCount (Bufs s b))"

definition core ::
  "sb \<Rightarrow> size_t multiset \<Rightarrow> size_t list \<Rightarrow> size_t list \<Rightarrow> size_t set \<Rightarrow> bool" where
  "core s R zs ts Ds \<longleftrightarrow> core_parts (PoolHdl s) (Pools s) (buf_acct s) (Links s) R zs ts Ds"

subsection \<open>Which fields the updates leave alone\<close>

lemma upd_frames [simp, frame]:
  "PoolHdl (upd_buf b f s) = PoolHdl s" "Pools (upd_buf b f s) = Pools s" "Links (upd_buf b f s) = Links s"
  "Dests (upd_buf b f s) = Dests s" "Routes (upd_buf b f s) = Routes s" "Queues (upd_buf b f s) = Queues s"
  "PipeTbl (upd_buf b f s) = PipeTbl s" "LastPipeId (upd_buf b f s) = LastPipeId s"
  "PoolHdl (upd_dest d g s) = PoolHdl s" "Pools (upd_dest d g s) = Pools s" "Links (upd_dest d g s) = Links s"
  "Bufs (upd_dest d g s) = Bufs s" "Routes (upd_dest d g s) = Routes s" "Queues (upd_dest d g s) = Queues s"
  "PipeTbl (upd_dest d g s) = PipeTbl s" "LastPipeId (upd_dest d g s) = LastPipeId s"
  "PoolHdl (upd_pipe i k s) = PoolHdl s" "Pools (upd_pipe i k s) = Pools s" "Links (upd_pipe i k s) = Links s"
  "Bufs (upd_pipe i k s) = Bufs s" "Routes (upd_pipe i k s) = Routes s" "Queues (upd_pipe i k s) = Queues s"
  "Dests (upd_pipe i k s) = Dests s" "LastPipeId (upd_pipe i k s) = LastPipeId s"
  "length (PipeTbl (upd_pipe i k s)) = length (PipeTbl s)"
  by (simp_all add: upd_buf_def upd_dest_def upd_pipe_def)

lemma note_frames [simp, frame]:
  "PoolHdl (upd_hk h s) = PoolHdl s" "Pools (upd_hk h s) = Pools s" "Links (upd_hk h s) = Links s"
  "Bufs (upd_hk h s) = Bufs s" "Dests (upd_hk h s) = Dests s" "Routes (upd_hk h s) = Routes s"
  "Queues (upd_hk h s) = Queues s" "PipeTbl (upd_hk h s) = PipeTbl s" "LastPipeId (upd_hk h s) = LastPipeId s"
  "PoolHdl (upd_stat g s) = PoolHdl s" "Pools (upd_stat g s) = Pools s" "Links (upd_stat g s) = Links s"
  "Bufs (upd_stat g s) = Bufs s" "Dests (upd_stat g s) = Dests s" "Routes (upd_stat g s) = Routes s"
  "Queues (upd_stat g s) = Queues s" "PipeTbl (upd_stat g s) = PipeTbl s" "LastPipeId (upd_stat g s) = LastPipeId s"
  "PoolHdl (send_event e s) = PoolHdl s" "Pools (send_event e s) = Pools s" "Links (send_event e s) = Links s"
  "Bufs (send_event e s) = Bufs s" "Dests (send_event e s) = Dests s" "Routes (send_event e s) = Routes s"
  "Queues (send_event e s) = Queues s" "PipeTbl (send_event e s) = PipeTbl s" "LastPipeId (send_event e s) = LastPipeId s"
  by (simp_all add: upd_hk_def upd_stat_def send_event_def)

lemma upd_reads [simp]:
  "Bufs (upd_buf b f s) x = (if x = b then f (Bufs s b) else Bufs s x)"
  "Dests (upd_dest d g s) y = (if y = d then g (Dests s d) else Dests s y)"
  "i < length (PipeTbl s) \<Longrightarrow> PipeTbl (upd_pipe i k s) ! j = (if j = i then k (PipeTbl s ! i) else PipeTbl s ! j)"
  by (simp_all add: upd_buf_def upd_dest_def upd_pipe_def nth_list_update)

lemma core_cong:
  "PoolHdl s' = PoolHdl s \<Longrightarrow> Pools s' = Pools s \<Longrightarrow> Links s' = Links s \<Longrightarrow> (\<And>b. buf_acct s' b = buf_acct s b)
     \<Longrightarrow> core s' R zs ts Ds \<longleftrightarrow> core s R zs ts Ds"
  by (metis core_def ext)

lemma core_frames [simp]:
  "core (upd_dest d g s) R zs ts Ds = core s R zs ts Ds"
  "core (upd_pipe i k s) R zs ts Ds = core s R zs ts Ds"
  "core (upd_hk h s) R zs ts Ds = core s R zs ts Ds"
  "core (upd_stat j s) R zs ts Ds = core s R zs ts Ds"
  "core (send_event e s) R zs ts Ds = core s R zs ts Ds"
  "core (s\<lparr>Queues := Q\<rparr>) R zs ts Ds = core s R zs ts Ds"
  "core (s\<lparr>Dests := D\<rparr>) R zs ts Ds = core s R zs ts Ds"
  "core (s\<lparr>Routes := T\<rparr>) R zs ts Ds = core s R zs ts Ds"
  "core (s\<lparr>LastPipeId := l\<rparr>) R zs ts Ds = core s R zs ts Ds"
  by (rule core_cong; simp add: buf_acct_def)+

lemma core_upd_buf:
  "(\<And>x. BF_AllocatedSize (f x) = BF_AllocatedSize x) \<Longrightarrow> (\<And>x. BF_UseCount (f x) = BF_UseCount x)
     \<Longrightarrow> core (upd_buf b f s) R zs ts Ds = core s R zs ts Ds"
  by (rule core_cong) (simp_all add: buf_acct_def)

text \<open>Whether the pool has room for a block; the only thing that an allocation depends on.\<close>

definition can_alloc :: "size_t \<Rightarrow> sb \<Rightarrow> bool" where
  "can_alloc n s \<longleftrightarrow> (case fst (CFE_ES_GetPoolBuf True (PoolHdl s) n (Pools s)) of
     Inl e \<Rightarrow> False | Inr (a, Stat) \<Rightarrow> 0 \<le> Stat)"

lemma can_alloc_cong: "PoolHdl s' = PoolHdl s \<Longrightarrow> Pools s' = Pools s \<Longrightarrow> can_alloc n s' = can_alloc n s"
  by (simp add: can_alloc_def)

lemma alloc_none:
  "CFE_SB_GetDestinationBlk s = (r, s') \<Longrightarrow> r = None \<longleftrightarrow> \<not> can_alloc sizeof_DestinationD s"
  "CFE_SB_GetBufferFromPool n s = (r, s') \<Longrightarrow> r = None \<longleftrightarrow> \<not> can_alloc (n + CFE_SB_BUFFERD_CONTENT_OFFSET) s"
  by (auto simp: CFE_SB_GetDestinationBlk_def CFE_SB_GetBufferFromPool_def can_alloc_def Let_def
      split: sum.splits prod.splits if_splits)

text \<open>What the invariant says of a referenced buffer.\<close>

lemma coreD:
  assumes "core s R zs ts Ds"
  shows "set_mset R = set zs \<union> set ts" "distinct (zs @ ts)" "(set zs \<union> set ts) \<inter> Ds = {}"
    "ring (Links s) ZeroCopyList (map BufLink zs)" "ring (Links s) InTransitList (map BufLink ts)"
    "0 \<notin> set zs \<union> set ts \<union> Ds"
    "b \<in># R \<Longrightarrow> unat (BF_UseCount (Bufs s b)) = count R b"
  using assms by (auto simp: core_def core_parts_def buf_acct_def)

subsection \<open>Use counts\<close>

lemma core_incr:
  assumes c: "core s R zs ts Ds" and b: "b \<in># R" "count R b < 0x7FFF"
  shows "core (CFE_SB_IncrBufUseCnt b s) (add_mset b R) zs ts Ds"
proof -
  from coreD(7) [OF c b(1)] b(2) have u: "unat (BF_UseCount (Bufs s b)) = count R b"
    "unat (BF_UseCount (Bufs s b)) < 0x7FFF" by simp_all
  then have u1: "unat (BF_UseCount (Bufs s b) + 1) = count R b + 1"
    by (simp add: unat_Suc_small)
  have lt: "BF_UseCount (Bufs s b) < 0x7FFF" using u(2) by (simp add: word_less_nat_alt)
  have acct: "buf_acct (CFE_SB_IncrBufUseCnt b s) x
      = (if x = b then (fst (buf_acct s b), BF_UseCount (Bufs s b) + 1) else buf_acct s x)" for x
    using lt by (simp add: CFE_SB_IncrBufUseCnt_def buf_acct_def)
  have "PoolHdl (CFE_SB_IncrBufUseCnt b s) = PoolHdl s" "Pools (CFE_SB_IncrBufUseCnt b s) = Pools s"
    "Links (CFE_SB_IncrBufUseCnt b s) = Links s" using lt by (simp_all add: CFE_SB_IncrBufUseCnt_def)
  with c b(1) u1 show ?thesis
    unfolding core_def core_parts_def by (auto simp: acct intro: exI)
qed

text \<open>Dropping a reference; the last one removes the buffer from its list and frees it.\<close>

lemma core_return:
  assumes c: "core s (add_mset b R) zs ts Ds" and b: "b \<notin># R"
    and f: "\<And>x. BF_AllocatedSize (f x) = BF_AllocatedSize x"
  shows "core (CFE_SB_ReturnBufferToPool b (upd_buf b f s)) R (remove1 b zs) (remove1 b ts) Ds"
proof -
  from c obtain A where A: "mem_rep (PoolHdl s) (Pools s) A" "dom A = set zs \<union> set ts \<union> Ds" "0 \<notin> dom A"
    and bufs: "\<forall>x \<in> set zs \<union> set ts. A x = Some (fst (buf_acct s x)) \<and> fst (buf_acct s x) \<noteq> 0
                \<and> unat (snd (buf_acct s x)) = count (add_mset b R) x"
    and ds: "\<forall>d \<in> Ds. A d = Some sizeof_DestinationD"
    unfolding core_def core_parts_def by blast
  note D = coreD [OF c]
  have bin: "b \<in> set zs \<union> set ts" using D(1) by auto
  then have "A b = Some (BF_AllocatedSize (Bufs s b))" "BF_AllocatedSize (Bufs s b) \<noteq> 0"
    using bufs by (auto simp: buf_acct_def)
  from es_pool.put_frees [OF A(1) this] obtain P where
    put: "CFE_ES_PutPoolBuf (PoolHdl s) b (Pools s) = (Inr (to_int32 (BF_AllocatedSize (Bufs s b))), P)"
    and rep: "mem_rep (PoolHdl s) P (A(b := None))" by blast
  let ?s = "CFE_SB_ReturnBufferToPool b (upd_buf b f s)"
  have s': "PoolHdl ?s = PoolHdl s" "Pools ?s = P" "x \<noteq> b \<Longrightarrow> buf_acct ?s x = buf_acct s x"
    "Links ?s = CFE_SB_TrackingListRemove (BufLink b) (Links s)" for x
    using put by (simp_all add: CFE_SB_ReturnBufferToPool_def Let_def buf_acct_def f)
  have inj: "remove1 (BufLink b) (map BufLink xs) = map BufLink (remove1 b xs)" for xs
    by (induction xs) auto
  have rings: "ring (Links ?s) ZeroCopyList (map BufLink (remove1 b zs))
      \<and> ring (Links ?s) InTransitList (map BufLink (remove1 b ts))"
  proof (cases "b \<in> set zs")
    case True
    then have m: "BufLink b \<in> set (map BufLink zs)" and nt: "b \<notin> set ts" using D(2) by auto
    have "set (ZeroCopyList # map BufLink zs) \<inter> set (InTransitList # map BufLink ts) = {}"
      using D(2) by auto
    with ring_remove(1) [OF D(4) m] ring_remove_other [OF D(4) m D(5)] nt show ?thesis
      by (simp add: s' inj remove1_idem)
  next
    case False
    then have m: "BufLink b \<in> set (map BufLink ts)" using bin by auto
    have "set (InTransitList # map BufLink ts) \<inter> set (ZeroCopyList # map BufLink zs) = {}"
      using D(2) by auto
    with ring_remove(1) [OF D(5) m] ring_remove_other [OF D(5) m D(4)] False show ?thesis
      by (simp add: s' inj remove1_idem)
  qed
  have sets: "set (remove1 b zs) = set zs - {b}" "set (remove1 b ts) = set ts - {b}"
    using D(2) by (simp_all add: set_remove1_eq)
  have dA: "dom (A(b := None)) = set (remove1 b zs) \<union> set (remove1 b ts) \<union> Ds"
    using A(2) bin D(3) by (auto simp: sets)
  show ?thesis
    unfolding core_def core_parts_def
  proof (intro conjI exI [of _ "A(b := None)"])
    show "mem_rep (PoolHdl ?s) (Pools ?s) (A(b := None))" using rep by (simp add: s')
    show "\<forall>x \<in> set (remove1 b zs) \<union> set (remove1 b ts). (A(b := None)) x = Some (fst (buf_acct ?s x))
        \<and> fst (buf_acct ?s x) \<noteq> 0 \<and> unat (snd (buf_acct ?s x)) = count R x"
      using bufs by (auto simp: sets s')
    show "\<forall>d \<in> Ds. (A(b := None)) d = Some sizeof_DestinationD" using ds bin D(3) by auto
    show "distinct (remove1 b zs @ remove1 b ts)" using D(2) by (auto simp: sets)
    show "set_mset R = set (remove1 b zs) \<union> set (remove1 b ts)"
      using D(1) b by (auto simp: sets)
  qed (use dA rings A(3) D(3) in \<open>auto simp: sets\<close>)
qed

lemma core_decr:
  assumes c: "core s (add_mset b R) zs ts Ds"
  shows "core (CFE_SB_DecrBufUseCnt b s) R (if b \<in># R then zs else remove1 b zs)
           (if b \<in># R then ts else remove1 b ts) Ds"
proof -
  let ?u = "BF_UseCount (Bufs s b)"
  from coreD(7) [OF c, of b] have u: "unat ?u = Suc (count R b)" by simp
  then have nz: "?u \<noteq> 0" by auto
  have u1: "unat (?u - 1) = count R b" using u nz by (simp add: unat_minus_one)
  let ?s = "upd_buf b (\<lambda>x. x\<lparr>BF_UseCount := BF_UseCount x - 1\<rparr>) s"
  have z: "?u - 1 = 0 \<longleftrightarrow> b \<notin># R"
    using u1 by (metis count_greater_zero_iff not_gr_zero unsigned_0 unsigned_eq_0_iff)
  have acct: "buf_acct ?s x = (if x = b then (fst (buf_acct s b), ?u - 1) else buf_acct s x)" for x
    by (simp add: buf_acct_def)
  have gt: "0 < ?u" using nz by (simp add: word_neq_0_conv)
  show ?thesis
  proof (cases "b \<in># R")
    case True
    then have "CFE_SB_DecrBufUseCnt b s = ?s" using gt z by (simp add: CFE_SB_DecrBufUseCnt_def Let_def)
    moreover have "core ?s R zs ts Ds"
      using c True u1 unfolding core_def core_parts_def by (auto simp: acct insert_absorb intro: exI)
    ultimately show ?thesis using True by simp
  next
    case False
    have fs: "CFE_SB_DecrBufUseCnt b s = CFE_SB_ReturnBufferToPool b ?s"
      using False gt z by (simp add: CFE_SB_DecrBufUseCnt_def Let_def)
    show ?thesis using core_return [OF c False, of "\<lambda>x. x\<lparr>BF_UseCount := BF_UseCount x - 1\<rparr>"] False
      by (simp add: fs)
  qed
qed

lemma cnt_frames [simp, frame]:
  "PoolHdl (CFE_SB_IncrBufUseCnt b s) = PoolHdl s" "Dests (CFE_SB_IncrBufUseCnt b s) = Dests s"
  "Routes (CFE_SB_IncrBufUseCnt b s) = Routes s" "Queues (CFE_SB_IncrBufUseCnt b s) = Queues s"
  "PipeTbl (CFE_SB_IncrBufUseCnt b s) = PipeTbl s" "LastPipeId (CFE_SB_IncrBufUseCnt b s) = LastPipeId s"
  "Links (CFE_SB_IncrBufUseCnt b s) = Links s"
  "PoolHdl (CFE_SB_DecrBufUseCnt b s) = PoolHdl s" "Dests (CFE_SB_DecrBufUseCnt b s) = Dests s"
  "Routes (CFE_SB_DecrBufUseCnt b s) = Routes s" "Queues (CFE_SB_DecrBufUseCnt b s) = Queues s"
  "PipeTbl (CFE_SB_DecrBufUseCnt b s) = PipeTbl s" "LastPipeId (CFE_SB_DecrBufUseCnt b s) = LastPipeId s"
  by (simp_all add: CFE_SB_IncrBufUseCnt_def CFE_SB_DecrBufUseCnt_def CFE_SB_ReturnBufferToPool_def Let_def)

text \<open>A descriptor without its use count: counting references changes nothing else of it.\<close>

definition payload :: "BufferD \<Rightarrow> BufferD" where
  "payload x = x\<lparr>BF_UseCount := 0\<rparr>"

lemma payloadD:
  assumes "payload x = payload y"
  shows "BF_DestRouteId x = BF_DestRouteId y" "BF_AppId x = BF_AppId y" "BF_MsgId x = BF_MsgId y"
    "BF_AllocatedSize x = BF_AllocatedSize y" "BF_ContentSize x = BF_ContentSize y"
    "BF_Content x = BF_Content y"
  using assms by (cases x; cases y; simp add: payload_def)+

lemma cnt_payload [simp]:
  "payload (Bufs (CFE_SB_IncrBufUseCnt b s) x) = payload (Bufs s x)"
  "payload (Bufs (CFE_SB_DecrBufUseCnt b s) x) = payload (Bufs s x)"
  by (simp_all add: CFE_SB_IncrBufUseCnt_def CFE_SB_DecrBufUseCnt_def CFE_SB_ReturnBufferToPool_def
      Let_def payload_def)

subsection \<open>Handing out a buffer, and moving it into transit\<close>

lemma to_int32_small:
  assumes "unat (n :: size_t) < 2 ^ 31"
  shows "to_int32 n = uint n"
proof -
  let ?w = "ucast n :: 32 word"
  have "unat ?w = unat n" by (rule unat_ucast_small) (use assms in simp)
  then have u: "uint ?w = uint n" by (metis uint_nat)
  have lt: "uint n < 2 ^ 31" using assms by (metis (mono_tags, lifting) of_nat_less_numeral_power_cancel_iff of_nat_unat)
  have "sint ?w = signed_take_bit 31 (uint ?w)" by (simp add: sint_uint)
  also have "\<dots> = uint ?w"
    by (rule signed_take_bit_int_eq_self; use lt uint_ge_0 [of n] in \<open>unfold u, linarith\<close>)
  finally show ?thesis by (simp add: to_int32_def u)
qed

lemma core_alloc:
  assumes c: "core s R zs ts Ds" and n: "unat n \<le> 32768"
    and g: "CFE_SB_GetBufferFromPool n s = (Some b, s1)"
  shows "b \<noteq> 0" "b \<notin> set zs \<union> set ts \<union> Ds"
    "Bufs s1 = (Bufs s)(b := \<lparr>BF_DestRouteId = 0, BF_AppId = 0, BF_MsgId = 0,
       BF_AllocatedSize = n + CFE_SB_BUFFERD_CONTENT_OFFSET, BF_ContentSize = 0, BF_UseCount = 1,
       BF_Content = BF_Content (Bufs s b)\<rparr>)"
    "core (s1\<lparr>Links := CFE_SB_TrackingListAdd ZeroCopyList (BufLink b) (Links s1)\<rparr>)
       (add_mset b R) (zs @ [b]) ts Ds"
proof -
  let ?n = "n + CFE_SB_BUFFERD_CONTENT_OFFSET"
  have un: "unat ?n = unat n + 64"
    using n by (simp add: CFE_SB_BUFFERD_CONTENT_OFFSET_def unat_plus_small)
  then have nz: "?n \<noteq> 0" by auto
  from c obtain A where A: "mem_rep (PoolHdl s) (Pools s) A" "dom A = set zs \<union> set ts \<union> Ds" "0 \<notin> dom A"
    and bufs: "\<forall>x \<in> set zs \<union> set ts. A x = Some (fst (buf_acct s x)) \<and> fst (buf_acct s x) \<noteq> 0
                \<and> unat (snd (buf_acct s x)) = count R x"
    and ds: "\<forall>d \<in> Ds. A d = Some sizeof_DestinationD"
    unfolding core_def core_parts_def by blast
  note D = coreD [OF c]
  from g obtain r P where get: "CFE_ES_GetPoolBuf True (PoolHdl s) ?n (Pools s) = (Inr (b, r), P)"
    and s1: "PoolHdl s1 = PoolHdl s" "Pools s1 = P"
      "Links s1 = CFE_SB_TrackingListReset (BufLink b) (Links s)"
    and B: "Bufs s1 = (Bufs s)(b := \<lparr>BF_DestRouteId = 0, BF_AppId = 0, BF_MsgId = 0,
       BF_AllocatedSize = ?n, BF_ContentSize = 0, BF_UseCount = 1, BF_Content = BF_Content (Bufs s b)\<rparr>)"
    by (auto simp: CFE_SB_GetBufferFromPool_def Let_def upd_buf_def upd_stat_def
        split: sum.splits prod.splits if_splits)
  from es_pool.get_fresh [OF A(1) get] have f: "b \<notin> dom A" "b \<noteq> 0"
    "mem_rep (PoolHdl s) P (A(b \<mapsto> ?n))" by auto
  show "b \<noteq> 0" by (rule f(2))
  show new: "b \<notin> set zs \<union> set ts \<union> Ds" using f(1) A(2) by simp
  show "Bufs s1 = (Bufs s)(b := \<lparr>BF_DestRouteId = 0, BF_AppId = 0, BF_MsgId = 0,
       BF_AllocatedSize = ?n, BF_ContentSize = 0, BF_UseCount = 1, BF_Content = BF_Content (Bufs s b)\<rparr>)"
    by (rule B)
  have L: "Links s1 x = Links s x" if "x \<noteq> BufLink b" for x
    using that by (simp add: s1 reset_other)
  have r1: "ring (Links s1) ZeroCopyList (map BufLink zs)"
    using D(4) new by (subst ring_cong [of _ _ _ "Links s"]) (auto intro: L)
  have r2: "ring (Links s1) InTransitList (map BufLink ts)"
    using D(5) new by (subst ring_cong [of _ _ _ "Links s"]) (auto intro: L)
  let ?s = "s1\<lparr>Links := CFE_SB_TrackingListAdd ZeroCopyList (BufLink b) (Links s1)\<rparr>"
  have nz': "BufLink b \<notin> set (ZeroCopyList # map BufLink zs)" using new by auto
  have r1': "ring (Links ?s) ZeroCopyList (map BufLink (zs @ [b]))"
    using ring_add(1) [OF r1 nz'] by simp
  have r2': "ring (Links ?s) InTransitList (map BufLink ts)"
    using ring_add_other [OF r1 nz' r2] D(2) new by auto
  have bR: "b \<notin># R" using D(1) new by auto
  have acct: "buf_acct ?s x = (if x = b then (?n, 1) else buf_acct s x)" for x
    by (simp add: buf_acct_def B)
  show "core ?s (add_mset b R) (zs @ [b]) ts Ds"
    unfolding core_def core_parts_def
  proof (intro conjI exI [of _ "A(b \<mapsto> ?n)"])
    show "mem_rep (PoolHdl ?s) (Pools ?s) (A(b \<mapsto> ?n))" using f(3) by (simp add: s1)
    show "\<forall>x \<in> set (zs @ [b]) \<union> set ts. (A(b \<mapsto> ?n)) x = Some (fst (buf_acct ?s x))
        \<and> fst (buf_acct ?s x) \<noteq> 0 \<and> unat (snd (buf_acct ?s x)) = count (add_mset b R) x"
      using bufs bR nz new by (auto simp: acct not_in_iff)
    show "\<forall>d \<in> Ds. (A(b \<mapsto> ?n)) d = Some sizeof_DestinationD" using ds new by auto
  qed (use A D new f(2) r1' r2' in auto)
qed

lemma core_alloc_fails:
  assumes c: "core s R zs ts Ds" and n: "unat n \<le> 32768"
    and g: "CFE_SB_GetBufferFromPool n s = (None, s1)"
  shows "core s1 R zs ts Ds" "Bufs s1 = Bufs s"
proof -
  let ?n = "n + CFE_SB_BUFFERD_CONTENT_OFFSET"
  have un: "unat ?n = unat n + 64"
    using n by (simp add: CFE_SB_BUFFERD_CONTENT_OFFSET_def unat_plus_small)
  have "to_int32 ?n = uint ?n" using n by (intro to_int32_small) (simp add: un)
  then have pos: "\<not> to_int32 ?n < 0" by (simp add: not_less)
  from c obtain A where A: "mem_rep (PoolHdl s) (Pools s) A" "dom A = set zs \<union> set ts \<union> Ds" "0 \<notin> dom A"
      "\<forall>x \<in> set zs \<union> set ts. A x = Some (fst (buf_acct s x)) \<and> fst (buf_acct s x) \<noteq> 0
                \<and> unat (snd (buf_acct s x)) = count R x"
      "\<forall>d \<in> Ds. A d = Some sizeof_DestinationD"
    unfolding core_def core_parts_def by blast
  obtain e P where get: "CFE_ES_GetPoolBuf True (PoolHdl s) ?n (Pools s) = (Inl e, P)"
    and s1: "s1 = s\<lparr>Pools := P\<rparr>"
    using g es_pool.get_fresh [OF A(1), of ?n] pos
    by (auto simp: CFE_SB_GetBufferFromPool_def Let_def split: sum.splits prod.splits if_splits)
  show "Bufs s1 = Bufs s" by (simp add: s1)
  have acct: "buf_acct s1 = buf_acct s" by (simp add: s1 buf_acct_def fun_eq_iff)
  have "mem_rep (PoolHdl s1) (Pools s1) A" using es_pool.get_fails [OF A(1) get] by (simp add: s1)
  moreover have "Links s1 = Links s" by (simp add: s1)
  ultimately show "core s1 R zs ts Ds"
    unfolding core_def core_parts_def acct
    by (intro conjI exI [of _ A]) (use A(2-) coreD [OF c] in auto)
qed

lemma alloc_frames:
  assumes "CFE_SB_GetBufferFromPool n s = (r, s1)"
  shows "PoolHdl s1 = PoolHdl s" "Dests s1 = Dests s" "Routes s1 = Routes s" "Queues s1 = Queues s"
    "PipeTbl s1 = PipeTbl s" "LastPipeId s1 = LastPipeId s"
  using assms by (auto simp: CFE_SB_GetBufferFromPool_def Let_def split: sum.splits prod.splits if_splits)

lemma core_move:
  assumes c: "core s R zs ts Ds" and b: "b \<in> set zs"
  shows "core (s\<lparr>Links := CFE_SB_TrackingListAdd InTransitList (BufLink b)
            (CFE_SB_TrackingListRemove (BufLink b) (Links s))\<rparr>) R (remove1 b zs) (ts @ [b]) Ds"
proof -
  note D = coreD [OF c]
  have inj: "remove1 (BufLink b) (map BufLink xs) = map BufLink (remove1 b xs)" for xs
    by (induction xs) auto
  let ?L = "CFE_SB_TrackingListRemove (BufLink b) (Links s)"
  have bt: "b \<notin> set ts" using D(2) b by auto
  have m: "BufLink b \<in> set (map BufLink zs)" using b by simp
  have dis: "set (ZeroCopyList # map BufLink zs) \<inter> set (InTransitList # map BufLink ts) = {}"
    using D(2) by auto
  have r1: "ring ?L ZeroCopyList (map BufLink (remove1 b zs))"
    using ring_remove(1) [OF D(4) m] by (simp add: inj)
  have r2: "ring ?L InTransitList (map BufLink ts)" by (rule ring_remove_other [OF D(4) m D(5) dis])
  have nm: "BufLink b \<notin> set (InTransitList # map BufLink ts)" using bt by auto
  have r2': "ring (CFE_SB_TrackingListAdd InTransitList (BufLink b) ?L) InTransitList (map BufLink (ts @ [b]))"
    using ring_add(1) [OF r2 nm] by simp
  have sets: "set (remove1 b zs) = set zs - {b}" using D(2) by (simp add: set_remove1_eq)
  have "set (BufLink b # InTransitList # map BufLink ts) \<inter> set (ZeroCopyList # map BufLink (remove1 b zs)) = {}"
    using D(2) by (auto simp: sets)
  from ring_add_other [OF r2 nm r1 this]
  have r1': "ring (CFE_SB_TrackingListAdd InTransitList (BufLink b) ?L) ZeroCopyList (map BufLink (remove1 b zs))" .
  have un: "set (remove1 b zs) \<union> set (ts @ [b]) = set zs \<union> set ts" using b by (auto simp: sets)
  let ?s = "s\<lparr>Links := CFE_SB_TrackingListAdd InTransitList (BufLink b) ?L\<rparr>"
  have acct: "buf_acct ?s = buf_acct s" by (simp add: fun_eq_iff buf_acct_def)
  have dist: "distinct (remove1 b zs @ ts @ [b])" using D(2) bt by (auto simp: sets)
  show ?thesis
    unfolding core_def core_parts_def acct un
    using c r1' r2' dist unfolding core_def core_parts_def by simp
qed

subsection \<open>Destination blocks\<close>

lemma core_dest_alloc:
  assumes c: "core s R zs ts Ds" and g: "CFE_SB_GetDestinationBlk s = (r, s1)"
  shows "r = Some d \<Longrightarrow> d \<noteq> 0 \<and> d \<notin> Ds \<and> core s1 R zs ts (insert d Ds)"
    "r = None \<Longrightarrow> core s1 R zs ts Ds"
    "PoolHdl s1 = PoolHdl s" "Dests s1 = Dests s" "Routes s1 = Routes s" "Queues s1 = Queues s"
    "PipeTbl s1 = PipeTbl s" "LastPipeId s1 = LastPipeId s" "Bufs s1 = Bufs s"
proof -
  from c obtain A where A: "mem_rep (PoolHdl s) (Pools s) A" "dom A = set zs \<union> set ts \<union> Ds" "0 \<notin> dom A"
    and bufs: "\<forall>x \<in> set zs \<union> set ts. A x = Some (fst (buf_acct s x)) \<and> fst (buf_acct s x) \<noteq> 0
                \<and> unat (snd (buf_acct s x)) = count R x"
    and ds: "\<forall>d \<in> Ds. A d = Some sizeof_DestinationD"
    unfolding core_def core_parts_def by blast
  note D = coreD [OF c]
  have pos: "\<not> to_int32 sizeof_DestinationD < 0"
    by (subst to_int32_small) (simp_all add: sizeof_DestinationD_def)
  show "PoolHdl s1 = PoolHdl s" "Dests s1 = Dests s" "Routes s1 = Routes s" "Queues s1 = Queues s"
    "PipeTbl s1 = PipeTbl s" "LastPipeId s1 = LastPipeId s" and B: "Bufs s1 = Bufs s"
    using g by (auto simp: CFE_SB_GetDestinationBlk_def split: sum.splits prod.splits if_splits)
  have L: "Links s1 = Links s" "PoolHdl s1 = PoolHdl s"
    using g by (auto simp: CFE_SB_GetDestinationBlk_def split: sum.splits prod.splits if_splits)
  have acct: "buf_acct s1 = buf_acct s" by (simp add: B fun_eq_iff buf_acct_def)
  show "d \<noteq> 0 \<and> d \<notin> Ds \<and> core s1 R zs ts (insert d Ds)" if "r = Some d"
  proof -
    from g that obtain k P where get:
      "CFE_ES_GetPoolBuf True (PoolHdl s) sizeof_DestinationD (Pools s) = (Inr (d, k), P)"
      and P: "Pools s1 = P"
      by (auto simp: CFE_SB_GetDestinationBlk_def split: sum.splits prod.splits if_splits)
    from es_pool.get_fresh [OF A(1) get] have f: "d \<notin> dom A" "d \<noteq> 0"
      "mem_rep (PoolHdl s) P (A(d \<mapsto> sizeof_DestinationD))" by auto
    have "core s1 R zs ts (insert d Ds)"
      unfolding core_def core_parts_def acct L
      by (intro conjI exI [of _ "A(d \<mapsto> sizeof_DestinationD)"])
        (use f A bufs ds D in \<open>auto simp: P\<close>)
    with f A(2) show ?thesis by auto
  qed
  show "core s1 R zs ts Ds" if "r = None"
  proof -
    from g that obtain e P where get:
      "CFE_ES_GetPoolBuf True (PoolHdl s) sizeof_DestinationD (Pools s) = (Inl e, P)" and P: "Pools s1 = P"
      using es_pool.get_fresh [OF A(1)] pos
      by (auto simp: CFE_SB_GetDestinationBlk_def split: sum.splits prod.splits if_splits)
    from es_pool.get_fails [OF A(1) get] have "mem_rep (PoolHdl s) P A" .
    then show ?thesis
      unfolding core_def core_parts_def acct L
      by (intro conjI exI [of _ A]) (use A(2-) bufs ds D in \<open>auto simp: P\<close>)
  qed
qed

lemma core_dest_free:
  assumes c: "core s R zs ts Ds" and d: "d \<in> Ds"
  shows "core (snd (CFE_SB_PutDestinationBlk d s)) R zs ts (Ds - {d})"
proof -
  from c obtain A where A: "mem_rep (PoolHdl s) (Pools s) A" "dom A = set zs \<union> set ts \<union> Ds" "0 \<notin> dom A"
    and bufs: "\<forall>x \<in> set zs \<union> set ts. A x = Some (fst (buf_acct s x)) \<and> fst (buf_acct s x) \<noteq> 0
                \<and> unat (snd (buf_acct s x)) = count R x"
    and ds: "\<forall>d \<in> Ds. A d = Some sizeof_DestinationD"
    unfolding core_def core_parts_def by blast
  note D = coreD [OF c]
  have "A d = Some sizeof_DestinationD" "sizeof_DestinationD \<noteq> 0"
    using ds d by (auto simp: sizeof_DestinationD_def)
  from es_pool.put_frees [OF A(1) this] obtain P where
    put: "CFE_ES_PutPoolBuf (PoolHdl s) d (Pools s) = (Inr (to_int32 sizeof_DestinationD), P)"
    and rep: "mem_rep (PoolHdl s) P (A(d := None))" by blast
  have "d \<noteq> 0" using D(6) d by auto
  let ?s = "snd (CFE_SB_PutDestinationBlk d s)"
  have s': "PoolHdl ?s = PoolHdl s" "Pools ?s = P" "Links ?s = Links s" "Bufs ?s = Bufs s"
    using put \<open>d \<noteq> 0\<close> by (simp_all add: CFE_SB_PutDestinationBlk_def)
  have acct: "buf_acct ?s = buf_acct s" by (simp add: s' fun_eq_iff buf_acct_def)
  show ?thesis
    unfolding core_def core_parts_def acct s'
    by (intro conjI exI [of _ "A(d := None)"]) (use rep A bufs ds D d in auto)
qed

lemma put_dest_frames [simp, frame]:
  "PoolHdl (snd (CFE_SB_PutDestinationBlk d s)) = PoolHdl s" "Dests (snd (CFE_SB_PutDestinationBlk d s)) = Dests s"
  "Routes (snd (CFE_SB_PutDestinationBlk d s)) = Routes s" "Queues (snd (CFE_SB_PutDestinationBlk d s)) = Queues s"
  "PipeTbl (snd (CFE_SB_PutDestinationBlk d s)) = PipeTbl s" "Bufs (snd (CFE_SB_PutDestinationBlk d s)) = Bufs s"
  "LastPipeId (snd (CFE_SB_PutDestinationBlk d s)) = LastPipeId s"
  by (auto simp: CFE_SB_PutDestinationBlk_def split: sum.splits prod.splits)

end
