(* ===== verification/Sb_Inv.thy ===== *)
theory Sb_Inv
  imports Sb_Own
begin

section \<open>Software bus: the invariant\<close>

text \<open>
  \<open>refs s\<close> are the references held by pipes: one for each queue entry and one for each last
  buffer.  \<open>pipes_ok\<close> is the consistency of pipe table and queues, \<open>ids_ok\<close> says that each
  pipe in use is found by its ID, \<open>routes_ok\<close> that every destination list is well formed and
  names pipes in use, each at most once.  \<open>running s X\<close> is the invariant while a routine holds the
  references \<open>X\<close>, and \<open>sb_inv K\<close> between calls, where the only other references are those of the
  applications that own zero-copy buffers and the lost ones, \<open>K\<close>: the entries left in a queue that could not be
  read when its pipe was deleted. They are counted but nothing names them any more. Every count stays below
  64 times 51, the references that all pipes can hold.
\<close>

definition pipe_refs :: "PipeD \<Rightarrow> os_queues \<Rightarrow> size_t multiset" where
  "pipe_refs p Q =
     (if CFE_SB_PipeDescIsUsed p
      then mset (items Q (PD_SysQueueId p)) + (if PD_LastBuffer p \<noteq> 0 then {#PD_LastBuffer p#} else {#})
      else {#})"

definition refs :: "sb \<Rightarrow> size_t multiset" where
  "refs s = (\<Sum>i<64. pipe_refs (PipeTbl s ! i) (Queues s))"

definition used :: "sb \<Rightarrow> nat \<Rightarrow> bool" where
  "used s i \<longleftrightarrow> i < 64 \<and> CFE_SB_PipeDescIsUsed (PipeTbl s ! i)"

definition queue_of :: "sb \<Rightarrow> nat \<Rightarrow> osal_id" where
  "queue_of s i = PD_SysQueueId (PipeTbl s ! i)"

definition queue_fits :: "os_queue \<Rightarrow> bool" where
  "queue_fits q \<longleftrightarrow> max_depth q \<le> 50 \<and> length (q_items q) \<le> max_depth q \<and> max_size q = sizeof_ptr"

definition pipes_ok :: "sb \<Rightarrow> bool" where
  "pipes_ok s \<longleftrightarrow> length (PipeTbl s) = 64
     \<and> (\<forall>i. used s i \<longrightarrow> (\<exists>q. map_of (Queues s) (queue_of s i) = Some q \<and> queue_fits q))
     \<and> (\<forall>i j. used s i \<longrightarrow> used s j \<longrightarrow> queue_of s i = queue_of s j \<longrightarrow> i = j)"

definition ids_ok :: "sb \<Rightarrow> bool" where
  "ids_ok s \<longleftrightarrow> (\<forall>i. used s i \<longrightarrow> CFE_SB_LocatePipeDescByID (PD_PipeId (PipeTbl s ! i)) = Some i)"

definition dest_set :: "(nat \<Rightarrow> size_t list) \<Rightarrow> size_t set" where
  "dest_set ds = (\<Union>i<256. set (ds i))"

definition pipes_of :: "dests \<Rightarrow> size_t list \<Rightarrow> CFE_SB_PipeId list" where
  "pipes_of D xs = map (\<lambda>d. DD_PipeId (D d)) xs"

definition routes_ok :: "sb \<Rightarrow> CFE_SB_MsgId list \<Rightarrow> (nat \<Rightarrow> size_t list) \<Rightarrow> bool" where
  "routes_ok s ids ds \<longleftrightarrow> sbr_ok direct_rep (Routes s) ids
     \<and> (\<forall>i<256. route_dests (Dests s) (Routes s) (route_of i) (ds i)
            \<and> distinct (pipes_of (Dests s) (ds i)) \<and> length (ds i) \<le> CFE_PLATFORM_SB_MAX_DEST_PER_PKT
            \<and> (\<forall>d \<in> set (ds i). find_pipe (DD_PipeId (Dests s d)) s \<noteq> None))
     \<and> (\<forall>i<256. \<forall>j<256. i \<noteq> j \<longrightarrow> set (ds i) \<inter> set (ds j) = {})
     \<and> (\<forall>i. length ids \<le> i \<longrightarrow> ds i = [])"

definition running ::
  "sb \<Rightarrow> size_t multiset \<Rightarrow> size_t list \<Rightarrow> size_t list \<Rightarrow> CFE_SB_MsgId list \<Rightarrow> (nat \<Rightarrow> size_t list) \<Rightarrow> bool" where
  "running s X zs ts ids ds \<longleftrightarrow> pipes_ok s \<and> ids_ok s \<and> routes_ok s ids ds
     \<and> core s (refs s + X) zs ts (dest_set ds)"

definition at_rest ::
  "size_t multiset \<Rightarrow> sb \<Rightarrow> size_t list \<Rightarrow> size_t list \<Rightarrow> CFE_SB_MsgId list \<Rightarrow> (nat \<Rightarrow> size_t list) \<Rightarrow> bool" where
  "at_rest K s zs ts ids ds \<longleftrightarrow> running s (mset zs + K) zs ts ids ds \<and> set_mset (refs s + K) = set ts
     \<and> (\<forall>b. count (refs s + K) b \<le> 3264)
     \<and> (\<forall>b \<in> set zs. BF_AppId (Bufs s b) \<noteq> CFE_ES_APPID_UNDEFINED)
     \<and> (\<forall>b \<in> set ts. BF_AppId (Bufs s b) = CFE_ES_APPID_UNDEFINED)"

definition sb_inv :: "size_t multiset \<Rightarrow> sb \<Rightarrow> bool" where
  "sb_inv K s \<longleftrightarrow> (\<exists>zs ts ids ds. at_rest K s zs ts ids ds)"

subsection \<open>What each part depends on\<close>

text \<open>A pipe descriptor without its counters and a destination without its count.\<close>

definition pipe_key :: "PipeD \<Rightarrow> PipeD" where
  "pipe_key p = p\<lparr>PD_SendErrors := 0, PD_CurrentQueueDepth := 0, PD_PeakQueueDepth := 0\<rparr>"

definition dest_key :: "DestinationD \<Rightarrow> DestinationD" where
  "dest_key d = d\<lparr>DD_BuffCount := 0\<rparr>"

lemma pipe_keyD:
  assumes "pipe_key p = pipe_key q"
  shows "PD_PipeId p = PD_PipeId q" "PD_SysQueueId p = PD_SysQueueId q" "PD_LastBuffer p = PD_LastBuffer q"
    "PD_AppId p = PD_AppId q" "PD_Opts p = PD_Opts q" "PD_MaxQueueDepth p = PD_MaxQueueDepth q"
  using assms by (cases p; cases q; simp add: pipe_key_def)+

lemma dest_keyD:
  assumes "dest_key p = dest_key q"
  shows "DD_PipeId p = DD_PipeId q" "DD_Active p = DD_Active q" "DD_MsgId2PipeLim p = DD_MsgId2PipeLim q"
    "DD_Prev p = DD_Prev q" "DD_Next p = DD_Next q" "DD_Scope p = DD_Scope q"
  using assms by (cases p; cases q; simp add: dest_key_def)+

definition same_pipes :: "sb \<Rightarrow> sb \<Rightarrow> bool" where
  "same_pipes s s' \<longleftrightarrow> map pipe_key (PipeTbl s') = map pipe_key (PipeTbl s)"

lemma same_pipes_refl [simp]: "same_pipes s s"
  by (simp add: same_pipes_def)

lemma same_pipes_trans: "same_pipes s t \<Longrightarrow> same_pipes t u \<Longrightarrow> same_pipes s u"
  by (simp add: same_pipes_def)

lemma same_pipes_tbl: "PipeTbl s' = PipeTbl s \<Longrightarrow> same_pipes s s'"
  by (simp add: same_pipes_def)

lemma same_pipes_upd [simp]:
  "(\<And>p. pipe_key (f p) = pipe_key p) \<Longrightarrow> same_pipes s (upd_pipe i f s)"
  by (simp add: same_pipes_def upd_pipe_def map_update)
    (metis length_map list_update_beyond list_update_id not_less nth_map)

lemma same_pipesD:
  assumes "same_pipes s s'"
  shows "length (PipeTbl s') = length (PipeTbl s)"
    "i < length (PipeTbl s) \<Longrightarrow> pipe_key (PipeTbl s' ! i) = pipe_key (PipeTbl s ! i)"
proof -
  show l: "length (PipeTbl s') = length (PipeTbl s)"
    using assms by (metis length_map same_pipes_def)
  assume "i < length (PipeTbl s)"
  with assms l show "pipe_key (PipeTbl s' ! i) = pipe_key (PipeTbl s ! i)"
    unfolding same_pipes_def by (metis nth_map)
qed

lemma find_pipe_cong:
  assumes "same_pipes s s'" "length (PipeTbl s) = 64"
  shows "find_pipe p s' = find_pipe p s"
proof (cases "CFE_SB_LocatePipeDescByID p")
  case None
  then show ?thesis by (simp add: find_pipe_def CFE_SB_PipeDescIsMatch_def)
next
  case (Some i)
  then have "i < 64"
    by (auto simp: CFE_SB_LocatePipeDescByID_def CFE_SB_PipeId_ToIndex_def CFE_PLATFORM_SB_MAX_PIPES_def
        dest: ToIndex_bound split: sum.splits)
  with pipe_keyD(1) [OF same_pipesD(2) [OF assms(1)], of i] assms(2) Some show ?thesis
    by (simp add: find_pipe_def CFE_SB_PipeDescIsMatch_def)
qed

lemma find_pipe_facts:
  assumes "find_pipe p s = Some i"
  shows "i < 64" "PD_PipeId (PipeTbl s ! i) = p" "CFE_SB_LocatePipeDescByID p = Some i"
    "CFE_SB_PipeDescIsUsed (PipeTbl s ! i)" "used s i" "p \<noteq> CFE_RESOURCEID_UNDEFINED"
proof -
  show l: "CFE_SB_LocatePipeDescByID p = Some i" and m: "PD_PipeId (PipeTbl s ! i) = p"
    using assms by (auto simp: find_pipe_def CFE_SB_PipeDescIsMatch_def Let_def split: if_splits option.splits)
  then show i: "i < 64"
    by (auto simp: CFE_SB_LocatePipeDescByID_def CFE_SB_PipeId_ToIndex_def CFE_PLATFORM_SB_MAX_PIPES_def
        dest: ToIndex_bound split: sum.splits)
  have "CFE_SB_LocatePipeDescByID 0 = None"
    by (simp add: CFE_SB_LocatePipeDescByID_def CFE_SB_PipeId_ToIndex_def CFE_ResourceId_ToIndex_def
        CFE_SB_PIPEID_BASE_def CFE_RESOURCEID_MAX_def Let_def)
  with l show p: "p \<noteq> CFE_RESOURCEID_UNDEFINED" by (auto simp: CFE_RESOURCEID_UNDEFINED_def)
  with m show "CFE_SB_PipeDescIsUsed (PipeTbl s ! i)"
    by (simp add: CFE_SB_PipeDescIsUsed_def CFE_ResourceId_IsDefined_def)
  with i show "used s i" by (simp add: used_def)
qed

lemma refs_cong:
  assumes p: "same_pipes s s'" "length (PipeTbl s) = 64"
    and q: "\<And>i. used s i \<Longrightarrow> items (Queues s') (queue_of s i) = items (Queues s) (queue_of s i)"
  shows "refs s' = refs s"
  unfolding refs_def
proof (rule sum.cong)
  fix i assume "i \<in> {..<64::nat}"
  then have i: "i < length (PipeTbl s)" "i < 64" using p(2) by simp_all
  show "pipe_refs (PipeTbl s' ! i) (Queues s') = pipe_refs (PipeTbl s ! i) (Queues s)"
    using pipe_keyD(1-3) [OF same_pipesD(2) [OF p(1) i(1)]] q [of i] i
    by (auto simp: pipe_refs_def used_def queue_of_def CFE_SB_PipeDescIsUsed_def)
qed simp

lemma pipes_ok_cong:
  assumes p: "same_pipes s s'" and ok: "pipes_ok s"
    and q: "\<And>i x. used s i \<Longrightarrow> map_of (Queues s) (queue_of s i) = Some x \<Longrightarrow> queue_fits x
       \<Longrightarrow> \<exists>y. map_of (Queues s') (queue_of s i) = Some y \<and> queue_fits y"
  shows "pipes_ok s'" "ids_ok s \<Longrightarrow> ids_ok s'"
proof -
  have l: "length (PipeTbl s) = 64" using ok by (simp add: pipes_ok_def)
  have eq: "used s' i = used s i" "used s i \<Longrightarrow> queue_of s' i = queue_of s i"
    "used s i \<Longrightarrow> PD_PipeId (PipeTbl s' ! i) = PD_PipeId (PipeTbl s ! i)" for i
    using pipe_keyD(1-3) [OF same_pipesD(2) [OF p, of i]] l
    by (auto simp: used_def queue_of_def CFE_SB_PipeDescIsUsed_def)
  show "pipes_ok s'"
    using ok same_pipesD(1) [OF p] q unfolding pipes_ok_def by (simp add: eq) metis
  show "ids_ok s \<Longrightarrow> ids_ok s'" by (simp add: ids_ok_def eq)
qed

subsection \<open>References move between queues, pipes and routines\<close>

lemma refs_split:
  "i < 64 \<Longrightarrow> refs s = pipe_refs (PipeTbl s ! i) (Queues s)
     + (\<Sum>j\<in>{..<64} - {i}. pipe_refs (PipeTbl s ! j) (Queues s))"
  unfolding refs_def by (rule sum.remove) simp_all

lemma refs_change:
  assumes i: "i < 64"
    and pipes: "\<And>j. j < 64 \<Longrightarrow> j \<noteq> i \<Longrightarrow> PipeTbl s' ! j = PipeTbl s ! j"
    and queues: "\<And>j. used s j \<Longrightarrow> j \<noteq> i \<Longrightarrow> items (Queues s') (queue_of s j) = items (Queues s) (queue_of s j)"
    and own: "pipe_refs (PipeTbl s' ! i) (Queues s') + Y = pipe_refs (PipeTbl s ! i) (Queues s) + Z"
  shows "refs s' + Y = refs s + Z"
proof -
  let ?rest = "\<lambda>t. \<Sum>j\<in>{..<64} - {i}. pipe_refs (PipeTbl t ! j) (Queues t)"
  have "?rest s' = ?rest s"
  proof (rule sum.cong)
    fix j assume j: "j \<in> {..<64} - {i}"
    then show "pipe_refs (PipeTbl s' ! j) (Queues s') = pipe_refs (PipeTbl s ! j) (Queues s)"
      using queues [of j] by (auto simp: pipe_refs_def pipes used_def queue_of_def)
  qed simp
  then have "refs s' + Y = (pipe_refs (PipeTbl s' ! i) (Queues s') + Y) + ?rest s"
    using refs_split [OF i, of s'] by simp
  also have "\<dots> = refs s + Z" using own refs_split [OF i, of s] by simp
  finally show ?thesis .
qed

lemma refs_size:
  assumes "pipes_ok s"
  shows "size (refs s) \<le> 3264"
proof -
  have "size (pipe_refs (PipeTbl s ! i) (Queues s)) \<le> 51" if i: "i < 64" for i
  proof (cases "used s i")
    case True
    with assms obtain q where "map_of (Queues s) (queue_of s i) = Some q" "queue_fits q"
      unfolding pipes_ok_def by blast
    then have "length (items (Queues s) (queue_of s i)) \<le> 50"
      by (simp add: items_def queue_fits_def)
    then show ?thesis by (simp add: pipe_refs_def queue_of_def)
  next
    case False
    then show ?thesis using i by (simp add: pipe_refs_def used_def)
  qed
  then have "(\<Sum>i<64. size (pipe_refs (PipeTbl s ! i) (Queues s))) \<le> (\<Sum>i<64::nat. 51)"
    by (intro sum_mono) simp
  then show ?thesis unfolding refs_def by (simp add: size_multiset_sum)
qed

lemma put_refs:
  assumes ok: "pipes_ok s" and i: "used s i"
    and put: "OS_QueuePut (queue_of s i) b n (Queues s) = (st, Q)"
  shows "refs (s\<lparr>Queues := Q\<rparr>) = refs s + (if st = OS_SUCCESS then {#b#} else {#})"
    "pipes_ok (s\<lparr>Queues := Q\<rparr>)"
proof -
  have "refs (s\<lparr>Queues := Q\<rparr>) + {#} = refs s + (if st = OS_SUCCESS then {#b#} else {#})"
  proof (rule refs_change)
    show "i < 64" using i by (simp add: used_def)
    show "items (Queues (s\<lparr>Queues := Q\<rparr>)) (queue_of s j) = items (Queues s) (queue_of s j)"
      if "used s j" "j \<noteq> i" for j
      using that ok i put_items(1) [OF put] by (auto simp: pipes_ok_def)
    show "pipe_refs (PipeTbl (s\<lparr>Queues := Q\<rparr>) ! i) (Queues (s\<lparr>Queues := Q\<rparr>)) + {#}
        = pipe_refs (PipeTbl s ! i) (Queues s) + (if st = OS_SUCCESS then {#b#} else {#})"
      using i put_items(1) [OF put] by (simp add: pipe_refs_def used_def queue_of_def)
  qed simp
  then show "refs (s\<lparr>Queues := Q\<rparr>) = refs s + (if st = OS_SUCCESS then {#b#} else {#})" by simp
  show "pipes_ok (s\<lparr>Queues := Q\<rparr>)"
    using put
    by (intro pipes_ok_cong(1) [OF same_pipes_tbl ok])
      (auto simp: OS_QueuePut_def OS_QueuePut_Impl_def queue_fits_def split: if_splits option.splits)
qed

lemma get_refs:
  assumes ok: "pipes_ok s" and i: "used s i"
    and get: "OS_QueueGet (queue_of s i) n t (Queues s) = Some (st, data, Q)"
  shows "refs (s\<lparr>Queues := Q\<rparr>) + (case data of None \<Rightarrow> {#} | Some b \<Rightarrow> {#b#}) = refs s"
    "pipes_ok (s\<lparr>Queues := Q\<rparr>)"
proof -
  have "refs (s\<lparr>Queues := Q\<rparr>) + (case data of None \<Rightarrow> {#} | Some b \<Rightarrow> {#b#}) = refs s + {#}"
  proof (rule refs_change)
    show "i < 64" using i by (simp add: used_def)
    show "items (Queues (s\<lparr>Queues := Q\<rparr>)) (queue_of s j) = items (Queues s) (queue_of s j)"
      if "used s j" "j \<noteq> i" for j
      using that ok i get_items(3) [OF get] by (auto simp: pipes_ok_def)
    show "pipe_refs (PipeTbl (s\<lparr>Queues := Q\<rparr>) ! i) (Queues (s\<lparr>Queues := Q\<rparr>))
          + (case data of None \<Rightarrow> {#} | Some b \<Rightarrow> {#b#}) = pipe_refs (PipeTbl s ! i) (Queues s) + {#}"
      using i get_items(2,3) [OF get] by (auto simp: pipe_refs_def used_def queue_of_def split: option.split)
  qed simp
  then show "refs (s\<lparr>Queues := Q\<rparr>) + (case data of None \<Rightarrow> {#} | Some b \<Rightarrow> {#b#}) = refs s" by simp
  show "pipes_ok (s\<lparr>Queues := Q\<rparr>)"
    using get
    by (intro pipes_ok_cong(1) [OF same_pipes_tbl ok])
      (auto simp: OS_QueueGet_def OS_QueueGet_Impl_def queue_fits_def
        split: if_splits option.splits list.splits)
qed

text \<open>The last buffer of a pipe is a reference that the pipe takes or gives up.\<close>

lemma last_refs:
  assumes ok: "pipes_ok s" and i: "used s i"
  shows "refs (upd_pipe i (\<lambda>p. p\<lparr>PD_LastBuffer := b\<rparr>) s)
      + (if PD_LastBuffer (PipeTbl s ! i) \<noteq> 0 then {#PD_LastBuffer (PipeTbl s ! i)#} else {#})
    = refs s + (if b \<noteq> 0 then {#b#} else {#})"
    "pipes_ok (upd_pipe i (\<lambda>p. p\<lparr>PD_LastBuffer := b\<rparr>) s)"
    "ids_ok s \<Longrightarrow> ids_ok (upd_pipe i (\<lambda>p. p\<lparr>PD_LastBuffer := b\<rparr>) s)"
proof -
  let ?s = "upd_pipe i (\<lambda>p. p\<lparr>PD_LastBuffer := b\<rparr>) s"
  have l: "i < length (PipeTbl s)" "i < 64" using ok i by (simp_all add: pipes_ok_def used_def)
  show "refs ?s + (if PD_LastBuffer (PipeTbl s ! i) \<noteq> 0 then {#PD_LastBuffer (PipeTbl s ! i)#} else {#})
      = refs s + (if b \<noteq> 0 then {#b#} else {#})"
    by (rule refs_change [OF l(2)]) (use i l in \<open>auto simp: pipe_refs_def used_def CFE_SB_PipeDescIsUsed_def\<close>)
  have u: "used ?s j = used s j" "queue_of ?s j = queue_of s j"
    "PD_PipeId (PipeTbl ?s ! j) = PD_PipeId (PipeTbl s ! j)" for j
    using l by (auto simp: used_def queue_of_def CFE_SB_PipeDescIsUsed_def)
  show "pipes_ok ?s" using ok by (simp add: pipes_ok_def u)
  show "ids_ok s \<Longrightarrow> ids_ok ?s" by (simp add: ids_ok_def u)
qed

subsection \<open>Destination lists\<close>

lemma routes_okD:
  assumes "routes_ok s ids ds"
  shows "sbr_ok direct_rep (Routes s) ids" "length (RoutingTbl (Routes s)) = 256"
    "i < 256 \<Longrightarrow> route_dests (Dests s) (Routes s) (route_of i) (ds i)"
    "i < 256 \<Longrightarrow> distinct (pipes_of (Dests s) (ds i))"
    "i < 256 \<Longrightarrow> length (ds i) \<le> 16"
    "i < 256 \<Longrightarrow> d \<in> set (ds i) \<Longrightarrow> find_pipe (DD_PipeId (Dests s d)) s \<noteq> None"
    "i < 256 \<Longrightarrow> j < 256 \<Longrightarrow> i \<noteq> j \<Longrightarrow> set (ds i) \<inter> set (ds j) = {}"
    "length ids \<le> i \<Longrightarrow> ds i = []"
    "get_route_id m s = Some (lookup_route ids m)"
    "length ids \<le> 256"
  using assms direct.get_ok direct.ok_length
  by (auto simp: routes_ok_def sbr_ok_def CFE_PLATFORM_SB_MAX_DEST_PER_PKT_def get_route_id_def)

lemma routes_ok_cong:
  assumes ok: "routes_ok s ids ds" and p: "same_pipes s s'" "length (PipeTbl s) = 64"
    and d: "\<And>d. dest_key (Dests s' d) = dest_key (Dests s d)"
    and r: "sbr_ok direct_rep (Routes s') ids"
      "\<And>q. CFE_SBR_GetDestListHeadPtr (Routes s') q = CFE_SBR_GetDestListHeadPtr (Routes s) q"
  shows "routes_ok s' ids ds"
proof -
  have "route_dests (Dests s') (Routes s') q xs = route_dests (Dests s) (Routes s) q xs" for q xs
    unfolding route_dests_def r(2) by (subst dseg_cong [of xs "Dests s'" "Dests s"])
      (simp_all add: dest_keyD(4,5) [OF d])
  moreover have "pipes_of (Dests s') xs = pipes_of (Dests s) xs" for xs
    by (simp add: pipes_of_def dest_keyD(1) [OF d])
  ultimately show ?thesis
    using ok r(1) unfolding routes_ok_def by (simp add: find_pipe_cong [OF p] dest_keyD(1) [OF d])
qed

lemma get_dest_ptr_list:
  assumes ok: "routes_ok s ids ds" and i: "i < 256"
  shows "get_dest_ptr (route_of i) p s
    = Some (case List.find (\<lambda>x. DD_PipeId (Dests s x) = p) (ds i) of None \<Rightarrow> 0 | Some x \<Rightarrow> x)"
  unfolding get_dest_ptr_def by (rule GetDestPtr_list [OF routes_okD(3) [OF ok i]])

lemma get_dest_ptr_invalid:
  "\<not> CFE_SBR_IsValidRouteId r \<Longrightarrow> get_dest_ptr r p s = Some 0"
  unfolding get_dest_ptr_def CFE_SB_GetDestPtr_def CFE_SBR_GetDestListHeadPtr_def
  by (subst find_dest.simps) simp

lemma get_dest_ptr_ok:
  assumes ok: "routes_ok s ids ds"
  obtains d where "get_dest_ptr r p s = Some d"
proof (cases "CFE_SBR_IsValidRouteId r")
  case True
  then obtain i where "i < 256" "r = route_of i" using valid_route_range by blast
  with get_dest_ptr_list [OF ok] that show ?thesis by blast
next
  case False
  with get_dest_ptr_invalid that show ?thesis by blast
qed

lemma seqcnt_routes:
  assumes "sbr_ok direct_rep R ids"
  shows "sbr_ok direct_rep (CFE_SBR_IncrementSequenceCounter r R) ids"
    "CFE_SBR_GetDestListHeadPtr (CFE_SBR_IncrementSequenceCounter r R) q = CFE_SBR_GetDestListHeadPtr R q"
proof -
  have l: "length (RoutingTbl R) = 256" using assms by (simp add: sbr_ok_def)
  let ?R = "CFE_SBR_IncrementSequenceCounter r R"
  have e: "RouteMsgId (RoutingTbl ?R ! j) = RouteMsgId (RoutingTbl R ! j)
      \<and> ListHeadPtr (RoutingTbl ?R ! j) = ListHeadPtr (RoutingTbl R ! j)" for j
    by (cases "unat (CFE_SBR_RouteIdToValue r) < length (RoutingTbl R)")
      (auto simp: CFE_SBR_IncrementSequenceCounter_def set_route_entry_def route_entry_def
        nth_list_update_if list_update_beyond)
  have m: "MsgMap ?R = MsgMap R" "RouteIdxTop ?R = RouteIdxTop R"
    by (simp_all add: CFE_SBR_IncrementSequenceCounter_def set_route_entry_def)
  show "sbr_ok direct_rep ?R ids" using assms e m by (simp add: sbr_ok_def)
  show "CFE_SBR_GetDestListHeadPtr ?R q = CFE_SBR_GetDestListHeadPtr R q"
    using e by (simp add: CFE_SBR_GetDestListHeadPtr_def route_entry_def)
qed

end
