(* ===== verification/Sb_Transmit.thy ===== *)
theory Sb_Transmit
  imports Sb_Inv
begin

section \<open>Software bus: transmitting keeps the invariant\<close>

text \<open>
  What the steps of a transaction may change: the counters of pipes and destinations, the use
  counts, the queues and the memory pool.
\<close>

definition tx_frame :: "sb \<Rightarrow> sb \<Rightarrow> bool" where
  "tx_frame s s' \<longleftrightarrow> same_pipes s s' \<and> (\<forall>d. dest_key (Dests s' d) = dest_key (Dests s d))
     \<and> Routes s' = Routes s \<and> (\<forall>x. payload (Bufs s' x) = payload (Bufs s x))
     \<and> LastPipeId s' = LastPipeId s"

lemma tx_frame_refl [simp]: "tx_frame s s"
  by (simp add: tx_frame_def)

lemma tx_frame_trans: "tx_frame s t \<Longrightarrow> tx_frame t u \<Longrightarrow> tx_frame s u"
  by (auto simp: tx_frame_def same_pipes_def)

lemma tx_frame_pipe [simp]:
  "(\<And>p. pipe_key (f p) = pipe_key p) \<Longrightarrow> tx_frame s (upd_pipe i f s)"
  by (simp add: tx_frame_def)

lemma tx_frame_dest [simp]:
  "(\<And>d. dest_key (f d) = dest_key d) \<Longrightarrow> tx_frame s (upd_dest i f s)"
  by (simp add: tx_frame_def same_pipes_tbl)

lemma tx_frame_notes [simp]:
  "tx_frame s (upd_hk h s)" "tx_frame s (upd_stat g s)" "tx_frame s (send_event e s)"
  "tx_frame s (CFE_SB_IncrBufUseCnt b s)" "tx_frame s (CFE_SB_DecrBufUseCnt b s)"
  "tx_frame s (s\<lparr>Queues := Q\<rparr>)" "tx_frame s (s\<lparr>StopRecurseFlags := F\<rparr>)"
  by (simp_all add: tx_frame_def same_pipes_tbl)

lemma tx_frameD:
  assumes "tx_frame s s'"
  shows "same_pipes s s'" "dest_key (Dests s' d) = dest_key (Dests s d)" "Routes s' = Routes s"
    "payload (Bufs s' x) = payload (Bufs s x)" "LastPipeId s' = LastPipeId s"
  using assms by (simp_all add: tx_frame_def)

lemma frame_routes_ok:
  "tx_frame s s' \<Longrightarrow> routes_ok s ids ds \<Longrightarrow> length (PipeTbl s) = 64 \<Longrightarrow> routes_ok s' ids ds"
  by (rule routes_ok_cong) (auto simp: tx_frame_def routes_okD(1))

text \<open>The queues and the references are the same, or one reference has moved.\<close>

lemma running_frame:
  assumes run: "running s X zs ts ids ds" and f: "tx_frame s s'" and q: "Queues s' = Queues s"
    and c: "core s' (refs s + X') zs' ts' (dest_set ds)"
  shows "running s' X' zs' ts' ids ds"
proof -
  have ok: "pipes_ok s" "ids_ok s" "routes_ok s ids ds" using run by (simp_all add: running_def)
  have l: "length (PipeTbl s) = 64" using ok(1) by (simp add: pipes_ok_def)
  have "refs s' = refs s" by (rule refs_cong [OF tx_frameD(1) [OF f] l]) (simp add: q)
  moreover have "pipes_ok s'" "ids_ok s'"
    using pipes_ok_cong [OF tx_frameD(1) [OF f] ok(1)] ok(2) by (auto simp: q)
  ultimately show ?thesis using c frame_routes_ok [OF f ok(3) l] by (simp add: running_def)
qed

lemma runningD:
  assumes "running s X zs ts ids ds"
  shows "pipes_ok s" "ids_ok s" "routes_ok s ids ds" "core s (refs s + X) zs ts (dest_set ds)"
    "length (PipeTbl s) = 64"
  using assms by (simp_all add: running_def pipes_ok_def)

lemma running_incr:
  assumes run: "running s X zs ts ids ds" and b: "b \<in># X" "count X b \<le> 20000"
  shows "running (CFE_SB_IncrBufUseCnt b s) (add_mset b X) zs ts ids ds"
proof (rule running_frame [OF run])
  have "count (refs s) b \<le> size (refs s)" by (rule count_le_size)
  then have "count (refs s + X) b < 0x7FFF" using refs_size [OF runningD(1) [OF run]] b(2) by simp
  with core_incr [OF runningD(4) [OF run], of b] b(1)
  show "core (CFE_SB_IncrBufUseCnt b s) (refs s + add_mset b X) zs ts (dest_set ds)" by simp
qed simp_all

lemma running_decr:
  assumes run: "running s (add_mset b X) zs ts ids ds"
  shows "running (CFE_SB_DecrBufUseCnt b s) X (if b \<in># refs s + X then zs else remove1 b zs)
           (if b \<in># refs s + X then ts else remove1 b ts) ids ds"
proof (rule running_frame [OF run])
  show "core (CFE_SB_DecrBufUseCnt b s) (refs s + X) (if b \<in># refs s + X then zs else remove1 b zs)
      (if b \<in># refs s + X then ts else remove1 b ts) (dest_set ds)"
    using core_decr [of s b "refs s + X"] runningD(4) [OF run] by simp
qed simp_all

lemma running_note:
  assumes run: "running s X zs ts ids ds" and f: "tx_frame s s'"
    and e: "Queues s' = Queues s" "PoolHdl s' = PoolHdl s" "Pools s' = Pools s" "Links s' = Links s"
      "\<And>b. buf_acct s' b = buf_acct s b"
  shows "running s' X zs ts ids ds"
  by (rule running_frame [OF run f e(1)]) (use runningD(4) [OF run] core_cong [OF e(2-5)] in simp)

lemma replicate_plus: "replicate_mset (m + n) b = replicate_mset m b + replicate_mset n b"
  by (simp add: multiset_eq_iff)

subsection \<open>Finding the destinations\<close>

text \<open>The entry that a destination contributes to the pipe set.\<close>

definition dest_entry :: "CFE_ES_AppId \<Rightarrow> sb \<Rightarrow> size_t \<Rightarrow> PipeSetEntry list" where
  "dest_entry AppId s d =
     (case dest_accepts AppId (Dests s d) s of
        None \<Rightarrow> []
      | Some i \<Rightarrow>
        [\<lparr>PS_PipeId = DD_PipeId (Dests s d), PS_SysQueueId = queue_of s i,
          PS_PendingEventId = (if DD_MsgId2PipeLim (Dests s d) \<le> DD_BuffCount (Dests s d)
                               then Some CFE_SB_MSGID_LIM_ERR_EID else None),
          PS_OsStatus = OS_SUCCESS\<rparr>])"

text \<open>A transaction without its pipe set.\<close>

definition txn_core :: "MessageTxn_State \<Rightarrow> MessageTxn_State" where
  "txn_core T = T\<lparr>TX_PipeSet := [], TX_NumPipeErrs := 0\<rparr>"

lemma txn_coreD:
  assumes "txn_core T' = txn_core T"
  shows "TX_MaxPipes T' = TX_MaxPipes T" "TX_EventId T' = TX_EventId T" "TX_Status T' = TX_Status T"
    "TX_IsEndpoint T' = TX_IsEndpoint T" "TX_IsTransmit T' = TX_IsTransmit T"
  using assms by (cases T; cases T'; simp add: txn_core_def)+

definition pending :: "PipeSetEntry list \<Rightarrow> nat" where
  "pending cs = length (filter (\<lambda>c. PS_PendingEventId c = None) cs)"

lemma pending_simps [simp]:
  "pending [] = 0"
  "pending (c # cs) = (if PS_PendingEventId c = None then Suc (pending cs) else pending cs)"
  "pending (cs @ cs') = pending cs + pending cs'"
  by (simp_all add: pending_def)

lemma dest_accepts_facts:
  assumes "dest_accepts AppId (Dests s d) s = Some i"
  shows "find_pipe (DD_PipeId (Dests s d)) s = Some i" "used s i" "i < 64"
proof -
  show f: "find_pipe (DD_PipeId (Dests s d)) s = Some i"
    using assms by (auto simp: dest_accepts_def find_pipe_def Let_def split: if_splits option.splits)
  show "used s i" "i < 64" using find_pipe_facts [OF f] by simp_all
qed

lemma dest_accepts_cong:
  assumes "tx_frame s s'" "length (PipeTbl s) = 64"
  shows "dest_accepts AppId (Dests s' d) s' = dest_accepts AppId (Dests s d) s"
proof -
  note k = dest_keyD [OF tx_frameD(2) [OF assms(1), of d]]
  have "PD_PipeId (PipeTbl s' ! i) = PD_PipeId (PipeTbl s ! i)
      \<and> PD_Opts (PipeTbl s' ! i) = PD_Opts (PipeTbl s ! i) \<and> PD_AppId (PipeTbl s' ! i) = PD_AppId (PipeTbl s ! i)"
    if "CFE_SB_LocatePipeDescByID p = Some i" for p i
  proof -
    from that have "i < 64"
      by (auto simp: CFE_SB_LocatePipeDescByID_def CFE_SB_PipeId_ToIndex_def CFE_PLATFORM_SB_MAX_PIPES_def
          dest: ToIndex_bound split: sum.splits)
    then show ?thesis
      using pipe_keyD [OF same_pipesD(2) [OF tx_frameD(1) [OF assms(1)], of i]] assms(2) by simp
  qed
  then show ?thesis by (auto simp: dest_accepts_def CFE_SB_PipeDescIsMatch_def k split: option.split)
qed

lemma dest_entry_cong:
  assumes "tx_frame s s'" "length (PipeTbl s) = 64" "DD_BuffCount (Dests s' d) = DD_BuffCount (Dests s d)"
  shows "dest_entry AppId s' d = dest_entry AppId s d"
proof -
  note k = dest_keyD [OF tx_frameD(2) [OF assms(1), of d]]
  show ?thesis
    using pipe_keyD(2) [OF same_pipesD(2) [OF tx_frameD(1) [OF assms(1)]]] assms(2,3)
    by (auto simp: dest_entry_def dest_accepts_cong [OF assms(1,2)] k queue_of_def
        dest: dest_accepts_facts(3) split: option.split)
qed

lemma account_dest_step:
  assumes run: "running s X zs ts ids ds" and b: "b \<in># X" "count X b \<le> 20000"
    and acc: "dest_accepts AppId (Dests s d) s = Some i"
    and st: "account_dest b d i (T, s) = (T', s')"
  shows "running s' (X + replicate_mset (pending (dest_entry AppId s d)) b) zs ts ids ds"
    "TX_PipeSet T' = TX_PipeSet T @ dest_entry AppId s d" "tx_frame s s'" "Queues s' = Queues s"
    "Links s' = Links s" "x \<noteq> d \<Longrightarrow> Dests s' x = Dests s x"
    "txn_core T' = txn_core T"
proof -
  let ?lim = "DD_MsgId2PipeLim (Dests s d) \<le> DD_BuffCount (Dests s d)"
  have e: "dest_entry AppId s d = [\<lparr>PS_PipeId = DD_PipeId (Dests s d), PS_SysQueueId = queue_of s i,
      PS_PendingEventId = (if ?lim then Some CFE_SB_MSGID_LIM_ERR_EID else None), PS_OsStatus = OS_SUCCESS\<rparr>]"
    using acc by (simp add: dest_entry_def)
  show "TX_PipeSet T' = TX_PipeSet T @ dest_entry AppId s d"
    "Queues s' = Queues s" "Links s' = Links s" "x \<noteq> d \<Longrightarrow> Dests s' x = Dests s x"
    "txn_core T' = txn_core T"
    using st by (auto simp: account_dest_def e Let_def queue_of_def txn_core_def split: if_splits)
  have "tx_frame s s' \<and> running s' (X + replicate_mset (pending (dest_entry AppId s d)) b) zs ts ids ds"
  proof (cases ?lim)
    case True
    then have s': "s' = upd_pipe i (\<lambda>p. p\<lparr>PD_SendErrors := PD_SendErrors p + 1\<rparr>)
        (upd_hk (\<lambda>h. h\<lparr>MsgLimitErrorCounter := MsgLimitErrorCounter h + 1\<rparr>) s)"
      using st by (simp add: account_dest_def Let_def)
    then have f: "tx_frame s s'"
      by (simp add: tx_frame_trans [OF tx_frame_notes(1) tx_frame_pipe] pipe_key_def)
    have "running s' X zs ts ids ds"
      by (rule running_note [OF run f]) (simp_all add: s' buf_acct_def)
    with f True show ?thesis by (simp add: e)
  next
    case False
    define s1 where "s1 = CFE_SB_IncrBufUseCnt b s"
    define s2 where "s2 = upd_dest d (\<lambda>d. d\<lparr>DD_BuffCount := DD_BuffCount d + 1\<rparr>) s1"
    have s': "s' = upd_pipe i (\<lambda>p. let p1 = p\<lparr>PD_CurrentQueueDepth := PD_CurrentQueueDepth p + 1\<rparr>
                   in if PD_PeakQueueDepth p1 < PD_CurrentQueueDepth p1
                      then p1\<lparr>PD_PeakQueueDepth := PD_CurrentQueueDepth p1\<rparr> else p1) s2"
      using st False by (simp add: account_dest_def Let_def s1_def s2_def not_le)
    have f12: "tx_frame s1 s2" by (simp add: s2_def dest_key_def)
    have f2: "tx_frame s2 s'" unfolding s' by (rule tx_frame_pipe) (simp add: pipe_key_def Let_def)
    have f1: "tx_frame s1 s'" by (rule tx_frame_trans [OF f12 f2])
    have f: "tx_frame s s'" using tx_frame_trans [OF _ f1, of s] by (simp add: s1_def)
    have "running s1 (add_mset b X) zs ts ids ds"
      unfolding s1_def by (rule running_incr [OF run b])
    then have "running s' (add_mset b X) zs ts ids ds"
      by (rule running_note [OF _ f1]) (simp_all add: s' s2_def buf_acct_def)
    with f False show ?thesis by (simp add: e)
  qed
  then show "running s' (X + replicate_mset (pending (dest_entry AppId s d)) b) zs ts ids ds" "tx_frame s s'"
    by simp_all
qed

lemma find_destinations_run:
  assumes "dseg (Dests s) prev p xs 0" "distinct xs"
    and "running s X zs ts ids ds" "b \<in># X" "count X b + length xs \<le> 20000"
    and "length (TX_PipeSet T) + length xs \<le> TX_MaxPipes T"
  shows "\<exists>T' s'. find_destinations AppId b p (T, s) = Some (T', s')
     \<and> running s' (X + replicate_mset (pending (concat (map (dest_entry AppId s) xs))) b) zs ts ids ds
     \<and> TX_PipeSet T' = TX_PipeSet T @ concat (map (dest_entry AppId s) xs)
     \<and> tx_frame s s' \<and> Queues s' = Queues s \<and> Links s' = Links s
     \<and> txn_core T' = txn_core T"
  using assms
proof (induction xs arbitrary: prev p T s X)
  case Nil
  then show ?case by (subst find_destinations.simps) simp
next
  case (Cons d xs)
  have pd: "p = d" "p \<noteq> 0" and seg: "dseg (Dests s) d (DD_Next (Dests s d)) xs 0"
    using Cons.prems(1) by auto
  have room: "\<not> TX_MaxPipes T \<le> length (TX_PipeSet T)" using Cons.prems(6) by simp
  show ?case
  proof (cases "dest_accepts AppId (Dests s d) s")
    case None
    then have e: "dest_entry AppId s d = []" by (simp add: dest_entry_def)
    have "find_destinations AppId b p (T, s) = find_destinations AppId b (DD_Next (Dests s d)) (T, s)"
      by (subst find_destinations.simps) (use pd room None in \<open>simp add: Let_def\<close>)
    with Cons.IH [OF seg _ Cons.prems(3,4), of T] Cons.prems(2,5,6) e show ?thesis by simp
  next
    case (Some i)
    obtain T1 s1 where st: "account_dest b d i (T, s) = (T1, s1)" by (cases "account_dest b d i (T, s)")
    have cb: "count X b \<le> 20000" using Cons.prems(5) by simp
    note A = account_dest_step [OF Cons.prems(3,4) cb Some st]
    let ?e = "dest_entry AppId s d"
    have le: "length ?e = 1" "pending ?e \<le> 1" using Some by (simp_all add: dest_entry_def)
    have nd: "d \<notin> set xs" using Cons.prems(2) by simp
    have l: "length (PipeTbl s) = 64" using runningD(5) [OF Cons.prems(3)] .
    have step: "find_destinations AppId b p (T, s) = find_destinations AppId b (DD_Next (Dests s1 d)) (T1, s1)"
      by (subst find_destinations.simps) (use pd room Some st in \<open>simp add: Let_def\<close>)
    have seg1: "dseg (Dests s1) d (DD_Next (Dests s1 d)) xs 0"
      using seg by (subst dseg_cong [of xs _ "Dests s"])
        (simp_all add: dest_keyD(4,5) [OF tx_frameD(2) [OF A(3)]])
    have mp: "TX_MaxPipes T1 = TX_MaxPipes T"
by (rule txn_coreD(1) [OF A(7)])
    have "dest_entry AppId s1 x = dest_entry AppId s x" if "x \<in> set xs" for x
    proof (rule dest_entry_cong [OF A(3) l])
      have "x \<noteq> d" using that nd by auto
      then show "DD_BuffCount (Dests s1 x) = DD_BuffCount (Dests s x)" using A(6) by simp
    qed
    then have es: "map (dest_entry AppId s1) xs = map (dest_entry AppId s) xs" by simp
    have pre: "b \<in># X + replicate_mset (pending ?e) b"
      "count (X + replicate_mset (pending ?e) b) b + length xs \<le> 20000"
      "length (TX_PipeSet T1) + length xs \<le> TX_MaxPipes T1"
      using Cons.prems(4,5,6) le mp by (simp_all add: A(2))
    obtain T' s' where r: "find_destinations AppId b (DD_Next (Dests s1 d)) (T1, s1) = Some (T', s')"
      "running s' (X + replicate_mset (pending ?e) b
         + replicate_mset (pending (concat (map (dest_entry AppId s) xs))) b) zs ts ids ds"
      "TX_PipeSet T' = TX_PipeSet T1 @ concat (map (dest_entry AppId s) xs)"
      "tx_frame s1 s'" "Queues s' = Queues s1" "Links s' = Links s1"
      "txn_core T' = txn_core T1"
      using Cons.IH [OF seg1 _ A(1) pre] Cons.prems(2) unfolding es by auto
    then show ?thesis
      using step A tx_frame_trans [OF A(3) r(4)]
      by (simp add: add.assoc replicate_plus)
  qed
qed

subsection \<open>Writing to the queues\<close>

text \<open>An entry that is still to be sent names a pipe in use and its queue.\<close>

definition entry_ok :: "sb \<Rightarrow> PipeSetEntry \<Rightarrow> bool" where
  "entry_ok s c \<longleftrightarrow> (PS_PendingEventId c = None
     \<longrightarrow> (\<exists>i. find_pipe (PS_PipeId c) s = Some i \<and> queue_of s i = PS_SysQueueId c))"

lemma dest_entry_ok: "c \<in> set (dest_entry AppId s d) \<Longrightarrow> entry_ok s c"
  by (cases "dest_accepts AppId (Dests s d) s")
    (auto simp: dest_entry_def entry_ok_def dest: dest_accepts_facts(1))

lemma queue_of_frame:
  assumes "tx_frame s s'" "length (PipeTbl s) = 64" "i < 64"
  shows "queue_of s' i = queue_of s i"
  using pipe_keyD(2) [OF same_pipesD(2) [OF tx_frameD(1) [OF assms(1)]]] assms(2,3) by (simp add: queue_of_def)

lemma entry_ok_frame:
  assumes "tx_frame s s'" "length (PipeTbl s) = 64" "entry_ok s c"
  shows "entry_ok s' c"
  using assms(3) queue_of_frame [OF assms(1,2)] find_pipe_facts(1)
  by (auto simp: entry_ok_def find_pipe_cong [OF tx_frameD(1) [OF assms(1)] assms(2)])

fun put_all :: "size_t \<Rightarrow> PipeSetEntry list \<Rightarrow> os_queues \<Rightarrow> os_queues" where
  "put_all b [] Q = Q"
| "put_all b (c # cs) Q =
     put_all b cs (if PS_PendingEventId c = None
                   then snd (OS_QueuePut (PS_SysQueueId c) b sizeof_ptr Q) else Q)"

lemma transmit_handler_run:
  assumes run: "running s (add_mset b X) zs ts ids ds" and b: "b \<in># X"
    and c: "find_pipe (PS_PipeId c) s = Some i" "queue_of s i = PS_SysQueueId c"
  shows "\<exists>c' T' s'. CFE_SB_TransmitTxn_PipeHandler b c T s = Some (c', T', s')
     \<and> running s' X zs ts ids ds \<and> tx_frame s s'
     \<and> Queues s' = snd (OS_QueuePut (PS_SysQueueId c) b sizeof_ptr (Queues s))
     \<and> (\<forall>x. x \<noteq> b \<longrightarrow> count (refs s') x = count (refs s) x)
     \<and> txn_core T' = txn_core T"
proof -
  obtain st Q where put: "OS_QueuePut (PS_SysQueueId c) b sizeof_ptr (Queues s) = (st, Q)"
    by (cases "OS_QueuePut (PS_SysQueueId c) b sizeof_ptr (Queues s)")
  have i: "used s i" using find_pipe_facts(5) [OF c(1)] .
  note ok = runningD [OF run]
  from put c(2) have put': "OS_QueuePut (queue_of s i) b sizeof_ptr (Queues s) = (st, Q)" by simp
  let ?s1 = "s\<lparr>Queues := Q\<rparr>"
  have f1: "tx_frame s ?s1" by simp
  have ids1: "ids_ok ?s1" "routes_ok ?s1 ids ds"
    using ok(2) frame_routes_ok [OF f1 ok(3,5)] by (simp_all add: ids_ok_def used_def)
  show ?thesis
  proof (cases "st = OS_SUCCESS")
    case True
    with put_refs [OF ok(1) i put'] have r: "refs ?s1 = add_mset b (refs s)" "pipes_ok ?s1" by simp_all
    have "running ?s1 X zs ts ids ds" using ok(4) ids1 r by (simp add: running_def)
    with True put f1 r(1) show ?thesis by (simp add: CFE_SB_TransmitTxn_PipeHandler_def)
  next
    case False
    with put_refs [OF ok(1) i put'] have r: "refs ?s1 = refs s" "pipes_ok ?s1" by simp_all
    have run1: "running ?s1 (add_mset b X) zs ts ids ds" using ok(4) ids1 r by (simp add: running_def)
    define s2 where "s2 = (if st = OS_QUEUE_FULL
       then upd_hk (\<lambda>h. h\<lparr>PipeOverflowErrorCounter := PipeOverflowErrorCounter h + 1\<rparr>) ?s1
       else upd_hk (\<lambda>h. h\<lparr>InternalErrorCounter := InternalErrorCounter h + 1\<rparr>) ?s1)"
    define c2 where "c2 = (if st = OS_QUEUE_FULL
       then c\<lparr>PS_OsStatus := st, PS_PendingEventId := Some CFE_SB_Q_FULL_ERR_EID\<rparr>
       else c\<lparr>PS_OsStatus := st, PS_PendingEventId := Some CFE_SB_Q_WR_ERR_EID\<rparr>)"
    have f2: "tx_frame ?s1 s2" by (simp add: s2_def)
    have fp: "find_pipe (PS_PipeId c) s2 = Some i"
      using c(1) find_pipe_cong [OF tx_frameD(1) [OF tx_frame_trans [OF f1 f2]] ok(5)] by simp
    define s3 where "s3 = (if 0 < PD_CurrentQueueDepth (PipeTbl s2 ! i)
       then upd_pipe i (\<lambda>p. p\<lparr>PD_CurrentQueueDepth := PD_CurrentQueueDepth p - 1\<rparr>) s2 else s2)"
    have f3: "tx_frame ?s1 s3"
      using tx_frame_trans [OF f2, of s3] by (simp add: s3_def pipe_key_def)
    have l1: "length (PipeTbl ?s1) = 64" using ok(5) by simp
    obtain d where d: "get_dest_ptr (BF_DestRouteId (Bufs s3 b)) (PS_PipeId c) s3 = Some d"
      using get_dest_ptr_ok [OF frame_routes_ok [OF f3 ids1(2) l1]] by blast
    define s4 where "s4 = (if d \<noteq> 0 \<and> 0 < DD_BuffCount (Dests s3 d)
       then upd_dest d (\<lambda>x. x\<lparr>DD_BuffCount := DD_BuffCount x - 1\<rparr>) s3 else s3)"
    have f4: "tx_frame ?s1 s4"
      using tx_frame_trans [OF f3, of s4] by (simp add: s4_def dest_key_def)
    have "running s4 (add_mset b X) zs ts ids ds"
      by (rule running_note [OF run1 f4]) (simp_all add: s4_def s3_def s2_def buf_acct_def)
    from running_decr [OF this] b
    have run': "running (CFE_SB_DecrBufUseCnt b s4) X zs ts ids ds" by simp
    have q: "Queues s4 = Q" by (simp add: s4_def s3_def s2_def)
    have l4: "length (PipeTbl s4) = 64" using runningD(5) [OF \<open>running s4 (add_mset b X) zs ts ids ds\<close>] .
    have "refs (CFE_SB_DecrBufUseCnt b s4) = refs s4"
      by (rule refs_cong [OF same_pipes_tbl l4]) simp_all
    also have "\<dots> = refs ?s1"
      by (rule refs_cong [OF tx_frameD(1) [OF f4] l1]) (simp add: q)
    finally have r4: "refs (CFE_SB_DecrBufUseCnt b s4) = refs s" using r(1) by simp
    have fin: "tx_frame s (CFE_SB_DecrBufUseCnt b s4)"
      using tx_frame_trans [OF tx_frame_trans [OF f1 f4], of "CFE_SB_DecrBufUseCnt b s4"] by simp
    have "CFE_SB_TransmitTxn_PipeHandler b c T s
        = Some (c2, T\<lparr>TX_NumPipeErrs := TX_NumPipeErrs T + 1\<rparr>, CFE_SB_DecrBufUseCnt b s4)"
      using False put fp d
      by (simp add: CFE_SB_TransmitTxn_PipeHandler_def Let_def s2_def c2_def s3_def s4_def
          split: if_splits)
    with run' fin put q r4 show ?thesis by (auto simp: txn_core_def)
  qed
qed

lemma process_transmit_run:
  assumes "running s (X + replicate_mset (pending cs) b) zs ts ids ds" "b \<in># X"
    and "\<forall>c \<in> set cs. entry_ok s c"
  shows "\<exists>T' s'. process_transmit b seen cs T s = Some (T', s')
     \<and> running s' X zs ts ids ds \<and> tx_frame s s' \<and> Queues s' = put_all b cs (Queues s)
     \<and> (\<forall>x. x \<noteq> b \<longrightarrow> count (refs s') x = count (refs s) x)
     \<and> txn_core T' = txn_core T"
  using assms
proof (induction cs arbitrary: seen T s)
  case Nil
  then show ?case by (auto simp: txn_core_def)
next
  case (Cons c cs)
  note l = runningD(5) [OF Cons.prems(1)]
  show ?case
  proof (cases "PS_PendingEventId c = None")
    case True
    then obtain i where i: "find_pipe (PS_PipeId c) s = Some i" "queue_of s i = PS_SysQueueId c"
      using Cons.prems(3) by (auto simp: entry_ok_def)
    have run: "running s (add_mset b (X + replicate_mset (pending cs) b)) zs ts ids ds"
      using Cons.prems(1) True by simp
    have bX: "b \<in># X + replicate_mset (pending cs) b" using Cons.prems(2) by simp
    obtain c1 T1 s1 where h: "CFE_SB_TransmitTxn_PipeHandler b c T s = Some (c1, T1, s1)"
      "running s1 (X + replicate_mset (pending cs) b) zs ts ids ds" "tx_frame s s1"
      "Queues s1 = snd (OS_QueuePut (PS_SysQueueId c) b sizeof_ptr (Queues s))"
      "\<forall>x. x \<noteq> b \<longrightarrow> count (refs s1) x = count (refs s) x"
      "txn_core T1 = txn_core T"
      using transmit_handler_run [OF run bX i, of T] by blast
    have "\<forall>c \<in> set cs. entry_ok s1 c" using Cons.prems(3) entry_ok_frame [OF h(3) l] by simp
    from Cons.IH [OF h(2) Cons.prems(2) this, of "c1 # seen" T1] obtain T' s' where r:
      "process_transmit b (c1 # seen) cs T1 s1 = Some (T', s')" "running s' X zs ts ids ds"
      "tx_frame s1 s'" "Queues s' = put_all b cs (Queues s1)"
      "\<forall>x. x \<noteq> b \<longrightarrow> count (refs s') x = count (refs s1) x"
      "txn_core T' = txn_core T1"
      by blast
    have "\<forall>x. x \<noteq> b \<longrightarrow> count (refs s') x = count (refs s) x" using r(5) h(5) by simp
    then show ?thesis using True h r tx_frame_trans [OF h(3) r(3)] by simp
  next
    case False
    then have "running s (X + replicate_mset (pending cs) b) zs ts ids ds"
      using Cons.prems(1) by (simp only: pending_simps if_False)
    from Cons.IH [OF this Cons.prems(2), of "c # seen" T] Cons.prems(3) False show ?thesis by auto
  qed
qed

subsection \<open>A whole transmission\<close>

lemma tbl_cong:
  assumes "PipeTbl s' = PipeTbl s"
  shows "CFE_SB_PipeDescIsMatch s' = CFE_SB_PipeDescIsMatch s" "find_pipe q s' = find_pipe q s"
    "used s' = used s" "queue_of s' = queue_of s" "ids_ok s' = ids_ok s"
    "dest_accepts AppId d s' = dest_accepts AppId d s"
proof -
  show m: "CFE_SB_PipeDescIsMatch s' = CFE_SB_PipeDescIsMatch s"
    by (intro ext) (simp add: CFE_SB_PipeDescIsMatch_def assms split: option.split)
  show "find_pipe q s' = find_pipe q s" by (simp add: find_pipe_def m)
  show "used s' = used s" "queue_of s' = queue_of s" by (simp_all add: fun_eq_iff used_def queue_of_def assms)
  then show "ids_ok s' = ids_ok s" by (simp add: ids_ok_def assms)
  show "dest_accepts AppId d s' = dest_accepts AppId d s"
    unfolding dest_accepts_def m assms ..
qed

lemma parts_cong:
  assumes "PipeTbl s' = PipeTbl s" "Queues s' = Queues s"
  shows "refs s' = refs s" "pipes_ok s' = pipes_ok s"
    "Dests s' = Dests s \<Longrightarrow> dest_entry AppId s' x = dest_entry AppId s x"
    "Dests s' = Dests s \<Longrightarrow> Routes s' = Routes s \<Longrightarrow> routes_ok s' ids ds = routes_ok s ids ds"
  using assms(2) tbl_cong [OF assms(1)]
  by (simp_all add: refs_def pipes_ok_def routes_ok_def dest_entry_def assms(1) cong: option.case_cong)

lemma inv_parts [simp]:
  "refs (upd_buf b f s) = refs s" "pipes_ok (upd_buf b f s) = pipes_ok s" "ids_ok (upd_buf b f s) = ids_ok s"
  "routes_ok (upd_buf b f s) ids ds = routes_ok s ids ds" "find_pipe q (upd_buf b f s) = find_pipe q s"
  "dest_entry AppId (upd_buf b f s) x = dest_entry AppId s x"
  "refs (s\<lparr>Links := L\<rparr>) = refs s" "pipes_ok (s\<lparr>Links := L\<rparr>) = pipes_ok s" "ids_ok (s\<lparr>Links := L\<rparr>) = ids_ok s"
  "routes_ok (s\<lparr>Links := L\<rparr>) ids ds = routes_ok s ids ds" "find_pipe q (s\<lparr>Links := L\<rparr>) = find_pipe q s"
  "dest_entry AppId (s\<lparr>Routes := R\<rparr>) x = dest_entry AppId s x"
  by (rule parts_cong tbl_cong(2,5); simp)+

lemma running_upd_buf:
  "(\<And>x. BF_AllocatedSize (f x) = BF_AllocatedSize x) \<Longrightarrow> (\<And>x. BF_UseCount (f x) = BF_UseCount x)
     \<Longrightarrow> running (upd_buf b f s) X zs ts ids ds = running s X zs ts ids ds"
  by (simp add: running_def core_upd_buf)

lemma running_store [simp]: "running (store_msg b m s) X zs ts ids ds = running s X zs ts ids ds"
  by (cases m) (simp_all add: store_msg_def running_upd_buf)

lemma store_frames [simp]:
  "Dests (store_msg b m s) = Dests s" "Routes (store_msg b m s) = Routes s" "Queues (store_msg b m s) = Queues s"
  "PipeTbl (store_msg b m s) = PipeTbl s" "refs (store_msg b m s) = refs s"
  "dest_entry AppId (store_msg b m s) x = dest_entry AppId s x" "Links (store_msg b m s) = Links s"
  by (cases m; simp add: store_msg_def)+

lemma running_seqcnt:
  assumes run: "running s X zs ts ids ds"
  shows "running (s\<lparr>Routes := CFE_SBR_IncrementSequenceCounter r (Routes s)\<rparr>) X zs ts ids ds"
proof -
  let ?s = "s\<lparr>Routes := CFE_SBR_IncrementSequenceCounter r (Routes s)\<rparr>"
  note D = runningD [OF run]
  have "routes_ok ?s ids ds"
    by (rule routes_ok_cong [OF D(3) same_pipes_tbl D(5)])
      (simp_all add: seqcnt_routes [OF routes_okD(1) [OF D(3)]])
  then show ?thesis
    using D parts_cong(1,2) [of ?s s] tbl_cong(5) [of ?s s] by (simp add: running_def)
qed

text \<open>The content of the buffer when it goes into the queues.\<close>

definition sent_content :: "sb_caller \<Rightarrow> bool \<Rightarrow> CFE_SBR_RouteId \<Rightarrow> sb \<Rightarrow> message \<Rightarrow> message" where
  "sent_content ctx IsEndpoint r s m =
     (if \<not> IsEndpoint then m
      else
        let R = CFE_SBR_IncrementSequenceCounter r (Routes s);
            m1 = the (snd (CFE_MSG_SetSequenceCount (Some m) (CFE_SBR_GetSequenceCounter R r)))
        in the (fst (snd (CFE_MSG_OriginationAction (TimeNow ctx) (Some m1) True))))"

lemma set_seqcnt_some: "\<exists>m'. snd (CFE_MSG_SetSequenceCount (Some m) c) = Some m'"
  by (simp add: CFE_MSG_SetSequenceCount_def)

lemma origination_some:
  "\<exists>m'. CFE_MSG_OriginationAction now (Some m) True = (CFE_SUCCESS, Some m', Some True)"
proof -
  have time: "\<exists>x. snd (CFE_MSG_SetMsgTime (Some m) now) = Some x"
    by (simp add: CFE_MSG_SetMsgTime_def)
  have sum: "\<exists>x. snd (CFE_MSG_GenerateChecksum (Some y)) = Some x" for y
    by (simp add: CFE_MSG_GenerateChecksum_def Let_def)
  from time sum show ?thesis by (auto simp: CFE_MSG_OriginationAction_def)
qed

text \<open>The destinations of a route.\<close>

definition route_list :: "CFE_SB_MsgId list \<Rightarrow> (nat \<Rightarrow> size_t list) \<Rightarrow> CFE_SB_MsgId \<Rightarrow> size_t list" where
  "route_list ids ds m = (if m \<in> set ids then ds (index_of m ids) else [])"

lemma route_list_head:
  assumes "routes_ok s ids ds" "m \<in> set ids"
  shows "route_dests (Dests s) (Routes s) (lookup_route ids m) (route_list ids ds m)"
    "CFE_SBR_IsValidRouteId (lookup_route ids m)" "length (route_list ids ds m) \<le> 16"
    "index_of m ids < 256" "lookup_route ids m = route_of (index_of m ids)"
proof -
  show i: "index_of m ids < 256"
    using index_of_less [OF assms(2)] routes_okD(10) [OF assms(1)] by simp
  show r: "lookup_route ids m = route_of (index_of m ids)" using assms(2) by (simp add: lookup_route_def)
  show "route_dests (Dests s) (Routes s) (lookup_route ids m) (route_list ids ds m)"
    "length (route_list ids ds m) \<le> 16"
    using routes_okD(3,5) [OF assms(1) i] assms(2) by (simp_all add: r route_list_def)
  show "CFE_SBR_IsValidRouteId (lookup_route ids m)" using i by (simp add: r route_of_facts)
qed

lemma lookup_invalid: "m \<notin> set ids \<Longrightarrow> \<not> CFE_SBR_IsValidRouteId (lookup_route ids m)"
  by (simp add: lookup_route_def CFE_SBR_INVALID_ROUTE_ID_def)

lemma enter_transit_run:
  assumes run: "running s X zs ts ids ds" and b: "b \<in> set zs"
  shows "running (enter_transit b s) X (remove1 b zs) (ts @ [b]) ids ds"
proof -
  note D = runningD [OF run]
  have e: "enter_transit b s = upd_buf b (\<lambda>x. x\<lparr>BF_AppId := CFE_ES_APPID_UNDEFINED\<rparr>)
     (s\<lparr>Links := CFE_SB_TrackingListAdd InTransitList (BufLink b)
         (CFE_SB_TrackingListRemove (BufLink b) (Links s))\<rparr>)"
    by (simp add: enter_transit_def upd_buf_def)
  show ?thesis
    using D core_move [OF D(4) b] by (simp add: e running_upd_buf) (simp add: running_def)
qed

lemma enter_transit_frames [simp]:
  "Queues (enter_transit b s) = Queues s" "PipeTbl (enter_transit b s) = PipeTbl s"
  "refs (enter_transit b s) = refs s" "Dests (enter_transit b s) = Dests s" "Routes (enter_transit b s) = Routes s"
  "find_pipe q (enter_transit b s) = find_pipe q s"
  "Bufs (enter_transit b s) x
      = (if x = b then (Bufs s b)\<lparr>BF_AppId := CFE_ES_APPID_UNDEFINED\<rparr> else Bufs s x)"
  by (simp_all add: enter_transit_def Let_def)

lemma stamp_run:
  assumes "running s X zs ts ids ds"
  shows "running (stamp_sequence r b s) X zs ts ids ds"
  using running_seqcnt [OF assms] by (simp add: stamp_sequence_def Let_def)

lemma stamp_frames [simp]:
  "Queues (stamp_sequence r b s) = Queues s" "PipeTbl (stamp_sequence r b s) = PipeTbl s"
  "Dests (stamp_sequence r b s) = Dests s"
  "dest_entry AppId (stamp_sequence r b s) x = dest_entry AppId s x"
  "Routes (stamp_sequence r b s) = CFE_SBR_IncrementSequenceCounter r (Routes s)"
  by (simp_all add: stamp_sequence_def Let_def)

lemma stamp_content:
  "Bufs (stamp_sequence r b s) x = (if x = b
     then (Bufs s b)\<lparr>BF_Content := the (snd (CFE_MSG_SetSequenceCount (Some (BF_Content (Bufs s b)))
            (CFE_SBR_GetSequenceCounter (CFE_SBR_IncrementSequenceCounter r (Routes s)) r)))\<rparr>
     else Bufs s x)"
proof -
  obtain m where "snd (CFE_MSG_SetSequenceCount (Some (BF_Content (Bufs s b)))
       (CFE_SBR_GetSequenceCounter (CFE_SBR_IncrementSequenceCounter r (Routes s)) r)) = Some m"
    using set_seqcnt_some by blast
  then show ?thesis by (simp add: stamp_sequence_def Let_def buf_msg_def store_msg_def)
qed

lemma originate_frames:
  assumes "originate ctx b T s = (T', s')"
  shows "T' = T" "running s' X zs ts ids ds = running s X zs ts ids ds" "Queues s' = Queues s"
    "PipeTbl s' = PipeTbl s" "refs s' = refs s" "Dests s' = Dests s" "Routes s' = Routes s"
    "Bufs s' x = (if x = b \<and> CFE_SB_MessageTxn_IsOK T \<and> TX_IsEndpoint T
       then (Bufs s b)\<lparr>BF_Content := the (fst (snd (CFE_MSG_OriginationAction (TimeNow ctx)
              (Some (BF_Content (Bufs s b))) True)))\<rparr> else Bufs s x)"
proof -
  obtain m where m: "CFE_MSG_OriginationAction (TimeNow ctx) (Some (BF_Content (Bufs s b))) True
      = (CFE_SUCCESS, Some m, Some True)" using origination_some by blast
  have cases: "(if CFE_SB_MessageTxn_IsOK T \<and> TX_IsEndpoint T then T' = T \<and> s' = store_msg b (Some m) s
      else T' = T \<and> s' = s)"
    using assms m by (auto simp: originate_def buf_msg_def)
  then show "T' = T" "running s' X zs ts ids ds = running s X zs ts ids ds" "Queues s' = Queues s"
    "PipeTbl s' = PipeTbl s" "refs s' = refs s" "Dests s' = Dests s" "Routes s' = Routes s"
    by (auto split: if_splits)
  from cases show "Bufs s' x = (if x = b \<and> CFE_SB_MessageTxn_IsOK T \<and> TX_IsEndpoint T
       then (Bufs s b)\<lparr>BF_Content := the (fst (snd (CFE_MSG_OriginationAction (TimeNow ctx)
              (Some (BF_Content (Bufs s b))) True)))\<rparr> else Bufs s x)"
    by (auto simp: m store_msg_def split: if_splits)
qed

end
