(* ===== verification/Sb_Send.thy ===== *)
theory Sb_Send
  imports Sb_Transmit
begin

section \<open>Software bus: the transmit API\<close>

text \<open>
  What \<open>CFE_SB_TransmitTxn_FindDestinations\<close> and \<open>CFE_SB_TransmitTxn_Execute\<close> do as a whole, and
  that the transmit and zero-copy API keeps the invariant.
\<close>

text \<open>What a transmission never changes: the table of pipes and destinations but for counters.\<close>

definition same_tables :: "sb \<Rightarrow> sb \<Rightarrow> bool" where
  "same_tables s s' \<longleftrightarrow> same_pipes s s' \<and> (\<forall>d. dest_key (Dests s' d) = dest_key (Dests s d))
     \<and> LastPipeId s' = LastPipeId s
     \<and> (\<forall>q. CFE_SBR_GetDestListHeadPtr (Routes s') q = CFE_SBR_GetDestListHeadPtr (Routes s) q)
     \<and> MsgMap (Routes s') = MsgMap (Routes s)"

lemma same_tables_frame: "tx_frame s s' \<Longrightarrow> same_tables s s'"
  by (simp add: same_tables_def tx_frame_def)

lemma same_tables_trans: "same_tables s t \<Longrightarrow> same_tables t u \<Longrightarrow> same_tables s u"
  by (auto simp: same_tables_def same_pipes_def)

lemma same_tables_eq:
  "PipeTbl s' = PipeTbl s \<Longrightarrow> Dests s' = Dests s \<Longrightarrow> Routes s' = Routes s \<Longrightarrow> LastPipeId s' = LastPipeId s
     \<Longrightarrow> same_tables s s'"
  by (simp add: same_tables_def same_pipes_tbl)

lemma same_tables_stamp: "sbr_ok direct_rep (Routes s) ids \<Longrightarrow> same_tables s (stamp_sequence r b s)"
  by (simp add: same_tables_def same_pipes_tbl seqcnt_routes(2) stamp_sequence_def Let_def)
    (simp add: CFE_SBR_IncrementSequenceCounter_def set_route_entry_def store_msg_def split: option.split)

definition tx_entries :: "sb_caller \<Rightarrow> sb \<Rightarrow> size_t list \<Rightarrow> PipeSetEntry list" where
  "tx_entries ctx s xs = concat (map (dest_entry (caller_app ctx) s) xs)"

lemma tx_entries_ok: "c \<in> set (tx_entries ctx s xs) \<Longrightarrow> entry_ok s c"
  by (auto simp: tx_entries_def dest: dest_entry_ok)

text \<open>The content after the sequence count is set.\<close>

definition stamped :: "bool \<Rightarrow> CFE_SBR_RouteId \<Rightarrow> sb \<Rightarrow> message \<Rightarrow> message" where
  "stamped IsEndpoint r s m =
     (if IsEndpoint
      then the (snd (CFE_MSG_SetSequenceCount (Some m)
                 (CFE_SBR_GetSequenceCounter (CFE_SBR_IncrementSequenceCounter r (Routes s)) r)))
      else m)"

lemma select_run:
  assumes run: "running s X zs ts ids ds" and b: "b \<in># X" "count X b \<le> 900"
    and T: "TX_PipeSet T = []" "TX_MaxPipes T = 16"
    and r: "r = lookup_route ids m" and es: "es = tx_entries ctx s (route_list ids ds m)"
  shows "\<exists>T' s'. select_destinations ctx r b T s = Some (T', s')
     \<and> running s' (X + replicate_mset (pending es) b) zs ts ids ds
     \<and> TX_PipeSet T' = es \<and> TX_Status T' = TX_Status T \<and> TX_IsEndpoint T' = TX_IsEndpoint T
     \<and> TX_IsTransmit T' = TX_IsTransmit T
     \<and> (m \<in> set ids \<longrightarrow> TX_EventId T' = TX_EventId T)
     \<and> same_tables s s' \<and> Queues s' = Queues s
     \<and> (\<forall>x. x \<noteq> b \<longrightarrow> payload (Bufs s' x) = payload (Bufs s x))
     \<and> payload (Bufs s' b) = payload ((Bufs s b)\<lparr>BF_Content :=
           if m \<in> set ids then stamped (TX_IsEndpoint T) r s (BF_Content (Bufs s b))
           else BF_Content (Bufs s b)\<rparr>)"
proof (cases "m \<in> set ids")
  case True
  note R = route_list_head [OF runningD(3) [OF run] True]
  define s1 where "s1 = (if TX_IsEndpoint T then stamp_sequence r b s else s)"
  have run1: "running s1 X zs ts ids ds" using run stamp_run [OF run] by (simp add: s1_def)
  have st1: "same_tables s s1"
    using same_tables_stamp [OF routes_okD(1) [OF runningD(3) [OF run]]]
    by (simp add: s1_def same_tables_frame)
  have d1: "Dests s1 = Dests s" by (simp add: s1_def)
  have head: "CFE_SBR_GetDestListHeadPtr (Routes s1) r = CFE_SBR_GetDestListHeadPtr (Routes s) r"
    using st1 by (simp add: same_tables_def)
  have seg: "dseg (Dests s1) 0 (CFE_SBR_GetDestListHeadPtr (Routes s1) r) (route_list ids ds m) 0"
    "distinct (route_list ids ds m)"
    using R(1) unfolding head d1 by (simp_all add: r route_dests_def)
  have e1: "concat (map (dest_entry (caller_app ctx) s1) (route_list ids ds m)) = es"
    by (simp add: es tx_entries_def s1_def cong: map_cong)
  obtain T' s' where f: "find_destinations (caller_app ctx) b (CFE_SBR_GetDestListHeadPtr (Routes s1) r) (T, s1)
      = Some (T', s')" "running s' (X + replicate_mset (pending es) b) zs ts ids ds"
    "TX_PipeSet T' = es" "tx_frame s1 s'" "Queues s' = Queues s1" "txn_core T' = txn_core T"
    using find_destinations_run [OF seg run1 b(1), of T "caller_app ctx"] b(2) R(3) T unfolding e1 by auto
  have c1: "Bufs s1 x = (if x = b then (Bufs s b)\<lparr>BF_Content := stamped (TX_IsEndpoint T) r s
      (BF_Content (Bufs s b))\<rparr> else Bufs s x)" for x
    by (simp add: s1_def stamped_def stamp_content)
  have v: "CFE_SBR_IsValidRouteId r" using R(2) r by simp
  show ?thesis
    using f same_tables_trans [OF st1 same_tables_frame [OF f(4)]] v True
    by (simp add: select_destinations_def s1_def [symmetric] Let_def txn_coreD [OF f(6)]
        tx_frameD(4) [OF f(4)] c1) (simp add: s1_def)
next
  case False
  then have "\<not> CFE_SBR_IsValidRouteId r" "es = []"
    by (simp_all add: r lookup_invalid es tx_entries_def route_list_def)
  then show ?thesis
    using False T run running_note [OF run tx_frame_notes(1)]
    by (simp add: select_destinations_def CFE_SB_MessageTxn_SetEventAndStatus_def Let_def
        same_tables_frame buf_acct_def)
qed

text \<open>The descriptor of the buffer when it goes into the queues.\<close>

definition sent_desc ::
  "sb_caller \<Rightarrow> MessageTxn_State \<Rightarrow> CFE_SBR_RouteId \<Rightarrow> sb \<Rightarrow> BufferD \<Rightarrow> BufferD" where
  "sent_desc ctx T r s x = x\<lparr>BF_DestRouteId := r, BF_AppId := CFE_ES_APPID_UNDEFINED,
     BF_Content := sent_content ctx (TX_IsEndpoint T) r s (BF_Content x)\<rparr>"

lemma find_run:
  assumes run: "running s X zs ts ids ds" and b: "b \<in># X" "count X b \<le> 900" "b \<in> set zs"
    and T: "TX_PipeSet T = []" "TX_MaxPipes T = 16" "CFE_SB_MessageTxn_IsOK T"
    and r: "r = lookup_route ids (TX_RoutingMsgId T)"
    and es: "es = tx_entries ctx s (route_list ids ds (TX_RoutingMsgId T))"
  shows "\<exists>T' s'. CFE_SB_TransmitTxn_FindDestinations ctx b T s = Some (T', s')
     \<and> running s' (X + replicate_mset (pending es) b) (remove1 b zs) (ts @ [b]) ids ds
     \<and> TX_PipeSet T' = es \<and> TX_Status T' = CFE_SUCCESS \<and> TX_IsTransmit T' = TX_IsTransmit T
     \<and> same_tables s s' \<and> Queues s' = Queues s
     \<and> (\<forall>x. x \<noteq> b \<longrightarrow> payload (Bufs s' x) = payload (Bufs s x))
     \<and> BF_AppId (Bufs s' b) = CFE_ES_APPID_UNDEFINED
     \<and> (TX_RoutingMsgId T \<in> set ids \<longrightarrow> payload (Bufs s' b) = payload (sent_desc ctx T r s (Bufs s b)))"
proof -
  let ?m = "TX_RoutingMsgId T"
  define s0 where "s0 = upd_buf b (\<lambda>x. x\<lparr>BF_DestRouteId := r\<rparr>) s"
  have run0: "running s0 X zs ts ids ds" using run by (simp add: s0_def running_upd_buf)
  have es0: "es = tx_entries ctx s0 (route_list ids ds ?m)"
    by (simp add: es tx_entries_def s0_def cong: map_cong)
  have tab0: "same_tables s s0" by (rule same_tables_eq) (simp_all add: s0_def)
  obtain T1 s1 where sel: "select_destinations ctx r b T s0 = Some (T1, s1)"
      "running s1 (X + replicate_mset (pending es) b) zs ts ids ds"
      "TX_PipeSet T1 = es" "TX_Status T1 = TX_Status T" "TX_IsEndpoint T1 = TX_IsEndpoint T"
      "TX_IsTransmit T1 = TX_IsTransmit T"
      "?m \<in> set ids \<longrightarrow> TX_EventId T1 = TX_EventId T" "same_tables s0 s1" "Queues s1 = Queues s0"
      "\<forall>x. x \<noteq> b \<longrightarrow> payload (Bufs s1 x) = payload (Bufs s0 x)"
      "payload (Bufs s1 b) = payload ((Bufs s0 b)\<lparr>BF_Content :=
           if ?m \<in> set ids then stamped (TX_IsEndpoint T) r s0 (BF_Content (Bufs s0 b))
           else BF_Content (Bufs s0 b)\<rparr>)"
    using select_run [OF run0 b(1,2) T(1,2) r es0] by blast
  define s2 where "s2 = enter_transit b s1"
  obtain T3 s3 where o: "originate ctx b T1 s2 = (T3, s3)" by (cases "originate ctx b T1 s2")
  note O = originate_frames [OF o]
  have fd: "CFE_SB_TransmitTxn_FindDestinations ctx b T s = Some (T3, s3)"
    using sel(1) o routes_okD(9) [OF runningD(3) [OF run], of ?m]
    by (simp add: CFE_SB_TransmitTxn_FindDestinations_def s0_def s2_def r)
  have run3: "running s3 (X + replicate_mset (pending es) b) (remove1 b zs) (ts @ [b]) ids ds"
    using enter_transit_run [OF sel(2) b(3)] by (simp add: O(2) s2_def)
  have lp: "LastPipeId s3 = LastPipeId s1"
    using o by (auto simp: originate_def s2_def enter_transit_def Let_def store_msg_def
        split: if_splits prod.splits option.splits)
  have tab3: "same_tables s s3"
    by (rule same_tables_trans [OF same_tables_trans [OF tab0 sel(8)]], rule same_tables_eq)
      (simp_all add: O s2_def lp)
  have other: "payload (Bufs s3 x) = payload (Bufs s x)" if "x \<noteq> b" for x
    using that sel(10) by (simp add: O(8) s2_def) (simp add: s0_def)
  have app: "BF_AppId (Bufs s3 b) = CFE_ES_APPID_UNDEFINED" by (simp add: O(8) s2_def)
  have own: "payload (Bufs s3 b) = payload (sent_desc ctx T r s (Bufs s b))" if m: "?m \<in> set ids"
  proof -
    have ok1: "CFE_SB_MessageTxn_IsOK T1" using T(3) sel(4,7) m by (simp add: CFE_SB_MessageTxn_IsOK_def)
    have c1: "BF_Content (Bufs s1 b) = stamped (TX_IsEndpoint T) r s (BF_Content (Bufs s b))"
      using payloadD(6) [OF sel(11)] m by (simp add: s0_def stamped_def)
    define c where "c = sent_content ctx (TX_IsEndpoint T) r s (BF_Content (Bufs s b))"
    have b3: "Bufs s3 b = (Bufs s1 b)\<lparr>BF_AppId := CFE_ES_APPID_UNDEFINED, BF_Content := c\<rparr>"
      by (simp add: O(8) s2_def ok1 sel(5) c_def sent_content_def c1 stamped_def Let_def)
    have "payload (Bufs s3 b) = payload ((Bufs s0 b)\<lparr>BF_AppId := CFE_ES_APPID_UNDEFINED, BF_Content := c\<rparr>)"
      using sel(11) by (cases "Bufs s1 b"; cases "Bufs s0 b") (simp add: b3 payload_def)
    then show ?thesis by (simp add: s0_def sent_desc_def c_def payload_def)
  qed
  have q3: "Queues s3 = Queues s" by (simp add: O(3) s2_def sel(9)) (simp add: s0_def)
  have st3: "TX_Status T3 = CFE_SUCCESS" using T(3) sel(4) by (simp add: O(1) CFE_SB_MessageTxn_IsOK_def)
  show ?thesis
    by (intro exI [of _ T3] exI [of _ s3] conjI)
      (use fd run3 tab3 other app own q3 st3 sel(3,6) in \<open>simp_all add: O(1)\<close>)
qed

subsection \<open>Back at rest\<close>

lemma rest_refs:
  assumes run: "running s (mset zs + K) zs ts ids ds" and d: "set_mset (refs s + K) \<inter> set zs = {}"
  shows "set_mset (refs s + K) = set ts"
proof -
  have "set_mset (refs s + K) \<union> set zs = set zs \<union> set ts" "set zs \<inter> set ts = {}"
    using coreD(1,2) [OF runningD(4) [OF run]] by auto
  with d show ?thesis by blast
qed

lemma at_restD:
  assumes "at_rest K s zs ts ids ds"
  shows "running s (mset zs + K) zs ts ids ds" "set_mset (refs s + K) = set ts"
    "b \<in> set zs \<Longrightarrow> BF_AppId (Bufs s b) \<noteq> CFE_ES_APPID_UNDEFINED"
    "b \<in> set ts \<Longrightarrow> BF_AppId (Bufs s b) = CFE_ES_APPID_UNDEFINED"
    "distinct zs" "distinct ts" "set zs \<inter> set ts = {}" "0 \<notin> set zs \<union> set ts"
    "count (refs s + K) b \<le> 3264"
  using assms coreD [OF runningD(4), of s "mset zs + K" zs ts ids ds] by (auto simp: at_rest_def)

text \<open>A routine that ends with the same references and the same owners.\<close>

lemma at_rest_cong:
  assumes rest: "at_rest K s zs ts ids ds" and run: "running s' (mset zs + K) zs ts ids ds"
    and r: "refs s' = refs s" and a: "\<And>b. b \<in> set zs \<union> set ts \<Longrightarrow> BF_AppId (Bufs s' b) = BF_AppId (Bufs s b)"
  shows "at_rest K s' zs ts ids ds"
  using rest run r a by (simp add: at_rest_def)

lemma at_rest_note:
  assumes rest: "at_rest K s zs ts ids ds" and f: "tx_frame s s'"
    and e: "Queues s' = Queues s" "PoolHdl s' = PoolHdl s" "Pools s' = Pools s" "Links s' = Links s"
      "Bufs s' = Bufs s"
  shows "at_rest K s' zs ts ids ds"
proof (rule at_rest_cong [OF rest])
  show "running s' (mset zs + K) zs ts ids ds"
    by (rule running_note [OF at_restD(1) [OF rest] f e(1-4)]) (simp add: buf_acct_def e)
  show "refs s' = refs s"
    by (rule refs_cong [OF tx_frameD(1) [OF f] runningD(5) [OF at_restD(1) [OF rest]]]) (simp add: e)
qed (simp add: e)

lemma execute_run:
  assumes rest: "at_rest K s zs ts ids ds" and b: "b \<in> set zs" and p: "p - CFE_SB_BUFFERD_CONTENT_OFFSET = b"
    and T: "TX_PipeSet T = []" "TX_MaxPipes T = 16" "CFE_SB_MessageTxn_IsOK T"
    and r: "r = lookup_route ids (TX_RoutingMsgId T)"
    and es: "es = tx_entries ctx s (route_list ids ds (TX_RoutingMsgId T))"
  shows "\<exists>T' s' ts'. CFE_SB_TransmitTxn_Execute ctx p T s = Some (T', s')
     \<and> at_rest K s' (remove1 b zs) ts' ids ds \<and> set ts' \<subseteq> insert b (set ts)
     \<and> TX_Status T' = CFE_SUCCESS \<and> TX_IsTransmit T' = TX_IsTransmit T
     \<and> same_tables s s' \<and> Queues s' = put_all b es (Queues s)
     \<and> (\<forall>x. x \<noteq> b \<longrightarrow> payload (Bufs s' x) = payload (Bufs s x))
     \<and> BF_AppId (Bufs s' b) = CFE_ES_APPID_UNDEFINED
     \<and> (TX_RoutingMsgId T \<in> set ids \<longrightarrow> payload (Bufs s' b) = payload (sent_desc ctx T r s
          ((Bufs s b)\<lparr>BF_ContentSize := TX_ContentSize T, BF_MsgId := TX_RoutingMsgId T\<rparr>)))"
proof -
  let ?m = "TX_RoutingMsgId T"
  note D = at_restD [OF rest]
  define s1 where "s1 = upd_buf b (\<lambda>x. x\<lparr>BF_ContentSize := TX_ContentSize T, BF_MsgId := ?m\<rparr>) s"
  have run1: "running s1 (mset zs + K) zs ts ids ds" using D(1) by (simp add: s1_def running_upd_buf)
  have es1: "es = tx_entries ctx s1 (route_list ids ds ?m)"
    by (simp add: es tx_entries_def s1_def cong: map_cong)
  have tab1: "same_tables s s1" by (rule same_tables_eq) (simp_all add: s1_def)
  have fresh: "b \<notin># refs s + K" using D(2,7) b by auto
  then have cnt: "b \<in># mset zs + K" "count (mset zs + K) b \<le> 900"
    using b D(5) by (simp_all add: distinct_count_atmost_1 not_in_iff)
  obtain T2 s2 where f: "CFE_SB_TransmitTxn_FindDestinations ctx b T s1 = Some (T2, s2)"
      "running s2 (mset zs + K + replicate_mset (pending es) b) (remove1 b zs) (ts @ [b]) ids ds"
      "TX_PipeSet T2 = es" "TX_Status T2 = CFE_SUCCESS" "TX_IsTransmit T2 = TX_IsTransmit T"
      "same_tables s1 s2" "Queues s2 = Queues s1"
      "\<forall>x. x \<noteq> b \<longrightarrow> payload (Bufs s2 x) = payload (Bufs s1 x)"
      "BF_AppId (Bufs s2 b) = CFE_ES_APPID_UNDEFINED"
      "?m \<in> set ids \<longrightarrow> payload (Bufs s2 b) = payload (sent_desc ctx T r s1 (Bufs s1 b))"
    using find_run [OF run1 cnt b T r es1] by blast
  have l: "length (PipeTbl s) = 64" using runningD(5) [OF D(1)] .
  have tab2: "same_tables s s2" by (rule same_tables_trans [OF tab1 f(6)])
  then have sp: "same_pipes s s2" by (simp add: same_tables_def)
  have eok: "\<forall>c \<in> set es. entry_ok s2 c"
    using pipe_keyD(2) [OF same_pipesD(2) [OF sp]] find_pipe_facts(1) l
    by (auto simp: es entry_ok_def find_pipe_cong [OF sp l] queue_of_def dest!: tx_entries_ok)
  obtain T3 s3 where pt: "process_transmit b [] es T2 s2 = Some (T3, s3)"
      "running s3 (mset zs + K) (remove1 b zs) (ts @ [b]) ids ds" "tx_frame s2 s3"
      "Queues s3 = put_all b es (Queues s2)" "\<forall>x. x \<noteq> b \<longrightarrow> count (refs s3) x = count (refs s2) x"
      "txn_core T3 = txn_core T2"
    using process_transmit_run [OF f(2) cnt(1) eok, of "[]" T2] by blast
  have refs2: "refs s2 = refs s" by (rule refs_cong [OF sp l]) (simp add: f(7) s1_def)
  define s4 where "s4 = CFE_SB_DecrBufUseCnt b s3"
  define ts' where "ts' = (if b \<in># refs s3 + (mset (remove1 b zs) + K) then ts @ [b] else remove1 b (ts @ [b]))"
  have zs: "mset zs + K = add_mset b (mset (remove1 b zs) + K)" using b by simp
  have bz: "b \<notin> set (remove1 b zs)" using D(5) by simp
  have bt: "b \<notin> set ts" using D(7) b by auto
  have "running s3 (add_mset b (mset (remove1 b zs) + K)) (remove1 b zs) (ts @ [b]) ids ds"
    using pt(2) by (subst zs [symmetric])
  from running_decr [OF this] have run4: "running s4 (mset (remove1 b zs) + K) (remove1 b zs) ts' ids ds"
    unfolding s4_def [symmetric] ts'_def [symmetric] remove1_idem [OF bz] if_cancel .
  have refs4: "refs s4 = refs s3"
    by (rule refs_cong [OF same_pipes_tbl runningD(5) [OF pt(2)]]) (simp_all add: s4_def)
  have zsub: "set (remove1 b zs) = set zs - {b}" using D(5) by (simp add: set_remove1_eq)
  have tsub: "set ts' \<subseteq> insert b (set ts)" using bt by (auto simp: ts'_def remove1_append)
  have pay: "payload (Bufs s4 x) = payload (Bufs s2 x)" for x
    using tx_frameD(4) [OF pt(3)] by (simp add: s4_def)
  have app: "BF_AppId (Bufs s4 x) = (if x = b then CFE_ES_APPID_UNDEFINED else BF_AppId (Bufs s x))" for x
    using payloadD(2) [OF pay [of x]] f(8,9) payloadD(2) [of "Bufs s2 x" "Bufs s1 x"] by (simp add: s1_def)
  have old: "count (refs s4 + K) x = count (refs s + K) x" if "x \<noteq> b" for x using pt(5) that by (simp add: refs4 refs2)
  have "count (refs s4 + K) x \<le> 3264" for x
  proof (cases "x = b")
    case True
    have "count (refs s4) b \<le> size (refs s4)" by (rule count_le_size)
    also have "\<dots> \<le> 3264" by (rule refs_size [OF runningD(1) [OF run4]])
    finally show ?thesis using fresh True by (simp add: not_in_iff)
  qed (use old D(9) in simp)
  moreover have "set_mset (refs s4 + K) \<inter> set (remove1 b zs) = {}"
  proof -
    have "x \<in> set ts" if "x \<in># refs s4 + K" "x \<noteq> b" for x
      using old [OF that(2)] that(1) D(2) by (metis count_greater_zero_iff)
    then show ?thesis using D(7) by (auto simp: zsub)
  qed
  note rest_refs [OF run4 this]
  ultimately have "at_rest K s4 (remove1 b zs) ts' ids ds"
    using run4 D(3,4) tsub by (auto simp: at_rest_def app zsub)
  moreover have "CFE_SB_TransmitTxn_Execute ctx p T s = Some (T3, s4)"
    using f(1,3) pt(1) D(3) [OF b]
    by (simp add: CFE_SB_TransmitTxn_Execute_def CFE_SB_ZeroCopyBufferValidate_def p
        CFE_ResourceId_IsDefined_def CFE_ES_APPID_UNDEFINED_def s1_def s4_def)
  moreover have "same_tables s s4"
    by (rule same_tables_trans [OF tab2], rule same_tables_frame, rule tx_frame_trans [OF pt(3)])
      (simp add: s4_def)
  moreover have "?m \<in> set ids \<longrightarrow> payload (Bufs s4 b) = payload (sent_desc ctx T r s
          ((Bufs s b)\<lparr>BF_ContentSize := TX_ContentSize T, BF_MsgId := ?m\<rparr>))"
    using f(10) by (simp add: pay) (simp add: s1_def sent_desc_def sent_content_def)
  ultimately show ?thesis
    using tsub f(4,5,7,8) pt(4) txn_coreD [OF pt(6)] app [of b]
    by (intro exI [of _ T3] exI [of _ s4] exI [of _ ts'] conjI)
      (simp_all add: pay, simp_all add: s4_def s1_def)
qed

subsection \<open>Events and counters\<close>

text \<open>Two states that differ in events, counters, recursion flags and the report switch only.\<close>

definition quiet :: "sb \<Rightarrow> sb \<Rightarrow> bool" where
  "quiet s s' \<longleftrightarrow> PipeTbl s' = PipeTbl s \<and> LastPipeId s' = LastPipeId s \<and> Bufs s' = Bufs s
     \<and> Links s' = Links s \<and> Dests s' = Dests s \<and> Routes s' = Routes s \<and> Pools s' = Pools s
     \<and> PoolHdl s' = PoolHdl s \<and> Queues s' = Queues s"

lemma quiet_refl [simp]: "quiet s s"
  by (simp add: quiet_def)

lemma quiet_trans: "quiet s t \<Longrightarrow> quiet t u \<Longrightarrow> quiet s u"
  by (simp add: quiet_def)

lemma quietD:
  assumes "quiet s s'"
  shows "PipeTbl s' = PipeTbl s" "LastPipeId s' = LastPipeId s" "Bufs s' = Bufs s" "Links s' = Links s"
    "Dests s' = Dests s" "Routes s' = Routes s" "Pools s' = Pools s" "PoolHdl s' = PoolHdl s"
    "Queues s' = Queues s"
  using assms by (simp_all add: quiet_def)

lemma quiet_notes [simp]:
  "quiet s (upd_hk h s)" "quiet s (upd_stat g s)" "quiet s (send_event e s)" "quiet s (send_pending p s)"
  "quiet s (s\<lparr>StopRecurseFlags := F\<rparr>)" "quiet s (s\<lparr>SubscriptionReporting := z\<rparr>)"
  by (simp_all add: quiet_def send_pending_def upd_hk_def upd_stat_def send_event_def split: option.split)

lemma quiet_hk: "quiet s t \<Longrightarrow> quiet s (upd_hk h t)"
  and quiet_event: "quiet s t \<Longrightarrow> quiet s (send_event e t)"
  and quiet_pending: "quiet s t \<Longrightarrow> quiet s (send_pending p t)"
  by (erule quiet_trans; simp)+

lemma quiet_running: "quiet s s' \<Longrightarrow> running s' X zs ts ids ds = running s X zs ts ids ds"
proof -
  assume q: "quiet s s'"
  note D = quietD [OF q]
  have "core s' R zs ts Ds = core s R zs ts Ds" for R Ds
    by (rule core_cong) (simp_all add: D buf_acct_def)
  then show ?thesis
    using parts_cong [OF D(1,9)] tbl_cong(5) [OF D(1)] D(5,6) by (simp add: running_def)
qed

lemma quiet_at_rest: "quiet s s' \<Longrightarrow> at_rest K s' zs ts ids ds = at_rest K s zs ts ids ds"
  using quiet_running [of s s'] parts_cong(1) [OF quietD(1,9), of s s'] by (simp add: at_rest_def quietD(3))

lemma quiet_tables: "quiet s s' \<Longrightarrow> same_tables s s'"
  by (rule same_tables_eq) (simp_all add: quietD)

lemma quiet_name: "quiet s (snd (CFE_SB_GetPipeName p n i s))"
  by (simp add: CFE_SB_GetPipeName_def Let_def quiet_event quiet_pending split: prod.split)

lemma quiet_single: "quiet s (snd (CFE_SB_MessageTxn_ReportSingleEvent ctx c e s))"
proof -
  define s1 where "s1 = snd (CFE_SB_MessageTxn_GetEventDetails c e s)"
  have q1: "quiet s s1"
    by (simp add: s1_def CFE_SB_MessageTxn_GetEventDetails_def Let_def quiet_name split: option.split)
  have "quiet s1 (snd (CFE_SB_RequestToSendEvent ctx b s1))" for b
    by (simp add: CFE_SB_RequestToSendEvent_def split: option.split)
  moreover have "quiet t (CFE_SB_FinishSendEvent ctx b t)" for b t
    by (simp add: CFE_SB_FinishSendEvent_def split: option.split)
  ultimately show ?thesis
    using q1 unfolding CFE_SB_MessageTxn_ReportSingleEvent_def s1_def
    by (auto simp: Let_def split: prod.split) (metis quiet_event quiet_trans snd_conv)+
qed

lemma quiet_reports: "quiet s (snd (report_pipes ctx cs (n, s)))"
proof (induction cs arbitrary: n s)
  case Nil
  then show ?case by simp
next
  case (Cons c cs)
  show ?case
  proof (cases "PS_PendingEventId c")
    case None
    then show ?thesis using Cons.IH by simp
  next
    case (Some e)
    obtain err s' where r: "CFE_SB_MessageTxn_ReportSingleEvent ctx (Some c) e s = (err, s')"
      by (cases "CFE_SB_MessageTxn_ReportSingleEvent ctx (Some c) e s")
    then have "quiet s s'" using quiet_single [of s ctx "Some c" e] by simp
    then show ?thesis using quiet_trans [OF _ Cons.IH] Some r by simp
  qed
qed

lemma quiet_report: "quiet s (CFE_SB_MessageTxn_ReportEvents ctx T s)"
proof -
  obtain n1 s1 where a: "(case TX_EventId T of None \<Rightarrow> (0, s) | Some e \<Rightarrow>
          (case CFE_SB_MessageTxn_ReportSingleEvent ctx None e s of
             (IsError, s') \<Rightarrow> (if IsError then 1 else 0 :: nat, s'))) = (n1, s1)"
    by (metis surj_pair)
  then have q1: "quiet s s1"
    using quiet_single [of s ctx None] by (auto split: option.splits prod.splits) (metis snd_conv)
  obtain n2 s2 where b: "report_pipes ctx (TX_PipeSet T) (n1, s1) = (n2, s2)" by (metis surj_pair)
  then have "quiet s s2" using quiet_trans [OF q1] quiet_reports [of s1 ctx "TX_PipeSet T" n1] by simp
  then show ?thesis
    unfolding CFE_SB_MessageTxn_ReportEvents_def Let_def a by (auto simp: b quiet_hk)
qed

subsection \<open>Zero-copy buffers\<close>

text \<open>ES gives a defined ID to every application.\<close>

definition caller_ok :: "sb_caller \<Rightarrow> bool" where
  "caller_ok ctx \<longleftrightarrow> CallerApp ctx \<noteq> Some CFE_ES_APPID_UNDEFINED"

lemma alloc_run:
  assumes rest: "at_rest K s zs ts ids ds" and c: "caller_ok ctx"
    and al: "CFE_SB_AllocateMessageBuffer ctx n s = (r, s')"
  shows "r = None \<Longrightarrow> at_rest K s' zs ts ids ds \<and> Bufs s' = Bufs s"
    "r = Some p \<Longrightarrow> \<exists>b. p = b + CFE_SB_BUFFERD_CONTENT_OFFSET \<and> b \<noteq> 0 \<and> b \<notin> set zs \<union> set ts
       \<and> at_rest K s' (zs @ [b]) ts ids ds \<and> unat n \<le> 32768
       \<and> BF_Content (Bufs s' b) = replicate (unat n) 0 \<and> CallerApp ctx = Some (BF_AppId (Bufs s' b))
       \<and> (\<forall>x. x \<noteq> b \<longrightarrow> Bufs s' x = Bufs s x)"
    "Dests s' = Dests s" "Routes s' = Routes s" "Queues s' = Queues s" "PipeTbl s' = PipeTbl s"
    "LastPipeId s' = LastPipeId s"
    "r \<noteq> None \<longleftrightarrow> unat n \<le> 32768 \<and> CallerApp ctx \<noteq> None \<and> can_alloc (n + CFE_SB_BUFFERD_CONTENT_OFFSET) s"
proof -
  note D = at_restD [OF rest] and RD = runningD [OF at_restD(1) [OF rest]]
  consider "r = None" "s' = s"
    | A where "unat n \<le> 32768" "CallerApp ctx = Some A" "r = None" "CFE_SB_GetBufferFromPool n s = (None, s')"
    | A b s1 where "unat n \<le> 32768" "CallerApp ctx = Some A" "CFE_SB_GetBufferFromPool n s = (Some b, s1)"
      "r = Some (b + CFE_SB_BUFFERD_CONTENT_OFFSET)"
      "s' = upd_buf b (\<lambda>x. x\<lparr>BF_AppId := A, BF_Content := replicate (unat n) 0\<rparr>)
              (s1\<lparr>Links := CFE_SB_TrackingListAdd ZeroCopyList (BufLink b) (Links s1)\<rparr>)"
    using al by (auto simp: CFE_SB_AllocateMessageBuffer_def Let_def store_msg_def upd_buf_def
        CFE_MISSION_SB_MAX_SB_MSG_SIZE_def word_less_nat_alt not_less
        split: if_splits option.splits prod.splits)
  note cases = this
  show "r \<noteq> None \<longleftrightarrow> unat n \<le> 32768 \<and> CallerApp ctx \<noteq> None \<and> can_alloc (n + CFE_SB_BUFFERD_CONTENT_OFFSET) s"
    using al by (auto simp: CFE_SB_AllocateMessageBuffer_def Let_def CFE_MISSION_SB_MAX_SB_MSG_SIZE_def
        word_less_nat_alt not_less dest: alloc_none(2) split: if_splits option.splits prod.splits)
  have "Dests s' = Dests s \<and> Routes s' = Routes s \<and> Queues s' = Queues s \<and> PipeTbl s' = PipeTbl s
    \<and> LastPipeId s' = LastPipeId s"
    using cases
  proof cases
    case 2
    from alloc_frames [OF 2(4)] show ?thesis by simp
  next
    case 3
    from alloc_frames [OF 3(3)] 3(5) show ?thesis by simp
  qed simp
  then show "Dests s' = Dests s" "Routes s' = Routes s" "Queues s' = Queues s" "PipeTbl s' = PipeTbl s"
    "LastPipeId s' = LastPipeId s" by simp_all
  show "at_rest K s' zs ts ids ds \<and> Bufs s' = Bufs s" if "r = None"
    using cases
  proof cases
    case 2
    note F = alloc_frames [OF 2(4)]
    have "core s' (refs s + (mset zs + K)) zs ts (dest_set ds)" "Bufs s' = Bufs s"
      using core_alloc_fails [OF RD(4) 2(1,4)] by simp_all
    then show ?thesis
      using rest RD parts_cong [OF F(5,4)] tbl_cong(5) [OF F(5)] F(2,3)
      by (simp add: at_rest_def running_def)
  qed (use rest that in auto)
  show "\<exists>b. p = b + CFE_SB_BUFFERD_CONTENT_OFFSET \<and> b \<noteq> 0 \<and> b \<notin> set zs \<union> set ts
       \<and> at_rest K s' (zs @ [b]) ts ids ds \<and> unat n \<le> 32768
       \<and> BF_Content (Bufs s' b) = replicate (unat n) 0 \<and> CallerApp ctx = Some (BF_AppId (Bufs s' b))
       \<and> (\<forall>x. x \<noteq> b \<longrightarrow> Bufs s' x = Bufs s x)" if "r = Some p"
    using cases
  proof cases
    case (3 A b s1)
    note F = alloc_frames [OF 3(3)] and C = core_alloc [OF RD(4) 3(1,3)]
    let ?s = "s1\<lparr>Links := CFE_SB_TrackingListAdd ZeroCopyList (BufLink b) (Links s1)\<rparr>"
    have "core ?s (refs ?s + (mset (zs @ [b]) + K)) (zs @ [b]) ts (dest_set ds)"
      using C(4) by (simp add: parts_cong(1) [OF F(5,4)])
    then have run: "running ?s (mset (zs @ [b]) + K) (zs @ [b]) ts ids ds"
      using RD parts_cong [OF F(5,4)] tbl_cong(5) [OF F(5)] F(2,3) by (simp add: running_def)
    have run': "running s' (mset (zs @ [b]) + K) (zs @ [b]) ts ids ds"
      unfolding 3(5) by (rule iffD2 [OF running_upd_buf run]) simp_all
    have refs': "refs s' = refs s" using parts_cong(1) [OF F(5,4)] by (simp add: 3(5))
    have a: "A \<noteq> CFE_ES_APPID_UNDEFINED" using c 3(2) by (auto simp: caller_ok_def)
    have bufs: "x \<noteq> b \<Longrightarrow> Bufs s' x = Bufs s x" "BF_AppId (Bufs s' b) = A"
      "BF_Content (Bufs s' b) = replicate (unat n) 0" for x
      by (simp_all add: 3(5) C(3))
    have "at_rest K s' (zs @ [b]) ts ids ds"
      unfolding at_rest_def refs'
    proof (intro conjI)
      show "\<forall>x \<in> set (zs @ [b]). BF_AppId (Bufs s' x) \<noteq> CFE_ES_APPID_UNDEFINED"
        using C(2) D(3) a bufs by (auto) metis
      show "\<forall>x \<in> set ts. BF_AppId (Bufs s' x) = CFE_ES_APPID_UNDEFINED"
        using C(2) D(4) bufs by auto metis
    qed (use run' D(2) D(9) in simp_all)
    then show ?thesis using that 3 C(1,2) bufs by auto
  qed (use that in simp_all)
qed

lemma release_run:
  assumes rest: "at_rest K s zs ts ids ds" and b: "b \<in> set zs" "p = b + CFE_SB_BUFFERD_CONTENT_OFFSET" "p \<noteq> 0"
  obtains s' where "CFE_SB_ReleaseMessageBuffer p s = (CFE_SUCCESS, s')" "at_rest K s' (remove1 b zs) ts ids ds"
    "quiet (s'\<lparr>Bufs := Bufs s, Links := Links s, Pools := Pools s\<rparr>) s" "x \<noteq> b \<Longrightarrow> Bufs s' x = Bufs s x"
    "BF_AppId (Bufs s' b) = CFE_ES_APPID_UNDEFINED"
proof -
  note D = at_restD [OF rest]
  define s1 where "s1 = upd_buf b (\<lambda>x. x\<lparr>BF_AppId := CFE_ES_APPID_UNDEFINED\<rparr>) s"
  define s2 where "s2 = CFE_SB_DecrBufUseCnt b s1"
  have rel: "CFE_SB_ReleaseMessageBuffer p s = (CFE_SUCCESS, s2)"
    using b D(3) [OF b(1)] by (simp add: CFE_SB_ReleaseMessageBuffer_def CFE_SB_ZeroCopyBufferValidate_def
        Let_def s1_def s2_def CFE_ResourceId_IsDefined_def CFE_ES_APPID_UNDEFINED_def)
  have run1: "running s1 (mset zs + K) zs ts ids ds" using D(1) by (simp add: s1_def running_upd_buf)
  have "mset zs + K = add_mset b (mset (remove1 b zs) + K)" using b by simp
  with run1 have run1': "running s1 (add_mset b (mset (remove1 b zs) + K)) zs ts ids ds" by (simp only:)
  have nb: "b \<notin># refs s1 + (mset (remove1 b zs) + K)" "b \<notin> set ts"
    using D(2,5,7) b(1) by (auto simp: s1_def set_remove1_eq simp del: mset_remove1)
  have run2: "running s2 (mset (remove1 b zs) + K) (remove1 b zs) ts ids ds"
    using running_decr [OF run1'] by (simp only: s2_def nb if_False remove1_idem [OF nb(2)])
  have refs2: "refs s2 = refs s"
    by (rule refs_cong [OF same_pipes_tbl runningD(5) [OF D(1)]]) (simp_all add: s2_def s1_def)
  have bufs: "x \<noteq> b \<Longrightarrow> Bufs s2 x = Bufs s x" for x
    by (simp add: s2_def s1_def CFE_SB_DecrBufUseCnt_def CFE_SB_ReturnBufferToPool_def Let_def)
  have app: "BF_AppId (Bufs s2 b) = CFE_ES_APPID_UNDEFINED"
    by (simp add: s2_def s1_def CFE_SB_DecrBufUseCnt_def CFE_SB_ReturnBufferToPool_def Let_def)
  have "at_rest K s2 (remove1 b zs) ts ids ds"
    unfolding at_rest_def refs2
  proof (intro conjI)
    show "\<forall>x \<in> set (remove1 b zs). BF_AppId (Bufs s2 x) \<noteq> CFE_ES_APPID_UNDEFINED"
      using D(3,5) bufs by (auto simp: set_remove1_eq)
    show "\<forall>x \<in> set ts. BF_AppId (Bufs s2 x) = CFE_ES_APPID_UNDEFINED"
      using D(4) nb(2) bufs by (metis)
  qed (use run2 D(2) D(9) in simp_all)
  moreover have "quiet (s2\<lparr>Bufs := Bufs s, Links := Links s, Pools := Pools s\<rparr>) s"
    by (simp add: quiet_def s2_def s1_def)
  ultimately show ?thesis using that rel bufs app by blast
qed

end
