(* ===== verification/Sb_Api.thy ===== *)
theory Sb_Api
  imports Sb_Send
begin

section \<open>Software bus: transmitting through the API\<close>

text \<open>
  The transmit API on a state at rest: what each call does to the queues and to the ownership of
  buffers, on every branch.
\<close>

lemma txn_init [simp]:
  "CFE_SB_MessageTxn_IsOK (CFE_SB_TransmitTxn_Init True)" "TX_PipeSet (CFE_SB_TransmitTxn_Init b) = []"
  "TX_MaxPipes (CFE_SB_TransmitTxn_Init b) = 16" "\<not> CFE_SB_MessageTxn_IsOK (CFE_SB_TransmitTxn_Init False)"
  "TX_Status (CFE_SB_TransmitTxn_Init False) = CFE_SB_BAD_ARGUMENT"
  "TX_Status (CFE_SB_TransmitTxn_Init True) = CFE_SUCCESS" "TX_EventId (CFE_SB_TransmitTxn_Init True) = None"
  by (simp_all add: CFE_SB_TransmitTxn_Init_def CFE_SB_MessageTxn_Init_def CFE_SB_MessageTxn_IsOK_def
      CFE_SB_MessageTxn_SetEventAndStatus_def CFE_PLATFORM_SB_MAX_DEST_PER_PKT_def Let_def)

lemma fail_ok [simp]:
  "st \<noteq> CFE_SUCCESS \<Longrightarrow> \<not> CFE_SB_MessageTxn_IsOK (CFE_SB_MessageTxn_SetEventAndStatus e st T)"
  "st \<noteq> CFE_SUCCESS \<Longrightarrow> TX_Status (CFE_SB_MessageTxn_SetEventAndStatus e st T) \<noteq> CFE_SUCCESS"
  by (auto simp: CFE_SB_MessageTxn_SetEventAndStatus_def CFE_SB_MessageTxn_IsOK_def Let_def)

text \<open>A message that can be sent: its ID is valid and its size is not above the maximum.\<close>

definition sendable :: "msg_ptr \<Rightarrow> CFE_SB_MsgId \<Rightarrow> size_t \<Rightarrow> bool" where
  "sendable M m n \<longleftrightarrow> CFE_MSG_GetMsgId M True = Inr m \<and> CFE_SB_IsValidMsgId m
     \<and> CFE_MSG_GetSize M True = Inr n \<and> unat n \<le> 32768"

lemma setup_ok:
  assumes "sendable M m n"
  shows "CFE_SB_TransmitTxn_SetupFromMsg M (CFE_SB_TransmitTxn_Init True)
    = (CFE_SB_TransmitTxn_Init True)\<lparr>TX_RoutingMsgId := m, TX_ContentSize := n\<rparr>"
proof -
  have "\<not> CFE_MISSION_SB_MAX_SB_MSG_SIZE < n"
    using assms by (simp add: sendable_def CFE_MISSION_SB_MAX_SB_MSG_SIZE_def word_less_nat_alt)
  moreover have "CFE_SB_MessageTxn_IsOK ((CFE_SB_TransmitTxn_Init True)\<lparr>TX_RoutingMsgId := m\<rparr>)"
    using txn_init(1) by (simp add: CFE_SB_MessageTxn_IsOK_def)
  ultimately show ?thesis
    using assms by (simp add: sendable_def CFE_SB_TransmitTxn_SetupFromMsg_def
        CFE_SB_MessageTxn_SetRoutingMsgId_def CFE_SB_MessageTxn_SetContentSize_def)
qed

lemma setup_fails:
  assumes "\<nexists>m n. sendable M m n"
  shows "\<not> CFE_SB_MessageTxn_IsOK (CFE_SB_TransmitTxn_SetupFromMsg M (CFE_SB_TransmitTxn_Init True))"
    "TX_Status (CFE_SB_TransmitTxn_SetupFromMsg M (CFE_SB_TransmitTxn_Init True)) \<noteq> CFE_SUCCESS"
proof -
  have errs: "CFE_MSG_GetMsgId M True = Inl e \<Longrightarrow> e \<noteq> CFE_SUCCESS"
    "CFE_MSG_GetSize M True = Inl e \<Longrightarrow> e \<noteq> CFE_SUCCESS" for e
    by (auto simp: CFE_MSG_GetMsgId_def CFE_MSG_GetSize_def split: option.splits if_splits)
  consider e where "CFE_MSG_GetMsgId M True = Inl e"
    | m where "CFE_MSG_GetMsgId M True = Inr m" "\<not> CFE_SB_IsValidMsgId m"
    | m e where "CFE_MSG_GetMsgId M True = Inr m" "CFE_SB_IsValidMsgId m" "CFE_MSG_GetSize M True = Inl e"
    | m n where "CFE_MSG_GetMsgId M True = Inr m" "CFE_SB_IsValidMsgId m" "CFE_MSG_GetSize M True = Inr n"
      "32768 < unat n"
    using assms by (cases "CFE_MSG_GetMsgId M True"; cases "CFE_MSG_GetSize M True")
      (auto simp: sendable_def not_le)
  then have "\<not> CFE_SB_MessageTxn_IsOK (CFE_SB_TransmitTxn_SetupFromMsg M (CFE_SB_TransmitTxn_Init True))
    \<and> TX_Status (CFE_SB_TransmitTxn_SetupFromMsg M (CFE_SB_TransmitTxn_Init True)) \<noteq> CFE_SUCCESS"
  proof cases
    case (1 e)
    then show ?thesis using errs(1) [OF 1] by (simp add: CFE_SB_TransmitTxn_SetupFromMsg_def Let_def)
  next
    case (2 m)
    then show ?thesis
      by (simp add: CFE_SB_TransmitTxn_SetupFromMsg_def Let_def CFE_SB_MessageTxn_SetRoutingMsgId_def)
  next
    case (3 m e)
    then show ?thesis using errs(2) [OF 3(3)]
      by (auto simp: CFE_SB_TransmitTxn_SetupFromMsg_def Let_def CFE_SB_MessageTxn_SetRoutingMsgId_def
          CFE_SB_MessageTxn_IsOK_def)
  next
    case (4 m n)
    then have "CFE_MISSION_SB_MAX_SB_MSG_SIZE < n"
      by (simp add: CFE_MISSION_SB_MAX_SB_MSG_SIZE_def word_less_nat_alt)
    with 4 show ?thesis
      by (auto simp: CFE_SB_TransmitTxn_SetupFromMsg_def Let_def CFE_SB_MessageTxn_SetRoutingMsgId_def
          CFE_SB_MessageTxn_SetContentSize_def CFE_SB_MessageTxn_IsOK_def)
  qed
  then show "\<not> CFE_SB_MessageTxn_IsOK (CFE_SB_TransmitTxn_SetupFromMsg M (CFE_SB_TransmitTxn_Init True))"
    "TX_Status (CFE_SB_TransmitTxn_SetupFromMsg M (CFE_SB_TransmitTxn_Init True)) \<noteq> CFE_SUCCESS" by simp_all
qed

text \<open>The transaction with which a sendable message is executed.\<close>

definition send_txn :: "bool \<Rightarrow> CFE_SB_MsgId \<Rightarrow> size_t \<Rightarrow> MessageTxn_State" where
  "send_txn IsEndpoint m n = (CFE_SB_TransmitTxn_Init True)
     \<lparr>TX_RoutingMsgId := m, TX_ContentSize := n, TX_IsEndpoint := IsEndpoint\<rparr>"

lemma send_txn [simp]:
  "TX_PipeSet (send_txn org m n) = []" "TX_MaxPipes (send_txn org m n) = 16" "CFE_SB_MessageTxn_IsOK (send_txn org m n)"
  "TX_RoutingMsgId (send_txn org m n) = m" "TX_ContentSize (send_txn org m n) = n"
  "TX_IsEndpoint (send_txn org m n) = org"
  using txn_init(1) by (simp_all add: send_txn_def CFE_SB_MessageTxn_IsOK_def)

lemma setup_send_txn:
  "sendable M m n \<Longrightarrow> CFE_SB_MessageTxn_IsOK (CFE_SB_TransmitTxn_SetupFromMsg M (CFE_SB_TransmitTxn_Init True))
     \<and> CFE_SB_MessageTxn_SetEndpoint org (CFE_SB_TransmitTxn_SetupFromMsg M (CFE_SB_TransmitTxn_Init True))
       = send_txn org m n"
  using send_txn(3) [of False m n]
  by (simp add: setup_ok CFE_SB_MessageTxn_SetEndpoint_def send_txn_def CFE_SB_MessageTxn_IsOK_def)

text \<open>The descriptor that the receivers of a message see.\<close>

definition delivered :: "sb_caller \<Rightarrow> bool \<Rightarrow> CFE_SB_MsgId list \<Rightarrow> CFE_SB_MsgId \<Rightarrow> size_t \<Rightarrow> sb \<Rightarrow> message \<Rightarrow> BufferD \<Rightarrow> bool"
  where
  "delivered ctx org ids m n s content x \<longleftrightarrow>
     BF_MsgId x = m \<and> BF_ContentSize x = n \<and> BF_DestRouteId x = lookup_route ids m
       \<and> BF_Content x = sent_content ctx org (lookup_route ids m) s content"

lemma transmit_buffer_sends:
  assumes rest: "at_rest K s zs ts ids ds" and b: "b \<in> set zs" and p: "p = b + CFE_SB_BUFFERD_CONTENT_OFFSET" "p \<noteq> 0"
    and M: "sendable (Some (BF_Content (Bufs s b))) m n"
    and es: "es = tx_entries ctx s (route_list ids ds m)"
  shows "\<exists>s' ts'. CFE_SB_TransmitBuffer ctx p org s = Some (CFE_SUCCESS, s')
     \<and> at_rest K s' (remove1 b zs) ts' ids ds \<and> set ts' \<subseteq> insert b (set ts)
     \<and> same_tables s s' \<and> Queues s' = put_all b es (Queues s)
     \<and> (\<forall>x. x \<noteq> b \<longrightarrow> payload (Bufs s' x) = payload (Bufs s x))
     \<and> BF_AppId (Bufs s' b) = CFE_ES_APPID_UNDEFINED
     \<and> (m \<in> set ids \<longrightarrow> delivered ctx org ids m n s (BF_Content (Bufs s b)) (Bufs s' b))"
proof -
  have pb: "p - CFE_SB_BUFFERD_CONTENT_OFFSET = b" by (simp add: p)
  let ?T = "send_txn org m n"
  obtain T' s1 ts' where e: "CFE_SB_TransmitTxn_Execute ctx p ?T s = Some (T', s1)"
     "at_rest K s1 (remove1 b zs) ts' ids ds" "set ts' \<subseteq> insert b (set ts)" "TX_Status T' = CFE_SUCCESS"
     "same_tables s s1" "Queues s1 = put_all b es (Queues s)"
     "\<forall>x. x \<noteq> b \<longrightarrow> payload (Bufs s1 x) = payload (Bufs s x)"
     "BF_AppId (Bufs s1 b) = CFE_ES_APPID_UNDEFINED"
     "m \<in> set ids \<longrightarrow> payload (Bufs s1 b) = payload (sent_desc ctx ?T (lookup_route ids m) s
          ((Bufs s b)\<lparr>BF_ContentSize := n, BF_MsgId := m\<rparr>))"
    using execute_run [OF rest b pb send_txn(1-3) refl refl, where ctx = ctx] unfolding es send_txn by blast
  let ?s = "CFE_SB_MessageTxn_ReportEvents ctx T' s1"
  have q: "quiet s1 ?s" by (rule quiet_report)
  have call: "CFE_SB_TransmitBuffer ctx p org s = Some (CFE_SUCCESS, ?s)"
    using p(2) e(1,4) setup_send_txn [OF M, of org] by (simp add: CFE_SB_TransmitBuffer_def buf_msg_def pb)
  have "delivered ctx org ids m n s (BF_Content (Bufs s b)) (Bufs ?s b)" if "m \<in> set ids"
  proof -
    from e(9) that have P: "payload (Bufs s1 b) = payload (sent_desc ctx ?T (lookup_route ids m) s
          ((Bufs s b)\<lparr>BF_ContentSize := n, BF_MsgId := m\<rparr>))" by blast
    show ?thesis using payloadD [OF P] by (simp add: quietD(3) [OF q] delivered_def sent_desc_def)
  qed
  then show ?thesis
    using call e same_tables_trans [OF e(5) quiet_tables [OF q]]
    by (intro exI [of _ ?s] exI [of _ ts']) (simp add: quiet_at_rest [OF q] quietD [OF q])
qed

text \<open>A buffer that is not sent stays with its owner, and a buffer nobody owns is refused.\<close>

lemma transmit_buffer_refuses:
  assumes "p = 0 \<or> (\<nexists>m n. sendable (Some (BF_Content (Bufs s (p - CFE_SB_BUFFERD_CONTENT_OFFSET)))) m n)
     \<or> BF_AppId (Bufs s (p - CFE_SB_BUFFERD_CONTENT_OFFSET)) = CFE_ES_APPID_UNDEFINED"
  obtains st s' where "CFE_SB_TransmitBuffer ctx p org s = Some (st, s')" "st \<noteq> CFE_SUCCESS" "quiet s s'"
proof -
  let ?M = "buf_msg s (p - CFE_SB_BUFFERD_CONTENT_OFFSET)"
  let ?T = "CFE_SB_TransmitTxn_SetupFromMsg ?M (CFE_SB_TransmitTxn_Init True)"
  consider "p = 0" | "p \<noteq> 0" "\<nexists>m n. sendable ?M m n"
    | m n where "p \<noteq> 0" "sendable ?M m n" "BF_AppId (Bufs s (p - CFE_SB_BUFFERD_CONTENT_OFFSET)) = CFE_ES_APPID_UNDEFINED"
    using assms by (auto simp: buf_msg_def)
  then show thesis
  proof cases
    case 1
    then have "CFE_SB_TransmitBuffer ctx p org s = Some (CFE_SB_BAD_ARGUMENT,
        CFE_SB_MessageTxn_ReportEvents ctx (CFE_SB_TransmitTxn_Init False) s)"
      by (simp add: CFE_SB_TransmitBuffer_def)
    then show thesis by (rule that) (simp_all add: quiet_report)
  next
    case 2
    then have "CFE_SB_TransmitBuffer ctx p org s = Some (TX_Status ?T, CFE_SB_MessageTxn_ReportEvents ctx ?T s)"
      using setup_fails(1) [OF 2(2)] by (simp add: CFE_SB_TransmitBuffer_def Let_def)
    then show thesis using setup_fails(2) [OF 2(2)] by (rule that) (simp add: quiet_report)
  next
    case (3 m n)
    define T where "T = CFE_SB_MessageTxn_SetEventAndStatus None CFE_SB_BUFFER_INVALID (send_txn org m n)"
    have "CFE_SB_TransmitTxn_Execute ctx p (send_txn org m n) s = Some (T, s)"
      using 3(3) by (simp add: CFE_SB_TransmitTxn_Execute_def CFE_SB_ZeroCopyBufferValidate_def Let_def
          CFE_ResourceId_IsDefined_def CFE_ES_APPID_UNDEFINED_def T_def)
    then have "CFE_SB_TransmitBuffer ctx p org s = Some (TX_Status T, CFE_SB_MessageTxn_ReportEvents ctx T s)"
      using setup_send_txn [OF 3(2), of org] 3(1) by (simp add: CFE_SB_TransmitBuffer_def)
    then show thesis by (rule that) (simp_all add: T_def quiet_report)
  qed
qed

subsection \<open>Sending a copy\<close>

lemma transmit_msg_sends:
  assumes rest: "at_rest K s zs ts ids ds" and c: "caller_ok ctx" and M: "sendable (Some msg) m n"
    and es: "es = tx_entries ctx s (route_list ids ds m)"
  shows "(\<exists>s'. CFE_SB_TransmitMsg ctx (Some msg) org s = Some (CFE_SB_BUF_ALOC_ERR, s')
        \<and> \<not> (CallerApp ctx \<noteq> None \<and> can_alloc (n + CFE_SB_BUFFERD_CONTENT_OFFSET) s)
        \<and> at_rest K s' zs ts ids ds \<and> Bufs s' = Bufs s \<and> Queues s' = Queues s \<and> same_tables s s')
     \<or> (\<exists>s' ts' b. CFE_SB_TransmitMsg ctx (Some msg) org s = Some (CFE_SUCCESS, s')
        \<and> CallerApp ctx \<noteq> None \<and> can_alloc (n + CFE_SB_BUFFERD_CONTENT_OFFSET) s
        \<and> b \<noteq> 0 \<and> b \<notin> set zs \<union> set ts
        \<and> at_rest K s' zs ts' ids ds \<and> set ts' \<subseteq> insert b (set ts)
        \<and> same_tables s s' \<and> Queues s' = put_all b es (Queues s)
        \<and> (\<forall>x. x \<noteq> b \<longrightarrow> payload (Bufs s' x) = payload (Bufs s x))
        \<and> (m \<in> set ids \<longrightarrow> delivered ctx org ids m n s (take (unat n) msg) (Bufs s' b)))"
proof -
  let ?T1 = "CFE_SB_TransmitTxn_SetupFromMsg (Some msg) (CFE_SB_TransmitTxn_Init True)"
  note su = setup_send_txn [OF M, of org]
  have cs: "TX_ContentSize ?T1 = n" by (simp add: setup_ok [OF M])
  obtain r s1 where al: "CFE_SB_AllocateMessageBuffer ctx n s = (r, s1)" by fastforce
  note A = alloc_run [OF rest c al]
  have nn: "unat n \<le> 32768" using M by (simp add: sendable_def)
  have tab1: "same_tables s s1" by (rule same_tables_eq) (simp_all add: A(3-7))
  show ?thesis
  proof (cases r)
    case None
    define T where "T = CFE_SB_MessageTxn_SetEventAndStatus (Some CFE_SB_GET_BUF_ERR_EID) CFE_SB_BUF_ALOC_ERR ?T1"
    have st: "TX_Status T = CFE_SB_BUF_ALOC_ERR" "\<not> CFE_SB_MessageTxn_IsOK T"
      by (simp_all add: T_def CFE_SB_MessageTxn_SetEventAndStatus_def setup_ok [OF M] Let_def CFE_SB_MessageTxn_IsOK_def)
    let ?s = "CFE_SB_MessageTxn_ReportEvents ctx T s1"
    have q: "quiet s1 ?s" by (rule quiet_report)
    have "CFE_SB_TransmitMsg ctx (Some msg) org s = Some (CFE_SB_BUF_ALOC_ERR, ?s)"
      using su al None st by (simp add: CFE_SB_TransmitMsg_def cs T_def [symmetric])
    then show ?thesis
      using A(1) [OF None] A(5,8) None nn same_tables_trans [OF tab1 quiet_tables [OF q]]
      by (intro disjI1 exI [of _ ?s]) (simp add: quiet_at_rest [OF q] quietD [OF q])
  next
    case (Some p)
    from A(2) [OF Some] obtain b where b: "p = b + CFE_SB_BUFFERD_CONTENT_OFFSET" "b \<noteq> 0" "b \<notin> set zs \<union> set ts"
      "at_rest K s1 (zs @ [b]) ts ids ds" "BF_Content (Bufs s1 b) = replicate (unat n) 0"
      "\<forall>x. x \<noteq> b \<longrightarrow> Bufs s1 x = Bufs s x" by blast
    have pb: "p - CFE_SB_BUFFERD_CONTENT_OFFSET = b" by (simp add: b)
    define s2 where "s2 = store_msg b (Some (take (unat n) msg)) s1"
    have rest2: "at_rest K s2 (zs @ [b]) ts ids ds"
      by (rule at_rest_cong [OF b(4)])
        (use at_restD(1) [OF b(4)] in \<open>simp_all add: s2_def\<close>, simp add: store_msg_def)
    have tab2: "same_tables s s2"
      by (rule same_tables_trans [OF tab1], rule same_tables_eq) (simp_all add: s2_def store_msg_def)
    have es2: "tx_entries ctx s2 (route_list ids ds m) = es"
      using parts_cong(3) [of s2 s, OF _ _ ] A(3,5,6)
      by (simp add: es tx_entries_def s2_def parts_cong(3) [OF A(6,5,3)] cong: map_cong)
    have bz: "b \<in> set (zs @ [b])" by simp
    let ?T = "send_txn org m n"
    obtain T' s3 ts' where e: "CFE_SB_TransmitTxn_Execute ctx p ?T s2 = Some (T', s3)"
      "at_rest K s3 (remove1 b (zs @ [b])) ts' ids ds" "set ts' \<subseteq> insert b (set ts)" "TX_Status T' = CFE_SUCCESS"
      "same_tables s2 s3" "Queues s3 = put_all b es (Queues s2)"
      "\<forall>x. x \<noteq> b \<longrightarrow> payload (Bufs s3 x) = payload (Bufs s2 x)"
      "m \<in> set ids \<longrightarrow> payload (Bufs s3 b) = payload (sent_desc ctx ?T (lookup_route ids m) s2
          ((Bufs s2 b)\<lparr>BF_ContentSize := n, BF_MsgId := m\<rparr>))"
      using execute_run [OF rest2 bz pb send_txn(1-3) [of org m n] refl refl, where ctx = ctx]
      unfolding send_txn es2 by blast
    let ?s = "CFE_SB_MessageTxn_ReportEvents ctx T' s3"
    have q: "quiet s3 ?s" by (rule quiet_report)
    have call: "CFE_SB_TransmitMsg ctx (Some msg) org s = Some (CFE_SUCCESS, ?s)"
      using su al Some e(1,4) setup_ok [OF M]
      by (simp add: CFE_SB_TransmitMsg_def cs pb b(5) s2_def)
    have sc: "sent_content ctx org r s2 x = sent_content ctx org r s x" for r x
      by (simp add: sent_content_def s2_def A(4))
    have "delivered ctx org ids m n s (take (unat n) msg) (Bufs ?s b)" if "m \<in> set ids"
    proof -
      from e(8) that have P: "payload (Bufs s3 b) = payload (sent_desc ctx ?T (lookup_route ids m) s2
          ((Bufs s2 b)\<lparr>BF_ContentSize := n, BF_MsgId := m\<rparr>))" by blast
      have "BF_Content (Bufs s2 b) = take (unat n) msg" by (simp add: s2_def store_msg_def)
      then show ?thesis
        using payloadD [OF P] by (simp add: quietD(3) [OF q] delivered_def sent_desc_def sc)
    qed
    moreover have "remove1 b (zs @ [b]) = zs" using b(3) by (simp add: remove1_append)
    moreover have "payload (Bufs ?s x) = payload (Bufs s x)" if "x \<noteq> b" for x
      using that e(7) b(6) by (simp add: quietD(3) [OF q] s2_def store_msg_def)
    ultimately show ?thesis
      using call b(2,3) e(2,3,6) A(8) Some nn same_tables_trans [OF same_tables_trans [OF tab2 e(5)] quiet_tables [OF q]] A(5)
      by (intro disjI2 exI [of _ ?s] exI [of _ ts'] exI [of _ b])
        (simp add: quiet_at_rest [OF q] quietD(9) [OF q] s2_def)
  qed
qed

lemma transmit_msg_refuses:
  assumes "MsgPtr = None \<or> (\<nexists>m n. sendable MsgPtr m n)"
  obtains st s' where "CFE_SB_TransmitMsg ctx MsgPtr org s = Some (st, s')" "st \<noteq> CFE_SUCCESS" "quiet s s'"
proof (cases MsgPtr)
  case None
  then have "CFE_SB_TransmitMsg ctx MsgPtr org s = Some (CFE_SB_BAD_ARGUMENT,
      CFE_SB_MessageTxn_ReportEvents ctx (CFE_SB_TransmitTxn_Init False) s)"
    by (simp add: CFE_SB_TransmitMsg_def)
  then show thesis by (rule that) (simp_all add: quiet_report)
next
  case (Some msg)
  let ?T = "CFE_SB_TransmitTxn_SetupFromMsg MsgPtr (CFE_SB_TransmitTxn_Init True)"
  have no: "\<nexists>m n. sendable MsgPtr m n" using assms Some by simp
  have "CFE_SB_TransmitMsg ctx MsgPtr org s = Some (TX_Status ?T, CFE_SB_MessageTxn_ReportEvents ctx ?T s)"
    using setup_fails(1) [OF no] Some by (simp add: CFE_SB_TransmitMsg_def Let_def)
  then show thesis using setup_fails(2) [OF no] by (rule that) (simp add: quiet_report)
qed

end
