(* ===== verification/Sb_Receive.thy ===== *)
theory Sb_Receive
  imports Sb_Api
begin

section \<open>Software bus: receiving\<close>

text \<open>
  Receiving hands the caller the oldest buffer of the pipe's queue.  The pipe keeps a reference to
  it until the next call, so the buffer that was received before is released first.
\<close>

subsection \<open>References given up\<close>

lemma decr_upd_pipe: "CFE_SB_DecrBufUseCnt b (upd_pipe i f s) = upd_pipe i f (CFE_SB_DecrBufUseCnt b s)"
  by (simp add: CFE_SB_DecrBufUseCnt_def CFE_SB_ReturnBufferToPool_def upd_pipe_def upd_buf_def
      upd_stat_def Let_def)

lemma cnt_find [simp]:
  "find_pipe q (CFE_SB_DecrBufUseCnt b s) = find_pipe q s" "find_pipe q (CFE_SB_IncrBufUseCnt b s) = find_pipe q s"
  "queue_of (CFE_SB_DecrBufUseCnt b s) = queue_of s" "queue_of (CFE_SB_IncrBufUseCnt b s) = queue_of s"
  "used (CFE_SB_DecrBufUseCnt b s) = used s" "used (CFE_SB_IncrBufUseCnt b s) = used s"
  by (rule tbl_cong; simp)+

lemma queues_find [simp]:
  "find_pipe q (s\<lparr>Queues := Q\<rparr>) = find_pipe q s" "queue_of (s\<lparr>Queues := Q\<rparr>) = queue_of s"
  "used (s\<lparr>Queues := Q\<rparr>) = used s" "ids_ok (s\<lparr>Queues := Q\<rparr>) = ids_ok s"
  by (rule tbl_cong; simp)+

text \<open>Dropping a reference that no application holds leaves the owners alone.\<close>

lemma rest_release:
  assumes run: "running s (add_mset b (mset zs + K)) zs ts ids ds" and b: "b \<notin> set zs"
    and r: "set_mset (refs s + K) \<inter> set zs = {}" "\<forall>x. count (refs s + K) x \<le> 3264"
    and app: "\<forall>b \<in> set zs. BF_AppId (Bufs s b) \<noteq> CFE_ES_APPID_UNDEFINED"
      "\<forall>b \<in> set ts. BF_AppId (Bufs s b) = CFE_ES_APPID_UNDEFINED"
  shows "at_rest K (CFE_SB_DecrBufUseCnt b s) zs (if b \<in># refs s + K then ts else remove1 b ts) ids ds"
proof -
  let ?s = "CFE_SB_DecrBufUseCnt b s" and ?ts = "if b \<in># refs s + K then ts else remove1 b ts"
  have run': "running ?s (mset zs + K) zs ?ts ids ds"
    using running_decr [OF run] b by (auto simp: remove1_idem split: if_splits)
  have refs': "refs ?s = refs s"
    by (rule refs_cong [OF same_pipes_tbl runningD(5) [OF run]]) simp_all
  have a: "BF_AppId (Bufs ?s x) = BF_AppId (Bufs s x)" for x
    using payloadD(2) [OF cnt_payload(2) [of b s x]] .
  have "set_mset (refs ?s + K) = set ?ts" by (rule rest_refs [OF run']) (simp only: refs' r)
  then show ?thesis using run' app r(2) unfolding at_rest_def refs' a by (auto dest: notin_set_remove1)
qed

lemma routes_ok_find:
  assumes "Dests s' = Dests s" "Routes s' = Routes s" "\<And>q. find_pipe q s' = find_pipe q s"
  shows "routes_ok s' ids ds = routes_ok s ids ds"
  using assms by (simp add: routes_ok_def)

lemma find_last [simp]: "find_pipe q (upd_pipe i (\<lambda>p. p\<lparr>PD_LastBuffer := b\<rparr>) s) = find_pipe q s"
  by (cases "i < length (PipeTbl s)")
    (auto simp: find_pipe_def CFE_SB_PipeDescIsMatch_def upd_pipe_def nth_list_update list_update_beyond
      Let_def split: option.splits)

lemma running_last:
  assumes run: "running s (X + (if b \<noteq> 0 then {#b#} else {#})) zs ts ids ds" and i: "used s i"
  shows "running (upd_pipe i (\<lambda>p. p\<lparr>PD_LastBuffer := b\<rparr>) s)
     (X + (if PD_LastBuffer (PipeTbl s ! i) \<noteq> 0 then {#PD_LastBuffer (PipeTbl s ! i)#} else {#})) zs ts ids ds"
proof -
  let ?s = "upd_pipe i (\<lambda>p. p\<lparr>PD_LastBuffer := b\<rparr>) s"
  let ?old = "if PD_LastBuffer (PipeTbl s ! i) \<noteq> 0 then {#PD_LastBuffer (PipeTbl s ! i)#} else {#}"
  note D = runningD [OF run]
  note L = last_refs [OF D(1) i, of b]
  let ?new = "if b \<noteq> 0 then {#b#} else {#}"
  have "refs s + (X + ?new) = refs ?s + (X + ?old)"
  proof -
    have "refs s + (X + ?new) = (refs s + ?new) + X" by (simp only: ac_simps)
    also have "\<dots> = (refs ?s + ?old) + X" by (simp only: L(1))
    finally show ?thesis by (simp only: ac_simps)
  qed
  with D(4) have "core ?s (refs ?s + (X + ?old)) zs ts (dest_set ds)" by simp
  then show ?thesis
    using L(2) L(3) [OF D(2)] D(3) routes_ok_find [of ?s s] by (simp add: running_def)
qed

lemma set_pipe_run:
  assumes rest: "at_rest K s zs ts ids ds" and p: "find_pipe p s = Some i"
    and st: "CFE_SB_ReceiveTxn_SetPipeId p T s = (T', s')"
  shows "\<exists>ts'. at_rest K s' zs ts' ids ds \<and> set ts' \<subseteq> set ts" "PD_LastBuffer (PipeTbl s' ! i) = 0"
    "Queues s' = Queues s" "payload (Bufs s' x) = payload (Bufs s x)" "find_pipe q s' = find_pipe q s"
    "queue_of s' j = queue_of s j" "Dests s' = Dests s" "Routes s' = Routes s"
    "T' = T\<lparr>TX_PipeSet := [\<lparr>PS_PipeId = p, PS_SysQueueId = queue_of s i, PS_PendingEventId = None,
       PS_OsStatus = OS_SUCCESS\<rparr>]\<rparr>"
proof -
  note D = at_restD [OF rest]
  have i: "used s i" "i < length (PipeTbl s)"
    using find_pipe_facts(1,5) [OF p] runningD(5) [OF D(1)] by simp_all
  let ?b = "PD_LastBuffer (PipeTbl s ! i)"
  define s0 where "s0 = upd_pipe i (\<lambda>p. p\<lparr>PD_LastBuffer := 0\<rparr>) s"
  have s': "s' = (if ?b \<noteq> 0 then CFE_SB_DecrBufUseCnt ?b s0 else s)"
    and "T' = T\<lparr>TX_PipeSet := [\<lparr>PS_PipeId = p, PS_SysQueueId = queue_of s i, PS_PendingEventId = None,
       PS_OsStatus = OS_SUCCESS\<rparr>]\<rparr>"
    using st p by (auto simp: CFE_SB_ReceiveTxn_SetPipeId_def s0_def decr_upd_pipe queue_of_def Let_def
        split: if_splits)
  then show "T' = T\<lparr>TX_PipeSet := [\<lparr>PS_PipeId = p, PS_SysQueueId = queue_of s i, PS_PendingEventId = None,
       PS_OsStatus = OS_SUCCESS\<rparr>]\<rparr>" by simp
  show "Queues s' = Queues s" "payload (Bufs s' x) = payload (Bufs s x)" "Dests s' = Dests s" "Routes s' = Routes s"
    by (simp_all add: s' s0_def)
  show "PD_LastBuffer (PipeTbl s' ! i) = 0" using i(2) by (simp add: s' s0_def)
  show "find_pipe q s' = find_pipe q s"
    by (simp add: s' s0_def)
  show "queue_of s' j = queue_of s j"
    using i(2) by (simp add: s' s0_def) (simp add: queue_of_def)
  show "\<exists>ts'. at_rest K s' zs ts' ids ds \<and> set ts' \<subseteq> set ts"
  proof (cases "?b = 0")
    case True
    then show ?thesis using rest s' by auto
  next
    case False
    have run0: "running s0 (add_mset ?b (mset zs + K)) zs ts ids ds"
      using running_last [OF _ i(1), of "mset zs + K" 0 zs ts ids ds] D(1) False by (simp add: s0_def)
    have r0: "refs s = add_mset ?b (refs s0)"
      using last_refs(1) [OF runningD(1) [OF D(1)] i(1), of 0] False by (simp add: s0_def)
    then have b: "?b \<in> set ts" and sub: "set_mset (refs s0 + K) \<subseteq> set ts" using D(2) by auto
    have "at_rest K (CFE_SB_DecrBufUseCnt ?b s0) zs (if ?b \<in># refs s0 + K then ts else remove1 ?b ts) ids ds"
    proof (rule rest_release [OF run0])
      show "?b \<notin> set zs" "set_mset (refs s0 + K) \<inter> set zs = {}" using b sub D(7) by auto
      have "count (refs s0 + K) x \<le> count (refs s + K) x" for x by (simp add: r0)
      then show "\<forall>x. count (refs s0 + K) x \<le> 3264" using D(9) order_trans by blast
    qed (use D(3,4) in \<open>simp_all add: s0_def\<close>)
    then have "at_rest K s' zs (if ?b \<in># refs s0 + K then ts else remove1 ?b ts) ids ds" using False s' by simp
    moreover have "set (remove1 ?b ts) \<subseteq> set ts" by (rule set_remove1_subset)
    ultimately show ?thesis by (auto split: if_splits)
  qed
qed

lemma verification_accepts: "CFE_MSG_VerificationAction (buf_msg s b) True = (CFE_SUCCESS, Some True)"
  by (simp add: CFE_MSG_VerificationAction_def buf_msg_def)

subsection \<open>Reading one message\<close>

lemma dest_note:
  assumes run: "running s X zs ts ids ds" and f: "\<And>x. dest_key (f x) = dest_key x"
  shows "running (upd_dest d f s) X zs ts ids ds" "refs (upd_dest d f s) = refs s"
  using running_note [OF run tx_frame_dest] refs_cong [OF same_pipes_tbl runningD(5) [OF run], of "upd_dest d f s"] f
  by (simp_all add: buf_acct_def)

lemma depth_note:
  assumes run: "running s X zs ts ids ds" and f: "\<And>x. pipe_key (f x) = pipe_key x"
  shows "running (upd_pipe i f s) X zs ts ids ds" "refs (upd_pipe i f s) = refs s"
  using running_note [OF run tx_frame_pipe] refs_cong [OF same_pipes_upd runningD(5) [OF run], of f i] f
  by (simp_all add: buf_acct_def)

text \<open>The reference of the queue entry becomes that of the pipe's last buffer.\<close>

lemma export_run:
  assumes run: "running s (add_mset b (mset zs + K)) zs ts ids ds" and r: "set_mset (refs s + K) \<inter> set zs = {}"
    and b: "b \<in> set ts" and bnd: "\<forall>x. count (add_mset b (refs s) + K) x \<le> 3264"
    and app: "\<forall>b \<in> set zs. BF_AppId (Bufs s b) \<noteq> CFE_ES_APPID_UNDEFINED"
      "\<forall>b \<in> set ts. BF_AppId (Bufs s b) = CFE_ES_APPID_UNDEFINED"
    and p: "find_pipe (PS_PipeId c) s = Some i" "PD_LastBuffer (PipeTbl s ! i) = 0"
  shows "\<exists>s'. CFE_SB_ReceiveTxn_ExportReference c b T s = Some (c, b, T, s') \<and> at_rest K s' zs ts ids ds
     \<and> Queues s' = Queues s \<and> PD_LastBuffer (PipeTbl s' ! i) = b
     \<and> (\<forall>x. payload (Bufs s' x) = payload (Bufs s x)) \<and> Routes s' = Routes s
     \<and> (\<forall>d. dest_key (Dests s' d) = dest_key (Dests s d)) \<and> (\<forall>q. find_pipe q s' = find_pipe q s)
     \<and> queue_of s' = queue_of s"
proof -
  have i: "used s i" "i < length (PipeTbl s)" "i < 64"
    using find_pipe_facts(1,5) [OF p(1)] runningD(5) [OF run] by simp_all
  note D = coreD(1,2,6) [OF runningD(4) [OF run]]
  have dis: "b \<notin> set zs" "b \<noteq> 0" "distinct zs" using D b by auto
  have "count K b \<le> 3264" using bnd [rule_format, of b] by simp
  with dis have cnt: "count (add_mset b (mset zs + K)) b \<le> 20000" by (simp add: distinct_count_atmost_1)
  define s1 where "s1 = upd_pipe i (\<lambda>p. p\<lparr>PD_LastBuffer := b\<rparr>) (CFE_SB_IncrBufUseCnt b s)"
  have "running (CFE_SB_IncrBufUseCnt b s) (add_mset b (mset zs + K) + (if b \<noteq> 0 then {#b#} else {#})) zs ts ids ds"
    using running_incr [OF run _ cnt] dis(2) by simp
  from running_last [OF this, of i] have run1: "running s1 (add_mset b (mset zs + K)) zs ts ids ds"
    using i(1) p(2) by (simp add: s1_def)
  have lb: "PD_LastBuffer (PipeTbl s1 ! i) = b" using i(2) by (simp add: s1_def)
  obtain d where d: "get_dest_ptr (BF_DestRouteId (Bufs s1 b)) (PS_PipeId c) s1 = Some d"
    using get_dest_ptr_ok [OF runningD(3) [OF run1]] by blast
  define s2 where "s2 = (if d \<noteq> 0 \<and> 0 < DD_BuffCount (Dests s1 d)
     then upd_dest d (\<lambda>x. x\<lparr>DD_BuffCount := DD_BuffCount x - 1\<rparr>) s1 else s1)"
  have run2: "running s2 (add_mset b (mset zs + K)) zs ts ids ds" "refs s2 = refs s1"
    using dest_note [OF run1] run1 by (simp_all add: s2_def dest_key_def)
  define s3 where "s3 = (if 0 < PD_CurrentQueueDepth (PipeTbl s2 ! i)
     then upd_pipe i (\<lambda>p. p\<lparr>PD_CurrentQueueDepth := PD_CurrentQueueDepth p - 1\<rparr>) s2 else s2)"
  have run3: "running s3 (add_mset b (mset zs + K)) zs ts ids ds" "refs s3 = refs s2"
    using depth_note [OF run2(1)] run2(1) by (simp_all add: s3_def pipe_key_def)
  have l2: "i < length (PipeTbl s2)" using runningD(5) [OF run2(1)] i(3) by simp
  have lb3: "PD_LastBuffer (PipeTbl s3 ! i) = b"
    using lb l2 by (simp add: s3_def) (simp add: s2_def)
  have "b \<in># pipe_refs (PipeTbl s3 ! i) (Queues s3)"
    using i(1) l2 lb3 dis(2) by (simp add: pipe_refs_def CFE_SB_PipeDescIsUsed_def used_def s3_def)
      (simp add: s2_def s1_def i(2))
  then have b3: "b \<in># refs s3" using refs_split [OF i(3), of s3] by simp
  have refs1: "refs s1 = add_mset b (refs s)"
  proof -
    have "refs (CFE_SB_IncrBufUseCnt b s) = refs s"
      by (rule refs_cong [OF same_pipes_tbl runningD(5) [OF run]]) simp_all
    moreover have "pipes_ok (CFE_SB_IncrBufUseCnt b s)"
      using runningD(1) [OF running_incr [OF run _ cnt]] by simp
    ultimately show ?thesis
      using last_refs(1) [of "CFE_SB_IncrBufUseCnt b s" i b] i(1) dis(2) p(2) by (simp add: s1_def)
  qed
  have bufs: "payload (Bufs s3 x) = payload (Bufs s x)" for x
    by (simp add: s3_def s2_def s1_def)
  have app3: "BF_AppId (Bufs s3 x) = BF_AppId (Bufs s x)" for x using payloadD(2) [OF bufs] .
  have "at_rest K (CFE_SB_DecrBufUseCnt b s3) zs (if b \<in># refs s3 + K then ts else remove1 b ts) ids ds"
  proof (rule rest_release [OF run3(1) dis(1)])
    show "set_mset (refs s3 + K) \<inter> set zs = {}" using r dis(1) by (simp add: run3(2) run2(2) refs1)
    show "\<forall>x. count (refs s3 + K) x \<le> 3264" unfolding run3(2) run2(2) refs1 by (rule bnd)
  qed (use app in \<open>simp_all add: app3\<close>)
  then have rest: "at_rest K (CFE_SB_DecrBufUseCnt b s3) zs ts ids ds" using b3 by simp
  have f3: "find_pipe q s3 = find_pipe q s" for q
  proof -
    have "find_pipe q s1 = find_pipe q s" by (simp add: s1_def)
    moreover have "find_pipe q s2 = find_pipe q s1" by (rule tbl_cong(2)) (simp add: s2_def)
    moreover have "find_pipe q s3 = find_pipe q s2"
      by (rule find_pipe_cong [OF _ runningD(5) [OF run2(1)]]) (simp add: s3_def pipe_key_def)
    ultimately show ?thesis by simp
  qed
  have q3: "queue_of s3 = queue_of s"
    using i(2) l2 by (simp add: fun_eq_iff s3_def queue_of_def) (simp add: s2_def s1_def)
  have "CFE_SB_ReceiveTxn_ExportReference c b T s = Some (c, b, T, CFE_SB_DecrBufUseCnt b s3)"
    using p(1) d by (simp add: CFE_SB_ReceiveTxn_ExportReference_def s1_def s2_def s3_def Let_def)
  then show ?thesis
    using rest lb3 bufs f3 q3
    by (intro exI [of _ "CFE_SB_DecrBufUseCnt b s3"]) (simp add: s3_def s2_def s1_def dest_key_def)
qed

text \<open>The read of the queue takes its first item, and the other routes of a state are untouched.\<close>

definition same_view :: "sb \<Rightarrow> sb \<Rightarrow> bool" where
  "same_view s s' \<longleftrightarrow> (\<forall>x. payload (Bufs s' x) = payload (Bufs s x)) \<and> Routes s' = Routes s
     \<and> (\<forall>d. dest_key (Dests s' d) = dest_key (Dests s d)) \<and> (\<forall>q. find_pipe q s' = find_pipe q s)
     \<and> queue_of s' = queue_of s"

lemma same_viewI:
  "(\<And>x. payload (Bufs s' x) = payload (Bufs s x)) \<Longrightarrow> Routes s' = Routes s
     \<Longrightarrow> (\<And>d. dest_key (Dests s' d) = dest_key (Dests s d)) \<Longrightarrow> (\<And>q. find_pipe q s' = find_pipe q s)
     \<Longrightarrow> queue_of s' = queue_of s \<Longrightarrow> same_view s s'"
  by (simp add: same_view_def)

lemma same_view_trans: "same_view s t \<Longrightarrow> same_view t u \<Longrightarrow> same_view s u"
  by (simp add: same_view_def)

lemma same_view_quiet:
  assumes "quiet s s'"
  shows "same_view s s'"
  using quietD [OF assms] tbl_cong(2,4) [OF quietD(1) [OF assms]] by (intro same_viewI) simp_all

lemma same_view_queues [simp]: "same_view s (s\<lparr>Queues := Q\<rparr>)"
  by (simp add: same_view_def)

lemma at_rest_queues:
  assumes rest: "at_rest K s zs ts ids ds" and r: "refs (s\<lparr>Queues := Q\<rparr>) = refs s" "pipes_ok (s\<lparr>Queues := Q\<rparr>)"
  shows "at_rest K (s\<lparr>Queues := Q\<rparr>) zs ts ids ds"
proof -
  have "routes_ok (s\<lparr>Queues := Q\<rparr>) ids ds = routes_ok s ids ds" by (rule routes_ok_find) simp_all
  then show ?thesis using rest r by (simp add: at_rest_def running_def)
qed

lemma receive_handler_run:
  assumes rest: "at_rest K s zs ts ids ds" and p: "find_pipe (PS_PipeId c) s = Some i"
      "PS_SysQueueId c = queue_of s i" "PD_LastBuffer (PipeTbl s ! i) = 0" and T: "CFE_SB_MessageTxn_IsOK T"
    and g: "OS_QueueGet (queue_of s i) sizeof_ptr (CFE_SB_MessageTxn_GetOsTimeout ctx T) (Queues s) = Some (st, data, Q)"
  shows "\<exists>c' T' s'. CFE_SB_ReceiveTxn_PipeHandler ctx c T s
        = Some (c', (case data of None \<Rightarrow> 0 | Some b \<Rightarrow> b), T', s')
     \<and> at_rest K s' zs ts ids ds \<and> Queues s' = Q \<and> same_view s s'
     \<and> (case data of
          None \<Rightarrow> TX_Status T' = (if st = OS_QUEUE_EMPTY then CFE_SB_NO_MESSAGE
              else if st = OS_QUEUE_TIMEOUT then CFE_SB_TIME_OUT else CFE_SB_PIPE_RD_ERR)
        | Some b \<Rightarrow> T' = T \<and> b \<in> set ts \<and> PD_LastBuffer (PipeTbl s' ! i) = b)"
proof -
  note D = at_restD [OF rest] and RD = runningD [OF at_restD(1) [OF rest]]
  have i: "used s i" using find_pipe_facts(5) [OF p(1)] .
  note G = get_refs [OF RD(1) i g]
  note I = get_items(1) [OF g]
  show ?thesis
  proof (cases data)
    case None
    have r: "at_rest K (s\<lparr>Queues := Q\<rparr>) zs ts ids ds"
      by (rule at_rest_queues [OF rest]) (use G None in simp_all)
    have stT: "TX_Status (CFE_SB_MessageTxn_SetEventAndStatus None x T) = x" for x
      using T by (simp add: CFE_SB_MessageTxn_SetEventAndStatus_def CFE_SB_MessageTxn_IsOK_def Let_def)
    show ?thesis
      using r None g p(2) by (simp add: CFE_SB_ReceiveTxn_PipeHandler_def stT)
  next
    case (Some b)
    let ?s = "s\<lparr>Queues := Q\<rparr>"
    have r: "refs s = add_mset b (refs ?s)" using G(1) Some by simp
    then have b: "b \<in> set ts" "b \<noteq> 0" "set_mset (refs ?s + K) \<inter> set zs = {}" using D(2,7,8) by auto
    have bnd: "\<forall>x. count (add_mset b (refs ?s) + K) x \<le> 3264" unfolding r [symmetric] using D(9) by blast
    have "routes_ok ?s ids ds = routes_ok s ids ds" by (rule routes_ok_find) simp_all
    then have run: "running ?s (add_mset b (mset zs + K)) zs ts ids ds"
      using RD G(2) r by (simp add: running_def)
    obtain s' where e: "CFE_SB_ReceiveTxn_ExportReference (c\<lparr>PS_OsStatus := st\<rparr>) b T ?s
          = Some (c\<lparr>PS_OsStatus := st\<rparr>, b, T, s')" "at_rest K s' zs ts ids ds"
      "Queues s' = Q" "PD_LastBuffer (PipeTbl s' ! i) = b"
      "\<forall>x. payload (Bufs s' x) = payload (Bufs s x)" "Routes s' = Routes s"
      "\<forall>d. dest_key (Dests s' d) = dest_key (Dests s d)" "\<forall>q. find_pipe q s' = find_pipe q s"
      "queue_of s' = queue_of s"
      using export_run [OF run b(3,1) bnd, of "c\<lparr>PS_OsStatus := st\<rparr>" i T] D(3,4) p by auto
    have "same_view s s'" by (rule same_viewI) (use e in simp_all)
    then show ?thesis
      using e(1-4) Some g p(2) b(1,2) I by (simp add: CFE_SB_ReceiveTxn_PipeHandler_def)
  qed
qed

lemma receive_execute:
  assumes "CFE_SB_MessageTxn_IsOK T" "TX_PipeSet T = [c]" "PS_PendingEventId c = None"
    and "CFE_SB_ReceiveTxn_PipeHandler ctx c T s = Some (c', b, T', s')"
  shows "\<exists>T''. CFE_SB_ReceiveTxn_Execute ctx T s
      = Some (if b = 0 then 0 else b + CFE_SB_BUFFERD_CONTENT_OFFSET, T'', s') \<and> TX_Status T'' = TX_Status T'"
  using assms by (subst CFE_SB_ReceiveTxn_Execute.simps) (simp add: verification_accepts)

lemma receive_blocks:
  assumes "CFE_SB_MessageTxn_IsOK T" "TX_PipeSet T = [c]" "PS_PendingEventId c = None"
    and "OS_QueueGet (PS_SysQueueId c) sizeof_ptr (CFE_SB_MessageTxn_GetOsTimeout ctx T) (Queues s) = None"
  shows "CFE_SB_ReceiveTxn_Execute ctx T s = None"
  using assms by (subst CFE_SB_ReceiveTxn_Execute.simps) (simp add: CFE_SB_ReceiveTxn_PipeHandler_def)

subsection \<open>The receive call\<close>

text \<open>The timeout that the queue read uses.\<close>

definition os_timeout :: "sb_caller \<Rightarrow> int \<Rightarrow> int" where
  "os_timeout ctx t =
     (if t = CFE_SB_PEND_FOREVER then OS_PEND
      else if t = CFE_SB_POLL then OS_CHECK
      else let d = (ClockStart ctx + t * 10000 - ClockRead ctx) sdiv 10000 in if d < 0 then OS_CHECK else d)"

lemma set_timeout:
  assumes "-1 \<le> t"
  shows "CFE_SB_MessageTxn_IsOK (CFE_SB_MessageTxn_SetTimeout ctx t (CFE_SB_ReceiveTxn_Init True))"
    "CFE_SB_MessageTxn_GetOsTimeout ctx (CFE_SB_MessageTxn_SetTimeout ctx t (CFE_SB_ReceiveTxn_Init True))
       = os_timeout ctx t"
    "TX_PipeSet (CFE_SB_MessageTxn_SetTimeout ctx t (CFE_SB_ReceiveTxn_Init True)) = []"
  using assms
  by (auto simp: CFE_SB_MessageTxn_SetTimeout_def CFE_SB_ReceiveTxn_Init_def CFE_SB_MessageTxn_Init_def
      CFE_SB_MessageTxn_IsOK_def CFE_SB_MessageTxn_GetOsTimeout_def os_timeout_def CFE_SB_POLL_def
      CFE_SB_PEND_FOREVER_def Let_def)

lemma os_timeout_frame:
  "CFE_SB_MessageTxn_GetOsTimeout ctx (CFE_SB_MessageTxn_SetEndpoint e (T\<lparr>TX_PipeSet := cs\<rparr>))
     = CFE_SB_MessageTxn_GetOsTimeout ctx T"
  by (cases "TX_TimeoutMode T") (simp_all add: CFE_SB_MessageTxn_GetOsTimeout_def CFE_SB_MessageTxn_SetEndpoint_def)

text \<open>The buffer is the first of the queue; without one the status says why.\<close>

lemma receive_run:
  assumes rest: "at_rest K s zs ts ids ds" and p: "find_pipe p s = Some i" and t: "-1 \<le> t"
    and g: "OS_QueueGet (queue_of s i) sizeof_ptr (os_timeout ctx t) (Queues s) = Some (st, data, Q)"
  shows "\<exists>s' ts'. CFE_SB_ReceiveBuffer ctx True p t s
      = Some ((case data of
           Some b \<Rightarrow> (CFE_SUCCESS, Some (b + CFE_SB_BUFFERD_CONTENT_OFFSET))
         | None \<Rightarrow> (if st = OS_QUEUE_EMPTY then CFE_SB_NO_MESSAGE
              else if st = OS_QUEUE_TIMEOUT then CFE_SB_TIME_OUT else CFE_SB_PIPE_RD_ERR, Some 0)), s')
     \<and> at_rest K s' zs ts' ids ds \<and> set ts' \<subseteq> set ts \<and> Queues s' = Q \<and> same_view s s'
     \<and> (case data of None \<Rightarrow> True | Some b \<Rightarrow> b \<in> set ts' \<and> PD_LastBuffer (PipeTbl s' ! i) = b)"
proof -
  let ?T0 = "CFE_SB_MessageTxn_SetTimeout ctx t (CFE_SB_ReceiveTxn_Init True)"
  note T0 = set_timeout [OF t, of ctx]
  obtain T1 s1 where sp: "CFE_SB_ReceiveTxn_SetPipeId p ?T0 s = (T1, s1)" by fastforce
  note S = set_pipe_run [OF rest p sp]
  obtain ts1 where r1: "at_rest K s1 zs ts1 ids ds" "set ts1 \<subseteq> set ts" using S(1) by blast
  define T2 where "T2 = CFE_SB_MessageTxn_SetEndpoint True T1"
  define c where "c = \<lparr>PS_PipeId = p, PS_SysQueueId = queue_of s i, PS_PendingEventId = None, PS_OsStatus = OS_SUCCESS\<rparr>"
  have T2: "CFE_SB_MessageTxn_IsOK T2" "TX_PipeSet T2 = [c]" "PS_PendingEventId c = None"
    "CFE_SB_MessageTxn_GetOsTimeout ctx T2 = os_timeout ctx t"
    using T0 by (simp_all add: T2_def S(9) os_timeout_frame c_def)
      (simp_all add: CFE_SB_MessageTxn_SetEndpoint_def CFE_SB_MessageTxn_IsOK_def)
  have c: "find_pipe (PS_PipeId c) s1 = Some i" "PS_SysQueueId c = queue_of s1 i"
    using p by (simp_all add: c_def S(5,6))
  have g1: "OS_QueueGet (queue_of s1 i) sizeof_ptr (CFE_SB_MessageTxn_GetOsTimeout ctx T2) (Queues s1) = Some (st, data, Q)"
    using g by (simp add: S(3,6) T2(4))
  obtain c' T' s2 where h: "CFE_SB_ReceiveTxn_PipeHandler ctx c T2 s1
        = Some (c', (case data of None \<Rightarrow> 0 | Some b \<Rightarrow> b), T', s2)"
     "at_rest K s2 zs ts1 ids ds" "Queues s2 = Q" "same_view s1 s2"
     "case data of None \<Rightarrow> TX_Status T' = (if st = OS_QUEUE_EMPTY then CFE_SB_NO_MESSAGE
              else if st = OS_QUEUE_TIMEOUT then CFE_SB_TIME_OUT else CFE_SB_PIPE_RD_ERR)
        | Some b \<Rightarrow> T' = T2 \<and> b \<in> set ts1 \<and> PD_LastBuffer (PipeTbl s2 ! i) = b"
    using receive_handler_run [OF r1(1) c S(2) T2(1) g1] by blast
  obtain T3 where e: "CFE_SB_ReceiveTxn_Execute ctx T2 s1
      = Some (if (case data of None \<Rightarrow> 0 | Some b \<Rightarrow> b) = 0 then 0
              else (case data of None \<Rightarrow> 0 | Some b \<Rightarrow> b) + CFE_SB_BUFFERD_CONTENT_OFFSET, T3, s2)"
     "TX_Status T3 = TX_Status T'"
    using receive_execute [OF T2(1-3) h(1)] by blast
  let ?s = "CFE_SB_MessageTxn_ReportEvents ctx T3 s2"
  have q: "quiet s2 ?s" by (rule quiet_report)
  have "CFE_SB_MessageTxn_IsOK (CFE_SB_ReceiveTxn_Init True)"
    by (simp add: CFE_SB_ReceiveTxn_Init_def CFE_SB_MessageTxn_Init_def CFE_SB_MessageTxn_IsOK_def)
  then have call: "CFE_SB_ReceiveBuffer ctx True p t s = Some ((TX_Status T3,
      Some (if (case data of None \<Rightarrow> 0 | Some b \<Rightarrow> b) = 0 then 0
              else (case data of None \<Rightarrow> 0 | Some b \<Rightarrow> b) + CFE_SB_BUFFERD_CONTENT_OFFSET)), ?s)"
    using T0(1) sp e(1) by (simp add: CFE_SB_ReceiveBuffer_def T2_def)
  have "same_view s s1"
    by (rule same_viewI) (use S(4,5,7,8) in \<open>simp_all add: fun_eq_iff S(6)\<close>)
  then have view: "same_view s ?s"
    using same_view_trans [OF _ same_view_trans [OF h(4) same_view_quiet [OF q]]] by blast
  show ?thesis
  proof (cases data)
    case None
    then show ?thesis
      using call e(2) h r1(2) view by (intro exI [of _ ?s] exI [of _ ts1]) (simp add: quiet_at_rest [OF q] quietD [OF q])
  next
    case (Some b)
    then have "b \<noteq> 0" using h(5) at_restD(8) [OF r1(1)] by auto
    moreover have "TX_Status T2 = CFE_SUCCESS" using T2(1) by (simp add: CFE_SB_MessageTxn_IsOK_def)
    ultimately show ?thesis
      using Some call e(2) h r1(2) view by (intro exI [of _ ?s] exI [of _ ts1]) (simp add: quiet_at_rest [OF q] quietD [OF q])
  qed
qed

text \<open>Any other call fails and changes no queue; and only a call that waits forever may not return.\<close>

lemma receive_refuses:
  assumes "\<not> BufPtr \<or> t < -1 \<or> find_pipe p s = None"
  shows "\<exists>out s'. CFE_SB_ReceiveBuffer ctx BufPtr p t s = Some ((CFE_SB_BAD_ARGUMENT, out), s') \<and> quiet s s'"
proof -
  let ?T0 = "CFE_SB_ReceiveTxn_Init BufPtr" and ?T1 = "CFE_SB_MessageTxn_SetTimeout ctx t (CFE_SB_ReceiveTxn_Init BufPtr)"
  have ex0: "CFE_SB_ReceiveTxn_Execute ctx T x = Some (0, T, x)" if "\<not> CFE_SB_MessageTxn_IsOK T" for T x
    using that by (subst CFE_SB_ReceiveTxn_Execute.simps) simp
  consider "\<not> BufPtr" | "BufPtr" "t < -1" | "BufPtr" "-1 \<le> t" "find_pipe p s = None" using assms by force
  then show ?thesis
  proof cases
    case 1
    then have "\<not> CFE_SB_MessageTxn_IsOK ?T0" "TX_Status ?T0 = CFE_SB_BAD_ARGUMENT"
      by (simp_all add: CFE_SB_ReceiveTxn_Init_def CFE_SB_MessageTxn_Init_def CFE_SB_MessageTxn_SetEventAndStatus_def
          CFE_SB_MessageTxn_IsOK_def Let_def)
    with 1 show ?thesis by (simp add: CFE_SB_ReceiveBuffer_def quiet_report)
  next
    case 2
    then have "CFE_SB_MessageTxn_IsOK ?T0" "\<not> CFE_SB_MessageTxn_IsOK ?T1" "TX_Status ?T1 = CFE_SB_BAD_ARGUMENT"
      by (simp_all add: CFE_SB_ReceiveTxn_Init_def CFE_SB_MessageTxn_Init_def CFE_SB_MessageTxn_SetTimeout_def
          CFE_SB_MessageTxn_SetEventAndStatus_def CFE_SB_MessageTxn_IsOK_def CFE_SB_POLL_def CFE_SB_PEND_FOREVER_def Let_def)
    with 2 show ?thesis by (simp add: CFE_SB_ReceiveBuffer_def ex0 quiet_report Let_def)
  next
    case 3
    obtain T2 where T2: "CFE_SB_ReceiveTxn_SetPipeId p ?T1 s = (T2, s)" "TX_Status T2 = CFE_SB_BAD_ARGUMENT"
      using set_timeout(1) [OF 3(2), of ctx] 3
      by (auto simp: CFE_SB_ReceiveTxn_SetPipeId_def CFE_SB_MessageTxn_SetEventAndStatus_def
          CFE_SB_MessageTxn_IsOK_def Let_def)
    have T0: "CFE_SB_MessageTxn_IsOK ?T0"
      using 3 by (simp add: CFE_SB_ReceiveTxn_Init_def CFE_SB_MessageTxn_Init_def CFE_SB_MessageTxn_IsOK_def)
    have "\<not> CFE_SB_MessageTxn_IsOK (CFE_SB_MessageTxn_SetEndpoint True T2)"
      "TX_Status (CFE_SB_MessageTxn_SetEndpoint True T2) = CFE_SB_BAD_ARGUMENT"
      using T2(2) by (simp_all add: CFE_SB_MessageTxn_IsOK_def CFE_SB_MessageTxn_SetEndpoint_def)
    with 3 T0 T2(1) set_timeout(1) [OF 3(2), of ctx] show ?thesis
      by (simp add: CFE_SB_ReceiveBuffer_def ex0 quiet_report Let_def)
  qed
qed

end
