(* ===== verification/Sb_Subscribe.thy ===== *)
theory Sb_Subscribe
  imports Sb_Receive
begin

section \<open>Software bus: subscriptions\<close>

text \<open>
  The subscribers of a message ID are the pipes of the destination list of its route.  Subscribing
  adds one at the front, unsubscribing takes one out, and neither touches the subscribers of any
  other message ID.
\<close>

definition subscribers :: "CFE_SB_MsgId list \<Rightarrow> (nat \<Rightarrow> size_t list) \<Rightarrow> sb \<Rightarrow> CFE_SB_MsgId \<Rightarrow> CFE_SB_PipeId list" where
  "subscribers ids ds s m = pipes_of (Dests s) (route_list ids ds m)"

lemma subscribers_cong:
  "(\<And>d. DD_PipeId (Dests s' d) = DD_PipeId (Dests s d)) \<Longrightarrow> subscribers ids ds s' = subscribers ids ds s"
  by (intro ext) (simp add: subscribers_def pipes_of_def)

lemma route_of_inj: "i < 256 \<Longrightarrow> j < 256 \<Longrightarrow> route_of i = route_of j \<Longrightarrow> i = j"
  by (metis add_right_cancel route_of_facts(1))

lemma index_of_inj: "m \<in> set ids \<Longrightarrow> m' \<in> set ids \<Longrightarrow> index_of m ids = index_of m' ids \<Longrightarrow> m = m'"
  by (metis nth_index_of)

text \<open>Changes of destinations other than their pipes and links.\<close>

lemma routes_ok_dests:
  assumes ok: "routes_ok s ids ds" and r: "Routes s' = Routes s" and p: "\<And>q. find_pipe q s' = find_pipe q s"
    and d: "\<And>x. DD_PipeId (Dests s' x) = DD_PipeId (Dests s x)" "\<And>x. DD_Prev (Dests s' x) = DD_Prev (Dests s x)"
      "\<And>x. DD_Next (Dests s' x) = DD_Next (Dests s x)"
  shows "routes_ok s' ids ds"
proof -
  have "route_dests (Dests s') (Routes s') q xs = route_dests (Dests s) (Routes s) q xs" for q xs
    unfolding route_dests_def r by (subst dseg_cong [of xs "Dests s'" "Dests s"]) (simp_all add: d(2,3))
  moreover have "pipes_of (Dests s') xs = pipes_of (Dests s) xs" for xs by (simp add: pipes_of_def d(1))
  ultimately show ?thesis using ok unfolding routes_ok_def r by (simp add: p d(1))
qed

text \<open>A change of one destination list.\<close>

lemma routes_ok_update:
  assumes ok: "routes_ok s ids ds" and i: "i < length ids" "i < 256"
    and R: "sbr_ok direct_rep (Routes s') ids"
      "\<And>j. j < 256 \<Longrightarrow> j \<noteq> i \<Longrightarrow> CFE_SBR_GetDestListHeadPtr (Routes s') (route_of j)
          = CFE_SBR_GetDestListHeadPtr (Routes s) (route_of j)"
    and own: "route_dests (Dests s') (Routes s') (route_of i) xs" "distinct (pipes_of (Dests s') xs)"
      "length xs \<le> 16" "\<And>d. d \<in> set xs \<Longrightarrow> find_pipe (DD_PipeId (Dests s' d)) s' \<noteq> None"
    and other: "\<And>j d. j < 256 \<Longrightarrow> j \<noteq> i \<Longrightarrow> d \<in> set (ds j) \<Longrightarrow> Dests s' d = Dests s d \<and> d \<notin> set xs"
    and p: "\<And>q. find_pipe q s' = find_pipe q s"
  shows "routes_ok s' ids (ds(i := xs))"
proof -
  have seg: "route_dests (Dests s') (Routes s') (route_of j) (ds j)"
      "pipes_of (Dests s') (ds j) = pipes_of (Dests s) (ds j)"
      "d \<in> set (ds j) \<Longrightarrow> find_pipe (DD_PipeId (Dests s' d)) s' \<noteq> None" if "j < 256" "j \<noteq> i" for j d
  proof -
    have e: "\<forall>x \<in> set (ds j). Dests s' x = Dests s x" using other [OF that] by blast
    show "route_dests (Dests s') (Routes s') (route_of j) (ds j)"
      using routes_okD(3) [OF ok that(1)] unfolding route_dests_def R(2) [OF that]
      by (subst dseg_cong [of "ds j" "Dests s'" "Dests s"]) (use e in auto)
    show "pipes_of (Dests s') (ds j) = pipes_of (Dests s) (ds j)" using e by (simp add: pipes_of_def)
    show "d \<in> set (ds j) \<Longrightarrow> find_pipe (DD_PipeId (Dests s' d)) s' \<noteq> None"
      using routes_okD(6) [OF ok that(1)] e p by auto
  qed
  show ?thesis
    unfolding routes_ok_def
  proof (intro conjI allI impI ballI)
    show "sbr_ok direct_rep (Routes s') ids" by (rule R(1))
    fix j :: nat assume j: "j < 256"
    show "route_dests (Dests s') (Routes s') (route_of j) ((ds(i := xs)) j)" using own(1) seg(1) [OF j] by simp
    show "distinct (pipes_of (Dests s') ((ds(i := xs)) j))"
      using own(2) seg(2) [OF j] routes_okD(4) [OF ok j] by simp
    show "length ((ds(i := xs)) j) \<le> CFE_PLATFORM_SB_MAX_DEST_PER_PKT"
      using own(3) routes_okD(5) [OF ok j] by (simp add: CFE_PLATFORM_SB_MAX_DEST_PER_PKT_def)
    show "find_pipe (DD_PipeId (Dests s' d)) s' \<noteq> None" if "d \<in> set ((ds(i := xs)) j)" for d
      using that own(4) seg(3) [OF j] by (auto split: if_splits)
    show "set ((ds(i := xs)) j) \<inter> set ((ds(i := xs)) k) = {}" if "k < 256" "j \<noteq> k" for k
      using that j other routes_okD(7) [OF ok j that(1)] by auto
  next
    fix j assume "length ids \<le> j"
    then show "(ds(i := xs)) j = []" using i(1) routes_okD(8) [OF ok] by auto
  qed
qed

lemma dest_set_update:
  assumes "i < 256" "\<And>j. j < 256 \<Longrightarrow> j \<noteq> i \<Longrightarrow> set (ds j) \<inter> set (ds i) = {}"
  shows "dest_set (ds(i := xs)) = set xs \<union> (dest_set ds - set (ds i))"
  using assms unfolding dest_set_def by (fastforce split: if_splits)

lemma head_set_ok: "sbr_ok rep R ids \<Longrightarrow> sbr_ok rep (CFE_SBR_SetDestListHeadPtr r h R) ids"
  by (simp add: sbr_ok_def)

subsection \<open>The walk over the destinations\<close>

lemma scan_list:
  "dseg D prev p xs 0 \<Longrightarrow> n + length xs \<le> 16
     \<Longrightarrow> scan_dests D p q n = Some (case List.find (\<lambda>x. DD_PipeId (D x) = q) xs of
           Some x \<Rightarrow> (x, Some CFE_SB_DUP_SUBSCRIP_EID)
         | None \<Rightarrow> if xs \<noteq> [] \<and> n + length xs = 16 then (last xs, Some CFE_SB_MAX_DESTS_MET_EID) else (0, None))"
proof (induction xs arbitrary: prev p n)
  case Nil
  then show ?case by (subst scan_dests.simps) simp
next
  case (Cons x xs)
  have p: "p = x" "x \<noteq> 0" and seg: "dseg D x (DD_Next (D x)) xs 0" using Cons.prems(1) by auto
  have step: "scan_dests D p q n = (if DD_PipeId (D x) = q then Some (x, Some CFE_SB_DUP_SUBSCRIP_EID)
      else if n = 15 then Some (x, Some CFE_SB_MAX_DESTS_MET_EID) else scan_dests D (DD_Next (D x)) q (n + 1))"
    using p Cons.prems(2) by (subst scan_dests.simps) (auto simp: CFE_PLATFORM_SB_MAX_DEST_PER_PKT_def)
  show ?case
  proof (cases "n = 15")
    case True
    then have "xs = []" using Cons.prems(2) by (cases xs) auto
    with True step show ?thesis by simp
  next
    case False
    with step Cons.IH [OF seg, of "n + 1"] Cons.prems(2) show ?thesis by (auto split: option.split)
  qed
qed

subsection \<open>Adding a destination\<close>

lemma find_none: "List.find P xs = None \<longleftrightarrow> (\<forall>x \<in> set xs. \<not> P x)"
  by (auto simp: find_None_iff)

text \<open>A destination that a subscription has just made.\<close>

definition fresh_dest :: "CFE_SB_PipeId \<Rightarrow> uint16 \<Rightarrow> uint8 \<Rightarrow> DestinationD \<Rightarrow> bool" where
  "fresh_dest p lim scope x \<longleftrightarrow> DD_PipeId x = p \<and> DD_Active x = CFE_SB_ACTIVE \<and> DD_MsgId2PipeLim x = lim
     \<and> DD_BuffCount x = 0 \<and> DD_Scope x = scope"

lemma add_destination_run:
  assumes run: "running s X zs ts ids ds" and m: "m \<in> set ids" and p: "find_pipe p s \<noteq> None"
    and new: "p \<notin> set (subscribers ids ds s m)" "length (route_list ids ds m) < 16"
    and add: "add_destination (lookup_route ids m) p lim scope s = ((st, e), s')"
  shows "if st = CFE_SUCCESS
    then e = None \<and> (\<exists>ds'. running s' X zs ts ids ds' \<and> subscribers ids ds' s' m = p # subscribers ids ds s m
        \<and> fresh_dest p lim scope (Dests s' (hd (route_list ids ds' m)))
        \<and> (\<forall>m'. m' \<noteq> m \<longrightarrow> subscribers ids ds' s' m' = subscribers ids ds s m'))
    else st = CFE_SB_BUF_ALOC_ERR \<and> e = Some CFE_SB_DEST_BLK_ERR_EID \<and> running s' X zs ts ids ds
        \<and> Dests s' = Dests s"
    "Queues s' = Queues s" "PipeTbl s' = PipeTbl s" "Bufs s' = Bufs s" "LastPipeId s' = LastPipeId s"
    "st = CFE_SUCCESS \<longleftrightarrow> can_alloc sizeof_DestinationD s"
    "PoolHdl s' = PoolHdl s" "Pools s' = snd (CFE_ES_GetPoolBuf True (PoolHdl s) sizeof_DestinationD (Pools s))"
proof -
  note D = runningD [OF run]
  note R = route_list_head [OF D(3) m]
  let ?i = "index_of m ids" and ?xs = "route_list ids ds m"
  have xs: "?xs = ds ?i" using m by (simp add: route_list_def)
  obtain r s1 where g: "CFE_SB_GetDestinationBlk s = (r, s1)" by fastforce
  note G = core_dest_alloc [OF D(4) g]
  show "Queues s' = Queues s" "PipeTbl s' = PipeTbl s" "Bufs s' = Bufs s" "LastPipeId s' = LastPipeId s"
    using add G(3-9) g by (auto simp: add_destination_def Let_def split: option.splits prod.splits)
  have gp: "PoolHdl s1 = PoolHdl s" "Pools s1 = snd (CFE_ES_GetPoolBuf True (PoolHdl s) sizeof_DestinationD (Pools s))"
    using g by (auto simp: CFE_SB_GetDestinationBlk_def split: prod.splits sum.splits if_splits)
  then show "PoolHdl s' = PoolHdl s" "Pools s' = snd (CFE_ES_GetPoolBuf True (PoolHdl s) sizeof_DestinationD (Pools s))"
    using add g by (auto simp: add_destination_def Let_def split: option.splits prod.splits)
  show "st = CFE_SUCCESS \<longleftrightarrow> can_alloc sizeof_DestinationD s"
    using add g alloc_none(1) [OF g] by (auto simp: add_destination_def Let_def split: option.splits prod.splits)
  show "if st = CFE_SUCCESS
    then e = None \<and> (\<exists>ds'. running s' X zs ts ids ds' \<and> subscribers ids ds' s' m = p # subscribers ids ds s m
        \<and> fresh_dest p lim scope (Dests s' (hd (route_list ids ds' m)))
        \<and> (\<forall>m'. m' \<noteq> m \<longrightarrow> subscribers ids ds' s' m' = subscribers ids ds s m'))
    else st = CFE_SB_BUF_ALOC_ERR \<and> e = Some CFE_SB_DEST_BLK_ERR_EID \<and> running s' X zs ts ids ds
        \<and> Dests s' = Dests s"
  proof (cases r)
    case None
    then have "st = CFE_SB_BUF_ALOC_ERR" "e = Some CFE_SB_DEST_BLK_ERR_EID" "s' = s1"
      using add g by (auto simp: add_destination_def)
    then show ?thesis
      using G(2) [OF None] D parts_cong [OF G(7,6)] tbl_cong(5) [OF G(7)] G(4,5) by (simp add: running_def)
  next
    case (Some d)
    define x where "x = \<lparr>DD_PipeId = p, DD_Active = CFE_SB_ACTIVE, DD_MsgId2PipeLim = lim,
       DD_BuffCount = 0, DD_DestCnt = 0, DD_Scope = scope, DD_Prev = 0, DD_Next = 0\<rparr>"
    define D2 where "D2 = (Dests s)(d := x)"
    obtain D3 R3 where a: "CFE_SB_AddDestNode (lookup_route ids m) d D2 (Routes s) = (D3, R3)" by fastforce
    have st: "st = CFE_SUCCESS" "e = None" and s': "PipeTbl s' = PipeTbl s" "Queues s' = Queues s"
      "Dests s' = D3" "Routes s' = R3" "core s' = core s1"
      using add g a Some G(3-9)
      by (auto simp: add_destination_def Let_def x_def D2_def upd_dest_def fun_eq_iff
          simp flip: fun_upd_def)
    from G(1) [OF Some] have d: "d \<noteq> 0" "d \<notin> dest_set ds" "core s1 (refs s + X) zs ts (insert d (dest_set ds))" by auto
    have dj: "d \<notin> set (ds j)" if "j < 256" for j using d(2) that by (auto simp: dest_set_def)
    have i: "?i < 256" "?i < length ids" using R(4) index_of_less [OF m] by simp_all
    have l: "length (RoutingTbl (Routes s)) = 256" by (rule routes_okD(2) [OF D(3)])
    have rd: "route_dests D2 (Routes s) (lookup_route ids m) ?xs"
      using R(1) dj [OF i(1)] unfolding route_dests_def xs
      by (subst dseg_cong [of "ds ?i" D2 "Dests s"]) (auto simp: D2_def)
    note A = add_dest [OF R(2) l rd d(1) _ a]
    have nx: "d \<notin> set ?xs" using dj [OF i(1)] by (simp add: xs)
    have rt: "route_dests D3 R3 (route_of ?i) (d # ?xs)" using A(1) [OF nx] R(5) by simp
    have pid: "DD_PipeId (D3 y) = (if y = d then p else DD_PipeId (Dests s y))" for y
      using same_payloadD(1) [OF A(2) [OF nx], of y] by (simp add: D2_def x_def)
    have fp: "find_pipe q s' = find_pipe q s" for q by (rule tbl_cong(2) [OF s'(1)])
    have pp: "pipes_of D3 (d # ?xs) = p # pipes_of (Dests s) ?xs"
      using nx by (auto simp: pipes_of_def pid)
    have dis: "set (ds j) \<inter> set (ds ?i) = {}" if "j < 256" "j \<noteq> ?i" for j
      using routes_okD(7) [OF D(3) that(1) i(1) that(2)] .
    let ?ds = "ds(?i := d # ?xs)"
    have ro: "routes_ok s' ids ?ds"
    proof (rule routes_ok_update [OF D(3) i(2,1)])
      show "sbr_ok direct_rep (Routes s') ids"
        using head_set_ok [OF routes_okD(1) [OF D(3)]] by (simp add: s' A(4) [OF nx])
      show "CFE_SBR_GetDestListHeadPtr (Routes s') (route_of j) = CFE_SBR_GetDestListHeadPtr (Routes s) (route_of j)"
        if "j < 256" "j \<noteq> ?i" for j
      proof -
        have "route_of j \<noteq> lookup_route ids m"
          using that i(1) route_of_inj [of j ?i] by (auto simp: R(5))
        then show ?thesis by (simp add: s' A(4) [OF nx] head_set [OF R(2) l])
      qed
      show "route_dests (Dests s') (Routes s') (route_of ?i) (d # ?xs)" using rt by (simp add: s')
      show "distinct (pipes_of (Dests s') (d # ?xs))"
        using new(1) routes_okD(4) [OF D(3) i(1)] unfolding s'(3) pp by (simp add: subscribers_def xs)
      show "length (d # ?xs) \<le> 16" using new(2) by simp
      show "find_pipe (DD_PipeId (Dests s' y)) s' \<noteq> None" if "y \<in> set (d # ?xs)" for y
        using that p routes_okD(6) [OF D(3) i(1), of y] by (auto simp: s' pid fp xs)
      show "Dests s' y = Dests s y \<and> y \<notin> set (d # ?xs)" if "j < 256" "j \<noteq> ?i" "y \<in> set (ds j)" for j y
      proof -
        have "y \<notin> set (d # ?xs)" using that dj dis [OF that(1,2)] by (auto simp: xs)
        then show ?thesis using A(3) [OF nx, of y] by (auto simp: s' D2_def)
      qed
      show "find_pipe q s' = find_pipe q s" for q by (rule fp)
    qed
    have "dest_set ?ds = insert d (dest_set ds)"
      using dest_set_update [of ?i ds, OF i(1) dis] i(1) by (auto simp: xs dest_set_def)
    then have run': "running s' X zs ts ids ?ds"
      using ro D d(3) parts_cong(1,2) [OF s'(1,2)] tbl_cong(5) [OF s'(1)] by (simp add: running_def s')
    have rl: "route_list ids ?ds m' = (if m' = m then d # ?xs else route_list ids ds m')" for m'
      using m index_of_inj [of m' ids m] by (auto simp: route_list_def)
    have "subscribers ids ?ds s' m = p # subscribers ids ds s m"
      using pp by (simp add: subscribers_def rl s')
    moreover have "subscribers ids ?ds s' m' = subscribers ids ds s m'" if "m' \<noteq> m" for m'
    proof -
      have "d \<notin> set (route_list ids ds m')"
        using dj route_list_head(4) [OF D(3), of m'] by (auto simp: route_list_def)
      then show ?thesis using that by (auto simp: subscribers_def rl s' pipes_of_def pid)
    qed
    moreover have "fresh_dest p lim scope (Dests s' (hd (route_list ids ?ds m)))"
      using same_payloadD [OF A(2) [OF nx], of d] by (simp add: rl fresh_dest_def s' D2_def x_def)
    ultimately show ?thesis using st run' by auto
  qed
qed

subsection \<open>The route of a subscription\<close>

definition with_route :: "CFE_SB_MsgId list \<Rightarrow> CFE_SB_MsgId \<Rightarrow> CFE_SB_MsgId list" where
  "with_route ids m = (if m \<in> set ids then ids else ids @ [m])"

lemma with_route_list:
  assumes "routes_ok s ids ds"
  shows "route_list (with_route ids m) ds m' = route_list ids ds m'" "m \<in> set (with_route ids m)"
  using routes_okD(8) [OF assms, of "length ids"]
  by (auto simp: with_route_def route_list_def index_of_append)

lemma subscribe_route_run:
  assumes run: "running s X zs ts ids ds" and p: "find_pipe p s = Some i" "PD_AppId (PipeTbl s ! i) = AppId"
    and m: "CFE_SB_IsValidMsgId m" "scope \<le> 1"
  shows "if m \<in> set ids \<or> length ids < 256
    then \<exists>c s1. subscribe_route AppId m p scope s = Some (Inr (lookup_route (with_route ids m) m, c, s1))
       \<and> running s1 X zs ts (with_route ids m) ds \<and> Queues s1 = Queues s \<and> PipeTbl s1 = PipeTbl s
       \<and> Bufs s1 = Bufs s \<and> Dests s1 = Dests s \<and> LastPipeId s1 = LastPipeId s
       \<and> PoolHdl s1 = PoolHdl s \<and> Pools s1 = Pools s \<and> (m \<in> set ids \<longrightarrow> s1 = s)
    else subscribe_route AppId m p scope s = Some (Inl (CFE_SB_MAX_MSGS_MET, Some CFE_SB_MAX_MSGS_MET_EID))"
proof -
  note D = runningD [OF run]
  note sb = routes_okD(1) [OF D(3)]
  have sc: "\<not> 1 < scope" using m(2) by simp
  consider "m \<in> set ids" | "m \<notin> set ids" "length ids < 256" | "m \<notin> set ids" "length ids = 256"
    using routes_okD(10) [OF D(3)] by linarith
  then show ?thesis
  proof cases
    case 1
    then have "subscribe_route AppId m p scope s = Some (Inr (lookup_route ids m, 0, s))"
      using p m sc direct.lookup_valid [OF sb] by (simp add: subscribe_route_def routes_okD(9) [OF D(3)])
    with 1 run show ?thesis by (auto simp: with_route_def)
  next
    case 2
    obtain c R where a: "CFE_SBR_AddRoute CFE_SBR_SetRouteId_direct m (Routes s) = Some (route_of (length ids), c, R)"
      "sbr_ok direct_rep R (ids @ [m])" "\<And>i. ListHeadPtr (RoutingTbl R ! i) = ListHeadPtr (RoutingTbl (Routes s) ! i)"
      using direct.add_ok [OF sb m(1) 2] by metis
    define f :: "StatsTlm \<Rightarrow> StatsTlm" where "f = (\<lambda>t. let t1 = t\<lparr>MsgIdsInUse := MsgIdsInUse t + 1\<rparr>
                  in if PeakMsgIdsInUse t1 < MsgIdsInUse t1
                     then t1\<lparr>PeakMsgIdsInUse := MsgIdsInUse t1\<rparr> else t1)"
    let ?s = "upd_stat f (s\<lparr>Routes := R\<rparr>)"
    have v: "CFE_SBR_IsValidRouteId (route_of (length ids))" using 2(2) by (simp add: route_of_facts)
    have nv: "\<not> CFE_SBR_IsValidRouteId (lookup_route ids m)" using lookup_invalid [OF 2(1)] .
    have sub: "subscribe_route AppId m p scope s = Some (Inr (route_of (length ids), c, ?s))"
      using p m sc v nv a(1) by (simp add: subscribe_route_def routes_okD(9) [OF D(3)] add_route_def f_def)
    have head: "CFE_SBR_GetDestListHeadPtr R q = CFE_SBR_GetDestListHeadPtr (Routes s) q" for q
      by (simp add: CFE_SBR_GetDestListHeadPtr_def route_entry_def a(3))
    have "routes_ok ?s (ids @ [m]) ds"
      using D(3) a(2) unfolding routes_ok_def route_dests_def
      by (simp add: head tbl_cong(2) [of ?s s])
    then have "running ?s X zs ts (ids @ [m]) ds"
      using D parts_cong(1,2) [of ?s s] tbl_cong(5) [of ?s s] by (simp add: running_def)
    moreover have "lookup_route (ids @ [m]) m = route_of (length ids)"
      using 2(1) by (simp add: lookup_route_def index_of_append)
    ultimately show ?thesis using sub 2 by (simp add: with_route_def)
  next
    case 3
    have nv: "\<not> CFE_SBR_IsValidRouteId (lookup_route ids m)" using lookup_invalid [OF 3(1)] .
    have "subscribe_route AppId m p scope s = Some (Inl (CFE_SB_MAX_MSGS_MET, Some CFE_SB_MAX_MSGS_MET_EID))"
      using p m sc nv direct.add_full [OF sb, of m] 3(2)
      by (simp add: subscribe_route_def routes_okD(9) [OF D(3)] add_route_def CFE_SBR_INVALID_ROUTE_ID_def)
    with 3 show ?thesis by simp
  qed
qed

subsection \<open>The report and the whole call\<close>

lemma report_run:
  assumes rest: "at_rest K s zs ts ids ds" and c: "caller_ok ctx"
  shows "\<exists>st s' ts'. CFE_SB_SendSubscriptionReport ctx m p qos s = Some (st, s')
     \<and> at_rest K s' zs ts' ids ds \<and> same_tables s s' \<and> (\<not> SubscriptionReporting s \<longrightarrow> s' = s)"
proof (cases "SubscriptionReporting s")
  case False
  then show ?thesis using rest by (auto simp: CFE_SB_SendSubscriptionReport_def same_tables_frame)
next
  case True
  define msg where "msg = map_option (\<lambda>x. take 16 x @ sub_report_payload m p qos)
     (snd (CFE_MSG_Init (Some (replicate 32 0)) CFE_SB_ONESUB_TLM_MID 32))"
  have "\<exists>st s1 ts'. CFE_SB_TransmitMsg ctx msg True s = Some (st, s1) \<and> at_rest K s1 zs ts' ids ds \<and> same_tables s s1"
  proof (cases "\<exists>x m n. msg = Some x \<and> sendable msg m n")
    case True
    then obtain x m n where "msg = Some x" "sendable (Some x) m n" by auto
    with transmit_msg_sends [OF rest c this(2) refl, of True] show ?thesis by auto
  next
    case False
    then have no: "msg = None \<or> (\<nexists>m n. sendable msg m n)" by (cases msg) auto
    obtain st s1 where t: "CFE_SB_TransmitMsg ctx msg True s = Some (st, s1)" "quiet s s1"
      using transmit_msg_refuses [OF no] by metis
    then show ?thesis using rest quiet_tables [OF t(2)] quiet_at_rest [OF t(2)] by auto
  qed
  then obtain st s1 ts' where t: "CFE_SB_TransmitMsg ctx msg True s = Some (st, s1)"
    "at_rest K s1 zs ts' ids ds" "same_tables s s1" by blast
  have q: "quiet s1 (send_event CFE_SB_SUBSCRIPTION_RPT_EID s1)" by simp
  have "CFE_SB_SendSubscriptionReport ctx m p qos s = Some (st, send_event CFE_SB_SUBSCRIPTION_RPT_EID s1)"
    using True t(1) by (simp add: CFE_SB_SendSubscriptionReport_def msg_def Let_def)
  with True t(2,3) quiet_at_rest [OF q] same_tables_trans [OF t(3) quiet_tables [OF q]] show ?thesis by auto
qed

lemma finish_run:
  assumes rest: "at_rest K s zs ts ids ds" and c: "caller_ok ctx"
  shows "\<exists>s' ts'. finish_subscription ctx m p qos scope st e coll s = Some (st, s')
     \<and> at_rest K s' zs ts' ids ds \<and> same_tables s s'
     \<and> (\<not> SubscriptionReporting s \<or> scope \<noteq> CFE_SB_MSG_GLOBAL \<longrightarrow> quiet s s')"
proof -
  define s3 where "s3 = count_subscribe_event e s"
  define s4 where "s4 = (if e \<noteq> None then snd (CFE_SB_GetPipeName True OS_MAX_API_NAME p s3) else s3)"
  define s5 where "s5 = send_pending e s4"
  define s6 where "s6 = (if st = CFE_SUCCESS \<and> e = None then send_event CFE_SB_SUBSCRIPTION_RCVD_EID s5 else s5)"
  have q3: "quiet s s3" and r3: "SubscriptionReporting s3 = SubscriptionReporting s"
    by (simp_all add: s3_def count_subscribe_event_def upd_hk_def quiet_def split: option.split)
  have q4: "quiet s s4" using quiet_trans [OF q3 quiet_name] q3 by (simp add: s4_def)
  have r4: "SubscriptionReporting s4 = SubscriptionReporting s"
    by (simp add: s4_def r3 CFE_SB_GetPipeName_def Let_def send_event_def send_pending_def split: prod.split option.split)
  have q6: "quiet s s6" using quiet_event [OF quiet_pending [OF q4]] quiet_pending [OF q4]
    by (simp add: s6_def s5_def)
  have r6: "SubscriptionReporting s6 = SubscriptionReporting s"
    by (simp add: s6_def s5_def r4 send_event_def send_pending_def split: option.split)
  have rest6: "at_rest K s6 zs ts ids ds" using rest quiet_at_rest [OF q6] by simp
  obtain s7 ts7 where s7: "(if st = CFE_SUCCESS \<and> scope = CFE_SB_MSG_GLOBAL
            then map_option snd (CFE_SB_SendSubscriptionReport ctx m p qos s6) else Some s6) = Some s7"
      "at_rest K s7 zs ts7 ids ds" "same_tables s6 s7"
      "\<not> SubscriptionReporting s \<or> scope \<noteq> CFE_SB_MSG_GLOBAL \<longrightarrow> s7 = s6"
  proof (cases "st = CFE_SUCCESS \<and> scope = CFE_SB_MSG_GLOBAL")
    case True
    with that report_run [OF rest6 c, of m p qos] r6 show ?thesis by fastforce
  next
    case False
    with that [of s6 ts] rest6 show ?thesis by (auto simp: same_tables_frame)
  qed
  define s8 where "s8 = (if coll \<noteq> 0 then send_event CFE_SB_HASHCOLLISION_EID s7 else s7)"
  have q8: "quiet s7 s8" by (simp add: s8_def)
  have "finish_subscription ctx m p qos scope st e coll s = Some (st, s8)"
    using s7(1) by (simp only: finish_subscription_def Let_def s3_def s4_def s5_def s6_def s8_def
        bind.bind_lunit Option.bind.simps)
  moreover have "same_tables s s8"
    by (rule same_tables_trans [OF quiet_tables [OF q6] same_tables_trans [OF s7(3) quiet_tables [OF q8]]])
  ultimately show ?thesis
    using s7(2,4) quiet_at_rest [OF q8] quiet_trans [OF q6] q8 by auto
qed

subsection \<open>What a subscription does\<close>

text \<open>The status of a subscription; \<open>room\<close> says whether the pool has a block left.\<close>

definition may_subscribe :: "sb_caller \<Rightarrow> CFE_SB_MsgId \<Rightarrow> CFE_SB_PipeId \<Rightarrow> uint8 \<Rightarrow> sb \<Rightarrow> bool" where
  "may_subscribe ctx m p scope s \<longleftrightarrow>
     (case find_pipe p s of None \<Rightarrow> False | Some i \<Rightarrow> PD_AppId (PipeTbl s ! i) = caller_app ctx)
     \<and> CFE_SB_IsValidMsgId m \<and> scope \<le> 1"

definition subscribe_status ::
  "bool \<Rightarrow> CFE_SB_MsgId list \<Rightarrow> CFE_SB_PipeId list \<Rightarrow> bool \<Rightarrow> CFE_SB_MsgId \<Rightarrow> CFE_SB_PipeId \<Rightarrow> CFE_Status" where
  "subscribe_status allowed ids subs room m p =
     (if \<not> allowed then CFE_SB_BAD_ARGUMENT
      else if m \<notin> set ids \<and> 256 \<le> length ids then CFE_SB_MAX_MSGS_MET
      else if p \<in> set subs then CFE_SUCCESS
      else if 16 \<le> length subs then CFE_SB_MAX_DESTS_MET
      else if room then CFE_SUCCESS else CFE_SB_BUF_ALOC_ERR)"

lemma enter_run:
  assumes run: "running s X zs ts ids ds"
  shows "\<exists>st e coll s' ids' ds'. enter_subscription (caller_app ctx) m p lim scope s = Some (st, e, coll, s')
     \<and> running s' X zs ts ids' ds' \<and> (ids' = ids \<or> ids' = with_route ids m)
     \<and> st = subscribe_status (may_subscribe ctx m p scope s) ids (subscribers ids ds s m)
            (can_alloc sizeof_DestinationD s) m p
     \<and> subscribers ids' ds' s' = (if st = CFE_SUCCESS \<and> p \<notin> set (subscribers ids ds s m)
          then (subscribers ids ds s)(m := p # subscribers ids ds s m) else subscribers ids ds s)
     \<and> (st = CFE_SUCCESS \<and> p \<notin> set (subscribers ids ds s m)
          \<longrightarrow> fresh_dest p lim scope (Dests s' (hd (route_list ids' ds' m))))
     \<and> PoolHdl s' = PoolHdl s
     \<and> Pools s' \<in> {Pools s, snd (CFE_ES_GetPoolBuf True (PoolHdl s) sizeof_DestinationD (Pools s))}
     \<and> Queues s' = Queues s \<and> PipeTbl s' = PipeTbl s \<and> Bufs s' = Bufs s \<and> LastPipeId s' = LastPipeId s"
proof (cases "may_subscribe ctx m p scope s")
  case False
  then have "\<exists>e. subscribe_route (caller_app ctx) m p scope s = Some (Inl (CFE_SB_BAD_ARGUMENT, e))"
    by (cases "find_pipe p s") (auto simp: subscribe_route_def may_subscribe_def not_le)
  then obtain e where e: "subscribe_route (caller_app ctx) m p scope s = Some (Inl (CFE_SB_BAD_ARGUMENT, e))"
    by blast
  show ?thesis
    by (rule exI [of _ CFE_SB_BAD_ARGUMENT], rule exI [of _ e], rule exI [of _ 0], rule exI [of _ s],
        rule exI [of _ ids], rule exI [of _ ds])
      (use False run e in \<open>simp add: enter_subscription_def subscribe_status_def\<close>)
next
  case may: True
  then obtain i where i: "find_pipe p s = Some i" "PD_AppId (PipeTbl s ! i) = caller_app ctx"
    "CFE_SB_IsValidMsgId m" "scope \<le> 1" by (auto simp: may_subscribe_def split: option.splits)
  note R = subscribe_route_run [OF run i]
  let ?ids = "with_route ids m" and ?subs = "subscribers ids ds s m"
  show ?thesis
  proof (cases "m \<in> set ids \<or> length ids < 256")
    case False
    show ?thesis
      by (rule exI [of _ CFE_SB_MAX_MSGS_MET], rule exI [of _ "Some CFE_SB_MAX_MSGS_MET_EID"], rule exI [of _ 0],
          rule exI [of _ s], rule exI [of _ ids], rule exI [of _ ds])
        (use False R may run in \<open>simp add: enter_subscription_def subscribe_status_def\<close>)
  next
    case room: True
    with R obtain c s1 where r: "subscribe_route (caller_app ctx) m p scope s = Some (Inr (lookup_route ?ids m, c, s1))"
      "running s1 X zs ts ?ids ds" "Queues s1 = Queues s" "PipeTbl s1 = PipeTbl s" "Bufs s1 = Bufs s"
      "Dests s1 = Dests s" "LastPipeId s1 = LastPipeId s" "PoolHdl s1 = PoolHdl s" "Pools s1 = Pools s" by auto
    note D1 = runningD [OF r(2)]
    note W = with_route_list [OF runningD(3) [OF run], of m]
    have subs1: "subscribers ?ids ds s1 = subscribers ids ds s"
      by (intro ext) (simp add: subscribers_def W(1) r(6))
    note L = route_list_head [OF D1(3) W(2)]
    let ?xs = "route_list ?ids ds m"
    have xs: "?xs = route_list ids ds m" by (rule W(1))
    have sub: "?subs = pipes_of (Dests s1) ?xs" by (simp add: subscribers_def W(1) r(6))
    have scan: "scan_dests (Dests s1) (CFE_SBR_GetDestListHeadPtr (Routes s1) (lookup_route ?ids m)) p 0
        = Some (case List.find (\<lambda>x. DD_PipeId (Dests s1 x) = p) ?xs of
           Some x \<Rightarrow> (x, Some CFE_SB_DUP_SUBSCRIP_EID)
         | None \<Rightarrow> if ?xs \<noteq> [] \<and> length ?xs = 16 then (last ?xs, Some CFE_SB_MAX_DESTS_MET_EID) else (0, None))"
      using L(1,3) by (subst scan_list [of _ 0 _ ?xs]) (auto simp: route_dests_def)
    have nz: "0 \<notin> set ?xs" using L(1) dseg_nonzero by (auto simp: route_dests_def)
    show ?thesis
    proof (cases "List.find (\<lambda>x. DD_PipeId (Dests s1 x) = p) ?xs")
      case (Some x)
      then have x: "x \<in> set ?xs" "DD_PipeId (Dests s1 x) = p" by (auto simp: find_Some_iff)
      then have "p \<in> set ?subs" "x \<noteq> 0" using nz by (auto simp: sub pipes_of_def)
      then have "enter_subscription (caller_app ctx) m p lim scope s
          = Some (CFE_SUCCESS, Some CFE_SB_DUP_SUBSCRIP_EID, c, s1)"
        using r(1) scan Some by (simp add: enter_subscription_def)
      then show ?thesis
        by (intro exI [of _ CFE_SUCCESS] exI [of _ "Some CFE_SB_DUP_SUBSCRIP_EID"] exI [of _ c] exI [of _ s1]
            exI [of _ ?ids] exI [of _ ds])
          (use may room r \<open>p \<in> set ?subs\<close> subs1 in \<open>auto simp: subscribe_status_def\<close>)
    next
      case None
      then have np: "p \<notin> set ?subs" by (auto simp: find_None_iff sub pipes_of_def)
      show ?thesis
      proof (cases "length ?xs = 16")
        case True
        then have ne: "?xs \<noteq> []" by auto
        have "last ?xs \<noteq> 0" using nz last_in_set [OF ne] by auto
        then have "enter_subscription (caller_app ctx) m p lim scope s
            = Some (CFE_SB_MAX_DESTS_MET, Some CFE_SB_MAX_DESTS_MET_EID, c, s1)"
          using r(1) scan None True ne by (simp add: enter_subscription_def)
        moreover have "length ?subs = 16" using True by (simp add: sub pipes_of_def)
        ultimately show ?thesis
          by (intro exI [of _ CFE_SB_MAX_DESTS_MET] exI [of _ "Some CFE_SB_MAX_DESTS_MET_EID"] exI [of _ c]
              exI [of _ s1] exI [of _ ?ids] exI [of _ ds])
            (use may room r np subs1 in \<open>auto simp: subscribe_status_def\<close>)
      next
        case False
        then have len: "length ?xs < 16" "length ?subs < 16" using L(3) by (auto simp: sub pipes_of_def)
        obtain st e s2 where a: "add_destination (lookup_route ?ids m) p lim scope s1 = ((st, e), s2)"
          by (metis prod.exhaust)
        have p1: "find_pipe p s1 \<noteq> None" "p \<notin> set (subscribers ?ids ds s1 m)"
          using i(1) tbl_cong(2) [OF r(4)] np subs1 by simp_all
        note A = add_destination_run [OF r(2) W(2) p1 len(1) a]
        have e: "enter_subscription (caller_app ctx) m p lim scope s = Some (st, e, c, s2)"
          using r(1) scan None False a by (simp add: enter_subscription_def)
        have o: "st = (if can_alloc sizeof_DestinationD s then CFE_SUCCESS else CFE_SB_BUF_ALOC_ERR)"
          using A(1,6) can_alloc_cong [OF r(8,9)] by (auto split: if_splits)
        have "\<exists>ds'. running s2 X zs ts ?ids ds' \<and> subscribers ?ids ds' s2 = (if st = CFE_SUCCESS
            then (subscribers ids ds s)(m := p # ?subs) else subscribers ids ds s)
            \<and> (st = CFE_SUCCESS \<longrightarrow> fresh_dest p lim scope (Dests s2 (hd (route_list ?ids ds' m))))"
        proof (cases "st = CFE_SUCCESS")
          case True
          with A(1) obtain ds' where "running s2 X zs ts ?ids ds'"
            "subscribers ?ids ds' s2 m = p # subscribers ?ids ds s1 m"
            "fresh_dest p lim scope (Dests s2 (hd (route_list ?ids ds' m)))"
            "\<forall>m'. m' \<noteq> m \<longrightarrow> subscribers ?ids ds' s2 m' = subscribers ?ids ds s1 m'" by auto
          with True show ?thesis by (intro exI [of _ ds']) (auto simp: subs1 fun_eq_iff)
        next
          case False
          with A(1) have f: "running s2 X zs ts ?ids ds" "Dests s2 = Dests s1" by auto
          have "subscribers ?ids ds s2 = subscribers ?ids ds s1" by (rule subscribers_cong) (simp add: f(2))
          with False f(1) subs1 show ?thesis by auto
        qed
        then obtain ds' where ds': "running s2 X zs ts ?ids ds'" "subscribers ?ids ds' s2 = (if st = CFE_SUCCESS
            then (subscribers ids ds s)(m := p # ?subs) else subscribers ids ds s)"
            "st = CFE_SUCCESS \<longrightarrow> fresh_dest p lim scope (Dests s2 (hd (route_list ?ids ds' m)))" by blast
        have "st = subscribe_status (may_subscribe ctx m p scope s) ids ?subs (can_alloc sizeof_DestinationD s) m p"
          using o may room np len(2) by (auto simp: subscribe_status_def)
        then show ?thesis
          by (intro exI [of _ st] exI [of _ e] exI [of _ c] exI [of _ s2] exI [of _ ?ids] exI [of _ ds'])
            (use e ds' np A(2-5,7,8) r(3-5,7-9) in simp)
      qed
    qed
  qed
qed

lemma at_rest_frame:
  assumes "at_rest K s zs ts ids ds" "running s' (mset zs + K) zs ts ids' ds'"
    "PipeTbl s' = PipeTbl s" "Queues s' = Queues s" "Bufs s' = Bufs s"
  shows "at_rest K s' zs ts ids' ds'"
  using assms parts_cong(1) [OF assms(3,4)] by (simp add: at_rest_def)

lemma same_tables_subscribers:
  assumes "same_tables s s'"
  shows "subscribers ids ds s' = subscribers ids ds s"
proof (rule subscribers_cong)
  show "DD_PipeId (Dests s' d) = DD_PipeId (Dests s d)" for d
    using assms dest_keyD(1) [of "Dests s' d" "Dests s d"] by (simp add: same_tables_def)
qed

lemma subscribe_run:
  assumes rest: "at_rest K s zs ts ids ds" and c: "caller_ok ctx"
  shows "\<exists>st s' ts' ids' ds'. CFE_SB_SubscribeFull ctx m p qos lim scope s = Some (st, s')
     \<and> at_rest K s' zs ts' ids' ds' \<and> (ids' = ids \<or> ids' = with_route ids m)
     \<and> st = subscribe_status (may_subscribe ctx m p scope s) ids (subscribers ids ds s m)
            (can_alloc sizeof_DestinationD s) m p
     \<and> subscribers ids' ds' s' = (if st = CFE_SUCCESS \<and> p \<notin> set (subscribers ids ds s m)
          then (subscribers ids ds s)(m := p # subscribers ids ds s m) else subscribers ids ds s)"
proof -
  obtain st e coll s1 ids' ds' where E: "enter_subscription (caller_app ctx) m p lim scope s = Some (st, e, coll, s1)"
     "running s1 (mset zs + K) zs ts ids' ds'" "ids' = ids \<or> ids' = with_route ids m"
     "st = subscribe_status (may_subscribe ctx m p scope s) ids (subscribers ids ds s m)
            (can_alloc sizeof_DestinationD s) m p"
     "subscribers ids' ds' s1 = (if st = CFE_SUCCESS \<and> p \<notin> set (subscribers ids ds s m)
          then (subscribers ids ds s)(m := p # subscribers ids ds s m) else subscribers ids ds s)"
     "Queues s1 = Queues s" "PipeTbl s1 = PipeTbl s" "Bufs s1 = Bufs s"
    using enter_run [OF at_restD(1) [OF rest], of ctx m p lim scope] by blast
  have r1: "at_rest K s1 zs ts ids' ds'" by (rule at_rest_frame [OF rest E(2,7,6,8)])
  obtain s' ts' where F: "finish_subscription ctx m p qos scope st e coll s1 = Some (st, s')"
     "at_rest K s' zs ts' ids' ds'" "same_tables s1 s'"
    using finish_run [OF r1 c] by blast
  have "CFE_SB_SubscribeFull ctx m p qos lim scope s = Some (st, s')"
    using E(1) F(1) by (simp add: CFE_SB_SubscribeFull_def)
  then show ?thesis
    using E(3-5) F(2) same_tables_subscribers [OF F(3)]
    by (intro exI [of _ st] exI [of _ s'] exI [of _ ts'] exI [of _ ids'] exI [of _ ds']) simp
qed

subsection \<open>Removing a destination\<close>

lemma remove_dest_run:
  assumes run: "running s X zs ts ids ds" and i: "i < length ids" and d: "d \<in> set (ds i)"
  shows "running (CFE_SB_RemoveDest (route_of i) d s) X zs ts ids (ds(i := remove1 d (ds i)))"
    "Queues (CFE_SB_RemoveDest (route_of i) d s) = Queues s" "PipeTbl (CFE_SB_RemoveDest (route_of i) d s) = PipeTbl s"
    "Bufs (CFE_SB_RemoveDest (route_of i) d s) = Bufs s"
    "LastPipeId (CFE_SB_RemoveDest (route_of i) d s) = LastPipeId s"
    "DD_PipeId (Dests (CFE_SB_RemoveDest (route_of i) d s) y) = DD_PipeId (Dests s y)"
    "RouteIdxTop (Routes (CFE_SB_RemoveDest (route_of i) d s)) = RouteIdxTop (Routes s)"
proof -
  note D = runningD [OF run]
  have i256: "i < 256" using i routes_okD(10) [OF D(3)] by simp
  have v: "CFE_SBR_IsValidRouteId (route_of i)" using i256 by (simp add: route_of_facts)
  have l: "length (RoutingTbl (Routes s)) = 256" by (rule routes_okD(2) [OF D(3)])
  note rd = routes_okD(3) [OF D(3) i256]
  obtain D' R' where r: "CFE_SB_RemoveDestNode (route_of i) d (Dests s) (Routes s) = (D', R')" by fastforce
  note A = remove_dest [OF v l rd d r]
  let ?s1 = "s\<lparr>Dests := D', Routes := R'\<rparr>"
  define s2 where "s2 = snd (CFE_SB_PutDestinationBlk d ?s1)"
  let ?s = "CFE_SB_RemoveDest (route_of i) d s"
  have s': "?s = upd_stat (\<lambda>t. t\<lparr>SubscriptionsInUse := SubscriptionsInUse t - 1\<rparr>) s2"
    by (simp add: CFE_SB_RemoveDest_def r s2_def)
  have f: "Queues ?s = Queues s" "PipeTbl ?s = PipeTbl s" "Bufs ?s = Bufs s" "Dests ?s = D'" "Routes ?s = R'"
    "LastPipeId ?s = LastPipeId s"
    by (simp_all add: s' s2_def)
  then show "Queues ?s = Queues s" "PipeTbl ?s = PipeTbl s" "Bufs ?s = Bufs s" "LastPipeId ?s = LastPipeId s"
    by simp_all
  have pid: "DD_PipeId (D' y) = DD_PipeId (Dests s y)" for y by (rule same_payloadD(1) [OF A(2)])
  then show "DD_PipeId (Dests ?s y) = DD_PipeId (Dests s y)" by (simp add: f)
  show "RouteIdxTop (Routes ?s) = RouteIdxTop (Routes s)" using A(4) by (auto simp: f)
  have fp: "find_pipe q ?s = find_pipe q s" for q by (rule tbl_cong(2) [OF f(2)])
  let ?xs = "remove1 d (ds i)"
  have dist: "distinct (ds i)" using rd by (simp add: route_dests_def)
  have dis: "set (ds j) \<inter> set (ds i) = {}" if "j < 256" "j \<noteq> i" for j
    using routes_okD(7) [OF D(3) that(1) i256 that(2)] .
  have ro: "routes_ok ?s ids (ds(i := ?xs))"
  proof (rule routes_ok_update [OF D(3) i i256])
    show "sbr_ok direct_rep (Routes ?s) ids"
      using A(4) routes_okD(1) [OF D(3)] by (auto simp: f head_set_ok)
    show "CFE_SBR_GetDestListHeadPtr (Routes ?s) (route_of j) = CFE_SBR_GetDestListHeadPtr (Routes s) (route_of j)"
      if "j < 256" "j \<noteq> i" for j
      using A(4) route_of_inj [OF that(1) i256] that(2) by (auto simp: f head_set [OF v l])
    show "route_dests (Dests ?s) (Routes ?s) (route_of i) ?xs" using A(1) by (simp add: f)
    have "pipes_of D' ?xs = pipes_of (Dests s) ?xs" by (simp add: pipes_of_def pid)
    moreover have "distinct (pipes_of (Dests s) ?xs)"
      using routes_okD(4) [OF D(3) i256] dist
      by (auto simp: pipes_of_def distinct_map set_remove1_eq intro: inj_on_subset)
    ultimately show "distinct (pipes_of (Dests ?s) ?xs)" by (simp add: f)
    show "length ?xs \<le> 16" using routes_okD(5) [OF D(3) i256]
      by (auto simp: length_remove1 intro: le_trans [OF diff_le_self])
    show "find_pipe (DD_PipeId (Dests ?s y)) ?s \<noteq> None" if "y \<in> set ?xs" for y
      using that routes_okD(6) [OF D(3) i256, of y] dist by (simp add: f pid fp set_remove1_eq)
    show "Dests ?s y = Dests s y \<and> y \<notin> set ?xs" if "j < 256" "j \<noteq> i" "y \<in> set (ds j)" for j y
    proof -
      have "y \<notin> set (ds i)" using that dis [OF that(1,2)] by auto
      then show ?thesis using A(3) notin_set_remove1 by (simp add: f)
    qed
    show "find_pipe q ?s = find_pipe q s" for q by (rule fp)
  qed
  have dset: "dest_set (ds(i := ?xs)) = dest_set ds - {d}"
  proof -
    have "dest_set (ds(i := ?xs)) = set ?xs \<union> (dest_set ds - set (ds i))"
      by (rule dest_set_update [of i ds, OF i256 dis])
    moreover have "set (ds i) \<subseteq> dest_set ds" using i256 by (auto simp: dest_set_def)
    ultimately show ?thesis using d dist by (auto simp: set_remove1_eq)
  qed
  have "d \<in> dest_set ds" using d i256 by (auto simp: dest_set_def)
  then have "core s2 (refs s + X) zs ts (dest_set ds - {d})"
    unfolding s2_def using D(4) by (intro core_dest_free) simp_all
  then show "running ?s X zs ts ids (ds(i := ?xs))"
    using ro D parts_cong(1,2) [OF f(2,1)] tbl_cong(5) [OF f(2)] unfolding running_def dset by (simp add: s')
qed

lemma remove1_pipes:
  assumes "distinct (pipes_of D xs)" "d \<in> set xs"
  shows "pipes_of D (remove1 d xs) = remove1 (DD_PipeId (D d)) (pipes_of D xs)"
  using assms
proof (induction xs)
  case Nil
  then show ?case by simp
next
  case (Cons x xs)
  show ?case
  proof (cases "d = x")
    case True
    then show ?thesis by (simp add: pipes_of_def)
  next
    case False
    then have "d \<in> set xs" using Cons.prems(2) by simp
    moreover from this have "DD_PipeId (D x) \<noteq> DD_PipeId (D d)" using Cons.prems(1) by (auto simp: pipes_of_def)
    ultimately show ?thesis using False Cons by (simp add: pipes_of_def)
  qed
qed

text \<open>Taking a pipe out of the list of a message ID.\<close>

lemma remove_subscriber:
  assumes run: "running s X zs ts ids ds" and m: "m \<in> set ids"
    and d: "d \<in> set (route_list ids ds m)" "DD_PipeId (Dests s d) = p"
  shows "\<exists>ds'. running (CFE_SB_RemoveDest (lookup_route ids m) d s) X zs ts ids ds'
     \<and> subscribers ids ds' (CFE_SB_RemoveDest (lookup_route ids m) d s)
         = (subscribers ids ds s)(m := remove1 p (subscribers ids ds s m))"
proof -
  let ?i = "index_of m ids"
  note D = runningD [OF run] and R = route_list_head [OF runningD(3) [OF run] m]
  have i: "?i < length ids" using index_of_less [OF m] .
  have xs: "route_list ids ds m = ds ?i" using m by (simp add: route_list_def)
  have di: "d \<in> set (ds ?i)" using d(1) xs by simp
  note A = remove_dest_run [OF run i di]
  have rl: "route_list ids (ds(?i := remove1 d (ds ?i))) m'
      = (if m' = m then remove1 d (ds ?i) else route_list ids ds m')" for m'
    using m index_of_inj [of m' ids m] by (auto simp: route_list_def)
  have "pipes_of (Dests s) (remove1 d (ds ?i)) = remove1 p (pipes_of (Dests s) (ds ?i))"
    using remove1_pipes [OF routes_okD(4) [OF D(3) R(4)] di] d(2) by simp
  then have "subscribers ids (ds(?i := remove1 d (ds ?i))) (CFE_SB_RemoveDest (lookup_route ids m) d s)
      = (subscribers ids ds s)(m := remove1 p (subscribers ids ds s m))"
    by (simp add: fun_eq_iff subscribers_def rl R(5) xs pipes_of_def A(6))
  then show ?thesis using A(1) R(5) by auto
qed

lemma unsubscribe_run:
  assumes rest: "at_rest K s zs ts ids ds"
  shows "\<exists>s' ds'. CFE_SB_UnsubscribeFull m p scope AppId s
      = Some (if (case find_pipe p s of None \<Rightarrow> False | Some i \<Rightarrow> PD_AppId (PipeTbl s ! i) = AppId)
                 \<and> CFE_SB_IsValidMsgId m \<and> scope \<le> 1 then CFE_SUCCESS else CFE_SB_BAD_ARGUMENT, s')
     \<and> at_rest K s' zs ts ids ds'
     \<and> subscribers ids ds' s' = (if (case find_pipe p s of None \<Rightarrow> False | Some i \<Rightarrow> PD_AppId (PipeTbl s ! i) = AppId)
                 \<and> CFE_SB_IsValidMsgId m \<and> scope \<le> 1
          then (subscribers ids ds s)(m := remove1 p (subscribers ids ds s m)) else subscribers ids ds s)
     \<and> Queues s' = Queues s \<and> PipeTbl s' = PipeTbl s \<and> Bufs s' = Bufs s"
proof -
  let ?may = "(case find_pipe p s of None \<Rightarrow> False | Some i \<Rightarrow> PD_AppId (PipeTbl s ! i) = AppId)
                 \<and> CFE_SB_IsValidMsgId m \<and> scope \<le> 1"
  note D = runningD [OF at_restD(1) [OF rest]]
  define tail where "tail = (\<lambda>(Status, e, s1).
     let s2 = (if e = Some CFE_SB_UNSUB_NO_SUBS_EID
               then snd (CFE_SB_GetPipeName True OS_MAX_API_NAME p s1) else s1);
         s3 = send_pending e s2
     in Some (Status :: CFE_Status, if Status = CFE_SUCCESS \<and> e = None
                   then send_event CFE_SB_SUBSCRIPTION_REMOVED_EID s3 else s3))"
  have tail: "\<exists>s'. tail (st, e, s1) = Some (st, s') \<and> quiet s1 s'" for st e s1
  proof -
    have "quiet s1 (if e = Some CFE_SB_UNSUB_NO_SUBS_EID then snd (CFE_SB_GetPipeName True OS_MAX_API_NAME p s1) else s1)"
      by (simp add: quiet_name)
    then show ?thesis by (auto simp: tail_def Let_def intro: quiet_pending quiet_event)
  qed
  obtain st e s1 ds1 where b: "CFE_SB_UnsubscribeFull m p scope AppId s = tail (st, e, s1)"
    "st = (if ?may then CFE_SUCCESS else CFE_SB_BAD_ARGUMENT)" "at_rest K s1 zs ts ids ds1"
    "subscribers ids ds1 s1 = (if ?may then (subscribers ids ds s)(m := remove1 p (subscribers ids ds s m))
       else subscribers ids ds s)" "Queues s1 = Queues s" "PipeTbl s1 = PipeTbl s" "Bufs s1 = Bufs s"
  proof (cases ?may)
    case False
    then have "\<exists>e. CFE_SB_UnsubscribeFull m p scope AppId s = tail (CFE_SB_BAD_ARGUMENT, e, s)"
      by (cases "find_pipe p s") (auto simp: CFE_SB_UnsubscribeFull_def tail_def not_le Let_def)
    then show thesis using that [of CFE_SB_BAD_ARGUMENT _ s ds] False rest by auto
  next
    case True
    then obtain i where i: "find_pipe p s = Some i" "PD_AppId (PipeTbl s ! i) = AppId" "CFE_SB_IsValidMsgId m" "\<not> 1 < scope"
      by (auto split: option.splits)
    show thesis
    proof (cases "m \<in> set ids")
      case False
      then have "CFE_SB_UnsubscribeFull m p scope AppId s = tail (CFE_SUCCESS, Some CFE_SB_UNSUB_NO_SUBS_EID, s)"
        using i lookup_invalid [OF False] by (simp add: CFE_SB_UnsubscribeFull_def tail_def routes_okD(9) [OF D(3)] Let_def)
      moreover have "subscribers ids ds s m = []" using False by (simp add: subscribers_def route_list_def pipes_of_def)
      ultimately show thesis
        using that [of CFE_SUCCESS "Some CFE_SB_UNSUB_NO_SUBS_EID" s ds] True rest by (simp add: fun_upd_idem)
    next
      case m: True
      note R = route_list_head [OF D(3) m]
      have g: "get_dest_ptr (lookup_route ids m) p s
          = Some (case List.find (\<lambda>x. DD_PipeId (Dests s x) = p) (route_list ids ds m) of None \<Rightarrow> 0 | Some x \<Rightarrow> x)"
        using get_dest_ptr_list [OF D(3) R(4)] m by (simp add: R(5) route_list_def)
      show thesis
      proof (cases "List.find (\<lambda>x. DD_PipeId (Dests s x) = p) (route_list ids ds m)")
        case None
        then have "p \<notin> set (subscribers ids ds s m)" by (auto simp: find_None_iff subscribers_def pipes_of_def)
        moreover have "CFE_SB_UnsubscribeFull m p scope AppId s = tail (CFE_SUCCESS, Some CFE_SB_UNSUB_NO_SUBS_EID, s)"
          using i R(2) g None by (simp add: CFE_SB_UnsubscribeFull_def tail_def routes_okD(9) [OF D(3)] Let_def)
        ultimately show thesis
          using that [of CFE_SUCCESS "Some CFE_SB_UNSUB_NO_SUBS_EID" s ds] True rest by (simp add: remove1_idem)
      next
        case (Some d)
        then have d: "d \<in> set (route_list ids ds m)" "DD_PipeId (Dests s d) = p" by (auto simp: find_Some_iff)
        have "d \<noteq> 0" using d(1) R(1) dseg_nonzero by (auto simp: route_dests_def)
        let ?s = "CFE_SB_RemoveDest (lookup_route ids m) d s"
        have call: "CFE_SB_UnsubscribeFull m p scope AppId s = tail (CFE_SUCCESS, None, ?s)"
          using i R(2) g Some \<open>d \<noteq> 0\<close> by (simp add: CFE_SB_UnsubscribeFull_def tail_def routes_okD(9) [OF D(3)] Let_def)
        obtain ds' where ds': "running ?s (mset zs + K) zs ts ids ds'"
          "subscribers ids ds' ?s = (subscribers ids ds s)(m := remove1 p (subscribers ids ds s m))"
          using remove_subscriber [OF at_restD(1) [OF rest] m d] by blast
        have di: "d \<in> set (ds (index_of m ids))" using d(1) m by (simp add: route_list_def)
        note F = remove_dest_run(2-4) [OF at_restD(1) [OF rest] index_of_less [OF m] di, folded R(5)]
        have "at_rest K ?s zs ts ids ds'" by (rule at_rest_frame [OF rest ds'(1) F(2,1,3)])
        then show thesis using that [OF call _ _ _ F] True ds'(2) by simp
      qed
    qed
  qed
  obtain s' where t: "tail (st, e, s1) = Some (st, s')" "quiet s1 s'" using tail by blast
  show ?thesis
    using b t subscribers_cong [of s' s1 ids ds1] quiet_at_rest [OF t(2)] quietD [OF t(2)]
    by (intro exI [of _ s'] exI [of _ ds1]) simp
qed

end
