(* ===== verification/Sb_Pipes.thy ===== *)
theory Sb_Pipes
  imports Sb_Subscribe
begin

section \<open>Software bus: creating and deleting pipes\<close>

text \<open>
  Pipes come and go: creating one fills a free slot of the pipe table, deleting one removes its
  subscriptions and gives up every reference it holds.  Route commands and pipe options change a
  field only.
\<close>

subsection \<open>Options and route commands\<close>

lemma opts_frame:
  "find_pipe q (upd_pipe i (\<lambda>p. p\<lparr>PD_Opts := v\<rparr>) s) = find_pipe q s"
  by (cases "i < length (PipeTbl s)")
    (auto simp: find_pipe_def CFE_SB_PipeDescIsMatch_def upd_pipe_def nth_list_update list_update_beyond
      Let_def split: option.splits)

lemma at_rest_opts:
  assumes rest: "at_rest K s zs ts ids ds" and i: "i < 64"
  shows "at_rest K (upd_pipe i (\<lambda>p. p\<lparr>PD_Opts := v\<rparr>) s) zs ts ids ds"
proof -
  let ?s = "upd_pipe i (\<lambda>p. p\<lparr>PD_Opts := v\<rparr>) s"
  note D = runningD [OF at_restD(1) [OF rest]]
  have l: "i < length (PipeTbl s)" using D(5) i by simp
  have e: "PD_PipeId (PipeTbl ?s ! j) = PD_PipeId (PipeTbl s ! j)"
    "PD_SysQueueId (PipeTbl ?s ! j) = PD_SysQueueId (PipeTbl s ! j)"
    "PD_LastBuffer (PipeTbl ?s ! j) = PD_LastBuffer (PipeTbl s ! j)" for j
    using l by simp_all
  have u: "used ?s = used s" "queue_of ?s = queue_of s"
    by (simp_all add: fun_eq_iff used_def queue_of_def CFE_SB_PipeDescIsUsed_def e)
  have "refs ?s = refs s"
    by (simp add: refs_def pipe_refs_def CFE_SB_PipeDescIsUsed_def e cong: if_cong)
  moreover have "pipes_ok ?s = pipes_ok s" by (simp add: pipes_ok_def u)
  moreover have "ids_ok ?s = ids_ok s" by (simp add: ids_ok_def u e)
  moreover have "routes_ok ?s ids ds = routes_ok s ids ds" by (rule routes_ok_find) (simp_all add: opts_frame)
  ultimately show ?thesis using rest by (simp add: at_rest_def running_def)
qed

lemma set_opts_cases:
  assumes "CFE_SB_SetPipeOpts ctx p v s = (st, s')"
  shows "(st \<noteq> CFE_SUCCESS \<and> quiet s s'
        \<and> (\<forall>i. find_pipe p s = Some i \<longrightarrow> CallerApp ctx \<noteq> Some (PD_AppId (PipeTbl s ! i))))
     \<or> (\<exists>i. st = CFE_SUCCESS \<and> find_pipe p s = Some i \<and> CallerApp ctx = Some (PD_AppId (PipeTbl s ! i))
        \<and> quiet (upd_pipe i (\<lambda>p. p\<lparr>PD_Opts := v\<rparr>) s) s')"
  using assms
  by (auto simp: CFE_SB_SetPipeOpts_def Let_def quiet_pending quiet_event quiet_hk
      split: option.splits if_splits)

lemma set_opts_run:
  assumes rest: "at_rest K s zs ts ids ds" and call: "CFE_SB_SetPipeOpts ctx p v s = (st, s')"
  shows "at_rest K s' zs ts ids ds"
  using set_opts_cases [OF call]
proof
  assume "st \<noteq> CFE_SUCCESS \<and> quiet s s'
        \<and> (\<forall>i. find_pipe p s = Some i \<longrightarrow> CallerApp ctx \<noteq> Some (PD_AppId (PipeTbl s ! i)))"
  then show ?thesis using rest quiet_at_rest by blast
next
  assume "\<exists>i. st = CFE_SUCCESS \<and> find_pipe p s = Some i \<and> CallerApp ctx = Some (PD_AppId (PipeTbl s ! i))
        \<and> quiet (upd_pipe i (\<lambda>p. p\<lparr>PD_Opts := v\<rparr>) s) s'"
  then show ?thesis using quiet_at_rest at_rest_opts [OF rest] find_pipe_facts(1) by blast
qed

text \<open>Enabling and disabling a route: the destination of the pipe in the list of the message ID.\<close>

lemma at_rest_active:
  assumes rest: "at_rest K s zs ts ids ds"
  shows "at_rest K (upd_dest d (\<lambda>x. x\<lparr>DD_Active := v\<rparr>) s) zs ts ids ds"
proof -
  let ?s = "upd_dest d (\<lambda>x. x\<lparr>DD_Active := v\<rparr>) s"
  note D = runningD [OF at_restD(1) [OF rest]]
  have "routes_ok ?s ids ds"
    by (rule routes_ok_dests [OF D(3)]) (simp_all add: tbl_cong(2) [of ?s s])
  then show ?thesis
    using rest parts_cong(1,2) [of ?s s] tbl_cong(5) [of ?s s] by (simp add: at_rest_def running_def)
qed

lemma find_unique:
  assumes "distinct (pipes_of D xs)" "List.find (\<lambda>x. DD_PipeId (D x) = p) xs = Some d"
  shows "d \<in> set xs" "DD_PipeId (D d) = p" "x \<in> set xs \<Longrightarrow> DD_PipeId (D x) = p \<longleftrightarrow> x = d"
proof -
  show d: "d \<in> set xs" "DD_PipeId (D d) = p" using assms(2) by (auto simp: find_Some_iff)
  then show "x \<in> set xs \<Longrightarrow> DD_PipeId (D x) = p \<longleftrightarrow> x = d"
    using assms(1) by (auto simp: pipes_of_def distinct_map inj_on_def)
qed

text \<open>The command takes effect when the message ID is valid and the pipe subscribes to it.\<close>

lemma set_active_run:
  assumes rest: "at_rest K s zs ts ids ds"
  shows "\<exists>s'. set_route_active v e1 e2 e3 m p s = Some s' \<and> at_rest K s' zs ts ids ds
     \<and> Queues s' = Queues s \<and> PipeTbl s' = PipeTbl s \<and> Bufs s' = Bufs s \<and> Routes s' = Routes s
     \<and> Dests s' = (\<lambda>d. if CFE_SB_IsValidMsgId m \<and> find_pipe p s \<noteq> None \<and> d \<in> set (route_list ids ds m)
             \<and> DD_PipeId (Dests s d) = p
          then (Dests s d)\<lparr>DD_Active := v\<rparr> else Dests s d)"
proof (cases "CFE_SB_IsValidMsgId m \<and> find_pipe p s \<noteq> None")
  case False
  let ?s = "send_event e3 (upd_hk (\<lambda>h. h\<lparr>CommandErrorCounter := CommandErrorCounter h + 1\<rparr>) s)"
  have q: "quiet s ?s" by (simp add: quiet_event)
  have "set_route_active v e1 e2 e3 m p s = Some ?s" using False by (auto simp: set_route_active_def)
  with False rest quiet_at_rest [OF q] show ?thesis
    by (intro exI [of _ ?s]) (auto simp: quietD [OF q] fun_eq_iff)
next
  case ok: True
  note D = runningD [OF at_restD(1) [OF rest]]
  let ?err = "send_event e1 (upd_hk (\<lambda>h. h\<lparr>CommandErrorCounter := CommandErrorCounter h + 1\<rparr>) s)"
  have q: "quiet s ?err" by (simp add: quiet_event)
  have e: "at_rest K ?err zs ts ids ds" using rest quiet_at_rest [OF q] by simp
  show ?thesis
  proof (cases "m \<in> set ids")
    case False
    have "set_route_active v e1 e2 e3 m p s = Some ?err"
      using ok by (auto simp: set_route_active_def routes_okD(9) [OF D(3)] get_dest_ptr_invalid [OF lookup_invalid [OF False]])
    then show ?thesis
      using False e by (intro exI [of _ ?err]) (auto simp: quietD [OF q] route_list_def fun_eq_iff)
  next
    case m: True
    note R = route_list_head [OF D(3) m]
    let ?xs = "route_list ids ds m"
    have xs: "?xs = ds (index_of m ids)" using m by (simp add: route_list_def)
    have g: "get_dest_ptr (lookup_route ids m) p s
        = Some (case List.find (\<lambda>x. DD_PipeId (Dests s x) = p) ?xs of None \<Rightarrow> 0 | Some x \<Rightarrow> x)"
      using get_dest_ptr_list [OF D(3) R(4)] by (simp add: R(5) xs)
    show ?thesis
    proof (cases "List.find (\<lambda>x. DD_PipeId (Dests s x) = p) ?xs")
      case None
      then have "\<forall>x \<in> set ?xs. DD_PipeId (Dests s x) \<noteq> p" by (auto simp: find_None_iff)
      moreover have "set_route_active v e1 e2 e3 m p s = Some ?err"
        using ok g None by (auto simp: set_route_active_def routes_okD(9) [OF D(3)])
      ultimately show ?thesis using e by (intro exI [of _ ?err]) (auto simp: quietD [OF q] fun_eq_iff)
    next
      case (Some d)
      have dp: "distinct (pipes_of (Dests s) ?xs)" using routes_okD(4) [OF D(3) R(4)] by (simp add: xs)
      note F = find_unique [OF dp Some]
      have "d \<noteq> 0" using F(1) R(1) dseg_nonzero by (auto simp: route_dests_def)
      let ?s1 = "upd_dest d (\<lambda>x. x\<lparr>DD_Active := v\<rparr>) s"
      let ?s = "send_event e2 (upd_hk (\<lambda>h. h\<lparr>CommandCounter := CommandCounter h + 1\<rparr>) ?s1)"
      have q: "quiet ?s1 ?s" by (simp add: quiet_event)
      have "set_route_active v e1 e2 e3 m p s = Some ?s"
        using ok g Some \<open>d \<noteq> 0\<close> by (auto simp: set_route_active_def routes_okD(9) [OF D(3)])
      moreover have "at_rest K ?s zs ts ids ds" using at_rest_active [OF rest] quiet_at_rest [OF q] by simp
      ultimately show ?thesis
        using ok F by (intro exI [of _ ?s]) (auto simp: quietD [OF q] fun_eq_iff)
    qed
  qed
qed

subsection \<open>Slots of the pipe table\<close>

text \<open>A slot that is free, or is filled with a new pipe whose queue is empty.\<close>

definition same_store :: "sb \<Rightarrow> sb \<Rightarrow> bool" where
  "same_store s s' \<longleftrightarrow> PoolHdl s' = PoolHdl s \<and> Pools s' = Pools s \<and> Links s' = Links s \<and> Bufs s' = Bufs s
     \<and> Dests s' = Dests s \<and> Routes s' = Routes s"

lemma routes_ok_grow:
  assumes "routes_ok s ids ds" "Dests s' = Dests s" "Routes s' = Routes s"
    "\<And>q. find_pipe q s \<noteq> None \<Longrightarrow> find_pipe q s' \<noteq> None"
  shows "routes_ok s' ids ds"
  using assms(1,4) unfolding routes_ok_def assms(2,3) by blast

lemma at_rest_slot:
  assumes rest: "at_rest K s zs ts ids ds" and i: "i < 64" "\<not> used s i"
    and t: "PipeTbl s' = (PipeTbl s)[i := e]" and st: "same_store s s'" and lb: "PD_LastBuffer e = 0"
    and q: "\<And>j. used s j \<Longrightarrow> map_of (Queues s') (queue_of s j) = map_of (Queues s) (queue_of s j)"
    and e: "CFE_SB_PipeDescIsUsed e \<Longrightarrow> (\<exists>x. map_of (Queues s') (PD_SysQueueId e) = Some x \<and> queue_fits x \<and> q_items x = [])
        \<and> (\<forall>j. used s j \<longrightarrow> queue_of s j \<noteq> PD_SysQueueId e) \<and> CFE_SB_LocatePipeDescByID (PD_PipeId e) = Some i"
  shows "at_rest K s' zs ts ids ds" "find_pipe p s = Some j \<Longrightarrow> find_pipe p s' = Some j"
    "CFE_SB_PipeDescIsUsed e \<Longrightarrow> find_pipe (PD_PipeId e) s' = Some i"
proof -
  note D = runningD [OF at_restD(1) [OF rest]]
  have nth: "PipeTbl s' ! j = (if j = i then e else PipeTbl s ! j)" for j
    using D(5) i(1) by (simp add: t nth_list_update_if)
  have u: "used s' j = (if j = i then CFE_SB_PipeDescIsUsed e else used s j)"
    "queue_of s' j = (if j = i then PD_SysQueueId e else queue_of s j)" for j
    using i by (auto simp: used_def queue_of_def nth)
  have "refs s' = refs s"
    unfolding refs_def
  proof (rule sum.cong)
    fix j assume "j \<in> {..<64::nat}"
    then show "pipe_refs (PipeTbl s' ! j) (Queues s') = pipe_refs (PipeTbl s ! j) (Queues s)"
      using i e lb q [of j] by (auto simp: nth pipe_refs_def used_def queue_of_def items_def)
  qed simp
  moreover have "pipes_ok s'"
    using D(1) e q i by (auto simp: pipes_ok_def u t)
  moreover have "ids_ok s'" using D(2) e by (auto simp: ids_ok_def u nth)
  moreover have fp: "find_pipe p s' = Some j" if "find_pipe p s = Some j" for p j
  proof -
    have "j \<noteq> i" using find_pipe_facts(5) [OF that] i(2) by auto
    then show ?thesis using find_pipe_facts(2,3) [OF that]
      by (simp add: find_pipe_def CFE_SB_PipeDescIsMatch_def nth)
  qed
  moreover have "routes_ok s' ids ds"
  proof -
    have "Dests s' = Dests s" "Routes s' = Routes s" using st by (simp_all add: same_store_def)
    then show ?thesis by (rule routes_ok_grow [OF D(3)]) (use fp in auto)
  qed
  moreover have "core s' R zs ts Ds = core s R zs ts Ds" for R Ds
    by (rule core_cong) (use st in \<open>simp_all add: same_store_def buf_acct_def\<close>)
  moreover have "Bufs s' = Bufs s" using st by (simp add: same_store_def)
  ultimately show "at_rest K s' zs ts ids ds" using rest by (simp add: at_rest_def running_def)
  show "find_pipe p s = Some j \<Longrightarrow> find_pipe p s' = Some j" by (rule fp)
  show "find_pipe (PD_PipeId e) s' = Some i" if "CFE_SB_PipeDescIsUsed e"
    using e [OF that] by (simp add: find_pipe_def CFE_SB_PipeDescIsMatch_def nth)
qed

subsection \<open>Creating a pipe\<close>

text \<open>The ID allocator of OSAL gives an ID that is not in use.\<close>

definition env_ok :: "os_env \<Rightarrow> sb \<Rightarrow> bool" where
  "env_ok env s \<longleftrightarrow> (\<forall>q. free_id env = Some q \<longrightarrow> map_of (Queues s) q = None)"

lemma create_queue:
  assumes "OS_QueueCreate env True nm depth sizeof_ptr Q = (r, Q')" "depth \<le> 50"
  shows "r = Inl e \<Longrightarrow> Q' = Q"
    "r = Inr q \<Longrightarrow> \<exists>x. Q' = AList.update q x Q \<and> free_id env = Some q \<and> queue_fits x \<and> q_items x = []"
  using assms
  by (auto simp: OS_QueueCreate_def OS_QueueCreate_Impl_def queue_fits_def Let_def split: option.splits if_splits)

lemma find_next_free:
  "CFE_ResourceId_FindNext st CFE_PLATFORM_SB_MAX_PIPES (Some (CFE_SB_CheckPipeDescSlotUsed s)) = CFE_RESOURCEID_UNDEFINED
   \<or> \<not> CFE_SB_CheckPipeDescSlotUsed s (CFE_ResourceId_FindNext st CFE_PLATFORM_SB_MAX_PIPES (Some (CFE_SB_CheckPipeDescSlotUsed s)))"
  using find_next_loop_spec [of CFE_PLATFORM_SB_MAX_PIPES "CFE_ResourceId_GetSerial st"
      "unat CFE_PLATFORM_SB_MAX_PIPES" "CFE_SB_CheckPipeDescSlotUsed s" "CFE_ResourceId_GetBase st"]
    unat_GetSerial_le [of st]
  by (auto simp: CFE_ResourceId_FindNext_def CFE_PLATFORM_SB_MAX_PIPES_def)

lemma locate_undefined [simp]: "CFE_SB_LocatePipeDescByID CFE_RESOURCEID_UNDEFINED = None"
  by (simp add: CFE_SB_LocatePipeDescByID_def CFE_SB_PipeId_ToIndex_def CFE_ResourceId_ToIndex_def
      CFE_SB_PIPEID_BASE_def CFE_RESOURCEID_MAX_def CFE_RESOURCEID_UNDEFINED_def Let_def)

lemma locate_less: "CFE_SB_LocatePipeDescByID p = Some i \<Longrightarrow> i < 64"
  by (auto simp: CFE_SB_LocatePipeDescByID_def CFE_SB_PipeId_ToIndex_def CFE_PLATFORM_SB_MAX_PIPES_def
      dest: ToIndex_bound split: sum.splits)

definition blank_pipe :: PipeD where
  "blank_pipe = \<lparr>PD_PipeId = 0, PD_AppId = 0, PD_SysQueueId = 0, PD_Opts = 0, PD_SendErrors = 0,
     PD_MaxQueueDepth = 0, PD_CurrentQueueDepth = 0, PD_PeakQueueDepth = 0, PD_LastBuffer = 0\<rparr>"

lemma blank_unused [simp]: "\<not> CFE_SB_PipeDescIsUsed blank_pipe"
  by (simp add: CFE_SB_PipeDescIsUsed_def blank_pipe_def CFE_ResourceId_IsDefined_def CFE_RESOURCEID_UNDEFINED_def)

text \<open>The branches of the call.\<close>

lemma create_cases:
  assumes l: "length (PipeTbl s) = 64"
    and pid: "pid = CFE_ResourceId_FindNext (LastPipeId s) CFE_PLATFORM_SB_MAX_PIPES (Some (CFE_SB_CheckPipeDescSlotUsed s))"
    and call: "CFE_SB_CreatePipe env ctx ptr depth nm s = ((st, out), s')"
  shows "(st = (if \<not> ptr \<or> depth = 0 \<or> OS_QUEUE_MAX_DEPTH < depth \<or> nm = Some [] then CFE_SB_BAD_ARGUMENT
               else CFE_SB_MAX_PIPES_MET)
          \<and> out = None \<and> quiet s s'
          \<and> (\<not> ptr \<or> depth = 0 \<or> OS_QUEUE_MAX_DEPTH < depth \<or> nm = Some [] \<or> CFE_SB_LocatePipeDescByID pid = None))
    \<or> (\<exists>i e. st = CFE_SB_PIPE_CR_ERR \<and> out = None \<and> depth \<le> OS_QUEUE_MAX_DEPTH
          \<and> CFE_SB_LocatePipeDescByID pid = Some i
          \<and> OS_QueueCreate env True nm (unat depth) sizeof_ptr (Queues s) = (Inl e, Queues s')
          \<and> PipeTbl s' = (PipeTbl s)[i := blank_pipe] \<and> same_store s s')
    \<or> (\<exists>i q. st = CFE_SUCCESS \<and> out = Some pid \<and> depth \<le> OS_QUEUE_MAX_DEPTH
          \<and> CFE_SB_LocatePipeDescByID pid = Some i
          \<and> OS_QueueCreate env True nm (unat depth) sizeof_ptr (Queues s) = (Inr q, Queues s')
          \<and> PipeTbl s' = (PipeTbl s)[i := blank_pipe\<lparr>PD_PipeId := pid, PD_AppId := caller_app ctx,
                PD_SysQueueId := q, PD_MaxQueueDepth := depth\<rparr>] \<and> same_store s s')"
proof (cases "\<not> ptr \<or> depth = 0 \<or> OS_QUEUE_MAX_DEPTH < depth \<or> nm = Some []")
  case True
  then have "st = CFE_SB_BAD_ARGUMENT" "out = None" "quiet s s'"
    using call by (auto simp: CFE_SB_CreatePipe_def Let_def quiet_pending quiet_hk)
  with True show ?thesis by (intro disjI1) auto
next
  case args: False
  show ?thesis
  proof (cases "CFE_SB_LocatePipeDescByID pid")
    case None
    then have "st = CFE_SB_MAX_PIPES_MET" "out = None" "quiet s s'"
      using call args by (auto simp: CFE_SB_CreatePipe_def Let_def quiet_pending quiet_hk pid [symmetric])
    with None args show ?thesis by simp
  next
    case (Some i)
    have i: "i < length (PipeTbl s)" using locate_less [OF Some] l by simp
    have d: "depth \<le> OS_QUEUE_MAX_DEPTH" using args by (simp add: not_less)
    obtain r Q where q: "OS_QueueCreate env True nm (unat depth) sizeof_ptr (Queues s) = (r, Q)" by fastforce
    show ?thesis
    proof (cases r)
      case (Inl e)
      have "st = CFE_SB_PIPE_CR_ERR \<and> out = None \<and> Q = Queues s'
          \<and> PipeTbl s' = (PipeTbl s)[i := blank_pipe] \<and> same_store s s'"
        using call args Some q Inl i
        by (auto simp: CFE_SB_CreatePipe_def Let_def pid [symmetric] same_store_def send_pending_def
            CFE_SB_PipeDescSetFree_def CFE_SB_PipeDescSetUsed_def upd_pipe_def blank_pipe_def CFE_SB_INVALID_PIPE_def
            CFE_RESOURCEID_UNDEFINED_def upd_hk_def send_event_def)
      with d Some q Inl show ?thesis by simp
    next
      case (Inr k)
      have "st = CFE_SUCCESS \<and> out = Some pid \<and> Q = Queues s'
          \<and> PipeTbl s' = (PipeTbl s)[i := blank_pipe\<lparr>PD_PipeId := pid, PD_AppId := caller_app ctx,
                PD_SysQueueId := k, PD_MaxQueueDepth := depth\<rparr>] \<and> same_store s s'"
        using call args Some q Inr i
        by (auto simp: CFE_SB_CreatePipe_def Let_def pid [symmetric] same_store_def send_pending_def
            CFE_SB_PipeDescSetUsed_def upd_pipe_def blank_pipe_def upd_stat_def send_event_def)
      with d Some q Inr show ?thesis by simp
    qed
  qed
qed

lemma create_run:
  assumes rest: "at_rest K s zs ts ids ds" and env: "env_ok env s"
    and call: "CFE_SB_CreatePipe env ctx ptr depth nm s = ((st, out), s')"
  shows "at_rest K s' zs ts ids ds" "find_pipe p s = Some j \<Longrightarrow> find_pipe p s' = Some j"
    "Dests s' = Dests s" "Bufs s' = Bufs s"
    "used s j \<Longrightarrow> items (Queues s') (queue_of s j) = items (Queues s) (queue_of s j)"
    "if st = CFE_SUCCESS
     then \<exists>pid i. out = Some pid \<and> \<not> used s i \<and> find_pipe pid s' = Some i \<and> items (Queues s') (queue_of s' i) = []
        \<and> PD_AppId (PipeTbl s' ! i) = caller_app ctx
     else out = None"
proof -
  note D = runningD [OF at_restD(1) [OF rest]]
  define pid where "pid = CFE_ResourceId_FindNext (LastPipeId s) CFE_PLATFORM_SB_MAX_PIPES (Some (CFE_SB_CheckPipeDescSlotUsed s))"
  have free: "i < 64 \<and> \<not> used s i" if "CFE_SB_LocatePipeDescByID pid = Some i" for i
  proof -
    have "pid \<noteq> CFE_RESOURCEID_UNDEFINED" using that by auto
    then have "\<not> CFE_SB_CheckPipeDescSlotUsed s pid" using find_next_free [of "LastPipeId s" s] by (simp add: pid_def)
    then show ?thesis using that locate_less [OF that] by (simp add: CFE_SB_CheckPipeDescSlotUsed_def used_def)
  qed
  have d50: "unat depth \<le> 50" if "depth \<le> OS_QUEUE_MAX_DEPTH"
    using that by (simp add: OS_QUEUE_MAX_DEPTH_def word_le_nat_alt)
  have "at_rest K s' zs ts ids ds \<and> (\<forall>p j. find_pipe p s = Some j \<longrightarrow> find_pipe p s' = Some j)
      \<and> Dests s' = Dests s \<and> Bufs s' = Bufs s
      \<and> (\<forall>j. used s j \<longrightarrow> items (Queues s') (queue_of s j) = items (Queues s) (queue_of s j))
      \<and> (if st = CFE_SUCCESS
         then \<exists>pid i. out = Some pid \<and> \<not> used s i \<and> find_pipe pid s' = Some i \<and> items (Queues s') (queue_of s' i) = []
        \<and> PD_AppId (PipeTbl s' ! i) = caller_app ctx
         else out = None)"
    using create_cases [OF D(5) pid_def call]
  proof (elim disjE)
    assume a: "st = (if \<not> ptr \<or> depth = 0 \<or> OS_QUEUE_MAX_DEPTH < depth \<or> nm = Some [] then CFE_SB_BAD_ARGUMENT
               else CFE_SB_MAX_PIPES_MET) \<and> out = None \<and> quiet s s'
          \<and> (\<not> ptr \<or> depth = 0 \<or> OS_QUEUE_MAX_DEPTH < depth \<or> nm = Some [] \<or> CFE_SB_LocatePipeDescByID pid = None)"
    then have q: "quiet s s'" and st: "st \<noteq> CFE_SUCCESS" "out = None" by (auto split: if_splits)
    show ?thesis using rest quiet_at_rest [OF q] quietD [OF q] tbl_cong(2) [OF quietD(1) [OF q]] st by simp
  next
    assume "\<exists>i e. st = CFE_SB_PIPE_CR_ERR \<and> out = None \<and> depth \<le> OS_QUEUE_MAX_DEPTH
          \<and> CFE_SB_LocatePipeDescByID pid = Some i
          \<and> OS_QueueCreate env True nm (unat depth) sizeof_ptr (Queues s) = (Inl e, Queues s')
          \<and> PipeTbl s' = (PipeTbl s)[i := blank_pipe] \<and> same_store s s'"
    then obtain i e where h: "st = CFE_SB_PIPE_CR_ERR" "out = None" "depth \<le> OS_QUEUE_MAX_DEPTH"
      "CFE_SB_LocatePipeDescByID pid = Some i"
      "OS_QueueCreate env True nm (unat depth) sizeof_ptr (Queues s) = (Inl e, Queues s')"
      "PipeTbl s' = (PipeTbl s)[i := blank_pipe]" "same_store s s'" by blast
    have q: "Queues s' = Queues s" using create_queue(1) [OF h(5) d50 [OF h(3)]] by simp
    have lb: "PD_LastBuffer blank_pipe = 0" by (simp add: blank_pipe_def)
    note S = at_rest_slot [OF rest _ _ h(6,7) lb]
    show ?thesis using S(1,2) free [OF h(4)] h q by (auto simp: same_store_def)
  next
    assume "\<exists>i q. st = CFE_SUCCESS \<and> out = Some pid \<and> depth \<le> OS_QUEUE_MAX_DEPTH
          \<and> CFE_SB_LocatePipeDescByID pid = Some i
          \<and> OS_QueueCreate env True nm (unat depth) sizeof_ptr (Queues s) = (Inr q, Queues s')
          \<and> PipeTbl s' = (PipeTbl s)[i := blank_pipe\<lparr>PD_PipeId := pid, PD_AppId := caller_app ctx,
                PD_SysQueueId := q, PD_MaxQueueDepth := depth\<rparr>] \<and> same_store s s'"
    then obtain i q where h: "st = CFE_SUCCESS" "out = Some pid" "depth \<le> OS_QUEUE_MAX_DEPTH"
      "CFE_SB_LocatePipeDescByID pid = Some i"
      "OS_QueueCreate env True nm (unat depth) sizeof_ptr (Queues s) = (Inr q, Queues s')"
      "PipeTbl s' = (PipeTbl s)[i := blank_pipe\<lparr>PD_PipeId := pid, PD_AppId := caller_app ctx,
                PD_SysQueueId := q, PD_MaxQueueDepth := depth\<rparr>]" "same_store s s'" by blast
    let ?e = "blank_pipe\<lparr>PD_PipeId := pid, PD_AppId := caller_app ctx, PD_SysQueueId := q, PD_MaxQueueDepth := depth\<rparr>"
    obtain x where x: "Queues s' = AList.update q x (Queues s)" "free_id env = Some q" "queue_fits x" "q_items x = []"
      using create_queue(2) [OF h(5) d50 [OF h(3)]] by blast
    have fresh: "map_of (Queues s) q = None" using env x(2) by (simp add: env_ok_def)
    have nq: "queue_of s j \<noteq> q" if "used s j" for j
      using that D(1) fresh by (auto simp: pipes_ok_def)
    have fr: "i < 64" "\<not> used s i" using free [OF h(4)] by auto
    have lb: "PD_LastBuffer ?e = 0" by (simp add: blank_pipe_def)
    have qs: "map_of (Queues s') (queue_of s j) = map_of (Queues s) (queue_of s j)" if "used s j" for j
      using nq [OF that] by (simp add: x(1))
    have e: "(\<exists>x. map_of (Queues s') (PD_SysQueueId ?e) = Some x \<and> queue_fits x \<and> q_items x = [])
        \<and> (\<forall>j. used s j \<longrightarrow> queue_of s j \<noteq> PD_SysQueueId ?e) \<and> CFE_SB_LocatePipeDescByID (PD_PipeId ?e) = Some i"
      using x nq h(4) by simp
    have pd: "pid \<noteq> CFE_RESOURCEID_UNDEFINED" using h(4) by auto
    note S = at_rest_slot [OF rest fr h(6,7) lb qs e]
    have ie: "PipeTbl s' ! i = ?e" using D(5) fr(1) by (simp add: h(6))
    have "find_pipe pid s' = Some i" using S(3) pd by (simp add: CFE_SB_PipeDescIsUsed_def CFE_ResourceId_IsDefined_def)
    moreover have "items (Queues s') (queue_of s' i) = []" using x by (simp add: queue_of_def ie items_def)
    ultimately show ?thesis using S(1,2) h(1,2,7) fr(2) qs ie by (auto simp: same_store_def items_def)
  qed
  then show "at_rest K s' zs ts ids ds" "find_pipe p s = Some j \<Longrightarrow> find_pipe p s' = Some j"
    "Dests s' = Dests s" "Bufs s' = Bufs s"
    "used s j \<Longrightarrow> items (Queues s') (queue_of s j) = items (Queues s) (queue_of s j)"
    "if st = CFE_SUCCESS
     then \<exists>pid i. out = Some pid \<and> \<not> used s i \<and> find_pipe pid s' = Some i \<and> items (Queues s') (queue_of s' i) = []
        \<and> PD_AppId (PipeTbl s' ! i) = caller_app ctx
     else out = None" by blast+
qed

end
