(* ===== verification/Sb_Delete.thy ===== *)
theory Sb_Delete
  imports Sb_Pipes
begin

section \<open>Software bus: deleting pipes and cleaning up after an application\<close>

text \<open>
  Deleting a pipe removes its subscriptions from every route, gives up its last buffer and every
  buffer in its queue, and frees its slot.  Cleaning up after an application deletes its pipes and
  releases its zero-copy buffers.
\<close>

subsection \<open>Removing a pipe from every route\<close>

lemma remove_from_route:
  assumes run: "running s X zs ts ids ds" and i: "i < length ids"
  shows "\<exists>s' ds'. CFE_SB_RemovePipeFromRoute p (route_of i) (Some s) = Some s' \<and> running s' X zs ts ids ds'
     \<and> ds' = ds(i := filter (\<lambda>d. DD_PipeId (Dests s d) \<noteq> p) (ds i))
     \<and> PipeTbl s' = PipeTbl s \<and> Queues s' = Queues s \<and> Bufs s' = Bufs s
     \<and> RouteIdxTop (Routes s') = RouteIdxTop (Routes s) \<and> (\<forall>d. DD_PipeId (Dests s' d) = DD_PipeId (Dests s d))"
proof -
  note D = runningD [OF run]
  have i256: "i < 256" using i routes_okD(10) [OF D(3)] by simp
  let ?xs = "ds i"
  have g: "get_dest_ptr (route_of i) p s
      = Some (case List.find (\<lambda>x. DD_PipeId (Dests s x) = p) ?xs of None \<Rightarrow> 0 | Some x \<Rightarrow> x)"
    by (rule get_dest_ptr_list [OF D(3) i256])
  have rd: "route_dests (Dests s) (Routes s) (route_of i) ?xs" by (rule routes_okD(3) [OF D(3) i256])
  show ?thesis
  proof (cases "List.find (\<lambda>x. DD_PipeId (Dests s x) = p) ?xs")
    case None
    then have "filter (\<lambda>d. DD_PipeId (Dests s d) \<noteq> p) ?xs = ?xs" by (simp add: find_None_iff filter_id_conv)
    moreover have "CFE_SB_RemovePipeFromRoute p (route_of i) (Some s) = Some s"
      using g None by (simp add: CFE_SB_RemovePipeFromRoute_def)
    ultimately show ?thesis using run by simp
  next
    case (Some d)
    note F = find_unique [OF routes_okD(4) [OF D(3) i256] Some]
    note A = remove_dest_run [OF run i F(1)]
    have "d \<noteq> 0" using F(1) rd dseg_nonzero by (auto simp: route_dests_def)
    then have "CFE_SB_RemovePipeFromRoute p (route_of i) (Some s) = Some (CFE_SB_RemoveDest (route_of i) d s)"
      using g Some by (simp add: CFE_SB_RemovePipeFromRoute_def)
    moreover have "remove1 d ?xs = filter (\<lambda>d. DD_PipeId (Dests s d) \<noteq> p) ?xs"
    proof -
      have "filter (\<lambda>y. d \<noteq> y) ?xs = filter (\<lambda>d. DD_PipeId (Dests s d) \<noteq> p) ?xs"
        by (rule filter_cong) (use F(3) in auto)
      then show ?thesis using rd by (simp add: route_dests_def distinct_remove1_removeAll removeAll_filter_not_eq)
    qed
    ultimately show ?thesis using A by simp
  qed
qed

lemma remove_from_all:
  assumes "running s X zs ts ids ds" "distinct is" "set is \<subseteq> {..<length ids}"
  shows "\<exists>s' ds'. fold (\<lambda>i. CFE_SB_RemovePipeFromRoute p (route_of i)) is (Some s) = Some s'
     \<and> running s' X zs ts ids ds'
     \<and> (\<forall>i. ds' i = (if i \<in> set is then filter (\<lambda>d. DD_PipeId (Dests s d) \<noteq> p) (ds i) else ds i))
     \<and> PipeTbl s' = PipeTbl s \<and> Queues s' = Queues s \<and> Bufs s' = Bufs s
     \<and> (\<forall>d. DD_PipeId (Dests s' d) = DD_PipeId (Dests s d))"
  using assms
proof (induction "is" arbitrary: s ds)
  case Nil
  then show ?case by auto
next
  case (Cons i "is")
  have i: "i < length ids" using Cons.prems(3) by simp
  obtain s1 where r: "CFE_SB_RemovePipeFromRoute p (route_of i) (Some s) = Some s1"
    "running s1 X zs ts ids (ds(i := filter (\<lambda>d. DD_PipeId (Dests s d) \<noteq> p) (ds i)))"
    "PipeTbl s1 = PipeTbl s" "Queues s1 = Queues s" "Bufs s1 = Bufs s"
    "\<forall>d. DD_PipeId (Dests s1 d) = DD_PipeId (Dests s d)"
    using remove_from_route [OF Cons.prems(1) i, of p] by blast
  have "distinct is" "set is \<subseteq> {..<length ids}" "i \<notin> set is" using Cons.prems by auto
  with Cons.IH [OF r(2)] obtain s' ds' where h:
    "fold (\<lambda>i. CFE_SB_RemovePipeFromRoute p (route_of i)) is (Some s1) = Some s'"
    "running s' X zs ts ids ds'"
    "\<forall>j. ds' j = (if j \<in> set is then filter (\<lambda>d. DD_PipeId (Dests s1 d) \<noteq> p)
        ((ds(i := filter (\<lambda>d. DD_PipeId (Dests s d) \<noteq> p) (ds i))) j)
        else (ds(i := filter (\<lambda>d. DD_PipeId (Dests s d) \<noteq> p) (ds i))) j)"
    "PipeTbl s' = PipeTbl s1" "Queues s' = Queues s1" "Bufs s' = Bufs s1"
    "\<forall>d. DD_PipeId (Dests s' d) = DD_PipeId (Dests s1 d)" by blast
  have "filter (\<lambda>d. DD_PipeId (Dests s1 d) \<noteq> p) xs = filter (\<lambda>d. DD_PipeId (Dests s d) \<noteq> p) xs" for xs
    using r(6) by (intro filter_cong) simp_all
  then have dj: "\<forall>j. ds' j = (if j \<in> set (i # is) then filter (\<lambda>d. DD_PipeId (Dests s d) \<noteq> p) (ds j) else ds j)"
    using h(3) \<open>i \<notin> set is\<close> by auto
  show ?case
    by (rule exI [of _ s'], rule exI [of _ ds'], intro conjI)
      (use r(1) h(1) in simp, rule h(2), rule dj, use r(3-6) h(4-7) in simp_all)
qed

lemma pipes_of_filter:
  "pipes_of D (filter (\<lambda>d. DD_PipeId (D d) \<noteq> p) xs) = removeAll p (pipes_of D xs)"
  by (induction xs) (auto simp: pipes_of_def)

lemma unsubscribe_all:
  assumes run: "running s X zs ts ids ds"
  shows "\<exists>s' ds'. fst (CFE_SBR_ForEachRouteId (CFE_SB_RemovePipeFromRoute p) None (RouteIdxTop (Routes s)) (Some s)) = Some s'
     \<and> running s' X zs ts ids ds' \<and> (\<forall>m. subscribers ids ds' s' m = removeAll p (subscribers ids ds s m))
     \<and> (\<forall>i<256. \<forall>d \<in> set (ds' i). DD_PipeId (Dests s' d) \<noteq> p)
     \<and> PipeTbl s' = PipeTbl s \<and> Queues s' = Queues s \<and> Bufs s' = Bufs s"
proof -
  note D = runningD [OF run]
  have top: "unat (RouteIdxTop (Routes s)) = length ids"
    using routes_okD(1) [OF D(3)] by (simp add: sbr_ok_def)
  have fe: "fst (CFE_SBR_ForEachRouteId (CFE_SB_RemovePipeFromRoute p) None (RouteIdxTop (Routes s)) (Some s))
      = fold (\<lambda>i. CFE_SB_RemovePipeFromRoute p (route_of i)) [0..<length ids] (Some s)"
    by (simp add: CFE_SBR_ForEachRouteId_def top route_of_def)
  obtain s' ds' where h: "fold (\<lambda>i. CFE_SB_RemovePipeFromRoute p (route_of i)) [0..<length ids] (Some s) = Some s'"
    "running s' X zs ts ids ds'"
    "\<forall>i. ds' i = (if i \<in> set [0..<length ids] then filter (\<lambda>d. DD_PipeId (Dests s d) \<noteq> p) (ds i) else ds i)"
    "PipeTbl s' = PipeTbl s" "Queues s' = Queues s" "Bufs s' = Bufs s"
    "\<forall>d. DD_PipeId (Dests s' d) = DD_PipeId (Dests s d)"
    using remove_from_all [OF run distinct_upt, of 0 "length ids" p] by (metis atLeast0LessThan order_refl set_upt)
  have ds': "ds' i = filter (\<lambda>d. DD_PipeId (Dests s d) \<noteq> p) (ds i)" for i
    using h(3) routes_okD(8) [OF D(3), of i] by (cases "i < length ids") auto
  have "subscribers ids ds' s' m = removeAll p (subscribers ids ds s m)" for m
  proof -
    have "subscribers ids ds' s' m = pipes_of (Dests s) (route_list ids ds' m)"
      using h(7) by (simp add: subscribers_def pipes_of_def)
    also have "\<dots> = removeAll p (subscribers ids ds s m)"
      by (simp add: subscribers_def route_list_def ds' pipes_of_filter pipes_of_def [of _ "[]"])
    finally show ?thesis .
  qed
  then show ?thesis using h fe ds' by (intro exI [of _ s'] exI [of _ ds']) auto
qed

subsection \<open>Emptying the queue\<close>

text \<open>The reference that is handled, if there is one, is given up.\<close>

lemma drop_run:
  assumes "core s ((if b \<noteq> 0 then {#b#} else {#}) + R) zs ts Ds" "b \<notin> set zs"
  shows "\<exists>ts'. core (if b \<noteq> 0 then CFE_SB_DecrBufUseCnt b s else s) R zs ts' Ds \<and> set ts' \<subseteq> set ts"
proof (cases "b = 0")
  case True
  then show ?thesis using assms by auto
next
  case False
  then have "core s (add_mset b R) zs ts Ds" using assms(1) by simp
  from core_decr [OF this] have "core (CFE_SB_DecrBufUseCnt b s) R zs (if b \<in># R then ts else remove1 b ts) Ds"
    unfolding remove1_idem [OF assms(2)] if_cancel .
  then show ?thesis using False set_remove1_subset [of b ts] by (auto split: if_splits)
qed

text \<open>
  A queue that works is emptied, and the references of its entries are given up. A queue that cannot be read keeps its
  entries, and their references stay counted.
\<close>

definition left_over :: "os_queue \<Rightarrow> size_t multiset" where
  "left_over x = (if q_fault x then mset (q_items x) else {#})"

lemma drain_fault:
  assumes "core s ((if b \<noteq> 0 then {#b#} else {#}) + mset (items (Queues s) q) + R) zs ts Ds"
    and x: "map_of (Queues s) q = Some x" "q_fault x" "max_size x = sizeof_ptr" and b: "b \<notin> set zs"
  shows "\<exists>s' ts'. drain_queue q b s = Some s' \<and> core s' (left_over x + R) zs ts' Ds \<and> set ts' \<subseteq> set ts
     \<and> (\<forall>j. j \<noteq> q \<longrightarrow> map_of (Queues s') j = map_of (Queues s) j)
     \<and> (\<exists>y. map_of (Queues s') q = Some y \<and> q_stuck y = q_stuck x)
     \<and> PipeTbl s' = PipeTbl s \<and> Dests s' = Dests s \<and> Routes s' = Routes s
     \<and> (\<forall>y. payload (Bufs s' y) = payload (Bufs s y))"
proof -
  define s1 where "s1 = (if b \<noteq> 0 then CFE_SB_DecrBufUseCnt b s else s)"
  have q1: "Queues s1 = Queues s" by (simp add: s1_def)
  have "core s ((if b \<noteq> 0 then {#b#} else {#}) + (left_over x + R)) zs ts Ds"
    using assms(1) x by (simp add: left_over_def items_def add.assoc)
  from drop_run [OF this b] obtain ts' where c: "core s1 (left_over x + R) zs ts' Ds" "set ts' \<subseteq> set ts"
    unfolding s1_def by blast
  have "OS_QueueGet q sizeof_ptr OS_CHECK (Queues s1) = Some (OS_ERROR, None, AList.update q x (Queues s))"
    using x by (simp add: OS_QueueGet_def OS_QueueGet_Impl_def q1 OS_CHECK_SIZE_def sizeof_ptr_def)
  then have "drain_queue q b s = Some (s1\<lparr>Queues := AList.update q x (Queues s)\<rparr>)"
    by (subst drain_queue.simps) (simp add: s1_def [symmetric] Let_def)
  then show ?thesis using c x(1) by (intro exI [of _ "s1\<lparr>Queues := AList.update q x (Queues s)\<rparr>"] exI [of _ ts']) (simp add: s1_def)
qed

lemma drain_works:
  assumes "core s ((if b \<noteq> 0 then {#b#} else {#}) + mset (items (Queues s) q) + R) zs ts Ds"
    and "map_of (Queues s) q = Some x" "\<not> q_fault x" "max_size x = sizeof_ptr"
    and "b \<notin> set zs" "set (items (Queues s) q) \<inter> set zs = {}"
  shows "\<exists>s' ts'. drain_queue q b s = Some s' \<and> core s' R zs ts' Ds \<and> set ts' \<subseteq> set ts
     \<and> (\<forall>j. j \<noteq> q \<longrightarrow> map_of (Queues s') j = map_of (Queues s) j)
     \<and> (\<exists>y. map_of (Queues s') q = Some y \<and> q_stuck y = q_stuck x)
     \<and> PipeTbl s' = PipeTbl s \<and> Dests s' = Dests s \<and> Routes s' = Routes s
     \<and> (\<forall>y. payload (Bufs s' y) = payload (Bufs s y))"
  using assms
proof (induction "items (Queues s) q" arbitrary: s b ts x)
  case Nil
  define s1 where "s1 = (if b \<noteq> 0 then CFE_SB_DecrBufUseCnt b s else s)"
  have "core s ((if b \<noteq> 0 then {#b#} else {#}) + R) zs ts Ds" using Nil by simp
  from drop_run [OF this Nil(6)] obtain ts' where c: "core s1 R zs ts' Ds" "set ts' \<subseteq> set ts" unfolding s1_def by blast
  have e: "q_items x = []" using Nil by (simp add: items_def)
  have q1: "Queues s1 = Queues s" by (simp add: s1_def)
  have "OS_QueueGet q sizeof_ptr OS_CHECK (Queues s1) = Some (OS_QUEUE_EMPTY, None, AList.update q x (Queues s))"
    using Nil e by (simp add: OS_QueueGet_def OS_QueueGet_Impl_def q1 OS_CHECK_SIZE_def sizeof_ptr_def OS_PEND_def OS_CHECK_def)
  then have "drain_queue q b s = Some (s1\<lparr>Queues := AList.update q x (Queues s)\<rparr>)"
    by (subst drain_queue.simps) (simp add: s1_def [symmetric] Let_def)
  then show ?case using c Nil(3) by (auto simp: s1_def)
next
  case (Cons d qs)
  define s1 where "s1 = (if b \<noteq> 0 then CFE_SB_DecrBufUseCnt b s else s)"
  let ?R = "mset (items (Queues s) q) + R"
  have "core s ((if b \<noteq> 0 then {#b#} else {#}) + ?R) zs ts Ds" using Cons.prems(1) by (simp add: add.assoc)
  from drop_run [OF this Cons.prems(5)] obtain ts1 where c: "core s1 ?R zs ts1 Ds" "set ts1 \<subseteq> set ts" unfolding s1_def by blast
  have xs: "q_items x = d # qs" using Cons(2) Cons.prems(2) by (simp add: items_def)
  have q1: "Queues s1 = Queues s" by (simp add: s1_def)
  let ?x = "x\<lparr>q_items := qs\<rparr>" and ?Q = "AList.update q (x\<lparr>q_items := qs\<rparr>) (Queues s)"
  have g: "OS_QueueGet q sizeof_ptr OS_CHECK (Queues s1) = Some (OS_SUCCESS, Some d, ?Q)"
    using Cons.prems xs by (simp add: OS_QueueGet_def OS_QueueGet_Impl_def q1 OS_CHECK_SIZE_def sizeof_ptr_def)
  define s2 where "s2 = s1\<lparr>Queues := ?Q\<rparr>"
  have i2: "items (Queues s2) q = qs" by (simp add: s2_def items_def)
  have R: "?R = {#d#} + mset qs + R" using Cons(2) by (simp flip: Cons(2))
  have d: "d \<noteq> 0" "d \<notin> set zs" "set qs \<inter> set zs = {}"
    using coreD(1,6) [OF c(1)] R Cons.prems(6) by (auto simp flip: Cons(2))
  have step: "drain_queue q b s = drain_queue q d s2"
    by (subst drain_queue.simps) (simp add: s1_def [symmetric] Let_def g s2_def)
  have "core s2 ((if d \<noteq> 0 then {#d#} else {#}) + mset (items (Queues s2) q) + R) zs ts1 Ds"
    using c(1) d(1) unfolding R i2 by (simp add: s2_def)
  from Cons.hyps(1) [OF i2 [symmetric] this, of ?x] obtain s' ts' where r:
    "drain_queue q d s2 = Some s'" "core s' R zs ts' Ds" "set ts' \<subseteq> set ts1"
    "\<forall>j. j \<noteq> q \<longrightarrow> map_of (Queues s') j = map_of (Queues s2) j"
    "\<exists>y. map_of (Queues s') q = Some y \<and> q_stuck y = q_stuck x"
    "PipeTbl s' = PipeTbl s2" "Dests s' = Dests s2" "Routes s' = Routes s2"
    "\<forall>y. payload (Bufs s' y) = payload (Bufs s2 y)"
    using Cons.prems(3,4) d i2 by (auto simp: s2_def)
  have "set ts' \<subseteq> set ts" using r(3) c(2) by blast
  with r step show ?case by (intro exI [of _ s'] exI [of _ ts']) (simp add: s2_def s1_def)
qed

lemma drain_run:
  assumes "core s ((if b \<noteq> 0 then {#b#} else {#}) + mset (items (Queues s) q) + R) zs ts Ds"
    and "map_of (Queues s) q = Some x" "max_size x = sizeof_ptr"
    and "b \<notin> set zs" "set (items (Queues s) q) \<inter> set zs = {}"
  shows "\<exists>s' ts'. drain_queue q b s = Some s' \<and> core s' (left_over x + R) zs ts' Ds \<and> set ts' \<subseteq> set ts
     \<and> (\<forall>j. j \<noteq> q \<longrightarrow> map_of (Queues s') j = map_of (Queues s) j)
     \<and> (\<exists>y. map_of (Queues s') q = Some y \<and> q_stuck y = q_stuck x)
     \<and> PipeTbl s' = PipeTbl s \<and> Dests s' = Dests s \<and> Routes s' = Routes s
     \<and> (\<forall>y. payload (Bufs s' y) = payload (Bufs s y))"
proof (cases "q_fault x")
  case True
  show ?thesis by (rule drain_fault [OF assms(1,2) True assms(3,4)])
next
  case False
  then have "left_over x + R = R" by (simp add: left_over_def)
  with drain_works [OF assms(1,2) False assms(3-5)] show ?thesis by simp
qed

subsection \<open>Deleting a pipe\<close>

text \<open>The queue of a pipe can be read: its kernel queue does not fail.\<close>

definition readable :: "sb \<Rightarrow> nat \<Rightarrow> bool" where
  "readable s i \<longleftrightarrow> (\<forall>x. map_of (Queues s) (queue_of s i) = Some x \<longrightarrow> \<not> q_fault x)"

text \<open>Deleting its kernel queue fails.\<close>

definition stuck :: "sb \<Rightarrow> nat \<Rightarrow> bool" where
  "stuck s i \<longleftrightarrow> (\<exists>x. map_of (Queues s) (queue_of s i) = Some x \<and> q_stuck x)"

text \<open>The entries that are lost when a pipe is deleted: all of its queue, if that cannot be read.\<close>

definition unread :: "sb \<Rightarrow> nat \<Rightarrow> size_t multiset" where
  "unread s i = (case map_of (Queues s) (queue_of s i) of None \<Rightarrow> {#} | Some x \<Rightarrow> left_over x)"

lemma unread_items: "unread s i \<subseteq># mset (items (Queues s) (queue_of s i))"
  by (simp add: unread_def left_over_def items_def split: option.split)

lemma find_slot_free:
  assumes t: "PipeTbl s' = (PipeTbl s)[i := (PipeTbl s ! i)\<lparr>PD_PipeId := CFE_SB_INVALID_PIPE\<rparr>]"
    and l: "length (PipeTbl s) = 64" and p: "find_pipe p s = Some i"
  shows "q \<noteq> p \<Longrightarrow> find_pipe q s' = find_pipe q s" "find_pipe p s' = None"
proof -
  note P = find_pipe_facts [OF p]
  have nth: "PipeTbl s' ! j = (if j = i then (PipeTbl s ! i)\<lparr>PD_PipeId := CFE_SB_INVALID_PIPE\<rparr> else PipeTbl s ! j)" for j
    using l P(1) by (simp add: t nth_list_update_if)
  show "find_pipe p s' = None"
    using P(3,6) by (simp add: find_pipe_def CFE_SB_PipeDescIsMatch_def nth CFE_SB_INVALID_PIPE_def)
  assume q: "q \<noteq> p"
  show "find_pipe q s' = find_pipe q s"
  proof (cases "CFE_SB_LocatePipeDescByID q = Some i")
    case True
    then have "q \<noteq> CFE_SB_INVALID_PIPE" by (auto simp: CFE_SB_INVALID_PIPE_def)
    then show ?thesis
      using True q P(2) by (simp add: find_pipe_def CFE_SB_PipeDescIsMatch_def nth)
  next
    case False
    then show ?thesis
      by (auto simp: find_pipe_def CFE_SB_PipeDescIsMatch_def nth Let_def split: option.split)
  qed
qed

lemma delete_run:
  assumes rest: "at_rest K s zs ts ids ds" and p: "find_pipe p s = Some i" and a: "PD_AppId (PipeTbl s ! i) = AppId"
  shows "\<exists>s' ts' ds'. CFE_SB_DeletePipeFull p AppId s = Some (CFE_SUCCESS, s') \<and> at_rest (K + unread s i) s' zs ts' ids ds'
     \<and> set ts' \<subseteq> set ts \<and> (\<forall>m. subscribers ids ds' s' m = removeAll p (subscribers ids ds s m))
     \<and> PipeTbl s' = (PipeTbl s)[i := (PipeTbl s ! i)\<lparr>PD_PipeId := CFE_SB_INVALID_PIPE\<rparr>]
     \<and> (\<forall>j. j \<noteq> queue_of s i \<longrightarrow> map_of (Queues s') j = map_of (Queues s) j)
     \<and> (map_of (Queues s') (queue_of s i) = None \<longleftrightarrow> \<not> stuck s i)
     \<and> (\<forall>y. payload (Bufs s' y) = payload (Bufs s y))"
proof -
  note R = at_restD [OF rest]
  note P = find_pipe_facts [OF p]
  obtain s1 ds' where u: "fst (CFE_SBR_ForEachRouteId (CFE_SB_RemovePipeFromRoute p) None (RouteIdxTop (Routes s)) (Some s)) = Some s1"
    "running s1 (mset zs + K) zs ts ids ds'" "\<forall>m. subscribers ids ds' s1 m = removeAll p (subscribers ids ds s m)"
    "\<forall>i<256. \<forall>d \<in> set (ds' i). DD_PipeId (Dests s1 d) \<noteq> p"
    "PipeTbl s1 = PipeTbl s" "Queues s1 = Queues s" "Bufs s1 = Bufs s"
    using unsubscribe_all [OF R(1), of p] by blast
  note D1 = runningD [OF u(2)]
  let ?q = "queue_of s i" and ?b = "PD_LastBuffer (PipeTbl s ! i)"
  have q1: "queue_of s1 = queue_of s" "used s1 = used s" by (rule tbl_cong [OF u(5)])+
  obtain x where x: "map_of (Queues s1) ?q = Some x" "queue_fits x"
    using D1(1) P(5) unfolding pipes_ok_def q1 by blast
  have un: "unread s i = left_over x" and st: "stuck s i = q_stuck x" using x(1) u(6) by (simp_all add: unread_def stuck_def)
  have ms: "max_size x = sizeof_ptr" using x(2) by (simp add: queue_fits_def)
  have refs1: "refs s1 = refs s" using parts_cong(1) [OF u(5,6)] .
  let ?rest = "\<Sum>j\<in>{..<64} - {i}. pipe_refs (PipeTbl s ! j) (Queues s)"
  have own: "refs s = (if ?b \<noteq> 0 then {#?b#} else {#}) + mset (items (Queues s) ?q) + ?rest"
    using refs_split [OF P(1), of s] P(4) by (simp add: pipe_refs_def queue_of_def)
  let ?s1 = "CFE_SB_PipeDescSetUsed i CFE_RESOURCEID_RESERVED s1"
  have c1: "core ?s1 ((if ?b \<noteq> 0 then {#?b#} else {#}) + mset (items (Queues ?s1) ?q) + (?rest + (mset zs + K))) zs ts (dest_set ds')"
    using D1(4) unfolding refs1 own by (simp add: CFE_SB_PipeDescSetUsed_def u(6) add.assoc)
  have nz: "?b \<notin> set zs" "set (items (Queues ?s1) ?q) \<inter> set zs = {}"
  proof -
    have "set (items (Queues s) ?q) \<subseteq> set ts" using R(2) own by auto
    then show "set (items (Queues ?s1) ?q) \<inter> set zs = {}" using R(7) by (auto simp: CFE_SB_PipeDescSetUsed_def u(6))
    show "?b \<notin> set zs" using R(2,7,8) own by (cases "?b = 0") auto
  qed
  have x': "map_of (Queues ?s1) ?q = Some x" using x(1) by (simp add: CFE_SB_PipeDescSetUsed_def)
  obtain s2 ts' where d: "drain_queue ?q ?b ?s1 = Some s2" "core s2 (left_over x + (?rest + (mset zs + K))) zs ts' (dest_set ds')"
    "set ts' \<subseteq> set ts" "\<forall>j. j \<noteq> ?q \<longrightarrow> map_of (Queues s2) j = map_of (Queues ?s1) j" "\<exists>y. map_of (Queues s2) ?q = Some y \<and> q_stuck y = q_stuck x"
    "PipeTbl s2 = PipeTbl ?s1" "Dests s2 = Dests ?s1" "Routes s2 = Routes ?s1"
    "\<forall>y. payload (Bufs s2 y) = payload (Bufs ?s1 y)"
    using drain_run [OF c1 x' ms nz] by blast
  define s3 where "s3 = s2\<lparr>Queues := snd (OS_QueueDelete ?q (Queues s2))\<rparr>"
  define s5 where "s5 = send_event CFE_SB_PIPE_DELETED_EID
     (upd_stat (\<lambda>t. t\<lparr>PipesInUse := PipesInUse t - 1\<rparr>) (CFE_SB_PipeDescSetFree i s3))"
  have call: "CFE_SB_DeletePipeFull p AppId s = Some (CFE_SUCCESS, s5)"
    using p a u(1) d(1) by (simp add: CFE_SB_DeletePipeFull_def s3_def s5_def queue_of_def u(5))
  have l: "length (PipeTbl s) = 64" "i < length (PipeTbl s)" using runningD(5) [OF R(1)] P(1) by simp_all
  have tbl: "PipeTbl s5 = (PipeTbl s)[i := (PipeTbl s ! i)\<lparr>PD_PipeId := CFE_SB_INVALID_PIPE\<rparr>]"
    using l by (simp add: s5_def s3_def d(6) u(5) CFE_SB_PipeDescSetFree_def CFE_SB_PipeDescSetUsed_def upd_pipe_def
        upd_stat_def send_event_def)
  have nth: "PipeTbl s5 ! j = (if j = i then (PipeTbl s ! i)\<lparr>PD_PipeId := CFE_SB_INVALID_PIPE\<rparr> else PipeTbl s ! j)" for j
    using l by (simp add: tbl nth_list_update_if)
  have qd: "j \<noteq> ?q \<Longrightarrow> map_of (Queues s5) j = map_of (Queues s) j"
    "map_of (Queues s5) ?q = None \<longleftrightarrow> \<not> stuck s i" for j
    using d(4,5) by (auto simp: s5_def s3_def CFE_SB_PipeDescSetFree_def OS_QueueDelete_def OS_ObjectIdFinalizeDelete_def
        OS_QueueDelete_Impl_def u(6) st CFE_SB_PipeDescSetUsed_def split: option.split)
  have us: "used s5 j \<longleftrightarrow> used s j \<and> j \<noteq> i" "j \<noteq> i \<Longrightarrow> queue_of s5 j = queue_of s j" for j
    by (auto simp: used_def queue_of_def nth CFE_SB_PipeDescIsUsed_def CFE_SB_INVALID_PIPE_def CFE_ResourceId_IsDefined_def)
  have pok: "pipes_ok s" using runningD(1) [OF R(1)] .
  then have qne: "queue_of s j \<noteq> ?q" if "used s j" "j \<noteq> i" for j
    using that P(5) unfolding pipes_ok_def by blast
  have core5: "core s5 (?rest + (mset zs + (K + unread s i))) zs ts' (dest_set ds')"
    using d(2) by (simp add: un ac_simps) (simp add: s5_def s3_def CFE_SB_PipeDescSetFree_def)
  have refs5: "refs s5 = ?rest"
  proof -
    have "pipe_refs (PipeTbl s5 ! i) (Queues s5) = {#}"
      by (simp add: nth pipe_refs_def CFE_SB_PipeDescIsUsed_def CFE_SB_INVALID_PIPE_def CFE_ResourceId_IsDefined_def)
    moreover have "(\<Sum>j\<in>{..<64} - {i}. pipe_refs (PipeTbl s5 ! j) (Queues s5)) = ?rest"
    proof (rule sum.cong)
      fix j assume "j \<in> {..<64} - {i}"
      then show "pipe_refs (PipeTbl s5 ! j) (Queues s5) = pipe_refs (PipeTbl s ! j) (Queues s)"
        using qne [of j] qd(1) by (auto simp: nth pipe_refs_def used_def queue_of_def items_def)
    qed simp
    ultimately show ?thesis using refs_split [OF P(1), of s5] by simp
  qed
  have pok5: "pipes_ok s5"
    using pok qne unfolding pipes_ok_def by (simp add: tbl us qd(1))
  have iok5: "ids_ok s5" using runningD(2) [OF R(1)] by (simp add: ids_ok_def us nth)
  have f5: "Dests s5 = Dests s1" "Routes s5 = Routes s1"
    by (simp_all add: s5_def s3_def d(7,8) CFE_SB_PipeDescSetFree_def CFE_SB_PipeDescSetUsed_def)
  note F = find_slot_free [OF tbl l(1) p]
  have rok5: "routes_ok s5 ids ds'"
  proof -
    have "find_pipe (DD_PipeId (Dests s1 d)) s5 \<noteq> None" if "j < 256" "d \<in> set (ds' j)" for j d
      using routes_okD(6) [OF D1(3) that] u(4) that F(1) tbl_cong(2) [OF u(5)] by auto
    with D1(3) show ?thesis unfolding routes_ok_def f5 by blast
  qed
  have run5: "running s5 (mset zs + (K + unread s i)) zs ts' ids ds'"
    using pok5 iok5 rok5 core5 by (simp add: running_def refs5)
  have "unread s i + ?rest \<subseteq># mset (items (Queues s) ?q) + ?rest" using unread_items [of s i] by simp
  also have "\<dots> \<subseteq># refs s" unfolding own by simp
  finally have le: "refs s5 + (K + unread s i) \<subseteq># refs s + K" by (simp add: refs5 ac_simps)
  have bnd: "count (refs s5 + (K + unread s i)) y \<le> 3264" for y
    using mset_subset_eq_count [OF le] R(9) order_trans by blast
  have "set_mset (refs s5 + (K + unread s i)) = set ts'"
    by (rule rest_refs [OF run5]) (use set_mset_mono [OF le] R(2,7) in auto)
  moreover have pay: "payload (Bufs s5 y) = payload (Bufs s y)" for y
    using d(9) by (simp add: s5_def s3_def CFE_SB_PipeDescSetFree_def CFE_SB_PipeDescSetUsed_def u(7))
  moreover have app: "BF_AppId (Bufs s5 y) = BF_AppId (Bufs s y)" for y by (rule payloadD(2) [OF pay])
  ultimately have "at_rest (K + unread s i) s5 zs ts' ids ds'"
    using run5 R(3,4) d(3) bnd unfolding at_rest_def app by blast
  moreover have "subscribers ids ds' s5 m = removeAll p (subscribers ids ds s m)" for m
    using u(3) by (simp add: subscribers_def f5)
  ultimately show ?thesis
    by (intro exI [of _ s5] exI [of _ ts'] exI [of _ ds'] conjI allI impI) (use call d(3) tbl qd pay in \<open>simp_all del: not_None_eq\<close>)
qed

lemma delete_refuses:
  assumes "\<And>i. find_pipe p s = Some i \<Longrightarrow> PD_AppId (PipeTbl s ! i) \<noteq> AppId"
  shows "\<exists>s'. CFE_SB_DeletePipeFull p AppId s = Some (CFE_SB_BAD_ARGUMENT, s') \<and> quiet s s'"
  using assms by (cases "find_pipe p s") (auto simp: CFE_SB_DeletePipeFull_def Let_def quiet_event)

subsection \<open>Releasing the buffers of an application\<close>

lemma ring_next:
  assumes "ring L h (xs @ x # ys)"
  shows "Next (L x) = hd (ys @ [h])"
  using assms by (cases ys) (auto simp: ring_def seg_append)

text \<open>Releasing a buffer on the zero-copy list, whatever its owner.\<close>

lemma owner_release:
  assumes rest: "at_rest K s zs ts ids ds" and b: "b \<in> set zs"
  shows "at_rest K (CFE_SB_DecrBufUseCnt b s) (remove1 b zs) ts ids ds"
proof -
  note D = at_restD [OF rest]
  let ?s = "CFE_SB_DecrBufUseCnt b s"
  have "mset zs + K = add_mset b (mset (remove1 b zs) + K)" using b by simp
  with D(1) have run: "running s (add_mset b (mset (remove1 b zs) + K)) zs ts ids ds" by (simp only:)
  have nb: "b \<notin># refs s + (mset (remove1 b zs) + K)" "b \<notin> set ts"
    using D(2,5,7) b by (auto simp: set_remove1_eq simp del: mset_remove1)
  have run': "running ?s (mset (remove1 b zs) + K) (remove1 b zs) ts ids ds"
    using running_decr [OF run] by (simp only: nb if_False remove1_idem [OF nb(2)])
  have refs': "refs ?s = refs s" by (rule refs_cong [OF same_pipes_tbl runningD(5) [OF D(1)]]) simp_all
  have app: "BF_AppId (Bufs ?s x) = BF_AppId (Bufs s x)" for x using payloadD(2) [OF cnt_payload(2)] .
  show ?thesis
    using run' D(2-5,9) unfolding at_rest_def refs' app by (auto simp: set_remove1_eq)
qed

definition released :: "CFE_ES_AppId \<Rightarrow> sb \<Rightarrow> size_t list \<Rightarrow> size_t list" where
  "released A s zs = filter (\<lambda>b. BF_AppId (Bufs s b) \<noteq> A) zs"

lemma release_loop_run:
  assumes "at_rest K s (xs @ ys) ts ids ds"
  shows "\<exists>s'. release_loop A (hd (map BufLink ys @ [ZeroCopyList])) s = Some s'
     \<and> at_rest K s' (xs @ released A s ys) ts ids ds \<and> PipeTbl s' = PipeTbl s \<and> Queues s' = Queues s
     \<and> Dests s' = Dests s \<and> Routes s' = Routes s \<and> (\<forall>x. payload (Bufs s' x) = payload (Bufs s x))"
  using assms
proof (induction ys arbitrary: xs s)
  case Nil
  then show ?case
    by (subst release_loop.simps) (simp add: CFE_SB_TrackingListIsEnd_def released_def)
next
  case (Cons y ys)
  note D = at_restD [OF Cons.prems]
  have "ring (Links s) ZeroCopyList (map BufLink xs @ BufLink y # map BufLink ys)"
    using coreD(4) [OF runningD(4) [OF D(1)]] by simp
  then have nx: "CFE_SB_TrackingListGetNext (BufLink y) (Links s) = hd (map BufLink ys @ [ZeroCopyList])"
    unfolding CFE_SB_TrackingListGetNext_def by (rule ring_next)
  define s1 where "s1 = (if BF_AppId (Bufs s y) = A then CFE_SB_DecrBufUseCnt y s else s)"
  have step: "release_loop A (hd (map BufLink (y # ys) @ [ZeroCopyList])) s
      = release_loop A (hd (map BufLink ys @ [ZeroCopyList])) s1"
    by (subst release_loop.simps) (simp add: CFE_SB_TrackingListIsEnd_def nx s1_def Let_def)
  have pay: "payload (Bufs s1 x) = payload (Bufs s x)" for x by (simp add: s1_def)
  have rel: "released A s1 zs = released A s zs" for zs
    using payloadD(2) [OF pay] by (simp add: released_def)
  define xs1 where "xs1 = (if BF_AppId (Bufs s y) = A then xs else xs @ [y])"
  have "at_rest K s1 (xs1 @ ys) ts ids ds"
  proof (cases "BF_AppId (Bufs s y) = A")
    case True
    have "y \<notin> set xs" using D(5) by simp
    then have "remove1 y (xs @ y # ys) = xs @ ys" by (simp add: remove1_append)
    then show ?thesis using owner_release [OF Cons.prems, of y] True by (simp add: s1_def xs1_def)
  next
    case False
    then show ?thesis using Cons.prems by (simp add: s1_def xs1_def)
  qed
  from Cons.IH [OF this] obtain s' where r:
    "release_loop A (hd (map BufLink ys @ [ZeroCopyList])) s1 = Some s'"
    "at_rest K s' (xs1 @ released A s1 ys) ts ids ds" "PipeTbl s' = PipeTbl s1" "Queues s' = Queues s1"
    "Dests s' = Dests s1" "Routes s' = Routes s1" "\<forall>x. payload (Bufs s' x) = payload (Bufs s1 x)" by blast
  have "xs1 @ released A s1 ys = xs @ released A s (y # ys)"
    by (simp add: xs1_def rel) (simp add: released_def)
  with r step pay show ?case by (intro exI [of _ s']) (simp add: s1_def)
qed

lemma zero_copy_release_run:
  assumes rest: "at_rest K s zs ts ids ds"
  shows "\<exists>s'. CFE_SB_ZeroCopyReleaseAppId A s = Some s' \<and> at_rest K s' (released A s zs) ts ids ds
     \<and> PipeTbl s' = PipeTbl s \<and> Queues s' = Queues s \<and> Dests s' = Dests s \<and> Routes s' = Routes s
     \<and> (\<forall>x. payload (Bufs s' x) = payload (Bufs s x))"
proof (cases "A = CFE_ES_APPID_UNDEFINED")
  case True
  then have "released A s zs = zs" using at_restD(3) [OF rest] by (simp add: released_def filter_id_conv)
  with True rest show ?thesis
    by (simp add: CFE_SB_ZeroCopyReleaseAppId_def CFE_ResourceId_IsDefined_def CFE_ES_APPID_UNDEFINED_def)
next
  case False
  have "ring (Links s) ZeroCopyList (map BufLink zs)"
    by (rule coreD(4) [OF runningD(4) [OF at_restD(1) [OF rest]]])
  then have "CFE_SB_TrackingListGetNext ZeroCopyList (Links s) = hd (map BufLink zs @ [ZeroCopyList])"
    unfolding CFE_SB_TrackingListGetNext_def by (rule ring_first)
  with False release_loop_run [of K s "[]" zs ts ids ds A] rest show ?thesis
    by (simp add: CFE_SB_ZeroCopyReleaseAppId_def CFE_ResourceId_IsDefined_def CFE_ES_APPID_UNDEFINED_def)
qed

subsection \<open>Cleaning up after an application\<close>

text \<open>What is lost when the pipes of a list are deleted.\<close>

definition unread_of :: "sb \<Rightarrow> CFE_SB_PipeId list \<Rightarrow> size_t multiset" where
  "unread_of s ps = (\<Sum>p\<leftarrow>ps. case find_pipe p s of None \<Rightarrow> {#} | Some i \<Rightarrow> unread s i)"

lemma delete_pipes_run:
  assumes "at_rest K s zs ts ids ds"
    and "distinct ps" "\<And>p. p \<in> set ps \<Longrightarrow> \<exists>i. find_pipe p s = Some i \<and> PD_AppId (PipeTbl s ! i) = A"
  shows "\<exists>s' ts' ds'. delete_pipes A ps s = Some s' \<and> at_rest (K + unread_of s ps) s' zs ts' ids ds' \<and> set ts' \<subseteq> set ts
     \<and> (\<forall>m. subscribers ids ds' s' m = filter (\<lambda>q. q \<notin> set ps) (subscribers ids ds s m))
     \<and> (\<forall>q. find_pipe q s' = (if q \<in> set ps then None else find_pipe q s))
     \<and> (\<forall>i. used s' i \<longrightarrow> PipeTbl s' ! i = PipeTbl s ! i \<and> used s i
           \<and> map_of (Queues s') (queue_of s i) = map_of (Queues s) (queue_of s i))
     \<and> (\<forall>y. payload (Bufs s' y) = payload (Bufs s y))"
  using assms
proof (induction ps arbitrary: K s ts ds)
  case Nil
  then show ?case by (intro exI [of _ s] exI [of _ ts] exI [of _ ds]) (simp add: unread_of_def)
next
  case (Cons p ps)
  obtain i where i: "find_pipe p s = Some i" "PD_AppId (PipeTbl s ! i) = A" using Cons.prems(3) by auto
  note P = find_pipe_facts [OF i(1)]
  have l: "length (PipeTbl s) = 64" using runningD(5) [OF at_restD(1) [OF Cons.prems(1)]] .
  obtain s1 ts1 ds1 where d: "CFE_SB_DeletePipeFull p A s = Some (CFE_SUCCESS, s1)" "at_rest (K + unread s i) s1 zs ts1 ids ds1"
    "set ts1 \<subseteq> set ts" "\<forall>m. subscribers ids ds1 s1 m = removeAll p (subscribers ids ds s m)"
    "PipeTbl s1 = (PipeTbl s)[i := (PipeTbl s ! i)\<lparr>PD_PipeId := CFE_SB_INVALID_PIPE\<rparr>]"
    "\<forall>j. j \<noteq> queue_of s i \<longrightarrow> map_of (Queues s1) j = map_of (Queues s) j"
    "\<forall>y. payload (Bufs s1 y) = payload (Bufs s y)"
    using delete_run [OF Cons.prems(1) i] by blast
  note F = find_slot_free [OF d(5) l i(1)]
  have nth: "PipeTbl s1 ! j = (if j = i then (PipeTbl s ! i)\<lparr>PD_PipeId := CFE_SB_INVALID_PIPE\<rparr> else PipeTbl s ! j)" for j
    using l P(1) by (simp add: d(5) nth_list_update_if)
  have us: "used s1 j \<longleftrightarrow> used s j \<and> j \<noteq> i" for j
    by (auto simp: used_def nth CFE_SB_PipeDescIsUsed_def CFE_SB_INVALID_PIPE_def CFE_ResourceId_IsDefined_def)
  have qo: "queue_of s1 j = queue_of s j" if "j \<noteq> i" for j using that by (simp add: queue_of_def nth)
  have qne: "queue_of s j \<noteq> queue_of s i" if "used s j" "j \<noteq> i" for j
    using that P(5) runningD(1) [OF at_restD(1) [OF Cons.prems(1)]] unfolding pipes_ok_def by blast
  have keep: "map_of (Queues s1) (queue_of s j) = map_of (Queues s) (queue_of s j)" if "used s1 j" for j
    using that qne d(6) us by auto
  have un1: "unread s1 j = unread s j" if "used s1 j" for j
    using keep [OF that] us qo that by (auto simp: unread_def)
  have own1: "\<exists>j. find_pipe q s1 = Some j \<and> PD_AppId (PipeTbl s1 ! j) = A" if "q \<in> set ps" for q
  proof -
    have "q \<noteq> p" using that Cons.prems(2) by auto
    with F(1) Cons.prems(3) [of q] that obtain j where "find_pipe q s1 = Some j" "PD_AppId (PipeTbl s ! j) = A" by auto
    then show ?thesis by (auto simp: nth)
  qed
  obtain s' ts' ds' where r: "delete_pipes A ps s1 = Some s'" "at_rest (K + unread s i + unread_of s1 ps) s' zs ts' ids ds'" "set ts' \<subseteq> set ts1"
    "\<forall>m. subscribers ids ds' s' m = filter (\<lambda>q. q \<notin> set ps) (subscribers ids ds1 s1 m)"
    "\<forall>q. find_pipe q s' = (if q \<in> set ps then None else find_pipe q s1)"
    "\<forall>i. used s' i \<longrightarrow> PipeTbl s' ! i = PipeTbl s1 ! i \<and> used s1 i
           \<and> map_of (Queues s') (queue_of s1 i) = map_of (Queues s1) (queue_of s1 i)"
    "\<forall>y. payload (Bufs s' y) = payload (Bufs s1 y)"
    using Cons.IH [OF d(2) _ own1] Cons.prems(2) by auto
  have "unread_of s1 ps = unread_of s ps"
  proof -
    have "(case find_pipe q s1 of None \<Rightarrow> {#} | Some i \<Rightarrow> unread s1 i) = (case find_pipe q s of None \<Rightarrow> {#} | Some i \<Rightarrow> unread s i)"
      if "q \<in> set ps" for q
    proof -
      from own1 [OF that] obtain j where j: "find_pipe q s1 = Some j" by blast
      moreover have "q \<noteq> p" using that Cons.prems(2) by auto
      ultimately have "find_pipe q s = Some j" using F(1) [of q] by simp
      then show ?thesis using un1 [OF find_pipe_facts(5) [OF j]] j by simp
    qed
    then show ?thesis unfolding unread_of_def by (metis (mono_tags, lifting) map_cong)
  qed
  then have lost: "K + unread s i + unread_of s1 ps = K + unread_of s (p # ps)"
    by (simp add: unread_of_def i(1) add.assoc)
  have pay: "\<forall>y. payload (Bufs s' y) = payload (Bufs s y)" using r(7) d(7) by simp
  have call: "delete_pipes A (p # ps) s = Some s'"
    using d(1) r(1) by (simp add: CFE_SB_DeletePipeWithAppId_def)
  have subs: "subscribers ids ds' s' m = filter (\<lambda>q. q \<notin> set (p # ps)) (subscribers ids ds s m)" for m
    using r(4) d(4) by (simp add: removeAll_filter_not_eq) (metis (mono_tags, lifting) filter_cong)
  have fp: "find_pipe q s' = (if q \<in> set (p # ps) then None else find_pipe q s)" for q
    using r(5) F by auto
  have us': "PipeTbl s' ! j = PipeTbl s ! j \<and> used s j
      \<and> map_of (Queues s') (queue_of s j) = map_of (Queues s) (queue_of s j)" if "used s' j" for j
  proof -
    from r(6) that have j: "PipeTbl s' ! j = PipeTbl s1 ! j" "used s1 j"
      "map_of (Queues s') (queue_of s1 j) = map_of (Queues s1) (queue_of s1 j)" by auto
    then have "j \<noteq> i" using us by blast
    then show ?thesis using j us keep [OF j(2)] qo [of j] by (simp add: nth)
  qed
  have "set ts' \<subseteq> set ts" using r(3) d(3) by blast
  with call r(2) [unfolded lost] subs fp us' pay show ?case by blast
qed

text \<open>The IDs of the pipes of an application, each once.\<close>

definition pipes_owned :: "CFE_ES_AppId \<Rightarrow> sb \<Rightarrow> CFE_SB_PipeId list" where
  "pipes_owned A s = map PD_PipeId (filter (\<lambda>p. CFE_SB_PipeDescIsUsed p \<and> PD_AppId p = A) (PipeTbl s))"

lemma distinct_map_filterI:
  assumes "\<And>i j. i < length xs \<Longrightarrow> j < length xs \<Longrightarrow> P (xs ! i) \<Longrightarrow> P (xs ! j) \<Longrightarrow> f (xs ! i) = f (xs ! j) \<Longrightarrow> i = j"
  shows "distinct (map f (filter P xs))"
  using assms
proof (induction xs)
  case Nil
  then show ?case by simp
next
  case (Cons x xs)
  have "i = j" if "i < length xs" "j < length xs" "P (xs ! i)" "P (xs ! j)" "f (xs ! i) = f (xs ! j)" for i j
    using Cons.prems [of "Suc i" "Suc j"] that by simp
  then have "distinct (map f (filter P xs))" by (rule Cons.IH)
  moreover have "f x \<noteq> f y" if "y \<in> set xs" "P x" "P y" for y
  proof -
    from that(1) obtain j where "j < length xs" "y = xs ! j" by (auto simp: in_set_conv_nth)
    then show ?thesis using Cons.prems [of 0 "Suc j"] that(2,3) by auto
  qed
  ultimately show ?case by auto
qed

lemma pipes_owned:
  assumes l: "length (PipeTbl s) = 64" and ok: "ids_ok s"
  shows "distinct (pipes_owned A s)"
    "p \<in> set (pipes_owned A s) \<longleftrightarrow> (\<exists>i. find_pipe p s = Some i \<and> PD_AppId (PipeTbl s ! i) = A)"
proof -
  have loc: "CFE_SB_LocatePipeDescByID (PD_PipeId (PipeTbl s ! i)) = Some i" if "i < 64" "CFE_SB_PipeDescIsUsed (PipeTbl s ! i)" for i
    using ok that by (simp add: ids_ok_def used_def)
  show "distinct (pipes_owned A s)"
    unfolding pipes_owned_def
  proof (rule distinct_map_filterI)
    fix i j assume "i < length (PipeTbl s)" "j < length (PipeTbl s)"
      "CFE_SB_PipeDescIsUsed (PipeTbl s ! i) \<and> PD_AppId (PipeTbl s ! i) = A"
      "CFE_SB_PipeDescIsUsed (PipeTbl s ! j) \<and> PD_AppId (PipeTbl s ! j) = A"
      "PD_PipeId (PipeTbl s ! i) = PD_PipeId (PipeTbl s ! j)"
    moreover from this have "CFE_SB_LocatePipeDescByID (PD_PipeId (PipeTbl s ! i)) = Some i"
      "CFE_SB_LocatePipeDescByID (PD_PipeId (PipeTbl s ! j)) = Some j" using loc l by (metis)+
    ultimately show "i = j" by (metis option.inject)
  qed
  show "p \<in> set (pipes_owned A s) \<longleftrightarrow> (\<exists>i. find_pipe p s = Some i \<and> PD_AppId (PipeTbl s ! i) = A)"
  proof
    assume "p \<in> set (pipes_owned A s)"
    then obtain i where "i < 64" "CFE_SB_PipeDescIsUsed (PipeTbl s ! i)" "PD_AppId (PipeTbl s ! i) = A"
      "p = PD_PipeId (PipeTbl s ! i)" using l by (auto simp: pipes_owned_def in_set_conv_nth)
    with loc [of i] show "\<exists>i. find_pipe p s = Some i \<and> PD_AppId (PipeTbl s ! i) = A"
      by (auto simp: find_pipe_def CFE_SB_PipeDescIsMatch_def)
  next
    assume "\<exists>i. find_pipe p s = Some i \<and> PD_AppId (PipeTbl s ! i) = A"
    then obtain i where i: "find_pipe p s = Some i" "PD_AppId (PipeTbl s ! i) = A" by blast
    note P = find_pipe_facts [OF i(1)]
    have "PipeTbl s ! i \<in> set (PipeTbl s)" using P(1) l by simp
    then show "p \<in> set (pipes_owned A s)" using P(2,4) i(2) by (auto simp: pipes_owned_def)
  qed
qed

lemma clean_up_run:
  assumes rest: "at_rest K s zs ts ids ds"
  shows "\<exists>s' ts' ds'. CFE_SB_CleanUpApp A s = Some (CFE_SUCCESS, s')
     \<and> at_rest (K + unread_of s (pipes_owned A s)) s' (released A s zs) ts' ids ds' \<and> set ts' \<subseteq> set ts
     \<and> (\<forall>m. subscribers ids ds' s' m = filter (\<lambda>q. q \<notin> set (pipes_owned A s)) (subscribers ids ds s m))
     \<and> (\<forall>q. find_pipe q s' = (if q \<in> set (pipes_owned A s) then None else find_pipe q s))
     \<and> (\<forall>i. used s' i \<longrightarrow> PipeTbl s' ! i = PipeTbl s ! i \<and> used s i
           \<and> map_of (Queues s') (queue_of s i) = map_of (Queues s) (queue_of s i))"
proof -
  note D = runningD [OF at_restD(1) [OF rest]]
  have own: "\<exists>i. find_pipe p s = Some i \<and> PD_AppId (PipeTbl s ! i) = A" if "p \<in> set (pipes_owned A s)" for p
    using that pipes_owned(2) [OF D(5,2)] by blast
  obtain s1 ts1 ds1 where d: "delete_pipes A (pipes_owned A s) s = Some s1" "at_rest (K + unread_of s (pipes_owned A s)) s1 zs ts1 ids ds1"
    "set ts1 \<subseteq> set ts"
    "\<forall>m. subscribers ids ds1 s1 m = filter (\<lambda>q. q \<notin> set (pipes_owned A s)) (subscribers ids ds s m)"
    "\<forall>q. find_pipe q s1 = (if q \<in> set (pipes_owned A s) then None else find_pipe q s)"
    "\<forall>y. payload (Bufs s1 y) = payload (Bufs s y)"
    "\<forall>i. used s1 i \<longrightarrow> PipeTbl s1 ! i = PipeTbl s ! i \<and> used s i
           \<and> map_of (Queues s1) (queue_of s i) = map_of (Queues s) (queue_of s i)"
    using delete_pipes_run [OF rest pipes_owned(1) [OF D(5,2)] own] by blast
  obtain s2 where r: "CFE_SB_ZeroCopyReleaseAppId A s1 = Some s2"
    "at_rest (K + unread_of s (pipes_owned A s)) s2 (released A s1 zs) ts1 ids ds1"
    "PipeTbl s2 = PipeTbl s1" "Dests s2 = Dests s1" "Queues s2 = Queues s1"
    using zero_copy_release_run [OF d(2), of A] by blast
  have rel: "released A s1 zs = released A s zs"
    using payloadD(2) [OF d(6) [rule_format]] by (simp add: released_def)
  have "CFE_SB_CleanUpApp A s = Some (CFE_SUCCESS, s2)"
    using d(1) r(1) by (simp add: CFE_SB_CleanUpApp_def pipes_owned_def)
  moreover have "subscribers ids ds1 s2 m = subscribers ids ds1 s1 m" for m
    by (simp add: subscribers_def r(4))
  ultimately show ?thesis
    using r(2,5) d(3-5,7) rel tbl_cong(2,3) [OF r(3)] r(3) by (intro exI [of _ s2] exI [of _ ts1] exI [of _ ds1]) simp
qed

end
