(* ===== verification/Sb_Steps.thy ===== *)
theory Sb_Steps
  imports Sb_Delete
begin

section \<open>Software bus: initialisation, steps and reachable states\<close>

text \<open>
  \<open>CFE_SB_EarlyInit\<close> starts the bus with no pipes, routes or buffers.  A step is a call of the API
  or a command, an application writing to a buffer that it owns, or the environment making a
  kernel queue fail or work again. A call is one step: calls run one after the other. What the caller owes is the guard of a step: a buffer handed back must be one that it got and has not given away (or one that the
  check of the descriptor refuses), ES gives applications defined IDs, and OSAL unused ones.
\<close>

subsection \<open>Initialisation\<close>

lemma create_pool:
  assumes c: "CFE_ES_PoolCreateEx [] True AppId True mem CFE_PLATFORM_SB_BUF_MEMORY_BYTES
      (of_nat CFE_PLATFORM_ES_POOL_MAX_BUCKETS) (Some CFE_SB_MemPoolDefSize) False P = ((CFE_SUCCESS, h), P')"
    and l: "length (MemPoolTable P) = unat CFE_PLATFORM_ES_MAX_MEMORY_POOLS"
    and m: "unat mem + 524288 < 2 ^ 64"
  shows "\<exists>k. h = Some k \<and> mem_rep k P' (\<lambda>_. None)"
proof -
  let ?n = "of_nat CFE_PLATFORM_ES_POOL_MAX_BUCKETS :: uint16"
  have n: "unat ?n = 17" by (simp add: CFE_PLATFORM_ES_POOL_MAX_BUCKETS_def)
  let ?pid = "CFE_ResourceId_FindNext (LastMemPoolId P) CFE_PLATFORM_ES_MAX_MEMORY_POOLS (Some (CFE_ES_CheckMemPoolSlotUsed P))"
  from c obtain i where i: "CFE_ES_LocateMemPoolRecordByID ?pid = Some i"
    by (auto simp: CFE_ES_PoolCreateEx_def Let_def split: if_splits option.splits prod.splits)
  obtain st Q where g: "CFE_ES_GenPoolInitialize (Pool (MemPoolTable P ! i)) 0 CFE_PLATFORM_SB_BUF_MEMORY_BYTES
      CFE_ES_POOL_ALIGNMENT ?n CFE_SB_MemPoolDefSize CFE_ES_MemPoolDirectRetrieve CFE_ES_MemPoolDirectCommit = (st, Q)"
    by fastforce
  have st: "st = CFE_SUCCESS" and h: "h = Some ?pid"
    and P': "MemPoolTable P' = (MemPoolTable P)[i := \<lparr>Pool = Q, PoolID = ?pid, BaseAddr = mem, OwnerAppID = AppId\<rparr>]"
    using c i g by (auto simp: CFE_ES_PoolCreateEx_def Let_def split: if_splits prod.splits)
  have "pool_inv Q [] \<and> PoolMaxOffset Q = CFE_PLATFORM_SB_BUF_MEMORY_BYTES"
  proof -
    have "pool_inv Q [] \<and> NumBuckets Q = ?n
      \<and> sorted (map BlockSize (take (unat ?n) (Buckets Q)))
      \<and> mset (map BlockSize (take (unat ?n) (Buckets Q))) = mset (take (unat ?n) CFE_SB_MemPoolDefSize)
      \<and> (\<forall>i < unat ?n. 0 < unat (BlockSize (Buckets Q ! i)))
      \<and> TailPosition Q = 0 \<and> PoolMaxOffset Q = CFE_PLATFORM_SB_BUF_MEMORY_BYTES + 0 \<and> Store Q = Store (Pool (MemPoolTable P ! i))"
    proof (rule init_pool [OF g [unfolded st]])
      show "unat ?n \<le> 17" "unat ?n \<le> length CFE_SB_MemPoolDefSize" by (simp_all add: n CFE_SB_MemPoolDefSize_def)
      show "\<forall>s \<in> set (take (unat ?n) CFE_SB_MemPoolDefSize). unat s < 2 ^ 63" by (simp add: n CFE_SB_MemPoolDefSize_def)
      show "unat CFE_PLATFORM_SB_BUF_MEMORY_BYTES + unat (0 :: size_t) < 2 ^ 32" by (simp add: CFE_PLATFORM_SB_BUF_MEMORY_BYTES_def)
      show "unat CFE_ES_POOL_ALIGNMENT \<le> 2 ^ 16" by (simp add: CFE_ES_POOL_ALIGNMENT_def)
      show "\<forall>d. CFE_ES_MemPoolDirectRetrieve d = CFE_SUCCESS \<and> CFE_ES_MemPoolDirectCommit d = CFE_SUCCESS"
        by (simp add: CFE_ES_MemPoolDirectRetrieve_def CFE_ES_MemPoolDirectCommit_def)
    qed
    then show ?thesis by simp
  qed
  moreover have il: "i < length (MemPoolTable P)"
    using i l by (auto simp: CFE_ES_LocateMemPoolRecordByID_def CFE_ES_MemPoolID_ToIndex_def dest: ToIndex_bound split: sum.splits)
  moreover have "(\<lambda>a. alloc_map Q [] (a - mem)) = (\<lambda>_. None)" by (simp add: alloc_map_def fun_eq_iff)
  ultimately have "mem_rep ?pid P' (\<lambda>_. None)"
    unfolding mem_rep_def using i m
    by (intro exI [of _ i] exI [of _ "[]"]) (simp add: P' CFE_PLATFORM_SB_BUF_MEMORY_BYTES_def)
  with h show ?thesis by blast
qed

lemma early_init_run:
  assumes c: "CFE_SB_EarlyInit mutex_ok AppId mem s = (CFE_SUCCESS, s')"
    and l: "length (MemPoolTable (Pools s)) = unat CFE_PLATFORM_ES_MAX_MEMORY_POOLS"
    and m: "unat mem + 524288 < 2 ^ 64"
  shows "at_rest {#} s' [] [] [] (\<lambda>_. [])"
proof -
  let ?c = "CFE_ES_PoolCreateEx [] True AppId True mem CFE_PLATFORM_SB_BUF_MEMORY_BYTES
      (of_nat CFE_PLATFORM_ES_POOL_MAX_BUCKETS) (Some CFE_SB_MemPoolDefSize) False (Pools s)"
  obtain st h P where cr: "?c = ((st, h), P)" by (metis prod.exhaust)
  then have st: "st = CFE_SUCCESS"
    using c by (auto simp: CFE_SB_EarlyInit_def CFE_SB_InitBuffers_def Let_def split: if_splits)
  obtain k where k: "h = Some k" "mem_rep k P (\<lambda>_. None)"
    using create_pool [OF cr [unfolded st] l m] by blast
  have s': "Pools s' = P" "PoolHdl s' = k" "Routes s' = CFE_SBR_Init CFE_SBR_Init_Map_direct"
    "PipeTbl s' = replicate 64 blank_pipe"
    "Links s' = CFE_SB_TrackingListReset ZeroCopyList (CFE_SB_TrackingListReset InTransitList (Links s))"
    using c cr k st
    by (auto simp: CFE_SB_EarlyInit_def CFE_SB_InitBuffers_def CFE_SB_InitPipeTbl_def Let_def blank_pipe_def
        CFE_PLATFORM_SB_MAX_PIPES_def split: if_splits)
  have nu: "\<not> used s' i" for i by (simp add: used_def s')
  have refs: "refs s' = {#}" by (simp add: refs_def s' pipe_refs_def)
  have "ring (Links s') ZeroCopyList []" by (simp add: s' ring_reset)
  moreover have "ring (Links s') InTransitList []"
  proof -
    have "ring (CFE_SB_TrackingListReset InTransitList (Links s)) InTransitList []" by (rule ring_reset)
    then show ?thesis by (subst ring_cong [of _ _ _ "CFE_SB_TrackingListReset InTransitList (Links s)"]) (simp_all add: s' reset_other)
  qed
  ultimately have "core s' {#} [] [] {}"
    unfolding core_def core_parts_def using k(2) by (auto simp: s' intro: exI [of _ "\<lambda>_. None"])
  moreover have "pipes_ok s'" "ids_ok s'" by (simp_all add: pipes_ok_def ids_ok_def nu) (simp add: s')
  moreover have "routes_ok s' [] (\<lambda>_. [])"
  proof -
    have "CFE_SBR_GetDestListHeadPtr (Routes s') (route_of i) = 0" if "i < 256" for i
      using that by (simp add: s' CFE_SBR_GetDestListHeadPtr_def CFE_SBR_Init_def route_entry_def route_of_facts
          CFE_PLATFORM_SB_MAX_MSG_IDS_def unat_of_nat_small)
    then show ?thesis
      using direct.init_ok by (simp add: routes_ok_def s' route_dests_def pipes_of_def)
  qed
  ultimately show ?thesis by (simp add: at_rest_def running_def refs dest_set_def)
qed

subsection \<open>Handles\<close>

lemma seg_unique:
  "seg L a xs h \<Longrightarrow> seg L a ys h \<Longrightarrow> h \<notin> set xs \<Longrightarrow> h \<notin> set ys \<Longrightarrow> xs = ys"
proof (induction xs arbitrary: a ys)
  case Nil
  then show ?case by (cases ys) auto
next
  case (Cons x xs)
  then show ?case by (cases ys) auto
qed

lemma ring_unique: "ring L h xs \<Longrightarrow> ring L h ys \<Longrightarrow> xs = ys"
  by (auto simp: ring_def intro: seg_unique)

text \<open>A buffer that an application owns: it is on the list of zero-copy buffers.\<close>

definition owned :: "sb \<Rightarrow> size_t \<Rightarrow> bool" where
  "owned s b \<longleftrightarrow> (\<exists>zs. ring (Links s) ZeroCopyList (map BufLink zs) \<and> b \<in> set zs)"

lemma owned_iff:
  assumes "at_rest K s zs ts ids ds"
  shows "owned s b \<longleftrightarrow> b \<in> set zs"
proof -
  have r: "ring (Links s) ZeroCopyList (map BufLink zs)"
    by (rule coreD(4) [OF runningD(4) [OF at_restD(1) [OF assms]]])
  have "ys = zs" if "ring (Links s) ZeroCopyList (map BufLink ys)" for ys
  proof -
    have inj: "inj BufLink" by (rule injI) simp
    have "map BufLink ys = map BufLink zs" by (rule ring_unique [OF that r])
    then show ?thesis using inj_map_eq_map [OF inj] by blast
  qed
  with r show ?thesis unfolding owned_def by metis
qed

text \<open>An address that may be passed back: one that is owned, or one that is refused.\<close>

definition may_pass :: "sb \<Rightarrow> size_t \<Rightarrow> bool" where
  "may_pass s p \<longleftrightarrow> p = 0 \<or> BF_AppId (Bufs s (p - CFE_SB_BUFFERD_CONTENT_OFFSET)) = CFE_ES_APPID_UNDEFINED
     \<or> owned s (p - CFE_SB_BUFFERD_CONTENT_OFFSET)"

subsection \<open>Steps\<close>

text \<open>The steps that lose nothing.\<close>

inductive lossless_step :: "sb \<Rightarrow> sb \<Rightarrow> bool" where
  alloc: "caller_ok ctx \<Longrightarrow> CFE_SB_AllocateMessageBuffer ctx n s = (p, s') \<Longrightarrow> lossless_step s s'"
| store: "owned s b \<Longrightarrow> length c = length (BF_Content (Bufs s b)) \<Longrightarrow> lossless_step s (store_msg b (Some c) s)"
| release: "may_pass s p \<Longrightarrow> CFE_SB_ReleaseMessageBuffer p s = (st, s') \<Longrightarrow> lossless_step s s'"
| transmit_buffer: "may_pass s p \<Longrightarrow> CFE_SB_TransmitBuffer ctx p org s = Some (st, s') \<Longrightarrow> lossless_step s s'"
| transmit_msg: "caller_ok ctx \<Longrightarrow> CFE_SB_TransmitMsg ctx m org s = Some (st, s') \<Longrightarrow> lossless_step s s'"
| receive: "CFE_SB_ReceiveBuffer ctx ptr p t s = Some (r, s') \<Longrightarrow> lossless_step s s'"
| create: "env_ok env s \<Longrightarrow> CFE_SB_CreatePipe env ctx ptr depth nm s = (r, s') \<Longrightarrow> lossless_step s s'"
| subscribe: "caller_ok ctx \<Longrightarrow> CFE_SB_SubscribeFull ctx mid p q lim scope s = Some (st, s') \<Longrightarrow> lossless_step s s'"
| unsubscribe: "CFE_SB_UnsubscribeFull mid p scope a s = Some (st, s') \<Longrightarrow> lossless_step s s'"
| set_opts: "CFE_SB_SetPipeOpts ctx p v s = (st, s') \<Longrightarrow> lossless_step s s'"
| get_opts: "CFE_SB_GetPipeOpts p ptr s = (r, s') \<Longrightarrow> lossless_step s s'"
| get_name: "CFE_SB_GetPipeName ptr n p s = (r, s') \<Longrightarrow> lossless_step s s'"
| get_id: "CFE_SB_GetPipeIdByName ptr nm s = (r, s') \<Longrightarrow> lossless_step s s'"
| zero_copy_release: "CFE_SB_ZeroCopyReleaseAppId a s = Some s' \<Longrightarrow> lossless_step s s'"
| enable: "CFE_SB_EnableRouteCmd mid p s = Some (st, s') \<Longrightarrow> lossless_step s s'"
| disable: "CFE_SB_DisableRouteCmd mid p s = Some (st, s') \<Longrightarrow> lossless_step s s'"
| report_on: "CFE_SB_EnableSubReportingCmd s = (st, s') \<Longrightarrow> lossless_step s s'"
| report_off: "CFE_SB_DisableSubReportingCmd s = (st, s') \<Longrightarrow> lossless_step s s'"
| reset: "lossless_step s (CFE_SB_ResetCounters s)"
| fault: "map_of (Queues s) i = Some x \<Longrightarrow> lossless_step s (s\<lparr>Queues := AList.update i (x\<lparr>q_fault := z, q_stuck := w\<rparr>) (Queues s)\<rparr>)"

text \<open>
  The label of a step is the multiset of queue entries that it loses: those left in the queue of a deleted pipe that
  could not be read.
\<close>

inductive sb_step :: "sb \<Rightarrow> size_t multiset \<Rightarrow> sb \<Rightarrow> bool" where
  lossless: "lossless_step s s' \<Longrightarrow> sb_step s {#} s'"
| delete: "CFE_SB_DeletePipeFull p a s = Some (st, s') \<Longrightarrow> sb_step s (if st = CFE_SUCCESS then unread_of s [p] else {#}) s'"
| clean_up: "CFE_SB_CleanUpApp a s = Some (st, s') \<Longrightarrow> sb_step s (unread_of s (pipes_owned a s)) s'"

text \<open>The states that the bus can reach from its start, with the entries lost on the way.\<close>

inductive sb_history :: "size_t multiset \<Rightarrow> sb \<Rightarrow> bool" where
  init: "CFE_SB_EarlyInit mutex_ok a mem s = (CFE_SUCCESS, s')
     \<Longrightarrow> length (MemPoolTable (Pools s)) = unat CFE_PLATFORM_ES_MAX_MEMORY_POOLS
     \<Longrightarrow> unat mem + 524288 < 2 ^ 64 \<Longrightarrow> sb_history {#} s'"
| step: "sb_history K s \<Longrightarrow> sb_step s L s' \<Longrightarrow> sb_history (K + L) s'"

definition sb_reach :: "sb \<Rightarrow> bool" where
  "sb_reach s \<longleftrightarrow> (\<exists>K. sb_history K s)"

lemma reach_init:
  "CFE_SB_EarlyInit mutex_ok a mem s = (CFE_SUCCESS, s') \<Longrightarrow> length (MemPoolTable (Pools s)) = unat CFE_PLATFORM_ES_MAX_MEMORY_POOLS
     \<Longrightarrow> unat mem + 524288 < 2 ^ 64 \<Longrightarrow> sb_reach s'"
  unfolding sb_reach_def by (blast intro: sb_history.init)

lemma lossless_history: "sb_history K s \<Longrightarrow> lossless_step s s' \<Longrightarrow> sb_history K s'"
  using sb_history.step [OF _ sb_step.lossless] by fastforce

lemma reach_step: "sb_reach s \<Longrightarrow> sb_step s L s' \<Longrightarrow> sb_reach s'"
  unfolding sb_reach_def by (blast intro: sb_history.step)

subsection \<open>Every step keeps the invariant\<close>

lemma sb_invI: "at_rest K s zs ts ids ds \<Longrightarrow> sb_inv K s"
  unfolding sb_inv_def by blast

lemma quiet_sb_inv: "quiet s s' \<Longrightarrow> sb_inv K s \<Longrightarrow> sb_inv K s'"
  unfolding sb_inv_def by (metis quiet_at_rest)

lemma release_refused:
  assumes "p = 0 \<or> BF_AppId (Bufs s (p - CFE_SB_BUFFERD_CONTENT_OFFSET)) = CFE_ES_APPID_UNDEFINED"
  shows "CFE_SB_ReleaseMessageBuffer p s = (if p = 0 then CFE_SB_BAD_ARGUMENT else CFE_SB_BUFFER_INVALID, s)"
  using assms by (auto simp: CFE_SB_ReleaseMessageBuffer_def CFE_SB_ZeroCopyBufferValidate_def Let_def
      CFE_ResourceId_IsDefined_def CFE_ES_APPID_UNDEFINED_def)

lemma release_inv:
  assumes "sb_inv K s" "may_pass s p" "CFE_SB_ReleaseMessageBuffer p s = (st, s')"
  shows "sb_inv K s'"
proof -
  obtain zs ts ids ds where rest: "at_rest K s zs ts ids ds" using assms(1) by (auto simp: sb_inv_def)
  show ?thesis
  proof (cases "p = 0 \<or> BF_AppId (Bufs s (p - CFE_SB_BUFFERD_CONTENT_OFFSET)) = CFE_ES_APPID_UNDEFINED")
    case True
    then show ?thesis using release_refused [OF True] assms by simp
  next
    case False
    let ?b = "p - CFE_SB_BUFFERD_CONTENT_OFFSET"
    have b: "?b \<in> set zs" "p = ?b + CFE_SB_BUFFERD_CONTENT_OFFSET" "p \<noteq> 0"
      using False assms(2) owned_iff [OF rest] by (auto simp: may_pass_def)
    obtain t where "CFE_SB_ReleaseMessageBuffer p s = (CFE_SUCCESS, t)" "at_rest K t (remove1 ?b zs) ts ids ds"
      using release_run [OF rest b] by metis
    then show ?thesis using assms(3) unfolding sb_inv_def by auto
  qed
qed

lemma transmit_buffer_inv:
  assumes "sb_inv K s" "may_pass s p"
  shows "\<exists>st s'. CFE_SB_TransmitBuffer ctx p org s = Some (st, s') \<and> sb_inv K s'"
proof -
  obtain zs ts ids ds where rest: "at_rest K s zs ts ids ds" using assms(1) by (auto simp: sb_inv_def)
  let ?b = "p - CFE_SB_BUFFERD_CONTENT_OFFSET"
  show ?thesis
  proof (cases "p = 0 \<or> (\<nexists>m n. sendable (Some (BF_Content (Bufs s ?b))) m n) \<or> BF_AppId (Bufs s ?b) = CFE_ES_APPID_UNDEFINED")
    case True
    obtain st s' where "CFE_SB_TransmitBuffer ctx p org s = Some (st, s')" "quiet s s'"
      using transmit_buffer_refuses [OF True] by metis
    then show ?thesis using quiet_sb_inv assms(1) by blast
  next
    case False
    then obtain m n where M: "sendable (Some (BF_Content (Bufs s ?b))) m n" by blast
    have b: "?b \<in> set zs" "p = ?b + CFE_SB_BUFFERD_CONTENT_OFFSET" "p \<noteq> 0"
      using False assms(2) owned_iff [OF rest] by (auto simp: may_pass_def)
    from transmit_buffer_sends [OF rest b M refl, of ctx org] show ?thesis unfolding sb_inv_def by blast
  qed
qed

lemma transmit_msg_inv:
  assumes "sb_inv K s" "caller_ok ctx"
  shows "\<exists>st s'. CFE_SB_TransmitMsg ctx M org s = Some (st, s') \<and> sb_inv K s'"
proof -
  obtain zs ts ids ds where rest: "at_rest K s zs ts ids ds" using assms(1) by (auto simp: sb_inv_def)
  show ?thesis
  proof (cases "\<exists>x m n. M = Some x \<and> sendable M m n")
    case True
    then obtain x m n where M: "M = Some x" "sendable (Some x) m n" by auto
    from transmit_msg_sends [OF rest assms(2) M(2) refl, of org] show ?thesis unfolding M(1) sb_inv_def by blast
  next
    case False
    then have no: "M = None \<or> (\<nexists>m n. sendable M m n)" by (cases M) auto
    obtain st s' where "CFE_SB_TransmitMsg ctx M org s = Some (st, s')" "quiet s s'"
      using transmit_msg_refuses [OF no] by metis
    then show ?thesis using quiet_sb_inv assms(1) by blast
  qed
qed

text \<open>A receive call does not return exactly when it waits forever on a working queue that is empty.\<close>

lemma get_none:
  assumes rest: "at_rest K s zs ts ids ds" and i: "used s i"
  shows "OS_QueueGet (queue_of s i) sizeof_ptr (os_timeout ctx t) (Queues s) = None
    \<longleftrightarrow> t = CFE_SB_PEND_FOREVER \<and> items (Queues s) (queue_of s i) = [] \<and> readable s i"
proof -
  obtain x where x: "map_of (Queues s) (queue_of s i) = Some x" "queue_fits x"
    using runningD(1) [OF at_restD(1) [OF rest]] i unfolding pipes_ok_def by blast
  have "os_timeout ctx t = OS_PEND \<longleftrightarrow> t = CFE_SB_PEND_FOREVER"
    by (auto simp: os_timeout_def OS_PEND_def OS_CHECK_def Let_def)
  then show ?thesis
    using x by (auto simp: OS_QueueGet_def OS_QueueGet_Impl_def OS_CHECK_SIZE_def sizeof_ptr_def queue_fits_def
        readable_def items_def split: if_splits list.splits)
qed

lemma receive_none:
  assumes rest: "at_rest K s zs ts ids ds" and i: "find_pipe p s = Some i" "-1 \<le> t"
    and none: "OS_QueueGet (queue_of s i) sizeof_ptr (os_timeout ctx t) (Queues s) = None"
  shows "CFE_SB_ReceiveBuffer ctx True p t s = None"
proof -
  obtain T1 s1 where sp: "CFE_SB_ReceiveTxn_SetPipeId p (CFE_SB_MessageTxn_SetTimeout ctx t (CFE_SB_ReceiveTxn_Init True)) s = (T1, s1)"
    by fastforce
  note S = set_pipe_run [OF rest i(1) sp] and T0 = set_timeout [OF i(2), of ctx]
  have "CFE_SB_ReceiveTxn_Execute ctx (CFE_SB_MessageTxn_SetEndpoint True T1) s1 = None"
  proof (rule receive_blocks)
    show "CFE_SB_MessageTxn_IsOK (CFE_SB_MessageTxn_SetEndpoint True T1)"
      using T0(1) by (simp add: S(9) CFE_SB_MessageTxn_SetEndpoint_def CFE_SB_MessageTxn_IsOK_def)
    show "TX_PipeSet (CFE_SB_MessageTxn_SetEndpoint True T1)
        = [\<lparr>PS_PipeId = p, PS_SysQueueId = queue_of s i, PS_PendingEventId = None, PS_OsStatus = OS_SUCCESS\<rparr>]"
      by (simp add: S(9) CFE_SB_MessageTxn_SetEndpoint_def)
    show "OS_QueueGet (PS_SysQueueId \<lparr>PS_PipeId = p, PS_SysQueueId = queue_of s i, PS_PendingEventId = None, PS_OsStatus = OS_SUCCESS\<rparr>)
        sizeof_ptr (CFE_SB_MessageTxn_GetOsTimeout ctx (CFE_SB_MessageTxn_SetEndpoint True T1)) (Queues s1) = None"
      using none T0(2) by (simp add: S(3,9) os_timeout_frame)
  qed simp
  then show ?thesis
    using T0(1) sp by (simp add: CFE_SB_ReceiveBuffer_def CFE_SB_ReceiveTxn_Init_def
        CFE_SB_MessageTxn_Init_def CFE_SB_MessageTxn_IsOK_def)
qed

lemma receive_inv:
  assumes "sb_inv K s"
  shows "case CFE_SB_ReceiveBuffer ctx ptr p t s of
      None \<Rightarrow> ptr \<and> t = CFE_SB_PEND_FOREVER
        \<and> (\<exists>i. find_pipe p s = Some i \<and> items (Queues s) (queue_of s i) = [] \<and> readable s i)
    | Some (r, s') \<Rightarrow> sb_inv K s'"
proof -
  obtain zs ts ids ds where rest: "at_rest K s zs ts ids ds" using assms(1) by (auto simp: sb_inv_def)
  show ?thesis
  proof (cases "\<not> ptr \<or> t < -1 \<or> find_pipe p s = None")
    case True
    from receive_refuses [OF True, of ctx] quiet_sb_inv [OF _ assms] show ?thesis by auto
  next
    case False
    then obtain i where i: "ptr" "-1 \<le> t" "find_pipe p s = Some i" by auto
    note none = get_none [OF rest find_pipe_facts(5) [OF i(3)], of ctx t]
    show ?thesis
    proof (cases "OS_QueueGet (queue_of s i) sizeof_ptr (os_timeout ctx t) (Queues s)")
      case (Some r)
      obtain st data Q where "r = (st, data, Q)" by (metis prod.exhaust)
      with Some have get: "OS_QueueGet (queue_of s i) sizeof_ptr (os_timeout ctx t) (Queues s) = Some (st, data, Q)"
        by simp
      show ?thesis using receive_run [OF rest i(3,2) get] i(1) by (auto intro: sb_invI)
    next
      case None
      then show ?thesis using none receive_none [OF rest i(3,2) None] i(1,3) by simp
    qed
  qed
qed

text \<open>A queue that starts to fail, or works again, keeps its entries.\<close>

lemma fault_rest:
  assumes rest: "at_rest K s zs ts ids ds" and x: "map_of (Queues s) i = Some x"
    and s': "s' = s\<lparr>Queues := AList.update i (x\<lparr>q_fault := z, q_stuck := w\<rparr>) (Queues s)\<rparr>"
  shows "at_rest K s' zs ts ids ds"
  unfolding s'
proof (rule at_rest_queues [OF rest])
  let ?Q = "AList.update i (x\<lparr>q_fault := z, q_stuck := w\<rparr>) (Queues s)"
  note R = runningD [OF at_restD(1) [OF rest]]
  have it: "items ?Q j = items (Queues s) j" for j
    using x by (simp add: items_def update_conv')
  show "refs (s\<lparr>Queues := ?Q\<rparr>) = refs s"
    by (rule refs_cong [OF same_pipes_tbl R(5)]) (simp_all add: it)
  show "pipes_ok (s\<lparr>Queues := ?Q\<rparr>)"
    by (rule pipes_ok_cong(1) [OF same_pipes_tbl R(1)]) (use x in \<open>auto simp: update_conv' queue_fits_def\<close>)
qed

lemma active_inv:
  assumes "sb_inv K s" and c: "\<And>mid p s. cmd mid p s = map_option (Pair CFE_SUCCESS) (set_route_active v e1 e2 e3 mid p s)"
    and r: "cmd mid p s = Some (st, s')"
  shows "sb_inv K s'"
proof -
  obtain zs ts ids ds where rest: "at_rest K s zs ts ids ds" using assms(1) by (auto simp: sb_inv_def)
  from set_active_run [OF rest, of v e1 e2 e3 mid p] show ?thesis using r by (auto simp: c intro: sb_invI)
qed

lemma store_rest:
  assumes rest: "at_rest K s zs ts ids ds"
  shows "at_rest K (store_msg b (Some c) s) zs ts ids ds"
  by (rule at_rest_cong [OF rest])
    (use at_restD(1) [OF rest] in \<open>simp_all add: store_msg_def running_upd_buf\<close>)

lemma lossless_inv:
  assumes "lossless_step s s'" "sb_inv K s"
  shows "sb_inv K s'"
proof -
  obtain zs ts ids ds where rest: "at_rest K s zs ts ids ds" using assms(2) by (auto simp: sb_inv_def)
  from assms(1) show ?thesis
  proof cases
    case (alloc ctx n p)
    show ?thesis
    proof (cases p)
      case None
      then show ?thesis using alloc_run(1) [OF rest alloc(1,2)] by (blast intro: sb_invI)
    next
      case (Some q)
      then show ?thesis using alloc_run(2) [OF rest alloc(1,2)] by (blast intro: sb_invI)
    qed
  next
    case (store b c)
    then show ?thesis using store_rest [OF rest] by (blast intro: sb_invI)
  next
    case (transmit_buffer p ctx org st)
    then show ?thesis using transmit_buffer_inv [OF assms(2) transmit_buffer(1), of ctx org] by auto
  next
    case (transmit_msg ctx m org st)
    then show ?thesis using transmit_msg_inv [OF assms(2) transmit_msg(1), of m org] by auto
  next
    case (receive ctx ptr p t r)
    then show ?thesis using receive_inv [OF assms(2), where ctx = ctx and ptr = ptr and p = p and t = t] by simp
  next
    case (create env ctx ptr depth nm r)
    obtain st out where "r = (st, out)" by (metis prod.exhaust)
    then show ?thesis using create create_run(1) [OF rest create(1)] by (blast intro: sb_invI)
  next
    case (subscribe ctx mid p q lim scope st)
    from subscribe_run [OF rest subscribe(1), of mid p q lim scope] subscribe(2) show ?thesis
      by (auto intro: sb_invI)
  next
    case (unsubscribe mid p scope a st)
    from unsubscribe_run [OF rest, of mid p scope a] unsubscribe show ?thesis by (auto intro: sb_invI)
  next
    case (set_opts ctx p v st)
    from set_opts_run [OF rest set_opts] show ?thesis by (rule sb_invI)
  next
    case (get_opts p ptr r)
    have "quiet s s'"
      using get_opts by (auto simp: CFE_SB_GetPipeOpts_def Let_def quiet_event quiet_pending split: option.splits if_splits)
    then show ?thesis using quiet_sb_inv assms(2) by blast
  next
    case (get_name ptr n p r)
    then show ?thesis using quiet_sb_inv [OF quiet_name assms(2)] by (metis snd_conv)
  next
    case (get_id ptr nm r)
    have "quiet s s'"
      using get_id by (auto simp: CFE_SB_GetPipeIdByName_def Let_def quiet_event quiet_pending split: option.splits if_splits prod.splits)
    then show ?thesis using quiet_sb_inv assms(2) by blast
  next
    case (zero_copy_release a)
    from zero_copy_release_run [OF rest, of a] zero_copy_release show ?thesis by (auto intro: sb_invI)
  next
    case (enable mid p st)
    show ?thesis by (rule active_inv [OF assms(2) CFE_SB_EnableRouteCmd_def enable])
  next
    case (disable mid p st)
    show ?thesis by (rule active_inv [OF assms(2) CFE_SB_DisableRouteCmd_def disable])
  next
    case (report_on st)
    have "quiet s s'" using report_on by (auto simp: CFE_SB_EnableSubReportingCmd_def CFE_SB_SetSubscriptionReporting_def)
    then show ?thesis using quiet_sb_inv assms(2) by blast
  next
    case (report_off st)
    have "quiet s s'" using report_off by (auto simp: CFE_SB_DisableSubReportingCmd_def CFE_SB_SetSubscriptionReporting_def)
    then show ?thesis using quiet_sb_inv assms(2) by blast
  next
    case reset
    have "quiet s s'" by (simp add: reset CFE_SB_ResetCounters_def quiet_hk)
    then show ?thesis using quiet_sb_inv assms(2) by blast
  next
    case (fault i x z)
    from fault_rest [OF rest fault(2,1)] show ?thesis by (rule sb_invI)
  qed (use release_inv [OF assms(2)] in blast)
qed

lemma step_inv:
  assumes "sb_step s L s'" "sb_inv K s"
  shows "sb_inv (K + L) s'"
proof -
  obtain zs ts ids ds where rest: "at_rest K s zs ts ids ds" using assms(2) by (auto simp: sb_inv_def)
  from assms(1) show ?thesis
  proof cases
    case lossless
    then show ?thesis using lossless_inv assms(2) by simp
  next
    case (delete p a st)
    show ?thesis
    proof (cases "\<exists>i. find_pipe p s = Some i \<and> PD_AppId (PipeTbl s ! i) = a")
      case True
      then obtain i where i: "find_pipe p s = Some i" "PD_AppId (PipeTbl s ! i) = a" by blast
      from delete_run [OF rest i] delete(2) show ?thesis by (auto simp: delete(1) unread_of_def i(1) intro: sb_invI)
    next
      case False
      then have no: "\<And>i. find_pipe p s = Some i \<Longrightarrow> PD_AppId (PipeTbl s ! i) \<noteq> a" by blast
      obtain t where "CFE_SB_DeletePipeFull p a s = Some (CFE_SB_BAD_ARGUMENT, t)" "quiet s t"
        using delete_refuses [OF no] by blast
      then show ?thesis using delete quiet_sb_inv [OF _ assms(2)] by simp
    qed
  next
    case (clean_up a st)
    from clean_up_run [OF rest, of a] clean_up show ?thesis by (auto intro: sb_invI)
  qed
qed

lemma history_inv: "sb_history K s \<Longrightarrow> sb_inv K s"
proof (induction rule: sb_history.induct)
  case (init mutex_ok a mem s s')
  from early_init_run [OF init] show ?case by (rule sb_invI)
next
  case (step K s L s')
  from step_inv [OF step(2,3)] show ?case .
qed

end
