(* ===== verification/Sb_View.thy ===== *)
theory Sb_View
  imports Sb_Steps
begin

section \<open>Software bus: what an application can see\<close>

text \<open>
  The abstract view of the bus that its properties are stated in, as executable functions of the
  state: the pipes subscribed to a message ID in the order of the destination list, the pipes that
  take a message that is sent now, and for each buffer the references that are held.  The lists
  of the invariant are the ones that these functions compute.
\<close>

subsection \<open>Subscribers\<close>

text \<open>At most 16 destinations are in a list, so that a walk of 16 steps reaches its end.\<close>

fun walk :: "nat \<Rightarrow> dests \<Rightarrow> size_t \<Rightarrow> size_t list" where
  "walk 0 D d = []"
| "walk (Suc n) D d = (if d = 0 then [] else d # walk n D (DD_Next (D d)))"

definition routed :: "sb \<Rightarrow> CFE_SB_MsgId \<Rightarrow> bool" where
  "routed s m \<longleftrightarrow> (case get_route_id m s of None \<Rightarrow> False | Some r \<Rightarrow> CFE_SBR_IsValidRouteId r)"

definition dest_list :: "sb \<Rightarrow> CFE_SB_MsgId \<Rightarrow> size_t list" where
  "dest_list s m =
     (if routed s m
      then walk 16 (Dests s) (CFE_SBR_GetDestListHeadPtr (Routes s) (the (get_route_id m s))) else [])"

definition subs_of :: "sb \<Rightarrow> CFE_SB_MsgId \<Rightarrow> CFE_SB_PipeId list" where
  "subs_of s m = map (\<lambda>d. DD_PipeId (Dests s d)) (dest_list s m)"

lemma walk_list: "dseg D prev p xs 0 \<Longrightarrow> length xs \<le> n \<Longrightarrow> walk n D p = xs"
proof (induction n arbitrary: prev p xs)
  case 0
  then show ?case by simp
next
  case (Suc n)
  then show ?case by (cases xs) auto
qed

lemma routed_iff:
  assumes "routes_ok s ids ds"
  shows "routed s m \<longleftrightarrow> m \<in> set ids"
  using lookup_invalid [of m ids] route_list_head(2) [OF assms, of m]
  by (auto simp: routed_def routes_okD(9) [OF assms])

lemma dest_list_eq:
  assumes "routes_ok s ids ds"
  shows "dest_list s m = route_list ids ds m"
proof (cases "m \<in> set ids")
  case True
  note R = route_list_head [OF assms True]
  have "walk 16 (Dests s) (CFE_SBR_GetDestListHeadPtr (Routes s) (lookup_route ids m)) = route_list ids ds m"
    using R(1,3) by (intro walk_list) (auto simp: route_dests_def)
  then show ?thesis using True by (simp add: dest_list_def routed_iff [OF assms] routes_okD(9) [OF assms])
next
  case False
  then show ?thesis by (simp add: dest_list_def routed_iff [OF assms] route_list_def)
qed

lemma subs_of_eq: "routes_ok s ids ds \<Longrightarrow> subs_of s m = subscribers ids ds s m"
  by (simp add: subs_of_def subscribers_def pipes_of_def dest_list_eq)

lemma rest_subs: "at_rest K s zs ts ids ds \<Longrightarrow> subs_of s = subscribers ids ds s"
  by (intro ext subs_of_eq) (rule runningD(3) [OF at_restD(1)])

lemma rest_dests: "at_rest K s zs ts ids ds \<Longrightarrow> dest_list s = route_list ids ds"
  by (intro ext dest_list_eq) (rule runningD(3) [OF at_restD(1)])

lemma rest_routed: "at_rest K s zs ts ids ds \<Longrightarrow> routed s m \<longleftrightarrow> m \<in> set ids"
  by (rule routed_iff) (rule runningD(3) [OF at_restD(1)])

lemma rest_routes: "at_rest K s zs ts ids ds \<Longrightarrow> unat (RouteIdxTop (Routes s)) = length ids"
  using routes_okD(1) [OF runningD(3) [OF at_restD(1)]] by (auto simp: sbr_ok_def)

subsection \<open>Which pipes take a message\<close>

definition has_room :: "os_queues \<Rightarrow> osal_id \<Rightarrow> bool" where
  "has_room Q i \<longleftrightarrow> (case map_of Q i of None \<Rightarrow> False
     | Some q \<Rightarrow> \<not> q_fault q \<and> length (q_items q) < max_depth q)"

text \<open>
  The pipe with index \<open>i\<close> takes a message with ID \<open>m\<close> from an application: it has a destination
  for the ID that is active, below its limit and does not ignore the sender, and its queue has room.
\<close>

definition takes :: "CFE_ES_AppId \<Rightarrow> sb \<Rightarrow> CFE_SB_MsgId \<Rightarrow> nat \<Rightarrow> bool" where
  "takes AppId s m i \<longleftrightarrow>
     list_ex (\<lambda>d. dest_accepts AppId (Dests s d) s = Some i
                  \<and> DD_BuffCount (Dests s d) < DD_MsgId2PipeLim (Dests s d)) (dest_list s m)
     \<and> has_room (Queues s) (queue_of s i)"

lemma put_room:
  assumes "\<forall>q. map_of Q i = Some q \<longrightarrow> max_size q = sizeof_ptr"
  shows "items (snd (OS_QueuePut i b sizeof_ptr Q)) j = items Q j @ (if j = i \<and> has_room Q i then [b] else [])"
    "j \<noteq> i \<Longrightarrow> map_of (snd (OS_QueuePut i b sizeof_ptr Q)) j = map_of Q j"
  using assms
  by (auto simp: OS_QueuePut_def OS_QueuePut_Impl_def OS_CHECK_SIZE_def sizeof_ptr_def has_room_def items_def
      split: option.splits prod.splits if_splits)

lemma put_all_items:
  assumes "distinct (map PS_SysQueueId (filter (\<lambda>c. PS_PendingEventId c = None) cs))"
    and "\<forall>c \<in> set cs. PS_PendingEventId c = None
      \<longrightarrow> (\<forall>q. map_of Q (PS_SysQueueId c) = Some q \<longrightarrow> max_size q = sizeof_ptr)"
  shows "items (put_all b cs Q) j = items Q j
     @ (if (\<exists>c \<in> set cs. PS_PendingEventId c = None \<and> PS_SysQueueId c = j) \<and> has_room Q j then [b] else [])"
  using assms
proof (induction cs arbitrary: Q)
  case Nil
  then show ?case by simp
next
  case (Cons c cs)
  show ?case
  proof (cases "PS_PendingEventId c = None")
    case False
    then obtain e where "PS_PendingEventId c = Some e" by auto
    with Cons.IH [of Q] Cons.prems show ?thesis by simp
  next
    case True
    let ?i = "PS_SysQueueId c"
    let ?Q = "snd (OS_QueuePut ?i b sizeof_ptr Q)"
    note on = True
    have i: "\<forall>q. map_of Q ?i = Some q \<longrightarrow> max_size q = sizeof_ptr" using Cons.prems(2) True by simp
    have new: "c' \<in> set cs \<Longrightarrow> PS_PendingEventId c' = None \<Longrightarrow> PS_SysQueueId c' \<noteq> ?i" for c'
      using Cons.prems(1) True by (force simp: image_iff)
    have IH: "items (put_all b cs ?Q) j = items ?Q j
       @ (if (\<exists>c \<in> set cs. PS_PendingEventId c = None \<and> PS_SysQueueId c = j) \<and> has_room ?Q j then [b] else [])"
    proof (rule Cons.IH)
      show "distinct (map PS_SysQueueId (filter (\<lambda>c. PS_PendingEventId c = None) cs))"
        using Cons.prems(1) True by simp
      show "\<forall>c \<in> set cs. PS_PendingEventId c = None
        \<longrightarrow> (\<forall>q. map_of ?Q (PS_SysQueueId c) = Some q \<longrightarrow> max_size q = sizeof_ptr)"
        using Cons.prems(2) new put_room(2) [OF i] by auto
    qed
    show ?thesis
    proof (cases "j = ?i")
      case True
      then have "\<not> (\<exists>c \<in> set cs. PS_PendingEventId c = None \<and> PS_SysQueueId c = j)" using new by auto
      then have "items (put_all b cs ?Q) j = items ?Q j" unfolding IH by simp
      with True on show ?thesis by (simp add: put_room(1) [OF i])
    next
      case False
      have "has_room ?Q j = has_room Q j" by (simp add: has_room_def put_room(2) [OF i False])
      then have "items (put_all b cs ?Q) j = items Q j
         @ (if (\<exists>c \<in> set cs. PS_PendingEventId c = None \<and> PS_SysQueueId c = j) \<and> has_room Q j then [b] else [])"
        unfolding IH using False by (simp add: put_room(1) [OF i])
      with False on show ?thesis by simp
    qed
  qed
qed

text \<open>What the pipes of a message ID get.\<close>

lemma tx_items:
  assumes rest: "at_rest K s zs ts ids ds" and i: "used s i"
  shows "items (put_all b (tx_entries ctx s (route_list ids ds m)) (Queues s)) (queue_of s i)
    = items (Queues s) (queue_of s i) @ (if takes (caller_app ctx) s m i then [b] else [])"
proof -
  note D = runningD [OF at_restD(1) [OF rest]]
  let ?A = "caller_app ctx" and ?xs = "route_list ids ds m"
  let ?in = "\<lambda>d i. dest_accepts ?A (Dests s d) s = Some i \<and> DD_BuffCount (Dests s d) < DD_MsgId2PipeLim (Dests s d)"
  let ?on = "\<lambda>c. PS_PendingEventId c = None"
  have dis: "distinct (map (\<lambda>d. DD_PipeId (Dests s d)) ?xs)"
    using routes_okD(4) [OF D(3) route_list_head(4) [OF D(3)]] by (auto simp: route_list_def pipes_of_def)
  have fits: "map_of (Queues s) (queue_of s k) = Some q \<Longrightarrow> max_size q = sizeof_ptr" if "used s k" for k q
    using that D(1) unfolding pipes_ok_def queue_fits_def by force
  have inj: "queue_of s k = queue_of s l \<Longrightarrow> k = l" if "used s k" "used s l" for k l
    using that D(1) unfolding pipes_ok_def by blast
  have acc: "find_pipe (DD_PipeId (Dests s d)) s = Some k" "used s k" if "dest_accepts ?A (Dests s d) s = Some k" for d k
    using dest_accepts_facts(1) [OF that] find_pipe_facts(5) by auto
  have ent: "c \<in> set (dest_entry ?A s d) \<and> ?on c \<longleftrightarrow> (\<exists>k. ?in d k
      \<and> c = \<lparr>PS_PipeId = DD_PipeId (Dests s d), PS_SysQueueId = queue_of s k, PS_PendingEventId = None, PS_OsStatus = OS_SUCCESS\<rparr>)" for c d
    by (cases "dest_accepts ?A (Dests s d) s") (auto simp: dest_entry_def not_le)
  have qs: "distinct (map PS_SysQueueId (filter ?on (tx_entries ctx s xs)))" if "distinct (map (\<lambda>d. DD_PipeId (Dests s d)) xs)" for xs
    using that
  proof (induction xs)
    case Nil
    then show ?case by (simp add: tx_entries_def)
  next
    case (Cons d xs)
    have one: "distinct (map PS_SysQueueId (filter ?on (dest_entry ?A s d)))"
      by (auto simp: dest_entry_def split: option.split)
    have "PS_SysQueueId c \<noteq> PS_SysQueueId c'"
      if "c \<in> set (dest_entry ?A s d)" "?on c" "c' \<in> set (tx_entries ctx s xs)" "?on c'" for c c'
    proof
      assume eq: "PS_SysQueueId c = PS_SysQueueId c'"
      from that(3) obtain d' where d': "d' \<in> set xs" "c' \<in> set (dest_entry ?A s d')" by (auto simp: tx_entries_def)
      from ent [of c d] that obtain k where k: "dest_accepts ?A (Dests s d) s = Some k" "PS_SysQueueId c = queue_of s k" by auto
      from ent [of c' d'] that d' obtain l where l: "dest_accepts ?A (Dests s d') s = Some l" "PS_SysQueueId c' = queue_of s l" by auto
      have "k = l" using inj [OF acc(2) [OF k(1)] acc(2) [OF l(1)]] eq k(2) l(2) by simp
      then have "DD_PipeId (Dests s d) = DD_PipeId (Dests s d')"
        using find_pipe_facts(2) acc(1) [OF k(1)] acc(1) [OF l(1)] by metis
      with Cons.prems d'(1) show False by (auto simp: image_iff)
    qed
    then show ?case
      using Cons one by (auto simp: tx_entries_def)
  qed
  have "(\<exists>c \<in> set (tx_entries ctx s ?xs). ?on c \<and> PS_SysQueueId c = queue_of s i) \<longleftrightarrow> (\<exists>d \<in> set ?xs. ?in d i)"
  proof
    assume "\<exists>c \<in> set (tx_entries ctx s ?xs). ?on c \<and> PS_SysQueueId c = queue_of s i"
    then obtain c d where c: "d \<in> set ?xs" "c \<in> set (dest_entry ?A s d)" "?on c" "PS_SysQueueId c = queue_of s i"
      by (auto simp: tx_entries_def)
    from ent [of c d] c obtain k where k: "?in d k" "queue_of s k = queue_of s i" by auto
    have "k = i" using inj [OF acc(2) i k(2)] k(1) by blast
    with c k show "\<exists>d \<in> set ?xs. ?in d i" by blast
  next
    assume "\<exists>d \<in> set ?xs. ?in d i"
    then obtain d where d: "d \<in> set ?xs" "?in d i" by blast
    define c where "c = \<lparr>PS_PipeId = DD_PipeId (Dests s d), PS_SysQueueId = queue_of s i,
        PS_PendingEventId = (None :: CFE_SB_Event option), PS_OsStatus = OS_SUCCESS\<rparr>"
    from ent [of c d] d have "c \<in> set (dest_entry ?A s d)" by (auto simp: c_def)
    with d(1) have "c \<in> set (tx_entries ctx s ?xs)" by (auto simp: tx_entries_def)
    moreover have "?on c" "PS_SysQueueId c = queue_of s i" by (simp_all add: c_def)
    ultimately show "\<exists>c \<in> set (tx_entries ctx s ?xs). ?on c \<and> PS_SysQueueId c = queue_of s i" by blast
  qed
  moreover have "\<forall>c \<in> set (tx_entries ctx s ?xs). ?on c
      \<longrightarrow> (\<forall>q. map_of (Queues s) (PS_SysQueueId c) = Some q \<longrightarrow> max_size q = sizeof_ptr)"
    using fits find_pipe_facts(5) by (auto dest!: tx_entries_ok simp: entry_ok_def) metis
  ultimately show ?thesis
    using put_all_items [OF qs [OF dis]] by (simp add: takes_def list_ex_iff rest_dests [OF rest])
qed

subsection \<open>Who holds a buffer\<close>

definition in_transit :: "sb \<Rightarrow> size_t \<Rightarrow> bool" where
  "in_transit s b \<longleftrightarrow> (\<exists>ts. ring (Links s) InTransitList (map BufLink ts) \<and> b \<in> set ts)"

lemma ring_bufs_unique:
  assumes "ring L h (map BufLink xs)" "ring L h (map BufLink ys)"
  shows "xs = ys"
  using ring_unique [OF assms] inj_map_eq_map [of BufLink xs ys] by (simp add: inj_def)

lemma in_transit_iff:
  assumes "at_rest K s zs ts ids ds"
  shows "in_transit s b \<longleftrightarrow> b \<in> set ts"
  using coreD(5) [OF runningD(4) [OF at_restD(1) [OF assms]]] ring_bufs_unique
  unfolding in_transit_def by metis

text \<open>The number of references to a buffer: one for each place that names it. Lost entries are not among them.\<close>

definition holders :: "sb \<Rightarrow> size_t \<Rightarrow> nat" where
  "holders s b = count (refs s) b + (if owned s b then 1 else 0)"

lemma in_refs:
  assumes "pipes_ok s"
  shows "b \<in># refs s \<longleftrightarrow> (\<exists>i. used s i \<and> (b \<in> set (items (Queues s) (queue_of s i))
     \<or> b \<noteq> 0 \<and> PD_LastBuffer (PipeTbl s ! i) = b))"
proof -
  have "b \<in># refs s \<longleftrightarrow> (\<exists>i<64. b \<in># pipe_refs (PipeTbl s ! i) (Queues s))"
    unfolding refs_def by (simp add: set_mset_sum) blast
  also have "\<dots> \<longleftrightarrow> (\<exists>i. used s i \<and> (b \<in> set (items (Queues s) (queue_of s i))
     \<or> b \<noteq> 0 \<and> PD_LastBuffer (PipeTbl s ! i) = b))"
    by (auto simp: pipe_refs_def used_def queue_of_def split: if_splits)
  finally show ?thesis .
qed

text \<open>A buffer in transit is one that a pipe holds, or that is lost.\<close>

lemma transit_refs: "at_rest K s zs ts ids ds \<Longrightarrow> in_transit s b \<longleftrightarrow> b \<in># refs s + K"
  by (simp only: in_transit_iff at_restD(2))

lemma view_frame:
  assumes "same_pipes s s'" "length (PipeTbl s) = 64"
  shows "used s' i = used s i" "used s i \<Longrightarrow> queue_of s' i = queue_of s i"
    "used s i \<Longrightarrow> PD_LastBuffer (PipeTbl s' ! i) = PD_LastBuffer (PipeTbl s ! i)"
  using pipe_keyD(1-3) [OF same_pipesD(2) [OF assms(1), of i]] assms(2)
  by (auto simp: used_def queue_of_def CFE_SB_PipeDescIsUsed_def)

subsection \<open>A new subscriber\<close>

lemma enter_reporting:
  assumes "enter_subscription A m p lim scope s = Some (st, e, c, s')"
  shows "SubscriptionReporting s' = SubscriptionReporting s"
proof -
  have b: "SubscriptionReporting (snd (CFE_SB_GetDestinationBlk t)) = SubscriptionReporting t" for t
    by (simp add: CFE_SB_GetDestinationBlk_def upd_stat_def split: prod.split sum.split)
  have a: "SubscriptionReporting (snd (add_destination r p lim scope t)) = SubscriptionReporting t" for r t
    using b [of t]
    by (cases "CFE_SB_GetDestinationBlk t")
      (auto simp: add_destination_def Let_def upd_stat_def upd_dest_def split: option.split prod.split)
  have r: "SubscriptionReporting s1 = SubscriptionReporting s" if "subscribe_route A m p scope s = Some (Inr (q, c', s1))" for q c' s1
    using that by (auto simp: subscribe_route_def upd_stat_def bind_eq_Some_conv split: option.splits if_splits)
  from assms obtain x where x: "subscribe_route A m p scope s = Some x"
    by (auto simp: enter_subscription_def bind_eq_Some_conv)
  show ?thesis
  proof (cases x)
    case (Inl y)
    then show ?thesis using assms x by (cases y) (simp add: enter_subscription_def)
  next
    case (Inr y)
    then obtain q c' s1 where y: "x = Inr (q, c', s1)" by (metis prod.exhaust)
    from assms x y obtain d e' where d: "scan_dests (Dests s1) (CFE_SBR_GetDestListHeadPtr (Routes s1) q) p 0 = Some (d, e')"
      by (auto simp: enter_subscription_def bind_eq_Some_conv)
    have "s' = (if d = 0 then snd (add_destination q p lim scope s1) else s1)"
      using assms x y d by (simp add: enter_subscription_def split: if_splits prod.splits)
    then show ?thesis using a r [OF x [unfolded y]] by simp
  qed
qed

text \<open>
  When the subscription is not reported itself, the new destination is the first of the list, and
  the pipe takes the next message unless its queue is full or it ignores the sender.
\<close>

lemma subscribe_takes:
  assumes rest: "at_rest K s zs ts ids ds" and c: "caller_ok ctx"
    and quiet: "\<not> SubscriptionReporting s \<or> scope \<noteq> CFE_SB_MSG_GLOBAL"
    and call: "CFE_SB_SubscribeFull ctx m p q lim scope s = Some (CFE_SUCCESS, s')" and new: "p \<notin> set (subs_of s m)"
    and p: "find_pipe p s = Some i" "0 < lim" "has_room (Queues s) (queue_of s i)"
      "PD_Opts (PipeTbl s ! i) AND CFE_SB_PIPEOPTS_IGNOREMINE = 0 \<or> PD_AppId (PipeTbl s ! i) \<noteq> A"
  shows "takes A s' m i" "PipeTbl s' = PipeTbl s" "Queues s' = Queues s" "PoolHdl s' = PoolHdl s"
    "Pools s' \<in> {Pools s, snd (CFE_ES_GetPoolBuf True (PoolHdl s) sizeof_DestinationD (Pools s))}"
proof -
  obtain st e coll s1 ids' ds' where E: "enter_subscription (caller_app ctx) m p lim scope s = Some (st, e, coll, s1)"
     "running s1 (mset zs + K) zs ts ids' ds'"
     "subscribers ids' ds' s1 = (if st = CFE_SUCCESS \<and> p \<notin> set (subscribers ids ds s m)
          then (subscribers ids ds s)(m := p # subscribers ids ds s m) else subscribers ids ds s)"
     "st = CFE_SUCCESS \<and> p \<notin> set (subscribers ids ds s m)
          \<longrightarrow> fresh_dest p lim scope (Dests s1 (hd (route_list ids' ds' m)))"
     "PoolHdl s1 = PoolHdl s"
     "Pools s1 \<in> {Pools s, snd (CFE_ES_GetPoolBuf True (PoolHdl s) sizeof_DestinationD (Pools s))}"
     "Queues s1 = Queues s" "PipeTbl s1 = PipeTbl s" "Bufs s1 = Bufs s"
    using enter_run [OF at_restD(1) [OF rest], of ctx m p lim scope] by blast
  have r1: "at_rest K s1 zs ts ids' ds'" by (rule at_rest_frame [OF rest E(2,8,7,9)])
  have fin: "finish_subscription ctx m p q scope st e coll s1 = Some (CFE_SUCCESS, s')"
    using call E(1) by (simp add: CFE_SB_SubscribeFull_def)
  obtain t ts' where F: "finish_subscription ctx m p q scope st e coll s1 = Some (st, t)"
     "\<not> SubscriptionReporting s1 \<or> scope \<noteq> CFE_SB_MSG_GLOBAL \<longrightarrow> quiet s1 t"
    using finish_run [OF r1 c, of m p q scope st e coll] by blast
  have st: "st = CFE_SUCCESS" "t = s'" using fin F(1) by simp_all
  have qt: "quiet s1 s'" using F(2) quiet enter_reporting [OF E(1)] st by auto
  have rest': "at_rest K s' zs ts ids' ds'" using r1 quiet_at_rest [OF qt] by simp
  note Q = quietD [OF qt]
  show tbl: "PipeTbl s' = PipeTbl s" "Queues s' = Queues s" "PoolHdl s' = PoolHdl s"
    "Pools s' \<in> {Pools s, snd (CFE_ES_GetPoolBuf True (PoolHdl s) sizeof_DestinationD (Pools s))}"
    using E(5-8) by (simp_all add: Q)
  have np: "p \<notin> set (subscribers ids ds s m)" using new by (simp add: rest_subs [OF rest])
  have f: "fresh_dest p lim scope (Dests s' (hd (route_list ids' ds' m)))" using E(4) st np by (simp add: Q)
  have "subscribers ids' ds' s1 m \<noteq> []" using E(3) st np by simp
  then have "hd (route_list ids' ds' m) \<in> set (route_list ids' ds' m)"
    by (intro hd_in_set) (auto simp: subscribers_def pipes_of_def)
  moreover have "dest_accepts A (Dests s' (hd (route_list ids' ds' m))) s' = Some i"
    using f p(1,4) tbl(1) by (auto simp: dest_accepts_def fresh_dest_def find_pipe_def Let_def CFE_SB_PipeDescIsMatch_def
        split: if_splits option.splits)
  moreover have "DD_BuffCount (Dests s' (hd (route_list ids' ds' m))) < DD_MsgId2PipeLim (Dests s' (hd (route_list ids' ds' m)))"
    using f p(2) by (simp add: fresh_dest_def)
  ultimately show "takes A s' m i"
    using p(3) unfolding takes_def list_ex_iff rest_dests [OF rest'] tbl(2) tbl_cong(4) [OF tbl(1)] by blast
qed

end
