(* ===== verification/Sb_Demo.thy ===== *)
theory Sb_Demo
  imports Sb_View
begin

section \<open>Software bus: a concrete run\<close>

text \<open>
  A run of the bus from \<open>CFE_SB_EarlyInit\<close> on, on which the properties are applied: one
  application creates a pipe and subscribes it to a message ID, takes a zero-copy buffer, and sends a
  message.  The pool is the one of the default configuration, with its 17 block sizes.
\<close>

definition demo_desc0 :: GenPoolBD where
  "demo_desc0 = \<lparr>CheckBits = 0, Allocated = 0, ActualSize = 0, NextOffset = 0\<rparr>"

definition demo_table :: es_pools where
  "demo_table = \<lparr>MemPoolTable = replicate 10 \<lparr>Pool = zero_pool (\<lambda>_. demo_desc0), PoolID = 0, BaseAddr = 0, OwnerAppID = 0\<rparr>,
     LastMemPoolId = CFE_ES_POOLID_BASE\<rparr>"

definition demo_start :: sb where
  "demo_start = \<lparr>PipeTbl = [], LastPipeId = 0, SubscriptionReporting = False, StopRecurseFlags = [],
     HKTlm = \<lparr>CommandCounter = 0, CommandErrorCounter = 0, NoSubscribersCounter = 0,
            MsgSendErrorCounter = 0, MsgReceiveErrorCounter = 0, InternalErrorCounter = 0,
            CreatePipeErrorCounter = 0, SubscribeErrorCounter = 0, PipeOptsErrorCounter = 0,
            DuplicateSubscriptionsCounter = 0, GetPipeIdByNameErrorCounter = 0,
            PipeOverflowErrorCounter = 0, MsgLimitErrorCounter = 0\<rparr>,
     StatTlm = \<lparr>MsgIdsInUse = 0, PeakMsgIdsInUse = 0, PipesInUse = 0, PeakPipesInUse = 0,
            MemInUse = 0, PeakMemInUse = 0, SubscriptionsInUse = 0, PeakSubscriptionsInUse = 0,
            SBBuffersInUse = 0, PeakSBBuffersInUse = 0\<rparr>,
     Bufs = (\<lambda>_. \<lparr>BF_DestRouteId = 0, BF_AppId = 0, BF_MsgId = 0, BF_AllocatedSize = 0, BF_ContentSize = 0,
            BF_UseCount = 0, BF_Content = []\<rparr>),
     Links = (\<lambda>l. \<lparr>Next = l, Prev = l\<rparr>),
     Dests = (\<lambda>_. \<lparr>DD_PipeId = 0, DD_Active = 0, DD_MsgId2PipeLim = 0, DD_BuffCount = 0, DD_DestCnt = 0,
            DD_Scope = 0, DD_Prev = 0, DD_Next = 0\<rparr>),
     Routes = \<lparr>RoutingTbl = [], RouteIdxTop = 0, MsgMap = []\<rparr>, Pools = demo_table, PoolHdl = 0, Queues = [],
     EventLog = []\<rparr>"

definition demo_ctx :: sb_caller where
  "demo_ctx = \<lparr>CallerApp = Some 0x110001, TaskIndex = Some 0,
     TimeNow = \<lparr>Seconds = 1000, Subseconds = 0\<rparr>, ClockStart = 0, ClockRead = 0\<rparr>"

subsection \<open>The pool\<close>

definition demo_sizes :: "size_t list" where
  "demo_sizes = [8, 16, 20, 36, 64, 96, 128, 160, 256, 512, 1024, 2048, 4096, 8192, 16384, 32768, 32896]"

definition demo_pool0 :: GenPoolRecord where
  "demo_pool0 = \<lparr>PoolTotalSize = 524288, PoolMaxOffset = 524288, AlignMask = 15, TailPosition = 0,
     Retrieve = CFE_ES_MemPoolDirectRetrieve, Commit = CFE_ES_MemPoolDirectCommit,
     PoolAllocationCount = 0, ValidationErrorCount = 0, NumBuckets = 17,
     Buckets = map (\<lambda>n. zero_bucket\<lparr>BlockSize := n\<rparr>) demo_sizes, Store = (\<lambda>_. demo_desc0)\<rparr>"

lemma blank_list: "\<forall>b \<in> set l. blank b \<Longrightarrow> l = map (\<lambda>n. zero_bucket\<lparr>BlockSize := n\<rparr>) (map BlockSize l)"
proof (induction l)
  case Nil
  then show ?case by simp
next
  case (Cons b l)
  have "b = zero_bucket\<lparr>BlockSize := BlockSize b\<rparr>"
    using Cons.prems by (cases b) (auto simp: blank_def zero_bucket_def)
  with Cons show ?case by simp
qed

lemma demo_sorted:
  "bubble_sort (map (\<lambda>n. zero_bucket\<lparr>BlockSize := n\<rparr>) CFE_SB_MemPoolDefSize)
     = map (\<lambda>n. zero_bucket\<lparr>BlockSize := n\<rparr>) demo_sizes"
proof -
  let ?l = "map (\<lambda>n. zero_bucket\<lparr>BlockSize := n\<rparr>) CFE_SB_MemPoolDefSize"
  have m: "map BlockSize ?l = rev demo_sizes"
    by (simp add: CFE_SB_MemPoolDefSize_def demo_sizes_def)
  have "sort (rev demo_sizes) = map BlockSize (bubble_sort ?l)"
    by (rule properties_for_sort) (use bubble_sort_sorted [of ?l] in \<open>simp_all only: m\<close>)
  moreover have "sort (rev demo_sizes) = demo_sizes"
    by (rule properties_for_sort) (simp_all add: demo_sizes_def)
  moreover have "\<forall>b \<in> set (bubble_sort ?l). blank b"
    by (rule bubble_sort_blank) (auto simp: blank_def zero_bucket_def)
  ultimately show ?thesis using blank_list [of "bubble_sort ?l"] by simp
qed

lemma demo_gen_pool:
  "CFE_ES_GenPoolInitialize (zero_pool (\<lambda>_. demo_desc0)) 0 CFE_PLATFORM_SB_BUF_MEMORY_BYTES CFE_ES_POOL_ALIGNMENT 17
     CFE_SB_MemPoolDefSize CFE_ES_MemPoolDirectRetrieve CFE_ES_MemPoolDirectCommit = (CFE_SUCCESS, demo_pool0)"
proof -
  let ?P = "zero_pool (\<lambda>_. demo_desc0)"
  have c: "map (\<lambda>i. (Buckets ?P ! i)\<lparr>BlockSize := CFE_SB_MemPoolDefSize ! i\<rparr>) [0..<17]
      = map (\<lambda>n. zero_bucket\<lparr>BlockSize := n\<rparr>) CFE_SB_MemPoolDefSize"
    by (simp add: zero_pool_def CFE_PLATFORM_ES_POOL_MAX_BUCKETS_def CFE_SB_MemPoolDefSize_def upt_rec numeral_nat)
  have z: "BlockSize ((map (\<lambda>n. zero_bucket\<lparr>BlockSize := n\<rparr>) demo_sizes @ []) ! 0) = 8"
    by (simp add: demo_sizes_def)
  have u: "unat (17 :: uint16) = 17" by simp
  have d: "drop 17 (Buckets ?P) = []" by (simp add: zero_pool_def CFE_PLATFORM_ES_POOL_MAX_BUCKETS_def)
  have mask: "(if CFE_ES_POOL_ALIGNMENT \<le> 1 then 0 else CFE_ES_POOL_ALIGNMENT - 1) = 15"
    "(15 :: size_t) AND CFE_ES_POOL_ALIGNMENT = 0" by code_simp+
  show ?thesis
    unfolding CFE_ES_GenPoolInitialize_def Let_def Store_zero_pool mask u c d demo_sorted
    by (simp add: demo_pool0_def zero_pool_def CFE_PLATFORM_SB_BUF_MEMORY_BYTES_def demo_sizes_def)
qed

definition demo_pools :: es_pools where
  "demo_pools = demo_table\<lparr>MemPoolTable := (MemPoolTable demo_table)
     [1 := \<lparr>Pool = demo_pool0, PoolID = 0x140001, BaseAddr = 0x10000, OwnerAppID = 0x110001\<rparr>],
     LastMemPoolId := 0x140001\<rparr>"

lemma demo_find: "CFE_ResourceId_FindNext (LastMemPoolId demo_table) CFE_PLATFORM_ES_MAX_MEMORY_POOLS
    (Some (CFE_ES_CheckMemPoolSlotUsed demo_table)) = 0x140001"
  by code_simp

lemma demo_create:
  "CFE_ES_PoolCreateEx [] True 0x110001 True 0x10000 CFE_PLATFORM_SB_BUF_MEMORY_BYTES
     (of_nat CFE_PLATFORM_ES_POOL_MAX_BUCKETS) (Some CFE_SB_MemPoolDefSize) False demo_table
     = ((CFE_SUCCESS, Some 0x140001), demo_pools)"
proof -
  have n: "(of_nat CFE_PLATFORM_ES_POOL_MAX_BUCKETS :: uint16) = 17" "CFE_PLATFORM_ES_POOL_MAX_BUCKETS = 17"
    by (simp_all add: CFE_PLATFORM_ES_POOL_MAX_BUCKETS_def)
  have m: "\<not> CFE_PLATFORM_SB_BUF_MEMORY_BYTES < CFE_ES_GenPoolCalcMinSize 17 CFE_SB_MemPoolDefSize 1" by code_simp
  have l: "CFE_ES_LocateMemPoolRecordByID 0x140001 = Some 1" by code_simp
  have p: "Pool (MemPoolTable demo_table ! Suc 0) = zero_pool (\<lambda>_. demo_desc0)" by (simp add: demo_table_def)
  show ?thesis
    unfolding CFE_ES_PoolCreateEx_def n demo_find
    using m by (simp add: l p demo_gen_pool demo_pools_def)
qed

subsection \<open>Initialisation\<close>

definition demo_init :: sb where
  "demo_init = snd (CFE_SB_EarlyInit True 0x110001 0x10000 demo_start)"

lemma demo_init_run: "CFE_SB_EarlyInit True 0x110001 0x10000 demo_start = (CFE_SUCCESS, demo_init)"
  "Pools demo_init = demo_pools" "PoolHdl demo_init = 0x140001" "Queues demo_init = []"
  "PipeTbl demo_init = replicate 64 blank_pipe" "LastPipeId demo_init = CFE_SB_PIPEID_BASE"
proof -
  have "Pools demo_start = demo_table" "Queues demo_start = []" by (simp_all add: demo_start_def)
  then show "CFE_SB_EarlyInit True 0x110001 0x10000 demo_start = (CFE_SUCCESS, demo_init)"
    "Pools demo_init = demo_pools" "PoolHdl demo_init = 0x140001" "Queues demo_init = []"
    "PipeTbl demo_init = replicate 64 blank_pipe" "LastPipeId demo_init = CFE_SB_PIPEID_BASE"
    by (simp_all add: demo_init_def CFE_SB_EarlyInit_def CFE_SB_InitBuffers_def CFE_SB_InitPipeTbl_def Let_def
        demo_create blank_pipe_def CFE_PLATFORM_SB_MAX_PIPES_def)
qed

lemma demo_memory: "length (MemPoolTable (Pools demo_start)) = unat CFE_PLATFORM_ES_MAX_MEMORY_POOLS"
  "unat (0x10000 :: size_t) + 524288 < 2 ^ 64"
  by (simp_all add: demo_start_def demo_table_def CFE_PLATFORM_ES_MAX_MEMORY_POOLS_def)

lemma demo_start_run: "sb_history {#} demo_init"
  by (rule sb_history.init [OF demo_init_run(1) demo_memory])

lemma demo_reach0: "sb_reach demo_init"
  unfolding sb_reach_def using demo_start_run ..

subsection \<open>A pipe\<close>

definition demo_env :: os_env where
  "demo_env = \<lparr>free_id = Some 0x20001, mq_open_ok = True, TruncateQueueDepth = 0\<rparr>"

definition demo_pipe :: sb where
  "demo_pipe = snd (CFE_SB_CreatePipe demo_env demo_ctx True 4 (Some ''CMD'') demo_init)"

definition demo_slot :: PipeD where
  "demo_slot = blank_pipe\<lparr>PD_PipeId := 0x160001, PD_AppId := 0x110001, PD_SysQueueId := 0x20001, PD_MaxQueueDepth := 4\<rparr>"

definition demo_queue :: os_queue where
  "demo_queue = \<lparr>q_name = ''CMD'', max_depth = 4, max_size = 8, q_items = [], q_fault = False, q_stuck = False\<rparr>"

lemma demo_pipe_run:
  "CFE_SB_CreatePipe demo_env demo_ctx True 4 (Some ''CMD'') demo_init = ((CFE_SUCCESS, Some 0x160001), demo_pipe)"
  "PipeTbl demo_pipe = (replicate 64 blank_pipe)[1 := demo_slot]" "Queues demo_pipe = [(0x20001, demo_queue)]"
  "Pools demo_pipe = demo_pools" "PoolHdl demo_pipe = 0x140001"
proof -
  have f: "CFE_ResourceId_FindNext CFE_SB_PIPEID_BASE CFE_PLATFORM_SB_MAX_PIPES
      (Some (CFE_SB_CheckPipeDescSlotUsed demo_init)) = 0x160001"
  proof -
    have "CFE_SB_CheckPipeDescSlotUsed demo_init = (\<lambda>x. CFE_SB_LocatePipeDescByID x = None)"
      by (auto simp: CFE_SB_CheckPipeDescSlotUsed_def demo_init_run fun_eq_iff dest: locate_less split: option.split)
    moreover have "CFE_ResourceId_FindNext CFE_SB_PIPEID_BASE CFE_PLATFORM_SB_MAX_PIPES
        (Some (\<lambda>x. CFE_SB_LocatePipeDescByID x = None)) = 0x160001" by code_simp
    ultimately show ?thesis by simp
  qed
  have l: "CFE_SB_LocatePipeDescByID 0x160001 = Some 1" by code_simp
  have q: "OS_QueueCreate demo_env True (Some ''CMD'') 4 sizeof_ptr [] = (Inr 0x20001, [(0x20001, demo_queue)])"
    by (simp add: OS_QueueCreate_def demo_env_def OS_QueueCreate_Impl_def OS_MAX_API_NAME_def OS_CHECK_SIZE_def
        sizeof_ptr_def OS_QUEUE_MAX_DEPTH_def demo_queue_def)
  have d: "\<not> OS_QUEUE_MAX_DEPTH < 4" by code_simp
  obtain st out where call: "CFE_SB_CreatePipe demo_env demo_ctx True 4 (Some ''CMD'') demo_init = ((st, out), demo_pipe)"
    by (metis demo_pipe_def prod.collapse)
  have len: "length (PipeTbl demo_init) = 64" by (simp add: demo_init_run)
  have n: "(4 :: uint16) \<noteq> 0" "Some ''CMD'' \<noteq> Some []" "unat (4 :: uint16) = 4" by simp_all
  have app: "caller_app demo_ctx = 0x110001" by (simp add: demo_ctx_def caller_app_def)
  have "st = CFE_SUCCESS \<and> out = Some 0x160001 \<and> Queues demo_pipe = [(0x20001, demo_queue)]
      \<and> PipeTbl demo_pipe = (replicate 64 blank_pipe)[1 := demo_slot] \<and> same_store demo_init demo_pipe"
    using create_cases [OF len refl call] unfolding demo_init_run(4-6) f l n(3) q demo_slot_def app using n d by auto
  then show "CFE_SB_CreatePipe demo_env demo_ctx True 4 (Some ''CMD'') demo_init = ((CFE_SUCCESS, Some 0x160001), demo_pipe)"
    "PipeTbl demo_pipe = (replicate 64 blank_pipe)[1 := demo_slot]" "Queues demo_pipe = [(0x20001, demo_queue)]"
    "Pools demo_pipe = demo_pools" "PoolHdl demo_pipe = 0x140001"
    using call by (simp_all only: same_store_def demo_init_run(2,3))
qed

lemma demo_env_ok: "env_ok demo_env demo_init"
  by (simp add: env_ok_def demo_init_run(4))

lemma demo_caller [simp]: "caller_ok demo_ctx" "caller_app demo_ctx = 0x110001" "CallerApp demo_ctx = Some 0x110001"
  by (simp_all add: caller_ok_def caller_app_def demo_ctx_def CFE_ES_APPID_UNDEFINED_def CFE_RESOURCEID_UNDEFINED_def)

lemma demo_reach1: "sb_history {#} demo_pipe" "sb_reach demo_pipe"
proof -
  show "sb_history {#} demo_pipe"
    by (rule lossless_history [OF demo_start_run lossless_step.create [OF demo_env_ok demo_pipe_run(1)]])
  then show "sb_reach demo_pipe" unfolding sb_reach_def ..
qed

lemma demo_rest1: "at_rest {#} demo_pipe [] [] [] (\<lambda>_. [])"
  by (rule create_run(1) [OF early_init_run [OF demo_init_run(1) demo_memory] demo_env_ok demo_pipe_run(1)])

text \<open>The pipe table stays the same from here on.\<close>

lemma demo_slot_run:
  assumes "PipeTbl s = (replicate 64 blank_pipe)[1 := demo_slot]"
  shows "find_pipe 0x160001 s = Some 1" "queue_of s 1 = 0x20001" "used s 1" "PD_AppId (PipeTbl s ! 1) = 0x110001"
    "PD_Opts (PipeTbl s ! 1) = 0"
proof -
  have l: "CFE_SB_LocatePipeDescByID 0x160001 = Some 1" by code_simp
  have t: "PipeTbl s ! 1 = demo_slot" unfolding assms by (rule nth_list_update_eq) simp
  show f: "find_pipe 0x160001 s = Some 1"
    unfolding find_pipe_def l CFE_SB_PipeDescIsMatch_def Let_def by (simp only: option.case t) (simp add: demo_slot_def)
  show "used s 1" by (rule find_pipe_facts(5) [OF f])
  show "queue_of s 1 = 0x20001" "PD_AppId (PipeTbl s ! 1) = 0x110001" "PD_Opts (PipeTbl s ! 1) = 0"
    by (simp_all only: queue_of_def t) (simp_all add: demo_slot_def blank_pipe_def)
qed

subsection \<open>A subscription\<close>

definition demo_mid :: CFE_SB_MsgId where "demo_mid = 0x1880"

definition demo_sub :: sb where
  "demo_sub = snd (the (CFE_SB_SubscribeFull demo_ctx demo_mid 0x160001 CFE_SB_DEFAULT_QOS 4 CFE_SB_MSG_LOCAL demo_pipe))"

definition demo_pools2 :: es_pools where
  "demo_pools2 = snd (CFE_ES_GetPoolBuf True 0x140001 sizeof_DestinationD demo_pools)"

lemma demo_alloc:
  "case fst (CFE_ES_GetPoolBuf True 0x140001 sizeof_DestinationD demo_pools) of Inl e \<Rightarrow> False | Inr (a, Stat) \<Rightarrow> 0 \<le> Stat"
  "case fst (CFE_ES_GetPoolBuf True 0x140001 (16 + CFE_SB_BUFFERD_CONTENT_OFFSET) demo_pools) of Inl e \<Rightarrow> False | Inr (a, Stat) \<Rightarrow> 0 \<le> Stat"
  "case fst (CFE_ES_GetPoolBuf True 0x140001 (16 + CFE_SB_BUFFERD_CONTENT_OFFSET) demo_pools2) of Inl e \<Rightarrow> False | Inr (a, Stat) \<Rightarrow> 0 \<le> Stat"
  by code_simp+

lemma demo_address:
  "fst (CFE_ES_GetPoolBuf True 0x140001 (16 + CFE_SB_BUFFERD_CONTENT_OFFSET) demo_pools) = Inr (0x10020, 80)"
  "fst (CFE_ES_GetPoolBuf True 0x140001 (16 + CFE_SB_BUFFERD_CONTENT_OFFSET) demo_pools2) = Inr (0x10060, 80)"
  by code_simp+

lemma demo_may: "may_subscribe demo_ctx demo_mid 0x160001 CFE_SB_MSG_LOCAL demo_pipe"
proof -
  have "CFE_SB_IsValidMsgId demo_mid" "CFE_SB_MSG_LOCAL \<le> 1" by code_simp+
  then show ?thesis
    unfolding may_subscribe_def demo_slot_run(1) [OF demo_pipe_run(2)] option.case
      demo_slot_run(4) [OF demo_pipe_run(2)] by simp
qed

lemma demo_sub_run:
  "CFE_SB_SubscribeFull demo_ctx demo_mid 0x160001 CFE_SB_DEFAULT_QOS 4 CFE_SB_MSG_LOCAL demo_pipe = Some (CFE_SUCCESS, demo_sub)"
  "sb_reach demo_sub" "PipeTbl demo_sub = (replicate 64 blank_pipe)[1 := demo_slot]" "Queues demo_sub = [(0x20001, demo_queue)]"
  "PoolHdl demo_sub = 0x140001" "Pools demo_sub \<in> {demo_pools, demo_pools2}" "takes 0x110001 demo_sub demo_mid 1"
  "subs_of demo_sub demo_mid = [0x160001]" "sb_history {#} demo_sub"
proof -
  have e: "subscribers [] (\<lambda>_. []) demo_pipe = (\<lambda>_. [])" by (simp add: fun_eq_iff subscribers_def route_list_def pipes_of_def)
  have room: "can_alloc sizeof_DestinationD demo_pipe"
    unfolding can_alloc_def demo_pipe_run(4,5) by (rule demo_alloc(1))
  obtain st s' ts' ids' ds' where S: "CFE_SB_SubscribeFull demo_ctx demo_mid 0x160001 CFE_SB_DEFAULT_QOS 4 CFE_SB_MSG_LOCAL demo_pipe = Some (st, s')"
    "at_rest {#} s' [] ts' ids' ds'"
    "st = subscribe_status (may_subscribe demo_ctx demo_mid 0x160001 CFE_SB_MSG_LOCAL demo_pipe) []
       (subscribers [] (\<lambda>_. []) demo_pipe demo_mid) (can_alloc sizeof_DestinationD demo_pipe) demo_mid 0x160001"
    "subscribers ids' ds' s' = (if st = CFE_SUCCESS \<and> 0x160001 \<notin> set (subscribers [] (\<lambda>_. []) demo_pipe demo_mid)
       then (subscribers [] (\<lambda>_. []) demo_pipe)(demo_mid := 0x160001 # subscribers [] (\<lambda>_. []) demo_pipe demo_mid)
       else subscribers [] (\<lambda>_. []) demo_pipe)"
    using subscribe_run [OF demo_rest1 demo_caller(1), of demo_mid "0x160001" CFE_SB_DEFAULT_QOS 4 CFE_SB_MSG_LOCAL]
    by (elim exE conjE) (rule that; assumption)
  have st: "st = CFE_SUCCESS" using S(3) demo_may room by (simp add: subscribe_status_def e)
  show call: "CFE_SB_SubscribeFull demo_ctx demo_mid 0x160001 CFE_SB_DEFAULT_QOS 4 CFE_SB_MSG_LOCAL demo_pipe
      = Some (CFE_SUCCESS, demo_sub)" and s': "subs_of demo_sub demo_mid = [0x160001]"
    using S(1,4) rest_subs [OF S(2)] by (simp_all add: demo_sub_def st e)
  show "sb_history {#} demo_sub"
    by (rule lossless_history [OF demo_reach1(1) lossless_step.subscribe [OF demo_caller(1) call]])
  then show "sb_reach demo_sub" unfolding sb_reach_def ..
  have room: "has_room (Queues demo_pipe) (queue_of demo_pipe 1)"
    by (simp add: has_room_def demo_pipe_run(3) demo_slot_run(2) [OF demo_pipe_run(2), simplified]) (simp add: demo_queue_def)
  have scope: "\<not> SubscriptionReporting demo_pipe \<or> CFE_SB_MSG_LOCAL \<noteq> CFE_SB_MSG_GLOBAL"
    by (rule disjI2) code_simp
  have opts: "PD_Opts (PipeTbl demo_pipe ! 1) AND CFE_SB_PIPEOPTS_IGNOREMINE = 0 \<or> PD_AppId (PipeTbl demo_pipe ! 1) \<noteq> 0x110001"
    unfolding demo_slot_run(5) [OF demo_pipe_run(2)] by simp
  have new: "0x160001 \<notin> set (subs_of demo_pipe demo_mid)" by (simp add: rest_subs [OF demo_rest1] e)
  note T = subscribe_takes [OF demo_rest1 demo_caller(1) scope call new demo_slot_run(1) [OF demo_pipe_run(2)] _ room opts]
  show "takes 0x110001 demo_sub demo_mid 1" "PipeTbl demo_sub = (replicate 64 blank_pipe)[1 := demo_slot]"
    "Queues demo_sub = [(0x20001, demo_queue)]" "PoolHdl demo_sub = 0x140001" "Pools demo_sub \<in> {demo_pools, demo_pools2}"
    using T demo_pipe_run by (simp_all add: demo_pools2_def del: One_nat_def)
qed

lemma demo_room: "can_alloc (16 + CFE_SB_BUFFERD_CONTENT_OFFSET) demo_sub"
  using demo_sub_run(6) unfolding can_alloc_def demo_sub_run(5)
  by (elim insertE emptyE) (simp_all only: demo_alloc(2,3))

lemma demo_readable: "items (Queues demo_sub) (queue_of demo_sub 1) = []" "readable demo_sub 1"
proof -
  show "readable demo_sub 1" by (simp add: readable_def demo_sub_run(4) demo_queue_def)
  show "items (Queues demo_sub) (queue_of demo_sub 1) = []"
    unfolding demo_slot_run(2) [OF demo_sub_run(3)] by (simp add: items_def demo_sub_run(4) demo_queue_def)
qed

subsection \<open>A message\<close>

text \<open>A command packet of 16 bytes, sent from a copy and from a zero-copy buffer.\<close>

definition demo_bytes :: message where
  "demo_bytes = [0x18, 0x80, 0xC0, 0, 0, 9, 0, 0, 1, 2, 3, 4, 5, 6, 7, 8]"

lemma demo_sendable: "sendable (Some demo_bytes) demo_mid 16"
  by code_simp

definition demo_handle :: size_t where
  "demo_handle = the (fst (CFE_SB_AllocateMessageBuffer demo_ctx 16 demo_sub))"

definition demo_buffer :: size_t where
  "demo_buffer = demo_handle - CFE_SB_BUFFERD_CONTENT_OFFSET"

definition demo_own :: sb where
  "demo_own = store_msg demo_buffer (Some demo_bytes) (snd (CFE_SB_AllocateMessageBuffer demo_ctx 16 demo_sub))"

lemma demo_own_run:
  "sb_reach demo_own" "owned demo_own demo_buffer" "demo_handle = demo_buffer + CFE_SB_BUFFERD_CONTENT_OFFSET"
  "demo_handle \<noteq> 0" "BF_Content (Bufs demo_own demo_buffer) = demo_bytes" "sb_history {#} demo_own"
proof -
  let ?s = "snd (CFE_SB_AllocateMessageBuffer demo_ctx 16 demo_sub)"
  obtain zs ts ids ds where rest: "at_rest {#} demo_sub zs ts ids ds"
    using history_inv [OF demo_sub_run(9)] by (auto simp: sb_inv_def)
  have al: "CFE_SB_AllocateMessageBuffer demo_ctx 16 demo_sub = (fst (CFE_SB_AllocateMessageBuffer demo_ctx 16 demo_sub), ?s)" by simp
  note A = alloc_run [OF rest demo_caller(1) al]
  have "fst (CFE_SB_AllocateMessageBuffer demo_ctx 16 demo_sub) \<noteq> None" using A(8) demo_room by simp
  then have f: "fst (CFE_SB_AllocateMessageBuffer demo_ctx 16 demo_sub) = Some demo_handle" by (simp add: demo_handle_def)
  from A(2) [OF f] obtain b where b: "demo_handle = b + CFE_SB_BUFFERD_CONTENT_OFFSET" "at_rest {#} ?s (zs @ [b]) ts ids ds"
    "BF_Content (Bufs ?s b) = replicate (unat (16 :: size_t)) 0" by blast
  have bb: "demo_buffer = b" by (simp add: demo_buffer_def b(1))
  show "demo_handle = demo_buffer + CFE_SB_BUFFERD_CONTENT_OFFSET" by (simp add: bb b(1))
  have r1: "sb_history {#} ?s" by (rule lossless_history [OF demo_sub_run(9) lossless_step.alloc [OF demo_caller(1) al]])
  have o1: "owned ?s demo_buffer" by (simp add: owned_iff [OF b(2)] bb)
  have l: "length demo_bytes = length (BF_Content (Bufs ?s demo_buffer))" by (simp add: bb b(3) demo_bytes_def)
  show "sb_history {#} demo_own" unfolding demo_own_def by (rule lossless_history [OF r1 lossless_step.store [OF o1 l]])
  then show "sb_reach demo_own" unfolding sb_reach_def ..
  show "owned demo_own demo_buffer" using o1 by (simp add: demo_own_def store_msg_def owned_def)
  show "BF_Content (Bufs demo_own demo_buffer) = demo_bytes" by (simp add: demo_own_def store_msg_def upd_buf_def)
  have "demo_handle \<in> {0x10060, 0x100a0}"
  proof -
    have "CFE_SB_GetBufferFromPool 16 demo_sub = (Some (case fst (CFE_ES_GetPoolBuf True 0x140001
        (16 + CFE_SB_BUFFERD_CONTENT_OFFSET) (Pools demo_sub)) of Inr (a, Stat) \<Rightarrow> a), snd (CFE_SB_GetBufferFromPool 16 demo_sub))"
      using demo_room unfolding can_alloc_def CFE_SB_GetBufferFromPool_def demo_sub_run(5)
      by (auto simp: Let_def split: sum.splits prod.splits)
    moreover have "(case fst (CFE_ES_GetPoolBuf True 0x140001 (16 + CFE_SB_BUFFERD_CONTENT_OFFSET) (Pools demo_sub)) of
        Inr (a, Stat) \<Rightarrow> a) \<in> {0x10020, 0x10060}"
      using demo_sub_run(6) by (elim insertE emptyE) (simp_all only: demo_address, simp_all)
    ultimately have "fst (CFE_SB_AllocateMessageBuffer demo_ctx 16 demo_sub) \<in> {Some (0x10020 + 64), Some (0x10060 + 64)}"
      by (auto simp: CFE_SB_AllocateMessageBuffer_def CFE_MISSION_SB_MAX_SB_MSG_SIZE_def Let_def CFE_SB_BUFFERD_CONTENT_OFFSET_def
          split: prod.splits)
    then show ?thesis by (auto simp: demo_handle_def)
  qed
  then show "demo_handle \<noteq> 0" by auto
qed

text \<open>Neither the allocation nor the write changes what the pipe takes.\<close>

lemma takes_cong:
  assumes "Dests s' = Dests s" "Routes s' = Routes s" "Queues s' = Queues s" "PipeTbl s' = PipeTbl s"
  shows "takes A s' m i = takes A s m i" "subs_of s' = subs_of s"
proof -
  have d: "dest_list s' m = dest_list s m" for m
    by (simp add: dest_list_def routed_def get_route_id_def assms)
  then show "subs_of s' = subs_of s" by (simp add: subs_of_def assms fun_eq_iff)
  show "takes A s' m i = takes A s m i"
    unfolding takes_def d assms tbl_cong(4) [OF assms(4)] tbl_cong(6) [OF assms(4)] ..
qed

lemma demo_own_view:
  "PipeTbl demo_own = (replicate 64 blank_pipe)[1 := demo_slot]" "Queues demo_own = [(0x20001, demo_queue)]"
  "takes 0x110001 demo_own demo_mid 1" "subs_of demo_own demo_mid = [0x160001]" "routed demo_own demo_mid"
proof -
  let ?s = "snd (CFE_SB_AllocateMessageBuffer demo_ctx 16 demo_sub)"
  obtain zs ts ids ds where rest: "at_rest {#} demo_sub zs ts ids ds"
    using history_inv [OF demo_sub_run(9)] by (auto simp: sb_inv_def)
  have al: "CFE_SB_AllocateMessageBuffer demo_ctx 16 demo_sub = (fst (CFE_SB_AllocateMessageBuffer demo_ctx 16 demo_sub), ?s)" by simp
  note A = alloc_run [OF rest demo_caller(1) al]
  have F: "Dests demo_own = Dests demo_sub" "Routes demo_own = Routes demo_sub" "Queues demo_own = Queues demo_sub"
    "PipeTbl demo_own = PipeTbl demo_sub"
    by (simp_all add: demo_own_def store_msg_def A(3-6))
  show "PipeTbl demo_own = (replicate 64 blank_pipe)[1 := demo_slot]" "Queues demo_own = [(0x20001, demo_queue)]"
    unfolding F(3,4) by (rule demo_sub_run)+
  show t: "takes 0x110001 demo_own demo_mid 1" unfolding takes_cong(1) [OF F] by (rule demo_sub_run)
  then show "routed demo_own demo_mid" by (auto simp: takes_def dest_list_def list_ex_iff split: if_splits)
  show "subs_of demo_own demo_mid = [0x160001]" unfolding takes_cong(2) [OF F] by (rule demo_sub_run)
qed

lemma demo_own_queue: "items (Queues demo_own) (queue_of demo_own 1) = []"
  unfolding demo_slot_run(2) [OF demo_own_view(1)] by (simp add: items_def demo_own_view(2) demo_queue_def)

text \<open>Every destination of the ID is active.\<close>

lemma demo_active: "\<forall>d \<in> set (dest_list demo_sub demo_mid). DD_Active (Dests demo_sub d) = CFE_SB_ACTIVE"
proof -
  from demo_sub_run(7) obtain d where d: "d \<in> set (dest_list demo_sub demo_mid)"
    "dest_accepts 0x110001 (Dests demo_sub d) demo_sub = Some 1" by (auto simp: takes_def list_ex_iff)
  have "length (dest_list demo_sub demo_mid) = 1"
    using arg_cong [OF demo_sub_run(8), of length] by (simp add: subs_of_def)
  then have "dest_list demo_sub demo_mid = [d]" using d(1) by (auto simp: length_Suc_conv)
  with d(2) show ?thesis by (auto simp: dest_accepts_def split: if_splits)
qed

end
