(* ===== verification/Sb_Safety.thy ===== *)
theory Sb_Safety
  imports Sb_Demo
begin

section \<open>Software bus: properties of reachable states\<close>

text \<open>
  The properties of the bus that hold in every reachable state: the accounting of buffers and
  memory, the tables, and what sending and receiving do.  Each is derived from the invariant at
  rest and the lemma of the operation.
\<close>

lemma history_rest:
  assumes "sb_history K s"
  obtains zs ts ids ds where "at_rest K s zs ts ids ds"
  using history_inv [OF assms] by (auto simp: sb_inv_def)

lemma reach_rest:
  assumes "sb_reach s"
  obtains K zs ts ids ds where "at_rest K s zs ts ids ds"
  using assms history_rest unfolding sb_reach_def by metis

lemma used_find: "ids_ok s \<Longrightarrow> used s j \<Longrightarrow> find_pipe (PD_PipeId (PipeTbl s ! j)) s = Some j"
  by (simp add: ids_ok_def find_pipe_def CFE_SB_PipeDescIsMatch_def)

text \<open>What a deletion loses: the entries of the queues that cannot be read.\<close>

lemma in_unread: "b \<in># unread s i \<longleftrightarrow> \<not> readable s i \<and> b \<in> set (items (Queues s) (queue_of s i))"
  by (auto simp: unread_def left_over_def readable_def items_def split: option.split)

lemma in_unread_of:
  assumes "ids_ok s" "length (PipeTbl s) = 64"
  shows "b \<in># unread_of s (pipes_owned a s) \<longleftrightarrow> (\<exists>j. used s j \<and> PD_AppId (PipeTbl s ! j) = a \<and> \<not> readable s j
     \<and> b \<in> set (items (Queues s) (queue_of s j)))"
proof -
  have "b \<in># unread_of s ps \<longleftrightarrow> (\<exists>p \<in> set ps. \<exists>i. find_pipe p s = Some i \<and> b \<in># unread s i)" for ps
    by (induction ps) (auto simp: unread_of_def split: option.split)
  then have "b \<in># unread_of s (pipes_owned a s)
     \<longleftrightarrow> (\<exists>p i. find_pipe p s = Some i \<and> PD_AppId (PipeTbl s ! i) = a \<and> b \<in># unread s i)"
    using pipes_owned(2) [OF assms(2,1)] by force
  also have "\<dots> \<longleftrightarrow> (\<exists>j. used s j \<and> PD_AppId (PipeTbl s ! j) = a \<and> b \<in># unread s j)"
  proof
    assume "\<exists>p i. find_pipe p s = Some i \<and> PD_AppId (PipeTbl s ! i) = a \<and> b \<in># unread s i"
    then obtain p i where "find_pipe p s = Some i" "PD_AppId (PipeTbl s ! i) = a" "b \<in># unread s i" by blast
    then show "\<exists>j. used s j \<and> PD_AppId (PipeTbl s ! j) = a \<and> b \<in># unread s j"
      using find_pipe_facts(5) [of p s i] by (intro exI [of _ i]) simp
  next
    assume "\<exists>j. used s j \<and> PD_AppId (PipeTbl s ! j) = a \<and> b \<in># unread s j"
    then obtain j where "used s j" "PD_AppId (PipeTbl s ! j) = a" "b \<in># unread s j" by blast
    then show "\<exists>p i. find_pipe p s = Some i \<and> PD_AppId (PipeTbl s ! i) = a \<and> b \<in># unread s i"
      using used_find [OF assms(1), of j] by (intro exI [of _ "PD_PipeId (PipeTbl s ! j)"] exI [of _ j]) simp
  qed
  finally show ?thesis by (simp add: in_unread)
qed

text \<open>A step that finds every queue readable loses nothing.\<close>

lemma readable_loses_nothing:
  assumes "sb_step s L s'" "\<And>i. used s i \<Longrightarrow> readable s i"
  shows "L = {#}"
proof -
  have un: "unread s i = {#}" if "find_pipe p s = Some i" for p i
    using assms(2) [OF find_pipe_facts(5) [OF that]]
    by (auto simp: unread_def left_over_def readable_def split: option.split)
  then have "unread_of s ps = {#}" for ps
    by (induction ps) (auto simp: unread_of_def split: option.split)
  with assms(1) show ?thesis by cases auto
qed

lemma use_count_holders:
  assumes "sb_history K s" "owned s b \<or> in_transit s b"
  shows "unat (BF_UseCount (Bufs s b)) = holders s b + count K b"
proof -
  obtain zs ts ids ds where rest: "at_rest K s zs ts ids ds" by (rule history_rest [OF assms(1)])
  note D = at_restD [OF rest] and R = runningD [OF at_restD(1) [OF rest]]
  have "b \<in># refs s + (mset zs + K)"
    using assms(2) D(2) by (auto simp: owned_iff [OF rest] in_transit_iff [OF rest])
  moreover have "count (mset zs) b = (if owned s b then 1 else 0)"
    using distinct_count_atmost_1 [of zs] D(5) by (auto simp: owned_iff [OF rest])
  ultimately show ?thesis using coreD(7) [OF R(4)] by (simp add: holders_def)
qed

text \<open>
  C1 In every state that the bus reaches by whole calls, one after the other, with queues that may fail at any time
  between them, each live buffer is held either by its allocator or by the pipes, never both. Its use count is the number
  of holders (the owner, the queue entries, the pipes that handed it out last) plus the number of its entries that were
  lost: left in a queue that could not be read when its pipe was deleted. A handle passed to a call is one that the
  application got and still owns, or one that is refused.\<close>

theorem bus_accounting:
  assumes "sb_history K s" "owned s b \<or> in_transit s b"
  shows "(owned s b \<longleftrightarrow> \<not> in_transit s b) \<and> 0 < holders s b + count K b
    \<and> unat (BF_UseCount (Bufs s b)) = holders s b + count K b
    \<and> (owned s b \<longleftrightarrow> BF_AppId (Bufs s b) \<noteq> CFE_ES_APPID_UNDEFINED)
    \<and> (in_transit s b \<longleftrightarrow> (\<exists>i. used s i \<and> (b \<in> set (items (Queues s) (queue_of s i)) \<or> PD_LastBuffer (PipeTbl s ! i) = b))
         \<or> b \<in># K)"
proof -
  obtain zs ts ids ds where rest: "at_rest K s zs ts ids ds" by (rule history_rest [OF assms(1)])
  note D = at_restD [OF rest] and R = runningD [OF at_restD(1) [OF rest]]
  have b: "b \<noteq> 0"
    using assms(2) D(8) by (auto simp: owned_iff [OF rest] in_transit_iff [OF rest])
  note use_count_holders [OF assms]
  moreover have "0 < holders s b + count K b"
    using assms(2) by (auto simp: holders_def transit_refs [OF rest])
  moreover have "in_transit s b \<longleftrightarrow> b \<in># refs s \<or> b \<in># K" using transit_refs [OF rest] by simp
  ultimately show ?thesis
    using assms(2) D(3,4,7) b in_refs [OF R(1), of b]
    by (auto simp: owned_iff [OF rest] in_transit_iff [OF rest])
qed

theorem bus_accounting_witness:
  "unat (BF_UseCount (Bufs demo_own demo_buffer)) = holders demo_own demo_buffer \<and> \<not> in_transit demo_own demo_buffer"
  using bus_accounting [OF demo_own_run(6) disjI1 [OF demo_own_run(2)]] demo_own_run(2) by simp

text \<open>
  C2 In every state that the bus reaches by whole calls the memory pool holds exactly the live buffers and the destination
  nodes of the routes, each block with its recorded size: no double use, no dangling reference. Nothing has leaked
  but the lost entries: every block that is not a destination is owned by an application, held by a pipe, or named by an
  entry that was left in a queue that could not be read when its pipe was deleted.\<close>

theorem bus_memory_exact:
  assumes "sb_history K s"
  shows "\<exists>A. mem_rep (PoolHdl s) (Pools s) A
    \<and> dom A = {b. owned s b \<or> in_transit s b} \<union> {d. \<exists>m. d \<in> set (dest_list s m)}
    \<and> (\<forall>b. owned s b \<or> in_transit s b \<longrightarrow> A b = Some (BF_AllocatedSize (Bufs s b)))
    \<and> (\<forall>m. \<forall>d \<in> set (dest_list s m). A d = Some sizeof_DestinationD \<and> \<not> owned s d \<and> \<not> in_transit s d)
    \<and> (\<forall>b \<in> dom A. (\<exists>m. b \<in> set (dest_list s m)) \<or> owned s b \<or> b \<in># K
         \<or> (\<exists>i. used s i \<and> (b \<in> set (items (Queues s) (queue_of s i)) \<or> PD_LastBuffer (PipeTbl s ! i) = b)))"
proof -
  obtain zs ts ids ds where rest: "at_rest K s zs ts ids ds" by (rule history_rest [OF assms])
  note R = runningD [OF at_restD(1) [OF rest]]
  obtain A where A: "mem_rep (PoolHdl s) (Pools s) A" "dom A = set zs \<union> set ts \<union> dest_set ds"
    "\<forall>b \<in> set zs \<union> set ts. A b = Some (fst (buf_acct s b)) \<and> fst (buf_acct s b) \<noteq> 0
       \<and> unat (snd (buf_acct s b)) = count (refs s + (mset zs + K)) b"
    "\<forall>d \<in> dest_set ds. A d = Some sizeof_DestinationD"
    using R(4) unfolding core_def core_parts_def by (elim conjE exE)
  have dj: "(set zs \<union> set ts) \<inter> dest_set ds = {}" by (rule coreD(3) [OF R(4)])
  have "distinct ids" using routes_okD(1) [OF R(3)] by (auto simp: sbr_ok_def dest: direct.rep_ids)
  then have nth: "index_of (ids ! i) ids = i" if "i < length ids" for i
    using that index_of_nth by blast
  have ds: "d \<in> dest_set ds \<longleftrightarrow> (\<exists>m. d \<in> set (dest_list s m))" for d
  proof
    assume "d \<in> dest_set ds"
    then obtain i where i: "i < 256" "d \<in> set (ds i)" by (auto simp: dest_set_def)
    then have l: "i < length ids" using routes_okD(8) [OF R(3), of i] by (cases "i < length ids") auto
    then have "d \<in> set (dest_list s (ids ! i))"
      using i(2) by (simp add: rest_dests [OF rest] route_list_def nth)
    then show "\<exists>m. d \<in> set (dest_list s m)" by blast
  next
    assume "\<exists>m. d \<in> set (dest_list s m)"
    then show "d \<in> dest_set ds"
      using route_list_head(4) [OF R(3)]
      by (auto simp: rest_dests [OF rest] route_list_def dest_set_def split: if_splits)
  qed
  then have in_ds: "d \<in> set (dest_list s m) \<Longrightarrow> d \<in> dest_set ds" for d m by blast
  have held: "b \<in># K \<or> (\<exists>i. used s i \<and> (b \<in> set (items (Queues s) (queue_of s i)) \<or> PD_LastBuffer (PipeTbl s ! i) = b))"
    if "in_transit s b" for b
    using that in_refs [OF R(1), of b] by (auto simp: transit_refs [OF rest])
  have "\<exists>A. mem_rep (PoolHdl s) (Pools s) A
    \<and> dom A = {b. owned s b \<or> in_transit s b} \<union> {d. \<exists>m. d \<in> set (dest_list s m)}
    \<and> (\<forall>b. owned s b \<or> in_transit s b \<longrightarrow> A b = Some (BF_AllocatedSize (Bufs s b)))
    \<and> (\<forall>m. \<forall>d \<in> set (dest_list s m). A d = Some sizeof_DestinationD \<and> \<not> owned s d \<and> \<not> in_transit s d)"
    using A dj in_ds by (intro exI [of _ A]) (auto simp: owned_iff [OF rest] in_transit_iff [OF rest] ds [symmetric] buf_acct_def)
  then show ?thesis using held by blast
qed

theorem bus_memory_exact_witness:
  "\<exists>A. mem_rep (PoolHdl demo_own) (Pools demo_own) A \<and> A demo_buffer = Some (BF_AllocatedSize (Bufs demo_own demo_buffer))"
  using bus_memory_exact [OF demo_own_run(6)] demo_own_run(2) by blast

text \<open>
  C12 In every reachable state the tables are well formed: a used pipe slot is found under its ID and has a
  queue of its own within the depth limit, and every route lists distinct existing pipes, at most 16.\<close>

theorem bus_tables_well_formed:
  assumes "sb_reach s"
  shows "length (PipeTbl s) = 64
    \<and> (\<forall>i. used s i \<longrightarrow> find_pipe (PD_PipeId (PipeTbl s ! i)) s = Some i
         \<and> (\<exists>q. map_of (Queues s) (queue_of s i) = Some q \<and> length (q_items q) \<le> max_depth q \<and> max_depth q \<le> 50))
    \<and> (\<forall>i j. used s i \<longrightarrow> used s j \<longrightarrow> queue_of s i = queue_of s j \<longrightarrow> i = j)
    \<and> (\<forall>m. distinct (subs_of s m) \<and> length (subs_of s m) \<le> 16
         \<and> (\<forall>p \<in> set (subs_of s m). find_pipe p s \<noteq> None))"
proof -
  obtain K zs ts ids ds where rest: "at_rest K s zs ts ids ds" by (rule reach_rest [OF assms])
  note R = runningD [OF at_restD(1) [OF rest]]
  have "find_pipe (PD_PipeId (PipeTbl s ! i)) s = Some i" if "used s i" for i
    by (rule used_find [OF R(2) that])
  moreover have "\<exists>q. map_of (Queues s) (queue_of s i) = Some q \<and> length (q_items q) \<le> max_depth q \<and> max_depth q \<le> 50"
    if "used s i" for i
    using R(1) that unfolding pipes_ok_def queue_fits_def by blast
  moreover have "distinct (subs_of s m) \<and> length (subs_of s m) \<le> 16 \<and> (\<forall>p \<in> set (subs_of s m). find_pipe p s \<noteq> None)" for m
  proof -
    have "index_of m ids < 256" if "m \<in> set ids" using route_list_head(4) [OF R(3) that] .
    then show ?thesis
      using routes_okD(4,5,6) [OF R(3), of "index_of m ids"]
      by (auto simp: rest_subs [OF rest] subscribers_def route_list_def pipes_of_def)
  qed
  moreover have "\<forall>i j. used s i \<longrightarrow> used s j \<longrightarrow> queue_of s i = queue_of s j \<longrightarrow> i = j"
    using R(1) by (simp add: pipes_ok_def)
  ultimately show ?thesis using R(5) by simp
qed

theorem bus_tables_well_formed_witness:
  "distinct (subs_of demo_sub demo_mid) \<and> find_pipe 0x160001 demo_sub \<noteq> None"
proof -
  have "0x160001 \<in> set (subs_of demo_sub demo_mid)" by (simp add: demo_sub_run(8))
  then show ?thesis using bus_tables_well_formed [OF demo_sub_run(2)] by blast
qed

subsection \<open>Calls return\<close>

text \<open>
  C7 In every state that the bus reaches, queues that fail included, every call but a receive returns: no walk along a
  list of destinations or buffers and no emptying of a queue goes on for ever. The caller has a defined application ID and
  passes a handle that it owns or one that is refused.\<close>

theorem calls_return:
  assumes "sb_reach s" "may_pass s b" "caller_ok ctx"
  shows "CFE_SB_TransmitBuffer ctx b org s \<noteq> None \<and> CFE_SB_TransmitMsg ctx msg org s \<noteq> None
    \<and> CFE_SB_SubscribeFull ctx m p q lim scope s \<noteq> None \<and> CFE_SB_UnsubscribeFull m p scope a s \<noteq> None
    \<and> CFE_SB_DeletePipeFull p a s \<noteq> None \<and> CFE_SB_CleanUpApp a s \<noteq> None
    \<and> CFE_SB_ZeroCopyReleaseAppId a s \<noteq> None
    \<and> CFE_SB_EnableRouteCmd m p s \<noteq> None \<and> CFE_SB_DisableRouteCmd m p s \<noteq> None"
proof -
  obtain K zs ts ids ds where rest: "at_rest K s zs ts ids ds" by (rule reach_rest [OF assms(1)])
  then have inv: "sb_inv K s" by (auto simp: sb_inv_def)
  have "CFE_SB_DeletePipeFull p a s \<noteq> None"
  proof (cases "\<exists>i. find_pipe p s = Some i \<and> PD_AppId (PipeTbl s ! i) = a")
    case True
    then obtain i where i: "find_pipe p s = Some i" "PD_AppId (PipeTbl s ! i) = a" by blast
    from delete_run [OF rest i] show ?thesis by auto
  next
    case False
    then obtain t where "CFE_SB_DeletePipeFull p a s = Some (CFE_SB_BAD_ARGUMENT, t)"
      using delete_refuses [of p s a] by blast
    then show ?thesis by simp
  qed
  moreover have "set_route_active v e1 e2 e3 m p s \<noteq> None" for v e1 e2 e3
    using set_active_run [OF rest, of v e1 e2 e3 m p] by auto
  ultimately show ?thesis
    using transmit_buffer_inv [OF inv assms(2), of ctx org] transmit_msg_inv [OF inv assms(3), of msg org]
      subscribe_run [OF rest assms(3), of m p q lim scope] unsubscribe_run [OF rest, of m p scope a]
      clean_up_run [OF rest, of a] zero_copy_release_run [OF rest, of a]
    unfolding CFE_SB_EnableRouteCmd_def CFE_SB_DisableRouteCmd_def by force
qed

theorem calls_return_witness:
  "CFE_SB_TransmitMsg demo_ctx (Some demo_bytes) True demo_sub \<noteq> None \<and> CFE_SB_CleanUpApp 0x110001 demo_sub \<noteq> None"
proof -
  have "may_pass demo_sub 0" by (simp add: may_pass_def)
  from calls_return [OF demo_sub_run(2) this demo_caller(1)] show ?thesis by blast
qed

text \<open>
  A receive call does not return exactly when it is asked to pend forever on an existing, readable pipe
  whose queue is empty.\<close>

lemma receive_blocks_iff:
  assumes "sb_reach s"
  shows "CFE_SB_ReceiveBuffer ctx ptr p t s = None \<longleftrightarrow> ptr \<and> t = CFE_SB_PEND_FOREVER
    \<and> (\<exists>i. find_pipe p s = Some i \<and> items (Queues s) (queue_of s i) = [] \<and> readable s i)"
proof
  obtain K zs ts ids ds where rest: "at_rest K s zs ts ids ds" by (rule reach_rest [OF assms(1)])
  assume "CFE_SB_ReceiveBuffer ctx ptr p t s = None"
  with receive_inv [OF sb_invI [OF rest], of ptr t p ctx]
  show "ptr \<and> t = CFE_SB_PEND_FOREVER
    \<and> (\<exists>i. find_pipe p s = Some i \<and> items (Queues s) (queue_of s i) = [] \<and> readable s i)" by simp
next
  obtain K zs ts ids ds where rest: "at_rest K s zs ts ids ds" by (rule reach_rest [OF assms(1)])
  assume "ptr \<and> t = CFE_SB_PEND_FOREVER
    \<and> (\<exists>i. find_pipe p s = Some i \<and> items (Queues s) (queue_of s i) = [] \<and> readable s i)"
  then obtain i where i: "ptr" "t = CFE_SB_PEND_FOREVER" "find_pipe p s = Some i"
    "items (Queues s) (queue_of s i) = []" "readable s i" by blast
  then have "-1 \<le> t" by (simp add: CFE_SB_PEND_FOREVER_def)
  from receive_none [OF rest i(3) this] get_none [OF rest find_pipe_facts(5) [OF i(3)]] i
  show "CFE_SB_ReceiveBuffer ctx ptr p t s = None" by simp
qed

lemma receive_blocks_iff_witness:
  "CFE_SB_ReceiveBuffer demo_ctx True 0x160001 CFE_SB_PEND_FOREVER demo_sub = None"
  using receive_blocks_iff [OF demo_sub_run(2)] demo_slot_run(1) [OF demo_sub_run(3)] demo_readable(1,2) by blast

end
