(* ===== verification/Sb_Delivery.thy ===== *)
theory Sb_Delivery
  imports Sb_Safety
begin

section \<open>Software bus: delivery of messages\<close>

text \<open>
  What a transmission puts in which queue, what a reception takes out, and both together: a
  message that a pipe takes is the one that its owner gets, with the content of the sender.
\<close>

text \<open>Two states with the same pipes, subscriptions and failing queues.\<close>

definition same_bus :: "sb \<Rightarrow> sb \<Rightarrow> bool" where
  "same_bus s s' \<longleftrightarrow> subs_of s' = subs_of s \<and> (\<forall>q. find_pipe q s' = find_pipe q s)
     \<and> (\<forall>i. used s i \<longrightarrow> readable s' i = readable s i)"

lemma put_fault:
  "map_option q_fault (map_of (snd (OS_QueuePut i b n Q)) j) = map_option q_fault (map_of Q j)"
  by (auto simp: OS_QueuePut_def OS_QueuePut_Impl_def split: option.splits prod.splits if_splits)

lemma put_all_fault: "map_option q_fault (map_of (put_all b cs Q) j) = map_option q_fault (map_of Q j)"
  by (induction cs arbitrary: Q) (simp_all add: put_fault)

lemma readable_cong:
  assumes "queue_of s' i = queue_of s i"
    and "map_option q_fault (map_of (Queues s') (queue_of s i)) = map_option q_fault (map_of (Queues s) (queue_of s i))"
  shows "readable s' i = readable s i"
  using assms by (cases "map_of (Queues s) (queue_of s i)") (auto simp: readable_def)

text \<open>The effect of a transmission in terms of the view, for both ways of sending.\<close>

lemma sent_view:
  assumes rest: "at_rest K s zs ts ids ds" and tab: "same_tables s s'" and rest': "at_rest K s' zs' ts' ids ds"
    and b: "b \<notin># refs s + K" "b \<noteq> 0"
    and Q: "Queues s' = put_all b (tx_entries ctx s (route_list ids ds m)) (Queues s)"
  shows "used s i \<Longrightarrow> items (Queues s') (queue_of s' i)
      = items (Queues s) (queue_of s i) @ (if takes (caller_app ctx) s m i then [b] else [])"
    "in_transit s' b \<longleftrightarrow> (\<exists>i. used s i \<and> takes (caller_app ctx) s m i)"
    "same_bus s s'"
proof -
  note R = runningD [OF at_restD(1) [OF rest]] and R' = runningD [OF at_restD(1) [OF rest']]
  have sp: "same_pipes s s'" using tab by (simp add: same_tables_def)
  note F = view_frame [OF sp R(5)]
  show it: "items (Queues s') (queue_of s' i)
      = items (Queues s) (queue_of s i) @ (if takes (caller_app ctx) s m i then [b] else [])" if "used s i" for i
    using tx_items [OF rest that] by (simp add: Q F(2) [OF that])
  have nb: "b \<notin> set (items (Queues s) (queue_of s i))" "PD_LastBuffer (PipeTbl s ! i) \<noteq> b" if "used s i" for i
    using b in_refs [OF R(1), of b] that by auto
  have "b \<in># refs s' \<longleftrightarrow> (\<exists>i. used s i \<and> b \<in> set (items (Queues s') (queue_of s' i)))"
    unfolding in_refs [OF R'(1)] F(1) using nb(2) F(3) by metis
  also have "\<dots> \<longleftrightarrow> (\<exists>i. used s i \<and> takes (caller_app ctx) s m i)"
    using it nb(1) by (intro ex_cong1 conj_cong) simp_all
  finally show "in_transit s' b \<longleftrightarrow> (\<exists>i. used s i \<and> takes (caller_app ctx) s m i)"
    using b(1) by (simp add: transit_refs [OF rest'])
  have "subs_of s' = subs_of s"
    by (simp add: rest_subs [OF rest] rest_subs [OF rest'] same_tables_subscribers [OF tab])
  moreover have "find_pipe q s' = find_pipe q s" for q by (rule find_pipe_cong [OF sp R(5)])
  moreover have "readable s' i = readable s i" if "used s i" for i
    by (rule readable_cong [OF F(2) [OF that]]) (simp add: Q put_all_fault)
  ultimately show "same_bus s s'" by (simp add: same_bus_def)
qed

lemma unowned_refused:
  assumes "BF_AppId (Bufs s b) = CFE_ES_APPID_UNDEFINED" "p = b + CFE_SB_BUFFERD_CONTENT_OFFSET" "p \<noteq> 0"
  shows "CFE_SB_ReleaseMessageBuffer p s = (CFE_SB_BUFFER_INVALID, s)"
proof -
  have "p - CFE_SB_BUFFERD_CONTENT_OFFSET = b" by (simp add: assms(2))
  then show ?thesis using release_refused [of p s] assms(1,3) by simp
qed

text \<open>
  C5 Transmitting an owned zero-copy buffer succeeds, appends it to the queue of exactly the pipes that take
  the message, ends the ownership of the sender (a later release is refused) and changes no other buffer.\<close>

theorem transmit_buffer_delivers:
  assumes "sb_reach s" "owned s b" "p = b + CFE_SB_BUFFERD_CONTENT_OFFSET" "p \<noteq> 0"
    and "sendable (Some (BF_Content (Bufs s b))) m n"
  shows "\<exists>s'. CFE_SB_TransmitBuffer ctx p org s = Some (CFE_SUCCESS, s')
    \<and> (\<forall>i. used s i \<longrightarrow> items (Queues s') (queue_of s' i)
         = items (Queues s) (queue_of s i) @ (if takes (caller_app ctx) s m i then [b] else []))
    \<and> \<not> owned s' b \<and> (in_transit s' b \<longleftrightarrow> (\<exists>i. used s i \<and> takes (caller_app ctx) s m i))
    \<and> CFE_SB_ReleaseMessageBuffer p s' = (CFE_SB_BUFFER_INVALID, s')
    \<and> (routed s m \<longrightarrow> BF_MsgId (Bufs s' b) = m \<and> BF_ContentSize (Bufs s' b) = n
         \<and> BF_Content (Bufs s' b) = sent_content ctx org (the (get_route_id m s)) s (BF_Content (Bufs s b)))
    \<and> (\<forall>x. x \<noteq> b \<longrightarrow> payload (Bufs s' x) = payload (Bufs s x)) \<and> same_bus s s'"
proof -
  obtain K zs ts ids ds where rest: "at_rest K s zs ts ids ds" by (rule reach_rest [OF assms(1)])
  note D = at_restD [OF rest]
  have b: "b \<in> set zs" using assms(2) by (simp add: owned_iff [OF rest])
  obtain s' ts' where S: "CFE_SB_TransmitBuffer ctx p org s = Some (CFE_SUCCESS, s')"
    "at_rest K s' (remove1 b zs) ts' ids ds" "same_tables s s'"
    "Queues s' = put_all b (tx_entries ctx s (route_list ids ds m)) (Queues s)"
    "\<forall>x. x \<noteq> b \<longrightarrow> payload (Bufs s' x) = payload (Bufs s x)" "BF_AppId (Bufs s' b) = CFE_ES_APPID_UNDEFINED"
    "m \<in> set ids \<longrightarrow> delivered ctx org ids m n s (BF_Content (Bufs s b)) (Bufs s' b)"
    using transmit_buffer_sends [OF rest b assms(3-5) refl, of ctx org] by blast
  have nb: "b \<notin># refs s + K" "b \<noteq> 0" using D(2,7,8) b by auto
  note V = sent_view [OF rest S(3,2) nb S(4)]
  have "\<not> owned s' b" using D(5) by (simp add: owned_iff [OF S(2)])
  moreover have "routed s m \<longrightarrow> BF_MsgId (Bufs s' b) = m \<and> BF_ContentSize (Bufs s' b) = n
         \<and> BF_Content (Bufs s' b) = sent_content ctx org (the (get_route_id m s)) s (BF_Content (Bufs s b))"
    using S(7) routes_okD(9) [OF runningD(3) [OF D(1)]] by (simp add: rest_routed [OF rest] delivered_def)
  ultimately show ?thesis
    using S(1,5) V(1-3) unowned_refused [OF S(6) assms(3,4)] by blast
qed

theorem transmit_buffer_delivers_witness:
  "\<exists>s'. CFE_SB_TransmitBuffer demo_ctx demo_handle False demo_own = Some (CFE_SUCCESS, s')
    \<and> items (Queues s') (queue_of s' 1) = [demo_buffer] \<and> \<not> owned s' demo_buffer \<and> in_transit s' demo_buffer
    \<and> BF_Content (Bufs s' demo_buffer) = demo_bytes"
proof -
  have "sendable (Some (BF_Content (Bufs demo_own demo_buffer))) demo_mid 16"
    unfolding demo_own_run(5) by (rule demo_sendable)
  from transmit_buffer_delivers [OF demo_own_run(1-4) this, of demo_ctx False]
  show ?thesis using demo_own_view(3,5) demo_slot_run(3) [OF demo_own_view(1)]
    by (auto simp: demo_own_queue demo_own_run(5) sent_content_def simp del: One_nat_def)
qed

lemma transmit_msg_view:
  assumes rest: "at_rest K s zs ts ids ds" and "caller_ok ctx" "sendable (Some msg) m n"
  shows "if CallerApp ctx = None \<or> \<not> can_alloc (n + CFE_SB_BUFFERD_CONTENT_OFFSET) s
    then \<exists>s'. CFE_SB_TransmitMsg ctx (Some msg) org s = Some (CFE_SB_BUF_ALOC_ERR, s')
      \<and> Queues s' = Queues s \<and> Bufs s' = Bufs s \<and> same_bus s s'
    else \<exists>s' b. CFE_SB_TransmitMsg ctx (Some msg) org s = Some (CFE_SUCCESS, s')
      \<and> \<not> owned s b \<and> \<not> in_transit s b \<and> \<not> owned s' b
      \<and> (\<forall>i. used s i \<longrightarrow> items (Queues s') (queue_of s' i)
           = items (Queues s) (queue_of s i) @ (if takes (caller_app ctx) s m i then [b] else []))
      \<and> (in_transit s' b \<longleftrightarrow> (\<exists>i. used s i \<and> takes (caller_app ctx) s m i))
      \<and> (routed s m \<longrightarrow> BF_MsgId (Bufs s' b) = m \<and> BF_ContentSize (Bufs s' b) = n
           \<and> BF_Content (Bufs s' b) = sent_content ctx org (the (get_route_id m s)) s (take (unat n) msg))
      \<and> (\<forall>x. x \<noteq> b \<longrightarrow> payload (Bufs s' x) = payload (Bufs s x)) \<and> same_bus s s'"
proof -
  note D = at_restD [OF rest]
  let ?room = "CallerApp ctx \<noteq> None \<and> can_alloc (n + CFE_SB_BUFFERD_CONTENT_OFFSET) s"
  from transmit_msg_sends [OF rest assms(2,3) refl, of org] show ?thesis
  proof (elim disjE exE conjE)
    fix s' assume S: "CFE_SB_TransmitMsg ctx (Some msg) org s = Some (CFE_SB_BUF_ALOC_ERR, s')" "\<not> ?room"
      "at_rest K s' zs ts ids ds" "Bufs s' = Bufs s" "Queues s' = Queues s" "same_tables s s'"
    have sp: "same_pipes s s'" using S(6) by (simp add: same_tables_def)
    note R = runningD(5) [OF D(1)]
    have "subs_of s' = subs_of s"
      by (simp add: rest_subs [OF rest] rest_subs [OF S(3)] same_tables_subscribers [OF S(6)])
    moreover have "readable s' i = readable s i" if "used s i" for i
      by (rule readable_cong [OF view_frame(2) [OF sp R that]]) (simp add: S(5))
    ultimately have "same_bus s s'" by (simp add: same_bus_def find_pipe_cong [OF sp R])
    with S show ?thesis by auto
  next
    fix s' ts' b assume S: "CFE_SB_TransmitMsg ctx (Some msg) org s = Some (CFE_SUCCESS, s')"
      "CallerApp ctx \<noteq> None" "can_alloc (n + CFE_SB_BUFFERD_CONTENT_OFFSET) s" "b \<noteq> 0" "b \<notin> set zs \<union> set ts"
      "at_rest K s' zs ts' ids ds" "same_tables s s'"
      "Queues s' = put_all b (tx_entries ctx s (route_list ids ds m)) (Queues s)"
      "\<forall>x. x \<noteq> b \<longrightarrow> payload (Bufs s' x) = payload (Bufs s x)"
      "m \<in> set ids \<longrightarrow> delivered ctx org ids m n s (take (unat n) msg) (Bufs s' b)"
    have nb: "b \<notin># refs s + K" using D(2) S(5) by auto
    note V = sent_view [OF rest S(7,6) nb S(4,8)]
    have "\<not> owned s b" "\<not> in_transit s b" "\<not> owned s' b"
      using S(5) by (simp_all add: owned_iff [OF rest] in_transit_iff [OF rest] owned_iff [OF S(6)])
    moreover have "routed s m \<longrightarrow> BF_MsgId (Bufs s' b) = m \<and> BF_ContentSize (Bufs s' b) = n
         \<and> BF_Content (Bufs s' b) = sent_content ctx org (the (get_route_id m s)) s (take (unat n) msg)"
      using S(10) routes_okD(9) [OF runningD(3) [OF D(1)]] by (simp add: rest_routed [OF rest] delivered_def)
    moreover have "\<not> (CallerApp ctx = None \<or> \<not> can_alloc (n + CFE_SB_BUFFERD_CONTENT_OFFSET) s)"
      using S(2,3) by simp
    ultimately show ?thesis unfolding if_not_P [OF \<open>\<not> (CallerApp ctx = None \<or> _)\<close>] using S(1,9) V(1-3) by blast
  qed
qed

text \<open>
  C4 Transmitting a message by copy fails without effect exactly when the caller is unknown or no memory is
  left; otherwise a fresh buffer with the message reaches exactly the pipes that take it.\<close>

theorem transmit_msg_delivers:
  assumes "sb_reach s" "caller_ok ctx" "sendable (Some msg) m n"
  shows "if CallerApp ctx = None \<or> \<not> can_alloc (n + CFE_SB_BUFFERD_CONTENT_OFFSET) s
    then \<exists>s'. CFE_SB_TransmitMsg ctx (Some msg) org s = Some (CFE_SB_BUF_ALOC_ERR, s')
      \<and> Queues s' = Queues s \<and> Bufs s' = Bufs s \<and> same_bus s s'
    else \<exists>s' b. CFE_SB_TransmitMsg ctx (Some msg) org s = Some (CFE_SUCCESS, s')
      \<and> \<not> owned s b \<and> \<not> in_transit s b \<and> \<not> owned s' b
      \<and> (\<forall>i. used s i \<longrightarrow> items (Queues s') (queue_of s' i)
           = items (Queues s) (queue_of s i) @ (if takes (caller_app ctx) s m i then [b] else []))
      \<and> (in_transit s' b \<longleftrightarrow> (\<exists>i. used s i \<and> takes (caller_app ctx) s m i))
      \<and> (routed s m \<longrightarrow> BF_MsgId (Bufs s' b) = m \<and> BF_ContentSize (Bufs s' b) = n
           \<and> BF_Content (Bufs s' b) = sent_content ctx org (the (get_route_id m s)) s (take (unat n) msg))
      \<and> (\<forall>x. x \<noteq> b \<longrightarrow> payload (Bufs s' x) = payload (Bufs s x)) \<and> same_bus s s'"
proof -
  obtain K zs ts ids ds where rest: "at_rest K s zs ts ids ds" by (rule reach_rest [OF assms(1)])
  from transmit_msg_view [OF rest assms(2,3)] show ?thesis .
qed

theorem transmit_msg_delivers_witness:
  "\<exists>s' b. CFE_SB_TransmitMsg demo_ctx (Some demo_bytes) False demo_sub = Some (CFE_SUCCESS, s')
    \<and> items (Queues s') (queue_of s' 1) = [b] \<and> in_transit s' b"
  using transmit_msg_delivers [OF demo_sub_run(2) demo_caller(1) demo_sendable, of False]
    demo_room demo_sub_run(7) demo_slot_run(3) [OF demo_sub_run(3)] demo_readable(1)
  by (auto simp del: One_nat_def)

text \<open>What is not a message, or is too long, is refused; an owned buffer stays with its owner.\<close>

lemma transmit_refuses:
  assumes "\<nexists>m n. sendable (Some (BF_Content (Bufs s (p - CFE_SB_BUFFERD_CONTENT_OFFSET)))) m n"
    and "msg = None \<or> (\<nexists>m n. sendable msg m n)"
  shows "\<exists>st s' st' s''. CFE_SB_TransmitBuffer ctx p org s = Some (st, s') \<and> st \<noteq> CFE_SUCCESS \<and> quiet s s'
    \<and> CFE_SB_TransmitMsg ctx msg org s = Some (st', s'') \<and> st' \<noteq> CFE_SUCCESS \<and> quiet s s''"
proof -
  have "p = 0 \<or> (\<nexists>m n. sendable (Some (BF_Content (Bufs s (p - CFE_SB_BUFFERD_CONTENT_OFFSET)))) m n)
     \<or> BF_AppId (Bufs s (p - CFE_SB_BUFFERD_CONTENT_OFFSET)) = CFE_ES_APPID_UNDEFINED" using assms(1) by simp
  from transmit_buffer_refuses [OF this, of ctx org] transmit_msg_refuses [OF assms(2), of ctx org s]
  show ?thesis by metis
qed

subsection \<open>Reception\<close>

lemma same_viewD:
  assumes "same_view s s'"
  shows "queue_of s' = queue_of s" "DD_PipeId (Dests s' d) = DD_PipeId (Dests s d)"
    "payload (Bufs s' b) = payload (Bufs s b)"
  using assms dest_keyD(1) [of "Dests s' d" "Dests s d"] by (simp_all add: same_view_def)

lemma readable_get:
  assumes rest: "at_rest K s zs ts ids ds" and i: "used s i" and ok: "readable s i"
  shows "OS_QueueGet (queue_of s i) sizeof_ptr t (Queues s) = (case items (Queues s) (queue_of s i) of
      [] \<Rightarrow> if t = OS_PEND then None
            else Some (if t = OS_CHECK then OS_QUEUE_EMPTY else OS_QUEUE_TIMEOUT, None, AList.update (queue_of s i)
                  (the (map_of (Queues s) (queue_of s i))) (Queues s))
    | b # bs \<Rightarrow> Some (OS_SUCCESS, Some b, AList.update (queue_of s i)
                  ((the (map_of (Queues s) (queue_of s i)))\<lparr>q_items := bs\<rparr>) (Queues s)))"
proof -
  obtain x where x: "map_of (Queues s) (queue_of s i) = Some x" "queue_fits x"
    using runningD(1) [OF at_restD(1) [OF rest]] i unfolding pipes_ok_def by blast
  have "\<not> q_fault x" using ok x(1) by (simp add: readable_def)
  with x show ?thesis
    by (simp add: OS_QueueGet_def OS_QueueGet_Impl_def OS_CHECK_SIZE_def sizeof_ptr_def queue_fits_def items_def
        split: list.split)
qed

lemma receive_some:
  assumes "at_rest K s zs ts ids ds" "find_pipe p s = Some i" "-1 \<le> t"
    and "OS_QueueGet (queue_of s i) sizeof_ptr (os_timeout ctx t) (Queues s) = Some (st, Some b, Q)"
  obtains s' ts' where "CFE_SB_ReceiveBuffer ctx True p t s
      = Some ((CFE_SUCCESS, Some (b + CFE_SB_BUFFERD_CONTENT_OFFSET)), s')"
    "at_rest K s' zs ts' ids ds" "Queues s' = Q" "same_view s s'" "b \<in> set ts'" "PD_LastBuffer (PipeTbl s' ! i) = b"
  using receive_run [OF assms] unfolding option.case by (elim exE conjE) (rule that; assumption)

lemma receive_nothing:
  assumes "at_rest K s zs ts ids ds" "find_pipe p s = Some i" "-1 \<le> t"
    and "OS_QueueGet (queue_of s i) sizeof_ptr (os_timeout ctx t) (Queues s) = Some (st, None, Q)"
  obtains s' ts' where "CFE_SB_ReceiveBuffer ctx True p t s
      = Some ((if st = OS_QUEUE_EMPTY then CFE_SB_NO_MESSAGE
              else if st = OS_QUEUE_TIMEOUT then CFE_SB_TIME_OUT else CFE_SB_PIPE_RD_ERR, Some 0), s')"
    "at_rest K s' zs ts' ids ds" "set ts' \<subseteq> set ts" "Queues s' = Q" "same_view s s'"
  using receive_run [OF assms] unfolding option.case by (elim exE conjE) (rule that; assumption)

text \<open>The first buffer of the queue becomes the last buffer of the pipe.\<close>

lemma receive_first:
  assumes rest: "at_rest K s zs ts ids ds" "find_pipe p s = Some i" "readable s i" "-1 \<le> t"
    and "items (Queues s) (queue_of s i) = b # bs"
  shows "\<exists>s'. CFE_SB_ReceiveBuffer ctx True p t s
      = Some ((CFE_SUCCESS, Some (b + CFE_SB_BUFFERD_CONTENT_OFFSET)), s')
    \<and> items (Queues s') (queue_of s' i) = bs \<and> PD_LastBuffer (PipeTbl s' ! i) = b
    \<and> in_transit s' b \<and> payload (Bufs s' b) = payload (Bufs s b)
    \<and> (\<forall>j. used s j \<longrightarrow> j \<noteq> i \<longrightarrow> items (Queues s') (queue_of s' j) = items (Queues s) (queue_of s j))
    \<and> (\<forall>x. owned s' x \<longleftrightarrow> owned s x) \<and> subs_of s' = subs_of s"
proof -
  note R = runningD [OF at_restD(1) [OF rest(1)]]
  have i: "used s i" by (rule find_pipe_facts(5) [OF rest(2)])
  define Q where "Q = AList.update (queue_of s i)
      ((the (map_of (Queues s) (queue_of s i)))\<lparr>q_items := bs\<rparr>) (Queues s)"
  have g: "OS_QueueGet (queue_of s i) sizeof_ptr (os_timeout ctx t) (Queues s) = Some (OS_SUCCESS, Some b, Q)"
    using readable_get [OF rest(1) i rest(3), of "os_timeout ctx t"] assms(5) by (simp add: Q_def)
  obtain s' ts' where S: "CFE_SB_ReceiveBuffer ctx True p t s
      = Some ((CFE_SUCCESS, Some (b + CFE_SB_BUFFERD_CONTENT_OFFSET)), s')"
    "at_rest K s' zs ts' ids ds" "Queues s' = Q" "same_view s s'" "b \<in> set ts'" "PD_LastBuffer (PipeTbl s' ! i) = b"
    by (rule receive_some [OF rest(1,2,4) g])
  note v = same_viewD [OF S(4)]
  have "subs_of s' = subs_of s"
    using subscribers_cong [of s' s, OF v(2)] by (simp add: rest_subs [OF rest(1)] rest_subs [OF S(2)])
  moreover have "items Q (queue_of s j) = items (Queues s) (queue_of s j)" if "used s j" "j \<noteq> i" for j
  proof -
    have "queue_of s j \<noteq> queue_of s i" using that i R(1) unfolding pipes_ok_def by blast
    then show ?thesis using get_items(3) [OF g] by simp
  qed
  moreover have "items Q (queue_of s i) = bs" using get_items(2) [OF g, of b] assms(5) by simp
  ultimately show ?thesis
    using S v(1) v(3) [of b] by (intro exI [of _ s']) (simp add: owned_iff [OF rest(1)] owned_iff [OF S(2)] in_transit_iff [OF S(2)])
qed

text \<open>
  C6 Receiving from a pipe with queued buffers returns the oldest one with its payload untouched, keeps the
  rest in order and leaves every other pipe and every owned buffer alone.\<close>

theorem receive_fifo:
  assumes "sb_reach s" "find_pipe p s = Some i" "readable s i" "-1 \<le> t"
    and "items (Queues s) (queue_of s i) = b # bs"
  shows "\<exists>s'. CFE_SB_ReceiveBuffer ctx True p t s
      = Some ((CFE_SUCCESS, Some (b + CFE_SB_BUFFERD_CONTENT_OFFSET)), s')
    \<and> items (Queues s') (queue_of s' i) = bs \<and> PD_LastBuffer (PipeTbl s' ! i) = b
    \<and> in_transit s' b \<and> payload (Bufs s' b) = payload (Bufs s b)
    \<and> (\<forall>j. used s j \<longrightarrow> j \<noteq> i \<longrightarrow> items (Queues s') (queue_of s' j) = items (Queues s) (queue_of s j))
    \<and> (\<forall>x. owned s' x \<longleftrightarrow> owned s x) \<and> subs_of s' = subs_of s"
proof -
  obtain K zs ts ids ds where rest: "at_rest K s zs ts ids ds" by (rule reach_rest [OF assms(1)])
  from receive_first [OF rest assms(2-5)] show ?thesis .
qed

text \<open>The demonstration bus with one message waiting.\<close>

lemma demo_waiting:
  obtains s b where "sb_reach s" "find_pipe 0x160001 s = Some 1" "readable s 1" "items (Queues s) (queue_of s 1) = [b]"
proof -
  obtain K zs ts ids ds where rest: "at_rest K demo_sub zs ts ids ds" by (rule reach_rest [OF demo_sub_run(2)])
  obtain s b where S: "CFE_SB_TransmitMsg demo_ctx (Some demo_bytes) False demo_sub = Some (CFE_SUCCESS, s)"
    "items (Queues s) (queue_of s 1) = [b]" "same_bus demo_sub s"
    using transmit_msg_view [OF rest demo_caller(1) demo_sendable, of False] demo_room demo_sub_run(7)
      demo_slot_run(3) [OF demo_sub_run(3)] demo_readable(1) by (auto simp del: One_nat_def)
  have "sb_reach s" by (rule reach_step [OF demo_sub_run(2) sb_step.lossless [OF lossless_step.transmit_msg [OF demo_caller(1) S(1)]]])
  then show thesis
    using that S(2,3) demo_slot_run(1,3) [OF demo_sub_run(3)] demo_readable(2) by (simp add: same_bus_def)
qed

theorem receive_fifo_witness:
  "\<exists>s b s'. items (Queues s) (queue_of s 1) = [b]
    \<and> CFE_SB_ReceiveBuffer demo_ctx True 0x160001 0 s = Some ((CFE_SUCCESS, Some (b + CFE_SB_BUFFERD_CONTENT_OFFSET)), s')
    \<and> items (Queues s') (queue_of s' 1) = []"
proof -
  obtain s b where "sb_reach s" "find_pipe 0x160001 s = Some 1" "readable s 1" "items (Queues s) (queue_of s 1) = [b]"
    by (rule demo_waiting)
  then show ?thesis using receive_fifo [of s "0x160001" 1 0 b "[]" demo_ctx] by auto
qed

lemma receive_empty:
  assumes "sb_reach s" "find_pipe p s = Some i" "readable s i" "-1 < t"
    and "items (Queues s) (queue_of s i) = []"
  shows "\<exists>s'. CFE_SB_ReceiveBuffer ctx True p t s
      = Some ((if os_timeout ctx t = OS_CHECK then CFE_SB_NO_MESSAGE else CFE_SB_TIME_OUT, Some 0), s')
    \<and> (\<forall>j. items (Queues s') j = items (Queues s) j) \<and> (\<forall>x. owned s' x \<longleftrightarrow> owned s x)
    \<and> (\<forall>x. in_transit s' x \<longrightarrow> in_transit s x) \<and> subs_of s' = subs_of s"
proof -
  obtain K zs ts ids ds where rest: "at_rest K s zs ts ids ds" by (rule reach_rest [OF assms(1)])
  have i: "used s i" by (rule find_pipe_facts(5) [OF assms(2)])
  have t: "os_timeout ctx t \<noteq> OS_PEND" "-1 \<le> t"
    using assms(4) by (auto simp: os_timeout_def OS_PEND_def OS_CHECK_def CFE_SB_PEND_FOREVER_def Let_def)
  obtain Q where g: "OS_QueueGet (queue_of s i) sizeof_ptr (os_timeout ctx t) (Queues s)
      = Some (if os_timeout ctx t = OS_CHECK then OS_QUEUE_EMPTY else OS_QUEUE_TIMEOUT, None, Q)"
    using readable_get [OF rest i assms(3), of "os_timeout ctx t"] assms(5) t(1) by simp
  have code: "(if (if c then OS_QUEUE_EMPTY else OS_QUEUE_TIMEOUT) = OS_QUEUE_EMPTY then x
      else if (if c then OS_QUEUE_EMPTY else OS_QUEUE_TIMEOUT) = OS_QUEUE_TIMEOUT then y else z) = (if c then x else y)"
    for c and x y z :: CFE_Status by simp
  obtain s' ts' where S: "CFE_SB_ReceiveBuffer ctx True p t s
      = Some ((if os_timeout ctx t = OS_CHECK then CFE_SB_NO_MESSAGE else CFE_SB_TIME_OUT, Some 0), s')"
    "at_rest K s' zs ts' ids ds" "set ts' \<subseteq> set ts" "Queues s' = Q" "same_view s s'"
    by (rule receive_nothing [OF rest assms(2) t(2) g, unfolded code])
  have "subs_of s' = subs_of s"
    using subscribers_cong [of s' s, OF same_viewD(2) [OF S(5)]] by (simp add: rest_subs [OF rest] rest_subs [OF S(2)])
  then show ?thesis
    using S get_items(3) [OF g]
    by (intro exI [of _ s']) (auto simp: owned_iff [OF rest] owned_iff [OF S(2)] in_transit_iff [OF rest] in_transit_iff [OF S(2)])
qed

subsection \<open>From the sender to the receiver\<close>



end
