(* ===== verification/Sb_Management.thy ===== *)
theory Sb_Management
  imports Sb_Delivery
begin

section \<open>Software bus: subscriptions, pipes and buffers\<close>

text \<open>
  C8 The status of a subscription on every branch, and its effect: exactly a new, accepted subscription adds
  the pipe to the subscribers of the message, and nothing else changes a subscription.\<close>

theorem subscribe_result:
  assumes "sb_reach s" "caller_ok ctx"
  shows "\<exists>st s'. CFE_SB_SubscribeFull ctx m p q lim scope s = Some (st, s')
    \<and> st = (if \<not> may_subscribe ctx m p scope s then CFE_SB_BAD_ARGUMENT
            else if \<not> routed s m \<and> 256 \<le> unat (RouteIdxTop (Routes s)) then CFE_SB_MAX_MSGS_MET
            else if p \<in> set (subs_of s m) then CFE_SUCCESS
            else if 16 \<le> length (subs_of s m) then CFE_SB_MAX_DESTS_MET
            else if can_alloc sizeof_DestinationD s then CFE_SUCCESS else CFE_SB_BUF_ALOC_ERR)
    \<and> subs_of s' = (if st = CFE_SUCCESS \<and> p \<notin> set (subs_of s m)
                    then (subs_of s)(m := p # subs_of s m) else subs_of s)"
proof -
  obtain K zs ts ids ds where rest: "at_rest K s zs ts ids ds" by (rule reach_rest [OF assms(1)])
  obtain st s' ts' ids' ds' where S: "CFE_SB_SubscribeFull ctx m p q lim scope s = Some (st, s')"
    "at_rest K s' zs ts' ids' ds'"
    "st = subscribe_status (may_subscribe ctx m p scope s) ids (subscribers ids ds s m)
            (can_alloc sizeof_DestinationD s) m p"
    "subscribers ids' ds' s' = (if st = CFE_SUCCESS \<and> p \<notin> set (subscribers ids ds s m)
          then (subscribers ids ds s)(m := p # subscribers ids ds s m) else subscribers ids ds s)"
    using subscribe_run [OF rest assms(2), of m p q lim scope] by blast
  then show ?thesis
    by (intro exI [of _ st] exI [of _ s'])
      (simp add: subscribe_status_def rest_subs [OF rest] rest_subs [OF S(2)] rest_routed [OF rest] rest_routes [OF rest])
qed

theorem subscribe_result_witness:
  "\<exists>s'. CFE_SB_SubscribeFull demo_ctx demo_mid 0x160001 CFE_SB_DEFAULT_QOS 4 CFE_SB_MSG_LOCAL demo_sub = Some (CFE_SUCCESS, s')
    \<and> subs_of s' demo_mid = [0x160001]"
proof -
  have "may_subscribe demo_ctx demo_mid 0x160001 CFE_SB_MSG_LOCAL demo_sub"
    using demo_may unfolding may_subscribe_def demo_slot_run(1) [OF demo_pipe_run(2)] option.case
      demo_slot_run(4) [OF demo_pipe_run(2)] demo_slot_run(1) [OF demo_sub_run(3)] demo_slot_run(4) [OF demo_sub_run(3)] .
  moreover have "routed demo_sub demo_mid"
    using demo_sub_run(7) by (auto simp: takes_def dest_list_def list_ex_iff split: if_splits)
  ultimately show ?thesis
    using subscribe_result [OF demo_sub_run(2) demo_caller(1), of demo_mid "0x160001" CFE_SB_DEFAULT_QOS 4 CFE_SB_MSG_LOCAL]
    by (auto simp: demo_sub_run(8))
qed

text \<open>
  Once subscribed, a pipe with room takes the next message unless it ignores its own.\<close>

theorem subscribed_pipe_takes:
  assumes "sb_reach s" "caller_ok ctx" "\<not> SubscriptionReporting s \<or> scope \<noteq> CFE_SB_MSG_GLOBAL"
    and "CFE_SB_SubscribeFull ctx m p q lim scope s = Some (CFE_SUCCESS, s')" "p \<notin> set (subs_of s m)"
    and "find_pipe p s = Some i" "0 < lim" "has_room (Queues s) (queue_of s i)"
    and "PD_Opts (PipeTbl s ! i) AND CFE_SB_PIPEOPTS_IGNOREMINE = 0 \<or> PD_AppId (PipeTbl s ! i) \<noteq> A"
  shows "takes A s' m i \<and> PipeTbl s' = PipeTbl s \<and> Queues s' = Queues s"
proof -
  obtain K zs ts ids ds where rest: "at_rest K s zs ts ids ds" by (rule reach_rest [OF assms(1)])
  from subscribe_takes(1-3) [OF rest assms(2-9)] show ?thesis by blast
qed

theorem subscribed_pipe_takes_witness:
  "takes 0x110002 demo_sub demo_mid 1"
proof -
  have room: "has_room (Queues demo_pipe) (queue_of demo_pipe 1)"
    by (simp add: has_room_def demo_pipe_run(3) demo_slot_run(2) [OF demo_pipe_run(2), simplified]) (simp add: demo_queue_def)
  have scope: "\<not> SubscriptionReporting demo_pipe \<or> CFE_SB_MSG_LOCAL \<noteq> CFE_SB_MSG_GLOBAL"
    by (rule disjI2) code_simp
  have opts: "PD_Opts (PipeTbl demo_pipe ! 1) AND CFE_SB_PIPEOPTS_IGNOREMINE = 0 \<or> PD_AppId (PipeTbl demo_pipe ! 1) \<noteq> 0x110002"
    unfolding demo_slot_run(5) [OF demo_pipe_run(2)] by simp
  have new: "0x160001 \<notin> set (subs_of demo_pipe demo_mid)"
    by (simp add: rest_subs [OF demo_rest1] subscribers_def route_list_def pipes_of_def)
  have "(0 :: uint16) < 4" by simp
  from subscribed_pipe_takes [OF demo_reach1(2) demo_caller(1) scope demo_sub_run(1) new demo_slot_run(1) [OF demo_pipe_run(2)] this room opts]
  show ?thesis by blast
qed

text \<open>
  Unsubscribing succeeds exactly for the owner of an existing pipe, a valid message ID and a valid scope;
  it removes the pipe from that message only, and is not an error when there was no subscription.\<close>

theorem unsubscribe_result:
  assumes "sb_reach s"
  shows "\<exists>s'. CFE_SB_UnsubscribeFull m p scope a s
      = Some (if (\<exists>i. find_pipe p s = Some i \<and> PD_AppId (PipeTbl s ! i) = a) \<and> CFE_SB_IsValidMsgId m \<and> scope \<le> 1
              then CFE_SUCCESS else CFE_SB_BAD_ARGUMENT, s')
    \<and> subs_of s' = (if (\<exists>i. find_pipe p s = Some i \<and> PD_AppId (PipeTbl s ! i) = a) \<and> CFE_SB_IsValidMsgId m \<and> scope \<le> 1
                    then (subs_of s)(m := removeAll p (subs_of s m)) else subs_of s)
    \<and> Queues s' = Queues s \<and> PipeTbl s' = PipeTbl s \<and> Bufs s' = Bufs s"
proof -
  obtain K zs ts ids ds where rest: "at_rest K s zs ts ids ds" by (rule reach_rest [OF assms(1)])
  have ex: "(case find_pipe p s of None \<Rightarrow> False | Some i \<Rightarrow> PD_AppId (PipeTbl s ! i) = a)
      \<longleftrightarrow> (\<exists>i. find_pipe p s = Some i \<and> PD_AppId (PipeTbl s ! i) = a)" by (cases "find_pipe p s") auto
  have "distinct (subs_of s m)"
    using routes_okD(4) [OF runningD(3) [OF at_restD(1) [OF rest]], of "index_of m ids"]
      route_list_head(4) [OF runningD(3) [OF at_restD(1) [OF rest]], of m]
    by (auto simp: rest_subs [OF rest] subscribers_def route_list_def pipes_of_def)
  then have rm: "remove1 p (subscribers ids ds s m) = removeAll p (subscribers ids ds s m)"
    unfolding rest_subs [OF rest] by (rule distinct_remove1_removeAll)
  obtain s' ds' where S: "CFE_SB_UnsubscribeFull m p scope a s
      = Some (if (case find_pipe p s of None \<Rightarrow> False | Some i \<Rightarrow> PD_AppId (PipeTbl s ! i) = a)
                 \<and> CFE_SB_IsValidMsgId m \<and> scope \<le> 1 then CFE_SUCCESS else CFE_SB_BAD_ARGUMENT, s')"
    "at_rest K s' zs ts ids ds'"
    "subscribers ids ds' s' = (if (case find_pipe p s of None \<Rightarrow> False | Some i \<Rightarrow> PD_AppId (PipeTbl s ! i) = a)
                 \<and> CFE_SB_IsValidMsgId m \<and> scope \<le> 1
          then (subscribers ids ds s)(m := remove1 p (subscribers ids ds s m)) else subscribers ids ds s)"
    "Queues s' = Queues s \<and> PipeTbl s' = PipeTbl s \<and> Bufs s' = Bufs s"
    using unsubscribe_run [OF rest, of m p scope a] by blast
  show ?thesis
    using S(1,3,4) unfolding ex rest_subs [OF rest] rm
    by (intro exI [of _ s']) (simp only: rest_subs [OF S(2)] simp_thms)
qed

theorem unsubscribe_result_witness:
  "\<exists>s'. CFE_SB_UnsubscribeFull demo_mid 0x160001 CFE_SB_MSG_LOCAL 0x110001 demo_sub = Some (CFE_SUCCESS, s')
    \<and> subs_of s' demo_mid = []"
proof -
  have "CFE_SB_IsValidMsgId demo_mid" "CFE_SB_MSG_LOCAL \<le> 1" by code_simp+
  moreover have "\<exists>i. find_pipe 0x160001 demo_sub = Some i \<and> PD_AppId (PipeTbl demo_sub ! i) = 0x110001"
    using demo_slot_run(1,4) [OF demo_sub_run(3)] by blast
  ultimately show ?thesis
    using unsubscribe_result [OF demo_sub_run(2), of demo_mid "0x160001" CFE_SB_MSG_LOCAL "0x110001"]
    by (auto simp: demo_sub_run(8))
qed

text \<open>
  A successful creation yields a fresh pipe ID in a free slot with an empty queue and no subscription; a
  failed one yields none; existing pipes, queues, subscriptions and buffers are untouched.\<close>

theorem create_pipe_result:
  assumes "sb_reach s" "env_ok env s" "CFE_SB_CreatePipe env ctx ptr depth nm s = ((st, out), s')"
  shows "(if st = CFE_SUCCESS
      then \<exists>pid i. out = Some pid \<and> \<not> used s i \<and> find_pipe pid s = None \<and> find_pipe pid s' = Some i
         \<and> PD_AppId (PipeTbl s' ! i) = caller_app ctx \<and> items (Queues s') (queue_of s' i) = []
         \<and> (\<forall>m. pid \<notin> set (subs_of s' m))
      else out = None)
    \<and> (\<forall>q j. find_pipe q s = Some j \<longrightarrow> find_pipe q s' = Some j)
    \<and> (\<forall>j. used s j \<longrightarrow> items (Queues s') (queue_of s j) = items (Queues s) (queue_of s j))
    \<and> subs_of s' = subs_of s \<and> Bufs s' = Bufs s"
proof -
  obtain K zs ts ids ds where rest: "at_rest K s zs ts ids ds" by (rule reach_rest [OF assms(1)])
  note C = create_run [OF rest assms(2,3)]
  have subs: "subs_of s' = subs_of s"
    using subscribers_cong [of s' s] C(3) by (simp add: rest_subs [OF rest] rest_subs [OF C(1)])
  have live: "find_pipe q s \<noteq> None" if "q \<in> set (subs_of s m)" for q m
    using that routes_okD(6) [OF runningD(3) [OF at_restD(1) [OF rest]], of "index_of m ids"]
      route_list_head(4) [OF runningD(3) [OF at_restD(1) [OF rest]], of m]
    by (auto simp: rest_subs [OF rest] subscribers_def route_list_def pipes_of_def split: if_splits)
  have "\<exists>pid i. out = Some pid \<and> \<not> used s i \<and> find_pipe pid s = None \<and> find_pipe pid s' = Some i
         \<and> PD_AppId (PipeTbl s' ! i) = caller_app ctx \<and> items (Queues s') (queue_of s' i) = []
         \<and> (\<forall>m. pid \<notin> set (subs_of s' m))" if ok: "st = CFE_SUCCESS"
  proof -
    obtain pid i where p: "out = Some pid" "\<not> used s i" "find_pipe pid s' = Some i"
      "items (Queues s') (queue_of s' i) = []" "PD_AppId (PipeTbl s' ! i) = caller_app ctx"
      using C(6) unfolding if_P [OF ok] by blast
    have "find_pipe pid s = None"
    proof (rule ccontr)
      assume "find_pipe pid s \<noteq> None"
      then obtain j where j: "find_pipe pid s = Some j" by blast
      with C(2) p(3) have "j = i" by simp
      with p(2) find_pipe_facts(5) [OF j] show False by simp
    qed
    with p live show ?thesis unfolding subs by blast
  qed
  then show ?thesis using C(2,4,5,6) subs by auto
qed

theorem create_pipe_result_witness:
  "\<exists>i. find_pipe 0x160001 demo_pipe = Some i \<and> items (Queues demo_pipe) (queue_of demo_pipe i) = []
    \<and> (\<forall>m. 0x160001 \<notin> set (subs_of demo_pipe m))"
  using create_pipe_result [OF demo_reach0 demo_env_ok demo_pipe_run(1)] by auto

text \<open>
  C9 Deleting a pipe by its owner succeeds, removes the pipe from the table and from every route, and keeps all owned
  buffers. If its queue can be read, exactly the buffers that only this pipe held are released. If it cannot, the call still
  succeeds and the entries of the queue are lost: their buffers stay in transit although no pipe holds them. The queue
  is gone unless the system refuses to close it, which the code does not notice.\<close>

theorem delete_pipe_result:
  assumes "sb_history K s" "find_pipe p s = Some i" "PD_AppId (PipeTbl s ! i) = a"
  shows "\<exists>s'. CFE_SB_DeletePipeFull p a s = Some (CFE_SUCCESS, s')
    \<and> (\<forall>q. find_pipe q s' = (if q = p then None else find_pipe q s))
    \<and> (\<forall>m. subs_of s' m = removeAll p (subs_of s m)) \<and> (map_of (Queues s') (queue_of s i) = None \<longleftrightarrow> \<not> stuck s i)
    \<and> (\<forall>b. in_transit s' b \<longleftrightarrow> (\<exists>j. used s j \<and> j \<noteq> i
           \<and> (b \<in> set (items (Queues s) (queue_of s j)) \<or> b \<noteq> 0 \<and> PD_LastBuffer (PipeTbl s ! j) = b))
         \<or> b \<in># K \<or> \<not> readable s i \<and> b \<in> set (items (Queues s) (queue_of s i)))
    \<and> (\<forall>b. owned s' b \<longleftrightarrow> owned s b)"
proof -
  obtain zs ts ids ds where rest: "at_rest K s zs ts ids ds" by (rule history_rest [OF assms(1)])
  note R = runningD [OF at_restD(1) [OF rest]] and P = find_pipe_facts [OF assms(2)]
  obtain s' ts' ds' where S: "CFE_SB_DeletePipeFull p a s = Some (CFE_SUCCESS, s')" "at_rest (K + unread s i) s' zs ts' ids ds'"
    "\<forall>m. subscribers ids ds' s' m = removeAll p (subscribers ids ds s m)"
    "PipeTbl s' = (PipeTbl s)[i := (PipeTbl s ! i)\<lparr>PD_PipeId := CFE_SB_INVALID_PIPE\<rparr>]"
    "\<forall>j. j \<noteq> queue_of s i \<longrightarrow> map_of (Queues s') j = map_of (Queues s) j"
    "map_of (Queues s') (queue_of s i) = None \<longleftrightarrow> \<not> stuck s i"
    using delete_run [OF rest assms(2,3)] by (elim exE conjE) (rule that; assumption)
  have fp: "find_pipe q s' = (if q = p then None else find_pipe q s)" for q
    using find_slot_free [OF S(4) R(5) assms(2)] by simp
  have used: "used s' j \<longleftrightarrow> used s j \<and> j \<noteq> i" for j
    using P(1) R(5) by (auto simp: used_def S(4) nth_list_update CFE_SB_PipeDescIsUsed_def CFE_SB_INVALID_PIPE_def
        CFE_ResourceId_IsDefined_def)
  have same: "items (Queues s') (queue_of s' j) = items (Queues s) (queue_of s j)"
    "PD_LastBuffer (PipeTbl s' ! j) = PD_LastBuffer (PipeTbl s ! j)" if "used s j" "j \<noteq> i" for j
  proof -
    have "queue_of s j \<noteq> queue_of s i" using R(1) that P(5) unfolding pipes_ok_def by blast
    then show "items (Queues s') (queue_of s' j) = items (Queues s) (queue_of s j)"
      "PD_LastBuffer (PipeTbl s' ! j) = PD_LastBuffer (PipeTbl s ! j)"
      using that(2) S(5) by (simp_all add: queue_of_def S(4) items_def)
  qed
  have held: "b \<in># refs s' \<longleftrightarrow> (\<exists>j. used s j \<and> j \<noteq> i
           \<and> (b \<in> set (items (Queues s) (queue_of s j)) \<or> b \<noteq> 0 \<and> PD_LastBuffer (PipeTbl s ! j) = b))" for b
    unfolding in_refs [OF runningD(1) [OF at_restD(1) [OF S(2)]]] used
    by (intro ex_cong1) (auto simp: same)
  have "b \<in># unread s i \<longleftrightarrow> \<not> readable s i \<and> b \<in> set (items (Queues s) (queue_of s i))" for b by (rule in_unread)
  then have "in_transit s' b \<longleftrightarrow> (\<exists>j. used s j \<and> j \<noteq> i
           \<and> (b \<in> set (items (Queues s) (queue_of s j)) \<or> b \<noteq> 0 \<and> PD_LastBuffer (PipeTbl s ! j) = b))
         \<or> b \<in># K \<or> \<not> readable s i \<and> b \<in> set (items (Queues s) (queue_of s i))" for b
    unfolding transit_refs [OF S(2)] held [symmetric] by simp
  then show ?thesis
    using S(1,3,6) fp by (intro exI [of _ s'])
      (simp add: rest_subs [OF rest] rest_subs [OF S(2)] owned_iff [OF rest] owned_iff [OF S(2)])
qed

theorem delete_pipe_result_witness:
  "\<exists>s'. CFE_SB_DeletePipeFull 0x160001 0x110001 demo_sub = Some (CFE_SUCCESS, s')
    \<and> find_pipe 0x160001 s' = None \<and> subs_of s' demo_mid = []"
  using delete_pipe_result [OF demo_sub_run(9) demo_slot_run(1,4) [OF demo_sub_run(3)]]
  by (auto simp: demo_sub_run(8))

subsection \<open>Zero-copy buffers\<close>

lemma allocate_result:
  assumes "sb_reach s" "caller_ok ctx" "CFE_SB_AllocateMessageBuffer ctx n s = (r, s')"
  shows "(r \<noteq> None \<longleftrightarrow> unat n \<le> 32768 \<and> CallerApp ctx \<noteq> None \<and> can_alloc (n + CFE_SB_BUFFERD_CONTENT_OFFSET) s)
    \<and> (case r of None \<Rightarrow> Bufs s' = Bufs s \<and> (\<forall>x. owned s' x \<longleftrightarrow> owned s x)
      | Some p \<Rightarrow> (let b = p - CFE_SB_BUFFERD_CONTENT_OFFSET in
          \<not> owned s b \<and> \<not> in_transit s b \<and> (\<forall>x. owned s' x \<longleftrightarrow> x = b \<or> owned s x)
          \<and> CallerApp ctx = Some (BF_AppId (Bufs s' b)) \<and> BF_Content (Bufs s' b) = replicate (unat n) 0
          \<and> (\<forall>x. x \<noteq> b \<longrightarrow> Bufs s' x = Bufs s x)))
    \<and> (\<forall>x. in_transit s' x \<longleftrightarrow> in_transit s x) \<and> Queues s' = Queues s \<and> PipeTbl s' = PipeTbl s \<and> subs_of s' = subs_of s"
proof -
  obtain K zs ts ids ds where rest: "at_rest K s zs ts ids ds" by (rule reach_rest [OF assms(1)])
  note A = alloc_run [OF rest assms(2,3)]
  show ?thesis
  proof (cases r)
    case None
    from A(1) [OF None] have rest': "at_rest K s' zs ts ids ds" and B: "Bufs s' = Bufs s" by simp_all
    have "subs_of s' = subs_of s"
      using subscribers_cong [of s' s] A(3) by (simp add: rest_subs [OF rest] rest_subs [OF rest'])
    then show ?thesis
      using None B A(5,6,8) by (simp add: owned_iff [OF rest] owned_iff [OF rest'] in_transit_iff [OF rest] in_transit_iff [OF rest'])
  next
    case (Some p)
    then obtain b where b: "p = b + CFE_SB_BUFFERD_CONTENT_OFFSET" "b \<notin> set zs \<union> set ts"
      "at_rest K s' (zs @ [b]) ts ids ds" "BF_Content (Bufs s' b) = replicate (unat n) 0"
      "CallerApp ctx = Some (BF_AppId (Bufs s' b))" "\<forall>x. x \<noteq> b \<longrightarrow> Bufs s' x = Bufs s x"
      using A(2) [OF Some] by blast
    have pb: "p - CFE_SB_BUFFERD_CONTENT_OFFSET = b" by (simp add: b(1))
    have "subs_of s' = subs_of s"
      using subscribers_cong [of s' s] A(3) by (simp add: rest_subs [OF rest] rest_subs [OF b(3)])
    then show ?thesis
      using Some b A(5,6,8)
      by (auto simp: pb Let_def owned_iff [OF rest] owned_iff [OF b(3)] in_transit_iff [OF rest] in_transit_iff [OF b(3)])
  qed
qed

text \<open>
  C10 An owned zero-copy buffer can be released exactly once; afterwards its handle is refused by release and
  by transmit, without an effect.\<close>

theorem release_once:
  assumes "sb_reach s" "owned s b" "p = b + CFE_SB_BUFFERD_CONTENT_OFFSET" "p \<noteq> 0"
  shows "\<exists>s'. CFE_SB_ReleaseMessageBuffer p s = (CFE_SUCCESS, s')
    \<and> (\<forall>x. owned s' x \<longleftrightarrow> owned s x \<and> x \<noteq> b) \<and> (\<forall>x. in_transit s' x \<longleftrightarrow> in_transit s x)
    \<and> CFE_SB_ReleaseMessageBuffer p s' = (CFE_SB_BUFFER_INVALID, s')
    \<and> (\<exists>st s''. CFE_SB_TransmitBuffer ctx p org s' = Some (st, s'') \<and> st \<noteq> CFE_SUCCESS \<and> quiet s' s'')"
proof -
  obtain K zs ts ids ds where rest: "at_rest K s zs ts ids ds" by (rule reach_rest [OF assms(1)])
  have b: "b \<in> set zs" using assms(2) by (simp add: owned_iff [OF rest])
  obtain s' where S: "CFE_SB_ReleaseMessageBuffer p s = (CFE_SUCCESS, s')" "at_rest K s' (remove1 b zs) ts ids ds"
    "BF_AppId (Bufs s' b) = CFE_ES_APPID_UNDEFINED"
    using release_run [OF rest b assms(3,4)] by metis
  have "p - CFE_SB_BUFFERD_CONTENT_OFFSET = b" by (simp add: assms(3))
  then have "\<exists>st s''. CFE_SB_TransmitBuffer ctx p org s' = Some (st, s'') \<and> st \<noteq> CFE_SUCCESS \<and> quiet s' s''"
    using transmit_buffer_refuses [of p s' ctx org] S(3) by metis
  then show ?thesis
    using S(1) unowned_refused [OF S(3) assms(3,4)] at_restD(5) [OF rest]
    by (intro exI [of _ s']) (auto simp: owned_iff [OF rest] owned_iff [OF S(2)] in_transit_iff [OF rest] in_transit_iff [OF S(2)])
qed

theorem release_once_witness:
  "\<exists>s'. CFE_SB_ReleaseMessageBuffer demo_handle demo_own = (CFE_SUCCESS, s') \<and> \<not> owned s' demo_buffer
    \<and> CFE_SB_ReleaseMessageBuffer demo_handle s' = (CFE_SB_BUFFER_INVALID, s')"
  using release_once [OF demo_own_run(1-4)] by blast

text \<open>
  C11 Cleaning up after an application removes exactly its pipes, their subscriptions and its zero-copy buffers. Of
  the buffers in transit those stay that a pipe of another application holds; the rest is released, except for the
  entries in queues of its pipes that cannot be read, which are lost.\<close>

theorem clean_up_result:
  assumes "sb_history K s"
  shows "\<exists>s'. CFE_SB_CleanUpApp a s = Some (CFE_SUCCESS, s')
    \<and> (\<forall>x. owned s' x \<longleftrightarrow> owned s x \<and> BF_AppId (Bufs s x) \<noteq> a)
    \<and> (\<forall>q. find_pipe q s' = (case find_pipe q s of None \<Rightarrow> None
         | Some i \<Rightarrow> if PD_AppId (PipeTbl s ! i) = a then None else Some i))
    \<and> (\<forall>m. subs_of s' m = filter (\<lambda>q. find_pipe q s' \<noteq> None) (subs_of s m))
    \<and> (\<forall>b. in_transit s' b \<longleftrightarrow> (\<exists>j. used s j \<and> PD_AppId (PipeTbl s ! j) \<noteq> a
           \<and> (b \<in> set (items (Queues s) (queue_of s j)) \<or> b \<noteq> 0 \<and> PD_LastBuffer (PipeTbl s ! j) = b))
         \<or> b \<in># K \<or> (\<exists>j. used s j \<and> PD_AppId (PipeTbl s ! j) = a \<and> \<not> readable s j
               \<and> b \<in> set (items (Queues s) (queue_of s j))))"
proof -
  obtain zs ts ids ds where rest: "at_rest K s zs ts ids ds" by (rule history_rest [OF assms(1)])
  note R = runningD [OF at_restD(1) [OF rest]]
  obtain s' ts' ds' where S: "CFE_SB_CleanUpApp a s = Some (CFE_SUCCESS, s')"
    "at_rest (K + unread_of s (pipes_owned a s)) s' (released a s zs) ts' ids ds'"
    "\<forall>m. subscribers ids ds' s' m = filter (\<lambda>q. q \<notin> set (pipes_owned a s)) (subscribers ids ds s m)"
    "\<forall>q. find_pipe q s' = (if q \<in> set (pipes_owned a s) then None else find_pipe q s)"
    "\<forall>i. used s' i \<longrightarrow> PipeTbl s' ! i = PipeTbl s ! i \<and> used s i
           \<and> map_of (Queues s') (queue_of s i) = map_of (Queues s) (queue_of s i)"
    using clean_up_run [OF rest, of a] by blast
  note R' = runningD [OF at_restD(1) [OF S(2)]]
  have own: "q \<in> set (pipes_owned a s) \<longleftrightarrow> (\<exists>i. find_pipe q s = Some i \<and> PD_AppId (PipeTbl s ! i) = a)" for q
    by (rule pipes_owned(2) [OF R(5,2)])
  have live: "find_pipe q s \<noteq> None" if "q \<in> set (subscribers ids ds s m)" for q m
    using that routes_okD(6) [OF R(3), of "index_of m ids"] route_list_head(4) [OF R(3), of m]
    by (auto simp: subscribers_def route_list_def pipes_of_def split: if_splits)
  have "subs_of s' m = filter (\<lambda>q. find_pipe q s' \<noteq> None) (subs_of s m)" for m
    unfolding rest_subs [OF rest] rest_subs [OF S(2)] S(3) [rule_format]
    by (rule filter_cong) (use live S(4) in auto)
  moreover have fp: "find_pipe q s' = (case find_pipe q s of None \<Rightarrow> None
         | Some i \<Rightarrow> if PD_AppId (PipeTbl s ! i) = a then None else Some i)" for q
    using S(4) by (simp add: own split: option.split)
  moreover have "owned s' x \<longleftrightarrow> owned s x \<and> BF_AppId (Bufs s x) \<noteq> a" for x
    by (simp add: owned_iff [OF rest] owned_iff [OF S(2)] released_def)
  moreover have "in_transit s' b \<longleftrightarrow> (\<exists>j. used s j \<and> PD_AppId (PipeTbl s ! j) \<noteq> a
           \<and> (b \<in> set (items (Queues s) (queue_of s j)) \<or> b \<noteq> 0 \<and> PD_LastBuffer (PipeTbl s ! j) = b))
         \<or> b \<in># K \<or> (\<exists>j. used s j \<and> PD_AppId (PipeTbl s ! j) = a \<and> \<not> readable s j
               \<and> b \<in> set (items (Queues s) (queue_of s j)))" for b
  proof -
    have us: "used s' j \<longleftrightarrow> used s j \<and> PD_AppId (PipeTbl s ! j) \<noteq> a" for j
    proof
      assume u: "used s' j"
      with S(5) have "used s j" "PipeTbl s' ! j = PipeTbl s ! j" by auto
      with used_find [OF R'(2) u] fp used_find [OF R(2) \<open>used s j\<close>]
      show "used s j \<and> PD_AppId (PipeTbl s ! j) \<noteq> a" by (auto split: if_splits)
    next
      assume "used s j \<and> PD_AppId (PipeTbl s ! j) \<noteq> a"
      with used_find [OF R(2), of j] fp [of "PD_PipeId (PipeTbl s ! j)"] show "used s' j" by (auto dest: find_pipe_facts(5))
    qed
    have "b \<in># refs s' \<longleftrightarrow> (\<exists>j. used s j \<and> PD_AppId (PipeTbl s ! j) \<noteq> a
           \<and> (b \<in> set (items (Queues s) (queue_of s j)) \<or> b \<noteq> 0 \<and> PD_LastBuffer (PipeTbl s ! j) = b))"
      unfolding in_refs [OF R'(1)]
    proof (rule ex_cong1)
      fix j
      show "used s' j \<and> (b \<in> set (items (Queues s') (queue_of s' j)) \<or> b \<noteq> 0 \<and> PD_LastBuffer (PipeTbl s' ! j) = b)
        \<longleftrightarrow> used s j \<and> PD_AppId (PipeTbl s ! j) \<noteq> a
           \<and> (b \<in> set (items (Queues s) (queue_of s j)) \<or> b \<noteq> 0 \<and> PD_LastBuffer (PipeTbl s ! j) = b)"
        using S(5) [rule_format, of j] us [of j] by (auto simp: queue_of_def items_def)
    qed
    then show ?thesis
      using in_unread_of [OF R(2,5), of b a] by (simp add: transit_refs [OF S(2)] disj_assoc)
  qed
  ultimately show ?thesis using S(1) by blast
qed

theorem clean_up_result_witness:
  "\<exists>s'. CFE_SB_CleanUpApp 0x110001 demo_own = Some (CFE_SUCCESS, s') \<and> find_pipe 0x160001 s' = None
    \<and> subs_of s' demo_mid = []"
  using clean_up_result [OF demo_own_run(6), of "0x110001"] demo_slot_run(1,4) [OF demo_own_view(1)]
  by (auto simp: demo_own_view(4) simp del: One_nat_def)

subsection \<open>Routes that are switched off\<close>

lemma accepts_pipe:
  "dest_accepts A d s = Some k \<Longrightarrow> find_pipe (DD_PipeId d) s = Some k \<and> DD_Active d = CFE_SB_ACTIVE"
  by (auto simp: dest_accepts_def find_pipe_def Let_def split: if_splits option.splits)

text \<open>The destinations after one of the two commands, and what the pipes then take.\<close>

lemma takes_switched:
  assumes rest: "at_rest K s zs ts ids ds" and rest': "at_rest K s' zs ts ids ds"
    and tbl: "PipeTbl s' = PipeTbl s" "Queues s' = Queues s" and p: "find_pipe p s = Some i"
    and D: "Dests s' = (\<lambda>d. if d \<in> set (route_list ids ds m) \<and> DD_PipeId (Dests s d) = p
          then (Dests s d)\<lparr>DD_Active := v\<rparr> else Dests s d)"
  shows "(m', j) \<noteq> (m, i) \<Longrightarrow> takes A s' m' j = takes A s m' j"
    "v \<noteq> CFE_SB_ACTIVE \<Longrightarrow> \<not> takes A s' m i" "subs_of s' = subs_of s"
proof -
  note R = runningD(3) [OF at_restD(1) [OF rest]]
  have q: "queue_of s' = queue_of s" by (rule tbl_cong(4) [OF tbl(1)])
  have who: "k = i" if "dest_accepts A d s = Some k" "DD_PipeId d = p" for A d k
    using accepts_pipe [OF that(1)] that(2) p by simp
  have acc: "dest_accepts A d s' = dest_accepts A d s" for A d by (rule tbl_cong(6) [OF tbl(1)])
  have other: "set (route_list ids ds m') \<inter> set (route_list ids ds m) = {}" if "m' \<noteq> m" for m'
    using that routes_okD(7) [OF R, of "index_of m' ids" "index_of m ids"] route_list_head(4) [OF R] index_of_inj [of m' ids m]
    by (auto simp: route_list_def)
  show "takes A s' m' j = takes A s m' j" if ne: "(m', j) \<noteq> (m, i)"
  proof -
    have "dest_accepts A (Dests s' d) s' = Some j \<longleftrightarrow> dest_accepts A (Dests s d) s = Some j"
      if "d \<in> set (route_list ids ds m')" for d
    proof (cases "d \<in> set (route_list ids ds m) \<and> DD_PipeId (Dests s d) = p")
      case True
      have "j \<noteq> i"
      proof
        assume "j = i"
        with ne have "m' \<noteq> m" by simp
        from other [OF this] True that show False by blast
      qed
      with True who [of A "Dests s d" j] who [of A "Dests s' d" j] show ?thesis by (auto simp: acc D)
    next
      case False
      then have "Dests s' d = Dests s d" unfolding D by (rule if_not_P)
      then show ?thesis by (simp add: acc)
    qed
    moreover have "DD_BuffCount (Dests s' d) = DD_BuffCount (Dests s d)"
      "DD_MsgId2PipeLim (Dests s' d) = DD_MsgId2PipeLim (Dests s d)" for d by (simp_all add: D)
    ultimately show ?thesis
      by (simp add: takes_def rest_dests [OF rest] rest_dests [OF rest'] tbl q list_ex_iff cong: bex_cong)
  qed
  show "\<not> takes A s' m i" if "v \<noteq> CFE_SB_ACTIVE"
  proof
    assume "takes A s' m i"
    then obtain d where d: "d \<in> set (route_list ids ds m)" "dest_accepts A (Dests s' d) s = Some i"
      by (auto simp: takes_def rest_dests [OF rest'] list_ex_iff acc)
    have "DD_PipeId (Dests s' d) = p" "DD_Active (Dests s' d) = CFE_SB_ACTIVE"
      using accepts_pipe [OF d(2)] p find_pipe_facts(2) by metis+
    then show False using d(1) that by (simp add: D split: if_splits)
  qed
  show "subs_of s' = subs_of s"
    using subscribers_cong [of s' s] by (simp add: D rest_subs [OF rest] rest_subs [OF rest'])
qed

text \<open>
  Disabling a route stops the delivery of that message to that pipe and of nothing else, and enabling it
  again restores the routing exactly.\<close>

lemma disable_enable:
  assumes "sb_reach s" "CFE_SB_IsValidMsgId m" "find_pipe p s = Some i"
    and "\<forall>d \<in> set (dest_list s m). DD_PipeId (Dests s d) = p \<longrightarrow> DD_Active (Dests s d) = CFE_SB_ACTIVE"
  shows "\<exists>s' s''. CFE_SB_DisableRouteCmd m p s = Some (CFE_SUCCESS, s') \<and> \<not> takes A s' m i
    \<and> subs_of s' = subs_of s \<and> (\<forall>m' j. (m', j) \<noteq> (m, i) \<longrightarrow> takes A s' m' j = takes A s m' j)
    \<and> CFE_SB_EnableRouteCmd m p s' = Some (CFE_SUCCESS, s'')
    \<and> Dests s'' = Dests s \<and> Routes s'' = Routes s \<and> PipeTbl s'' = PipeTbl s \<and> Queues s'' = Queues s"
proof -
  obtain K zs ts ids ds where rest: "at_rest K s zs ts ids ds" by (rule reach_rest [OF assms(1)])
  let ?xs = "route_list ids ds m"
  obtain s' where S: "CFE_SB_DisableRouteCmd m p s = Some (CFE_SUCCESS, s')" "at_rest K s' zs ts ids ds"
    "Queues s' = Queues s" "PipeTbl s' = PipeTbl s" "Routes s' = Routes s"
    "Dests s' = (\<lambda>d. if d \<in> set ?xs \<and> DD_PipeId (Dests s d) = p
        then (Dests s d)\<lparr>DD_Active := CFE_SB_INACTIVE\<rparr> else Dests s d)"
    using set_active_run [OF rest, of CFE_SB_INACTIVE CFE_SB_DSBL_RTE1_EID CFE_SB_DSBL_RTE2_EID CFE_SB_DSBL_RTE3_EID m p]
      assms(2,3) by (auto simp: CFE_SB_DisableRouteCmd_def)
  have p': "find_pipe p s' = Some i" using tbl_cong(2) [OF S(4)] assms(3) by simp
  obtain s'' where E: "CFE_SB_EnableRouteCmd m p s' = Some (CFE_SUCCESS, s'')"
    "Queues s'' = Queues s'" "PipeTbl s'' = PipeTbl s'" "Routes s'' = Routes s'"
    "Dests s'' = (\<lambda>d. if d \<in> set ?xs \<and> DD_PipeId (Dests s' d) = p
        then (Dests s' d)\<lparr>DD_Active := CFE_SB_ACTIVE\<rparr> else Dests s' d)"
    using set_active_run [OF S(2), of CFE_SB_ACTIVE CFE_SB_ENBL_RTE1_EID CFE_SB_ENBL_RTE2_EID CFE_SB_ENBL_RTE3_EID m p]
      assms(2) p' by (auto simp: CFE_SB_EnableRouteCmd_def)
  have "Dests s'' = Dests s"
    using assms(4) by (auto simp: E(5) S(6) fun_eq_iff rest_dests [OF rest])
  moreover have "CFE_SB_INACTIVE \<noteq> CFE_SB_ACTIVE" by (simp add: CFE_SB_INACTIVE_def CFE_SB_ACTIVE_def)
  moreover note takes_switched [OF rest S(2,4,3) assms(3) S(6)]
  ultimately show ?thesis using S(1,3-5) E(1-4) by (intro exI [of _ s'] exI [of _ s'']) auto
qed

lemma disable_enable_witness:
  "\<exists>s' s''. CFE_SB_DisableRouteCmd demo_mid 0x160001 demo_sub = Some (CFE_SUCCESS, s')
    \<and> \<not> takes 0x110001 s' demo_mid 1 \<and> CFE_SB_EnableRouteCmd demo_mid 0x160001 s' = Some (CFE_SUCCESS, s'')
    \<and> Dests s'' = Dests demo_sub"
proof -
  have "CFE_SB_IsValidMsgId demo_mid" by code_simp
  from disable_enable [OF demo_sub_run(2) this demo_slot_run(1) [OF demo_sub_run(3)], of "0x110001"] demo_active
  show ?thesis by blast
qed

lemma early_init_result:
  assumes "CFE_SB_EarlyInit mutex_ok a mem s = (CFE_SUCCESS, s')"
    and "length (MemPoolTable (Pools s)) = unat CFE_PLATFORM_ES_MAX_MEMORY_POOLS" "unat mem + 524288 < 2 ^ 64"
  shows "(\<forall>q. find_pipe q s' = None) \<and> (\<forall>m. subs_of s' m = [] \<and> \<not> routed s' m)
    \<and> (\<forall>b. \<not> owned s' b \<and> \<not> in_transit s' b) \<and> mem_rep (PoolHdl s') (Pools s') (\<lambda>_. None)"
proof -
  have rest: "at_rest {#} s' [] [] [] (\<lambda>_. [])" by (rule early_init_run [OF assms])
  have tbl: "PipeTbl s' = replicate 64 blank_pipe"
    using assms(1) by (auto simp: CFE_SB_EarlyInit_def CFE_SB_InitBuffers_def CFE_SB_InitPipeTbl_def Let_def
        blank_pipe_def CFE_PLATFORM_SB_MAX_PIPES_def split: if_splits prod.splits)
  have "find_pipe q s' = None" for q
  proof (cases "find_pipe q s'")
    case (Some i)
    from find_pipe_facts(1,4) [OF Some] show ?thesis by (simp add: tbl)
  qed
  moreover have "\<exists>A. mem_rep (PoolHdl s') (Pools s') A \<and> dom A = {}"
    using runningD(4) [OF at_restD(1) [OF rest]] by (auto simp: core_def core_parts_def dest_set_def)
  ultimately show ?thesis
    by (simp add: owned_iff [OF rest] in_transit_iff [OF rest] rest_subs [OF rest] rest_routed [OF rest]
        subscribers_def route_list_def pipes_of_def)
qed

end
