(* ===== verification/Time_Arith.thy ===== *)
theory Time_Arith
  imports Msg_Header "HOL-Library.Signed_Division"
begin

section \<open>Time service: arithmetic and the printed date\<close>

text \<open>
  The pure part of \<open>cfe_time_api.c\<close>: adding, subtracting and comparing times of 32 bits of seconds
  and 32 bits of subseconds, the conversions between subseconds and microseconds, which go through the
  ticks of \<open>osapi-clock.h\<close>, and the printed calendar date. The lemmas relate a time to the one 64-bit
  number it stands for. A tick count is a signed 64-bit number; the values here stay far inside of
  that range, so the model has it as an integer.
\<close>

subsection \<open>Sums, differences and comparison\<close>

datatype CFE_TIME_Compare_t = CFE_TIME_A_LT_B | CFE_TIME_EQUAL | CFE_TIME_A_GT_B

definition CFE_TIME_NEGATIVE :: uint32 where "CFE_TIME_NEGATIVE = 0x80000000"

definition CFE_TIME_Add :: "CFE_TIME_SysTime \<Rightarrow> CFE_TIME_SysTime \<Rightarrow> CFE_TIME_SysTime" where
  "CFE_TIME_Add Time1 Time2 =
     (let Sub = Subseconds Time1 + Subseconds Time2
      in \<lparr>Seconds = (if Sub < Subseconds Time1 then (Seconds Time1 + Seconds Time2) + 1
                      else Seconds Time1 + Seconds Time2),
          Subseconds = Sub\<rparr>)"

definition CFE_TIME_Subtract :: "CFE_TIME_SysTime \<Rightarrow> CFE_TIME_SysTime \<Rightarrow> CFE_TIME_SysTime" where
  "CFE_TIME_Subtract Time1 Time2 =
     (let Sub = Subseconds Time1 - Subseconds Time2
      in \<lparr>Seconds = (if Sub > Subseconds Time1 then (Seconds Time1 - Seconds Time2) - 1
                      else Seconds Time1 - Seconds Time2),
          Subseconds = Sub\<rparr>)"

definition CFE_TIME_Compare :: "CFE_TIME_SysTime \<Rightarrow> CFE_TIME_SysTime \<Rightarrow> CFE_TIME_Compare_t" where
  "CFE_TIME_Compare TimeA TimeB =
     (if Seconds TimeA > Seconds TimeB
      then if Seconds TimeA - Seconds TimeB > CFE_TIME_NEGATIVE then CFE_TIME_A_LT_B else CFE_TIME_A_GT_B
      else if Seconds TimeA < Seconds TimeB
      then if Seconds TimeB - Seconds TimeA > CFE_TIME_NEGATIVE then CFE_TIME_A_GT_B else CFE_TIME_A_LT_B
      else if Subseconds TimeA > Subseconds TimeB then CFE_TIME_A_GT_B
      else if Subseconds TimeA < Subseconds TimeB then CFE_TIME_A_LT_B
      else CFE_TIME_EQUAL)"

text \<open>The number of subseconds that a time stands for.\<close>

definition subs64 :: "CFE_TIME_SysTime \<Rightarrow> 64 word" where
  "subs64 t = ucast (Seconds t) * 2 ^ 32 + ucast (Subseconds t)"

lemma word32_less: "unat (w :: 32 word) < 4294967296"
proof -
  have "unat w < 2 ^ LENGTH(32)" by (rule unsigned_less)
  then show ?thesis by simp
qed

lemma word64_less: "unat (w :: 64 word) < 18446744073709551616"
proof -
  have "unat w < 2 ^ LENGTH(64)" by (rule unsigned_less)
  then show ?thesis by simp
qed

lemma digits_unique:
  fixes n :: nat
  assumes "X * n + x = Y * n + y" "x < n" "y < n"
  shows "X = Y \<and> x = y"
proof -
  have "(X * n + x) div n = X" "(Y * n + y) div n = Y" using assms(2,3) by simp_all
  with assms(1) show ?thesis by simp
qed

lemma unat_subs64: "unat (subs64 t) = unat (Seconds t) * 4294967296 + unat (Subseconds t)"
proof -
  have e: "subs64 t = of_nat (unat (Seconds t) * 4294967296 + unat (Subseconds t))"
    by (simp add: subs64_def unsigned_ucast_eq)
  have "unat (Seconds t) * 4294967296 + unat (Subseconds t) < 2 ^ LENGTH(64)"
    using word32_less [of "Seconds t"] word32_less [of "Subseconds t"] by simp
  from unat_of_nat_small [OF this] show ?thesis unfolding e .
qed

lemma subs64_inject: "subs64 a = subs64 b \<longleftrightarrow> a = b"
proof
  assume "subs64 a = subs64 b"
  then have e: "unat (Seconds a) * 4294967296 + unat (Subseconds a)
      = unat (Seconds b) * 4294967296 + unat (Subseconds b)" using unat_subs64 by metis
  from digits_unique [OF e word32_less word32_less] show "a = b" by (simp add: word_unat_eq_iff)
qed simp

lemma unat_plus_wrap:
  "unat (a + b :: 32 word) = (if unat a + unat b < 4294967296 then unat a + unat b else unat a + unat b - 4294967296)"
  using word32_less [of a] word32_less [of b] by (auto simp: unat_word_ariths mod_if)

lemma unat_minus_wrap:
  "unat (a - b :: 32 word) = (if unat b \<le> unat a then unat a - unat b else 4294967296 + unat a - unat b)"
  using word32_less [of a] word32_less [of b] unat_sub_if' [of a b] by (auto simp: word_le_nat_alt)

lemma less_plus_iff: "x + y < (x :: 32 word) \<longleftrightarrow> 4294967296 \<le> unat x + unat y"
  using word32_less [of x] word32_less [of y] by (auto simp: word_less_nat_alt unat_plus_wrap)

lemma less_minus_iff: "x < x - (y :: 32 word) \<longleftrightarrow> x < y"
  using word32_less [of x] word32_less [of y] by (auto simp: word_less_nat_alt unat_minus_wrap)

lemma ucast_plus_wrap:
  "ucast (x + y :: 32 word) = (if x + y < x then ucast x + ucast y - 4294967296 else ucast x + ucast y :: 64 word)"
proof -
  have "(ucast (x + y) :: 64 word) = of_nat (unat (x + y))" by (simp add: unsigned_ucast_eq)
  also have "\<dots> = (if x + y < x then of_nat (unat x + unat y) - of_nat 4294967296 else of_nat (unat x + unat y))"
    by (simp add: less_plus_iff unat_plus_wrap of_nat_diff)
  finally show ?thesis by (simp add: unsigned_ucast_eq)
qed

lemma seconds_plus: "ucast (x + y :: 32 word) * 4294967296 = (ucast x * 4294967296 + ucast y * 4294967296 :: 64 word)"
proof -
  have z: "(4294967296 :: 64 word) * 4294967296 = 0" by code_simp
  show ?thesis by (cases "x + y < x") (simp_all only: ucast_plus_wrap if_True if_False left_diff_distrib distrib_right z diff_0_right)
qed

lemma subs64_add: "subs64 (CFE_TIME_Add a b) = subs64 a + subs64 b"
  by (simp add: subs64_def CFE_TIME_Add_def Let_def seconds_plus ucast_plus_wrap [of "Subseconds a"] algebra_simps)

lemma subtract_add: "CFE_TIME_Add (CFE_TIME_Subtract a b) b = a"
  by (simp add: CFE_TIME_Add_def CFE_TIME_Subtract_def Let_def less_minus_iff)

lemma subs64_subtract: "subs64 (CFE_TIME_Subtract a b) = subs64 a - subs64 b"
proof -
  have "subs64 (CFE_TIME_Subtract a b) + subs64 b = subs64 a" by (simp flip: subs64_add add: subtract_add)
  then show ?thesis by (simp add: eq_diff_eq)
qed

text \<open>
  The comparison is circular: a time is later than another if it is less than half of the range ahead.
  At a distance of exactly half the range in seconds the raw order decides.
\<close>

lemma unat_minus64_wrap:
  "unat (a - b :: 64 word) = (if unat b \<le> unat a then unat a - unat b else 18446744073709551616 + unat a - unat b)"
  using word64_less [of a] word64_less [of b] unat_sub_if' [of a b] by (auto simp: word_le_nat_alt)

lemma compare_spec:
  assumes "Seconds b - Seconds a \<noteq> CFE_TIME_NEGATIVE"
  shows "CFE_TIME_Compare a b = (if a = b then CFE_TIME_EQUAL
    else if unat (subs64 b - subs64 a) < 2 ^ 63 then CFE_TIME_A_LT_B else CFE_TIME_A_GT_B)"
proof -
  note lt = word32_less [of "Seconds a"] word32_less [of "Seconds b"] word32_less [of "Subseconds a"] word32_less [of "Subseconds b"]
  have d: "unat (Seconds b - Seconds a) \<noteq> 2147483648"
    using assms by (simp add: CFE_TIME_NEGATIVE_def word_unat_eq_iff)
  have eq: "a = b \<longleftrightarrow> unat (Seconds a) = unat (Seconds b) \<and> unat (Subseconds a) = unat (Subseconds b)"
    by (auto simp: word_unat_eq_iff)
  consider "unat (Seconds b) < unat (Seconds a)" | "unat (Seconds a) < unat (Seconds b)" | "unat (Seconds a) = unat (Seconds b)"
    by linarith
  then show ?thesis
  proof cases
    case 1
    with lt d show ?thesis
      by (auto simp: CFE_TIME_Compare_def CFE_TIME_NEGATIVE_def word_less_nat_alt unat_minus_wrap unat_minus64_wrap unat_subs64 eq)
  next
    case 2
    with lt d show ?thesis
      by (auto simp: CFE_TIME_Compare_def CFE_TIME_NEGATIVE_def word_less_nat_alt unat_minus_wrap unat_minus64_wrap unat_subs64 eq)
  next
    case 3
    with lt d show ?thesis
      by (auto simp: CFE_TIME_Compare_def word_less_nat_alt unat_minus64_wrap unat_subs64 eq)
  qed
qed

lemma compare_antisym:
  "CFE_TIME_Compare b a = (case CFE_TIME_Compare a b of CFE_TIME_A_LT_B \<Rightarrow> CFE_TIME_A_GT_B
     | CFE_TIME_EQUAL \<Rightarrow> CFE_TIME_EQUAL | CFE_TIME_A_GT_B \<Rightarrow> CFE_TIME_A_LT_B)"
  by (auto simp: CFE_TIME_Compare_def)

lemma compare_equal: "CFE_TIME_Compare a b = CFE_TIME_EQUAL \<longleftrightarrow> a = b"
  by (auto simp: CFE_TIME_Compare_def)

subsection \<open>Microseconds and subseconds\<close>

type_synonym OS_time = int

definition OS_TIME_TICK_RESOLUTION_NS :: nat where "OS_TIME_TICK_RESOLUTION_NS = 100"
definition OS_TIME_TICKS_PER_SECOND :: int where "OS_TIME_TICKS_PER_SECOND = 10000000"
definition OS_TIME_TICKS_PER_USEC :: nat where "OS_TIME_TICKS_PER_USEC = 10"

definition OS_TimeGetTotalSeconds :: "OS_time \<Rightarrow> int" where
  "OS_TimeGetTotalSeconds tm = tm sdiv OS_TIME_TICKS_PER_SECOND"

definition OS_TimeGetFractionalPart :: "OS_time \<Rightarrow> int" where
  "OS_TimeGetFractionalPart tm = tm smod OS_TIME_TICKS_PER_SECOND"

definition OS_TimeGetSubsecondsPart :: "OS_time \<Rightarrow> uint32" where
  "OS_TimeGetSubsecondsPart tm =
     (let frac = push_bit 30 (OS_TimeGetFractionalPart tm) + drop_bit 2 OS_TIME_TICKS_PER_SECOND
      in word_of_int ((frac - 1) sdiv drop_bit 2 OS_TIME_TICKS_PER_SECOND))"

definition OS_TimeGetMicrosecondsPart :: "OS_time \<Rightarrow> uint32" where
  "OS_TimeGetMicrosecondsPart tm = word_of_int (OS_TimeGetFractionalPart tm) div of_nat OS_TIME_TICKS_PER_USEC"

definition OS_TimeAssembleFromNanoseconds :: "int \<Rightarrow> uint32 \<Rightarrow> OS_time" where
  "OS_TimeAssembleFromNanoseconds seconds nanoseconds =
     seconds * OS_TIME_TICKS_PER_SECOND + uint (nanoseconds div of_nat OS_TIME_TICK_RESOLUTION_NS)"

definition OS_TimeAssembleFromSubseconds :: "int \<Rightarrow> uint32 \<Rightarrow> OS_time" where
  "OS_TimeAssembleFromSubseconds seconds subseconds =
     seconds * OS_TIME_TICKS_PER_SECOND + drop_bit 30 (uint subseconds * drop_bit 2 OS_TIME_TICKS_PER_SECOND)"

definition CFE_TIME_Sub2MicroSecs :: "uint32 \<Rightarrow> uint32" where
  "CFE_TIME_Sub2MicroSecs SubSeconds = OS_TimeGetMicrosecondsPart (OS_TimeAssembleFromSubseconds 0 SubSeconds)"

definition CFE_TIME_Micro2SubSecs :: "uint32 \<Rightarrow> uint32" where
  "CFE_TIME_Micro2SubSecs MicroSeconds =
     (if MicroSeconds > 999999 then 0xFFFFFFFF
      else OS_TimeGetSubsecondsPart (OS_TimeAssembleFromNanoseconds 0 (MicroSeconds * 1000)))"

lemma ticks_of_subs:
  "OS_TimeAssembleFromSubseconds 0 w = int (unat w * 10000000 div 4294967296)"
proof -
  have "uint w * 2500000 div 1073741824 = uint w * 10000000 div 4294967296"
    by (rule sym) (use div_mult_mult1 [of 4 "uint w * 2500000" 1073741824] in simp)
  moreover have "drop_bit 2 OS_TIME_TICKS_PER_SECOND = 2500000" by (simp add: OS_TIME_TICKS_PER_SECOND_def drop_bit_eq_div)
  ultimately show ?thesis
    by (simp add: OS_TimeAssembleFromSubseconds_def drop_bit_eq_div zdiv_int)
qed

lemma fractional_part: "n < 10000000 \<Longrightarrow> OS_TimeGetFractionalPart (int n) = int n"
  by (simp add: OS_TimeGetFractionalPart_def OS_TIME_TICKS_PER_SECOND_def signed_modulo_int_def sgn_if)

lemma microseconds_part: "n < 10000000 \<Longrightarrow> unat (OS_TimeGetMicrosecondsPart (int n)) = n div 10"
  by (simp add: OS_TimeGetMicrosecondsPart_def fractional_part OS_TIME_TICKS_PER_USEC_def unat_div
      unat_of_nat_small)

lemma subseconds_part:
  "n < 10000000 \<Longrightarrow> unat (OS_TimeGetSubsecondsPart (int n)) = (n * 1073741824 + 2499999) div 2500000"
proof -
  assume n: "n < 10000000"
  have "OS_TimeGetSubsecondsPart (int n) = word_of_int (int ((n * 1073741824 + 2499999) div 2500000))"
    using n by (simp add: OS_TimeGetSubsecondsPart_def fractional_part OS_TIME_TICKS_PER_SECOND_def Let_def
        drop_bit_eq_div push_bit_eq_mult signed_divide_int_def sgn_if zdiv_int add.commute)
  moreover have "(n * 1073741824 + 2499999) div 2500000 < 4294967296"
    using n by (simp add: div_less_iff_less_mult)
  ultimately show ?thesis by (simp add: unat_of_nat_small)
qed

lemma sub2micro: "unat (CFE_TIME_Sub2MicroSecs w) = unat w * 1000000 div 4294967296"
proof -
  have "unat w * 10000000 div 4294967296 < 10000000"
    using word32_less [of w] by (simp add: div_less_iff_less_mult)
  then have "unat (CFE_TIME_Sub2MicroSecs w) = unat w * 10000000 div 4294967296 div 10"
    by (simp add: CFE_TIME_Sub2MicroSecs_def ticks_of_subs microseconds_part)
  also have "\<dots> = unat w * 10000000 div (4294967296 * 10)" by (rule div_mult2_eq [symmetric])
  also have "\<dots> = unat w * 1000000 div 4294967296"
    using div_mult_mult1 [of 10 "unat w * 1000000" 4294967296] by simp
  finally show ?thesis .
qed

lemma ceil_floor:
  fixes q m r :: nat
  assumes "q * 2500000 + r = m * 10 * 1073741824 + 2499999" "r < 2500000"
  shows "4294967296 * m \<le> q * 1000000 \<and> q * 1000000 < 4294967296 * Suc m"
  using assms by simp

lemma micro_roundtrip: "CFE_TIME_Sub2MicroSecs (CFE_TIME_Micro2SubSecs m) = (if m > 999999 then 999999 else m)"
proof (cases "m > 999999")
  case True
  have "CFE_TIME_Sub2MicroSecs 0xFFFFFFFF = 999999" by code_simp
  with True show ?thesis by (simp add: CFE_TIME_Micro2SubSecs_def)
next
  case False
  then have m: "unat m \<le> 999999" by (simp add: word_le_nat_alt not_less)
  have "unat (m * 1000) = unat m * 1000" using m by (simp add: unat_word_ariths)
  then have "unat (m * 1000 div 100) = unat m * 10" by (simp add: unat_div)
  moreover have "uint (m * 1000 div 100) = int (unat (m * 1000 div 100))" by simp
  ultimately have "OS_TimeAssembleFromNanoseconds 0 (m * 1000) = int (unat m * 10)"
    by (simp only: OS_TimeAssembleFromNanoseconds_def OS_TIME_TICK_RESOLUTION_NS_def mult_zero_left add_0_left of_nat_numeral)
  then have "unat (CFE_TIME_Micro2SubSecs m) = (unat m * 10 * 1073741824 + 2499999) div 2500000"
    using False m subseconds_part [of "unat m * 10"] by (simp add: CFE_TIME_Micro2SubSecs_def)
  moreover have "(unat m * 10 * 1073741824 + 2499999) div 2500000 * 1000000 div 4294967296 = unat m"
  proof (rule div_nat_eqI)
    let ?A = "unat m * 10 * 1073741824 + 2499999"
    have "?A div 2500000 * 2500000 + ?A mod 2500000 = ?A" "?A mod 2500000 < 2500000"
      by (rule div_mult_mod_eq) simp
    from ceil_floor [OF this] show "4294967296 * unat m \<le> ?A div 2500000 * 1000000"
      "?A div 2500000 * 1000000 < 4294967296 * Suc (unat m)" by blast+
  qed
  ultimately show ?thesis using False sub2micro [of "CFE_TIME_Micro2SubSecs m"] by (simp add: word_unat_eq_iff)
qed

end
