(* ===== verification/Time_Ref.thy ===== *)
theory Time_Ref
  imports Time_Arith
begin

section \<open>Time service: the reference data and its readers\<close>

text \<open>
  The global data of the time service, \<open>CFE_TIME_Global\<close> of \<open>cfe_time_utils.h\<close>, and the part of
  \<open>cfe_time_utils.c\<close> that updates and reads the reference data. The build is the default one: a time
  server with a virtual MET, no external source, and TAI as the default format.

  The reference data has no lock. An update fills the next of four buffers, which first gets the new
  version number, and publishes it by setting the last version counter. A reader copies the fields of the
  published buffer and checks that the buffer still has the version it started with. The reader here is
  therefore a function of the memory at each of its accesses, \<open>M n\<close> for access \<open>n\<close>, and of the local clock
  at each attempt. Counters wrap around.
\<close>

subsection \<open>Data\<close>

record ReferenceState_t =
  StateVersion :: uint32
  RS_AtToneLeapSeconds :: int16
  RS_ClockSetState :: int16
  RS_ClockFlyState :: int16
  RS_DelayDirection :: int16
  RS_AtToneMET :: CFE_TIME_SysTime
  RS_AtToneSTCF :: CFE_TIME_SysTime
  RS_AtToneDelay :: CFE_TIME_SysTime
  RS_AtToneLatch :: CFE_TIME_SysTime

record Reference_t =
  R_AtToneMET :: CFE_TIME_SysTime
  R_AtToneSTCF :: CFE_TIME_SysTime
  R_AtToneLeapSeconds :: int16
  R_ClockSetState :: int16
  R_ClockFlyState :: int16
  R_DelayDirection :: int16
  R_AtToneDelay :: CFE_TIME_SysTime
  R_AtToneLatch :: CFE_TIME_SysTime
  R_CurrentLatch :: CFE_TIME_SysTime
  R_TimeSinceTone :: CFE_TIME_SysTime
  R_CurrentMET :: CFE_TIME_SysTime

record ResetVars_t =
  RV_Signature :: uint32
  RV_LeapSeconds :: int16
  RV_ClockSignal :: uint16
  RV_CurrentMET :: CFE_TIME_SysTime
  RV_CurrentSTCF :: CFE_TIME_SysTime
  RV_CurrentDelay :: CFE_TIME_SysTime

record ToneDataCmd_Payload =
  TD_AtToneMET :: CFE_TIME_SysTime
  TD_AtToneSTCF :: CFE_TIME_SysTime
  TD_AtToneLeapSeconds :: int16
  TD_AtToneState :: int16

datatype CFE_TIME_Event =
    CFE_TIME_FLY_ON_EID | CFE_TIME_FLY_OFF_EID | CFE_TIME_NOOP_EID | CFE_TIME_RESET_EID
  | CFE_TIME_STATE_EID | CFE_TIME_STATE_ERR_EID
  | CFE_TIME_SOURCE_CFG_EID | CFE_TIME_SOURCE_ERR_EID | CFE_TIME_SIGNAL_CFG_EID | CFE_TIME_SIGNAL_ERR_EID
  | CFE_TIME_DELAY_CFG_EID | CFE_TIME_DELAY_ERR_EID | CFE_TIME_TIME_EID | CFE_TIME_TIME_ERR_EID
  | CFE_TIME_MET_EID | CFE_TIME_MET_ERR_EID | CFE_TIME_STCF_EID | CFE_TIME_STCF_ERR_EID
  | CFE_TIME_LEAPS_EID | CFE_TIME_DELTA_EID | CFE_TIME_DELTA_ERR_EID | CFE_TIME_ONEHZ_EID

text \<open>The messages that the time service hands to the software bus.\<close>

datatype time_msg = ToneDataMsg ToneDataCmd_Payload | ToneSignalMsg | ToneSendMsg | LocalOneHzMsg

text \<open>
  Of the packets of \<open>CFE_TIME_Global\<close> only the payload of the tone data command matters for the time;
  it goes with the message. Besides the fields of \<open>CFE_TIME_Global\<close> the record has the two static
  variables of \<open>CFE_TIME_ToneVerify\<close>, the reset area (\<open>None\<close> if the platform reports an error), the values of
  the two binary semaphores, and the messages, events and callbacks so far.
\<close>

record time_global =
  T_CommandCounter :: uint8
  T_CommandErrorCounter :: uint8
  ClockSource :: int16
  ClockSignal :: int16
  ServerFlyState :: int16
  PendingMET :: CFE_TIME_SysTime
  PendingSTCF :: CFE_TIME_SysTime
  PendingLeaps :: int16
  PendingState :: int16
  OneTimeAdjust :: CFE_TIME_SysTime
  OneHzAdjust :: CFE_TIME_SysTime
  OneTimeDirection :: int16
  OneHzDirection :: int16
  ToneSignalLatch :: CFE_TIME_SysTime
  ToneDataLatch :: CFE_TIME_SysTime
  ToneMatchCounter :: uint32
  ToneMatchErrorCounter :: uint32
  ToneSignalCounter :: uint32
  ToneDataCounter :: uint32
  ToneIntCounter :: uint32
  ToneIntErrorCounter :: uint32
  ToneTaskCounter :: uint32
  VirtualMET :: uint32
  LocalIntCounter :: uint32
  LocalTaskCounter :: uint32
  InternalCount :: uint32
  ExternalCount :: uint32
  ReferenceState :: "ReferenceState_t list"
  LastVersionCounter :: uint32
  ResetVersionCounter :: uint32
  MinElapsed :: uint32
  MaxElapsed :: uint32
  MaxLocalClock :: CFE_TIME_SysTime
  Forced2Fly :: bool
  AutoStartFly :: bool
  IsToneGood :: bool
  GetReferenceFail :: bool
  ToneOverLimit :: uint32
  ToneUnderLimit :: uint32
  DataStoreStatus :: uint32
  SynchCallback :: "nat option list"
  PrevTime1 :: CFE_TIME_SysTime
  PrevTime2 :: CFE_TIME_SysTime
  ResetArea :: "ResetVars_t option"
  ToneSemaphore :: bool
  LocalSemaphore :: bool
  TimeSent :: "time_msg list"
  TimeEvents :: "CFE_TIME_Event list"
  CallbacksRun :: "nat list"

definition CFE_TIME_SetState_NOT_SET :: int16 where "CFE_TIME_SetState_NOT_SET = 0"
definition CFE_TIME_SetState_WAS_SET :: int16 where "CFE_TIME_SetState_WAS_SET = 1"
definition CFE_TIME_FlywheelState_NO_FLY :: int16 where "CFE_TIME_FlywheelState_NO_FLY = 0"
definition CFE_TIME_FlywheelState_IS_FLY :: int16 where "CFE_TIME_FlywheelState_IS_FLY = 1"
definition CFE_TIME_AdjustDirection_ADD :: int16 where "CFE_TIME_AdjustDirection_ADD = 1"
definition CFE_TIME_AdjustDirection_SUBTRACT :: int16 where "CFE_TIME_AdjustDirection_SUBTRACT = 2"
definition CFE_TIME_SourceSelect_INTERNAL :: int16 where "CFE_TIME_SourceSelect_INTERNAL = 1"
definition CFE_TIME_SourceSelect_EXTERNAL :: int16 where "CFE_TIME_SourceSelect_EXTERNAL = 2"
definition CFE_TIME_ToneSignalSelect_PRIMARY :: int16 where "CFE_TIME_ToneSignalSelect_PRIMARY = 1"
definition CFE_TIME_ToneSignalSelect_REDUNDANT :: int16 where "CFE_TIME_ToneSignalSelect_REDUNDANT = 2"
definition CFE_TIME_ClockState_INVALID :: int16 where "CFE_TIME_ClockState_INVALID = - 1"
definition CFE_TIME_ClockState_VALID :: int16 where "CFE_TIME_ClockState_VALID = 0"
definition CFE_TIME_ClockState_FLYWHEEL :: int16 where "CFE_TIME_ClockState_FLYWHEEL = 1"

definition CFE_TIME_REFERENCE_BUF_DEPTH :: uint32 where "CFE_TIME_REFERENCE_BUF_DEPTH = 4"
definition CFE_TIME_REFERENCE_BUF_MASK :: uint32 where
  "CFE_TIME_REFERENCE_BUF_MASK = CFE_TIME_REFERENCE_BUF_DEPTH - 1"

definition CFE_TIME_LatchClock :: "OS_time \<Rightarrow> CFE_TIME_SysTime" where
  "CFE_TIME_LatchClock LocalTime =
     \<lparr>Seconds = word_of_int (OS_TimeGetTotalSeconds LocalTime), Subseconds = OS_TimeGetSubsecondsPart LocalTime\<rparr>"

subsection \<open>Updating the reference data\<close>

definition ref_index :: "uint32 \<Rightarrow> nat" where
  "ref_index v = unat (v AND CFE_TIME_REFERENCE_BUF_MASK)"

definition upd_ref :: "nat \<Rightarrow> (ReferenceState_t \<Rightarrow> ReferenceState_t) \<Rightarrow> time_global \<Rightarrow> time_global" where
  "upd_ref i f g = g\<lparr>ReferenceState := (ReferenceState g)[i := f (ReferenceState g ! i)]\<rparr>"

text \<open>
  The stores of \<open>CFE_TIME_StartReferenceUpdate\<close> one by one, in the order of the code. They are volatile accesses, so
  each takes effect before the next one; a time is two words and takes two stores. A copy reads the current buffer when
  it is made.
\<close>

definition copy_ref ::
  "uint32 \<Rightarrow> (ReferenceState_t \<Rightarrow> ReferenceState_t \<Rightarrow> ReferenceState_t) \<Rightarrow> time_global \<Rightarrow> time_global" where
  "copy_ref Version assign g =
     (let CurrState = ReferenceState g ! ref_index Version
      in upd_ref (ref_index (Version + 1)) (assign CurrState) g)"

definition start_stores :: "uint32 \<Rightarrow> (time_global \<Rightarrow> time_global) list" where
  "start_stores Version =
     [upd_ref (ref_index (Version + 1)) (\<lambda>r. r\<lparr>StateVersion := Version + 1\<rparr>),
      copy_ref Version (\<lambda>c r. r\<lparr>RS_AtToneLeapSeconds := RS_AtToneLeapSeconds c\<rparr>),
      copy_ref Version (\<lambda>c r. r\<lparr>RS_ClockSetState := RS_ClockSetState c\<rparr>),
      copy_ref Version (\<lambda>c r. r\<lparr>RS_ClockFlyState := RS_ClockFlyState c\<rparr>),
      copy_ref Version (\<lambda>c r. r\<lparr>RS_DelayDirection := RS_DelayDirection c\<rparr>),
      copy_ref Version (\<lambda>c r. r\<lparr>RS_AtToneMET := (RS_AtToneMET r)\<lparr>Seconds := Seconds (RS_AtToneMET c)\<rparr>\<rparr>),
      copy_ref Version (\<lambda>c r. r\<lparr>RS_AtToneMET := (RS_AtToneMET r)\<lparr>Subseconds := Subseconds (RS_AtToneMET c)\<rparr>\<rparr>),
      copy_ref Version (\<lambda>c r. r\<lparr>RS_AtToneSTCF := (RS_AtToneSTCF r)\<lparr>Seconds := Seconds (RS_AtToneSTCF c)\<rparr>\<rparr>),
      copy_ref Version (\<lambda>c r. r\<lparr>RS_AtToneSTCF := (RS_AtToneSTCF r)\<lparr>Subseconds := Subseconds (RS_AtToneSTCF c)\<rparr>\<rparr>),
      copy_ref Version (\<lambda>c r. r\<lparr>RS_AtToneDelay := (RS_AtToneDelay r)\<lparr>Seconds := Seconds (RS_AtToneDelay c)\<rparr>\<rparr>),
      copy_ref Version (\<lambda>c r. r\<lparr>RS_AtToneDelay := (RS_AtToneDelay r)\<lparr>Subseconds := Subseconds (RS_AtToneDelay c)\<rparr>\<rparr>),
      copy_ref Version (\<lambda>c r. r\<lparr>RS_AtToneLatch := (RS_AtToneLatch r)\<lparr>Seconds := Seconds (RS_AtToneLatch c)\<rparr>\<rparr>),
      copy_ref Version (\<lambda>c r. r\<lparr>RS_AtToneLatch := (RS_AtToneLatch r)\<lparr>Subseconds := Subseconds (RS_AtToneLatch c)\<rparr>\<rparr>)]"

definition CFE_TIME_StartReferenceUpdate :: "time_global \<Rightarrow> nat \<times> time_global" where
  "CFE_TIME_StartReferenceUpdate g =
     (let Version = LastVersionCounter g
      in (ref_index (Version + 1), fold (\<lambda>store. store) (start_stores Version) g))"

definition CFE_TIME_FinishReferenceUpdate :: "nat \<Rightarrow> time_global \<Rightarrow> time_global" where
  "CFE_TIME_FinishReferenceUpdate NextState g =
     g\<lparr>LastVersionCounter := StateVersion (ReferenceState g ! NextState)\<rparr>"

definition CFE_TIME_GetReferenceState :: "time_global \<Rightarrow> ReferenceState_t" where
  "CFE_TIME_GetReferenceState g = ReferenceState g ! ref_index (LastVersionCounter g)"

text \<open>
  An update as a whole, with the assignments of its caller between start and finish, and the same update as the list of
  its stores when the version counter is \<open>Version\<close>: it can be interrupted between any two of them.
\<close>

definition update_reference :: "(ReferenceState_t \<Rightarrow> ReferenceState_t) \<Rightarrow> time_global \<Rightarrow> time_global" where
  "update_reference f g =
     (case CFE_TIME_StartReferenceUpdate g of (NextState, g1) \<Rightarrow>
        CFE_TIME_FinishReferenceUpdate NextState (upd_ref NextState f g1))"

definition update_stores ::
  "uint32 \<Rightarrow> (ReferenceState_t \<Rightarrow> ReferenceState_t) list \<Rightarrow> (time_global \<Rightarrow> time_global) list" where
  "update_stores Version fs =
     start_stores Version @ map (upd_ref (ref_index (Version + 1))) fs
       @ [CFE_TIME_FinishReferenceUpdate (ref_index (Version + 1))]"

subsection \<open>Reading the reference data\<close>

text \<open>
  One attempt: access \<open>t\<close> reads the version counter, accesses \<open>t + 1\<close> to \<open>t + 12\<close> the words of the buffer, in
  the order of the code, and access \<open>t + 13\<close> its version. The result says whether the versions agree.
\<close>

definition read_reference ::
  "(nat \<Rightarrow> time_global) \<Rightarrow> nat \<Rightarrow> CFE_TIME_SysTime \<Rightarrow> Reference_t \<times> bool" where
  "read_reference M t latch =
     (let VersionCounter = LastVersionCounter (M t);
          RefState = (\<lambda>n. ReferenceState (M (t + n)) ! ref_index VersionCounter)
      in (\<lparr>R_AtToneMET = \<lparr>Seconds = Seconds (RS_AtToneMET (RefState 1)),
                           Subseconds = Subseconds (RS_AtToneMET (RefState 2))\<rparr>,
           R_AtToneSTCF = \<lparr>Seconds = Seconds (RS_AtToneSTCF (RefState 3)),
                           Subseconds = Subseconds (RS_AtToneSTCF (RefState 4))\<rparr>,
           R_AtToneLeapSeconds = RS_AtToneLeapSeconds (RefState 5),
           R_ClockSetState = RS_ClockSetState (RefState 10),
           R_ClockFlyState = RS_ClockFlyState (RefState 11),
           R_DelayDirection = RS_DelayDirection (RefState 12),
           R_AtToneDelay = \<lparr>Seconds = Seconds (RS_AtToneDelay (RefState 6)),
                            Subseconds = Subseconds (RS_AtToneDelay (RefState 7))\<rparr>,
           R_AtToneLatch = \<lparr>Seconds = Seconds (RS_AtToneLatch (RefState 8)),
                            Subseconds = Subseconds (RS_AtToneLatch (RefState 9))\<rparr>,
           R_CurrentLatch = latch,
           R_TimeSinceTone = \<lparr>Seconds = 0, Subseconds = 0\<rparr>,
           R_CurrentMET = \<lparr>Seconds = 0, Subseconds = 0\<rparr>\<rparr>,
          VersionCounter = StateVersion (RefState 13)))"

text \<open>The retries. The result has the retry count that is left and the number of accesses made.\<close>

fun reference_loop ::
  "(nat \<Rightarrow> time_global) \<Rightarrow> (nat \<Rightarrow> CFE_TIME_SysTime) \<Rightarrow> nat \<Rightarrow> nat \<Rightarrow> Reference_t \<times> nat \<times> nat" where
  "reference_loop M clock t RetryCount =
     (case read_reference M t (clock t) of (Reference, good) \<Rightarrow>
        if good then (Reference, RetryCount, t + 14)
        else case RetryCount of
               0 \<Rightarrow> (Reference, 0, t + 14)
             | Suc n \<Rightarrow> reference_loop M clock (t + 14) n)"

declare reference_loop.simps [simp del]

text \<open>The time since the tone, with the roll-over of the local clock.\<close>

definition elapsed_since :: "time_global \<Rightarrow> CFE_TIME_SysTime \<Rightarrow> CFE_TIME_SysTime \<Rightarrow> CFE_TIME_SysTime" where
  "elapsed_since g latch now =
     (if CFE_TIME_Compare now latch = CFE_TIME_A_LT_B
      then CFE_TIME_Add (CFE_TIME_Subtract (MaxLocalClock g) latch) now
      else CFE_TIME_Subtract now latch)"

definition zero_time :: CFE_TIME_SysTime where "zero_time = \<lparr>Seconds = 0, Subseconds = 0\<rparr>"

definition zero_reference :: Reference_t where
  "zero_reference =
     \<lparr>R_AtToneMET = zero_time, R_AtToneSTCF = zero_time, R_AtToneLeapSeconds = 0, R_ClockSetState = 0,
      R_ClockFlyState = 0, R_DelayDirection = 0, R_AtToneDelay = zero_time, R_AtToneLatch = zero_time,
      R_CurrentLatch = zero_time, R_TimeSinceTone = zero_time, R_CurrentMET = zero_time\<rparr>"

definition CFE_TIME_GetReference ::
  "(nat \<Rightarrow> time_global) \<Rightarrow> (nat \<Rightarrow> CFE_TIME_SysTime) \<Rightarrow> Reference_t \<times> bool" where
  "CFE_TIME_GetReference M clock =
     (case reference_loop M clock 0 4 of (Reference, RetryCount, t) \<Rightarrow>
        if RetryCount = 0 then (zero_reference, True)
        else
          let TimeSinceTone = elapsed_since (M t) (R_AtToneLatch Reference) (R_CurrentLatch Reference);
              CurrentMET = CFE_TIME_Add TimeSinceTone (R_AtToneMET Reference)
          in (Reference\<lparr>R_TimeSinceTone := TimeSinceTone, R_CurrentMET := CurrentMET\<rparr>, False))"

text \<open>A read without an update beside it, with the failure flag of the global data.\<close>

definition get_reference :: "OS_time \<Rightarrow> time_global \<Rightarrow> Reference_t \<times> time_global" where
  "get_reference now g =
     (case CFE_TIME_GetReference (\<lambda>_. g) (\<lambda>_. CFE_TIME_LatchClock now) of
        (Reference, failed) \<Rightarrow> (Reference, if failed then g\<lparr>GetReferenceFail := True\<rparr> else g))"

end
