(* ===== verification/Time_Read.thy ===== *)
theory Time_Read
  imports Time_Ref
begin

section \<open>Time service: readers beside an update\<close>

text \<open>
  An update runs in the time task store by store, and readers run in any task between two stores. First the protocol that
  the readers rely on, as a relation on the number of versions published, a flag that says that an update is
  under way, and the memory: the next buffer is marked with the new version, filled, and published. A step \<open>fill\<close> is any
  assignment to that buffer that keeps its version; a step \<open>other\<close> is any assignment outside of the reference
  data. Then, below, the stores that the code makes, and the proof that they follow the protocol.
\<close>

inductive ref_write :: "nat \<times> bool \<times> time_global \<Rightarrow> nat \<times> bool \<times> time_global \<Rightarrow> bool" where
  start: "ref_write (n, False, g)
     (n, True, upd_ref (ref_index (LastVersionCounter g + 1)) (\<lambda>r. r\<lparr>StateVersion := LastVersionCounter g + 1\<rparr>) g)"
| fill: "(\<And>r. StateVersion (f r) = StateVersion r)
     \<Longrightarrow> ref_write (n, True, g) (n, True, upd_ref (ref_index (LastVersionCounter g + 1)) f g)"
| publish: "ref_write (n, True, g) (Suc n, False, CFE_TIME_FinishReferenceUpdate (ref_index (LastVersionCounter g + 1)) g)"
| other: "ReferenceState g' = ReferenceState g \<Longrightarrow> LastVersionCounter g' = LastVersionCounter g
     \<Longrightarrow> ref_write (n, b, g) (n, b, g')"

inductive_cases ref_writeE: "ref_write (n, b, g) (n', b', g')"

lemma ref_write_cases:
  assumes "ref_write (n, b, g) (n', b', g')"
  obtains (start) "n' = n" "\<not> b" "b'"
      "g' = upd_ref (ref_index (LastVersionCounter g + 1)) (\<lambda>r. r\<lparr>StateVersion := LastVersionCounter g + 1\<rparr>) g"
    | (fill) f where "n' = n" "b" "b'" "\<And>r. StateVersion (f r) = StateVersion r"
      "g' = upd_ref (ref_index (LastVersionCounter g + 1)) f g"
    | (publish) "n' = Suc n" "b" "\<not> b'" "g' = CFE_TIME_FinishReferenceUpdate (ref_index (LastVersionCounter g + 1)) g"
    | (other) "n' = n" "b' = b" "ReferenceState g' = ReferenceState g" "LastVersionCounter g' = LastVersionCounter g"
  using assms by (rule ref_writeE) (blast intro: that)+

text \<open>The buffers at a published version; during an update the next buffer has the next version.\<close>

definition ref_ok :: "bool \<Rightarrow> time_global \<Rightarrow> bool" where
  "ref_ok b g \<longleftrightarrow> length (ReferenceState g) = 4
     \<and> StateVersion (CFE_TIME_GetReferenceState g) = LastVersionCounter g
     \<and> (b \<longrightarrow> StateVersion (ReferenceState g ! ref_index (LastVersionCounter g + 1)) = LastVersionCounter g + 1)"

lemma ref_index: "ref_index v = unat v mod 4"
proof -
  have "v AND 3 = v mod 4" using and_exp_eq_0_iff_not_bit take_bit_eq_mask [of 2 v] take_bit_eq_mod [of 2 v] by (simp add: mask_eq_exp_minus_1)
  then show ?thesis
    by (simp add: ref_index_def CFE_TIME_REFERENCE_BUF_MASK_def CFE_TIME_REFERENCE_BUF_DEPTH_def unat_mod)
qed

lemma ref_index_less [simp]: "ref_index v < 4"
  by (simp add: ref_index)

lemma ref_index_add: "ref_index (v + of_nat k) = (unat v + k) mod 4"
proof -
  have "unat (v + of_nat k) = (unat v + k) mod 2 ^ 32"
    by (simp add: unat_word_ariths unat_of_nat mod_add_right_eq)
  moreover have "x mod 2 ^ 32 mod 4 = x mod (4 :: nat)" for x by (simp add: mod_mod_cancel)
  ultimately show ?thesis by (simp add: ref_index)
qed

lemma ref_index_eq: "ref_index (v + of_nat k) = ref_index v \<longleftrightarrow> 4 dvd k"
  unfolding ref_index_add ref_index [of v] by presburger

lemma upd_ref_simps [simp]:
  "LastVersionCounter (upd_ref i f g) = LastVersionCounter g"
  "ReferenceState (upd_ref i f g) = (ReferenceState g)[i := f (ReferenceState g ! i)]"
  by (simp_all add: upd_ref_def)

lemma ref_index_next: "ref_index (v + 1) \<noteq> ref_index v"
  using ref_index_eq [of v 1] by simp

lemma upd_ref_upd_ref: "upd_ref i f (upd_ref i h g) = upd_ref i (\<lambda>r. f (h r)) g"
  by (cases "i < length (ReferenceState g)") (simp_all add: upd_ref_def list_update_beyond)

lemma copy_ref_upd_ref:
  "copy_ref v assign (upd_ref (ref_index (v + 1)) h g)
    = upd_ref (ref_index (v + 1)) (\<lambda>r. assign (ReferenceState g ! ref_index v) (h r)) g"
  using ref_index_next [of v] by (simp add: copy_ref_def upd_ref_upd_ref)

text \<open>The stores of the start taken together: the next buffer is a copy of the current one with the next version.\<close>

lemma start_update:
  "CFE_TIME_StartReferenceUpdate g =
    (ref_index (LastVersionCounter g + 1), upd_ref (ref_index (LastVersionCounter g + 1))
       (\<lambda>_. (CFE_TIME_GetReferenceState g)\<lparr>StateVersion := LastVersionCounter g + 1\<rparr>) g)"
proof -
  have e: "a\<lparr>StateVersion := v, RS_AtToneLeapSeconds := RS_AtToneLeapSeconds c, RS_ClockSetState := RS_ClockSetState c,
      RS_ClockFlyState := RS_ClockFlyState c, RS_DelayDirection := RS_DelayDirection c, RS_AtToneMET := RS_AtToneMET c,
      RS_AtToneSTCF := RS_AtToneSTCF c, RS_AtToneDelay := RS_AtToneDelay c, RS_AtToneLatch := RS_AtToneLatch c\<rparr>
    = c\<lparr>StateVersion := v\<rparr>" for a c :: ReferenceState_t and v by simp
  have t: "a\<lparr>Seconds := Seconds c, Subseconds := Subseconds c\<rparr> = c" for a c :: CFE_TIME_SysTime by simp
  show ?thesis
    by (simp add: CFE_TIME_StartReferenceUpdate_def start_stores_def Let_def copy_ref_upd_ref e t
        CFE_TIME_GetReferenceState_def)
qed

text \<open>Made without interruption, the stores of an update are the update as a whole.\<close>

lemma update_as_stores:
  "fold (\<lambda>store. store) (update_stores (LastVersionCounter g) [f]) g = update_reference f g"
  by (simp add: update_stores_def update_reference_def CFE_TIME_StartReferenceUpdate_def Let_def)

text \<open>
  What a run of steps does to the buffer that was the published one at its beginning, in terms of the
  number of updates started since then.
\<close>

definition buf_at :: "nat \<Rightarrow> time_global \<Rightarrow> nat \<times> bool \<times> time_global \<Rightarrow> bool" where
  "buf_at n0 g0 = (\<lambda>(n, b, g).
     n0 \<le> n \<and> LastVersionCounter g = LastVersionCounter g0 + of_nat (n - n0)
     \<and> ref_ok b g
     \<and> (let i = ref_index (LastVersionCounter g0); k = n - n0 + of_bool b
        in StateVersion (ReferenceState g ! i) = LastVersionCounter g0 + of_nat (4 * (k div 4))
           \<and> (k < 4 \<longrightarrow> ReferenceState g ! i = ReferenceState g0 ! i)))"

lemma ref_ok_step:
  assumes "ref_ok b g" "ref_write (n, b, g) (n', b', g')"
  shows "ref_ok b' g'"
  using assms(2)
proof (cases rule: ref_write_cases)
  case start
  with assms(1) show ?thesis
    using ref_index_next [of "LastVersionCounter g"]
    by (simp add: ref_ok_def CFE_TIME_GetReferenceState_def)
next
  case (fill f)
  with assms(1) show ?thesis
    using ref_index_next [of "LastVersionCounter g"]
    by (simp add: ref_ok_def CFE_TIME_GetReferenceState_def)
next
  case publish
  with assms(1) show ?thesis
    by (simp add: ref_ok_def CFE_TIME_GetReferenceState_def CFE_TIME_FinishReferenceUpdate_def)
next
  case other
  with assms(1) show ?thesis by (simp add: ref_ok_def CFE_TIME_GetReferenceState_def)
qed

lemma div4_Suc: "\<not> 4 dvd Suc k \<Longrightarrow> Suc k div 4 = k div 4"
  by presburger

lemma div4_exact:
  assumes "n0 \<le> n" "4 dvd Suc (n - n0)"
  shows "(4 :: uint32) * of_nat ((Suc n - n0) div 4) = of_nat n + (1 - of_nat n0)"
    "(4 :: uint32) * of_nat ((Suc n - n0) div 4) = 1 + (of_nat n - of_nat n0)" "\<not> n - n0 < 3"
proof -
  have "4 * (Suc (n - n0) div 4) = Suc (n - n0)" using assms(2) by presburger
  from arg_cong [OF this, of "of_nat :: nat \<Rightarrow> uint32"] assms(1)
  show "(4 :: uint32) * of_nat ((Suc n - n0) div 4) = of_nat n + (1 - of_nat n0)" by (simp add: Suc_diff_le)
  then show "(4 :: uint32) * of_nat ((Suc n - n0) div 4) = 1 + (of_nat n - of_nat n0)" by simp
  show "\<not> n - n0 < 3" using assms(2) by presburger
qed

lemma buf_at_step:
  assumes "buf_at n0 g0 (n, b, g)" "ref_write (n, b, g) (n', b', g')"
  shows "buf_at n0 g0 (n', b', g')"
proof -
  let ?v = "LastVersionCounter g0" and ?i = "ref_index (LastVersionCounter g0)" and ?m = "n - n0"
  from assms(1) have B: "n0 \<le> n" "LastVersionCounter g = ?v + of_nat ?m" "ref_ok b g"
    "StateVersion (ReferenceState g ! ?i) = ?v + of_nat (4 * ((?m + of_bool b) div 4))"
    "?m + of_bool b < 4 \<longrightarrow> ReferenceState g ! ?i = ReferenceState g0 ! ?i"
    by (simp_all add: buf_at_def Let_def)
  have len: "length (ReferenceState g) = 4" using B(3) by (simp add: ref_ok_def)
  have ok: "ref_ok b' g'" by (rule ref_ok_step [OF B(3) assms(2)])
  have nxt: "LastVersionCounter g + 1 = ?v + of_nat (Suc ?m)" by (simp add: B(2))
  have idx: "ref_index (LastVersionCounter g + 1) = ?i \<longleftrightarrow> 4 dvd Suc ?m" unfolding nxt by (rule ref_index_eq)
  from assms(2) show ?thesis
  proof (cases rule: ref_write_cases)
    case start
    show ?thesis
    proof (cases "4 dvd Suc ?m")
      case True
      with div4_exact [OF B(1) True] idx start B ok len show ?thesis by (simp add: buf_at_def Let_def nxt Suc_diff_le)
    next
      case False
      from div4_Suc [OF False] B(1) have "(Suc n - n0) div 4 = ?m div 4" by (simp add: Suc_diff_le)
      with False idx start B ok len show ?thesis by (simp add: buf_at_def Let_def)
    qed
  next
    case (fill f)
    show ?thesis
    proof (cases "4 dvd Suc ?m")
      case True
      with div4_exact [OF B(1) True] idx fill B ok len show ?thesis by (simp add: buf_at_def Let_def Suc_diff_le)
    next
      case False
      with Suc_diff_le [OF B(1)] idx fill B ok len show ?thesis by (simp add: buf_at_def Let_def)
    qed
  next
    case publish
    then have "LastVersionCounter g' = ?v + of_nat (Suc ?m)"
      using B(3) nxt by (simp add: ref_ok_def CFE_TIME_FinishReferenceUpdate_def)
    with publish B ok show ?thesis
      by (simp add: buf_at_def Let_def Suc_diff_le CFE_TIME_FinishReferenceUpdate_def)
  next
    case other
    with B ok show ?thesis by (simp add: buf_at_def Let_def)
  qed
qed

text \<open>A run of the protocol: between two accesses any number of steps are made.\<close>

definition protocol_run :: "(nat \<Rightarrow> nat \<times> bool \<times> time_global) \<Rightarrow> bool" where
  "protocol_run W \<longleftrightarrow> (case W 0 of (n, b, g) \<Rightarrow> ref_ok b g) \<and> (\<forall>t. ref_write\<^sup>*\<^sup>* (W t) (W (Suc t)))"

definition started :: "nat \<times> bool \<times> time_global \<Rightarrow> nat" where
  "started = (\<lambda>(n, b, g). n + of_bool b)"

definition memory :: "nat \<times> 'p \<times> time_global \<Rightarrow> time_global" where
  "memory = (\<lambda>(n, b, g). g)"

lemma steps_ok: "ref_write\<^sup>*\<^sup>* \<sigma> \<tau> \<Longrightarrow> (case \<sigma> of (n, b, g) \<Rightarrow> ref_ok b g) \<Longrightarrow> (case \<tau> of (n, b, g) \<Rightarrow> ref_ok b g)"
  by (induction rule: rtranclp_induct) (auto dest: ref_ok_step)

lemma steps_buf: "ref_write\<^sup>*\<^sup>* \<sigma> \<tau> \<Longrightarrow> buf_at n0 g0 \<sigma> \<Longrightarrow> buf_at n0 g0 \<tau>"
  by (induction rule: rtranclp_induct) (auto dest: buf_at_step)

lemma steps_started: "ref_write\<^sup>*\<^sup>* \<sigma> \<tau> \<Longrightarrow> started \<sigma> \<le> started \<tau>"
proof (induction rule: rtranclp_induct)
  case (step \<tau> \<tau>')
  obtain n b g n' b' g' where e: "\<tau> = (n, b, g)" "\<tau>' = (n', b', g')" by (metis prod_cases3)
  from step(2) have "started \<tau> \<le> started \<tau>'"
    unfolding e by (rule ref_write_cases) (auto simp: started_def)
  with step(3) show ?case by simp
qed simp

lemma run_steps: "protocol_run W \<Longrightarrow> ref_write\<^sup>*\<^sup>* (W t) (W (t + k))"
proof (induction k)
  case (Suc k)
  then have "ref_write\<^sup>*\<^sup>* (W (t + k)) (W (t + Suc k))" by (simp add: protocol_run_def)
  with Suc show ?case by (meson rtranclp_trans)
qed simp

lemma run_ok: "protocol_run W \<Longrightarrow> W t = (n, b, g) \<Longrightarrow> ref_ok b g"
  using steps_ok [OF run_steps [of W 0 t]] by (auto simp: protocol_run_def split: prod.splits)

lemma buf_at_self: "ref_ok b g \<Longrightarrow> buf_at n g (n, b, g)"
  by (simp add: buf_at_def ref_ok_def Let_def CFE_TIME_GetReferenceState_def)

text \<open>
  If the version is unchanged at the end of an attempt, and fewer updates than there are version numbers have been
  started meanwhile, then the buffer was the same at every access.
\<close>

lemma attempt_consistent:
  assumes run: "protocol_run W" and few: "started (W (t + 13)) < started (W t) + 2 ^ 31"
    and good: "StateVersion (ReferenceState (memory (W (t + 13))) ! ref_index v) = v"
    and v: "v = LastVersionCounter (memory (W t))" and k: "k \<le> 13"
  shows "ReferenceState (memory (W (t + k))) ! ref_index v = ReferenceState (memory (W t)) ! ref_index v"
proof -
  obtain n b g where W: "W t = (n, b, g)" by (cases "W t")
  have B: "buf_at n g (W (t + j))" for j
    by (rule steps_buf [OF run_steps [OF run, of t j], unfolded W, OF buf_at_self [OF run_ok [OF run W]]])
  obtain n' b' g' where W': "W (t + 13) = (n', b', g')" by (cases "W (t + 13)")
  obtain n'' b'' g'' where W'': "W (t + k) = (n'', b'', g'')" by (cases "W (t + k)")
  let ?K = "n' - n + of_bool b'"
  have "?K < 2 ^ 31 + 1" using few by (simp add: W W' started_def of_bool_def split: if_splits)
  have vg: "v = LastVersionCounter g" using v by (simp add: W memory_def)
  have "v + of_nat (4 * (?K div 4)) = v"
    using B [of 13] good unfolding W' vg by (simp add: buf_at_def Let_def memory_def)
  then have "(of_nat (4 * (?K div 4)) :: uint32) = 0" by simp
  moreover have "4 * (?K div 4) < 2 ^ LENGTH(32)" using \<open>?K < 2 ^ 31 + 1\<close> by simp
  ultimately have "4 * (?K div 4) = 0" by (metis unat_of_nat_small unsigned_0)
  then have "?K < 4" by simp
  moreover have "started (W (t + k)) \<le> started (W (t + 13))"
    using steps_started [OF run_steps [OF run, of "t + k" "13 - k"]] k by simp
  ultimately have "n'' - n + of_bool b'' < 4"
    using B [of 13] B [of k] unfolding W' W'' by (simp add: started_def buf_at_def)
  then show ?thesis using B [of k] unfolding W'' W vg by (simp add: buf_at_def Let_def memory_def)
qed

subsection \<open>A read as a whole\<close>

text \<open>The reference data that a read returned is one published buffer.\<close>

definition snapshot_of :: "ReferenceState_t \<Rightarrow> Reference_t \<Rightarrow> bool" where
  "snapshot_of S R \<longleftrightarrow> R_AtToneMET R = RS_AtToneMET S \<and> R_AtToneSTCF R = RS_AtToneSTCF S
     \<and> R_AtToneLeapSeconds R = RS_AtToneLeapSeconds S \<and> R_ClockSetState R = RS_ClockSetState S
     \<and> R_ClockFlyState R = RS_ClockFlyState S \<and> R_DelayDirection R = RS_DelayDirection S
     \<and> R_AtToneDelay R = RS_AtToneDelay S \<and> R_AtToneLatch R = RS_AtToneLatch S"

text \<open>An attempt is overtaken if at least three updates are started during it.\<close>

definition overtaken :: "(nat \<Rightarrow> nat \<times> bool \<times> time_global) \<Rightarrow> nat \<Rightarrow> bool" where
  "overtaken W t \<longleftrightarrow> started (W t) + 3 \<le> started (W (t + 13))"

definition few_updates :: "(nat \<Rightarrow> nat \<times> bool \<times> time_global) \<Rightarrow> bool" where
  "few_updates W \<longleftrightarrow> (\<forall>t. started (W (t + 13)) < started (W t) + 2 ^ 31)"

lemma systime_eta [simp]: "\<lparr>Seconds = Seconds x, Subseconds = Subseconds x\<rparr> = (x :: CFE_TIME_SysTime)"
  by simp

lemma attempt_good:
  assumes "protocol_run W" "few_updates W" "read_reference (\<lambda>n. memory (W n)) t latch = (R, True)"
  shows "snapshot_of (CFE_TIME_GetReferenceState (memory (W t))) R \<and> R_CurrentLatch R = latch"
proof -
  let ?v = "LastVersionCounter (memory (W t))"
  have "StateVersion (ReferenceState (memory (W (t + 13))) ! ref_index ?v) = ?v"
    using assms(3) by (simp add: read_reference_def Let_def)
  then have same: "ReferenceState (memory (W (t + k))) ! ref_index ?v = ReferenceState (memory (W t)) ! ref_index ?v"
    if "k \<le> 13" for k
    using attempt_consistent [OF assms(1) _ _ refl that] assms(2) by (simp add: few_updates_def)
  have "snapshot_of (CFE_TIME_GetReferenceState (memory (W t))) (fst (read_reference (\<lambda>n. memory (W n)) t latch))
      \<and> R_CurrentLatch (fst (read_reference (\<lambda>n. memory (W n)) t latch)) = latch"
    using same [of 1] same [of 2] same [of 3] same [of 4] same [of 5] same [of 6] same [of 7] same [of 8] same [of 9]
      same [of 10] same [of 11] same [of 12]
    by (simp add: read_reference_def Let_def snapshot_of_def CFE_TIME_GetReferenceState_def)
  then show ?thesis by (simp add: assms(3))
qed

lemma attempt_bad:
  assumes "protocol_run W" "read_reference (\<lambda>n. memory (W n)) t latch = (R, False)"
  shows "overtaken W t"
proof (rule ccontr)
  assume no: "\<not> overtaken W t"
  obtain n b g where W: "W t = (n, b, g)" by (cases "W t")
  obtain n' b' g' where W': "W (t + 13) = (n', b', g')" by (cases "W (t + 13)")
  have B: "buf_at n g (W (t + 13))"
    by (rule steps_buf [OF run_steps [OF assms(1), of t 13], unfolded W, OF buf_at_self [OF run_ok [OF assms(1) W]]])
  have "started (W t) \<le> started (W (t + 13))" by (rule steps_started [OF run_steps [OF assms(1)]])
  with no have "n' - n + of_bool b' < 4"
    using B unfolding W' by (cases b) (auto simp: overtaken_def W W' started_def buf_at_def split: if_splits)
  then have "StateVersion (ReferenceState g' ! ref_index (LastVersionCounter g)) = LastVersionCounter g"
    using B unfolding W' by (auto simp: buf_at_def Let_def)
  then show False using assms(2) by (simp add: read_reference_def Let_def W W' memory_def)
qed

lemma loop_result:
  assumes "protocol_run W" "few_updates W" "reference_loop (\<lambda>n. memory (W n)) clock t r = (R, m, t')"
  shows "(\<forall>k < r - m. overtaken W (t + 14 * k)) \<and> m \<le> r
    \<and> (0 < m \<longrightarrow> t' = t + 14 * (r - m) + 14
        \<and> snapshot_of (CFE_TIME_GetReferenceState (memory (W (t + 14 * (r - m))))) R
        \<and> R_CurrentLatch R = clock (t + 14 * (r - m)))"
  using assms(3)
proof (induction r arbitrary: t)
  case 0
  then show ?case by (auto simp: reference_loop.simps [of _ _ t 0] split: prod.splits if_splits)
next
  case (Suc r)
  obtain R1 good where a: "read_reference (\<lambda>n. memory (W n)) t (clock t) = (R1, good)" by fastforce
  show ?case
  proof (cases good)
    case True
    with Suc.prems a have "R = R1" "m = Suc r" "t' = t + 14" by (simp_all add: reference_loop.simps [of _ _ t "Suc r"])
    with attempt_good [OF assms(1,2)] a True show ?thesis by simp
  next
    case False
    with Suc.prems a have "reference_loop (\<lambda>n. memory (W n)) clock (t + 14) r = (R, m, t')"
      by (simp add: reference_loop.simps [of _ _ t "Suc r"])
    from Suc.IH [OF this] have I: "\<forall>k < r - m. overtaken W (t + 14 + 14 * k)" "m \<le> r"
      "0 < m \<longrightarrow> t' = t + 14 + 14 * (r - m) + 14
        \<and> snapshot_of (CFE_TIME_GetReferenceState (memory (W (t + 14 + 14 * (r - m))))) R
        \<and> R_CurrentLatch R = clock (t + 14 + 14 * (r - m))" by blast+
    have "overtaken W (t + 14 * k)" if "k < Suc r - m" for k
    proof (cases k)
      case 0
      with attempt_bad [OF assms(1)] a False show ?thesis by simp
    next
      case (Suc j)
      with that I(1) have "overtaken W (t + 14 + 14 * j)" by simp
      with Suc show ?thesis by (simp add: add.assoc)
    qed
    moreover have e: "t + 14 + 14 * (r - m) = t + 14 * (Suc r - m)" using I(2) by (simp add: Suc_diff_le)
    ultimately show ?thesis using I(2,3) unfolding e by simp
  qed
qed

lemma read_result:
  assumes "protocol_run W" "few_updates W" "CFE_TIME_GetReference (\<lambda>n. memory (W n)) clock = (R, failed)"
  shows "if failed then R = zero_reference \<and> (\<forall>k < 4. overtaken W (14 * k))
    else \<exists>k < 4. snapshot_of (CFE_TIME_GetReferenceState (memory (W (14 * k)))) R \<and> R_CurrentLatch R = clock (14 * k)
      \<and> R_TimeSinceTone R = elapsed_since (memory (W (14 * k + 14))) (R_AtToneLatch R) (R_CurrentLatch R)
      \<and> R_CurrentMET R = CFE_TIME_Add (R_TimeSinceTone R) (R_AtToneMET R)"
proof -
  obtain R1 m t' where l: "reference_loop (\<lambda>n. memory (W n)) clock 0 4 = (R1, m, t')" by (metis prod_cases3)
  note L = loop_result [OF assms(1,2) l]
  show ?thesis
  proof (cases "m = 0")
    case True
    with assms(3) l have "R = zero_reference" "failed" by (simp_all add: CFE_TIME_GetReference_def)
    with L True show ?thesis by simp
  next
    case False
    then have "4 - m < 4" by simp
    moreover from assms(3) l False have "\<not> failed"
      "R = R1\<lparr>R_TimeSinceTone := elapsed_since (memory (W t')) (R_AtToneLatch R1) (R_CurrentLatch R1),
         R_CurrentMET := CFE_TIME_Add (elapsed_since (memory (W t')) (R_AtToneLatch R1) (R_CurrentLatch R1)) (R_AtToneMET R1)\<rparr>"
      by (auto simp: CFE_TIME_GetReference_def Let_def)
    moreover have "t' = 14 * (4 - m) + 14" "snapshot_of (CFE_TIME_GetReferenceState (memory (W (14 * (4 - m))))) R1"
      "R_CurrentLatch R1 = clock (14 * (4 - m))" using L False by simp_all
    ultimately show ?thesis by (auto simp: snapshot_of_def)
  qed
qed

subsection \<open>The stores of the code follow the protocol\<close>

text \<open>
  The writer is the time task, which alone updates the reference data. Its state is the number of versions published and
  the stores of the current update that it still has to make. An update begins with its first store; its caller may
  assign any fields but the version, in any number of stores. Between the stores, other assignments of this task and
  of others do not touch the reference data.
\<close>

inductive time_write ::
  "nat \<times> (time_global \<Rightarrow> time_global) list \<times> time_global
    \<Rightarrow> nat \<times> (time_global \<Rightarrow> time_global) list \<times> time_global \<Rightarrow> bool" where
  begin_update: "update_stores (LastVersionCounter g) fs = store # stores
     \<Longrightarrow> (\<And>f r. f \<in> set fs \<Longrightarrow> StateVersion (f r) = StateVersion r)
     \<Longrightarrow> time_write (n, [], g) (n, stores, store g)"
| next_store: "time_write (n, store # stores, g) (if stores = [] then Suc n else n, stores, store g)"
| other_store: "ReferenceState g' = ReferenceState g \<Longrightarrow> LastVersionCounter g' = LastVersionCounter g
     \<Longrightarrow> time_write (n, stores, g) (n, stores, g')"

definition protocol :: "nat \<times> (time_global \<Rightarrow> time_global) list \<times> time_global \<Rightarrow> nat \<times> bool \<times> time_global" where
  "protocol = (\<lambda>(n, stores, g). (n, stores \<noteq> [], g))"

lemma memory_protocol [simp]: "memory (protocol \<sigma>) = memory \<sigma>"
  by (simp add: memory_def protocol_def split: prod.split)

text \<open>A store that assigns fields other than the version in the next buffer.\<close>

definition fill_store :: "uint32 \<Rightarrow> (time_global \<Rightarrow> time_global) \<Rightarrow> bool" where
  "fill_store v store \<longleftrightarrow> (\<forall>g. \<exists>f. (\<forall>r. StateVersion (f r) = StateVersion r) \<and> store g = upd_ref (ref_index (v + 1)) f g)"

lemma fill_copy: "(\<And>c r. StateVersion (assign c r) = StateVersion r) \<Longrightarrow> fill_store v (copy_ref v assign)"
  by (auto simp: fill_store_def copy_ref_def)

lemma fill_upd: "(\<And>r. StateVersion (f r) = StateVersion r) \<Longrightarrow> fill_store v (upd_ref (ref_index (v + 1)) f)"
  by (auto simp: fill_store_def)

lemma start_stores_fill:
  "\<exists>fills. start_stores v = upd_ref (ref_index (v + 1)) (\<lambda>r. r\<lparr>StateVersion := v + 1\<rparr>) # fills
    \<and> (\<forall>store \<in> set fills. fill_store v store)"
  by (simp add: start_stores_def fill_copy)

text \<open>Of an update under way the last store publishes the buffer and the others only fill it.\<close>

definition writer_ok :: "nat \<times> (time_global \<Rightarrow> time_global) list \<times> time_global \<Rightarrow> bool" where
  "writer_ok = (\<lambda>(n, stores, g). stores = [] \<or>
     (\<exists>fills. stores = fills @ [CFE_TIME_FinishReferenceUpdate (ref_index (LastVersionCounter g + 1))]
        \<and> (\<forall>store \<in> set fills. fill_store (LastVersionCounter g) store)))"

lemma write_protocol:
  assumes "time_write \<sigma> \<tau>" "writer_ok \<sigma>"
  shows "writer_ok \<tau> \<and> ref_write (protocol \<sigma>) (protocol \<tau>)"
  using assms
proof (cases rule: time_write.cases)
  case (begin_update g fs store stores n)
  obtain fills where f: "start_stores (LastVersionCounter g)
      = upd_ref (ref_index (LastVersionCounter g + 1)) (\<lambda>r. r\<lparr>StateVersion := LastVersionCounter g + 1\<rparr>) # fills"
    "\<forall>store \<in> set fills. fill_store (LastVersionCounter g) store"
    using start_stores_fill by blast
  have st: "store = upd_ref (ref_index (LastVersionCounter g + 1)) (\<lambda>r. r\<lparr>StateVersion := LastVersionCounter g + 1\<rparr>)"
    "stores = (fills @ map (upd_ref (ref_index (LastVersionCounter g + 1))) fs)
      @ [CFE_TIME_FinishReferenceUpdate (ref_index (LastVersionCounter g + 1))]"
    using begin_update(3) f(1) by (auto simp: update_stores_def)
  have "\<forall>store \<in> set (fills @ map (upd_ref (ref_index (LastVersionCounter g + 1))) fs). fill_store (LastVersionCounter g) store"
    using f(2) begin_update(4) by (auto intro: fill_upd)
  then have "writer_ok \<tau>" unfolding begin_update(2) writer_ok_def prod.case st upd_ref_simps
    by (intro disjI2 exI conjI) (rule refl)
  moreover have "ref_write (protocol \<sigma>) (protocol \<tau>)"
    unfolding begin_update protocol_def prod.case st by (simp add: ref_write.start)
  ultimately show ?thesis by blast
next
  case (next_store n store stores g)
  with assms(2) obtain fills where f: "store # stores
      = fills @ [CFE_TIME_FinishReferenceUpdate (ref_index (LastVersionCounter g + 1))]"
    "\<forall>store \<in> set fills. fill_store (LastVersionCounter g) store" by (auto simp: writer_ok_def)
  show ?thesis
  proof (cases fills)
    case Nil
    with f(1) next_store show ?thesis by (simp add: protocol_def writer_ok_def ref_write.publish)
  next
    case (Cons x xs)
    with f have "fill_store (LastVersionCounter g) store" by simp
    then obtain h where h: "\<And>r. StateVersion (h r) = StateVersion r"
      "store g = upd_ref (ref_index (LastVersionCounter g + 1)) h g" unfolding fill_store_def by blast
    from ref_write.fill [of h n g, OF h(1)] f Cons next_store h(2) show ?thesis
      by (auto simp: protocol_def writer_ok_def)
  qed
next
  case (other_store g' g n stores)
  with assms(2) show ?thesis by (auto simp: protocol_def writer_ok_def intro: ref_write.other)
qed

lemma writes_protocol:
  "time_write\<^sup>*\<^sup>* \<sigma> \<tau> \<Longrightarrow> writer_ok \<sigma> \<Longrightarrow> writer_ok \<tau> \<and> ref_write\<^sup>*\<^sup>* (protocol \<sigma>) (protocol \<tau>)"
proof (induction rule: rtranclp_induct)
  case (step \<tau> \<tau>')
  with write_protocol [of \<tau> \<tau>'] show ?case by (meson rtranclp.rtrancl_into_rtrancl)
qed simp

text \<open>
  A run: the writer made any number of steps since it was idle, and makes any number of steps between two accesses of the
  reader.
\<close>

definition writer_run :: "(nat \<Rightarrow> nat \<times> (time_global \<Rightarrow> time_global) list \<times> time_global) \<Rightarrow> bool" where
  "writer_run W \<longleftrightarrow> (\<exists>n g. ref_ok False g \<and> time_write\<^sup>*\<^sup>* (n, [], g) (W 0)) \<and> (\<forall>t. time_write\<^sup>*\<^sup>* (W t) (W (Suc t)))"

definition protocol_of ::
  "(nat \<Rightarrow> nat \<times> (time_global \<Rightarrow> time_global) list \<times> time_global) \<Rightarrow> nat \<Rightarrow> nat \<times> bool \<times> time_global" where
  "protocol_of W t = protocol (W t)"

lemma run_protocol:
  assumes "writer_run W"
  shows "protocol_run (protocol_of W)"
proof -
  obtain n g where g: "ref_ok False g" "time_write\<^sup>*\<^sup>* (n, [], g) (W 0)" using assms by (auto simp: writer_run_def)
  have "writer_ok (n, [], g)" by (simp add: writer_ok_def)
  from writes_protocol [OF g(2) this] have w0: "writer_ok (W 0)" "ref_write\<^sup>*\<^sup>* (protocol (n, [], g)) (protocol (W 0))"
    by simp_all
  have w: "writer_ok (W t)" for t
  proof (induction t)
    case (Suc t)
    have "time_write\<^sup>*\<^sup>* (W t) (W (Suc t))" using assms by (simp add: writer_run_def)
    from writes_protocol [OF this Suc] show ?case by blast
  qed (rule w0(1))
  have "case protocol (W 0) of (n, b, g) \<Rightarrow> ref_ok b g"
    by (rule steps_ok [OF w0(2)]) (simp add: protocol_def g(1))
  moreover have "ref_write\<^sup>*\<^sup>* (protocol (W t)) (protocol (W (Suc t)))" for t
    using writes_protocol [OF _ w [of t]] assms by (simp add: writer_run_def)
  ultimately show ?thesis by (simp add: protocol_run_def protocol_of_def)
qed

text \<open>Without an update beside it a read succeeds at once.\<close>

lemma get_reference_idle:
  assumes "ref_ok False g"
  shows "get_reference now g =
    (let S = CFE_TIME_GetReferenceState g; latch = CFE_TIME_LatchClock now;
         since = elapsed_since g (RS_AtToneLatch S) latch
     in (\<lparr>R_AtToneMET = RS_AtToneMET S, R_AtToneSTCF = RS_AtToneSTCF S, R_AtToneLeapSeconds = RS_AtToneLeapSeconds S,
          R_ClockSetState = RS_ClockSetState S, R_ClockFlyState = RS_ClockFlyState S, R_DelayDirection = RS_DelayDirection S,
          R_AtToneDelay = RS_AtToneDelay S, R_AtToneLatch = RS_AtToneLatch S, R_CurrentLatch = latch,
          R_TimeSinceTone = since, R_CurrentMET = CFE_TIME_Add since (RS_AtToneMET S)\<rparr>, g))"
  using assms
  by (simp add: get_reference_def CFE_TIME_GetReference_def reference_loop.simps [of _ _ 0 4] read_reference_def Let_def
      ref_ok_def CFE_TIME_GetReferenceState_def)

text \<open>What an update does when it is not interrupted.\<close>

lemma ref_ok_len: "ref_ok False g \<Longrightarrow> length (ReferenceState g) = 4"
  by (simp add: ref_ok_def)

lemma update_reference_spec:
  assumes len: "length (ReferenceState g) = 4" and keep: "\<And>r. StateVersion (f r) = StateVersion r"
  defines "g' \<equiv> update_reference f g" and "S \<equiv> CFE_TIME_GetReferenceState g"
  shows "ref_ok False g'" "CFE_TIME_GetReferenceState g' = f (S\<lparr>StateVersion := LastVersionCounter g + 1\<rparr>)"
    "LastVersionCounter g' = LastVersionCounter g + 1"
    "g' = g\<lparr>ReferenceState := ReferenceState g', LastVersionCounter := LastVersionCounter g'\<rparr>"
proof -
  have e: "g' = g\<lparr>ReferenceState := (ReferenceState g)[ref_index (LastVersionCounter g + 1)
        := f (S\<lparr>StateVersion := LastVersionCounter g + 1\<rparr>)], LastVersionCounter := LastVersionCounter g + 1\<rparr>"
    using len keep
    by (simp add: g'_def S_def update_reference_def start_update Let_def upd_ref_def
        CFE_TIME_FinishReferenceUpdate_def CFE_TIME_GetReferenceState_def)
  show "LastVersionCounter g' = LastVersionCounter g + 1" by (simp add: e)
  show "CFE_TIME_GetReferenceState g' = f (S\<lparr>StateVersion := LastVersionCounter g + 1\<rparr>)"
    using len by (simp add: e CFE_TIME_GetReferenceState_def)
  show "ref_ok False g'" using len keep by (simp add: e ref_ok_def CFE_TIME_GetReferenceState_def)
  show "g' = g\<lparr>ReferenceState := ReferenceState g', LastVersionCounter := LastVersionCounter g'\<rparr>" by (simp add: e)
qed

lemmas update_reference_idle = update_reference_spec [OF ref_ok_len]


text \<open>
  The retry count is zero both when the retries are used up and when the last of them succeeds: what the
  fifth attempt reads is never used.
\<close>

lemma last_attempt_discarded:
  assumes "\<And>k. k < 4 \<Longrightarrow> \<not> snd (read_reference M (14 * k) (clock (14 * k)))"
  shows "CFE_TIME_GetReference M clock = (zero_reference, True)"
proof -
  have "fst (snd (reference_loop M clock t r)) = 0"
    if "\<And>k. k < r \<Longrightarrow> \<not> snd (read_reference M (t + 14 * k) (clock (t + 14 * k)))" for r t
    using that
  proof (induction r arbitrary: t)
    case 0
    show ?case by (simp add: reference_loop.simps [of _ _ t 0] split: prod.split)
  next
    case (Suc r)
    have "\<not> snd (read_reference M (t + 14 + 14 * k) (clock (t + 14 + 14 * k)))" if "k < r" for k
      using Suc.prems [of "Suc k"] that by (simp add: add.assoc)
    from Suc.IH [OF this] Suc.prems [of 0] show ?case
      by (auto simp: reference_loop.simps [of _ _ t "Suc r"] split: prod.split)
  qed
  from this [of 4 0] assms have z: "fst (snd (reference_loop M clock 0 4)) = 0" by simp
  obtain R m t where "reference_loop M clock 0 4 = (R, m, t)" by (metis prod_cases3)
  with z show ?thesis by (simp add: CFE_TIME_GetReference_def)
qed

end
