(* ===== verification/Time_Tone.thy ===== *)
theory Time_Tone
  imports Time_Read
begin

section \<open>Time service: clock state, tone processing and commands\<close>

text \<open>
  The rest of the time service: the times it computes, the setters, start-up, the tone, the 1 Hz
  state machine and the handlers of the task, all in the configuration of \<open>Time_Ref\<close>. All updates of the
  reference data run in the time task, one after the other. \<open>now\<close> is the local time that the platform reports.
\<close>

definition time_event :: "CFE_TIME_Event \<Rightarrow> time_global \<Rightarrow> time_global" where
  "time_event e g = g\<lparr>TimeEvents := TimeEvents g @ [e]\<rparr>"

definition time_send :: "time_msg \<Rightarrow> time_global \<Rightarrow> time_global" where
  "time_send m g = g\<lparr>TimeSent := TimeSent g @ [m]\<rparr>"

text \<open>The default configuration.\<close>

definition CFE_MISSION_TIME_DEF_MET_SECS :: uint32 where "CFE_MISSION_TIME_DEF_MET_SECS = 1000"
definition CFE_MISSION_TIME_DEF_MET_SUBS :: uint32 where "CFE_MISSION_TIME_DEF_MET_SUBS = 0"
definition CFE_MISSION_TIME_DEF_STCF_SECS :: uint32 where "CFE_MISSION_TIME_DEF_STCF_SECS = 1000000"
definition CFE_MISSION_TIME_DEF_STCF_SUBS :: uint32 where "CFE_MISSION_TIME_DEF_STCF_SUBS = 0"
definition CFE_MISSION_TIME_DEF_LEAPS :: int16 where "CFE_MISSION_TIME_DEF_LEAPS = 37"
definition CFE_MISSION_TIME_MIN_ELAPSED :: uint32 where "CFE_MISSION_TIME_MIN_ELAPSED = 0"
definition CFE_MISSION_TIME_MAX_ELAPSED :: uint32 where "CFE_MISSION_TIME_MAX_ELAPSED = 200000"
definition CFE_PLATFORM_TIME_MAX_LOCAL_SECS :: uint32 where "CFE_PLATFORM_TIME_MAX_LOCAL_SECS = 27"
definition CFE_PLATFORM_TIME_MAX_LOCAL_SUBS :: uint32 where "CFE_PLATFORM_TIME_MAX_LOCAL_SUBS = 0"
definition CFE_PLATFORM_TIME_CFG_TONE_LIMIT :: uint32 where "CFE_PLATFORM_TIME_CFG_TONE_LIMIT = 20000"
definition CFE_PLATFORM_TIME_CFG_START_FLY :: uint32 where "CFE_PLATFORM_TIME_CFG_START_FLY = 2"
definition CFE_PLATFORM_TIME_CFG_LATCH_FLY :: uint32 where "CFE_PLATFORM_TIME_CFG_LATCH_FLY = 8"
definition CFE_PLATFORM_ES_MAX_APPLICATIONS :: nat where "CFE_PLATFORM_ES_MAX_APPLICATIONS = 32"

subsection \<open>Computed times\<close>

definition CFE_TIME_CalculateTAI :: "Reference_t \<Rightarrow> CFE_TIME_SysTime" where
  "CFE_TIME_CalculateTAI Reference = CFE_TIME_Add (R_CurrentMET Reference) (R_AtToneSTCF Reference)"

definition CFE_TIME_CalculateUTC :: "Reference_t \<Rightarrow> CFE_TIME_SysTime" where
  "CFE_TIME_CalculateUTC Reference =
     (let TimeAsUTC = CFE_TIME_Add (R_CurrentMET Reference) (R_AtToneSTCF Reference)
      in TimeAsUTC\<lparr>Seconds := Seconds TimeAsUTC - scast (R_AtToneLeapSeconds Reference)\<rparr>)"

definition CFE_TIME_CalculateState :: "Reference_t \<Rightarrow> int16" where
  "CFE_TIME_CalculateState Reference =
     (if R_ClockSetState Reference = CFE_TIME_SetState_WAS_SET
      then if R_ClockFlyState Reference = CFE_TIME_FlywheelState_NO_FLY
           then CFE_TIME_ClockState_VALID else CFE_TIME_ClockState_FLYWHEEL
      else CFE_TIME_ClockState_INVALID)"

definition CFE_TIME_GetTAI :: "OS_time \<Rightarrow> time_global \<Rightarrow> CFE_TIME_SysTime \<times> time_global" where
  "CFE_TIME_GetTAI now g = (case get_reference now g of (R, g1) \<Rightarrow> (CFE_TIME_CalculateTAI R, g1))"

definition CFE_TIME_GetUTC :: "OS_time \<Rightarrow> time_global \<Rightarrow> CFE_TIME_SysTime \<times> time_global" where
  "CFE_TIME_GetUTC now g = (case get_reference now g of (R, g1) \<Rightarrow> (CFE_TIME_CalculateUTC R, g1))"

definition CFE_TIME_GetTime :: "OS_time \<Rightarrow> time_global \<Rightarrow> CFE_TIME_SysTime \<times> time_global" where
  "CFE_TIME_GetTime = CFE_TIME_GetTAI"

definition CFE_TIME_GetMET :: "OS_time \<Rightarrow> time_global \<Rightarrow> CFE_TIME_SysTime \<times> time_global" where
  "CFE_TIME_GetMET now g = (case get_reference now g of (R, g1) \<Rightarrow> (R_CurrentMET R, g1))"

definition CFE_TIME_GetMETseconds :: "OS_time \<Rightarrow> time_global \<Rightarrow> uint32 \<times> time_global" where
  "CFE_TIME_GetMETseconds now g = (case get_reference now g of (R, g1) \<Rightarrow> (Seconds (R_CurrentMET R), g1))"

definition CFE_TIME_GetMETsubsecs :: "OS_time \<Rightarrow> time_global \<Rightarrow> uint32 \<times> time_global" where
  "CFE_TIME_GetMETsubsecs now g = (case get_reference now g of (R, g1) \<Rightarrow> (Subseconds (R_CurrentMET R), g1))"

definition CFE_TIME_GetSTCF :: "OS_time \<Rightarrow> time_global \<Rightarrow> CFE_TIME_SysTime \<times> time_global" where
  "CFE_TIME_GetSTCF now g = (case get_reference now g of (R, g1) \<Rightarrow> (R_AtToneSTCF R, g1))"

definition CFE_TIME_GetLeapSeconds :: "OS_time \<Rightarrow> time_global \<Rightarrow> int16 \<times> time_global" where
  "CFE_TIME_GetLeapSeconds now g = (case get_reference now g of (R, g1) \<Rightarrow> (R_AtToneLeapSeconds R, g1))"

definition CFE_TIME_GetClockState :: "OS_time \<Rightarrow> time_global \<Rightarrow> int16 \<times> time_global" where
  "CFE_TIME_GetClockState now g = (case get_reference now g of (R, g1) \<Rightarrow> (CFE_TIME_CalculateState R, g1))"

definition CFE_TIME_MET2SCTime ::
  "CFE_TIME_SysTime \<Rightarrow> OS_time \<Rightarrow> time_global \<Rightarrow> CFE_TIME_SysTime \<times> time_global" where
  "CFE_TIME_MET2SCTime METTime now g = (case CFE_TIME_GetSTCF now g of (STCF, g1) \<Rightarrow> (CFE_TIME_Add METTime STCF, g1))"

definition CFE_TIME_GetClockInfo :: "time_global \<Rightarrow> uint16" where
  "CFE_TIME_GetClockInfo g =
     (let RefState = CFE_TIME_GetReferenceState g; flag = (\<lambda>b (v :: uint16). if b then v else 0)
      in flag (RS_ClockSetState RefState = CFE_TIME_SetState_WAS_SET) 0x8000
         OR flag (RS_ClockFlyState RefState = CFE_TIME_FlywheelState_IS_FLY) 0x4000
         OR flag (ClockSource g = CFE_TIME_SourceSelect_INTERNAL) 0x2000
         OR flag (ClockSignal g = CFE_TIME_ToneSignalSelect_PRIMARY) 0x1000
         OR flag (ServerFlyState g = CFE_TIME_FlywheelState_IS_FLY) 0x0800
         OR flag (Forced2Fly g) 0x0400
         OR flag (OneTimeDirection g = CFE_TIME_AdjustDirection_ADD) 0x0200
         OR flag (OneHzDirection g = CFE_TIME_AdjustDirection_ADD) 0x0100
         OR flag (RS_DelayDirection RefState = CFE_TIME_AdjustDirection_ADD) 0x0080
         OR 0x0040
         OR flag (IsToneGood g) 0x0020
         OR flag (GetReferenceFail g) 0x0010)"

subsection \<open>Setters\<close>

definition CFE_TIME_SetState :: "int16 \<Rightarrow> time_global \<Rightarrow> time_global" where
  "CFE_TIME_SetState NewState g =
     (if NewState = CFE_TIME_ClockState_FLYWHEEL
      then (update_reference (\<lambda>r. r\<lparr>RS_ClockFlyState := CFE_TIME_FlywheelState_IS_FLY\<rparr>) g)
             \<lparr>Forced2Fly := True, ServerFlyState := CFE_TIME_FlywheelState_IS_FLY\<rparr>
      else if NewState = CFE_TIME_ClockState_VALID
      then (update_reference (\<lambda>r. r\<lparr>RS_ClockSetState := CFE_TIME_SetState_WAS_SET\<rparr>) g)\<lparr>Forced2Fly := False\<rparr>
      else (update_reference (\<lambda>r. r\<lparr>RS_ClockSetState := CFE_TIME_SetState_NOT_SET\<rparr>) g)\<lparr>Forced2Fly := False\<rparr>)"

definition CFE_TIME_SetTime :: "CFE_TIME_SysTime \<Rightarrow> OS_time \<Rightarrow> time_global \<Rightarrow> time_global" where
  "CFE_TIME_SetTime NewTime now g =
     (case get_reference now g of (Reference, g1) \<Rightarrow>
        update_reference (\<lambda>r. r\<lparr>RS_AtToneSTCF := CFE_TIME_Subtract NewTime (R_CurrentMET Reference)\<rparr>) g1)"

definition CFE_TIME_SetMET :: "CFE_TIME_SysTime \<Rightarrow> OS_time \<Rightarrow> time_global \<Rightarrow> time_global" where
  "CFE_TIME_SetMET NewMET now g =
     (update_reference (\<lambda>r. r\<lparr>RS_AtToneMET := NewMET, RS_AtToneLatch := CFE_TIME_LatchClock now\<rparr>) g)
       \<lparr>VirtualMET := Seconds NewMET\<rparr>"

definition CFE_TIME_SetSTCF :: "CFE_TIME_SysTime \<Rightarrow> time_global \<Rightarrow> time_global" where
  "CFE_TIME_SetSTCF NewSTCF = update_reference (\<lambda>r. r\<lparr>RS_AtToneSTCF := NewSTCF\<rparr>)"

definition CFE_TIME_SetLeapSeconds :: "int16 \<Rightarrow> time_global \<Rightarrow> time_global" where
  "CFE_TIME_SetLeapSeconds NewLeaps = update_reference (\<lambda>r. r\<lparr>RS_AtToneLeapSeconds := NewLeaps\<rparr>)"

definition CFE_TIME_SetAdjust :: "CFE_TIME_SysTime \<Rightarrow> int16 \<Rightarrow> time_global \<Rightarrow> time_global" where
  "CFE_TIME_SetAdjust NewAdjust Direction g =
     (update_reference (\<lambda>r. r\<lparr>RS_AtToneSTCF :=
          (if Direction = CFE_TIME_AdjustDirection_ADD then CFE_TIME_Add (RS_AtToneSTCF r) NewAdjust
           else CFE_TIME_Subtract (RS_AtToneSTCF r) NewAdjust)\<rparr>) g)
       \<lparr>OneTimeAdjust := NewAdjust, OneTimeDirection := Direction\<rparr>"

definition CFE_TIME_Set1HzAdj :: "CFE_TIME_SysTime \<Rightarrow> int16 \<Rightarrow> time_global \<Rightarrow> time_global" where
  "CFE_TIME_Set1HzAdj NewAdjust Direction g = g\<lparr>OneHzAdjust := NewAdjust, OneHzDirection := Direction\<rparr>"

subsection \<open>Start-up and the reset area\<close>

definition CFE_TIME_RESET_SIGNATURE :: uint32 where "CFE_TIME_RESET_SIGNATURE = 0xA5A55A5A"
definition CFE_TIME_RESET_AREA_ERROR :: uint32 where "CFE_TIME_RESET_AREA_ERROR = 1"
definition CFE_TIME_RESET_AREA_BAD :: uint32 where "CFE_TIME_RESET_AREA_BAD = 2"
definition CFE_TIME_RESET_AREA_NEW :: uint32 where "CFE_TIME_RESET_AREA_NEW = 3"
definition CFE_TIME_RESET_AREA_EXISTING :: uint32 where "CFE_TIME_RESET_AREA_EXISTING = 4"

definition reset_data :: "ResetVars_t option \<Rightarrow> ResetVars_t option" where
  "reset_data area = (case area of None \<Rightarrow> None
     | Some v \<Rightarrow> if RV_Signature v = CFE_TIME_RESET_SIGNATURE
                    \<and> (RV_ClockSignal v = CFE_TIME_ToneSignalSelect_PRIMARY
                       \<or> RV_ClockSignal v = CFE_TIME_ToneSignalSelect_REDUNDANT) then Some v else None)"

definition CFE_TIME_QueryResetVars :: "time_global \<Rightarrow> time_global" where
  "CFE_TIME_QueryResetVars g =
     (case reset_data (ResetArea g) of
        Some v \<Rightarrow>
          (update_reference (\<lambda>r. r\<lparr>RS_AtToneMET := RV_CurrentMET v, RS_AtToneSTCF := RV_CurrentSTCF v,
               RS_AtToneDelay := RV_CurrentDelay v, RS_AtToneLeapSeconds := RV_LeapSeconds v\<rparr>) g)
            \<lparr>ClockSignal := RV_ClockSignal v, DataStoreStatus := CFE_TIME_RESET_AREA_EXISTING\<rparr>
      | None \<Rightarrow>
          (update_reference (\<lambda>r. r\<lparr>
               RS_AtToneMET := \<lparr>Seconds = CFE_MISSION_TIME_DEF_MET_SECS,
                 Subseconds = CFE_TIME_Micro2SubSecs CFE_MISSION_TIME_DEF_MET_SUBS\<rparr>,
               RS_AtToneSTCF := \<lparr>Seconds = CFE_MISSION_TIME_DEF_STCF_SECS,
                 Subseconds = CFE_TIME_Micro2SubSecs CFE_MISSION_TIME_DEF_STCF_SUBS\<rparr>,
               RS_AtToneLeapSeconds := CFE_MISSION_TIME_DEF_LEAPS, RS_AtToneDelay := zero_time\<rparr>) g)
            \<lparr>ClockSignal := CFE_TIME_ToneSignalSelect_PRIMARY,
             DataStoreStatus := (if ResetArea g = None then CFE_TIME_RESET_AREA_BAD else CFE_TIME_RESET_AREA_NEW)\<rparr>)"

definition CFE_TIME_UpdateResetVars :: "Reference_t \<Rightarrow> time_global \<Rightarrow> time_global" where
  "CFE_TIME_UpdateResetVars Reference g =
     (if DataStoreStatus g \<noteq> CFE_TIME_RESET_AREA_ERROR \<and> ResetArea g \<noteq> None
      then g\<lparr>ResetArea := Some
             \<lparr>RV_Signature = CFE_TIME_RESET_SIGNATURE, RV_LeapSeconds = R_AtToneLeapSeconds Reference,
              RV_ClockSignal = ClockSignal g, RV_CurrentMET = R_CurrentMET Reference,
              RV_CurrentSTCF = R_AtToneSTCF Reference, RV_CurrentDelay = R_AtToneDelay Reference\<rparr>\<rparr>
      else g)"

text \<open>The global data when it is cleared: the platform's reset area and the traces are not part of it.\<close>

definition cleared_state :: "ReferenceState_t" where
  "cleared_state = \<lparr>StateVersion = 0, RS_AtToneLeapSeconds = 0, RS_ClockSetState = 0, RS_ClockFlyState = 0,
     RS_DelayDirection = 0, RS_AtToneMET = zero_time, RS_AtToneSTCF = zero_time, RS_AtToneDelay = zero_time,
     RS_AtToneLatch = zero_time\<rparr>"

definition cleared_global :: "ResetVars_t option \<Rightarrow> time_global" where
  "cleared_global area =
     \<lparr>T_CommandCounter = 0, T_CommandErrorCounter = 0, ClockSource = 0, ClockSignal = 0, ServerFlyState = 0,
      PendingMET = zero_time, PendingSTCF = zero_time, PendingLeaps = 0, PendingState = 0,
      OneTimeAdjust = zero_time, OneHzAdjust = zero_time, OneTimeDirection = 0, OneHzDirection = 0,
      ToneSignalLatch = zero_time, ToneDataLatch = zero_time,
      ToneMatchCounter = 0, ToneMatchErrorCounter = 0, ToneSignalCounter = 0, ToneDataCounter = 0,
      ToneIntCounter = 0, ToneIntErrorCounter = 0, ToneTaskCounter = 0, VirtualMET = 0,
      LocalIntCounter = 0, LocalTaskCounter = 0, InternalCount = 0, ExternalCount = 0,
      ReferenceState = replicate 4 cleared_state, LastVersionCounter = 0, ResetVersionCounter = 0,
      MinElapsed = 0, MaxElapsed = 0, MaxLocalClock = zero_time, Forced2Fly = False, AutoStartFly = False,
      IsToneGood = False, GetReferenceFail = False, ToneOverLimit = 0, ToneUnderLimit = 0, DataStoreStatus = 0,
      SynchCallback = replicate CFE_PLATFORM_ES_MAX_APPLICATIONS None, PrevTime1 = zero_time, PrevTime2 = zero_time, ResetArea = area,
      ToneSemaphore = False, LocalSemaphore = False, TimeSent = [], TimeEvents = [], CallbacksRun = []\<rparr>"

definition CFE_TIME_InitData :: "ResetVars_t option \<Rightarrow> OS_time \<Rightarrow> time_global" where
  "CFE_TIME_InitData area now =
     (let g0 = cleared_global area;
          g1 = g0\<lparr>ReferenceState := map (\<lambda>r. r\<lparr>StateVersion := 0xFFFFFFFF\<rparr>) (ReferenceState g0)\<rparr>;
          g2 = CFE_TIME_QueryResetVars g1;
          g3 = update_reference (\<lambda>r. r\<lparr>RS_AtToneLatch := CFE_TIME_LatchClock now,
                 RS_ClockSetState := CFE_TIME_SetState_NOT_SET, RS_ClockFlyState := CFE_TIME_FlywheelState_IS_FLY,
                 RS_DelayDirection := CFE_TIME_AdjustDirection_ADD\<rparr>) g2
      in g3\<lparr>ClockSource := CFE_TIME_SourceSelect_INTERNAL,
            ServerFlyState := CFE_TIME_FlywheelState_IS_FLY,
            PendingState := CFE_TIME_ClockState_INVALID,
            OneTimeDirection := CFE_TIME_AdjustDirection_ADD,
            OneHzDirection := CFE_TIME_AdjustDirection_ADD,
            VirtualMET := Seconds (RS_AtToneMET (CFE_TIME_GetReferenceState g2)),
            MinElapsed := CFE_TIME_Micro2SubSecs CFE_MISSION_TIME_MIN_ELAPSED,
            MaxElapsed := CFE_TIME_Micro2SubSecs CFE_MISSION_TIME_MAX_ELAPSED,
            MaxLocalClock := \<lparr>Seconds = CFE_PLATFORM_TIME_MAX_LOCAL_SECS,
              Subseconds = CFE_PLATFORM_TIME_MAX_LOCAL_SUBS\<rparr>,
            ToneOverLimit := CFE_TIME_Micro2SubSecs CFE_PLATFORM_TIME_CFG_TONE_LIMIT,
            ToneUnderLimit := CFE_TIME_Micro2SubSecs (1000000 - CFE_PLATFORM_TIME_CFG_TONE_LIMIT)\<rparr>)"

subsection \<open>Synchronization callbacks\<close>

text \<open>
  A callback is a function pointer that is not null. The caller is given by what \<open>CFE_ES_GetAppID\<close> and then
  \<open>CFE_ES_AppID_ToIndex\<close> return: an error or the index of the application.
\<close>

definition CFE_TIME_RegisterSynchCallback ::
  "CFE_Status + nat \<Rightarrow> nat option \<Rightarrow> time_global \<Rightarrow> CFE_Status \<times> time_global" where
  "CFE_TIME_RegisterSynchCallback caller CallbackFuncPtr g =
     (if CallbackFuncPtr = None then (CFE_TIME_BAD_ARGUMENT, g)
      else case caller of
             Inl Status \<Rightarrow> (Status, g)
           | Inr AppIndex \<Rightarrow>
               if length (SynchCallback g) \<le> AppIndex \<or> SynchCallback g ! AppIndex \<noteq> None
               then (CFE_TIME_TOO_MANY_SYNCH_CALLBACKS, g)
               else (CFE_SUCCESS, g\<lparr>SynchCallback := (SynchCallback g)[AppIndex := CallbackFuncPtr]\<rparr>))"

definition CFE_TIME_UnregisterSynchCallback ::
  "CFE_Status + nat \<Rightarrow> nat option \<Rightarrow> time_global \<Rightarrow> CFE_Status \<times> time_global" where
  "CFE_TIME_UnregisterSynchCallback caller CallbackFuncPtr g =
     (if CallbackFuncPtr = None then (CFE_TIME_BAD_ARGUMENT, g)
      else case caller of
             Inl Status \<Rightarrow> (Status, g)
           | Inr AppIndex \<Rightarrow>
               if length (SynchCallback g) \<le> AppIndex \<or> SynchCallback g ! AppIndex \<noteq> CallbackFuncPtr
               then (CFE_TIME_CALLBACK_NOT_REGISTERED, g)
               else (CFE_SUCCESS, g\<lparr>SynchCallback := (SynchCallback g)[AppIndex := None]\<rparr>))"

definition CFE_TIME_CleanUpApp :: "CFE_Status + nat \<Rightarrow> time_global \<Rightarrow> CFE_Status \<times> time_global" where
  "CFE_TIME_CleanUpApp app g =
     (case app of
        Inl Status \<Rightarrow> (Status, g)
      | Inr AppIndex \<Rightarrow>
          if AppIndex < length (SynchCallback g)
          then (CFE_SUCCESS, g\<lparr>SynchCallback := (SynchCallback g)[AppIndex := None]\<rparr>)
          else (CFE_TIME_CALLBACK_NOT_REGISTERED, g))"

definition CFE_TIME_NotifyTimeSynchApps :: "time_global \<Rightarrow> time_global" where
  "CFE_TIME_NotifyTimeSynchApps g =
     (if IsToneGood g
      then g\<lparr>CallbacksRun := CallbacksRun g @ map the (filter (\<lambda>f. f \<noteq> None) (SynchCallback g))\<rparr>
      else g)"

subsection \<open>The time at the tone\<close>

definition CFE_TIME_ToneSend :: "OS_time \<Rightarrow> time_global \<Rightarrow> time_global" where
  "CFE_TIME_ToneSend now g =
     (case get_reference now g of (Reference, g1) \<Rightarrow>
        let NewMET = \<lparr>Seconds = (if R_ClockFlyState Reference = CFE_TIME_FlywheelState_IS_FLY
                                 then Seconds (R_CurrentMET Reference) else VirtualMET g1),
                      Subseconds = 0\<rparr>;
            g2 = time_send (ToneDataMsg
                   \<lparr>TD_AtToneMET = NewMET, TD_AtToneSTCF = R_AtToneSTCF Reference,
                    TD_AtToneLeapSeconds = R_AtToneLeapSeconds Reference,
                    TD_AtToneState = CFE_TIME_CalculateState Reference\<rparr>) g1
        in g2\<lparr>InternalCount := InternalCount g2 + 1\<rparr>)"

definition CFE_TIME_ToneUpdate :: "OS_time \<Rightarrow> time_global \<Rightarrow> time_global" where
  "CFE_TIME_ToneUpdate now g =
     (case get_reference now g of (Reference, g1) \<Rightarrow>
        case CFE_TIME_StartReferenceUpdate g1 of (NextState, g2) \<Rightarrow>
        let g3 = upd_ref NextState (\<lambda>r. r\<lparr>RS_AtToneLatch := ToneSignalLatch g2\<rparr>) g2;
            flying = (RS_ClockFlyState (ReferenceState g3 ! NextState) = CFE_TIME_FlywheelState_IS_FLY);
            g4 = (if ClockSource g3 = CFE_TIME_SourceSelect_INTERNAL
                  then let g' = (if flying then g3\<lparr>VirtualMET := Seconds (R_CurrentMET Reference)\<rparr> else g3)
                    in upd_ref NextState (\<lambda>r. r\<lparr>RS_AtToneMET := \<lparr>Seconds = VirtualMET g', Subseconds = 0\<rparr>\<rparr>) g'
                  else g3);
            g5 = (if flying
                  then (upd_ref NextState (\<lambda>r. r\<lparr>RS_ClockFlyState := CFE_TIME_FlywheelState_NO_FLY\<rparr>) g4)
                         \<lparr>ServerFlyState := CFE_TIME_FlywheelState_NO_FLY\<rparr>
                  else g4);
            g6 = CFE_TIME_FinishReferenceUpdate NextState g5
        in if flying then time_event CFE_TIME_FLY_OFF_EID g6 else g6)"

definition CFE_TIME_ToneVerify ::
  "CFE_TIME_SysTime \<Rightarrow> CFE_TIME_SysTime \<Rightarrow> OS_time \<Rightarrow> time_global \<Rightarrow> time_global" where
  "CFE_TIME_ToneVerify Time1 Time2 now g =
     (let mismatch = g\<lparr>ToneMatchErrorCounter := ToneMatchErrorCounter g + 1\<rparr>;
          g1 = (if CFE_TIME_Compare (PrevTime1 g) Time1 = CFE_TIME_EQUAL then mismatch
                else if CFE_TIME_Compare (PrevTime2 g) Time2 = CFE_TIME_EQUAL then mismatch
                else
                  let elapsed = (if CFE_TIME_Compare Time1 Time2 = CFE_TIME_A_GT_B
                                 then CFE_TIME_Add (CFE_TIME_Subtract (MaxLocalClock g) Time1) Time2
                                 else CFE_TIME_Subtract Time2 Time1)
                  in if Seconds elapsed \<noteq> 0 \<or> Subseconds elapsed < MinElapsed g \<or> Subseconds elapsed > MaxElapsed g
                     then mismatch
                     else
                       let g' = g\<lparr>ToneMatchCounter := ToneMatchCounter g + 1\<rparr>
                       in if \<not> Forced2Fly g' then CFE_TIME_ToneUpdate now g' else g')
      in g1\<lparr>PrevTime1 := Time1, PrevTime2 := Time2\<rparr>)"

definition CFE_TIME_ToneData :: "ToneDataCmd_Payload \<Rightarrow> OS_time \<Rightarrow> time_global \<Rightarrow> time_global" where
  "CFE_TIME_ToneData d now g =
     (let g1 = g\<lparr>ToneDataLatch := CFE_TIME_LatchClock now, PendingMET := TD_AtToneMET d,
                 PendingSTCF := TD_AtToneSTCF d, PendingLeaps := TD_AtToneLeapSeconds d,
                 PendingState := TD_AtToneState d\<rparr>;
          g2 = CFE_TIME_ToneVerify (ToneSignalLatch g1) (ToneDataLatch g1) now g1
      in g2\<lparr>ToneDataCounter := ToneDataCounter g2 + 1\<rparr>)"

definition CFE_TIME_ToneSignal :: "time_global \<Rightarrow> time_global" where
  "CFE_TIME_ToneSignal g = g\<lparr>ToneSignalCounter := ToneSignalCounter g + 1\<rparr>"

definition CFE_TIME_Tone1HzISR :: "OS_time \<Rightarrow> time_global \<Rightarrow> time_global" where
  "CFE_TIME_Tone1HzISR now g =
     (let latch = CFE_TIME_LatchClock now;
          Elapsed = elapsed_since g (ToneSignalLatch g) latch;
          g1 = (if Seconds Elapsed = 1 \<and> Subseconds Elapsed < ToneOverLimit g
                   \<or> Seconds Elapsed = 0 \<and> Subseconds Elapsed > ToneUnderLimit g
                then g\<lparr>ToneIntCounter := ToneIntCounter g + 1, IsToneGood := True,
                       VirtualMET := VirtualMET g + 1, ToneSemaphore := True\<rparr>
                else g\<lparr>ToneIntErrorCounter := ToneIntErrorCounter g + 1, IsToneGood := False\<rparr>)
      in CFE_TIME_NotifyTimeSynchApps (g1\<lparr>ToneSignalLatch := latch\<rparr>))"

text \<open>One turn of the tone task; \<open>None\<close> while its semaphore is not given.\<close>

definition CFE_TIME_Tone1HzTask :: "time_global \<Rightarrow> time_global option" where
  "CFE_TIME_Tone1HzTask g =
     (if ToneSemaphore g
      then let g1 = time_send ToneSendMsg (time_send ToneSignalMsg (g\<lparr>ToneSemaphore := False\<rparr>))
        in Some (g1\<lparr>ToneTaskCounter := ToneTaskCounter g1 + 1\<rparr>)
      else None)"

subsection \<open>The 1 Hz state machine\<close>

definition CFE_TIME_Local1HzISR :: "time_global \<Rightarrow> time_global" where
  "CFE_TIME_Local1HzISR g = g\<lparr>LocalIntCounter := LocalIntCounter g + 1, LocalSemaphore := True\<rparr>"

definition CFE_TIME_Local1HzTask :: "time_global \<Rightarrow> time_global option" where
  "CFE_TIME_Local1HzTask g =
     (if LocalSemaphore g
      then let g1 = g\<lparr>LocalSemaphore := False\<rparr>;
               g2 = (if AutoStartFly g1 then time_event CFE_TIME_FLY_ON_EID (g1\<lparr>AutoStartFly := False\<rparr>) else g1);
               g3 = time_send LocalOneHzMsg g2
        in Some (g3\<lparr>LocalTaskCounter := LocalTaskCounter g3 + 1\<rparr>)
      else None)"

definition CFE_TIME_Local1HzStateMachine :: "OS_time \<Rightarrow> time_global \<Rightarrow> time_global" where
  "CFE_TIME_Local1HzStateMachine now g =
     (let g1 = (if Seconds (OneHzAdjust g) \<noteq> 0 \<or> Subseconds (OneHzAdjust g) \<noteq> 0
                then update_reference (\<lambda>r. r\<lparr>RS_AtToneSTCF :=
                       (if OneHzDirection g = CFE_TIME_AdjustDirection_ADD
                        then CFE_TIME_Add (RS_AtToneSTCF r) (OneHzAdjust g)
                        else CFE_TIME_Subtract (RS_AtToneSTCF r) (OneHzAdjust g))\<rparr>) g
                else g)
      in case get_reference now g1 of (Reference, g2) \<Rightarrow>
        let g3 = (if R_ClockFlyState Reference = CFE_TIME_FlywheelState_NO_FLY
                     \<and> Seconds (R_TimeSinceTone Reference) \<ge> CFE_PLATFORM_TIME_CFG_START_FLY
                  then (update_reference (\<lambda>r. r\<lparr>RS_ClockFlyState := CFE_TIME_FlywheelState_IS_FLY\<rparr>) g2)
                         \<lparr>ServerFlyState := CFE_TIME_FlywheelState_IS_FLY, AutoStartFly := True\<rparr>
                  else g2)
        in if R_ClockFlyState Reference = CFE_TIME_FlywheelState_IS_FLY
              \<and> Seconds (R_TimeSinceTone Reference) \<ge> CFE_PLATFORM_TIME_CFG_LATCH_FLY
           then update_reference (\<lambda>r. r\<lparr>RS_AtToneMET := R_CurrentMET Reference,
                  RS_AtToneLatch := R_CurrentLatch Reference\<rparr>) g3
           else g3)"

end
