(* ===== verification/Time_Task.thy ===== *)
theory Time_Task
  imports Time_Tone
begin

section \<open>Time service: the commands of the task\<close>

text \<open>
  The handlers of \<open>cfe_time_task.c\<close>, apart from the two that only fill and send telemetry. The commands
  that the configuration disables count as errors. A handler always returns success.
\<close>

definition command_done :: "CFE_TIME_Event \<Rightarrow> time_global \<Rightarrow> time_global" where
  "command_done e g = time_event e (g\<lparr>T_CommandCounter := T_CommandCounter g + 1\<rparr>)"

definition command_failed :: "CFE_TIME_Event \<Rightarrow> time_global \<Rightarrow> time_global" where
  "command_failed e g = time_event e (g\<lparr>T_CommandErrorCounter := T_CommandErrorCounter g + 1\<rparr>)"

definition CFE_TIME_ToneSignalCmd :: "time_global \<Rightarrow> time_global" where
  "CFE_TIME_ToneSignalCmd = CFE_TIME_ToneSignal"

definition CFE_TIME_ToneDataCmd :: "ToneDataCmd_Payload \<Rightarrow> OS_time \<Rightarrow> time_global \<Rightarrow> time_global" where
  "CFE_TIME_ToneDataCmd d = CFE_TIME_ToneData d"

text \<open>The local time is read twice: by the state machine and by the simulated tone interrupt.\<close>

definition CFE_TIME_OneHzCmd :: "OS_time \<Rightarrow> OS_time \<Rightarrow> time_global \<Rightarrow> time_global" where
  "CFE_TIME_OneHzCmd now now' g = CFE_TIME_Tone1HzISR now' (CFE_TIME_Local1HzStateMachine now g)"

definition CFE_TIME_ToneSendCmd :: "OS_time \<Rightarrow> time_global \<Rightarrow> time_global" where
  "CFE_TIME_ToneSendCmd = CFE_TIME_ToneSend"

definition CFE_TIME_NoopCmd :: "time_global \<Rightarrow> time_global" where
  "CFE_TIME_NoopCmd = command_done CFE_TIME_NOOP_EID"

definition CFE_TIME_ResetCountersCmd :: "time_global \<Rightarrow> time_global" where
  "CFE_TIME_ResetCountersCmd g = time_event CFE_TIME_RESET_EID
     (g\<lparr>T_CommandCounter := 0, T_CommandErrorCounter := 0, ToneMatchCounter := 0, ToneMatchErrorCounter := 0,
        ToneSignalCounter := 0, ToneDataCounter := 0, ToneIntCounter := 0, ToneIntErrorCounter := 0,
        ToneTaskCounter := 0, ResetVersionCounter := LastVersionCounter g, LocalIntCounter := 0,
        LocalTaskCounter := 0, InternalCount := 0, ExternalCount := 0\<rparr>)"

definition CFE_TIME_SetStateCmd :: "int16 \<Rightarrow> time_global \<Rightarrow> time_global" where
  "CFE_TIME_SetStateCmd ClockState g =
     (if ClockState = CFE_TIME_ClockState_INVALID \<or> ClockState = CFE_TIME_ClockState_VALID
         \<or> ClockState = CFE_TIME_ClockState_FLYWHEEL
      then command_done CFE_TIME_STATE_EID (CFE_TIME_SetState ClockState g)
      else command_failed CFE_TIME_STATE_ERR_EID g)"

definition CFE_TIME_SetSourceCmd :: "int16 \<Rightarrow> time_global \<Rightarrow> time_global" where
  "CFE_TIME_SetSourceCmd TimeSource g =
     (if TimeSource = CFE_TIME_SourceSelect_INTERNAL \<or> TimeSource = CFE_TIME_SourceSelect_EXTERNAL
      then command_failed CFE_TIME_SOURCE_CFG_EID g else command_failed CFE_TIME_SOURCE_ERR_EID g)"

definition CFE_TIME_SetSignalCmd :: "int16 \<Rightarrow> time_global \<Rightarrow> time_global" where
  "CFE_TIME_SetSignalCmd ToneSource g =
     (if ToneSource = CFE_TIME_ToneSignalSelect_PRIMARY \<or> ToneSource = CFE_TIME_ToneSignalSelect_REDUNDANT
      then command_failed CFE_TIME_SIGNAL_CFG_EID g else command_failed CFE_TIME_SIGNAL_ERR_EID g)"

definition CFE_TIME_SetDelayImpl :: "uint32 \<Rightarrow> time_global \<Rightarrow> time_global" where
  "CFE_TIME_SetDelayImpl MicroSeconds g =
     (if MicroSeconds < 1000000 then command_failed CFE_TIME_DELAY_CFG_EID g
      else command_failed CFE_TIME_DELAY_ERR_EID g)"

definition command_time :: "uint32 \<Rightarrow> uint32 \<Rightarrow> CFE_TIME_SysTime" where
  "command_time secs MicroSeconds = \<lparr>Seconds = secs, Subseconds = CFE_TIME_Micro2SubSecs MicroSeconds\<rparr>"

definition CFE_TIME_SetTimeCmd :: "uint32 \<Rightarrow> uint32 \<Rightarrow> OS_time \<Rightarrow> time_global \<Rightarrow> time_global" where
  "CFE_TIME_SetTimeCmd secs MicroSeconds now g =
     (if MicroSeconds < 1000000
      then command_done CFE_TIME_TIME_EID (CFE_TIME_SetTime (command_time secs MicroSeconds) now g)
      else command_failed CFE_TIME_TIME_ERR_EID g)"

definition CFE_TIME_SetMETCmd :: "uint32 \<Rightarrow> uint32 \<Rightarrow> OS_time \<Rightarrow> time_global \<Rightarrow> time_global" where
  "CFE_TIME_SetMETCmd secs MicroSeconds now g =
     (if MicroSeconds < 1000000
      then command_done CFE_TIME_MET_EID (CFE_TIME_SetMET (command_time secs MicroSeconds) now g)
      else command_failed CFE_TIME_MET_ERR_EID g)"

definition CFE_TIME_SetSTCFCmd :: "uint32 \<Rightarrow> uint32 \<Rightarrow> time_global \<Rightarrow> time_global" where
  "CFE_TIME_SetSTCFCmd secs MicroSeconds g =
     (if MicroSeconds < 1000000
      then command_done CFE_TIME_STCF_EID (CFE_TIME_SetSTCF (command_time secs MicroSeconds) g)
      else command_failed CFE_TIME_STCF_ERR_EID g)"

definition CFE_TIME_SetLeapSecondsCmd :: "int16 \<Rightarrow> time_global \<Rightarrow> time_global" where
  "CFE_TIME_SetLeapSecondsCmd LeapSeconds g =
     command_done CFE_TIME_LEAPS_EID (CFE_TIME_SetLeapSeconds LeapSeconds g)"

definition CFE_TIME_AdjustImpl :: "uint32 \<Rightarrow> uint32 \<Rightarrow> int16 \<Rightarrow> time_global \<Rightarrow> time_global" where
  "CFE_TIME_AdjustImpl secs MicroSeconds Direction g =
     (if MicroSeconds < 1000000
      then command_done CFE_TIME_DELTA_EID (CFE_TIME_SetAdjust (command_time secs MicroSeconds) Direction g)
      else command_failed CFE_TIME_DELTA_ERR_EID g)"

definition CFE_TIME_AddAdjustCmd :: "uint32 \<Rightarrow> uint32 \<Rightarrow> time_global \<Rightarrow> time_global" where
  "CFE_TIME_AddAdjustCmd secs MicroSeconds = CFE_TIME_AdjustImpl secs MicroSeconds CFE_TIME_AdjustDirection_ADD"

definition CFE_TIME_SubAdjustCmd :: "uint32 \<Rightarrow> uint32 \<Rightarrow> time_global \<Rightarrow> time_global" where
  "CFE_TIME_SubAdjustCmd secs MicroSeconds = CFE_TIME_AdjustImpl secs MicroSeconds CFE_TIME_AdjustDirection_SUBTRACT"

definition CFE_TIME_1HzAdjImpl :: "CFE_TIME_SysTime \<Rightarrow> int16 \<Rightarrow> time_global \<Rightarrow> time_global" where
  "CFE_TIME_1HzAdjImpl Adjust Direction g =
     command_done CFE_TIME_ONEHZ_EID (CFE_TIME_Set1HzAdj Adjust Direction g)"

definition CFE_TIME_AddOneHzAdjustmentCmd :: "CFE_TIME_SysTime \<Rightarrow> time_global \<Rightarrow> time_global" where
  "CFE_TIME_AddOneHzAdjustmentCmd Adjust = CFE_TIME_1HzAdjImpl Adjust CFE_TIME_AdjustDirection_ADD"

definition CFE_TIME_SubOneHzAdjustmentCmd :: "CFE_TIME_SysTime \<Rightarrow> time_global \<Rightarrow> time_global" where
  "CFE_TIME_SubOneHzAdjustmentCmd Adjust = CFE_TIME_1HzAdjImpl Adjust CFE_TIME_AdjustDirection_SUBTRACT"

subsection \<open>The time service as a whole\<close>

text \<open>
  The steps of the time service: the interrupts, one turn of each child task, each handler of the task, and
  the calls of applications. \<open>time_reach\<close> are the states that come after start-up. A message handled need
  not be one that the service sent: any application may send the data of a tone.
\<close>

inductive time_step :: "time_global \<Rightarrow> time_global \<Rightarrow> bool" where
  local_isr: "time_step g (CFE_TIME_Local1HzISR g)"
| local_task: "CFE_TIME_Local1HzTask g = Some g' \<Longrightarrow> time_step g g'"
| tone_task: "CFE_TIME_Tone1HzTask g = Some g' \<Longrightarrow> time_step g g'"
| external_tone: "time_step g (CFE_TIME_Tone1HzISR now g)"
| tone_signal: "time_step g (CFE_TIME_ToneSignalCmd g)"
| tone_data: "time_step g (CFE_TIME_ToneDataCmd d now g)"
| one_hz: "time_step g (CFE_TIME_OneHzCmd now now' g)"
| tone_send: "time_step g (CFE_TIME_ToneSendCmd now g)"
| send_hk: "get_reference now g = (R, g1) \<Longrightarrow> time_step g (CFE_TIME_UpdateResetVars R g1)"
| noop: "time_step g (CFE_TIME_NoopCmd g)"
| reset_counters: "time_step g (CFE_TIME_ResetCountersCmd g)"
| set_state: "time_step g (CFE_TIME_SetStateCmd s g)"
| set_source: "time_step g (CFE_TIME_SetSourceCmd s g)"
| set_signal: "time_step g (CFE_TIME_SetSignalCmd s g)"
| set_delay: "time_step g (CFE_TIME_SetDelayImpl us g)"
| set_time: "time_step g (CFE_TIME_SetTimeCmd secs us now g)"
| set_met: "time_step g (CFE_TIME_SetMETCmd secs us now g)"
| set_stcf: "time_step g (CFE_TIME_SetSTCFCmd secs us g)"
| set_leaps: "time_step g (CFE_TIME_SetLeapSecondsCmd leaps g)"
| add_adjust: "time_step g (CFE_TIME_AddAdjustCmd secs us g)"
| sub_adjust: "time_step g (CFE_TIME_SubAdjustCmd secs us g)"
| add_onehz: "time_step g (CFE_TIME_AddOneHzAdjustmentCmd a g)"
| sub_onehz: "time_step g (CFE_TIME_SubOneHzAdjustmentCmd a g)"
| register: "CFE_TIME_RegisterSynchCallback caller f g = (st, g') \<Longrightarrow> time_step g g'"
| unregister: "CFE_TIME_UnregisterSynchCallback caller f g = (st, g') \<Longrightarrow> time_step g g'"
| clean_up: "CFE_TIME_CleanUpApp app g = (st, g') \<Longrightarrow> time_step g g'"

inductive time_reach :: "time_global \<Rightarrow> bool" where
  init: "time_reach (CFE_TIME_InitData area now)"
| step: "time_reach g \<Longrightarrow> time_step g g' \<Longrightarrow> time_reach g'"

text \<open>What holds in every state: the reference data is whole, and the start-up values that nothing changes.\<close>

definition time_inv :: "time_global \<Rightarrow> bool" where
  "time_inv g \<longleftrightarrow> ref_ok False g \<and> ClockSource g = CFE_TIME_SourceSelect_INTERNAL
     \<and> MinElapsed g = CFE_TIME_Micro2SubSecs CFE_MISSION_TIME_MIN_ELAPSED
     \<and> MaxElapsed g = CFE_TIME_Micro2SubSecs CFE_MISSION_TIME_MAX_ELAPSED
     \<and> MaxLocalClock g = \<lparr>Seconds = CFE_PLATFORM_TIME_MAX_LOCAL_SECS, Subseconds = CFE_PLATFORM_TIME_MAX_LOCAL_SUBS\<rparr>
     \<and> ToneOverLimit g = CFE_TIME_Micro2SubSecs CFE_PLATFORM_TIME_CFG_TONE_LIMIT
     \<and> ToneUnderLimit g = CFE_TIME_Micro2SubSecs (1000000 - CFE_PLATFORM_TIME_CFG_TONE_LIMIT)
     \<and> length (SynchCallback g) = CFE_PLATFORM_ES_MAX_APPLICATIONS \<and> \<not> GetReferenceFail g
     \<and> RS_ClockFlyState (CFE_TIME_GetReferenceState g) \<in> {CFE_TIME_FlywheelState_NO_FLY, CFE_TIME_FlywheelState_IS_FLY}"

end
