(* ===== verification/Time_Inv.thy ===== *)
theory Time_Inv
  imports Time_Task
begin

section \<open>Time service: the invariant, and what the handlers compute\<close>

lemma time_invD:
  assumes "time_inv g"
  shows "ref_ok False g" "ClockSource g = CFE_TIME_SourceSelect_INTERNAL" "\<not> GetReferenceFail g"
    "MaxLocalClock g = \<lparr>Seconds = CFE_PLATFORM_TIME_MAX_LOCAL_SECS, Subseconds = CFE_PLATFORM_TIME_MAX_LOCAL_SUBS\<rparr>"
  using assms by (simp_all add: time_inv_def)

text \<open>The fields of the invariant besides the reference data.\<close>

definition time_conf :: "time_global \<Rightarrow> int16 \<times> uint32 \<times> uint32 \<times> CFE_TIME_SysTime \<times> uint32 \<times> uint32 \<times> nat \<times> bool" where
  "time_conf g = (ClockSource g, MinElapsed g, MaxElapsed g, MaxLocalClock g, ToneOverLimit g, ToneUnderLimit g,
     length (SynchCallback g), GetReferenceFail g)"

definition refs_of :: "time_global \<Rightarrow> ReferenceState_t list \<times> uint32" where
  "refs_of g = (ReferenceState g, LastVersionCounter g)"

lemma ref_ok_cong: "refs_of g' = refs_of g \<Longrightarrow> ref_ok b g' = ref_ok b g"
  by (simp add: refs_of_def ref_ok_def CFE_TIME_GetReferenceState_def)

abbreviation fly_flag :: "ReferenceState_t \<Rightarrow> bool" where
  "fly_flag r \<equiv> RS_ClockFlyState r \<in> {CFE_TIME_FlywheelState_NO_FLY, CFE_TIME_FlywheelState_IS_FLY}"

lemma time_inv_cong:
  "time_conf g' = time_conf g \<Longrightarrow> ref_ok False g' \<Longrightarrow> fly_flag (CFE_TIME_GetReferenceState g') \<Longrightarrow> time_inv g \<Longrightarrow> time_inv g'"
  by (simp add: time_inv_def time_conf_def)

lemma get_reference_state: "time_inv g \<Longrightarrow> get_reference now g = (R, g1) \<Longrightarrow> g1 = g"
  using get_reference_idle [of g now] by (simp add: time_inv_def Let_def)

lemma update_fields:
  "time_conf (update_reference f g) = time_conf g" "VirtualMET (update_reference f g) = VirtualMET g"
  by (simp_all add: update_reference_def start_update Let_def upd_ref_def
      CFE_TIME_FinishReferenceUpdate_def time_conf_def)

lemma time_inv_update:
  assumes "time_inv g" "\<And>r. StateVersion (f r) = StateVersion r" "\<And>r. fly_flag r \<Longrightarrow> fly_flag (f r)"
  shows "time_inv (update_reference f g)"
proof (rule time_inv_cong [OF update_fields(1) update_reference_idle(1) [OF time_invD(1) [OF assms(1)] assms(2)] _ assms(1)])
  have "fly_flag (CFE_TIME_GetReferenceState g)" using assms(1) by (simp add: time_inv_def)
  then show "fly_flag (CFE_TIME_GetReferenceState (update_reference f g))"
    unfolding update_reference_idle(2) [OF time_invD(1) [OF assms(1)] assms(2)] by (intro assms(3)) simp
qed

text \<open>The update at the tone as one update of the reference data.\<close>

lemma tone_update_idle:
  fixes now :: OS_time and g :: time_global
  assumes "time_inv g"
  defines "S \<equiv> CFE_TIME_GetReferenceState g"
  defines "flying \<equiv> RS_ClockFlyState S = CFE_TIME_FlywheelState_IS_FLY"
  defines "met \<equiv> (if flying then Seconds (R_CurrentMET (fst (get_reference now g))) else VirtualMET g)"
  shows "CFE_TIME_ToneUpdate now g =
    (let g1 = (update_reference (\<lambda>r. r\<lparr>RS_AtToneLatch := ToneSignalLatch g,
                 RS_AtToneMET := \<lparr>Seconds = met, Subseconds = 0\<rparr>,
                 RS_ClockFlyState := (if flying then CFE_TIME_FlywheelState_NO_FLY else RS_ClockFlyState r)\<rparr>) g)
               \<lparr>VirtualMET := met\<rparr>
     in if flying then time_event CFE_TIME_FLY_OFF_EID (g1\<lparr>ServerFlyState := CFE_TIME_FlywheelState_NO_FLY\<rparr>) else g1)"
proof -
  have len: "length (ReferenceState g) = 4" using assms(1) by (simp add: time_inv_def ref_ok_def)
  obtain R where R: "get_reference now g = (R, g)"
    using get_reference_state [OF assms(1)] by (metis surj_pair)
  show ?thesis
    using time_invD(2) [OF assms(1)] len
    by (simp add: CFE_TIME_ToneUpdate_def R update_reference_def start_update Let_def
        CFE_TIME_FinishReferenceUpdate_def upd_ref_def S_def flying_def met_def CFE_TIME_GetReferenceState_def time_event_def)
qed

subsection \<open>Every step keeps the invariant\<close>

lemma time_inv_fields [simp]:
  "time_inv (time_event e g) = time_inv g" "time_inv (time_send m g) = time_inv g"
  "time_inv (command_done e g) = time_inv g" "time_inv (command_failed e g) = time_inv g"
  "time_inv (g\<lparr>VirtualMET := v\<rparr>) = time_inv g" "time_inv (g\<lparr>ServerFlyState := i\<rparr>) = time_inv g"
  "time_inv (g\<lparr>Forced2Fly := b\<rparr>) = time_inv g" "time_inv (g\<lparr>AutoStartFly := b\<rparr>) = time_inv g"
  "time_inv (g\<lparr>OneTimeAdjust := t\<rparr>) = time_inv g" "time_inv (g\<lparr>OneTimeDirection := i\<rparr>) = time_inv g"
  "time_inv (g\<lparr>OneHzAdjust := t\<rparr>) = time_inv g" "time_inv (g\<lparr>OneHzDirection := i\<rparr>) = time_inv g"
  "time_inv (g\<lparr>ToneMatchCounter := c\<rparr>) = time_inv g" "time_inv (g\<lparr>ToneMatchErrorCounter := c\<rparr>) = time_inv g"
  "time_inv (g\<lparr>ToneSignalCounter := c\<rparr>) = time_inv g" "time_inv (g\<lparr>ToneDataCounter := c\<rparr>) = time_inv g"
  "time_inv (g\<lparr>ToneIntCounter := c\<rparr>) = time_inv g" "time_inv (g\<lparr>ToneIntErrorCounter := c\<rparr>) = time_inv g"
  "time_inv (g\<lparr>ToneTaskCounter := c\<rparr>) = time_inv g" "time_inv (g\<lparr>InternalCount := c\<rparr>) = time_inv g"
  "time_inv (g\<lparr>LocalIntCounter := c\<rparr>) = time_inv g" "time_inv (g\<lparr>LocalTaskCounter := c\<rparr>) = time_inv g"
  "time_inv (g\<lparr>IsToneGood := b\<rparr>) = time_inv g" "time_inv (g\<lparr>ToneSemaphore := b\<rparr>) = time_inv g"
  "time_inv (g\<lparr>LocalSemaphore := b\<rparr>) = time_inv g" "time_inv (g\<lparr>CallbacksRun := cs\<rparr>) = time_inv g"
  "time_inv (g\<lparr>ToneSignalLatch := t\<rparr>) = time_inv g" "time_inv (g\<lparr>ToneDataLatch := t\<rparr>) = time_inv g"
  "time_inv (g\<lparr>PendingMET := t\<rparr>) = time_inv g" "time_inv (g\<lparr>PendingSTCF := t\<rparr>) = time_inv g"
  "time_inv (g\<lparr>PendingLeaps := i\<rparr>) = time_inv g" "time_inv (g\<lparr>PendingState := i\<rparr>) = time_inv g"
  "time_inv (g\<lparr>PrevTime1 := t\<rparr>) = time_inv g" "time_inv (g\<lparr>PrevTime2 := t\<rparr>) = time_inv g"
  "time_inv (g\<lparr>ResetArea := a\<rparr>) = time_inv g" "time_inv (g\<lparr>TimeSent := ms\<rparr>) = time_inv g"
  "time_inv (g\<lparr>T_CommandCounter := c8\<rparr>) = time_inv g" "time_inv (g\<lparr>T_CommandErrorCounter := c8\<rparr>) = time_inv g"
  "time_inv (g\<lparr>ResetVersionCounter := c\<rparr>) = time_inv g" "time_inv (g\<lparr>ExternalCount := c\<rparr>) = time_inv g"
  by (simp_all add: time_inv_def ref_ok_def CFE_TIME_GetReferenceState_def time_event_def time_send_def
      command_done_def command_failed_def)

lemma tone_update_inv: "time_inv g \<Longrightarrow> time_inv (CFE_TIME_ToneUpdate now g)"
  unfolding tone_update_idle [of g now] by (auto simp: Let_def intro!: time_inv_update)

lemma tone_verify_inv: "time_inv g \<Longrightarrow> time_inv (CFE_TIME_ToneVerify Time1 Time2 now g)"
  by (simp add: CFE_TIME_ToneVerify_def Let_def tone_update_inv)

lemma notify_inv [simp]: "time_inv (CFE_TIME_NotifyTimeSynchApps g) = time_inv g"
  by (simp add: CFE_TIME_NotifyTimeSynchApps_def)

lemma tone_isr_inv: "time_inv g \<Longrightarrow> time_inv (CFE_TIME_Tone1HzISR now g)"
  by (simp add: CFE_TIME_Tone1HzISR_def Let_def)

lemma state_machine_inv:
  assumes "time_inv g"
  shows "time_inv (CFE_TIME_Local1HzStateMachine now g)"
proof -
  define g1 where "g1 = (if Seconds (OneHzAdjust g) \<noteq> 0 \<or> Subseconds (OneHzAdjust g) \<noteq> 0
      then update_reference (\<lambda>r. r\<lparr>RS_AtToneSTCF :=
             (if OneHzDirection g = CFE_TIME_AdjustDirection_ADD
              then CFE_TIME_Add (RS_AtToneSTCF r) (OneHzAdjust g)
              else CFE_TIME_Subtract (RS_AtToneSTCF r) (OneHzAdjust g))\<rparr>) g else g)"
  have i: "time_inv g1" using assms by (auto simp: g1_def intro!: time_inv_update)
  obtain R where R: "get_reference now g1 = (R, g1)" using get_reference_state [OF i] by (metis surj_pair)
  show ?thesis
    unfolding CFE_TIME_Local1HzStateMachine_def g1_def [symmetric] Let_def R prod.case
    using i by (auto intro!: time_inv_update)
qed

lemma get_reference_pair: "time_inv g \<Longrightarrow> get_reference now g = (fst (get_reference now g), g)"
  using get_reference_state [of g now] by (metis prod.collapse)

lemma step_time_inv:
  assumes "time_step g g'" "time_inv g"
  shows "time_inv g'"
  using assms
proof (cases rule: time_step.cases)
  case (send_hk now R)
  then show ?thesis
    using get_reference_state [OF assms(2)] assms(2) by (auto simp: CFE_TIME_UpdateResetVars_def)
next
  case (set_time secs us now)
  then show ?thesis
    using assms(2) get_reference_pair [OF assms(2), of now]
    by (auto simp: CFE_TIME_SetTimeCmd_def CFE_TIME_SetTime_def split: prod.splits intro!: time_inv_update)
next
  case (tone_send now)
  then show ?thesis
    using assms(2) get_reference_pair [OF assms(2), of now]
    by (auto simp: CFE_TIME_ToneSendCmd_def CFE_TIME_ToneSend_def Let_def split: prod.splits)
next
  case (register caller f st)
  then show ?thesis using assms(2)
    by (auto simp: CFE_TIME_RegisterSynchCallback_def time_inv_def ref_ok_def CFE_TIME_GetReferenceState_def
        split: if_splits sum.splits)
next
  case (unregister caller f st)
  then show ?thesis using assms(2)
    by (auto simp: CFE_TIME_UnregisterSynchCallback_def time_inv_def ref_ok_def CFE_TIME_GetReferenceState_def
        split: if_splits sum.splits)
next
  case (clean_up app st)
  then show ?thesis using assms(2)
    by (auto simp: CFE_TIME_CleanUpApp_def time_inv_def ref_ok_def CFE_TIME_GetReferenceState_def
        split: if_splits sum.splits)
qed (auto simp: CFE_TIME_Local1HzISR_def CFE_TIME_Local1HzTask_def CFE_TIME_Tone1HzTask_def CFE_TIME_ToneSignalCmd_def
    CFE_TIME_ToneSignal_def CFE_TIME_ToneDataCmd_def CFE_TIME_ToneData_def CFE_TIME_OneHzCmd_def CFE_TIME_NoopCmd_def
    CFE_TIME_ResetCountersCmd_def CFE_TIME_SetStateCmd_def CFE_TIME_SetState_def CFE_TIME_SetSourceCmd_def
    CFE_TIME_SetSignalCmd_def CFE_TIME_SetDelayImpl_def CFE_TIME_SetMETCmd_def CFE_TIME_SetMET_def
    CFE_TIME_SetSTCFCmd_def CFE_TIME_SetSTCF_def CFE_TIME_SetLeapSecondsCmd_def CFE_TIME_SetLeapSeconds_def
    CFE_TIME_AddAdjustCmd_def CFE_TIME_SubAdjustCmd_def CFE_TIME_AdjustImpl_def CFE_TIME_SetAdjust_def
    CFE_TIME_AddOneHzAdjustmentCmd_def CFE_TIME_SubOneHzAdjustmentCmd_def CFE_TIME_1HzAdjImpl_def CFE_TIME_Set1HzAdj_def
    Let_def tone_isr_inv tone_verify_inv state_machine_inv split: if_splits intro!: time_inv_update)

lemma update_fields_list:
  "length (ReferenceState (update_reference f g)) = length (ReferenceState g)"
  by (simp add: update_reference_def start_update Let_def CFE_TIME_FinishReferenceUpdate_def)

lemma init_inv: "time_inv (CFE_TIME_InitData area now)"
proof -
  define g2 where "g2 = CFE_TIME_QueryResetVars ((cleared_global area)\<lparr>ReferenceState :=
      map (\<lambda>r. r\<lparr>StateVersion := 0xFFFFFFFF\<rparr>) (ReferenceState (cleared_global area))\<rparr>)"
  have len: "length (ReferenceState g2) = 4"
    by (simp add: g2_def CFE_TIME_QueryResetVars_def update_fields_list cleared_global_def split: option.split)
  have conf: "length (SynchCallback g2) = CFE_PLATFORM_ES_MAX_APPLICATIONS" "\<not> GetReferenceFail g2"
    by (simp_all add: g2_def CFE_TIME_QueryResetVars_def cleared_global_def update_reference_def upd_ref_def
        start_update Let_def CFE_TIME_FinishReferenceUpdate_def split: option.split)
  let ?f = "\<lambda>r. r\<lparr>RS_AtToneLatch := CFE_TIME_LatchClock now,
      RS_ClockSetState := CFE_TIME_SetState_NOT_SET, RS_ClockFlyState := CFE_TIME_FlywheelState_IS_FLY,
      RS_DelayDirection := CFE_TIME_AdjustDirection_ADD\<rparr>"
  have "ref_ok False (update_reference ?f g2)" by (rule update_reference_spec(1) [OF len]) simp
  moreover have "RS_ClockFlyState (CFE_TIME_GetReferenceState (update_reference ?f g2)) = CFE_TIME_FlywheelState_IS_FLY"
    by (subst update_reference_spec(2) [OF len]) simp_all
  moreover have "length (SynchCallback (update_reference ?f g2)) = CFE_PLATFORM_ES_MAX_APPLICATIONS"
    "\<not> GetReferenceFail (update_reference ?f g2)"
    using conf update_fields(1) [of ?f g2] by (simp_all add: time_conf_def)
  ultimately show ?thesis
    unfolding CFE_TIME_InitData_def Let_def g2_def [symmetric]
    by (simp add: time_inv_def ref_ok_def CFE_TIME_GetReferenceState_def)
qed

lemma reach_time_inv: "time_reach g \<Longrightarrow> time_inv g"
  by (induction rule: time_reach.induct) (auto intro: init_inv step_time_inv)

subsection \<open>The time that the reference data give\<close>

definition met_at :: "OS_time \<Rightarrow> time_global \<Rightarrow> CFE_TIME_SysTime" where
  "met_at now g = CFE_TIME_Add (elapsed_since g (RS_AtToneLatch (CFE_TIME_GetReferenceState g)) (CFE_TIME_LatchClock now))
     (RS_AtToneMET (CFE_TIME_GetReferenceState g))"

lemma get_met: "time_inv g \<Longrightarrow> CFE_TIME_GetMET now g = (met_at now g, g)"
  using get_reference_idle [OF time_invD(1), of g now] by (simp add: CFE_TIME_GetMET_def met_at_def Let_def)

lemma get_time:
  "time_inv g \<Longrightarrow> CFE_TIME_GetTime now g = (CFE_TIME_Add (met_at now g) (RS_AtToneSTCF (CFE_TIME_GetReferenceState g)), g)"
  using get_reference_idle [OF time_invD(1), of g now]
  by (simp add: CFE_TIME_GetTime_def CFE_TIME_GetTAI_def CFE_TIME_CalculateTAI_def met_at_def Let_def)

lemma update_state:
  "time_inv g \<Longrightarrow> (\<And>r. StateVersion (f r) = StateVersion r)
    \<Longrightarrow> CFE_TIME_GetReferenceState (update_reference f g)
      = f ((CFE_TIME_GetReferenceState g)\<lparr>StateVersion := LastVersionCounter g + 1\<rparr>)"
  by (rule update_reference_idle(2) [OF time_invD(1)])

lemma elapsed_conf: "MaxLocalClock g' = MaxLocalClock g \<Longrightarrow> elapsed_since g' = elapsed_since g"
  by (simp add: elapsed_since_def fun_eq_iff)

lemma inv_elapsed: "time_inv g' \<Longrightarrow> time_inv g \<Longrightarrow> elapsed_since g' = elapsed_since g"
  by (rule elapsed_conf) (simp add: time_inv_def)

lemma state_of_fields [simp]:
  "CFE_TIME_GetReferenceState (g\<lparr>ServerFlyState := i\<rparr>) = CFE_TIME_GetReferenceState g"
  "CFE_TIME_GetReferenceState (g\<lparr>AutoStartFly := b\<rparr>) = CFE_TIME_GetReferenceState g"
  "CFE_TIME_GetReferenceState (g\<lparr>VirtualMET := v\<rparr>) = CFE_TIME_GetReferenceState g"
  "CFE_TIME_GetReferenceState (time_event e g) = CFE_TIME_GetReferenceState g"
  "CFE_TIME_GetReferenceState (time_send m g) = CFE_TIME_GetReferenceState g"
  "CFE_TIME_GetReferenceState (g\<lparr>PrevTime1 := t\<rparr>) = CFE_TIME_GetReferenceState g"
  "CFE_TIME_GetReferenceState (g\<lparr>PrevTime2 := t\<rparr>) = CFE_TIME_GetReferenceState g"
  "CFE_TIME_GetReferenceState (g\<lparr>ToneDataCounter := c\<rparr>) = CFE_TIME_GetReferenceState g"
  "LastVersionCounter (time_send m g) = LastVersionCounter g"
  by (simp_all add: CFE_TIME_GetReferenceState_def time_event_def time_send_def)

text \<open>Two intervals of the local clock, of which at most one has a roll-over, make one interval.\<close>

lemma elapsed_split:
  assumes "CFE_TIME_Compare c a = CFE_TIME_A_LT_B
      \<longleftrightarrow> CFE_TIME_Compare b a = CFE_TIME_A_LT_B \<or> CFE_TIME_Compare c b = CFE_TIME_A_LT_B"
    and "\<not> (CFE_TIME_Compare b a = CFE_TIME_A_LT_B \<and> CFE_TIME_Compare c b = CFE_TIME_A_LT_B)"
  shows "CFE_TIME_Add (elapsed_since g b c) (CFE_TIME_Add (elapsed_since g a b) t) = CFE_TIME_Add (elapsed_since g a c) t"
proof -
  have e: "subs64 (elapsed_since g y x) = (if CFE_TIME_Compare x y = CFE_TIME_A_LT_B
      then subs64 (MaxLocalClock g) - subs64 y + subs64 x else subs64 x - subs64 y)" for x y
    by (simp add: elapsed_since_def subs64_add subs64_subtract)
  show ?thesis using assms by (auto simp flip: subs64_inject simp add: subs64_add e)
qed

text \<open>The 1 Hz state machine: the adjustment, the start of the flywheel, and the new latch.\<close>

lemma state_machine_result:
  fixes now :: OS_time and g :: time_global
  assumes "time_inv g"
  defines "S \<equiv> CFE_TIME_GetReferenceState g" and "S' \<equiv> CFE_TIME_GetReferenceState (CFE_TIME_Local1HzStateMachine now g)"
  shows "RS_AtToneSTCF S' = (if OneHzAdjust g = zero_time then RS_AtToneSTCF S
      else if OneHzDirection g = CFE_TIME_AdjustDirection_ADD then CFE_TIME_Add (RS_AtToneSTCF S) (OneHzAdjust g)
      else CFE_TIME_Subtract (RS_AtToneSTCF S) (OneHzAdjust g))"
    and "RS_AtToneLatch S' = RS_AtToneLatch S \<and> RS_AtToneMET S' = RS_AtToneMET S
      \<or> RS_AtToneLatch S' = CFE_TIME_LatchClock now \<and> RS_AtToneMET S' = met_at now g"
proof -
  define g1 where "g1 = (if Seconds (OneHzAdjust g) \<noteq> 0 \<or> Subseconds (OneHzAdjust g) \<noteq> 0
      then update_reference (\<lambda>r. r\<lparr>RS_AtToneSTCF :=
             (if OneHzDirection g = CFE_TIME_AdjustDirection_ADD
              then CFE_TIME_Add (RS_AtToneSTCF r) (OneHzAdjust g)
              else CFE_TIME_Subtract (RS_AtToneSTCF r) (OneHzAdjust g))\<rparr>) g else g)"
  have i: "time_inv g1" using assms(1) by (auto simp: g1_def intro!: time_inv_update)
  have z: "Seconds (OneHzAdjust g) \<noteq> 0 \<or> Subseconds (OneHzAdjust g) \<noteq> 0 \<longleftrightarrow> OneHzAdjust g \<noteq> zero_time"
    by (cases "OneHzAdjust g") (auto simp: zero_time_def)
  define S1 where "S1 = CFE_TIME_GetReferenceState g1"
  have S1: "RS_AtToneSTCF S1 = (if OneHzAdjust g = zero_time then RS_AtToneSTCF S
      else if OneHzDirection g = CFE_TIME_AdjustDirection_ADD then CFE_TIME_Add (RS_AtToneSTCF S) (OneHzAdjust g)
      else CFE_TIME_Subtract (RS_AtToneSTCF S) (OneHzAdjust g))"
    "RS_AtToneLatch S1 = RS_AtToneLatch S" "RS_AtToneMET S1 = RS_AtToneMET S"
    unfolding S1_def g1_def z S_def by (simp_all add: update_state [OF assms(1)])
  obtain R where R: "get_reference now g1 = (R, g1)" using get_reference_state [OF i] by (metis surj_pair)
  have "R_CurrentMET R = met_at now g1" "R_CurrentLatch R = CFE_TIME_LatchClock now"
    using get_reference_idle [OF time_invD(1) [OF i], of now] by (auto simp: R met_at_def Let_def)
  moreover have "met_at now g1 = met_at now g"
    using S1(2,3) inv_elapsed [OF i assms(1)] by (simp add: met_at_def S1_def S_def)
  ultimately have R': "R_CurrentMET R = met_at now g" "R_CurrentLatch R = CFE_TIME_LatchClock now" by simp_all
  define g3 where "g3 = (if R_ClockFlyState R = CFE_TIME_FlywheelState_NO_FLY
                     \<and> Seconds (R_TimeSinceTone R) \<ge> CFE_PLATFORM_TIME_CFG_START_FLY
                  then (update_reference (\<lambda>r. r\<lparr>RS_ClockFlyState := CFE_TIME_FlywheelState_IS_FLY\<rparr>) g1)
                         \<lparr>ServerFlyState := CFE_TIME_FlywheelState_IS_FLY, AutoStartFly := True\<rparr>
                  else g1)"
  have i3: "time_inv g3" using i by (auto simp: g3_def intro!: time_inv_update)
  have S3: "RS_AtToneSTCF (CFE_TIME_GetReferenceState g3) = RS_AtToneSTCF S1"
    "RS_AtToneLatch (CFE_TIME_GetReferenceState g3) = RS_AtToneLatch S1"
    "RS_AtToneMET (CFE_TIME_GetReferenceState g3) = RS_AtToneMET S1"
    by (simp_all add: g3_def S1_def update_state [OF i])
  have m: "CFE_TIME_Local1HzStateMachine now g = (if R_ClockFlyState R = CFE_TIME_FlywheelState_IS_FLY
              \<and> Seconds (R_TimeSinceTone R) \<ge> CFE_PLATFORM_TIME_CFG_LATCH_FLY
           then update_reference (\<lambda>r. r\<lparr>RS_AtToneMET := R_CurrentMET R, RS_AtToneLatch := R_CurrentLatch R\<rparr>) g3
           else g3)"
    unfolding CFE_TIME_Local1HzStateMachine_def g1_def [symmetric] Let_def R prod.case g3_def [symmetric] by simp
  show "RS_AtToneSTCF S' = (if OneHzAdjust g = zero_time then RS_AtToneSTCF S
      else if OneHzDirection g = CFE_TIME_AdjustDirection_ADD then CFE_TIME_Add (RS_AtToneSTCF S) (OneHzAdjust g)
      else CFE_TIME_Subtract (RS_AtToneSTCF S) (OneHzAdjust g))"
    using S3(1) S1(1) by (simp add: S'_def m update_state [OF i3])
  show "RS_AtToneLatch S' = RS_AtToneLatch S \<and> RS_AtToneMET S' = RS_AtToneMET S
      \<or> RS_AtToneLatch S' = CFE_TIME_LatchClock now \<and> RS_AtToneMET S' = met_at now g"
    using S3(2,3) S1(2,3) R' by (simp add: S'_def m update_state [OF i3])
qed

subsection \<open>A tone, from its interrupt to the update\<close>

definition good_tone :: "OS_time \<Rightarrow> time_global \<Rightarrow> bool" where
  "good_tone now g =
     (let e = elapsed_since g (ToneSignalLatch g) (CFE_TIME_LatchClock now)
      in Seconds e = 1 \<and> Subseconds e < ToneOverLimit g \<or> Seconds e = 0 \<and> Subseconds e > ToneUnderLimit g)"

definition tone_window :: "CFE_TIME_SysTime \<Rightarrow> CFE_TIME_SysTime \<Rightarrow> time_global \<Rightarrow> bool" where
  "tone_window tone data g =
     (let e = (if CFE_TIME_Compare tone data = CFE_TIME_A_GT_B
               then CFE_TIME_Add (CFE_TIME_Subtract (MaxLocalClock g) tone) data else CFE_TIME_Subtract data tone)
      in Seconds e = 0 \<and> MinElapsed g \<le> Subseconds e \<and> Subseconds e \<le> MaxElapsed g)"

lemma tone_isr_good:
  assumes "good_tone now g"
  shows "\<exists>cbs. CFE_TIME_Tone1HzISR now g = g\<lparr>ToneIntCounter := ToneIntCounter g + 1, IsToneGood := True,
     VirtualMET := VirtualMET g + 1, ToneSemaphore := True, ToneSignalLatch := CFE_TIME_LatchClock now,
     CallbacksRun := cbs\<rparr>"
  using assms
  by (intro exI [of _ "CallbacksRun g @ map the (filter (\<lambda>f. f \<noteq> None) (SynchCallback g))"])
    (simp add: CFE_TIME_Tone1HzISR_def good_tone_def Let_def CFE_TIME_NotifyTimeSynchApps_def)

lemma get_reference_cong:
  "refs_of g' = refs_of g \<Longrightarrow> MaxLocalClock g' = MaxLocalClock g \<Longrightarrow> ref_ok False g
    \<Longrightarrow> fst (get_reference now g') = fst (get_reference now g)"
  using get_reference_idle [of g now] get_reference_idle [of g' now] ref_ok_cong [of g' g False] elapsed_conf [of g' g]
  by (simp add: Let_def refs_of_def CFE_TIME_GetReferenceState_def)

lemma tone_verify_match:
  assumes "PrevTime1 g \<noteq> Time1" "PrevTime2 g \<noteq> Time2" "tone_window Time1 Time2 g" "\<not> Forced2Fly g"
  shows "CFE_TIME_ToneVerify Time1 Time2 now g =
    (CFE_TIME_ToneUpdate now (g\<lparr>ToneMatchCounter := ToneMatchCounter g + 1\<rparr>))\<lparr>PrevTime1 := Time1, PrevTime2 := Time2\<rparr>"
  using assms
  by (simp add: CFE_TIME_ToneVerify_def Let_def compare_equal tone_window_def linorder_not_less [symmetric])

text \<open>
  Nothing is locked when a latch is the one of the previous tone or tone data again, which is counted as a mismatch, and
  when the flywheel was commanded, which still counts the match.
\<close>

lemma tone_data_repeated:
  fixes now :: OS_time and g :: time_global and d :: ToneDataCmd_Payload
  assumes "PrevTime1 g = ToneSignalLatch g \<or> PrevTime2 g = CFE_TIME_LatchClock now"
  defines "g' \<equiv> CFE_TIME_ToneData d now g"
  shows "CFE_TIME_GetReferenceState g' = CFE_TIME_GetReferenceState g" "VirtualMET g' = VirtualMET g"
    "ToneMatchCounter g' = ToneMatchCounter g" "ToneMatchErrorCounter g' = ToneMatchErrorCounter g + 1"
  using assms(1)
  by (auto simp: g'_def CFE_TIME_ToneData_def CFE_TIME_ToneVerify_def Let_def compare_equal CFE_TIME_GetReferenceState_def)

lemma tone_verify_forced:
  assumes "PrevTime1 g \<noteq> Time1" "PrevTime2 g \<noteq> Time2" "tone_window Time1 Time2 g" "Forced2Fly g"
  shows "CFE_TIME_ToneVerify Time1 Time2 now g =
    g\<lparr>ToneMatchCounter := ToneMatchCounter g + 1, PrevTime1 := Time1, PrevTime2 := Time2\<rparr>"
  using assms
  by (simp add: CFE_TIME_ToneVerify_def Let_def compare_equal tone_window_def linorder_not_less [symmetric])

lemma tone_window_fields:
  "tone_window a b (g\<lparr>ToneDataLatch := l, PendingMET := m, PendingSTCF := s, PendingLeaps := n, PendingState := c\<rparr>)
    = tone_window a b g"
  by (simp add: tone_window_def)

lemma tone_data_forced:
  fixes now :: OS_time and g :: time_global and d :: ToneDataCmd_Payload
  assumes "PrevTime1 g \<noteq> ToneSignalLatch g" "PrevTime2 g \<noteq> CFE_TIME_LatchClock now"
    and "tone_window (ToneSignalLatch g) (CFE_TIME_LatchClock now) g" "Forced2Fly g"
  defines "g' \<equiv> CFE_TIME_ToneData d now g"
  shows "CFE_TIME_GetReferenceState g' = CFE_TIME_GetReferenceState g" "VirtualMET g' = VirtualMET g"
    "ToneMatchCounter g' = ToneMatchCounter g + 1" "ToneMatchErrorCounter g' = ToneMatchErrorCounter g"
  using assms(1-4)
  by (simp_all add: g'_def CFE_TIME_ToneData_def Let_def tone_verify_forced tone_window_fields CFE_TIME_GetReferenceState_def)

lemma tone_send_result:
  assumes "time_inv g"
  shows "\<exists>d. CFE_TIME_ToneSend now g = (time_send (ToneDataMsg d) g)\<lparr>InternalCount := InternalCount g + 1\<rparr>"
proof -
  obtain R where R: "get_reference now g = (R, g)" using get_reference_state [OF assms] by (metis surj_pair)
  have c: "InternalCount (time_send m g) = InternalCount g" for m by (simp add: time_send_def)
  show ?thesis unfolding CFE_TIME_ToneSend_def R prod.case Let_def c by (rule exI) (rule refl)
qed

lemma update_counters:
  "ToneMatchCounter (update_reference f g) = ToneMatchCounter g" "ToneMatchErrorCounter (update_reference f g) = ToneMatchErrorCounter g"
  by (simp_all add: update_reference_def start_update Let_def upd_ref_def CFE_TIME_FinishReferenceUpdate_def)

lemma tone_data_result:
  fixes now :: OS_time and g :: time_global and d :: ToneDataCmd_Payload
  assumes "time_inv g" "PrevTime1 g \<noteq> ToneSignalLatch g" "PrevTime2 g \<noteq> CFE_TIME_LatchClock now"
    and "tone_window (ToneSignalLatch g) (CFE_TIME_LatchClock now) g" "\<not> Forced2Fly g"
  defines "S \<equiv> CFE_TIME_GetReferenceState g" and "g' \<equiv> CFE_TIME_ToneData d now g"
  defines "S' \<equiv> CFE_TIME_GetReferenceState g'"
  shows "RS_AtToneLatch S' = ToneSignalLatch g" "RS_ClockFlyState S' = CFE_TIME_FlywheelState_NO_FLY"
    "RS_AtToneMET S' = \<lparr>Seconds = (if RS_ClockFlyState S = CFE_TIME_FlywheelState_IS_FLY
        then Seconds (met_at now g) else VirtualMET g), Subseconds = 0\<rparr>"
    "RS_AtToneSTCF S' = RS_AtToneSTCF S" "RS_ClockSetState S' = RS_ClockSetState S"
    "VirtualMET g' = Seconds (RS_AtToneMET S')" "ToneMatchCounter g' = ToneMatchCounter g + 1"
    "ToneMatchErrorCounter g' = ToneMatchErrorCounter g"
proof -
  define h where "h = g\<lparr>ToneDataLatch := CFE_TIME_LatchClock now, PendingMET := TD_AtToneMET d,
      PendingSTCF := TD_AtToneSTCF d, PendingLeaps := TD_AtToneLeapSeconds d, PendingState := TD_AtToneState d\<rparr>"
  define k where "k = h\<lparr>ToneMatchCounter := ToneMatchCounter h + 1\<rparr>"
  have h: "ToneSignalLatch h = ToneSignalLatch g" "ToneDataLatch h = CFE_TIME_LatchClock now"
    "PrevTime1 h = PrevTime1 g" "PrevTime2 h = PrevTime2 g" "Forced2Fly h = Forced2Fly g"
    "tone_window a b h = tone_window a b g" for a b by (simp_all add: h_def tone_window_def)
  have k: "time_inv k" "CFE_TIME_GetReferenceState k = S" "ToneSignalLatch k = ToneSignalLatch g"
    "VirtualMET k = VirtualMET g" "ToneMatchCounter k = ToneMatchCounter g + 1"
    "ToneMatchErrorCounter k = ToneMatchErrorCounter g" "MaxLocalClock k = MaxLocalClock g"
    using assms(1) by (simp_all add: k_def h_def S_def CFE_TIME_GetReferenceState_def)
  have met: "R_CurrentMET (fst (get_reference now k)) = met_at now g"
    using get_reference_idle [OF time_invD(1) [OF k(1)], of now] k(2) elapsed_conf [OF k(7)]
    by (simp add: met_at_def Let_def S_def)
  have verify: "CFE_TIME_ToneData d now g = (CFE_TIME_ToneUpdate now k)
      \<lparr>PrevTime1 := ToneSignalLatch g, PrevTime2 := CFE_TIME_LatchClock now,
       ToneDataCounter := ToneDataCounter (CFE_TIME_ToneUpdate now k) + 1\<rparr>"
    using tone_verify_match [of h "ToneSignalLatch g" "CFE_TIME_LatchClock now" now] assms(2-5)
    by (simp add: CFE_TIME_ToneData_def Let_def h_def [symmetric] k_def [symmetric] h)
  define met' where "met' = (if RS_ClockFlyState S = CFE_TIME_FlywheelState_IS_FLY then Seconds (met_at now g) else VirtualMET g)"
  define f :: "ReferenceState_t \<Rightarrow> ReferenceState_t" where "f = (\<lambda>r. r\<lparr>RS_AtToneLatch := ToneSignalLatch g, RS_AtToneMET := \<lparr>Seconds = met', Subseconds = 0\<rparr>,
      RS_ClockFlyState := (if RS_ClockFlyState S = CFE_TIME_FlywheelState_IS_FLY then CFE_TIME_FlywheelState_NO_FLY
                           else RS_ClockFlyState r)\<rparr>)"
  have fv: "StateVersion (f r) = StateVersion r" for r by (simp add: f_def)
  have upd: "CFE_TIME_ToneUpdate now k = (let g1 = (update_reference f k)\<lparr>VirtualMET := met'\<rparr>
     in if RS_ClockFlyState S = CFE_TIME_FlywheelState_IS_FLY
        then time_event CFE_TIME_FLY_OFF_EID (g1\<lparr>ServerFlyState := CFE_TIME_FlywheelState_NO_FLY\<rparr>) else g1)"
    using tone_update_idle [OF k(1), of now] by (simp add: k(2-4) met met'_def f_def)
  have S': "S' = f (S\<lparr>StateVersion := LastVersionCounter k + 1\<rparr>)"
    using update_state [OF k(1) fv] by (simp add: S'_def g'_def verify upd Let_def k(2))
  have fields: "VirtualMET g' = met'" "ToneMatchCounter g' = ToneMatchCounter g + 1" "ToneMatchErrorCounter g' = ToneMatchErrorCounter g"
    using k(5,6) update_counters [of f k] by (simp_all add: g'_def verify upd Let_def time_event_def)
  have "fly_flag S" using assms(1) by (simp add: time_inv_def S_def)
  then show "RS_ClockFlyState S' = CFE_TIME_FlywheelState_NO_FLY" by (auto simp: S' f_def)
  show "RS_AtToneLatch S' = ToneSignalLatch g" "RS_AtToneSTCF S' = RS_AtToneSTCF S" "RS_ClockSetState S' = RS_ClockSetState S"
    "RS_AtToneMET S' = \<lparr>Seconds = (if RS_ClockFlyState S = CFE_TIME_FlywheelState_IS_FLY
        then Seconds (met_at now g) else VirtualMET g), Subseconds = 0\<rparr>"
    by (simp_all add: S' f_def met'_def)
  then show "VirtualMET g' = Seconds (RS_AtToneMET S')" by (simp add: fields met'_def)
  show "ToneMatchCounter g' = ToneMatchCounter g + 1" "ToneMatchErrorCounter g' = ToneMatchErrorCounter g" by (rule fields)+
qed

end
