(* ===== verification/Time_Print.thy ===== *)
theory Time_Print
  imports Time_Arith
begin

section \<open>Time service: the printed date\<close>

text \<open>
  \<open>CFE_TIME_Print\<close> with the default epoch, the first day of 1980. The loops over the seconds and the
  years are functions on the C values; the text is the list of characters written, with the final zero.
\<close>

definition CFE_MISSION_TIME_EPOCH_YEAR :: uint32 where "CFE_MISSION_TIME_EPOCH_YEAR = 1980"
definition CFE_MISSION_TIME_EPOCH_DAY :: uint32 where "CFE_MISSION_TIME_EPOCH_DAY = 1"
definition CFE_MISSION_TIME_EPOCH_HOUR :: uint32 where "CFE_MISSION_TIME_EPOCH_HOUR = 0"
definition CFE_MISSION_TIME_EPOCH_MINUTE :: uint32 where "CFE_MISSION_TIME_EPOCH_MINUTE = 0"
definition CFE_MISSION_TIME_EPOCH_SECOND :: uint32 where "CFE_MISSION_TIME_EPOCH_SECOND = 0"
definition CFE_MISSION_TIME_EPOCH_MICROS :: uint32 where "CFE_MISSION_TIME_EPOCH_MICROS = 0"

function carry_minutes :: "uint32 \<Rightarrow> uint32 \<Rightarrow> uint32 \<times> uint32" where
  "carry_minutes NumberOfMinutes NumberOfSeconds =
     (if NumberOfSeconds \<ge> 60 then carry_minutes (NumberOfMinutes + 1) (NumberOfSeconds - 60)
      else (NumberOfMinutes, NumberOfSeconds))"
  by auto
termination
  by (relation "measure (\<lambda>(_, s). unat s)") (auto simp: word_le_nat_alt unat_sub_if')

definition DaysInThisYear :: "uint32 \<Rightarrow> uint32" where
  "DaysInThisYear NumberOfYears =
     (if NumberOfYears mod 4 = 0
      then if NumberOfYears mod 100 \<noteq> 0 then 366 else if NumberOfYears mod 400 = 0 then 366 else 365
      else 365)"

function count_years :: "uint32 \<Rightarrow> uint32 \<Rightarrow> uint32 \<times> uint32" where
  "count_years NumberOfYears NumberOfDays =
     (if NumberOfDays < DaysInThisYear NumberOfYears then (NumberOfYears, NumberOfDays)
      else count_years (NumberOfYears + 1) (NumberOfDays - DaysInThisYear NumberOfYears))"
  by auto

lemma year_pos: "0 < unat (DaysInThisYear y)"
  by (simp add: DaysInThisYear_def)

termination count_years
  by (relation "measure (\<lambda>(_, d). unat d)")
    (auto simp: not_less word_le_nat_alt unat_sub_if' intro!: diff_less year_pos intro: less_le_trans [OF year_pos])

declare carry_minutes.simps [simp del] count_years.simps [simp del]

definition digit :: "uint32 \<Rightarrow> char" where
  "digit n = char_of (unat (48 + ucast n :: uint8))"

definition CFE_TIME_Print :: "bool \<Rightarrow> CFE_TIME_SysTime \<Rightarrow> string option" where
  "CFE_TIME_Print PrintBuffer TimeToPrint =
     (if \<not> PrintBuffer then None
      else
        let Micros1 = CFE_TIME_Sub2MicroSecs (Subseconds TimeToPrint) + CFE_MISSION_TIME_EPOCH_MICROS;
            Minutes1 = Micros1 div 60000000 + Seconds TimeToPrint div 60 + CFE_MISSION_TIME_EPOCH_MINUTE;
            Micros2 = Micros1 mod 60000000;
            Seconds1 = Micros2 div 1000000 + Seconds TimeToPrint mod 60 + CFE_MISSION_TIME_EPOCH_SECOND;
            Micros3 = Micros2 mod 1000000;
            (Minutes2, NumberOfSeconds) = carry_minutes Minutes1 Seconds1;
            Hours1 = Minutes2 div 60 + CFE_MISSION_TIME_EPOCH_HOUR;
            NumberOfMinutes = Minutes2 mod 60;
            Days1 = Hours1 div 24 + (CFE_MISSION_TIME_EPOCH_DAY - 1);
            NumberOfHours = Hours1 mod 24;
            (NumberOfYears, Days2) = count_years CFE_MISSION_TIME_EPOCH_YEAR Days1;
            NumberOfDays = Days2 + 1;
            NumberOfMicros = Micros3 div 10
        in Some
          ([digit (NumberOfYears div 1000), digit (NumberOfYears mod 1000 div 100),
            digit (NumberOfYears mod 1000 mod 100 div 10), digit (NumberOfYears mod 1000 mod 100 mod 10), CHR ''-'',
            digit (NumberOfDays div 100), digit (NumberOfDays mod 100 div 10), digit (NumberOfDays mod 100 mod 10), CHR ''-'',
            digit (NumberOfHours div 10), digit (NumberOfHours mod 10), CHR '':'',
            digit (NumberOfMinutes div 10), digit (NumberOfMinutes mod 10), CHR '':'',
            digit (NumberOfSeconds div 10), digit (NumberOfSeconds mod 10), CHR ''.'',
            digit (NumberOfMicros div 10000), digit (NumberOfMicros mod 10000 div 1000),
            digit (NumberOfMicros mod 10000 mod 1000 div 100),
            digit (NumberOfMicros mod 10000 mod 1000 mod 100 div 10),
            digit (NumberOfMicros mod 10000 mod 1000 mod 100 mod 10), CHR 0x00]))"

text \<open>The calendar, in natural numbers, and decimal numbers of a fixed width.\<close>

definition year_days :: "nat \<Rightarrow> nat" where
  "year_days y = (if y mod 4 = 0 \<and> (y mod 100 \<noteq> 0 \<or> y mod 400 = 0) then 366 else 365)"

definition days_before :: "nat \<Rightarrow> nat" where
  "days_before y = (\<Sum>k = 1980..<y. year_days k)"

fun dec :: "nat \<Rightarrow> nat \<Rightarrow> string" where
  "dec 0 k = []"
| "dec (Suc n) k = char_of (48 + k div 10 ^ n mod 10) # dec n k"

lemma unat_year: "unat (DaysInThisYear y) = year_days (unat y)"
  by (simp add: DaysInThisYear_def year_days_def word_unat_eq_iff unat_mod)

lemma count_years_spec:
  "count_years y d = (y', d') \<Longrightarrow> 1980 \<le> unat y \<Longrightarrow> unat y + unat d div 365 < 4294967295
    \<Longrightarrow> days_before (unat y') + unat d' = days_before (unat y) + unat d \<and> unat d' < year_days (unat y')
      \<and> unat y \<le> unat y' \<and> unat y' \<le> unat y + unat d div 365"
proof (induction y d arbitrary: y' d' rule: count_years.induct)
  case (1 y d)
  show ?case
  proof (cases "d < DaysInThisYear y")
    case True
    with 1(2) show ?thesis by (simp add: count_years.simps [of y d] word_less_nat_alt unat_year)
  next
    case False
    have y1: "unat (y + 1) = unat y + 1" using 1(4) by (simp add: unat_plus_wrap)
    have le: "year_days (unat y) \<le> unat d" using False by (simp add: word_less_nat_alt unat_year)
    then have d1: "unat (d - DaysInThisYear y) = unat d - year_days (unat y)"
      by (simp add: unat_minus_wrap unat_year)
    have "365 \<le> year_days (unat y)" by (simp add: year_days_def)
    with le have "(unat d - year_days (unat y)) div 365 \<le> (unat d - 365) div 365" "(unat d - 365) div 365 + 1 = unat d div 365"
      by (auto intro: div_le_mono simp: le_div_geq)
    moreover have "days_before (unat y + 1) = days_before (unat y) + year_days (unat y)"
      using 1(3) by (simp add: days_before_def)
    moreover have "count_years (y + 1) (d - DaysInThisYear y) = (y', d')"
      using 1(2) False by (simp add: count_years.simps [of y d])
    ultimately show ?thesis
      using 1(1) [OF False] 1(3,4) le unfolding y1 d1 by force
  qed
qed

lemma digit_dec: "unat n < 10 \<Longrightarrow> digit n = char_of (48 + unat n)"
  by (simp add: digit_def unat_word_ariths unsigned_ucast_eq take_bit_nat_eq_self)


lemma mod_div_digit: "0 < m \<Longrightarrow> (k :: nat) mod (m * n) div m = k div m mod n"
  by (simp add: mod_mult2_eq)

lemma dec_expand:
  "dec 2 k = [char_of (48 + k div 10 mod 10), char_of (48 + k mod 10)]"
  "dec 3 k = char_of (48 + k div 100 mod 10) # dec 2 k"
  "dec 4 k = char_of (48 + k div 1000 mod 10) # dec 3 k"
  "dec 5 k = char_of (48 + k div 10000 mod 10) # dec 4 k"
  using dec.simps(2) [of 1 k] dec.simps(2) [of 0 k] dec.simps(2) [of 2 k] dec.simps(2) [of 3 k] dec.simps(2) [of 4 k]
  by (simp_all add: numeral_2_eq_2 [symmetric])

lemma digit_div: "unat w < 10 * m \<Longrightarrow> 0 < m \<Longrightarrow> m < 4294967296 \<Longrightarrow> digit (w div of_nat m) = char_of (48 + unat w div m mod 10)"
  by (simp add: digit_dec unat_div unat_of_nat_small div_less_iff_less_mult mult.commute)

lemma dec2: "unat w < 100 \<Longrightarrow> [digit (w div 10), digit (w mod 10)] = dec 2 (unat w)"
  using digit_div [of w 10] by (simp add: dec_expand digit_dec unat_mod)

lemma dec_mod:
  "dec 2 (k mod 100) = dec 2 k" "dec 3 (k mod 1000) = dec 3 k" "dec 4 (k mod 10000) = dec 4 k"
  using mod_div_digit [of 10 k 10] mod_div_digit [of 100 k 10] mod_div_digit [of 1000 k 10]
    mod_div_digit [of 10 k 100]  mod_div_digit [of 10 k 1000] mod_div_digit [of 100 k 100]
  by (simp_all add: dec_expand mod_mod_cancel)

lemma dec3: "unat w < 1000 \<Longrightarrow> [digit (w div 100), digit (w mod 100 div 10), digit (w mod 100 mod 10)] = dec 3 (unat w)"
  using digit_div [of w 100] dec2 [of "w mod 100"] by (simp add: dec_expand(2) unat_mod dec_mod)

lemma dec4: "unat w < 10000 \<Longrightarrow> [digit (w div 1000), digit (w mod 1000 div 100), digit (w mod 1000 mod 100 div 10),
     digit (w mod 1000 mod 100 mod 10)] = dec 4 (unat w)"
  using digit_div [of w 1000] dec3 [of "w mod 1000"] by (simp add: dec_expand(3) unat_mod dec_mod)

lemma dec5: "unat w < 100000 \<Longrightarrow> [digit (w div 10000), digit (w mod 10000 div 1000), digit (w mod 10000 mod 1000 div 100),
     digit (w mod 10000 mod 1000 mod 100 div 10), digit (w mod 10000 mod 1000 mod 100 mod 10)] = dec 5 (unat w)"
  using digit_div [of w 10000] dec4 [of "w mod 10000"] by (simp add: dec_expand(4) unat_mod dec_mod)

text \<open>
  C25 The printed date is the calendar date: the year and the day of the year are those of the Gregorian
  calendar counted from the epoch, the rest is the time of the day, in decimal digits of fixed width.\<close>

theorem time_print_date:
  "\<exists>Y D. days_before Y + D = unat (Seconds t) div 86400 \<and> D < year_days Y \<and> 1980 \<le> Y \<and> Y \<le> 2116
    \<and> CFE_TIME_Print True t = Some
        (dec 4 Y @ ''-'' @ dec 3 (D + 1) @ ''-'' @ dec 2 (unat (Seconds t) div 3600 mod 24) @ '':''
         @ dec 2 (unat (Seconds t) div 60 mod 60) @ '':'' @ dec 2 (unat (Seconds t) mod 60) @ ''.''
         @ dec 5 (unat (Subseconds t) * 100000 div 4294967296) @ [CHR 0x00])"
proof -
  let ?S = "unat (Seconds t)"
  have lt: "?S < 4294967296" by (rule word32_less)
  define U where "U = CFE_TIME_Sub2MicroSecs (Subseconds t)"
  have U: "unat U = unat (Subseconds t) * 1000000 div 4294967296" "unat U < 1000000"
    unfolding U_def sub2micro using word32_less [of "Subseconds t"] by (simp_all add: div_less_iff_less_mult)
  have nm: "\<not> 60 \<le> ?S mod 60" by (simp add: not_le)
  have carry: "carry_minutes m (Seconds t mod 60) = (m, Seconds t mod 60)" for m
    by (simp add: carry_minutes.simps [of m "Seconds t mod 60"] word_le_nat_alt unat_mod nm)
  obtain y d where yd: "count_years 1980 (Seconds t div 60 div 60 div 24) = (y, d)" by fastforce
  have days: "unat (Seconds t div 60 div 60 div 24) = ?S div 86400" by (simp add: unat_div div_mult2_eq [symmetric])
  have date: "days_before (unat y) + unat d = ?S div 86400 \<and> unat d < year_days (unat y) \<and> 1980 \<le> unat y \<and> unat y \<le> 2116"
  proof -
    have b: "?S div 86400 div 365 \<le> 136"
      using div_le_mono [of ?S 4294967295 31536000] lt by (simp add: div_mult2_eq [symmetric])
    have z: "days_before 1980 = 0" "unat (1980 :: uint32) = 1980" by (simp_all add: days_before_def)
    from count_years_spec [OF yd, unfolded days z] b show ?thesis by simp
  qed
  then have d: "unat d < 366" by (auto simp: year_days_def split: if_splits)
  then have d1: "unat (d + 1) = unat d + 1" by (simp add: unat_plus_wrap)
  have small: "U div 60000000 = 0" "U mod 60000000 = U" "U div 1000000 = 0" "U mod 1000000 = U"
    using U(2) by (simp_all add: word_unat_eq_iff unat_div unat_mod)
  have micros: "unat (U div 10) = unat (Subseconds t) * 100000 div 4294967296"
    using div_mult_mult1 [of 10 "unat (Subseconds t) * 100000" 4294967296]
    by (simp add: unat_div U(1) div_mult2_eq [symmetric])
  have "unat (Seconds t div 60 div 60 mod 24) = ?S div 3600 mod 24" "unat (Seconds t div 60 mod 60) = ?S div 60 mod 60"
    "unat (Seconds t mod 60) = ?S mod 60"
    by (simp_all add: unat_div unat_mod div_mult2_eq [symmetric])
  with dec2 [of "Seconds t div 60 div 60 mod 24"] dec2 [of "Seconds t div 60 mod 60"] dec2 [of "Seconds t mod 60"]
    dec3 [of "d + 1"] dec4 [of y] dec5 [of "U div 10"] date d U(2)
  have "dec 4 (unat y) = [digit (y div 1000), digit (y mod 1000 div 100), digit (y mod 1000 mod 100 div 10), digit (y mod 1000 mod 100 mod 10)]"
    "dec 3 (unat d + 1) = [digit ((d + 1) div 100), digit ((d + 1) mod 100 div 10), digit ((d + 1) mod 100 mod 10)]"
    "dec 2 (?S div 3600 mod 24) = [digit (Seconds t div 60 div 60 mod 24 div 10), digit (Seconds t div 60 div 60 mod 24 mod 10)]"
    "dec 2 (?S div 60 mod 60) = [digit (Seconds t div 60 mod 60 div 10), digit (Seconds t div 60 mod 60 mod 10)]"
    "dec 2 (?S mod 60) = [digit (Seconds t mod 60 div 10), digit (Seconds t mod 60 mod 10)]"
    "dec 5 (unat (Subseconds t) * 100000 div 4294967296) = [digit (U div 10 div 10000), digit (U div 10 mod 10000 div 1000),
       digit (U div 10 mod 10000 mod 1000 div 100), digit (U div 10 mod 10000 mod 1000 mod 100 div 10),
       digit (U div 10 mod 10000 mod 1000 mod 100 mod 10)]"
    by (simp_all add: d1 micros div_less_iff_less_mult unat_div flip: micros)
  then have "CFE_TIME_Print True t = Some
        (dec 4 (unat y) @ ''-'' @ dec 3 (unat d + 1) @ ''-'' @ dec 2 (?S div 3600 mod 24) @ '':''
         @ dec 2 (?S div 60 mod 60) @ '':'' @ dec 2 (?S mod 60) @ ''.''
         @ dec 5 (unat (Subseconds t) * 100000 div 4294967296) @ [CHR 0x00])"
    by (simp add: CFE_TIME_Print_def U_def [symmetric] Let_def small carry yd CFE_MISSION_TIME_EPOCH_YEAR_def
        CFE_MISSION_TIME_EPOCH_DAY_def CFE_MISSION_TIME_EPOCH_HOUR_def CFE_MISSION_TIME_EPOCH_MINUTE_def
        CFE_MISSION_TIME_EPOCH_SECOND_def CFE_MISSION_TIME_EPOCH_MICROS_def)
  with date show ?thesis by blast
qed

end
