(* ===== verification/Time_Properties.thy ===== *)
theory Time_Properties
  imports Time_Inv Time_Print
begin

section \<open>Time service: properties\<close>

text \<open>
  C24 Times are 64-bit numbers of subseconds: adding and subtracting them are exact modulo the range, and the conversions
  to microseconds round down and invert each other. Comparing is the circular order, in which the earlier time is
  the one from which the way forward is the shorter one, except when the seconds of the two times are exactly
  0x80000000 apart: then the time with the smaller number of seconds is the earlier one, whatever the subseconds are.\<close>

theorem time_arithmetic:
  "subs64 (CFE_TIME_Add a b) = subs64 a + subs64 b \<and> subs64 (CFE_TIME_Subtract a b) = subs64 a - subs64 b
    \<and> CFE_TIME_Subtract (CFE_TIME_Add a b) b = a
    \<and> CFE_TIME_Compare a b =
        (if a = b then CFE_TIME_EQUAL
         else if Seconds b - Seconds a = CFE_TIME_NEGATIVE
         then if Seconds a < Seconds b then CFE_TIME_A_LT_B else CFE_TIME_A_GT_B
         else if unat (subs64 b - subs64 a) < 2 ^ 63 then CFE_TIME_A_LT_B else CFE_TIME_A_GT_B)
    \<and> unat (CFE_TIME_Sub2MicroSecs w) = unat w * 1000000 div 4294967296
    \<and> CFE_TIME_Sub2MicroSecs (CFE_TIME_Micro2SubSecs m) = (if m > 999999 then 999999 else m)"
proof -
  have "CFE_TIME_Subtract (CFE_TIME_Add a b) b = a"
    by (simp flip: subs64_inject add: subs64_add subs64_subtract)
  moreover have "CFE_TIME_Compare a b = (if Seconds a < Seconds b then CFE_TIME_A_LT_B else CFE_TIME_A_GT_B)"
    if d: "Seconds b - Seconds a = CFE_TIME_NEGATIVE"
  proof -
    have "Seconds a - Seconds b = CFE_TIME_NEGATIVE"
    proof -
      have "Seconds a - Seconds b = - (Seconds b - Seconds a)" by simp
      also have "\<dots> = CFE_TIME_NEGATIVE" unfolding d by code_simp
      finally show ?thesis .
    qed
    moreover have "Seconds a \<noteq> Seconds b" using d by (auto simp: CFE_TIME_NEGATIVE_def)
    ultimately show ?thesis using d by (auto simp: CFE_TIME_Compare_def)
  qed
  ultimately show ?thesis
    using compare_spec [of b a] compare_equal [of a b] by (auto simp: subs64_add subs64_subtract sub2micro micro_roundtrip)
qed

text \<open>
  C21 A reader may run beside updates that the time task makes store by store, as \<open>CFE_TIME_StartReferenceUpdate\<close>,
  the assignments of its callers and \<open>CFE_TIME_FinishReferenceUpdate\<close> make them, interrupted anywhere. If fewer than
  2 ^ 31 updates are started during one attempt, so that the version does not wrap around to the one read, it gets all
  fields of one published buffer, or fails; it fails only if each of its first four attempts was overtaken by three
  updates. The times are those of the buffer and the clock latched. Without interruption the stores of an
  update are the update as a whole. One task writes, and accesses to the volatile data take effect in program order.\<close>

theorem reference_snapshot:
  assumes "writer_run W" "few_updates (protocol_of W)" "CFE_TIME_GetReference (\<lambda>n. memory (W n)) clock = (R, failed)"
  shows "(if failed
     then R = zero_reference
       \<and> overtaken (protocol_of W) 0 \<and> overtaken (protocol_of W) 14 \<and> overtaken (protocol_of W) 28 \<and> overtaken (protocol_of W) 42
     else \<exists>t \<in> {0, 14, 28, 42}. snapshot_of (CFE_TIME_GetReferenceState (memory (W t))) R \<and> R_CurrentLatch R = clock t
       \<and> R_TimeSinceTone R = elapsed_since (memory (W (t + 14))) (R_AtToneLatch R) (R_CurrentLatch R)
       \<and> R_CurrentMET R = CFE_TIME_Add (R_TimeSinceTone R) (R_AtToneMET R))
    \<and> (\<forall>f g. fold (\<lambda>store. store) (update_stores (LastVersionCounter g) [f]) g = update_reference f g)"
proof -
  let ?P = "protocol_of W"
  have m: "memory (?P t) = memory (W t)" for t by (simp add: protocol_of_def)
  note R = read_result [OF run_protocol [OF assms(1)] assms(2), unfolded m, OF assms(3)]
  show ?thesis
  proof (cases failed)
    case True
    with R have "R = zero_reference" and o: "\<forall>k < 4. overtaken ?P (14 * k)" by simp_all
    with o [rule_format, of 0] o [rule_format, of 1] o [rule_format, of 2] o [rule_format, of 3] True
    show ?thesis by (simp add: update_as_stores)
  next
    case False
    with R obtain k where k: "k < 4"
      "snapshot_of (CFE_TIME_GetReferenceState (memory (W (14 * k)))) R" "R_CurrentLatch R = clock (14 * k)"
      "R_TimeSinceTone R = elapsed_since (memory (W (14 * k + 14))) (R_AtToneLatch R) (R_CurrentLatch R)"
      "R_CurrentMET R = CFE_TIME_Add (R_TimeSinceTone R) (R_AtToneMET R)" by auto
    have "14 * k \<in> {0, 14, 28, 42}" using k(1) by auto
    with k False show ?thesis unfolding if_not_P [OF False]
      by (intro conjI bexI [of _ "14 * k"]) (auto simp: update_as_stores)
  qed
qed

definition time_demo :: time_global where "time_demo = CFE_TIME_InitData None 0"

text \<open>
  A run in which the time task sets the MET, as \<open>CFE_TIME_SetMET\<close> does, one store after each access of the reader: the
  version is marked between its first two accesses and the buffer is published during its second attempt.
\<close>

definition demo_fields :: "(ReferenceState_t \<Rightarrow> ReferenceState_t) list" where
  "demo_fields = [\<lambda>r. r\<lparr>RS_AtToneMET := \<lparr>Seconds = 2000, Subseconds = 5\<rparr>\<rparr>,
     \<lambda>r. r\<lparr>RS_AtToneLatch := \<lparr>Seconds = 7, Subseconds = 0\<rparr>\<rparr>]"

primrec demo_run :: "nat \<Rightarrow> nat \<times> (time_global \<Rightarrow> time_global) list \<times> time_global" where
  "demo_run 0 = (0, [], time_demo)"
| "demo_run (Suc t) = (case demo_run t of
     (n, [], g) \<Rightarrow> if t = 0 then (n, tl (update_stores (LastVersionCounter g) demo_fields),
                                     hd (update_stores (LastVersionCounter g) demo_fields) g)
                   else (n, [], g)
   | (n, store # stores, g) \<Rightarrow> (if stores = [] then Suc n else n, stores, store g))"

lemma demo_started: "started (protocol (demo_run t)) \<le> of_bool (0 < t)"
  by (induction t) (auto simp: started_def protocol_def split: list.splits prod.splits)

lemma demo_run: "writer_run demo_run" "few_updates (protocol_of demo_run)"
proof -
  have "time_write\<^sup>*\<^sup>* (demo_run t) (demo_run (Suc t))" for t
  proof (cases "snd (demo_run t)")
    case (Pair stores g)
    obtain n where d: "demo_run t = (n, stores, g)" using Pair by (metis prod.collapse)
    show ?thesis
    proof (cases stores)
      case Nil
      have "update_stores (LastVersionCounter g) demo_fields
          = hd (update_stores (LastVersionCounter g) demo_fields) # tl (update_stores (LastVersionCounter g) demo_fields)"
        by (simp add: update_stores_def start_stores_def)
      moreover have "StateVersion (f r) = StateVersion r" if "f \<in> set demo_fields" for f r
        using that by (auto simp: demo_fields_def)
      ultimately have "time_write (n, [], g) (n, tl (update_stores (LastVersionCounter g) demo_fields),
          hd (update_stores (LastVersionCounter g) demo_fields) g)" by (rule time_write.begin_update)
      with d Nil show ?thesis by (cases "t = 0") (auto intro!: r_into_rtranclp)
    next
      case (Cons store rest)
      with d time_write.next_store [of n store rest g] show ?thesis by (auto intro!: r_into_rtranclp)
    qed
  qed
  moreover have "ref_ok False time_demo"
    using time_invD(1) [OF init_inv [of None 0]] by (simp add: time_demo_def)
  ultimately show "writer_run demo_run" unfolding writer_run_def by auto
  have s: "started (protocol_of demo_run t) \<le> 1" for t using demo_started [of t] by (simp add: protocol_of_def of_bool_def split: if_splits)
  show "few_updates (protocol_of demo_run)"
    unfolding few_updates_def by (intro allI le_less_trans [OF s]) simp
qed

lemma demo_published:
  "t \<in> {0, 14, 28, 42} \<Longrightarrow> RS_AtToneMET (CFE_TIME_GetReferenceState (memory (demo_run t)))
    \<in> {\<lparr>Seconds = 1000, Subseconds = 0\<rparr>, \<lparr>Seconds = 2000, Subseconds = 5\<rparr>}"
proof -
  have "RS_AtToneMET (CFE_TIME_GetReferenceState (memory (demo_run 0))) = \<lparr>Seconds = 1000, Subseconds = 0\<rparr>"
    "RS_AtToneMET (CFE_TIME_GetReferenceState (memory (demo_run 14))) = \<lparr>Seconds = 1000, Subseconds = 0\<rparr>"
    "RS_AtToneMET (CFE_TIME_GetReferenceState (memory (demo_run 28))) = \<lparr>Seconds = 2000, Subseconds = 5\<rparr>"
    "RS_AtToneMET (CFE_TIME_GetReferenceState (memory (demo_run 42))) = \<lparr>Seconds = 2000, Subseconds = 5\<rparr>"
    by code_simp+
  then show "t \<in> {0, 14, 28, 42} \<Longrightarrow> ?thesis" by auto
qed

theorem reference_snapshot_witness:
  "snd (CFE_TIME_GetReference (\<lambda>n. memory (demo_run n)) (\<lambda>_. zero_time)) = False
    \<and> R_AtToneMET (fst (CFE_TIME_GetReference (\<lambda>n. memory (demo_run n)) (\<lambda>_. zero_time)))
      \<in> {\<lparr>Seconds = 1000, Subseconds = 0\<rparr>, \<lparr>Seconds = 2000, Subseconds = 5\<rparr>}"
proof -
  obtain R failed where R: "CFE_TIME_GetReference (\<lambda>n. memory (demo_run n)) (\<lambda>_. zero_time) = (R, failed)" by fastforce
  have "\<not> overtaken (protocol_of demo_run) 0"
    using demo_started [of 13] by (simp add: overtaken_def protocol_of_def)
  then have nf: "\<not> failed" using reference_snapshot [OF demo_run R] by auto
  from reference_snapshot [OF demo_run R, unfolded if_not_P [OF nf]] obtain t where t: "t \<in> {0, 14, 28, 42}"
    "snapshot_of (CFE_TIME_GetReferenceState (memory (demo_run t))) R" by blast
  with nf demo_published [OF t(1)] show ?thesis by (simp add: R snapshot_of_def)
qed

text \<open>
  C23 The 1 Hz state machine does not make the time jump: at any later moment, with at most one roll-over of the local
  clock between, the time is what it would have been, shifted by exactly the 1 Hz adjustment, flywheeling or not.\<close>

theorem time_continuity:
  assumes "time_reach g" "tone = RS_AtToneLatch (CFE_TIME_GetReferenceState g)"
    and "c1 = CFE_TIME_LatchClock now" "c2 = CFE_TIME_LatchClock later"
    and "CFE_TIME_Compare c2 tone = CFE_TIME_A_LT_B
      \<longleftrightarrow> CFE_TIME_Compare c1 tone = CFE_TIME_A_LT_B \<or> CFE_TIME_Compare c2 c1 = CFE_TIME_A_LT_B"
    and "\<not> (CFE_TIME_Compare c1 tone = CFE_TIME_A_LT_B \<and> CFE_TIME_Compare c2 c1 = CFE_TIME_A_LT_B)"
  shows "fst (CFE_TIME_GetMET later (CFE_TIME_Local1HzStateMachine now g)) = fst (CFE_TIME_GetMET later g)
    \<and> fst (CFE_TIME_GetTime later (CFE_TIME_Local1HzStateMachine now g))
      = (if OneHzDirection g = CFE_TIME_AdjustDirection_ADD
         then CFE_TIME_Add (fst (CFE_TIME_GetTime later g)) (OneHzAdjust g)
         else CFE_TIME_Subtract (fst (CFE_TIME_GetTime later g)) (OneHzAdjust g))"
proof -
  have i: "time_inv g" by (rule reach_time_inv [OF assms(1)])
  have i': "time_inv (CFE_TIME_Local1HzStateMachine now g)" by (rule state_machine_inv [OF i])
  note R = state_machine_result [OF i, of now]
  have met: "met_at later (CFE_TIME_Local1HzStateMachine now g) = met_at later g"
    using R(2) elapsed_split [OF assms(5,6), of g]
    by (auto simp: met_at_def [of later] met_at_def [of now] inv_elapsed [OF i' i] assms(2-4))
  have z: "subs64 zero_time = 0" by code_simp
  show ?thesis
    unfolding get_met [OF i] get_met [OF i'] get_time [OF i] get_time [OF i'] fst_conv met R(1)
    by (auto simp flip: subs64_inject simp add: subs64_add subs64_subtract z)
qed

theorem time_continuity_witness:
  "fst (CFE_TIME_GetMET 150000000 (CFE_TIME_Local1HzStateMachine 100000000 time_demo)) = fst (CFE_TIME_GetMET 150000000 time_demo)"
proof -
  have "time_reach time_demo" unfolding time_demo_def by (rule time_reach.init)
  moreover have "CFE_TIME_Compare (CFE_TIME_LatchClock 150000000) (RS_AtToneLatch (CFE_TIME_GetReferenceState time_demo)) \<noteq> CFE_TIME_A_LT_B"
    "CFE_TIME_Compare (CFE_TIME_LatchClock 100000000) (RS_AtToneLatch (CFE_TIME_GetReferenceState time_demo)) \<noteq> CFE_TIME_A_LT_B"
    "CFE_TIME_Compare (CFE_TIME_LatchClock 150000000) (CFE_TIME_LatchClock 100000000) \<noteq> CFE_TIME_A_LT_B"
    by code_simp+
  ultimately show ?thesis
    using time_continuity [OF _ refl refl refl, of time_demo 150000000 100000000] by blast
qed

text \<open>
  C22 If the tone comes one second after the previous one and the messages that it causes are handled in time, the
  tone is answered and verified. Unless a latch is the very one of the previous tone or tone data, which counts an
  error, the match is counted; and unless the flywheel was commanded, the tone then locks the time: whether the
  clock was flywheeling or not, the reference is the latch of this tone with a whole second of MET, and the flywheel stops.
  A repeated latch and a commanded flywheel leave the reference as it was.\<close>

theorem tone_locks:
  assumes "time_reach g" "good_tone t1 g"
    and "tone_window (CFE_TIME_LatchClock t1) (CFE_TIME_LatchClock t3) g"
  shows "\<exists>g2 d. CFE_TIME_Tone1HzTask (CFE_TIME_Tone1HzISR t1 g) = Some g2
    \<and> (let g4 = CFE_TIME_ToneSendCmd t2 (CFE_TIME_ToneSignalCmd g2); g5 = CFE_TIME_ToneDataCmd d t3 g4;
           S = CFE_TIME_GetReferenceState g; S5 = CFE_TIME_GetReferenceState g5
       in TimeSent g4 = TimeSent g @ [ToneSignalMsg, ToneSendMsg, ToneDataMsg d]
         \<and> (if PrevTime1 g = CFE_TIME_LatchClock t1 \<or> PrevTime2 g = CFE_TIME_LatchClock t3
            then S5 = S \<and> VirtualMET g5 = VirtualMET g + 1 \<and> ToneMatchCounter g5 = ToneMatchCounter g
              \<and> ToneMatchErrorCounter g5 = ToneMatchErrorCounter g + 1
            else ToneMatchCounter g5 = ToneMatchCounter g + 1 \<and> ToneMatchErrorCounter g5 = ToneMatchErrorCounter g
              \<and> (if Forced2Fly g then S5 = S \<and> VirtualMET g5 = VirtualMET g + 1
                 else RS_AtToneLatch S5 = CFE_TIME_LatchClock t1 \<and> RS_ClockFlyState S5 = CFE_TIME_FlywheelState_NO_FLY
                   \<and> RS_AtToneMET S5 = \<lparr>Seconds = (if RS_ClockFlyState S = CFE_TIME_FlywheelState_IS_FLY
                                                    then Seconds (met_at t3 g) else VirtualMET g + 1), Subseconds = 0\<rparr>
                   \<and> RS_AtToneSTCF S5 = RS_AtToneSTCF S \<and> RS_ClockSetState S5 = RS_ClockSetState S
                   \<and> VirtualMET g5 = Seconds (RS_AtToneMET S5))))"
proof -
  have i: "time_inv g" by (rule reach_time_inv [OF assms(1)])
  obtain cbs where isr: "CFE_TIME_Tone1HzISR t1 g = g\<lparr>ToneIntCounter := ToneIntCounter g + 1, IsToneGood := True,
     VirtualMET := VirtualMET g + 1, ToneSemaphore := True, ToneSignalLatch := CFE_TIME_LatchClock t1, CallbacksRun := cbs\<rparr>"
    using tone_isr_good [OF assms(2)] by blast
  then obtain g2 where g2: "CFE_TIME_Tone1HzTask (CFE_TIME_Tone1HzISR t1 g) = Some g2" by (simp add: CFE_TIME_Tone1HzTask_def Let_def)
  define g3 where "g3 = CFE_TIME_ToneSignalCmd g2"
  have g3: "time_inv g3" "refs_of g3 = refs_of g" "TimeSent g3 = TimeSent g @ [ToneSignalMsg, ToneSendMsg]"
    "ToneSignalLatch g3 = CFE_TIME_LatchClock t1" "VirtualMET g3 = VirtualMET g + 1" "Forced2Fly g3 = Forced2Fly g"
    "PrevTime1 g3 = PrevTime1 g" "PrevTime2 g3 = PrevTime2 g" "ToneMatchCounter g3 = ToneMatchCounter g"
    "ToneMatchErrorCounter g3 = ToneMatchErrorCounter g" "tone_window a b g3 = tone_window a b g" for a b
    using g2 i by (auto simp: g3_def isr CFE_TIME_Tone1HzTask_def CFE_TIME_ToneSignalCmd_def CFE_TIME_ToneSignal_def
        Let_def time_send_def refs_of_def tone_window_def time_inv_def ref_ok_def CFE_TIME_GetReferenceState_def)
  obtain d where d: "CFE_TIME_ToneSendCmd t2 g3 = (time_send (ToneDataMsg d) g3)\<lparr>InternalCount := InternalCount g3 + 1\<rparr>"
    unfolding CFE_TIME_ToneSendCmd_def using tone_send_result [OF g3(1)] by blast
  define g4 where "g4 = CFE_TIME_ToneSendCmd t2 g3"
  have S: "CFE_TIME_GetReferenceState g3 = CFE_TIME_GetReferenceState g"
    using g3(2) by (simp add: refs_of_def CFE_TIME_GetReferenceState_def)
  have g4: "time_inv g4" "TimeSent g4 = TimeSent g3 @ [ToneDataMsg d]"
    "ToneSignalLatch g4 = CFE_TIME_LatchClock t1" "VirtualMET g4 = VirtualMET g + 1" "Forced2Fly g4 = Forced2Fly g"
    "PrevTime1 g4 = PrevTime1 g" "PrevTime2 g4 = PrevTime2 g" "ToneMatchCounter g4 = ToneMatchCounter g"
    "ToneMatchErrorCounter g4 = ToneMatchErrorCounter g"
    using g3(1,4-10) by (simp_all add: g4_def d time_send_def)
  have S4: "CFE_TIME_GetReferenceState g4 = CFE_TIME_GetReferenceState g"
    unfolding S [symmetric] by (simp add: g4_def d time_send_def CFE_TIME_GetReferenceState_def)
  have "tone_window a b g4 = tone_window a b g3" for a b by (simp add: g4_def d time_send_def tone_window_def)
  with assms(3) g4(3) g3(11) have w: "tone_window (ToneSignalLatch g4) (CFE_TIME_LatchClock t3) g4" by simp
  have met: "met_at t3 g4 = met_at t3 g" by (simp add: met_at_def S4 inv_elapsed [OF g4(1) i])
  let ?S = "CFE_TIME_GetReferenceState g" and ?g5 = "CFE_TIME_ToneDataCmd d t3 g4"
  let ?S5 = "CFE_TIME_GetReferenceState ?g5"
  let ?again = "PrevTime1 g = CFE_TIME_LatchClock t1 \<or> PrevTime2 g = CFE_TIME_LatchClock t3"
  have again: "?S5 = ?S \<and> VirtualMET ?g5 = VirtualMET g + 1 \<and> ToneMatchCounter ?g5 = ToneMatchCounter g
      \<and> ToneMatchErrorCounter ?g5 = ToneMatchErrorCounter g + 1" if ?again
    using tone_data_repeated [of g4 t3 d] that by (simp add: CFE_TIME_ToneDataCmd_def g4 S4)
  have forced: "?S5 = ?S \<and> VirtualMET ?g5 = VirtualMET g + 1 \<and> ToneMatchCounter ?g5 = ToneMatchCounter g + 1
      \<and> ToneMatchErrorCounter ?g5 = ToneMatchErrorCounter g" if "\<not> ?again" "Forced2Fly g"
    using tone_data_forced [OF _ _ w, of d] that by (simp add: CFE_TIME_ToneDataCmd_def g4 S4)
  have locked: "ToneMatchCounter ?g5 = ToneMatchCounter g + 1 \<and> ToneMatchErrorCounter ?g5 = ToneMatchErrorCounter g
      \<and> RS_AtToneLatch ?S5 = CFE_TIME_LatchClock t1 \<and> RS_ClockFlyState ?S5 = CFE_TIME_FlywheelState_NO_FLY
      \<and> RS_AtToneMET ?S5 = \<lparr>Seconds = (if RS_ClockFlyState ?S = CFE_TIME_FlywheelState_IS_FLY
                                       then Seconds (met_at t3 g) else VirtualMET g + 1), Subseconds = 0\<rparr>
      \<and> RS_AtToneSTCF ?S5 = RS_AtToneSTCF ?S \<and> RS_ClockSetState ?S5 = RS_ClockSetState ?S
      \<and> VirtualMET ?g5 = Seconds (RS_AtToneMET ?S5)" if "\<not> ?again" "\<not> Forced2Fly g"
    using tone_data_result [OF g4(1) _ _ w, of d] that by (simp add: CFE_TIME_ToneDataCmd_def g4 S4 met)
  show ?thesis
    unfolding Let_def
    by (rule exI [of _ g2], rule exI [of _ d], unfold g3_def [symmetric] g4_def [symmetric])
      (use again forced locked g2 g4(2) g3(3) in auto)
qed

text \<open>The first tone after start-up, one second later, and its data ten milliseconds after it.\<close>

theorem tone_locks_witness:
  "\<exists>g2 d. CFE_TIME_Tone1HzTask (CFE_TIME_Tone1HzISR 10000000 time_demo) = Some g2
    \<and> RS_ClockFlyState (CFE_TIME_GetReferenceState (CFE_TIME_ToneDataCmd d 10100000
        (CFE_TIME_ToneSendCmd 10050000 (CFE_TIME_ToneSignalCmd g2)))) = CFE_TIME_FlywheelState_NO_FLY"
proof -
  have r: "time_reach time_demo" unfolding time_demo_def by (rule time_reach.init)
  have f: "\<not> Forced2Fly time_demo"
    "PrevTime1 time_demo \<noteq> CFE_TIME_LatchClock 10000000" "PrevTime2 time_demo \<noteq> CFE_TIME_LatchClock 10100000"
    by code_simp+
  have h: "good_tone 10000000 time_demo"
    "tone_window (CFE_TIME_LatchClock 10000000) (CFE_TIME_LatchClock 10100000) time_demo"
    by code_simp+
  show ?thesis using tone_locks [OF r h, of 10050000] f by (auto simp: Let_def)
qed

end
