(* ===== verification/Lc_Defs.thy ===== *)
theory Lc_Defs
  imports Msg_Header
begin

section \<open>Limit checker: data\<close>

text \<open>
  The limit checker application (\<open>src/apps/lc\<close>) watches values in the messages on the software bus.
  A watchpoint compares one value with a constant; an actionpoint combines watchpoints by a formula in
  reverse Polish notation and requests a stored command sequence when it has failed often enough.

  The record \<open>lc\<close> holds \<open>LC_AppData\<close> and \<open>LC_OperData\<close>. A pointer to an element of the arrays
  \<open>MessageLinks\<close> and \<open>WatchPtLinks\<close> is its index, \<open>NULL\<close> is \<open>None\<close>. What the application hands to other
  services, namely events, subscriptions and messages, is appended to \<open>LC_Out\<close>. The union
  \<open>LC_MultiType_t\<close> is its 32-bit value: on the little-endian targets its smaller members are the low
  bits of that value.
\<close>

named_theorems lc_const

subsection \<open>Constants\<close>

definition LC_MAX_WATCHPOINTS :: nat where [lc_const]: "LC_MAX_WATCHPOINTS = 176"
definition LC_MAX_ACTIONPOINTS :: nat where [lc_const]: "LC_MAX_ACTIONPOINTS = 176"
definition LC_MAX_RPN_EQU_SIZE :: nat where [lc_const]: "LC_MAX_RPN_EQU_SIZE = 20"
definition LC_MAX_VALID_ADT_RTSID :: uint16 where [lc_const]: "LC_MAX_VALID_ADT_RTSID = 0xFFF0"
definition LC_HASH_TABLE_ENTRIES :: nat where [lc_const]: "LC_HASH_TABLE_ENTRIES = 256"
definition LC_HASH_TABLE_MASK :: uint32 where [lc_const]: "LC_HASH_TABLE_MASK = 0x00FF"
definition LC_ALL_ACTIONPOINTS :: uint16 where [lc_const]: "LC_ALL_ACTIONPOINTS = 0xFFFF"
definition LC_ALL_WATCHPOINTS :: uint16 where [lc_const]: "LC_ALL_WATCHPOINTS = 0xFFFF"

definition LC_DATA_WATCH_NOT_USED :: uint8 where [lc_const]: "LC_DATA_WATCH_NOT_USED = 0xFF"
definition LC_DATA_WATCH_BYTE :: uint8 where [lc_const]: "LC_DATA_WATCH_BYTE = 1"
definition LC_DATA_WATCH_UBYTE :: uint8 where [lc_const]: "LC_DATA_WATCH_UBYTE = 2"
definition LC_DATA_WATCH_WORD_BE :: uint8 where [lc_const]: "LC_DATA_WATCH_WORD_BE = 3"
definition LC_DATA_WATCH_WORD_LE :: uint8 where [lc_const]: "LC_DATA_WATCH_WORD_LE = 4"
definition LC_DATA_WATCH_UWORD_BE :: uint8 where [lc_const]: "LC_DATA_WATCH_UWORD_BE = 5"
definition LC_DATA_WATCH_UWORD_LE :: uint8 where [lc_const]: "LC_DATA_WATCH_UWORD_LE = 6"
definition LC_DATA_WATCH_DWORD_BE :: uint8 where [lc_const]: "LC_DATA_WATCH_DWORD_BE = 7"
definition LC_DATA_WATCH_DWORD_LE :: uint8 where [lc_const]: "LC_DATA_WATCH_DWORD_LE = 8"
definition LC_DATA_WATCH_UDWORD_BE :: uint8 where [lc_const]: "LC_DATA_WATCH_UDWORD_BE = 9"
definition LC_DATA_WATCH_UDWORD_LE :: uint8 where [lc_const]: "LC_DATA_WATCH_UDWORD_LE = 10"
definition LC_DATA_WATCH_FLOAT_BE :: uint8 where [lc_const]: "LC_DATA_WATCH_FLOAT_BE = 11"
definition LC_DATA_WATCH_FLOAT_LE :: uint8 where [lc_const]: "LC_DATA_WATCH_FLOAT_LE = 12"

definition LC_OPER_LT :: uint8 where [lc_const]: "LC_OPER_LT = 1"
definition LC_OPER_LE :: uint8 where [lc_const]: "LC_OPER_LE = 2"
definition LC_OPER_NE :: uint8 where [lc_const]: "LC_OPER_NE = 3"
definition LC_OPER_EQ :: uint8 where [lc_const]: "LC_OPER_EQ = 4"
definition LC_OPER_GE :: uint8 where [lc_const]: "LC_OPER_GE = 5"
definition LC_OPER_GT :: uint8 where [lc_const]: "LC_OPER_GT = 6"
definition LC_OPER_CUSTOM :: uint8 where [lc_const]: "LC_OPER_CUSTOM = 7"

definition LC_RPN_AND :: uint16 where [lc_const]: "LC_RPN_AND = 0xFFF1"
definition LC_RPN_OR :: uint16 where [lc_const]: "LC_RPN_OR = 0xFFF2"
definition LC_RPN_XOR :: uint16 where [lc_const]: "LC_RPN_XOR = 0xFFF3"
definition LC_RPN_NOT :: uint16 where [lc_const]: "LC_RPN_NOT = 0xFFF4"
definition LC_RPN_EQUAL :: uint16 where [lc_const]: "LC_RPN_EQUAL = 0xFFF5"

definition LC_WATCH_STALE :: uint8 where [lc_const]: "LC_WATCH_STALE = 0xFF"
definition LC_WATCH_FALSE :: uint8 where [lc_const]: "LC_WATCH_FALSE = 0"
definition LC_WATCH_TRUE :: uint8 where [lc_const]: "LC_WATCH_TRUE = 1"
definition LC_WATCH_ERROR :: uint8 where [lc_const]: "LC_WATCH_ERROR = 2"

definition LC_ACTION_STALE :: uint8 where [lc_const]: "LC_ACTION_STALE = 0xFF"
definition LC_ACTION_PASS :: uint8 where [lc_const]: "LC_ACTION_PASS = 0"
definition LC_ACTION_FAIL :: uint8 where [lc_const]: "LC_ACTION_FAIL = 1"
definition LC_ACTION_ERROR :: uint8 where [lc_const]: "LC_ACTION_ERROR = 2"

definition LC_STATE_ACTIVE :: uint8 where [lc_const]: "LC_STATE_ACTIVE = 1"
definition LC_STATE_PASSIVE :: uint8 where [lc_const]: "LC_STATE_PASSIVE = 2"
definition LC_STATE_DISABLED :: uint8 where [lc_const]: "LC_STATE_DISABLED = 3"

definition LC_APSTATE_NOT_USED :: uint8 where [lc_const]: "LC_APSTATE_NOT_USED = 0xFF"
definition LC_APSTATE_ACTIVE :: uint8 where [lc_const]: "LC_APSTATE_ACTIVE = 1"
definition LC_APSTATE_PASSIVE :: uint8 where [lc_const]: "LC_APSTATE_PASSIVE = 2"
definition LC_APSTATE_DISABLED :: uint8 where [lc_const]: "LC_APSTATE_DISABLED = 3"
definition LC_APSTATE_PERMOFF :: uint8 where [lc_const]: "LC_APSTATE_PERMOFF = 4"

definition CFE_EVS_EventType_DEBUG :: uint16 where [lc_const]: "CFE_EVS_EventType_DEBUG = 1"
definition CFE_EVS_EventType_INFORMATION :: uint16 where [lc_const]: "CFE_EVS_EventType_INFORMATION = 2"
definition CFE_EVS_EventType_ERROR :: uint16 where [lc_const]: "CFE_EVS_EventType_ERROR = 3"
definition CFE_EVS_EventType_CRITICAL :: uint16 where [lc_const]: "CFE_EVS_EventType_CRITICAL = 4"

definition LC_CMD_MID :: CFE_SB_MsgId where [lc_const]: "LC_CMD_MID = 0x181D"
definition LC_SEND_HK_MID :: CFE_SB_MsgId where [lc_const]: "LC_SEND_HK_MID = 0x181E"
definition LC_SAMPLE_AP_MID :: CFE_SB_MsgId where [lc_const]: "LC_SAMPLE_AP_MID = 0x181F"
definition LC_RTS_REQ_MID :: CFE_SB_MsgId where [lc_const]: "LC_RTS_REQ_MID = 0x18A9"
definition LC_RTS_REQ_CC :: uint16 where [lc_const]: "LC_RTS_REQ_CC = 4"

definition LC_NOOP_CC :: uint16 where [lc_const]: "LC_NOOP_CC = 0"
definition LC_RESET_CC :: uint16 where [lc_const]: "LC_RESET_CC = 1"
definition LC_SET_LC_STATE_CC :: uint16 where [lc_const]: "LC_SET_LC_STATE_CC = 2"
definition LC_SET_AP_STATE_CC :: uint16 where [lc_const]: "LC_SET_AP_STATE_CC = 3"
definition LC_SET_AP_PERM_OFF_CC :: uint16 where [lc_const]: "LC_SET_AP_PERM_OFF_CC = 4"
definition LC_RESET_AP_STATS_CC :: uint16 where [lc_const]: "LC_RESET_AP_STATS_CC = 5"
definition LC_RESET_WP_STATS_CC :: uint16 where [lc_const]: "LC_RESET_WP_STATS_CC = 6"

subsection \<open>Tables\<close>

type_synonym LC_MultiType = uint32

record LC_WDTEntry =
  DataType :: uint8
  OperatorID :: uint8
  WDT_MessageID :: CFE_SB_MsgId
  WatchpointOffset :: uint32
  BitMask :: uint32
  ComparisonValue :: LC_MultiType
  ResultAgeWhenStale :: uint32
  CustomFuncArgument :: uint32

record LC_WRTTransition =
  TransitionValue :: uint32
  TransitionDataType :: uint8
  TransitionTime :: CFE_TIME_SysTime

record LC_WRTEntry =
  WatchResult :: uint8
  CountdownToStale :: uint32
  EvaluationCount :: uint32
  FalseToTrueCount :: uint32
  ConsecutiveTrueCount :: uint32
  CumulativeTrueCount :: uint32
  LastFalseToTrue :: LC_WRTTransition
  LastTrueToFalse :: LC_WRTTransition

record LC_ADTEntry =
  DefaultState :: uint8
  MaxPassiveEvents :: uint8
  MaxPassFailEvents :: uint8
  MaxFailPassEvents :: uint8
  RTSId :: uint16
  MaxFailsBeforeRTS :: uint16
  RPNEquation :: "uint16 list"
  EventType :: uint16
  EventID :: uint16
  EventText :: string

record LC_ARTEntry =
  ActionResult :: uint8
  CurrentState :: uint8
  PassiveAPCount :: uint32
  FailToPassCount :: uint32
  PassToFailCount :: uint32
  ConsecutiveFailCount :: uint32
  CumulativeFailCount :: uint32
  CumulativeRTSExecCount :: uint32
  CumulativeEventMsgsSent :: uint32

subsection \<open>The lists of message IDs and of watchpoints\<close>

record LC_WatchPtList =
  WP_Next :: "nat option"
  WP_WatchIndex :: uint16

record LC_MessageList =
  ML_Next :: "nat option"
  ML_MessageID :: CFE_SB_MsgId
  ML_WatchPtList :: "nat option"

subsection \<open>What the application sends\<close>

datatype LC_Event =
    LC_WDT_GETADDR_ERR_EID | LC_ADT_GETADDR_ERR_EID
  | LC_CC_ERR_EID | LC_APSAMPLE_APNUM_ERR_EID | LC_NOOP_INF_EID | LC_RESET_INF_EID
  | LC_LCSTATE_INF_EID | LC_LCSTATE_ERR_EID | LC_APSTATE_NEW_ERR_EID | LC_APSTATE_CURR_ERR_EID
  | LC_APSTATE_APNUM_ERR_EID | LC_APSTATE_INF_EID | LC_APOFF_APNUM_ERR_EID | LC_APOFF_CURR_ERR_EID
  | LC_APOFF_INF_EID | LC_APSTATS_APNUM_ERR_EID | LC_APSTATS_INF_EID | LC_WPSTATS_WPNUM_ERR_EID
  | LC_WPSTATS_INF_EID | LC_HKREQ_LEN_ERR_EID | LC_APSAMPLE_LEN_ERR_EID | LC_CMD_LEN_ERR_EID
  | LC_UNSUB_WP_ERR_EID | LC_SUB_WP_ERR_EID
  | LC_WRT_NO_SAVE_ERR_EID | LC_ART_NO_SAVE_ERR_EID | LC_APP_NO_SAVE_START_ERR_EID
  | LC_MID_INF_EID | LC_WP_DATATYPE_ERR_EID | LC_WP_OPERID_ERR_EID | LC_WP_NAN_ERR_EID
  | LC_WP_OFFSET_ERR_EID | LC_WDTVAL_FPERR_EID | LC_WDTVAL_ERR_EID | LC_WDTVAL_INF_EID
  | LC_APSAMPLE_CURR_ERR_EID | LC_AP_PASSTOFAIL_INF_EID | LC_PASSIVE_FAIL_DBG_EID
  | LC_AP_PASSIVE_FAIL_INF_EID | LC_AP_FAILTOPASS_INF_EID | LC_ACTION_ERROR_ERR_EID
  | LC_INVALID_RPN_ERR_EID | LC_ADTVAL_RPNERR_EID | LC_ADTVAL_ERR_EID | LC_ADTVAL_INF_EID
  | LC_CFCALL_ERR_EID
  | LC_INIT_INF_EID | LC_TASK_EXIT_EID | LC_CR_PIPE_ERR_EID | LC_SUB_HK_REQ_ERR_EID | LC_SUB_GND_CMD_ERR_EID
  | LC_SUB_SAMPLE_CMD_ERR_EID | LC_WRT_REGISTER_ERR_EID | LC_WRT_GETADDR_ERR_EID | LC_ART_REGISTER_ERR_EID
  | LC_ART_GETADDR_ERR_EID | LC_WDT_REGISTER_CRIT_ERR_EID | LC_WDT_REGISTER_ERR_EID | LC_WDT_REREGISTER_ERR_EID
  | LC_ADT_REGISTER_CRIT_ERR_EID | LC_ADT_REGISTER_ERR_EID | LC_WRT_CDS_REGISTER_ERR_EID
  | LC_ART_CDS_REGISTER_ERR_EID | LC_APP_CDS_REGISTER_ERR_EID | LC_WDT_LOAD_ERR_EID | LC_ADT_LOAD_ERR_EID
  | LC_CDS_RESTORED_INF_EID | LC_CDS_UPDATED_INF_EID | LC_CDS_DISABLED_INF_EID

record LC_HkTlm_Payload =
  HK_CmdCount :: uint8
  HK_CmdErrCount :: uint8
  HK_CurrentLCState :: uint8
  HK_WPResults :: "uint8 list"
  HK_APResults :: "uint8 list"
  HK_PassiveRTSExecCount :: uint16
  HK_WPsInUse :: uint16
  HK_ActiveAPs :: uint16
  HK_APSampleCount :: uint32
  HK_MonitoredMsgCount :: uint32
  HK_RTSExecCount :: uint32

text \<open>An event of an actionpoint has the ID and the type of its table entry.\<close>

datatype lc_output =
    LC_Event LC_Event
  | LC_ActionEvent uint16 uint16
  | LC_Subscribe CFE_SB_MsgId
  | LC_Unsubscribe CFE_SB_MsgId
  | LC_Transmit message
  | LC_Housekeeping LC_HkTlm_Payload

subsection \<open>State\<close>

record lc =
  CmdCount :: uint16
  CmdErrCount :: uint16
  APSampleCount :: uint32
  MonitoredMsgCount :: uint32
  RTSExecCount :: uint32
  PassiveRTSExecCount :: uint16
  CDSSavedOnExit :: uint16
  CurrentLCState :: uint8
  WDT :: "LC_WDTEntry list"
  ADT :: "LC_ADTEntry list"
  WRT :: "LC_WRTEntry list"
  ART :: "LC_ARTEntry list"
  WatchpointCount :: uint16
  MessageIDsCount :: uint16
  HashTable :: "nat option list"
  MessageLinks :: "LC_MessageList list"
  WatchPtLinks :: "LC_WatchPtList list"
  TableResults :: uint32
  HaveActiveCDS :: bool
  LC_Out :: "lc_output list"

definition lc_send :: "lc_output \<Rightarrow> lc \<Rightarrow> lc" where
  "lc_send x s = s\<lparr>LC_Out := LC_Out s @ [x]\<rparr>"

abbreviation CFE_EVS_SendEvent_LC :: "LC_Event \<Rightarrow> lc \<Rightarrow> lc" where
  "CFE_EVS_SendEvent_LC e \<equiv> lc_send (LC_Event e)"

definition upd_wrt :: "nat \<Rightarrow> (LC_WRTEntry \<Rightarrow> LC_WRTEntry) \<Rightarrow> lc \<Rightarrow> lc" where
  "upd_wrt i f s = s\<lparr>WRT := (WRT s)[i := f (WRT s ! i)]\<rparr>"

definition upd_art :: "nat \<Rightarrow> (LC_ARTEntry \<Rightarrow> LC_ARTEntry) \<Rightarrow> lc \<Rightarrow> lc" where
  "upd_art i f s = s\<lparr>ART := (ART s)[i := f (ART s ! i)]\<rparr>"

lemma upd_wrt_sel [simp]:
  "WDT (upd_wrt i f s) = WDT s" "ADT (upd_wrt i f s) = ADT s" "ART (upd_wrt i f s) = ART s"
  "LC_Out (upd_wrt i f s) = LC_Out s" "WRT (upd_wrt i f s) = (WRT s)[i := f (WRT s ! i)]"
  "CurrentLCState (upd_wrt i f s) = CurrentLCState s" "HashTable (upd_wrt i f s) = HashTable s"
  "MessageLinks (upd_wrt i f s) = MessageLinks s" "WatchPtLinks (upd_wrt i f s) = WatchPtLinks s"
  "MessageIDsCount (upd_wrt i f s) = MessageIDsCount s" "WatchpointCount (upd_wrt i f s) = WatchpointCount s"
  by (simp_all add: upd_wrt_def)

lemma upd_art_sel [simp]:
  "WDT (upd_art i f s) = WDT s" "ADT (upd_art i f s) = ADT s" "WRT (upd_art i f s) = WRT s"
  "LC_Out (upd_art i f s) = LC_Out s" "ART (upd_art i f s) = (ART s)[i := f (ART s ! i)]"
  "CurrentLCState (upd_art i f s) = CurrentLCState s" "HashTable (upd_art i f s) = HashTable s"
  "MessageLinks (upd_art i f s) = MessageLinks s" "WatchPtLinks (upd_art i f s) = WatchPtLinks s"
  "MessageIDsCount (upd_art i f s) = MessageIDsCount s" "WatchpointCount (upd_art i f s) = WatchpointCount s"
  by (simp_all add: upd_art_def)

lemma lc_send_sel [simp]:
  "WDT (lc_send x s) = WDT s" "ADT (lc_send x s) = ADT s" "WRT (lc_send x s) = WRT s"
  "ART (lc_send x s) = ART s" "LC_Out (lc_send x s) = LC_Out s @ [x]"
  "CurrentLCState (lc_send x s) = CurrentLCState s" "HashTable (lc_send x s) = HashTable s"
  "MessageLinks (lc_send x s) = MessageLinks s" "WatchPtLinks (lc_send x s) = WatchPtLinks s"
  "MessageIDsCount (lc_send x s) = MessageIDsCount s" "WatchpointCount (lc_send x s) = WatchpointCount s"
  "TableResults (lc_send x s) = TableResults s" "HaveActiveCDS (lc_send x s) = HaveActiveCDS s"
  by (simp_all add: lc_send_def)

end
