(* ===== verification/Lc_Action.thy ===== *)
theory Lc_Action
  imports Lc_Defs
begin

section \<open>Limit checker: actionpoints\<close>

text \<open>
  The routines of \<open>lc_action.c\<close> and the request for a stored command sequence (\<open>lc_custom.c\<close>). The stack of
  \<open>LC_EvaluateRPN\<close> is a list with its top first; its length is \<open>StackPtr\<close>. The rest of the equation is
  the part of the array \<open>RPNEquation\<close> that \<open>RPNEquationPtr\<close> has not passed.
\<close>

subsection \<open>Evaluating an equation\<close>

record rpn =
  Done :: bool
  IllegalRPN :: bool
  IllegalOperand :: bool
  EvalResult :: uint8
  RPNStack :: "uint16 list"

text \<open>\<open>POP_RPN_DATA\<close>: on an empty stack the value is that of the assignment \<open>IllegalRPN = true\<close>.\<close>

definition pop_rpn :: "rpn \<Rightarrow> uint16 \<times> rpn" where
  "pop_rpn st = (case RPNStack st of [] \<Rightarrow> (1, st\<lparr>IllegalRPN := True\<rparr>) | x # xs \<Rightarrow> (x, st\<lparr>RPNStack := xs\<rparr>))"

definition push_rpn :: "uint16 \<Rightarrow> rpn \<Rightarrow> rpn" where
  "push_rpn v st = st\<lparr>RPNStack := v # RPNStack st\<rparr>"

abbreviation watch16 :: "uint8 \<Rightarrow> uint16" where
  "watch16 r \<equiv> ucast r"

definition rpn_and :: "uint16 \<Rightarrow> uint16 \<Rightarrow> uint16" where
  "rpn_and Operand1 Operand2 =
     (if Operand1 = watch16 LC_WATCH_FALSE \<or> Operand2 = watch16 LC_WATCH_FALSE then watch16 LC_WATCH_FALSE
      else if Operand1 = watch16 LC_WATCH_ERROR \<or> Operand2 = watch16 LC_WATCH_ERROR then watch16 LC_WATCH_ERROR
      else if Operand1 = watch16 LC_WATCH_STALE \<or> Operand2 = watch16 LC_WATCH_STALE then watch16 LC_WATCH_STALE
      else watch16 LC_WATCH_TRUE)"

definition rpn_or :: "uint16 \<Rightarrow> uint16 \<Rightarrow> uint16" where
  "rpn_or Operand1 Operand2 =
     (if Operand1 = watch16 LC_WATCH_TRUE \<or> Operand2 = watch16 LC_WATCH_TRUE then watch16 LC_WATCH_TRUE
      else if Operand1 = watch16 LC_WATCH_ERROR \<or> Operand2 = watch16 LC_WATCH_ERROR then watch16 LC_WATCH_ERROR
      else if Operand1 = watch16 LC_WATCH_STALE \<or> Operand2 = watch16 LC_WATCH_STALE then watch16 LC_WATCH_STALE
      else watch16 LC_WATCH_FALSE)"

definition rpn_xor :: "uint16 \<Rightarrow> uint16 \<Rightarrow> uint16" where
  "rpn_xor Operand1 Operand2 =
     (if Operand1 = watch16 LC_WATCH_ERROR \<or> Operand2 = watch16 LC_WATCH_ERROR then watch16 LC_WATCH_ERROR
      else if Operand1 = watch16 LC_WATCH_STALE \<or> Operand2 = watch16 LC_WATCH_STALE then watch16 LC_WATCH_STALE
      else if Operand1 \<noteq> Operand2 then 1 else 0)"

definition rpn_not :: "uint16 \<Rightarrow> uint16" where
  "rpn_not Operand1 =
     (if Operand1 = watch16 LC_WATCH_ERROR then watch16 LC_WATCH_ERROR
      else if Operand1 = watch16 LC_WATCH_STALE then watch16 LC_WATCH_STALE
      else if Operand1 = watch16 LC_WATCH_FALSE then 1 else 0)"

definition rpn_binary :: "(uint16 \<Rightarrow> uint16 \<Rightarrow> uint16) \<Rightarrow> rpn \<Rightarrow> rpn" where
  "rpn_binary f st =
     (let (Operand2, st1) = pop_rpn st; (Operand1, st2) = pop_rpn st1 in push_rpn (f Operand1 Operand2) st2)"

definition rpn_unary :: "(uint16 \<Rightarrow> uint16) \<Rightarrow> rpn \<Rightarrow> rpn" where
  "rpn_unary f st = (let (Operand1, st1) = pop_rpn st in push_rpn (f Operand1) st1)"

definition rpn_equal :: "rpn \<Rightarrow> rpn" where
  "rpn_equal st =
     (let (v, st1) = pop_rpn st; st2 = st1\<lparr>EvalResult := ucast v\<rparr>
      in if EvalResult st2 = LC_WATCH_ERROR \<or> EvalResult st2 = LC_WATCH_STALE then st2\<lparr>IllegalOperand := True\<rparr>
         else if RPNStack st2 = [] then st2\<lparr>Done := True\<rparr>
         else st2\<lparr>IllegalRPN := True\<rparr>)"

definition rpn_step :: "LC_WRTEntry list \<Rightarrow> uint16 \<Rightarrow> rpn \<Rightarrow> rpn" where
  "rpn_step wrt RPNData st =
     (if RPNData = LC_RPN_AND then rpn_binary rpn_and st
      else if RPNData = LC_RPN_OR then rpn_binary rpn_or st
      else if RPNData = LC_RPN_XOR then rpn_binary rpn_xor st
      else if RPNData = LC_RPN_NOT then rpn_unary rpn_not st
      else if RPNData = LC_RPN_EQUAL then rpn_equal st
      else if unat RPNData < LC_MAX_WATCHPOINTS then push_rpn (ucast (WatchResult (wrt ! unat RPNData))) st
      else st\<lparr>IllegalRPN := True\<rparr>)"

definition rpn_running :: "rpn \<Rightarrow> bool" where
  "rpn_running st \<longleftrightarrow> \<not> Done st \<and> \<not> IllegalRPN st \<and> \<not> IllegalOperand st"

fun rpn_loop :: "LC_WRTEntry list \<Rightarrow> uint16 list \<Rightarrow> rpn \<Rightarrow> rpn" where
  "rpn_loop wrt [] st = st"
| "rpn_loop wrt (RPNData # rest) st =
     (let st1 = rpn_step wrt RPNData st
      in if rpn_running st1 then
           (if rest = [] then st1\<lparr>IllegalRPN := True\<rparr> else rpn_loop wrt rest st1)
         else st1)"

definition LC_EvaluateRPN :: "nat \<Rightarrow> lc \<Rightarrow> uint8 \<times> lc" where
  "LC_EvaluateRPN APNumber s =
     (let st = rpn_loop (WRT s) (RPNEquation (ADT s ! APNumber))
                 \<lparr>Done = False, IllegalRPN = False, IllegalOperand = False, EvalResult = LC_ACTION_ERROR, RPNStack = []\<rparr>
      in if IllegalRPN st then (LC_ACTION_ERROR, CFE_EVS_SendEvent_LC LC_INVALID_RPN_ERR_EID s)
         else if EvalResult st = LC_WATCH_ERROR then (LC_ACTION_ERROR, s)
         else if EvalResult st = LC_WATCH_STALE then (LC_ACTION_STALE, s)
         else if EvalResult st = LC_WATCH_FALSE then (LC_ACTION_PASS, s)
         else if EvalResult st = LC_WATCH_TRUE then (LC_ACTION_FAIL, s)
         else (EvalResult st, s))"

subsection \<open>Validating the definition table\<close>

datatype LC_ADTVAL =
    LC_ADTVAL_ERR_NONE | LC_ADTVAL_ERR_DEFSTATE | LC_ADTVAL_ERR_RTSID | LC_ADTVAL_ERR_FAILCNT
  | LC_ADTVAL_ERR_EVTTYPE | LC_ADTVAL_ERR_RPN

text \<open>The loop returns the item it looked at last and the stack depth.\<close>

fun validate_loop :: "uint16 list \<Rightarrow> uint16 \<Rightarrow> int \<Rightarrow> uint16 \<times> int" where
  "validate_loop [] BufferItem StackDepth = (BufferItem, StackDepth)"
| "validate_loop (x # rest) BufferItem StackDepth =
     (if x = LC_RPN_AND \<or> x = LC_RPN_OR \<or> x = LC_RPN_XOR then
        (if StackDepth - 1 \<le> 0 then (x, StackDepth - 1) else validate_loop rest x (StackDepth - 1))
      else if x = LC_RPN_NOT then
        (if StackDepth \<le> 0 then (x, StackDepth) else validate_loop rest x StackDepth)
      else if x = LC_RPN_EQUAL then (x, StackDepth)
      else if unat x < LC_MAX_WATCHPOINTS then
        (if StackDepth + 1 \<le> 0 then (x, StackDepth + 1) else validate_loop rest x (StackDepth + 1))
      else (x, StackDepth))"

definition LC_ValidateRPN :: "uint16 list \<Rightarrow> LC_ADTVAL" where
  "LC_ValidateRPN RPN =
     (let (BufferItem, StackDepth) = validate_loop RPN 0 0
      in if BufferItem = LC_RPN_EQUAL \<and> StackDepth = 1 then LC_ADTVAL_ERR_NONE else LC_ADTVAL_ERR_RPN)"

definition validate_adt_entry :: "LC_ADTEntry \<Rightarrow> LC_ADTVAL" where
  "validate_adt_entry a =
     (if DefaultState a = LC_APSTATE_NOT_USED then LC_ADTVAL_ERR_NONE
      else if DefaultState a \<noteq> LC_APSTATE_ACTIVE \<and> DefaultState a \<noteq> LC_APSTATE_PASSIVE
        \<and> DefaultState a \<noteq> LC_APSTATE_DISABLED \<and> DefaultState a \<noteq> LC_APSTATE_PERMOFF then LC_ADTVAL_ERR_DEFSTATE
      else if RTSId a > LC_MAX_VALID_ADT_RTSID then LC_ADTVAL_ERR_RTSID
      else if MaxFailsBeforeRTS a = 0 then LC_ADTVAL_ERR_FAILCNT
      else if EventType a \<noteq> CFE_EVS_EventType_DEBUG \<and> EventType a \<noteq> CFE_EVS_EventType_INFORMATION
        \<and> EventType a \<noteq> CFE_EVS_EventType_ERROR \<and> EventType a \<noteq> CFE_EVS_EventType_CRITICAL
      then LC_ADTVAL_ERR_EVTTYPE
      else LC_ValidateRPN (RPNEquation a))"

text \<open>
  The loop over the table with the result of the entry before, which an unused entry does not
  change, and the first error, for which an event is sent.
\<close>

fun validate_adt_loop :: "LC_ADTEntry list \<Rightarrow> LC_ADTVAL \<Rightarrow> LC_ADTVAL \<Rightarrow> lc \<Rightarrow> LC_ADTVAL \<times> lc" where
  "validate_adt_loop [] EntryResult TableResult s = (TableResult, s)"
| "validate_adt_loop (a # rest) EntryResult TableResult s =
     (let er = (if DefaultState a = LC_APSTATE_NOT_USED then EntryResult else validate_adt_entry a)
      in if er \<noteq> LC_ADTVAL_ERR_NONE \<and> TableResult = LC_ADTVAL_ERR_NONE
         then validate_adt_loop rest er er
                (CFE_EVS_SendEvent_LC (if er = LC_ADTVAL_ERR_RPN then LC_ADTVAL_RPNERR_EID else LC_ADTVAL_ERR_EID) s)
         else validate_adt_loop rest er TableResult s)"

definition LC_ValidateADT :: "LC_ADTEntry list \<Rightarrow> lc \<Rightarrow> LC_ADTVAL \<times> lc" where
  "LC_ValidateADT TableArray s =
     (let (r, s1) = validate_adt_loop (take LC_MAX_ACTIONPOINTS TableArray) LC_ADTVAL_ERR_NONE LC_ADTVAL_ERR_NONE s
      in (r, CFE_EVS_SendEvent_LC LC_ADTVAL_INF_EID s1))"

subsection \<open>Sampling\<close>

text \<open>The command that asks the stored command application for a sequence, 12 bytes with the ID in its payload.\<close>

definition LC_ExecuteRTS :: "uint16 \<Rightarrow> lc \<Rightarrow> lc" where
  "LC_ExecuteRTS RTS s =
     (let p0 = Some (replicate 12 0);
          p1 = snd (CFE_MSG_Init p0 LC_RTS_REQ_MID 12);
          p2 = snd (CFE_MSG_SetFcnCode p1 LC_RTS_REQ_CC)
      in case p2 of
           None \<Rightarrow> s
         | Some m \<Rightarrow> lc_send (LC_Transmit (m[8 := ucast RTS, 9 := ucast (drop_bit 8 RTS)])) s)"

definition ap_event :: "nat \<Rightarrow> lc_output \<Rightarrow> lc \<Rightarrow> lc" where
  "ap_event APNumber e s =
     upd_art APNumber (\<lambda>r. r\<lparr>CumulativeEventMsgsSent := CumulativeEventMsgsSent r + 1\<rparr>) (lc_send e s)"

text \<open>An event that is sent only while a counter of the actionpoint is within a limit of its table entry.\<close>

definition limited_event :: "nat \<Rightarrow> uint32 \<Rightarrow> uint8 \<Rightarrow> LC_Event \<Rightarrow> lc \<Rightarrow> lc" where
  "limited_event APNumber count limit e s =
     (if count \<le> ucast limit then ap_event APNumber (LC_Event e) s else s)"

text \<open>The actionpoint has failed often enough.\<close>

definition rts_due :: "nat \<Rightarrow> uint8 \<Rightarrow> lc \<Rightarrow> lc" where
  "rts_due APNumber CurrentAPState s =
     (let d = ADT s ! APNumber
      in if CurrentAPState = LC_APSTATE_ACTIVE then
           (let s1 = upd_art APNumber (\<lambda>r. r\<lparr>CurrentState := LC_APSTATE_PASSIVE\<rparr>) s
            in if CurrentLCState s1 = LC_STATE_ACTIVE then
                 (let s2 = LC_ExecuteRTS (RTSId d) s1;
                      s3 = upd_art APNumber (\<lambda>r. r\<lparr>CumulativeRTSExecCount := CumulativeRTSExecCount r + 1\<rparr>) s2;
                      s4 = s3\<lparr>RTSExecCount := RTSExecCount s3 + 1\<rparr>
                  in ap_event APNumber (LC_ActionEvent (EventID d) (EventType d)) s4)
               else CFE_EVS_SendEvent_LC LC_PASSIVE_FAIL_DBG_EID
                      (s1\<lparr>PassiveRTSExecCount := PassiveRTSExecCount s1 + 1\<rparr>))
         else
           (let s1 = upd_art APNumber (\<lambda>r. r\<lparr>PassiveAPCount := PassiveAPCount r + 1\<rparr>) s;
                s2 = s1\<lparr>PassiveRTSExecCount := PassiveRTSExecCount s1 + 1\<rparr>
            in limited_event APNumber (PassiveAPCount (ART s2 ! APNumber)) (MaxPassiveEvents d)
                 LC_AP_PASSIVE_FAIL_INF_EID s2))"

definition ap_failed :: "nat \<Rightarrow> uint8 \<Rightarrow> uint8 \<Rightarrow> lc \<Rightarrow> lc" where
  "ap_failed APNumber CurrentAPState PreviousResult s =
     (let d = ADT s ! APNumber;
          s1 = upd_art APNumber (\<lambda>r. r\<lparr>ConsecutiveFailCount := ConsecutiveFailCount r + 1,
                                      CumulativeFailCount := CumulativeFailCount r + 1\<rparr>) s;
          s2 = (if PreviousResult = LC_ACTION_PASS then
                  (let t = upd_art APNumber (\<lambda>r. r\<lparr>PassToFailCount := PassToFailCount r + 1\<rparr>) s1
                   in limited_event APNumber (PassToFailCount (ART t ! APNumber)) (MaxPassFailEvents d)
                        LC_AP_PASSTOFAIL_INF_EID t)
                else s1)
      in if ConsecutiveFailCount (ART s2 ! APNumber) \<ge> ucast (MaxFailsBeforeRTS d)
         then rts_due APNumber CurrentAPState s2 else s2)"

definition ap_passed :: "nat \<Rightarrow> uint8 \<Rightarrow> lc \<Rightarrow> lc" where
  "ap_passed APNumber PreviousResult s =
     (let d = ADT s ! APNumber;
          s1 = (if PreviousResult = LC_ACTION_FAIL then
                  (let t = upd_art APNumber (\<lambda>r. r\<lparr>FailToPassCount := FailToPassCount r + 1\<rparr>) s
                   in limited_event APNumber (FailToPassCount (ART t ! APNumber)) (MaxFailPassEvents d)
                        LC_AP_FAILTOPASS_INF_EID t)
                else s)
      in upd_art APNumber (\<lambda>r. r\<lparr>ConsecutiveFailCount := 0\<rparr>) s1)"

definition LC_SampleSingleAP :: "nat \<Rightarrow> lc \<Rightarrow> lc" where
  "LC_SampleSingleAP APNumber s =
     (let CurrentAPState = CurrentState (ART s ! APNumber)
      in if CurrentAPState = LC_APSTATE_ACTIVE \<or> CurrentAPState = LC_APSTATE_PASSIVE then
           (let s1 = s\<lparr>APSampleCount := APSampleCount s + 1\<rparr>;
                PreviousResult = ActionResult (ART s1 ! APNumber);
                (CurrentResult, s2) = LC_EvaluateRPN APNumber s1;
                s3 = upd_art APNumber (\<lambda>r. r\<lparr>ActionResult := CurrentResult\<rparr>) s2
            in if CurrentResult = LC_ACTION_FAIL then ap_failed APNumber CurrentAPState PreviousResult s3
               else if CurrentResult = LC_ACTION_PASS then ap_passed APNumber PreviousResult s3
               else if CurrentResult = LC_ACTION_STALE
               then upd_art APNumber (\<lambda>r. r\<lparr>ConsecutiveFailCount := 0\<rparr>) s3
               else CFE_EVS_SendEvent_LC LC_ACTION_ERROR_ERR_EID s3)
         else s)"

definition LC_SampleAPs :: "nat \<Rightarrow> nat \<Rightarrow> lc \<Rightarrow> lc" where
  "LC_SampleAPs StartIndex EndIndex s =
     (let CurrentAPState = CurrentState (ART s ! StartIndex)
      in if CurrentAPState \<noteq> LC_APSTATE_NOT_USED \<and> CurrentAPState \<noteq> LC_APSTATE_PERMOFF
         then fold LC_SampleSingleAP [StartIndex..<Suc EndIndex] s
         else CFE_EVS_SendEvent_LC LC_APSAMPLE_CURR_ERR_EID s)"

end
