(* ===== verification/Lc_Watch.thy ===== *)
theory Lc_Watch
  imports Lc_Defs
begin

section \<open>Limit checker: evaluating a watchpoint\<close>

text \<open>
  The part of \<open>lc_watch.c\<close> that takes a value out of a message, compares it, and records the result.
  A message is its bytes; the pointer to the value is the tail of the message from the offset. The
  routines that report an event or mark a result return the state besides their value.
\<close>

subsection \<open>Values in a message\<close>

text \<open>The bytes of \<open>LC_MultiType_t\<close> in memory, and the value of four bytes.\<close>

definition multi_bytes :: "LC_MultiType \<Rightarrow> uint8 list" where
  "multi_bytes v = [ucast v, ucast (drop_bit 8 v), ucast (drop_bit 16 v), ucast (drop_bit 24 v)]"

definition multi_value :: "uint8 list \<Rightarrow> LC_MultiType" where
  "multi_value bs = ucast (bs ! 0) OR push_bit 8 (ucast (bs ! 1)) OR push_bit 16 (ucast (bs ! 2))
     OR push_bit 24 (ucast (bs ! 3))"

definition LC_16BIT_BE_VAL :: uint32 where [lc_const]: "LC_16BIT_BE_VAL = 0x0001"
definition LC_16BIT_LE_VAL :: uint32 where [lc_const]: "LC_16BIT_LE_VAL = 0x0100"
definition LC_32BIT_BE_VAL :: uint32 where [lc_const]: "LC_32BIT_BE_VAL = 0x00010203"
definition LC_32BIT_LE_VAL :: uint32 where [lc_const]: "LC_32BIT_LE_VAL = 0x03020100"

primrec copy_swapped :: "uint8 list \<Rightarrow> uint8 list \<Rightarrow> nat \<Rightarrow> uint8 list \<Rightarrow> uint8 list" where
  "copy_swapped Src Map 0 Dest = Dest"
| "copy_swapped Src Map (Suc n) Dest =
     copy_swapped Src Map n (Dest[n := Src ! unat (Map ! n AND 0x3)])"

definition LC_CopyBytesWithSwap :: "LC_MultiType \<Rightarrow> uint8 list \<Rightarrow> LC_MultiType \<Rightarrow> nat \<Rightarrow> LC_MultiType" where
  "LC_CopyBytesWithSwap DestBuffer Src SwapMap NumBytes =
     multi_value (copy_swapped Src (multi_bytes SwapMap) NumBytes (multi_bytes DestBuffer))"

text \<open>The watchpoint cannot be evaluated: its result is an error, and it will not become stale.\<close>

definition watch_error :: "nat \<Rightarrow> LC_Event \<Rightarrow> lc \<Rightarrow> lc" where
  "watch_error i e s =
     upd_wrt i (\<lambda>r. r\<lparr>WatchResult := LC_WATCH_ERROR, CountdownToStale := 0\<rparr>) (CFE_EVS_SendEvent_LC e s)"

definition LC_GetSizedWPData :: "nat \<Rightarrow> uint8 list \<Rightarrow> lc \<Rightarrow> (bool \<times> uint32) \<times> lc" where
  "LC_GetSizedWPData WatchIndex Src s =
     (let dt = DataType (WDT s ! WatchIndex);
          swapped = (\<lambda>Map n. LC_CopyBytesWithSwap 0 Src Map n)
      in if dt = LC_DATA_WATCH_BYTE then ((True, scast (Src ! 0)), s)
         else if dt = LC_DATA_WATCH_UBYTE then ((True, ucast (Src ! 0)), s)
         else if dt = LC_DATA_WATCH_WORD_BE
         then ((True, scast (ucast (swapped LC_16BIT_BE_VAL 2) :: uint16)), s)
         else if dt = LC_DATA_WATCH_WORD_LE
         then ((True, scast (ucast (swapped LC_16BIT_LE_VAL 2) :: uint16)), s)
         else if dt = LC_DATA_WATCH_UWORD_BE
         then ((True, ucast (ucast (swapped LC_16BIT_BE_VAL 2) :: uint16)), s)
         else if dt = LC_DATA_WATCH_UWORD_LE
         then ((True, ucast (ucast (swapped LC_16BIT_LE_VAL 2) :: uint16)), s)
         else if dt \<in> {LC_DATA_WATCH_DWORD_BE, LC_DATA_WATCH_UDWORD_BE, LC_DATA_WATCH_FLOAT_BE}
         then ((True, swapped LC_32BIT_BE_VAL 4), s)
         else if dt \<in> {LC_DATA_WATCH_DWORD_LE, LC_DATA_WATCH_UDWORD_LE, LC_DATA_WATCH_FLOAT_LE}
         then ((True, swapped LC_32BIT_LE_VAL 4), s)
         else ((False, 0), watch_error WatchIndex LC_WP_DATATYPE_ERR_EID s))"

text \<open>The number of bytes of a data type, from the switch in \<open>LC_WPOffsetValid\<close>.\<close>

definition wp_num_bytes :: "uint8 \<Rightarrow> uint32 option" where
  "wp_num_bytes dt =
     (if dt \<in> {LC_DATA_WATCH_BYTE, LC_DATA_WATCH_UBYTE} then Some 1
      else if dt \<in> {LC_DATA_WATCH_WORD_BE, LC_DATA_WATCH_WORD_LE,
                    LC_DATA_WATCH_UWORD_BE, LC_DATA_WATCH_UWORD_LE} then Some 2
      else if dt \<in> {LC_DATA_WATCH_DWORD_BE, LC_DATA_WATCH_DWORD_LE, LC_DATA_WATCH_UDWORD_BE,
                    LC_DATA_WATCH_UDWORD_LE, LC_DATA_WATCH_FLOAT_BE, LC_DATA_WATCH_FLOAT_LE} then Some 4
      else None)"

definition LC_WPOffsetValid :: "nat \<Rightarrow> message \<Rightarrow> lc \<Rightarrow> bool \<times> lc" where
  "LC_WPOffsetValid WatchIndex Buf s =
     (case wp_num_bytes (DataType (WDT s ! WatchIndex)) of
        None \<Rightarrow> (False, watch_error WatchIndex LC_WP_DATATYPE_ERR_EID s)
      | Some NumOfDataBytes \<Rightarrow>
          (let MsgLength = (case CFE_MSG_GetSize (Some Buf) True of Inl _ \<Rightarrow> 0 | Inr n \<Rightarrow> n);
               Offset = WatchpointOffset (WDT s ! WatchIndex)
           in if MsgLength < ucast (Offset + NumOfDataBytes)
              then (False, watch_error WatchIndex LC_WP_OFFSET_ERR_EID s)
              else (True, s)))"

subsection \<open>Comparisons\<close>

definition watch_bool :: "bool \<Rightarrow> uint8" where
  "watch_bool b = (if b then LC_WATCH_TRUE else LC_WATCH_FALSE)"

definition LC_SignedCompare :: "nat \<Rightarrow> uint32 \<Rightarrow> uint32 \<Rightarrow> lc \<Rightarrow> uint8 \<times> lc" where
  "LC_SignedCompare WatchIndex WPValue CompareValue s =
     (let oper = OperatorID (WDT s ! WatchIndex); v = sint WPValue; c = sint CompareValue
      in if oper = LC_OPER_LE then (watch_bool (v \<le> c), s)
         else if oper = LC_OPER_LT then (watch_bool (v < c), s)
         else if oper = LC_OPER_EQ then (watch_bool (v = c), s)
         else if oper = LC_OPER_NE then (watch_bool (v \<noteq> c), s)
         else if oper = LC_OPER_GT then (watch_bool (v > c), s)
         else if oper = LC_OPER_GE then (watch_bool (v \<ge> c), s)
         else (LC_WATCH_ERROR, CFE_EVS_SendEvent_LC LC_WP_OPERID_ERR_EID s))"

definition LC_UnsignedCompare :: "nat \<Rightarrow> uint32 \<Rightarrow> uint32 \<Rightarrow> lc \<Rightarrow> uint8 \<times> lc" where
  "LC_UnsignedCompare WatchIndex WPValue CompareValue s =
     (let oper = OperatorID (WDT s ! WatchIndex)
      in if oper = LC_OPER_LE then (watch_bool (WPValue \<le> CompareValue), s)
         else if oper = LC_OPER_LT then (watch_bool (WPValue < CompareValue), s)
         else if oper = LC_OPER_EQ then (watch_bool (WPValue = CompareValue), s)
         else if oper = LC_OPER_NE then (watch_bool (WPValue \<noteq> CompareValue), s)
         else if oper = LC_OPER_GT then (watch_bool (WPValue > CompareValue), s)
         else if oper = LC_OPER_GE then (watch_bool (WPValue \<ge> CompareValue), s)
         else (LC_WATCH_ERROR, CFE_EVS_SendEvent_LC LC_WP_OPERID_ERR_EID s))"

text \<open>
  A \<open>float\<close> is IEEE-754 binary32, given by its bits. \<open>float_units\<close> is its value in units of the smallest
  positive float, which is a whole number for each finite float; the two infinities get a value beyond all finite
  ones. \<open>float_diff\<close> is the difference of a larger and a smaller float, rounded to the nearest float
  with ties to even; infinity minus infinity is not a number.
\<close>

definition LC_IEEE_EXPONENT_MASK :: uint32 where [lc_const]: "LC_IEEE_EXPONENT_MASK = 0x7F800000"
definition LC_IEEE_FRACTION_MASK :: uint32 where [lc_const]: "LC_IEEE_FRACTION_MASK = 0x007FFFFF"

definition float_isnan :: "uint32 \<Rightarrow> bool" where
  "float_isnan w \<longleftrightarrow> w AND LC_IEEE_EXPONENT_MASK = LC_IEEE_EXPONENT_MASK \<and> w AND LC_IEEE_FRACTION_MASK \<noteq> 0"

definition float_isfinite :: "uint32 \<Rightarrow> bool" where
  "float_isfinite w \<longleftrightarrow> w AND LC_IEEE_EXPONENT_MASK \<noteq> LC_IEEE_EXPONENT_MASK"

definition float_units :: "uint32 \<Rightarrow> int" where
  "float_units w =
     (let f = uint (w AND LC_IEEE_FRACTION_MASK); e = unat (drop_bit 23 (w AND LC_IEEE_EXPONENT_MASK));
          m = (if e = 0 then f else (2 ^ 23 + f) * 2 ^ (e - 1))
      in if bit w 31 then - m else m)"

text \<open>
  A natural number rounded to 24 significant bits, by halving: \<open>sticky\<close> says whether a one bit was
  dropped below the last one dropped.
\<close>

function round24 :: "nat \<Rightarrow> bool \<Rightarrow> nat \<Rightarrow> nat" where
  "round24 n sticky e =
     (if n < 2 ^ 25
      then (if n < 2 ^ 24 \<and> e = 0 then n
            else (n div 2 + (if odd n \<and> (sticky \<or> odd (n div 2)) then 1 else 0)) * 2 ^ (e + 1))
      else round24 (n div 2) (sticky \<or> odd n) (e + 1))"
  by pat_completeness auto
termination by (relation "measure fst") auto

declare round24.simps [simp del]

definition float_diff :: "uint32 \<Rightarrow> uint32 \<Rightarrow> nat option" where
  "float_diff a b =
     (if \<not> float_isfinite a \<and> \<not> float_isfinite b \<and> float_units a = float_units b then None
      else Some (round24 (nat (float_units a - float_units b)) False 0))"

definition LC_FLOAT_TOLERANCE :: nat where "LC_FLOAT_TOLERANCE = 71362386029824704512"

definition LC_FloatCompare :: "nat \<Rightarrow> LC_MultiType \<Rightarrow> LC_MultiType \<Rightarrow> lc \<Rightarrow> uint8 \<times> lc" where
  "LC_FloatCompare WatchIndex WPFloat CompareFloat s =
     (let oper = OperatorID (WDT s ! WatchIndex); v = float_units WPFloat; c = float_units CompareFloat;
          ordered = \<not> float_isnan CompareFloat;
          Diff = (if \<not> ordered then None
                  else if v > c then float_diff WPFloat CompareFloat else float_diff CompareFloat WPFloat)
      in if \<not> float_isnan WPFloat then
           if oper = LC_OPER_LE then (watch_bool (ordered \<and> v \<le> c), s)
           else if oper = LC_OPER_LT then (watch_bool (ordered \<and> v < c), s)
           else if oper = LC_OPER_EQ
           then (watch_bool (case Diff of None \<Rightarrow> False | Some d \<Rightarrow> d \<le> LC_FLOAT_TOLERANCE), s)
           else if oper = LC_OPER_NE
           then (watch_bool (case Diff of None \<Rightarrow> False | Some d \<Rightarrow> d > LC_FLOAT_TOLERANCE), s)
           else if oper = LC_OPER_GT then (watch_bool (ordered \<and> v > c), s)
           else if oper = LC_OPER_GE then (watch_bool (ordered \<and> v \<ge> c), s)
           else (LC_WATCH_ERROR, CFE_EVS_SendEvent_LC LC_WP_OPERID_ERR_EID s)
         else (LC_WATCH_ERROR, CFE_EVS_SendEvent_LC LC_WP_NAN_ERR_EID s))"

text \<open>The value and the constant are cut to the size of the data type before they are compared.\<close>

definition LC_OperatorCompare :: "nat \<Rightarrow> uint32 \<Rightarrow> lc \<Rightarrow> uint8 \<times> lc" where
  "LC_OperatorCompare WatchIndex ProcessedWPData s =
     (let dt = DataType (WDT s ! WatchIndex); cv = ComparisonValue (WDT s ! WatchIndex);
          wv = (if dt \<in> {LC_DATA_WATCH_UBYTE, LC_DATA_WATCH_BYTE} then ProcessedWPData AND 0xFF
                else if dt \<in> {LC_DATA_WATCH_WORD_BE, LC_DATA_WATCH_WORD_LE,
                              LC_DATA_WATCH_UWORD_BE, LC_DATA_WATCH_UWORD_LE} then ProcessedWPData AND 0xFFFF
                else ProcessedWPData)
      in if dt = LC_DATA_WATCH_BYTE
         then LC_SignedCompare WatchIndex (scast (ucast wv :: uint8)) (scast (ucast cv :: uint8)) s
         else if dt \<in> {LC_DATA_WATCH_WORD_BE, LC_DATA_WATCH_WORD_LE}
         then LC_SignedCompare WatchIndex (scast (ucast wv :: uint16)) (scast (ucast cv :: uint16)) s
         else if dt \<in> {LC_DATA_WATCH_DWORD_BE, LC_DATA_WATCH_DWORD_LE}
         then LC_SignedCompare WatchIndex wv cv s
         else if dt = LC_DATA_WATCH_UBYTE
         then LC_UnsignedCompare WatchIndex (ucast (ucast wv :: uint8)) (ucast (ucast cv :: uint8)) s
         else if dt \<in> {LC_DATA_WATCH_UWORD_BE, LC_DATA_WATCH_UWORD_LE}
         then LC_UnsignedCompare WatchIndex (ucast (ucast wv :: uint16)) (ucast (ucast cv :: uint16)) s
         else if dt \<in> {LC_DATA_WATCH_UDWORD_BE, LC_DATA_WATCH_UDWORD_LE}
         then LC_UnsignedCompare WatchIndex wv cv s
         else if dt \<in> {LC_DATA_WATCH_FLOAT_BE, LC_DATA_WATCH_FLOAT_LE}
         then LC_FloatCompare WatchIndex wv cv s
         else (LC_WATCH_ERROR, CFE_EVS_SendEvent_LC LC_WP_DATATYPE_ERR_EID s))"

definition LC_CustomFunction :: "nat \<Rightarrow> uint32 \<Rightarrow> message \<Rightarrow> uint32 \<Rightarrow> lc \<Rightarrow> uint8 \<times> lc" where
  "LC_CustomFunction WatchIndex ProcessedWPData Buf WDTCustomFuncArg s =
     (LC_WATCH_FALSE, CFE_EVS_SendEvent_LC LC_CFCALL_ERR_EID s)"

subsection \<open>Recording the result\<close>

text \<open>The results entry of a watchpoint after an evaluation, with the definition entry \<open>d\<close>.\<close>

definition record_result ::
  "LC_WDTEntry \<Rightarrow> uint8 \<Rightarrow> uint32 \<Rightarrow> CFE_TIME_SysTime \<Rightarrow> LC_WRTEntry \<Rightarrow> LC_WRTEntry" where
  "record_result d WPEvalResult MaskedWPData Timestamp r =
     (let PreviousResult = WatchResult r;
          r1 = r\<lparr>WatchResult := WPEvalResult, EvaluationCount := EvaluationCount r + 1\<rparr>;
          transition = (\<lambda>t. t\<lparr>TransitionDataType := DataType d, TransitionValue := MaskedWPData,
                              TransitionTime := Timestamp\<rparr>)
      in if WPEvalResult = LC_WATCH_TRUE then
           (let r2 = r1\<lparr>CumulativeTrueCount := CumulativeTrueCount r1 + 1,
                        ConsecutiveTrueCount := ConsecutiveTrueCount r1 + 1,
                        CountdownToStale := ResultAgeWhenStale d\<rparr>
            in if PreviousResult = LC_WATCH_FALSE \<or> PreviousResult = LC_WATCH_STALE
               then r2\<lparr>FalseToTrueCount := FalseToTrueCount r2 + 1,
                       LastFalseToTrue := transition (LastFalseToTrue r2)\<rparr>
               else r2)
         else if WPEvalResult = LC_WATCH_FALSE then
           (let r2 = r1\<lparr>ConsecutiveTrueCount := 0, CountdownToStale := ResultAgeWhenStale d\<rparr>
            in if PreviousResult = LC_WATCH_TRUE \<or> PreviousResult = LC_WATCH_STALE
               then r2\<lparr>LastTrueToFalse := transition (LastTrueToFalse r2)\<rparr>
               else r2)
         else r1\<lparr>CountdownToStale := 0\<rparr>)"

definition LC_ProcessWP :: "nat \<Rightarrow> message \<Rightarrow> CFE_TIME_SysTime \<Rightarrow> lc \<Rightarrow> lc" where
  "LC_ProcessWP WatchIndex Buf Timestamp s =
     (let d = WDT s ! WatchIndex;
          ((SizedDataValid, SizedWPData), s1) =
            LC_GetSizedWPData WatchIndex (drop (unat (WatchpointOffset d)) Buf) s
      in if SizedDataValid then
           (let MaskedWPData = SizedWPData AND BitMask d;
                (WPEvalResult, s2) =
                  (if OperatorID d = LC_OPER_CUSTOM
                   then LC_CustomFunction WatchIndex MaskedWPData Buf (CustomFuncArgument d) s1
                   else LC_OperatorCompare WatchIndex MaskedWPData s1)
            in upd_wrt WatchIndex (record_result d WPEvalResult MaskedWPData Timestamp) s2)
         else s1)"

subsection \<open>Validating the definition table\<close>

datatype LC_WDTVAL =
    LC_WDTVAL_ERR_NONE | LC_WDTVAL_ERR_DATATYPE | LC_WDTVAL_ERR_OPER | LC_WDTVAL_ERR_MID
  | LC_WDTVAL_ERR_FPNAN | LC_WDTVAL_ERR_FPINF

text \<open>The result for an entry that is used.\<close>

definition validate_wdt_entry :: "LC_WDTEntry \<Rightarrow> LC_WDTVAL" where
  "validate_wdt_entry w =
     (if DataType w \<notin> {LC_DATA_WATCH_BYTE, LC_DATA_WATCH_UBYTE, LC_DATA_WATCH_WORD_BE, LC_DATA_WATCH_WORD_LE,
           LC_DATA_WATCH_UWORD_BE, LC_DATA_WATCH_UWORD_LE, LC_DATA_WATCH_DWORD_BE, LC_DATA_WATCH_DWORD_LE,
           LC_DATA_WATCH_UDWORD_BE, LC_DATA_WATCH_UDWORD_LE, LC_DATA_WATCH_FLOAT_BE, LC_DATA_WATCH_FLOAT_LE}
      then LC_WDTVAL_ERR_DATATYPE
      else if OperatorID w \<notin> {LC_OPER_LT, LC_OPER_LE, LC_OPER_NE, LC_OPER_EQ, LC_OPER_GE, LC_OPER_GT, LC_OPER_CUSTOM}
      then LC_WDTVAL_ERR_OPER
      else if \<not> CFE_SB_IsValidMsgId (WDT_MessageID w) then LC_WDTVAL_ERR_MID
      else if DataType w = LC_DATA_WATCH_FLOAT_BE \<or> DataType w = LC_DATA_WATCH_FLOAT_LE then
        (if float_isnan (ComparisonValue w) then LC_WDTVAL_ERR_FPNAN
         else if \<not> float_isfinite (ComparisonValue w) then LC_WDTVAL_ERR_FPINF
         else LC_WDTVAL_ERR_NONE)
      else LC_WDTVAL_ERR_NONE)"

text \<open>
  An unused entry leaves the result of the entry before. An accepted entry leaves it too: the code assigns
  \<open>EntryResult\<close> only when it finds an error.
\<close>

fun validate_wdt_loop :: "LC_WDTEntry list \<Rightarrow> LC_WDTVAL \<Rightarrow> LC_WDTVAL \<Rightarrow> lc \<Rightarrow> LC_WDTVAL \<times> lc" where
  "validate_wdt_loop [] EntryResult TableResult s = (TableResult, s)"
| "validate_wdt_loop (w # rest) EntryResult TableResult s =
     (let er = (if DataType w = LC_DATA_WATCH_NOT_USED \<or> validate_wdt_entry w = LC_WDTVAL_ERR_NONE
                then EntryResult else validate_wdt_entry w)
      in if er \<noteq> LC_WDTVAL_ERR_NONE \<and> TableResult = LC_WDTVAL_ERR_NONE
         then validate_wdt_loop rest er er
                (CFE_EVS_SendEvent_LC (if er \<in> {LC_WDTVAL_ERR_FPNAN, LC_WDTVAL_ERR_FPINF}
                                       then LC_WDTVAL_FPERR_EID else LC_WDTVAL_ERR_EID) s)
         else validate_wdt_loop rest er TableResult s)"

definition LC_ValidateWDT :: "LC_WDTEntry list \<Rightarrow> lc \<Rightarrow> LC_WDTVAL \<times> lc" where
  "LC_ValidateWDT TableArray s =
     (let (r, s1) = validate_wdt_loop (take LC_MAX_WATCHPOINTS TableArray) LC_WDTVAL_ERR_NONE LC_WDTVAL_ERR_NONE s
      in (r, CFE_EVS_SendEvent_LC LC_WDTVAL_INF_EID s1))"

end
