(* ===== verification/Lc_Hash.thy ===== *)
theory Lc_Hash
  imports Lc_Watch
begin

section \<open>Limit checker: the table of monitored messages\<close>

text \<open>
  The part of \<open>lc_watch.c\<close> that finds the watchpoints of a message. A hash table of 256 entries leads to
  lists of message IDs, and each message ID to the list of its watchpoints. The table is built from the
  watchpoint definition table, with one subscription for each message ID. The walks along the lists return
  \<open>None\<close> if they would not end. The status that the software bus gives to a subscription is the argument
  \<open>sub\<close>, the one for its removal \<open>unsub\<close>.
\<close>

definition LC_GetHashTableIndex :: "CFE_SB_MsgId \<Rightarrow> uint32" where
  "LC_GetHashTableIndex MessageID = MessageID AND LC_HASH_TABLE_MASK"

definition upd_mlink :: "nat \<Rightarrow> (LC_MessageList \<Rightarrow> LC_MessageList) \<Rightarrow> lc \<Rightarrow> lc" where
  "upd_mlink i f s = s\<lparr>MessageLinks := (MessageLinks s)[i := f (MessageLinks s ! i)]\<rparr>"

definition upd_wlink :: "nat \<Rightarrow> (LC_WatchPtList \<Rightarrow> LC_WatchPtList) \<Rightarrow> lc \<Rightarrow> lc" where
  "upd_wlink i f s = s\<lparr>WatchPtLinks := (WatchPtLinks s)[i := f (WatchPtLinks s ! i)]\<rparr>"

text \<open>The next unused element of each array: \<open>&LC_OperData.MessageLinks[LC_OperData.MessageIDsCount++]\<close>.\<close>

definition next_mlink :: "lc \<Rightarrow> nat \<times> lc" where
  "next_mlink s = (unat (MessageIDsCount s), s\<lparr>MessageIDsCount := MessageIDsCount s + 1\<rparr>)"

definition next_wlink :: "lc \<Rightarrow> nat \<times> lc" where
  "next_wlink s = (unat (WatchpointCount s), s\<lparr>WatchpointCount := WatchpointCount s + 1\<rparr>)"

subsection \<open>Building the table\<close>

partial_function (option) find_message_link ::
  "CFE_SB_MsgId \<Rightarrow> bool \<Rightarrow> nat \<Rightarrow> lc \<Rightarrow> (nat \<times> bool \<times> lc) option" where
  "find_message_link MessageID NeedSubscription MessageLink s =
     (if ML_MessageID (MessageLinks s ! MessageLink) = MessageID
      then Some (MessageLink, NeedSubscription, s)
      else case ML_Next (MessageLinks s ! MessageLink) of
          None \<Rightarrow>
            (let (new, s1) = next_mlink s;
                 s2 = upd_mlink MessageLink (\<lambda>l. l\<lparr>ML_Next := Some new\<rparr>) s1;
                 s3 = upd_mlink new (\<lambda>l. l\<lparr>ML_MessageID := MessageID\<rparr>) s2
             in find_message_link MessageID True new s3)
        | Some p \<Rightarrow> find_message_link MessageID NeedSubscription p s)"

partial_function (option) last_watch_link :: "nat \<Rightarrow> lc \<Rightarrow> nat option" where
  "last_watch_link WatchPtLink s =
     (case WP_Next (WatchPtLinks s ! WatchPtLink) of
        None \<Rightarrow> Some WatchPtLink
      | Some p \<Rightarrow> last_watch_link p s)"

definition lc_subscribe :: "(CFE_SB_MsgId \<Rightarrow> CFE_Status) \<Rightarrow> CFE_SB_MsgId \<Rightarrow> lc \<Rightarrow> lc" where
  "lc_subscribe sub MessageID s =
     (let s1 = lc_send (LC_Subscribe MessageID) s
      in if sub MessageID \<noteq> CFE_SUCCESS then CFE_EVS_SendEvent_LC LC_SUB_WP_ERR_EID s1 else s1)"

text \<open>The two parts of \<open>LC_AddWatchpoint\<close>: the link of the message ID, and a new link at the end of its watchpoints.\<close>

definition locate_message_link :: "CFE_SB_MsgId \<Rightarrow> lc \<Rightarrow> (nat \<times> bool \<times> lc) option" where
  "locate_message_link MessageID s =
     (let HashTableIndex = unat (LC_GetHashTableIndex MessageID)
      in case HashTable s ! HashTableIndex of
           None \<Rightarrow>
             (let (new, s1) = next_mlink s;
                  s2 = s1\<lparr>HashTable := (HashTable s1)[HashTableIndex := Some new]\<rparr>
              in Some (new, True, upd_mlink new (\<lambda>l. l\<lparr>ML_MessageID := MessageID\<rparr>) s2))
         | Some MessageLink \<Rightarrow> find_message_link MessageID False MessageLink s)"

definition append_watch_link :: "nat \<Rightarrow> lc \<Rightarrow> (nat \<times> lc) option" where
  "append_watch_link MessageLink s =
     (case ML_WatchPtList (MessageLinks s ! MessageLink) of
        None \<Rightarrow>
          (let (new, s1) = next_wlink s
           in Some (new, upd_mlink MessageLink (\<lambda>l. l\<lparr>ML_WatchPtList := Some new\<rparr>) s1))
      | Some first \<Rightarrow>
          Option.bind (last_watch_link first s) (\<lambda>lst.
            let (new, s1) = next_wlink s
            in Some (new, upd_wlink lst (\<lambda>l. l\<lparr>WP_Next := Some new\<rparr>) s1)))"

definition LC_AddWatchpoint ::
  "(CFE_SB_MsgId \<Rightarrow> CFE_Status) \<Rightarrow> CFE_SB_MsgId \<Rightarrow> lc \<Rightarrow> (nat \<times> lc) option" where
  "LC_AddWatchpoint sub MessageID s =
     Option.bind (locate_message_link MessageID s) (\<lambda>(MessageLink, NeedSubscription, s1).
       append_watch_link MessageLink (if NeedSubscription then lc_subscribe sub MessageID s1 else s1))"

primrec unsubscribe_all :: "(CFE_SB_MsgId \<Rightarrow> CFE_Status) \<Rightarrow> nat list \<Rightarrow> lc \<Rightarrow> lc" where
  "unsubscribe_all unsub [] s = s"
| "unsubscribe_all unsub (i # is) s =
     (let MessageID = ML_MessageID (MessageLinks s ! i);
          s1 = lc_send (LC_Unsubscribe MessageID) s
      in unsubscribe_all unsub is
           (if unsub MessageID \<noteq> CFE_SUCCESS then CFE_EVS_SendEvent_LC LC_UNSUB_WP_ERR_EID s1 else s1))"

primrec add_watchpoints ::
  "(CFE_SB_MsgId \<Rightarrow> CFE_Status) \<Rightarrow> nat list \<Rightarrow> CFE_SB_MsgId \<Rightarrow> nat option \<Rightarrow> lc \<Rightarrow> lc option" where
  "add_watchpoints sub [] LastMessageID WatchPtLink s = Some s"
| "add_watchpoints sub (i # is) LastMessageID WatchPtLink s =
     (if DataType (WDT s ! i) \<noteq> LC_DATA_WATCH_NOT_USED then
        (let MessageID = WDT_MessageID (WDT s ! i)
         in Option.bind
           (case WatchPtLink of
              Some lst \<Rightarrow>
                if LastMessageID = MessageID then
                  (let (new, s1) = next_wlink s
                   in Some (new, upd_wlink lst (\<lambda>l. l\<lparr>WP_Next := Some new\<rparr>) s1))
                else LC_AddWatchpoint sub MessageID s
            | None \<Rightarrow> LC_AddWatchpoint sub MessageID s)
           (\<lambda>(link, s1). add_watchpoints sub is MessageID (Some link)
              (upd_wlink link (\<lambda>l. l\<lparr>WP_WatchIndex := of_nat i\<rparr>) s1)))
      else add_watchpoints sub is LastMessageID WatchPtLink s)"

definition cleared_links :: "lc \<Rightarrow> lc" where
  "cleared_links s = s\<lparr>
     HashTable := replicate LC_HASH_TABLE_ENTRIES None,
     MessageLinks := replicate LC_MAX_WATCHPOINTS \<lparr>ML_Next = None, ML_MessageID = 0, ML_WatchPtList = None\<rparr>,
     WatchPtLinks := replicate LC_MAX_WATCHPOINTS \<lparr>WP_Next = None, WP_WatchIndex = 0\<rparr>,
     MessageIDsCount := 0, WatchpointCount := 0\<rparr>"

definition LC_CreateHashTable ::
  "(CFE_SB_MsgId \<Rightarrow> CFE_Status) \<Rightarrow> (CFE_SB_MsgId \<Rightarrow> CFE_Status) \<Rightarrow> lc \<Rightarrow> lc option" where
  "LC_CreateHashTable sub unsub s =
     add_watchpoints sub [0..<LC_MAX_WATCHPOINTS] CFE_SB_INVALID_MSG_ID None
       (cleared_links (unsubscribe_all unsub [0..<unat (MessageIDsCount s)] s))"

subsection \<open>Handling a message\<close>

partial_function (option) find_message_list :: "CFE_SB_MsgId \<Rightarrow> nat option \<Rightarrow> lc \<Rightarrow> nat option option" where
  "find_message_list MessageID MessageList s =
     (case MessageList of
        None \<Rightarrow> Some None
      | Some p \<Rightarrow> if ML_MessageID (MessageLinks s ! p) = MessageID then Some (Some p)
                  else find_message_list MessageID (ML_Next (MessageLinks s ! p)) s)"

definition check_watchpoint :: "message \<Rightarrow> CFE_TIME_SysTime \<Rightarrow> nat \<Rightarrow> lc \<Rightarrow> lc" where
  "check_watchpoint Buf Timestamp WatchIndex s =
     (case LC_WPOffsetValid WatchIndex Buf s of
        (True, s1) \<Rightarrow> LC_ProcessWP WatchIndex Buf Timestamp s1
      | (False, s1) \<Rightarrow> s1)"

partial_function (option) check_watchpoints ::
  "message \<Rightarrow> CFE_TIME_SysTime \<Rightarrow> nat option \<Rightarrow> bool \<Rightarrow> lc \<Rightarrow> (bool \<times> lc) option" where
  "check_watchpoints Buf Timestamp WatchPtList WatchPtFound s =
     (case WatchPtList of
        None \<Rightarrow> Some (WatchPtFound, s)
      | Some p \<Rightarrow>
          (let s1 = check_watchpoint Buf Timestamp (unat (WP_WatchIndex (WatchPtLinks s ! p))) s
           in check_watchpoints Buf Timestamp (WP_Next (WatchPtLinks s1 ! p)) True s1))"

text \<open>The timestamp of a message, or the current time \<open>now\<close> if the message has none.\<close>

definition message_time :: "CFE_TIME_SysTime \<Rightarrow> message \<Rightarrow> CFE_TIME_SysTime" where
  "message_time now Buf =
     (let Timestamp = (case snd (CFE_MSG_GetMsgTime (Some Buf) True) of
                         None \<Rightarrow> \<lparr>Seconds = 0, Subseconds = 0\<rparr> | Some t \<Rightarrow> t)
      in if Seconds Timestamp = 0 \<and> Subseconds Timestamp = 0 then now else Timestamp)"

definition LC_CheckMsgForWPs :: "CFE_TIME_SysTime \<Rightarrow> CFE_SB_MsgId \<Rightarrow> message \<Rightarrow> lc \<Rightarrow> lc option" where
  "LC_CheckMsgForWPs now MessageID Buf s =
     (if CurrentLCState s \<noteq> LC_STATE_DISABLED then
        Option.bind (find_message_list MessageID (HashTable s ! unat (LC_GetHashTableIndex MessageID)) s)
          (\<lambda>MessageList. Option.bind
            (case MessageList of
               None \<Rightarrow> Some (False, s)
             | Some p \<Rightarrow> check_watchpoints Buf (message_time now Buf) (ML_WatchPtList (MessageLinks s ! p)) False s)
            (\<lambda>(WatchPtFound, s1).
               if WatchPtFound then Some (s1\<lparr>MonitoredMsgCount := MonitoredMsgCount s1 + 1\<rparr>)
               else Some (CFE_EVS_SendEvent_LC LC_MID_INF_EID s1)))
      else Some s)"

end
