(* ===== verification/Lc_Cmds.thy ===== *)
theory Lc_Cmds
  imports Lc_Action Lc_Hash
begin

section \<open>Limit checker: commands and housekeeping\<close>

text \<open>
  The handlers of \<open>lc_cmds.c\<close> and the dispatch of messages in \<open>lc_dispatch.c\<close>. A payload is read from the
  bytes of the message after the command header of eight bytes, in the little-endian order of the targets.
\<close>

definition cmd_word :: "message \<Rightarrow> nat \<Rightarrow> uint16" where
  "cmd_word Buf i = ucast (Buf ! (8 + 2 * i)) OR push_bit 8 (ucast (Buf ! (9 + 2 * i)))"

definition cmd_accepted :: "LC_Event \<Rightarrow> lc \<Rightarrow> lc" where
  "cmd_accepted e s = CFE_EVS_SendEvent_LC e (s\<lparr>CmdCount := CmdCount s + 1\<rparr>)"

definition cmd_rejected :: "LC_Event \<Rightarrow> lc \<Rightarrow> lc" where
  "cmd_rejected e s = CFE_EVS_SendEvent_LC e (s\<lparr>CmdErrCount := CmdErrCount s + 1\<rparr>)"

subsection \<open>Sampling and the age of the results\<close>

definition age_watchpoint :: "nat \<Rightarrow> lc \<Rightarrow> lc" where
  "age_watchpoint WatchIndex s =
     (if CountdownToStale (WRT s ! WatchIndex) > 0 then
        (let s1 = upd_wrt WatchIndex (\<lambda>r. r\<lparr>CountdownToStale := CountdownToStale r - 1\<rparr>) s
         in if CountdownToStale (WRT s1 ! WatchIndex) = 0
            then upd_wrt WatchIndex (\<lambda>r. r\<lparr>WatchResult := LC_WATCH_STALE\<rparr>) s1 else s1)
      else s)"

definition LC_SampleAPReq :: "uint16 \<Rightarrow> uint16 \<Rightarrow> uint16 \<Rightarrow> lc \<Rightarrow> lc" where
  "LC_SampleAPReq StartIndex EndIndex UpdateAge s =
     (if CurrentLCState s \<noteq> LC_STATE_DISABLED then
        (let (ValidSampleCmd, s1) =
               (if StartIndex = LC_ALL_ACTIONPOINTS \<and> EndIndex = LC_ALL_ACTIONPOINTS
                then (True, LC_SampleAPs 0 (LC_MAX_ACTIONPOINTS - 1) s)
                else if StartIndex \<le> EndIndex \<and> unat EndIndex < LC_MAX_ACTIONPOINTS
                then (True, LC_SampleAPs (unat StartIndex) (unat EndIndex) s)
                else (False, CFE_EVS_SendEvent_LC LC_APSAMPLE_APNUM_ERR_EID s))
         in if UpdateAge \<noteq> 0 \<and> ValidSampleCmd then fold age_watchpoint [0..<LC_MAX_WATCHPOINTS] s1 else s1)
      else s)"

subsection \<open>Counters and states\<close>

definition LC_NoopCmd :: "lc \<Rightarrow> lc" where
  "LC_NoopCmd s = cmd_accepted LC_NOOP_INF_EID s"

definition LC_ResetCounters :: "lc \<Rightarrow> lc" where
  "LC_ResetCounters s = s\<lparr>CmdCount := 0, CmdErrCount := 0, APSampleCount := 0, MonitoredMsgCount := 0,
     RTSExecCount := 0, PassiveRTSExecCount := 0\<rparr>"

definition LC_ResetCountersCmd :: "lc \<Rightarrow> lc" where
  "LC_ResetCountersCmd s = CFE_EVS_SendEvent_LC LC_RESET_INF_EID (LC_ResetCounters s)"

definition LC_SetLCStateCmd :: "uint16 \<Rightarrow> lc \<Rightarrow> lc" where
  "LC_SetLCStateCmd NewLCState s =
     (if NewLCState \<in> {ucast LC_STATE_ACTIVE, ucast LC_STATE_PASSIVE, ucast LC_STATE_DISABLED}
      then cmd_accepted LC_LCSTATE_INF_EID (s\<lparr>CurrentLCState := ucast NewLCState\<rparr>)
      else cmd_rejected LC_LCSTATE_ERR_EID s)"

definition ap_settable :: "uint8 \<Rightarrow> bool" where
  "ap_settable CurrentAPState \<longleftrightarrow> CurrentAPState \<noteq> LC_APSTATE_NOT_USED \<and> CurrentAPState \<noteq> LC_APSTATE_PERMOFF"

definition set_ap_state :: "uint8 \<Rightarrow> nat \<Rightarrow> lc \<Rightarrow> lc" where
  "set_ap_state NewAPState i s =
     (if ap_settable (CurrentState (ART s ! i)) then upd_art i (\<lambda>r. r\<lparr>CurrentState := NewAPState\<rparr>) s else s)"

definition LC_SetAPStateCmd :: "uint16 \<Rightarrow> uint16 \<Rightarrow> lc \<Rightarrow> lc" where
  "LC_SetAPStateCmd APNumber NewAPState s =
     (if NewAPState \<notin> {ucast LC_APSTATE_ACTIVE, ucast LC_APSTATE_PASSIVE, ucast LC_APSTATE_DISABLED}
      then cmd_rejected LC_APSTATE_NEW_ERR_EID s
      else if APNumber = LC_ALL_ACTIONPOINTS
      then cmd_accepted LC_APSTATE_INF_EID (fold (set_ap_state (ucast NewAPState)) [0..<LC_MAX_ACTIONPOINTS] s)
      else if unat APNumber < LC_MAX_ACTIONPOINTS then
        (if ap_settable (CurrentState (ART s ! unat APNumber))
         then cmd_accepted LC_APSTATE_INF_EID (set_ap_state (ucast NewAPState) (unat APNumber) s)
         else cmd_rejected LC_APSTATE_CURR_ERR_EID s)
      else cmd_rejected LC_APSTATE_APNUM_ERR_EID s)"

definition LC_SetAPPermOffCmd :: "uint16 \<Rightarrow> lc \<Rightarrow> lc" where
  "LC_SetAPPermOffCmd APNumber s =
     (if APNumber = LC_ALL_ACTIONPOINTS \<or> unat APNumber \<ge> LC_MAX_ACTIONPOINTS
      then cmd_rejected LC_APOFF_APNUM_ERR_EID s
      else if CurrentState (ART s ! unat APNumber) \<noteq> LC_APSTATE_DISABLED
      then cmd_rejected LC_APOFF_CURR_ERR_EID s
      else cmd_accepted LC_APOFF_INF_EID
             (upd_art (unat APNumber) (\<lambda>r. r\<lparr>CurrentState := LC_APSTATE_PERMOFF\<rparr>) s))"

subsection \<open>Statistics\<close>

definition reset_ap :: "bool \<Rightarrow> nat \<Rightarrow> lc \<Rightarrow> lc" where
  "reset_ap ResetStatsCmd i s =
     (let s1 = (if \<not> ResetStatsCmd
                then upd_art i (\<lambda>r. r\<lparr>ActionResult := LC_ACTION_STALE, CurrentState := DefaultState (ADT s ! i)\<rparr>) s
                else s)
      in upd_art i (\<lambda>r. r\<lparr>PassiveAPCount := 0, FailToPassCount := 0, PassToFailCount := 0,
           ConsecutiveFailCount := 0, CumulativeFailCount := 0, CumulativeRTSExecCount := 0,
           CumulativeEventMsgsSent := 0\<rparr>) s1)"

definition LC_ResetResultsAP :: "nat \<Rightarrow> nat \<Rightarrow> bool \<Rightarrow> lc \<Rightarrow> lc" where
  "LC_ResetResultsAP StartIndex EndIndex ResetStatsCmd s = fold (reset_ap ResetStatsCmd) [StartIndex..<Suc EndIndex] s"

definition reset_wp :: "bool \<Rightarrow> nat \<Rightarrow> lc \<Rightarrow> lc" where
  "reset_wp ResetStatsCmd i s =
     (let s1 = (if \<not> ResetStatsCmd
                then upd_wrt i (\<lambda>r. r\<lparr>WatchResult := LC_WATCH_STALE, CountdownToStale := 0\<rparr>) s else s);
          cleared = (\<lambda>t. t\<lparr>TransitionValue := 0, TransitionTime := \<lparr>Seconds = 0, Subseconds = 0\<rparr>\<rparr>)
      in upd_wrt i (\<lambda>r. r\<lparr>EvaluationCount := 0, FalseToTrueCount := 0, ConsecutiveTrueCount := 0,
           CumulativeTrueCount := 0, LastFalseToTrue := cleared (LastFalseToTrue r),
           LastTrueToFalse := cleared (LastTrueToFalse r)\<rparr>) s1)"

definition LC_ResetResultsWP :: "nat \<Rightarrow> nat \<Rightarrow> bool \<Rightarrow> lc \<Rightarrow> lc" where
  "LC_ResetResultsWP StartIndex EndIndex ResetStatsCmd s = fold (reset_wp ResetStatsCmd) [StartIndex..<Suc EndIndex] s"

definition LC_ResetAPStatsCmd :: "uint16 \<Rightarrow> lc \<Rightarrow> lc" where
  "LC_ResetAPStatsCmd APNumber s =
     (if APNumber = LC_ALL_ACTIONPOINTS
      then cmd_accepted LC_APSTATS_INF_EID (LC_ResetResultsAP 0 (LC_MAX_ACTIONPOINTS - 1) True s)
      else if unat APNumber < LC_MAX_ACTIONPOINTS
      then cmd_accepted LC_APSTATS_INF_EID (LC_ResetResultsAP (unat APNumber) (unat APNumber) True s)
      else cmd_rejected LC_APSTATS_APNUM_ERR_EID s)"

definition LC_ResetWPStatsCmd :: "uint16 \<Rightarrow> lc \<Rightarrow> lc" where
  "LC_ResetWPStatsCmd WPNumber s =
     (if WPNumber = LC_ALL_WATCHPOINTS
      then cmd_accepted LC_WPSTATS_INF_EID (LC_ResetResultsWP 0 (LC_MAX_WATCHPOINTS - 1) True s)
      else if unat WPNumber < LC_MAX_WATCHPOINTS
      then cmd_accepted LC_WPSTATS_INF_EID (LC_ResetResultsWP (unat WPNumber) (unat WPNumber) True s)
      else cmd_rejected LC_WPSTATS_WPNUM_ERR_EID s)"

subsection \<open>Tables and the critical data store\<close>

text \<open>
  What the table services and the critical data store return in one round of maintenance: the status of
  \<open>CFE_TBL_GetAddress\<close> for each definition table with the data it points to, and the status of the copies.
  On a failure \<open>CFE_TBL_GetAddress\<close> makes the pointer \<open>NULL\<close>, here the empty table.
\<close>

record lc_services =
  WDT_Status :: CFE_Status
  WDT_Data :: "LC_WDTEntry list"
  ADT_Status :: CFE_Status
  ADT_Data :: "LC_ADTEntry list"
  WRT_CopyStatus :: CFE_Status
  ART_CopyStatus :: CFE_Status
  App_CopyStatus :: CFE_Status
  SubscribeStatus :: "CFE_SB_MsgId \<Rightarrow> CFE_Status"
  UnsubscribeStatus :: "CFE_SB_MsgId \<Rightarrow> CFE_Status"

definition LC_CDS_SAVED :: uint16 where "LC_CDS_SAVED = 0xF0F0"

definition LC_ManageTables :: "lc_services \<Rightarrow> lc \<Rightarrow> (CFE_Status \<times> lc) option" where
  "LC_ManageTables v s =
     (let Result = WDT_Status v in
      if Result = CFE_TBL_INFO_UPDATED \<or> Result = CFE_SUCCESS then
        Option.bind
          (let s1 = s\<lparr>WDT := WDT_Data v\<rparr>
           in if Result = CFE_TBL_INFO_UPDATED
              then LC_CreateHashTable (SubscribeStatus v) (UnsubscribeStatus v)
                     (LC_ResetResultsWP 0 (LC_MAX_WATCHPOINTS - 1) False s1)
              else Some s1)
          (\<lambda>s2. let Result = ADT_Status v in
             if Result = CFE_TBL_INFO_UPDATED \<or> Result = CFE_SUCCESS then
               (let s3 = s2\<lparr>ADT := ADT_Data v\<rparr>
                in Some (CFE_SUCCESS, if Result = CFE_TBL_INFO_UPDATED
                     then LC_ResetResultsAP 0 (LC_MAX_ACTIONPOINTS - 1) False s3 else s3))
             else Some (Result, CFE_EVS_SendEvent_LC LC_ADT_GETADDR_ERR_EID (s2\<lparr>ADT := []\<rparr>)))
      else Some (Result, CFE_EVS_SendEvent_LC LC_WDT_GETADDR_ERR_EID (s\<lparr>WDT := []\<rparr>)))"

definition LC_UpdateTaskCDS :: "lc_services \<Rightarrow> lc \<Rightarrow> CFE_Status \<times> lc" where
  "LC_UpdateTaskCDS v s =
     (if WRT_CopyStatus v \<noteq> CFE_SUCCESS then (WRT_CopyStatus v, CFE_EVS_SendEvent_LC LC_WRT_NO_SAVE_ERR_EID s)
      else if ART_CopyStatus v \<noteq> CFE_SUCCESS then (ART_CopyStatus v, CFE_EVS_SendEvent_LC LC_ART_NO_SAVE_ERR_EID s)
      else (let s1 = s\<lparr>CDSSavedOnExit := LC_CDS_SAVED\<rparr>
        in if App_CopyStatus v \<noteq> CFE_SUCCESS
           then (App_CopyStatus v, CFE_EVS_SendEvent_LC LC_APP_NO_SAVE_START_ERR_EID s1)
           else (CFE_SUCCESS, s1)))"

definition LC_PerformMaintenance :: "lc_services \<Rightarrow> lc \<Rightarrow> (CFE_Status \<times> lc) option" where
  "LC_PerformMaintenance v s =
     Option.bind (LC_ManageTables v s) (\<lambda>(Result, s1).
       Some (Result,
         if Result = CFE_SUCCESS \<and> HaveActiveCDS s1 then
           (let (CDSResult, s2) = LC_UpdateTaskCDS v s1
            in if CDSResult \<noteq> CFE_SUCCESS then s2\<lparr>HaveActiveCDS := False\<rparr> else s2)
         else s1))"

subsection \<open>Housekeeping\<close>

definition LC_HKWR_FALSE :: uint8 where [lc_const]: "LC_HKWR_FALSE = 0x00"
definition LC_HKWR_TRUE :: uint8 where [lc_const]: "LC_HKWR_TRUE = 0x01"
definition LC_HKWR_ERROR :: uint8 where [lc_const]: "LC_HKWR_ERROR = 0x02"
definition LC_HKWR_STALE :: uint8 where [lc_const]: "LC_HKWR_STALE = 0x03"
definition LC_HKAR_PASS :: uint8 where [lc_const]: "LC_HKAR_PASS = 0x00"
definition LC_HKAR_FAIL :: uint8 where [lc_const]: "LC_HKAR_FAIL = 0x01"
definition LC_HKAR_ERROR :: uint8 where [lc_const]: "LC_HKAR_ERROR = 0x02"
definition LC_HKAR_STALE :: uint8 where [lc_const]: "LC_HKAR_STALE = 0x03"
definition LC_HKAR_STATE_NOT_USED :: uint8 where [lc_const]: "LC_HKAR_STATE_NOT_USED = 0x00"
definition LC_HKAR_STATE_ACTIVE :: uint8 where [lc_const]: "LC_HKAR_STATE_ACTIVE = 0x01"
definition LC_HKAR_STATE_PASSIVE :: uint8 where [lc_const]: "LC_HKAR_STATE_PASSIVE = 0x02"
definition LC_HKAR_STATE_DISABLED :: uint8 where [lc_const]: "LC_HKAR_STATE_DISABLED = 0x03"

definition hk_watch_code :: "uint8 \<Rightarrow> uint8" where
  "hk_watch_code r =
     (if r = LC_WATCH_STALE then LC_HKWR_STALE else if r = LC_WATCH_FALSE then LC_HKWR_FALSE
      else if r = LC_WATCH_TRUE then LC_HKWR_TRUE else LC_HKWR_ERROR)"

definition hk_state_code :: "uint8 \<Rightarrow> uint8" where
  "hk_state_code st =
     (if st = LC_APSTATE_NOT_USED then LC_HKAR_STATE_NOT_USED else if st = LC_APSTATE_ACTIVE then LC_HKAR_STATE_ACTIVE
      else if st = LC_APSTATE_PASSIVE then LC_HKAR_STATE_PASSIVE
      else if st = LC_APSTATE_DISABLED then LC_HKAR_STATE_DISABLED else LC_HKAR_STATE_NOT_USED)"

definition hk_action_code :: "uint8 \<Rightarrow> uint8" where
  "hk_action_code r =
     (if r = LC_ACTION_STALE then LC_HKAR_STALE else if r = LC_ACTION_PASS then LC_HKAR_PASS
      else if r = LC_ACTION_FAIL then LC_HKAR_FAIL else LC_HKAR_ERROR)"

text \<open>One byte of watch results: the first pass of the loop over \<open>i\<close> assigns, the others combine by or.\<close>

definition pack_watch :: "LC_WRTEntry list \<Rightarrow> nat \<Rightarrow> uint8" where
  "pack_watch wrt TableIndex =
     fold (\<lambda>i ByteData.
       (let TempByteData = push_bit (6 - i * 2) (hk_watch_code (WatchResult (wrt ! (TableIndex + 3 - i))))
        in if i = 0 then TempByteData else ByteData OR TempByteData)) [0..<4] 0"

definition pack_action :: "LC_ARTEntry list \<Rightarrow> nat \<Rightarrow> uint8" where
  "pack_action art TableIndex =
     fold (\<lambda>i ByteData.
       (let Shift = 6 - i * 4;
            TempByteData = push_bit Shift (hk_state_code (CurrentState (art ! (TableIndex + 1 - i))));
            ByteData1 = (if i = 0 then TempByteData else ByteData OR TempByteData)
        in ByteData1 OR push_bit (Shift - 2) (hk_action_code (ActionResult (art ! (TableIndex + 1 - i))))))
      [0..<2] 0"

definition hk_payload :: "lc \<Rightarrow> LC_HkTlm_Payload" where
  "hk_payload s = \<lparr>
     HK_CmdCount = ucast (CmdCount s), HK_CmdErrCount = ucast (CmdErrCount s), HK_CurrentLCState = CurrentLCState s,
     HK_WPResults = map (\<lambda>k. pack_watch (WRT s) (4 * k)) [0..<LC_MAX_WATCHPOINTS div 4],
     HK_APResults = map (\<lambda>k. pack_action (ART s) (2 * k)) [0..<LC_MAX_ACTIONPOINTS div 2],
     HK_PassiveRTSExecCount = PassiveRTSExecCount s, HK_WPsInUse = WatchpointCount s,
     HK_ActiveAPs = of_nat (length (filter (\<lambda>i. CurrentState (ART s ! i) = LC_APSTATE_ACTIVE) [0..<LC_MAX_ACTIONPOINTS])),
     HK_APSampleCount = APSampleCount s, HK_MonitoredMsgCount = MonitoredMsgCount s, HK_RTSExecCount = RTSExecCount s\<rparr>"

definition LC_SendHkCmd :: "lc_services \<Rightarrow> lc \<Rightarrow> (CFE_Status \<times> lc) option" where
  "LC_SendHkCmd v s = LC_PerformMaintenance v (lc_send (LC_Housekeeping (hk_payload s)) s)"

subsection \<open>Dispatch\<close>

definition LC_VerifyMsgLength :: "message \<Rightarrow> size_t \<Rightarrow> lc \<Rightarrow> bool \<times> lc" where
  "LC_VerifyMsgLength Buf ExpectedLength s =
     (let ActualLength = (case CFE_MSG_GetSize (Some Buf) True of Inl _ \<Rightarrow> 0 | Inr n \<Rightarrow> n);
          MessageID = (case CFE_MSG_GetMsgId (Some Buf) True of Inl _ \<Rightarrow> CFE_SB_INVALID_MSG_ID | Inr m \<Rightarrow> m)
      in if ExpectedLength \<noteq> ActualLength then
           (False, if MessageID = LC_SEND_HK_MID then CFE_EVS_SendEvent_LC LC_HKREQ_LEN_ERR_EID s
                   else if MessageID = LC_SAMPLE_AP_MID then CFE_EVS_SendEvent_LC LC_APSAMPLE_LEN_ERR_EID s
                   else cmd_rejected LC_CMD_LEN_ERR_EID s)
         else (True, s))"

definition lc_verified :: "message \<Rightarrow> size_t \<Rightarrow> (lc \<Rightarrow> lc) \<Rightarrow> lc \<Rightarrow> lc" where
  "lc_verified Buf ExpectedLength handler s =
     (case LC_VerifyMsgLength Buf ExpectedLength s of (True, s1) \<Rightarrow> handler s1 | (False, s1) \<Rightarrow> s1)"

definition lc_command :: "message \<Rightarrow> uint16 \<Rightarrow> lc \<Rightarrow> lc" where
  "lc_command Buf CommandCode s =
     (if CommandCode = LC_NOOP_CC then lc_verified Buf 8 LC_NoopCmd s
      else if CommandCode = LC_RESET_CC then lc_verified Buf 8 LC_ResetCountersCmd s
      else if CommandCode = LC_SET_LC_STATE_CC then lc_verified Buf 12 (LC_SetLCStateCmd (cmd_word Buf 0)) s
      else if CommandCode = LC_SET_AP_STATE_CC
      then lc_verified Buf 12 (LC_SetAPStateCmd (cmd_word Buf 0) (cmd_word Buf 1)) s
      else if CommandCode = LC_SET_AP_PERM_OFF_CC then lc_verified Buf 12 (LC_SetAPPermOffCmd (cmd_word Buf 0)) s
      else if CommandCode = LC_RESET_AP_STATS_CC then lc_verified Buf 12 (LC_ResetAPStatsCmd (cmd_word Buf 0)) s
      else if CommandCode = LC_RESET_WP_STATS_CC then lc_verified Buf 12 (LC_ResetWPStatsCmd (cmd_word Buf 0)) s
      else cmd_rejected LC_CC_ERR_EID s)"

text \<open>The status of the housekeeping request is dropped, so the result is always \<open>CFE_SUCCESS\<close>.\<close>

definition LC_AppPipe :: "lc_services \<Rightarrow> CFE_TIME_SysTime \<Rightarrow> message \<Rightarrow> lc \<Rightarrow> (CFE_Status \<times> lc) option" where
  "LC_AppPipe v now Buf s =
     (let MessageID = (case CFE_MSG_GetMsgId (Some Buf) True of Inl _ \<Rightarrow> CFE_SB_INVALID_MSG_ID | Inr m \<Rightarrow> m)
      in map_option (Pair CFE_SUCCESS)
        (if MessageID = LC_SAMPLE_AP_MID
         then Some (lc_verified Buf 16 (LC_SampleAPReq (cmd_word Buf 0) (cmd_word Buf 1) (cmd_word Buf 2)) s)
         else if MessageID = LC_SEND_HK_MID then
           (case LC_VerifyMsgLength Buf 8 s of
              (True, s1) \<Rightarrow> map_option snd (LC_SendHkCmd v s1)
            | (False, s1) \<Rightarrow> Some s1)
         else if MessageID = LC_CMD_MID
         then Some (lc_command Buf (case snd (CFE_MSG_GetFcnCode (Some Buf) True) of None \<Rightarrow> 0 | Some c \<Rightarrow> c) s)
         else LC_CheckMsgForWPs now MessageID Buf s))"

end
