(* ===== verification/Lc_App.thy ===== *)
theory Lc_App
  imports Lc_Cmds
begin

section \<open>Limit checker: start-up and main loop\<close>

text \<open>
  The application (\<open>lc_app.c\<close>). Everything that the event, bus, table and executive services answer during
  the start-up is a field of \<open>lc_boot\<close>: the status of each call, the content of the table buffers, and what a
  restore from the critical data store copies. The registration of a definition table is a function of
  whether it is asked to be critical, since each is registered at most once with each option. The compile
  switch \<open>LC_SAVE_TO_CDS\<close> is the field \<open>SaveToCDS\<close>; the other settings are those of
  \<open>default_lc_internal_cfg.h\<close>.
\<close>

subsection \<open>Services and settings\<close>

definition LC_CDS_ENABLED :: uint32 where [lc_const]: "LC_CDS_ENABLED = 0x00000001"
definition LC_CDS_CREATED :: uint32 where [lc_const]: "LC_CDS_CREATED = 0x00000002"
definition LC_CDS_RESTORED :: uint32 where [lc_const]: "LC_CDS_RESTORED = 0x00000004"
definition LC_CDS_UPDATED :: uint32 where [lc_const]: "LC_CDS_UPDATED = 0x00000008"
definition LC_WRT_DEFAULT_DATA :: uint32 where [lc_const]: "LC_WRT_DEFAULT_DATA = 0x00000010"
definition LC_WRT_CDS_CREATED :: uint32 where [lc_const]: "LC_WRT_CDS_CREATED = 0x00000020"
definition LC_WRT_CDS_RESTORED :: uint32 where [lc_const]: "LC_WRT_CDS_RESTORED = 0x00000040"
definition LC_WRT_TBL_CREATED :: uint32 where [lc_const]: "LC_WRT_TBL_CREATED = 0x00000080"
definition LC_ART_DEFAULT_DATA :: uint32 where [lc_const]: "LC_ART_DEFAULT_DATA = 0x00000100"
definition LC_ART_CDS_CREATED :: uint32 where [lc_const]: "LC_ART_CDS_CREATED = 0x00000200"
definition LC_ART_CDS_RESTORED :: uint32 where [lc_const]: "LC_ART_CDS_RESTORED = 0x00000400"
definition LC_ART_TBL_CREATED :: uint32 where [lc_const]: "LC_ART_TBL_CREATED = 0x00000800"
definition LC_APP_DEFAULT_DATA :: uint32 where [lc_const]: "LC_APP_DEFAULT_DATA = 0x00001000"
definition LC_APP_CDS_CREATED :: uint32 where [lc_const]: "LC_APP_CDS_CREATED = 0x00002000"
definition LC_APP_CDS_RESTORED :: uint32 where [lc_const]: "LC_APP_CDS_RESTORED = 0x00004000"
definition LC_WDT_DEFAULT_TBL :: uint32 where [lc_const]: "LC_WDT_DEFAULT_TBL = 0x00010000"
definition LC_WDT_CRITICAL_TBL :: uint32 where [lc_const]: "LC_WDT_CRITICAL_TBL = 0x00020000"
definition LC_WDT_TBL_RESTORED :: uint32 where [lc_const]: "LC_WDT_TBL_RESTORED = 0x00040000"
definition LC_WDT_NOT_CRITICAL :: uint32 where [lc_const]: "LC_WDT_NOT_CRITICAL = 0x00080000"
definition LC_ADT_DEFAULT_TBL :: uint32 where [lc_const]: "LC_ADT_DEFAULT_TBL = 0x00100000"
definition LC_ADT_CRITICAL_TBL :: uint32 where [lc_const]: "LC_ADT_CRITICAL_TBL = 0x00200000"
definition LC_ADT_TBL_RESTORED :: uint32 where [lc_const]: "LC_ADT_TBL_RESTORED = 0x00400000"
definition LC_ADT_NOT_CRITICAL :: uint32 where [lc_const]: "LC_ADT_NOT_CRITICAL = 0x00800000"

definition LC_STATE_FROM_CDS :: uint8 where [lc_const]: "LC_STATE_FROM_CDS = 4"
definition LC_STATE_POWER_ON_RESET :: uint8 where [lc_const]: "LC_STATE_POWER_ON_RESET = LC_STATE_DISABLED"
definition LC_STATE_WHEN_CDS_RESTORED :: uint8 where [lc_const]: "LC_STATE_WHEN_CDS_RESTORED = LC_STATE_FROM_CDS"

text \<open>The part of the state that is saved as \<open>LC_AppData_t\<close>.\<close>

record LC_AppData =
  Saved_CmdCount :: uint16
  Saved_CmdErrCount :: uint16
  Saved_APSampleCount :: uint32
  Saved_MonitoredMsgCount :: uint32
  Saved_RTSExecCount :: uint32
  Saved_PassiveRTSExecCount :: uint16
  Saved_CDSSavedOnExit :: uint16
  Saved_CurrentLCState :: uint8

record lc_boot =
  SaveToCDS :: bool
  EvsRegister :: CFE_Status
  CreatePipe :: CFE_Status
  BootSubscribe :: "CFE_SB_MsgId \<Rightarrow> CFE_Status"
  WRT_Register :: CFE_Status
  WRT_GetAddress :: CFE_Status
  WRT_Buffer :: "LC_WRTEntry list"
  ART_Register :: CFE_Status
  ART_GetAddress :: CFE_Status
  ART_Buffer :: "LC_ARTEntry list"
  WDT_Register :: "bool \<Rightarrow> CFE_Status"
  ADT_Register :: "bool \<Rightarrow> CFE_Status"
  WRT_RegisterCDS :: CFE_Status
  WRT_Restore :: "CFE_Status \<times> LC_WRTEntry list option"
  ART_RegisterCDS :: CFE_Status
  ART_Restore :: "CFE_Status \<times> LC_ARTEntry list option"
  App_RegisterCDS :: CFE_Status
  App_Restore :: "CFE_Status \<times> LC_AppData option"
  WDT_Load :: CFE_Status
  ADT_Load :: CFE_Status
  BootServices :: lc_services

definition lc_flag :: "uint32 \<Rightarrow> lc \<Rightarrow> lc" where
  "lc_flag f s = s\<lparr>TableResults := TableResults s OR f\<rparr>"

definition has_flag :: "uint32 \<Rightarrow> lc \<Rightarrow> bool" where
  "has_flag f s \<longleftrightarrow> TableResults s AND f = f"

definition restore_app :: "LC_AppData \<Rightarrow> lc \<Rightarrow> lc" where
  "restore_app a s = s\<lparr>
     CmdCount := Saved_CmdCount a, CmdErrCount := Saved_CmdErrCount a, APSampleCount := Saved_APSampleCount a,
     MonitoredMsgCount := Saved_MonitoredMsgCount a, RTSExecCount := Saved_RTSExecCount a,
     PassiveRTSExecCount := Saved_PassiveRTSExecCount a, CDSSavedOnExit := Saved_CDSSavedOnExit a,
     CurrentLCState := Saved_CurrentLCState a\<rparr>"

text \<open>The global data after the two calls of \<open>memset\<close>; nothing has been sent.\<close>

definition lc_zero :: lc where
  "lc_zero = \<lparr>
     CmdCount = 0, CmdErrCount = 0, APSampleCount = 0, MonitoredMsgCount = 0, RTSExecCount = 0,
     PassiveRTSExecCount = 0, CDSSavedOnExit = 0, CurrentLCState = 0, WDT = [], ADT = [], WRT = [], ART = [],
     WatchpointCount = 0, MessageIDsCount = 0, HashTable = replicate LC_HASH_TABLE_ENTRIES None,
     MessageLinks = replicate LC_MAX_WATCHPOINTS \<lparr>ML_Next = None, ML_MessageID = 0, ML_WatchPtList = None\<rparr>,
     WatchPtLinks = replicate LC_MAX_WATCHPOINTS \<lparr>WP_Next = None, WP_WatchIndex = 0\<rparr>,
     TableResults = 0, HaveActiveCDS = False, LC_Out = []\<rparr>"

text \<open>A step that is taken only while the status is good.\<close>

definition on_success :: "(lc \<Rightarrow> CFE_Status \<times> lc) \<Rightarrow> CFE_Status \<times> lc \<Rightarrow> CFE_Status \<times> lc" where
  "on_success f r = (if fst r = CFE_SUCCESS then f (snd r) else r)"

definition report_failure :: "LC_Event \<Rightarrow> CFE_Status \<Rightarrow> lc \<Rightarrow> CFE_Status \<times> lc" where
  "report_failure e Status s = (Status, if Status \<noteq> CFE_SUCCESS then CFE_EVS_SendEvent_LC e s else s)"

subsection \<open>Result tables and the critical data store\<close>

definition LC_EvsInit :: "lc_boot \<Rightarrow> lc \<Rightarrow> CFE_Status \<times> lc" where
  "LC_EvsInit b s = (EvsRegister b, s)"

definition boot_subscribe :: "lc_boot \<Rightarrow> CFE_SB_MsgId \<Rightarrow> LC_Event \<Rightarrow> lc \<Rightarrow> CFE_Status \<times> lc" where
  "boot_subscribe b MessageID e s = report_failure e (BootSubscribe b MessageID) (lc_send (LC_Subscribe MessageID) s)"

definition LC_SbInit :: "lc_boot \<Rightarrow> lc \<Rightarrow> CFE_Status \<times> lc" where
  "LC_SbInit b s =
     on_success (boot_subscribe b LC_SAMPLE_AP_MID LC_SUB_SAMPLE_CMD_ERR_EID)
       (on_success (boot_subscribe b LC_CMD_MID LC_SUB_GND_CMD_ERR_EID)
         (on_success (boot_subscribe b LC_SEND_HK_MID LC_SUB_HK_REQ_ERR_EID)
           (report_failure LC_CR_PIPE_ERR_EID (CreatePipe b) s)))"

definition LC_CreateResultTables :: "lc_boot \<Rightarrow> lc \<Rightarrow> CFE_Status \<times> lc" where
  "LC_CreateResultTables b s =
     (let wrt = on_success (\<lambda>t. report_failure LC_WRT_GETADDR_ERR_EID (WRT_GetAddress b)
                  (t\<lparr>WRT := if WRT_GetAddress b = CFE_SUCCESS then WRT_Buffer b else []\<rparr>))
                (report_failure LC_WRT_REGISTER_ERR_EID (WRT_Register b) s);
          reg = on_success (\<lambda>t. report_failure LC_ART_REGISTER_ERR_EID (ART_Register b) (lc_flag LC_WRT_TBL_CREATED t)) wrt;
          art = on_success (\<lambda>t. report_failure LC_ART_GETADDR_ERR_EID (ART_GetAddress b)
                  (t\<lparr>ART := if ART_GetAddress b = CFE_SUCCESS then ART_Buffer b else []\<rparr>)) reg
      in on_success (\<lambda>t. (CFE_SUCCESS, lc_flag LC_ART_TBL_CREATED t)) art)"

text \<open>
  One area of the critical data store: \<open>created\<close> is set if it is there, and \<open>restore\<close> runs if it was there
  before. The status is \<open>CFE_SUCCESS\<close> unless the registration fails, which ends the routine.
\<close>

definition task_cds ::
  "CFE_Status \<Rightarrow> uint32 \<Rightarrow> LC_Event \<Rightarrow> (lc \<Rightarrow> lc) \<Rightarrow> lc \<Rightarrow> CFE_Status \<times> lc" where
  "task_cds Result created e restore s =
     (if Result = CFE_SUCCESS then (CFE_SUCCESS, lc_flag created s)
      else if Result = CFE_ES_CDS_ALREADY_EXISTS then (CFE_SUCCESS, restore (lc_flag created s))
      else (Result, CFE_EVS_SendEvent_LC e s))"

definition restore_wrt :: "lc_boot \<Rightarrow> lc \<Rightarrow> lc" where
  "restore_wrt b s =
     (let s1 = (case snd (WRT_Restore b) of None \<Rightarrow> s | Some d \<Rightarrow> s\<lparr>WRT := d\<rparr>)
      in if fst (WRT_Restore b) = CFE_SUCCESS then lc_flag LC_WRT_CDS_RESTORED s1 else s1)"

definition restore_art :: "lc_boot \<Rightarrow> lc \<Rightarrow> lc" where
  "restore_art b s =
     (let s1 = (case snd (ART_Restore b) of None \<Rightarrow> s | Some d \<Rightarrow> s\<lparr>ART := d\<rparr>)
      in if fst (ART_Restore b) = CFE_SUCCESS then lc_flag LC_ART_CDS_RESTORED s1 else s1)"

definition restore_appdata :: "lc_boot \<Rightarrow> lc \<Rightarrow> lc" where
  "restore_appdata b s =
     (let s1 = (case snd (App_Restore b) of None \<Rightarrow> s | Some d \<Rightarrow> restore_app d s)
      in if fst (App_Restore b) = CFE_SUCCESS \<and> CDSSavedOnExit s1 = LC_CDS_SAVED then
           (let s2 = lc_flag LC_APP_CDS_RESTORED s1
            in if LC_STATE_WHEN_CDS_RESTORED \<noteq> LC_STATE_FROM_CDS
               then s2\<lparr>CurrentLCState := LC_STATE_WHEN_CDS_RESTORED\<rparr> else s2)
         else s1)"

definition LC_CreateTaskCDS :: "lc_boot \<Rightarrow> lc \<Rightarrow> CFE_Status \<times> lc" where
  "LC_CreateTaskCDS b s =
     on_success (task_cds (App_RegisterCDS b) LC_APP_CDS_CREATED LC_APP_CDS_REGISTER_ERR_EID (restore_appdata b))
       (on_success (task_cds (ART_RegisterCDS b) LC_ART_CDS_CREATED LC_ART_CDS_REGISTER_ERR_EID (restore_art b))
         (task_cds (WRT_RegisterCDS b) LC_WRT_CDS_CREATED LC_WRT_CDS_REGISTER_ERR_EID (restore_wrt b) s))"

subsection \<open>Definition tables\<close>

text \<open>
  The registration of one definition table: a critical registration that fails is repeated without the
  option, and the critical data store is given up.
\<close>

definition define_table ::
  "(bool \<Rightarrow> CFE_Status) \<Rightarrow> LC_Event \<Rightarrow> LC_Event \<Rightarrow> uint32 \<Rightarrow> uint32 \<Rightarrow> uint32 \<Rightarrow> lc \<Rightarrow> CFE_Status \<times> lc" where
  "define_table register crit_err err critical restored not_critical s =
     (let Result = register (HaveActiveCDS s);
          (Result1, s1) =
            (if HaveActiveCDS s \<and> Result \<noteq> CFE_TBL_INFO_RECOVERED_TBL \<and> Result \<noteq> CFE_SUCCESS
             then (register False, CFE_EVS_SendEvent_LC crit_err (s\<lparr>HaveActiveCDS := False\<rparr>)) else (Result, s))
      in if Result1 = CFE_TBL_INFO_RECOVERED_TBL then (CFE_SUCCESS, lc_flag restored (lc_flag critical s1))
         else if Result1 = CFE_SUCCESS then
           (CFE_SUCCESS, if HaveActiveCDS s1 then lc_flag critical s1 else lc_flag not_critical s1)
         else (Result1, CFE_EVS_SendEvent_LC err s1))"

definition LC_CreateDefinitionTables :: "lc_boot \<Rightarrow> lc \<Rightarrow> CFE_Status \<times> lc" where
  "LC_CreateDefinitionTables b s =
     (let wdt = define_table (WDT_Register b) LC_WDT_REGISTER_CRIT_ERR_EID LC_WDT_REGISTER_ERR_EID
                  LC_WDT_CRITICAL_TBL LC_WDT_TBL_RESTORED LC_WDT_NOT_CRITICAL s;
          adt = on_success (define_table (ADT_Register b) LC_ADT_REGISTER_CRIT_ERR_EID LC_ADT_REGISTER_ERR_EID
                  LC_ADT_CRITICAL_TBL LC_ADT_TBL_RESTORED LC_ADT_NOT_CRITICAL) wdt
      in on_success (\<lambda>t.
           if has_flag LC_WDT_CRITICAL_TBL t \<and> has_flag LC_ADT_NOT_CRITICAL t then
             (let Result = WDT_Register b False
              in if Result = CFE_SUCCESS then (Result, lc_flag LC_WDT_NOT_CRITICAL t)
                 else (Result, CFE_EVS_SendEvent_LC LC_WDT_REREGISTER_ERR_EID t))
           else (CFE_SUCCESS, t)) adt)"

definition got_address :: "CFE_Status \<Rightarrow> bool" where
  "got_address Result \<longleftrightarrow> Result = CFE_SUCCESS \<or> Result = CFE_TBL_INFO_UPDATED"

definition get_wdt :: "lc_boot \<Rightarrow> lc \<Rightarrow> CFE_Status \<times> lc" where
  "get_wdt b s =
     (let Result = WDT_Status (BootServices b)
      in if got_address Result then (Result, s\<lparr>WDT := WDT_Data (BootServices b)\<rparr>)
         else (Result, CFE_EVS_SendEvent_LC LC_WDT_GETADDR_ERR_EID (s\<lparr>WDT := []\<rparr>)))"

definition get_adt :: "lc_boot \<Rightarrow> lc \<Rightarrow> CFE_Status \<times> lc" where
  "get_adt b s =
     (let Result = ADT_Status (BootServices b)
      in if got_address Result then (Result, s\<lparr>ADT := ADT_Data (BootServices b)\<rparr>)
         else (Result, CFE_EVS_SendEvent_LC LC_ADT_GETADDR_ERR_EID (s\<lparr>ADT := []\<rparr>)))"

definition default_data :: "lc_boot \<Rightarrow> lc \<Rightarrow> lc" where
  "default_data b s =
     (let s1 = lc_flag LC_WRT_DEFAULT_DATA (LC_ResetResultsWP 0 (LC_MAX_WATCHPOINTS - 1) False s);
          s2 = lc_flag LC_ART_DEFAULT_DATA (LC_ResetResultsAP 0 (LC_MAX_ACTIONPOINTS - 1) False s1);
          s3 = lc_flag LC_APP_DEFAULT_DATA ((LC_ResetCounters s2)\<lparr>CurrentLCState := LC_STATE_POWER_ON_RESET\<rparr>)
      in if HaveActiveCDS s3 then
           (case LC_UpdateTaskCDS (BootServices b) s3 of
              (st, s4) \<Rightarrow> if st = CFE_SUCCESS then lc_flag LC_CDS_UPDATED s4 else s4\<lparr>HaveActiveCDS := False\<rparr>)
         else s3)"

definition LC_LoadDefaultTables :: "lc_boot \<Rightarrow> lc \<Rightarrow> CFE_Status \<times> lc" where
  "LC_LoadDefaultTables b s =
     (let load = (\<lambda>st f e t. if st = CFE_SUCCESS then (st, lc_flag f t) else (st, CFE_EVS_SendEvent_LC e t));
          r1 = on_success (get_wdt b) (load (WDT_Load b) LC_WDT_DEFAULT_TBL LC_WDT_LOAD_ERR_EID s);
          r2 = (if got_address (fst r1) then load (ADT_Load b) LC_ADT_DEFAULT_TBL LC_ADT_LOAD_ERR_EID (snd r1) else r1);
          (Result, s3) = on_success (get_adt b) r2
      in (Result, if got_address Result then default_data b s3 else s3))"

subsection \<open>Initialisation\<close>

text \<open>The report on the critical data store at the end of the table initialisation.\<close>

definition report_cds :: "lc \<Rightarrow> lc" where
  "report_cds s =
     (if has_flag LC_CDS_ENABLED s then
        (if has_flag LC_CDS_RESTORED s then CFE_EVS_SendEvent_LC LC_CDS_RESTORED_INF_EID s
         else if has_flag LC_CDS_UPDATED s then CFE_EVS_SendEvent_LC LC_CDS_UPDATED_INF_EID s
         else s)
      else CFE_EVS_SendEvent_LC LC_CDS_DISABLED_INF_EID s)"

definition all_restored :: "lc \<Rightarrow> bool" where
  "all_restored s \<longleftrightarrow> has_flag LC_WRT_CDS_RESTORED s \<and> has_flag LC_ART_CDS_RESTORED s \<and> has_flag LC_APP_CDS_RESTORED s
     \<and> has_flag LC_WDT_TBL_RESTORED s \<and> has_flag LC_ADT_TBL_RESTORED s"

text \<open>The tables are registered, and the data store too if it is used.\<close>

definition register_tables :: "lc_boot \<Rightarrow> lc \<Rightarrow> CFE_Status \<times> lc" where
  "register_tables b s =
     (let s1 = (if SaveToCDS b then s\<lparr>HaveActiveCDS := True\<rparr> else s);
          s2 = (if HaveActiveCDS s1 then lc_flag LC_CDS_ENABLED s1 else s1);
          r = on_success (\<lambda>t. LC_CreateDefinitionTables b
                (if HaveActiveCDS t then
                   (case LC_CreateTaskCDS b t of (st, t1) \<Rightarrow> if st \<noteq> CFE_SUCCESS then t1\<lparr>HaveActiveCDS := False\<rparr> else t1)
                 else t)) (LC_CreateResultTables b s2)
      in on_success (\<lambda>t. (CFE_SUCCESS, if HaveActiveCDS t then lc_flag LC_CDS_CREATED t else t)) r)"

definition fill_tables :: "lc_boot \<Rightarrow> lc \<Rightarrow> CFE_Status \<times> lc" where
  "fill_tables b s =
     (let (Result, s1) =
            (if all_restored s then
               (case get_wdt b (lc_flag LC_CDS_RESTORED s) of
                  (st, t) \<Rightarrow> if got_address st then get_adt b t else (st, t))
             else LC_LoadDefaultTables b s)
      in (if Result = CFE_TBL_INFO_UPDATED then CFE_SUCCESS else Result, s1))"

definition LC_TableInit :: "lc_boot \<Rightarrow> lc \<Rightarrow> (CFE_Status \<times> lc) option" where
  "LC_TableInit b s =
     (let (Result, s1) = on_success (fill_tables b) (register_tables b s)
      in if Result = CFE_SUCCESS then
           map_option (\<lambda>t. (Result, report_cds t))
             (LC_CreateHashTable (SubscribeStatus (BootServices b)) (UnsubscribeStatus (BootServices b)) s1)
         else Some (Result, s1))"

definition LC_AppInit :: "lc_boot \<Rightarrow> (CFE_Status \<times> lc) option" where
  "LC_AppInit b =
     (let (Status, s) = on_success (LC_SbInit b) (LC_EvsInit b lc_zero)
      in map_option (\<lambda>(st, t).
           (st, (if st = CFE_SUCCESS then CFE_EVS_SendEvent_LC LC_INIT_INF_EID t else t)\<lparr>CurrentLCState := LC_STATE_ACTIVE\<rparr>))
         (if Status = CFE_SUCCESS then LC_TableInit b s else Some (Status, s)))"

subsection \<open>Main loop\<close>

text \<open>
  What \<open>CFE_SB_ReceiveBuffer\<close> gives to one round of the loop: a status, and with \<open>CFE_SUCCESS\<close> a message. The
  loop is given the inputs up to the round before \<open>CFE_ES_RunLoop\<close> returns false for a reason of its own.
\<close>

record lc_input =
  In_Status :: CFE_Status
  In_Buffer :: message
  In_Now :: CFE_TIME_SysTime
  In_Services :: lc_services

definition lc_round :: "lc_input \<Rightarrow> lc \<Rightarrow> (CFE_Status \<times> lc) option" where
  "lc_round x s =
     (if In_Status x = CFE_SB_TIME_OUT then LC_PerformMaintenance (In_Services x) s
      else if In_Status x = CFE_SUCCESS then LC_AppPipe (In_Services x) (In_Now x) (In_Buffer x) s
      else Some (In_Status x, s))"

fun lc_loop :: "lc_input list \<Rightarrow> lc \<Rightarrow> (CFE_Status \<times> lc) option" where
  "lc_loop [] s = Some (CFE_SUCCESS, s)"
| "lc_loop (x # rest) s =
     Option.bind (lc_round x s) (\<lambda>(Status, s1). if Status \<noteq> CFE_SUCCESS then Some (Status, s1) else lc_loop rest s1)"

definition LC_AppMain ::
  "lc_boot \<Rightarrow> lc_input list \<Rightarrow> lc_services \<Rightarrow> (CFE_Status \<times> lc) option" where
  "LC_AppMain b inputs at_exit =
     Option.bind (LC_AppInit b) (\<lambda>(st0, s0).
       let Initialized = (st0 = CFE_SUCCESS)
       in map_option (\<lambda>(Status, s1).
            let s2 = (if Status \<noteq> CFE_SUCCESS then CFE_EVS_SendEvent_LC LC_TASK_EXIT_EID s1 else s1)
            in (Status, if Initialized \<and> HaveActiveCDS s2 \<and> CDSSavedOnExit s2 = LC_CDS_SAVED
                        then snd (LC_UpdateTaskCDS at_exit s2) else s2))
          (if Initialized then lc_loop inputs s0 else Some (st0, s0)))"

end
