(* ===== verification/Lc_Rpn.thy ===== *)
theory Lc_Rpn
  imports Lc_Action Lc_Watch
begin

section \<open>Limit checker: equations and the expressions they stand for\<close>

text \<open>
  An equation is the postfix form of an expression over watchpoints. The value of an expression is one of
  four results: a connective gives the first result in its order of precedence that an operand has.
\<close>

datatype ap_expr = Watch uint16 | And ap_expr ap_expr | Or ap_expr ap_expr | Xor ap_expr ap_expr | Not ap_expr

primrec postfix :: "ap_expr \<Rightarrow> uint16 list" where
  "postfix (Watch i) = [i]"
| "postfix (And a b) = postfix a @ postfix b @ [LC_RPN_AND]"
| "postfix (Or a b) = postfix a @ postfix b @ [LC_RPN_OR]"
| "postfix (Xor a b) = postfix a @ postfix b @ [LC_RPN_XOR]"
| "postfix (Not a) = postfix a @ [LC_RPN_NOT]"

primrec valid_expr :: "ap_expr \<Rightarrow> bool" where
  "valid_expr (Watch i) \<longleftrightarrow> unat i < LC_MAX_WATCHPOINTS"
| "valid_expr (And a b) \<longleftrightarrow> valid_expr a \<and> valid_expr b"
| "valid_expr (Or a b) \<longleftrightarrow> valid_expr a \<and> valid_expr b"
| "valid_expr (Xor a b) \<longleftrightarrow> valid_expr a \<and> valid_expr b"
| "valid_expr (Not a) \<longleftrightarrow> valid_expr a"

definition first_of :: "uint8 list \<Rightarrow> uint8 set \<Rightarrow> uint8" where
  "first_of order rs = hd (filter (\<lambda>r. r \<in> rs) order)"

definition and_value :: "uint8 \<Rightarrow> uint8 \<Rightarrow> uint8" where
  "and_value a b = first_of [LC_WATCH_FALSE, LC_WATCH_ERROR, LC_WATCH_STALE, LC_WATCH_TRUE] {a, b}"

definition or_value :: "uint8 \<Rightarrow> uint8 \<Rightarrow> uint8" where
  "or_value a b = first_of [LC_WATCH_TRUE, LC_WATCH_ERROR, LC_WATCH_STALE, LC_WATCH_FALSE] {a, b}"

definition xor_value :: "uint8 \<Rightarrow> uint8 \<Rightarrow> uint8" where
  "xor_value a b =
     (if {a, b} \<subseteq> {LC_WATCH_TRUE, LC_WATCH_FALSE} then watch_bool (a \<noteq> b)
      else first_of [LC_WATCH_ERROR, LC_WATCH_STALE] {a, b})"

definition not_value :: "uint8 \<Rightarrow> uint8" where
  "not_value a = (if a \<in> {LC_WATCH_TRUE, LC_WATCH_FALSE} then watch_bool (a = LC_WATCH_FALSE) else a)"

primrec value_of :: "LC_WRTEntry list \<Rightarrow> ap_expr \<Rightarrow> uint8" where
  "value_of wrt (Watch i) = WatchResult (wrt ! unat i)"
| "value_of wrt (And a b) = and_value (value_of wrt a) (value_of wrt b)"
| "value_of wrt (Or a b) = or_value (value_of wrt a) (value_of wrt b)"
| "value_of wrt (Xor a b) = xor_value (value_of wrt a) (value_of wrt b)"
| "value_of wrt (Not a) = not_value (value_of wrt a)"

text \<open>An actionpoint fails if its expression is true.\<close>

definition action_of :: "uint8 \<Rightarrow> uint8" where
  "action_of r =
     (if r = LC_WATCH_TRUE then LC_ACTION_FAIL else if r = LC_WATCH_FALSE then LC_ACTION_PASS
      else if r = LC_WATCH_STALE then LC_ACTION_STALE else LC_ACTION_ERROR)"

definition watch_results :: "uint8 set" where
  "watch_results = {LC_WATCH_FALSE, LC_WATCH_TRUE, LC_WATCH_ERROR, LC_WATCH_STALE}"

definition results_ok :: "LC_WRTEntry list \<Rightarrow> bool" where
  "results_ok wrt \<longleftrightarrow> (\<forall>i < LC_MAX_WATCHPOINTS. WatchResult (wrt ! i) \<in> watch_results)"

lemmas value_defs = and_value_def or_value_def xor_value_def not_value_def first_of_def watch_bool_def

lemma value_of_results: "results_ok wrt \<Longrightarrow> valid_expr e \<Longrightarrow> value_of wrt e \<in> watch_results"
  by (induction e) (auto simp: results_ok_def watch_results_def value_defs lc_const)

lemma rpn_connectives:
  assumes "a \<in> watch_results" "b \<in> watch_results"
  shows "rpn_and (ucast a) (ucast b) = ucast (and_value a b)"
    and "rpn_or (ucast a) (ucast b) = ucast (or_value a b)"
    and "rpn_xor (ucast a) (ucast b) = ucast (xor_value a b)"
  using assms
  by (auto simp: watch_results_def rpn_and_def rpn_or_def rpn_xor_def value_defs lc_const)

lemma rpn_negation: "a \<in> watch_results \<Longrightarrow> rpn_not (ucast a) = ucast (not_value a)"
  by (auto simp: watch_results_def rpn_not_def value_defs lc_const)

subsection \<open>Evaluation\<close>

lemma rpn_running_push [simp]: "rpn_running (push_rpn v st) = rpn_running st"
  by (simp add: rpn_running_def push_rpn_def)

lemma pop_push [simp]: "pop_rpn (push_rpn v st) = (v, st)"
  by (simp add: pop_rpn_def push_rpn_def)

text \<open>A watchpoint number is not an operator.\<close>

lemma rpn_step_items [simp]:
  "rpn_step wrt LC_RPN_AND st = rpn_binary rpn_and st" "rpn_step wrt LC_RPN_OR st = rpn_binary rpn_or st"
  "rpn_step wrt LC_RPN_XOR st = rpn_binary rpn_xor st" "rpn_step wrt LC_RPN_NOT st = rpn_unary rpn_not st"
  "rpn_step wrt LC_RPN_EQUAL st = rpn_equal st"
  "unat i < LC_MAX_WATCHPOINTS \<Longrightarrow> rpn_step wrt i st = push_rpn (ucast (WatchResult (wrt ! unat i))) st"
  by (auto simp: rpn_step_def lc_const)

lemma rpn_loop_postfix:
  assumes "results_ok wrt"
  shows "valid_expr e \<Longrightarrow> rpn_running st \<Longrightarrow> rest \<noteq> [] \<Longrightarrow>
    rpn_loop wrt (postfix e @ rest) st = rpn_loop wrt rest (push_rpn (ucast (value_of wrt e)) st)"
  by (induction e arbitrary: rest st)
     (simp_all add: Let_def rpn_binary_def rpn_unary_def rpn_connectives rpn_negation value_of_results [OF assms])

lemma evaluate_postfix:
  assumes "results_ok (WRT s)" "valid_expr e" "RPNEquation (ADT s ! i) = postfix e @ LC_RPN_EQUAL # rest"
  shows "LC_EvaluateRPN i s = (action_of (value_of (WRT s) e), s)"
proof -
  let ?st = "\<lparr>Done = False, IllegalRPN = False, IllegalOperand = False, EvalResult = LC_ACTION_ERROR, RPNStack = []\<rparr>"
  have "rpn_loop (WRT s) (RPNEquation (ADT s ! i)) ?st
      = rpn_loop (WRT s) (LC_RPN_EQUAL # rest) (push_rpn (ucast (value_of (WRT s) e)) ?st)"
    unfolding assms(3) by (intro rpn_loop_postfix assms(1,2)) (simp_all add: rpn_running_def)
  also have "\<dots> = rpn_equal (push_rpn (ucast (value_of (WRT s) e)) ?st)"
    by (simp add: rpn_equal_def rpn_running_def Let_def push_rpn_def pop_rpn_def)
  finally have "rpn_loop (WRT s) (RPNEquation (ADT s ! i)) ?st = rpn_equal (push_rpn (ucast (value_of (WRT s) e)) ?st)" .
  moreover have "value_of (WRT s) e \<in> watch_results" by (rule value_of_results [OF assms(1, 2)])
  ultimately show ?thesis
    unfolding LC_EvaluateRPN_def Let_def
    by (auto simp: rpn_equal_def push_rpn_def pop_rpn_def Let_def action_of_def watch_results_def lc_const)
qed

subsection \<open>Validation\<close>

lemma validate_item:
  "unat x < LC_MAX_WATCHPOINTS \<Longrightarrow> d \<ge> 0 \<Longrightarrow> validate_loop (x # rest) y d = validate_loop rest x (d + 1)"
  "validate_loop (LC_RPN_EQUAL # rest) y d = (LC_RPN_EQUAL, d)"
  "d > 1 \<Longrightarrow> op \<in> {LC_RPN_AND, LC_RPN_OR, LC_RPN_XOR} \<Longrightarrow>
     validate_loop (op # rest) y d = validate_loop rest op (d - 1)"
  "d > 0 \<Longrightarrow> validate_loop (LC_RPN_NOT # rest) y d = validate_loop rest LC_RPN_NOT d"
  by (auto simp: lc_const)

declare validate_loop.simps [simp del]

lemma last_postfix [simp]: "postfix e \<noteq> []"
  by (cases e) auto

lemma validate_postfix:
  "valid_expr e \<Longrightarrow> d \<ge> 0 \<Longrightarrow> validate_loop (postfix e @ rest) x d = validate_loop rest (last (postfix e)) (d + 1)"
  by (induction e arbitrary: rest x d) (simp_all add: validate_item add.commute)

lemma binary_cases:
  assumes "i \<in> {LC_RPN_AND, LC_RPN_OR, LC_RPN_XOR}"
  obtains f where "\<And>a b. postfix (f a b) = postfix a @ postfix b @ [i]"
    "\<And>a b. valid_expr (f a b) \<longleftrightarrow> valid_expr a \<and> valid_expr b"
  using assms that [of And] that [of Or] that [of Xor] by auto

text \<open>
  The expressions on a stack, the top first. An accepted equation completes the expressions that have
  been read so far.
\<close>

definition postfixes :: "ap_expr list \<Rightarrow> uint16 list" where
  "postfixes es = concat (map postfix (rev es))"

lemma postfixes_simps [simp]: "postfixes [] = []" "postfixes (e # es) = postfixes es @ postfix e"
  by (simp_all add: postfixes_def)

lemma validate_complete:
  "validate_loop r x (int (length es)) = (LC_RPN_EQUAL, 1) \<Longrightarrow> x \<noteq> LC_RPN_EQUAL \<Longrightarrow> list_all valid_expr es \<Longrightarrow>
    \<exists>e rest. postfixes es @ r = postfix e @ LC_RPN_EQUAL # rest \<and> valid_expr e"
proof (induction r arbitrary: x es)
  case Nil
  then show ?case by (simp add: validate_loop.simps)
next
  case (Cons i r)
  show ?case
  proof (cases "i \<in> {LC_RPN_AND, LC_RPN_OR, LC_RPN_XOR}")
    case True
    then obtain f where f: "\<And>a b. postfix (f a b) = postfix a @ postfix b @ [i]"
      "\<And>a b. valid_expr (f a b) \<longleftrightarrow> valid_expr a \<and> valid_expr b"
      by (rule binary_cases) (rule that)
    have d: "int (length es) > 1"
      using Cons.prems(1) True by (auto simp: validate_loop.simps lc_const split: if_splits)
    then obtain b a es' where es: "es = b # a # es'" by (cases es; cases "tl es") auto
    have "validate_loop r i (int (length (f a b # es'))) = (LC_RPN_EQUAL, 1)"
      using Cons.prems(1) validate_item(3) [OF d True] by (simp add: es)
    then show ?thesis
      using Cons.IH [of i "f a b # es'"] Cons.prems(3) True by (auto simp: es f lc_const)
  next
    case False
    consider (neg) "i = LC_RPN_NOT" | (eq) "i = LC_RPN_EQUAL" | (other) "i \<noteq> LC_RPN_NOT" "i \<noteq> LC_RPN_EQUAL" by blast
    then show ?thesis
    proof cases
      case neg
      have d: "int (length es) > 0"
        using Cons.prems(1) neg by (auto simp: validate_loop.simps lc_const split: if_splits)
      then obtain a es' where es: "es = a # es'" by (cases es) auto
      have "validate_loop r i (int (length (Not a # es'))) = (LC_RPN_EQUAL, 1)"
        using Cons.prems(1) validate_item(4) [OF d] by (simp add: es neg)
      then show ?thesis
        using Cons.IH [of i "Not a # es'"] Cons.prems(3) by (auto simp: es neg lc_const)
    next
      case eq
      then have "length es = 1" using Cons.prems(1) by (simp add: validate_item(2))
      then obtain e where "es = [e]" by (auto simp: length_Suc_conv)
      then show ?thesis using Cons.prems(3) eq by auto
    next
      case other
      then have i: "unat i < LC_MAX_WATCHPOINTS"
        using Cons.prems(1) False by (auto simp: validate_loop.simps split: if_splits)
      have "validate_loop r i (int (length (Watch i # es))) = (LC_RPN_EQUAL, 1)"
        using Cons.prems(1) validate_item(1) [OF i, of "int (length es)"] by (simp add: add.commute)
      then show ?thesis
        using Cons.IH [of i "Watch i # es"] Cons.prems(3) other i by auto
    qed
  qed
qed

lemma validate_iff:
  "LC_ValidateRPN r = LC_ADTVAL_ERR_NONE \<longleftrightarrow>
    (\<exists>e rest. r = postfix e @ LC_RPN_EQUAL # rest \<and> valid_expr e)"
proof
  assume "LC_ValidateRPN r = LC_ADTVAL_ERR_NONE"
  then have "validate_loop r 0 (int (length ([] :: ap_expr list))) = (LC_RPN_EQUAL, 1)"
    by (auto simp: LC_ValidateRPN_def split: prod.splits if_splits)
  from validate_complete [OF this] show "\<exists>e rest. r = postfix e @ LC_RPN_EQUAL # rest \<and> valid_expr e"
    by (simp add: lc_const)
next
  assume "\<exists>e rest. r = postfix e @ LC_RPN_EQUAL # rest \<and> valid_expr e"
  then show "LC_ValidateRPN r = LC_ADTVAL_ERR_NONE"
    by (auto simp: LC_ValidateRPN_def validate_postfix validate_item(2))
qed

subsection \<open>An equation that the validation rejects\<close>

text \<open>If the evaluation gets to the end without an illegal step, the stack depths were those the validation counts.\<close>

lemma rpn_step_depth:
  assumes "rpn_running st" "rpn_running (rpn_step wrt i st)"
  shows "validate_loop (i # rest) x (int (length (RPNStack st)))
      = validate_loop rest i (int (length (RPNStack (rpn_step wrt i st))))"
  using assms
  by (auto simp: validate_loop.simps rpn_step_def rpn_binary_def rpn_unary_def rpn_equal_def pop_rpn_def push_rpn_def
      rpn_running_def Let_def lc_const
      split: list.splits if_splits)

lemma rpn_step_ends:
  assumes "rpn_running st" "\<not> rpn_running (rpn_step wrt i st)" "\<not> IllegalRPN (rpn_step wrt i st)"
  shows "i = LC_RPN_EQUAL \<and>
    (length (RPNStack st) = 1 \<or> EvalResult (rpn_step wrt i st) \<in> {LC_WATCH_ERROR, LC_WATCH_STALE})"
  using assms
  by (auto simp: rpn_step_def rpn_binary_def rpn_unary_def rpn_equal_def pop_rpn_def push_rpn_def rpn_running_def Let_def
      split: list.splits if_splits)

lemma rpn_loop_rejects:
  "rpn_running st \<Longrightarrow> r \<noteq> [] \<Longrightarrow> \<not> IllegalRPN (rpn_loop wrt r st) \<Longrightarrow>
    validate_loop r x (int (length (RPNStack st))) = (LC_RPN_EQUAL, 1) \<or>
    EvalResult (rpn_loop wrt r st) \<in> {LC_WATCH_ERROR, LC_WATCH_STALE}"
proof (induction r arbitrary: st x)
  case (Cons i r)
  show ?case
  proof (cases "rpn_running (rpn_step wrt i st)")
    case True
    then have "r \<noteq> []" using Cons.prems(3) by (auto simp: Let_def)
    then have loop: "rpn_loop wrt (i # r) st = rpn_loop wrt r (rpn_step wrt i st)"
      using True by (simp add: Let_def)
    show ?thesis
      unfolding loop rpn_step_depth [OF Cons.prems(1) True]
      using Cons.IH [OF True \<open>r \<noteq> []\<close>] Cons.prems(3) unfolding loop by blast
  next
    case False
    then have loop: "rpn_loop wrt (i # r) st = rpn_step wrt i st" by (simp add: Let_def)
    show ?thesis
      using rpn_step_ends [OF Cons.prems(1) False] Cons.prems(3) unfolding loop
      by (auto simp: validate_item(2))
  qed
qed simp

lemma evaluate_rejected:
  assumes "RPNEquation (ADT s ! i) \<noteq> []" "LC_ValidateRPN (RPNEquation (ADT s ! i)) \<noteq> LC_ADTVAL_ERR_NONE"
  shows "fst (LC_EvaluateRPN i s) \<in> {LC_ACTION_ERROR, LC_ACTION_STALE}"
proof -
  let ?st = "\<lparr>Done = False, IllegalRPN = False, IllegalOperand = False, EvalResult = LC_ACTION_ERROR, RPNStack = []\<rparr>"
  let ?r = "rpn_loop (WRT s) (RPNEquation (ADT s ! i)) ?st"
  have "validate_loop (RPNEquation (ADT s ! i)) 0 0 \<noteq> (LC_RPN_EQUAL, 1)"
    using assms(2) by (auto simp: LC_ValidateRPN_def)
  then have "IllegalRPN ?r \<or> EvalResult ?r \<in> {LC_WATCH_ERROR, LC_WATCH_STALE}"
    using rpn_loop_rejects [of ?st "RPNEquation (ADT s ! i)" "WRT s" 0] assms(1) by (auto simp: rpn_running_def)
  then show ?thesis by (auto simp: LC_EvaluateRPN_def Let_def)
qed

text \<open>The array \<open>RPNStack\<close> has a place for each item of an equation, and no item pushes more than one value.\<close>

lemma rpn_step_push: "length (RPNStack (rpn_step wrt i st)) \<le> length (RPNStack st) + 1"
  by (auto simp: rpn_step_def rpn_binary_def rpn_unary_def rpn_equal_def pop_rpn_def push_rpn_def Let_def split: list.splits)

end
