(* ===== verification/Lc_Sample.thy ===== *)
theory Lc_Sample
  imports Lc_Cmds Lc_Rpn
begin

section \<open>Limit checker: what sampling and the commands do\<close>

subsection \<open>The request for a sequence\<close>

text \<open>A command for message ID 0x18A9 of 12 bytes with the function code 4 and the ID of the sequence in its payload.\<close>

definition rts_message :: "uint16 \<Rightarrow> message" where
  "rts_message r = [0x18, 0xA9, 0xC0, 0, 0, 5, 4, 0, ucast r, ucast (drop_bit 8 r), 0, 0]"

lemma execute_rts: "LC_ExecuteRTS r s = lc_send (LC_Transmit (rts_message r)) s"
proof -
  have "snd (CFE_MSG_SetFcnCode (snd (CFE_MSG_Init (Some (replicate 12 0)) LC_RTS_REQ_MID 12)) LC_RTS_REQ_CC)
    = Some [0x18, 0xA9, 0xC0, 0, 0, 5, 4, 0, 0, 0, 0, 0]" by code_simp
  then show ?thesis by (simp add: LC_ExecuteRTS_def rts_message_def Let_def)
qed

lemma rts_message_inj: "rts_message r = rts_message q \<longleftrightarrow> r = q"
proof
  assume "rts_message r = rts_message q"
  then have lo: "(ucast r :: uint8) = ucast q" and hi: "(ucast (drop_bit 8 r) :: uint8) = ucast (drop_bit 8 q)"
    by (simp_all add: rts_message_def)
  show "r = q"
  proof (rule bit_word_eqI)
    fix n assume "n < LENGTH(16)"
    then consider "n < 8" | "8 \<le> n" "n - 8 < 8" by force
    then show "bit r n \<longleftrightarrow> bit q n"
    proof cases
      case 1
      then show ?thesis using arg_cong [OF lo, of "\<lambda>w. bit w n"] by (simp add: bit_simps)
    next
      case 2
      then show ?thesis using arg_cong [OF hi, of "\<lambda>w. bit w (n - 8)"] by (simp add: bit_simps)
    qed
  qed
qed simp

text \<open>The sequences that have been requested.\<close>

definition transmits :: "lc \<Rightarrow> message list" where
  "transmits s = concat (map (\<lambda>x. case x of LC_Transmit m \<Rightarrow> [m] | _ \<Rightarrow> []) (LC_Out s))"

lemma transmits_send:
  "transmits (lc_send x s) = transmits s @ (case x of LC_Transmit m \<Rightarrow> [m] | _ \<Rightarrow> [])"
  by (simp add: transmits_def lc_send_def)

lemma transmits_frame:
  "transmits (upd_art i f s) = transmits s" "transmits (upd_wrt i g s) = transmits s"
  "transmits (s\<lparr>APSampleCount := a\<rparr>) = transmits s" "transmits (s\<lparr>RTSExecCount := b\<rparr>) = transmits s"
  "transmits (s\<lparr>PassiveRTSExecCount := c\<rparr>) = transmits s" "transmits (s\<lparr>CmdCount := d\<rparr>) = transmits s"
  "transmits (s\<lparr>CmdErrCount := d\<rparr>) = transmits s" "transmits (s\<lparr>CurrentLCState := e\<rparr>) = transmits s"
  "transmits (s\<lparr>MonitoredMsgCount := b\<rparr>) = transmits s"
  by (simp_all add: transmits_def upd_art_def upd_wrt_def)

subsection \<open>One sample\<close>

lemma evaluate_state:
  "transmits (snd (LC_EvaluateRPN i s)) = transmits s" "ART (snd (LC_EvaluateRPN i s)) = ART s"
  "ADT (snd (LC_EvaluateRPN i s)) = ADT s" "WRT (snd (LC_EvaluateRPN i s)) = WRT s"
  "CurrentLCState (snd (LC_EvaluateRPN i s)) = CurrentLCState s"
  by (simp_all add: LC_EvaluateRPN_def Let_def transmits_send)

lemma evaluate_count: "fst (LC_EvaluateRPN i (s\<lparr>APSampleCount := n\<rparr>)) = fst (LC_EvaluateRPN i s)"
  by (simp add: LC_EvaluateRPN_def Let_def)

definition ap_sampled :: "uint8 \<Rightarrow> bool" where
  "ap_sampled st \<longleftrightarrow> st = LC_APSTATE_ACTIVE \<or> st = LC_APSTATE_PASSIVE"

text \<open>The new number of consecutive failures, and whether it is high enough for a request.\<close>

definition fails_after :: "uint8 \<Rightarrow> uint32 \<Rightarrow> uint32" where
  "fails_after r c = (if r = LC_ACTION_FAIL then c + 1 else if r = LC_ACTION_PASS \<or> r = LC_ACTION_STALE then 0 else c)"

definition fails_due :: "uint8 \<Rightarrow> LC_ADTEntry \<Rightarrow> uint32 \<Rightarrow> bool" where
  "fails_due r d c \<longleftrightarrow> r = LC_ACTION_FAIL \<and> ucast (MaxFailsBeforeRTS d) \<le> c + 1"

text \<open>The part of the state of an actionpoint that decides on requests.\<close>

definition ap_core :: "LC_ARTEntry \<Rightarrow> uint8 \<times> uint8 \<times> uint32" where
  "ap_core a = (ActionResult a, CurrentState a, ConsecutiveFailCount a)"

lemma limited_event_core:
  "i < length (ART s) \<Longrightarrow> ART (limited_event i c l e s) = (ART s)[i := ART (limited_event i c l e s) ! i]"
  "ap_core (ART (limited_event i c l e s) ! i) = ap_core (ART s ! i)"
  "transmits (limited_event i c l e s) = transmits s" "ADT (limited_event i c l e s) = ADT s"
  "WRT (limited_event i c l e s) = WRT s" "CurrentLCState (limited_event i c l e s) = CurrentLCState s"
  "length (ART (limited_event i c l e s)) = length (ART s)"
  by (cases "i < length (ART s)";
      simp add: limited_event_def ap_event_def ap_core_def transmits_frame transmits_send list_update_beyond)+

lemma other_ap: "j \<noteq> i \<Longrightarrow> ART (limited_event i c l e s) ! j = ART s ! j"
  by (simp add: limited_event_def ap_event_def)

lemma rts_due_result:
  assumes "i < length (ART s)" "ap_sampled (CurrentState (ART s ! i))"
  defines "st \<equiv> CurrentState (ART s ! i)"
  shows "ap_core (ART (rts_due i st s) ! i) =
      (ActionResult (ART s ! i), LC_APSTATE_PASSIVE, ConsecutiveFailCount (ART s ! i))"
    and "transmits (rts_due i st s) = transmits s @
      (if st = LC_APSTATE_ACTIVE \<and> CurrentLCState s = LC_STATE_ACTIVE then [rts_message (RTSId (ADT s ! i))] else [])"
    and "j \<noteq> i \<Longrightarrow> ART (rts_due i st s) ! j = ART s ! j"
    and "ADT (rts_due i st s) = ADT s" "WRT (rts_due i st s) = WRT s"
    "CurrentLCState (rts_due i st s) = CurrentLCState s" "length (ART (rts_due i st s)) = length (ART s)"
  using assms
  by (auto simp: rts_due_def Let_def ap_core_def ap_event_def transmits_frame transmits_send execute_rts ap_sampled_def
      limited_event_def)

text \<open>What one sample makes of an actionpoint and of the state, for the result \<open>r\<close> of its equation.\<close>

definition sample_spec :: "nat \<Rightarrow> uint8 \<Rightarrow> lc \<Rightarrow> lc \<Rightarrow> bool" where
  "sample_spec i r s s' \<longleftrightarrow>
     (let a = ART s ! i; d = ADT s ! i; due = fails_due r d (ConsecutiveFailCount a);
          act = CurrentState a = LC_APSTATE_ACTIVE
      in ap_core (ART s' ! i) = (r, if due \<and> act then LC_APSTATE_PASSIVE else CurrentState a,
           fails_after r (ConsecutiveFailCount a)) \<and>
         transmits s' = transmits s @
           (if due \<and> act \<and> CurrentLCState s = LC_STATE_ACTIVE then [rts_message (RTSId d)] else []) \<and>
         (\<forall>j. j \<noteq> i \<longrightarrow> ART s' ! j = ART s ! j) \<and> length (ART s') = length (ART s) \<and>
         ADT s' = ADT s \<and> WRT s' = WRT s \<and> CurrentLCState s' = CurrentLCState s)"

lemma ap_passed_result:
  assumes "i < length (ART s)"
  shows "ap_core (ART (ap_passed i p s) ! i) = (ActionResult (ART s ! i), CurrentState (ART s ! i), 0)"
    "transmits (ap_passed i p s) = transmits s" "j \<noteq> i \<Longrightarrow> ART (ap_passed i p s) ! j = ART s ! j"
    "length (ART (ap_passed i p s)) = length (ART s)" "ADT (ap_passed i p s) = ADT s" "WRT (ap_passed i p s) = WRT s"
    "CurrentLCState (ap_passed i p s) = CurrentLCState s"
  using assms
  by (auto simp: ap_passed_def Let_def ap_core_def limited_event_def ap_event_def transmits_frame transmits_send)

text \<open>The state in which \<open>ap_failed\<close> decides whether a request is due.\<close>

definition fail_counted :: "nat \<Rightarrow> uint8 \<Rightarrow> lc \<Rightarrow> lc" where
  "fail_counted i PreviousResult s =
     (let s1 = upd_art i (\<lambda>r. r\<lparr>ConsecutiveFailCount := ConsecutiveFailCount r + 1,
                               CumulativeFailCount := CumulativeFailCount r + 1\<rparr>) s
      in if PreviousResult = LC_ACTION_PASS then
           (let t = upd_art i (\<lambda>r. r\<lparr>PassToFailCount := PassToFailCount r + 1\<rparr>) s1
            in limited_event i (PassToFailCount (ART t ! i)) (MaxPassFailEvents (ADT s ! i)) LC_AP_PASSTOFAIL_INF_EID t)
         else s1)"

lemma ap_failed_counted: "ap_failed i st p s =
    (if ucast (MaxFailsBeforeRTS (ADT s ! i)) \<le> ConsecutiveFailCount (ART (fail_counted i p s) ! i)
     then rts_due i st (fail_counted i p s) else fail_counted i p s)"
  by (simp add: ap_failed_def fail_counted_def Let_def)

lemma fail_counted_result:
  assumes "i < length (ART s)"
  shows "ActionResult (ART (fail_counted i p s) ! i) = ActionResult (ART s ! i)"
    "CurrentState (ART (fail_counted i p s) ! i) = CurrentState (ART s ! i)"
    "ConsecutiveFailCount (ART (fail_counted i p s) ! i) = ConsecutiveFailCount (ART s ! i) + 1"
    "transmits (fail_counted i p s) = transmits s" "j \<noteq> i \<Longrightarrow> ART (fail_counted i p s) ! j = ART s ! j"
    "length (ART (fail_counted i p s)) = length (ART s)" "ADT (fail_counted i p s) = ADT s"
    "WRT (fail_counted i p s) = WRT s" "CurrentLCState (fail_counted i p s) = CurrentLCState s"
  using assms
  by (auto simp: fail_counted_def Let_def limited_event_def ap_event_def transmits_frame transmits_send)

lemma sample_result:
  assumes "i < length (ART s)" "ap_sampled (CurrentState (ART s ! i))"
  shows "sample_spec i (fst (LC_EvaluateRPN i s)) s (LC_SampleSingleAP i s)"
proof -
  define s1 where "s1 = s\<lparr>APSampleCount := APSampleCount s + 1\<rparr>"
  obtain r s2 where r: "LC_EvaluateRPN i s1 = (r, s2)" by fastforce
  define s3 where "s3 = upd_art i (\<lambda>x. x\<lparr>ActionResult := r\<rparr>) s2"
  let ?p = "ActionResult (ART s ! i)" and ?st = "CurrentState (ART s ! i)"
  have s1: "transmits s1 = transmits s" "ART s1 = ART s" "ADT s1 = ADT s" "WRT s1 = WRT s"
    "CurrentLCState s1 = CurrentLCState s" by (simp_all add: s1_def transmits_frame)
  have s2: "transmits s2 = transmits s" "ART s2 = ART s" "ADT s2 = ADT s" "WRT s2 = WRT s"
    "CurrentLCState s2 = CurrentLCState s"
    using evaluate_state [of i s1, unfolded r snd_conv] s1 by simp_all
  have s3: "i < length (ART s3)" "CurrentState (ART s3 ! i) = ?st" "ActionResult (ART s3 ! i) = r"
    "ConsecutiveFailCount (ART s3 ! i) = ConsecutiveFailCount (ART s ! i)" "transmits s3 = transmits s"
    "ADT s3 = ADT s" "WRT s3 = WRT s" "CurrentLCState s3 = CurrentLCState s" "length (ART s3) = length (ART s)"
    and s3': "\<And>j. j \<noteq> i \<Longrightarrow> ART s3 ! j = ART s ! j"
    using assms(1) s2 by (simp_all add: s3_def transmits_frame)
  have sample: "LC_SampleSingleAP i s =
      (if r = LC_ACTION_FAIL then ap_failed i ?st ?p s3 else if r = LC_ACTION_PASS then ap_passed i ?p s3
       else if r = LC_ACTION_STALE then upd_art i (\<lambda>x. x\<lparr>ConsecutiveFailCount := 0\<rparr>) s3
       else CFE_EVS_SendEvent_LC LC_ACTION_ERROR_ERR_EID s3)"
    using assms(2)
    unfolding LC_SampleSingleAP_def ap_sampled_def Let_def s1_def [symmetric] s1(2) r prod.case s3_def by simp
  have "fst (LC_EvaluateRPN i s) = r" using evaluate_count [of i "APSampleCount s + 1" s] r by (simp add: s1_def)
  moreover have "sample_spec i r s (LC_SampleSingleAP i s)"
  proof (cases "r = LC_ACTION_FAIL")
    case True
    let ?t = "fail_counted i ?p s3"
    note t = fail_counted_result [OF s3(1), where p = ?p]
    have sampled: "ap_sampled (CurrentState (ART ?t ! i))" using assms(2) t s3 by simp
    have i: "i < length (ART ?t)" using t s3 by simp
    note due = rts_due_result [OF i sampled]
    show ?thesis
    proof (cases "ucast (MaxFailsBeforeRTS (ADT s ! i)) \<le> ConsecutiveFailCount (ART s ! i) + 1")
      case yes: True
      have "LC_SampleSingleAP i s = rts_due i (CurrentState (ART ?t ! i)) ?t"
        using True yes t s3 by (simp add: sample ap_failed_counted)
      then show ?thesis
        using True yes t s3 s3' due assms(2)
        by (auto simp: sample_spec_def Let_def fails_after_def fails_due_def ap_sampled_def)
    next
      case no: False
      have "LC_SampleSingleAP i s = ?t" using True no t s3 by (simp add: sample ap_failed_counted)
      then show ?thesis
        using True no t s3 s3'
        by (auto simp: sample_spec_def Let_def fails_after_def fails_due_def ap_core_def)
    qed
  next
    case False
    then show ?thesis
      using ap_passed_result [OF s3(1), where p = ?p] s3 s3' assms(1)
      by (auto simp: sample sample_spec_def Let_def fails_after_def fails_due_def ap_core_def transmits_frame transmits_send)
  qed
  ultimately show ?thesis by simp
qed

lemma sample_skipped: "\<not> ap_sampled (CurrentState (ART s ! i)) \<Longrightarrow> LC_SampleSingleAP i s = s"
  by (simp add: LC_SampleSingleAP_def ap_sampled_def)

end
