(* ===== verification/Lc_Run.thy ===== *)
theory Lc_Run
  imports Lc_App Lc_Sample
begin

section \<open>Limit checker: requests along a run\<close>

subsection \<open>What does not touch the actionpoints\<close>

text \<open>The actionpoints, their definitions and the messages that have been sent.\<close>

definition ap_view :: "lc \<Rightarrow> LC_ARTEntry list \<times> LC_ADTEntry list \<times> message list" where
  "ap_view s = (ART s, ADT s, transmits s)"

named_theorems view

lemma view_send [view]:
  "ap_view (lc_send (LC_Event e) s) = ap_view s" "ap_view (lc_send (LC_Subscribe m) s) = ap_view s"
  "ap_view (lc_send (LC_Unsubscribe m) s) = ap_view s" "ap_view (lc_send (LC_Housekeeping h) s) = ap_view s"
  by (simp_all add: ap_view_def transmits_send)

lemma view_update [view]:
  "ap_view (upd_wrt i f s) = ap_view s" "ap_view (upd_mlink i g s) = ap_view s" "ap_view (upd_wlink i h s) = ap_view s"
  "ap_view (snd (next_mlink s)) = ap_view s" "ap_view (snd (next_wlink s)) = ap_view s"
  "ap_view (s\<lparr>HashTable := t\<rparr>) = ap_view s" "ap_view (s\<lparr>WDT := w\<rparr>) = ap_view s" "ap_view (s\<lparr>CmdCount := c\<rparr>) = ap_view s"
  "ap_view (s\<lparr>CmdErrCount := c\<rparr>) = ap_view s" "ap_view (s\<lparr>MonitoredMsgCount := n\<rparr>) = ap_view s"
  "ap_view (s\<lparr>CurrentLCState := u\<rparr>) = ap_view s" "ap_view (s\<lparr>HaveActiveCDS := b\<rparr>) = ap_view s"
  "ap_view (s\<lparr>CDSSavedOnExit := c\<rparr>) = ap_view s" "ap_view (cleared_links s) = ap_view s"
  "ap_view (LC_ResetCounters s) = ap_view s"
  by (simp_all add: ap_view_def transmits_def upd_wrt_def upd_mlink_def upd_wlink_def next_mlink_def next_wlink_def
      cleared_links_def LC_ResetCounters_def)

lemma view_command [view]:
  "ap_view (cmd_accepted e s) = ap_view s" "ap_view (cmd_rejected e s) = ap_view s"
  by (simp_all add: cmd_accepted_def cmd_rejected_def view)

lemma view_compare [view]:
  "ap_view (snd (LC_SignedCompare i v c s)) = ap_view s" "ap_view (snd (LC_UnsignedCompare i v c s)) = ap_view s"
  "ap_view (snd (LC_FloatCompare i v c s)) = ap_view s"
  by (simp_all add: LC_SignedCompare_def LC_UnsignedCompare_def LC_FloatCompare_def Let_def view if_distrib [of snd]
      if_distrib [of ap_view] cong: if_cong)

lemma view_watch [view]:
  "ap_view (watch_error i e s) = ap_view s" "ap_view (snd (LC_GetSizedWPData i src s)) = ap_view s"
  "ap_view (snd (LC_WPOffsetValid i buf s)) = ap_view s" "ap_view (snd (LC_OperatorCompare i v s)) = ap_view s"
  by (simp_all add: watch_error_def LC_GetSizedWPData_def LC_WPOffsetValid_def LC_OperatorCompare_def Let_def view
      if_distrib [of snd] if_distrib [of ap_view] cong: if_cong split: option.split)

lemma view_process [view]: "ap_view (LC_ProcessWP i buf t s) = ap_view s"
proof -
  obtain v d s1 where g: "LC_GetSizedWPData i (drop (unat (WatchpointOffset (WDT s ! i))) buf) s = ((v, d), s1)"
    by (metis prod.collapse)
  have "ap_view s1 = ap_view s" using view_watch(2) [of i _ s] g by (metis snd_conv)
  then show ?thesis
    using view_watch(4) [of i _ s1]
    by (simp add: LC_ProcessWP_def Let_def g LC_CustomFunction_def view case_prod_beta)
qed

lemma view_check [view]: "ap_view (check_watchpoint buf t i s) = ap_view s"
proof -
  obtain v s1 where "LC_WPOffsetValid i buf s = (v, s1)" by fastforce
  then show ?thesis
    using view_watch(3) [of i buf s] by (cases v) (simp_all add: check_watchpoint_def view)
qed

lemma view_checks:
  assumes "check_watchpoints buf t l b s = Some r"
  shows "ap_view (snd r) = ap_view s"
  using assms
proof (rule check_watchpoints.raw_induct [rotated, where P = "\<lambda>_ _ _ _ s r. ap_view (snd r) = ap_view s"])
  fix f buf t l b s r
  assume "\<And>buf t l b s r. f buf t l b s = Some r \<Longrightarrow> ap_view (snd r) = ap_view s"
    and "(case l of None \<Rightarrow> Some (b, s)
          | Some p \<Rightarrow> (let s1 = check_watchpoint buf t (unat (WP_WatchIndex (WatchPtLinks s ! p))) s
                       in f buf t (WP_Next (WatchPtLinks s1 ! p)) True s1)) = Some r"
  then show "ap_view (snd r) = ap_view s" by (cases l) (auto simp: Let_def view)
qed

lemma view_message: "LC_CheckMsgForWPs now m buf s = Some s' \<Longrightarrow> ap_view s' = ap_view s"
  by (auto simp: LC_CheckMsgForWPs_def view dest!: view_checks split: if_splits option.splits bind_splits)

lemma view_fold: "(\<And>i s. ap_view (f i s) = ap_view s) \<Longrightarrow> ap_view (fold f is s) = ap_view s"
  by (induction "is" arbitrary: s) auto

lemma view_reset_wp [view]: "ap_view (LC_ResetResultsWP a b c s) = ap_view s"
  unfolding LC_ResetResultsWP_def by (rule view_fold) (simp add: reset_wp_def Let_def view)

lemma view_age [view]: "ap_view (fold age_watchpoint is s) = ap_view s"
  by (rule view_fold) (simp add: age_watchpoint_def Let_def view)

lemma view_cds [view]: "ap_view (snd (LC_UpdateTaskCDS v s)) = ap_view s"
  by (simp add: LC_UpdateTaskCDS_def Let_def view)

subsection \<open>The table of monitored messages does not touch them either\<close>

text \<open>Neither does it touch the results and the definitions of the watchpoints, or the counters.\<close>

definition table_view :: "lc \<Rightarrow> LC_WDTEntry list \<times> LC_WRTEntry list \<times> uint16 \<times> uint16 \<times>
    LC_ARTEntry list \<times> LC_ADTEntry list \<times> message list" where
  "table_view s = (WDT s, WRT s, CmdCount s, CDSSavedOnExit s, ap_view s)"

lemma table_view_update [view]:
  "table_view (lc_send (LC_Event e) s) = table_view s" "table_view (lc_send (LC_Subscribe m) s) = table_view s"
  "table_view (lc_send (LC_Unsubscribe m) s) = table_view s" "table_view (upd_mlink i g s) = table_view s"
  "table_view (upd_wlink i h s) = table_view s" "table_view (snd (next_mlink s)) = table_view s"
  "table_view (snd (next_wlink s)) = table_view s" "table_view (s\<lparr>HashTable := t\<rparr>) = table_view s"
  "table_view (cleared_links s) = table_view s"
  by (simp_all add: table_view_def view)
     (simp_all add: lc_send_def upd_mlink_def upd_wlink_def next_mlink_def next_wlink_def cleared_links_def)

lemma view_find_link:
  assumes "find_message_link m b l s = Some r"
  shows "table_view (snd (snd r)) = table_view s"
  using assms
proof (rule find_message_link.raw_induct [rotated, where P = "\<lambda>_ _ _ s r. table_view (snd (snd r)) = table_view s"])
  fix f m b l s r
  assume "\<And>m b l s r. f m b l s = Some r \<Longrightarrow> table_view (snd (snd r)) = table_view s"
    and "(if ML_MessageID (MessageLinks s ! l) = m then Some (l, b, s)
      else case ML_Next (MessageLinks s ! l) of
          None \<Rightarrow>
            (let (new, s1) = next_mlink s;
                 s2 = upd_mlink l (\<lambda>l. l\<lparr>ML_Next := Some new\<rparr>) s1;
                 s3 = upd_mlink new (\<lambda>l. l\<lparr>ML_MessageID := m\<rparr>) s2
             in f m True new s3)
        | Some p \<Rightarrow> f m b p s) = Some r"
  moreover have "table_view (snd (next_mlink s)) = table_view s" by (simp add: view)
  ultimately show "table_view (snd (snd r)) = table_view s"
    by (auto simp: Let_def case_prod_beta view split: if_splits option.splits)
qed

lemma view_subscribe [view]: "table_view (lc_subscribe sub m s) = table_view s"
  by (simp add: lc_subscribe_def Let_def view)

lemma view_locate: "locate_message_link m s = Some r \<Longrightarrow> table_view (snd (snd r)) = table_view s"
  by (auto simp: locate_message_link_def Let_def case_prod_beta view dest: view_find_link split: option.splits)

lemma view_append: "append_watch_link l s = Some r \<Longrightarrow> table_view (snd r) = table_view s"
  by (auto simp: append_watch_link_def Let_def case_prod_beta view split: option.splits bind_splits)

lemma view_add: "LC_AddWatchpoint sub m s = Some r \<Longrightarrow> table_view (snd r) = table_view s"
  by (auto simp: LC_AddWatchpoint_def view dest!: view_locate view_append split: bind_splits if_splits)

lemma view_add_watchpoints:
  "add_watchpoints sub is m l s = Some s' \<Longrightarrow> table_view s' = table_view s"
proof (induction "is" arbitrary: m l s)
  case (Cons i "is")
  show ?case
  proof (cases "DataType (WDT s ! i) = LC_DATA_WATCH_NOT_USED")
    case True
    then show ?thesis using Cons by simp
  next
    case False
    then obtain r where r: "(case l of Some lst \<Rightarrow>
                if m = WDT_MessageID (WDT s ! i) then
                  (let (new, s1) = next_wlink s in Some (new, upd_wlink lst (\<lambda>l. l\<lparr>WP_Next := Some new\<rparr>) s1))
                else LC_AddWatchpoint sub (WDT_MessageID (WDT s ! i)) s
            | None \<Rightarrow> LC_AddWatchpoint sub (WDT_MessageID (WDT s ! i)) s) = Some r"
      and s': "add_watchpoints sub is (WDT_MessageID (WDT s ! i)) (Some (fst r))
         (upd_wlink (fst r) (\<lambda>l. l\<lparr>WP_WatchIndex := of_nat i\<rparr>) (snd r)) = Some s'"
      using Cons.prems by (fastforce simp: Let_def split: bind_splits)
    have "table_view (snd r) = table_view s"
      using r by (auto simp: Let_def case_prod_beta view dest: view_add split: option.splits if_splits)
    then show ?thesis using Cons.IH [OF s'] by (simp add: view)
  qed
qed simp

lemma view_unsubscribe [view]: "table_view (unsubscribe_all unsub is s) = table_view s"
  by (induction "is" arbitrary: s) (simp_all add: Let_def view)

lemma table_view_hash_table: "LC_CreateHashTable sub unsub s = Some s' \<Longrightarrow> table_view s' = table_view s"
  unfolding LC_CreateHashTable_def by (drule view_add_watchpoints) (simp add: view)

lemma view_hash_table: "LC_CreateHashTable sub unsub s = Some s' \<Longrightarrow> ap_view s' = ap_view s"
  by (drule table_view_hash_table) (simp add: table_view_def)

subsection \<open>Requests for one sequence\<close>

text \<open>
  How often sequence \<open>r\<close> has been requested, and once more if actionpoint \<open>i\<close> is active. This number never
  grows while \<open>i\<close> is the only actionpoint with that sequence and nobody activates it.
\<close>

definition requests :: "uint16 \<Rightarrow> lc \<Rightarrow> nat" where
  "requests r s = count_list (transmits s) (rts_message r)"

definition ap_active :: "nat \<Rightarrow> lc \<Rightarrow> bool" where
  "ap_active i s \<longleftrightarrow> CurrentState (ART s ! i) = LC_APSTATE_ACTIVE"

definition rts_credit :: "nat \<Rightarrow> uint16 \<Rightarrow> lc \<Rightarrow> nat" where
  "rts_credit i r s = requests r s + of_bool (ap_active i s)"

definition sole_ap :: "nat \<Rightarrow> uint16 \<Rightarrow> lc \<Rightarrow> bool" where
  "sole_ap i r s \<longleftrightarrow> i < LC_MAX_ACTIONPOINTS \<and> length (ART s) = LC_MAX_ACTIONPOINTS \<and>
     (\<forall>j<LC_MAX_ACTIONPOINTS. j \<noteq> i \<longrightarrow> RTSId (ADT s ! j) \<noteq> r)"

definition no_more :: "nat \<Rightarrow> uint16 \<Rightarrow> lc \<Rightarrow> lc \<Rightarrow> bool" where
  "no_more i r s s' \<longleftrightarrow> ADT s' = ADT s \<and> length (ART s') = length (ART s) \<and> rts_credit i r s' \<le> rts_credit i r s"

lemma no_more_refl [simp]: "no_more i r s s"
  by (simp add: no_more_def)

lemma no_more_trans: "no_more i r s t \<Longrightarrow> no_more i r t u \<Longrightarrow> no_more i r s u"
  by (auto simp: no_more_def)

lemma no_more_sole: "no_more i r s s' \<Longrightarrow> sole_ap i r s \<Longrightarrow> sole_ap i r s'"
  by (simp add: no_more_def sole_ap_def)

lemma view_no_more: "ap_view s' = ap_view s \<Longrightarrow> no_more i r s s'"
  by (simp add: ap_view_def no_more_def rts_credit_def requests_def ap_active_def)

lemma fold_no_more:
  assumes "\<And>k s. k \<in> set ks \<Longrightarrow> sole_ap i r s \<Longrightarrow> no_more i r s (f k s)" "sole_ap i r s"
  shows "no_more i r s (fold f ks s)"
  using assms
proof (induction ks arbitrary: s)
  case (Cons k ks)
  then show ?case by (simp) (metis no_more_sole no_more_trans)
qed simp

lemma ap_core_sel: "CurrentState a = fst (snd (ap_core a))"
  by (simp add: ap_core_def)

lemma sample_no_more:
  assumes "sole_ap i r s" "k < LC_MAX_ACTIONPOINTS"
  shows "no_more i r s (LC_SampleSingleAP k s)"
proof (cases "ap_sampled (CurrentState (ART s ! k))")
  case True
  have k: "k < length (ART s)" using assms by (simp add: sole_ap_def)
  define e where "e = fst (LC_EvaluateRPN k s)"
  have spec: "sample_spec k e s (LC_SampleSingleAP k s)"
    unfolding e_def by (rule sample_result [OF k True])
  have other: "RTSId (ADT s ! k) \<noteq> r" if "k \<noteq> i" using assms that by (simp add: sole_ap_def)
  show ?thesis
    using spec other assms(1)
    by (cases "k = i"; cases "fails_due e (ADT s ! k) (ConsecutiveFailCount (ART s ! k))")
       (auto simp: sample_spec_def Let_def no_more_def rts_credit_def requests_def ap_active_def ap_core_sel rts_message_inj
         LC_APSTATE_ACTIVE_def LC_APSTATE_PASSIVE_def)
next
  case False
  then show ?thesis by (simp add: sample_skipped)
qed

lemma sample_request_no_more:
  assumes "sole_ap i r s"
  shows "no_more i r s (LC_SampleAPReq a b u s)"
proof -
  have aps: "no_more i r s (LC_SampleAPs x y s)" if "y < LC_MAX_ACTIONPOINTS" for x y
  proof -
    have "no_more i r s (fold LC_SampleSingleAP [x..<Suc y] s)"
      using that assms by (intro fold_no_more sample_no_more) auto
    then show ?thesis by (simp add: LC_SampleAPs_def Let_def view_no_more view del: upt_Suc)
  qed
  have "no_more i r s (LC_SampleAPs 0 (LC_MAX_ACTIONPOINTS - 1) s)"
    by (rule aps) (simp add: LC_MAX_ACTIONPOINTS_def)
  moreover have "no_more i r s (fold age_watchpoint is t)" if "no_more i r s t" for t "is"
    using that by (rule no_more_trans) (simp add: view_no_more view)
  ultimately show ?thesis
    unfolding LC_SampleAPReq_def Let_def by (auto intro: aps view_no_more simp: view)
qed

lemma set_state_no_more:
  "a \<noteq> LC_APSTATE_ACTIVE \<or> k \<noteq> i \<Longrightarrow> k < length (ART s) \<Longrightarrow>
   no_more i r s (upd_art k (\<lambda>x. x\<lparr>CurrentState := a\<rparr>) s)"
  by (auto simp: no_more_def rts_credit_def requests_def ap_active_def transmits_frame nth_list_update)

lemma accepted_no_more: "no_more i r s t \<Longrightarrow> no_more i r s (cmd_accepted e t)"
  by (erule no_more_trans) (simp add: view_no_more view)

lemma set_ap_state_no_more:
  "a \<noteq> LC_APSTATE_ACTIVE \<or> k \<noteq> i \<Longrightarrow> sole_ap i r s \<Longrightarrow> k < LC_MAX_ACTIONPOINTS \<Longrightarrow> no_more i r s (set_ap_state a k s)"
  by (simp add: set_ap_state_def set_state_no_more sole_ap_def)

lemma ucast_active: "(a::uint16) \<in> {ucast LC_APSTATE_PASSIVE, ucast LC_APSTATE_DISABLED} \<Longrightarrow> ucast a \<noteq> LC_APSTATE_ACTIVE"
  by (auto simp: lc_const)

lemma set_ap_state_cmd_no_more:
  assumes "sole_ap i r s" "st \<noteq> ucast LC_APSTATE_ACTIVE \<or> (n \<noteq> LC_ALL_ACTIONPOINTS \<and> unat n \<noteq> i)"
  shows "no_more i r s (LC_SetAPStateCmd n st s)"
proof (cases "st \<notin> {ucast LC_APSTATE_ACTIVE, ucast LC_APSTATE_PASSIVE, ucast LC_APSTATE_DISABLED}")
  case True
  then show ?thesis by (simp add: LC_SetAPStateCmd_def view_no_more view)
next
  case False
  then have st: "ucast st \<noteq> LC_APSTATE_ACTIVE" if "st \<noteq> ucast LC_APSTATE_ACTIVE"
    using that by (intro ucast_active) auto
  have all: "no_more i r s (fold (set_ap_state (ucast st)) [0..<LC_MAX_ACTIONPOINTS] s)" if "n = LC_ALL_ACTIONPOINTS"
    using assms that st by (intro fold_no_more set_ap_state_no_more) auto
  have one: "no_more i r s (set_ap_state (ucast st) (unat n) s)" if "unat n < LC_MAX_ACTIONPOINTS" "n \<noteq> LC_ALL_ACTIONPOINTS"
    using assms that st by (intro set_ap_state_no_more) auto
  from False show ?thesis
    unfolding LC_SetAPStateCmd_def using all one by (auto intro: accepted_no_more view_no_more simp: view)
qed

lemma perm_off_no_more:
  assumes "sole_ap i r s"
  shows "no_more i r s (LC_SetAPPermOffCmd n s)"
proof -
  have "no_more i r s (upd_art (unat n) (\<lambda>x. x\<lparr>CurrentState := LC_APSTATE_PERMOFF\<rparr>) s)" if "unat n < LC_MAX_ACTIONPOINTS"
    using assms that by (intro set_state_no_more) (simp_all add: sole_ap_def lc_const)
  then show ?thesis unfolding LC_SetAPPermOffCmd_def by (auto intro: accepted_no_more view_no_more simp: view)
qed

lemma reset_stats_no_more: "sole_ap i r s \<Longrightarrow> no_more i r s (LC_ResetAPStatsCmd n s)"
proof -
  assume s: "sole_ap i r s"
  have "no_more i r t (reset_ap True k t)" if "sole_ap i r t" for k t
    using that by (cases "k < length (ART t)")
      (auto simp: reset_ap_def no_more_def rts_credit_def requests_def ap_active_def transmits_frame nth_list_update
        list_update_beyond)
  then have "no_more i r s (LC_ResetResultsAP a b True s)" for a b
    using s unfolding LC_ResetResultsAP_def by (intro fold_no_more) auto
  then show ?thesis by (auto simp: LC_ResetAPStatsCmd_def view intro: accepted_no_more view_no_more)
qed

subsection \<open>One round\<close>

text \<open>The message is a command that makes actionpoint \<open>i\<close> active.\<close>

definition activates :: "nat \<Rightarrow> message \<Rightarrow> bool" where
  "activates i Buf \<longleftrightarrow>
     CFE_MSG_GetMsgId (Some Buf) True = Inr LC_CMD_MID \<and> snd (CFE_MSG_GetFcnCode (Some Buf) True) = Some LC_SET_AP_STATE_CC \<and>
     cmd_word Buf 1 = ucast LC_APSTATE_ACTIVE \<and> (cmd_word Buf 0 = LC_ALL_ACTIONPOINTS \<or> unat (cmd_word Buf 0) = i)"

text \<open>The table services still give the definition table \<open>adt\<close>.\<close>

definition same_adt :: "LC_ADTEntry list \<Rightarrow> lc_services \<Rightarrow> bool" where
  "same_adt adt v \<longleftrightarrow> ADT_Status v = CFE_SUCCESS \<and> ADT_Data v = adt"

lemma verify_view: "ap_view (snd (LC_VerifyMsgLength buf n s)) = ap_view s"
  by (simp add: LC_VerifyMsgLength_def Let_def view)

lemma verified_no_more:
  assumes "sole_ap i r s" "\<And>t. sole_ap i r t \<Longrightarrow> no_more i r t (h t)"
  shows "no_more i r s (lc_verified buf n h s)"
proof -
  obtain v s1 where v: "LC_VerifyMsgLength buf n s = (v, s1)" by fastforce
  then have "no_more i r s s1" using verify_view [of buf n s] by (simp add: view_no_more)
  then show ?thesis using assms v by (cases v) (auto simp: lc_verified_def intro: no_more_trans no_more_sole)
qed

lemma reset_wp_cmd_view [view]: "ap_view (LC_ResetWPStatsCmd n s) = ap_view s"
  by (simp add: LC_ResetWPStatsCmd_def view)

lemma lc_state_cmd_view [view]: "ap_view (LC_SetLCStateCmd n s) = ap_view s"
  by (simp add: LC_SetLCStateCmd_def view)

lemma counters_cmd_view [view]: "ap_view (LC_NoopCmd s) = ap_view s" "ap_view (LC_ResetCountersCmd s) = ap_view s"
  by (simp_all add: LC_NoopCmd_def LC_ResetCountersCmd_def view)

lemma if_no_more:
  "(P \<Longrightarrow> no_more i r s a) \<Longrightarrow> (\<not> P \<Longrightarrow> no_more i r s b) \<Longrightarrow> no_more i r s (if P then a else b)"
  by simp

lemma command_no_more:
  assumes s: "sole_ap i r s"
    and quiet: "cc \<noteq> LC_SET_AP_STATE_CC \<or> cmd_word buf 1 \<noteq> ucast LC_APSTATE_ACTIVE \<or>
      (cmd_word buf 0 \<noteq> LC_ALL_ACTIONPOINTS \<and> unat (cmd_word buf 0) \<noteq> i)"
  shows "no_more i r s (lc_command buf cc s)"
  unfolding lc_command_def using quiet
  by (intro if_no_more verified_no_more [OF s] perm_off_no_more reset_stats_no_more set_ap_state_cmd_no_more
      view_no_more view) auto

lemma tables_no_more:
  assumes "same_adt (ADT s) v" "LC_ManageTables v s = Some (st, s')"
  shows "no_more i r s s'"
proof -
  have adt: "ap_view (t\<lparr>ADT := ADT s\<rparr>) = ap_view s" if "ap_view t = ap_view s" for t
    using that by (simp add: ap_view_def transmits_def)
  have "ap_view s' = ap_view s"
    using assms
    by (auto simp: LC_ManageTables_def same_adt_def Let_def view intro!: adt dest!: view_hash_table
        split: if_splits bind_splits)
  then show ?thesis by (rule view_no_more)
qed

lemma maintenance_no_more:
  assumes "same_adt (ADT s) v" "LC_PerformMaintenance v s = Some (st, s')"
  shows "no_more i r s s'"
proof -
  obtain st1 s1 where m: "LC_ManageTables v s = Some (st1, s1)"
    using assms(2) by (auto simp: LC_PerformMaintenance_def split: bind_splits)
  obtain st2 s2 where c: "LC_UpdateTaskCDS v s1 = (st2, s2)" by fastforce
  then have "ap_view s2 = ap_view s1" using view_cds [of v s1] by simp
  then have "ap_view s' = ap_view s1"
    using assms(2) by (auto simp: LC_PerformMaintenance_def m c view split: if_splits)
  then show ?thesis using tables_no_more [OF assms(1) m] view_no_more no_more_trans by metis
qed

lemma housekeeping_no_more:
  assumes "same_adt (ADT s) v" "LC_SendHkCmd v s = Some (st, s')"
  shows "no_more i r s s'"
proof -
  have "no_more i r (lc_send (LC_Housekeeping (hk_payload s)) s) s'"
    using assms unfolding LC_SendHkCmd_def by (intro maintenance_no_more) auto
  moreover have "no_more i r s (lc_send (LC_Housekeeping (hk_payload s)) s)" by (simp add: view_no_more view)
  ultimately show ?thesis by (blast intro: no_more_trans)
qed

lemma pipe_no_more:
  assumes s: "sole_ap i r s" and "\<not> activates i buf" "same_adt (ADT s) v" "LC_AppPipe v now buf s = Some (st, s')"
  shows "no_more i r s s'"
proof -
  define mid where "mid = (case CFE_MSG_GetMsgId (Some buf) True of Inl _ \<Rightarrow> CFE_SB_INVALID_MSG_ID | Inr m \<Rightarrow> m)"
  define cc where "cc = (case snd (CFE_MSG_GetFcnCode (Some buf) True) of None \<Rightarrow> 0 | Some c \<Rightarrow> c)"
  have mid: "CFE_MSG_GetMsgId (Some buf) True = Inr mid" if "mid = LC_CMD_MID"
    using that by (auto simp: mid_def lc_const CFE_SB_INVALID_MSG_ID_def split: sum.splits)
  have cc: "snd (CFE_MSG_GetFcnCode (Some buf) True) = Some cc" if "cc = LC_SET_AP_STATE_CC"
    using that by (auto simp: cc_def lc_const split: option.splits)
  note result = assms(4) [unfolded LC_AppPipe_def Let_def mid_def [symmetric] cc_def [symmetric]]
  consider "mid = LC_SAMPLE_AP_MID" | "mid = LC_SEND_HK_MID" | "mid = LC_CMD_MID"
    | "mid \<noteq> LC_SAMPLE_AP_MID" "mid \<noteq> LC_SEND_HK_MID" "mid \<noteq> LC_CMD_MID" by blast
  then show ?thesis
  proof cases
    case 1
    then show ?thesis using result by (auto intro: verified_no_more [OF s] sample_request_no_more)
  next
    case 2
    obtain ok s1 where v: "LC_VerifyMsgLength buf 8 s = (ok, s1)" by fastforce
    then have s1: "no_more i r s s1" "ADT s1 = ADT s"
      using verify_view [of buf 8 s] by (simp_all add: view_no_more ap_view_def)
    show ?thesis
    proof (cases ok)
      case True
      then obtain st1 where "LC_SendHkCmd v s1 = Some (st1, s')"
        using 2 result v by (auto simp: lc_const)
      then show ?thesis using s1 assms(3) by (metis no_more_trans housekeeping_no_more)
    qed (use 2 result v s1 in \<open>auto simp: lc_const\<close>)
  next
    case 3
    have "no_more i r s (lc_command buf cc s)"
      using assms(2) mid [OF 3] cc 3 by (intro command_no_more [OF s]) (auto simp: activates_def)
    then show ?thesis using 3 result by (simp add: lc_const)
  next
    case 4
    then show ?thesis using result by (auto intro!: view_no_more dest: view_message)
  qed
qed

subsection \<open>A run\<close>

text \<open>The input neither activates actionpoint \<open>i\<close> nor brings a new definition table.\<close>

definition quiet_input :: "nat \<Rightarrow> LC_ADTEntry list \<Rightarrow> lc_input \<Rightarrow> bool" where
  "quiet_input i adt x \<longleftrightarrow> \<not> activates i (In_Buffer x) \<and> same_adt adt (In_Services x)"

lemma round_no_more:
  assumes "sole_ap i r s" "quiet_input i (ADT s) x" "lc_round x s = Some (st, s')"
  shows "no_more i r s s'"
  using assms by (auto simp: lc_round_def quiet_input_def intro: maintenance_no_more pipe_no_more split: if_splits)

lemma loop_no_more:
  "sole_ap i r s \<Longrightarrow> \<forall>x\<in>set xs. quiet_input i (ADT s) x \<Longrightarrow> lc_loop xs s = Some (st, s') \<Longrightarrow> no_more i r s s'"
proof (induction xs arbitrary: s)
  case (Cons x xs)
  obtain st1 s1 where r: "lc_round x s = Some (st1, s1)" using Cons.prems(3) by (auto split: bind_splits)
  have s1: "no_more i r s s1" using Cons.prems by (intro round_no_more [OF _ _ r]) auto
  show ?case
  proof (cases "st1 = CFE_SUCCESS")
    case True
    have "no_more i r s1 s'"
      using Cons.prems r True s1 by (intro Cons.IH no_more_sole [OF s1]) (auto simp: no_more_def)
    with s1 show ?thesis by (rule no_more_trans)
  qed (use Cons.prems r s1 in auto)
qed simp

end
