(* ===== verification/Lc_Report.thy ===== *)
theory Lc_Report
  imports Lc_Run
begin

section \<open>Limit checker: persistent failures, stale results and telemetry\<close>

subsection \<open>A persistent failure\<close>

lemma evaluate_cong:
  "WRT t = WRT s \<Longrightarrow> ADT t = ADT s \<Longrightarrow> fst (LC_EvaluateRPN i t) = fst (LC_EvaluateRPN i s)"
  by (simp add: LC_EvaluateRPN_def Let_def)

text \<open>
  The state of an active actionpoint after \<open>n\<close> samples that all fail: before the limit is reached it is
  active and nothing is requested, and from then on it is passive and its sequence has been requested once, if the
  application is active.
\<close>

definition failing_after :: "nat \<Rightarrow> nat \<Rightarrow> lc \<Rightarrow> lc \<Rightarrow> bool" where
  "failing_after i n s t \<longleftrightarrow>
     (let c = unat (ConsecutiveFailCount (ART s ! i)) + n; due = unat (MaxFailsBeforeRTS (ADT s ! i)) \<le> c \<and> 0 < n
      in ADT t = ADT s \<and> WRT t = WRT s \<and> CurrentLCState t = CurrentLCState s \<and> length (ART t) = length (ART s) \<and>
         unat (ConsecutiveFailCount (ART t ! i)) = c \<and>
         CurrentState (ART t ! i) = (if due then LC_APSTATE_PASSIVE else LC_APSTATE_ACTIVE) \<and>
         transmits t = transmits s @ (if due \<and> CurrentLCState s = LC_STATE_ACTIVE then [rts_message (RTSId (ADT s ! i))] else []))"

lemma unat_max_fails: "ucast (m :: uint16) \<le> (c :: uint32) \<longleftrightarrow> unat m \<le> unat c"
  by (simp add: word_le_nat_alt unat_ucast_up)

lemma failing_step:
  assumes "failing_after i n s t" "i < length (ART s)"
    "fst (LC_EvaluateRPN i s) = LC_ACTION_FAIL" "unat (ConsecutiveFailCount (ART s ! i)) + Suc n < 2 ^ 32"
  shows "failing_after i (Suc n) s (LC_SampleSingleAP i t)"
proof -
  note t = assms(1) [unfolded failing_after_def Let_def]
  have "fst (LC_EvaluateRPN i t) = LC_ACTION_FAIL" using t assms(3) evaluate_cong [of t s i] by simp
  moreover have "ap_sampled (CurrentState (ART t ! i))" using t by (simp add: ap_sampled_def)
  ultimately have spec: "sample_spec i LC_ACTION_FAIL t (LC_SampleSingleAP i t)"
    using sample_result [of i t] t assms(2) by simp
  have "unat (ConsecutiveFailCount (ART t ! i) + 1) = Suc (unat (ConsecutiveFailCount (ART t ! i)))"
    using t assms(4) by (simp add: unat_word_ariths)
  then show ?thesis
    using spec t
    by (auto simp: failing_after_def sample_spec_def Let_def fails_due_def fails_after_def ap_core_def unat_max_fails
        LC_APSTATE_ACTIVE_def LC_APSTATE_PASSIVE_def)
qed

lemma failing_samples:
  assumes "i < length (ART s)" "ap_active i s"
    "fst (LC_EvaluateRPN i s) = LC_ACTION_FAIL"
  shows "unat (ConsecutiveFailCount (ART s ! i)) + n < 2 ^ 32 \<Longrightarrow> failing_after i n s ((LC_SampleSingleAP i ^^ n) s)"
proof (induction n)
  case 0
  then show ?case using assms(2) by (simp add: failing_after_def ap_active_def)
next
  case (Suc n)
  then show ?case using failing_step [of i n s "(LC_SampleSingleAP i ^^ n) s"] assms by simp
qed

subsection \<open>Stale results\<close>

definition aged :: "nat \<Rightarrow> LC_WRTEntry \<Rightarrow> LC_WRTEntry" where
  "aged n r = r\<lparr>CountdownToStale := of_nat (unat (CountdownToStale r) - n),
     WatchResult := if 0 < CountdownToStale r \<and> unat (CountdownToStale r) \<le> n then LC_WATCH_STALE else WatchResult r\<rparr>"

lemma aged_0 [simp]: "aged 0 r = r"
  by (auto simp: aged_def unat_eq_0 word_less_nat_alt)

lemma age_one:
  assumes "k < length (WRT s)"
  shows "WRT (age_watchpoint k s) = (WRT s)[k := aged 1 (WRT s ! k)]"
proof (cases "CountdownToStale (WRT s ! k) > 0")
  case True
  let ?c = "CountdownToStale (WRT s ! k)"
  have c: "1 \<le> unat ?c" using True by (simp add: word_less_nat_alt)
  then have down: "of_nat (unat ?c - 1) = ?c - 1" by (simp add: of_nat_diff)
  have "?c - 1 = 0 \<longleftrightarrow> unat ?c \<le> 1" using c word_unat_eq_iff [of ?c 1] by auto
  then show ?thesis
    using assms True by (cases "?c = 1") (auto simp: age_watchpoint_def Let_def aged_def down)
next
  case False
  then have zero: "CountdownToStale (WRT s ! k) = 0" by (simp add: word_gt_0)
  then have "aged 1 (WRT s ! k) = aged 0 (WRT s ! k)" unfolding aged_def by simp
  then have "aged 1 (WRT s ! k) = WRT s ! k" by simp
  then show ?thesis using zero by (simp add: age_watchpoint_def)
qed

lemma age_all: "WRT (fold age_watchpoint [0..<n] s) = map (aged 1) (take n (WRT s)) @ drop n (WRT s)"
  if "n \<le> length (WRT s)"
  using that
proof (induction n)
  case (Suc n)
  let ?t = "fold age_watchpoint [0..<n] s"
  have t: "WRT ?t = map (aged 1) (take n (WRT s)) @ drop n (WRT s)" using Suc by simp
  then have "n < length (WRT ?t)" "WRT ?t ! n = WRT s ! n" using Suc.prems by (simp_all add: nth_append)
  then have "WRT (fold age_watchpoint [0..<Suc n] s) = (WRT ?t)[n := aged 1 (WRT s ! n)]" by (simp add: age_one)
  also have "\<dots> = map (aged 1) (take (Suc n) (WRT s)) @ drop (Suc n) (WRT s)"
    using Suc.prems by (simp add: t list_update_append take_Suc_conv_app_nth flip: Cons_nth_drop_Suc)
  finally show ?case .
qed simp

lemma aged_aged: "aged m (aged n r) = aged (n + m) r"
proof -
  have "unat (CountdownToStale r) - n < 2 ^ LENGTH(32)" using unsigned_less [of "CountdownToStale r", where ?'a = nat] by linarith
  then have "unat (of_nat (unat (CountdownToStale r) - n) :: uint32) = unat (CountdownToStale r) - n"
    by (rule unat_of_nat_small)
  then show ?thesis by (auto simp: aged_def word_less_nat_alt)
qed

text \<open>A request for samples that advances the age of the results, when the application is not disabled.\<close>

definition ages :: "uint16 \<times> uint16 \<times> uint16 \<Rightarrow> bool" where
  "ages q \<longleftrightarrow> (case q of (a, b, u) \<Rightarrow> u \<noteq> 0 \<and>
     (a = LC_ALL_ACTIONPOINTS \<and> b = LC_ALL_ACTIONPOINTS \<or> a \<le> b \<and> unat b < LC_MAX_ACTIONPOINTS))"

definition request_sample :: "uint16 \<times> uint16 \<times> uint16 \<Rightarrow> lc \<Rightarrow> lc" where
  "request_sample q s = (case q of (a, b, u) \<Rightarrow> LC_SampleAPReq a b u s)"

definition wp_frame :: "lc \<Rightarrow> LC_WRTEntry list \<times> uint8" where
  "wp_frame s = (WRT s, CurrentLCState s)"

lemma fold_frame: "(\<And>k s. g (f k s) = g s) \<Longrightarrow> g (fold f ks s) = g s"
  by (induction ks arbitrary: s) auto

lemma limited_frame [simp]: "wp_frame (limited_event i c l e s) = wp_frame s"
  by (simp add: limited_event_def ap_event_def wp_frame_def)

lemma wp_frame_upd [simp]:
  "wp_frame (upd_art i f s) = wp_frame s" "wp_frame (lc_send x s) = wp_frame s"
  "wp_frame (s\<lparr>RTSExecCount := n\<rparr>) = wp_frame s" "wp_frame (s\<lparr>PassiveRTSExecCount := m\<rparr>) = wp_frame s"
  "wp_frame (s\<lparr>APSampleCount := n\<rparr>) = wp_frame s"
  by (simp_all add: wp_frame_def)

lemma sample_frame: "wp_frame (LC_SampleSingleAP i s) = wp_frame s"
proof -
  obtain r s2 where r: "LC_EvaluateRPN i (s\<lparr>APSampleCount := APSampleCount s + 1\<rparr>) = (r, s2)" by fastforce
  have "wp_frame s2 = wp_frame s"
    using evaluate_state(4,5) [of i "s\<lparr>APSampleCount := APSampleCount s + 1\<rparr>", unfolded r] by (simp add: wp_frame_def)
  then show ?thesis
    by (simp add: LC_SampleSingleAP_def Let_def r ap_failed_def ap_passed_def rts_due_def execute_rts ap_event_def)
qed

lemma samples_frame: "wp_frame (LC_SampleAPs a b s) = wp_frame s"
  unfolding LC_SampleAPs_def Let_def by (simp add: fold_frame [of wp_frame] sample_frame del: upt_Suc)

lemma age_state: "CurrentLCState (fold age_watchpoint ks s) = CurrentLCState s"
  by (rule fold_frame) (simp add: age_watchpoint_def Let_def)

lemma request_ages:
  assumes "length (WRT s) = LC_MAX_WATCHPOINTS" "CurrentLCState s \<noteq> LC_STATE_DISABLED"
  shows "wp_frame (request_sample q s) = (map (aged (of_bool (ages q))) (WRT s), CurrentLCState s)"
proof -
  obtain a b u where q: "q = (a, b, u)" by (rule prod_cases3)
  have aged: "wp_frame (fold age_watchpoint [0..<LC_MAX_WATCHPOINTS] t) = (map (aged 1) (WRT s), CurrentLCState s)"
    if "wp_frame t = wp_frame s" for t
    using that assms(1) by (simp add: wp_frame_def age_all age_state)
  have id: "map (aged 0) (WRT s) = WRT s" by (simp add: map_idI)
  show ?thesis
    using assms(2) samples_frame aged id
    by (auto simp: q request_sample_def LC_SampleAPReq_def ages_def Let_def wp_frame_def)
qed

lemma requests_age:
  assumes "length (WRT s) = LC_MAX_WATCHPOINTS" "CurrentLCState s \<noteq> LC_STATE_DISABLED"
  shows "wp_frame (fold request_sample qs s) = (map (aged (length (filter ages qs))) (WRT s), CurrentLCState s)"
  using assms
proof (induction qs arbitrary: s)
  case (Cons q qs)
  have q: "WRT (request_sample q s) = map (aged (of_bool (ages q))) (WRT s)"
    "CurrentLCState (request_sample q s) = CurrentLCState s"
    using request_ages [of s q] Cons.prems by (simp_all add: wp_frame_def)
  show ?case using Cons by (simp add: q aged_aged)
qed (simp add: wp_frame_def map_idI)

subsection \<open>The housekeeping packet\<close>

text \<open>What a reader takes out of the packed results: two bits for a watchpoint, four for an actionpoint.\<close>

definition hk_watch :: "LC_HkTlm_Payload \<Rightarrow> nat \<Rightarrow> uint8" where
  "hk_watch p k = take_bit 2 (drop_bit (2 * (k mod 4)) (HK_WPResults p ! (k div 4)))"

definition hk_action :: "LC_HkTlm_Payload \<Rightarrow> nat \<Rightarrow> uint8" where
  "hk_action p k = take_bit 2 (drop_bit (4 * (k mod 2)) (HK_APResults p ! (k div 2)))"

definition hk_state :: "LC_HkTlm_Payload \<Rightarrow> nat \<Rightarrow> uint8" where
  "hk_state p k = take_bit 2 (drop_bit (4 * (k mod 2) + 2) (HK_APResults p ! (k div 2)))"

text \<open>The value in the tables for a two-bit result and a two-bit state.\<close>

definition shown_result :: "uint8 \<Rightarrow> uint8" where
  "shown_result c = (if c = LC_HKWR_STALE then LC_WATCH_STALE else c)"

definition shown_state :: "uint8 \<Rightarrow> uint8" where
  "shown_state c = (if c = LC_HKAR_STATE_NOT_USED then LC_APSTATE_NOT_USED else c)"

lemma two_bits [simp]:
  "take_bit 2 (hk_watch_code r) = hk_watch_code r" "take_bit 2 (hk_action_code r) = hk_action_code r"
  "take_bit 2 (hk_state_code st) = hk_state_code st"
  by (simp_all add: hk_watch_code_def hk_action_code_def hk_state_code_def lc_const)

definition packed :: "uint8 \<Rightarrow> uint8 \<Rightarrow> uint8 \<Rightarrow> uint8 \<Rightarrow> uint8" where
  "packed a b c d = push_bit 6 (take_bit 2 d) OR push_bit 4 (take_bit 2 c) OR push_bit 2 (take_bit 2 b) OR take_bit 2 a"

lemma unpacked [simp]:
  "take_bit 2 (packed a b c d) = take_bit 2 a" "take_bit 2 (drop_bit 2 (packed a b c d)) = take_bit 2 b"
  "take_bit 2 (drop_bit 4 (packed a b c d)) = take_bit 2 c" "take_bit 2 (drop_bit 6 (packed a b c d)) = take_bit 2 d"
  unfolding packed_def by (rule bit_word_eqI; auto simp: bit_simps)+

lemma pack_watch_bytes:
  "pack_watch wrt n = packed (hk_watch_code (WatchResult (wrt ! n))) (hk_watch_code (WatchResult (wrt ! (n + 1))))
     (hk_watch_code (WatchResult (wrt ! (n + 2)))) (hk_watch_code (WatchResult (wrt ! (n + 3))))"
  by (simp add: pack_watch_def upt_rec Let_def packed_def or.assoc)

lemma pack_action_bytes:
  "pack_action art n = packed (hk_action_code (ActionResult (art ! n))) (hk_state_code (CurrentState (art ! n)))
     (hk_action_code (ActionResult (art ! (n + 1)))) (hk_state_code (CurrentState (art ! (n + 1))))"
  by (simp add: pack_action_def upt_rec Let_def packed_def or.assoc)

lemma hk_watch_value:
  assumes "k < LC_MAX_WATCHPOINTS"
  shows "hk_watch (hk_payload s) k = hk_watch_code (WatchResult (WRT s ! k))"
proof -
  have k: "k div 4 < LC_MAX_WATCHPOINTS div 4" using assms by (simp add: lc_const)
  have split: "k = 4 * (k div 4) + k mod 4" by simp
  have "k mod 4 < 4" by simp
  then consider "k mod 4 = 0" | "k mod 4 = 1" | "k mod 4 = 2" | "k mod 4 = 3" by linarith
  then show ?thesis
  proof cases
    case 1
    then show ?thesis using k split by (simp add: hk_watch_def hk_payload_def pack_watch_bytes)
  next
    case 2
    then have "4 * (k div 4) + 1 = k" using split by simp
    with 2 show ?thesis using k by (simp add: hk_watch_def hk_payload_def pack_watch_bytes)
  next
    case 3
    then have "4 * (k div 4) + 2 = k" using split by simp
    with 3 show ?thesis using k by (simp add: hk_watch_def hk_payload_def pack_watch_bytes)
  next
    case 4
    then have "4 * (k div 4) + 3 = k" using split by simp
    with 4 show ?thesis using k by (simp add: hk_watch_def hk_payload_def pack_watch_bytes)
  qed
qed

lemma hk_action_value:
  assumes "k < LC_MAX_ACTIONPOINTS"
  shows "hk_action (hk_payload s) k = hk_action_code (ActionResult (ART s ! k))"
    and "hk_state (hk_payload s) k = hk_state_code (CurrentState (ART s ! k))"
proof -
  have k: "k div 2 < LC_MAX_ACTIONPOINTS div 2" using assms by (simp add: lc_const)
  have "2 * (k div 2) = k \<and> k mod 2 = 0 \<or> 2 * (k div 2) + 1 = k \<and> k mod 2 = 1" by presburger
  then show "hk_action (hk_payload s) k = hk_action_code (ActionResult (ART s ! k))"
    "hk_state (hk_payload s) k = hk_state_code (CurrentState (ART s ! k))"
    using k by (auto simp: hk_action_def hk_state_def hk_payload_def pack_action_bytes simp flip: numeral_2_eq_2)
qed

end
