(* ===== verification/Lc_Table.thy ===== *)
theory Lc_Table
  imports Lc_Hash
begin

section \<open>Limit checker: the hash table finds the watchpoints of a message\<close>

subsection \<open>Chains of links\<close>

fun chain :: "(nat \<Rightarrow> nat option) \<Rightarrow> nat option \<Rightarrow> nat list \<Rightarrow> bool" where
  "chain nxt p [] \<longleftrightarrow> p = None"
| "chain nxt p (x # xs) \<longleftrightarrow> p = Some x \<and> chain nxt (nxt x) xs"

lemma chain_cong: "(\<And>z. z \<in> set xs \<Longrightarrow> nxt' z = nxt z) \<Longrightarrow> chain nxt' p xs = chain nxt p xs"
  by (induction xs arbitrary: p) auto

lemma chain_snoc:
  "chain nxt p (xs @ [x]) \<Longrightarrow> (\<And>z. z \<in> set xs \<Longrightarrow> nxt' z = nxt z) \<Longrightarrow> nxt' x = Some y \<Longrightarrow> nxt' y = None \<Longrightarrow>
    chain nxt' p (xs @ [x, y])"
  by (induction xs arbitrary: p) auto

lemma chain_last: "chain nxt p (xs @ [x]) \<Longrightarrow> nxt x = None"
  by (induction xs arbitrary: p) auto

lemma chain_empty: "chain nxt None xs \<longleftrightarrow> xs = []"
  by (cases xs) auto

text \<open>Appending a number to a filtered range.\<close>

lemma filter_upt_Suc: "filter P [0..<Suc n] = filter P [0..<n] @ (if P n then [n] else [])"
  by simp

lemma find_SomeD: "List.find P xs = Some x \<Longrightarrow> x \<in> set xs \<and> P x"
  by (induction xs) (auto split: if_splits)

lemma map_nth_filter: "map (\<lambda>j. f (xs ! j)) (filter (\<lambda>j. P (xs ! j)) [0..<length xs]) = map f (filter P xs)"
proof -
  have "map f (filter P (map ((!) xs) [0..<length xs])) = map (\<lambda>j. f (xs ! j)) (filter (\<lambda>j. P (xs ! j)) [0..<length xs])"
    by (simp add: filter_map comp_def)
  then show ?thesis by (simp add: map_nth)
qed

subsection \<open>The table for a list of watchpoints\<close>

text \<open>The message IDs of a list without repetitions, in the order of their first occurrence.\<close>

definition first_ids :: "('a \<times> CFE_SB_MsgId) list \<Rightarrow> CFE_SB_MsgId list" where
  "first_ids xs = rev (remdups (rev (map snd xs)))"

lemma first_ids_snoc:
  "first_ids (xs @ [(i, m)]) = (if m \<in> set (first_ids xs) then first_ids xs else first_ids xs @ [m])"
  by (auto simp: first_ids_def)

lemma first_ids_distinct [simp]: "distinct (first_ids xs)" "set (first_ids xs) = snd ` set xs"
  by (auto simp: first_ids_def)

lemma first_ids_length: "length (first_ids xs) \<le> length xs"
  by (metis first_ids_def length_map length_remdups_leq length_rev)

definition hash_of :: "CFE_SB_MsgId \<Rightarrow> nat" where
  "hash_of m = unat (LC_GetHashTableIndex m)"

lemma hash_of_less: "hash_of m < 256"
proof -
  have "LC_GetHashTableIndex m \<le> 0xFF"
    by (simp add: LC_GetHashTableIndex_def LC_HASH_TABLE_MASK_def word_and_le1)
  then show ?thesis by (simp add: hash_of_def word_le_nat_alt)
qed

abbreviation "blank_mlink \<equiv> \<lparr>ML_Next = None, ML_MessageID = 0, ML_WatchPtList = None\<rparr>"
abbreviation "blank_wlink \<equiv> \<lparr>WP_Next = None, WP_WatchIndex = 0\<rparr>"

definition mnext :: "lc \<Rightarrow> nat \<Rightarrow> nat option" where "mnext s k = ML_Next (MessageLinks s ! k)"
definition wnext :: "lc \<Rightarrow> nat \<Rightarrow> nat option" where "wnext s j = WP_Next (WatchPtLinks s ! j)"

definition bucket :: "CFE_SB_MsgId list \<Rightarrow> nat \<Rightarrow> nat list" where
  "bucket ids h = filter (\<lambda>k. hash_of (ids ! k) = h) [0..<length ids]"

definition links_of :: "('a \<times> CFE_SB_MsgId) list \<Rightarrow> CFE_SB_MsgId \<Rightarrow> nat list" where
  "links_of xs m = filter (\<lambda>j. snd (xs ! j) = m) [0..<length xs]"

text \<open>The links for the watchpoints \<open>xs\<close>, each with its message ID; the elements beyond are unused.\<close>

definition mlinks_ok :: "CFE_SB_MsgId list \<Rightarrow> lc \<Rightarrow> bool" where
  "mlinks_ok ids s \<longleftrightarrow>
     MessageIDsCount s = of_nat (length ids) \<and> length (HashTable s) = 256 \<and> length (MessageLinks s) = 176 \<and>
     (\<forall>h < 256. chain (mnext s) (HashTable s ! h) (bucket ids h)) \<and>
     (\<forall>k < length ids. ML_MessageID (MessageLinks s ! k) = ids ! k) \<and>
     (\<forall>k. length ids \<le> k \<and> k < 176 \<longrightarrow> MessageLinks s ! k = blank_mlink)"

definition wlinks_ok :: "(nat \<times> CFE_SB_MsgId) list \<Rightarrow> CFE_SB_MsgId list \<Rightarrow> lc \<Rightarrow> bool" where
  "wlinks_ok xs ids s \<longleftrightarrow>
     WatchpointCount s = of_nat (length xs) \<and> length (WatchPtLinks s) = 176 \<and>
     (\<forall>k < length ids. chain (wnext s) (ML_WatchPtList (MessageLinks s ! k)) (links_of xs (ids ! k))) \<and>
     (\<forall>j < length xs. unat (WP_WatchIndex (WatchPtLinks s ! j)) = fst (xs ! j)) \<and>
     (\<forall>j. length xs \<le> j \<and> j < 176 \<longrightarrow> WatchPtLinks s ! j = blank_wlink)"

definition table_for :: "(nat \<times> CFE_SB_MsgId) list \<Rightarrow> lc \<Rightarrow> bool" where
  "table_for xs s \<longleftrightarrow> mlinks_ok (first_ids xs) s \<and> wlinks_ok xs (first_ids xs) s"

lemma cleared_table: "table_for [] (cleared_links s)"
  by (auto simp: table_for_def mlinks_ok_def wlinks_ok_def cleared_links_def first_ids_def bucket_def lc_const)

subsection \<open>Walks\<close>

lemma find_message_list_chain:
  "chain (mnext s) p ks \<Longrightarrow> find_message_list m p s = Some (List.find (\<lambda>k. ML_MessageID (MessageLinks s ! k) = m) ks)"
proof (induction ks arbitrary: p)
  case Nil
  then show ?case by (simp add: find_message_list.simps)
next
  case (Cons k ks)
  then show ?case
    using Cons.IH [of "mnext s k"] by (subst find_message_list.simps) (simp add: mnext_def)
qed

lemma last_watch_link_chain:
  "chain (wnext s) (Some j) (js @ [l]) \<Longrightarrow> last_watch_link j s = Some l"
proof (induction js arbitrary: j)
  case Nil
  then show ?case by (subst last_watch_link.simps) (simp add: wnext_def)
next
  case (Cons i js)
  then have "i = j" and c: "chain (wnext s) (wnext s j) (js @ [l])" by simp_all
  then obtain j' where j': "wnext s j = Some j'" by (cases js) auto
  then have "last_watch_link j' s = Some l" using Cons.IH [of j'] c by simp
  then show ?case
    using j' \<open>i = j\<close> by (subst last_watch_link.simps) (simp add: wnext_def)
qed

lemma find_message_link_found:
  "chain (mnext s) (Some p) ks \<Longrightarrow> List.find (\<lambda>k. ML_MessageID (MessageLinks s ! k) = m) ks = Some q \<Longrightarrow>
    find_message_link m need p s = Some (q, need, s)"
proof (induction ks arbitrary: p)
  case (Cons k ks)
  show ?case
  proof (cases "ML_MessageID (MessageLinks s ! k) = m")
    case True
    then show ?thesis using Cons.prems by (subst find_message_link.simps) simp
  next
    case False
    then have f: "List.find (\<lambda>k. ML_MessageID (MessageLinks s ! k) = m) ks = Some q" using Cons.prems by simp
    then obtain p' where p': "mnext s k = Some p'" using Cons.prems(1) by (cases ks) auto
    have "find_message_link m need p' s = Some (q, need, s)"
      by (rule Cons.IH [OF _ f]) (use Cons.prems(1) p' in simp)
    then show ?thesis
      using Cons.prems False p' by (subst find_message_link.simps) (simp add: mnext_def)
  qed
qed simp

definition append_mlink :: "CFE_SB_MsgId \<Rightarrow> nat \<Rightarrow> lc \<Rightarrow> lc" where
  "append_mlink m l s =
     (let (new, s1) = next_mlink s
      in upd_mlink new (\<lambda>x. x\<lparr>ML_MessageID := m\<rparr>) (upd_mlink l (\<lambda>x. x\<lparr>ML_Next := Some new\<rparr>) s1))"

lemma find_message_link_new:
  assumes "unat (MessageIDsCount s) < length (MessageLinks s)"
  shows "chain (mnext s) (Some p) (ks @ [l]) \<Longrightarrow> (\<And>k. k \<in> set (ks @ [l]) \<Longrightarrow> ML_MessageID (MessageLinks s ! k) \<noteq> m) \<Longrightarrow>
    find_message_link m need p s = Some (unat (MessageIDsCount s), True, append_mlink m l s)"
proof (induction ks arbitrary: p)
  case Nil
  have "ML_MessageID (MessageLinks (append_mlink m l s) ! unat (MessageIDsCount s)) = m"
    using assms by (simp add: append_mlink_def next_mlink_def upd_mlink_def)
  then have "find_message_link m True (unat (MessageIDsCount s)) (append_mlink m l s)
      = Some (unat (MessageIDsCount s), True, append_mlink m l s)"
    by (subst find_message_link.simps) simp
  then show ?case
    using Nil by (subst find_message_link.simps) (simp add: mnext_def append_mlink_def next_mlink_def)
next
  case (Cons k ks)
  then obtain p' where p': "mnext s k = Some p'" by (cases ks) auto
  have "find_message_link m need p' s = Some (unat (MessageIDsCount s), True, append_mlink m l s)"
    by (rule Cons.IH) (use Cons.prems p' in auto)
  then show ?case
    using Cons.prems p' by (subst find_message_link.simps) (simp add: mnext_def)
qed

lemma find_in_bucket:
  assumes "mlinks_ok ids s" "distinct ids"
  shows "k < length ids \<Longrightarrow> ids ! k = m \<Longrightarrow>
      List.find (\<lambda>k. ML_MessageID (MessageLinks s ! k) = m) (bucket ids (hash_of m)) = Some k"
    and "m \<notin> set ids \<Longrightarrow> List.find (\<lambda>k. ML_MessageID (MessageLinks s ! k) = m) (bucket ids (hash_of m)) = None"
proof -
  have id: "ML_MessageID (MessageLinks s ! k) = ids ! k" if "k < length ids" for k
    using assms(1) that by (simp add: mlinks_ok_def)
  show "List.find (\<lambda>k. ML_MessageID (MessageLinks s ! k) = m) (bucket ids (hash_of m)) = Some k"
    if k: "k < length ids" "ids ! k = m"
  proof -
    have "find (\<lambda>k. ML_MessageID (MessageLinks s ! k) = m) (bucket ids (hash_of m)) \<noteq> None"
      using k id by (auto simp: find_None_iff bucket_def)
    then obtain q where q: "find (\<lambda>k. ML_MessageID (MessageLinks s ! k) = m) (bucket ids (hash_of m)) = Some q"
      by blast
    then have "q < length ids" and "ML_MessageID (MessageLinks s ! q) = m"
      using find_SomeD [OF q] by (simp_all add: bucket_def)
    then have "ids ! q = ids ! k" using id [OF \<open>q < length ids\<close>] k(2) by metis
    then have "q = k" using assms(2) \<open>q < length ids\<close> k(1) by (simp add: nth_eq_iff_index_eq)
    then show ?thesis using q by simp
  qed
  show "List.find (\<lambda>k. ML_MessageID (MessageLinks s ! k) = m) (bucket ids (hash_of m)) = None" if "m \<notin> set ids"
    using that id by (auto simp: find_None_iff bucket_def)
qed

subsection \<open>A new message ID\<close>

lemma bucket_snoc: "bucket (ids @ [m]) h = bucket ids h @ (if hash_of m = h then [length ids] else [])"
  unfolding bucket_def by (auto simp: nth_append intro!: filter_cong)

lemma links_of_snoc: "links_of (xs @ [(i, m)]) m' = links_of xs m' @ (if m = m' then [length xs] else [])"
  unfolding links_of_def by (auto simp: nth_append intro!: filter_cong)

lemma bucket_set: "k \<in> set (bucket ids h) \<longleftrightarrow> k < length ids \<and> hash_of (ids ! k) = h"
  by (auto simp: bucket_def)

lemma links_set: "j \<in> set (links_of xs m) \<longleftrightarrow> j < length xs \<and> snd (xs ! j) = m"
  by (auto simp: links_of_def)

lemma mlinks_okD:
  assumes "mlinks_ok ids s"
  shows "MessageIDsCount s = of_nat (length ids)" "length (HashTable s) = 256" "length (MessageLinks s) = 176"
    "h < 256 \<Longrightarrow> chain (mnext s) (HashTable s ! h) (bucket ids h)"
    "k < length ids \<Longrightarrow> ML_MessageID (MessageLinks s ! k) = ids ! k"
    "length ids \<le> k \<Longrightarrow> k < 176 \<Longrightarrow> MessageLinks s ! k = blank_mlink"
  using assms by (simp_all add: mlinks_ok_def)

lemma mlinks_next: "mlinks_ok ids s \<Longrightarrow> length ids < 176 \<Longrightarrow> next_mlink s =
    (length ids, s\<lparr>MessageIDsCount := of_nat (Suc (length ids))\<rparr>)"
  by (simp add: next_mlink_def mlinks_okD(1) unat_of_nat_small)

definition first_in_bucket :: "CFE_SB_MsgId \<Rightarrow> nat \<Rightarrow> lc \<Rightarrow> lc" where
  "first_in_bucket m k s =
     upd_mlink k (\<lambda>l. l\<lparr>ML_MessageID := m\<rparr>)
       (s\<lparr>MessageIDsCount := of_nat (Suc k), HashTable := (HashTable s)[hash_of m := Some k]\<rparr>)"

lemma mlinks_first:
  assumes "mlinks_ok ids s" "length ids < 176" "bucket ids (hash_of m) = []"
  shows "mlinks_ok (ids @ [m]) (first_in_bucket m (length ids) s)"
proof -
  note ok = mlinks_okD [OF assms(1)]
  let ?s = "first_in_bucket m (length ids) s"
  have nxt: "mnext ?s z = mnext s z" for z
    using assms(2) ok(3) by (cases "z = length ids") (simp_all add: mnext_def first_in_bucket_def upd_mlink_def)
  then have same: "mnext ?s = mnext s" by (simp add: fun_eq_iff)
  have new: "mnext s (length ids) = None" using ok(6) assms(2) by (simp add: mnext_def)
  have "chain (mnext ?s) (HashTable ?s ! h) (bucket (ids @ [m]) h)" if "h < 256" for h
    using ok(2,4) that hash_of_less new assms(3) unfolding same
    by (auto simp: bucket_snoc first_in_bucket_def upd_mlink_def nth_list_update)
  then show ?thesis
    using ok assms(2) unfolding mlinks_ok_def
    by (simp add: first_in_bucket_def upd_mlink_def nth_list_update nth_append less_Suc_eq)
qed

lemma mlinks_append:
  assumes "mlinks_ok ids s" "length ids < 176" "bucket ids (hash_of m) = ks @ [l]"
  shows "mlinks_ok (ids @ [m]) (append_mlink m l s)"
proof -
  note ok = mlinks_okD [OF assms(1)]
  let ?s = "append_mlink m l s"
  have "l \<in> set (bucket ids (hash_of m))" by (simp add: assms(3))
  then have l: "l < length ids" "hash_of (ids ! l) = hash_of m" by (simp_all add: bucket_set)
  have links: "MessageLinks ?s = (MessageLinks s)[l := (MessageLinks s ! l)\<lparr>ML_Next := Some (length ids)\<rparr>,
      length ids := blank_mlink\<lparr>ML_MessageID := m\<rparr>]"
    using l assms(2) ok(3,6) by (simp add: append_mlink_def mlinks_next [OF assms(1,2)] upd_mlink_def)
  have nxt: "mnext ?s z = (if z = l then Some (length ids) else mnext s z)" for z
    using l assms(2) ok(3,6) by (simp add: mnext_def links nth_list_update)
  have new: "mnext ?s (length ids) = None" using ok(6) assms(2) l by (simp add: nxt) (simp add: mnext_def)
  have rest: "HashTable ?s = HashTable s" "MessageIDsCount ?s = of_nat (Suc (length ids))"
    by (simp_all add: append_mlink_def mlinks_next [OF assms(1,2)] upd_mlink_def)
  have "chain (mnext ?s) (HashTable ?s ! h) (bucket (ids @ [m]) h)" if h: "h < 256" for h
  proof (cases "hash_of m = h")
    case True
    have d: "distinct (ks @ [l])" using assms(3) by (metis bucket_def distinct_filter distinct_upt)
    have "chain (mnext s) (HashTable s ! h) (ks @ [l])" using ok(4) [OF h] assms(3) True by simp
    then have "chain (mnext ?s) (HashTable s ! h) (ks @ [l, length ids])"
      by (rule chain_snoc) (use d new in \<open>auto simp: nxt\<close>)
    then show ?thesis using True assms(3) by (simp add: bucket_snoc rest)
  next
    case False
    have "chain (mnext ?s) (HashTable s ! h) (bucket ids h)"
      using ok(4) [OF h] False l by (subst chain_cong) (auto simp: nxt bucket_set)
    then show ?thesis using False by (simp add: bucket_snoc rest)
  qed
  then show ?thesis
    using ok assms(2) l unfolding mlinks_ok_def
    by (simp add: rest links nth_list_update nth_append less_Suc_eq)
qed

text \<open>The link of a message ID is found, or made.\<close>

definition with_id :: "CFE_SB_MsgId list \<Rightarrow> CFE_SB_MsgId \<Rightarrow> CFE_SB_MsgId list" where
  "with_id ids m = (if m \<in> set ids then ids else ids @ [m])"

definition same_watch_links :: "lc \<Rightarrow> lc \<Rightarrow> bool" where
  "same_watch_links s s' \<longleftrightarrow> WatchPtLinks s' = WatchPtLinks s \<and> WatchpointCount s' = WatchpointCount s \<and>
     WDT s' = WDT s \<and> LC_Out s' = LC_Out s \<and>
     (\<forall>k. ML_WatchPtList (MessageLinks s' ! k) = ML_WatchPtList (MessageLinks s ! k))"

lemma upd_mlink_watch:
  "(\<And>l. ML_WatchPtList (f l) = ML_WatchPtList l) \<Longrightarrow> same_watch_links s (upd_mlink i f s)"
  by (cases "i < length (MessageLinks s)") (auto simp: same_watch_links_def upd_mlink_def nth_list_update list_update_beyond)

lemma same_watch_trans: "same_watch_links a b \<Longrightarrow> same_watch_links b c \<Longrightarrow> same_watch_links a c"
  by (simp add: same_watch_links_def)

lemma locate_link:
  assumes "mlinks_ok ids s" "distinct ids" "length ids < 176"
  shows "\<exists>k s'. locate_message_link m s = Some (k, m \<notin> set ids, s') \<and> mlinks_ok (with_id ids m) s' \<and>
    k < length (with_id ids m) \<and> with_id ids m ! k = m \<and> same_watch_links s s'"
proof -
  note ok = mlinks_okD [OF assms(1)]
  note next_m = mlinks_next [OF assms(1,3)]
  have c: "chain (mnext s) (HashTable s ! hash_of m) (bucket ids (hash_of m))"
    by (rule ok(4) [OF hash_of_less])
  show ?thesis
  proof (cases "m \<in> set ids")
    case True
    then obtain k where k: "k < length ids" "ids ! k = m" by (auto simp: in_set_conv_nth)
    have f: "List.find (\<lambda>k. ML_MessageID (MessageLinks s ! k) = m) (bucket ids (hash_of m)) = Some k"
      by (rule find_in_bucket(1) [OF assms(1,2) k])
    then obtain p where p: "HashTable s ! hash_of m = Some p" using c by (cases "bucket ids (hash_of m)") auto
    have "find_message_link m False p s = Some (k, False, s)"
      by (rule find_message_link_found [OF c [unfolded p] f])
    then show ?thesis
      using True k p assms(1)
      by (simp add: locate_message_link_def with_id_def same_watch_links_def flip: hash_of_def)
  next
    case False
    show ?thesis
    proof (cases "bucket ids (hash_of m)" rule: rev_cases)
      case Nil
      then have "HashTable s ! hash_of m = None" using c by simp
      then have "locate_message_link m s = Some (length ids, True, first_in_bucket m (length ids) s)"
        by (simp add: locate_message_link_def next_m Let_def first_in_bucket_def flip: hash_of_def)
      moreover have "same_watch_links s (first_in_bucket m (length ids) s)"
        unfolding first_in_bucket_def
        by (rule same_watch_trans [OF _ upd_mlink_watch]) (simp_all add: same_watch_links_def)
      ultimately show ?thesis
        using False mlinks_first [OF assms(1,3) Nil] by (simp add: with_id_def)
    next
      case (snoc ks l)
      then obtain p where p: "HashTable s ! hash_of m = Some p" using c by (cases ks) auto
      have other: "ML_MessageID (MessageLinks s ! k) \<noteq> m" if "k \<in> set (ks @ [l])" for k
      proof -
        have "k < length ids" using that by (simp add: bucket_set flip: snoc)
        then show ?thesis using ok(5) False by (metis nth_mem)
      qed
      have "find_message_link m False p s = Some (length ids, True, append_mlink m l s)"
        using find_message_link_new [OF _ c [unfolded p snoc] other] ok(1,3) assms(3)
        by (simp add: unat_of_nat_small)
      moreover have "same_watch_links s (append_mlink m l s)"
        unfolding append_mlink_def next_m prod.case Let_def
        by (rule same_watch_trans [OF same_watch_trans [OF _ upd_mlink_watch] upd_mlink_watch])
           (simp_all add: same_watch_links_def)
      ultimately show ?thesis
        using False p mlinks_append [OF assms(1,3) snoc]
        by (simp add: locate_message_link_def with_id_def flip: hash_of_def)
    qed
  qed
qed

subsection \<open>A new watchpoint\<close>

lemma wlinks_okD:
  assumes "wlinks_ok xs ids s"
  shows "WatchpointCount s = of_nat (length xs)" "length (WatchPtLinks s) = 176"
    "k < length ids \<Longrightarrow> chain (wnext s) (ML_WatchPtList (MessageLinks s ! k)) (links_of xs (ids ! k))"
    "j < length xs \<Longrightarrow> unat (WP_WatchIndex (WatchPtLinks s ! j)) = fst (xs ! j)"
    "length xs \<le> j \<Longrightarrow> j < 176 \<Longrightarrow> WatchPtLinks s ! j = blank_wlink"
  using assms by (simp_all add: wlinks_ok_def)

lemma wlinks_next: "wlinks_ok xs ids s \<Longrightarrow> length xs < 176 \<Longrightarrow> next_wlink s =
    (length xs, s\<lparr>WatchpointCount := WatchpointCount s + 1\<rparr>)"
  by (simp add: next_wlink_def wlinks_okD(1) unat_of_nat_small)

lemma wlinks_with_id:
  assumes "wlinks_ok xs ids s" "same_watch_links s s'" "mlinks_ok ids s" "length ids < 176" "set ids = snd ` set xs"
  shows "wlinks_ok xs (with_id ids m) s'"
proof -
  note ok = wlinks_okD [OF assms(1)]
  have same: "WatchPtLinks s' = WatchPtLinks s" "WatchpointCount s' = WatchpointCount s"
    "ML_WatchPtList (MessageLinks s' ! k) = ML_WatchPtList (MessageLinks s ! k)" for k
    using assms(2) by (simp_all add: same_watch_links_def)
  have "wnext s' = wnext s" by (simp add: wnext_def same fun_eq_iff)
  moreover have "links_of xs m = []" if "m \<notin> set ids"
  proof -
    have "snd (xs ! j) \<noteq> m" if "j < length xs" for j
      using \<open>m \<notin> set ids\<close> that by (auto simp: assms(5))
    then show ?thesis by (simp add: links_of_def)
  qed
  moreover have "ML_WatchPtList (MessageLinks s ! length ids) = None"
    using mlinks_okD(6) [OF assms(3)] assms(4) by simp
  ultimately show ?thesis
    using ok unfolding wlinks_ok_def
    by (auto simp: same with_id_def nth_append less_Suc_eq chain_empty)
qed

definition new_wlink :: "nat \<Rightarrow> nat \<Rightarrow> lc \<Rightarrow> lc" where
  "new_wlink n i s = upd_wlink n (\<lambda>l. l\<lparr>WP_WatchIndex := of_nat i\<rparr>) s"

lemma wlinks_append:
  assumes "wlinks_ok xs ids s" "length xs < 176" "i < 65536" "links_of xs m = js @ [l]"
  shows "wlinks_ok (xs @ [(i, m)]) ids (new_wlink (length xs) i
      (upd_wlink l (\<lambda>x. x\<lparr>WP_Next := Some (length xs)\<rparr>) (s\<lparr>WatchpointCount := WatchpointCount s + 1\<rparr>)))"
    (is "wlinks_ok _ _ ?s")
proof -
  note ok = wlinks_okD [OF assms(1)]
  define t where t: "t = ?s"
  have "l \<in> set (links_of xs m)" by (simp add: assms(4))
  then have l: "l < length xs" "snd (xs ! l) = m" by (simp_all add: links_set)
  have links: "WatchPtLinks t = (WatchPtLinks s)[l := (WatchPtLinks s ! l)\<lparr>WP_Next := Some (length xs)\<rparr>,
      length xs := blank_wlink\<lparr>WP_WatchIndex := of_nat i\<rparr>]"
    using l assms(2) ok(2,5) by (simp add: t new_wlink_def upd_wlink_def)
  have mlinks: "MessageLinks t = MessageLinks s" by (simp add: t new_wlink_def upd_wlink_def)
  have nxt: "wnext t z = (if z = l then Some (length xs) else wnext s z)" for z
    using l assms(2) ok(2,5) by (simp add: wnext_def links nth_list_update)
  have new: "wnext t (length xs) = None" using ok(5) assms(2) l by (simp add: nxt) (simp add: wnext_def)
  have "chain (wnext t) (ML_WatchPtList (MessageLinks s ! k)) (links_of (xs @ [(i, m)]) (ids ! k))"
    if k: "k < length ids" for k
  proof (cases "m = ids ! k")
    case True
    have d: "distinct (js @ [l])" using assms(4) by (metis links_of_def distinct_filter distinct_upt)
    have "chain (wnext s) (ML_WatchPtList (MessageLinks s ! k)) (js @ [l])" using ok(3) [OF k] assms(4) True by simp
    then have "chain (wnext t) (ML_WatchPtList (MessageLinks s ! k)) (js @ [l, length xs])"
      by (rule chain_snoc) (use d new in \<open>auto simp: nxt\<close>)
    then show ?thesis using True assms(4) by (simp add: links_of_snoc)
  next
    case False
    then have "chain (wnext t) (ML_WatchPtList (MessageLinks s ! k)) (links_of xs (ids ! k))"
      using ok(3) [OF k] l by (subst chain_cong) (auto simp: nxt links_set)
    then show ?thesis using False by (simp add: links_of_snoc)
  qed
  moreover have "WatchpointCount t = WatchpointCount s + 1" by (simp add: t new_wlink_def upd_wlink_def)
  ultimately show ?thesis
    using ok assms(2,3) l unfolding t [symmetric] wlinks_ok_def mlinks
    by (simp add: links nth_list_update nth_append less_Suc_eq unat_of_nat_small)
qed

lemma wlinks_first:
  assumes "wlinks_ok xs ids s" "length xs < 176" "i < 65536" "links_of xs m = []"
    "k < length ids" "ids ! k = m" "distinct ids" "length ids \<le> length (MessageLinks s)"
  shows "wlinks_ok (xs @ [(i, m)]) ids (new_wlink (length xs) i
      (upd_mlink k (\<lambda>x. x\<lparr>ML_WatchPtList := Some (length xs)\<rparr>) (s\<lparr>WatchpointCount := WatchpointCount s + 1\<rparr>)))"
    (is "wlinks_ok _ _ ?s")
proof -
  note ok = wlinks_okD [OF assms(1)]
  define t where t: "t = ?s"
  have links: "WatchPtLinks t = (WatchPtLinks s)[length xs := blank_wlink\<lparr>WP_WatchIndex := of_nat i\<rparr>]"
    using assms(2) ok(2,5) by (simp add: t new_wlink_def upd_wlink_def upd_mlink_def)
  have lists: "ML_WatchPtList (MessageLinks t ! q) =
      (if q = k then Some (length xs) else ML_WatchPtList (MessageLinks s ! q))" for q
    using assms(5,8) by (simp add: t new_wlink_def upd_wlink_def upd_mlink_def nth_list_update)
  have nxt: "wnext t z = wnext s z" for z
    using assms(2) ok(2,5) by (cases "z = length xs") (simp_all add: wnext_def links)
  then have same: "wnext t = wnext s" by (simp add: fun_eq_iff)
  have new: "wnext s (length xs) = None" using ok(5) assms(2) by (simp add: wnext_def)
  have "chain (wnext t) (ML_WatchPtList (MessageLinks t ! q)) (links_of (xs @ [(i, m)]) (ids ! q))"
    if q: "q < length ids" for q
    using ok(3) [OF q] assms(4-7) q new unfolding same
    by (auto simp: lists links_of_snoc nth_eq_iff_index_eq)
  moreover have "WatchpointCount t = WatchpointCount s + 1"
    by (simp add: t new_wlink_def upd_wlink_def upd_mlink_def)
  ultimately show ?thesis
    using ok assms(2,3) unfolding t [symmetric] wlinks_ok_def
    by (simp add: links nth_list_update nth_append less_Suc_eq unat_of_nat_small)
qed

lemma mlinks_cong:
  "MessageIDsCount s' = MessageIDsCount s \<Longrightarrow> HashTable s' = HashTable s \<Longrightarrow> MessageLinks s' = MessageLinks s \<Longrightarrow>
    mlinks_ok ids s' = mlinks_ok ids s"
  by (simp add: mlinks_ok_def mnext_def [abs_def])

lemma wlinks_cong:
  "WatchpointCount s' = WatchpointCount s \<Longrightarrow> WatchPtLinks s' = WatchPtLinks s \<Longrightarrow> MessageLinks s' = MessageLinks s \<Longrightarrow>
    wlinks_ok xs ids s' = wlinks_ok xs ids s"
  by (simp add: wlinks_ok_def wnext_def [abs_def])

lemma mlinks_frame:
  "mlinks_ok ids (new_wlink n i s) = mlinks_ok ids s" "mlinks_ok ids (upd_wlink l f s) = mlinks_ok ids s"
  "mlinks_ok ids (s\<lparr>WatchpointCount := c\<rparr>) = mlinks_ok ids s" "mlinks_ok ids (lc_subscribe sub m s) = mlinks_ok ids s"
  by (rule mlinks_cong; simp add: new_wlink_def upd_wlink_def lc_subscribe_def Let_def)+

lemma wlinks_subscribe: "wlinks_ok xs ids (lc_subscribe sub m s) = wlinks_ok xs ids s"
  by (rule wlinks_cong; simp add: lc_subscribe_def Let_def)

lemma mlinks_watch_list: "mlinks_ok ids (upd_mlink k (\<lambda>x. x\<lparr>ML_WatchPtList := w\<rparr>) s) = mlinks_ok ids s"
  if "k < length ids" "length ids \<le> 176"
proof (cases "length (MessageLinks s) = 176")
  case True
  let ?s = "upd_mlink k (\<lambda>x. x\<lparr>ML_WatchPtList := w\<rparr>) s"
  have "mnext ?s z = mnext s z" for z
    using True by (cases "k < 176"; cases "z = k") (simp_all add: mnext_def upd_mlink_def list_update_beyond)
  then have "mnext ?s = mnext s" by (simp add: fun_eq_iff)
  moreover have "ML_MessageID (MessageLinks ?s ! z) = ML_MessageID (MessageLinks s ! z)" for z
    using True that by (cases "z = k") (simp_all add: upd_mlink_def)
  moreover have "length ids \<le> z \<Longrightarrow> MessageLinks ?s ! z = MessageLinks s ! z" for z
    using that by (simp add: upd_mlink_def)
  ultimately show ?thesis
    using True by (simp add: mlinks_ok_def) (simp add: upd_mlink_def)
qed (simp add: mlinks_ok_def upd_mlink_def)

lemma append_link:
  assumes "wlinks_ok xs ids s" "mlinks_ok ids s" "k < length ids" "ids ! k = m" "distinct ids"
    "length xs < 176" "length ids \<le> 176" "i < 65536"
  shows "\<exists>s'. append_watch_link k s = Some (length xs, s') \<and> wlinks_ok (xs @ [(i, m)]) ids (new_wlink (length xs) i s') \<and>
    mlinks_ok ids s' \<and> WDT s' = WDT s \<and> LC_Out s' = LC_Out s"
proof -
  have c: "chain (wnext s) (ML_WatchPtList (MessageLinks s ! k)) (links_of xs m)"
    using wlinks_okD(3) [OF assms(1,3)] assms(4) by simp
  show ?thesis
  proof (cases "links_of xs m" rule: rev_cases)
    case Nil
    then show ?thesis
      using c wlinks_first [OF assms(1,6,8) Nil assms(3-5)] mlinks_okD(3) [OF assms(2)] assms(2,3,7)
      by (simp add: append_watch_link_def wlinks_next [OF assms(1,6)] mlinks_watch_list mlinks_frame)
         (simp add: upd_mlink_def)
  next
    case (snoc js l)
    then obtain p where p: "ML_WatchPtList (MessageLinks s ! k) = Some p" using c by (cases js) auto
    then show ?thesis
      using c wlinks_append [OF assms(1,6,8) snoc] assms(2)
      by (simp add: append_watch_link_def wlinks_next [OF assms(1,6)] last_watch_link_chain [of s p js l] snoc mlinks_frame)
         (simp add: upd_wlink_def)
  qed
qed

subsection \<open>The whole table\<close>

definition used_in :: "LC_WDTEntry list \<Rightarrow> nat list \<Rightarrow> (nat \<times> CFE_SB_MsgId) list" where
  "used_in wdt is = map (\<lambda>i. (i, WDT_MessageID (wdt ! i)))
     (filter (\<lambda>i. DataType (wdt ! i) \<noteq> LC_DATA_WATCH_NOT_USED) is)"

text \<open>What is sent for the subscriptions to a list of message IDs, and for their removal.\<close>

definition subscriptions :: "(CFE_SB_MsgId \<Rightarrow> CFE_Status) \<Rightarrow> CFE_SB_MsgId list \<Rightarrow> lc_output list" where
  "subscriptions sub ids = concat (map (\<lambda>m. LC_Subscribe m #
     (if sub m \<noteq> CFE_SUCCESS then [LC_Event LC_SUB_WP_ERR_EID] else [])) ids)"

definition unsubscriptions :: "(CFE_SB_MsgId \<Rightarrow> CFE_Status) \<Rightarrow> CFE_SB_MsgId list \<Rightarrow> lc_output list" where
  "unsubscriptions unsub ids = concat (map (\<lambda>m. LC_Unsubscribe m #
     (if unsub m \<noteq> CFE_SUCCESS then [LC_Event LC_UNSUB_WP_ERR_EID] else [])) ids)"

lemma first_ids_with_id: "first_ids (xs @ [(i, m)]) = with_id (first_ids xs) m"
  by (simp add: first_ids_snoc with_id_def)

lemma subscribe_fields:
  "LC_Out (lc_subscribe sub m s) = LC_Out s @ subscriptions sub [m]" "WDT (lc_subscribe sub m s) = WDT s"
  by (simp_all add: lc_subscribe_def subscriptions_def Let_def)

lemma add_new_id:
  assumes "table_for xs s" "length xs < 176" "i < 65536"
  shows "\<exists>s'. LC_AddWatchpoint sub m s = Some (length xs, s') \<and> table_for (xs @ [(i, m)]) (new_wlink (length xs) i s') \<and>
    WDT s' = WDT s \<and> LC_Out s' = LC_Out s @ (if m \<in> set (first_ids xs) then [] else subscriptions sub [m])"
proof -
  let ?ids = "first_ids xs"
  have ok: "mlinks_ok ?ids s" "wlinks_ok xs ?ids s" using assms(1) by (simp_all add: table_for_def)
  have len: "length ?ids < 176" using first_ids_length [of xs] assms(2) by simp
  obtain k s1 where s1: "locate_message_link m s = Some (k, m \<notin> set ?ids, s1)" "mlinks_ok (with_id ?ids m) s1"
      "k < length (with_id ?ids m)" "with_id ?ids m ! k = m" "same_watch_links s s1"
    using locate_link [OF ok(1) _ len, of m] by auto
  define s2 where "s2 = (if m \<notin> set ?ids then lc_subscribe sub m s1 else s1)"
  have m2: "mlinks_ok (with_id ?ids m) s2" using s1(2) by (simp add: s2_def mlinks_frame)
  have w2: "wlinks_ok xs (with_id ?ids m) s2"
    using wlinks_with_id [OF ok(2) s1(5) ok(1) len] by (simp add: s2_def wlinks_subscribe)
  have d: "distinct (with_id ?ids m)" "length (with_id ?ids m) \<le> 176" using len by (simp_all add: with_id_def)
  have same: "WDT s1 = WDT s" "LC_Out s1 = LC_Out s" using s1(5) by (simp_all add: same_watch_links_def)
  obtain s3 where s3: "append_watch_link k s2 = Some (length xs, s3)"
      "wlinks_ok (xs @ [(i, m)]) (with_id ?ids m) (new_wlink (length xs) i s3)" "mlinks_ok (with_id ?ids m) s3"
      "WDT s3 = WDT s2" "LC_Out s3 = LC_Out s2"
    using append_link [OF w2 m2 s1(3,4) d(1) assms(2) d(2) assms(3)] by blast
  show ?thesis
    using s1(1) s3 same
    by (auto simp: LC_AddWatchpoint_def table_for_def mlinks_frame first_ids_with_id s2_def subscribe_fields)
qed

lemma add_same_id:
  assumes "table_for xs s" "length xs < 176" "i < 65536" "xs \<noteq> []" "snd (last xs) = m"
  shows "table_for (xs @ [(i, m)]) (new_wlink (length xs) i
      (upd_wlink (length xs - 1) (\<lambda>x. x\<lparr>WP_Next := Some (length xs)\<rparr>) (s\<lparr>WatchpointCount := WatchpointCount s + 1\<rparr>)))"
proof -
  have ok: "mlinks_ok (first_ids xs) s" "wlinks_ok xs (first_ids xs) s" using assms(1) by (simp_all add: table_for_def)
  obtain ys a where xs: "xs = ys @ [(a, m)]" using assms(4,5) by (cases xs rule: rev_cases) auto
  have "m \<in> set (first_ids xs)" by (simp add: xs)
  then have ids: "first_ids (xs @ [(i, m)]) = first_ids xs" by (simp add: first_ids_snoc)
  have "links_of xs m = links_of ys m @ [length xs - 1]"
    by (simp add: xs links_of_snoc)
  from wlinks_append [OF ok(2) assms(2,3) this] ok(1) show ?thesis
    by (simp add: table_for_def ids mlinks_frame)
qed

lemma add_watchpoints_table:
  "table_for xs s \<Longrightarrow> length xs + length is \<le> 176 \<Longrightarrow> (\<And>i. i \<in> set is \<Longrightarrow> i < 65536) \<Longrightarrow>
   (\<And>l. link = Some l \<Longrightarrow> xs \<noteq> [] \<and> l = length xs - 1 \<and> LastID = snd (last xs)) \<Longrightarrow>
   LC_Out s = out @ subscriptions sub (first_ids xs) \<Longrightarrow>
   \<exists>s'. add_watchpoints sub is LastID link s = Some s' \<and> table_for (xs @ used_in (WDT s) is) s' \<and> WDT s' = WDT s \<and>
     LC_Out s' = out @ subscriptions sub (first_ids (xs @ used_in (WDT s) is))"
proof (induction "is" arbitrary: xs s link LastID)
  case Nil
  then show ?case by (simp add: used_in_def)
next
  case (Cons i "is")
  show ?case
  proof (cases "DataType (WDT s ! i) = LC_DATA_WATCH_NOT_USED")
    case True
    have "\<exists>s'. add_watchpoints sub is LastID link s = Some s' \<and> table_for (xs @ used_in (WDT s) is) s' \<and> WDT s' = WDT s \<and>
      LC_Out s' = out @ subscriptions sub (first_ids (xs @ used_in (WDT s) is))"
      by (rule Cons.IH [OF Cons.prems(1) _ _ Cons.prems(4,5)]) (use Cons.prems(2,3) in auto)
    then show ?thesis using True by (simp add: used_in_def)
  next
    case False
    let ?m = "WDT_MessageID (WDT s ! i)"
    have len: "length xs < 176" and i: "i < 65536" using Cons.prems(2,3) by auto
    have "\<exists>s'. (case link of
              Some lst \<Rightarrow> if LastID = ?m then
                  (let (new, s1) = next_wlink s in Some (new, upd_wlink lst (\<lambda>l. l\<lparr>WP_Next := Some new\<rparr>) s1))
                else LC_AddWatchpoint sub ?m s
            | None \<Rightarrow> LC_AddWatchpoint sub ?m s) = Some (length xs, s') \<and>
        table_for (xs @ [(i, ?m)]) (new_wlink (length xs) i s') \<and> WDT s' = WDT s \<and>
        LC_Out s' = out @ subscriptions sub (first_ids (xs @ [(i, ?m)]))"
    proof (cases "\<exists>l. link = Some l \<and> LastID = ?m")
      case True
      then obtain l where l: "link = Some l" "LastID = ?m" by blast
      have xs: "xs \<noteq> []" "l = length xs - 1" "snd (last xs) = ?m" using Cons.prems(4) l by auto
      have w: "wlinks_ok xs (first_ids xs) s" using Cons.prems(1) by (simp add: table_for_def)
      have "?m \<in> set (first_ids xs)" using xs(1,3) by (simp add: image_iff) (metis last_in_set)
      then show ?thesis
        using l xs(2) add_same_id [OF Cons.prems(1) len i xs(1,3)] Cons.prems(5)
        by (simp add: wlinks_next [OF w len] first_ids_snoc) (simp add: upd_wlink_def)
    next
      case False
      obtain s' where "LC_AddWatchpoint sub ?m s = Some (length xs, s')"
          "table_for (xs @ [(i, ?m)]) (new_wlink (length xs) i s')" "WDT s' = WDT s"
          "LC_Out s' = LC_Out s @ (if ?m \<in> set (first_ids xs) then [] else subscriptions sub [?m])"
        using add_new_id [OF Cons.prems(1) len i, of sub ?m] by blast
      moreover have "out @ subscriptions sub (first_ids xs) @ (if ?m \<in> set (first_ids xs) then [] else subscriptions sub [?m])
          = out @ subscriptions sub (first_ids (xs @ [(i, ?m)]))"
        by (simp add: first_ids_snoc subscriptions_def)
      ultimately show ?thesis
        using False Cons.prems(5) by (cases link) auto
    qed
    then obtain s1 where s1: "table_for (xs @ [(i, ?m)]) (new_wlink (length xs) i s1)" "WDT s1 = WDT s"
        "LC_Out s1 = out @ subscriptions sub (first_ids (xs @ [(i, ?m)]))"
      and step: "add_watchpoints sub (i # is) LastID link s =
        add_watchpoints sub is ?m (Some (length xs)) (new_wlink (length xs) i s1)"
      using False by (auto simp: new_wlink_def)
    let ?t = "new_wlink (length xs) i s1"
    have t: "WDT ?t = WDT s" "LC_Out ?t = LC_Out s1" using s1(2) by (simp_all add: new_wlink_def upd_wlink_def)
    have "\<exists>s'. add_watchpoints sub is ?m (Some (length xs)) ?t = Some s' \<and>
        table_for ((xs @ [(i, ?m)]) @ used_in (WDT ?t) is) s' \<and> WDT s' = WDT ?t \<and>
        LC_Out s' = out @ subscriptions sub (first_ids ((xs @ [(i, ?m)]) @ used_in (WDT ?t) is))"
      by (rule Cons.IH [OF s1(1)]) (use Cons.prems(2,3) s1(3) t(2) in auto)
    then show ?thesis unfolding step using False t(1) by (simp add: used_in_def)
  qed
qed

lemma unsubscribe_all_result:
  "unsubscribe_all unsub is s = s\<lparr>LC_Out := LC_Out s @ unsubscriptions unsub (map (\<lambda>i. ML_MessageID (MessageLinks s ! i)) is)\<rparr>"
  by (induction "is" arbitrary: s) (simp_all add: unsubscriptions_def lc_send_def Let_def)

text \<open>The watchpoints of a definition table, and those of them that watch a message ID.\<close>

definition used_watchpoints :: "LC_WDTEntry list \<Rightarrow> (nat \<times> CFE_SB_MsgId) list" where
  "used_watchpoints wdt = used_in wdt [0..<LC_MAX_WATCHPOINTS]"

definition watchpoints_of :: "LC_WDTEntry list \<Rightarrow> CFE_SB_MsgId \<Rightarrow> nat list" where
  "watchpoints_of wdt m =
     filter (\<lambda>i. DataType (wdt ! i) \<noteq> LC_DATA_WATCH_NOT_USED \<and> WDT_MessageID (wdt ! i) = m) [0..<LC_MAX_WATCHPOINTS]"

lemma watchpoints_of_used: "map fst (filter (\<lambda>x. snd x = m) (used_watchpoints wdt)) = watchpoints_of wdt m"
  by (simp add: used_watchpoints_def used_in_def watchpoints_of_def filter_map comp_def conj_commute)

lemma create_table:
  "\<exists>s'. LC_CreateHashTable sub unsub s = Some s' \<and> table_for (used_watchpoints (WDT s)) s' \<and> WDT s' = WDT s \<and>
    LC_Out s' = LC_Out s
      @ unsubscriptions unsub (map (\<lambda>k. ML_MessageID (MessageLinks s ! k)) [0..<unat (MessageIDsCount s)])
      @ subscriptions sub (first_ids (used_watchpoints (WDT s)))"
proof -
  define s1 where "s1 = cleared_links (unsubscribe_all unsub [0..<unat (MessageIDsCount s)] s)"
  have w: "WDT s1 = WDT s" by (simp add: s1_def cleared_links_def unsubscribe_all_result)
  have "LC_Out s1 = LC_Out s1 @ subscriptions sub (first_ids ([] :: (nat \<times> CFE_SB_MsgId) list))"
    by (simp add: first_ids_def subscriptions_def)
  moreover have "table_for [] s1" by (simp add: s1_def cleared_table)
  ultimately have "\<exists>s'. add_watchpoints sub [0..<LC_MAX_WATCHPOINTS] CFE_SB_INVALID_MSG_ID None s1 = Some s' \<and>
      table_for ([] @ used_in (WDT s1) [0..<LC_MAX_WATCHPOINTS]) s' \<and> WDT s' = WDT s1 \<and>
      LC_Out s' = LC_Out s1 @ subscriptions sub (first_ids ([] @ used_in (WDT s1) [0..<LC_MAX_WATCHPOINTS]))"
    by (intro add_watchpoints_table) (simp_all add: lc_const)
  moreover have "LC_Out s1 = LC_Out s
      @ unsubscriptions unsub (map (\<lambda>k. ML_MessageID (MessageLinks s ! k)) [0..<unat (MessageIDsCount s)])"
    by (simp add: s1_def cleared_links_def unsubscribe_all_result)
  ultimately show ?thesis
    by (simp add: LC_CreateHashTable_def used_watchpoints_def w flip: s1_def)
qed

subsection \<open>A message finds its watchpoints\<close>

definition same_table :: "lc \<Rightarrow> lc \<Rightarrow> bool" where
  "same_table s t \<longleftrightarrow> WDT t = WDT s \<and> HashTable t = HashTable s \<and> MessageLinks t = MessageLinks s \<and>
     WatchPtLinks t = WatchPtLinks s \<and> MessageIDsCount t = MessageIDsCount s \<and> WatchpointCount t = WatchpointCount s"

lemma same_table_refl [simp]: "same_table s s"
  by (simp add: same_table_def)

lemma same_table_trans: "same_table a b \<Longrightarrow> same_table b c \<Longrightarrow> same_table a c"
  by (simp add: same_table_def)

lemma same_table_upd [simp]:
  "same_table s (upd_wrt i f s)" "same_table s (lc_send x s)" "same_table s (watch_error i e s)"
  by (simp_all add: same_table_def watch_error_def)

lemma same_table_compare:
  "same_table s (snd (LC_SignedCompare i v c s))" "same_table s (snd (LC_UnsignedCompare i v c s))"
  "same_table s (snd (LC_FloatCompare i v c s))"
  by (simp_all add: LC_SignedCompare_def LC_UnsignedCompare_def LC_FloatCompare_def Let_def)

lemma same_table_operator: "same_table s (snd (LC_OperatorCompare i v s))"
  unfolding LC_OperatorCompare_def Let_def by (simp add: same_table_compare)

lemma same_table_sized: "same_table s (snd (LC_GetSizedWPData i src s))"
  by (simp add: LC_GetSizedWPData_def Let_def)

lemma same_table_process: "same_table s (LC_ProcessWP i Buf ts s)"
proof -
  let ?d = "WDT s ! i"
  obtain b v s1 where g: "LC_GetSizedWPData i (drop (unat (WatchpointOffset ?d)) Buf) s = ((b, v), s1)"
    by (metis surj_pair)
  obtain r s2 where c: "(if OperatorID ?d = LC_OPER_CUSTOM
      then LC_CustomFunction i (v AND BitMask ?d) Buf (CustomFuncArgument ?d) s1
      else LC_OperatorCompare i (v AND BitMask ?d) s1) = (r, s2)" by (metis surj_pair)
  have s1: "same_table s s1" using same_table_sized [of s i] by (metis g snd_conv)
  have "same_table s1 (snd (r, s2))"
    unfolding c [symmetric] by (simp add: LC_CustomFunction_def same_table_operator)
  then have "same_table s (upd_wrt i f s2)" for f
    using same_table_trans [OF s1] same_table_trans [OF _ same_table_upd(1)] by auto
  then show ?thesis using s1 by (simp add: LC_ProcessWP_def g c Let_def)
qed

lemma check_watchpoint_table: "same_table s (check_watchpoint Buf ts i s)"
proof -
  have "same_table s (snd (LC_WPOffsetValid i Buf s))"
    by (simp add: LC_WPOffsetValid_def Let_def split: option.split)
  then show ?thesis
    using same_table_process same_table_trans
    by (auto simp: check_watchpoint_def split: prod.splits bool.splits)
qed

lemma same_tableD:
  assumes "same_table s t"
  shows "WDT t = WDT s" "HashTable t = HashTable s" "MessageLinks t = MessageLinks s" "WatchPtLinks t = WatchPtLinks s"
    "mnext t = mnext s" "wnext t = wnext s" "table_for xs t = table_for xs s"
  using assms
  by (simp_all add: same_table_def mnext_def [abs_def] wnext_def [abs_def] table_for_def mlinks_ok_def wlinks_ok_def)

lemma check_watchpoints_chain:
  "chain (wnext s) p js \<Longrightarrow> check_watchpoints Buf ts p found s = Some (found \<or> js \<noteq> [],
     fold (check_watchpoint Buf ts) (map (\<lambda>j. unat (WP_WatchIndex (WatchPtLinks s ! j))) js) s)"
proof (induction js arbitrary: p found s)
  case Nil
  then show ?case by (simp add: check_watchpoints.simps)
next
  case (Cons j js)
  let ?s = "check_watchpoint Buf ts (unat (WP_WatchIndex (WatchPtLinks s ! j))) s"
  note same = same_tableD [OF check_watchpoint_table [of s Buf ts "unat (WP_WatchIndex (WatchPtLinks s ! j))"]]
  have "chain (wnext ?s) (WP_Next (WatchPtLinks ?s ! j)) js"
    using Cons.prems by (simp add: same) (simp add: wnext_def)
  from Cons.IH [OF this, of True] show ?case
    using Cons.prems by (subst check_watchpoints.simps) (simp add: Let_def same)
qed

text \<open>The reference for the handling of a message: each of its watchpoints in the order of the definition table.\<close>

definition check_message :: "CFE_TIME_SysTime \<Rightarrow> CFE_SB_MsgId \<Rightarrow> message \<Rightarrow> lc \<Rightarrow> lc" where
  "check_message now m Buf s =
     (if CurrentLCState s = LC_STATE_DISABLED then s
      else if watchpoints_of (WDT s) m = [] then CFE_EVS_SendEvent_LC LC_MID_INF_EID s
      else let s1 = fold (check_watchpoint Buf (message_time now Buf)) (watchpoints_of (WDT s) m) s
           in s1\<lparr>MonitoredMsgCount := MonitoredMsgCount s1 + 1\<rparr>)"

lemma check_msg_reference:
  assumes "table_for (used_watchpoints (WDT s)) s"
  shows "LC_CheckMsgForWPs now m Buf s = Some (check_message now m Buf s)"
proof (cases "CurrentLCState s = LC_STATE_DISABLED")
  case False
  let ?xs = "used_watchpoints (WDT s)"
  have ok: "mlinks_ok (first_ids ?xs) s" "wlinks_ok ?xs (first_ids ?xs) s"
    using assms by (simp_all add: table_for_def)
  have walk: "find_message_list m (HashTable s ! hash_of m) s =
      Some (List.find (\<lambda>k. ML_MessageID (MessageLinks s ! k) = m) (bucket (first_ids ?xs) (hash_of m)))"
    by (rule find_message_list_chain [OF mlinks_okD(4) [OF ok(1) hash_of_less]])
  have wps: "watchpoints_of (WDT s) m = map fst (filter (\<lambda>x. snd x = m) ?xs)"
    by (simp add: watchpoints_of_used)
  show ?thesis
  proof (cases "m \<in> set (first_ids ?xs)")
    case True
    then obtain k where k: "k < length (first_ids ?xs)" "first_ids ?xs ! k = m" by (metis in_set_conv_nth)
    have "chain (wnext s) (ML_WatchPtList (MessageLinks s ! k)) (links_of ?xs m)"
      using wlinks_okD(3) [OF ok(2) k(1)] k(2) by simp
    note c = check_watchpoints_chain [OF this, of Buf "message_time now Buf" False]
    have "map (\<lambda>j. unat (WP_WatchIndex (WatchPtLinks s ! j))) (links_of ?xs m) = map (\<lambda>j. fst (?xs ! j)) (links_of ?xs m)"
      using wlinks_okD(4) [OF ok(2)] by (simp add: links_set)
    also have "\<dots> = watchpoints_of (WDT s) m" unfolding wps links_of_def by (rule map_nth_filter)
    finally have idx: "map (\<lambda>j. unat (WP_WatchIndex (WatchPtLinks s ! j))) (links_of ?xs m) = watchpoints_of (WDT s) m" .
    have ne': "watchpoints_of (WDT s) m \<noteq> []" using True by (force simp: wps filter_empty_conv)
    then have ne: "links_of ?xs m \<noteq> []" by (auto simp flip: idx)
    have f: "List.find (\<lambda>k. ML_MessageID (MessageLinks s ! k) = m) (bucket (first_ids ?xs) (hash_of m)) = Some k"
      by (rule find_in_bucket(1) [OF ok(1) _ k]) simp
    show ?thesis
      using False ne ne'
      by (simp add: LC_CheckMsgForWPs_def walk [unfolded hash_of_def] f [unfolded hash_of_def] c idx check_message_def Let_def)
  next
    case new: False
    have f: "List.find (\<lambda>k. ML_MessageID (MessageLinks s ! k) = m) (bucket (first_ids ?xs) (hash_of m)) = None"
      by (rule find_in_bucket(2) [OF ok(1) _ new]) simp
    have "watchpoints_of (WDT s) m = []" using new by (auto simp: wps filter_empty_conv)
    then show ?thesis
      using False
      by (simp add: LC_CheckMsgForWPs_def walk [unfolded hash_of_def] f [unfolded hash_of_def] check_message_def)
  qed
qed (simp add: LC_CheckMsgForWPs_def check_message_def)

end
