(* ===== verification/Lc_Start.thy ===== *)
theory Lc_Start
  imports Lc_Report Lc_Table
begin

section \<open>Limit checker: what the start-up leaves\<close>

subsection \<open>Flags\<close>

lemma lc_flag_sel [simp]:
  "WRT (lc_flag f s) = WRT s" "ART (lc_flag f s) = ART s" "WDT (lc_flag f s) = WDT s" "ADT (lc_flag f s) = ADT s"
  "HaveActiveCDS (lc_flag f s) = HaveActiveCDS s" "CDSSavedOnExit (lc_flag f s) = CDSSavedOnExit s"
  "CurrentLCState (lc_flag f s) = CurrentLCState s" "CmdCount (lc_flag f s) = CmdCount s"
  "TableResults (lc_flag f s) = TableResults s OR f"
  by (simp_all add: lc_flag_def)

lemma has_flag_same: "has_flag f (lc_flag f s)"
  by (simp add: has_flag_def)

lemma has_flag_other: "f AND g = 0 \<Longrightarrow> has_flag f (lc_flag g s) = has_flag f s"
  by (simp add: has_flag_def and.commute [of _ f] bit.conj_disj_distrib)

lemma has_flag_cong: "TableResults t = TableResults s \<Longrightarrow> has_flag f t = has_flag f s"
  by (simp add: has_flag_def)

text \<open>The five flags that decide whether the results of the last run are used.\<close>

definition restored_flags :: "lc \<Rightarrow> bool list" where
  "restored_flags s = [has_flag LC_WRT_CDS_RESTORED s, has_flag LC_ART_CDS_RESTORED s, has_flag LC_APP_CDS_RESTORED s,
     has_flag LC_WDT_TBL_RESTORED s, has_flag LC_ADT_TBL_RESTORED s]"

lemma all_restored_flags: "all_restored s \<longleftrightarrow> restored_flags s = [True, True, True, True, True]"
  by (auto simp: all_restored_def restored_flags_def)

lemma restored_cong: "TableResults t = TableResults s \<Longrightarrow> restored_flags t = restored_flags s"
  by (simp add: restored_flags_def has_flag_cong [of t s])

lemma restored_flag [simp]:
  "restored_flags (lc_flag LC_WRT_CDS_RESTORED s) = (restored_flags s)[0 := True]"
  "restored_flags (lc_flag LC_ART_CDS_RESTORED s) = (restored_flags s)[1 := True]"
  "restored_flags (lc_flag LC_APP_CDS_RESTORED s) = (restored_flags s)[2 := True]"
  "restored_flags (lc_flag LC_WDT_TBL_RESTORED s) = (restored_flags s)[3 := True]"
  "restored_flags (lc_flag LC_ADT_TBL_RESTORED s) = (restored_flags s)[4 := True]"
  by (simp_all add: restored_flags_def has_flag_same) (simp_all add: lc_const has_flag_other)

lemma other_flag:
  "f AND 0x00444440 = 0 \<Longrightarrow> restored_flags (lc_flag f s) = restored_flags s"
proof -
  assume "f AND 0x00444440 = 0"
  then have no: "\<not> bit (f AND 0x00444440) n" for n by simp
  have "g AND f = 0" if "g AND 0x00444440 = g" for g
  proof (rule bit_word_eqI)
    fix n
    have "bit g n \<Longrightarrow> bit (0x00444440 :: uint32) n" using that by (metis bit_and_iff)
    then show "bit (g AND f) n = bit 0 n" using no [of n] by (auto simp: bit_simps)
  qed
  then show ?thesis by (simp add: restored_flags_def has_flag_other lc_const)
qed

lemma plain_flags [simp]:
  "restored_flags (lc_flag LC_CDS_ENABLED s) = restored_flags s" "restored_flags (lc_flag LC_CDS_CREATED s) = restored_flags s"
  "restored_flags (lc_flag LC_WRT_CDS_CREATED s) = restored_flags s" "restored_flags (lc_flag LC_WRT_TBL_CREATED s) = restored_flags s"
  "restored_flags (lc_flag LC_ART_CDS_CREATED s) = restored_flags s" "restored_flags (lc_flag LC_ART_TBL_CREATED s) = restored_flags s"
  "restored_flags (lc_flag LC_APP_CDS_CREATED s) = restored_flags s" "restored_flags (lc_flag LC_WDT_CRITICAL_TBL s) = restored_flags s"
  "restored_flags (lc_flag LC_WDT_NOT_CRITICAL s) = restored_flags s" "restored_flags (lc_flag LC_ADT_CRITICAL_TBL s) = restored_flags s"
  "restored_flags (lc_flag LC_ADT_NOT_CRITICAL s) = restored_flags s"
  by (simp_all add: lc_const other_flag)

lemma restored_upd [simp]:
  "restored_flags (lc_send x s) = restored_flags s" "restored_flags (s\<lparr>HaveActiveCDS := h\<rparr>) = restored_flags s"
  "restored_flags (s\<lparr>WRT := w\<rparr>) = restored_flags s" "restored_flags (s\<lparr>ART := a\<rparr>) = restored_flags s"
  "restored_flags (restore_app d s) = restored_flags s" "length (restored_flags s) = 5"
  by (simp_all add: restored_flags_def has_flag_def restore_app_def)

subsection \<open>Registration\<close>

text \<open>What the results are when the data store gives them back, and when it does.\<close>

definition saved_wrt :: "lc_boot \<Rightarrow> LC_WRTEntry list" where
  "saved_wrt b = (case snd (WRT_Restore b) of None \<Rightarrow> WRT_Buffer b | Some d \<Rightarrow> d)"

definition saved_art :: "lc_boot \<Rightarrow> LC_ARTEntry list" where
  "saved_art b = (case snd (ART_Restore b) of None \<Rightarrow> ART_Buffer b | Some d \<Rightarrow> d)"

definition results_saved :: "lc_boot \<Rightarrow> bool" where
  "results_saved b \<longleftrightarrow>
     WRT_RegisterCDS b = CFE_ES_CDS_ALREADY_EXISTS \<and> fst (WRT_Restore b) = CFE_SUCCESS \<and>
     ART_RegisterCDS b = CFE_ES_CDS_ALREADY_EXISTS \<and> fst (ART_Restore b) = CFE_SUCCESS \<and>
     App_RegisterCDS b = CFE_ES_CDS_ALREADY_EXISTS \<and> fst (App_Restore b) = CFE_SUCCESS \<and>
     (case snd (App_Restore b) of None \<Rightarrow> False | Some a \<Rightarrow> Saved_CDSSavedOnExit a = LC_CDS_SAVED)"

definition warm_start :: "lc_boot \<Rightarrow> bool" where
  "warm_start b \<longleftrightarrow> SaveToCDS b \<and> results_saved b \<and>
     WDT_Register b True = CFE_TBL_INFO_RECOVERED_TBL \<and> ADT_Register b True = CFE_TBL_INFO_RECOVERED_TBL"

text \<open>
  The documented behaviour of table services: only a critical table is recovered, and a load does not report an
  update. The tables and the restored copies have their full size.
\<close>

definition boot_ok :: "lc_boot \<Rightarrow> bool" where
  "boot_ok b \<longleftrightarrow> WDT_Register b False \<noteq> CFE_TBL_INFO_RECOVERED_TBL \<and> ADT_Register b False \<noteq> CFE_TBL_INFO_RECOVERED_TBL \<and>
     WDT_Load b \<noteq> CFE_TBL_INFO_UPDATED \<and> ADT_Load b \<noteq> CFE_TBL_INFO_UPDATED \<and>
     length (WRT_Buffer b) = LC_MAX_WATCHPOINTS \<and> length (ART_Buffer b) = LC_MAX_ACTIONPOINTS \<and>
     length (saved_wrt b) = LC_MAX_WATCHPOINTS \<and> length (saved_art b) = LC_MAX_ACTIONPOINTS"

lemma result_tables:
  "LC_CreateResultTables b s = (CFE_SUCCESS, t) \<Longrightarrow>
     WRT t = WRT_Buffer b \<and> ART t = ART_Buffer b \<and> restored_flags t = restored_flags s \<and>
     HaveActiveCDS t = HaveActiveCDS s \<and> CDSSavedOnExit t = CDSSavedOnExit s"
  by (auto simp: LC_CreateResultTables_def Let_def on_success_def report_failure_def split: if_splits)

lemma restore_flags:
  "restored_flags (restore_wrt b s) = (if fst (WRT_Restore b) = CFE_SUCCESS then (restored_flags s)[0 := True] else restored_flags s)"
  "WRT (restore_wrt b s) = (case snd (WRT_Restore b) of None \<Rightarrow> WRT s | Some d \<Rightarrow> d)" "ART (restore_wrt b s) = ART s"
  "HaveActiveCDS (restore_wrt b s) = HaveActiveCDS s" "CDSSavedOnExit (restore_wrt b s) = CDSSavedOnExit s"
  "restored_flags (restore_art b s) = (if fst (ART_Restore b) = CFE_SUCCESS then (restored_flags s)[1 := True] else restored_flags s)"
  "ART (restore_art b s) = (case snd (ART_Restore b) of None \<Rightarrow> ART s | Some d \<Rightarrow> d)" "WRT (restore_art b s) = WRT s"
  "HaveActiveCDS (restore_art b s) = HaveActiveCDS s" "CDSSavedOnExit (restore_art b s) = CDSSavedOnExit s"
  by (simp_all add: restore_wrt_def restore_art_def Let_def split: option.split)

lemma restore_app_sel [simp]:
  "WRT (restore_app d s) = WRT s" "ART (restore_app d s) = ART s" "HaveActiveCDS (restore_app d s) = HaveActiveCDS s"
  "CDSSavedOnExit (restore_app d s) = Saved_CDSSavedOnExit d"
  by (simp_all add: restore_app_def)

lemma restore_app_flags:
  "WRT (restore_appdata b s) = WRT s" "ART (restore_appdata b s) = ART s"
  "HaveActiveCDS (restore_appdata b s) = HaveActiveCDS s"
  "restored_flags (restore_appdata b s) =
     (if fst (App_Restore b) = CFE_SUCCESS \<and>
         (case snd (App_Restore b) of None \<Rightarrow> CDSSavedOnExit s | Some a \<Rightarrow> Saved_CDSSavedOnExit a) = LC_CDS_SAVED
      then (restored_flags s)[2 := True] else restored_flags s)"
  by (auto simp: restore_appdata_def Let_def LC_STATE_WHEN_CDS_RESTORED_def
      split: option.split)

lemma task_areas:
  assumes "LC_CreateTaskCDS b s = (st, t)" "restored_flags s = [False, False, False, False, False]"
    "WRT s = WRT_Buffer b" "ART s = ART_Buffer b" "CDSSavedOnExit s = 0"
  shows "(take 3 (restored_flags t) = [True, True, True] \<longleftrightarrow> results_saved b) \<and> drop 3 (restored_flags t) = [False, False] \<and>
    (results_saved b \<longrightarrow> st = CFE_SUCCESS \<and> WRT t = saved_wrt b \<and> ART t = saved_art b) \<and>
    WRT t \<in> {WRT_Buffer b, saved_wrt b} \<and> ART t \<in> {ART_Buffer b, saved_art b} \<and> HaveActiveCDS t = HaveActiveCDS s"
  using assms
  by (auto simp: LC_CreateTaskCDS_def on_success_def task_cds_def restore_flags restore_app_flags results_saved_def
      saved_wrt_def saved_art_def LC_CDS_SAVED_def split: if_splits option.splits)

lemma define_wdt:
  assumes "define_table reg e1 e2 LC_WDT_CRITICAL_TBL LC_WDT_TBL_RESTORED LC_WDT_NOT_CRITICAL s = (CFE_SUCCESS, t)"
    "reg False \<noteq> CFE_TBL_INFO_RECOVERED_TBL"
  shows "restored_flags t = (if HaveActiveCDS s \<and> reg True = CFE_TBL_INFO_RECOVERED_TBL
      then (restored_flags s)[3 := True] else restored_flags s) \<and>
    WRT t = WRT s \<and> ART t = ART s \<and> (HaveActiveCDS t \<longrightarrow> HaveActiveCDS s) \<and>
    (HaveActiveCDS s \<and> reg True = CFE_TBL_INFO_RECOVERED_TBL \<longrightarrow> HaveActiveCDS t)"
  using assms by (cases "HaveActiveCDS s") (auto simp: define_table_def Let_def split: if_splits)

lemma define_adt:
  assumes "define_table reg e1 e2 LC_ADT_CRITICAL_TBL LC_ADT_TBL_RESTORED LC_ADT_NOT_CRITICAL s = (CFE_SUCCESS, t)"
    "reg False \<noteq> CFE_TBL_INFO_RECOVERED_TBL"
  shows "restored_flags t = (if HaveActiveCDS s \<and> reg True = CFE_TBL_INFO_RECOVERED_TBL
      then (restored_flags s)[4 := True] else restored_flags s) \<and> WRT t = WRT s \<and> ART t = ART s"
  using assms by (cases "HaveActiveCDS s") (auto simp: define_table_def Let_def split: if_splits)

lemma definition_tables:
  assumes "LC_CreateDefinitionTables b s = (CFE_SUCCESS, t)" "boot_ok b" "drop 3 (restored_flags s) = [False, False]"
  shows "(all_restored t \<longleftrightarrow> take 3 (restored_flags s) = [True, True, True] \<and> HaveActiveCDS s \<and>
      WDT_Register b True = CFE_TBL_INFO_RECOVERED_TBL \<and> ADT_Register b True = CFE_TBL_INFO_RECOVERED_TBL) \<and>
    WRT t = WRT s \<and> ART t = ART s"
proof -
  define wdt where "wdt = define_table (WDT_Register b) LC_WDT_REGISTER_CRIT_ERR_EID LC_WDT_REGISTER_ERR_EID
    LC_WDT_CRITICAL_TBL LC_WDT_TBL_RESTORED LC_WDT_NOT_CRITICAL s"
  define adt where "adt = define_table (ADT_Register b) LC_ADT_REGISTER_CRIT_ERR_EID LC_ADT_REGISTER_ERR_EID
    LC_ADT_CRITICAL_TBL LC_ADT_TBL_RESTORED LC_ADT_NOT_CRITICAL (snd wdt)"
  have ok: "fst wdt = CFE_SUCCESS" "fst adt = CFE_SUCCESS"
    and t: "t = snd adt \<or> t = lc_flag LC_WDT_NOT_CRITICAL (snd adt)"
    using assms(1) unfolding LC_CreateDefinitionTables_def Let_def wdt_def [symmetric] on_success_def adt_def [symmetric]
    by (auto split: if_splits)
  have reg: "WDT_Register b False \<noteq> CFE_TBL_INFO_RECOVERED_TBL" "ADT_Register b False \<noteq> CFE_TBL_INFO_RECOVERED_TBL"
    using assms(2) by (simp_all add: boot_ok_def)
  have "define_table (WDT_Register b) LC_WDT_REGISTER_CRIT_ERR_EID LC_WDT_REGISTER_ERR_EID
      LC_WDT_CRITICAL_TBL LC_WDT_TBL_RESTORED LC_WDT_NOT_CRITICAL s = (CFE_SUCCESS, snd wdt)"
    "define_table (ADT_Register b) LC_ADT_REGISTER_CRIT_ERR_EID LC_ADT_REGISTER_ERR_EID
      LC_ADT_CRITICAL_TBL LC_ADT_TBL_RESTORED LC_ADT_NOT_CRITICAL (snd wdt) = (CFE_SUCCESS, snd adt)"
    using ok unfolding wdt_def adt_def by (metis prod.collapse)+
  note w = define_wdt [OF this(1) reg(1)] and a = define_adt [OF this(2) reg(2)]
  obtain x y z where f: "restored_flags s = [x, y, z, False, False]"
    using assms(3) by (cases "restored_flags s" rule: list.exhaust) (auto simp: restored_flags_def)
  let ?W = "HaveActiveCDS s \<and> WDT_Register b True = CFE_TBL_INFO_RECOVERED_TBL"
  let ?A = "HaveActiveCDS (snd wdt) \<and> ADT_Register b True = CFE_TBL_INFO_RECOVERED_TBL"
  have "restored_flags (snd wdt) = [x, y, z, ?W, False]" 
    unfolding w [THEN conjunct1] f by (cases ?W) simp_all
  then have "restored_flags (snd adt) = [x, y, z, ?W, ?A]"
    unfolding a [THEN conjunct1] by (cases ?A) simp_all
  then have "restored_flags t = [x, y, z, ?W, ?A]" using t by auto
  then have "all_restored t \<longleftrightarrow> x \<and> y \<and> z \<and> ?W \<and> ?A" by (simp add: all_restored_flags)
  moreover have "WRT t = WRT s \<and> ART t = ART s" using w a t by auto
  moreover have "?W \<longrightarrow> HaveActiveCDS (snd wdt)" using w by blast
  ultimately show ?thesis using f by auto
qed

lemma registered_tables:
  assumes "register_tables b s = (CFE_SUCCESS, t)" "boot_ok b" "restored_flags s = [False, False, False, False, False]"
    "\<not> HaveActiveCDS s" "CDSSavedOnExit s = 0"
  shows "(all_restored t \<longleftrightarrow> warm_start b) \<and> (warm_start b \<longrightarrow> WRT t = saved_wrt b \<and> ART t = saved_art b) \<and>
    WRT t \<in> {WRT_Buffer b, saved_wrt b} \<and> ART t \<in> {ART_Buffer b, saved_art b}"
proof -
  define s2 where "s2 = (if SaveToCDS b then lc_flag LC_CDS_ENABLED (s\<lparr>HaveActiveCDS := True\<rparr>) else s)"
  have s2: "restored_flags s2 = [False, False, False, False, False]" "HaveActiveCDS s2 = SaveToCDS b" "CDSSavedOnExit s2 = 0"
    using assms(3-5) by (simp_all add: s2_def)
  define r where "r = LC_CreateResultTables b s2"
  define u where "u = (if HaveActiveCDS (snd r) then
      (case LC_CreateTaskCDS b (snd r) of (st, t1) \<Rightarrow> if st \<noteq> CFE_SUCCESS then t1\<lparr>HaveActiveCDS := False\<rparr> else t1) else snd r)"
  have reg: "register_tables b s = on_success (\<lambda>t. (CFE_SUCCESS, if HaveActiveCDS t then lc_flag LC_CDS_CREATED t else t))
      (if fst r = CFE_SUCCESS then LC_CreateDefinitionTables b u else r)"
    using assms(4) by (simp add: register_tables_def Let_def on_success_def r_def u_def s2_def)
  have r: "r = (CFE_SUCCESS, snd r)" using assms(1) unfolding reg by (cases r) (auto simp: on_success_def split: if_splits)
  obtain t1 where t1: "LC_CreateDefinitionTables b u = (CFE_SUCCESS, t1)"
    and t: "t = (if HaveActiveCDS t1 then lc_flag LC_CDS_CREATED t1 else t1)"
    using assms(1) r unfolding reg by (cases "LC_CreateDefinitionTables b u") (auto simp: on_success_def split: if_splits)
  have tab: "WRT (snd r) = WRT_Buffer b" "ART (snd r) = ART_Buffer b" "restored_flags (snd r) = [False, False, False, False, False]"
    "HaveActiveCDS (snd r) = SaveToCDS b" "CDSSavedOnExit (snd r) = 0"
    using result_tables [of b s2 "snd r"] r s2 by (simp_all add: r_def)
  have u: "drop 3 (restored_flags u) = [False, False]"
    "take 3 (restored_flags u) = [True, True, True] \<and> HaveActiveCDS u \<longleftrightarrow> SaveToCDS b \<and> results_saved b"
    "SaveToCDS b \<and> results_saved b \<longrightarrow> WRT u = saved_wrt b \<and> ART u = saved_art b"
    "WRT u \<in> {WRT_Buffer b, saved_wrt b}" "ART u \<in> {ART_Buffer b, saved_art b}"
    using tab task_areas [OF surjective_pairing tab(3,1,2,5)]
    by (auto simp: u_def case_prod_beta)
  have all: "all_restored t = all_restored t1" by (simp add: t all_restored_flags)
  from definition_tables [OF t1 assms(2) u(1)] u(2-5) show ?thesis
    unfolding all by (auto simp: t warm_start_def)
qed

subsection \<open>Default data\<close>

lemma fold_pointwise:
  assumes "\<And>k s. I s \<Longrightarrow> k < length (sel s) \<Longrightarrow> sel (f k s) = (sel s)[k := g k (sel s ! k)] \<and> I (f k s)" "I s"
  shows "n \<le> length (sel s) \<Longrightarrow>
    sel (fold f [0..<n] s) = map (\<lambda>k. g k (sel s ! k)) [0..<n] @ drop n (sel s) \<and> I (fold f [0..<n] s)"
proof (induction n)
  case 0
  then show ?case using assms(2) by simp
next
  case (Suc n)
  let ?t = "fold f [0..<n] s"
  have t: "sel ?t = map (\<lambda>k. g k (sel s ! k)) [0..<n] @ drop n (sel s)" "I ?t" using Suc by simp_all
  then have n: "n < length (sel ?t)" "sel ?t ! n = sel s ! n" using Suc.prems by (simp_all add: nth_append)
  have "sel (fold f [0..<Suc n] s) = (sel ?t)[n := g n (sel s ! n)] \<and> I (fold f [0..<Suc n] s)"
    using assms(1) [OF t(2) n(1)] n(2) by simp
  then show ?case using Suc.prems t(1) by (simp add: list_update_append flip: Cons_nth_drop_Suc)
qed

definition fresh_wrt :: "LC_WRTEntry \<Rightarrow> bool" where
  "fresh_wrt r \<longleftrightarrow> WatchResult r = LC_WATCH_STALE \<and> CountdownToStale r = 0 \<and> EvaluationCount r = 0 \<and>
     FalseToTrueCount r = 0 \<and> ConsecutiveTrueCount r = 0 \<and> CumulativeTrueCount r = 0"

definition fresh_art :: "LC_ADTEntry \<Rightarrow> LC_ARTEntry \<Rightarrow> bool" where
  "fresh_art d a \<longleftrightarrow> ActionResult a = LC_ACTION_STALE \<and> CurrentState a = DefaultState d \<and> PassiveAPCount a = 0 \<and>
     FailToPassCount a = 0 \<and> PassToFailCount a = 0 \<and> ConsecutiveFailCount a = 0 \<and> CumulativeFailCount a = 0 \<and>
     CumulativeRTSExecCount a = 0 \<and> CumulativeEventMsgsSent a = 0"

lemma reset_all_wp:
  assumes "length (WRT s) = LC_MAX_WATCHPOINTS" "k < LC_MAX_WATCHPOINTS"
  shows "fresh_wrt (WRT (LC_ResetResultsWP 0 (LC_MAX_WATCHPOINTS - 1) False s) ! k)"
proof -
  let ?z = "\<lambda>t. t\<lparr>TransitionValue := 0, TransitionTime := \<lparr>Seconds = 0, Subseconds = 0\<rparr>\<rparr>"
  let ?g = "\<lambda>k r. r\<lparr>WatchResult := LC_WATCH_STALE, CountdownToStale := 0, EvaluationCount := 0, FalseToTrueCount := 0,
    ConsecutiveTrueCount := 0, CumulativeTrueCount := 0, LastFalseToTrue := ?z (LastFalseToTrue r),
    LastTrueToFalse := ?z (LastTrueToFalse r)\<rparr>"
  have "WRT (fold (reset_wp False) [0..<LC_MAX_WATCHPOINTS] s) =
      map (\<lambda>k. ?g k (WRT s ! k)) [0..<LC_MAX_WATCHPOINTS] @ drop LC_MAX_WATCHPOINTS (WRT s)"
    using fold_pointwise [of "\<lambda>_. True" WRT "reset_wp False" ?g s LC_MAX_WATCHPOINTS] assms(1)
    by (simp add: reset_wp_def Let_def)
  moreover have "Suc (LC_MAX_WATCHPOINTS - 1) = LC_MAX_WATCHPOINTS" by (simp add: lc_const)
  ultimately show ?thesis using assms by (simp add: LC_ResetResultsWP_def fresh_wrt_def nth_append del: upt_Suc)
qed

lemma reset_all_ap:
  assumes "length (ART s) = LC_MAX_ACTIONPOINTS" "k < LC_MAX_ACTIONPOINTS"
  shows "fresh_art (ADT s ! k) (ART (LC_ResetResultsAP 0 (LC_MAX_ACTIONPOINTS - 1) False s) ! k) \<and>
    WRT (LC_ResetResultsAP 0 (LC_MAX_ACTIONPOINTS - 1) False s) = WRT s"
proof -
  let ?g = "\<lambda>k a. a\<lparr>ActionResult := LC_ACTION_STALE, CurrentState := DefaultState (ADT s ! k), PassiveAPCount := 0,
    FailToPassCount := 0, PassToFailCount := 0, ConsecutiveFailCount := 0, CumulativeFailCount := 0,
    CumulativeRTSExecCount := 0, CumulativeEventMsgsSent := 0\<rparr>"
  have "ART (fold (reset_ap False) [0..<LC_MAX_ACTIONPOINTS] s) =
      map (\<lambda>k. ?g k (ART s ! k)) [0..<LC_MAX_ACTIONPOINTS] @ drop LC_MAX_ACTIONPOINTS (ART s) \<and>
      (ADT (fold (reset_ap False) [0..<LC_MAX_ACTIONPOINTS] s) = ADT s \<and>
       WRT (fold (reset_ap False) [0..<LC_MAX_ACTIONPOINTS] s) = WRT s)"
    using fold_pointwise [of "\<lambda>t. ADT t = ADT s \<and> WRT t = WRT s" ART "reset_ap False" ?g s LC_MAX_ACTIONPOINTS] assms(1)
    by (simp add: reset_ap_def Let_def)
  moreover have "Suc (LC_MAX_ACTIONPOINTS - 1) = LC_MAX_ACTIONPOINTS" by (simp add: lc_const)
  ultimately show ?thesis using assms by (simp add: LC_ResetResultsAP_def fresh_art_def nth_append del: upt_Suc)
qed

lemma cds_frame:
  "WRT (snd (LC_UpdateTaskCDS v s)) = WRT s" "ART (snd (LC_UpdateTaskCDS v s)) = ART s" "ADT (snd (LC_UpdateTaskCDS v s)) = ADT s"
  "WDT (snd (LC_UpdateTaskCDS v s)) = WDT s" "CmdCount (snd (LC_UpdateTaskCDS v s)) = CmdCount s"
  by (simp_all add: LC_UpdateTaskCDS_def Let_def lc_send_def)

text \<open>The definition tables are the loaded ones, and the results are those of the last run or fresh ones.\<close>

definition tables_filled :: "lc_boot \<Rightarrow> lc \<Rightarrow> bool" where
  "tables_filled b s \<longleftrightarrow> WDT s = WDT_Data (BootServices b) \<and> ADT s = ADT_Data (BootServices b) \<and>
     (if warm_start b then WRT s = saved_wrt b \<and> ART s = saved_art b
      else (\<forall>k<LC_MAX_WATCHPOINTS. fresh_wrt (WRT s ! k)) \<and>
           (\<forall>k<LC_MAX_ACTIONPOINTS. fresh_art (ADT s ! k) (ART s ! k)) \<and> CmdCount s = 0)"

lemma default_data_result:
  assumes "length (WRT s) = LC_MAX_WATCHPOINTS" "length (ART s) = LC_MAX_ACTIONPOINTS"
  shows "WDT (default_data b s) = WDT s \<and> ADT (default_data b s) = ADT s \<and> CmdCount (default_data b s) = 0 \<and>
    (\<forall>k<LC_MAX_WATCHPOINTS. fresh_wrt (WRT (default_data b s) ! k)) \<and>
    (\<forall>k<LC_MAX_ACTIONPOINTS. fresh_art (ADT s ! k) (ART (default_data b s) ! k))"
proof -
  define s1 where "s1 = lc_flag LC_WRT_DEFAULT_DATA (LC_ResetResultsWP 0 (LC_MAX_WATCHPOINTS - 1) False s)"
  define s2 where "s2 = lc_flag LC_ART_DEFAULT_DATA (LC_ResetResultsAP 0 (LC_MAX_ACTIONPOINTS - 1) False s1)"
  define s3 where "s3 = lc_flag LC_APP_DEFAULT_DATA ((LC_ResetCounters s2)\<lparr>CurrentLCState := LC_STATE_POWER_ON_RESET\<rparr>)"
  have wdt: "WDT (fold (reset_wp False) ks u) = WDT u" "WDT (fold (reset_ap False) ks u) = WDT u"
    "ADT (fold (reset_ap False) ks u) = ADT u" for ks u
    by (rule fold_frame, simp add: reset_wp_def reset_ap_def Let_def)+
  have s1: "ART s1 = ART s" "ADT s1 = ADT s" "WDT s1 = WDT s"
    using view_reset_wp [of 0 "LC_MAX_WATCHPOINTS - 1" False s] by (simp_all add: s1_def ap_view_def)
      (simp add: LC_ResetResultsWP_def wdt del: upt_Suc)
  have w: "\<forall>k<LC_MAX_WATCHPOINTS. fresh_wrt (WRT s1 ! k)" using reset_all_wp assms(1) by (simp add: s1_def)
  have s2: "WRT s2 = WRT s1" "ADT s2 = ADT s1" "WDT s2 = WDT s1"
    using reset_all_ap [of s1 0] assms(2) s1 by (simp_all add: s2_def LC_ResetResultsAP_def wdt lc_const del: upt_Suc)
  have a: "\<forall>k<LC_MAX_ACTIONPOINTS. fresh_art (ADT s ! k) (ART s2 ! k)"
    using reset_all_ap [of s1] assms(2) s1 by (simp add: s2_def)
  have s3: "WRT s3 = WRT s2" "ART s3 = ART s2" "ADT s3 = ADT s2" "WDT s3 = WDT s2" "CmdCount s3 = 0"
    by (simp_all add: s3_def LC_ResetCounters_def)
  obtain st s4 where c: "LC_UpdateTaskCDS (BootServices b) s3 = (st, s4)" by fastforce
  have "default_data b s \<in> {s3, lc_flag LC_CDS_UPDATED s4, s4\<lparr>HaveActiveCDS := False\<rparr>}"
    unfolding default_data_def Let_def s1_def [symmetric] s2_def [symmetric] s3_def [symmetric] c by simp
  then show ?thesis using cds_frame [of "BootServices b" s3] c w a s1 s2 s3 by auto
qed

subsection \<open>The whole start-up\<close>

lemma filled_tables:
  assumes "fill_tables b s = (CFE_SUCCESS, t)" "boot_ok b" "all_restored s \<longleftrightarrow> warm_start b"
    "warm_start b \<longrightarrow> WRT s = saved_wrt b \<and> ART s = saved_art b"
    "WRT s \<in> {WRT_Buffer b, saved_wrt b}" "ART s \<in> {ART_Buffer b, saved_art b}"
  shows "tables_filled b t"
proof (cases "warm_start b")
  case True
  then show ?thesis
    using assms(1,3,4)
    by (auto simp: fill_tables_def get_wdt_def get_adt_def got_address_def tables_filled_def Let_def split: if_splits)
next
  case False
  have len: "length (WRT s) = LC_MAX_WATCHPOINTS" "length (ART s) = LC_MAX_ACTIONPOINTS"
    using assms(2,5,6) by (auto simp: boot_ok_def)
  have load: "WDT_Load b \<noteq> CFE_TBL_INFO_UPDATED" "ADT_Load b \<noteq> CFE_TBL_INFO_UPDATED" using assms(2) by (simp_all add: boot_ok_def)
  obtain st u where u: "LC_LoadDefaultTables b s = (st, u)" by fastforce
  then have ok: "got_address st" "t = u"
    using assms(1,3) False by (auto simp: fill_tables_def got_address_def split: if_splits)
  let ?u = "lc_flag LC_ADT_DEFAULT_TBL ((lc_flag LC_WDT_DEFAULT_TBL s)\<lparr>WDT := WDT_Data (BootServices b)\<rparr>)
    \<lparr>ADT := ADT_Data (BootServices b)\<rparr>"
  have "u = default_data b ?u"
    using u ok load
    by (auto simp: LC_LoadDefaultTables_def on_success_def get_wdt_def get_adt_def got_address_def Let_def split: if_splits)
  then show ?thesis using False ok default_data_result [of ?u b] len by (simp add: tables_filled_def)
qed

lemma bus_ready:
  "restored_flags (snd (LC_SbInit b s)) = restored_flags s" "HaveActiveCDS (snd (LC_SbInit b s)) = HaveActiveCDS s"
  "CDSSavedOnExit (snd (LC_SbInit b s)) = CDSSavedOnExit s"
  by (simp_all add: LC_SbInit_def on_success_def boot_subscribe_def report_failure_def restored_flags_def has_flag_def lc_send_def)

lemma table_init_result:
  assumes "boot_ok b" "restored_flags s = [False, False, False, False, False]" "\<not> HaveActiveCDS s" "CDSSavedOnExit s = 0"
  shows "\<exists>st t. LC_TableInit b s = Some (st, t) \<and>
    (st = CFE_SUCCESS \<longrightarrow> tables_filled b t \<and> table_for (used_watchpoints (WDT t)) t)"
proof -
  obtain st u where u: "on_success (fill_tables b) (register_tables b s) = (st, u)" by fastforce
  show ?thesis
  proof (cases "st = CFE_SUCCESS")
    case True
    obtain r where r: "register_tables b s = (CFE_SUCCESS, r)" "fill_tables b r = (CFE_SUCCESS, u)"
      using u True by (cases "register_tables b s") (auto simp: on_success_def split: if_splits)
    have filled: "tables_filled b u"
      using registered_tables [OF r(1) assms] by (intro filled_tables [OF r(2) assms(1)]) auto
    obtain t where t: "LC_CreateHashTable (SubscribeStatus (BootServices b)) (UnsubscribeStatus (BootServices b)) u = Some t"
      "table_for (used_watchpoints (WDT u)) t" "WDT t = WDT u"
      using create_table by blast
    have "table_view t = table_view u" by (rule table_view_hash_table [OF t(1)])
    then have "tables_filled b t" using filled
      by (auto simp: tables_filled_def table_view_def ap_view_def split: if_splits)
    moreover have "same_table t (report_cds t)" by (simp add: report_cds_def)
    moreover have "tables_filled b (report_cds t) = tables_filled b t" by (simp add: report_cds_def tables_filled_def lc_send_def)
    ultimately show ?thesis
      using u True t same_tableD(1,7) [of t "report_cds t"] by (simp add: LC_TableInit_def)
  qed (use u in \<open>simp add: LC_TableInit_def\<close>)
qed

end
