(* ===== verification/Lc_Value.thy ===== *)
theory Lc_Value
  imports Lc_Table
begin

section \<open>Limit checker: what the evaluation of a watchpoint computes\<close>

text \<open>
  The specification reads a number from the bytes of a message in the byte order of its data type, keeps
  the bits of the mask, and compares it as a signed or unsigned number of its size.
\<close>

datatype wp_kind = Signed | Unsigned | Float

text \<open>The kind, the number of bytes and the byte order (big-endian or not) of a data type.\<close>

definition wp_format :: "uint8 \<Rightarrow> (wp_kind \<times> nat \<times> bool) option" where
  "wp_format dt = map_of
     [(LC_DATA_WATCH_BYTE, (Signed, 1, False)), (LC_DATA_WATCH_UBYTE, (Unsigned, 1, False)),
      (LC_DATA_WATCH_WORD_BE, (Signed, 2, True)), (LC_DATA_WATCH_WORD_LE, (Signed, 2, False)),
      (LC_DATA_WATCH_UWORD_BE, (Unsigned, 2, True)), (LC_DATA_WATCH_UWORD_LE, (Unsigned, 2, False)),
      (LC_DATA_WATCH_DWORD_BE, (Signed, 4, True)), (LC_DATA_WATCH_DWORD_LE, (Signed, 4, False)),
      (LC_DATA_WATCH_UDWORD_BE, (Unsigned, 4, True)), (LC_DATA_WATCH_UDWORD_LE, (Unsigned, 4, False)),
      (LC_DATA_WATCH_FLOAT_BE, (Float, 4, True)), (LC_DATA_WATCH_FLOAT_LE, (Float, 4, False))] dt"

primrec le_value :: "uint8 list \<Rightarrow> nat" where
  "le_value [] = 0"
| "le_value (b # bs) = unat b + 256 * le_value bs"

definition wp_raw :: "nat \<Rightarrow> bool \<Rightarrow> uint8 list \<Rightarrow> nat" where
  "wp_raw n big bs = le_value ((if big then rev else id) (take n bs))"

text \<open>A number of \<open>n\<close> bytes read as a signed or an unsigned one.\<close>

definition wp_number :: "wp_kind \<Rightarrow> nat \<Rightarrow> nat \<Rightarrow> int" where
  "wp_number k n v = (if k = Signed \<and> v \<ge> 2 ^ (8 * n - 1) then int v - 2 ^ (8 * n) else int v)"

definition wp_relation :: "uint8 \<Rightarrow> int \<Rightarrow> int \<Rightarrow> bool option" where
  "wp_relation oper v c = map_of
     [(LC_OPER_LT, v < c), (LC_OPER_LE, v \<le> c), (LC_OPER_NE, v \<noteq> c), (LC_OPER_EQ, v = c),
      (LC_OPER_GE, v \<ge> c), (LC_OPER_GT, v > c)] oper"

subsection \<open>Bytes\<close>

lemma le_value_less: "le_value bs < 256 ^ length bs"
proof (induction bs)
  case (Cons b bs)
  have "unat b < 256" using unsigned_less [of b] by simp
  then show ?case using Cons.IH by simp
qed simp

lemma multi_value_unat: "unat (multi_value [a, b, c, d]) = le_value [a, b, c, d]"
proof -
  have lt: "unat x < 256" for x :: uint8 using unsigned_less [of x] by simp
  have cast: "unat (ucast x :: uint32) = unat x" for x :: uint8 by (rule unat_ucast_up) simp
  have pb: "unat (push_bit n (ucast x :: uint32)) = unat x * 2 ^ n" if "n \<le> 24" for x :: uint8 and n
  proof -
    have "unat x * 2 ^ n < 256 * 2 ^ n" using lt [of x] by simp
    also have "\<dots> \<le> 256 * 2 ^ 24" using that by (intro mult_left_mono power_increasing) auto
    finally have "unat x * 2 ^ n < 2 ^ 32" by simp
    then show ?thesis by (subst unsigned_push_bit_eq) (simp add: cast push_bit_eq_mult take_bit_nat_eq_self)
  qed
  have bits: "push_bit 16 (ucast c :: uint32) AND push_bit 24 (ucast d) = 0"
    "push_bit 8 (ucast b :: uint32) AND (push_bit 16 (ucast c) OR push_bit 24 (ucast d)) = 0"
    "(ucast a :: uint32) AND (push_bit 8 (ucast b) OR push_bit 16 (ucast c) OR push_bit 24 (ucast d)) = 0"
    by (rule bit_word_eqI; auto simp: bit_simps dest!: bit_imp_le_length)+
  show ?thesis
    unfolding multi_value_def using bits
    by (simp add: unat_disjoint_or pb cast)
qed

lemma numeral_copy: "copy_swapped Src Map 2 D = D[1 := Src ! unat (Map ! 1 AND 0x3), 0 := Src ! unat (Map ! 0 AND 0x3)]"
  "copy_swapped Src Map 4 D = D[3 := Src ! unat (Map ! 3 AND 0x3), 2 := Src ! unat (Map ! 2 AND 0x3),
     1 := Src ! unat (Map ! 1 AND 0x3), 0 := Src ! unat (Map ! 0 AND 0x3)]"
  by (simp_all add: eval_nat_numeral)

lemma copy_bytes:
  "LC_CopyBytesWithSwap 0 Src LC_16BIT_BE_VAL 2 = multi_value [Src ! 1, Src ! 0, 0, 0]"
  "LC_CopyBytesWithSwap 0 Src LC_16BIT_LE_VAL 2 = multi_value [Src ! 0, Src ! 1, 0, 0]"
  "LC_CopyBytesWithSwap 0 Src LC_32BIT_BE_VAL 4 = multi_value [Src ! 3, Src ! 2, Src ! 1, Src ! 0]"
  "LC_CopyBytesWithSwap 0 Src LC_32BIT_LE_VAL 4 = multi_value [Src ! 0, Src ! 1, Src ! 2, Src ! 3]"
  by (simp_all add: LC_CopyBytesWithSwap_def numeral_copy multi_bytes_def lc_const drop_bit_eq_div)

lemma take_nth:
  "Suc 0 \<le> length bs \<Longrightarrow> take (Suc 0) bs = [bs ! 0]" "2 \<le> length bs \<Longrightarrow> take 2 bs = [bs ! 0, bs ! 1]"
  "4 \<le> length bs \<Longrightarrow> take 4 bs = [bs ! 0, bs ! 1, bs ! 2, bs ! 3]"
  by (rule nth_equalityI; auto simp: less_Suc_eq numeral_eq_Suc)+

text \<open>Sign and zero extension keep the low bits.\<close>

lemma extend_low:
  fixes x :: "'a::len word"
  assumes "LENGTH('a) \<le> LENGTH('b::len)"
  shows "ucast (scast x :: 'b word) = x" "ucast (ucast x :: 'b word) = x"
  using assms by (auto intro!: bit_word_eqI simp: bit_simps)

lemma low_bits:
  fixes w :: "'b::len word"
  shows "take_bit LENGTH('a::len) (unat w) = unat (ucast w :: 'a word)"
  by (simp add: unsigned_ucast_eq)

lemma wp_format_cases:
  assumes "wp_format dt = Some (k, n, big)"
  obtains "dt = LC_DATA_WATCH_BYTE" "k = Signed" "n = 1" "\<not> big"
    | "dt = LC_DATA_WATCH_UBYTE" "k = Unsigned" "n = 1" "\<not> big"
    | "dt = LC_DATA_WATCH_WORD_BE" "k = Signed" "n = 2" "big"
    | "dt = LC_DATA_WATCH_WORD_LE" "k = Signed" "n = 2" "\<not> big"
    | "dt = LC_DATA_WATCH_UWORD_BE" "k = Unsigned" "n = 2" "big"
    | "dt = LC_DATA_WATCH_UWORD_LE" "k = Unsigned" "n = 2" "\<not> big"
    | "dt = LC_DATA_WATCH_DWORD_BE" "k = Signed" "n = 4" "big"
    | "dt = LC_DATA_WATCH_DWORD_LE" "k = Signed" "n = 4" "\<not> big"
    | "dt = LC_DATA_WATCH_UDWORD_BE" "k = Unsigned" "n = 4" "big"
    | "dt = LC_DATA_WATCH_UDWORD_LE" "k = Unsigned" "n = 4" "\<not> big"
    | "dt = LC_DATA_WATCH_FLOAT_BE" "k = Float" "n = 4" "big"
    | "dt = LC_DATA_WATCH_FLOAT_LE" "k = Float" "n = 4" "\<not> big"
  using assms by (auto simp: wp_format_def split: if_splits)

lemma sized_value:
  assumes "wp_format (DataType (WDT s ! i)) = Some (k, n, big)" "n \<le> length src"
  obtains v where "LC_GetSizedWPData i src s = ((True, v), s)" "take_bit (8 * n) (unat v) = wp_raw n big src"
proof -
  have ext8: "take_bit 8 (unat (scast x :: uint32)) = unat x" "take_bit 8 (unat (ucast x :: uint32)) = unat x" for x :: uint8
    using low_bits [where 'a = 8, of "scast x :: uint32"] low_bits [where 'a = 8, of "ucast x :: uint32"]
    by (simp_all add: extend_low)
  have ext16: "take_bit 16 (unat (scast x :: uint32)) = unat x" "take_bit 16 (unat (ucast x :: uint32)) = unat x" for x :: uint16
    using low_bits [where 'a = 16, of "scast x :: uint32"] low_bits [where 'a = 16, of "ucast x :: uint32"]
    by (simp_all add: extend_low)
  have two: "unat (ucast (multi_value [a, b, 0, 0]) :: uint16) = le_value [a, b]" for a b
    using le_value_less [of "[a, b]"] by (simp add: unat_ucast_small multi_value_unat)
  have four: "take_bit 32 (le_value [a, b, c, d]) = le_value [a, b, c, d]" for a b c d
    using le_value_less [of "[a, b, c, d]"] by (simp add: take_bit_nat_eq_self del: le_value.simps)
  have one: "le_value [a] = unat a" for a by simp
  note raw = wp_raw_def take_nth one two
  let ?v = "snd (fst (LC_GetSizedWPData i src s))"
  have "LC_GetSizedWPData i src s = ((True, ?v), s) \<and> take_bit (8 * n) (unat ?v) = wp_raw n big src"
    using assms(1)
    by (rule wp_format_cases; use assms(2) in \<open>simp add: LC_GetSizedWPData_def copy_bytes [unfolded lc_const]
          ext8 ext16 four raw multi_value_unat lc_const del: le_value.simps\<close>)
  then show thesis using that by blast
qed

subsection \<open>Comparisons\<close>

lemma bit_unat_iff: "bit (unat w) k \<longleftrightarrow> bit (w :: 'a::len word) k"
  by (auto simp: bit_unsigned_iff dest: bit_imp_le_length)

lemma sint_number: "sint (w :: 'a::len word) =
    (if 2 ^ (LENGTH('a) - 1) \<le> unat w then int (unat w) - 2 ^ LENGTH('a) else int (unat w))"
proof -
  have "unat w < 2 ^ LENGTH('a)" by (rule unsigned_less)
  also have "(2 :: nat) ^ LENGTH('a) = 2 * 2 ^ (LENGTH('a) - 1)" by (simp flip: power_Suc)
  finally have "unat w div 2 ^ (LENGTH('a) - 1) < 2" by (simp add: div_less_iff_less_mult mult.commute)
  then have "bit (unat w) (LENGTH('a) - 1) \<longleftrightarrow> unat w div 2 ^ (LENGTH('a) - 1) \<noteq> 0"
    unfolding bit_iff_odd by (auto simp: less_2_cases_iff)
  also have "\<dots> \<longleftrightarrow> 2 ^ (LENGTH('a) - 1) \<le> unat w" by (simp add: div_eq_0_iff not_less)
  finally have top: "bit (uint w) (LENGTH('a) - 1) \<longleftrightarrow> 2 ^ (LENGTH('a) - 1) \<le> unat w"
    by (simp add: bit_unat_iff bit_uint_iff)
  have "sint w = take_bit (Suc (LENGTH('a) - 1)) (uint w) - 2 ^ Suc (LENGTH('a) - 1) * of_bool (bit (uint w) (LENGTH('a) - 1))"
    unfolding sint_uint by (simp only: signed_take_bit_eq_take_bit_minus One_nat_def)
  also have "Suc (LENGTH('a) - 1) = LENGTH('a)" by simp
  also have "take_bit LENGTH('a) (uint w) = int (unat w)" using unsigned_less [of w, where ?'a = int] by (simp add: take_bit_int_eq_self)
  finally show ?thesis unfolding top by simp
qed

lemma low_cast:
  fixes w :: uint32
  shows "unat (ucast (w AND 0xFF) :: uint8) = take_bit 8 (unat w)" "unat (ucast (w AND 0xFFFF) :: uint16) = take_bit 16 (unat w)"
   "unat (ucast w :: uint8) = take_bit 8 (unat w)" "unat (ucast w :: uint16) = take_bit 16 (unat w)" "take_bit 32 (unat w) = unat w"
proof -
  have m: "(0xFF :: uint32) = mask 8" "(0xFFFF :: uint32) = mask 16" by (simp_all add: mask_eq_exp_minus_1)
  show "unat (ucast (w AND 0xFF) :: uint8) = take_bit 8 (unat w)" "unat (ucast (w AND 0xFFFF) :: uint16) = take_bit 16 (unat w)"
   "unat (ucast w :: uint8) = take_bit 8 (unat w)" "unat (ucast w :: uint16) = take_bit 16 (unat w)"
    by (simp_all add: m unsigned_ucast_eq unsigned_take_bit_eq flip: take_bit_eq_mask)
  have "unat w < 2 ^ LENGTH(32)" by (rule unsigned_less)
  then show "take_bit 32 (unat w) = unat w" by (simp add: take_bit_nat_eq_self)
qed
lemma up_cast:
  "sint (scast (x :: uint8) :: uint32) = sint x" "sint (scast (y :: uint16) :: uint32) = sint y"
  "unat (ucast x :: uint32) = unat x" "unat (ucast y :: uint32) = unat y"
  by (simp_all add: sint_up_scast is_up unat_ucast_up)

lemma wp_signed:
  "sint (w :: uint8) = wp_number Signed 1 (unat w)" "sint (v :: uint16) = wp_number Signed 2 (unat v)"
  "sint (u :: uint32) = wp_number Signed 4 (unat u)"
  by (simp_all add: wp_number_def sint_number)

lemma wp_unsigned: "wp_number Unsigned n v = int v"
  by (simp add: wp_number_def)

lemma signed_compare:
  "wp_relation (OperatorID (WDT s ! i)) (sint v) (sint c) = Some b \<Longrightarrow> LC_SignedCompare i v c s = (watch_bool b, s)"
  by (auto simp: wp_relation_def LC_SignedCompare_def lc_const split: if_splits)

lemma unsigned_compare:
  assumes "wp_relation (OperatorID (WDT s ! i)) (int (unat v)) (int (unat c)) = Some b"
  shows "LC_UnsignedCompare i v c s = (watch_bool b, s)"
proof -
  have rel: "v \<le> c \<longleftrightarrow> unat v \<le> unat c" "v < c \<longleftrightarrow> unat v < unat c" "c \<le> v \<longleftrightarrow> unat c \<le> unat v"
    "c < v \<longleftrightarrow> unat c < unat v" "v = c \<longleftrightarrow> unat v = unat c"
    by (simp_all add: word_le_nat_alt word_less_nat_alt word_unat_eq_iff)
  show ?thesis
    using assms unfolding wp_relation_def LC_UnsignedCompare_def rel of_nat_le_iff of_nat_less_iff of_nat_eq_iff
    by (auto simp: lc_const split: if_splits)
qed

lemma operator_compare:
  assumes "wp_format (DataType (WDT s ! i)) = Some (k, n, big)" "k \<noteq> Float"
    "wp_relation (OperatorID (WDT s ! i)) (wp_number k n (take_bit (8 * n) (unat w)))
      (wp_number k n (take_bit (8 * n) (unat (ComparisonValue (WDT s ! i))))) = Some b"
  shows "LC_OperatorCompare i w s = (watch_bool b, s)"
proof -
  have "take_bit 8 (unat (v AND 0xFF)) = take_bit 8 (unat v)" "take_bit 16 (unat (v AND 0xFFFF)) = take_bit 16 (unat v)"
    for v :: uint32 using low_cast(3,4) [of "v AND 0xFF"] low_cast(3,4) [of "v AND 0xFFFF"] low_cast(1,2) [of v] by simp_all
  note casts = up_cast low_cast(3-5) this
  have sg: "LC_SignedCompare i v c s = (watch_bool b, s)"
    if "k = Signed" "sint v = wp_number k n (take_bit (8 * n) (unat w))"
      "sint c = wp_number k n (take_bit (8 * n) (unat (ComparisonValue (WDT s ! i))))" for v c
    using assms(3) that by (intro signed_compare) simp
  have us: "LC_UnsignedCompare i v c s = (watch_bool b, s)"
    if "k = Unsigned" "unat v = take_bit (8 * n) (unat w)" "unat c = take_bit (8 * n) (unat (ComparisonValue (WDT s ! i)))" for v c
    using assms(3) that by (intro unsigned_compare) (simp add: wp_unsigned)
  have small: "sint (scast x :: uint32) = wp_number Signed (Suc 0) (unat x)"
    "sint (scast y :: uint32) = wp_number Signed 2 (unat y)" for x :: uint8 and y :: uint16
    using wp_signed(1,2) by (simp_all add: up_cast)
  show ?thesis
    using assms(1)
    by (rule wp_format_cases; use assms(2) in \<open>simp add: LC_OperatorCompare_def lc_const\<close>)
       (rule sg us, simp, (simp add: small casts | simp add: wp_signed(3) casts)+)+
qed

subsection \<open>A whole evaluation\<close>

definition msg_length :: "message \<Rightarrow> nat" where
  "msg_length Buf = 256 * unat (Buf ! 4) + unat (Buf ! 5) + 7"

lemma get_size: "\<exists>w. CFE_MSG_GetSize (Some Buf) True = Inr w \<and> unat w = msg_length Buf"
proof -
  have lt: "unat (Buf ! k) < 2 ^ LENGTH(8)" for k by (rule unsigned_less)
  have cast: "unat (ucast (Buf ! k) :: size_t) = unat (Buf ! k)" for k by (rule unat_ucast_up) simp
  have p: "unat (push_bit 8 (ucast (Buf ! 4)) :: size_t) = 256 * unat (Buf ! 4)"
    using lt [of 4] by (subst unsigned_push_bit_eq) (simp add: cast push_bit_eq_mult take_bit_nat_eq_self)
  let ?h = "push_bit 8 (ucast (Buf ! 4)) :: size_t" and ?l = "ucast (Buf ! 5) :: size_t"
  have "unat ?h + unat ?l < 2 ^ LENGTH(64)" using lt [of 4] lt [of 5] unfolding p cast by simp
  from unat_plus_small [OF this] have hl: "unat (?h + ?l) = 256 * unat (Buf ! 4) + unat (Buf ! 5)"
    unfolding p cast .
  have "unat (?h + ?l + CFE_MSG_SIZE_OFFSET) = unat (?h + ?l) + unat CFE_MSG_SIZE_OFFSET"
    using lt [of 4] lt [of 5] by (intro unat_plus_small) (simp add: hl CFE_MSG_SIZE_OFFSET_def)
  then have "unat (?h + ?l + CFE_MSG_SIZE_OFFSET) = msg_length Buf"
    by (simp add: hl CFE_MSG_SIZE_OFFSET_def msg_length_def)
  then show ?thesis by (simp add: CFE_MSG_GetSize_def)
qed

lemma msg_length_less: "msg_length Buf < 2 ^ 32"
proof -
  have lt: "unat b < 256" for b :: uint8 using unsigned_less [of b] by simp
  have "256 * unat (Buf ! 4) + unat (Buf ! 5) + 7 < 4294967296" using lt [of "Buf ! 4"] lt [of "Buf ! 5"] by linarith
  then show ?thesis by (simp add: msg_length_def)
qed

lemma wp_num_bytes_format:
  assumes "wp_format dt = Some (k, n, big)"
  shows "wp_num_bytes dt = Some (of_nat n)"
  using assms by (rule wp_format_cases) (simp_all add: wp_num_bytes_def lc_const)

text \<open>The sum of offset and size is taken modulo \<open>2 ^ 32\<close>.\<close>

lemma offset_valid:
  assumes "wp_format (DataType (WDT s ! i)) = Some (k, n, big)"
  shows "LC_WPOffsetValid i Buf s =
    (if msg_length Buf < (unat (WatchpointOffset (WDT s ! i)) + n) mod 2 ^ 32
     then (False, watch_error i LC_WP_OFFSET_ERR_EID s) else (True, s))"
proof -
  obtain w where w: "CFE_MSG_GetSize (Some Buf) True = Inr w" "unat w = msg_length Buf" using get_size by blast
  have "n < 2 ^ 32" using assms by (rule wp_format_cases) auto
  then have "unat (of_nat n :: uint32) = n" by (simp add: unat_of_nat_small)
  then have "unat (ucast (WatchpointOffset (WDT s ! i) + of_nat n) :: size_t) = (unat (WatchpointOffset (WDT s ! i)) + n) mod 2 ^ 32"
    by (simp add: unat_ucast_up unat_word_ariths)
  then have "w < ucast (WatchpointOffset (WDT s ! i) + of_nat n) \<longleftrightarrow>
      msg_length Buf < (unat (WatchpointOffset (WDT s ! i)) + n) mod 2 ^ 32"
    by (simp add: word_less_nat_alt w(2))
  then show ?thesis by (simp add: LC_WPOffsetValid_def wp_num_bytes_format [OF assms] w(1) Let_def)
qed

lemma take_bit_and_mask: "take_bit m (unat (v AND b)) = take_bit m (unat (v :: 'a::len word)) AND take_bit m (unat b)"
  by (simp add: unsigned_and_eq)

text \<open>The value that is compared: the number in the message with the bits of the mask.\<close>

definition wp_masked :: "LC_WDTEntry \<Rightarrow> nat \<Rightarrow> bool \<Rightarrow> message \<Rightarrow> nat" where
  "wp_masked d n big Buf =
     wp_raw n big (drop (unat (WatchpointOffset d)) Buf) AND take_bit (8 * n) (unat (BitMask d))"

definition wp_holds :: "LC_WDTEntry \<Rightarrow> wp_kind \<Rightarrow> nat \<Rightarrow> bool \<Rightarrow> message \<Rightarrow> bool option" where
  "wp_holds d k n big Buf = wp_relation (OperatorID d) (wp_number k n (wp_masked d n big Buf))
     (wp_number k n (take_bit (8 * n) (unat (ComparisonValue d))))"

lemma process_integer:
  assumes "wp_format (DataType (WDT s ! i)) = Some (k, n, big)" "k \<noteq> Float"
    "wp_holds (WDT s ! i) k n big Buf = Some b" "unat (WatchpointOffset (WDT s ! i)) + n \<le> length Buf"
  shows "\<exists>v. take_bit (8 * n) (unat v) = wp_masked (WDT s ! i) n big Buf \<and>
    LC_ProcessWP i Buf ts s = upd_wrt i (record_result (WDT s ! i) (watch_bool b) v ts) s"
proof -
  let ?d = "WDT s ! i"
  have "n \<le> length (drop (unat (WatchpointOffset ?d)) Buf)" using assms(4) by simp
  from sized_value [OF assms(1) this] obtain v where
    v: "LC_GetSizedWPData i (drop (unat (WatchpointOffset ?d)) Buf) s = ((True, v), s)"
    "take_bit (8 * n) (unat v) = wp_raw n big (drop (unat (WatchpointOffset ?d)) Buf)" by blast
  have m: "take_bit (8 * n) (unat (v AND BitMask ?d)) = wp_masked ?d n big Buf"
    unfolding take_bit_and_mask v(2) wp_masked_def ..
  have oper: "OperatorID ?d \<noteq> LC_OPER_CUSTOM"
    using assms(3) by (auto simp: wp_holds_def wp_relation_def lc_const)
  have "LC_OperatorCompare i (v AND BitMask ?d) s = (watch_bool b, s)"
    by (rule operator_compare [OF assms(1,2)]) (use assms(3) in \<open>simp add: wp_holds_def m\<close>)
  then show ?thesis
    using m oper by (intro exI [of _ "v AND BitMask ?d"]) (simp add: LC_ProcessWP_def v(1) Let_def)
qed

lemma check_integer:
  assumes "wp_format (DataType (WDT s ! i)) = Some (k, n, big)" "unat (WatchpointOffset (WDT s ! i)) + n < 2 ^ 32"
  shows "msg_length Buf < unat (WatchpointOffset (WDT s ! i)) + n \<Longrightarrow>
      check_watchpoint Buf ts i s = watch_error i LC_WP_OFFSET_ERR_EID s"
    and "unat (WatchpointOffset (WDT s ! i)) + n \<le> msg_length Buf \<Longrightarrow> msg_length Buf \<le> length Buf \<Longrightarrow> k \<noteq> Float \<Longrightarrow>
      wp_holds (WDT s ! i) k n big Buf = Some b \<Longrightarrow>
      \<exists>v. take_bit (8 * n) (unat v) = wp_masked (WDT s ! i) n big Buf \<and>
        check_watchpoint Buf ts i s = upd_wrt i (record_result (WDT s ! i) (watch_bool b) v ts) s"
  using process_integer [OF assms(1), of Buf b ts] assms(2)
  by (simp_all add: check_watchpoint_def offset_valid [OF assms(1)])

end
