(* ===== verification/Lc_Properties.thy ===== *)
theory Lc_Properties
  imports Lc_Start Lc_Value
begin

section \<open>Limit checker: properties\<close>

text \<open>
  What the limit checker promises from a message to a request: the table of monitored messages leads each
  message to its watchpoints, a watchpoint is the relation of its definition, an equation has the value of
  the expression it is the postfix form of, and an actionpoint that keeps failing requests its sequence
  once. The witnesses run on a state with one actionpoint, whose equation is watchpoint 0.
\<close>

definition demo_wdt :: LC_WDTEntry where
  "demo_wdt = \<lparr>DataType = LC_DATA_WATCH_UWORD_BE, OperatorID = LC_OPER_GT, WDT_MessageID = 0x0801, WatchpointOffset = 12,
     BitMask = 0xFFFFFFFF, ComparisonValue = 100, ResultAgeWhenStale = 3, CustomFuncArgument = 0\<rparr>"

definition demo_transition :: LC_WRTTransition where
  "demo_transition = \<lparr>TransitionValue = 0, TransitionDataType = 0, TransitionTime = \<lparr>Seconds = 0, Subseconds = 0\<rparr>\<rparr>"

definition demo_wrt :: LC_WRTEntry where
  "demo_wrt = \<lparr>WatchResult = LC_WATCH_TRUE, CountdownToStale = 2, EvaluationCount = 1, FalseToTrueCount = 1,
     ConsecutiveTrueCount = 1, CumulativeTrueCount = 1, LastFalseToTrue = demo_transition,
     LastTrueToFalse = demo_transition\<rparr>"

definition demo_adt :: "uint16 \<Rightarrow> LC_ADTEntry" where
  "demo_adt r = \<lparr>DefaultState = LC_APSTATE_ACTIVE, MaxPassiveEvents = 2, MaxPassFailEvents = 2, MaxFailPassEvents = 2,
     RTSId = r, MaxFailsBeforeRTS = 2, RPNEquation = [0, LC_RPN_EQUAL], EventType = CFE_EVS_EventType_ERROR, EventID = 1000,
     EventText = []\<rparr>"

definition demo_art :: LC_ARTEntry where
  "demo_art = \<lparr>ActionResult = LC_ACTION_PASS, CurrentState = LC_APSTATE_ACTIVE, PassiveAPCount = 0, FailToPassCount = 0,
     PassToFailCount = 0, ConsecutiveFailCount = 0, CumulativeFailCount = 0, CumulativeRTSExecCount = 0,
     CumulativeEventMsgsSent = 0\<rparr>"

definition demo_lc :: lc where
  "demo_lc = lc_zero\<lparr>CurrentLCState := LC_STATE_ACTIVE, WDT := replicate LC_MAX_WATCHPOINTS demo_wdt,
     WRT := replicate LC_MAX_WATCHPOINTS demo_wrt, ADT := demo_adt 7 # replicate (LC_MAX_ACTIONPOINTS - 1) (demo_adt 8),
     ART := replicate LC_MAX_ACTIONPOINTS demo_art\<rparr>"

text \<open>A request to sample the first actionpoint.\<close>

definition demo_sample :: lc_input where
  "demo_sample = \<lparr>In_Status = CFE_SUCCESS, In_Buffer = [0x18, 0x1F, 0xC0, 0, 0, 9, 0, 0, 0, 0, 0, 0, 1, 0, 0, 0],
     In_Now = \<lparr>Seconds = 1, Subseconds = 0\<rparr>,
     In_Services = \<lparr>WDT_Status = CFE_SUCCESS, WDT_Data = WDT demo_lc, ADT_Status = CFE_SUCCESS, ADT_Data = ADT demo_lc,
       WRT_CopyStatus = CFE_SUCCESS, ART_CopyStatus = CFE_SUCCESS, App_CopyStatus = CFE_SUCCESS,
       SubscribeStatus = (\<lambda>_. CFE_SUCCESS), UnsubscribeStatus = (\<lambda>_. CFE_SUCCESS)\<rparr>\<rparr>"

lemma demo_fields:
  "WRT demo_lc = replicate LC_MAX_WATCHPOINTS demo_wrt" "ART demo_lc = replicate LC_MAX_ACTIONPOINTS demo_art"
  "WDT demo_lc = replicate LC_MAX_WATCHPOINTS demo_wdt" "CurrentLCState demo_lc = LC_STATE_ACTIVE"
  "ADT demo_lc = demo_adt 7 # replicate (LC_MAX_ACTIONPOINTS - 1) (demo_adt 8)" "transmits demo_lc = []"
  by (simp_all add: demo_lc_def lc_zero_def transmits_def)

lemma demo_ok: "results_ok (WRT demo_lc)" "RPNEquation (ADT demo_lc ! 0) = postfix (Watch 0) @ LC_RPN_EQUAL # []"
  "valid_expr (Watch 0)" "ap_active 0 demo_lc" "sole_ap 0 7 demo_lc" "value_of (WRT demo_lc) (Watch 0) = LC_WATCH_TRUE"
  by (simp_all add: demo_fields results_ok_def watch_results_def demo_wrt_def demo_art_def demo_adt_def ap_active_def
      sole_ap_def lc_const nth_Cons split: nat.split)

subsection \<open>Requests\<close>

text \<open>
  C26 While the actionpoint \<open>i\<close> is the only one that requests sequence \<open>r\<close>, no run of the main loop requests it
  more often than once, and not at all if \<open>i\<close> is not active at the start, unless a command activates \<open>i\<close> or a
  new definition table is loaded. The run may hold any messages, samples, commands and timeouts, and
  arbitrarily many failures.
\<close>

theorem rts_requested_once:
  assumes "lc_loop xs s = Some (st, s')" "sole_ap i r s" "\<forall>x\<in>set xs. quiet_input i (ADT s) x"
  shows "requests r s' \<le> requests r s + of_bool (ap_active i s)"
  using loop_no_more [OF assms(2,3,1)] by (simp add: no_more_def rts_credit_def)

theorem rts_requested_once_witness:
  "requests 7 (snd (the (lc_loop [demo_sample, demo_sample, demo_sample] demo_lc))) \<le> requests 7 demo_lc + 1"
proof -
  have "CFE_MSG_GetMsgId (Some (In_Buffer demo_sample)) True = Inr LC_SAMPLE_AP_MID" by code_simp
  moreover have "In_Status demo_sample = CFE_SUCCESS" by (simp add: demo_sample_def)
  ultimately have round: "\<exists>s'. lc_round demo_sample s = Some (CFE_SUCCESS, s')" for s
    unfolding lc_round_def LC_AppPipe_def Let_def by simp
  have step: "\<exists>s'. \<forall>xs. lc_loop (demo_sample # xs) s = lc_loop xs s'" for s
    using round [of s] by auto
  obtain s' where s': "lc_loop [demo_sample, demo_sample, demo_sample] demo_lc = Some (CFE_SUCCESS, s')"
    using step by (metis lc_loop.simps(1))
  have quiet: "quiet_input 0 (ADT demo_lc) demo_sample"
    by (simp add: quiet_input_def activates_def same_adt_def demo_sample_def) code_simp
  show ?thesis
    using rts_requested_once [OF s' demo_ok(5)] quiet demo_ok(4) unfolding s' by simp
qed

text \<open>
  C27 An active actionpoint whose expression stays true, and which has not failed often enough yet, becomes passive at
  the sample at which its consecutive failures reach the limit of its definition, and stays passive. If the
  application is active, its sequence is requested at that sample and at no other; if the application is passive or
  disabled, nothing is requested at all. Before that sample the actionpoint is active and requests nothing. The count of
  failures does not wrap.
\<close>

theorem persistent_failure:
  assumes "i < length (ART s)" "ap_active i s"
    and "results_ok (WRT s)" "valid_expr e" "RPNEquation (ADT s ! i) = postfix e @ LC_RPN_EQUAL # rest"
    and "value_of (WRT s) e = LC_WATCH_TRUE"
    and "unat (ConsecutiveFailCount (ART s ! i)) < unat (MaxFailsBeforeRTS (ADT s ! i))"
    and "unat (ConsecutiveFailCount (ART s ! i)) + n < 2 ^ 32"
  defines "due \<equiv> unat (MaxFailsBeforeRTS (ADT s ! i)) \<le> unat (ConsecutiveFailCount (ART s ! i)) + n"
    and "t \<equiv> (LC_SampleSingleAP i ^^ n) s"
  shows "transmits t = transmits s
      @ (if due \<and> CurrentLCState s = LC_STATE_ACTIVE then [rts_message (RTSId (ADT s ! i))] else []) \<and>
    CurrentState (ART t ! i) = (if due then LC_APSTATE_PASSIVE else LC_APSTATE_ACTIVE)"
proof -
  have "fst (LC_EvaluateRPN i s) = LC_ACTION_FAIL"
    using evaluate_postfix [OF assms(3-5)] assms(6) by (simp add: action_of_def)
  then show ?thesis
    using failing_samples [OF assms(1,2) _ assms(8)] assms(7) by (auto simp: failing_after_def Let_def due_def t_def)
qed

theorem persistent_failure_witness:
  "transmits ((LC_SampleSingleAP 0 ^^ 1) demo_lc) = [] \<and>
   transmits ((LC_SampleSingleAP 0 ^^ 3) demo_lc) = [[0x18, 0xA9, 0xC0, 0, 0, 5, 4, 0, 7, 0, 0, 0]]"
proof -
  have demo: "0 < length (ART demo_lc)" "RTSId (ADT demo_lc ! 0) = 7"
    "unat (ConsecutiveFailCount (ART demo_lc ! 0)) = 0" "unat (MaxFailsBeforeRTS (ADT demo_lc ! 0)) = 2"
    by (simp_all add: demo_fields demo_art_def demo_adt_def lc_const)
  note run = persistent_failure [OF demo(1) demo_ok(4) demo_ok(1,3,2,6)]
  have "rts_message 7 = [0x18, 0xA9, 0xC0, 0, 0, 5, 4, 0, 7, 0, 0, 0]" by code_simp
  then show ?thesis using run [of 1] run [of 3] by (simp add: demo demo_fields(4,6))
qed

subsection \<open>Equations\<close>

text \<open>
  C28 The validation of the definition table accepts an equation if and only if it begins with the postfix form
  of an expression over the watchpoints and the end mark. Sampling computes the value of that expression,
  with errors and stale results carried along, and reports nothing; a rejected equation never passes or fails.
\<close>

theorem rpn_evaluation:
  fixes i :: nat
  assumes "results_ok (WRT s)"
  defines "eqn \<equiv> RPNEquation (ADT s ! i)"
  shows "(LC_ValidateRPN eqn = LC_ADTVAL_ERR_NONE \<longleftrightarrow> (\<exists>e rest. eqn = postfix e @ LC_RPN_EQUAL # rest \<and> valid_expr e)) \<and>
    (\<forall>e rest. valid_expr e \<and> eqn = postfix e @ LC_RPN_EQUAL # rest \<longrightarrow>
       LC_EvaluateRPN i s = (action_of (value_of (WRT s) e), s)) \<and>
    (LC_ValidateRPN eqn = LC_ADTVAL_ERR_NONE \<or> fst (LC_EvaluateRPN i s) \<in> {LC_ACTION_ERROR, LC_ACTION_STALE})"
proof -
  have "fst (LC_EvaluateRPN i s) \<in> {LC_ACTION_ERROR, LC_ACTION_STALE}" if "LC_ValidateRPN eqn \<noteq> LC_ADTVAL_ERR_NONE"
  proof (cases "eqn = []")
    case True
    then show ?thesis by (simp add: eqn_def LC_EvaluateRPN_def Let_def lc_const)
  qed (use that evaluate_rejected [of s i] in \<open>simp add: eqn_def\<close>)
  then show ?thesis
    unfolding validate_iff using evaluate_postfix [OF assms(1), of _ i] by (auto simp: eqn_def)
qed

theorem rpn_evaluation_witness:
  "LC_EvaluateRPN 0 demo_lc = (LC_ACTION_FAIL, demo_lc)"
proof -
  have "LC_EvaluateRPN 0 demo_lc = (action_of (value_of (WRT demo_lc) (Watch 0)), demo_lc)"
    using rpn_evaluation [OF demo_ok(1), of 0] demo_ok(2,3) by blast
  then show ?thesis by (simp only: demo_ok(6)) (simp add: action_of_def)
qed

subsection \<open>Messages and watchpoints\<close>

text \<open>
  C29 Building the table of monitored messages always ends. It removes the old subscriptions, subscribes once
  to each message ID of the definition table, and afterwards a message with any ID is handled as a search of the whole
  definition table would do it: the watchpoints with that ID are evaluated in the order of their numbers,
  and a message that none of them watches is only reported. The walks along the lists end.
\<close>

theorem monitored_messages:
  "\<exists>s'. LC_CreateHashTable sub unsub s = Some s' \<and> WDT s' = WDT s \<and>
     LC_Out s' = LC_Out s
       @ unsubscriptions unsub (map (\<lambda>k. ML_MessageID (MessageLinks s ! k)) [0..<unat (MessageIDsCount s)])
       @ subscriptions sub (first_ids (used_watchpoints (WDT s))) \<and>
     (\<forall>t now m Buf. same_table s' t \<longrightarrow> LC_CheckMsgForWPs now m Buf t = Some (check_message now m Buf t))"
proof -
  obtain s' where s': "LC_CreateHashTable sub unsub s = Some s'" "table_for (used_watchpoints (WDT s)) s'" "WDT s' = WDT s"
    "LC_Out s' = LC_Out s
       @ unsubscriptions unsub (map (\<lambda>k. ML_MessageID (MessageLinks s ! k)) [0..<unat (MessageIDsCount s)])
       @ subscriptions sub (first_ids (used_watchpoints (WDT s)))"
    using create_table [of sub unsub s] by blast
  have "LC_CheckMsgForWPs now m Buf t = Some (check_message now m Buf t)" if "same_table s' t" for t now m Buf
    using s' same_tableD [OF that] by (intro check_msg_reference) simp
  then show ?thesis using s' by blast
qed

theorem monitored_messages_witness:
  "\<exists>s'. LC_CreateHashTable (\<lambda>_. CFE_SUCCESS) (\<lambda>_. CFE_SUCCESS) demo_lc = Some s' \<and>
     LC_CheckMsgForWPs \<lparr>Seconds = 1, Subseconds = 0\<rparr> 0x0801 [] s'
       = Some (check_message \<lparr>Seconds = 1, Subseconds = 0\<rparr> 0x0801 [] s')"
  using monitored_messages [of "\<lambda>_. CFE_SUCCESS" "\<lambda>_. CFE_SUCCESS" demo_lc] same_table_refl by blast

text \<open>
  C30 A message that holds the value of an integer watchpoint gives the result that the definition states: the
  bytes at the offset, in the byte order and with the sign of the data type, masked, are related to the constant
  of the same size. A message that is too short gives an error. Nothing else changes.
\<close>

theorem watchpoint_evaluation:
  assumes "wp_format (DataType (WDT s ! i)) = Some (k, n, big)" "k \<noteq> Float"
    and "unat (WatchpointOffset (WDT s ! i)) + n < 2 ^ 32" "msg_length Buf \<le> length Buf"
    and "wp_holds (WDT s ! i) k n big Buf = Some b"
  shows "if msg_length Buf < unat (WatchpointOffset (WDT s ! i)) + n
    then check_watchpoint Buf ts i s = watch_error i LC_WP_OFFSET_ERR_EID s
    else \<exists>v. take_bit (8 * n) (unat v) = wp_masked (WDT s ! i) n big Buf \<and>
      check_watchpoint Buf ts i s = upd_wrt i (record_result (WDT s ! i) (watch_bool b) v ts) s"
  using check_integer [OF assms(1,3), where Buf = Buf and ts = ts] assms(2,4,5) by simp

theorem watchpoint_evaluation_witness:
  "\<exists>v. take_bit 16 (unat v) = 300 \<and>
     check_watchpoint [0x08, 1, 0xC0, 0, 0, 7, 0, 0, 0, 0, 0, 0, 1, 44] \<lparr>Seconds = 1, Subseconds = 0\<rparr> 0 demo_lc
     = upd_wrt 0 (record_result demo_wdt LC_WATCH_TRUE v \<lparr>Seconds = 1, Subseconds = 0\<rparr>) demo_lc"
proof -
  let ?m = "[0x08, 1, 0xC0, 0, 0, 7, 0, 0, 0, 0, 0, 0, 1, 44] :: message"
  have d: "WDT demo_lc ! 0 = demo_wdt" by (simp add: demo_fields lc_const)
  have "wp_format (DataType demo_wdt) = Some (Unsigned, 2, True)" "unat (WatchpointOffset demo_wdt) = 12"
    "msg_length ?m = 14"
    by (simp_all add: wp_format_def demo_wdt_def msg_length_def lc_const)
  moreover have masked: "wp_masked demo_wdt 2 True ?m = 300"
    by (simp add: wp_masked_def wp_raw_def demo_wdt_def)
  moreover have "wp_holds demo_wdt Unsigned 2 True ?m = Some True"
    unfolding wp_holds_def masked by (simp add: wp_relation_def wp_number_def demo_wdt_def lc_const)
  ultimately show ?thesis
    using watchpoint_evaluation [of demo_lc 0 Unsigned 2 True ?m True "\<lparr>Seconds = 1, Subseconds = 0\<rparr>"]
    by (simp add: d watch_bool_def)
qed

text \<open>
  C32 The check of the offset is made modulo \<open>2^32\<close>: an entry whose value would end exactly at that bound is
  accepted for every message, although the value lies outside of it, and the validation of the
  definition table looks at no offset.
\<close>

theorem offset_check_wraps:
  assumes "wp_format (DataType (WDT s ! i)) = Some (k, n, big)"
  defines "offset \<equiv> unat (WatchpointOffset (WDT s ! i))"
  shows "(fst (LC_WPOffsetValid i Buf s) \<longleftrightarrow> (offset + n) mod 2 ^ 32 \<le> msg_length Buf) \<and>
    (offset + n = 2 ^ 32 \<longrightarrow> fst (LC_WPOffsetValid i Buf s) \<and> msg_length Buf < offset) \<and>
    validate_wdt_entry (w\<lparr>WatchpointOffset := x\<rparr>) = validate_wdt_entry w"
proof -
  have byte: "unat (b :: uint8) < 256" for b using unsigned_less [of b, where ?'a = nat] by simp
  have "msg_length Buf < 2 ^ 16 + 8"
    using byte [of "Buf ! 4"] byte [of "Buf ! 5"] unfolding msg_length_def by simp
  moreover have "n \<le> 4" using assms(1) by (rule wp_format_cases) auto
  ultimately have "offset + n = 2 ^ 32 \<longrightarrow> msg_length Buf < offset" by simp
  moreover have "fst (LC_WPOffsetValid i Buf s) \<longleftrightarrow> (offset + n) mod 2 ^ 32 \<le> msg_length Buf"
    unfolding offset_valid [OF assms(1)] offset_def by (simp add: not_less)
  moreover have "validate_wdt_entry (w\<lparr>WatchpointOffset := x\<rparr>) = validate_wdt_entry w"
    by (cases w) (simp only: validate_wdt_entry_def LC_WDTEntry.select_convs LC_WDTEntry.update_convs)
  ultimately show ?thesis by simp
qed

theorem offset_check_wraps_witness:
  "fst (LC_WPOffsetValid 0 [0x08, 1, 0xC0, 0, 0, 7] (demo_lc\<lparr>WDT := [demo_wdt\<lparr>WatchpointOffset := 0xFFFFFFFE\<rparr>]\<rparr>)) \<and>
   validate_wdt_entry (demo_wdt\<lparr>WatchpointOffset := 0xFFFFFFFE\<rparr>) = validate_wdt_entry demo_wdt"
proof -
  let ?s = "demo_lc\<lparr>WDT := [demo_wdt\<lparr>WatchpointOffset := 0xFFFFFFFE\<rparr>]\<rparr>"
  have "wp_format (DataType (WDT ?s ! 0)) = Some (Unsigned, 2, True)" "unat (WatchpointOffset (WDT ?s ! 0)) + 2 = 2 ^ 32"
    by (simp_all add: wp_format_def demo_wdt_def lc_const)
  then show ?thesis using offset_check_wraps [of ?s 0 Unsigned 2 True "[0x08, 1, 0xC0, 0, 0, 7]"] by simp
qed

subsection \<open>Age of the results and telemetry\<close>

text \<open>
  While the application is not disabled, the result of a watchpoint becomes stale at the sample request that
  ends its countdown, and not before. Only the valid requests that ask for ageing count, and a countdown of zero
  never makes a result stale.
\<close>

lemma results_become_stale:
  fixes qs :: "(uint16 \<times> uint16 \<times> uint16) list"
  assumes "length (WRT s) = LC_MAX_WATCHPOINTS" "CurrentLCState s \<noteq> LC_STATE_DISABLED" "k < LC_MAX_WATCHPOINTS"
  defines "n \<equiv> length (filter ages qs)" and "c \<equiv> unat (CountdownToStale (WRT s ! k))"
    and "t \<equiv> fold request_sample qs s"
  shows "WatchResult (WRT t ! k) = (if 0 < c \<and> c \<le> n then LC_WATCH_STALE else WatchResult (WRT s ! k)) \<and>
    unat (CountdownToStale (WRT t ! k)) = c - n"
proof -
  have "WRT t = map (aged n) (WRT s)" using requests_age [OF assms(1,2), of qs] by (simp add: wp_frame_def t_def n_def)
  then have "WRT t ! k = aged n (WRT s ! k)" using assms(1,3) by simp
  moreover have "c - n < 2 ^ LENGTH(32)"
    using unsigned_less [of "CountdownToStale (WRT s ! k)", where ?'a = nat] unfolding c_def by linarith
  from unat_of_nat_small [OF this] have "unat (of_nat (c - n) :: uint32) = c - n" .
  ultimately show ?thesis by (simp add: aged_def c_def word_less_nat_alt)
qed

lemma results_become_stale_witness:
  "WatchResult (WRT (fold request_sample [(0, 5, 1), (0, 0xFFFF, 1), (7, 9, 0), (0xFFFF, 0xFFFF, 1)] demo_lc) ! 175)
     = LC_WATCH_STALE"
proof -
  have "length (filter ages [(0, 5, 1), (0, 0xFFFF, 1), (7, 9, 0), (0xFFFF, 0xFFFF, 1)]) = 2"
    "unat (CountdownToStale demo_wrt) = 2" by (simp_all add: ages_def demo_wrt_def lc_const)
  then show ?thesis
    using results_become_stale [of demo_lc 175 "[(0, 5, 1), (0, 0xFFFF, 1), (7, 9, 0), (0xFFFF, 0xFFFF, 1)]"]
    by (simp add: demo_fields lc_const)
qed

text \<open>
  C31 The housekeeping packet tells every watchpoint result, every actionpoint result and the state of every
  actionpoint exactly, where an actionpoint that is permanently off is shown as unused.
\<close>

theorem housekeeping_round_trip:
  assumes "k < LC_MAX_WATCHPOINTS" "j < LC_MAX_ACTIONPOINTS"
    and "WatchResult (WRT s ! k) \<in> watch_results"
    and "ActionResult (ART s ! j) \<in> {LC_ACTION_STALE, LC_ACTION_PASS, LC_ACTION_FAIL, LC_ACTION_ERROR}"
    and "CurrentState (ART s ! j) \<in>
      {LC_APSTATE_NOT_USED, LC_APSTATE_ACTIVE, LC_APSTATE_PASSIVE, LC_APSTATE_DISABLED, LC_APSTATE_PERMOFF}"
  defines "p \<equiv> hk_payload s"
  shows "shown_result (hk_watch p k) = WatchResult (WRT s ! k) \<and> shown_result (hk_action p j) = ActionResult (ART s ! j) \<and>
    shown_state (hk_state p j) = (if CurrentState (ART s ! j) = LC_APSTATE_PERMOFF then LC_APSTATE_NOT_USED
      else CurrentState (ART s ! j))"
  using assms(3-5) unfolding p_def hk_watch_value [OF assms(1)] hk_action_value [OF assms(2)]
  by (auto simp: shown_result_def shown_state_def hk_watch_code_def hk_action_code_def hk_state_code_def
      watch_results_def lc_const)

theorem housekeeping_round_trip_witness:
  "shown_result (hk_watch (hk_payload demo_lc) 175) = LC_WATCH_TRUE \<and>
   shown_state (hk_state (hk_payload demo_lc) 3) = LC_APSTATE_ACTIVE"
  using housekeeping_round_trip [of 175 3 demo_lc]
  by (simp add: demo_fields demo_wrt_def demo_art_def watch_results_def lc_const)

subsection \<open>Start-up\<close>

text \<open>
  C33 The initialisation always ends. If it succeeds, the definition tables are the loaded ones, the table of
  monitored messages belongs to them, and the results are those of the last run if all of them could be restored,
  and fresh otherwise. The application is then active, whatever the configured state after a power-on reset
  and whatever the saved state.
\<close>

theorem start_up:
  assumes "boot_ok b"
  shows "\<exists>st s. LC_AppInit b = Some (st, s) \<and> CurrentLCState s = LC_STATE_ACTIVE \<and>
    (st = CFE_SUCCESS \<longrightarrow> tables_filled b s \<and>
       (\<forall>t now m Buf. same_table s t \<longrightarrow> LC_CheckMsgForWPs now m Buf t = Some (check_message now m Buf t)))"
proof -
  obtain st0 s0 where s0: "on_success (LC_SbInit b) (LC_EvsInit b lc_zero) = (st0, s0)" by fastforce
  have zero: "restored_flags lc_zero = [False, False, False, False, False]" "\<not> HaveActiveCDS lc_zero" "CDSSavedOnExit lc_zero = 0"
    by (simp_all add: lc_zero_def restored_flags_def has_flag_def lc_const)
  have s0': "restored_flags s0 = [False, False, False, False, False]" "\<not> HaveActiveCDS s0" "CDSSavedOnExit s0 = 0"
    using s0 zero bus_ready [of b lc_zero] by (auto simp: LC_EvsInit_def on_success_def split: if_splits)
  obtain st s where s: "LC_TableInit b s0 = Some (st, s)"
    "st = CFE_SUCCESS \<longrightarrow> tables_filled b s \<and> table_for (used_watchpoints (WDT s)) s"
    using table_init_result [OF assms s0'] by blast
  define u where "u = (if st = CFE_SUCCESS then CFE_EVS_SendEvent_LC LC_INIT_INF_EID s else s)\<lparr>CurrentLCState := LC_STATE_ACTIVE\<rparr>"
  have "same_table s u" "tables_filled b u = tables_filled b s"
    by (simp_all add: u_def same_table_def tables_filled_def lc_send_def)
  then have u: "st = CFE_SUCCESS \<longrightarrow> tables_filled b u \<and> table_for (used_watchpoints (WDT u)) u"
    using s(2) same_tableD(1,7) by metis
  have "LC_CheckMsgForWPs now m Buf t = Some (check_message now m Buf t)" if "st = CFE_SUCCESS" "same_table u t" for t now m Buf
    using u that same_tableD [OF that(2)] by (intro check_msg_reference) simp
  then show ?thesis using s0 s(1) u by (cases "st0 = CFE_SUCCESS") (auto simp: LC_AppInit_def u_def)
qed

definition demo_boot :: lc_boot where
  "demo_boot = \<lparr>SaveToCDS = False, EvsRegister = CFE_SUCCESS, CreatePipe = CFE_SUCCESS, BootSubscribe = (\<lambda>_. CFE_SUCCESS),
     WRT_Register = CFE_SUCCESS, WRT_GetAddress = CFE_SUCCESS, WRT_Buffer = WRT demo_lc,
     ART_Register = CFE_SUCCESS, ART_GetAddress = CFE_SUCCESS, ART_Buffer = ART demo_lc,
     WDT_Register = (\<lambda>_. CFE_SUCCESS), ADT_Register = (\<lambda>_. CFE_SUCCESS),
     WRT_RegisterCDS = CFE_SUCCESS, WRT_Restore = (CFE_SUCCESS, None), ART_RegisterCDS = CFE_SUCCESS,
     ART_Restore = (CFE_SUCCESS, None), App_RegisterCDS = CFE_SUCCESS, App_Restore = (CFE_SUCCESS, None),
     WDT_Load = CFE_SUCCESS, ADT_Load = CFE_SUCCESS, BootServices = In_Services demo_sample\<rparr>"

theorem start_up_witness:
  "\<exists>s. LC_AppInit demo_boot = Some (CFE_SUCCESS, s) \<and> CurrentLCState s = LC_STATE_ACTIVE \<and>
     WatchResult (WRT s ! 3) = LC_WATCH_STALE \<and> CurrentState (ART s ! 5) = LC_APSTATE_ACTIVE"
proof -
  have "boot_ok demo_boot"
    by (simp add: boot_ok_def demo_boot_def saved_wrt_def saved_art_def demo_fields)
  from start_up [OF this] obtain st s where s: "LC_AppInit demo_boot = Some (st, s)" "CurrentLCState s = LC_STATE_ACTIVE"
    "st = CFE_SUCCESS \<longrightarrow> tables_filled demo_boot s" by blast
  have "st = CFE_SUCCESS"
    using s(1)
    by (auto simp: LC_AppInit_def LC_SbInit_def LC_EvsInit_def LC_TableInit_def register_tables_def fill_tables_def
        LC_CreateResultTables_def LC_CreateDefinitionTables_def define_table_def LC_LoadDefaultTables_def get_wdt_def
        get_adt_def got_address_def boot_subscribe_def on_success_def report_failure_def demo_boot_def demo_sample_def
        Let_def split: if_splits)
  then show ?thesis
    using s by (auto simp: tables_filled_def warm_start_def demo_boot_def demo_sample_def fresh_wrt_def fresh_art_def
        demo_fields demo_adt_def lc_const nth_Cons')
qed

end
