(* ===== verification/Sc_Defs.thy ===== *)
theory Sc_Defs
  imports Msg_Header Time_Arith
begin

section \<open>Stored commands: data\<close>

text \<open>
  The stored command application (\<open>src/apps/sc\<close>) sends commands from tables in memory. A relative time
  sequence (RTS) is a list of commands, each with a delay counted in wakeups; up to 64 of them run side by
  side. An absolute time sequence (ATS) is a set of numbered commands, each with the time at which it is due;
  there are two of them, and one runs at a time.

  The record \<open>sc\<close> holds \<open>SC_OperData\<close>, \<open>SC_AppData\<close> and the tables they point to. A loadable table is its
  list of bytes, a pointer into it is an offset in words of four bytes, and \<open>NULL\<close> is the empty list. Fields of
  the table entries are in the byte order of the little-endian targets, those of the commands in them in
  network order. What the application hands to other services is appended to \<open>SC_Out\<close>.
\<close>

named_theorems sc_const

subsection \<open>Constants (sc_interface_cfg.h, sc_internal_cfg.h, sc_msgids.h, sc_fcncodes.h)\<close>

definition SC_PACKET_MIN_SIZE :: size_t where [sc_const]: "SC_PACKET_MIN_SIZE = 8"
definition SC_PACKET_MAX_SIZE :: size_t where [sc_const]: "SC_PACKET_MAX_SIZE = 256"
definition SC_NUMBER_OF_ATS :: nat where [sc_const]: "SC_NUMBER_OF_ATS = 2"
definition SC_NUMBER_OF_RTS :: nat where [sc_const]: "SC_NUMBER_OF_RTS = 64"
definition SC_MAX_CMDS_PER_WAKEUP :: uint16 where [sc_const]: "SC_MAX_CMDS_PER_WAKEUP = 8"
definition SC_ATS_BUFF_SIZE32 :: nat where [sc_const]: "SC_ATS_BUFF_SIZE32 = 4000"
definition SC_APPEND_BUFF_SIZE32 :: nat where [sc_const]: "SC_APPEND_BUFF_SIZE32 = 2000"
definition SC_RTS_BUFF_SIZE32 :: nat where [sc_const]: "SC_RTS_BUFF_SIZE32 = 75"
definition SC_MAX_ATS_CMDS :: nat where [sc_const]: "SC_MAX_ATS_CMDS = 1000"
definition SC_LAST_RTS_WITH_EVENTS :: nat where [sc_const]: "SC_LAST_RTS_WITH_EVENTS = 20"
definition RTS_ID_AUTO_POWER_ON :: uint16 where [sc_const]: "RTS_ID_AUTO_POWER_ON = 1"
definition RTS_ID_AUTO_PROCESSOR :: uint16 where [sc_const]: "RTS_ID_AUTO_PROCESSOR = 2"
definition SC_PLATFORM_ENABLE_HEADER_UPDATE :: bool where [sc_const]: "SC_PLATFORM_ENABLE_HEADER_UPDATE = False"
definition SC_CONT_ON_FAILURE_START :: uint8 where [sc_const]: "SC_CONT_ON_FAILURE_START = 1"

definition SC_ATS_HEADER_SIZE :: nat where [sc_const]: "SC_ATS_HEADER_SIZE = 8"
definition SC_RTS_HEADER_SIZE :: nat where [sc_const]: "SC_RTS_HEADER_SIZE = 4"
definition SC_ATS_HDR_WORDS :: nat where [sc_const]: "SC_ATS_HDR_WORDS = 4"
definition SC_ATS_HDR_NOPKT_WORDS :: nat where [sc_const]: "SC_ATS_HDR_NOPKT_WORDS = 2"
definition SC_RTS_HDR_WORDS :: nat where [sc_const]: "SC_RTS_HDR_WORDS = 3"
definition SC_BYTES_IN_WORD :: nat where [sc_const]: "SC_BYTES_IN_WORD = 4"
definition SC_BYTES_IN_ATS_APPEND_ENTRY :: nat where [sc_const]: "SC_BYTES_IN_ATS_APPEND_ENTRY = 2"
definition SC_ROUND_UP_BYTES :: nat where [sc_const]: "SC_ROUND_UP_BYTES = 3"
definition SC_NUMBER_OF_RTS_IN_UINT16 :: nat where [sc_const]: "SC_NUMBER_OF_RTS_IN_UINT16 = 16"

definition SC_MAX_TIME :: uint32 where [sc_const]: "SC_MAX_TIME = 0xFFFFFFFF"
definition SC_MAX_WAKEUP_CNT :: uint32 where [sc_const]: "SC_MAX_WAKEUP_CNT = 0xFFFFFFFF"
definition SC_ERROR :: int where [sc_const]: "SC_ERROR = - 1"
definition SC_DUP_TEST_UNUSED :: int where [sc_const]: "SC_DUP_TEST_UNUSED = - 1"
definition SC_INVALID_CMD_NUMBER :: uint16 where [sc_const]: "SC_INVALID_CMD_NUMBER = 0"
definition SC_RTS_NUM_NULL :: uint16 where [sc_const]: "SC_RTS_NUM_NULL = 0"
definition SC_ATS_NUM_NULL :: uint16 where [sc_const]: "SC_ATS_NUM_NULL = 0"
definition SC_SEQUENCE_IDX_FIRST :: uint16 where [sc_const]: "SC_SEQUENCE_IDX_FIRST = 0"
definition SC_ENTRY_OFFSET_FIRST :: uint16 where [sc_const]: "SC_ENTRY_OFFSET_FIRST = 0"
definition SC_ENTRY_OFFSET_INVALID :: uint16 where [sc_const]: "SC_ENTRY_OFFSET_INVALID = - 1"
definition SC_INVALID_RTS_INDEX :: uint16 where [sc_const]: "SC_INVALID_RTS_INDEX = - 1"
definition SC_AtsCont_FALSE :: uint8 where [sc_const]: "SC_AtsCont_FALSE = 0"
definition SC_AtsCont_TRUE :: uint8 where [sc_const]: "SC_AtsCont_TRUE = 1"

definition SC_CMD_MID :: CFE_SB_MsgId where [sc_const]: "SC_CMD_MID = 0x1820"
definition SC_SEND_HK_MID :: CFE_SB_MsgId where [sc_const]: "SC_SEND_HK_MID = 0x1821"
definition SC_WAKEUP_MID :: CFE_SB_MsgId where [sc_const]: "SC_WAKEUP_MID = 0x1822"
definition LC_RTS_REQUEST_MID :: CFE_SB_MsgId where [sc_const]: "LC_RTS_REQUEST_MID = 0x18A9"

definition SC_NOOP_CC :: uint16 where [sc_const]: "SC_NOOP_CC = 0"
definition SC_RESET_COUNTERS_CC :: uint16 where [sc_const]: "SC_RESET_COUNTERS_CC = 1"
definition SC_START_ATS_CC :: uint16 where [sc_const]: "SC_START_ATS_CC = 2"
definition SC_STOP_ATS_CC :: uint16 where [sc_const]: "SC_STOP_ATS_CC = 3"
definition SC_START_RTS_CC :: uint16 where [sc_const]: "SC_START_RTS_CC = 4"
definition SC_STOP_RTS_CC :: uint16 where [sc_const]: "SC_STOP_RTS_CC = 5"
definition SC_DISABLE_RTS_CC :: uint16 where [sc_const]: "SC_DISABLE_RTS_CC = 6"
definition SC_ENABLE_RTS_CC :: uint16 where [sc_const]: "SC_ENABLE_RTS_CC = 7"
definition SC_SWITCH_ATS_CC :: uint16 where [sc_const]: "SC_SWITCH_ATS_CC = 8"
definition SC_JUMP_ATS_CC :: uint16 where [sc_const]: "SC_JUMP_ATS_CC = 9"
definition SC_CONTINUE_ATS_ON_FAILURE_CC :: uint16 where [sc_const]: "SC_CONTINUE_ATS_ON_FAILURE_CC = 10"
definition SC_APPEND_ATS_CC :: uint16 where [sc_const]: "SC_APPEND_ATS_CC = 11"
definition SC_MANAGE_TABLE_CC :: uint16 where [sc_const]: "SC_MANAGE_TABLE_CC = 12"
definition SC_START_RTS_GRP_CC :: uint16 where [sc_const]: "SC_START_RTS_GRP_CC = 13"
definition SC_STOP_RTS_GRP_CC :: uint16 where [sc_const]: "SC_STOP_RTS_GRP_CC = 14"
definition SC_DISABLE_RTS_GRP_CC :: uint16 where [sc_const]: "SC_DISABLE_RTS_GRP_CC = 15"
definition SC_ENABLE_RTS_GRP_CC :: uint16 where [sc_const]: "SC_ENABLE_RTS_GRP_CC = 16"

subsection \<open>Events (sc_events.h)\<close>

definition SC_APP_EXIT_ERR_EID :: uint16 where "SC_APP_EXIT_ERR_EID = 1"
definition SC_CMD_LEN_ERR_EID :: uint16 where "SC_CMD_LEN_ERR_EID = 2"
definition SC_CR_PIPE_ERR_EID :: uint16 where "SC_CR_PIPE_ERR_EID = 3"
definition SC_INIT_SB_SUBSCRIBE_HK_ERR_EID :: uint16 where "SC_INIT_SB_SUBSCRIBE_HK_ERR_EID = 4"
definition SC_INIT_SB_SUBSCRIBE_ERR_EID :: uint16 where "SC_INIT_SB_SUBSCRIBE_ERR_EID = 5"
definition SC_INIT_SB_SUBSCRIBE_CMD_ERR_EID :: uint16 where "SC_INIT_SB_SUBSCRIBE_CMD_ERR_EID = 6"
definition SC_INIT_INF_EID :: uint16 where "SC_INIT_INF_EID = 9"
definition SC_REGISTER_RTS_TBL_ERR_EID :: uint16 where "SC_REGISTER_RTS_TBL_ERR_EID = 10"
definition SC_REGISTER_ATS_TBL_ERR_EID :: uint16 where "SC_REGISTER_ATS_TBL_ERR_EID = 11"
definition SC_REGISTER_RTS_INFO_TABLE_ERR_EID :: uint16 where "SC_REGISTER_RTS_INFO_TABLE_ERR_EID = 16"
definition SC_REGISTER_RTS_CTRL_BLK_TABLE_ERR_EID :: uint16 where "SC_REGISTER_RTS_CTRL_BLK_TABLE_ERR_EID = 17"
definition SC_REGISTER_ATS_INFO_TABLE_ERR_EID :: uint16 where "SC_REGISTER_ATS_INFO_TABLE_ERR_EID = 18"
definition SC_REGISTER_ATS_CTRL_BLK_TABLE_ERR_EID :: uint16 where "SC_REGISTER_ATS_CTRL_BLK_TABLE_ERR_EID = 19"
definition SC_REGISTER_ATS_CMD_STATUS_TABLE_ERR_EID :: uint16 where "SC_REGISTER_ATS_CMD_STATUS_TABLE_ERR_EID = 20"
definition SC_RTS_LOAD_FAIL_COUNT_INFO_EID :: uint16 where "SC_RTS_LOAD_FAIL_COUNT_INFO_EID = 21"
definition SC_STARTATS_CMD_INF_EID :: uint16 where "SC_STARTATS_CMD_INF_EID = 23"
definition SC_STARTATS_CMD_NOT_LDED_ERR_EID :: uint16 where "SC_STARTATS_CMD_NOT_LDED_ERR_EID = 24"
definition SC_STARTATS_CMD_NOT_IDLE_ERR_EID :: uint16 where "SC_STARTATS_CMD_NOT_IDLE_ERR_EID = 25"
definition SC_STARTATS_CMD_INVLD_ID_ERR_EID :: uint16 where "SC_STARTATS_CMD_INVLD_ID_ERR_EID = 26"
definition SC_STOPATS_CMD_INF_EID :: uint16 where "SC_STOPATS_CMD_INF_EID = 27"
definition SC_STOPATS_NO_ATS_INF_EID :: uint16 where "SC_STOPATS_NO_ATS_INF_EID = 28"
definition SC_ATS_SKP_ALL_ERR_EID :: uint16 where "SC_ATS_SKP_ALL_ERR_EID = 29"
definition SC_ATS_ERR_SKP_DBG_EID :: uint16 where "SC_ATS_ERR_SKP_DBG_EID = 30"
definition SC_SWITCH_ATS_CMD_INF_EID :: uint16 where "SC_SWITCH_ATS_CMD_INF_EID = 31"
definition SC_SWITCH_ATS_CMD_NOT_LDED_ERR_EID :: uint16 where "SC_SWITCH_ATS_CMD_NOT_LDED_ERR_EID = 32"
definition SC_SWITCH_ATS_CMD_IDLE_ERR_EID :: uint16 where "SC_SWITCH_ATS_CMD_IDLE_ERR_EID = 33"
definition SC_ATS_SERVICE_SWTCH_INF_EID :: uint16 where "SC_ATS_SERVICE_SWTCH_INF_EID = 34"
definition SC_SERVICE_SWITCH_ATS_CMD_LDED_ERR_EID :: uint16 where "SC_SERVICE_SWITCH_ATS_CMD_LDED_ERR_EID = 35"
definition SC_ATS_SERVICE_SWITCH_IDLE_ERR_EID :: uint16 where "SC_ATS_SERVICE_SWITCH_IDLE_ERR_EID = 36"
definition SC_ATS_INLINE_SWTCH_INF_EID :: uint16 where "SC_ATS_INLINE_SWTCH_INF_EID = 37"
definition SC_ATS_INLINE_SWTCH_NOT_LDED_ERR_EID :: uint16 where "SC_ATS_INLINE_SWTCH_NOT_LDED_ERR_EID = 38"
definition SC_JUMPATS_CMD_STOPPED_ERR_EID :: uint16 where "SC_JUMPATS_CMD_STOPPED_ERR_EID = 39"
definition SC_JUMP_ATS_INF_EID :: uint16 where "SC_JUMP_ATS_INF_EID = 40"
definition SC_JUMPATS_CMD_NOT_ACT_ERR_EID :: uint16 where "SC_JUMPATS_CMD_NOT_ACT_ERR_EID = 41"
definition SC_CONT_CMD_ERR_EID :: uint16 where "SC_CONT_CMD_ERR_EID = 42"
definition SC_CONT_CMD_INF_EID :: uint16 where "SC_CONT_CMD_INF_EID = 43"
definition SC_ATS_CHKSUM_ERR_EID :: uint16 where "SC_ATS_CHKSUM_ERR_EID = 44"
definition SC_ATS_ABT_ERR_EID :: uint16 where "SC_ATS_ABT_ERR_EID = 45"
definition SC_ATS_DIST_ERR_EID :: uint16 where "SC_ATS_DIST_ERR_EID = 46"
definition SC_ATS_MSMTCH_ERR_EID :: uint16 where "SC_ATS_MSMTCH_ERR_EID = 47"
definition SC_ATS_SKP_ERR_EID :: uint16 where "SC_ATS_SKP_ERR_EID = 48"
definition SC_RTS_DIST_ERR_EID :: uint16 where "SC_RTS_DIST_ERR_EID = 49"
definition SC_RTS_CHKSUM_ERR_EID :: uint16 where "SC_RTS_CHKSUM_ERR_EID = 50"
definition SC_RESET_INF_EID :: uint16 where "SC_RESET_INF_EID = 51"
definition SC_NOOP_INF_EID :: uint16 where "SC_NOOP_INF_EID = 52"
definition SC_RTS_INVLD_MID_ERR_EID :: uint16 where "SC_RTS_INVLD_MID_ERR_EID = 59"
definition SC_RTS_LEN_ERR_EID :: uint16 where "SC_RTS_LEN_ERR_EID = 60"
definition SC_RTS_LEN_BUFFER_ERR_EID :: uint16 where "SC_RTS_LEN_BUFFER_ERR_EID = 61"
definition SC_RTS_LEN_TOO_LONG_ERR_EID :: uint16 where "SC_RTS_LEN_TOO_LONG_ERR_EID = 62"
definition SC_MID_ERR_EID :: uint16 where "SC_MID_ERR_EID = 63"
definition SC_CC_ERR_EID :: uint16 where "SC_CC_ERR_EID = 64"
definition SC_GET_ADDRESS_RTS_INFO_ERR_EID :: uint16 where "SC_GET_ADDRESS_RTS_INFO_ERR_EID = 65"
definition SC_GET_ADDRESS_RTS_CTRL_BLCK_ERR_EID :: uint16 where "SC_GET_ADDRESS_RTS_CTRL_BLCK_ERR_EID = 66"
definition SC_GET_ADDRESS_ATS_INFO_ERR_EID :: uint16 where "SC_GET_ADDRESS_ATS_INFO_ERR_EID = 67"
definition SC_GET_ADDRESS_ATS_CTRL_BLCK_ERR_EID :: uint16 where "SC_GET_ADDRESS_ATS_CTRL_BLCK_ERR_EID = 68"
definition SC_GET_ADDRESS_ATS_CMD_STAT_ERR_EID :: uint16 where "SC_GET_ADDRESS_ATS_CMD_STAT_ERR_EID = 69"
definition SC_GET_ADDRESS_RTS_ERR_EID :: uint16 where "SC_GET_ADDRESS_RTS_ERR_EID = 70"
definition SC_GET_ADDRESS_ATS_ERR_EID :: uint16 where "SC_GET_ADDRESS_ATS_ERR_EID = 71"
definition SC_STARTRTS_CMD_DBG_EID :: uint16 where "SC_STARTRTS_CMD_DBG_EID = 72"
definition SC_RTS_START_INF_EID :: uint16 where "SC_RTS_START_INF_EID = 73"
definition SC_STARTRTS_CMD_INVLD_LEN_ERR_EID :: uint16 where "SC_STARTRTS_CMD_INVLD_LEN_ERR_EID = 74"
definition SC_STARTRTS_CMD_NOT_LDED_ERR_EID :: uint16 where "SC_STARTRTS_CMD_NOT_LDED_ERR_EID = 75"
definition SC_STARTRTS_CMD_DISABLED_ERR_EID :: uint16 where "SC_STARTRTS_CMD_DISABLED_ERR_EID = 76"
definition SC_STARTRTS_CMD_INVALID_ERR_EID :: uint16 where "SC_STARTRTS_CMD_INVALID_ERR_EID = 77"
definition SC_STOPRTS_CMD_INF_EID :: uint16 where "SC_STOPRTS_CMD_INF_EID = 78"
definition SC_STOPRTS_CMD_ERR_EID :: uint16 where "SC_STOPRTS_CMD_ERR_EID = 79"
definition SC_DISABLE_RTS_INF_EID :: uint16 where "SC_DISABLE_RTS_INF_EID = 80"
definition SC_DISRTS_CMD_ERR_EID :: uint16 where "SC_DISRTS_CMD_ERR_EID = 81"
definition SC_ENABLE_RTS_INF_EID :: uint16 where "SC_ENABLE_RTS_INF_EID = 82"
definition SC_ENARTS_CMD_ERR_EID :: uint16 where "SC_ENARTS_CMD_ERR_EID = 83"
definition SC_RTS_LNGTH_ERR_EID :: uint16 where "SC_RTS_LNGTH_ERR_EID = 84"
definition SC_RTS_CMD_LNGTH_ERR_EID :: uint16 where "SC_RTS_CMD_LNGTH_ERR_EID = 85"
definition SC_RTS_COMPL_INF_EID :: uint16 where "SC_RTS_COMPL_INF_EID = 86"
definition SC_ATS_COMPL_INF_EID :: uint16 where "SC_ATS_COMPL_INF_EID = 87"
definition SC_JUMP_ATS_SKIPPED_DBG_EID :: uint16 where "SC_JUMP_ATS_SKIPPED_DBG_EID = 88"
definition SC_GET_ADDRESS_APPEND_ERR_EID :: uint16 where "SC_GET_ADDRESS_APPEND_ERR_EID = 92"
definition SC_REGISTER_APPEND_TBL_ERR_EID :: uint16 where "SC_REGISTER_APPEND_TBL_ERR_EID = 93"
definition SC_UPDATE_APPEND_EID :: uint16 where "SC_UPDATE_APPEND_EID = 97"
definition SC_APPEND_CMD_INF_EID :: uint16 where "SC_APPEND_CMD_INF_EID = 98"
definition SC_APPEND_CMD_ARG_ERR_EID :: uint16 where "SC_APPEND_CMD_ARG_ERR_EID = 99"
definition SC_APPEND_CMD_TGT_ERR_EID :: uint16 where "SC_APPEND_CMD_TGT_ERR_EID = 100"
definition SC_APPEND_CMD_SRC_ERR_EID :: uint16 where "SC_APPEND_CMD_SRC_ERR_EID = 101"
definition SC_APPEND_CMD_FIT_ERR_EID :: uint16 where "SC_APPEND_CMD_FIT_ERR_EID = 102"
definition SC_VERIFY_ATS_EID :: uint16 where "SC_VERIFY_ATS_EID = 103"
definition SC_VERIFY_ATS_NUM_ERR_EID :: uint16 where "SC_VERIFY_ATS_NUM_ERR_EID = 104"
definition SC_VERIFY_ATS_END_ERR_EID :: uint16 where "SC_VERIFY_ATS_END_ERR_EID = 105"
definition SC_VERIFY_ATS_PKT_ERR_EID :: uint16 where "SC_VERIFY_ATS_PKT_ERR_EID = 106"
definition SC_VERIFY_ATS_BUF_ERR_EID :: uint16 where "SC_VERIFY_ATS_BUF_ERR_EID = 107"
definition SC_VERIFY_ATS_DUP_ERR_EID :: uint16 where "SC_VERIFY_ATS_DUP_ERR_EID = 109"
definition SC_VERIFY_ATS_MPT_ERR_EID :: uint16 where "SC_VERIFY_ATS_MPT_ERR_EID = 110"
definition SC_TABLE_MANAGE_ID_ERR_EID :: uint16 where "SC_TABLE_MANAGE_ID_ERR_EID = 111"
definition SC_TABLE_MANAGE_RTS_ERR_EID :: uint16 where "SC_TABLE_MANAGE_RTS_ERR_EID = 112"
definition SC_TABLE_MANAGE_ATS_ERR_EID :: uint16 where "SC_TABLE_MANAGE_ATS_ERR_EID = 113"
definition SC_TABLE_MANAGE_APPEND_ERR_EID :: uint16 where "SC_TABLE_MANAGE_APPEND_ERR_EID = 114"
definition SC_STARTRTSGRP_CMD_INF_EID :: uint16 where "SC_STARTRTSGRP_CMD_INF_EID = 115"
definition SC_STARTRTSGRP_CMD_ERR_EID :: uint16 where "SC_STARTRTSGRP_CMD_ERR_EID = 116"
definition SC_STOPRTSGRP_CMD_INF_EID :: uint16 where "SC_STOPRTSGRP_CMD_INF_EID = 117"
definition SC_STOPRTSGRP_CMD_ERR_EID :: uint16 where "SC_STOPRTSGRP_CMD_ERR_EID = 118"
definition SC_DISRTSGRP_CMD_INF_EID :: uint16 where "SC_DISRTSGRP_CMD_INF_EID = 119"
definition SC_DISRTSGRP_CMD_ERR_EID :: uint16 where "SC_DISRTSGRP_CMD_ERR_EID = 120"
definition SC_ENARTSGRP_CMD_INF_EID :: uint16 where "SC_ENARTSGRP_CMD_INF_EID = 121"
definition SC_ENARTSGRP_CMD_ERR_EID :: uint16 where "SC_ENARTSGRP_CMD_ERR_EID = 122"
definition SC_JUMPATS_CMD_LIST_INF_EID :: uint16 where "SC_JUMPATS_CMD_LIST_INF_EID = 123"
definition SC_RTS_LOAD_FAIL_DBG_EID :: uint16 where "SC_RTS_LOAD_FAIL_DBG_EID = 124"
definition SC_STARTRTSGRP_CMD_NOT_LDED_ERR_EID :: uint16 where "SC_STARTRTSGRP_CMD_NOT_LDED_ERR_EID = 126"
definition SC_STARTRTSGRP_CMD_DISABLED_ERR_EID :: uint16 where "SC_STARTRTSGRP_CMD_DISABLED_ERR_EID = 127"
definition SC_BEGINATS_INVLD_INDEX_ERR_EID :: uint16 where "SC_BEGINATS_INVLD_INDEX_ERR_EID = 128"
definition SC_TABLE_MANAGE_RTS_INV_INDEX_ERR_EID :: uint16 where "SC_TABLE_MANAGE_RTS_INV_INDEX_ERR_EID = 129"
definition SC_TABLE_MANAGE_ATS_INV_INDEX_ERR_EID :: uint16 where "SC_TABLE_MANAGE_ATS_INV_INDEX_ERR_EID = 130"
definition SC_LOADATS_INV_INDEX_ERR_EID :: uint16 where "SC_LOADATS_INV_INDEX_ERR_EID = 131"
definition SC_BUILD_TIME_IDXTBL_ERR_EID :: uint16 where "SC_BUILD_TIME_IDXTBL_ERR_EID = 132"
definition SC_INSERTATS_INV_INDEX_ERR_EID :: uint16 where "SC_INSERTATS_INV_INDEX_ERR_EID = 133"
definition SC_INIT_ATSTBL_INV_INDEX_ERR_EID :: uint16 where "SC_INIT_ATSTBL_INV_INDEX_ERR_EID = 134"
definition SC_LOADRTS_INV_INDEX_ERR_EID :: uint16 where "SC_LOADRTS_INV_INDEX_ERR_EID = 135"
definition SC_PROCESS_APPEND_INV_INDEX_ERR_EID :: uint16 where "SC_PROCESS_APPEND_INV_INDEX_ERR_EID = 136"
definition SC_KILLRTS_INV_INDEX_ERR_EID :: uint16 where "SC_KILLRTS_INV_INDEX_ERR_EID = 137"
definition SC_AUTOSTART_RTS_INV_ID_ERR_EID :: uint16 where "SC_AUTOSTART_RTS_INV_ID_ERR_EID = 138"
definition SC_START_RTS_BY_LC_REQUEST_INF_EID :: uint16 where "SC_START_RTS_BY_LC_REQUEST_INF_EID = 140"

subsection \<open>Tables and control blocks (sc_app.h, sc_msgdefs.h)\<close>

datatype SC_Status =
    SC_Status_EMPTY | SC_Status_LOADED | SC_Status_IDLE | SC_Status_EXECUTED | SC_Status_SKIPPED
  | SC_Status_EXECUTING | SC_Status_FAILED_CHECKSUM | SC_Status_FAILED_DISTRIB | SC_Status_STARTING

datatype SC_TimeRef = SC_TimeRef_USE_CFE_TIME | SC_TimeRef_USE_TAI | SC_TimeRef_USE_UTC | SC_TimeRef_MAX

datatype SC_TimeAccessor = Access_GetTime | Access_GetTAI | Access_GetUTC

record SC_AtpControlBlock =
  AtpState :: SC_Status
  CurrAtsNum :: uint16
  CmdNumber :: uint16
  TimeIndexPtr :: uint16
  SwitchPendFlag :: bool

record SC_AtsInfoTable =
  AtsUseCtr :: uint16
  NumberOfCommands :: uint16
  AtsSize :: uint32

record SC_RtpControlBlock =
  NumRtsActive :: uint16
  CurrRtsNum :: uint16

record SC_RtsInfoEntry =
  RtsStatus :: SC_Status
  DisabledFlag :: bool
  Rts_CmdCtr :: uint8
  Rts_CmdErrCtr :: uint8
  NextCommandTgtWakeup :: uint32
  NextCommandPtr :: uint16
  UseCtr :: uint16

text \<open>
  The counters of the housekeeping packet are kept in the packet itself; the fields from \<open>HK_CurrAtsId\<close> on
  are filled in when it is sent.
\<close>

record SC_HkTlm_Payload =
  ContinueAtsOnFailureFlag :: uint8
  HK_CmdErrCtr :: uint8
  HK_CmdCtr :: uint8
  RtsActiveCtr :: uint16
  RtsActiveErrCtr :: uint16
  AtsCmdCtr :: uint16
  AtsCmdErrCtr :: uint16
  RtsCmdCtr :: uint16
  RtsCmdErrCtr :: uint16
  LastAtsErrSeq :: uint16
  LastAtsErrCmd :: uint16
  LastRtsErrSeq :: uint16
  LastRtsErrCmd :: uint16
  AppendCmdArg :: uint16
  AppendEntryCount :: uint16
  AppendByteCount :: uint16
  AppendLoadCount :: uint16
  HK_CurrAtsId :: uint8
  HK_AtpState :: SC_Status
  HK_SwitchPendFlag :: bool
  HK_NumRtsActive :: uint16
  HK_RtsNum :: uint16
  AtpCmdNumber :: uint32
  AtpFreeBytes :: "uint32 list"
  NextRtsWakeupCnt :: uint32
  NextAtsTime :: uint32
  RtsExecutingStatus :: "uint16 list"
  RtsDisabledStatus :: "uint16 list"

subsection \<open>What the application sends\<close>

datatype sc_table =
    RTS_Info | RTP_Ctrl | ATS_Info | ATP_Ctrl | ATS_Cmd_Status nat | RTS_Table nat | ATS_Table nat | Append_Table

text \<open>A transmitted command comes with the flag that asks the bus to update its header.\<close>

datatype sc_output =
    SC_Event uint16
  | SC_Subscribe CFE_SB_MsgId
  | SC_Transmit message bool
  | SC_Housekeeping SC_HkTlm_Payload
  | SC_ReleaseAddress sc_table
  | SC_Manage sc_table
  | SC_Modified sc_table
  | SC_NotifyByMessage sc_table uint32

subsection \<open>State\<close>

record sc =
  AtsTbl :: "uint8 list list"
  AppendTbl :: "uint8 list"
  RtsTbl :: "uint8 list list"
  AtsInfo :: "SC_AtsInfoTable list"
  RtsInfo :: "SC_RtsInfoEntry list"
  RtsCtrlBlck :: SC_RtpControlBlock
  AtsCtrlBlck :: SC_AtpControlBlock
  AtsCmdStatus :: "SC_Status list list"
  AtsDupTestArray :: "int list"
  NumCmdsWakeup :: uint16
  HkPacket :: SC_HkTlm_Payload
  AtsTimeIndexBuffer :: "uint16 list list"
  AtsCmdIndexBuffer :: "uint16 list list"
  TimeRef :: SC_TimeAccessor
  EnableHeaderUpdate :: bool
  NextCmdTime_ATP :: uint32
  NextCmdTime_RTP :: uint32
  CurrentTime :: uint32
  CurrentWakeupCount :: uint32
  AutoStartRTS :: uint16
  AppendWordCount :: uint16
  SC_Out :: "sc_output list"

text \<open>
  What the services answer while one message is handled: the time of each clock, the status of the next
  transmission, and the status and the data of \<open>CFE_TBL_GetAddress\<close>. The bus is asked for each transmission
  with the number of outputs made so far, so that each call can have its own answer.
\<close>

record sc_services =
  SC_Clock :: "SC_TimeAccessor \<Rightarrow> CFE_TIME_SysTime"
  SC_SendStatus :: "nat \<Rightarrow> CFE_Status"
  SC_TblStatus :: CFE_Status
  SC_TblData :: "uint8 list"

definition sc_send :: "sc_output \<Rightarrow> sc \<Rightarrow> sc" where
  "sc_send x s = s\<lparr>SC_Out := SC_Out s @ [x]\<rparr>"

abbreviation CFE_EVS_SendEvent_SC :: "uint16 \<Rightarrow> sc \<Rightarrow> sc" where
  "CFE_EVS_SendEvent_SC e \<equiv> sc_send (SC_Event e)"

definition sc_transmit :: "sc_services \<Rightarrow> message \<Rightarrow> bool \<Rightarrow> sc \<Rightarrow> CFE_Status \<times> sc" where
  "sc_transmit v m IsOrigination s =
     (SC_SendStatus v (length (SC_Out s)), sc_send (SC_Transmit m IsOrigination) s)"

definition upd_hk :: "(SC_HkTlm_Payload \<Rightarrow> SC_HkTlm_Payload) \<Rightarrow> sc \<Rightarrow> sc" where
  "upd_hk f s = s\<lparr>HkPacket := f (HkPacket s)\<rparr>"

definition upd_rtp :: "(SC_RtpControlBlock \<Rightarrow> SC_RtpControlBlock) \<Rightarrow> sc \<Rightarrow> sc" where
  "upd_rtp f s = s\<lparr>RtsCtrlBlck := f (RtsCtrlBlck s)\<rparr>"

definition upd_atp :: "(SC_AtpControlBlock \<Rightarrow> SC_AtpControlBlock) \<Rightarrow> sc \<Rightarrow> sc" where
  "upd_atp f s = s\<lparr>AtsCtrlBlck := f (AtsCtrlBlck s)\<rparr>"

definition upd_rts :: "uint16 \<Rightarrow> (SC_RtsInfoEntry \<Rightarrow> SC_RtsInfoEntry) \<Rightarrow> sc \<Rightarrow> sc" where
  "upd_rts i f s = s\<lparr>RtsInfo := (RtsInfo s)[unat i := f (RtsInfo s ! unat i)]\<rparr>"

definition upd_ats :: "uint16 \<Rightarrow> (SC_AtsInfoTable \<Rightarrow> SC_AtsInfoTable) \<Rightarrow> sc \<Rightarrow> sc" where
  "upd_ats a f s = s\<lparr>AtsInfo := (AtsInfo s)[unat a := f (AtsInfo s ! unat a)]\<rparr>"

definition set_cmd_status :: "uint16 \<Rightarrow> uint16 \<Rightarrow> SC_Status \<Rightarrow> sc \<Rightarrow> sc" where
  "set_cmd_status a c x s =
     s\<lparr>AtsCmdStatus := (AtsCmdStatus s)[unat a := (AtsCmdStatus s ! unat a)[unat c := x]]\<rparr>"

definition set_cmd_offset :: "uint16 \<Rightarrow> uint16 \<Rightarrow> uint16 \<Rightarrow> sc \<Rightarrow> sc" where
  "set_cmd_offset a c x s =
     s\<lparr>AtsCmdIndexBuffer := (AtsCmdIndexBuffer s)[unat a := (AtsCmdIndexBuffer s ! unat a)[unat c := x]]\<rparr>"

definition set_cmd_num :: "uint16 \<Rightarrow> uint16 \<Rightarrow> uint16 \<Rightarrow> sc \<Rightarrow> sc" where
  "set_cmd_num a i x s =
     s\<lparr>AtsTimeIndexBuffer := (AtsTimeIndexBuffer s)[unat a := (AtsTimeIndexBuffer s ! unat a)[unat i := x]]\<rparr>"

lemmas sc_update_defs = sc_send_def upd_hk_def upd_rtp_def upd_atp_def upd_rts_def upd_ats_def set_cmd_status_def
  set_cmd_offset_def set_cmd_num_def

lemma sc_send_sel [simp]:
  "AtsTbl (sc_send x s) = AtsTbl s" "AppendTbl (sc_send x s) = AppendTbl s" "RtsTbl (sc_send x s) = RtsTbl s"
  "AtsInfo (sc_send x s) = AtsInfo s" "RtsInfo (sc_send x s) = RtsInfo s"
  "RtsCtrlBlck (sc_send x s) = RtsCtrlBlck s" "AtsCtrlBlck (sc_send x s) = AtsCtrlBlck s"
  "AtsCmdStatus (sc_send x s) = AtsCmdStatus s" "AtsDupTestArray (sc_send x s) = AtsDupTestArray s"
  "NumCmdsWakeup (sc_send x s) = NumCmdsWakeup s" "HkPacket (sc_send x s) = HkPacket s"
  "AtsTimeIndexBuffer (sc_send x s) = AtsTimeIndexBuffer s" "AtsCmdIndexBuffer (sc_send x s) = AtsCmdIndexBuffer s"
  "TimeRef (sc_send x s) = TimeRef s" "EnableHeaderUpdate (sc_send x s) = EnableHeaderUpdate s"
  "NextCmdTime_ATP (sc_send x s) = NextCmdTime_ATP s" "NextCmdTime_RTP (sc_send x s) = NextCmdTime_RTP s"
  "CurrentTime (sc_send x s) = CurrentTime s" "CurrentWakeupCount (sc_send x s) = CurrentWakeupCount s"
  "AutoStartRTS (sc_send x s) = AutoStartRTS s" "AppendWordCount (sc_send x s) = AppendWordCount s"
  "SC_Out (sc_send x s) = SC_Out s @ [x]"
  by (simp_all add: sc_send_def)

lemma upd_hk_sel [simp]:
  "AtsTbl (upd_hk f s) = AtsTbl s" "AppendTbl (upd_hk f s) = AppendTbl s" "RtsTbl (upd_hk f s) = RtsTbl s"
  "AtsInfo (upd_hk f s) = AtsInfo s" "RtsInfo (upd_hk f s) = RtsInfo s" "RtsCtrlBlck (upd_hk f s) = RtsCtrlBlck s"
  "AtsCtrlBlck (upd_hk f s) = AtsCtrlBlck s" "AtsCmdStatus (upd_hk f s) = AtsCmdStatus s"
  "AtsDupTestArray (upd_hk f s) = AtsDupTestArray s" "NumCmdsWakeup (upd_hk f s) = NumCmdsWakeup s"
  "HkPacket (upd_hk f s) = f (HkPacket s)" "AtsTimeIndexBuffer (upd_hk f s) = AtsTimeIndexBuffer s"
  "AtsCmdIndexBuffer (upd_hk f s) = AtsCmdIndexBuffer s" "TimeRef (upd_hk f s) = TimeRef s"
  "EnableHeaderUpdate (upd_hk f s) = EnableHeaderUpdate s" "NextCmdTime_ATP (upd_hk f s) = NextCmdTime_ATP s"
  "NextCmdTime_RTP (upd_hk f s) = NextCmdTime_RTP s" "CurrentTime (upd_hk f s) = CurrentTime s"
  "CurrentWakeupCount (upd_hk f s) = CurrentWakeupCount s" "AutoStartRTS (upd_hk f s) = AutoStartRTS s"
  "AppendWordCount (upd_hk f s) = AppendWordCount s" "SC_Out (upd_hk f s) = SC_Out s"
  by (simp_all add: upd_hk_def)

lemma upd_rtp_sel [simp]:
  "AtsTbl (upd_rtp f s) = AtsTbl s" "AppendTbl (upd_rtp f s) = AppendTbl s" "RtsTbl (upd_rtp f s) = RtsTbl s"
  "AtsInfo (upd_rtp f s) = AtsInfo s" "RtsInfo (upd_rtp f s) = RtsInfo s"
  "RtsCtrlBlck (upd_rtp f s) = f (RtsCtrlBlck s)" "AtsCtrlBlck (upd_rtp f s) = AtsCtrlBlck s"
  "AtsCmdStatus (upd_rtp f s) = AtsCmdStatus s" "AtsDupTestArray (upd_rtp f s) = AtsDupTestArray s"
  "NumCmdsWakeup (upd_rtp f s) = NumCmdsWakeup s" "HkPacket (upd_rtp f s) = HkPacket s"
  "AtsTimeIndexBuffer (upd_rtp f s) = AtsTimeIndexBuffer s" "AtsCmdIndexBuffer (upd_rtp f s) = AtsCmdIndexBuffer s"
  "TimeRef (upd_rtp f s) = TimeRef s" "EnableHeaderUpdate (upd_rtp f s) = EnableHeaderUpdate s"
  "NextCmdTime_ATP (upd_rtp f s) = NextCmdTime_ATP s" "NextCmdTime_RTP (upd_rtp f s) = NextCmdTime_RTP s"
  "CurrentTime (upd_rtp f s) = CurrentTime s" "CurrentWakeupCount (upd_rtp f s) = CurrentWakeupCount s"
  "AutoStartRTS (upd_rtp f s) = AutoStartRTS s" "AppendWordCount (upd_rtp f s) = AppendWordCount s"
  "SC_Out (upd_rtp f s) = SC_Out s"
  by (simp_all add: upd_rtp_def)

lemma upd_atp_sel [simp]:
  "AtsTbl (upd_atp f s) = AtsTbl s" "AppendTbl (upd_atp f s) = AppendTbl s" "RtsTbl (upd_atp f s) = RtsTbl s"
  "AtsInfo (upd_atp f s) = AtsInfo s" "RtsInfo (upd_atp f s) = RtsInfo s"
  "RtsCtrlBlck (upd_atp f s) = RtsCtrlBlck s" "AtsCtrlBlck (upd_atp f s) = f (AtsCtrlBlck s)"
  "AtsCmdStatus (upd_atp f s) = AtsCmdStatus s" "AtsDupTestArray (upd_atp f s) = AtsDupTestArray s"
  "NumCmdsWakeup (upd_atp f s) = NumCmdsWakeup s" "HkPacket (upd_atp f s) = HkPacket s"
  "AtsTimeIndexBuffer (upd_atp f s) = AtsTimeIndexBuffer s" "AtsCmdIndexBuffer (upd_atp f s) = AtsCmdIndexBuffer s"
  "TimeRef (upd_atp f s) = TimeRef s" "EnableHeaderUpdate (upd_atp f s) = EnableHeaderUpdate s"
  "NextCmdTime_ATP (upd_atp f s) = NextCmdTime_ATP s" "NextCmdTime_RTP (upd_atp f s) = NextCmdTime_RTP s"
  "CurrentTime (upd_atp f s) = CurrentTime s" "CurrentWakeupCount (upd_atp f s) = CurrentWakeupCount s"
  "AutoStartRTS (upd_atp f s) = AutoStartRTS s" "AppendWordCount (upd_atp f s) = AppendWordCount s"
  "SC_Out (upd_atp f s) = SC_Out s"
  by (simp_all add: upd_atp_def)

lemma upd_rts_sel [simp]:
  "AtsTbl (upd_rts i f s) = AtsTbl s" "AppendTbl (upd_rts i f s) = AppendTbl s" "RtsTbl (upd_rts i f s) = RtsTbl s"
  "AtsInfo (upd_rts i f s) = AtsInfo s" "RtsInfo (upd_rts i f s) = (RtsInfo s)[unat i := f (RtsInfo s ! unat i)]"
  "RtsCtrlBlck (upd_rts i f s) = RtsCtrlBlck s" "AtsCtrlBlck (upd_rts i f s) = AtsCtrlBlck s"
  "AtsCmdStatus (upd_rts i f s) = AtsCmdStatus s" "AtsDupTestArray (upd_rts i f s) = AtsDupTestArray s"
  "NumCmdsWakeup (upd_rts i f s) = NumCmdsWakeup s" "HkPacket (upd_rts i f s) = HkPacket s"
  "AtsTimeIndexBuffer (upd_rts i f s) = AtsTimeIndexBuffer s"
  "AtsCmdIndexBuffer (upd_rts i f s) = AtsCmdIndexBuffer s" "TimeRef (upd_rts i f s) = TimeRef s"
  "EnableHeaderUpdate (upd_rts i f s) = EnableHeaderUpdate s" "NextCmdTime_ATP (upd_rts i f s) = NextCmdTime_ATP s"
  "NextCmdTime_RTP (upd_rts i f s) = NextCmdTime_RTP s" "CurrentTime (upd_rts i f s) = CurrentTime s"
  "CurrentWakeupCount (upd_rts i f s) = CurrentWakeupCount s" "AutoStartRTS (upd_rts i f s) = AutoStartRTS s"
  "AppendWordCount (upd_rts i f s) = AppendWordCount s" "SC_Out (upd_rts i f s) = SC_Out s"
  by (simp_all add: upd_rts_def)

lemma upd_ats_sel [simp]:
  "AtsTbl (upd_ats a f s) = AtsTbl s" "AppendTbl (upd_ats a f s) = AppendTbl s" "RtsTbl (upd_ats a f s) = RtsTbl s"
  "AtsInfo (upd_ats a f s) = (AtsInfo s)[unat a := f (AtsInfo s ! unat a)]" "RtsInfo (upd_ats a f s) = RtsInfo s"
  "RtsCtrlBlck (upd_ats a f s) = RtsCtrlBlck s" "AtsCtrlBlck (upd_ats a f s) = AtsCtrlBlck s"
  "AtsCmdStatus (upd_ats a f s) = AtsCmdStatus s" "AtsDupTestArray (upd_ats a f s) = AtsDupTestArray s"
  "NumCmdsWakeup (upd_ats a f s) = NumCmdsWakeup s" "HkPacket (upd_ats a f s) = HkPacket s"
  "AtsTimeIndexBuffer (upd_ats a f s) = AtsTimeIndexBuffer s"
  "AtsCmdIndexBuffer (upd_ats a f s) = AtsCmdIndexBuffer s" "TimeRef (upd_ats a f s) = TimeRef s"
  "EnableHeaderUpdate (upd_ats a f s) = EnableHeaderUpdate s" "NextCmdTime_ATP (upd_ats a f s) = NextCmdTime_ATP s"
  "NextCmdTime_RTP (upd_ats a f s) = NextCmdTime_RTP s" "CurrentTime (upd_ats a f s) = CurrentTime s"
  "CurrentWakeupCount (upd_ats a f s) = CurrentWakeupCount s" "AutoStartRTS (upd_ats a f s) = AutoStartRTS s"
  "AppendWordCount (upd_ats a f s) = AppendWordCount s" "SC_Out (upd_ats a f s) = SC_Out s"
  by (simp_all add: upd_ats_def)

lemma set_cmd_status_sel [simp]:
  "AtsTbl (set_cmd_status a c x s) = AtsTbl s" "AppendTbl (set_cmd_status a c x s) = AppendTbl s"
  "RtsTbl (set_cmd_status a c x s) = RtsTbl s" "AtsInfo (set_cmd_status a c x s) = AtsInfo s"
  "RtsInfo (set_cmd_status a c x s) = RtsInfo s" "RtsCtrlBlck (set_cmd_status a c x s) = RtsCtrlBlck s"
  "AtsCtrlBlck (set_cmd_status a c x s) = AtsCtrlBlck s"
  "AtsCmdStatus (set_cmd_status a c x s) = (AtsCmdStatus s)[unat a := (AtsCmdStatus s ! unat a)[unat c := x]]"
  "AtsDupTestArray (set_cmd_status a c x s) = AtsDupTestArray s"
  "NumCmdsWakeup (set_cmd_status a c x s) = NumCmdsWakeup s" "HkPacket (set_cmd_status a c x s) = HkPacket s"
  "AtsTimeIndexBuffer (set_cmd_status a c x s) = AtsTimeIndexBuffer s"
  "AtsCmdIndexBuffer (set_cmd_status a c x s) = AtsCmdIndexBuffer s" "TimeRef (set_cmd_status a c x s) = TimeRef s"
  "EnableHeaderUpdate (set_cmd_status a c x s) = EnableHeaderUpdate s"
  "NextCmdTime_ATP (set_cmd_status a c x s) = NextCmdTime_ATP s"
  "NextCmdTime_RTP (set_cmd_status a c x s) = NextCmdTime_RTP s"
  "CurrentTime (set_cmd_status a c x s) = CurrentTime s"
  "CurrentWakeupCount (set_cmd_status a c x s) = CurrentWakeupCount s"
  "AutoStartRTS (set_cmd_status a c x s) = AutoStartRTS s"
  "AppendWordCount (set_cmd_status a c x s) = AppendWordCount s" "SC_Out (set_cmd_status a c x s) = SC_Out s"
  by (simp_all add: set_cmd_status_def)

lemma set_cmd_offset_sel [simp]:
  "AtsTbl (set_cmd_offset a c x s) = AtsTbl s" "AppendTbl (set_cmd_offset a c x s) = AppendTbl s"
  "RtsTbl (set_cmd_offset a c x s) = RtsTbl s" "AtsInfo (set_cmd_offset a c x s) = AtsInfo s"
  "RtsInfo (set_cmd_offset a c x s) = RtsInfo s" "RtsCtrlBlck (set_cmd_offset a c x s) = RtsCtrlBlck s"
  "AtsCtrlBlck (set_cmd_offset a c x s) = AtsCtrlBlck s" "AtsCmdStatus (set_cmd_offset a c x s) = AtsCmdStatus s"
  "AtsDupTestArray (set_cmd_offset a c x s) = AtsDupTestArray s"
  "NumCmdsWakeup (set_cmd_offset a c x s) = NumCmdsWakeup s" "HkPacket (set_cmd_offset a c x s) = HkPacket s"
  "AtsTimeIndexBuffer (set_cmd_offset a c x s) = AtsTimeIndexBuffer s"
  "AtsCmdIndexBuffer (set_cmd_offset a c x s) = (AtsCmdIndexBuffer s)[unat a := (AtsCmdIndexBuffer s ! unat a)[unat c := x]]"
  "TimeRef (set_cmd_offset a c x s) = TimeRef s"
  "EnableHeaderUpdate (set_cmd_offset a c x s) = EnableHeaderUpdate s"
  "NextCmdTime_ATP (set_cmd_offset a c x s) = NextCmdTime_ATP s"
  "NextCmdTime_RTP (set_cmd_offset a c x s) = NextCmdTime_RTP s"
  "CurrentTime (set_cmd_offset a c x s) = CurrentTime s"
  "CurrentWakeupCount (set_cmd_offset a c x s) = CurrentWakeupCount s"
  "AutoStartRTS (set_cmd_offset a c x s) = AutoStartRTS s"
  "AppendWordCount (set_cmd_offset a c x s) = AppendWordCount s" "SC_Out (set_cmd_offset a c x s) = SC_Out s"
  by (simp_all add: set_cmd_offset_def)

lemma set_cmd_num_sel [simp]:
  "AtsTbl (set_cmd_num a i x s) = AtsTbl s" "AppendTbl (set_cmd_num a i x s) = AppendTbl s"
  "RtsTbl (set_cmd_num a i x s) = RtsTbl s" "AtsInfo (set_cmd_num a i x s) = AtsInfo s"
  "RtsInfo (set_cmd_num a i x s) = RtsInfo s" "RtsCtrlBlck (set_cmd_num a i x s) = RtsCtrlBlck s"
  "AtsCtrlBlck (set_cmd_num a i x s) = AtsCtrlBlck s" "AtsCmdStatus (set_cmd_num a i x s) = AtsCmdStatus s"
  "AtsDupTestArray (set_cmd_num a i x s) = AtsDupTestArray s"
  "NumCmdsWakeup (set_cmd_num a i x s) = NumCmdsWakeup s" "HkPacket (set_cmd_num a i x s) = HkPacket s"
  "AtsTimeIndexBuffer (set_cmd_num a i x s) = (AtsTimeIndexBuffer s)[unat a := (AtsTimeIndexBuffer s ! unat a)[unat i := x]]"
  "AtsCmdIndexBuffer (set_cmd_num a i x s) = AtsCmdIndexBuffer s" "TimeRef (set_cmd_num a i x s) = TimeRef s"
  "EnableHeaderUpdate (set_cmd_num a i x s) = EnableHeaderUpdate s"
  "NextCmdTime_ATP (set_cmd_num a i x s) = NextCmdTime_ATP s"
  "NextCmdTime_RTP (set_cmd_num a i x s) = NextCmdTime_RTP s" "CurrentTime (set_cmd_num a i x s) = CurrentTime s"
  "CurrentWakeupCount (set_cmd_num a i x s) = CurrentWakeupCount s"
  "AutoStartRTS (set_cmd_num a i x s) = AutoStartRTS s" "AppendWordCount (set_cmd_num a i x s) = AppendWordCount s"
  "SC_Out (set_cmd_num a i x s) = SC_Out s"
  by (simp_all add: set_cmd_num_def)

subsection \<open>Numbers and indices (sc_index_types.h)\<close>

definition SC_AtsNumToIndex :: "uint16 \<Rightarrow> uint16" where "SC_AtsNumToIndex AtsNum = AtsNum - 1"
definition SC_AtsIndexToNum :: "uint16 \<Rightarrow> uint16" where "SC_AtsIndexToNum AtsIndex = AtsIndex + 1"
definition SC_RtsNumToIndex :: "uint16 \<Rightarrow> uint16" where "SC_RtsNumToIndex RtsNum = RtsNum - 1"
definition SC_RtsIndexToNum :: "uint16 \<Rightarrow> uint16" where "SC_RtsIndexToNum RtsIndex = RtsIndex + 1"
definition SC_CommandNumToIndex :: "uint16 \<Rightarrow> uint16" where "SC_CommandNumToIndex CommandNum = CommandNum - 1"
definition SC_CommandIndexToNum :: "uint16 \<Rightarrow> uint16" where "SC_CommandIndexToNum CommandIndex = CommandIndex + 1"

definition SC_IDX_WITHIN_LIMIT :: "uint16 \<Rightarrow> nat \<Rightarrow> bool" where
  "SC_IDX_WITHIN_LIMIT i lim \<longleftrightarrow> unat i < lim"

definition SC_AtsIndexIsValid :: "uint16 \<Rightarrow> bool" where
  "SC_AtsIndexIsValid AtsIndex = SC_IDX_WITHIN_LIMIT AtsIndex SC_NUMBER_OF_ATS"

definition SC_AtsNumIsValid :: "uint16 \<Rightarrow> bool" where
  "SC_AtsNumIsValid AtsNum = SC_AtsIndexIsValid (SC_AtsNumToIndex AtsNum)"

definition SC_RtsIndexIsValid :: "uint16 \<Rightarrow> bool" where
  "SC_RtsIndexIsValid RtsIndex = SC_IDX_WITHIN_LIMIT RtsIndex SC_NUMBER_OF_RTS"

definition SC_RtsNumIsValid :: "uint16 \<Rightarrow> bool" where
  "SC_RtsNumIsValid RtsNum = SC_RtsIndexIsValid (SC_RtsNumToIndex RtsNum)"

definition SC_AtsCommandIndexIsValid :: "uint16 \<Rightarrow> bool" where
  "SC_AtsCommandIndexIsValid CommandIndex = SC_IDX_WITHIN_LIMIT CommandIndex SC_MAX_ATS_CMDS"

definition SC_AtsCommandNumIsValid :: "uint16 \<Rightarrow> bool" where
  "SC_AtsCommandNumIsValid CommandNum = SC_AtsCommandIndexIsValid (SC_CommandNumToIndex CommandNum)"

definition SC_RtsIndexHasEvent :: "uint16 \<Rightarrow> bool" where
  "SC_RtsIndexHasEvent RtsIndex = SC_IDX_WITHIN_LIMIT RtsIndex SC_LAST_RTS_WITH_EVENTS"

definition SC_RtsNumHasEvent :: "uint16 \<Rightarrow> bool" where
  "SC_RtsNumHasEvent RtsNum = SC_RtsIndexHasEvent (SC_RtsNumToIndex RtsNum)"

definition SC_RtsNumValidateRange :: "uint16 \<Rightarrow> uint16 \<Rightarrow> bool" where
  "SC_RtsNumValidateRange FirstRtsNum LastRtsNum \<longleftrightarrow>
     SC_RtsNumIsValid FirstRtsNum \<and> SC_RtsNumIsValid LastRtsNum \<and> FirstRtsNum \<le> LastRtsNum"

definition SC_EntryOffsetAdvance :: "uint16 \<Rightarrow> size_t \<Rightarrow> uint16" where
  "SC_EntryOffsetAdvance Pos Bytes = of_nat (unat Pos + unat (Bytes + 3) div 4)"

subsection \<open>Table entries\<close>

definition le16 :: "uint8 list \<Rightarrow> nat \<Rightarrow> uint16" where
  "le16 m i = ucast (m ! i) OR push_bit 8 (ucast (m ! (i + 1)))"

definition le32 :: "uint8 list \<Rightarrow> nat \<Rightarrow> uint32" where
  "le32 m i = ucast (m ! i) OR push_bit 8 (ucast (m ! (i + 1))) OR push_bit 16 (ucast (m ! (i + 2)))
     OR push_bit 24 (ucast (m ! (i + 3)))"

text \<open>An entry is the rest of its table from the offset on, its command what follows the header.\<close>

definition table_entry :: "uint8 list \<Rightarrow> nat \<Rightarrow> uint8 list" where
  "table_entry tbl offset = drop (4 * offset) tbl"

definition SC_GetRtsEntryAtOffset :: "uint16 \<Rightarrow> uint16 \<Rightarrow> sc \<Rightarrow> uint8 list" where
  "SC_GetRtsEntryAtOffset RtsIndex EntryOffset s = table_entry (RtsTbl s ! unat RtsIndex) (unat EntryOffset)"

definition SC_GetAtsEntryAtOffset :: "uint16 \<Rightarrow> uint16 \<Rightarrow> sc \<Rightarrow> uint8 list" where
  "SC_GetAtsEntryAtOffset AtsIndex EntryOffset s = table_entry (AtsTbl s ! unat AtsIndex) (unat EntryOffset)"

definition SC_GetAtsEntryOffsetForCmd :: "uint16 \<Rightarrow> uint16 \<Rightarrow> sc \<Rightarrow> uint16" where
  "SC_GetAtsEntryOffsetForCmd AtsIndex CommandIndex s = AtsCmdIndexBuffer s ! unat AtsIndex ! unat CommandIndex"

definition SC_GetAtsCommandNumAtSeq :: "uint16 \<Rightarrow> uint16 \<Rightarrow> sc \<Rightarrow> uint16" where
  "SC_GetAtsCommandNumAtSeq AtsIndex SeqIndex s = AtsTimeIndexBuffer s ! unat AtsIndex ! unat SeqIndex"

definition SC_GetAtsStatusEntryForCommand :: "uint16 \<Rightarrow> uint16 \<Rightarrow> sc \<Rightarrow> SC_Status" where
  "SC_GetAtsStatusEntryForCommand AtsIndex CommandIndex s = AtsCmdStatus s ! unat AtsIndex ! unat CommandIndex"

abbreviation SC_GetRtsInfoObject :: "uint16 \<Rightarrow> sc \<Rightarrow> SC_RtsInfoEntry" where
  "SC_GetRtsInfoObject RtsIndex s \<equiv> RtsInfo s ! unat RtsIndex"

abbreviation SC_GetAtsInfoObject :: "uint16 \<Rightarrow> sc \<Rightarrow> SC_AtsInfoTable" where
  "SC_GetAtsInfoObject AtsIndex s \<equiv> AtsInfo s ! unat AtsIndex"

definition rts_wakeup :: "uint8 list \<Rightarrow> uint32" where "rts_wakeup entry = le32 entry 0"
definition rts_msg :: "uint8 list \<Rightarrow> message" where "rts_msg entry = drop SC_RTS_HEADER_SIZE entry"
definition ats_number :: "uint8 list \<Rightarrow> uint16" where "ats_number entry = le16 entry 2"
definition ats_msg :: "uint8 list \<Rightarrow> message" where "ats_msg entry = drop SC_ATS_HEADER_SIZE entry"

definition msg_size :: "message \<Rightarrow> size_t" where
  "msg_size m = (case CFE_MSG_GetSize (Some m) True of Inl _ \<Rightarrow> 0 | Inr n \<Rightarrow> n)"

text \<open>The bus copies as many bytes as the command says, whatever follows it in the table.\<close>

definition stored_command :: "message \<Rightarrow> message" where
  "stored_command m = take (unat (msg_size m)) m"

text \<open>The checksum is tested only if the bus does not renew it; a failed call leaves the flag as it was.\<close>

definition checksum_valid :: "message \<Rightarrow> sc \<Rightarrow> bool" where
  "checksum_valid m s =
     (if EnableHeaderUpdate s then True
      else case CFE_MSG_ValidateChecksum (Some m) True of Inl _ \<Rightarrow> False | Inr b \<Rightarrow> b)"

subsection \<open>Times (sc_utils.c)\<close>

definition SC_LookupTimeAccessor :: "SC_TimeRef \<Rightarrow> SC_TimeAccessor" where
  "SC_LookupTimeAccessor r =
     (case r of SC_TimeRef_USE_TAI \<Rightarrow> Access_GetTAI | SC_TimeRef_USE_UTC \<Rightarrow> Access_GetUTC | _ \<Rightarrow> Access_GetTime)"

definition SC_GetCurrentTime :: "sc_services \<Rightarrow> sc \<Rightarrow> sc" where
  "SC_GetCurrentTime v s = s\<lparr>CurrentTime := Seconds (SC_Clock v (TimeRef s))\<rparr>"

definition SC_GetAtsEntryTime :: "uint8 list \<Rightarrow> uint32" where
  "SC_GetAtsEntryTime entry = push_bit 16 (ucast (le16 entry 4)) + ucast (le16 entry 6)"

definition SC_ComputeAbsTime :: "uint32 \<Rightarrow> sc \<Rightarrow> uint32" where
  "SC_ComputeAbsTime RelTime s =
     Seconds (CFE_TIME_Add \<lparr>Seconds = CurrentTime s, Subseconds = 0\<rparr> \<lparr>Seconds = RelTime, Subseconds = 0\<rparr>)"

definition SC_ComputeAbsWakeup :: "uint32 \<Rightarrow> sc \<Rightarrow> uint32" where
  "SC_ComputeAbsWakeup RelWakeup s = CurrentWakeupCount s + RelWakeup"

definition SC_CompareAbsTime :: "uint32 \<Rightarrow> uint32 \<Rightarrow> bool" where
  "SC_CompareAbsTime AbsTime1 AbsTime2 \<longleftrightarrow>
     CFE_TIME_Compare \<lparr>Seconds = AbsTime1, Subseconds = 0\<rparr> \<lparr>Seconds = AbsTime2, Subseconds = 0\<rparr> = CFE_TIME_A_GT_B"

definition SC_ToggleAtsIndex :: "sc \<Rightarrow> uint16" where
  "SC_ToggleAtsIndex s =
     (let CurrAtsIndex = SC_AtsNumToIndex (CurrAtsNum (AtsCtrlBlck s)) + 1
      in if \<not> SC_AtsIndexIsValid CurrAtsIndex then 0 else CurrAtsIndex)"

subsection \<open>Commands\<close>

definition sc_accepted :: "sc \<Rightarrow> sc" where
  "sc_accepted = upd_hk (\<lambda>h. h\<lparr>HK_CmdCtr := HK_CmdCtr h + 1\<rparr>)"

definition sc_rejected :: "uint16 \<Rightarrow> sc \<Rightarrow> sc" where
  "sc_rejected e s = upd_hk (\<lambda>h. h\<lparr>HK_CmdErrCtr := HK_CmdErrCtr h + 1\<rparr>) (CFE_EVS_SendEvent_SC e s)"

end
