(* ===== verification/Sc_Rts.thy ===== *)
theory Sc_Rts
  imports Sc_Defs
begin

section \<open>Stored commands: relative time sequences\<close>

text \<open>
  The commands for relative time sequences (\<open>sc_rtsrq.c\<close>). Each takes the fields of its payload. The loops of
  the group commands run over the indices from the first to the last, and count what they changed.
\<close>

subsection \<open>Starting and stopping\<close>

text \<open>The table entry of a sequence that starts, and the counters of both ways of starting.\<close>

definition begin_rts :: "uint16 \<Rightarrow> sc \<Rightarrow> sc" where
  "begin_rts RtsIndex s =
     (let WakeupCount = rts_wakeup (SC_GetRtsEntryAtOffset RtsIndex SC_ENTRY_OFFSET_FIRST s);
          s1 = upd_rts RtsIndex (\<lambda>r. r\<lparr>RtsStatus := SC_Status_EXECUTING, Rts_CmdCtr := 0, Rts_CmdErrCtr := 0,
                 NextCommandPtr := SC_ENTRY_OFFSET_FIRST, UseCtr := UseCtr r + 1,
                 NextCommandTgtWakeup := SC_ComputeAbsWakeup WakeupCount s\<rparr>) s;
          s2 = upd_rtp (\<lambda>b. b\<lparr>NumRtsActive := NumRtsActive b + 1\<rparr>) s1
      in upd_hk (\<lambda>h. h\<lparr>RtsActiveCtr := RtsActiveCtr h + 1\<rparr>) s2)"

definition start_failed :: "uint16 \<Rightarrow> sc \<Rightarrow> sc" where
  "start_failed e s = upd_hk (\<lambda>h. h\<lparr>RtsActiveErrCtr := RtsActiveErrCtr h + 1\<rparr>) (sc_rejected e s)"

definition SC_StartRtsCmd :: "uint16 \<Rightarrow> sc \<Rightarrow> sc" where
  "SC_StartRtsCmd RtsNum s =
     (if SC_RtsNumIsValid RtsNum then
        (let RtsIndex = SC_RtsNumToIndex RtsNum; RtsInfoPtr = SC_GetRtsInfoObject RtsIndex s
         in if \<not> DisabledFlag RtsInfoPtr then
              (if RtsStatus RtsInfoPtr = SC_Status_LOADED then
                 (let CmdLength = msg_size (rts_msg (SC_GetRtsEntryAtOffset RtsIndex SC_ENTRY_OFFSET_FIRST s))
                  in if SC_PACKET_MIN_SIZE \<le> CmdLength \<and> CmdLength \<le> SC_PACKET_MAX_SIZE then
                       CFE_EVS_SendEvent_SC
                         (if unat RtsNum \<le> SC_LAST_RTS_WITH_EVENTS then SC_RTS_START_INF_EID else SC_STARTRTS_CMD_DBG_EID)
                         (sc_accepted (begin_rts RtsIndex s))
                     else start_failed SC_STARTRTS_CMD_INVLD_LEN_ERR_EID s)
               else start_failed SC_STARTRTS_CMD_NOT_LDED_ERR_EID s)
            else start_failed SC_STARTRTS_CMD_DISABLED_ERR_EID s)
      else start_failed SC_STARTRTS_CMD_INVALID_ERR_EID s)"

definition SC_KillRts :: "uint16 \<Rightarrow> sc \<Rightarrow> sc" where
  "SC_KillRts RtsIndex s =
     (if \<not> SC_RtsIndexIsValid RtsIndex then CFE_EVS_SendEvent_SC SC_KILLRTS_INV_INDEX_ERR_EID s
      else if RtsStatus (SC_GetRtsInfoObject RtsIndex s) = SC_Status_EXECUTING then
        upd_rtp (\<lambda>b. if 0 < NumRtsActive b then b\<lparr>NumRtsActive := NumRtsActive b - 1\<rparr> else b)
          (upd_rts RtsIndex (\<lambda>r. r\<lparr>RtsStatus := SC_Status_LOADED, NextCommandTgtWakeup := SC_MAX_WAKEUP_CNT\<rparr>) s)
      else s)"

definition SC_StopRtsCmd :: "uint16 \<Rightarrow> sc \<Rightarrow> sc" where
  "SC_StopRtsCmd RtsNum s =
     (if SC_RtsNumIsValid RtsNum
      then CFE_EVS_SendEvent_SC SC_STOPRTS_CMD_INF_EID (sc_accepted (SC_KillRts (SC_RtsNumToIndex RtsNum) s))
      else sc_rejected SC_STOPRTS_CMD_ERR_EID s)"

subsection \<open>Enabling and disabling\<close>

definition set_disabled :: "bool \<Rightarrow> uint16 \<Rightarrow> sc \<Rightarrow> sc" where
  "set_disabled b RtsIndex = upd_rts RtsIndex (\<lambda>r. r\<lparr>DisabledFlag := b\<rparr>)"

definition SC_DisableRtsCmd :: "uint16 \<Rightarrow> sc \<Rightarrow> sc" where
  "SC_DisableRtsCmd RtsNum s =
     (if SC_RtsNumIsValid RtsNum
      then CFE_EVS_SendEvent_SC SC_DISABLE_RTS_INF_EID (sc_accepted (set_disabled True (SC_RtsNumToIndex RtsNum) s))
      else sc_rejected SC_DISRTS_CMD_ERR_EID s)"

definition SC_EnableRtsCmd :: "uint16 \<Rightarrow> sc \<Rightarrow> sc" where
  "SC_EnableRtsCmd RtsNum s =
     (if SC_RtsNumIsValid RtsNum
      then CFE_EVS_SendEvent_SC SC_ENABLE_RTS_INF_EID (sc_accepted (set_disabled False (SC_RtsNumToIndex RtsNum) s))
      else sc_rejected SC_ENARTS_CMD_ERR_EID s)"

subsection \<open>Groups\<close>

text \<open>
  A group command checks the range, treats each sequence, reports the range and counts itself. The number of
  sequences that were changed is only a part of the text of the event.
\<close>

definition rts_range :: "uint16 \<Rightarrow> uint16 \<Rightarrow> uint16 list" where
  "rts_range FirstRtsNum LastRtsNum =
     map of_nat [unat (SC_RtsNumToIndex FirstRtsNum)..<Suc (unat (SC_RtsNumToIndex LastRtsNum))]"

definition rts_group ::
  "(uint16 \<Rightarrow> sc \<Rightarrow> sc) \<Rightarrow> uint16 \<Rightarrow> uint16 \<Rightarrow> uint16 \<Rightarrow> uint16 \<Rightarrow> sc \<Rightarrow> sc" where
  "rts_group f info err FirstRtsNum LastRtsNum s =
     (if SC_RtsNumValidateRange FirstRtsNum LastRtsNum
      then sc_accepted (CFE_EVS_SendEvent_SC info (fold f (rts_range FirstRtsNum LastRtsNum) s))
      else sc_rejected err s)"

definition group_failed :: "uint16 \<Rightarrow> sc \<Rightarrow> sc" where
  "group_failed e s = upd_hk (\<lambda>h. h\<lparr>RtsActiveErrCtr := RtsActiveErrCtr h + 1\<rparr>) (CFE_EVS_SendEvent_SC e s)"

definition start_in_group :: "uint16 \<Rightarrow> sc \<Rightarrow> sc" where
  "start_in_group RtsIndex s =
     (let RtsInfoPtr = SC_GetRtsInfoObject RtsIndex s
      in if \<not> DisabledFlag RtsInfoPtr then
           (if RtsStatus RtsInfoPtr = SC_Status_LOADED then begin_rts RtsIndex s
            else group_failed SC_STARTRTSGRP_CMD_NOT_LDED_ERR_EID s)
         else group_failed SC_STARTRTSGRP_CMD_DISABLED_ERR_EID s)"

definition stop_in_group :: "uint16 \<Rightarrow> sc \<Rightarrow> sc" where
  "stop_in_group RtsIndex s =
     (if RtsStatus (SC_GetRtsInfoObject RtsIndex s) = SC_Status_EXECUTING then SC_KillRts RtsIndex s else s)"

definition disable_in_group :: "uint16 \<Rightarrow> sc \<Rightarrow> sc" where
  "disable_in_group RtsIndex s =
     (if \<not> DisabledFlag (SC_GetRtsInfoObject RtsIndex s) then set_disabled True RtsIndex s else s)"

definition enable_in_group :: "uint16 \<Rightarrow> sc \<Rightarrow> sc" where
  "enable_in_group RtsIndex s =
     (if DisabledFlag (SC_GetRtsInfoObject RtsIndex s) then set_disabled False RtsIndex s else s)"

definition SC_StartRtsGrpCmd :: "uint16 \<Rightarrow> uint16 \<Rightarrow> sc \<Rightarrow> sc" where
  "SC_StartRtsGrpCmd = rts_group start_in_group SC_STARTRTSGRP_CMD_INF_EID SC_STARTRTSGRP_CMD_ERR_EID"

definition SC_StopRtsGrpCmd :: "uint16 \<Rightarrow> uint16 \<Rightarrow> sc \<Rightarrow> sc" where
  "SC_StopRtsGrpCmd = rts_group stop_in_group SC_STOPRTSGRP_CMD_INF_EID SC_STOPRTSGRP_CMD_ERR_EID"

definition SC_DisableRtsGrpCmd :: "uint16 \<Rightarrow> uint16 \<Rightarrow> sc \<Rightarrow> sc" where
  "SC_DisableRtsGrpCmd = rts_group disable_in_group SC_DISRTSGRP_CMD_INF_EID SC_DISRTSGRP_CMD_ERR_EID"

definition SC_EnableRtsGrpCmd :: "uint16 \<Rightarrow> uint16 \<Rightarrow> sc \<Rightarrow> sc" where
  "SC_EnableRtsGrpCmd = rts_group enable_in_group SC_ENARTSGRP_CMD_INF_EID SC_ENARTSGRP_CMD_ERR_EID"

subsection \<open>The sequence that runs after a reset\<close>

text \<open>The application sends itself a command of 12 bytes; the bus completes its header.\<close>

definition SC_AutoStartRts :: "sc_services \<Rightarrow> uint16 \<Rightarrow> sc \<Rightarrow> sc" where
  "SC_AutoStartRts v RtsNum s =
     (if SC_RtsNumIsValid RtsNum then
        (let m1 = snd (CFE_MSG_Init (Some (replicate 12 0)) SC_CMD_MID 12);
             m2 = the (snd (CFE_MSG_SetFcnCode m1 SC_START_RTS_CC));
             CmdPkt = m2[8 := ucast RtsNum, 9 := ucast (drop_bit 8 RtsNum)]
         in snd (sc_transmit v CmdPkt True s))
      else CFE_EVS_SendEvent_SC SC_AUTOSTART_RTS_INV_ID_ERR_EID s)"

subsection \<open>The next sequence\<close>

text \<open>
  \<open>SC_GetNextRtsTime\<close> runs through the sequences from the last to the first, and takes each that is due no later
  than the one it has.
\<close>

definition earlier_rts :: "SC_RtsInfoEntry list \<Rightarrow> nat \<Rightarrow> uint16 \<times> uint32 \<Rightarrow> uint16 \<times> uint32" where
  "earlier_rts tbl i next =
     (let RtsInfoPtr = tbl ! i
      in if RtsStatus RtsInfoPtr = SC_Status_EXECUTING \<and> NextCommandTgtWakeup RtsInfoPtr \<le> snd next
         then (of_nat i, NextCommandTgtWakeup RtsInfoPtr) else next)"

definition SC_GetNextRtsTime :: "sc \<Rightarrow> sc" where
  "SC_GetNextRtsTime s =
     (let (NextRts, NextWakeupCnt) =
            fold (earlier_rts (RtsInfo s)) (rev [0..<SC_NUMBER_OF_RTS]) (SC_INVALID_RTS_INDEX, SC_MAX_WAKEUP_CNT)
      in if \<not> SC_RtsIndexIsValid NextRts
         then (upd_rtp (\<lambda>b. b\<lparr>CurrRtsNum := SC_RTS_NUM_NULL\<rparr>) s)\<lparr>NextCmdTime_RTP := SC_MAX_WAKEUP_CNT\<rparr>
         else (upd_rtp (\<lambda>b. b\<lparr>CurrRtsNum := SC_RtsIndexToNum NextRts\<rparr>) s)\<lparr>NextCmdTime_RTP := NextWakeupCnt\<rparr>)"

subsection \<open>The next command of a sequence\<close>

text \<open>The error counters of a sequence whose command at an offset is bad.\<close>

definition rts_cmd_error :: "uint16 \<Rightarrow> uint16 \<Rightarrow> sc \<Rightarrow> sc" where
  "rts_cmd_error RtsIndex CmdOffset s =
     upd_hk (\<lambda>h. h\<lparr>RtsCmdErrCtr := RtsCmdErrCtr h + 1, LastRtsErrSeq := CurrRtsNum (RtsCtrlBlck s),
         LastRtsErrCmd := CmdOffset\<rparr>)
       (upd_rts RtsIndex (\<lambda>r. r\<lparr>Rts_CmdErrCtr := Rts_CmdErrCtr r + 1\<rparr>) s)"

definition rts_complete :: "uint16 \<Rightarrow> sc \<Rightarrow> sc" where
  "rts_complete RtsIndex s =
     (let s1 = SC_KillRts RtsIndex s
      in if SC_RtsNumHasEvent (CurrRtsNum (RtsCtrlBlck s1)) then CFE_EVS_SendEvent_SC SC_RTS_COMPL_INF_EID s1 else s1)"

definition rts_command_at :: "uint16 \<Rightarrow> uint16 \<Rightarrow> sc \<Rightarrow> sc" where
  "rts_command_at RtsIndex CmdOffset s =
     (if SC_IDX_WITHIN_LIMIT CmdOffset (1 + SC_RTS_BUFF_SIZE32 - SC_RTS_HDR_WORDS) then
        (let EntryPtr = SC_GetRtsEntryAtOffset RtsIndex CmdOffset s; CmdLength = msg_size (rts_msg EntryPtr)
         in if SC_PACKET_MIN_SIZE \<le> CmdLength then
              (if CmdLength \<le> SC_PACKET_MAX_SIZE then
                 (if SC_IDX_WITHIN_LIMIT (SC_EntryOffsetAdvance CmdOffset (CmdLength + of_nat SC_RTS_HEADER_SIZE))
                       (1 + SC_RTS_BUFF_SIZE32)
                  then upd_rts RtsIndex (\<lambda>r. r\<lparr>NextCommandTgtWakeup := SC_ComputeAbsWakeup (rts_wakeup EntryPtr) s,
                         NextCommandPtr := CmdOffset\<rparr>) s
                  else CFE_EVS_SendEvent_SC SC_RTS_LNGTH_ERR_EID (SC_KillRts RtsIndex (rts_cmd_error RtsIndex CmdOffset s)))
               else CFE_EVS_SendEvent_SC SC_RTS_CMD_LNGTH_ERR_EID (SC_KillRts RtsIndex (rts_cmd_error RtsIndex CmdOffset s)))
            else rts_complete RtsIndex s)
      else rts_complete RtsIndex s)"

definition SC_GetNextRtsCommand :: "sc \<Rightarrow> sc" where
  "SC_GetNextRtsCommand s =
     (let RtsIndex = SC_RtsNumToIndex (CurrRtsNum (RtsCtrlBlck s))
      in if SC_RtsIndexIsValid RtsIndex \<and> RtsStatus (SC_GetRtsInfoObject RtsIndex s) = SC_Status_EXECUTING then
           (let CmdOffset = NextCommandPtr (SC_GetRtsInfoObject RtsIndex s);
                CmdLength = msg_size (rts_msg (SC_GetRtsEntryAtOffset RtsIndex CmdOffset s)) + of_nat SC_RTS_HEADER_SIZE
            in rts_command_at RtsIndex (SC_EntryOffsetAdvance CmdOffset CmdLength) s)
         else s)"

subsection \<open>Sending a command of a sequence (sc_cmds.c)\<close>

definition rts_stopped :: "uint16 \<Rightarrow> uint16 \<Rightarrow> uint16 \<Rightarrow> sc \<Rightarrow> sc" where
  "rts_stopped e RtsIndex CmdOffset s =
     SC_KillRts RtsIndex (rts_cmd_error RtsIndex CmdOffset (CFE_EVS_SendEvent_SC e s))"

definition SC_ProcessRtpCommand :: "sc_services \<Rightarrow> sc \<Rightarrow> sc" where
  "SC_ProcessRtpCommand v s =
     (let RtsIndex = SC_RtsNumToIndex (CurrRtsNum (RtsCtrlBlck s)); RtsInfoPtr = SC_GetRtsInfoObject RtsIndex s
      in if \<not> SC_RtsIndexIsValid RtsIndex then s
         else if NextCmdTime_RTP s \<le> CurrentWakeupCount s \<and> RtsStatus RtsInfoPtr = SC_Status_EXECUTING then
           (let s1 = s\<lparr>NumCmdsWakeup := NumCmdsWakeup s + 1\<rparr>;
                CmdOffset = NextCommandPtr RtsInfoPtr;
                m = rts_msg (SC_GetRtsEntryAtOffset RtsIndex CmdOffset s1)
            in if checksum_valid m s1 then
                 (case sc_transmit v (stored_command m) (EnableHeaderUpdate s1) s1 of
                    (Result, s2) \<Rightarrow>
                      if Result = CFE_SUCCESS then
                        SC_GetNextRtsCommand
                          (upd_rts RtsIndex (\<lambda>r. r\<lparr>Rts_CmdCtr := Rts_CmdCtr r + 1\<rparr>)
                            (upd_hk (\<lambda>h. h\<lparr>RtsCmdCtr := RtsCmdCtr h + 1\<rparr>) s2))
                      else rts_stopped SC_RTS_DIST_ERR_EID RtsIndex CmdOffset s2)
               else rts_stopped SC_RTS_CHKSUM_ERR_EID RtsIndex CmdOffset s1)
         else s)"

end
