(* ===== verification/Sc_Loads.thy ===== *)
theory Sc_Loads
  imports Sc_Defs
begin

section \<open>Stored commands: loading tables\<close>

text \<open>
  The validation of loaded tables and the lists built from an absolute time sequence (\<open>sc_loads.c\<close>). For each
  of the 1000 command numbers a sequence has the offset of its command and a status; the list of command
  numbers in the order of their times is kept by insertion. Its loop index \<open>TimeBufIndex\<close> is one less than the
  slot that the model counts, so that \<open>-1\<close> is slot 0.
\<close>

lemma unat_advance:
  "unat off + unat (Bytes + 3) div 4 < 65536 \<Longrightarrow> unat (SC_EntryOffsetAdvance off Bytes) = unat off + unat (Bytes + 3) div 4"
  unfolding SC_EntryOffsetAdvance_def by (rule unat_of_nat_small) simp

lemma unat_size_add:
  fixes n k :: size_t
  shows "n \<le> SC_PACKET_MAX_SIZE \<Longrightarrow> unat k < 1000 \<Longrightarrow> unat (n + k) = unat n + unat k"
  by (rule unat_plus_small) (simp add: word_le_nat_alt sc_const)

subsection \<open>The time-ordered list\<close>

definition ats_cmd_time :: "uint16 \<Rightarrow> uint16 \<Rightarrow> sc \<Rightarrow> uint32" where
  "ats_cmd_time AtsIndex CmdIndex s =
     SC_GetAtsEntryTime (SC_GetAtsEntryAtOffset AtsIndex (SC_GetAtsEntryOffsetForCmd AtsIndex CmdIndex s) s)"

primrec insert_slot :: "uint16 \<Rightarrow> uint32 \<Rightarrow> nat \<Rightarrow> sc \<Rightarrow> nat \<times> sc" where
  "insert_slot AtsIndex NewCmdTime 0 s = (0, s)"
| "insert_slot AtsIndex NewCmdTime (Suc k) s =
     (let CmdNum = SC_GetAtsCommandNumAtSeq AtsIndex (of_nat k) s;
          ListCmdTime = ats_cmd_time AtsIndex (SC_CommandNumToIndex CmdNum) s
      in if SC_CompareAbsTime ListCmdTime NewCmdTime
         then insert_slot AtsIndex NewCmdTime k (set_cmd_num AtsIndex (of_nat (Suc k)) CmdNum s)
         else (Suc k, s))"

definition SC_Insert :: "uint16 \<Rightarrow> uint16 \<Rightarrow> nat \<Rightarrow> sc \<Rightarrow> sc" where
  "SC_Insert AtsIndex NewCmdIndex ListLength s =
     (if \<not> SC_AtsIndexIsValid AtsIndex then CFE_EVS_SendEvent_SC SC_INSERTATS_INV_INDEX_ERR_EID s
      else
        (let NewCmdTime = (if 0 < ListLength then ats_cmd_time AtsIndex NewCmdIndex s else 0);
             (slot, s1) = insert_slot AtsIndex NewCmdTime ListLength s
         in set_cmd_num AtsIndex (of_nat slot) (SC_CommandIndexToNum NewCmdIndex) s1))"

definition index_command :: "uint16 \<Rightarrow> nat \<Rightarrow> nat \<times> sc \<Rightarrow> nat \<times> sc" where
  "index_command AtsIndex i x =
     (case x of (ListLength, s) \<Rightarrow>
        (let s1 = set_cmd_num AtsIndex (of_nat i) SC_INVALID_CMD_NUMBER s
         in if SC_GetAtsEntryOffsetForCmd AtsIndex (of_nat i) s1 \<noteq> SC_ENTRY_OFFSET_INVALID
            then (ListLength + 1, SC_Insert AtsIndex (of_nat i) ListLength s1) else (ListLength, s1)))"

definition SC_BuildTimeIndexTable :: "uint16 \<Rightarrow> sc \<Rightarrow> sc" where
  "SC_BuildTimeIndexTable AtsIndex s =
     (if \<not> SC_AtsIndexIsValid AtsIndex then CFE_EVS_SendEvent_SC SC_BUILD_TIME_IDXTBL_ERR_EID s
      else snd (fold (index_command AtsIndex) [0..<SC_MAX_ATS_CMDS] (0, s)))"

subsection \<open>Loading an absolute time sequence\<close>

definition clear_command :: "uint16 \<Rightarrow> nat \<Rightarrow> sc \<Rightarrow> sc" where
  "clear_command AtsIndex i s =
     set_cmd_num AtsIndex (of_nat i) SC_INVALID_CMD_NUMBER
       (set_cmd_status AtsIndex (of_nat i) SC_Status_EMPTY
         (set_cmd_offset AtsIndex (of_nat i) SC_ENTRY_OFFSET_INVALID s))"

definition SC_InitAtsTables :: "uint16 \<Rightarrow> sc \<Rightarrow> sc" where
  "SC_InitAtsTables AtsIndex s =
     (if \<not> SC_AtsIndexIsValid AtsIndex then CFE_EVS_SendEvent_SC SC_INIT_ATSTBL_INV_INDEX_ERR_EID s
      else upd_ats AtsIndex (\<lambda>i. i\<lparr>AtsSize := 0, NumberOfCommands := 0\<rparr>)
             (fold (clear_command AtsIndex) [0..<SC_MAX_ATS_CMDS] s))"

definition load_command :: "uint16 \<Rightarrow> uint16 \<Rightarrow> uint16 \<Rightarrow> sc \<Rightarrow> sc" where
  "load_command AtsIndex CmdIndex Offset s =
     upd_ats AtsIndex (\<lambda>i. i\<lparr>NumberOfCommands := NumberOfCommands i + 1\<rparr>)
       (set_cmd_status AtsIndex CmdIndex SC_Status_LOADED (set_cmd_offset AtsIndex CmdIndex Offset s))"

text \<open>The loop gives whether the load is good, the index where it stopped, and the state.\<close>

function load_entries :: "uint16 \<Rightarrow> uint16 \<Rightarrow> sc \<Rightarrow> bool \<times> uint16 \<times> sc" where
  "load_entries AtsIndex AtsEntryIndex s =
     (if SC_IDX_WITHIN_LIMIT AtsEntryIndex SC_ATS_BUFF_SIZE32 then
        (let EntryPtr = SC_GetAtsEntryAtOffset AtsIndex AtsEntryIndex s;
             AtsCmdNum = ats_number EntryPtr;
             CmdIndex = SC_CommandNumToIndex AtsCmdNum;
             MessageSize = msg_size (ats_msg EntryPtr);
             PendingEntryIndex = SC_EntryOffsetAdvance AtsEntryIndex (MessageSize + of_nat SC_ATS_HEADER_SIZE)
         in if AtsCmdNum = 0 then (True, AtsEntryIndex, s)
            else if \<not> SC_AtsCommandNumIsValid AtsCmdNum then (False, AtsEntryIndex, s)
            else if \<not> SC_IDX_WITHIN_LIMIT AtsEntryIndex (1 + (SC_ATS_BUFF_SIZE32 - SC_ATS_HDR_WORDS))
            then (False, AtsEntryIndex, s)
            else if SC_GetAtsStatusEntryForCommand AtsIndex CmdIndex s \<noteq> SC_Status_EMPTY then (False, AtsEntryIndex, s)
            else if \<not> (SC_PACKET_MIN_SIZE \<le> MessageSize \<and> MessageSize \<le> SC_PACKET_MAX_SIZE)
            then (False, AtsEntryIndex, s)
            else if \<not> SC_IDX_WITHIN_LIMIT PendingEntryIndex (1 + SC_ATS_BUFF_SIZE32) then (False, AtsEntryIndex, s)
            else load_entries AtsIndex PendingEntryIndex (load_command AtsIndex CmdIndex AtsEntryIndex s))
      else (True, AtsEntryIndex, s))"
  by pat_completeness auto

lemma advance_ats:
  assumes "MessageSize \<le> SC_PACKET_MAX_SIZE" "unat off < SC_ATS_BUFF_SIZE32"
  shows "unat (SC_EntryOffsetAdvance off (MessageSize + of_nat SC_ATS_HEADER_SIZE)) = unat off + (unat MessageSize + 11) div 4"
proof -
  have m: "unat MessageSize \<le> 256" using assms(1) by (simp add: word_le_nat_alt sc_const)
  have "unat (MessageSize + of_nat SC_ATS_HEADER_SIZE + 3) = unat MessageSize + 11"
    using unat_size_add [OF assms(1), of 11] by (simp add: sc_const add.assoc)
  moreover have "(unat MessageSize + 11) div 4 < 100" using m by linarith
  ultimately show ?thesis using assms(2) by (simp add: unat_advance sc_const)
qed

termination load_entries
proof (relation "measure (\<lambda>(a, off, s). SC_ATS_BUFF_SIZE32 - unat off)", simp, goal_cases)
  case (1 a off s entry num cmd n nx)
  have "0 < (unat n + 11) div 4" by simp
  then show ?case
    using 1 advance_ats [of n off] by (simp add: SC_IDX_WITHIN_LIMIT_def)
qed

declare load_entries.simps [simp del]

definition SC_LoadAts :: "uint16 \<Rightarrow> sc \<Rightarrow> sc" where
  "SC_LoadAts AtsIndex s =
     (if \<not> SC_AtsIndexIsValid AtsIndex then CFE_EVS_SendEvent_SC SC_LOADATS_INV_INDEX_ERR_EID s
      else
        (let (Result, AtsEntryIndex, s1) = load_entries AtsIndex SC_ENTRY_OFFSET_FIRST (SC_InitAtsTables AtsIndex s)
         in if Result \<and> 0 < NumberOfCommands (SC_GetAtsInfoObject AtsIndex s1)
            then SC_BuildTimeIndexTable AtsIndex (upd_ats AtsIndex (\<lambda>i. i\<lparr>AtsSize := ucast AtsEntryIndex\<rparr>) s1)
            else SC_InitAtsTables AtsIndex s1))"

subsection \<open>Loading a relative time sequence\<close>

definition SC_LoadRts :: "uint16 \<Rightarrow> sc \<Rightarrow> sc" where
  "SC_LoadRts RtsIndex s =
     (if SC_RtsIndexIsValid RtsIndex
      then upd_rts RtsIndex (\<lambda>r. r\<lparr>RtsStatus := SC_Status_LOADED, UseCtr := 0, Rts_CmdCtr := 0, Rts_CmdErrCtr := 0,
             NextCommandTgtWakeup := 0, NextCommandPtr := SC_ENTRY_OFFSET_FIRST, DisabledFlag := True\<rparr>) s
      else CFE_EVS_SendEvent_SC SC_LOADRTS_INV_INDEX_ERR_EID s)"

subsection \<open>Validation\<close>

definition msg_id :: "message \<Rightarrow> CFE_SB_MsgId" where
  "msg_id m = (case CFE_MSG_GetMsgId (Some m) True of Inl _ \<Rightarrow> CFE_SB_INVALID_MSG_ID | Inr i \<Rightarrow> i)"

text \<open>The number of words from one entry to the next, cut to 16 bits as the code does.\<close>

definition rts_delta :: "size_t \<Rightarrow> uint16" where
  "rts_delta CmdSize = of_nat (unat (CmdSize + of_nat SC_RTS_HEADER_SIZE + of_nat SC_ROUND_UP_BYTES) div 4)"

lemma unat_rts_delta: "CmdSize \<le> SC_PACKET_MAX_SIZE \<Longrightarrow> unat (rts_delta CmdSize) = (unat CmdSize + 7) div 4"
proof -
  assume a: "CmdSize \<le> SC_PACKET_MAX_SIZE"
  then have "unat CmdSize \<le> 256" by (simp add: word_le_nat_alt sc_const)
  moreover have "unat (CmdSize + of_nat SC_RTS_HEADER_SIZE + of_nat SC_ROUND_UP_BYTES) = unat CmdSize + 7"
    using unat_size_add [OF a, of 7] by (simp add: sc_const add.assoc)
  ultimately show ?thesis unfolding rts_delta_def by (simp add: unat_of_nat_small)
qed

function SC_ParseRts :: "uint8 list \<Rightarrow> uint16 \<Rightarrow> sc \<Rightarrow> bool \<times> sc" where
  "SC_ParseRts Buffer i s =
     (if SC_IDX_WITHIN_LIMIT i (SC_RTS_BUFF_SIZE32 - SC_RTS_HDR_WORDS + 1) then
        (let EntryPtr = table_entry Buffer (unat i);
             CmdSize = msg_size (rts_msg EntryPtr);
             IndexDelta = rts_delta CmdSize
         in if \<not> CFE_SB_IsValidMsgId (msg_id (rts_msg EntryPtr)) then
              (if rts_wakeup EntryPtr = 0 then (True, s)
               else (False, CFE_EVS_SendEvent_SC SC_RTS_INVLD_MID_ERR_EID s))
            else if CmdSize < SC_PACKET_MIN_SIZE \<or> SC_PACKET_MAX_SIZE < CmdSize
            then (False, CFE_EVS_SendEvent_SC SC_RTS_LEN_ERR_EID s)
            else if SC_RTS_BUFF_SIZE32 < unat i + unat IndexDelta
            then (False, CFE_EVS_SendEvent_SC SC_RTS_LEN_BUFFER_ERR_EID s)
            else if unat i + unat IndexDelta = SC_RTS_BUFF_SIZE32 then (True, s)
            else SC_ParseRts Buffer (i + IndexDelta) s)
      else if le32 Buffer (4 * unat i) = 0 then (True, s)
      else (False, CFE_EVS_SendEvent_SC SC_RTS_LEN_TOO_LONG_ERR_EID s))"
  by pat_completeness auto

lemma parse_step:
  assumes "CmdSize \<le> SC_PACKET_MAX_SIZE" "unat i \<le> SC_RTS_BUFF_SIZE32"
  shows "unat (i + rts_delta CmdSize) = unat i + (unat CmdSize + 7) div 4"
proof -
  have "unat CmdSize \<le> 256" using assms(1) by (simp add: word_le_nat_alt sc_const)
  then have "(unat CmdSize + 7) div 4 < 100" by linarith
  then show ?thesis
    using assms(2) unat_plus_small [of i "rts_delta CmdSize"] by (simp add: unat_rts_delta [OF assms(1)] sc_const)
qed

termination SC_ParseRts
proof (relation "measure (\<lambda>(b, i, s). SC_RTS_BUFF_SIZE32 - unat i)", simp, goal_cases)
  case (1 b i s entry n d)
  have n: "n \<le> SC_PACKET_MAX_SIZE" using 1 by auto
  have i: "unat i < SC_RTS_BUFF_SIZE32" using 1(1) by (simp add: SC_IDX_WITHIN_LIMIT_def sc_const)
  have "0 < (unat n + 7) div 4" by simp
  then show ?case using parse_step [OF n, of i] i 1(4) by simp
qed

declare SC_ParseRts.simps [simp del]

definition SC_ValidateRts :: "uint8 list \<Rightarrow> sc \<Rightarrow> int \<times> sc" where
  "SC_ValidateRts TableData s =
     (case SC_ParseRts TableData 0 s of (ok, s1) \<Rightarrow> (if ok then 0 else SC_ERROR, s1))"

text \<open>\<open>CFE_SUCCESS\<close> is 0. Any other result but \<open>SC_ERROR\<close> is the length of the entry in words.\<close>

definition SC_VerifyAtsEntry :: "uint8 list \<Rightarrow> nat \<Rightarrow> nat \<Rightarrow> sc \<Rightarrow> int \<times> sc" where
  "SC_VerifyAtsEntry Buffer EntryIndex BufferWords s =
     (let EntryPtr = table_entry Buffer EntryIndex;
          CmdNumber = ats_number EntryPtr;
          CommandBytes = msg_size (ats_msg EntryPtr);
          CommandWords = unat (CommandBytes + of_nat SC_ROUND_UP_BYTES) div SC_BYTES_IN_WORD;
          k = unat (SC_CommandNumToIndex CmdNumber)
      in if BufferWords \<le> EntryIndex then (0, s)
         else if CmdNumber = 0 then (0, s)
         else if \<not> SC_AtsCommandNumIsValid CmdNumber
         then (SC_ERROR, CFE_EVS_SendEvent_SC SC_VERIFY_ATS_NUM_ERR_EID s)
         else if BufferWords < EntryIndex + SC_ATS_HDR_WORDS
         then (SC_ERROR, CFE_EVS_SendEvent_SC SC_VERIFY_ATS_END_ERR_EID s)
         else if CommandBytes < SC_PACKET_MIN_SIZE \<or> SC_PACKET_MAX_SIZE < CommandBytes
         then (SC_ERROR, CFE_EVS_SendEvent_SC SC_VERIFY_ATS_PKT_ERR_EID s)
         else if BufferWords < EntryIndex + SC_ATS_HDR_NOPKT_WORDS + CommandWords
         then (SC_ERROR, CFE_EVS_SendEvent_SC SC_VERIFY_ATS_BUF_ERR_EID s)
         else if AtsDupTestArray s ! k \<noteq> SC_DUP_TEST_UNUSED
         then (SC_ERROR, CFE_EVS_SendEvent_SC SC_VERIFY_ATS_DUP_ERR_EID s)
         else (int (SC_ATS_HDR_NOPKT_WORDS + CommandWords),
               s\<lparr>AtsDupTestArray := (AtsDupTestArray s)[k := int EntryIndex]\<rparr>))"

lemma verify_entry_bounds:
  "SC_VerifyAtsEntry b i n s = (r, t) \<Longrightarrow> r \<noteq> SC_ERROR \<Longrightarrow> r \<noteq> 0 \<Longrightarrow> i < n \<and> 2 \<le> r \<and> i + nat r \<le> n"
  by (auto simp: SC_VerifyAtsEntry_def Let_def sc_const split: if_splits)

text \<open>The loop gives the result, the index where it stopped, and the number of commands.\<close>

function verify_entries :: "uint8 list \<Rightarrow> nat \<Rightarrow> nat \<Rightarrow> nat \<Rightarrow> sc \<Rightarrow> int \<times> nat \<times> nat \<times> sc" where
  "verify_entries Buffer BufferWords BufferIndex CommandCount s =
     (case SC_VerifyAtsEntry Buffer BufferIndex BufferWords s of
        (Result, s1) \<Rightarrow>
          if Result = SC_ERROR \<or> Result = 0 then (Result, BufferIndex, CommandCount, s1)
          else verify_entries Buffer BufferWords (BufferIndex + nat Result) (CommandCount + 1) s1)"
  by pat_completeness auto

termination verify_entries
  by (relation "measure (\<lambda>(b, n, i, c, s). n - i)") (auto dest!: verify_entry_bounds [OF sym])

declare verify_entries.simps [simp del]

definition SC_VerifyAtsTable :: "uint8 list \<Rightarrow> nat \<Rightarrow> sc \<Rightarrow> int \<times> sc" where
  "SC_VerifyAtsTable Buffer BufferWords s =
     (let (Result, BufferIndex, CommandCount, s1) =
            verify_entries Buffer BufferWords 0 0 (s\<lparr>AtsDupTestArray := replicate SC_MAX_ATS_CMDS SC_DUP_TEST_UNUSED\<rparr>)
      in if Result = 0 then
           (if CommandCount = 0 then (SC_ERROR, CFE_EVS_SendEvent_SC SC_VERIFY_ATS_MPT_ERR_EID s1)
            else (Result, CFE_EVS_SendEvent_SC SC_VERIFY_ATS_EID s1))
         else (Result, s1))"

definition SC_ValidateAts :: "uint8 list \<Rightarrow> sc \<Rightarrow> int \<times> sc" where
  "SC_ValidateAts TableData = SC_VerifyAtsTable TableData SC_ATS_BUFF_SIZE32"

definition SC_ValidateAppend :: "uint8 list \<Rightarrow> sc \<Rightarrow> int \<times> sc" where
  "SC_ValidateAppend TableData = SC_VerifyAtsTable TableData SC_APPEND_BUFF_SIZE32"

subsection \<open>The table of commands to append\<close>

text \<open>The loop counts the words and the entries of the table in front of the first entry that is not good.\<close>

function count_append :: "uint8 list \<Rightarrow> nat \<Rightarrow> nat \<Rightarrow> nat \<times> nat" where
  "count_append Buffer EntryIndex EntryCount =
     (let EntryPtr = table_entry Buffer EntryIndex;
          CommandBytes = msg_size (ats_msg EntryPtr);
          CommandWords = unat (CommandBytes + of_nat SC_ROUND_UP_BYTES) div SC_BYTES_IN_WORD
      in if SC_APPEND_BUFF_SIZE32 \<le> EntryIndex then (EntryIndex, EntryCount)
         else if \<not> SC_AtsCommandNumIsValid (ats_number EntryPtr) then (EntryIndex, EntryCount)
         else if CommandBytes < SC_PACKET_MIN_SIZE \<or> SC_PACKET_MAX_SIZE < CommandBytes then (EntryIndex, EntryCount)
         else if SC_APPEND_BUFF_SIZE32 < EntryIndex + SC_ATS_HDR_NOPKT_WORDS + CommandWords
         then (EntryIndex, EntryCount)
         else count_append Buffer (EntryIndex + (SC_ATS_HDR_NOPKT_WORDS + CommandWords)) (EntryCount + 1))"
  by pat_completeness auto

termination count_append
  by (relation "measure (\<lambda>(b, i, c). SC_APPEND_BUFF_SIZE32 - i)") (auto simp: sc_const)

declare count_append.simps [simp del]

definition SC_UpdateAppend :: "sc \<Rightarrow> sc" where
  "SC_UpdateAppend s =
     (let (EntryIndex, EntryCount) = count_append (AppendTbl s) 0 0;
          s1 = upd_hk (\<lambda>h. h\<lparr>AppendLoadCount := AppendLoadCount h + 1, AppendEntryCount := of_nat EntryCount,
                 AppendByteCount := of_nat (EntryIndex * SC_BYTES_IN_ATS_APPEND_ENTRY)\<rparr>) s
      in CFE_EVS_SendEvent_SC SC_UPDATE_APPEND_EID (s1\<lparr>AppendWordCount := of_nat EntryIndex\<rparr>))"

end
