(* ===== verification/Sc_Ats.thy ===== *)
theory Sc_Ats
  imports Sc_Loads
begin

section \<open>Stored commands: absolute time sequences\<close>

text \<open>
  The commands for absolute time sequences (\<open>sc_atsrq.c\<close>), appending to a sequence (\<open>sc_loads.c\<close>), and sending
  the next command (\<open>sc_state.c\<close>, \<open>sc_cmds.c\<close>). The state of the processor is idle, executing, or starting, the
  last only between an inline switch and the end of the command that made it.
\<close>

subsection \<open>Starting and stopping\<close>

definition SC_KillAts :: "sc \<Rightarrow> sc" where
  "SC_KillAts s =
     (let AtsIndex = SC_AtsNumToIndex (CurrAtsNum (AtsCtrlBlck s));
          s1 = (if SC_AtsIndexIsValid AtsIndex \<and> AtpState (AtsCtrlBlck s) \<noteq> SC_Status_IDLE
                then upd_ats AtsIndex (\<lambda>i. i\<lparr>AtsUseCtr := AtsUseCtr i + 1\<rparr>) s else s)
      in (upd_atp (\<lambda>b. b\<lparr>AtpState := SC_Status_IDLE\<rparr>) s1)\<lparr>NextCmdTime_ATP := SC_MAX_TIME\<rparr>)"

text \<open>
  The loop over the commands in the order of their times, up to the first that is not before the given time.
  Earlier commands are treated by \<open>skip\<close>. The result has the last command index and time that were read.
\<close>

lemma idx_increment: "SC_IDX_WITHIN_LIMIT i (unat n) \<Longrightarrow> unat (i + 1) = unat i + 1"
  for n :: uint16
  using unsigned_less [of n, where ?'a = nat] by (intro unat_Suc_small) (simp add: SC_IDX_WITHIN_LIMIT_def)

function skip_commands ::
  "(uint16 \<Rightarrow> nat \<times> sc \<Rightarrow> nat \<times> sc) \<Rightarrow> uint16 \<Rightarrow> uint32 \<Rightarrow> uint16 \<Rightarrow> uint16 \<Rightarrow> uint16 \<Rightarrow> uint32 \<Rightarrow> nat \<times> sc
     \<Rightarrow> uint16 \<times> uint16 \<times> uint32 \<times> nat \<times> sc" where
  "skip_commands skip AtsIndex start NumberOfCmds TimeIndex CmdIndex ListCmdTime x =
     (if SC_IDX_WITHIN_LIMIT TimeIndex (unat NumberOfCmds) then
        (let CmdIndex1 = SC_CommandNumToIndex (SC_GetAtsCommandNumAtSeq AtsIndex TimeIndex (snd x));
             ListCmdTime1 = ats_cmd_time AtsIndex CmdIndex1 (snd x)
         in if \<not> SC_AtsCommandIndexIsValid CmdIndex1
            then skip_commands skip AtsIndex start NumberOfCmds (TimeIndex + 1) CmdIndex1 ListCmdTime x
            else if SC_CompareAbsTime start ListCmdTime1
            then skip_commands skip AtsIndex start NumberOfCmds (TimeIndex + 1) CmdIndex1 ListCmdTime1 (skip CmdIndex1 x)
            else (TimeIndex, CmdIndex1, ListCmdTime1, x))
      else (TimeIndex, CmdIndex, ListCmdTime, x))"
  by pat_completeness auto

termination skip_commands
  by (relation "measure (\<lambda>(f, a, t, n, i, c, l, x). unat n - unat i)")
     (auto simp: idx_increment SC_IDX_WITHIN_LIMIT_def)

declare skip_commands.simps [simp del]

lemma skip_commands_inv:
  assumes "skip_commands f a t n i c l x = (i', c', l', x')" "P x" "\<And>c x. P x \<Longrightarrow> P (f c x)"
  shows "P x'"
  using assms
proof (induction f a t n i c l x rule: skip_commands.induct)
  case (1 f a t n i c l x)
  show ?case
    using 1(3-5) 1(1,2) [OF _ refl refl]
    by (subst (asm) skip_commands.simps) (auto simp: Let_def split: if_splits)
qed

definition skip_always :: "uint16 \<Rightarrow> uint16 \<Rightarrow> nat \<times> sc \<Rightarrow> nat \<times> sc" where
  "skip_always AtsIndex CmdIndex x = (fst x + 1, set_cmd_status AtsIndex CmdIndex SC_Status_SKIPPED (snd x))"

definition skip_loaded :: "uint16 \<Rightarrow> uint16 \<Rightarrow> nat \<times> sc \<Rightarrow> nat \<times> sc" where
  "skip_loaded AtsIndex CmdIndex x =
     (if SC_GetAtsStatusEntryForCommand AtsIndex CmdIndex (snd x) = SC_Status_LOADED
      then skip_always AtsIndex CmdIndex x else x)"

definition SC_BeginAts :: "uint16 \<Rightarrow> uint16 \<Rightarrow> sc \<Rightarrow> bool \<times> sc" where
  "SC_BeginAts AtsIndex TimeOffset s =
     (if \<not> SC_AtsIndexIsValid AtsIndex then (False, CFE_EVS_SendEvent_SC SC_BEGINATS_INVLD_INDEX_ERR_EID s)
      else
        (let TimeToStartAts = SC_ComputeAbsTime (ucast TimeOffset) s;
             n = NumberOfCommands (SC_GetAtsInfoObject AtsIndex s);
             (TimeIndex, CmdIndex, ListCmdTime, CmdsSkipped, s1) =
               skip_commands (skip_always AtsIndex) AtsIndex TimeToStartAts n SC_SEQUENCE_IDX_FIRST 0 0 (0, s)
         in if \<not> SC_IDX_WITHIN_LIMIT TimeIndex (unat n)
            then (False, SC_KillAts (CFE_EVS_SendEvent_SC SC_ATS_SKP_ALL_ERR_EID s1))
            else (True,
              (CFE_EVS_SendEvent_SC SC_ATS_ERR_SKP_DBG_EID
                (upd_atp (\<lambda>b. b\<lparr>CurrAtsNum := SC_AtsIndexToNum AtsIndex, CmdNumber := SC_CommandIndexToNum CmdIndex,
                   TimeIndexPtr := TimeIndex\<rparr>) s1))\<lparr>NextCmdTime_ATP := ListCmdTime\<rparr>)))"

definition set_atp_state :: "SC_Status \<Rightarrow> sc \<Rightarrow> sc" where
  "set_atp_state x = upd_atp (\<lambda>b. b\<lparr>AtpState := x\<rparr>)"

definition set_switch_pend :: "bool \<Rightarrow> sc \<Rightarrow> sc" where
  "set_switch_pend x = upd_atp (\<lambda>b. b\<lparr>SwitchPendFlag := x\<rparr>)"

definition sc_failed :: "sc \<Rightarrow> sc" where
  "sc_failed = upd_hk (\<lambda>h. h\<lparr>HK_CmdErrCtr := HK_CmdErrCtr h + 1\<rparr>)"

definition SC_StartAtsCmd :: "uint16 \<Rightarrow> sc \<Rightarrow> sc" where
  "SC_StartAtsCmd AtsNum s =
     (if SC_AtsNumIsValid AtsNum then
        (let AtsIndex = SC_AtsNumToIndex AtsNum
         in if AtpState (AtsCtrlBlck s) = SC_Status_IDLE then
              (if 0 < NumberOfCommands (SC_GetAtsInfoObject AtsIndex s) then
                 (case SC_BeginAts AtsIndex 0 s of
                    (True, s1) \<Rightarrow> CFE_EVS_SendEvent_SC SC_STARTATS_CMD_INF_EID
                                    (sc_accepted (set_atp_state SC_Status_EXECUTING s1))
                  | (False, s1) \<Rightarrow> sc_failed s1)
               else sc_rejected SC_STARTATS_CMD_NOT_LDED_ERR_EID s)
            else sc_rejected SC_STARTATS_CMD_NOT_IDLE_ERR_EID s)
      else sc_rejected SC_STARTATS_CMD_INVLD_ID_ERR_EID s)"

definition SC_StopAtsCmd :: "sc \<Rightarrow> sc" where
  "SC_StopAtsCmd s =
     (let s1 = CFE_EVS_SendEvent_SC (if SC_AtsNumIsValid (CurrAtsNum (AtsCtrlBlck s)) then SC_STOPATS_CMD_INF_EID
                 else SC_STOPATS_NO_ATS_INF_EID) s
      in sc_accepted (set_switch_pend False (SC_KillAts s1)))"

subsection \<open>Switching to the other sequence\<close>

text \<open>A command that fails clears the flag of a pending switch.\<close>

definition SC_SwitchAtsCmd :: "sc \<Rightarrow> sc" where
  "SC_SwitchAtsCmd s =
     (if SC_AtsNumIsValid (CurrAtsNum (AtsCtrlBlck s)) \<and> AtpState (AtsCtrlBlck s) = SC_Status_EXECUTING then
        (if 0 < NumberOfCommands (SC_GetAtsInfoObject (SC_ToggleAtsIndex s) s)
         then CFE_EVS_SendEvent_SC SC_SWITCH_ATS_CMD_INF_EID (sc_accepted (set_switch_pend True s))
         else set_switch_pend False (sc_rejected SC_SWITCH_ATS_CMD_NOT_LDED_ERR_EID s))
      else set_switch_pend False (sc_rejected SC_SWITCH_ATS_CMD_IDLE_ERR_EID s))"

definition SC_ServiceSwitchPend :: "sc \<Rightarrow> sc" where
  "SC_ServiceSwitchPend s =
     (if SC_CompareAbsTime (NextCmdTime_ATP s) (CurrentTime s) then
        set_switch_pend False
          (if AtpState (AtsCtrlBlck s) = SC_Status_EXECUTING then
             (let NewAtsIndex = SC_ToggleAtsIndex s
              in if 0 < NumberOfCommands (SC_GetAtsInfoObject NewAtsIndex s) then
                   (case SC_BeginAts NewAtsIndex 1 (SC_KillAts s) of
                      (True, s1) \<Rightarrow> CFE_EVS_SendEvent_SC SC_ATS_SERVICE_SWTCH_INF_EID (set_atp_state SC_Status_EXECUTING s1)
                    | (False, s1) \<Rightarrow> s1)
                 else CFE_EVS_SendEvent_SC SC_SERVICE_SWITCH_ATS_CMD_LDED_ERR_EID s)
           else CFE_EVS_SendEvent_SC SC_ATS_SERVICE_SWITCH_IDLE_ERR_EID s)
      else s)"

definition SC_InlineSwitch :: "sc \<Rightarrow> bool \<times> sc" where
  "SC_InlineSwitch s =
     (let NewAtsIndex = SC_ToggleAtsIndex s;
          (ReturnCode, s3) =
            (if 0 < NumberOfCommands (SC_GetAtsInfoObject NewAtsIndex s) then
               (case SC_BeginAts NewAtsIndex 0 (SC_KillAts s) of
                  (True, s1) \<Rightarrow> (True, sc_accepted (CFE_EVS_SendEvent_SC SC_ATS_INLINE_SWTCH_INF_EID
                                          (set_atp_state SC_Status_STARTING s1)))
                | (False, s1) \<Rightarrow> (False, sc_failed s1))
             else (False, sc_rejected SC_ATS_INLINE_SWTCH_NOT_LDED_ERR_EID s))
      in (ReturnCode, set_switch_pend False s3))"

subsection \<open>Jumping and continuing\<close>

text \<open>
  An event is sent when the loop stops at a command. The two error counters differ by nothing else from a
  start, but the number of the running sequence stays.
\<close>

definition SC_JumpAtsCmd :: "uint32 \<Rightarrow> sc \<Rightarrow> sc" where
  "SC_JumpAtsCmd JumpTime s =
     (if AtpState (AtsCtrlBlck s) = SC_Status_EXECUTING then
        (let AtsIndex = SC_AtsNumToIndex (CurrAtsNum (AtsCtrlBlck s));
             n = NumberOfCommands (SC_GetAtsInfoObject AtsIndex s);
             (TimeIndex, CmdIndex, ListCmdTime, NumSkipped, s1) =
               skip_commands (skip_loaded AtsIndex) AtsIndex JumpTime n SC_SEQUENCE_IDX_FIRST 0 0 (0, s)
         in if \<not> SC_IDX_WITHIN_LIMIT TimeIndex (unat n)
            then SC_KillAts (sc_rejected SC_JUMPATS_CMD_STOPPED_ERR_EID s1)
            else
              (let s2 = (upd_atp (\<lambda>b. b\<lparr>CmdNumber := SC_CommandIndexToNum CmdIndex, TimeIndexPtr := TimeIndex\<rparr>)
                          (CFE_EVS_SendEvent_SC SC_JUMPATS_CMD_LIST_INF_EID s1))\<lparr>NextCmdTime_ATP := ListCmdTime\<rparr>;
                   s3 = CFE_EVS_SendEvent_SC SC_JUMP_ATS_INF_EID (sc_accepted s2)
               in if 0 < NumSkipped then CFE_EVS_SendEvent_SC SC_JUMP_ATS_SKIPPED_DBG_EID s3 else s3))
      else sc_rejected SC_JUMPATS_CMD_NOT_ACT_ERR_EID s)"

definition SC_ContinueAtsOnFailureCmd :: "uint8 \<Rightarrow> sc \<Rightarrow> sc" where
  "SC_ContinueAtsOnFailureCmd State s =
     (if State \<noteq> SC_AtsCont_TRUE \<and> State \<noteq> SC_AtsCont_FALSE
      then CFE_EVS_SendEvent_SC SC_CONT_CMD_ERR_EID (sc_failed s)
      else CFE_EVS_SendEvent_SC SC_CONT_CMD_INF_EID (sc_accepted (upd_hk (\<lambda>h. h\<lparr>ContinueAtsOnFailureFlag := State\<rparr>) s)))"

subsection \<open>Appending\<close>

definition copy_append :: "uint16 \<Rightarrow> uint16 \<Rightarrow> sc \<Rightarrow> sc" where
  "copy_append AtsIndex EntryIndex s =
     (let tbl = AtsTbl s ! unat AtsIndex; from = 4 * unat EntryIndex; n = unat (AppendWordCount s) * SC_BYTES_IN_WORD
      in s\<lparr>AtsTbl := (AtsTbl s)[unat AtsIndex := take from tbl @ take n (AppendTbl s) @ drop (from + n) tbl]\<rparr>)"

definition append_entry :: "uint16 \<Rightarrow> uint16 \<times> sc \<Rightarrow> uint16 \<times> sc" where
  "append_entry AtsIndex x =
     (case x of (EntryIndex, s) \<Rightarrow>
        (let EntryPtr = SC_GetAtsEntryAtOffset AtsIndex EntryIndex s;
             CmdIndex = SC_CommandNumToIndex (ats_number EntryPtr);
             s1 = (if SC_GetAtsStatusEntryForCommand AtsIndex CmdIndex s = SC_Status_EMPTY
                   then upd_ats AtsIndex (\<lambda>i. i\<lparr>NumberOfCommands := NumberOfCommands i + 1\<rparr>) s else s)
         in (SC_EntryOffsetAdvance EntryIndex (msg_size (ats_msg EntryPtr) + of_nat SC_ATS_HEADER_SIZE),
             set_cmd_status AtsIndex CmdIndex SC_Status_LOADED (set_cmd_offset AtsIndex CmdIndex EntryIndex s1))))"

definition SC_ProcessAppend :: "uint16 \<Rightarrow> sc \<Rightarrow> sc" where
  "SC_ProcessAppend AtsIndex s =
     (if \<not> SC_AtsIndexIsValid AtsIndex then CFE_EVS_SendEvent_SC SC_PROCESS_APPEND_INV_INDEX_ERR_EID s
      else
        (let EntryIndex = ucast (AtsSize (SC_GetAtsInfoObject AtsIndex s));
             s1 = copy_append AtsIndex EntryIndex s;
             s2 = upd_ats AtsIndex (\<lambda>i. i\<lparr>AtsSize := AtsSize i + ucast (AppendWordCount s1)\<rparr>) s1;
             s3 = snd ((append_entry AtsIndex ^^ unat (AppendEntryCount (HkPacket s2))) (EntryIndex, s2));
             s4 = SC_BuildTimeIndexTable AtsIndex s3;
             s5 = (if AtpState (AtsCtrlBlck s4) = SC_Status_EXECUTING
                      \<and> CurrAtsNum (AtsCtrlBlck s4) = SC_AtsIndexToNum AtsIndex
                   then (case SC_BeginAts AtsIndex 0 s4 of
                           (True, t) \<Rightarrow> set_atp_state SC_Status_EXECUTING t
                         | (False, t) \<Rightarrow> t)
                   else s4)
         in sc_send (SC_Modified (ATS_Table (unat AtsIndex))) s5))"

definition SC_AppendAtsCmd :: "uint16 \<Rightarrow> sc \<Rightarrow> sc" where
  "SC_AppendAtsCmd AtsNum s =
     (if \<not> SC_AtsNumIsValid AtsNum then CFE_EVS_SendEvent_SC SC_APPEND_CMD_ARG_ERR_EID (sc_failed s)
      else
        (let AtsIndex = SC_AtsNumToIndex AtsNum; AtsInfoPtr = SC_GetAtsInfoObject AtsIndex s
         in if NumberOfCommands AtsInfoPtr = 0 then CFE_EVS_SendEvent_SC SC_APPEND_CMD_TGT_ERR_EID (sc_failed s)
            else if AppendEntryCount (HkPacket s) = 0
            then CFE_EVS_SendEvent_SC SC_APPEND_CMD_SRC_ERR_EID (sc_failed s)
            else if SC_ATS_BUFF_SIZE32 < unat (AtsSize AtsInfoPtr + ucast (AppendWordCount s))
            then CFE_EVS_SendEvent_SC SC_APPEND_CMD_FIT_ERR_EID (sc_failed s)
            else CFE_EVS_SendEvent_SC SC_APPEND_CMD_INF_EID
                   (sc_accepted (SC_ProcessAppend AtsIndex (upd_hk (\<lambda>h. h\<lparr>AppendCmdArg := AtsNum\<rparr>) s)))))"

subsection \<open>The next command (sc_state.c)\<close>

definition SC_GetNextAtsCommand :: "sc \<Rightarrow> sc" where
  "SC_GetNextAtsCommand s =
     (if AtpState (AtsCtrlBlck s) = SC_Status_EXECUTING then
        (let AtsIndex = SC_AtsNumToIndex (CurrAtsNum (AtsCtrlBlck s));
             TimeIndex = TimeIndexPtr (AtsCtrlBlck s) + 1
         in if SC_IDX_WITHIN_LIMIT TimeIndex (unat (NumberOfCommands (SC_GetAtsInfoObject AtsIndex s))) then
              (let CmdNum = SC_GetAtsCommandNumAtSeq AtsIndex TimeIndex s
               in (upd_atp (\<lambda>b. b\<lparr>TimeIndexPtr := TimeIndex, CmdNumber := CmdNum\<rparr>) s)
                    \<lparr>NextCmdTime_ATP := ats_cmd_time AtsIndex (SC_CommandNumToIndex CmdNum) s\<rparr>)
            else set_switch_pend False (CFE_EVS_SendEvent_SC SC_ATS_COMPL_INF_EID (SC_KillAts s)))
      else if AtpState (AtsCtrlBlck s) = SC_Status_STARTING then set_atp_state SC_Status_EXECUTING s
      else s)"

subsection \<open>Sending a command (sc_cmds.c)\<close>

definition ats_cmd_error :: "sc \<Rightarrow> sc" where
  "ats_cmd_error s =
     upd_hk (\<lambda>h. h\<lparr>AtsCmdErrCtr := AtsCmdErrCtr h + 1, LastAtsErrSeq := CurrAtsNum (AtsCtrlBlck s),
       LastAtsErrCmd := CmdNumber (AtsCtrlBlck s)\<rparr>) s"

text \<open>A command with a good number and checksum; the result says whether the sequence is to be aborted.\<close>

definition send_ats_command :: "sc_services \<Rightarrow> uint16 \<Rightarrow> uint16 \<Rightarrow> message \<Rightarrow> sc \<Rightarrow> bool \<times> sc" where
  "send_ats_command v AtsIndex CmdIndex m s =
     (let s1 = s\<lparr>NumCmdsWakeup := NumCmdsWakeup s + 1\<rparr>;
          CommandCode = (case snd (CFE_MSG_GetFcnCode (Some m) True) of None \<Rightarrow> 0 | Some c \<Rightarrow> c);
          executed = (\<lambda>t. upd_hk (\<lambda>h. h\<lparr>AtsCmdCtr := AtsCmdCtr h + 1\<rparr>)
                       (set_cmd_status AtsIndex CmdIndex SC_Status_EXECUTED t));
          failed = (\<lambda>t. ats_cmd_error (set_cmd_status AtsIndex CmdIndex SC_Status_FAILED_DISTRIB t))
      in if CommandCode = SC_SWITCH_ATS_CC \<and> msg_id m = SC_CMD_MID then
           (case SC_InlineSwitch s1 of
              (True, s2) \<Rightarrow> (False, executed s2)
            | (False, s2) \<Rightarrow> (False, failed s2))
         else
           (case sc_transmit v (stored_command m) (EnableHeaderUpdate s1) s1 of
              (Result, s2) \<Rightarrow>
                if Result = CFE_SUCCESS then (False, executed s2)
                else (True, CFE_EVS_SendEvent_SC SC_ATS_DIST_ERR_EID (failed s2))))"

definition try_ats_command :: "sc_services \<Rightarrow> uint16 \<Rightarrow> uint16 \<Rightarrow> sc \<Rightarrow> bool \<times> sc" where
  "try_ats_command v AtsIndex CmdIndex s =
     (let EntryPtr = SC_GetAtsEntryAtOffset AtsIndex (SC_GetAtsEntryOffsetForCmd AtsIndex CmdIndex s) s;
          m = ats_msg EntryPtr
      in if SC_GetAtsStatusEntryForCommand AtsIndex CmdIndex s = SC_Status_LOADED then
           (if ats_number EntryPtr = SC_CommandIndexToNum CmdIndex then
              (if checksum_valid m s then send_ats_command v AtsIndex CmdIndex m s
               else (ContinueAtsOnFailureFlag (HkPacket s) = SC_AtsCont_FALSE,
                     set_cmd_status AtsIndex CmdIndex SC_Status_FAILED_CHECKSUM
                       (ats_cmd_error (CFE_EVS_SendEvent_SC SC_ATS_CHKSUM_ERR_EID s))))
            else (True, set_cmd_status AtsIndex CmdIndex SC_Status_SKIPPED
                          (ats_cmd_error (CFE_EVS_SendEvent_SC SC_ATS_MSMTCH_ERR_EID s))))
         else (False, ats_cmd_error (CFE_EVS_SendEvent_SC SC_ATS_SKP_ERR_EID s)))"

definition SC_ProcessAtpCmd :: "sc_services \<Rightarrow> sc \<Rightarrow> sc" where
  "SC_ProcessAtpCmd v s =
     (if AtpState (AtsCtrlBlck s) = SC_Status_EXECUTING \<and> \<not> SC_CompareAbsTime (NextCmdTime_ATP s) (CurrentTime s) then
        (case try_ats_command v (SC_AtsNumToIndex (CurrAtsNum (AtsCtrlBlck s)))
                (SC_CommandNumToIndex (CmdNumber (AtsCtrlBlck s))) s of
           (AbortATS, s1) \<Rightarrow>
             if AbortATS then set_switch_pend False (SC_KillAts (CFE_EVS_SendEvent_SC SC_ATS_ABT_ERR_EID s1))
             else SC_GetNextAtsCommand s1)
      else s)"

end
