(* ===== verification/Sc_Frame.thy ===== *)
theory Sc_Frame
  imports Sc_Rts Sc_Ats
begin

section \<open>Stored commands: what the operations leave alone\<close>

text \<open>
  Many operations touch only one side of the state. The contract of a view of the state is that it does not
  see events, housekeeping counters, and the updates of one side; then it does not see the operations of that
  side either. The two locales state this for the absolute and the relative sequences.
\<close>

locale ats_frame =
  fixes view :: "sc \<Rightarrow> 'a"
  assumes event [simp]: "view (sc_send (SC_Event e) s) = view s"
    and hk [simp]: "view (upd_hk h s) = view s"
    and atp [simp]: "view (upd_atp b s) = view s"
    and ats [simp]: "view (upd_ats a i s) = view s"
    and cmd_status [simp]: "view (set_cmd_status a c x s) = view s"
    and next_atp [simp]: "view (s\<lparr>NextCmdTime_ATP := t\<rparr>) = view s"
begin

lemma state [simp]:
  "view (set_atp_state x s) = view s" "view (set_switch_pend p s) = view s" "view (sc_failed s) = view s"
  "view (sc_accepted s) = view s" "view (sc_rejected e s) = view s" "view (ats_cmd_error s) = view s"
  by (simp_all add: set_atp_state_def set_switch_pend_def sc_failed_def sc_accepted_def sc_rejected_def ats_cmd_error_def)

lemma kill [simp]: "view (SC_KillAts s) = view s"
  by (simp add: SC_KillAts_def Let_def)

lemma next_command [simp]: "view (SC_GetNextAtsCommand s) = view s"
  by (simp add: SC_GetNextAtsCommand_def Let_def)

lemma begin_ats: "SC_BeginAts a d s = (b, t) \<Longrightarrow> view t = view s"
proof -
  have "view (snd x') = view s"
    if "skip_commands (skip_always a) a u n i c l (0, s) = (i', c', l', x')" for u n i c l i' c' l' x'
    using skip_commands_inv [where P = "\<lambda>x. view (snd x) = view s", OF that] by (simp add: skip_always_def)
  then show "SC_BeginAts a d s = (b, t) \<Longrightarrow> view t = view s"
    by (fastforce simp: SC_BeginAts_def Let_def split: prod.splits if_splits)
qed

lemma inline_switch: "SC_InlineSwitch s = (b, t) \<Longrightarrow> view t = view s"
  by (auto simp: SC_InlineSwitch_def Let_def dest!: begin_ats split: prod.splits bool.splits if_splits)

lemma service_switch [simp]: "view (SC_ServiceSwitchPend s) = view s"
  by (auto simp: SC_ServiceSwitchPend_def Let_def dest!: begin_ats split: prod.splits bool.splits)

lemma start_ats [simp]: "view (SC_StartAtsCmd n s) = view s"
  by (auto simp: SC_StartAtsCmd_def Let_def dest!: begin_ats split: prod.splits bool.splits)

lemma other_commands [simp]: "view (SC_StopAtsCmd s) = view s" "view (SC_SwitchAtsCmd s) = view s"
  "view (SC_ContinueAtsOnFailureCmd st s) = view s"
  by (simp_all add: SC_StopAtsCmd_def SC_SwitchAtsCmd_def SC_ContinueAtsOnFailureCmd_def Let_def)

lemma jump_ats [simp]: "view (SC_JumpAtsCmd t s) = view s"
proof -
  have "view (snd x') = view s"
    if "skip_commands (skip_loaded a) a u n i c l (0, s) = (i', c', l', x')" for a u n i c l i' c' l' x'
    using skip_commands_inv [where P = "\<lambda>x. view (snd x) = view s", OF that] by (simp add: skip_loaded_def skip_always_def)
  then show ?thesis
    by (fastforce simp: SC_JumpAtsCmd_def Let_def split: prod.split)
qed

end

text \<open>Loading and appending also write the lists of a sequence and its table.\<close>

locale load_frame = ats_frame +
  assumes cmd_num [simp]: "view (set_cmd_num a i n s) = view s"
    and cmd_offset [simp]: "view (set_cmd_offset a c d s) = view s"
    and ats_tbl [simp]: "view (s\<lparr>AtsTbl := tbl\<rparr>) = view s"
    and append_words [simp]: "view (s\<lparr>AppendWordCount := w\<rparr>) = view s"
    and modified [simp]: "view (sc_send (SC_Modified t) s) = view s"
begin

lemma insert_slot: "insert_slot a t k s = (j, s') \<Longrightarrow> view s' = view s"
  by (induction k arbitrary: s) (auto simp: Let_def split: if_splits)

lemma insert [simp]: "view (SC_Insert a c n s) = view s"
  by (auto simp: SC_Insert_def Let_def dest!: insert_slot split: prod.split)

lemma build [simp]: "view (SC_BuildTimeIndexTable a s) = view s"
proof -
  have "view (snd (fold (index_command a) is (n, s))) = view s" for "is" n s
    by (induction "is" arbitrary: n s) (simp_all add: index_command_def Let_def)
  then show ?thesis by (simp add: SC_BuildTimeIndexTable_def)
qed

lemma init [simp]: "view (SC_InitAtsTables a s) = view s"
proof -
  have "view (fold (clear_command a) is s) = view s" for "is" s
    by (induction "is" arbitrary: s) (simp_all add: clear_command_def)
  then show ?thesis by (simp add: SC_InitAtsTables_def)
qed

lemma load_entries: "load_entries a i s = (r, j, t) \<Longrightarrow> view t = view s"
proof (induction a i s rule: load_entries.induct)
  case (1 a i s)
  show ?case
    using 1(2) 1(1) [OF _ refl refl refl refl refl]
    by (subst (asm) load_entries.simps) (auto simp: Let_def load_command_def split: if_splits)
qed

lemma load [simp]: "view (SC_LoadAts a s) = view s"
  by (auto simp: SC_LoadAts_def Let_def dest!: load_entries split: prod.split)

lemma update_append [simp]: "view (SC_UpdateAppend s) = view s"
  by (simp add: SC_UpdateAppend_def Let_def split: prod.split)

lemma append_entry: "view (snd (append_entry a x)) = view (snd x)"
  by (cases x) (simp add: append_entry_def Let_def)

lemma append_entries: "view (snd ((append_entry a ^^ n) x)) = view (snd x)"
  by (induction n) (simp_all add: append_entry)

lemma process_append [simp]: "view (SC_ProcessAppend a s) = view s"
  using append_entries [where a = a] by (auto simp: SC_ProcessAppend_def Let_def copy_append_def dest!: begin_ats split: prod.split bool.split)

lemma append [simp]: "view (SC_AppendAtsCmd n s) = view s"
  by (simp add: SC_AppendAtsCmd_def Let_def)

end

locale rts_frame =
  fixes view :: "sc \<Rightarrow> 'a"
  assumes event [simp]: "view (sc_send (SC_Event e) s) = view s"
    and hk [simp]: "view (upd_hk h s) = view s"
    and rtp [simp]: "view (upd_rtp b s) = view s"
    and rts [simp]: "view (upd_rts r i s) = view s"
    and next_rtp [simp]: "view (s\<lparr>NextCmdTime_RTP := t\<rparr>) = view s"
begin

lemma kill [simp]: "view (SC_KillRts i s) = view s"
  by (simp add: SC_KillRts_def)

lemma errors [simp]: "view (rts_complete i s) = view s" "view (rts_cmd_error i c s) = view s"
  "view (rts_stopped e i c s) = view s" "view (sc_accepted s) = view s" "view (sc_rejected e s) = view s"
  by (simp_all add: rts_complete_def rts_cmd_error_def rts_stopped_def sc_accepted_def sc_rejected_def Let_def)

lemma next_rts [simp]: "view (SC_GetNextRtsTime s) = view s" "view (rts_command_at i c s) = view s"
  "view (SC_GetNextRtsCommand s) = view s"
  by (simp_all add: SC_GetNextRtsTime_def rts_command_at_def SC_GetNextRtsCommand_def Let_def split: prod.split)

lemma begin_rts [simp]: "view (begin_rts i s) = view s"
  by (simp add: begin_rts_def Let_def)

lemma start_rts [simp]: "view (SC_StartRtsCmd n s) = view s"
  by (simp add: SC_StartRtsCmd_def start_failed_def Let_def)

lemma rts_commands [simp]: "view (SC_StopRtsCmd n s) = view s" "view (SC_DisableRtsCmd n s) = view s"
  "view (SC_EnableRtsCmd n s) = view s"
  by (simp_all add: SC_StopRtsCmd_def SC_DisableRtsCmd_def SC_EnableRtsCmd_def set_disabled_def)

lemma group: "(\<And>i t. view (f i t) = view t) \<Longrightarrow> view (rts_group f info err m n s) = view s"
proof -
  assume f: "\<And>i t. view (f i t) = view t"
  have "view (fold f is t) = view t" for "is" t by (induction "is" arbitrary: t) (simp_all add: f)
  then show ?thesis by (simp add: rts_group_def)
qed

lemma groups [simp]: "view (SC_StartRtsGrpCmd m n s) = view s" "view (SC_StopRtsGrpCmd m n s) = view s"
  "view (SC_DisableRtsGrpCmd m n s) = view s" "view (SC_EnableRtsGrpCmd m n s) = view s"
  unfolding SC_StartRtsGrpCmd_def SC_StopRtsGrpCmd_def SC_DisableRtsGrpCmd_def SC_EnableRtsGrpCmd_def
  by (rule group; simp add: start_in_group_def stop_in_group_def disable_in_group_def enable_in_group_def set_disabled_def
        group_failed_def Let_def)+

end

end
