(* ===== verification/Sc_Cmds.thy ===== *)
theory Sc_Cmds
  imports Sc_Frame
begin

section \<open>Stored commands: wakeup, tables and dispatch\<close>

text \<open>
  The wakeup, housekeeping and table commands (\<open>sc_cmds.c\<close>) and the dispatch of messages (\<open>sc_dispatch.c\<close>). A
  wakeup sends commands until none is due or a limit is reached; the loop ends because every pass but the last
  counts a command.
\<close>

subsection \<open>Wakeup\<close>

definition wakeup_pass :: "sc_services \<Rightarrow> sc \<Rightarrow> sc" where
  "wakeup_pass v s =
     (let s1 = (if SwitchPendFlag (AtsCtrlBlck s) then SC_ServiceSwitchPend s else s);
          s2 = SC_ProcessAtpCmd v s1
      in if NumCmdsWakeup s2 = NumCmdsWakeup s then SC_ProcessRtpCommand v (SC_GetNextRtsTime s2) else s2)"

interpretation count_ats: ats_frame NumCmdsWakeup by unfold_locales simp_all
interpretation count_rts: rts_frame NumCmdsWakeup by unfold_locales simp_all

lemma count_send: "NumCmdsWakeup (snd (send_ats_command v a c m s)) = NumCmdsWakeup s + 1"
  by (auto simp: send_ats_command_def Let_def sc_transmit_def dest!: count_ats.inline_switch split: prod.splits bool.splits)

lemma count_try: "NumCmdsWakeup (snd (try_ats_command v a c s)) \<in> {NumCmdsWakeup s, NumCmdsWakeup s + 1}"
  by (simp add: try_ats_command_def Let_def count_send)

lemma count_atp: "NumCmdsWakeup (SC_ProcessAtpCmd v s) \<in> {NumCmdsWakeup s, NumCmdsWakeup s + 1}"
proof -
  obtain b t where "try_ats_command v (SC_AtsNumToIndex (CurrAtsNum (AtsCtrlBlck s)))
      (SC_CommandNumToIndex (CmdNumber (AtsCtrlBlck s))) s = (b, t)" by fastforce
  then show ?thesis
    using count_try [of v "SC_AtsNumToIndex (CurrAtsNum (AtsCtrlBlck s))" "SC_CommandNumToIndex (CmdNumber (AtsCtrlBlck s))" s]
    by (auto simp: SC_ProcessAtpCmd_def)
qed

lemma count_rtp: "NumCmdsWakeup (SC_ProcessRtpCommand v s) \<in> {NumCmdsWakeup s, NumCmdsWakeup s + 1}"
  by (simp add: SC_ProcessRtpCommand_def Let_def sc_transmit_def)

lemma count_pass: "NumCmdsWakeup (wakeup_pass v s) \<in> {NumCmdsWakeup s, NumCmdsWakeup s + 1}"
proof -
  define s1 where "s1 = (if SwitchPendFlag (AtsCtrlBlck s) then SC_ServiceSwitchPend s else s)"
  have "NumCmdsWakeup s1 = NumCmdsWakeup s" by (simp add: s1_def)
  then show ?thesis
    using count_atp [of v s1] count_rtp [of v "SC_GetNextRtsTime (SC_ProcessAtpCmd v s1)"]
    by (auto simp: wakeup_pass_def s1_def [symmetric] Let_def)
qed

function wakeup_loop :: "sc_services \<Rightarrow> sc \<Rightarrow> sc" where
  "wakeup_loop v s =
     (if NumCmdsWakeup s < SC_MAX_CMDS_PER_WAKEUP then
        (let s1 = wakeup_pass v s
         in if NumCmdsWakeup s1 = NumCmdsWakeup s then s1 else wakeup_loop v s1)
      else s)"
  by pat_completeness auto

lemma count_less: "n < SC_MAX_CMDS_PER_WAKEUP \<Longrightarrow> unat (n + 1) = unat n + 1"
  by (rule unat_Suc_small) (simp add: word_less_nat_alt sc_const)

termination wakeup_loop
proof (relation "measure (\<lambda>(v, s). 8 - unat (NumCmdsWakeup s))", simp, goal_cases)
  case (1 v s t)
  then show ?case
    using count_pass [of v s] count_less [of "NumCmdsWakeup s"] by (auto simp: word_less_nat_alt sc_const)
qed

declare wakeup_loop.simps [simp del]

lemma wakeup_loop_inv:
  assumes "P s" "\<And>s. P s \<Longrightarrow> P (wakeup_pass v s)"
  shows "P (wakeup_loop v s)"
  using assms
proof (induction v s rule: wakeup_loop.induct)
  case (1 v s)
  then show ?case by (simp add: wakeup_loop.simps [of v s] Let_def)
qed

definition SC_WakeupCmd :: "sc_services \<Rightarrow> sc \<Rightarrow> sc" where
  "SC_WakeupCmd v s =
     (wakeup_loop v (s\<lparr>CurrentWakeupCount := CurrentWakeupCount s + 1\<rparr>))\<lparr>NumCmdsWakeup := 0\<rparr>"

subsection \<open>Housekeeping\<close>

text \<open>One bit for each relative time sequence, 16 in each word.\<close>

definition rts_bits :: "(nat \<Rightarrow> bool) \<Rightarrow> uint16 list" where
  "rts_bits P =
     fold (\<lambda>i arr. if P i
             then arr[i div SC_NUMBER_OF_RTS_IN_UINT16 :=
                    arr ! (i div SC_NUMBER_OF_RTS_IN_UINT16) OR push_bit (i mod SC_NUMBER_OF_RTS_IN_UINT16) 1]
             else arr)
       [0..<SC_NUMBER_OF_RTS]
       (replicate ((SC_NUMBER_OF_RTS + (SC_NUMBER_OF_RTS_IN_UINT16 - 1)) div SC_NUMBER_OF_RTS_IN_UINT16) 0)"

definition sc_hk_payload :: "sc \<Rightarrow> SC_HkTlm_Payload" where
  "sc_hk_payload s = (HkPacket s)\<lparr>
     AtpFreeBytes := map (\<lambda>i. of_nat (SC_ATS_BUFF_SIZE32 * SC_BYTES_IN_WORD) - AtsSize (AtsInfo s ! i) * of_nat SC_BYTES_IN_WORD)
       [0..<SC_NUMBER_OF_ATS],
     HK_CurrAtsId := ucast (CurrAtsNum (AtsCtrlBlck s)), HK_AtpState := AtpState (AtsCtrlBlck s),
     AtpCmdNumber := ucast (CmdNumber (AtsCtrlBlck s)), HK_SwitchPendFlag := SwitchPendFlag (AtsCtrlBlck s),
     NextAtsTime := NextCmdTime_ATP s, HK_NumRtsActive := NumRtsActive (RtsCtrlBlck s),
     HK_RtsNum := CurrRtsNum (RtsCtrlBlck s), NextRtsWakeupCnt := NextCmdTime_RTP s,
     RtsExecutingStatus := rts_bits (\<lambda>i. RtsStatus (RtsInfo s ! i) = SC_Status_EXECUTING),
     RtsDisabledStatus := rts_bits (\<lambda>i. DisabledFlag (RtsInfo s ! i))\<rparr>"

definition SC_SendHkPacket :: "sc \<Rightarrow> sc" where
  "SC_SendHkPacket s = sc_send (SC_Housekeeping (sc_hk_payload s)) (s\<lparr>HkPacket := sc_hk_payload s\<rparr>)"

definition SC_SendHkCmd :: "sc_services \<Rightarrow> sc \<Rightarrow> sc" where
  "SC_SendHkCmd v s =
     SC_SendHkPacket
       (if SC_RtsNumIsValid (AutoStartRTS s) then
          (let RtsIndex = SC_RtsNumToIndex (AutoStartRTS s);
               s1 = (if RtsStatus (SC_GetRtsInfoObject RtsIndex s) = SC_Status_LOADED
                     then upd_rts RtsIndex (\<lambda>r. r\<lparr>DisabledFlag := False\<rparr>) s else s)
           in (SC_AutoStartRts v (AutoStartRTS s1) s1)\<lparr>AutoStartRTS := SC_RTS_NUM_NULL\<rparr>)
        else s)"

definition SC_ResetCountersCmd :: "sc \<Rightarrow> sc" where
  "SC_ResetCountersCmd s =
     upd_hk (\<lambda>h. h\<lparr>HK_CmdCtr := 0, HK_CmdErrCtr := 0, AtsCmdCtr := 0, AtsCmdErrCtr := 0, RtsCmdCtr := 0,
         RtsCmdErrCtr := 0, RtsActiveCtr := 0, RtsActiveErrCtr := 0\<rparr>)
       (CFE_EVS_SendEvent_SC SC_RESET_INF_EID s)"

definition SC_NoopCmd :: "sc \<Rightarrow> sc" where
  "SC_NoopCmd s = CFE_EVS_SendEvent_SC SC_NOOP_INF_EID (sc_accepted s)"

subsection \<open>Tables\<close>

definition SC_TBL_ID_ATS_0 :: nat where "SC_TBL_ID_ATS_0 = 1"
definition SC_TBL_ID_APPEND :: nat where "SC_TBL_ID_APPEND = SC_TBL_ID_ATS_0 + SC_NUMBER_OF_ATS"
definition SC_TBL_ID_RTS_0 :: nat where "SC_TBL_ID_RTS_0 = SC_TBL_ID_APPEND + 1"
definition SC_TBL_ID_RTS_INFO :: nat where "SC_TBL_ID_RTS_INFO = SC_TBL_ID_RTS_0 + SC_NUMBER_OF_RTS"
definition SC_TBL_ID_RTP_CTRL :: nat where "SC_TBL_ID_RTP_CTRL = SC_TBL_ID_RTS_INFO + 1"
definition SC_TBL_ID_ATS_INFO :: nat where "SC_TBL_ID_ATS_INFO = SC_TBL_ID_RTP_CTRL + 1"
definition SC_TBL_ID_ATP_CTRL :: nat where "SC_TBL_ID_ATP_CTRL = SC_TBL_ID_ATS_INFO + 1"
definition SC_TBL_ID_ATS_CMD_0 :: nat where "SC_TBL_ID_ATS_CMD_0 = SC_TBL_ID_ATP_CTRL + 1"

lemmas sc_tbl_id = SC_TBL_ID_ATS_0_def SC_TBL_ID_APPEND_def SC_TBL_ID_RTS_0_def SC_TBL_ID_RTS_INFO_def
  SC_TBL_ID_RTP_CTRL_def SC_TBL_ID_ATS_INFO_def SC_TBL_ID_ATP_CTRL_def SC_TBL_ID_ATS_CMD_0_def

text \<open>The three cases of \<open>SC_ManageTable\<close> differ in the pointer, the action on new data, and the event.\<close>

definition reacquire_table ::
  "sc_services \<Rightarrow> sc_table \<Rightarrow> (sc \<Rightarrow> sc) \<Rightarrow> (sc \<Rightarrow> sc) \<Rightarrow> uint16 \<Rightarrow> sc \<Rightarrow> sc" where
  "reacquire_table v t store load err s =
     (let s1 = store (sc_send (SC_Manage t) (sc_send (SC_ReleaseAddress t) s));
          Result = SC_TblStatus v
      in if Result = CFE_TBL_INFO_UPDATED then load s1
         else if Result \<noteq> CFE_SUCCESS \<and> Result \<noteq> CFE_TBL_ERR_NEVER_LOADED then CFE_EVS_SendEvent_SC err s1
         else s1)"

definition SC_ManageTable :: "sc_services \<Rightarrow> sc_table \<Rightarrow> sc \<Rightarrow> sc" where
  "SC_ManageTable v t s =
     (case t of
        ATS_Table i \<Rightarrow> reacquire_table v t (\<lambda>s. s\<lparr>AtsTbl := (AtsTbl s)[i := SC_TblData v]\<rparr>) (SC_LoadAts (of_nat i))
                         SC_TABLE_MANAGE_ATS_ERR_EID s
      | RTS_Table i \<Rightarrow> reacquire_table v t (\<lambda>s. s\<lparr>RtsTbl := (RtsTbl s)[i := SC_TblData v]\<rparr>) (SC_LoadRts (of_nat i))
                         SC_TABLE_MANAGE_RTS_ERR_EID s
      | _ \<Rightarrow> reacquire_table v Append_Table (\<lambda>s. s\<lparr>AppendTbl := SC_TblData v\<rparr>) SC_UpdateAppend
               SC_TABLE_MANAGE_APPEND_ERR_EID s)"

definition SC_ManageRtsTable :: "sc_services \<Rightarrow> nat \<Rightarrow> sc \<Rightarrow> sc" where
  "SC_ManageRtsTable v ArrayIndex s =
     (if SC_NUMBER_OF_RTS \<le> ArrayIndex then CFE_EVS_SendEvent_SC SC_TABLE_MANAGE_RTS_INV_INDEX_ERR_EID s
      else SC_ManageTable v (RTS_Table ArrayIndex) s)"

definition SC_ManageAtsTable :: "sc_services \<Rightarrow> nat \<Rightarrow> sc \<Rightarrow> sc" where
  "SC_ManageAtsTable v ArrayIndex s =
     (if SC_NUMBER_OF_ATS \<le> ArrayIndex then CFE_EVS_SendEvent_SC SC_TABLE_MANAGE_ATS_INV_INDEX_ERR_EID s
      else SC_ManageTable v (ATS_Table ArrayIndex) s)"

definition SC_ManageTableCmd :: "sc_services \<Rightarrow> uint32 \<Rightarrow> sc \<Rightarrow> sc" where
  "SC_ManageTableCmd v Parameter s =
     (let TableID = unat Parameter
      in if SC_TBL_ID_ATS_0 \<le> TableID \<and> TableID < SC_TBL_ID_ATS_0 + SC_NUMBER_OF_ATS
         then SC_ManageAtsTable v (TableID - SC_TBL_ID_ATS_0) s
         else if TableID = SC_TBL_ID_APPEND then SC_ManageTable v Append_Table s
         else if SC_TBL_ID_RTS_0 \<le> TableID \<and> TableID < SC_TBL_ID_RTS_0 + SC_NUMBER_OF_RTS
         then SC_ManageRtsTable v (TableID - SC_TBL_ID_RTS_0) s
         else if TableID = SC_TBL_ID_RTS_INFO then sc_send (SC_Manage RTS_Info) s
         else if TableID = SC_TBL_ID_RTP_CTRL then sc_send (SC_Manage RTP_Ctrl) s
         else if TableID = SC_TBL_ID_ATS_INFO then sc_send (SC_Manage ATS_Info) s
         else if TableID = SC_TBL_ID_ATP_CTRL then sc_send (SC_Manage ATP_Ctrl) s
         else if SC_TBL_ID_ATS_CMD_0 \<le> TableID \<and> TableID < SC_TBL_ID_ATS_CMD_0 + SC_NUMBER_OF_ATS
         then sc_send (SC_Manage (ATS_Cmd_Status (TableID - SC_TBL_ID_ATS_CMD_0))) s
         else CFE_EVS_SendEvent_SC SC_TABLE_MANAGE_ID_ERR_EID s)"

subsection \<open>Dispatch\<close>

definition SC_VerifyCmdLength :: "message \<Rightarrow> size_t \<Rightarrow> sc \<Rightarrow> bool \<times> sc" where
  "SC_VerifyCmdLength Msg ExpectedLength s =
     (if ExpectedLength \<noteq> msg_size Msg then
        (let s1 = CFE_EVS_SendEvent_SC SC_CMD_LEN_ERR_EID s
         in (False, if msg_id Msg = SC_CMD_MID then sc_failed s1 else s1))
      else (True, s))"

definition sc_verified :: "message \<Rightarrow> size_t \<Rightarrow> (sc \<Rightarrow> sc) \<Rightarrow> sc \<Rightarrow> sc" where
  "sc_verified Msg ExpectedLength handler s =
     (case SC_VerifyCmdLength Msg ExpectedLength s of (True, s1) \<Rightarrow> handler s1 | (False, s1) \<Rightarrow> s1)"

definition msg_fcn_code :: "message \<Rightarrow> uint16" where
  "msg_fcn_code m = (case snd (CFE_MSG_GetFcnCode (Some m) True) of None \<Rightarrow> 0 | Some c \<Rightarrow> c)"

definition SC_ProcessCommand :: "sc_services \<Rightarrow> message \<Rightarrow> sc \<Rightarrow> sc" where
  "SC_ProcessCommand v Buf s =
     (let CommandCode = msg_fcn_code Buf; w = le16 Buf 8; w' = le16 Buf 10
      in if CommandCode = SC_NOOP_CC then sc_verified Buf 8 SC_NoopCmd s
         else if CommandCode = SC_RESET_COUNTERS_CC then sc_verified Buf 8 SC_ResetCountersCmd s
         else if CommandCode = SC_START_ATS_CC then sc_verified Buf 12 (SC_StartAtsCmd w) s
         else if CommandCode = SC_STOP_ATS_CC then sc_verified Buf 8 SC_StopAtsCmd s
         else if CommandCode = SC_START_RTS_CC then
           (case SC_VerifyCmdLength Buf 12 s of
              (True, s1) \<Rightarrow> SC_StartRtsCmd w s1
            | (False, s1) \<Rightarrow> upd_hk (\<lambda>h. h\<lparr>RtsActiveErrCtr := RtsActiveErrCtr h + 1\<rparr>) s1)
         else if CommandCode = SC_STOP_RTS_CC then sc_verified Buf 12 (SC_StopRtsCmd w) s
         else if CommandCode = SC_DISABLE_RTS_CC then sc_verified Buf 12 (SC_DisableRtsCmd w) s
         else if CommandCode = SC_ENABLE_RTS_CC then sc_verified Buf 12 (SC_EnableRtsCmd w) s
         else if CommandCode = SC_SWITCH_ATS_CC then sc_verified Buf 8 SC_SwitchAtsCmd s
         else if CommandCode = SC_JUMP_ATS_CC then sc_verified Buf 12 (SC_JumpAtsCmd (le32 Buf 8)) s
         else if CommandCode = SC_CONTINUE_ATS_ON_FAILURE_CC
         then sc_verified Buf 12 (SC_ContinueAtsOnFailureCmd (Buf ! 8)) s
         else if CommandCode = SC_APPEND_ATS_CC then sc_verified Buf 12 (SC_AppendAtsCmd w) s
         else if CommandCode = SC_MANAGE_TABLE_CC then sc_verified Buf 12 (SC_ManageTableCmd v (le32 Buf 8)) s
         else if CommandCode = SC_START_RTS_GRP_CC then sc_verified Buf 12 (SC_StartRtsGrpCmd w w') s
         else if CommandCode = SC_STOP_RTS_GRP_CC then sc_verified Buf 12 (SC_StopRtsGrpCmd w w') s
         else if CommandCode = SC_DISABLE_RTS_GRP_CC then sc_verified Buf 12 (SC_DisableRtsGrpCmd w w') s
         else if CommandCode = SC_ENABLE_RTS_GRP_CC then sc_verified Buf 12 (SC_EnableRtsGrpCmd w w') s
         else sc_rejected SC_CC_ERR_EID s)"

text \<open>A request of the limit checker is a command to start a sequence, under a message ID of its own.\<close>

definition SC_ProcessRequest :: "sc_services \<Rightarrow> message \<Rightarrow> sc \<Rightarrow> sc" where
  "SC_ProcessRequest v Buf s0 =
     (let s = SC_GetCurrentTime v s0; MessageID = msg_id Buf
      in if MessageID = SC_CMD_MID then SC_ProcessCommand v Buf s
         else if MessageID = SC_SEND_HK_MID then sc_verified Buf 8 (SC_SendHkCmd v) s
         else if MessageID = SC_WAKEUP_MID then sc_verified Buf 8 (SC_WakeupCmd v) s
         else if MessageID = LC_RTS_REQUEST_MID then
           sc_verified Buf 12 (\<lambda>s1. if msg_fcn_code Buf = SC_START_RTS_CC
             then SC_StartRtsCmd (le16 Buf 8) (CFE_EVS_SendEvent_SC SC_START_RTS_BY_LC_REQUEST_INF_EID s1) else s1) s
         else sc_rejected SC_MID_ERR_EID s)"

end
