(* ===== verification/Sc_Sched.thy ===== *)
theory Sc_Sched
  imports Sc_Cmds
begin

section \<open>Stored commands: the scheduler\<close>

text \<open>
  Which sequence comes next, and what one wakeup sends. The sequences are ordered by the wakeup at which they
  are due, and by their number where that is the same.
\<close>

subsection \<open>The next sequence\<close>

definition executing :: "sc \<Rightarrow> nat \<Rightarrow> bool" where
  "executing s i \<longleftrightarrow> i < SC_NUMBER_OF_RTS \<and> RtsStatus (RtsInfo s ! i) = SC_Status_EXECUTING"

lemma executing_frame [simp]:
  "executing (sc_send x s) = executing s" "executing (upd_hk h s) = executing s" "executing (upd_rtp b s) = executing s"
  "executing (upd_atp c s) = executing s" "executing (upd_ats a g s) = executing s"
  "executing (s\<lparr>NextCmdTime_RTP := t\<rparr>) = executing s" "executing (s\<lparr>NumCmdsWakeup := n\<rparr>) = executing s"
  by (simp_all add: executing_def fun_eq_iff)

abbreviation due_at :: "sc \<Rightarrow> nat \<Rightarrow> uint32" where
  "due_at s i \<equiv> NextCommandTgtWakeup (RtsInfo s ! i)"

text \<open>Sequence \<open>i\<close> is before all others.\<close>

definition first_due :: "sc \<Rightarrow> nat \<Rightarrow> bool" where
  "first_due s i \<longleftrightarrow> executing s i \<and>
     (\<forall>j. executing s j \<longrightarrow> due_at s i < due_at s j \<or> due_at s i = due_at s j \<and> i \<le> j)"

definition scan :: "SC_RtsInfoEntry list \<Rightarrow> nat \<Rightarrow> uint16 \<times> uint32 \<Rightarrow> uint16 \<times> uint32" where
  "scan tbl n x = fold (earlier_rts tbl) (rev [0..<n]) x"

lemma scan_simps [simp]: "scan tbl 0 x = x" "scan tbl (Suc n) x = scan tbl n (earlier_rts tbl n x)"
  by (simp_all add: scan_def)

lemma scan_result:
  fixes tbl defines "ex i \<equiv> RtsStatus (tbl ! i) = SC_Status_EXECUTING" and "tgt i \<equiv> NextCommandTgtWakeup (tbl ! i)"
  shows "scan tbl n (r, w) = (r', w') \<Longrightarrow>
    w' \<le> w \<and> (\<forall>i < n. ex i \<longrightarrow> w' \<le> tgt i) \<and>
    ((r', w') = (r, w) \<and> (\<forall>i < n. ex i \<longrightarrow> w < tgt i) \<or>
     (\<exists>i < n. r' = of_nat i \<and> ex i \<and> tgt i = w' \<and> (\<forall>j < i. ex j \<longrightarrow> w' < tgt j)))"
proof (induction n arbitrary: r w)
  case (Suc n)
  show ?case
  proof (cases "ex n \<and> tgt n \<le> w")
    case True
    then have "scan tbl n (of_nat n, tgt n) = (r', w')"
      using Suc.prems by (simp add: earlier_rts_def ex_def tgt_def Let_def)
    from Suc.IH [OF this] True show ?thesis
      by (auto simp: less_Suc_eq)
  next
    case False
    then have "scan tbl n (r, w) = (r', w')"
      using Suc.prems by (simp add: earlier_rts_def ex_def tgt_def Let_def split: if_splits)
    from Suc.IH [OF this] False show ?thesis
      by (auto simp: less_Suc_eq)
  qed
qed simp

lemma index_of_nat: "i < SC_NUMBER_OF_RTS \<Longrightarrow> unat (of_nat i :: uint16) = i"
  by (rule unat_of_nat_small) (simp add: sc_const)

lemma index_valid [simp]: "i < SC_NUMBER_OF_RTS \<Longrightarrow> SC_RtsIndexIsValid (of_nat i)"
  by (simp add: SC_RtsIndexIsValid_def SC_IDX_WITHIN_LIMIT_def index_of_nat)

lemma index_num [simp]: "SC_RtsNumToIndex (SC_RtsIndexToNum i) = i"
  by (simp add: SC_RtsNumToIndex_def SC_RtsIndexToNum_def)

lemma null_invalid [simp]: "\<not> SC_RtsIndexIsValid (SC_RtsNumToIndex SC_RTS_NUM_NULL)" "\<not> SC_RtsIndexIsValid SC_INVALID_RTS_INDEX"
  by (simp_all add: SC_RtsIndexIsValid_def SC_IDX_WITHIN_LIMIT_def SC_RtsNumToIndex_def sc_const
      unsigned_minus_1_eq_mask mask_eq_exp_minus_1)

text \<open>The result of the search for the next sequence.\<close>

definition selected :: "sc \<Rightarrow> (uint16 \<times> uint32) \<Rightarrow> bool" where
  "selected s x \<longleftrightarrow>
     ((\<forall>i. \<not> executing s i) \<and> x = (SC_RTS_NUM_NULL, SC_MAX_WAKEUP_CNT)) \<or>
     (\<exists>i. first_due s i \<and> x = (SC_RtsIndexToNum (of_nat i), due_at s i))"

lemma next_rts_state:
  "\<exists>x. selected s x \<and> SC_GetNextRtsTime s = (upd_rtp (\<lambda>b. b\<lparr>CurrRtsNum := fst x\<rparr>) s)\<lparr>NextCmdTime_RTP := snd x\<rparr>"
proof -
  obtain r w where sc: "scan (RtsInfo s) SC_NUMBER_OF_RTS (SC_INVALID_RTS_INDEX, SC_MAX_WAKEUP_CNT) = (r, w)" by fastforce
  have "SC_MAX_WAKEUP_CNT = - 1" by (simp add: SC_MAX_WAKEUP_CNT_def)
  then have max: "t \<le> SC_MAX_WAKEUP_CNT" for t by (metis word_n1_ge)
  from scan_result [OF sc] show ?thesis
  proof (elim conjE disjE exE)
    assume "\<forall>i<SC_NUMBER_OF_RTS. RtsStatus (RtsInfo s ! i) = SC_Status_EXECUTING \<longrightarrow> SC_MAX_WAKEUP_CNT < due_at s i"
      and rw: "(r, w) = (SC_INVALID_RTS_INDEX, SC_MAX_WAKEUP_CNT)"
    then have "\<forall>i. \<not> executing s i" using max by (auto simp: executing_def not_less [symmetric])
    then show ?thesis
      using sc rw by (intro exI [of _ "(SC_RTS_NUM_NULL, SC_MAX_WAKEUP_CNT)"])
        (simp add: selected_def SC_GetNextRtsTime_def scan_def Let_def)
  next
    fix i
    assume i: "i < SC_NUMBER_OF_RTS" "r = of_nat i" "RtsStatus (RtsInfo s ! i) = SC_Status_EXECUTING" "due_at s i = w"
      and le: "\<forall>i<SC_NUMBER_OF_RTS. RtsStatus (RtsInfo s ! i) = SC_Status_EXECUTING \<longrightarrow> w \<le> due_at s i"
      and less: "\<forall>j<i. RtsStatus (RtsInfo s ! j) = SC_Status_EXECUTING \<longrightarrow> w < due_at s j"
    have "first_due s i"
      using i le less unfolding first_due_def executing_def by (metis le_neq_trans not_less)
    then show ?thesis
      using sc i by (intro exI [of _ "(SC_RtsIndexToNum (of_nat i), w)"])
        (auto simp: selected_def SC_GetNextRtsTime_def scan_def Let_def)
  qed
qed

subsection \<open>What a wakeup sends\<close>

definition sc_sent :: "sc \<Rightarrow> message list" where
  "sc_sent s = concat (map (\<lambda>x. case x of SC_Transmit m b \<Rightarrow> [m] | _ \<Rightarrow> []) (SC_Out s))"

lemma sent_send [simp]:
  "sc_sent (sc_send x s) = sc_sent s @ (case x of SC_Transmit m b \<Rightarrow> [m] | _ \<Rightarrow> [])"
  by (simp add: sc_sent_def)

lemma sent_cong: "SC_Out t = SC_Out s \<Longrightarrow> sc_sent t = sc_sent s"
  by (simp add: sc_sent_def)

lemma sent_upd [simp]:
  "sc_sent (upd_hk h s) = sc_sent s" "sc_sent (upd_rtp b s) = sc_sent s" "sc_sent (upd_atp c s) = sc_sent s"
  "sc_sent (upd_rts i f s) = sc_sent s" "sc_sent (upd_ats i g s) = sc_sent s" "sc_sent (set_cmd_status a k x s) = sc_sent s"
  "sc_sent (s\<lparr>NextCmdTime_ATP := t\<rparr>) = sc_sent s" "sc_sent (s\<lparr>NextCmdTime_RTP := t\<rparr>) = sc_sent s"
  "sc_sent (s\<lparr>NumCmdsWakeup := n\<rparr>) = sc_sent s" "sc_sent (s\<lparr>CurrentWakeupCount := t\<rparr>) = sc_sent s"
  by (simp_all add: sc_sent_def)

interpretation sent_ats: ats_frame sc_sent by unfold_locales simp_all
interpretation sent_rts: rts_frame sc_sent by unfold_locales simp_all

text \<open>A step that counts a command sends at most one, a step that counts none sends none.\<close>

definition counted :: "sc \<Rightarrow> sc \<Rightarrow> bool" where
  "counted s t \<longleftrightarrow>
     (NumCmdsWakeup t = NumCmdsWakeup s \<and> sc_sent t = sc_sent s) \<or>
     (NumCmdsWakeup t = NumCmdsWakeup s + 1 \<and> (\<exists>ms. sc_sent t = sc_sent s @ ms \<and> length ms \<le> 1))"

lemma counted_cong:
  "NumCmdsWakeup t' = NumCmdsWakeup t \<Longrightarrow> sc_sent t' = sc_sent t \<Longrightarrow> counted s t' = counted s t"
  "NumCmdsWakeup s' = NumCmdsWakeup s \<Longrightarrow> sc_sent s' = sc_sent s \<Longrightarrow> counted s' t = counted s t"
  by (simp_all add: counted_def)

lemma counted_rtp: "counted s (SC_ProcessRtpCommand v s)"
  by (simp add: counted_def SC_ProcessRtpCommand_def Let_def sc_transmit_def)

lemma inline_counts: "SC_InlineSwitch s = (b, t) \<Longrightarrow> NumCmdsWakeup t = NumCmdsWakeup s \<and> sc_sent t = sc_sent s"
  using count_ats.inline_switch sent_ats.inline_switch by blast

lemma counted_send: "counted s (snd (send_ats_command v a c m s))"
  by (auto simp: counted_def send_ats_command_def Let_def sc_transmit_def dest!: inline_counts split: prod.splits bool.splits)

lemma counted_try: "counted s (snd (try_ats_command v a c s))"
  using counted_send [of s v a c] by (simp add: try_ats_command_def Let_def counted_def)

lemma counted_atp: "counted s (SC_ProcessAtpCmd v s)"
proof -
  define a c where "a = SC_AtsNumToIndex (CurrAtsNum (AtsCtrlBlck s))" and "c = SC_CommandNumToIndex (CmdNumber (AtsCtrlBlck s))"
  obtain b t where "try_ats_command v a c s = (b, t)" by fastforce
  then show ?thesis
    using counted_try [of s v a c] by (simp add: SC_ProcessAtpCmd_def a_def [symmetric] c_def [symmetric] counted_def)
qed

lemma counted_pass: "counted s (wakeup_pass v s)"
proof -
  define s1 where "s1 = (if SwitchPendFlag (AtsCtrlBlck s) then SC_ServiceSwitchPend s else s)"
  have s1: "NumCmdsWakeup s1 = NumCmdsWakeup s" "sc_sent s1 = sc_sent s" by (simp_all add: s1_def)
  show ?thesis
    using counted_atp [of s1 v] counted_rtp [of "SC_GetNextRtsTime (SC_ProcessAtpCmd v s1)" v]
    by (auto simp: wakeup_pass_def s1_def [symmetric] s1 Let_def counted_def)
qed

lemma loop_sent:
  assumes "NumCmdsWakeup s \<le> SC_MAX_CMDS_PER_WAKEUP"
  shows "\<exists>ms. sc_sent (wakeup_loop v s) = sc_sent s @ ms
    \<and> unat (NumCmdsWakeup s) + length ms \<le> unat (NumCmdsWakeup (wakeup_loop v s))
    \<and> NumCmdsWakeup (wakeup_loop v s) \<le> SC_MAX_CMDS_PER_WAKEUP"
  using assms
proof (induction v s rule: wakeup_loop.induct)
  case (1 v s)
  show ?case
  proof (cases "NumCmdsWakeup s < SC_MAX_CMDS_PER_WAKEUP \<and> NumCmdsWakeup (wakeup_pass v s) \<noteq> NumCmdsWakeup s")
    case True
    then obtain ms where ms: "NumCmdsWakeup (wakeup_pass v s) = NumCmdsWakeup s + 1"
        "sc_sent (wakeup_pass v s) = sc_sent s @ ms" "length ms \<le> 1"
      using counted_pass [of s v] by (auto simp: counted_def)
    have u: "unat (NumCmdsWakeup s + 1) = unat (NumCmdsWakeup s) + 1" using True by (simp add: count_less)
    then have "NumCmdsWakeup (wakeup_pass v s) \<le> SC_MAX_CMDS_PER_WAKEUP"
      using True ms by (simp add: word_le_nat_alt word_less_nat_alt)
    from 1(1) [OF _ refl _ this] True ms u show ?thesis
      by (fastforce simp: wakeup_loop.simps [of v s] Let_def)
  next
    case False
    then show ?thesis
      using counted_pass [of s v] 1(2)
      by (auto simp: wakeup_loop.simps [of v s] Let_def counted_def)
  qed
qed

subsection \<open>When a wakeup ends\<close>

text \<open>The wakeup in which a pass counts nothing ends with no sequence due.\<close>

definition none_due :: "sc \<Rightarrow> bool" where
  "none_due s \<longleftrightarrow> (\<forall>i. executing s i \<longrightarrow> CurrentWakeupCount s < due_at s i)"

lemma rtp_none_due:
  assumes same: "NumCmdsWakeup (SC_ProcessRtpCommand v (SC_GetNextRtsTime s)) = NumCmdsWakeup s"
  shows "none_due (SC_ProcessRtpCommand v (SC_GetNextRtsTime s))"
proof -
  define t where "t = SC_GetNextRtsTime s"
  obtain x where x: "selected s x" "t = (upd_rtp (\<lambda>b. b\<lparr>CurrRtsNum := fst x\<rparr>) s)\<lparr>NextCmdTime_RTP := snd x\<rparr>"
    using next_rts_state [of s] by (auto simp: t_def)
  have t: "RtsInfo t = RtsInfo s" "CurrentWakeupCount t = CurrentWakeupCount s" "NumCmdsWakeup t = NumCmdsWakeup s"
    "CurrRtsNum (RtsCtrlBlck t) = fst x" "NextCmdTime_RTP t = snd x"
    by (simp_all add: x(2))
  have ex: "executing t i = executing s i" "due_at t i = due_at s i" for i by (simp_all add: executing_def t)
  have run: "SC_ProcessRtpCommand v t = t \<and> (SC_RtsIndexIsValid (SC_RtsNumToIndex (fst x))
      \<longrightarrow> \<not> (snd x \<le> CurrentWakeupCount s \<and> RtsStatus (RtsInfo s ! unat (SC_RtsNumToIndex (fst x))) = SC_Status_EXECUTING))"
    using same by (auto simp: t_def [symmetric] SC_ProcessRtpCommand_def Let_def t sc_transmit_def split: if_splits)
  have "none_due s"
    using x(1) unfolding selected_def
  proof (elim disjE conjE exE)
    fix i assume i: "first_due s i" "x = (SC_RtsIndexToNum (of_nat i), due_at s i)"
    then have "i < SC_NUMBER_OF_RTS" "RtsStatus (RtsInfo s ! i) = SC_Status_EXECUTING"
      by (simp_all add: first_due_def executing_def)
    then have "CurrentWakeupCount s < due_at s i" using run i by (simp add: index_of_nat not_le)
    then show ?thesis using i(1) by (auto simp: none_due_def first_due_def)
  qed (simp add: none_due_def)
  then show ?thesis using run by (simp add: t_def [symmetric] none_due_def ex t)
qed

lemma loop_none_due:
  assumes "NumCmdsWakeup (wakeup_loop v s) < SC_MAX_CMDS_PER_WAKEUP"
  shows "none_due (wakeup_loop v s)"
  using assms
proof (induction v s rule: wakeup_loop.induct)
  case (1 v s)
  show ?case
  proof (cases "NumCmdsWakeup s < SC_MAX_CMDS_PER_WAKEUP")
    case less: True
    show ?thesis
    proof (cases "NumCmdsWakeup (wakeup_pass v s) = NumCmdsWakeup s")
      case True
      define s1 where "s1 = SC_ProcessAtpCmd v (if SwitchPendFlag (AtsCtrlBlck s) then SC_ServiceSwitchPend s else s)"
      have "wakeup_pass v s = SC_ProcessRtpCommand v (SC_GetNextRtsTime s1) \<and> NumCmdsWakeup s1 = NumCmdsWakeup s"
        using True by (simp add: wakeup_pass_def s1_def Let_def split: if_splits)
      then show ?thesis
        using rtp_none_due [of v s1] True less by (simp add: wakeup_loop.simps [of v s] Let_def)
    next
      case False
      then show ?thesis using 1 less by (simp add: wakeup_loop.simps [of v s] Let_def)
    qed
  next
    case False
    then show ?thesis using 1(2) by (simp add: wakeup_loop.simps [of v s])
  qed
qed

end
