(* ===== verification/Sc_Sequence.thy ===== *)
theory Sc_Sequence
  imports Sc_Sched
begin

section \<open>Stored commands: a relative time sequence as a list\<close>

text \<open>
  The table of a sequence stands for a list of commands with their delays: from an offset on, the entries up to
  the first that is too short, too long, or runs off the end. Running a sequence takes this list apart.
\<close>

subsection \<open>The list of a table\<close>

definition entry_fits :: "uint8 list \<Rightarrow> nat \<Rightarrow> bool" where
  "entry_fits tbl off \<longleftrightarrow>
     (let n = msg_size (rts_msg (table_entry tbl off))
      in off + SC_RTS_HDR_WORDS \<le> SC_RTS_BUFF_SIZE32 \<and> SC_PACKET_MIN_SIZE \<le> n \<and> n \<le> SC_PACKET_MAX_SIZE
         \<and> off + (unat n + 7) div 4 \<le> SC_RTS_BUFF_SIZE32)"

definition next_entry :: "uint8 list \<Rightarrow> nat \<Rightarrow> nat" where
  "next_entry tbl off = off + (unat (msg_size (rts_msg (table_entry tbl off))) + 7) div 4"

function rts_commands :: "uint8 list \<Rightarrow> nat \<Rightarrow> (uint32 \<times> message) list" where
  "rts_commands tbl off =
     (if entry_fits tbl off
      then (rts_wakeup (table_entry tbl off), stored_command (rts_msg (table_entry tbl off)))
             # rts_commands tbl (next_entry tbl off)
      else [])"
  by pat_completeness auto
termination
  by (relation "measure (\<lambda>(tbl, off). SC_RTS_BUFF_SIZE32 - off)") (auto simp: entry_fits_def next_entry_def Let_def sc_const)

declare rts_commands.simps [simp del]

lemma fits_step: "entry_fits tbl off \<Longrightarrow> off < next_entry tbl off \<and> next_entry tbl off \<le> SC_RTS_BUFF_SIZE32"
  by (auto simp: entry_fits_def next_entry_def Let_def)

lemma stored_fits:
  assumes "entry_fits tbl off" "length tbl = 4 * SC_RTS_BUFF_SIZE32"
  defines "m \<equiv> rts_msg (table_entry tbl off)"
  shows "unat (msg_size m) \<le> length m" "length (stored_command m) = unat (msg_size m)" "8 \<le> unat (msg_size m)"
proof -
  have n: "8 \<le> unat (msg_size m)" "off + (unat (msg_size m) + 7) div 4 \<le> SC_RTS_BUFF_SIZE32"
    using assms(1) by (simp_all add: entry_fits_def m_def Let_def word_le_nat_alt sc_const)
  have "unat (msg_size m) + 4 \<le> 4 * ((unat (msg_size m) + 7) div 4)" by presburger
  then show l: "unat (msg_size m) \<le> length m"
    using n assms(2) by (simp add: m_def rts_msg_def table_entry_def sc_const)
  then show "length (stored_command m) = unat (msg_size m)" by (simp add: stored_command_def)
  show "8 \<le> unat (msg_size m)" by (rule n(1))
qed

text \<open>The checksum looks at no more than the command.\<close>

lemma stored_header:
  assumes "unat (msg_size m) \<le> length m" "8 \<le> unat (msg_size m)"
  shows "msg_size (stored_command m) = msg_size m" "is_msg t (Some (stored_command m)) = is_msg t (Some m)"
    "CFE_MSG_ComputeCheckSum (stored_command m) = CFE_MSG_ComputeCheckSum m"
proof -
  have nth: "i < 8 \<Longrightarrow> stored_command m ! i = m ! i" for i
    using assms by (simp add: stored_command_def)
  show n: "msg_size (stored_command m) = msg_size m"
    by (simp add: msg_size_def CFE_MSG_GetSize_def nth)
  show "is_msg t (Some (stored_command m)) = is_msg t (Some m)"
    by (simp add: is_msg_def CFE_MSG_GetHasSecondaryHeader_def CFE_MSG_GetType_def CFE_MSG_GetHeaderField_def nth)
  have "fold (\<lambda>i c. c XOR ucast (stored_command m ! i)) [0..<unat (msg_size m)] (0xFF :: uint32)
      = fold (\<lambda>i c. c XOR ucast (m ! i)) [0..<unat (msg_size m)] 0xFF"
    by (rule fold_cong) (use assms in \<open>simp_all add: stored_command_def\<close>)
  moreover have "CFE_MSG_ComputeCheckSum x = fold (\<lambda>i c. c XOR ucast (x ! i)) [0..<unat (msg_size x)] 0xFF" for x
    by (simp add: CFE_MSG_ComputeCheckSum_def msg_size_def CFE_MSG_GetSize_def)
  ultimately show "CFE_MSG_ComputeCheckSum (stored_command m) = CFE_MSG_ComputeCheckSum m" by (simp add: n)
qed

lemma checksum_stored:
  "unat (msg_size m) \<le> length m \<Longrightarrow> 8 \<le> unat (msg_size m) \<Longrightarrow> checksum_valid (stored_command m) s = checksum_valid m s"
  by (simp add: checksum_valid_def CFE_MSG_ValidateChecksum_def stored_header)

subsection \<open>The next command\<close>

lemma advance_rts:
  assumes "msg_size m \<le> SC_PACKET_MAX_SIZE" "unat off \<le> SC_RTS_BUFF_SIZE32"
  shows "unat (SC_EntryOffsetAdvance off (msg_size m + of_nat SC_RTS_HEADER_SIZE)) = unat off + (unat (msg_size m) + 7) div 4"
proof -
  have m: "unat (msg_size m) \<le> 256" using assms(1) by (simp add: word_le_nat_alt sc_const)
  have "unat (msg_size m + of_nat SC_RTS_HEADER_SIZE + 3) = unat (msg_size m) + 7"
    using unat_size_add [OF assms(1), of 7] by (simp add: sc_const add.assoc)
  moreover have "(unat (msg_size m) + 7) div 4 < 100" using m by linarith
  ultimately show ?thesis using assms(2) by (simp add: unat_advance sc_const)
qed

text \<open>A sequence is stopped, or goes on at an entry that fits.\<close>

lemma command_at:
  assumes "unat off \<le> SC_RTS_BUFF_SIZE32" "SC_RtsIndexIsValid r" "length (RtsInfo s) = SC_NUMBER_OF_RTS"
    "RtsStatus (RtsInfo s ! unat r) = SC_Status_EXECUTING"
  defines "t \<equiv> rts_command_at r off s" and "tbl \<equiv> RtsTbl s ! unat r"
  shows "if entry_fits tbl (unat off)
    then t = upd_rts r (\<lambda>x. x\<lparr>NextCommandTgtWakeup := CurrentWakeupCount s + rts_wakeup (table_entry tbl (unat off)),
           NextCommandPtr := off\<rparr>) s
    else \<not> executing t (unat r) \<and> (\<forall>j. j \<noteq> unat r \<longrightarrow> RtsInfo t ! j = RtsInfo s ! j)"
proof -
  have limit: "unat off < 1 + SC_RTS_BUFF_SIZE32 - SC_RTS_HDR_WORDS \<longleftrightarrow> unat off + SC_RTS_HDR_WORDS \<le> SC_RTS_BUFF_SIZE32"
    by (auto simp: sc_const)
  have e: "SC_GetRtsEntryAtOffset r off s = table_entry tbl (unat off)"
    by (simp add: SC_GetRtsEntryAtOffset_def tbl_def)
  have r: "unat r < length (RtsInfo s)"
    using assms(2,3) by (simp add: SC_RtsIndexIsValid_def SC_IDX_WITHIN_LIMIT_def)
  have kill: "\<not> executing (SC_KillRts r u) (unat r) \<and> (\<forall>j. j \<noteq> unat r \<longrightarrow> RtsInfo (SC_KillRts r u) ! j = RtsInfo u ! j)"
    if "length (RtsInfo u) = SC_NUMBER_OF_RTS" "RtsStatus (RtsInfo u ! unat r) = SC_Status_EXECUTING" for u
    using that assms(2) r assms(3) by (simp add: SC_KillRts_def executing_def)
  have err: "RtsInfo (rts_cmd_error r off s) = (RtsInfo s)[unat r := (RtsInfo s ! unat r)\<lparr>Rts_CmdErrCtr := Rts_CmdErrCtr (RtsInfo s ! unat r) + 1\<rparr>]"
    by (simp add: rts_cmd_error_def)
  have stop: "\<not> executing (SC_KillRts r (rts_cmd_error r off s)) (unat r)
      \<and> (\<forall>j. j \<noteq> unat r \<longrightarrow> RtsInfo (SC_KillRts r (rts_cmd_error r off s)) ! j = RtsInfo s ! j)"
    using kill [of "rts_cmd_error r off s"] assms(3,4) r by (simp add: err)
  have complete: "\<not> executing (rts_complete r s) (unat r) \<and> (\<forall>j. j \<noteq> unat r \<longrightarrow> RtsInfo (rts_complete r s) ! j = RtsInfo s ! j)"
    using kill [OF assms(3,4)] by (simp add: rts_complete_def Let_def)
  show ?thesis
    using stop complete advance_rts [of "rts_msg (table_entry tbl (unat off))" off] assms(1)
    by (auto simp: t_def rts_command_at_def entry_fits_def Let_def e SC_IDX_WITHIN_LIMIT_def limit SC_ComputeAbsWakeup_def)
qed

subsection \<open>Sending a command\<close>

definition pending :: "sc \<Rightarrow> nat \<Rightarrow> (uint32 \<times> message) list" where
  "pending s r = rts_commands (RtsTbl s ! r) (unat (NextCommandPtr (RtsInfo s ! r)))"

definition rts_ready :: "sc \<Rightarrow> nat \<Rightarrow> bool" where
  "rts_ready s r \<longleftrightarrow> executing s r \<and> length (RtsInfo s) = SC_NUMBER_OF_RTS \<and> length (RtsTbl s ! r) = 4 * SC_RTS_BUFF_SIZE32
     \<and> pending s r \<noteq> []"

lemma pending_fits: "pending s r \<noteq> [] \<longleftrightarrow> entry_fits (RtsTbl s ! r) (unat (NextCommandPtr (RtsInfo s ! r)))"
  by (simp add: pending_def rts_commands.simps)

interpretation tables_rts: rts_frame "\<lambda>s. (RtsTbl s, CurrentWakeupCount s, EnableHeaderUpdate s, AtsCtrlBlck s)"
  by unfold_locales simp_all

text \<open>The sequence after a command has been sent: it goes on with the rest of its list, or is stopped.\<close>

definition goes_on :: "sc \<Rightarrow> nat \<Rightarrow> (uint32 \<times> message) list \<Rightarrow> sc \<Rightarrow> bool" where
  "goes_on s r rest t \<longleftrightarrow>
     (if rest = [] then \<not> executing t r
      else rts_ready t r \<and> pending t r = rest \<and> due_at t r = CurrentWakeupCount s + fst (hd rest))
     \<and> (\<forall>j. j \<noteq> r \<longrightarrow> RtsInfo t ! j = RtsInfo s ! j)"

lemma process_rtp:
  fixes v :: sc_services
  assumes ready: "rts_ready s r" and cur: "CurrRtsNum (RtsCtrlBlck s) = SC_RtsIndexToNum (of_nat r)"
    and due: "NextCmdTime_RTP s \<le> CurrentWakeupCount s" and cs: "pending s r = (d, m) # rest" and ok: "checksum_valid m s"
  defines "t \<equiv> SC_ProcessRtpCommand v s"
  shows "sc_sent t = sc_sent s @ [m]" "NumCmdsWakeup t = NumCmdsWakeup s + 1"
    "goes_on s r (if SC_SendStatus v (length (SC_Out s)) = CFE_SUCCESS then rest else []) t"
proof -
  define tbl off i where "tbl = RtsTbl s ! r" and "off = NextCommandPtr (RtsInfo s ! r)" and "i = (of_nat r :: uint16)"
  have r: "r < SC_NUMBER_OF_RTS" and len: "length (RtsInfo s) = SC_NUMBER_OF_RTS" and ltbl: "length tbl = 4 * SC_RTS_BUFF_SIZE32"
    and ex: "RtsStatus (RtsInfo s ! r) = SC_Status_EXECUTING"
    using ready by (simp_all add: rts_ready_def executing_def tbl_def)
  have i: "unat i = r" "SC_RtsIndexIsValid i" using r by (simp_all add: i_def index_of_nat)
  have fits: "entry_fits tbl (unat off)" using cs by (simp add: tbl_def off_def flip: pending_fits)
  define raw where "raw = rts_msg (table_entry tbl (unat off))"
  have m: "m = stored_command raw" and rest: "rest = rts_commands tbl (next_entry tbl (unat off))"
    using cs fits by (simp_all add: pending_def tbl_def [symmetric] off_def [symmetric] raw_def rts_commands.simps [of tbl "unat off"])
  have size: "unat (msg_size raw) \<le> length raw" "8 \<le> unat (msg_size raw)" "msg_size raw \<le> SC_PACKET_MAX_SIZE"
      "unat off \<le> SC_RTS_BUFF_SIZE32"
    using stored_fits [OF fits ltbl] fits by (simp_all add: raw_def entry_fits_def Let_def)
  define s1 s2 s3 where "s1 = s\<lparr>NumCmdsWakeup := NumCmdsWakeup s + 1\<rparr>"
    and "s2 = sc_send (SC_Transmit m (EnableHeaderUpdate s)) s1"
    and "s3 = upd_rts i (\<lambda>x. x\<lparr>Rts_CmdCtr := Rts_CmdCtr x + 1\<rparr>) (upd_hk (\<lambda>h. h\<lparr>RtsCmdCtr := RtsCmdCtr h + 1\<rparr>) s2)"
  have e: "rts_msg (SC_GetRtsEntryAtOffset i (NextCommandPtr (RtsInfo s ! r)) (s\<lparr>NumCmdsWakeup := NumCmdsWakeup s + 1\<rparr>)) = raw"
    by (simp add: SC_GetRtsEntryAtOffset_def i raw_def tbl_def off_def)
  have valid: "checksum_valid raw (s\<lparr>NumCmdsWakeup := NumCmdsWakeup s + 1\<rparr>)"
    using ok checksum_stored [OF size(1,2), of s] by (simp add: m checksum_valid_def)
  have run: "t = (if SC_SendStatus v (length (SC_Out s)) = CFE_SUCCESS then SC_GetNextRtsCommand s3
      else rts_stopped SC_RTS_DIST_ERR_EID i off s2)"
    using ex due valid i(2)
    by (simp add: t_def SC_ProcessRtpCommand_def cur Let_def i_def [symmetric] i(1) e sc_transmit_def s1_def s2_def s3_def
        m [symmetric] off_def)
  show "sc_sent t = sc_sent s @ [m]" "NumCmdsWakeup t = NumCmdsWakeup s + 1"
    by (simp_all add: run) (simp_all add: s3_def s2_def s1_def)
  show "goes_on s r (if SC_SendStatus v (length (SC_Out s)) = CFE_SUCCESS then rest else []) t"
  proof (cases "SC_SendStatus v (length (SC_Out s)) = CFE_SUCCESS")
    case False
    then show ?thesis
      using r len ex by (simp add: goes_on_def run rts_stopped_def rts_cmd_error_def SC_KillRts_def i s2_def s1_def executing_def)
  next
    case True
    define off' where "off' = SC_EntryOffsetAdvance off (msg_size raw + of_nat SC_RTS_HEADER_SIZE)"
    have off': "unat off' = next_entry tbl (unat off)"
      using advance_rts [OF size(3,4)] by (simp add: off'_def next_entry_def raw_def)
    have s3: "RtsInfo s3 = (RtsInfo s)[r := (RtsInfo s ! r)\<lparr>Rts_CmdCtr := Rts_CmdCtr (RtsInfo s ! r) + 1\<rparr>]"
      "RtsTbl s3 = RtsTbl s" "RtsCtrlBlck s3 = RtsCtrlBlck s" "CurrentWakeupCount s3 = CurrentWakeupCount s"
      by (simp_all add: s3_def s2_def s1_def i)
    have t: "t = rts_command_at i off' s3"
      using True ex r len i(2)
      by (simp add: run SC_GetNextRtsCommand_def s3 cur i_def [symmetric] i Let_def SC_GetRtsEntryAtOffset_def off'_def raw_def
          tbl_def off_def)
    have le: "unat off' \<le> SC_RTS_BUFF_SIZE32" using fits_step [OF fits] off' by simp
    have rest': "rest = rts_commands tbl (unat off')" by (simp add: rest off')
    show ?thesis
    proof (cases "entry_fits tbl (unat off')")
      case True': True
      then have "t = upd_rts i (\<lambda>x. x\<lparr>NextCommandTgtWakeup := CurrentWakeupCount s + rts_wakeup (table_entry tbl (unat off')),
           NextCommandPtr := off'\<rparr>) s3"
        using command_at [OF le i(2), of s3] len ex r by (simp add: t tbl_def s3 i(1))
      moreover have "rest \<noteq> []" "fst (hd rest) = rts_wakeup (table_entry tbl (unat off'))"
        using True' by (simp_all add: rest' rts_commands.simps [of tbl "unat off'"])
      ultimately show ?thesis
        using True r len ex ltbl
        by (simp add: goes_on_def rts_ready_def executing_def pending_def i(1) s3 tbl_def [symmetric] rest')
    next
      case False
      then have "\<not> executing t r \<and> (\<forall>j. j \<noteq> r \<longrightarrow> RtsInfo t ! j = RtsInfo s3 ! j)"
        using command_at [OF le i(2), of s3] len ex r by (simp add: t tbl_def s3 i(1))
      moreover have "rest = []" using False by (simp add: rest' rts_commands.simps)
      ultimately show ?thesis using True by (simp add: goes_on_def s3(1))
    qed
  qed
qed

subsection \<open>A sequence alone\<close>

text \<open>
  What is sent in \<open>n\<close> wakeups: each command waits for its delay, counted from the wakeup before it. The list of a
  running sequence has, as the delay of its first command, the number of wakeups that are left.
\<close>

fun timetable :: "(uint32 \<times> message) list \<Rightarrow> nat \<Rightarrow> message list" where
  "timetable [] n = []"
| "timetable ((d, m) # rest) n = (if n < unat d then [] else m # timetable rest (n - unat d))"

definition delays :: "(uint32 \<times> message) list \<Rightarrow> nat" where
  "delays cs = sum_list (map (unat \<circ> fst) cs)"

definition quiet_ats :: "sc \<Rightarrow> bool" where
  "quiet_ats s \<longleftrightarrow> AtpState (AtsCtrlBlck s) \<noteq> SC_Status_EXECUTING \<and> \<not> SwitchPendFlag (AtsCtrlBlck s)"

definition on_schedule :: "sc \<Rightarrow> nat \<Rightarrow> (uint32 \<times> message) list \<Rightarrow> bool" where
  "on_schedule s r cs \<longleftrightarrow>
     quiet_ats s \<and> NumCmdsWakeup s = 0 \<and> (\<forall>j. j \<noteq> r \<longrightarrow> \<not> executing s j) \<and>
     (if cs = [] then \<not> executing s r
      else rts_ready s r \<and> tl cs = tl (pending s r) \<and> snd (hd cs) = snd (hd (pending s r))
         \<and> due_at s r = CurrentWakeupCount s + fst (hd cs))"

text \<open>What can be sent: every delay is at least one wakeup, the wakeup counter does not wrap, and every command has a
  good checksum.\<close>

definition timely :: "sc \<Rightarrow> (uint32 \<times> message) list \<Rightarrow> bool" where
  "timely s cs \<longleftrightarrow> (\<forall>c \<in> set cs. fst c \<noteq> 0 \<and> checksum_valid (snd c) s)
     \<and> unat (CurrentWakeupCount s) + delays cs < 2 ^ 32"

definition bus_accepts :: "sc_services \<Rightarrow> bool" where
  "bus_accepts v \<longleftrightarrow> (\<forall>n. SC_SendStatus v n = CFE_SUCCESS)"

lemma frame_next:
  "RtsTbl (SC_GetNextRtsCommand s) = RtsTbl s" "CurrentWakeupCount (SC_GetNextRtsCommand s) = CurrentWakeupCount s"
  "EnableHeaderUpdate (SC_GetNextRtsCommand s) = EnableHeaderUpdate s" "AtsCtrlBlck (SC_GetNextRtsCommand s) = AtsCtrlBlck s"
  using tables_rts.next_rts(3) [of s] by (simp_all only: prod.inject)

lemma frame_stopped:
  "RtsTbl (rts_stopped e i c s) = RtsTbl s" "CurrentWakeupCount (rts_stopped e i c s) = CurrentWakeupCount s"
  "EnableHeaderUpdate (rts_stopped e i c s) = EnableHeaderUpdate s" "AtsCtrlBlck (rts_stopped e i c s) = AtsCtrlBlck s"
  using tables_rts.errors(3) [of e i c s] by (simp_all only: prod.inject)

lemma frame_rtp:
  "RtsTbl (SC_ProcessRtpCommand v s) = RtsTbl s" "CurrentWakeupCount (SC_ProcessRtpCommand v s) = CurrentWakeupCount s"
  "EnableHeaderUpdate (SC_ProcessRtpCommand v s) = EnableHeaderUpdate s" "AtsCtrlBlck (SC_ProcessRtpCommand v s) = AtsCtrlBlck s"
  by (simp_all add: SC_ProcessRtpCommand_def Let_def sc_transmit_def frame_next frame_stopped)

lemma frame_select [simp]:
  "RtsInfo (SC_GetNextRtsTime s) = RtsInfo s" "RtsTbl (SC_GetNextRtsTime s) = RtsTbl s" "SC_Out (SC_GetNextRtsTime s) = SC_Out s"
  "CurrentWakeupCount (SC_GetNextRtsTime s) = CurrentWakeupCount s" "AtsCtrlBlck (SC_GetNextRtsTime s) = AtsCtrlBlck s"
  "EnableHeaderUpdate (SC_GetNextRtsTime s) = EnableHeaderUpdate s" "executing (SC_GetNextRtsTime s) = executing s"
  "pending (SC_GetNextRtsTime s) = pending s" "rts_ready (SC_GetNextRtsTime s) = rts_ready s"
proof -
  obtain x where x: "SC_GetNextRtsTime s = (upd_rtp (\<lambda>b. b\<lparr>CurrRtsNum := fst x\<rparr>) s)\<lparr>NextCmdTime_RTP := snd x\<rparr>"
    using next_rts_state [of s] by auto
  show "RtsInfo (SC_GetNextRtsTime s) = RtsInfo s" "RtsTbl (SC_GetNextRtsTime s) = RtsTbl s" "SC_Out (SC_GetNextRtsTime s) = SC_Out s"
    "CurrentWakeupCount (SC_GetNextRtsTime s) = CurrentWakeupCount s" "AtsCtrlBlck (SC_GetNextRtsTime s) = AtsCtrlBlck s"
    "EnableHeaderUpdate (SC_GetNextRtsTime s) = EnableHeaderUpdate s" "executing (SC_GetNextRtsTime s) = executing s"
    "pending (SC_GetNextRtsTime s) = pending s" "rts_ready (SC_GetNextRtsTime s) = rts_ready s"
    by (simp_all add: x pending_def rts_ready_def fun_eq_iff)
qed

lemma quiet_atp: "quiet_ats s \<Longrightarrow> wakeup_pass v s = SC_ProcessRtpCommand v (SC_GetNextRtsTime s)"
  by (simp add: wakeup_pass_def SC_ProcessAtpCmd_def quiet_ats_def Let_def)

text \<open>With no sequence due a pass does nothing but select the next one.\<close>

lemma quiet_pass:
  assumes "quiet_ats s" "none_due s"
  shows "wakeup_pass v s = SC_GetNextRtsTime s"
proof -
  obtain x where x: "selected s x" "SC_GetNextRtsTime s = (upd_rtp (\<lambda>b. b\<lparr>CurrRtsNum := fst x\<rparr>) s)\<lparr>NextCmdTime_RTP := snd x\<rparr>"
    using next_rts_state [of s] by auto
  have "SC_ProcessRtpCommand v (SC_GetNextRtsTime s) = SC_GetNextRtsTime s"
    using x(1) unfolding selected_def
  proof (elim disjE conjE exE)
    assume "x = (SC_RTS_NUM_NULL, SC_MAX_WAKEUP_CNT)"
    then show ?thesis by (simp add: SC_ProcessRtpCommand_def Let_def x(2))
  next
    fix i
    assume i: "first_due s i" "x = (SC_RtsIndexToNum (of_nat i), due_at s i)"
    then have "\<not> due_at s i \<le> CurrentWakeupCount s" using assms(2) by (simp add: none_due_def first_due_def not_le)
    then show ?thesis by (simp add: SC_ProcessRtpCommand_def Let_def x(2) i(2))
  qed
  then show ?thesis by (simp add: quiet_atp [OF assms(1)])
qed

lemma quiet_loop:
  "quiet_ats s \<Longrightarrow> none_due s \<Longrightarrow> NumCmdsWakeup s < SC_MAX_CMDS_PER_WAKEUP \<Longrightarrow> wakeup_loop v s = SC_GetNextRtsTime s"
  by (simp add: wakeup_loop.simps quiet_pass Let_def)

lemma sole_selected:
  assumes "executing s r" "\<forall>j. j \<noteq> r \<longrightarrow> \<not> executing s j"
  shows "CurrRtsNum (RtsCtrlBlck (SC_GetNextRtsTime s)) = SC_RtsIndexToNum (of_nat r)"
    "NextCmdTime_RTP (SC_GetNextRtsTime s) = due_at s r"
proof -
  obtain x where x: "selected s x" "SC_GetNextRtsTime s = (upd_rtp (\<lambda>b. b\<lparr>CurrRtsNum := fst x\<rparr>) s)\<lparr>NextCmdTime_RTP := snd x\<rparr>"
    using next_rts_state [of s] by auto
  have "i = r" if "first_due s i" for i using that assms(2) unfolding first_due_def by blast
  then have "x = (SC_RtsIndexToNum (of_nat r), due_at s r)"
    using x(1) assms(1) unfolding selected_def by blast
  then show "CurrRtsNum (RtsCtrlBlck (SC_GetNextRtsTime s)) = SC_RtsIndexToNum (of_nat r)"
    "NextCmdTime_RTP (SC_GetNextRtsTime s) = due_at s r"
    by (simp_all add: x(2))
qed

text \<open>A wakeup with no sequence due sends nothing.\<close>

lemma wakeup_frame [simp]:
  "RtsInfo (s\<lparr>CurrentWakeupCount := w\<rparr>) = RtsInfo s" "executing (s\<lparr>CurrentWakeupCount := w\<rparr>) = executing s"
  "rts_ready (s\<lparr>CurrentWakeupCount := w\<rparr>) = rts_ready s" "pending (s\<lparr>CurrentWakeupCount := w\<rparr>) = pending s"
  "quiet_ats (s\<lparr>CurrentWakeupCount := w\<rparr>) = quiet_ats s" "rts_ready (s\<lparr>NumCmdsWakeup := n\<rparr>) = rts_ready s"
  "pending (s\<lparr>NumCmdsWakeup := n\<rparr>) = pending s" "quiet_ats (s\<lparr>NumCmdsWakeup := n\<rparr>) = quiet_ats s"
  by (simp_all add: executing_def rts_ready_def pending_def quiet_ats_def fun_eq_iff)

lemma quiet_select [simp]: "quiet_ats (SC_GetNextRtsTime s) = quiet_ats s"
  by (simp add: quiet_ats_def)

lemma quiet_wakeup:
  fixes s :: sc and v :: sc_services
  assumes "quiet_ats s" "NumCmdsWakeup s = 0"
    and due: "none_due (s\<lparr>CurrentWakeupCount := CurrentWakeupCount s + 1\<rparr>)"
  shows "SC_WakeupCmd v s = (SC_GetNextRtsTime (s\<lparr>CurrentWakeupCount := CurrentWakeupCount s + 1\<rparr>))\<lparr>NumCmdsWakeup := 0\<rparr>"
  using quiet_loop [of "s\<lparr>CurrentWakeupCount := CurrentWakeupCount s + 1\<rparr>" v] assms
  by (simp add: SC_WakeupCmd_def sc_const)

text \<open>The first command of the only sequence is due: it is sent, and nothing else is.\<close>

lemma due_wakeup:
  fixes s :: sc and v :: sc_services
  defines "u \<equiv> s\<lparr>CurrentWakeupCount := CurrentWakeupCount s + 1\<rparr>"
  assumes q: "quiet_ats s" "NumCmdsWakeup s = 0" and ready: "rts_ready s r" and alone: "\<forall>j. j \<noteq> r \<longrightarrow> \<not> executing s j"
    and due: "due_at s r \<le> CurrentWakeupCount s + 1" and cs: "pending s r = (d, m) # rest" and ok: "checksum_valid m s"
    and bus: "SC_SendStatus v (length (SC_Out s)) = CFE_SUCCESS"
    and later: "rest \<noteq> [] \<Longrightarrow> CurrentWakeupCount s + 1 < CurrentWakeupCount s + 1 + fst (hd rest)"
  defines "t \<equiv> SC_WakeupCmd v s"
  shows "sc_sent t = sc_sent s @ [m]" "goes_on u r rest t" "quiet_ats t" "\<forall>j. j \<noteq> r \<longrightarrow> \<not> executing t j"
    "CurrentWakeupCount t = CurrentWakeupCount s + 1" "EnableHeaderUpdate t = EnableHeaderUpdate s" "NumCmdsWakeup t = 0"
proof -
  define w where "w = SC_GetNextRtsTime u"
  define p where "p = SC_ProcessRtpCommand v w"
  have ex: "executing s r" using ready by (simp add: rts_ready_def)
  have u: "rts_ready u r" "executing u r" "\<forall>j. j \<noteq> r \<longrightarrow> \<not> executing u j" "quiet_ats u" "NumCmdsWakeup u = 0"
    "RtsInfo u = RtsInfo s" "CurrentWakeupCount u = CurrentWakeupCount s + 1" "SC_Out u = SC_Out s"
    "EnableHeaderUpdate u = EnableHeaderUpdate s" "pending u r = (d, m) # rest"
    using ready ex alone q cs by (simp_all add: u_def)
  have nw: "NumCmdsWakeup w = 0" and sw: "sc_sent w = sc_sent s"
    using u(5) by (simp_all add: w_def count_rts.next_rts) (simp add: u_def)
  have wu: "checksum_valid m w" using ok by (simp add: checksum_valid_def w_def u(9))
  have bus': "SC_SendStatus v (length (SC_Out w)) = CFE_SUCCESS" using bus by (simp add: w_def u(8))
  have w: "rts_ready w r" "CurrRtsNum (RtsCtrlBlck w) = SC_RtsIndexToNum (of_nat r)" "NextCmdTime_RTP w \<le> CurrentWakeupCount w"
    "pending w r = (d, m) # rest"
    using sole_selected [OF u(2,3)] u due by (simp_all add: w_def)
  note p = process_rtp [OF w wu, of v, folded p_def, unfolded bus', simplified]
  have g: "goes_on u r rest p" using p(3) by (simp add: goes_on_def w_def)
  have pq: "quiet_ats p" "CurrentWakeupCount p = CurrentWakeupCount s + 1" "EnableHeaderUpdate p = EnableHeaderUpdate s"
    using u by (simp_all add: p_def quiet_ats_def frame_rtp w_def)
  have pa: "\<forall>j. j \<noteq> r \<longrightarrow> \<not> executing p j" using g u(3) by (auto simp: goes_on_def executing_def)
  have "CurrentWakeupCount p < due_at p r" if "executing p r"
    using g later that by (auto simp: goes_on_def pq(2) u(7) split: if_splits)
  then have none: "none_due p" using pa unfolding none_due_def by metis
  have pass: "wakeup_pass v u = p" using u(4) by (simp add: quiet_atp p_def w_def)
  have n1: "NumCmdsWakeup p = 1" using p(2) nw by simp
  have "wakeup_loop v u = wakeup_loop v p"
    by (simp add: wakeup_loop.simps [of v u] u(5) pass n1 Let_def sc_const)
  also have "\<dots> = SC_GetNextRtsTime p" using quiet_loop [OF pq(1) none, of v] n1 by (simp add: sc_const)
  finally have t: "t = (SC_GetNextRtsTime p)\<lparr>NumCmdsWakeup := 0\<rparr>" by (simp add: t_def SC_WakeupCmd_def u_def)
  show "sc_sent t = sc_sent s @ [m]" using p(1) sw by (simp add: t)
  show "goes_on u r rest t" using g by (simp add: t goes_on_def)
  show "quiet_ats t" "\<forall>j. j \<noteq> r \<longrightarrow> \<not> executing t j" "CurrentWakeupCount t = CurrentWakeupCount s + 1"
    "EnableHeaderUpdate t = EnableHeaderUpdate s" "NumCmdsWakeup t = 0"
    using pq pa by (simp_all add: t)
qed

text \<open>Nothing is due: the wakeup only counts.\<close>

lemma idle_wakeup:
  fixes s :: sc and v :: sc_services
  assumes "quiet_ats s" "NumCmdsWakeup s = 0" "\<And>i. executing s i \<Longrightarrow> CurrentWakeupCount s + 1 < due_at s i"
  defines "t \<equiv> SC_WakeupCmd v s"
  shows "sc_sent t = sc_sent s" "RtsInfo t = RtsInfo s" "executing t = executing s" "rts_ready t = rts_ready s"
    "pending t = pending s" "quiet_ats t" "CurrentWakeupCount t = CurrentWakeupCount s + 1"
    "EnableHeaderUpdate t = EnableHeaderUpdate s" "NumCmdsWakeup t = 0"
proof -
  have "none_due (s\<lparr>CurrentWakeupCount := CurrentWakeupCount s + 1\<rparr>)" using assms(3) by (simp add: none_due_def)
  from quiet_wakeup [OF assms(1,2) this, of v]
  have t: "t = (SC_GetNextRtsTime (s\<lparr>CurrentWakeupCount := CurrentWakeupCount s + 1\<rparr>))\<lparr>NumCmdsWakeup := 0\<rparr>"
    by (simp add: t_def)
  show "sc_sent t = sc_sent s" "RtsInfo t = RtsInfo s" "executing t = executing s" "rts_ready t = rts_ready s"
    "pending t = pending s" "quiet_ats t" "CurrentWakeupCount t = CurrentWakeupCount s + 1"
    "EnableHeaderUpdate t = EnableHeaderUpdate s" "NumCmdsWakeup t = 0"
    using assms(1) by (simp_all add: t)
qed

subsection \<open>The timetable\<close>

definition after_wakeup :: "(uint32 \<times> message) list \<Rightarrow> (uint32 \<times> message) list \<times> message list" where
  "after_wakeup cs =
     (case cs of [] \<Rightarrow> ([], []) | (d, m) # rest \<Rightarrow> if d = 1 then (rest, [m]) else ((d - 1, m) # rest, []))"

lemma less32: "unat (w :: uint32) < 4294967296"
  by (rule order.strict_trans2 [OF unsigned_less]) simp

lemma unat_less_one: "d \<noteq> 0 \<Longrightarrow> d \<noteq> 1 \<Longrightarrow> unat (d - 1 :: uint32) = unat d - 1 \<and> 2 \<le> unat d"
proof -
  assume d: "d \<noteq> 0" "d \<noteq> 1"
  then have "unat d \<noteq> 0" "unat d \<noteq> 1" unfolding word_unat_eq_iff by simp_all
  with d(1) show ?thesis by (simp add: unat_minus_one)
qed

lemma timetable_wakeup:
  "\<forall>c \<in> set cs. fst c \<noteq> 0 \<Longrightarrow> timetable cs (Suc n) = snd (after_wakeup cs) @ timetable (fst (after_wakeup cs)) n"
proof (cases cs)
  case (Cons c rest)
  obtain d m where c: "c = (d, m)" by fastforce
  assume "\<forall>c \<in> set cs. fst c \<noteq> 0"
  then have "d \<noteq> 0" by (simp add: Cons c)
  then show ?thesis
    using unat_less_one [of d] by (auto simp: Cons c after_wakeup_def)
qed (simp add: after_wakeup_def)

lemma next_word:
  assumes "unat (w :: uint32) + n < 2 ^ 32" "unat d \<le> n" "1 < unat d"
  shows "w + 1 < w + d"
  using assms by (simp add: word_less_nat_alt unat_word_ariths)

lemma wakeup_step:
  assumes on: "on_schedule s r cs" and ti: "timely s cs" and bus: "bus_accepts v"
  defines "t \<equiv> SC_WakeupCmd v s"
  shows "sc_sent t = sc_sent s @ snd (after_wakeup cs)" "on_schedule t r (fst (after_wakeup cs))"
    "timely t (fst (after_wakeup cs))"
proof -
  have q: "quiet_ats s" "NumCmdsWakeup s = 0" "\<forall>j. j \<noteq> r \<longrightarrow> \<not> executing s j" using on by (simp_all add: on_schedule_def)
  have "sc_sent t = sc_sent s @ snd (after_wakeup cs) \<and> on_schedule t r (fst (after_wakeup cs))
      \<and> timely t (fst (after_wakeup cs))"
  proof (cases cs)
    case Nil
    then have "\<not> executing s i" for i using on q(3) by (cases "i = r") (simp_all add: on_schedule_def)
    then show ?thesis
      using idle_wakeup [OF q(1,2), of v] q(3) Nil by (simp add: t_def on_schedule_def after_wakeup_def timely_def delays_def less32)
  next
    case (Cons c rest)
    obtain d m where c: "c = (d, m)" by fastforce
    define cur where "cur = CurrentWakeupCount s"
    have ready: "rts_ready s r" "tl (pending s r) = rest" "snd (hd (pending s r)) = m" "due_at s r = cur + d"
      using on by (simp_all add: on_schedule_def Cons c cur_def)
    then obtain d0 where pend: "pending s r = (d0, m) # rest"
      by (cases "pending s r") (auto simp: rts_ready_def)
    have d: "d \<noteq> 0" "checksum_valid m s" "unat cur + (unat d + delays rest) < 2 ^ 32"
      using ti by (simp_all add: timely_def Cons c delays_def cur_def)
    have chk: "EnableHeaderUpdate t = EnableHeaderUpdate s \<Longrightarrow> checksum_valid x t = checksum_valid x s" for x
      by (simp add: checksum_valid_def)
    have cur1: "unat (cur + 1) = unat cur + 1"
      using d(3) unat_gt_0 [of d] d(1) by (simp add: unat_word_ariths)
    show ?thesis
    proof (cases "d = 1")
      case True
      have later: "cur + 1 < cur + 1 + fst (hd rest)" if ne: "rest \<noteq> []"
      proof -
        obtain e m' rs where rest: "rest = (e, m') # rs" using ne by (metis list.exhaust surj_pair)
        have "unat e + unat (cur + 1) < 2 ^ 32" "e \<noteq> 0"
          using d(3) ti cur1 True by (simp_all add: rest delays_def timely_def Cons c)
        then show ?thesis by (simp add: rest word_less_nat_alt unat_word_ariths unat_gt_0 del: unat_add_lem)
      qed
      note w = due_wakeup [OF q(1,2) ready(1) q(3) _ pend d(2), of v, folded cur_def t_def]
      show ?thesis
        using w(2) w ready bus later d ti chk cur1
        by (simp add: True on_schedule_def goes_on_def Cons c after_wakeup_def bus_accepts_def timely_def delays_def)
    next
      case False
      note u = unat_less_one [OF d(1) False]
      have "cur + 1 < due_at s i" if "executing s i" for i
      proof -
        have "i = r" using that q(3) by blast
        then show ?thesis using next_word [of cur "unat d + delays rest" d] d u by (simp add: ready)
      qed
      note w = idle_wakeup [OF q(1,2) this [unfolded cur_def], of v, folded cur_def t_def]
      show ?thesis
        using w q(3) ready chk u d ti cur1 False
        by (simp add: on_schedule_def Cons c after_wakeup_def timely_def delays_def)
    qed
  qed
  then show "sc_sent t = sc_sent s @ snd (after_wakeup cs)" "on_schedule t r (fst (after_wakeup cs))"
    "timely t (fst (after_wakeup cs))" by simp_all
qed

end
