(* ===== verification/Sc_Start.thy ===== *)
theory Sc_Start
  imports Sc_Sequence Lc_Sample
begin

section \<open>Stored commands: starting a sequence\<close>

text \<open>
  The request of the limit checker is the same command that the ground sends, under a message ID of its own.
  What starts is the first entry of the table, and from there on the timetable of the sequence is fixed.
\<close>

subsection \<open>The request\<close>

lemma request_fields:
  "msg_id (rts_message r) = LC_RTS_REQUEST_MID" "msg_size (rts_message r) = 12"
  "msg_fcn_code (rts_message r) = SC_START_RTS_CC" "le16 (rts_message r) 8 = r"
proof -
  have "msg_id (rts_message r) = msg_id (rts_message 0)" "msg_size (rts_message r) = msg_size (rts_message 0)"
    "msg_fcn_code (rts_message r) = msg_fcn_code (rts_message 0)"
    by (simp_all add: msg_id_def CFE_MSG_GetMsgId_def rts_message_def msg_size_def CFE_MSG_GetSize_def msg_fcn_code_def
        CFE_MSG_GetFcnCode_def is_msg_def CFE_MSG_GetHasSecondaryHeader_def CFE_MSG_GetType_def)
  moreover have "msg_id (rts_message 0) = LC_RTS_REQUEST_MID" "msg_size (rts_message 0) = 12"
    "msg_fcn_code (rts_message 0) = SC_START_RTS_CC" by code_simp+
  ultimately show "msg_id (rts_message r) = LC_RTS_REQUEST_MID" "msg_size (rts_message r) = 12"
    "msg_fcn_code (rts_message r) = SC_START_RTS_CC" by simp_all
  show "le16 (rts_message r) 8 = r"
    by (rule bit_word_eqI) (auto simp: le16_def rts_message_def bit_simps)
qed

lemma request_start:
  "SC_ProcessRequest v (rts_message r) s =
     SC_StartRtsCmd r (CFE_EVS_SendEvent_SC SC_START_RTS_BY_LC_REQUEST_INF_EID (SC_GetCurrentTime v s))"
  by (simp add: SC_ProcessRequest_def request_fields sc_verified_def SC_VerifyCmdLength_def Let_def)
    (simp add: sc_const)

subsection \<open>The start\<close>

definition startable :: "uint16 \<Rightarrow> sc \<Rightarrow> bool" where
  "startable n s \<longleftrightarrow>
     (let i = SC_RtsNumToIndex n; len = msg_size (rts_msg (table_entry (RtsTbl s ! unat i) 0))
      in SC_RtsNumIsValid n \<and> \<not> DisabledFlag (RtsInfo s ! unat i) \<and> RtsStatus (RtsInfo s ! unat i) = SC_Status_LOADED
         \<and> SC_PACKET_MIN_SIZE \<le> len \<and> len \<le> SC_PACKET_MAX_SIZE)"

text \<open>The table entry of a sequence that starts: its list of commands from the beginning.\<close>

definition started :: "uint16 \<Rightarrow> sc \<Rightarrow> SC_RtsInfoEntry list" where
  "started n s =
     (let i = unat (SC_RtsNumToIndex n); e = RtsInfo s ! i
      in (RtsInfo s)[i := e\<lparr>RtsStatus := SC_Status_EXECUTING, Rts_CmdCtr := 0, Rts_CmdErrCtr := 0, NextCommandPtr := 0,
           UseCtr := UseCtr e + 1,
           NextCommandTgtWakeup := CurrentWakeupCount s + rts_wakeup (table_entry (RtsTbl s ! i) 0)\<rparr>])"

definition start_event :: "uint16 \<Rightarrow> uint16" where
  "start_event n = (if unat n \<le> SC_LAST_RTS_WITH_EVENTS then SC_RTS_START_INF_EID else SC_STARTRTS_CMD_DBG_EID)"

definition start_error :: "uint16 \<Rightarrow> sc \<Rightarrow> uint16" where
  "start_error n s =
     (let i = unat (SC_RtsNumToIndex n)
      in if \<not> SC_RtsNumIsValid n then SC_STARTRTS_CMD_INVALID_ERR_EID
         else if DisabledFlag (RtsInfo s ! i) then SC_STARTRTS_CMD_DISABLED_ERR_EID
         else if RtsStatus (RtsInfo s ! i) \<noteq> SC_Status_LOADED then SC_STARTRTS_CMD_NOT_LDED_ERR_EID
         else SC_STARTRTS_CMD_INVLD_LEN_ERR_EID)"

lemma start_good:
  assumes "startable n s"
  defines "t \<equiv> SC_StartRtsCmd n s"
  shows "RtsInfo t = started n s" "RtsCtrlBlck t = (RtsCtrlBlck s)\<lparr>NumRtsActive := NumRtsActive (RtsCtrlBlck s) + 1\<rparr>"
    "SC_Out t = SC_Out s @ [SC_Event (start_event n)]"
    "HkPacket t = (HkPacket s)\<lparr>RtsActiveCtr := RtsActiveCtr (HkPacket s) + 1, HK_CmdCtr := HK_CmdCtr (HkPacket s) + 1\<rparr>"
  using assms(1)
  by (simp_all add: t_def SC_StartRtsCmd_def startable_def Let_def sc_accepted_def begin_rts_def started_def start_event_def
      SC_GetRtsEntryAtOffset_def SC_ComputeAbsWakeup_def SC_ENTRY_OFFSET_FIRST_def)

lemma start_bad:
  assumes "\<not> startable n s"
  shows "SC_StartRtsCmd n s = start_failed (start_error n s) s"
  using assms
  by (auto simp: SC_StartRtsCmd_def startable_def Let_def start_error_def SC_GetRtsEntryAtOffset_def SC_ENTRY_OFFSET_FIRST_def)

lemma start_fits:
  assumes "startable n s"
  shows "entry_fits (RtsTbl s ! unat (SC_RtsNumToIndex n)) 0"
proof -
  define k where "k = msg_size (rts_msg (table_entry (RtsTbl s ! unat (SC_RtsNumToIndex n)) 0))"
  have "SC_PACKET_MIN_SIZE \<le> k" and le: "k \<le> SC_PACKET_MAX_SIZE"
    using assms by (simp_all add: startable_def Let_def k_def)
  moreover have "(unat k + 7) div 4 \<le> SC_RTS_BUFF_SIZE32"
    using le by (simp add: word_le_nat_alt sc_const)
  ultimately show ?thesis by (simp add: entry_fits_def Let_def k_def [symmetric]) (simp add: sc_const)
qed

lemma start_schedule:
  assumes start: "startable n s" and q: "quiet_ats s" "NumCmdsWakeup s = 0" and none: "\<forall>j. \<not> executing s j"
    and len: "length (RtsInfo s) = SC_NUMBER_OF_RTS" "length (RtsTbl s ! unat (SC_RtsNumToIndex n)) = 4 * SC_RTS_BUFF_SIZE32"
  defines "i \<equiv> unat (SC_RtsNumToIndex n)" and "t \<equiv> SC_StartRtsCmd n s"
  shows "on_schedule t i (rts_commands (RtsTbl s ! i) 0)"
proof -
  note info = start_good(1) [OF start, folded t_def]
  have frame: "RtsTbl t = RtsTbl s" "CurrentWakeupCount t = CurrentWakeupCount s" "AtsCtrlBlck t = AtsCtrlBlck s"
    using tables_rts.start_rts [of n s] by (simp_all only: prod.inject t_def)
  have num: "NumCmdsWakeup t = NumCmdsWakeup s" by (simp add: t_def count_rts.start_rts)
  have i: "i < SC_NUMBER_OF_RTS"
    using start by (simp add: startable_def Let_def SC_RtsNumIsValid_def SC_RtsIndexIsValid_def SC_IDX_WITHIN_LIMIT_def i_def)
  have fits: "entry_fits (RtsTbl s ! i) 0" using start_fits [OF start] by (simp add: i_def)
  have e: "RtsStatus (RtsInfo t ! i) = SC_Status_EXECUTING" "NextCommandPtr (RtsInfo t ! i) = 0"
    "due_at t i = CurrentWakeupCount s + rts_wakeup (table_entry (RtsTbl s ! i) 0)" "length (RtsInfo t) = SC_NUMBER_OF_RTS"
    "j \<noteq> i \<Longrightarrow> RtsInfo t ! j = RtsInfo s ! j" for j
    using i len(1) by (simp_all add: info started_def Let_def i_def [symmetric])
  have pend: "pending t i = rts_commands (RtsTbl s ! i) 0" by (simp add: pending_def e frame)
  have hd: "fst (hd (rts_commands (RtsTbl s ! i) 0)) = rts_wakeup (table_entry (RtsTbl s ! i) 0)"
    "rts_commands (RtsTbl s ! i) 0 \<noteq> []"
    using fits by (simp_all add: rts_commands.simps [of "RtsTbl s ! i" 0])
  have "rts_ready t i" using e(1,4) i len(2) hd(2) unfolding rts_ready_def executing_def pend frame by (simp add: i_def)
  moreover have "\<forall>j. j \<noteq> i \<longrightarrow> \<not> executing t j" using none e(5) by (simp add: executing_def)
  ultimately show ?thesis
    using q num e(3) hd by (simp add: on_schedule_def pend quiet_ats_def frame)
qed

subsection \<open>Wakeups from the bus\<close>

definition is_wakeup :: "message \<Rightarrow> bool" where
  "is_wakeup m \<longleftrightarrow> msg_id m = SC_WAKEUP_MID \<and> msg_size m = 8"

lemma request_wakeup: "is_wakeup m \<Longrightarrow> SC_ProcessRequest v m s = SC_WakeupCmd v (SC_GetCurrentTime v s)"
  by (simp add: SC_ProcessRequest_def is_wakeup_def sc_verified_def SC_VerifyCmdLength_def Let_def) (simp add: sc_const)

lemma time_frame [simp]:
  "on_schedule (SC_GetCurrentTime v s) = on_schedule s" "timely (SC_GetCurrentTime v s) = timely s"
  "sc_sent (SC_GetCurrentTime v s) = sc_sent s" "startable n (SC_GetCurrentTime v s) = startable n s"
  "startable n (sc_send x s) = startable n s"
  by (simp_all add: SC_GetCurrentTime_def on_schedule_def timely_def sc_sent_def startable_def fun_eq_iff quiet_ats_def
      executing_def rts_ready_def pending_def checksum_valid_def)

lemma timetable_requests:
  assumes "on_schedule s r cs" "timely s cs" "\<forall>(v, m) \<in> set xs. bus_accepts v \<and> is_wakeup m"
  shows "sc_sent (fold (\<lambda>(v, m). SC_ProcessRequest v m) xs s) = sc_sent s @ timetable cs (length xs)"
  using assms
proof (induction xs arbitrary: s cs)
  case Nil
  then show ?case by (cases cs) (auto simp: timely_def unat_gt_0)
next
  case (Cons x xs)
  obtain v m where x: "x = (v, m)" by fastforce
  then have v: "bus_accepts v" "is_wakeup m" using Cons.prems(3) by simp_all
  have on: "on_schedule (SC_GetCurrentTime v s) r cs" "timely (SC_GetCurrentTime v s) cs" using Cons.prems by simp_all
  note w = wakeup_step [OF on v(1)]
  have "timetable cs (Suc (length xs)) = snd (after_wakeup cs) @ timetable (fst (after_wakeup cs)) (length xs)"
    using Cons.prems(2) by (intro timetable_wakeup) (simp add: timely_def)
  then show ?case using Cons.IH [OF w(2,3)] Cons.prems(3) w(1) by (simp add: x request_wakeup [OF v(2)])
qed

end
