(* ===== verification/Sc_App.thy ===== *)
theory Sc_App
  imports Sc_Cmds
begin

section \<open>Stored commands: start-up and main loop\<close>

text \<open>
  The initialisation and the main loop (\<open>sc_app.c\<close>). What the services answer at start-up is the record
  \<open>sc_boot\<close>; the tables that the application fills itself are cleared by the table service when it allocates
  them. The steps of the initialisation stop at the first status that is not good.
\<close>

record sc_boot =
  SC_PowerOn :: bool
  SC_EvsRegister :: CFE_Status
  SC_CreatePipe :: CFE_Status
  SC_BootSubscribe :: "CFE_SB_MsgId \<Rightarrow> CFE_Status"
  SC_Register :: "sc_table \<Rightarrow> CFE_Status"
  SC_GetAddress :: "sc_table \<Rightarrow> CFE_Status"
  SC_Load :: "nat \<Rightarrow> CFE_Status"
  SC_Contents :: "sc_table \<Rightarrow> uint8 list"

definition hk_zero :: SC_HkTlm_Payload where
  "hk_zero = \<lparr>
     ContinueAtsOnFailureFlag = 0, HK_CmdErrCtr = 0, HK_CmdCtr = 0, RtsActiveCtr = 0, RtsActiveErrCtr = 0,
     AtsCmdCtr = 0, AtsCmdErrCtr = 0, RtsCmdCtr = 0, RtsCmdErrCtr = 0, LastAtsErrSeq = 0, LastAtsErrCmd = 0,
     LastRtsErrSeq = 0, LastRtsErrCmd = 0, AppendCmdArg = 0, AppendEntryCount = 0, AppendByteCount = 0,
     AppendLoadCount = 0, HK_CurrAtsId = 0, HK_AtpState = SC_Status_EMPTY, HK_SwitchPendFlag = False,
     HK_NumRtsActive = 0, HK_RtsNum = 0, AtpCmdNumber = 0, AtpFreeBytes = replicate SC_NUMBER_OF_ATS 0,
     NextRtsWakeupCnt = 0, NextAtsTime = 0, RtsExecutingStatus = replicate 4 0, RtsDisabledStatus = replicate 4 0\<rparr>"

definition sc_zero :: sc where
  "sc_zero = \<lparr>
     AtsTbl = replicate SC_NUMBER_OF_ATS [], AppendTbl = [], RtsTbl = replicate SC_NUMBER_OF_RTS [],
     AtsInfo = replicate SC_NUMBER_OF_ATS \<lparr>AtsUseCtr = 0, NumberOfCommands = 0, AtsSize = 0\<rparr>,
     RtsInfo = replicate SC_NUMBER_OF_RTS
       \<lparr>RtsStatus = SC_Status_EMPTY, DisabledFlag = False, Rts_CmdCtr = 0, Rts_CmdErrCtr = 0,
        NextCommandTgtWakeup = 0, NextCommandPtr = 0, UseCtr = 0\<rparr>,
     RtsCtrlBlck = \<lparr>NumRtsActive = 0, CurrRtsNum = 0\<rparr>,
     AtsCtrlBlck = \<lparr>AtpState = SC_Status_EMPTY, CurrAtsNum = 0, CmdNumber = 0, TimeIndexPtr = 0, SwitchPendFlag = False\<rparr>,
     AtsCmdStatus = replicate SC_NUMBER_OF_ATS (replicate SC_MAX_ATS_CMDS SC_Status_EMPTY),
     AtsDupTestArray = replicate SC_MAX_ATS_CMDS 0, NumCmdsWakeup = 0, HkPacket = hk_zero,
     AtsTimeIndexBuffer = replicate SC_NUMBER_OF_ATS (replicate SC_MAX_ATS_CMDS 0),
     AtsCmdIndexBuffer = replicate SC_NUMBER_OF_ATS (replicate SC_MAX_ATS_CMDS 0),
     TimeRef = Access_GetTime, EnableHeaderUpdate = False, NextCmdTime_ATP = 0, NextCmdTime_RTP = 0,
     CurrentTime = 0, CurrentWakeupCount = 0, AutoStartRTS = 0, AppendWordCount = 0, SC_Out = []\<rparr>"

subsection \<open>Steps\<close>

definition sc_step :: "(sc \<Rightarrow> CFE_Status \<times> sc) \<Rightarrow> CFE_Status \<times> sc \<Rightarrow> CFE_Status \<times> sc" where
  "sc_step f r = (if fst r = CFE_SUCCESS then f (snd r) else r)"

text \<open>A call whose status is reported by an event when it is not good.\<close>

definition sc_call :: "uint16 \<Rightarrow> CFE_Status \<Rightarrow> sc \<Rightarrow> CFE_Status \<times> sc" where
  "sc_call e Result s = (Result, if Result = CFE_SUCCESS then s else CFE_EVS_SendEvent_SC e s)"

definition sc_calls :: "(CFE_Status \<times> sc \<Rightarrow> CFE_Status \<times> sc) list \<Rightarrow> CFE_Status \<times> sc \<Rightarrow> CFE_Status \<times> sc" where
  "sc_calls = fold (\<lambda>f r. f r)"

subsection \<open>Tables\<close>

definition SC_RegisterDumpOnlyTables :: "sc_boot \<Rightarrow> sc \<Rightarrow> CFE_Status \<times> sc" where
  "SC_RegisterDumpOnlyTables b s =
     sc_calls
       (map (\<lambda>(t, e). sc_step (sc_call e (SC_Register b t)))
         ([(RTS_Info, SC_REGISTER_RTS_INFO_TABLE_ERR_EID), (RTP_Ctrl, SC_REGISTER_RTS_CTRL_BLK_TABLE_ERR_EID),
           (ATS_Info, SC_REGISTER_ATS_INFO_TABLE_ERR_EID), (ATP_Ctrl, SC_REGISTER_ATS_CTRL_BLK_TABLE_ERR_EID)]
          @ map (\<lambda>i. (ATS_Cmd_Status i, SC_REGISTER_ATS_CMD_STATUS_TABLE_ERR_EID)) [0..<SC_NUMBER_OF_ATS]))
       (CFE_SUCCESS, s)"

definition SC_RegisterLoadableTables :: "sc_boot \<Rightarrow> sc \<Rightarrow> CFE_Status \<times> sc" where
  "SC_RegisterLoadableTables b s =
     sc_calls
       (map (\<lambda>(t, e). sc_step (sc_call e (SC_Register b t)))
         (map (\<lambda>j. (RTS_Table j, SC_REGISTER_RTS_TBL_ERR_EID)) [0..<SC_NUMBER_OF_RTS]
          @ map (\<lambda>j. (ATS_Table j, SC_REGISTER_ATS_TBL_ERR_EID)) [0..<SC_NUMBER_OF_ATS]
          @ [(Append_Table, SC_REGISTER_APPEND_TBL_ERR_EID)]))
       (CFE_SUCCESS, s)"

definition SC_RegisterAllTables :: "sc_boot \<Rightarrow> sc \<Rightarrow> CFE_Status \<times> sc" where
  "SC_RegisterAllTables b s = sc_step (SC_RegisterLoadableTables b) (SC_RegisterDumpOnlyTables b s)"

definition SC_GetDumpTablePointers :: "sc_boot \<Rightarrow> sc \<Rightarrow> CFE_Status \<times> sc" where
  "SC_GetDumpTablePointers b s =
     sc_calls
       (map (\<lambda>(t, e). sc_step (sc_call e (SC_GetAddress b t)))
         ([(RTS_Info, SC_GET_ADDRESS_RTS_INFO_ERR_EID), (RTP_Ctrl, SC_GET_ADDRESS_RTS_CTRL_BLCK_ERR_EID),
           (ATS_Info, SC_GET_ADDRESS_ATS_INFO_ERR_EID), (ATP_Ctrl, SC_GET_ADDRESS_ATS_CTRL_BLCK_ERR_EID)]
          @ map (\<lambda>i. (ATS_Cmd_Status i, SC_GET_ADDRESS_ATS_CMD_STAT_ERR_EID)) [0..<SC_NUMBER_OF_ATS]))
       (CFE_SUCCESS, s)"

text \<open>
  The addresses of the loadable tables. Only the two statuses of a table that has just been loaded or was never
  loaded are good; any other, even \<open>CFE_SUCCESS\<close>, is reported and returned at once.
\<close>

fun get_load_pointers :: "sc_boot \<Rightarrow> (sc_table \<times> uint16) list \<Rightarrow> sc \<Rightarrow> CFE_Status \<times> sc" where
  "get_load_pointers b [] s = (CFE_SUCCESS, s)"
| "get_load_pointers b ((t, e) # rest) s =
     (let Result = SC_GetAddress b t; data = SC_Contents b t;
          s1 = (case t of ATS_Table i \<Rightarrow> s\<lparr>AtsTbl := (AtsTbl s)[i := data]\<rparr>
                | RTS_Table i \<Rightarrow> s\<lparr>RtsTbl := (RtsTbl s)[i := data]\<rparr> | _ \<Rightarrow> s\<lparr>AppendTbl := data\<rparr>)
      in if Result \<noteq> CFE_TBL_ERR_NEVER_LOADED \<and> Result \<noteq> CFE_TBL_INFO_UPDATED
         then (Result, CFE_EVS_SendEvent_SC e s1)
         else get_load_pointers b rest
           (case t of RTS_Table i \<Rightarrow> if Result = CFE_TBL_INFO_UPDATED then SC_LoadRts (of_nat i) s1 else s1 | _ \<Rightarrow> s1))"

definition SC_GetLoadTablePointers :: "sc_boot \<Rightarrow> sc \<Rightarrow> CFE_Status \<times> sc" where
  "SC_GetLoadTablePointers b =
     get_load_pointers b
       (map (\<lambda>i. (ATS_Table i, SC_GET_ADDRESS_ATS_ERR_EID)) [0..<SC_NUMBER_OF_ATS]
        @ [(Append_Table, SC_GET_ADDRESS_APPEND_ERR_EID)]
        @ map (\<lambda>i. (RTS_Table i, SC_GET_ADDRESS_RTS_ERR_EID)) [0..<SC_NUMBER_OF_RTS])"

definition SC_LoadDefaultTables :: "sc_boot \<Rightarrow> sc \<Rightarrow> sc" where
  "SC_LoadDefaultTables b s =
     CFE_EVS_SendEvent_SC SC_RTS_LOAD_FAIL_COUNT_INFO_EID
       (fold (\<lambda>i t. if SC_Load b i \<noteq> CFE_SUCCESS then CFE_EVS_SendEvent_SC SC_RTS_LOAD_FAIL_DBG_EID t else t)
         [0..<SC_NUMBER_OF_RTS] s)"

definition SC_RegisterManageCmds :: "sc \<Rightarrow> sc" where
  "SC_RegisterManageCmds s =
     fold (\<lambda>(t, p). sc_send (SC_NotifyByMessage t (of_nat p)))
       ([(RTS_Info, SC_TBL_ID_RTS_INFO), (RTP_Ctrl, SC_TBL_ID_RTP_CTRL), (ATS_Info, SC_TBL_ID_ATS_INFO),
         (ATP_Ctrl, SC_TBL_ID_ATP_CTRL), (Append_Table, SC_TBL_ID_APPEND)]
        @ concat (map (\<lambda>i. [(ATS_Cmd_Status i, SC_TBL_ID_ATS_CMD_0 + i), (ATS_Table i, SC_TBL_ID_ATS_0 + i)])
                   [0..<SC_NUMBER_OF_ATS])
        @ map (\<lambda>i. (RTS_Table i, SC_TBL_ID_RTS_0 + i)) [0..<SC_NUMBER_OF_RTS]) s"

definition init_control_blocks :: "sc \<Rightarrow> sc" where
  "init_control_blocks s =
     (let s1 = upd_atp (\<lambda>b. b\<lparr>AtpState := SC_Status_IDLE, CurrAtsNum := SC_ATS_NUM_NULL, CmdNumber := SC_INVALID_CMD_NUMBER\<rparr>) s;
          s2 = upd_rtp (\<lambda>b. b\<lparr>NumRtsActive := 0, CurrRtsNum := SC_RTS_NUM_NULL\<rparr>) s1;
          s3 = fold (\<lambda>i. fold (\<lambda>j. set_cmd_status (of_nat i) (of_nat j) SC_Status_EMPTY) [0..<SC_MAX_ATS_CMDS])
                 [0..<SC_NUMBER_OF_ATS] s2
      in fold (\<lambda>i. upd_rts (of_nat i) (\<lambda>r. r\<lparr>NextCommandTgtWakeup := SC_MAX_WAKEUP_CNT,
               NextCommandPtr := SC_ENTRY_OFFSET_FIRST, RtsStatus := SC_Status_EMPTY, DisabledFlag := True\<rparr>))
           [0..<SC_NUMBER_OF_RTS] s3)"

definition SC_InitTables :: "sc_boot \<Rightarrow> sc \<Rightarrow> CFE_Status \<times> sc" where
  "SC_InitTables b s =
     sc_step (\<lambda>t. (CFE_SUCCESS, SC_RegisterManageCmds t))
       (sc_step (\<lambda>t. SC_GetLoadTablePointers b (SC_LoadDefaultTables b (init_control_blocks t)))
         (sc_step (SC_GetDumpTablePointers b) (SC_RegisterAllTables b s)))"

subsection \<open>Initialisation\<close>

definition boot_state :: "sc_boot \<Rightarrow> sc" where
  "boot_state b =
     (upd_hk (\<lambda>h. h\<lparr>ContinueAtsOnFailureFlag := SC_CONT_ON_FAILURE_START\<rparr>) sc_zero)
       \<lparr>EnableHeaderUpdate := SC_PLATFORM_ENABLE_HEADER_UPDATE,
        TimeRef := SC_LookupTimeAccessor SC_TimeRef_USE_CFE_TIME,
        NextCmdTime_ATP := SC_MAX_TIME, NextCmdTime_RTP := SC_MAX_WAKEUP_CNT,
        AutoStartRTS := if SC_PowerOn b then RTS_ID_AUTO_POWER_ON else RTS_ID_AUTO_PROCESSOR\<rparr>"

definition sc_subscribe :: "sc_boot \<Rightarrow> CFE_SB_MsgId \<Rightarrow> uint16 \<Rightarrow> sc \<Rightarrow> CFE_Status \<times> sc" where
  "sc_subscribe b MessageID e s = sc_call e (SC_BootSubscribe b MessageID) (sc_send (SC_Subscribe MessageID) s)"

definition SC_AppInit :: "sc_boot \<Rightarrow> CFE_Status \<times> sc" where
  "SC_AppInit b =
     sc_calls
       [sc_step (sc_call SC_CR_PIPE_ERR_EID (SC_CreatePipe b)),
        sc_step (sc_subscribe b SC_SEND_HK_MID SC_INIT_SB_SUBSCRIBE_HK_ERR_EID),
        sc_step (sc_subscribe b SC_WAKEUP_MID SC_INIT_SB_SUBSCRIBE_ERR_EID),
        sc_step (sc_subscribe b SC_CMD_MID SC_INIT_SB_SUBSCRIBE_CMD_ERR_EID),
        sc_step (sc_subscribe b LC_RTS_REQUEST_MID SC_INIT_SB_SUBSCRIBE_CMD_ERR_EID),
        sc_step (SC_InitTables b),
        sc_step (\<lambda>s. (CFE_SUCCESS, CFE_EVS_SendEvent_SC SC_INIT_INF_EID s))]
       (SC_EvsRegister b, boot_state b)"

subsection \<open>Main loop\<close>

text \<open>
  What \<open>CFE_SB_ReceiveBuffer\<close> gives to one round of the loop. A time-out is no error; any other bad status ends
  the loop. The loop is given the inputs up to the round before \<open>CFE_ES_RunLoop\<close> returns false for a reason of
  its own.
\<close>

record sc_input =
  SC_InStatus :: CFE_Status
  SC_InBuffer :: message
  SC_InServices :: sc_services

fun sc_loop :: "sc_input list \<Rightarrow> CFE_Status \<times> sc \<Rightarrow> CFE_Status \<times> sc" where
  "sc_loop [] r = r"
| "sc_loop (x # rest) r =
     (if SC_InStatus x = CFE_SUCCESS
      then sc_loop rest (CFE_SUCCESS, SC_ProcessRequest (SC_InServices x) (SC_InBuffer x) (snd r))
      else if SC_InStatus x = CFE_SB_TIME_OUT then sc_loop rest (SC_InStatus x, snd r)
      else (SC_InStatus x, snd r))"

definition SC_AppMain :: "sc_boot \<Rightarrow> sc_input list \<Rightarrow> CFE_Status \<times> sc" where
  "SC_AppMain b inputs =
     (let r = SC_AppInit b;
          (Result, s) = (if fst r = CFE_SUCCESS then sc_loop inputs r else r)
      in (Result, if Result \<noteq> CFE_SUCCESS then CFE_EVS_SendEvent_SC SC_APP_EXIT_ERR_EID s else s))"

end
