(* ===== verification/Sc_Active.thy ===== *)
theory Sc_Active
  imports Sc_Sched Sc_App
begin

section \<open>Stored commands: counting the running sequences\<close>

text \<open>
  \<open>NumRtsActive\<close> is meant to be the number of sequences that run. It is, except that loading a new table into a
  sequence that runs stops it without counting it out. The invariant allows for the number of such loads.
\<close>

definition rts_surplus :: "nat \<Rightarrow> sc \<Rightarrow> bool" where
  "rts_surplus k s \<longleftrightarrow> length (RtsInfo s) = SC_NUMBER_OF_RTS
     \<and> unat (NumRtsActive (RtsCtrlBlck s)) = card {i. executing s i} + k \<and> k + SC_NUMBER_OF_RTS < 65536"

definition rts_side :: "sc \<Rightarrow> SC_RtsInfoEntry list \<times> uint16" where
  "rts_side s = (RtsInfo s, NumRtsActive (RtsCtrlBlck s))"

lemma surplus_cong: "rts_side t = rts_side s \<Longrightarrow> rts_surplus k t = rts_surplus k s"
  by (simp add: rts_side_def rts_surplus_def executing_def)

interpretation side: load_frame rts_side
  by unfold_locales (simp_all add: rts_side_def)

lemma side_send [simp]: "rts_side (sc_send x s) = rts_side s"
  by (simp add: rts_side_def)

lemma surplus_frame [simp]:
  "rts_surplus k (sc_send x s) = rts_surplus k s" "rts_surplus k (upd_hk h s) = rts_surplus k s"
  "rts_surplus k (s\<lparr>NumCmdsWakeup := n\<rparr>) = rts_surplus k s" "rts_surplus k (s\<lparr>NextCmdTime_RTP := t\<rparr>) = rts_surplus k s"
  "rts_surplus k (s\<lparr>CurrentWakeupCount := t\<rparr>) = rts_surplus k s" "rts_surplus k (s\<lparr>CurrentTime := t\<rparr>) = rts_surplus k s"
  "rts_surplus k (s\<lparr>RtsTbl := tbl\<rparr>) = rts_surplus k s" "rts_surplus k (s\<lparr>AtsTbl := tbl\<rparr>) = rts_surplus k s"
  "rts_surplus k (s\<lparr>AppendTbl := tb\<rparr>) = rts_surplus k s" "rts_surplus k (s\<lparr>AutoStartRTS := n\<rparr>) = rts_surplus k s"
  "rts_surplus k (s\<lparr>HkPacket := h'\<rparr>) = rts_surplus k s"
  by (rule surplus_cong, simp add: rts_side_def)+

lemma finite_executing [simp]: "finite {i. executing s i}"
  by (rule finite_subset [of _ "{..<SC_NUMBER_OF_RTS}"]) (auto simp: executing_def)

lemma card_executing: "card {i. executing s i} \<le> SC_NUMBER_OF_RTS"
  using card_mono [of "{..<SC_NUMBER_OF_RTS}" "{i. executing s i}"] by (auto simp: executing_def)

lemma executing_upd:
  "length (RtsInfo s) = SC_NUMBER_OF_RTS \<Longrightarrow> SC_RtsIndexIsValid r \<Longrightarrow>
     executing (upd_rts r f s) j \<longleftrightarrow>
       (if j = unat r then RtsStatus (f (RtsInfo s ! j)) = SC_Status_EXECUTING else executing s j)"
  by (auto simp: executing_def SC_RtsIndexIsValid_def SC_IDX_WITHIN_LIMIT_def nth_list_update)

lemma surplus_keep_status:
  assumes "\<And>x. RtsStatus (f x) = RtsStatus x"
  shows "rts_surplus k (upd_rts r f s) = rts_surplus k s"
proof -
  have "executing (upd_rts r f s) i = executing s i" for i
    by (cases "unat r < length (RtsInfo s)") (auto simp: executing_def nth_list_update assms not_less list_update_beyond)
  then show ?thesis by (simp add: rts_surplus_def)
qed

lemma surplus_keep_count:
  "(\<And>b. NumRtsActive (f b) = NumRtsActive b) \<Longrightarrow> rts_surplus k (upd_rtp f s) = rts_surplus k s"
  by (rule surplus_cong) (simp add: rts_side_def)

lemma surplus_begin:
  assumes "rts_surplus k s" "SC_RtsIndexIsValid r" "RtsStatus (RtsInfo s ! unat r) \<noteq> SC_Status_EXECUTING"
  shows "rts_surplus k (begin_rts r s)"
proof -
  define t where "t = begin_rts r s"
  have len: "length (RtsInfo s) = SC_NUMBER_OF_RTS" using assms(1) by (simp add: rts_surplus_def)
  have "executing t i \<longleftrightarrow> i = unat r \<or> executing s i" for i
    by (auto simp: t_def begin_rts_def Let_def executing_upd [OF len assms(2)])
  then have "{i. executing t i} = insert (unat r) {i. executing s i}" by auto
  then have "card {i. executing t i} = Suc (card {i. executing s i})" using assms(3) by (simp add: executing_def)
  moreover have "unat (NumRtsActive (RtsCtrlBlck t)) = unat (NumRtsActive (RtsCtrlBlck s)) + 1"
  proof -
    have "unat (NumRtsActive (RtsCtrlBlck s)) + 1 < 65536"
      using assms(1) card_executing [of t] calculation by (simp add: rts_surplus_def)
    then show ?thesis
      using unat_Suc_small [of "NumRtsActive (RtsCtrlBlck s)"] by (simp add: t_def begin_rts_def Let_def)
  qed
  ultimately show ?thesis
    using assms(1) len by (simp add: rts_surplus_def t_def [symmetric]) (simp add: t_def begin_rts_def Let_def)
qed

lemma surplus_kill [simp]:
  assumes "rts_surplus k s"
  shows "rts_surplus k (SC_KillRts r s)"
proof (cases "SC_RtsIndexIsValid r \<and> RtsStatus (RtsInfo s ! unat r) = SC_Status_EXECUTING")
  case True
  define t where "t = SC_KillRts r s"
  have len: "length (RtsInfo s) = SC_NUMBER_OF_RTS" using assms by (simp add: rts_surplus_def)
  have r: "unat r \<in> {i. executing s i}"
    using True by (simp add: executing_def SC_RtsIndexIsValid_def SC_IDX_WITHIN_LIMIT_def)
  then have pos: "0 < card {i. executing s i}" using card_gt_0_iff by fastforce
  have "executing t i \<longleftrightarrow> i \<noteq> unat r \<and> executing s i" for i
    using True by (simp add: t_def SC_KillRts_def executing_upd [OF len conjunct1 [OF True]])
  then have "{i. executing t i} = {i. executing s i} - {unat r}" by auto
  then have "card {i. executing t i} = card {i. executing s i} - 1" using r by simp
  moreover have "unat (NumRtsActive (RtsCtrlBlck t)) = unat (NumRtsActive (RtsCtrlBlck s)) - 1"
    using assms pos True by (auto simp: t_def SC_KillRts_def rts_surplus_def unat_minus_one word_gt_0)
  ultimately show ?thesis
    using assms pos len by (simp add: rts_surplus_def t_def [symmetric]) (simp add: t_def SC_KillRts_def)
next
  case False
  then show ?thesis using assms by (auto simp: SC_KillRts_def)
qed

subsection \<open>Commands\<close>

lemma surplus_events [simp]:
  "rts_surplus k (sc_accepted s) = rts_surplus k s" "rts_surplus k (sc_rejected e s) = rts_surplus k s"
  "rts_surplus k (sc_failed s) = rts_surplus k s" "rts_surplus k (start_failed e s) = rts_surplus k s"
  "rts_surplus k (group_failed e s) = rts_surplus k s" "rts_surplus k (set_disabled b r s) = rts_surplus k s"
  "rts_surplus k (rts_cmd_error r c s) = rts_surplus k s"
  by (simp_all add: sc_accepted_def sc_rejected_def sc_failed_def start_failed_def group_failed_def set_disabled_def
      rts_cmd_error_def surplus_keep_status)

lemma surplus_start: "rts_surplus k s \<Longrightarrow> rts_surplus k (SC_StartRtsCmd n s)"
  by (simp add: SC_StartRtsCmd_def Let_def surplus_begin SC_RtsNumIsValid_def)

lemma surplus_group:
  assumes "rts_surplus k s" "\<And>i t. rts_surplus k t \<Longrightarrow> SC_RtsIndexIsValid i \<Longrightarrow> rts_surplus k (f i t)"
  shows "rts_surplus k (rts_group f info err m n s)"
proof -
  have "rts_surplus k (fold f is t)" if "rts_surplus k t" "\<forall>i \<in> set is. SC_RtsIndexIsValid i" for "is" t
    using that by (induction "is" arbitrary: t) (simp_all add: assms(2))
  moreover have "\<forall>i \<in> set (rts_range m n). SC_RtsIndexIsValid i" if "SC_RtsNumValidateRange m n"
    using that by (auto simp: rts_range_def SC_RtsNumValidateRange_def SC_RtsNumIsValid_def SC_RtsIndexIsValid_def
        SC_IDX_WITHIN_LIMIT_def sc_const unat_of_nat_small)
  ultimately show ?thesis using assms(1) by (simp add: rts_group_def)
qed

lemma surplus_groups:
  assumes "rts_surplus k s"
  shows "rts_surplus k (SC_StartRtsGrpCmd m n s)" "rts_surplus k (SC_StopRtsGrpCmd m n s)"
    "rts_surplus k (SC_DisableRtsGrpCmd m n s)" "rts_surplus k (SC_EnableRtsGrpCmd m n s)"
  unfolding SC_StartRtsGrpCmd_def SC_StopRtsGrpCmd_def SC_DisableRtsGrpCmd_def SC_EnableRtsGrpCmd_def
  by (rule surplus_group [OF assms]; simp add: start_in_group_def stop_in_group_def disable_in_group_def
        enable_in_group_def Let_def surplus_begin)+

subsection \<open>Wakeup\<close>

lemma surplus_next: "rts_surplus k s \<Longrightarrow> rts_surplus k (SC_GetNextRtsCommand s)"
  by (simp add: SC_GetNextRtsCommand_def rts_command_at_def rts_complete_def Let_def surplus_keep_status)

lemma surplus_rtp: "rts_surplus k s \<Longrightarrow> rts_surplus k (SC_ProcessRtpCommand v s)"
  by (simp add: SC_ProcessRtpCommand_def Let_def sc_transmit_def rts_stopped_def surplus_keep_status surplus_next)

lemma surplus_select: "rts_surplus k (SC_GetNextRtsTime s) = rts_surplus k s"
  using next_rts_state [of s] by (auto simp: surplus_keep_count)

lemma side_inline: "SC_InlineSwitch s = (b, t) \<Longrightarrow> rts_side t = rts_side s"
  by (rule side.inline_switch)

lemma side_send_ats: "rts_side (snd (send_ats_command v a c m s)) = rts_side s"
proof -
  have n: "rts_side (s\<lparr>NumCmdsWakeup := x\<rparr>) = rts_side s" for x by (simp add: rts_side_def)
  show ?thesis
    by (auto simp: send_ats_command_def Let_def sc_transmit_def n dest!: side_inline split: prod.splits bool.splits)
qed

lemma side_atp: "rts_side (SC_ProcessAtpCmd v s) = rts_side s"
proof -
  have "rts_side (snd (try_ats_command v a c s)) = rts_side s" for a c
    by (simp add: try_ats_command_def Let_def side_send_ats)
  then have "try_ats_command v a c s = (b, t) \<Longrightarrow> rts_side t = rts_side s" for a c b t by (metis snd_conv)
  then show ?thesis by (auto simp: SC_ProcessAtpCmd_def split: prod.split)
qed

lemma surplus_pass: "rts_surplus k s \<Longrightarrow> rts_surplus k (wakeup_pass v s)"
proof -
  assume k: "rts_surplus k s"
  define t where "t = SC_ProcessAtpCmd v (if SwitchPendFlag (AtsCtrlBlck s) then SC_ServiceSwitchPend s else s)"
  have "rts_side t = rts_side s" by (simp add: t_def side_atp)
  then have "rts_surplus k t" using k surplus_cong by blast
  then show ?thesis by (simp add: wakeup_pass_def t_def [symmetric] Let_def surplus_rtp surplus_select)
qed

lemma surplus_wakeup: "rts_surplus k s \<Longrightarrow> rts_surplus k (SC_WakeupCmd v s)"
  unfolding SC_WakeupCmd_def by (simp add: wakeup_loop_inv [where P = "rts_surplus k"] surplus_pass)

subsection \<open>Requests\<close>

text \<open>A request that loads a new table into a sequence that runs.\<close>

definition reloads :: "sc_services \<Rightarrow> message \<Rightarrow> sc \<Rightarrow> bool" where
  "reloads v Buf s \<longleftrightarrow>
     msg_id Buf = SC_CMD_MID \<and> msg_fcn_code Buf = SC_MANAGE_TABLE_CC \<and> msg_size Buf = 12
     \<and> SC_TblStatus v = CFE_TBL_INFO_UPDATED
     \<and> (\<exists>r. executing s r \<and> unat (le32 Buf 8) = SC_TBL_ID_RTS_0 + r)"

lemma surplus_side [simp]:
  "rts_surplus k (SC_StartAtsCmd n s) = rts_surplus k s" "rts_surplus k (SC_StopAtsCmd s) = rts_surplus k s"
  "rts_surplus k (SC_SwitchAtsCmd s) = rts_surplus k s" "rts_surplus k (SC_JumpAtsCmd t s) = rts_surplus k s"
  "rts_surplus k (SC_ContinueAtsOnFailureCmd st s) = rts_surplus k s" "rts_surplus k (SC_AppendAtsCmd n s) = rts_surplus k s"
  "rts_surplus k (SC_LoadAts a s) = rts_surplus k s" "rts_surplus k (SC_UpdateAppend s) = rts_surplus k s"
  "rts_surplus k (SC_NoopCmd s) = rts_surplus k s" "rts_surplus k (SC_ResetCountersCmd s) = rts_surplus k s"
  by (rule surplus_cong, simp add: SC_NoopCmd_def SC_ResetCountersCmd_def)+

lemma surplus_load_rts:
  assumes "rts_surplus k s" "SC_RtsIndexIsValid r" "k + 1 + SC_NUMBER_OF_RTS < 65536"
  shows "rts_surplus (if executing s (unat r) then k + 1 else k) (SC_LoadRts r s)"
proof -
  define t where "t = SC_LoadRts r s"
  have len: "length (RtsInfo s) = SC_NUMBER_OF_RTS" using assms(1) by (simp add: rts_surplus_def)
  have "executing t i \<longleftrightarrow> i \<noteq> unat r \<and> executing s i" for i
    by (simp add: t_def SC_LoadRts_def assms(2) executing_upd [OF len assms(2)])
  then have "{i. executing t i} = {i. executing s i} - {unat r}" by auto
  then have "card {i. executing s i} = card {i. executing t i} + (if executing s (unat r) then 1 else 0)"
    using card_Suc_Diff1 [of "{i. executing s i}" "unat r"] by simp
  moreover have "RtsCtrlBlck t = RtsCtrlBlck s" "length (RtsInfo t) = SC_NUMBER_OF_RTS"
    by (simp_all add: t_def SC_LoadRts_def len)
  ultimately show ?thesis using assms by (simp add: rts_surplus_def t_def [symmetric])
qed

lemma surplus_manage:
  assumes k: "rts_surplus k s" "k + 1 + SC_NUMBER_OF_RTS < 65536"
  shows "rts_surplus (if SC_TblStatus v = CFE_TBL_INFO_UPDATED \<and> (\<exists>r. executing s r \<and> unat p = SC_TBL_ID_RTS_0 + r)
    then k + 1 else k) (SC_ManageTableCmd v p s)"
proof -
  have ats: "rts_surplus k (SC_ManageTable v (ATS_Table i) s)" and app: "rts_surplus k (SC_ManageTable v Append_Table s)" for i
    using k(1) by (simp_all add: SC_ManageTable_def reacquire_table_def Let_def)
  have rts: "rts_surplus (if SC_TblStatus v = CFE_TBL_INFO_UPDATED \<and> executing s i then k + 1 else k)
      (SC_ManageTable v (RTS_Table i) s)" if i: "i < SC_NUMBER_OF_RTS" for i
  proof -
    define t where "t = (sc_send (SC_Manage (RTS_Table i)) (sc_send (SC_ReleaseAddress (RTS_Table i)) s))
      \<lparr>RtsTbl := (RtsTbl s)[i := SC_TblData v]\<rparr>"
    have t: "rts_surplus k t" "executing t = executing s" using k(1) by (simp_all add: t_def executing_def fun_eq_iff)
    show ?thesis
      using surplus_load_rts [OF t(1) index_valid [OF i] k(2)] k(1) index_of_nat [OF i]
      by (simp add: SC_ManageTable_def reacquire_table_def Let_def t_def [symmetric] t)
  qed
  have small: "executing s r \<Longrightarrow> r < SC_NUMBER_OF_RTS" for r by (simp add: executing_def)
  show ?thesis
  proof (cases "SC_TBL_ID_RTS_0 \<le> unat p \<and> unat p < SC_TBL_ID_RTS_0 + SC_NUMBER_OF_RTS")
    case True
    then obtain i where i: "unat p = SC_TBL_ID_RTS_0 + i" "i < SC_NUMBER_OF_RTS" by (metis le_Suc_ex add_less_cancel_left)
    then have "SC_ManageTableCmd v p s = SC_ManageTable v (RTS_Table i) s"
      by (simp add: SC_ManageTableCmd_def SC_ManageRtsTable_def Let_def sc_tbl_id sc_const)
    then show ?thesis using rts [OF i(2)] i by auto
  next
    case False
    then have np: "(SC_TBL_ID_RTS_0 \<le> unat p \<and> unat p < SC_TBL_ID_RTS_0 + SC_NUMBER_OF_RTS) = False" by simp
    have "rts_surplus k (SC_ManageTableCmd v p s)"
      unfolding SC_ManageTableCmd_def Let_def np SC_ManageAtsTable_def by (simp add: ats app k(1))
    moreover have "\<not> (\<exists>r. executing s r \<and> unat p = SC_TBL_ID_RTS_0 + r)" using False small by auto
    ultimately show ?thesis by auto
  qed
qed

lemma surplus_hk: "rts_surplus k s \<Longrightarrow> rts_surplus k (SC_SendHkCmd v s)"
  by (simp add: SC_SendHkCmd_def SC_SendHkPacket_def SC_AutoStartRts_def sc_transmit_def Let_def surplus_keep_status)

lemma surplus_stop: "rts_surplus k s \<Longrightarrow> rts_surplus k (SC_StopRtsCmd n s)"
  "rts_surplus k s \<Longrightarrow> rts_surplus k (SC_DisableRtsCmd n s)" "rts_surplus k s \<Longrightarrow> rts_surplus k (SC_EnableRtsCmd n s)"
  by (simp_all add: SC_StopRtsCmd_def SC_DisableRtsCmd_def SC_EnableRtsCmd_def)

lemma surplus_verified:
  "rts_surplus k s \<Longrightarrow> (\<And>t. rts_surplus k t \<Longrightarrow> rts_surplus k (f t)) \<Longrightarrow> rts_surplus k (sc_verified m n f s)"
  by (simp add: sc_verified_def SC_VerifyCmdLength_def Let_def)

lemma surplus_command:
  assumes "rts_surplus k s" "msg_fcn_code Buf \<noteq> SC_MANAGE_TABLE_CC"
  shows "rts_surplus k (SC_ProcessCommand v Buf s)"
  using assms surplus_start [of k s]
  by (simp add: SC_ProcessCommand_def Let_def surplus_verified surplus_groups surplus_stop SC_VerifyCmdLength_def)

lemma reloads_time: "reloads v Buf (SC_GetCurrentTime v s) = reloads v Buf s"
  by (simp add: reloads_def SC_GetCurrentTime_def executing_def)

lemma surplus_request:
  assumes "rts_surplus k s" "k + 1 + SC_NUMBER_OF_RTS < 65536"
  shows "rts_surplus (if reloads v Buf s then k + 1 else k) (SC_ProcessRequest v Buf s)"
proof -
  define t where "t = SC_GetCurrentTime v s"
  have t: "rts_surplus k t" using assms(1) by (simp add: t_def SC_GetCurrentTime_def)
  show ?thesis
  proof (cases "msg_id Buf = SC_CMD_MID \<and> msg_fcn_code Buf = SC_MANAGE_TABLE_CC")
    case True
    then have "SC_ProcessRequest v Buf s = sc_verified Buf 12 (SC_ManageTableCmd v (le32 Buf 8)) t"
      by (simp add: SC_ProcessRequest_def SC_ProcessCommand_def t_def Let_def sc_const)
    then show ?thesis
      using surplus_manage [OF t assms(2), of v "le32 Buf 8"] True t reloads_time [of v Buf s]
      by (auto simp: sc_verified_def SC_VerifyCmdLength_def Let_def reloads_def t_def [symmetric])
  next
    case False
    then have "rts_surplus k (SC_ProcessRequest v Buf s)"
      using t by (simp add: SC_ProcessRequest_def t_def [symmetric] Let_def surplus_command surplus_verified surplus_hk
          surplus_wakeup surplus_start)
    then show ?thesis using False by (auto simp: reloads_def)
  qed
qed

text \<open>The number of such requests in a run of the main loop.\<close>

fun reload_count :: "sc_input list \<Rightarrow> sc \<Rightarrow> nat" where
  "reload_count [] s = 0"
| "reload_count (x # rest) s =
     (if SC_InStatus x = CFE_SUCCESS
      then (if reloads (SC_InServices x) (SC_InBuffer x) s then 1 else 0)
           + reload_count rest (SC_ProcessRequest (SC_InServices x) (SC_InBuffer x) s)
      else if SC_InStatus x = CFE_SB_TIME_OUT then reload_count rest s else 0)"

lemma surplus_loop:
  "rts_surplus k s \<Longrightarrow> k + reload_count inputs s + 1 + SC_NUMBER_OF_RTS < 65536
    \<Longrightarrow> rts_surplus (k + reload_count inputs s) (snd (sc_loop inputs (st, s)))"
proof (induction inputs arbitrary: k s st)
  case (Cons x rest)
  show ?case
  proof (cases "SC_InStatus x = CFE_SUCCESS")
    case True
    define r where "r = (if reloads (SC_InServices x) (SC_InBuffer x) s then 1 else 0 :: nat)"
    have "rts_surplus (k + r) (SC_ProcessRequest (SC_InServices x) (SC_InBuffer x) s)"
      using surplus_request [OF Cons.prems(1), of "SC_InServices x" "SC_InBuffer x"] Cons.prems(2)
      by (auto simp: r_def True)
    from Cons.IH [OF this] Cons.prems(2) True show ?thesis by (simp add: r_def [symmetric] add.assoc)
  next
    case False
    then show ?thesis using Cons by auto
  qed
qed simp

end
