(* ===== verification/Sc_Boot.thy ===== *)
theory Sc_Boot
  imports Sc_Active
begin

section \<open>Stored commands: after the start-up\<close>

text \<open>No sequence runs after the initialisation, whether it succeeds or stops at an error.\<close>

definition rts_idle :: "sc \<Rightarrow> bool" where
  "rts_idle s \<longleftrightarrow> length (RtsInfo s) = SC_NUMBER_OF_RTS \<and> NumRtsActive (RtsCtrlBlck s) = 0 \<and> (\<forall>i. \<not> executing s i)"

lemma idle_surplus: "rts_idle s \<Longrightarrow> rts_surplus 0 s"
  by (simp add: rts_idle_def rts_surplus_def sc_const)

lemma idle_cong: "rts_side t = rts_side s \<Longrightarrow> rts_idle t = rts_idle s"
  by (simp add: rts_side_def rts_idle_def executing_def)

lemma idle_frame [simp]:
  "rts_idle (sc_send x s) = rts_idle s" "rts_idle (upd_hk h s) = rts_idle s" "rts_idle (upd_atp b s) = rts_idle s"
  "rts_idle (set_cmd_status a c x' s) = rts_idle s" "rts_idle (s\<lparr>RtsTbl := tbl\<rparr>) = rts_idle s"
  "rts_idle (s\<lparr>AtsTbl := tbl\<rparr>) = rts_idle s" "rts_idle (s\<lparr>AppendTbl := tb\<rparr>) = rts_idle s"
  by (rule idle_cong, simp add: rts_side_def)+

lemma idle_upd: "rts_idle s \<Longrightarrow> (\<And>x. RtsStatus (f x) \<noteq> SC_Status_EXECUTING) \<Longrightarrow> rts_idle (upd_rts r f s)"
  by (cases "unat r < length (RtsInfo s)")
    (auto simp: rts_idle_def executing_def nth_list_update not_less list_update_beyond)

lemma idle_fold: "(\<And>x t. rts_idle t \<Longrightarrow> rts_idle (f x t)) \<Longrightarrow> rts_idle s \<Longrightarrow> rts_idle (fold f xs s)"
  by (induction xs arbitrary: s) simp_all

lemma idle_step: "rts_idle (snd r) \<Longrightarrow> (\<And>t. rts_idle t \<Longrightarrow> rts_idle (snd (f t))) \<Longrightarrow> rts_idle (snd (sc_step f r))"
  by (simp add: sc_step_def)

lemma idle_calls:
  "rts_idle (snd r) \<Longrightarrow> (\<And>f r. f \<in> set fs \<Longrightarrow> rts_idle (snd r) \<Longrightarrow> rts_idle (snd (f r))) \<Longrightarrow> rts_idle (snd (sc_calls fs r))"
  unfolding sc_calls_def by (induction fs arbitrary: r) simp_all

lemma idle_call [simp]: "rts_idle (snd (sc_call e x s)) = rts_idle s"
  by (simp add: sc_call_def)

lemma idle_table_calls: "rts_idle s \<Longrightarrow> rts_idle (snd (sc_calls (map (\<lambda>(t, e). sc_step (sc_call e (g t))) ts) (CFE_SUCCESS, s)))"
  by (rule idle_calls) (auto intro: idle_step)

lemma idle_register: "rts_idle s \<Longrightarrow> rts_idle (snd (SC_RegisterAllTables b s))"
  unfolding SC_RegisterAllTables_def SC_RegisterDumpOnlyTables_def SC_RegisterLoadableTables_def
  by (intro idle_step idle_table_calls)

lemma idle_dump: "rts_idle s \<Longrightarrow> rts_idle (snd (SC_GetDumpTablePointers b s))"
  unfolding SC_GetDumpTablePointers_def by (rule idle_table_calls)

lemma idle_load_rts: "rts_idle s \<Longrightarrow> rts_idle (SC_LoadRts r s)"
  by (simp add: SC_LoadRts_def idle_upd)

lemma idle_pointers: "rts_idle s \<Longrightarrow> rts_idle (snd (get_load_pointers b ts s))"
  by (induction b ts s rule: get_load_pointers.induct) (simp_all add: Let_def idle_load_rts split: sc_table.split)

lemma idle_default: "rts_idle s \<Longrightarrow> rts_idle (SC_LoadDefaultTables b s)"
  by (simp add: SC_LoadDefaultTables_def idle_fold)

lemma idle_manage: "rts_idle s \<Longrightarrow> rts_idle (SC_RegisterManageCmds s)"
  unfolding SC_RegisterManageCmds_def by (rule idle_fold) auto

lemma idle_blocks: "rts_idle s \<Longrightarrow> rts_idle (init_control_blocks s)"
proof -
  assume "rts_idle s"
  then have "rts_idle (upd_rtp (\<lambda>b. b\<lparr>NumRtsActive := 0, CurrRtsNum := SC_RTS_NUM_NULL\<rparr>) (upd_atp f s))" for f
    by (simp add: rts_idle_def)
  then show ?thesis
    unfolding init_control_blocks_def Let_def by (intro idle_fold idle_upd) simp_all
qed

lemma idle_boot: "rts_idle (boot_state b)"
  by (simp add: rts_idle_def boot_state_def sc_zero_def executing_def upd_hk_def)

lemma idle_init: "rts_idle (snd (SC_AppInit b))"
proof -
  have sub: "rts_idle t \<Longrightarrow> rts_idle (snd (sc_subscribe b m e t))" for m e t by (simp add: sc_subscribe_def)
  have tables: "rts_idle t \<Longrightarrow> rts_idle (snd (SC_InitTables b t))" for t
    unfolding SC_InitTables_def SC_GetLoadTablePointers_def
    by (intro idle_step) (simp_all add: idle_register idle_dump idle_pointers idle_default idle_blocks idle_manage)
  show ?thesis
    unfolding SC_AppInit_def
    by (rule idle_calls) (auto simp: idle_boot sub tables intro!: idle_step)
qed

end
