(* ===== verification/Sc_Properties.thy ===== *)
theory Sc_Properties
  imports Sc_Start Sc_Boot
begin

section \<open>Stored commands: properties\<close>

text \<open>
  What the application promises: a request of the limit checker starts a sequence, a sequence sends its commands
  at the wakeups its table gives, the scheduler takes the sequence that is due first, a wakeup is bounded, and
  the number of running sequences is right as long as no running sequence is loaded anew. The witnesses run on a
  state in which sequence 1 has two commands.
\<close>

definition demo_command :: "uint8 \<Rightarrow> message" where
  "demo_command x = [0x18, 0x06, 0xC0, 0, 0, 1, x, 0x20 XOR x]"

definition demo_rts :: "uint8 list" where
  "demo_rts = [2, 0, 0, 0] @ demo_command 3 @ [1, 0, 0, 0] @ demo_command 4 @ replicate 276 0"

definition demo_sc :: sc where
  "demo_sc = sc_zero\<lparr>RtsTbl := demo_rts # replicate 63 [], RtsInfo := (RtsInfo sc_zero)[0 :=
     \<lparr>RtsStatus = SC_Status_LOADED, DisabledFlag = False, Rts_CmdCtr = 0, Rts_CmdErrCtr = 0,
      NextCommandTgtWakeup = SC_MAX_WAKEUP_CNT, NextCommandPtr = 0, UseCtr = 0\<rparr>]\<rparr>"

definition demo_services :: sc_services where
  "demo_services = \<lparr>SC_Clock = (\<lambda>_. \<lparr>Seconds = 0, Subseconds = 0\<rparr>), SC_SendStatus = (\<lambda>_. CFE_SUCCESS),
     SC_TblStatus = CFE_SUCCESS, SC_TblData = []\<rparr>"

definition demo_wakeup :: message where
  "demo_wakeup = [0x18, 0x22, 0xC0, 0, 0, 1, 0, 0]"

lemma demo_list: "rts_commands demo_rts 0 = [(2, demo_command 3), (1, demo_command 4)]"
  by code_simp

lemma demo_length: "length demo_rts = 300"
  by (simp add: demo_rts_def demo_command_def)

lemma demo_checksum: "checksum_valid (demo_command 3) demo_sc" "checksum_valid (demo_command 4) demo_sc"
proof -
  have "CFE_MSG_ValidateChecksum (Some (demo_command 3)) True = Inr True" "CFE_MSG_ValidateChecksum (Some (demo_command 4)) True = Inr True"
    by code_simp+
  then show "checksum_valid (demo_command 3) demo_sc" "checksum_valid (demo_command 4) demo_sc"
    by (simp_all add: checksum_valid_def)
qed

lemma demo_state:
  "\<not> executing demo_sc i" "quiet_ats demo_sc" "NumCmdsWakeup demo_sc = 0" "length (RtsInfo demo_sc) = SC_NUMBER_OF_RTS"
  "sc_sent demo_sc = []" "RtsTbl demo_sc ! 0 = demo_rts" "CurrentWakeupCount demo_sc = 0" "unat (SC_RtsNumToIndex 1) = 0"
  by (simp_all add: demo_sc_def sc_zero_def executing_def quiet_ats_def sc_sent_def SC_RtsNumToIndex_def nth_list_update
      sc_const)

lemma demo_startable: "startable 1 demo_sc"
proof -
  have "msg_size (rts_msg (table_entry demo_rts 0)) = 8" by code_simp
  then show ?thesis
    using demo_state(8)
    by (simp add: startable_def Let_def demo_state(6) SC_RtsNumIsValid_def SC_RtsIndexIsValid_def SC_IDX_WITHIN_LIMIT_def)
      (simp add: demo_sc_def sc_zero_def sc_const)
qed

lemma demo_timely: "timely demo_sc (rts_commands demo_rts 0)"
  by (simp add: timely_def demo_list demo_checksum delays_def demo_state)

lemma demo_bus: "bus_accepts demo_services" "is_wakeup demo_wakeup"
proof -
  show "bus_accepts demo_services" by (simp add: bus_accepts_def demo_services_def)
  show "is_wakeup demo_wakeup" by code_simp
qed

subsection \<open>From the limit checker to the sequence\<close>

text \<open>
  C34 The message that the limit checker transmits for sequence \<open>r\<close>, when it reaches the stored command
  application, starts that sequence if it has a valid number, is enabled, is loaded, and its first command has
  a valid length; its list begins at the first entry and its first command is due after the delay of that entry.
  Otherwise no sequence changes, and the event gives the first condition that failed. Both cases are counted.
\<close>

theorem request_starts_sequence:
  "let m = last (transmits (LC_ExecuteRTS r l)); t = SC_ProcessRequest v m s; ok = startable r s
   in RtsInfo t = (if ok then started r s else RtsInfo s) \<and>
      RtsCtrlBlck t = (RtsCtrlBlck s)\<lparr>NumRtsActive := NumRtsActive (RtsCtrlBlck s) + (if ok then 1 else 0)\<rparr> \<and>
      SC_Out t = SC_Out s @ [SC_Event SC_START_RTS_BY_LC_REQUEST_INF_EID,
        SC_Event (if ok then start_event r else start_error r s)] \<and>
      HkPacket t = (if ok then (HkPacket s)\<lparr>RtsActiveCtr := RtsActiveCtr (HkPacket s) + 1, HK_CmdCtr := HK_CmdCtr (HkPacket s) + 1\<rparr>
        else (HkPacket s)\<lparr>RtsActiveErrCtr := RtsActiveErrCtr (HkPacket s) + 1, HK_CmdErrCtr := HK_CmdErrCtr (HkPacket s) + 1\<rparr>)"
proof -
  define u where "u = CFE_EVS_SendEvent_SC SC_START_RTS_BY_LC_REQUEST_INF_EID (SC_GetCurrentTime v s)"
  have u: "RtsInfo u = RtsInfo s" "RtsCtrlBlck u = RtsCtrlBlck s" "HkPacket u = HkPacket s" "startable r u = startable r s"
    "SC_Out u = SC_Out s @ [SC_Event SC_START_RTS_BY_LC_REQUEST_INF_EID]" "started r u = started r s"
    "start_error r u = start_error r s"
    by (simp_all add: u_def) (simp_all add: SC_GetCurrentTime_def started_def start_error_def Let_def)
  have m: "last (transmits (LC_ExecuteRTS r l)) = rts_message r" by (simp add: execute_rts transmits_send)
  show ?thesis
    using start_good [of r u] start_bad [of r u] u
    by (cases "startable r s") (simp_all add: m request_start u_def [symmetric] Let_def start_failed_def sc_rejected_def)
qed

subsection \<open>The timetable of a sequence\<close>

text \<open>
  C35 Once the request has started a sequence, with no other sequence running and no absolute time sequence, the
  wakeups send its commands one after the other, each exactly at the wakeup that its delay gives, and then
  nothing more, however long the run is: the timetable of the list of commands of its table. This holds if every
  delay is at least one wakeup, every command has a good checksum, the wakeup counter does not wrap during the
  sequence, and the bus accepts what it is given.
\<close>

theorem sequence_runs:
  assumes "startable r s" "quiet_ats s" "NumCmdsWakeup s = 0" "\<forall>j. \<not> executing s j" "length (RtsInfo s) = SC_NUMBER_OF_RTS"
    and "length (RtsTbl s ! unat (SC_RtsNumToIndex r)) = 4 * SC_RTS_BUFF_SIZE32"
    and "timely s (rts_commands (RtsTbl s ! unat (SC_RtsNumToIndex r)) 0)"
    and "\<forall>(v, m) \<in> set xs. bus_accepts v \<and> is_wakeup m"
  shows "sc_sent (fold (\<lambda>(v, m). SC_ProcessRequest v m) xs (SC_ProcessRequest v' (rts_message r) s))
    = sc_sent s @ timetable (rts_commands (RtsTbl s ! unat (SC_RtsNumToIndex r)) 0) (length xs)"
proof -
  define u where "u = CFE_EVS_SendEvent_SC SC_START_RTS_BY_LC_REQUEST_INF_EID (SC_GetCurrentTime v' s)"
  have u: "RtsInfo u = RtsInfo s" "RtsTbl u = RtsTbl s" "NumCmdsWakeup u = NumCmdsWakeup s" "quiet_ats u = quiet_ats s"
    "executing u = executing s" "timely u = timely s" "sc_sent u = sc_sent s"
    by (simp_all add: u_def)
      (simp_all add: SC_GetCurrentTime_def quiet_ats_def executing_def fun_eq_iff timely_def checksum_valid_def)
  define t where "t = SC_StartRtsCmd r u"
  have st: "startable r u" using assms(1) by (simp add: u_def)
  have "on_schedule t (unat (SC_RtsNumToIndex r)) (rts_commands (RtsTbl s ! unat (SC_RtsNumToIndex r)) 0)"
    using start_schedule [OF st] assms(2-6) by (simp add: u t_def)
  moreover have "CurrentWakeupCount t = CurrentWakeupCount u \<and> EnableHeaderUpdate t = EnableHeaderUpdate u"
    using tables_rts.start_rts [of r u] by (simp only: prod.inject t_def simp_thms)
  then have "timely t = timely u" by (simp add: timely_def checksum_valid_def fun_eq_iff)
  moreover have "sc_sent t = sc_sent s" by (simp add: t_def u sent_rts.start_rts)
  ultimately show ?thesis
    using timetable_requests [of t] assms(7,8) by (simp add: request_start u_def [symmetric] t_def [symmetric] u)
qed

theorem sequence_runs_witness:
  "let s = SC_ProcessRequest demo_services (rts_message 1) demo_sc; run = \<lambda>n. sc_sent (((SC_ProcessRequest demo_services demo_wakeup) ^^ n) s)
   in run 1 = [] \<and> run 2 = [demo_command 3] \<and> run 3 = [demo_command 3, demo_command 4] \<and> run 100 = run 3"
proof -
  have pow: "fold (\<lambda>(v, m). SC_ProcessRequest v m) (replicate n (demo_services, demo_wakeup)) s
      = ((SC_ProcessRequest demo_services demo_wakeup) ^^ n) s" for n s
    by (induction n arbitrary: s) (simp_all add: funpow_swap1)
  have run: "sc_sent (((SC_ProcessRequest demo_services demo_wakeup) ^^ n) (SC_ProcessRequest demo_services (rts_message 1) demo_sc))
      = timetable [(2, demo_command 3), (1, demo_command 4)] n" for n
  proof -
    define xs where "xs = replicate n (demo_services, demo_wakeup)"
    have "sc_sent (fold (\<lambda>(v, m). SC_ProcessRequest v m) xs (SC_ProcessRequest demo_services (rts_message 1) demo_sc))
        = sc_sent demo_sc @ timetable (rts_commands (RtsTbl demo_sc ! unat (SC_RtsNumToIndex 1)) 0) (length xs)"
      by (rule sequence_runs [OF demo_startable demo_state(2,3) _ demo_state(4)])
        (simp_all add: demo_state demo_bus demo_length demo_timely xs_def, simp add: sc_const)
    then show ?thesis by (simp only: demo_state demo_list xs_def pow length_replicate append_Nil)
  qed
  show ?thesis by (simp only: Let_def run) simp
qed

subsection \<open>Scheduling\<close>

text \<open>
  C36 The search for the next sequence selects, of the sequences that run, the one that is due first, and of several
  the one with the lowest number; with none running it selects no sequence and the last wakeup there is. It
  changes nothing but the selection.
\<close>

theorem next_sequence:
  "\<exists>n w. selected s (n, w) \<and> SC_GetNextRtsTime s = s\<lparr>RtsCtrlBlck := (RtsCtrlBlck s)\<lparr>CurrRtsNum := n\<rparr>, NextCmdTime_RTP := w\<rparr>"
  using next_rts_state [of s] by (auto simp: upd_rtp_def)

text \<open>
  C37 A wakeup ends. It counts at most eight commands, sends at most as many, and if it counts fewer than eight
  then every sequence that still runs is due at a later wakeup.
\<close>

theorem wakeup_bounded:
  fixes s :: sc and v :: sc_services
  assumes "NumCmdsWakeup s = 0"
  defines "u \<equiv> wakeup_loop v (s\<lparr>CurrentWakeupCount := CurrentWakeupCount s + 1\<rparr>)"
  shows "\<exists>ms. sc_sent (SC_WakeupCmd v s) = sc_sent s @ ms \<and> length ms \<le> unat (NumCmdsWakeup u) \<and> unat (NumCmdsWakeup u) \<le> 8
    \<and> (unat (NumCmdsWakeup u) < 8 \<longrightarrow> none_due (SC_WakeupCmd v s))"
proof -
  have w: "SC_WakeupCmd v s = u\<lparr>NumCmdsWakeup := 0\<rparr>" by (simp add: SC_WakeupCmd_def u_def)
  have "none_due (SC_WakeupCmd v s) = none_due u" by (simp add: w none_due_def)
  moreover have "NumCmdsWakeup u < SC_MAX_CMDS_PER_WAKEUP \<Longrightarrow> none_due u" unfolding u_def by (rule loop_none_due)
  moreover obtain ms where "sc_sent u = sc_sent s @ ms" "length ms \<le> unat (NumCmdsWakeup u)" "NumCmdsWakeup u \<le> SC_MAX_CMDS_PER_WAKEUP"
    using loop_sent [of "s\<lparr>CurrentWakeupCount := CurrentWakeupCount s + 1\<rparr>" v] assms(1) by (auto simp: u_def sc_const)
  ultimately show ?thesis
    by (intro exI [of _ ms]) (simp add: w word_le_nat_alt word_less_nat_alt sc_const)
qed

theorem wakeup_bounded_witness:
  "\<exists>ms. sc_sent (SC_WakeupCmd demo_services demo_sc) = ms \<and> length ms \<le> 8"
proof -
  note w = wakeup_bounded [OF demo_state(3), of demo_services]
  show ?thesis using w by (auto simp: demo_state(5))
qed

subsection \<open>Counting\<close>

text \<open>
  C38 After any run of the application the reported number of active sequences is the number of sequences that run,
  plus the number of times a new table was loaded into a sequence that was running: such a load stops the
  sequence without counting it out. Without such loads the number is exact.
\<close>

theorem running_count:
  fixes b :: sc_boot and inputs :: "sc_input list"
  defines "stale \<equiv> if fst (SC_AppInit b) = CFE_SUCCESS then reload_count inputs (snd (SC_AppInit b)) else 0"
    and "t \<equiv> snd (SC_AppMain b inputs)"
  assumes "stale + 1 + SC_NUMBER_OF_RTS < 2 ^ 16"
  shows "unat (NumRtsActive (RtsCtrlBlck t)) = card {i. executing t i} + stale"
proof -
  note zero = idle_surplus [OF idle_init, of b]
  have "rts_surplus stale t"
  proof (cases "fst (SC_AppInit b) = CFE_SUCCESS")
    case True
    have "rts_surplus (0 + reload_count inputs (snd (SC_AppInit b))) (snd (sc_loop inputs (SC_AppInit b)))"
      by (rule surplus_loop [OF zero, of inputs "fst (SC_AppInit b)", unfolded prod.collapse])
        (use assms(3) True in \<open>simp add: stale_def\<close>)
    then show ?thesis by (auto simp: t_def SC_AppMain_def True stale_def Let_def split: prod.split)
  next
    case False
    then show ?thesis using zero by (auto simp: t_def SC_AppMain_def stale_def Let_def split: prod.split)
  qed
  then show ?thesis by (simp add: rts_surplus_def)
qed

definition demo_inputs :: "sc_input list" where
  "demo_inputs = map (\<lambda>m. \<lparr>SC_InStatus = CFE_SUCCESS, SC_InBuffer = m, SC_InServices = demo_services\<rparr>)
     [rts_message 1, demo_wakeup, demo_wakeup]"

theorem running_count_witness:
  "\<forall>b. unat (NumRtsActive (RtsCtrlBlck (snd (SC_AppMain b demo_inputs)))) = card {i. executing (snd (SC_AppMain b demo_inputs)) i}"
proof
  fix b
  have "\<not> reloads v (rts_message 1) s" "\<not> reloads v demo_wakeup s" for v s
    using demo_bus(2) request_fields(1) [of 1] by (simp_all add: reloads_def is_wakeup_def sc_const)
  then have "reload_count demo_inputs s = 0" for s by (simp add: demo_inputs_def)
  then show "unat (NumRtsActive (RtsCtrlBlck (snd (SC_AppMain b demo_inputs)))) = card {i. executing (snd (SC_AppMain b demo_inputs)) i}"
    using running_count [of b demo_inputs] by (simp add: sc_const)
qed

end
