(* ===== verification/Sc_Order.thy ===== *)
theory Sc_Order
  imports Sc_Ats "HOL-Library.Multiset"
begin

section \<open>Stored commands: the order of an absolute time sequence\<close>

text \<open>
  The list of command numbers is kept in the order of their times by insertion from the end. Times are compared
  modulo \<open>2 ^ 32\<close>, so an order exists only for times within a span of \<open>2 ^ 31\<close> seconds from some base.
\<close>

subsection \<open>Comparing times\<close>

lemma compare_key:
  assumes "unat (x - base) < 2 ^ 31" "unat (y - base) < 2 ^ 31"
  shows "SC_CompareAbsTime x y \<longleftrightarrow> unat (y - base) < unat (x - base)"
proof -
  define a b where "a = unat (x - base)" and "b = unat (y - base)"
  have xy: "x - y = (x - base) - (y - base)" "y - x = (y - base) - (x - base)" by simp_all
  note wrap = unat_minus_wrap [of "x - base" "y - base"] unat_minus_wrap [of "y - base" "x - base"]
  note lt = word32_less [of x] word32_less [of y]
  consider "a = b" | "a < b" | "b < a" by linarith
  then show ?thesis
  proof cases
    case 1
    then have "x = y" by (simp add: a_def b_def word_unat_eq_iff [symmetric])
    then show ?thesis by (simp add: SC_CompareAbsTime_def CFE_TIME_Compare_def)
  next
    case 2
    then have d: "unat (y - x) = b - a" "unat (x - y) = 2 ^ 32 - (b - a)"
      using wrap assms 2 unfolding xy a_def [symmetric] b_def [symmetric] by simp_all
    have "unat x \<noteq> unat y" using 2 by (auto simp: a_def b_def simp flip: word_unat_eq_iff)
    then show ?thesis
      using 2 assms d by (auto simp: SC_CompareAbsTime_def CFE_TIME_Compare_def CFE_TIME_NEGATIVE_def word_less_nat_alt a_def b_def)
  next
    case 3
    then have d: "unat (x - y) = a - b" "unat (y - x) = 2 ^ 32 - (a - b)"
      using wrap assms 3 unfolding xy a_def [symmetric] b_def [symmetric] by simp_all
    have "unat x \<noteq> unat y" using 3 by (auto simp: a_def b_def simp flip: word_unat_eq_iff)
    then show ?thesis
      using 3 assms d by (auto simp: SC_CompareAbsTime_def CFE_TIME_Compare_def CFE_TIME_NEGATIVE_def word_less_nat_alt a_def b_def)
  qed
qed

subsection \<open>Insertion into a list\<close>

primrec ins_slot :: "('a \<Rightarrow> bool) \<Rightarrow> nat \<Rightarrow> 'a list \<Rightarrow> nat \<times> 'a list" where
  "ins_slot later 0 xs = (0, xs)"
| "ins_slot later (Suc k) xs = (if later (xs ! k) then ins_slot later k (xs[Suc k := xs ! k]) else (Suc k, xs))"

lemma ins_slot_result:
  "ins_slot later k xs = (j, ys) \<Longrightarrow> k < length xs \<Longrightarrow>
     j \<le> k \<and> ys[j := x] = take j xs @ x # drop j (take k xs) @ drop (Suc k) xs
     \<and> (\<forall>y \<in> set (drop j (take k xs)). later y) \<and> (0 < j \<longrightarrow> \<not> later (xs ! (j - 1)))"
proof (induction k arbitrary: xs)
  case 0
  then show ?case by (cases xs) auto
next
  case (Suc k)
  show ?case
  proof (cases "later (xs ! k)")
    case True
    define xs' where "xs' = xs[Suc k := xs ! k]"
    have run: "ins_slot later k xs' = (j, ys)" "k < length xs'"
      using Suc.prems True by (simp_all add: xs'_def)
    note IH = Suc.IH [OF run]
    have j: "j \<le> k" using IH by blast
    have t: "take j xs' = take j xs" "take k xs' = take k xs" using j by (simp_all add: xs'_def)
    have d: "drop (Suc k) xs' = xs ! k # drop (Suc (Suc k)) xs"
      using Suc.prems(2) by (simp add: xs'_def Cons_nth_drop_Suc [symmetric])
    have s: "drop j (take (Suc k) xs) = drop j (take k xs) @ [xs ! k]"
      using Suc.prems(2) j by (simp add: take_Suc_conv_app_nth)
    have "xs' ! (j - 1) = xs ! (j - 1)" using j by (simp add: xs'_def)
    then show ?thesis using IH j True by (simp add: t d s)
  next
    case False
    then show ?thesis using Suc.prems by (auto simp: upd_conv_take_nth_drop)
  qed
qed

lemma sorted_insert_at:
  assumes "sorted (map f xs)" "\<forall>y \<in> set (drop j xs). f x \<le> f y" "0 < j \<longrightarrow> f (xs ! (j - 1)) \<le> f x" "j \<le> length xs"
  shows "sorted (map f (take j xs @ x # drop j xs))"
proof -
  have le: "f y \<le> f x" if y: "y \<in> set (take j xs)" for y
  proof -
    obtain i where "i < length (take j xs)" "y = take j xs ! i" using y unfolding in_set_conv_nth by metis
    then have i: "i < j" "y = xs ! i" by simp_all
    then have "f (xs ! i) \<le> f (xs ! (j - 1))"
      using sorted_nth_mono [OF assms(1), of i "j - 1"] assms(4) by simp
    then show ?thesis using assms(3) i by auto
  qed
  have "sorted (map f (take j xs @ drop j xs))" using assms(1) by simp
  then show ?thesis using le assms(2) by (auto simp: sorted_append simp del: append_take_drop_id)
qed

lemma mset_insert_at: "mset (take j xs @ x # drop j xs) = add_mset x (mset xs)"
proof -
  have "mset (take j xs @ x # drop j xs) = add_mset x (mset (take j xs @ drop j xs))"
    by (simp del: append_take_drop_id)
  then show ?thesis by (simp only: append_take_drop_id)
qed

subsection \<open>The list of a sequence\<close>

definition set_order :: "uint16 \<Rightarrow> uint16 list \<Rightarrow> sc \<Rightarrow> sc" where
  "set_order a xs s = s\<lparr>AtsTimeIndexBuffer := (AtsTimeIndexBuffer s)[unat a := xs]\<rparr>"

abbreviation order_of :: "sc \<Rightarrow> uint16 \<Rightarrow> uint16 list" where
  "order_of s a \<equiv> AtsTimeIndexBuffer s ! unat a"

definition cmd_time :: "sc \<Rightarrow> uint16 \<Rightarrow> uint16 \<Rightarrow> uint32" where
  "cmd_time s a n = ats_cmd_time a (SC_CommandNumToIndex n) s"

lemma set_order_simps [simp]:
  "set_order a xs (set_order a ys s) = set_order a xs s" "cmd_time (set_order a xs s) = cmd_time s"
  "AtsCmdIndexBuffer (set_order a xs s) = AtsCmdIndexBuffer s" "length (AtsTimeIndexBuffer (set_order a xs s)) = length (AtsTimeIndexBuffer s)"
  "unat a < length (AtsTimeIndexBuffer s) \<Longrightarrow> order_of (set_order a xs s) a = xs"
  "set_order a (order_of s a) s = s"
  by (simp_all add: set_order_def cmd_time_def ats_cmd_time_def SC_GetAtsEntryAtOffset_def SC_GetAtsEntryOffsetForCmd_def fun_eq_iff)

lemma set_cmd_num_order: "set_cmd_num a i x s = set_order a ((order_of s a)[unat i := x]) s"
  by (simp add: set_cmd_num_def set_order_def)

lemma insert_slot_list:
  assumes "unat a < length (AtsTimeIndexBuffer s)" "k < 1000"
  shows "insert_slot a t k s =
    (case ins_slot (\<lambda>n. SC_CompareAbsTime (cmd_time s a n) t) k (order_of s a) of (j, xs) \<Rightarrow> (j, set_order a xs s))"
  using assms
proof (induction k arbitrary: s)
  case (Suc k)
  have k: "unat (of_nat k :: uint16) = k" "unat (of_nat (Suc k) :: uint16) = Suc k"
    using Suc.prems(2) by (simp_all add: unat_of_nat_small del: of_nat_Suc)
  show ?case
    using Suc.IH [of "set_order a ((order_of s a)[Suc k := order_of s a ! k]) s"] Suc.prems k
    by (simp add: Let_def set_cmd_num_order SC_GetAtsCommandNumAtSeq_def cmd_time_def [symmetric] split: prod.split)
qed simp

subsection \<open>Building the list\<close>

text \<open>The numbers of the commands below \<open>k\<close> that have an offset, in the order of their numbers.\<close>

definition numbers_below :: "sc \<Rightarrow> uint16 \<Rightarrow> nat \<Rightarrow> uint16 list" where
  "numbers_below s a k =
     map (\<lambda>i. SC_CommandIndexToNum (of_nat i)) (filter (\<lambda>i. AtsCmdIndexBuffer s ! unat a ! i \<noteq> SC_ENTRY_OFFSET_INVALID) [0..<k])"

text \<open>All times lie within half of the range from the base, so that they are ordered.\<close>

definition within_span :: "sc \<Rightarrow> uint16 \<Rightarrow> uint32 \<Rightarrow> bool" where
  "within_span s a base \<longleftrightarrow>
     (\<forall>n \<in> set (numbers_below s a SC_MAX_ATS_CMDS). unat (cmd_time s a n - base) < 2 ^ 31)"

definition in_order :: "sc \<Rightarrow> uint16 \<Rightarrow> uint32 \<Rightarrow> uint16 list \<Rightarrow> bool" where
  "in_order s a base ns \<longleftrightarrow> sorted (map (\<lambda>n. unat (cmd_time s a n - base)) ns)"

lemma numbers_simps [simp]:
  "numbers_below s a 0 = []" "numbers_below (set_order a' xs s) a k = numbers_below s a k"
  "numbers_below s a (Suc k) = numbers_below s a k
     @ (if AtsCmdIndexBuffer s ! unat a ! k \<noteq> SC_ENTRY_OFFSET_INVALID then [SC_CommandIndexToNum (of_nat k)] else [])"
  by (simp_all add: numbers_below_def)

lemma insert_list:
  assumes a: "SC_AtsIndexIsValid a" "unat a < length (AtsTimeIndexBuffer s)"
    and xs: "order_of s a = vs @ ws" "length vs < 1000" "ws \<noteq> []"
    and span: "\<forall>n \<in> set (SC_CommandIndexToNum c # vs). unat (cmd_time s a n - base) < 2 ^ 31" and sorted: "in_order s a base vs"
  shows "\<exists>us. SC_Insert a c (length vs) s = set_order a (us @ tl ws) s \<and> mset us = add_mset (SC_CommandIndexToNum c) (mset vs)
    \<and> in_order s a base us"
proof -
  define t where "t = (if 0 < length vs then ats_cmd_time a c s else 0)"
  define n where "n = SC_CommandIndexToNum c"
  have c: "ats_cmd_time a c s = cmd_time s a n" by (simp add: cmd_time_def n_def SC_CommandIndexToNum_def SC_CommandNumToIndex_def)
  obtain j ys where ins: "ins_slot (\<lambda>n. SC_CompareAbsTime (cmd_time s a n) t) (length vs) (order_of s a) = (j, ys)" by fastforce
  have run: "insert_slot a t (length vs) s = (j, set_order a ys s)"
    using insert_slot_list [OF a(2) xs(2), of t] by (simp add: ins)
  have "length vs < length (order_of s a)" using xs by simp
  note r = ins_slot_result [OF ins this, of n]
  have j: "j \<le> length vs" using r by blast
  have ys: "ys[j := n] = (take j vs @ n # drop j vs) @ tl ws" using r j xs(1) by (simp add: drop_Suc)
  have slot: "unat (of_nat j :: uint16) = j" using j xs(2) by (simp add: unat_of_nat_small)
  have "SC_Insert a c (length vs) s = set_order a (ys[j := n]) s"
    unfolding SC_Insert_def Let_def t_def [symmetric] run using a by (simp add: set_cmd_num_order slot n_def)
  moreover have "sorted (map (\<lambda>n. unat (cmd_time s a n - base)) (take j vs @ n # drop j vs))"
  proof (cases "vs = []")
    case False
    then have t: "t = cmd_time s a n" by (simp add: t_def c)
    have cmp: "SC_CompareAbsTime (cmd_time s a m) t \<longleftrightarrow> unat (cmd_time s a n - base) < unat (cmd_time s a m - base)" if "m \<in> set vs" for m
      using that span unfolding t by (intro compare_key) (simp_all add: n_def)
    have later: "\<forall>m \<in> set (drop j vs). unat (cmd_time s a n - base) \<le> unat (cmd_time s a m - base)"
      using r xs(1) cmp by (auto dest: in_set_dropD intro: less_imp_le)
    have earlier: "0 < j \<longrightarrow> unat (cmd_time s a (vs ! (j - 1)) - base) \<le> unat (cmd_time s a n - base)"
    proof
      assume "0 < j"
      then have v: "j - 1 < length vs" "\<not> SC_CompareAbsTime (cmd_time s a ((vs @ ws) ! (j - 1))) t" using r j xs(1) by simp_all
      then show "unat (cmd_time s a (vs ! (j - 1)) - base) \<le> unat (cmd_time s a n - base)"
        using cmp [of "vs ! (j - 1)"] by (simp add: nth_append not_less)
    qed
    show ?thesis
      using sorted_insert_at [OF sorted [unfolded in_order_def] later earlier j] .
  qed simp
  ultimately show ?thesis
    using mset_insert_at [of j vs n] unfolding ys in_order_def n_def [symmetric] by blast
qed

lemma index_loop:
  assumes a: "SC_AtsIndexIsValid a" "unat a < length (AtsTimeIndexBuffer s)" "length (order_of s a) = SC_MAX_ATS_CMDS"
    and span: "within_span s a base" and k: "k \<le> SC_MAX_ATS_CMDS"
  shows "\<exists>vs. fold (index_command a) [0..<k] (0, s) = (length vs, set_order a (vs @ replicate (k - length vs) 0 @ drop k (order_of s a)) s)
    \<and> length vs \<le> k \<and> mset vs = mset (numbers_below s a k) \<and> in_order s a base vs"
  using k
proof (induction k)
  case 0
  then show ?case using a(2) by (intro exI [of _ "[]"]) (simp add: in_order_def)
next
  case (Suc k)
  then obtain vs where vs: "fold (index_command a) [0..<k] (0, s) = (length vs, set_order a (vs @ replicate (k - length vs) 0 @ drop k (order_of s a)) s)"
    "length vs \<le> k" "mset vs = mset (numbers_below s a k)" "in_order s a base vs" by auto
  define ws where "ws = replicate (Suc k - length vs) 0 @ drop (Suc k) (order_of s a)"
  define s1 where "s1 = set_order a (vs @ ws) s"
  have k: "k < 1000" using Suc.prems by (simp add: sc_const)
  then have uk: "unat (of_nat k :: uint16) = k" by (simp add: unat_of_nat_small)
  have "(vs @ replicate (k - length vs) 0 @ drop k (order_of s a))[k := 0] = vs @ ws"
    using vs(2) a(3) k
    by (simp add: ws_def list_update_append Suc_diff_le replicate_append_same [symmetric] Cons_nth_drop_Suc [symmetric] sc_const
        SC_INVALID_CMD_NUMBER_def)
  then have s1: "set_cmd_num a (of_nat k) SC_INVALID_CMD_NUMBER (set_order a (vs @ replicate (k - length vs) 0 @ drop k (order_of s a)) s) = s1"
    using a(2) by (simp add: set_cmd_num_order uk s1_def SC_INVALID_CMD_NUMBER_def)
  have step: "fold (index_command a) [0..<Suc k] (0, s) =
     (if AtsCmdIndexBuffer s ! unat a ! k \<noteq> SC_ENTRY_OFFSET_INVALID then (length vs + 1, SC_Insert a (of_nat k) (length vs) s1) else (length vs, s1))"
    by (simp add: vs(1) index_command_def s1 Let_def SC_GetAtsEntryOffsetForCmd_def uk s1_def)
  have sub: "set (numbers_below s a (Suc k)) \<subseteq> set (numbers_below s a SC_MAX_ATS_CMDS)"
    using Suc.prems by (auto simp: numbers_below_def)
  have vset: "set vs = set (numbers_below s a k)" using vs(3) mset_eq_setD by blast
  show ?case
  proof (cases "AtsCmdIndexBuffer s ! unat a ! k \<noteq> SC_ENTRY_OFFSET_INVALID")
    case True
    have o1: "order_of s1 a = vs @ ws" "unat a < length (AtsTimeIndexBuffer s1)" using a(2) by (simp_all add: s1_def)
    have ws: "ws \<noteq> []" "tl ws = replicate (k - length vs) 0 @ drop (Suc k) (order_of s a)"
      using vs(2) by (simp_all add: ws_def Suc_diff_le)
    have len: "length vs < 1000" using vs(2) k by simp
    have sp: "\<forall>n \<in> set (SC_CommandIndexToNum (of_nat k) # vs). unat (cmd_time s1 a n - base) < 2 ^ 31"
    proof
      fix n assume "n \<in> set (SC_CommandIndexToNum (of_nat k) # vs)"
      then have "n \<in> set (numbers_below s a (Suc k))" using True vset by auto
      then show "unat (cmd_time s1 a n - base) < 2 ^ 31" using span sub by (auto simp: s1_def within_span_def)
    qed
    have "in_order s1 a base vs" using vs(4) by (simp add: in_order_def s1_def)
    from insert_list [OF a(1) o1(2,1) len ws(1) sp this]
    obtain us where us: "SC_Insert a (of_nat k) (length vs) s1 = set_order a (us @ tl ws) s1"
      "mset us = add_mset (SC_CommandIndexToNum (of_nat k)) (mset vs)" "in_order s1 a base us" by blast
    have "length us = Suc (length vs)" using arg_cong [OF us(2), of size] by simp
    then show ?thesis
      using us vs(2,3) True step by (intro exI [of _ us]) (simp add: s1_def ws(2) in_order_def)
  next
    case False
    then show ?thesis
      using vs step by (intro exI [of _ vs]) (simp add: s1_def ws_def)
  qed
qed

lemma build_list:
  assumes "SC_AtsIndexIsValid a" "unat a < length (AtsTimeIndexBuffer s)" "length (order_of s a) = SC_MAX_ATS_CMDS"
    and "within_span s a base"
  shows "\<exists>vs. SC_BuildTimeIndexTable a s = set_order a (vs @ replicate (SC_MAX_ATS_CMDS - length vs) 0) s
    \<and> mset vs = mset (numbers_below s a SC_MAX_ATS_CMDS) \<and> in_order s a base vs"
  using index_loop [OF assms order.refl] assms(1,3) by (auto simp: SC_BuildTimeIndexTable_def)

end
