(* ===== verification/Sc_Table.thy ===== *)
theory Sc_Table
  imports Sc_Order
begin

section \<open>Stored commands: validating and loading an absolute time sequence\<close>

text \<open>
  The validation and the loading of a table read it with two different loops. Both are compared with one
  reading of the table: the numbers of its commands with their offsets, and the offset of its end.
\<close>

subsection \<open>Reading a table\<close>

definition ats_step :: "uint8 list \<Rightarrow> nat \<Rightarrow> nat" where
  "ats_step tbl off = off + (unat (msg_size (ats_msg (table_entry tbl off))) + 11) div 4"

definition ats_fits :: "uint8 list \<Rightarrow> nat \<Rightarrow> bool" where
  "ats_fits tbl off \<longleftrightarrow>
     (let n = msg_size (ats_msg (table_entry tbl off))
      in SC_AtsCommandNumIsValid (ats_number (table_entry tbl off)) \<and> off + SC_ATS_HDR_WORDS \<le> SC_ATS_BUFF_SIZE32
         \<and> SC_PACKET_MIN_SIZE \<le> n \<and> n \<le> SC_PACKET_MAX_SIZE \<and> ats_step tbl off \<le> SC_ATS_BUFF_SIZE32)"

function ats_parse :: "uint8 list \<Rightarrow> nat \<Rightarrow> ((uint16 \<times> nat) list \<times> nat) option" where
  "ats_parse tbl off =
     (if SC_ATS_BUFF_SIZE32 \<le> off \<or> ats_number (table_entry tbl off) = 0 then Some ([], off)
      else if ats_fits tbl off
      then map_option (apfst ((#) (ats_number (table_entry tbl off), off))) (ats_parse tbl (ats_step tbl off))
      else None)"
  by pat_completeness auto
termination
  by (relation "measure (\<lambda>(tbl, off). SC_ATS_BUFF_SIZE32 - off)") (auto simp: ats_fits_def ats_step_def Let_def)

declare ats_parse.simps [simp del]

definition ats_sequence :: "uint8 list \<Rightarrow> (uint16 \<times> nat) list \<Rightarrow> nat \<Rightarrow> bool" where
  "ats_sequence tbl cs e \<longleftrightarrow> ats_parse tbl 0 = Some (cs, e) \<and> cs \<noteq> [] \<and> distinct (map fst cs)"

lemma parse_numbers:
  "ats_parse tbl off = Some (cs, e) \<Longrightarrow> (n, i) \<in> set cs \<Longrightarrow> SC_AtsCommandNumIsValid n \<and> i < SC_ATS_BUFF_SIZE32"
proof (induction tbl off arbitrary: cs rule: ats_parse.induct)
  case (1 tbl off)
  show ?case
    using 1(1) 1(2,3) by (subst (asm) ats_parse.simps) (auto simp: ats_fits_def Let_def not_le split: if_splits)
qed

subsection \<open>Validation\<close>

definition dup_of :: "sc \<Rightarrow> uint16 \<Rightarrow> int" where
  "dup_of s n = AtsDupTestArray s ! unat (SC_CommandNumToIndex n)"

lemma number_eq: "unat (SC_CommandNumToIndex m) = unat (SC_CommandNumToIndex n) \<longleftrightarrow> m = n"
  by (simp add: SC_CommandNumToIndex_def flip: word_unat_eq_iff)

lemma number_less: "SC_AtsCommandNumIsValid n \<longleftrightarrow> unat (SC_CommandNumToIndex n) < SC_MAX_ATS_CMDS"
  by (simp add: SC_AtsCommandNumIsValid_def SC_AtsCommandIndexIsValid_def SC_IDX_WITHIN_LIMIT_def)

lemma verify_entry:
  assumes "i < SC_ATS_BUFF_SIZE32" "ats_number (table_entry tbl i) = n" "n \<noteq> 0"
  shows "if ats_fits tbl i \<and> dup_of s n = SC_DUP_TEST_UNUSED
    then SC_VerifyAtsEntry tbl i SC_ATS_BUFF_SIZE32 s = (int (ats_step tbl i - i),
      s\<lparr>AtsDupTestArray := (AtsDupTestArray s)[unat (SC_CommandNumToIndex n) := int i]\<rparr>)
    else fst (SC_VerifyAtsEntry tbl i SC_ATS_BUFF_SIZE32 s) = SC_ERROR"
proof -
  define k where "k = msg_size (ats_msg (table_entry tbl i))"
  have "unat (k + of_nat SC_ROUND_UP_BYTES) = unat k + 3" if "k \<le> SC_PACKET_MAX_SIZE"
    using unat_size_add [OF that, of 3] by (simp add: sc_const)
  moreover have "2 + (unat k + 3) div 4 = (unat k + 11) div 4" by presburger
  ultimately have w: "SC_ATS_HDR_NOPKT_WORDS + unat (k + of_nat SC_ROUND_UP_BYTES) div SC_BYTES_IN_WORD = ats_step tbl i - i"
    if "k \<le> SC_PACKET_MAX_SIZE" using that by (simp add: ats_step_def k_def sc_const)
  have le: "i \<le> ats_step tbl i" by (simp add: ats_step_def)
  show ?thesis
    using assms le w
    by (auto simp: SC_VerifyAtsEntry_def ats_fits_def Let_def dup_of_def k_def [symmetric] not_less not_le add.assoc)
qed


lemma dup_update:
  assumes "length (AtsDupTestArray s) = SC_MAX_ATS_CMDS" "SC_AtsCommandNumIsValid n"
  shows "dup_of (s\<lparr>AtsDupTestArray := (AtsDupTestArray s)[unat (SC_CommandNumToIndex n) := x]\<rparr>) m = (if m = n then x else dup_of s m)"
  using assms number_eq [of m n] by (auto simp: dup_of_def number_less nth_list_update)

lemma verify_parse:
  assumes "verify_entries tbl SC_ATS_BUFF_SIZE32 i c s = (res, j, c', t)" "length (AtsDupTestArray s) = SC_MAX_ATS_CMDS"
  shows "case ats_parse tbl i of None \<Rightarrow> res = SC_ERROR
    | Some (cs, e) \<Rightarrow> if distinct (map fst cs) \<and> (\<forall>n \<in> fst ` set cs. dup_of s n = SC_DUP_TEST_UNUSED)
        then res = 0 \<and> c' = c + length cs else res = SC_ERROR"
  using assms
proof (induction tbl "SC_ATS_BUFF_SIZE32" i c s rule: verify_entries.induct)
  case (1 tbl i c s)
  define n where "n = ats_number (table_entry tbl i)"
  note unf = verify_entries.simps [of tbl SC_ATS_BUFF_SIZE32 i c s] ats_parse.simps [of tbl i, folded n_def]
  show ?case
  proof (cases "SC_ATS_BUFF_SIZE32 \<le> i \<or> n = 0")
    case True
    then have "SC_VerifyAtsEntry tbl i SC_ATS_BUFF_SIZE32 s = (0, s)"
      by (auto simp: SC_VerifyAtsEntry_def Let_def n_def)
    moreover have "ats_parse tbl i = Some ([], i)" using True by (simp add: unf(2))
    ultimately show ?thesis using 1(2) by (auto simp: unf(1))
  next
    case go: False
    then have i: "i < SC_ATS_BUFF_SIZE32" "n \<noteq> 0" by auto
    note entry = verify_entry [OF i(1) n_def [symmetric] i(2), of s]
    show ?thesis
    proof (cases "ats_fits tbl i \<and> dup_of s n = SC_DUP_TEST_UNUSED")
      case True
      define s1 where "s1 = s\<lparr>AtsDupTestArray := (AtsDupTestArray s)[unat (SC_CommandNumToIndex n) := int i]\<rparr>"
      have lt: "i < ats_step tbl i" by (simp add: ats_step_def)
      have e: "SC_VerifyAtsEntry tbl i SC_ATS_BUFF_SIZE32 s = (int (ats_step tbl i - i), s1)"
        using entry True by (simp add: s1_def)
      have pos: "int (ats_step tbl i - i) \<noteq> SC_ERROR" "int (ats_step tbl i - i) \<noteq> 0" "i + nat (int (ats_step tbl i - i)) = ats_step tbl i"
        using lt by (simp_all add: sc_const)
      have len: "length (AtsDupTestArray s1) = SC_MAX_ATS_CMDS" using 1(3) by (simp add: s1_def)
      have valid: "SC_AtsCommandNumIsValid n" using True by (simp add: ats_fits_def Let_def n_def)
      have dup: "dup_of s1 m = (if m = n then int i else dup_of s m)" for m
        unfolding s1_def by (rule dup_update [OF 1(3) valid])
      have used: "int i \<noteq> SC_DUP_TEST_UNUSED" by (simp add: sc_const)
      have "verify_entries tbl SC_ATS_BUFF_SIZE32 (ats_step tbl i) (c + 1) s1 = (res, j, c', t)"
        using 1(2) [unfolded unf(1) e prod.case pos(3)] pos(1,2) by simp
      from 1(1) [OF e [symmetric] _ _ len, unfolded pos(3)] this pos
      have IH: "case ats_parse tbl (ats_step tbl i) of None \<Rightarrow> res = SC_ERROR
        | Some (cs, e) \<Rightarrow> if distinct (map fst cs) \<and> (\<forall>n \<in> fst ` set cs. dup_of s1 n = SC_DUP_TEST_UNUSED)
            then res = 0 \<and> c' = c + 1 + length cs else res = SC_ERROR" by blast
      have parse: "ats_parse tbl i = map_option (apfst ((#) (n, i))) (ats_parse tbl (ats_step tbl i))"
        using go True by (simp add: unf(2))
      show ?thesis
      proof (cases "ats_parse tbl (ats_step tbl i)")
        case None
        then show ?thesis using IH parse by simp
      next
        case (Some p)
        obtain cs e where p: "p = (cs, e)" by fastforce
        have "(\<forall>m \<in> fst ` set cs. dup_of s1 m = SC_DUP_TEST_UNUSED) \<longleftrightarrow> n \<notin> fst ` set cs \<and> (\<forall>m \<in> fst ` set cs. dup_of s m = SC_DUP_TEST_UNUSED)"
          using used by (auto simp: dup)
        then show ?thesis using IH True by (auto simp: parse Some p)
      qed
    next
      case False
      then have "fst (SC_VerifyAtsEntry tbl i SC_ATS_BUFF_SIZE32 s) = SC_ERROR" using entry by (simp split: if_splits)
      then have "res = SC_ERROR" using 1(2) by (auto simp: unf(1) split: prod.splits)
      then show ?thesis using False go by (auto simp: unf(2) split: option.split)
    qed
  qed
qed

lemma ats_validate_iff: "fst (SC_ValidateAts tbl s) = 0 \<longleftrightarrow> (\<exists>cs e. ats_sequence tbl cs e)"
proof -
  define s1 where "s1 = s\<lparr>AtsDupTestArray := replicate SC_MAX_ATS_CMDS SC_DUP_TEST_UNUSED\<rparr>"
  obtain res j c t where run: "verify_entries tbl SC_ATS_BUFF_SIZE32 0 0 s1 = (res, j, c, t)"
    using prod_cases4 by blast
  have err: "SC_ERROR \<noteq> 0" by (simp add: sc_const)
  have unused: "dup_of s1 n = SC_DUP_TEST_UNUSED" if "SC_AtsCommandNumIsValid n" for n
    using that by (simp add: dup_of_def s1_def number_less)
  have val: "fst (SC_ValidateAts tbl s) = 0 \<longleftrightarrow> res = 0 \<and> c \<noteq> 0"
    using err by (simp add: SC_ValidateAts_def SC_VerifyAtsTable_def s1_def [symmetric] run)
  have "length (AtsDupTestArray s1) = SC_MAX_ATS_CMDS" by (simp add: s1_def)
  note vp = verify_parse [OF run this]
  show ?thesis
  proof (cases "ats_parse tbl 0")
    case None
    then show ?thesis using vp val err by (simp add: ats_sequence_def)
  next
    case (Some p)
    obtain cs e where p: "p = (cs, e)" by fastforce
    have "\<forall>n \<in> fst ` set cs. dup_of s1 n = SC_DUP_TEST_UNUSED"
      using unused parse_numbers [of tbl 0 cs e] Some p by auto
    then show ?thesis using vp val err by (auto simp: ats_sequence_def Some p split: if_splits)
  qed
qed

end
