(* ===== verification/Sc_Load.thy ===== *)
theory Sc_Load
  imports Sc_Table
begin

section \<open>Stored commands: what loading a sequence leaves\<close>

text \<open>
  For each command number a sequence has a status and an offset, and beside them the list in the order of the
  times. Loading clears them, enters the commands of the table one by one, and builds the list, or clears them
  again if the table is not good.
\<close>

definition ats_shape :: "sc \<Rightarrow> uint16 \<Rightarrow> bool" where
  "ats_shape s a \<longleftrightarrow> SC_AtsIndexIsValid a \<and> unat a < length (AtsInfo s)
     \<and> unat a < length (AtsCmdStatus s) \<and> length (AtsCmdStatus s ! unat a) = SC_MAX_ATS_CMDS
     \<and> unat a < length (AtsCmdIndexBuffer s) \<and> length (AtsCmdIndexBuffer s ! unat a) = SC_MAX_ATS_CMDS
     \<and> unat a < length (AtsTimeIndexBuffer s) \<and> length (order_of s a) = SC_MAX_ATS_CMDS"

definition status_of :: "sc \<Rightarrow> uint16 \<Rightarrow> uint16 \<Rightarrow> SC_Status" where
  "status_of s a n = AtsCmdStatus s ! unat a ! unat (SC_CommandNumToIndex n)"

definition offset_of :: "sc \<Rightarrow> uint16 \<Rightarrow> uint16 \<Rightarrow> uint16" where
  "offset_of s a n = AtsCmdIndexBuffer s ! unat a ! unat (SC_CommandNumToIndex n)"

subsection \<open>Entering the commands\<close>

lemma load_one:
  fixes s :: sc and a n x :: uint16
  assumes "ats_shape s a" "SC_AtsCommandNumIsValid n"
  defines "t \<equiv> load_command a (SC_CommandNumToIndex n) x s"
  shows "ats_shape t a" "status_of t a m = (if m = n then SC_Status_LOADED else status_of s a m)"
    "offset_of t a m = (if m = n then x else offset_of s a m)" "order_of t a = order_of s a" "AtsTbl t = AtsTbl s"
    "AtsInfo t ! unat a = (AtsInfo s ! unat a)\<lparr>NumberOfCommands := NumberOfCommands (AtsInfo s ! unat a) + 1\<rparr>"
  using assms number_eq [of m n]
  by (auto simp: load_command_def ats_shape_def status_of_def offset_of_def number_less nth_list_update)

definition load_all :: "uint16 \<Rightarrow> (uint16 \<times> nat) list \<Rightarrow> sc \<Rightarrow> sc" where
  "load_all a cs = fold (\<lambda>(n, off). load_command a (SC_CommandNumToIndex n) (of_nat off)) cs"

lemma load_all:
  assumes "ats_shape s a" "\<forall>(n, i) \<in> set cs. SC_AtsCommandNumIsValid n"
  shows "ats_shape (load_all a cs s) a"
    "status_of (load_all a cs s) a m = (if m \<in> fst ` set cs then SC_Status_LOADED else status_of s a m)"
    "order_of (load_all a cs s) a = order_of s a" "AtsTbl (load_all a cs s) = AtsTbl s"
    "AtsInfo (load_all a cs s) ! unat a =
       (AtsInfo s ! unat a)\<lparr>NumberOfCommands := NumberOfCommands (AtsInfo s ! unat a) + of_nat (length cs)\<rparr>"
  using assms
  by (induction cs arbitrary: s) (auto simp: load_all_def load_one split: prod.splits)

lemma load_all_offset:
  assumes "ats_shape s a" "\<forall>(n, i) \<in> set cs. SC_AtsCommandNumIsValid n" "distinct (map fst cs)"
  shows "offset_of (load_all a cs s) a m = (case map_of cs m of Some i \<Rightarrow> of_nat i | None \<Rightarrow> offset_of s a m)"
  using assms
proof (induction cs arbitrary: s)
  case (Cons c cs)
  obtain n i where c: "c = (n, i)" by fastforce
  define s1 where "s1 = load_command a (SC_CommandNumToIndex n) (of_nat i) s"
  have v: "SC_AtsCommandNumIsValid n" using Cons.prems(2) by (simp add: c)
  have IH: "offset_of (load_all a cs s1) a m = (case map_of cs m of Some i \<Rightarrow> of_nat i | None \<Rightarrow> offset_of s1 a m)"
    using Cons.prems load_one(1) [OF Cons.prems(1) v] by (intro Cons.IH) (simp_all add: s1_def)
  have "map_of cs n = None" using Cons.prems(3) by (simp add: c map_of_eq_None_iff)
  then show ?case
    using IH load_one(3) [OF Cons.prems(1) v] by (auto simp: load_all_def c s1_def split: option.split)
qed (simp add: load_all_def)

lemma load_parse:
  assumes "load_entries a off s = (ok, off', t)" "ats_shape s a"
  shows "case ats_parse (AtsTbl s ! unat a) (unat off) of None \<Rightarrow> \<not> ok
    | Some (cs, e) \<Rightarrow> if distinct (map fst cs) \<and> (\<forall>n \<in> fst ` set cs. status_of s a n = SC_Status_EMPTY)
        then ok \<and> unat off' = e \<and> t = load_all a cs s else \<not> ok"
  using assms
proof (induction a off s arbitrary: ok off' t rule: load_entries.induct)
  case (1 a off s)
  define tbl i n where "tbl = AtsTbl s ! unat a" and "i = unat off" and "n = ats_number (table_entry tbl i)"
  define k where "k = msg_size (ats_msg (table_entry tbl i))"
  define nx where "nx = SC_EntryOffsetAdvance off (k + of_nat SC_ATS_HEADER_SIZE)"
  have e: "SC_GetAtsEntryAtOffset a off s = table_entry tbl i" by (simp add: SC_GetAtsEntryAtOffset_def tbl_def i_def)
  note unf = load_entries.simps [of a off s, unfolded e Let_def, folded n_def k_def, folded nx_def]
    ats_parse.simps [of tbl i, folded n_def]
  show ?case
  proof (cases "SC_ATS_BUFF_SIZE32 \<le> i \<or> n = 0")
    case True
    then have "ats_parse tbl i = Some ([], i)" by (simp add: unf(2))
    moreover have "ok \<and> off' = off \<and> t = s"
      using 1(2) True by (auto simp: unf(1) SC_IDX_WITHIN_LIMIT_def i_def not_le split: if_splits)
    ultimately show ?thesis by (simp add: tbl_def [symmetric] i_def [symmetric] load_all_def)
  next
    case go: False
    then have i: "i < SC_ATS_BUFF_SIZE32" "n \<noteq> 0" by auto
    have nx: "unat nx = ats_step tbl i" if "k \<le> SC_PACKET_MAX_SIZE"
      using advance_ats [OF that, of off] i by (simp add: nx_def ats_step_def k_def i_def)
    have fits: "ats_fits tbl i \<longleftrightarrow> SC_AtsCommandNumIsValid n \<and> SC_IDX_WITHIN_LIMIT off (1 + (SC_ATS_BUFF_SIZE32 - SC_ATS_HDR_WORDS))
        \<and> SC_PACKET_MIN_SIZE \<le> k \<and> k \<le> SC_PACKET_MAX_SIZE \<and> SC_IDX_WITHIN_LIMIT nx (1 + SC_ATS_BUFF_SIZE32)"
      unfolding ats_fits_def Let_def n_def [symmetric] k_def [symmetric] using nx
      by (auto simp: SC_IDX_WITHIN_LIMIT_def i_def [symmetric] sc_const)
    have status: "SC_GetAtsStatusEntryForCommand a (SC_CommandNumToIndex n) s = status_of s a n"
      by (simp add: SC_GetAtsStatusEntryForCommand_def status_of_def)
    show ?thesis
    proof (cases "ats_fits tbl i \<and> status_of s a n = SC_Status_EMPTY")
      case True
      define s1 where "s1 = load_command a (SC_CommandNumToIndex n) off s"
      have valid: "SC_AtsCommandNumIsValid n" using True fits by simp
      note one = load_one [OF 1(3) valid, of off, folded s1_def]
      have step: "load_entries a nx s1 = (ok, off', t)"
        using 1(2) True i fits status by (simp add: unf(1) s1_def SC_IDX_WITHIN_LIMIT_def i_def)
      have un: "unat nx = ats_step tbl i" using nx True fits by blast
      have IH: "case ats_parse tbl (ats_step tbl i) of None \<Rightarrow> \<not> ok
        | Some (cs, e) \<Rightarrow> if distinct (map fst cs) \<and> (\<forall>m \<in> fst ` set cs. status_of s1 a m = SC_Status_EMPTY)
            then ok \<and> unat off' = e \<and> t = load_all a cs s1 else \<not> ok"
        using 1(1) [OF _ refl refl refl refl refl, unfolded e, folded n_def k_def, folded nx_def s1_def] step one(1,5) un True fits i status
        by (simp add: tbl_def SC_IDX_WITHIN_LIMIT_def i_def)
      have parse: "ats_parse tbl i = map_option (apfst ((#) (n, i))) (ats_parse tbl (ats_step tbl i))"
        using go True by (simp add: unf(2))
      show ?thesis
      proof (cases "ats_parse tbl (ats_step tbl i)")
        case None
        then show ?thesis using IH parse by (simp add: tbl_def [symmetric] i_def [symmetric])
      next
        case (Some p)
        obtain cs e where p: "p = (cs, e)" by fastforce
        have "(\<forall>m \<in> fst ` set cs. status_of s1 a m = SC_Status_EMPTY) \<longleftrightarrow>
            n \<notin> fst ` set cs \<and> (\<forall>m \<in> fst ` set cs. status_of s a m = SC_Status_EMPTY)"
          using one(2) by auto
        moreover have "load_all a ((n, i) # cs) s = load_all a cs s1" by (simp add: load_all_def s1_def i_def)
        ultimately show ?thesis
          using IH True by (auto simp: tbl_def [symmetric] i_def [symmetric] parse Some p)
      qed
    next
      case False
      then have "\<not> ok"
        using 1(2) i fits status by (auto simp: unf(1) SC_IDX_WITHIN_LIMIT_def i_def split: if_splits)
      then show ?thesis using False go by (auto simp: tbl_def [symmetric] i_def [symmetric] unf(2) split: option.split)
    qed
  qed
qed

lemma load_shape: "load_entries a off s = (ok, off', t) \<Longrightarrow> ats_shape s a \<Longrightarrow> ats_shape t a"
proof (induction a off s rule: load_entries.induct)
  case (1 a off s)
  have one: "ats_shape (load_command a (SC_CommandNumToIndex (ats_number (SC_GetAtsEntryAtOffset a off s))) off s) a"
    if "SC_AtsCommandNumIsValid (ats_number (SC_GetAtsEntryAtOffset a off s))"
    using load_one(1) [OF 1(3) that] by simp
  show ?case
    using 1(2,3) 1(1) [OF _ refl refl refl refl refl] one
    by (subst (asm) load_entries.simps) (auto simp: Let_def split: if_splits)
qed

subsection \<open>Clearing\<close>

text \<open>A sequence with nothing in it.\<close>

definition ats_empty :: "sc \<Rightarrow> uint16 \<Rightarrow> bool" where
  "ats_empty s a \<longleftrightarrow> NumberOfCommands (AtsInfo s ! unat a) = 0 \<and> AtsSize (AtsInfo s ! unat a) = 0
     \<and> order_of s a = replicate SC_MAX_ATS_CMDS 0
     \<and> (\<forall>n. SC_AtsCommandNumIsValid n \<longrightarrow> status_of s a n = SC_Status_EMPTY \<and> offset_of s a n = SC_ENTRY_OFFSET_INVALID)"

lemma clear_loop:
  assumes "ats_shape s a" "k \<le> SC_MAX_ATS_CMDS"
  defines "t \<equiv> fold (clear_command a) [0..<k] s"
  shows "ats_shape t a \<and> AtsTbl t = AtsTbl s \<and> order_of t a = replicate k 0 @ drop k (order_of s a)
    \<and> (\<forall>j < k. AtsCmdStatus t ! unat a ! j = SC_Status_EMPTY \<and> AtsCmdIndexBuffer t ! unat a ! j = SC_ENTRY_OFFSET_INVALID)"
  using assms(2) unfolding t_def
proof (induction k)
  case 0
  then show ?case using assms(1) by simp
next
  case (Suc k)
  define u where "u = fold (clear_command a) [0..<k] s"
  have u: "ats_shape u a" "AtsTbl u = AtsTbl s" "order_of u a = replicate k 0 @ drop k (order_of s a)"
    "\<forall>j < k. AtsCmdStatus u ! unat a ! j = SC_Status_EMPTY \<and> AtsCmdIndexBuffer u ! unat a ! j = SC_ENTRY_OFFSET_INVALID"
    using Suc by (simp_all add: u_def)
  have k: "k < 1000" using Suc.prems by (simp add: sc_const)
  then have uk: "unat (of_nat k :: uint16) = k" by (simp add: unat_of_nat_small)
  have len: "length (order_of s a) = 1000" using assms(1) by (simp add: ats_shape_def sc_const)
  have "(replicate k 0 @ drop k (order_of s a))[k := 0] = replicate (Suc k) 0 @ drop (Suc k) (order_of s a)"
    using k len by (simp add: list_update_append replicate_append_same [symmetric] Cons_nth_drop_Suc [symmetric])
  moreover have step: "fold (clear_command a) [0..<Suc k] s = clear_command a k u" by (simp add: u_def)
  ultimately show ?case
    using u k unfolding step
    by (simp add: clear_command_def uk ats_shape_def SC_INVALID_CMD_NUMBER_def nth_list_update less_Suc_eq SC_MAX_ATS_CMDS_def
        len)
qed

lemma init_ats:
  assumes "ats_shape s a"
  defines "t \<equiv> SC_InitAtsTables a s"
  shows "ats_shape t a" "ats_empty t a" "AtsTbl t = AtsTbl s"
proof -
  define u where "u = fold (clear_command a) [0..<SC_MAX_ATS_CMDS] s"
  note u = clear_loop [OF assms(1) order.refl, folded u_def]
  have t: "t = upd_ats a (\<lambda>i. i\<lparr>AtsSize := 0, NumberOfCommands := 0\<rparr>) u"
    using assms(1) by (simp add: t_def SC_InitAtsTables_def ats_shape_def u_def)
  have len: "length (order_of s a) = SC_MAX_ATS_CMDS" using assms(1) by (simp add: ats_shape_def)
  show "ats_shape t a" "AtsTbl t = AtsTbl s" using u by (simp_all add: t ats_shape_def len)
  show "ats_empty t a"
    using u by (simp add: t ats_empty_def ats_shape_def status_of_def offset_of_def number_less len)
qed

subsection \<open>Loading\<close>

text \<open>The commands of a table, with their numbers in the order of their times.\<close>

definition ats_loaded :: "sc \<Rightarrow> uint16 \<Rightarrow> uint32 \<Rightarrow> (uint16 \<times> nat) list \<Rightarrow> nat \<Rightarrow> bool" where
  "ats_loaded s a base cs e \<longleftrightarrow>
     NumberOfCommands (AtsInfo s ! unat a) = of_nat (length cs) \<and> AtsSize (AtsInfo s ! unat a) = of_nat e
     \<and> (\<forall>n. SC_AtsCommandNumIsValid n \<longrightarrow>
          status_of s a n = (if n \<in> fst ` set cs then SC_Status_LOADED else SC_Status_EMPTY) \<and>
          offset_of s a n = (case map_of cs n of Some i \<Rightarrow> of_nat i | None \<Rightarrow> SC_ENTRY_OFFSET_INVALID))
     \<and> (\<exists>vs. order_of s a = vs @ replicate (SC_MAX_ATS_CMDS - length cs) 0 \<and> mset vs = mset (map fst cs)
          \<and> sorted (map (\<lambda>n. unat (cmd_time s a n - base)) vs))"

lemma valid_numbers_card: "card {n. SC_AtsCommandNumIsValid n} \<le> SC_MAX_ATS_CMDS"
proof -
  have "inj_on (\<lambda>n. unat (SC_CommandNumToIndex n)) {n. SC_AtsCommandNumIsValid n}" by (simp add: inj_on_def number_eq)
  moreover have "(\<lambda>n. unat (SC_CommandNumToIndex n)) ` {n. SC_AtsCommandNumIsValid n} \<subseteq> {..<SC_MAX_ATS_CMDS}"
    by (auto simp: number_less)
  ultimately show ?thesis by (metis card_inj_on_le finite_lessThan card_lessThan)
qed

lemma sequence_length: "ats_sequence tbl cs e \<Longrightarrow> length cs \<le> SC_MAX_ATS_CMDS"
proof -
  assume s: "ats_sequence tbl cs e"
  then have "fst ` set cs \<subseteq> {n. SC_AtsCommandNumIsValid n}" using parse_numbers [of tbl 0 cs e] by (auto simp: ats_sequence_def)
  then have "card (fst ` set cs) \<le> SC_MAX_ATS_CMDS"
    using valid_numbers_card by (meson card_mono finite order_trans)
  then show ?thesis using s by (metis ats_sequence_def distinct_card length_map list.set_map)
qed

lemma numbers_below_offsets:
  "set (numbers_below s a SC_MAX_ATS_CMDS) = {n. SC_AtsCommandNumIsValid n \<and> offset_of s a n \<noteq> SC_ENTRY_OFFSET_INVALID}"
  "distinct (numbers_below s a SC_MAX_ATS_CMDS)"
proof -
  have num: "SC_CommandNumToIndex (SC_CommandIndexToNum i) = i" for i
    by (simp add: SC_CommandNumToIndex_def SC_CommandIndexToNum_def)
  have un: "unat (of_nat k :: uint16) = k" if "k < SC_MAX_ATS_CMDS" for k
    using that by (simp add: sc_const unat_of_nat_small)
  have mem: "n \<in> numbers" if "SC_AtsCommandNumIsValid n" "offset_of s a n \<noteq> SC_ENTRY_OFFSET_INVALID"
      and "numbers = (\<lambda>i. SC_CommandIndexToNum (of_nat i)) ` {i. i < SC_MAX_ATS_CMDS \<and> AtsCmdIndexBuffer s ! unat a ! i \<noteq> SC_ENTRY_OFFSET_INVALID}"
    for n numbers
    using that by (auto simp: number_less offset_of_def SC_CommandNumToIndex_def SC_CommandIndexToNum_def
        intro!: image_eqI [of _ _ "unat (SC_CommandNumToIndex n)"])
  show "set (numbers_below s a SC_MAX_ATS_CMDS) = {n. SC_AtsCommandNumIsValid n \<and> offset_of s a n \<noteq> SC_ENTRY_OFFSET_INVALID}"
    using mem un by (auto simp: numbers_below_def number_less offset_of_def num)
  show "distinct (numbers_below s a SC_MAX_ATS_CMDS)"
    unfolding numbers_below_def distinct_map
    by (auto simp: inj_on_def SC_CommandIndexToNum_def un dest!: arg_cong [where f = unat])
qed

lemma insert_info: "insert_slot a t k s = (j, s') \<Longrightarrow> AtsInfo s' = AtsInfo s"
  by (induction k arbitrary: s) (auto simp: Let_def split: if_splits)

lemma build_info: "AtsInfo (SC_BuildTimeIndexTable a s) = AtsInfo s"
proof -
  have ins: "AtsInfo (SC_Insert a c n s) = AtsInfo s" for c n s
    by (auto simp: SC_Insert_def Let_def dest!: insert_info split: prod.split)
  have "AtsInfo (snd (fold (index_command a) is (n, s))) = AtsInfo s" for "is" n s
    by (induction "is" arbitrary: n s) (simp_all add: index_command_def Let_def ins)
  then show ?thesis by (simp add: SC_BuildTimeIndexTable_def)
qed

text \<open>A good table: all commands are entered into the cleared sequence, then the list is built.\<close>

lemma load_good:
  assumes shape: "ats_shape s a" and seq: "ats_sequence (AtsTbl s ! unat a) cs e"
  defines "t \<equiv> load_all a cs (SC_InitAtsTables a s)"
  shows "SC_LoadAts a s = SC_BuildTimeIndexTable a (upd_ats a (\<lambda>i. i\<lparr>AtsSize := of_nat e\<rparr>) t)"
    "NumberOfCommands (AtsInfo t ! unat a) = of_nat (length cs)" "(of_nat (length cs) :: uint16) \<noteq> 0"
proof -
  define s0 where "s0 = SC_InitAtsTables a s"
  note s0 = init_ats [OF shape, folded s0_def]
  have valid: "\<forall>(n, i) \<in> set cs. SC_AtsCommandNumIsValid n"
    using seq parse_numbers [of "AtsTbl s ! unat a" 0 cs e] by (auto simp: ats_sequence_def)
  have dist: "distinct (map fst cs)" "cs \<noteq> []" using seq by (simp_all add: ats_sequence_def)
  obtain ok off t' where run: "load_entries a SC_ENTRY_OFFSET_FIRST s0 = (ok, off, t')" using prod_cases3 by blast
  have "\<forall>n \<in> fst ` set cs. status_of s0 a n = SC_Status_EMPTY" using s0(2) valid by (auto simp: ats_empty_def)
  then have "ok" "unat off = e" "t' = load_all a cs s0"
    using load_parse [OF run s0(1)] seq dist by (simp_all add: s0(3) ats_sequence_def SC_ENTRY_OFFSET_FIRST_def)
  then have good: "ok" "unat off = e" "t' = t" by (simp_all add: t_def s0_def)
  show count: "NumberOfCommands (AtsInfo t ! unat a) = of_nat (length cs)"
    using load_all(5) [OF s0(1) valid] s0(2) by (simp add: ats_empty_def t_def s0_def)
  have "length cs < 65536" "0 < length cs" using sequence_length [OF seq] dist(2) by (simp_all add: sc_const)
  then have "unat (of_nat (length cs) :: uint16) \<noteq> 0" by (simp add: unat_of_nat_small)
  then show nz: "(of_nat (length cs) :: uint16) \<noteq> 0" by (metis unat_0)
  have "(ucast off :: uint32) = of_nat e" by (simp flip: good(2))
  then show "SC_LoadAts a s = SC_BuildTimeIndexTable a (upd_ats a (\<lambda>i. i\<lparr>AtsSize := of_nat e\<rparr>) t)"
    using shape run good(1,3) count nz by (simp add: SC_LoadAts_def ats_shape_def s0_def [symmetric] word_gt_0)
qed

lemma load_ats:
  assumes shape: "ats_shape s a" and seq: "ats_sequence (AtsTbl s ! unat a) cs e"
    and span: "\<forall>(n, i) \<in> set cs. unat (SC_GetAtsEntryTime (table_entry (AtsTbl s ! unat a) i) - base) < 2 ^ 31"
  shows "ats_loaded (SC_LoadAts a s) a base cs e"
proof -
  define s0 t where "s0 = SC_InitAtsTables a s" and "t = load_all a cs s0"
  note s0 = init_ats [OF shape, folded s0_def]
  note good = load_good [OF shape seq, folded s0_def, folded t_def]
  have valid: "\<forall>(n, i) \<in> set cs. SC_AtsCommandNumIsValid n" "\<And>n i. (n, i) \<in> set cs \<Longrightarrow> i < 4000"
    using seq parse_numbers [of "AtsTbl s ! unat a" 0 cs e] by (auto simp: ats_sequence_def sc_const)
  have dist: "distinct (map fst cs)" "cs \<noteq> []" using seq by (simp_all add: ats_sequence_def)
  note all = load_all [OF s0(1) valid(1), folded t_def]
  have off_t: "offset_of t a m = (case map_of cs m of Some i \<Rightarrow> of_nat i | None \<Rightarrow> offset_of s0 a m)" for m
    using load_all_offset [OF s0(1) valid(1) dist(1)] by (simp add: t_def)
  define u where "u = upd_ats a (\<lambda>i. i\<lparr>AtsSize := of_nat e\<rparr>) t"
  have load: "SC_LoadAts a s = SC_BuildTimeIndexTable a u" by (simp add: good(1) u_def)
  have ua: "SC_AtsIndexIsValid a" "unat a < length (AtsTimeIndexBuffer u)" "length (order_of u a) = SC_MAX_ATS_CMDS"
    "unat a < length (AtsInfo t)" using all(1) by (simp_all add: u_def ats_shape_def)
  have offs: "offset_of t a n \<noteq> SC_ENTRY_OFFSET_INVALID \<longleftrightarrow> n \<in> fst ` set cs" if "SC_AtsCommandNumIsValid n" for n
  proof (cases "map_of cs n")
    case None
    then have "n \<notin> fst ` set cs" by (simp add: map_of_eq_None_iff)
    then show ?thesis using that s0(2) by (simp add: off_t ats_empty_def None)
  next
    case (Some i)
    then have "(n, i) \<in> set cs" by (rule map_of_SomeD)
    moreover from this have "unat (of_nat i :: uint16) = i" using valid(2) by (intro unat_of_nat_small) fastforce
    then have "(of_nat i :: uint16) \<noteq> SC_ENTRY_OFFSET_INVALID"
      using valid(2) [OF \<open>(n, i) \<in> set cs\<close>] by (auto simp: SC_ENTRY_OFFSET_INVALID_def unsigned_minus_1_eq_mask mask_eq_exp_minus_1)
    ultimately show ?thesis using Some by (force simp: off_t)
  qed
  have num_u: "set (numbers_below u a SC_MAX_ATS_CMDS) = fst ` set cs"
  proof -
    have e: "offset_of u a n = offset_of t a n" for n by (simp add: u_def offset_of_def)
    have v: "n \<in> fst ` set cs \<longrightarrow> SC_AtsCommandNumIsValid n" for n using valid(1) by auto
    have "n \<in> set (numbers_below u a SC_MAX_ATS_CMDS) \<longleftrightarrow> n \<in> fst ` set cs" for n
      unfolding numbers_below_offsets(1) using offs [of n] v [of n] e [of n] by (cases "SC_AtsCommandNumIsValid n") (simp_all only: mem_Collect_eq simp_thms)
    then show ?thesis by (rule set_eqI)
  qed
  have time: "cmd_time u a n = SC_GetAtsEntryTime (table_entry (AtsTbl s ! unat a) i)" if "(n, i) \<in> set cs" for n i
  proof -
    have "offset_of u a n = of_nat i" using that dist(1) off_t by (simp add: u_def offset_of_def)
    moreover have "unat (of_nat i :: uint16) = i" using valid(2) [OF that] by (intro unat_of_nat_small) simp
    ultimately show ?thesis
      using all(4) by (simp add: cmd_time_def ats_cmd_time_def SC_GetAtsEntryOffsetForCmd_def SC_GetAtsEntryAtOffset_def
          offset_of_def u_def s0(3))
  qed
  have "within_span u a base" using span time by (fastforce simp: within_span_def num_u)
  from build_list [OF ua(1-3) this] obtain vs where vs:
    "SC_BuildTimeIndexTable a u = set_order a (vs @ replicate (SC_MAX_ATS_CMDS - length vs) 0) u"
    "mset vs = mset (numbers_below u a SC_MAX_ATS_CMDS)" "in_order u a base vs" by blast
  have ms: "mset vs = mset (map fst cs)"
    using vs(2) num_u dist(1) numbers_below_offsets(2) [of u a] by (metis list.set_map set_eq_iff_mset_eq_distinct)
  then have len: "length vs = length cs" by (metis length_map size_mset)
  show ?thesis
    unfolding ats_loaded_def load vs(1)
    using ua all(2) s0(2) off_t vs(3) ms len good(2)
    by (simp add: in_order_def) (simp add: set_order_def u_def status_of_def offset_of_def ats_empty_def split: option.split)
qed

lemma load_count:
  assumes shape: "ats_shape s a" and seq: "ats_sequence (AtsTbl s ! unat a) cs e"
  shows "NumberOfCommands (AtsInfo (SC_LoadAts a s) ! unat a) = of_nat (length cs)"
    "NumberOfCommands (AtsInfo (SC_LoadAts a s) ! unat a) \<noteq> 0"
proof -
  have "\<forall>(n, i) \<in> set cs. SC_AtsCommandNumIsValid n"
    using seq parse_numbers [of "AtsTbl s ! unat a" 0 cs e] by (auto simp: ats_sequence_def)
  from load_all(1) [OF init_ats(1) [OF shape] this]
  show "NumberOfCommands (AtsInfo (SC_LoadAts a s) ! unat a) = of_nat (length cs)"
    by (simp add: load_good [OF shape seq] build_info ats_shape_def)
  then show "NumberOfCommands (AtsInfo (SC_LoadAts a s) ! unat a) \<noteq> 0" using load_good(3) [OF shape seq] by simp
qed

lemma load_bad:
  assumes shape: "ats_shape s a" and bad: "\<nexists>cs e. ats_sequence (AtsTbl s ! unat a) cs e"
  shows "ats_empty (SC_LoadAts a s) a"
proof -
  define s0 where "s0 = SC_InitAtsTables a s"
  note s0 = init_ats [OF shape, folded s0_def]
  obtain ok off t where run: "load_entries a SC_ENTRY_OFFSET_FIRST s0 = (ok, off, t)" using prod_cases3 by blast
  have "\<not> (ok \<and> 0 < NumberOfCommands (AtsInfo t ! unat a))"
  proof
    assume ok: "ok \<and> 0 < NumberOfCommands (AtsInfo t ! unat a)"
    then obtain cs e where p: "ats_parse (AtsTbl s ! unat a) 0 = Some (cs, e)" "distinct (map fst cs)" "t = load_all a cs s0"
      using load_parse [OF run s0(1)] by (auto simp: s0(3) SC_ENTRY_OFFSET_FIRST_def split: option.splits if_splits)
    have "cs = []" using bad p by (auto simp: ats_sequence_def)
    then show False using ok s0(2) p(3) by (simp add: load_all_def ats_empty_def)
  qed
  then have "SC_LoadAts a s = SC_InitAtsTables a t"
    using shape run by (auto simp: SC_LoadAts_def ats_shape_def s0_def [symmetric])
  then show ?thesis using init_ats(2) [OF load_shape [OF run s0(1)]] by simp
qed

end
