(* ===== verification/Sc_Ats_Properties.thy ===== *)
theory Sc_Ats_Properties
  imports Sc_Load Sc_App
begin

section \<open>Stored commands: properties of absolute time sequences\<close>

text \<open>
  What is validated is what is loaded, and what is loaded is in the order of its times. The witnesses load a
  table of two commands, the later one first.
\<close>

definition demo_ats :: "uint8 list" where
  "demo_ats = [0, 0, 2, 0, 0, 0, 20, 0] @ [0x18, 0x06, 0xC0, 0, 0, 1, 3, 0x23] @ [0, 0, 1, 0, 0, 0, 10, 0] @ [0x18, 0x06, 0xC0, 0, 0, 1, 4, 0x24]
     @ replicate 15968 0"

lemma demo_entries:
  "ats_number (table_entry demo_ats 0) = 2" "ats_number (table_entry demo_ats 4) = 1" "ats_number (table_entry demo_ats 8) = 0"
  "msg_size (ats_msg (table_entry demo_ats 0)) = 8" "msg_size (ats_msg (table_entry demo_ats 4)) = 8"
  "SC_GetAtsEntryTime (table_entry demo_ats 0) = 20" "SC_GetAtsEntryTime (table_entry demo_ats 4) = 10"
  by (simp_all add: demo_ats_def table_entry_def ats_number_def le16_def ats_msg_def msg_size_def CFE_MSG_GetSize_def
      CFE_MSG_SIZE_OFFSET_def SC_ATS_HEADER_SIZE_def SC_GetAtsEntryTime_def)

lemma demo_parse: "ats_parse demo_ats 0 = Some ([(2, 0), (1, 4)], 8)"
proof -
  have step: "ats_step demo_ats 0 = 4" "ats_step demo_ats 4 = 8" by (simp_all add: ats_step_def demo_entries)
  have "ats_fits demo_ats 0" "ats_fits demo_ats 4"
    by (simp_all add: ats_fits_def demo_entries step Let_def number_less SC_CommandNumToIndex_def sc_const)
  then show ?thesis
    by (simp add: ats_parse.simps [of demo_ats 0] ats_parse.simps [of demo_ats 4] ats_parse.simps [of demo_ats 8] demo_entries step sc_const)
qed

definition demo_loading :: sc where
  "demo_loading = sc_zero\<lparr>AtsTbl := [demo_ats, []]\<rparr>"

lemma demo_shape: "ats_shape demo_loading 0"
  by (simp add: ats_shape_def demo_loading_def sc_zero_def SC_AtsIndexIsValid_def SC_IDX_WITHIN_LIMIT_def SC_NUMBER_OF_ATS_def)

lemma demo_sequence: "ats_sequence (AtsTbl demo_loading ! unat (0 :: uint16)) [(2, 0), (1, 4)] 8"
  by (simp add: ats_sequence_def demo_loading_def demo_parse)

subsection \<open>Validation\<close>

text \<open>
  C39 The validation accepts a table if and only if its entries, up to the first with the number 0 or the end of the
  table, are a sequence of at least one command: valid and different numbers, valid lengths, nothing beyond the
  end. Loading, which checks the same with another loop, accepts exactly these tables: it then counts all their
  commands, and for any other table it leaves the sequence empty, with every status, offset and list entry
  cleared.
\<close>

theorem ats_validation:
  assumes "ats_shape s a"
  shows "(fst (SC_ValidateAts (AtsTbl s ! unat a) s') = 0 \<longleftrightarrow> (\<exists>cs e. ats_sequence (AtsTbl s ! unat a) cs e)) \<and>
    (fst (SC_ValidateAts (AtsTbl s ! unat a) s') = 0 \<longleftrightarrow> NumberOfCommands (AtsInfo (SC_LoadAts a s) ! unat a) \<noteq> 0) \<and>
    (\<forall>cs e. ats_sequence (AtsTbl s ! unat a) cs e \<longrightarrow> unat (NumberOfCommands (AtsInfo (SC_LoadAts a s) ! unat a)) = length cs) \<and>
    (fst (SC_ValidateAts (AtsTbl s ! unat a) s') = 0 \<or> ats_empty (SC_LoadAts a s) a)"
proof -
  have len: "unat (of_nat (length cs) :: uint16) = length cs" if "ats_sequence (AtsTbl s ! unat a) cs e" for cs e
    using sequence_length [OF that] by (simp add: unat_of_nat_small sc_const)
  show ?thesis
  proof (cases "\<exists>cs e. ats_sequence (AtsTbl s ! unat a) cs e")
    case True
    then have "NumberOfCommands (AtsInfo (SC_LoadAts a s) ! unat a) \<noteq> 0" using load_count(2) [OF assms] by blast
    moreover have "unat (NumberOfCommands (AtsInfo (SC_LoadAts a s) ! unat a)) = length cs"
      if "ats_sequence (AtsTbl s ! unat a) cs e" for cs e
      using load_count(1) [OF assms that] len [OF that] by simp
    ultimately show ?thesis using True ats_validate_iff [of "AtsTbl s ! unat a" s'] by blast
  next
    case False
    then have "ats_empty (SC_LoadAts a s) a" by (rule load_bad [OF assms])
    then show ?thesis using False ats_validate_iff [of "AtsTbl s ! unat a" s'] by (auto simp: ats_empty_def)
  qed
qed

theorem ats_validation_witness:
  "fst (SC_ValidateAts (AtsTbl demo_loading ! unat (0 :: uint16)) sc_zero) = 0 \<and> unat (NumberOfCommands (AtsInfo (SC_LoadAts 0 demo_loading) ! unat (0 :: uint16))) = 2"
proof -
  note v = ats_validation [OF demo_shape, of sc_zero]
  have "fst (SC_ValidateAts (AtsTbl demo_loading ! unat (0 :: uint16)) sc_zero) = 0"
    using v demo_sequence by blast
  moreover have "unat (NumberOfCommands (AtsInfo (SC_LoadAts 0 demo_loading) ! unat (0 :: uint16))) = length [(2 :: uint16, 0 :: nat), (1, 4)]"
    using v demo_sequence by blast
  ultimately show ?thesis by simp
qed

subsection \<open>Loading\<close>

text \<open>
  C40 Loading a good table enters each command under its number with the status loaded and the offset of its entry,
  leaves all other numbers empty, records the size of the table, and makes the list of the command numbers: a
  permutation of the numbers of the table, in the order of their times, followed by zeros. The order is that of
  the seconds from a base, if all times lie within \<open>2 ^ 31\<close> seconds from it.
\<close>

theorem ats_loading:
  assumes "ats_shape s a" "ats_sequence (AtsTbl s ! unat a) cs e"
    and "\<forall>(n, i) \<in> set cs. unat (SC_GetAtsEntryTime (table_entry (AtsTbl s ! unat a) i) - base) < 2 ^ 31"
  shows "ats_loaded (SC_LoadAts a s) a base cs e"
  by (rule load_ats [OF assms])

theorem ats_loading_witness: "ats_loaded (SC_LoadAts 0 demo_loading) 0 0 [(2, 0), (1, 4)] 8"
proof (rule ats_loading [OF demo_shape demo_sequence])
  have "AtsTbl demo_loading ! unat (0 :: uint16) = demo_ats" by (simp add: demo_loading_def)
  then show "\<forall>(n, i) \<in> set [(2 :: uint16, 0), (1, 4)]. unat (SC_GetAtsEntryTime (table_entry (AtsTbl demo_loading ! unat (0 :: uint16)) i) - 0) < 2 ^ 31"
    by (simp add: demo_entries)
qed

end
