(* ===== verification/Spec2Isabelle.thy ===== *)
theory Spec2Isabelle
  imports Resource_Id Pool_Properties Msg_Properties Sbr_Properties Sb_Management Sb_Demo
    Time_Properties Lc_Properties Sc_Properties Sc_Ats_Properties
begin

text \<open>
  \<^bold>\<open>The program.\<close> The repository is a mission build of the core Flight System: the core executive
  (\<open>src/cfe\<close>), the operating system abstraction layer (\<open>src/osal\<close>), the platform support
  (\<open>src/psp\<close>), and applications (\<open>src/apps\<close>). Applications exchange messages over the
  software bus. The development models four parts of it. The bus, from its memory up to its public calls, in
  the default configuration: version 1 message IDs, the direct message map with the hash map beside it, 64
  pipes, 256 routes, 16 destinations for each route, messages of at most 32768 bytes. The time service, from
  the arithmetic of times to the handlers of its task, in the default configuration: TAI, a simulated tone,
  no external source. The limit checker, an application that watches the messages on the bus, from the byte
  level to its main loop, with its default tables of 176 watchpoints and 176 actionpoints. The stored commands,
  an application that sends sequences of commands, at most 8 in each wakeup, from its 64 relative and 2 absolute
  time sequences. The limit checker asks for a sequence with a message, and the stored commands take it from
  the bus. The parts share the types of \<open>Prelude\<close>; the two applications use the message headers of
  \<open>Msg_Header\<close> and the times of \<open>Time_Arith\<close>.

  \<^bold>\<open>The parts and their theories.\<close>

  \<^item> \<open>Prelude\<close>: types of the C code, lemmas on words, lists and stores.
  \<^item> \<open>Resource_Id\<close> (\<open>cfe_resourceid_api.c\<close>): IDs made of a base and a serial number, and the search
    for a free table entry; the locale of tables whose entries are searched.
  \<^item> \<open>Gen_Pool\<close>, \<open>Gen_Pool_Inv\<close> (\<open>cfe_es_generic_pool.c\<close>): the block allocator; its invariant says
    that the descriptors in the pool memory tile the part in use, and that each bucket's list holds the
    free blocks of its size once. \<open>Mem_Pool\<close> (\<open>cfe_es_mempool.c\<close>): pools addressed by memory
    addresses, \<open>mem_rep\<close> saying which addresses are allocated with which size.
    \<open>Pool_Properties\<close> holds the properties.
  \<^item> \<open>Msg_Header\<close>, \<open>Msg_Fields\<close> (\<open>modules/msg\<close>): a message is a list of bytes; the header
    accessors read and write bit fields. \<open>Msg_Properties\<close> refines them to a record of fields.
  \<^item> \<open>Msg_Map\<close>, \<open>Sbr_Route\<close> (\<open>modules/sbr\<close>): the maps from message IDs to routes behind the locale
    of message maps, interpreted for the direct and the hash map, and the table of routes.
    \<open>Sbr_Properties\<close> holds the properties.
  \<^item> \<open>Tracking_List\<close>, \<open>Dest_List\<close>: the two linked structures of the bus, as stores of nodes: the
    circular lists of buffers (\<open>cfe_sb_buf.c\<close>) and the destination lists (\<open>cfe_sb_priv.c\<close>), with
    predicates that relate a store to a list of addresses.
  \<^item> \<open>Os_Queue\<close> (\<open>osapi-queue.c\<close>, \<open>os-impl-queues.c\<close>): the bounded queues that pipes use. A queue may refuse
    to be read and written (\<open>q_fault\<close>) or to be closed (\<open>q_stuck\<close>); this can change between the calls of the bus.
  \<^item> \<open>Sb_Core\<close>, \<open>Sb_Pipe\<close>, \<open>Sb_Txn\<close>, \<open>Sb_Sub\<close> (\<open>modules/sb\<close>): the state of the bus, the record \<open>sb\<close>
    with the fields of \<open>CFE_SB_Global\<close>, the tables it uses, and its operations, one definition for
    each function: buffers, pipes, transactions that send and receive, subscriptions, deletion and
    clean-up, the route and report commands, start-up.
  \<^item> \<open>Time_Arith\<close>, \<open>Time_Print\<close> (\<open>cfe_time_api.c\<close>): arithmetic on times, conversions, the printed
    calendar date. \<open>Time_Ref\<close>, \<open>Time_Tone\<close> (\<open>cfe_time_utils.c\<close>, \<open>cfe_time_tone.c\<close>): the record
    \<open>time_global\<close> with the fields of \<open>CFE_TIME_Global\<close>, the four buffers of reference data, the tone and
    the 1 Hz state machine. \<open>Time_Task\<close> (\<open>cfe_time_task.c\<close>): the command handlers.
    \<open>Time_Properties\<close> holds the properties.
  \<^item> \<open>Lc_Defs\<close>, \<open>Lc_Watch\<close>, \<open>Lc_Hash\<close>, \<open>Lc_Action\<close>, \<open>Lc_Cmds\<close>, \<open>Lc_App\<close> (\<open>src/apps/lc\<close>): the
    record \<open>lc\<close> with the fields of \<open>LC_OperData\<close> and \<open>LC_AppData\<close> and the messages and events sent, the
    evaluation of watchpoints (a \<open>float\<close> is its bits, compared exactly), the hash table of monitored messages, the equations of actionpoints, the
    commands, and start-up with the main loop. \<open>Lc_Properties\<close> holds the properties.
  \<^item> \<open>Sc_Defs\<close>, \<open>Sc_Rts\<close>, \<open>Sc_Loads\<close>, \<open>Sc_Ats\<close>, \<open>Sc_Cmds\<close>, \<open>Sc_App\<close> (\<open>src/apps/sc\<close>): the record \<open>sc\<close>
    with the fields of \<open>SC_OperData\<close> and \<open>SC_AppData\<close>, where a table is its bytes; the commands for relative
    time sequences (\<open>sc_rtsrq.c\<close>, \<open>sc_state.c\<close>), validation and loading (\<open>sc_loads.c\<close>), absolute time sequences
    (\<open>sc_atsrq.c\<close>), the wakeup cycle, tables and dispatch (\<open>sc_cmds.c\<close>, \<open>sc_dispatch.c\<close>), start-up and main
    loop (\<open>sc_app.c\<close>). \<open>Sc_Properties\<close> and \<open>Sc_Ats_Properties\<close> hold the properties.

  \<^bold>\<open>State, effects and errors.\<close> An operation takes the state and returns the state. Pointers are
  addresses; a structure that the code mutates through pointers is a function from addresses to records.
  A status code is a constructor of \<open>CFE_Status\<close>. A loop over a linked structure is a
  \<open>partial_function\<close> on options: \<open>None\<close> means that the call does not return, either because a walk
  would not end or because a receive call blocks. No fuel is used; the retries of a reader of the time and the
  characters of a printed date are bounded in the code. What the code gets from outside is an
  argument: the caller (\<open>sb_caller\<close>: its application, its task, the current time, the mutex), the
  environment of a pipe creation, the failure of a system queue; for the time service the readings of the
  local clock; for the two applications \<open>lc_boot\<close> and \<open>sc_boot\<close>, what the services answer at start-up, and a
  list of \<open>lc_input\<close> or \<open>sc_input\<close>, what the bus, the clock and the tables answer in each round of the main
  loop. What is sent is recorded in the state: the output lists of \<open>lc\<close> and \<open>sc\<close>, the time messages of
  \<open>time_global\<close>.

  \<^bold>\<open>The lemmas.\<close>

  \<^item> \<open>Sb_Inv\<close> defines the invariant of the bus: \<open>core\<close> ties the pool, the two tracking lists, the
    destination lists and the use counts together, \<open>running\<close> and \<open>at_rest\<close> add the tables. \<open>Sb_Own\<close> says
    how getting and giving back a block changes it.
  \<^item> \<open>Sb_Transmit\<close>, \<open>Sb_Send\<close>, \<open>Sb_Api\<close>, \<open>Sb_Receive\<close>, \<open>Sb_Subscribe\<close>, \<open>Sb_Pipes\<close>, \<open>Sb_Delete\<close> run each
    operation from a state with the invariant: it returns, keeps the invariant, and its result is computed.
  \<^item> \<open>Sb_Steps\<close> is the step relation of the bus, every public call and the application's own writes to a
    buffer it owns, in any order, each call as one step. Queues may begin or cease to fail between the calls. A step is labelled with the
    entries it loses, those left in a queue that cannot be read when its pipe is deleted; \<open>sb_history K s\<close> says that \<open>s\<close> is
    reached with the lost entries \<open>K\<close>, and \<open>sb_reach s\<close> that it is reached with some. The reachable states have the
    invariant, in which a lost entry still counts.
  \<^item> \<open>Sb_View\<close> is the abstract view: the subscribers of a message, the items of a queue, which buffers are
    owned and which are in transit. The properties in \<open>Sb_Safety\<close>, \<open>Sb_Delivery\<close> and \<open>Sb_Management\<close> speak of
    this view and of reachable states only. \<open>Sb_Demo\<close> runs the model from start-up to a bus with a
    subscribed pipe and an owned buffer, on which the hypotheses hold.
  \<^item> \<open>Time_Read\<close> runs a reader of the reference data, word by word, beside updates that the time task makes
    store by store: a reader that returns data returns one published version. The relation \<open>time_write\<close> makes the stores of
    \<open>Time_Ref\<close> (\<open>start_stores\<close>, of which \<open>CFE_TIME_StartReferenceUpdate\<close> is the composition, the assignments of a caller, and
    \<open>CFE_TIME_FinishReferenceUpdate\<close>), and is shown to follow the protocol \<open>ref_write\<close> on which the reader is proved. It assumes
    one writing task, volatile accesses in program order, and fewer than \<open>2 ^ 31\<close> updates during one attempt, as the
    version counter wraps. \<open>Time_Inv\<close> has the invariant of the
    time service, kept by every handler.
  \<^item> \<open>Lc_Value\<close> specifies the value of a watchpoint as a number, \<open>Lc_Table\<close> the hash table as a map from
    messages to lists of watchpoints, \<open>Lc_Rpn\<close> the value of an equation as that of an expression.
    \<open>Lc_Sample\<close> and \<open>Lc_Run\<close> follow the actionpoints through every message the application can get,
    \<open>Lc_Report\<close> computes the state after repeated samples and decodes housekeeping, and \<open>Lc_Start\<close> says
    what start-up restores. Its hypothesis \<open>boot_ok\<close> is the documented success of the services.
  \<^item> \<open>Sc_Frame\<close> has the contracts of views that an operation of one side does not change. \<open>Sc_Sched\<close> says which
    sequence is next and what a wakeup sends, \<open>Sc_Sequence\<close> reads a table as a list of commands with delays and
    computes the timetable of a sequence, \<open>Sc_Start\<close> begins it with the request of the limit checker, and
    \<open>Sc_Active\<close> and \<open>Sc_Boot\<close> count the running sequences from start-up on.
    \<open>Sc_Table\<close> reads the table of an absolute sequence as a list of numbered commands, which the validation
    accepts; \<open>Sc_Order\<close> and \<open>Sc_Load\<close> show that loading enters exactly that list, ordered by time.

  \<^bold>\<open>Not modelled.\<close> Event texts and the event service (events are recorded by their ID). Concurrency
  inside a call of the bus: the model takes a call as one step. The code holds the lock of the bus only in parts of a
  call; it releases it between finding the destinations, putting the message into the queues and releasing the buffer, and
  it empties the queue of a pipe that is deleted without the lock. The calls that other tasks make in these gaps, and a
  queue that begins to fail in the middle of a call, are not covered. The housekeeping, statistics and file-dump commands of
  \<open>cfe_sb_task.c\<close> and the string helpers of \<open>cfe_sb_util.c\<close>; the creation of the tasks and pipes of the time
  service, its message dispatch, its telemetry and the parts of it that other configurations compile. The table service, the executive's tasks and
  applications, the file service, the other objects of the operating system layer, the other applications,
  the drivers, the tools and the vendored tool chain are outside of this development.
\<close>

end
